(* ===== verification/Prelude.thy ===== *)
theory Prelude
  imports Main "HOL-Library.Word" "HOL-Library.AList" "HOL-Library.Char_ord"
    "HOL-Library.List_Lexorder" "HOL-Library.Sublist"
begin

text \<open>
  The vocabulary every component theory shares: bytes and big-endian integers
  (\<^verbatim>\<open>encoding/binary\<close>), Go strings and the functions of package \<^verbatim>\<open>strings\<close> the code
  calls, 64-bit \<^verbatim>\<open>int\<close> arithmetic, instants and durations (\<^verbatim>\<open>time\<close>), stream readers and
  writers (\<^verbatim>\<open>io.ReadFull\<close>, \<^verbatim>\<open>bufio\<close>), checked slices, Go maps and the lemma
  collections \<open>rd_simps\<close> (readers applied to what a writer produced), \<open>wr_simps\<close> (what a
  sequence of writes emits) and \<open>gomap\<close> (look-ups after updates).
\<close>

unbundle bit_operations_syntax

named_theorems rd_simps "readers applied to the bytes a writer produced"
named_theorems wr_simps "the bytes and the outcome of a sequence of writes"
named_theorems gomap "look-ups and invariants of Go maps"

section \<open>Bytes and machine integers\<close>

type_synonym byte = "8 word"
type_synonym bytes = "byte list"
type_synonym u16 = "16 word"
type_synonym u32 = "32 word"
type_synonym u64 = "64 word"

text \<open>Go's \<^verbatim>\<open>int\<close> and \<^verbatim>\<open>int64\<close> wrap around at 64 bits.\<close>

definition wrap64 :: "int \<Rightarrow> int" where
  "wrap64 x = (x + 2 ^ 63) mod 2 ^ 64 - 2 ^ 63"

lemma wrap64_id: "- (2 ^ 63) \<le> x \<Longrightarrow> x < 2 ^ 63 \<Longrightarrow> wrap64 x = x"
  by (simp add: wrap64_def)

lemma wrap64_lower: "- (2 ^ 63) \<le> wrap64 x"
proof -
  have "0 \<le> (x + 2 ^ 63) mod 2 ^ 64" by simp
  then show ?thesis unfolding wrap64_def by linarith
qed

lemma wrap64_upper: "wrap64 x < 2 ^ 63"
proof -
  have "(x + 2 ^ 63) mod 2 ^ 64 < 2 ^ 64" by simp
  then show ?thesis by (simp add: wrap64_def)
qed

lemma wrap64_mod: "wrap64 x mod 2 ^ 64 = x mod 2 ^ 64"
  unfolding wrap64_def by (simp add: mod_diff_left_eq)

text \<open>Go truncates integer division and remainder towards zero.\<close>

definition go_div :: "int \<Rightarrow> int \<Rightarrow> int" where
  "go_div a b = sgn a * sgn b * (\<bar>a\<bar> div \<bar>b\<bar>)"

definition go_mod :: "int \<Rightarrow> int \<Rightarrow> int" where
  "go_mod a b = sgn a * (\<bar>a\<bar> mod \<bar>b\<bar>)"

lemma go_div_nonneg: "0 \<le> a \<Longrightarrow> 0 < b \<Longrightarrow> go_div a b = a div b"
  by (cases "a = 0") (simp_all add: go_div_def)

lemma go_mod_nonneg: "0 \<le> a \<Longrightarrow> 0 < b \<Longrightarrow> go_mod a b = a mod b"
  by (cases "a = 0") (simp_all add: go_mod_def)

lemma go_mod_bounds: "0 < b \<Longrightarrow> - b < go_mod a b \<and> go_mod a b < b"
proof -
  assume b: "0 < b"
  have m: "0 \<le> x mod b" "x mod b < b" for x
    using b by simp_all
  have p: "- b < x mod b" "- (x mod b) < b" for x
    using m [of x] b by linarith+
  consider "a < 0" | "a = 0" | "0 < a" by linarith
  then show ?thesis using m p b by cases (auto simp: go_mod_def)
qed

subsection \<open>Big-endian integers\<close>

fun be_put :: "nat \<Rightarrow> 'a::len word \<Rightarrow> bytes" where
  "be_put 0 w = []"
| "be_put (Suc n) w = be_put n (drop_bit 8 w) @ [ucast w]"

definition be_get :: "bytes \<Rightarrow> 'a::len word" where
  "be_get bs = foldl (\<lambda>acc b. push_bit 8 acc OR ucast b) 0 bs"

lemma length_be_put [simp]: "length (be_put n w) = n"
  by (induction n arbitrary: w) auto

lemma be_put_nonempty [simp]: "be_put (Suc n) w \<noteq> []"
  by simp

lemma be_get_Nil [simp]: "be_get [] = 0"
  by (simp add: be_get_def)

lemma be_get_snoc: "be_get (bs @ [b]) = push_bit 8 (be_get bs) OR ucast b"
  by (simp add: be_get_def)

lemma be_get_be_put: "be_get (be_put n (w :: 'a::len word)) = take_bit (8 * n) w"
proof (induction n arbitrary: w)
  case 0
  then show ?case by simp
next
  case (Suc n)
  show ?case
    by (rule bit_word_eqI)
      (auto simp: be_get_snoc Suc.IH bit_or_iff bit_push_bit_iff bit_take_bit_iff
        bit_drop_bit_eq bit_ucast_iff not_less)
qed

lemma be_get_be_put16 [simp]: "be_get (be_put 2 (w :: u16)) = w"
  and be_get_be_put32 [simp]: "be_get (be_put 4 (x :: u32)) = x"
  and be_get_be_put64 [simp]: "be_get (be_put 8 (y :: u64)) = y"
  by (simp_all add: be_get_be_put take_bit_word_eq_self)

lemma be_put_be_get:
  "8 * length bs \<le> LENGTH('a) \<Longrightarrow> be_put (length bs) (be_get bs :: 'a::len word) = bs"
proof (induction bs rule: rev_induct)
  case Nil
  then show ?case by simp
next
  case (snoc b bs)
  have d: "drop_bit 8 (be_get (bs @ [b]) :: 'a word) = be_get bs"
  proof (rule bit_word_eqI)
    fix n assume n: "n < LENGTH('a)"
    have "bit (be_get bs :: 'a word) n \<Longrightarrow> 8 + n < LENGTH('a)"
    proof -
      assume bt: "bit (be_get bs :: 'a word) n"
      have "take_bit (8 * length bs) (be_get bs :: 'a word) = be_get bs"
        using snoc by (metis be_get_be_put add_leD1 length_append mult_le_mono2 le_add1 order_trans)
      then have "n < 8 * length bs" using bt by (metis bit_take_bit_iff)
      then show ?thesis using snoc.prems by simp
    qed
    then show "bit (drop_bit 8 (be_get (bs @ [b]) :: 'a word)) n = bit (be_get bs :: 'a word) n"
      using n by (auto simp: be_get_snoc bit_drop_bit_eq bit_or_iff bit_push_bit_iff bit_ucast_iff
          dest: bit_imp_le_length)
  qed
  have l: "8 \<le> LENGTH('a)" using snoc.prems by simp
  have u: "ucast (be_get (bs @ [b]) :: 'a word) = b"
    using l by (intro bit_word_eqI)
      (auto simp: be_get_snoc bit_ucast_iff bit_or_iff bit_push_bit_iff)
  show ?case using snoc d u by simp
qed

lemma be_put_2_nat:
  assumes "v < 65536"
  shows "[word_of_nat (v div 256), word_of_nat v] = be_put 2 (word_of_nat v :: u16)"
proof -
  have "bit v k \<Longrightarrow> k < 16" for k
    using assms take_bit_nat_eq_self [of v 16] by (simp, metis bit_take_bit_iff)
  then have "drop_bit 8 (word_of_nat v :: u16) = word_of_nat (v div 256)"
    by (intro bit_word_eqI) (fastforce simp: bit_simps simp flip: drop_bit_eq_div [of 8, simplified])
  then show ?thesis
    by (simp add: numeral_2_eq_2) (auto intro!: bit_word_eqI simp: bit_simps)
qed

lemma take_bit_small [rd_simps]:
  "(n :: nat) < 256 \<Longrightarrow> take_bit 8 n = n"
  "(n :: nat) < 65536 \<Longrightarrow> take_bit 16 n = n"
  "(n :: nat) < 4294967296 \<Longrightarrow> take_bit 32 n = n"
  by (simp_all add: take_bit_nat_eq_self)

lemma unat_small [rd_simps]:
  "n < 256 \<Longrightarrow> unat (word_of_nat n :: byte) = n"
  "n < 65536 \<Longrightarrow> unat (word_of_nat n :: u16) = n"
  "n < 4294967296 \<Longrightarrow> unat (word_of_nat n :: u32) = n"
  by (simp_all add: unat_of_nat)

lemma word_of_nat_eq_0_u16 [rd_simps]:
  "(n :: nat) < 65536 \<Longrightarrow> (word_of_nat n :: u16) = 0 \<longleftrightarrow> n = 0"
  by (auto simp: word_of_nat_eq_0_iff dest: dvd_imp_le)

section \<open>Lists\<close>

lemma suffix_iff_drop:
  "suffix xs ys \<longleftrightarrow> length xs \<le> length ys \<and> drop (length ys - length xs) ys = xs"
  by (auto simp: suffix_def) (metis append_take_drop_id)

lemma drop_Suc_tl: "drop (Suc n) xs = tl (drop n xs)"
  by (simp add: drop_Suc tl_drop)

text \<open>
  \<open>pick better\<close> is the loop that scans for the best candidate: the first one, replaced by a
  later one whose key is better than that of the current choice.
\<close>

fun pick :: "('k \<Rightarrow> 'k \<Rightarrow> bool) \<Rightarrow> ('a \<times> 'k) list \<Rightarrow> ('a \<times> 'k) option \<Rightarrow> ('a \<times> 'k) option" where
  "pick better [] w = w"
| "pick better ((a, k) # xs) w =
     pick better xs (case w of None \<Rightarrow> Some (a, k) | Some (_, k0) \<Rightarrow> if better k0 k then Some (a, k) else w)"

lemma pick_Some_start: "\<exists>r. pick better xs (Some w) = Some r"
  by (induction better xs "Some w" arbitrary: w rule: pick.induct) (auto split: prod.splits)

lemma pick_None: "pick better xs None = None \<longleftrightarrow> xs = []"
proof (cases xs)
  case (Cons x xs')
  then show ?thesis using pick_Some_start [of better xs' x] by (cases x) auto
qed simp

lemma pick_from:
  fixes m :: "'k \<Rightarrow> 'm::linorder"
  assumes "\<And>k1 k2. k1 \<in> K \<Longrightarrow> k2 \<in> K \<Longrightarrow> better k1 k2 \<longleftrightarrow> m k1 < m k2"
  shows "snd ` set xs \<subseteq> K \<Longrightarrow> snd w \<in> K \<Longrightarrow> pick better xs (Some w) = Some (a, k) \<Longrightarrow>
    (a, k) \<in> set (w # xs) \<and> (\<forall>(b, k') \<in> set (w # xs). m k' \<le> m k)"
proof (induction xs arbitrary: w)
  case (Cons x xs)
  obtain a1 k1 where x: "x = (a1, k1)" by (cases x)
  obtain a0 k0 where w: "w = (a0, k0)" by (cases w)
  let ?w = "if better k0 k1 then (a1, k1) else w"
  have "pick better xs (Some ?w) = Some (a, k)"
    using Cons.prems(3) by (auto simp: x w split: if_splits)
  moreover have "snd ?w \<in> K" "snd ` set xs \<subseteq> K" using Cons.prems by (auto simp: x w)
  ultimately have "(a, k) \<in> set (?w # xs) \<and> (\<forall>(b, k') \<in> set (?w # xs). m k' \<le> m k)"
    using Cons.IH by blast
  moreover have "better k0 k1 \<longleftrightarrow> m k0 < m k1" using Cons.prems assms by (auto simp: x w)
  ultimately show ?case by (auto simp: x w split: if_splits)
qed auto

lemma pick_best:
  fixes m :: "'k \<Rightarrow> 'm::linorder"
  assumes "\<forall>k1 \<in> snd ` set xs. \<forall>k2 \<in> snd ` set xs. better k1 k2 \<longleftrightarrow> m k1 < m k2"
    and "pick better xs None = Some (a, k)"
  shows "(a, k) \<in> set xs" and "\<And>b k'. (b, k') \<in> set xs \<Longrightarrow> m k' \<le> m k"
proof -
  obtain x xs' where xs: "xs = x # xs'" using assms(2) by (cases xs) auto
  then have "pick better xs' (Some x) = Some (a, k)" using assms(2) by (cases x) simp
  moreover have "\<And>k1 k2. k1 \<in> snd ` set xs \<Longrightarrow> k2 \<in> snd ` set xs \<Longrightarrow> better k1 k2 \<longleftrightarrow> m k1 < m k2"
    using assms(1) by blast
  ultimately have "(a, k) \<in> set (x # xs') \<and> (\<forall>(b, k') \<in> set (x # xs'). m k' \<le> m k)"
    by (intro pick_from [where K = "snd ` set xs" and better = better]) (simp_all add: xs subset_insertI)
  then show "(a, k) \<in> set xs" and "\<And>b k'. (b, k') \<in> set xs \<Longrightarrow> m k' \<le> m k"
    by (auto simp: xs)
qed

section \<open>Errors\<close>

text \<open>
  The error values of the code. \<open>Panic\<close> is a run-time panic of the Go program (an index or
  slice out of range), a value of its own so that its absence is a theorem.
\<close>

datatype go_error = EOF | UnexpectedEOF | Error string | Panic string

definition no_panic :: "go_error + 'a \<Rightarrow> bool" where
  "no_panic r = (case r of Inl (Panic _) \<Rightarrow> False | _ \<Rightarrow> True)"

lemma no_panic_simps [simp]:
  "no_panic (Inr x)" "no_panic (Inl EOF)" "no_panic (Inl UnexpectedEOF)"
  "no_panic (Inl (Error e))" "\<not> no_panic (Inl (Panic p))"
  by (simp_all add: no_panic_def)

definition ebind :: "go_error + 'a \<Rightarrow> ('a \<Rightarrow> go_error + 'b) \<Rightarrow> go_error + 'b" where
  "ebind m f = (case m of Inl e \<Rightarrow> Inl e | Inr x \<Rightarrow> f x)"

lemma ebind_simps [simp]: "ebind (Inl e) f = Inl e" "ebind (Inr x) f = f x"
  by (simp_all add: ebind_def)

lemma ebind_Inr_iff: "ebind m f = Inr y \<longleftrightarrow> (\<exists>x. m = Inr x \<and> f x = Inr y)"
  by (cases m) auto

subsection \<open>Checked indexing and slicing\<close>

definition bidx :: "'a list \<Rightarrow> nat \<Rightarrow> go_error + 'a" where
  "bidx b i = (if i < length b then Inr (b ! i) else Inl (Panic ''index out of range''))"

definition bslice :: "'a list \<Rightarrow> nat \<Rightarrow> nat \<Rightarrow> go_error + 'a list" where
  "bslice b i j =
     (if i \<le> j \<and> j \<le> length b then Inr (take (j - i) (drop i b))
      else Inl (Panic ''slice bounds out of range''))"

lemma bidx_ok [simp]: "i < length b \<Longrightarrow> bidx b i = Inr (b ! i)"
  by (simp add: bidx_def)

lemma bslice_ok [simp]: "i \<le> j \<Longrightarrow> j \<le> length b \<Longrightarrow> bslice b i j = Inr (take (j - i) (drop i b))"
  by (simp add: bslice_def)

lemma bslice_mid: "length a = i \<Longrightarrow> length a + length m = j \<Longrightarrow> bslice (a @ m @ c) i j = Inr m"
  by (auto simp: bslice_def)

lemma no_panic_bidx [simp]: "no_panic (bidx b i) \<longleftrightarrow> i < length b"
  by (simp add: bidx_def)

lemma no_panic_bslice [simp]: "no_panic (bslice b i j) \<longleftrightarrow> i \<le> j \<and> j \<le> length b"
  by (simp add: bslice_def)

lemma no_panic_ebind:
  "no_panic m \<Longrightarrow> (\<And>x. m = Inr x \<Longrightarrow> no_panic (f x)) \<Longrightarrow> no_panic (ebind m f)"
  by (cases m) (auto simp: no_panic_def split: go_error.splits)

lemma no_panic_if: "(c \<Longrightarrow> no_panic a) \<Longrightarrow> (\<not> c \<Longrightarrow> no_panic b) \<Longrightarrow> no_panic (if c then a else b)"
  by simp

section \<open>Readers\<close>

text \<open>
  A reader is a function of the bytes still to come. \<open>read_full n\<close> is \<^verbatim>\<open>io.ReadFull\<close> into a
  buffer of \<open>n\<close> bytes: the error is \<open>EOF\<close> when the stream was already at its end and
  \<open>UnexpectedEOF\<close> when it ended inside the buffer. \<open>read_byte\<close> is \<^verbatim>\<open>bufio.Reader.ReadByte\<close>.
\<close>

type_synonym 'a rd = "bytes \<Rightarrow> go_error + ('a \<times> bytes)"

definition rret :: "'a \<Rightarrow> 'a rd" where
  "rret x s = Inr (x, s)"

definition rfail :: "go_error \<Rightarrow> 'a rd" where
  "rfail e s = Inl e"

definition rbind :: "'a rd \<Rightarrow> ('a \<Rightarrow> 'b rd) \<Rightarrow> 'b rd" where
  "rbind m f s = (case m s of Inl e \<Rightarrow> Inl e | Inr (x, s') \<Rightarrow> f x s')"

definition read_full :: "nat \<Rightarrow> bytes rd" where
  "read_full n s =
     (if n \<le> length s then Inr (take n s, drop n s)
      else Inl (if s = [] then EOF else UnexpectedEOF))"

definition read_byte :: "byte rd" where
  "read_byte s = (case s of [] \<Rightarrow> Inl EOF | b # s' \<Rightarrow> Inr (b, s'))"

definition read_u16 :: "u16 rd" where
  "read_u16 = rbind (read_full 2) (\<lambda>b. rret (be_get b))"

definition read_u32 :: "u32 rd" where
  "read_u32 = rbind (read_full 4) (\<lambda>b. rret (be_get b))"

lemma rret_app [rd_simps]: "rret x s = Inr (x, s)"
  and rfail_app [rd_simps]: "rfail e s = Inl e"
  by (simp_all add: rret_def rfail_def)

lemma rbind_app [rd_simps]:
  "rbind m f s = (case m s of Inl e \<Rightarrow> Inl e | Inr (x, s') \<Rightarrow> f x s')"
  by (simp add: rbind_def)

lemma read_optional_byte [rd_simps]:
  "(if c then read_byte else rret b) ((if c then [a] else []) @ r) = Inr (if c then a else b, r)"
  by (simp add: read_byte_def rret_def)

lemma rbind_eq_Inr:
  "rbind m f s = Inr r \<longleftrightarrow> (\<exists>x s'. m s = Inr (x, s') \<and> f x s' = Inr r)"
  by (auto simp: rbind_def split: sum.splits)

lemma read_full_append [rd_simps]: "length a = n \<Longrightarrow> read_full n (a @ r) = Inr (a, r)"
  by (simp add: read_full_def)

lemma read_byte_Cons [rd_simps]: "read_byte (b # s) = Inr (b, s)"
  and read_byte_Nil [rd_simps]: "read_byte [] = Inl EOF"
  by (simp_all add: read_byte_def)

lemma no_panic_rbind:
  "no_panic (m s) \<Longrightarrow> (\<And>x r. m s = Inr (x, r) \<Longrightarrow> no_panic (f x r)) \<Longrightarrow> no_panic (rbind m f s)"
  by (auto simp: rbind_def no_panic_def split: sum.splits go_error.splits)

lemma no_panic_prims [simp]:
  "no_panic (rret x s)" "no_panic (read_full n s)" "no_panic (read_byte s)"
  "no_panic (rfail e s) \<longleftrightarrow> no_panic (Inl e :: go_error + unit)"
  by (auto simp: rret_def read_full_def read_byte_def rfail_def no_panic_def split: list.splits go_error.splits)

lemma no_panic_u [simp]: "no_panic (read_u16 s)" "no_panic (read_u32 s)"
  by (auto simp: read_u16_def read_u32_def intro!: no_panic_rbind)

lemma read_full_Inr:
  "read_full n s = Inr (a, r) \<longleftrightarrow> s = a @ r \<and> length a = n"
  by (auto simp: read_full_def append_eq_conv_conj)

lemma read_byte_Inr: "read_byte s = Inr (b, r) \<longleftrightarrow> s = b # r"
  by (cases s) (auto simp: read_byte_def)

lemma read_u16_be_put [rd_simps]: "read_u16 (be_put 2 w @ r) = Inr (w, r)"
  by (simp add: read_u16_def rd_simps)

lemma read_u32_be_put [rd_simps]: "read_u32 (be_put 4 w @ r) = Inr (w, r)"
  by (simp add: read_u32_def rd_simps)

lemma read_u16_Inr: "read_u16 s = Inr (w, r) \<longleftrightarrow> s = be_put 2 w @ r"
proof
  assume "read_u16 s = Inr (w, r)"
  then obtain a where a: "s = a @ r" "length a = 2" "w = be_get a"
    by (auto simp: read_u16_def rbind_eq_Inr read_full_Inr rret_def)
  then have "be_put 2 w = a" using be_put_be_get [of a, where 'a = 16] by simp
  with a show "s = be_put 2 w @ r" by simp
qed (simp add: rd_simps)

lemma read_u32_Inr: "read_u32 s = Inr (w, r) \<longleftrightarrow> s = be_put 4 w @ r"
proof
  assume "read_u32 s = Inr (w, r)"
  then obtain a where a: "s = a @ r" "length a = 4" "w = be_get a"
    by (auto simp: read_u32_def rbind_eq_Inr read_full_Inr rret_def)
  then have "be_put 4 w = a" using be_put_be_get [of a, where 'a = 32] by simp
  with a show "s = be_put 4 w @ r" by simp
qed (simp add: rd_simps)

text \<open>A reader consumes a prefix: what it leaves is a suffix of what it was given.\<close>

definition consumes :: "'a rd \<Rightarrow> bool" where
  "consumes m \<longleftrightarrow> (\<forall>s x r. m s = Inr (x, r) \<longrightarrow> suffix r s)"

lemma consumesD: "consumes m \<Longrightarrow> m s = Inr (x, r) \<Longrightarrow> suffix r s"
  by (simp add: consumes_def)

lemma consumes_prims [intro]:
  "consumes (rret x)" "consumes (rfail e)" "consumes (read_full n)" "consumes read_byte"
  by (auto simp: consumes_def rret_def rfail_def read_full_Inr read_byte_Inr suffix_def)

lemma consumes_rbind [intro]:
  "consumes m \<Longrightarrow> (\<And>x. consumes (f x)) \<Longrightarrow> consumes (rbind m f)"
  unfolding consumes_def rbind_eq_Inr by (metis suffix_order.order_trans)

lemma consumes_u16 [intro]: "consumes read_u16"
  and consumes_u32 [intro]: "consumes read_u32"
  by (auto simp: read_u16_def read_u32_def)

lemma consumes_if [intro]: "consumes a \<Longrightarrow> consumes b \<Longrightarrow> consumes (if c then a else b)"
  by simp

section \<open>Writers\<close>

text \<open>
  A writing function yields the list of its writes and flushes, in order, and the error it
  returned, if any. Every write error of the code makes the function return at once; that a
  failing connection has then received a prefix of the bytes is \<open>deliver_prefix\<close>.
\<close>

datatype wact = Wr bytes | Fl

type_synonym wout = "wact list \<times> go_error option"

definition wwrite :: "bytes \<Rightarrow> wout" where
  "wwrite b = ([Wr b], None)"

definition wflush :: wout where
  "wflush = ([Fl], None)"

definition wok :: wout where
  "wok = ([], None)"

definition werr :: "go_error \<Rightarrow> wout" where
  "werr e = ([], Some e)"

definition wthen :: "wout \<Rightarrow> wout \<Rightarrow> wout" where
  "wthen a b = (case snd a of None \<Rightarrow> (fst a @ fst b, snd b) | Some e \<Rightarrow> a)"

fun wseq :: "wout list \<Rightarrow> wout" where
  "wseq [] = wok"
| "wseq (a # as) = wthen a (wseq as)"

fun acts_bytes :: "wact list \<Rightarrow> bytes" where
  "acts_bytes [] = []"
| "acts_bytes (Wr b # as) = b @ acts_bytes as"
| "acts_bytes (Fl # as) = acts_bytes as"

definition wbytes :: "wout \<Rightarrow> bytes" where
  "wbytes w = acts_bytes (fst w)"

definition wfailed :: "wout \<Rightarrow> go_error option" where
  "wfailed w = snd w"

lemma acts_bytes_append [simp]: "acts_bytes (as @ bs) = acts_bytes as @ acts_bytes bs"
  by (induction as rule: acts_bytes.induct) auto

lemma w_prims [wr_simps]:
  "wbytes (wwrite b) = b" "wbytes wflush = []" "wbytes wok = []" "wbytes (werr e) = []"
  "wfailed (wwrite b) = None" "wfailed wflush = None" "wfailed wok = None"
  "wfailed (werr e) = Some e"
  by (simp_all add: wbytes_def wfailed_def wwrite_def wflush_def wok_def werr_def)

lemma wbytes_wthen [wr_simps]:
  "wbytes (wthen a b) = wbytes a @ (if wfailed a = None then wbytes b else [])"
  by (auto simp: wbytes_def wthen_def wfailed_def split: option.splits)

lemma wfailed_wthen [wr_simps]:
  "wfailed (wthen a b) = (if wfailed a = None then wfailed b else wfailed a)"
  by (auto simp: wthen_def wfailed_def split: option.splits)

lemma wthen_wok [wr_simps]: "wthen wok a = a" "wthen a wok = a"
  by (cases a; auto simp: wthen_def wok_def split: option.splits)+

lemma wthen_assoc: "wthen (wthen a b) c = wthen a (wthen b c)"
  by (auto simp: wthen_def split: option.splits)

text \<open>\<open>deliver k\<close>: the connection accepts \<open>k\<close> bytes and then fails for good.\<close>

fun deliver :: "nat \<Rightarrow> wact list \<Rightarrow> bytes \<times> bool" where
  "deliver k [] = ([], True)"
| "deliver k (Fl # as) = deliver k as"
| "deliver k (Wr b # as) =
     (if length b \<le> k then (let (r, ok) = deliver (k - length b) as in (b @ r, ok))
      else (take k b, False))"

lemma deliver_prefix: "prefix (fst (deliver k as)) (acts_bytes as)"
  by (induction k as rule: deliver.induct) (auto simp: Let_def split_beta take_is_prefix)

lemma deliver_enough: "length (acts_bytes as) \<le> k \<Longrightarrow> deliver k as = (acts_bytes as, True)"
  by (induction k as rule: deliver.induct) auto

section \<open>Randomness\<close>

text \<open>
  \<^verbatim>\<open>crypto/rand\<close> and \<^verbatim>\<open>math/rand\<close> are an argument: \<open>fst e i\<close> is what the \<open>i\<close>-th integer draw
  came up with before it is reduced to its range and \<open>snd e i\<close> the bytes of the \<open>i\<close>-th read.
  Every outcome the generators can produce is the outcome for some \<open>e\<close>, so a statement for
  all \<open>e\<close> holds for every run. (From Go 1.24, the version the module asks for, \<^verbatim>\<open>rand.Read\<close>
  never returns an error.)
\<close>

type_synonym entropy = "(nat \<Rightarrow> nat) \<times> (nat \<Rightarrow> nat \<Rightarrow> byte)"

definition rand_int :: "entropy \<Rightarrow> nat \<Rightarrow> nat \<Rightarrow> nat" where
  "rand_int e i m = fst e i mod m"

definition rand_read :: "entropy \<Rightarrow> nat \<Rightarrow> nat \<Rightarrow> bytes" where
  "rand_read e i n = map (snd e i) [0..<n]"

lemma rand_int_less [simp]: "0 < m \<Longrightarrow> rand_int e i m < m"
  by (simp add: rand_int_def)

lemma length_rand_read [simp]: "length (rand_read e i n) = n"
  by (simp add: rand_read_def)

section \<open>Instants and durations\<close>

text \<open>
  An instant is its number of nanoseconds since the Unix epoch (an \<open>int\<close>), a duration a
  number of nanoseconds. \<open>zero_time\<close> is the zero \<^verbatim>\<open>time.Time\<close> (1 January of year 1), which
  \<^verbatim>\<open>IsZero\<close> tests for. \<^verbatim>\<open>Time.Sub\<close> saturates at the largest and smallest duration.
\<close>

type_synonym instant = int
type_synonym duration = int

definition zero_time :: instant where
  "zero_time = - 62135596800 * 1000000000"

definition second :: duration where "second = 1000000000"
definition millisecond :: duration where "millisecond = 1000000"
definition minute :: duration where "minute = 60 * second"
definition hour :: duration where "hour = 60 * minute"

lemmas duration_units = second_def millisecond_def minute_def hour_def

definition unix :: "instant \<Rightarrow> int" where
  "unix t = t div 1000000000"

definition unix_milli :: "instant \<Rightarrow> int" where
  "unix_milli t = t div 1000000"

definition from_unix :: "int \<Rightarrow> instant" where
  "from_unix s = s * 1000000000"

definition time_sub :: "instant \<Rightarrow> instant \<Rightarrow> duration" where
  "time_sub a b = max (- (2 ^ 63)) (min (2 ^ 63 - 1) (a - b))"

lemma unix_mono: "a \<le> b \<Longrightarrow> unix a \<le> unix b"
  by (simp add: unix_def zdiv_mono1)

lemma time_sub_gt: "0 \<le> d \<Longrightarrow> d < 2 ^ 63 - 1 \<Longrightarrow> d < time_sub a b \<longleftrightarrow> d < a - b"
  by (auto simp: time_sub_def)

section \<open>Go maps\<close>

text \<open>
  A Go map is an association list with distinct keys; the order of the list is the order a
  \<^verbatim>\<open>range\<close> loop visits the entries in. Go leaves that order open, and every statement about
  a loop over a map is for an arbitrary list, so it holds whatever the order is.
\<close>

type_synonym ('k, 'v) gomap = "('k \<times> 'v) list"

definition gomap_ok :: "('k, 'v) gomap \<Rightarrow> bool" where
  "gomap_ok m \<longleftrightarrow> distinct (map fst m)"

definition mput :: "'k \<Rightarrow> 'v \<Rightarrow> ('k, 'v) gomap \<Rightarrow> ('k, 'v) gomap" where
  "mput k v m = AList.update k v m"

definition mdel :: "'k \<Rightarrow> ('k, 'v) gomap \<Rightarrow> ('k, 'v) gomap" where
  "mdel k m = filter (\<lambda>(k', _). k' \<noteq> k) m"

definition mget :: "('k, 'v) gomap \<Rightarrow> 'k \<Rightarrow> 'v option" where
  "mget m k = map_of m k"

lemma mget_Nil [gomap]: "mget [] k = None"
  by (simp add: mget_def)

lemma mget_mput [gomap]: "mget (mput k v m) k' = (if k' = k then Some v else mget m k')"
  by (simp add: mget_def mput_def AList.update_conv)

lemma mget_mdel [gomap]: "mget (mdel k m) k' = (if k' = k then None else mget m k')"
  by (induction m) (auto simp: mget_def mdel_def)

lemma gomap_ok_Nil [gomap, simp]: "gomap_ok []"
  by (simp add: gomap_ok_def)

lemma gomap_ok_mput [gomap]: "gomap_ok m \<Longrightarrow> gomap_ok (mput k v m)"
  by (simp add: gomap_ok_def mput_def AList.distinct_update)

lemma gomap_ok_filter [gomap]: "gomap_ok m \<Longrightarrow> gomap_ok (filter p m)"
  by (induction m) (auto simp: gomap_ok_def)

lemma gomap_ok_mdel [gomap]: "gomap_ok m \<Longrightarrow> gomap_ok (mdel k m)"
  by (simp add: mdel_def gomap_ok_filter)

lemma mget_filter:
  "gomap_ok m \<Longrightarrow>
   mget (filter (\<lambda>(k, v). p k v) m) k = (case mget m k of Some v \<Rightarrow> if p k v then Some v else None | None \<Rightarrow> None)"
proof (induction m)
  case Nil
  then show ?case by (simp add: mget_def)
next
  case (Cons e m)
  obtain a b where e: "e = (a, b)" by (cases e)
  have "map_of m a = None" using Cons.prems e
    by (auto simp: gomap_ok_def map_of_eq_None_iff)
  then show ?case using Cons e
    by (auto simp: mget_def gomap_ok_def split: option.splits)
qed

lemma mget_Some_in: "mget m k = Some v \<Longrightarrow> (k, v) \<in> set m"
  by (simp add: mget_def map_of_SomeD)

lemma mget_in: "gomap_ok m \<Longrightarrow> (k, v) \<in> set m \<longleftrightarrow> mget m k = Some v"
  by (simp add: gomap_ok_def mget_def)

lemma mget_None_iff: "mget m k = None \<longleftrightarrow> k \<notin> fst ` set m"
  by (simp add: mget_def map_of_eq_None_iff)

lemma keys_mput: "fst ` set (mput k v m) = insert k (fst ` set m)"
  by (simp add: mput_def AList.dom_update)

lemma length_mput_new: "mget m k = None \<Longrightarrow> length (mput k v m) = Suc (length m)"
  by (induction m) (auto simp: mget_def mput_def split: if_splits)

lemma length_mput_old: "mget m k = Some w \<Longrightarrow> length (mput k v m) = length m"
  by (induction m) (auto simp: mget_def mput_def split: if_splits)

lemma length_mdel_le: "length (mdel k m) \<le> length m"
  by (simp add: mdel_def)

lemma length_mdel: "gomap_ok m \<Longrightarrow> mget m k = Some v \<Longrightarrow> Suc (length (mdel k m)) = length m"
proof (induction m)
  case Nil
  then show ?case by (simp add: mget_def)
next
  case (Cons e m)
  obtain a b where e: "e = (a, b)" by (cases e)
  show ?case
  proof (cases "a = k")
    case True
    have "mdel k m = m" using Cons.prems(1) e True
      by (force simp: gomap_ok_def mdel_def filter_id_conv)
    then show ?thesis using True e by (simp add: mdel_def)
  next
    case False
    then show ?thesis using Cons e by (auto simp: mdel_def gomap_ok_def mget_def)
  qed
qed

end
