(* ===== verification/Interfaces.thy ===== *)
theory Interfaces
  imports Prelude
begin

text \<open>
  The interfaces the components share, as locales. \<open>stream_codec\<close> is a wire format: an encoder,
  the reader of the other side, and the values the format can carry. \<open>replay_guard\<close> is a memory
  of things seen, which must turn down what it has accepted within its window. Each is
  interpreted on the code's own definitions in the theory of the component that provides it.
\<close>

section \<open>Wire formats\<close>

fun read_many :: "nat \<Rightarrow> 'a rd \<Rightarrow> 'a list rd" where
  "read_many 0 d = rret []"
| "read_many (Suc n) d = rbind d (\<lambda>x. rbind (read_many n d) (\<lambda>xs. rret (x # xs)))"

locale stream_codec =
  fixes enc :: "'a \<Rightarrow> bytes"
    and dec :: "'a rd"
    and carries :: "'a \<Rightarrow> bool"
  assumes roundtrip: "carries x \<Longrightarrow> dec (enc x @ r) = Inr (x, r)"
begin

lemma roundtrip_exact: "carries x \<Longrightarrow> dec (enc x) = Inr (x, [])"
  using roundtrip [of x "[]"] by simp

text \<open>No encoding is a prefix of another, so messages need no separator.\<close>

lemma enc_prefix_free:
  assumes "carries x" and "carries y" and "enc x @ r = enc y @ s"
  shows "x = y" and "r = s"
proof -
  have "Inr (x, r) = dec (enc x @ r)" by (rule roundtrip [OF assms(1), symmetric])
  also have "\<dots> = Inr (y, s)" unfolding assms(3) by (rule roundtrip [OF assms(2)])
  finally show "x = y" and "r = s" by simp_all
qed

lemma enc_inj: "carries x \<Longrightarrow> carries y \<Longrightarrow> enc x = enc y \<Longrightarrow> x = y"
  by (rule enc_prefix_free(1) [of x y "[]" "[]"]) simp_all

text \<open>A stream of messages is read back message by message.\<close>

lemma read_many_concat:
  "\<forall>x \<in> set xs. carries x \<Longrightarrow>
   read_many (length xs) dec (concat (map enc xs) @ r) = Inr (xs, r)"
  by (induction xs) (auto simp: rbind_def rret_def roundtrip)

end

section \<open>Replay guards\<close>

text \<open>
  \<open>remember t k s\<close> is asked at time \<open>t\<close> whether the key \<open>k\<close> is new. \<open>valid t s\<close> says that
  \<open>s\<close> is a state of the guard at time \<open>t\<close>; \<open>fresh_until\<close> is how long an accepted key is held.
\<close>

locale replay_guard =
  fixes remember :: "int \<Rightarrow> 'k \<Rightarrow> 's \<Rightarrow> bool \<times> 's"
    and held :: "int \<Rightarrow> 'k \<Rightarrow> 's \<Rightarrow> bool"
    and ok :: "'s \<Rightarrow> bool"
    and window :: int
  assumes ok_remember: "ok s \<Longrightarrow> ok (snd (remember t k s))"
    and accepts_new: "ok s \<Longrightarrow> fst (remember t k s) \<longleftrightarrow> \<not> held t k s"
    and held_self: "ok s \<Longrightarrow> t \<le> u \<Longrightarrow> u \<le> t + window \<Longrightarrow>
      fst (remember t k s) \<Longrightarrow> held u k (snd (remember t k s))"
    and held_keeps: "ok s \<Longrightarrow> t \<le> u \<Longrightarrow> held u k s \<Longrightarrow> held u k (snd (remember t j s))"
begin

fun run_guard :: "(int \<times> 'k) list \<Rightarrow> 's \<Rightarrow> 's" where
  "run_guard [] s = s"
| "run_guard ((t, k) # es) s = run_guard es (snd (remember t k s))"

lemma ok_run: "ok s \<Longrightarrow> ok (run_guard es s)"
  by (induction es s rule: run_guard.induct) (auto simp: ok_remember)

lemma held_run:
  "ok s \<Longrightarrow> held u k s \<Longrightarrow> \<forall>(t, j) \<in> set es. t \<le> u \<Longrightarrow> held u k (run_guard es s)"
  by (induction es s rule: run_guard.induct) (auto simp: ok_remember held_keeps)

text \<open>
  What was accepted at \<open>t\<close> is turned down at every later time within the window, whatever else
  the guard was asked in between.
\<close>

lemma no_replay:
  assumes "ok s" and "fst (remember t k s)"
    and "t \<le> u" and "u \<le> t + window" and "\<forall>(t', j) \<in> set es. t' \<le> u"
  shows "\<not> fst (remember u k (run_guard es (snd (remember t k s))))"
proof -
  have "held u k (snd (remember t k s))"
    using assms by (intro held_self) auto
  then have "held u k (run_guard es (snd (remember t k s)))"
    using assms by (intro held_run) (auto simp: ok_remember)
  then show ?thesis using assms(1) by (simp add: accepts_new ok_run ok_remember)
qed

end

end
