(* ===== verification/GoStd.thy ===== *)
theory GoStd
  imports Prelude
begin

text \<open>
  The parts of Go's standard library the code calls. Go strings: byte strings, kept as \<open>string\<close> (a \<open>char\<close> is a byte). The functions of package
  \<^verbatim>\<open>strings\<close> and \<^verbatim>\<open>strconv\<close> the code calls. \<open>trim_space\<close> is exact for every string,
  the Unicode spaces in UTF-8 included; the case mappings are exact for ASCII letters and leave
  every other byte as it is.
\<close>

section \<open>Bytes of a string\<close>

definition byte_of_char :: "char \<Rightarrow> byte" where
  "byte_of_char c = word_of_nat (of_char c)"

definition char_of_byte :: "byte \<Rightarrow> char" where
  "char_of_byte b = char_of (unat b)"

lemma char_of_byte_of_char [simp]: "char_of_byte (byte_of_char c) = c"
proof -
  have "of_char c < (256 :: nat)" by (cases c) (simp add: of_char_def)
  then show ?thesis by (simp add: char_of_byte_def byte_of_char_def unat_of_nat)
qed

lemma byte_of_char_of_byte [simp]: "byte_of_char (char_of_byte b) = b"
proof -
  have "unat b < 256" using unsigned_less [of b, where 'a = nat] by simp
  then show ?thesis by (simp add: char_of_byte_def byte_of_char_def)
qed

definition str_bytes :: "string \<Rightarrow> bytes" where
  "str_bytes s = map byte_of_char s"

definition bytes_str :: "bytes \<Rightarrow> string" where
  "bytes_str b = map char_of_byte b"

lemma bytes_str_str_bytes [simp]: "bytes_str (str_bytes s) = s"
  and str_bytes_bytes_str [simp]: "str_bytes (bytes_str b) = b"
  by (simp_all add: bytes_str_def str_bytes_def comp_def)

lemma length_str_bytes [simp]: "length (str_bytes s) = length s"
  and length_bytes_str [simp]: "length (bytes_str b) = length b"
  by (simp_all add: str_bytes_def bytes_str_def)

lemma str_bytes_Nil [simp]: "str_bytes [] = []"
  and bytes_str_Nil [simp]: "bytes_str [] = []"
  by (simp_all add: str_bytes_def bytes_str_def)

lemma str_bytes_inj: "str_bytes s = str_bytes t \<longleftrightarrow> s = t"
  by (metis bytes_str_str_bytes)

section \<open>TrimSpace\<close>

text \<open>
  \<open>sp1\<close>, \<open>sp2\<close>, \<open>sp3\<close>: one, two and three bytes that encode a white-space rune
  (\<^verbatim>\<open>unicode.IsSpace\<close>): the ASCII spaces, U+0085 and U+00A0, and U+1680, U+2000 to U+200A,
  U+2028, U+2029, U+202F, U+205F, U+3000.
\<close>

definition sp1 :: "char \<Rightarrow> bool" where
  "sp1 a = (let n = of_char a :: nat in (9 \<le> n \<and> n \<le> 13) \<or> n = 32)"

definition sp2 :: "char \<Rightarrow> char \<Rightarrow> bool" where
  "sp2 a b = (of_char a = (194 :: nat) \<and> (of_char b = (133 :: nat) \<or> of_char b = (160 :: nat)))"

definition sp3 :: "char \<Rightarrow> char \<Rightarrow> char \<Rightarrow> bool" where
  "sp3 a b c = (let x = of_char a :: nat; y = of_char b :: nat; z = of_char c :: nat in
     (x = 225 \<and> y = 154 \<and> z = 128) \<or>
     (x = 226 \<and> y = 128 \<and> ((128 \<le> z \<and> z \<le> 138) \<or> z = 168 \<or> z = 169 \<or> z = 175)) \<or>
     (x = 226 \<and> y = 129 \<and> z = 159) \<or>
     (x = 227 \<and> y = 128 \<and> z = 128))"

fun trim_left :: "string \<Rightarrow> string" where
  "trim_left [] = []"
| "trim_left [a] = (if sp1 a then [] else [a])"
| "trim_left [a, b] = (if sp1 a then trim_left [b] else if sp2 a b then [] else [a, b])"
| "trim_left (a # b # c # s) =
     (if sp1 a then trim_left (b # c # s)
      else if sp2 a b then trim_left (c # s)
      else if sp3 a b c then trim_left s
      else a # b # c # s)"

fun trim_rev :: "string \<Rightarrow> string" where
  "trim_rev [] = []"
| "trim_rev [a] = (if sp1 a then [] else [a])"
| "trim_rev [a, b] = (if sp1 a then trim_rev [b] else if sp2 b a then [] else [a, b])"
| "trim_rev (a # b # c # s) =
     (if sp1 a then trim_rev (b # c # s)
      else if sp2 b a then trim_rev (c # s)
      else if sp3 c b a then trim_rev s
      else a # b # c # s)"

definition trim_space :: "string \<Rightarrow> string" where
  "trim_space s = rev (trim_rev (rev (trim_left s)))"

lemma trim_left_idem: "trim_left (trim_left s) = trim_left s"
  by (induction s rule: trim_left.induct) auto

lemma trim_rev_idem: "trim_rev (trim_rev s) = trim_rev s"
  by (induction s rule: trim_rev.induct) auto

lemma trim_left_suffix: "suffix (trim_left s) s"
  by (induction s rule: trim_left.induct) (auto simp: suffix_ConsI)

lemma trim_rev_suffix: "suffix (trim_rev s) s"
  by (induction s rule: trim_rev.induct) (auto simp: suffix_ConsI)

text \<open>A string that does not start with a space has no prefix that does.\<close>

lemma trim_left_fixed_prefix:
  assumes "trim_left s = s" and "prefix p s"
  shows "trim_left p = p"
proof (cases p rule: trim_left.cases)
  case 1
  then show ?thesis by simp
next
  case (2 a)
  then obtain t where s: "s = a # t" using assms(2) by (auto simp: prefix_def)
  have "\<not> sp1 a"
  proof
    assume "sp1 a"
    then have "trim_left s = trim_left t"
      unfolding s by (cases "a # t" rule: trim_left.cases) auto
    then have "length (trim_left s) \<le> length t"
      using suffix_length_le [OF trim_left_suffix] by simp
    with assms(1) s show False by simp
  qed
  then show ?thesis using 2 by simp
next
  case (3 a b)
  then obtain t where s: "s = a # b # t" using assms(2) by (auto simp: prefix_def)
  have le: "length (trim_left x) \<le> length x" for x
    by (rule suffix_length_le [OF trim_left_suffix])
  have "\<not> sp1 a \<and> \<not> sp2 a b"
  proof (rule ccontr)
    assume h: "\<not> (\<not> sp1 a \<and> \<not> sp2 a b)"
    have "length (trim_left s) < length s"
      using h le [of "b # t"] le [of t] le [of "[b]"] unfolding s
      by (cases t) auto
    with assms(1) show False by simp
  qed
  then show ?thesis using 3 by simp
next
  case (4 a b c q)
  then obtain t where s: "s = a # b # c # t" using assms(2) by (auto simp: prefix_def)
  have le: "length (trim_left x) \<le> length x" for x
    by (rule suffix_length_le [OF trim_left_suffix])
  have "\<not> sp1 a \<and> \<not> sp2 a b \<and> \<not> sp3 a b c"
  proof (rule ccontr)
    assume h: "\<not> (\<not> sp1 a \<and> \<not> sp2 a b \<and> \<not> sp3 a b c)"
    have "length (trim_left s) < length s"
      using h le [of "b # c # t"] le [of "c # t"] le [of t] unfolding s by auto
    with assms(1) show False by simp
  qed
  then show ?thesis using 4 by simp
qed

lemma trim_space_idem [simp]: "trim_space (trim_space s) = trim_space s"
proof -
  have "prefix (trim_space s) (trim_left s)"
    by (metis rev_rev_ident suffix_to_prefix trim_rev_suffix trim_space_def)
  then have "trim_left (trim_space s) = trim_space s"
    by (rule trim_left_fixed_prefix [OF trim_left_idem])
  then show ?thesis by (simp add: trim_space_def trim_rev_idem)
qed

lemma trim_space_Nil [simp]: "trim_space [] = []"
  by (simp add: trim_space_def)

lemma length_trim_space: "length (trim_space s) \<le> length s"
  using suffix_length_le [OF trim_rev_suffix, of "rev (trim_left s)"]
    suffix_length_le [OF trim_left_suffix, of s]
  by (simp add: trim_space_def)

text \<open>Printable ASCII text is left alone.\<close>

definition plain_char :: "char \<Rightarrow> bool" where
  "plain_char c \<longleftrightarrow> 32 < (of_char c :: nat) \<and> (of_char c :: nat) < 128"

lemma plain_char_no_space [simp]:
  "plain_char a \<Longrightarrow> \<not> sp1 a" "plain_char a \<Longrightarrow> \<not> sp2 a b" "plain_char a \<Longrightarrow> \<not> sp3 a b c"
  "plain_char b \<Longrightarrow> \<not> sp2 a b" "plain_char c \<Longrightarrow> \<not> sp3 a b c"
  by (auto simp: plain_char_def sp1_def sp2_def sp3_def Let_def)

lemma trim_left_plain: "s \<noteq> [] \<Longrightarrow> plain_char (hd s) \<Longrightarrow> trim_left s = s"
  by (cases s rule: trim_left.cases) auto

lemma trim_rev_plain: "s \<noteq> [] \<Longrightarrow> plain_char (hd s) \<Longrightarrow> trim_rev s = s"
  by (cases s rule: trim_rev.cases) auto

lemma trim_space_plain: "list_all plain_char s \<Longrightarrow> trim_space s = s"
proof (cases "s = []")
  case False
  assume p: "list_all plain_char s"
  from p False have "plain_char (hd s)" "plain_char (hd (rev s))"
    by (auto simp: list_all_iff hd_rev)
  then show ?thesis using False by (simp add: trim_space_def trim_left_plain trim_rev_plain)
qed simp

section \<open>Case\<close>

definition lower_char :: "char \<Rightarrow> char" where
  "lower_char c =
     (let n = of_char c :: nat in if 65 \<le> n \<and> n \<le> 90 then char_of (n + 32) else c)"

definition upper_char :: "char \<Rightarrow> char" where
  "upper_char c =
     (let n = of_char c :: nat in if 97 \<le> n \<and> n \<le> 122 then char_of (n - 32) else c)"

definition to_lower :: "string \<Rightarrow> string" where
  "to_lower s = map lower_char s"

definition to_upper :: "string \<Rightarrow> string" where
  "to_upper s = map upper_char s"

definition equal_fold :: "string \<Rightarrow> string \<Rightarrow> bool" where
  "equal_fold s t \<longleftrightarrow> to_lower s = to_lower t"

lemma lower_char_idem [simp]: "lower_char (lower_char c) = lower_char c"
  by (auto simp: lower_char_def Let_def)

lemma upper_char_idem [simp]: "upper_char (upper_char c) = upper_char c"
  by (auto simp: upper_char_def Let_def)

lemma to_lower_idem [simp]: "to_lower (to_lower s) = to_lower s"
  and to_upper_idem [simp]: "to_upper (to_upper s) = to_upper s"
  by (simp_all add: to_lower_def to_upper_def comp_def)

lemma to_lower_Nil [simp]: "to_lower [] = []" and to_upper_Nil [simp]: "to_upper [] = []"
  by (simp_all add: to_lower_def to_upper_def)

lemma length_to_lower [simp]: "length (to_lower s) = length s"
  by (simp add: to_lower_def)

text \<open>Case mapping neither makes nor removes white space.\<close>

lemma of_char_lower: "of_char (lower_char c) =
   (let n = of_char c :: nat in if 65 \<le> n \<and> n \<le> 90 then n + 32 else n)"
  by (auto simp: lower_char_def Let_def)

lemma sp_lower [simp]:
  "sp1 (lower_char a) = sp1 a" "sp2 (lower_char a) (lower_char b) = sp2 a b"
  "sp3 (lower_char a) (lower_char b) (lower_char c) = sp3 a b c"
  by (auto simp: sp1_def sp2_def sp3_def of_char_lower Let_def)

lemma trim_left_lower: "trim_left (map lower_char s) = map lower_char (trim_left s)"
  by (induction s rule: trim_left.induct) auto

lemma trim_rev_lower: "trim_rev (map lower_char s) = map lower_char (trim_rev s)"
  by (induction s rule: trim_rev.induct) auto

lemma trim_space_to_lower: "trim_space (to_lower s) = to_lower (trim_space s)"
  by (simp add: trim_space_def to_lower_def trim_left_lower rev_map trim_rev_lower)

section \<open>Searching and splitting\<close>

fun has_prefix :: "string \<Rightarrow> string \<Rightarrow> bool" where
  "has_prefix s [] = True"
| "has_prefix [] (p # ps) = False"
| "has_prefix (c # s) (p # ps) = (c = p \<and> has_prefix s ps)"

lemma has_prefix_iff: "has_prefix s p \<longleftrightarrow> prefix p s"
  by (induction s p rule: has_prefix.induct) auto

definition trim_prefix :: "string \<Rightarrow> string \<Rightarrow> string" where
  "trim_prefix s p = (if has_prefix s p then drop (length p) s else s)"

fun index_byte :: "string \<Rightarrow> char \<Rightarrow> nat option" where
  "index_byte [] c = None"
| "index_byte (x # xs) c = (if x = c then Some 0 else map_option Suc (index_byte xs c))"

lemma index_byte_Some:
  "index_byte s c = Some i \<longleftrightarrow> i < length s \<and> s ! i = c \<and> c \<notin> set (take i s)"
proof (induction s arbitrary: i)
  case (Cons x xs)
  then show ?case by (cases i) auto
qed simp

lemma index_byte_None: "index_byte s c = None \<longleftrightarrow> c \<notin> set s"
  by (induction s) auto

lemma index_byte_append: "c \<notin> set a \<Longrightarrow> index_byte (a @ c # b) c = Some (length a)"
  by (induction a) auto

fun split_on :: "char \<Rightarrow> string \<Rightarrow> string list" where
  "split_on c [] = [[]]"
| "split_on c (x # xs) =
     (if x = c then [] # split_on c xs
      else case split_on c xs of [] \<Rightarrow> [[x]] | p # ps \<Rightarrow> (x # p) # ps)"

lemma split_on_nonempty [simp]: "split_on c s \<noteq> []"
  by (cases s) (auto split: list.splits)

lemma split_on_no_sep: "p \<in> set (split_on c s) \<Longrightarrow> c \<notin> set p"
  by (induction s arbitrary: p) (auto split: if_splits list.splits)

fun join_with :: "string \<Rightarrow> string list \<Rightarrow> string" where
  "join_with sep [] = []"
| "join_with sep [p] = p"
| "join_with sep (p # q # ps) = p @ sep @ join_with sep (q # ps)"

section \<open>Numbers in text\<close>

text \<open>
  \<^verbatim>\<open>strconv.Atoi\<close>: an optional sign and at least one digit, \<open>None\<close> for anything else and for
  a value outside the range of \<^verbatim>\<open>int\<close>; \<^verbatim>\<open>strconv.Itoa\<close> and \<^verbatim>\<open>FormatInt(_, 10)\<close>.
\<close>

definition digit_val :: "char \<Rightarrow> int option" where
  "digit_val c =
     (let n = of_char c :: nat in if 48 \<le> n \<and> n \<le> 57 then Some (int n - 48) else None)"

fun digits_val :: "int \<Rightarrow> string \<Rightarrow> int option" where
  "digits_val acc [] = Some acc"
| "digits_val acc (c # s) =
     (case digit_val c of None \<Rightarrow> None | Some d \<Rightarrow> digits_val (10 * acc + d) s)"

definition atoi :: "string \<Rightarrow> int option" where
  "atoi s =
     (let (neg, ds) = (case s of [] \<Rightarrow> (False, [])
          | c # r \<Rightarrow> if c = CHR ''-'' then (True, r) else if c = CHR ''+'' then (False, r) else (False, s))
      in if ds = [] then None
         else case digits_val 0 ds of
           None \<Rightarrow> None
         | Some v \<Rightarrow> (let n = (if neg then - v else v)
                     in if - (2 ^ 63) \<le> n \<and> n < 2 ^ 63 then Some n else None))"

lemma atoi_range: "atoi s = Some n \<Longrightarrow> - (2 ^ 63) \<le> n \<and> n < 2 ^ 63"
  by (auto simp: atoi_def Let_def split: prod.splits list.splits if_splits option.splits)

function nat_digits :: "nat \<Rightarrow> string" where
  "nat_digits n =
     (if n < 10 then [char_of (48 + n)] else nat_digits (n div 10) @ [char_of (48 + n mod 10)])"
  by pat_completeness auto
termination
  by (relation "measure id") auto

declare nat_digits.simps [simp del]

definition itoa :: "int \<Rightarrow> string" where
  "itoa i = (if i < 0 then CHR ''-'' # nat_digits (nat (- i)) else nat_digits (nat i))"

lemma digits_val_append:
  "digits_val acc (s @ t) = (case digits_val acc s of None \<Rightarrow> None | Some v \<Rightarrow> digits_val v t)"
  by (induction s arbitrary: acc) (auto split: option.splits)

lemma digit_val_char_of: "n < 10 \<Longrightarrow> digit_val (char_of (48 + n)) = Some (int n)"
  by (simp add: digit_val_def)

lemma digits_val_nat_digits: "digits_val 0 (nat_digits n) = Some (int n)"
proof (induction n rule: nat_digits.induct)
  case (1 n)
  show ?case
  proof (cases "n < 10")
    case True
    then show ?thesis by (simp add: nat_digits.simps [of n] digit_val_char_of)
  next
    case False
    have "n mod 10 < 10" by simp
    then have "digits_val 0 (nat_digits n) = Some (10 * int (n div 10) + int (n mod 10))"
      using 1 False digit_val_char_of [of "n mod 10"]
      by (simp add: nat_digits.simps [of n] digits_val_append)
    also have "10 * int (n div 10) + int (n mod 10) = int n" by presburger
    finally show ?thesis .
  qed
qed

lemma nat_digits_digits: "c \<in> set (nat_digits n) \<Longrightarrow> digit_val c \<noteq> None"
proof (induction n rule: nat_digits.induct)
  case (1 n)
  have "digit_val (char_of (48 + n mod 10)) \<noteq> None"
    using digit_val_char_of [of "n mod 10"] by simp
  with 1 digit_val_char_of [of n] show ?case
    by (subst (asm) nat_digits.simps) (auto split: if_splits)
qed

lemma nat_digits_nonempty [simp]: "nat_digits n \<noteq> []"
  by (subst nat_digits.simps) simp

lemma atoi_itoa: "- (2 ^ 63) \<le> i \<Longrightarrow> i < 2 ^ 63 \<Longrightarrow> atoi (itoa i) = Some i"
proof -
  assume r: "- (2 ^ 63) \<le> i" "i < 2 ^ 63"
  show ?thesis
  proof (cases "i < 0")
    case True
    then show ?thesis using r by (simp add: itoa_def atoi_def digits_val_nat_digits)
  next
    case False
    obtain c ds where d: "nat_digits (nat i) = c # ds"
      by (cases "nat_digits (nat i)") auto
    then have "digit_val c \<noteq> None" using nat_digits_digits [of c "nat i"] by simp
    then have "c \<noteq> CHR ''-''" "c \<noteq> CHR ''+''" by (auto simp: digit_val_def)
    then show ?thesis using False r digits_val_nat_digits [of "nat i"] d
      by (simp add: itoa_def atoi_def)
  qed
qed

section \<open>Hexadecimal\<close>

text \<open>\<^verbatim>\<open>encoding/hex\<close>: \<open>EncodeToString\<close> writes lower-case digits, \<open>DecodeString\<close> reads both cases.\<close>

definition hex_digit :: "nat \<Rightarrow> char" where
  "hex_digit n = char_of (if n < 10 then 48 + n else 87 + n)"

definition hex_val :: "char \<Rightarrow> nat option" where
  "hex_val c = (let n = of_char c :: nat in
     if 48 \<le> n \<and> n \<le> 57 then Some (n - 48)
     else if 97 \<le> n \<and> n \<le> 102 then Some (n - 87)
     else if 65 \<le> n \<and> n \<le> 70 then Some (n - 55) else None)"

fun hex_encode :: "bytes \<Rightarrow> string" where
  "hex_encode [] = []"
| "hex_encode (b # bs) = hex_digit (unat b div 16) # hex_digit (unat b mod 16) # hex_encode bs"

fun hex_decode :: "string \<Rightarrow> bytes option" where
  "hex_decode [] = Some []"
| "hex_decode [c] = None"
| "hex_decode (c # d # s) =
     (case (hex_val c, hex_val d) of
        (Some x, Some y) \<Rightarrow> map_option (\<lambda>bs. word_of_nat (16 * x + y) # bs) (hex_decode s)
      | _ \<Rightarrow> None)"

lemma hex_val_digit: "n < 16 \<Longrightarrow> hex_val (hex_digit n) = Some n"
  by (auto simp: hex_val_def hex_digit_def Let_def)

lemma hex_decode_encode [simp]: "hex_decode (hex_encode bs) = Some bs"
proof (induction bs)
  case (Cons b bs)
  have b: "unat b < 256" using unsigned_less [of b, where 'a = nat] by simp
  then have "unat b div 16 < 16" by simp
  then show ?case using Cons by (simp add: hex_val_digit mult.commute)
qed simp

lemma length_hex_encode [simp]: "length (hex_encode bs) = 2 * length bs"
  by (induction bs) auto

lemma length_hex_decode: "hex_decode s = Some bs \<Longrightarrow> length s = 2 * length bs"
  by (induction s arbitrary: bs rule: hex_decode.induct) (auto split: option.splits)

lemma plain_hex_digit: "n < 16 \<Longrightarrow> plain_char (hex_digit n)"
  by (auto simp: plain_char_def hex_digit_def)

lemma plain_hex_encode: "list_all plain_char (hex_encode bs)"
proof (induction bs)
  case (Cons b bs)
  have "unat b div 16 < 16" using unsigned_less [of b, where 'a = nat] by simp
  then show ?case using Cons by (simp add: plain_hex_digit)
qed simp

section \<open>Package encoding/base64\<close>

text \<open>
  The standard alphabet with padding. The decoder drops line ends, as Go's does, and ignores the
  spare bits of the last group.
\<close>

definition b64_alphabet :: string where
  "b64_alphabet = ''ABCDEFGHIJKLMNOPQRSTUVWXYZabcdefghijklmnopqrstuvwxyz0123456789+/''"

definition b64_char :: "nat \<Rightarrow> char" where
  "b64_char n = b64_alphabet ! n"

definition b64_val :: "char \<Rightarrow> nat option" where
  "b64_val c = (let i = length (takeWhile (\<lambda>d. d \<noteq> c) b64_alphabet) in if i < 64 then Some i else None)"

fun b64_encode :: "bytes \<Rightarrow> string" where
  "b64_encode [] = []"
| "b64_encode [a] = [b64_char (unat a div 4), b64_char (unat a mod 4 * 16), CHR ''='', CHR ''='']"
| "b64_encode [a, b] =
     [b64_char (unat a div 4), b64_char (unat a mod 4 * 16 + unat b div 16),
      b64_char (unat b mod 16 * 4), CHR ''='']"
| "b64_encode (a # b # c # r) =
     b64_char (unat a div 4) # b64_char (unat a mod 4 * 16 + unat b div 16) #
     b64_char (unat b mod 16 * 4 + unat c div 64) # b64_char (unat c mod 64) # b64_encode r"

fun b64_groups :: "string \<Rightarrow> bytes option" where
  "b64_groups [] = Some []"
| "b64_groups (c1 # c2 # c3 # c4 # r) =
     (case (b64_val c1, b64_val c2) of
        (Some v1, Some v2) \<Rightarrow>
          let b1 = word_of_nat (v1 * 4 + v2 div 16) in
          (case b64_val c3 of
             None \<Rightarrow> if c3 = CHR ''='' \<and> c4 = CHR ''='' \<and> r = [] then Some [b1] else None
           | Some v3 \<Rightarrow>
             let b2 = word_of_nat (v2 mod 16 * 16 + v3 div 4) in
             (case b64_val c4 of
                None \<Rightarrow> if c4 = CHR ''='' \<and> r = [] then Some [b1, b2] else None
              | Some v4 \<Rightarrow> (case b64_groups r of
                    None \<Rightarrow> None
                  | Some bs \<Rightarrow> Some (b1 # b2 # word_of_nat (v3 mod 4 * 64 + v4) # bs))))
      | _ \<Rightarrow> None)"
| "b64_groups _ = None"

definition b64_decode :: "string \<Rightarrow> bytes option" where
  "b64_decode s = b64_groups (filter (\<lambda>c. c \<noteq> CHR 0x0A \<and> c \<noteq> CHR 0x0D) s)"

definition b64_encode_raw :: "bytes \<Rightarrow> string" where
  "b64_encode_raw bs = takeWhile (\<lambda>c. c \<noteq> CHR ''='') (b64_encode bs)"

lemma b64_all:
  "list_all (\<lambda>n. b64_val (b64_char n) = Some n \<and> plain_char (b64_char n)) [0..<64]"
  by code_simp

lemma b64_val_char [simp]: "n < 64 \<Longrightarrow> b64_val (b64_char n) = Some n"
  and plain_b64_char: "n < 64 \<Longrightarrow> plain_char (b64_char n)"
  using b64_all by (simp_all add: list_all_iff)

lemma b64_val_pad [simp]: "b64_val (CHR ''='') = None"
  by code_simp

lemma b64_digits:
  fixes x y z :: nat
  assumes "x < 256" "y < 256" "z < 256"
  shows "x mod 4 * 16 + y div 16 < 64" "y mod 16 * 4 + z div 64 < 64" "x div 4 < 64" "z mod 64 < 64"
    "x mod 4 * 16 < 64" "y mod 16 * 4 < 64"
    "(x mod 4 * 16 + y div 16) div 16 = x mod 4" "(x mod 4 * 16 + y div 16) mod 16 = y div 16"
    "(y mod 16 * 4 + z div 64) div 4 = y mod 16" "(y mod 16 * 4 + z div 64) mod 4 = z div 64"
    "z div 64 * 64 + z mod 64 = z" "x div 4 * 4 + x mod 4 = x" "y div 16 * 16 + y mod 16 = y"
    "y div 16 mod 16 = y div 16" "z div 64 mod 4 = z div 64"
proof -
  have d: "y div 16 < 16" "z div 64 < 4" "x mod 4 < 4" "y mod 16 < 16"
    using assms by simp_all
  then show "x mod 4 * 16 + y div 16 < 64" "y mod 16 * 4 + z div 64 < 64" "x mod 4 * 16 < 64" "y mod 16 * 4 < 64"
    by linarith+
  show "x div 4 < 64" "z mod 64 < 64" "(x mod 4 * 16 + y div 16) div 16 = x mod 4"
    "(x mod 4 * 16 + y div 16) mod 16 = y div 16"
    "(y mod 16 * 4 + z div 64) div 4 = y mod 16" "(y mod 16 * 4 + z div 64) mod 4 = z div 64"
    "z div 64 * 64 + z mod 64 = z" "x div 4 * 4 + x mod 4 = x" "y div 16 * 16 + y mod 16 = y"
    "y div 16 mod 16 = y div 16" "z div 64 mod 4 = z div 64"
    using assms d by simp_all
qed

lemma byte_lt: "unat (a :: byte) < 256"
  using unsigned_less [of a, where 'a = nat] by simp

lemmas b64_byte_digits = b64_digits [OF byte_lt byte_lt byte_lt]

lemma b64_groups_encode: "b64_groups (b64_encode bs) = Some bs"
proof (induction bs rule: b64_encode.induct)
  case (2 a)
  have "unat a div 4 * 4 + unat a mod 4 * 16 div 16 = unat a" by simp
  then show ?case by (simp add: b64_byte_digits flip: of_nat_add of_nat_mult)
next
  case (3 a b)
  then show ?case
    by (simp add: b64_byte_digits Let_def del: of_nat_add of_nat_mult)
next
  case (4 a b c r)
  then show ?case
    by (simp add: b64_byte_digits Let_def del: of_nat_add of_nat_mult)
qed simp

lemma plain_b64_encode: "list_all plain_char (b64_encode bs)"
proof (induction bs rule: b64_encode.induct)
  case (2 a)
  show ?case by (simp add: plain_b64_char b64_byte_digits) (simp add: plain_char_def)
next
  case (3 a b)
  show ?case by (simp add: plain_b64_char b64_byte_digits) (simp add: plain_char_def)
next
  case (4 a b c r)
  then show ?case by (simp add: plain_b64_char b64_byte_digits)
qed simp

lemma b64_decode_encode [simp]: "b64_decode (b64_encode bs) = Some bs"
proof -
  have "filter (\<lambda>c. c \<noteq> CHR 0x0A \<and> c \<noteq> CHR 0x0D) (b64_encode bs) = b64_encode bs"
    using plain_b64_encode [of bs] by (auto simp: filter_id_conv list_all_iff plain_char_def)
  then show ?thesis by (simp add: b64_decode_def b64_groups_encode)
qed

lemma trim_space_b64 [simp]: "trim_space (b64_encode bs) = b64_encode bs"
  by (rule trim_space_plain [OF plain_b64_encode])

section \<open>IP addresses\<close>

text \<open>
  \<^verbatim>\<open>net.IP\<close> is a byte slice. \<open>to4\<close> and \<open>to16\<close> are \<^verbatim>\<open>IP.To4\<close> and \<^verbatim>\<open>IP.To16\<close>: an IPv4 address
  has a 4-byte form and a 16-byte one, with ten zero bytes and two bytes 255 in front.
\<close>

definition v4_in_v6 :: bytes where
  "v4_in_v6 = replicate 10 0 @ [255, 255]"

definition to4 :: "bytes \<Rightarrow> bytes option" where
  "to4 ip =
     (if length ip = 4 then Some ip
      else if length ip = 16 \<and> take 12 ip = v4_in_v6 then Some (drop 12 ip)
      else None)"

definition to16 :: "bytes \<Rightarrow> bytes option" where
  "to16 ip =
     (if length ip = 4 then Some (v4_in_v6 @ ip)
      else if length ip = 16 then Some ip
      else None)"

definition ip_equal :: "bytes \<Rightarrow> bytes \<Rightarrow> bool" where
  "ip_equal a b \<longleftrightarrow> a = b \<or> (to16 a \<noteq> None \<and> to16 a = to16 b)"

lemma to4_length: "to4 ip = Some a \<Longrightarrow> length a = 4"
  by (auto simp: to4_def split: if_splits)

lemma to16_length: "to16 ip = Some a \<Longrightarrow> length a = 16"
  by (auto simp: to16_def v4_in_v6_def split: if_splits)

lemma to4_to16: "to4 ip = Some a \<Longrightarrow> to16 ip = Some (v4_in_v6 @ a)"
  by (auto simp: to4_def to16_def split: if_splits) (metis append_take_drop_id)

lemma to4_idem: "to4 ip = Some a \<Longrightarrow> to4 a = Some a"
  by (auto simp: to4_def split: if_splits)

section \<open>Host and port\<close>

text \<open>\<open>net.SplitHostPort\<close> and \<open>net.JoinHostPort\<close>; all address errors are \<open>None\<close>.\<close>

definition last_index :: "string \<Rightarrow> char \<Rightarrow> nat option" where
  "last_index s c = (case index_byte (rev s) c of None \<Rightarrow> None | Some k \<Rightarrow> Some (length s - 1 - k))"

definition split_host_port :: "string \<Rightarrow> (string \<times> string) option" where
  "split_host_port s =
     (case last_index s (CHR '':'') of
        None \<Rightarrow> None
      | Some i \<Rightarrow>
        (case s of
           CHR ''['' # s' \<Rightarrow>
             (case index_byte s (CHR '']'') of
                None \<Rightarrow> None
              | Some e \<Rightarrow>
                  if e + 1 \<noteq> i then None
                  else if CHR ''['' \<in> set s' \<or> CHR '']'' \<in> set (drop (e + 1) s) then None
                  else Some (take (e - 1) s', drop (i + 1) s))
         | _ \<Rightarrow>
             let host = take i s in
             if CHR '':'' \<in> set host \<or> CHR ''['' \<in> set s \<or> CHR '']'' \<in> set s then None
             else Some (host, drop (i + 1) s)))"

definition join_host_port :: "string \<Rightarrow> string \<Rightarrow> string" where
  "join_host_port host port =
     (if CHR '':'' \<in> set host then ''['' @ host @ '']:'' @ port else host @ '':'' @ port)"

lemma last_index_append: "c \<notin> set b \<Longrightarrow> last_index (a @ c # b) c = Some (length a)"
  using index_byte_append [of c "rev b" "rev a"] by (simp add: last_index_def)

lemma split_join_host_port:
  assumes "CHR ''['' \<notin> set host" "CHR '']'' \<notin> set host"
    and "CHR '':'' \<notin> set port" "CHR ''['' \<notin> set port" "CHR '']'' \<notin> set port"
  shows "split_host_port (join_host_port host port) = Some (host, port)"
proof (cases "CHR '':'' \<in> set host")
  case True
  let ?s = "CHR ''['' # host @ CHR '']'' # CHR '':'' # port"
  have j: "join_host_port host port = ?s" using True by (simp add: join_host_port_def)
  have i: "last_index ?s (CHR '':'') = Some (length host + 2)"
    using last_index_append [of "CHR '':''" port "CHR ''['' # host @ [CHR '']'']"] assms(3) by simp
  have e: "index_byte ?s (CHR '']'') = Some (length host + 1)"
    using index_byte_append [of "CHR '']''" "CHR ''['' # host" "CHR '':'' # port"] assms(2) by simp
  show ?thesis
    unfolding j split_host_port_def i e using assms by simp
next
  case False
  let ?s = "host @ CHR '':'' # port"
  have j: "join_host_port host port = ?s" using False by (simp add: join_host_port_def)
  have i: "last_index ?s (CHR '':'') = Some (length host)"
    using last_index_append assms(3) by simp
  have h: "hd ?s \<noteq> CHR ''[''" using assms(1) by (cases host) auto
  have c: "(case ?s of CHR ''['' # s' \<Rightarrow> A s' | _ \<Rightarrow> B) = B" for A B
    using h by (cases ?s) (auto split: char.splits bool.splits)
  show ?thesis
    unfolding j split_host_port_def i option.case c using assms False by simp
qed

end
