(* ===== verification/Protocol.thy ===== *)
theory Protocol
  imports Interfaces GoStd
begin

text \<open>
  The wire protocol between client and server, \<^verbatim>\<open>internal/protocol/protocol.go\<close>: the handshake
  (magic, version, role, token, channel, options), the server's capability hello, the TCP connect
  request, the hop acknowledgement and the UDP frame. A reading function is a reader of
  \<^theory_text>\<open>Prelude\<close>, a writing function yields its writes and flushes. Addresses
  (\<^verbatim>\<open>net.IP\<close>) are byte lists, as in Go.
\<close>

section \<open>Constants\<close>

definition maxOptsLen :: nat where "maxOptsLen = 2048"
definition HelloCapsMaxNonceLen :: nat where "HelloCapsMaxNonceLen = 32"
definition maxPrefixLen :: int where "maxPrefixLen = 64"

definition helloCapsExtQuicLeafPin :: byte where "helloCapsExtQuicLeafPin = 1"
definition helloCapsExtRelayClass :: byte where "helloCapsExtRelayClass = 2"
definition helloCapsExtPathTTL :: byte where "helloCapsExtPathTTL = 3"
definition helloCapsExtRelayFlags :: byte where "helloCapsExtRelayFlags = 4"

definition magic :: bytes where "magic = [86, 79, 76, 84, 1]"

definition version :: byte where "version = 1"
definition roleUDP :: byte where "roleUDP = 1"
definition msgUDP :: byte where "msgUDP = 1"
definition addrV4 :: byte where "addrV4 = 4"
definition addrV6 :: byte where "addrV6 = 6"
definition maxPad :: int where "maxPad = 32"
definition hopAckMagic :: byte where "hopAckMagic = 0xA7"
definition hopAckV1 :: byte where "hopAckV1 = 1"

definition TransportTCP :: byte where "TransportTCP = 1"
definition TransportQUIC :: byte where "TransportQUIC = 2"

lemmas caps_tags = helloCapsExtQuicLeafPin_def helloCapsExtRelayClass_def
  helloCapsExtPathTTL_def helloCapsExtRelayFlags_def

section \<open>Time slots\<close>

text \<open>
  The current Unix time is an argument (two where the code reads the clock twice). \<open>slot\<close> arguments are \<^verbatim>\<open>int64\<close>; \<^verbatim>\<open>%\<close> truncates towards
  zero. \<open>BufSizeForConn\<close> and \<open>CopyBufSize\<close> fall back to the current slot.
\<close>

definition TimeSlot :: "int \<Rightarrow> int" where
  "TimeSlot now = go_div now 120"

definition EffectiveSlot :: "int \<Rightarrow> int \<Rightarrow> int \<Rightarrow> int" where
  "EffectiveSlot now now' churnEpochSec =
     (let s = TimeSlot now in
      if churnEpochSec \<le> 0 then s
      else (let c = go_div now' churnEpochSec in wrap64 (s + wrap64 (c * 13))))"

definition BufSizeForConn :: "int \<Rightarrow> int \<Rightarrow> int" where
  "BufSizeForConn now slot =
     (let slot = (if slot \<le> 0 then TimeSlot now else slot)
      in 4 * 1024 + go_mod slot 13 * 1024)"

definition CopyBufSize :: "int \<Rightarrow> int \<Rightarrow> int" where
  "CopyBufSize now slot =
     (let slot = (if slot \<le> 0 then TimeSlot now else slot)
      in 64 * 1024 + go_mod slot 4 * 64 * 1024)"

definition ApplyTimeVariation :: "int \<Rightarrow> int \<Rightarrow> int \<Rightarrow> int \<Rightarrow> int \<times> int \<times> int" where
  "ApplyTimeVariation cnt mn mx slot =
     (if slot \<le> 0 then (cnt, mn, mx)
      else
        let s = slot;
            cnt = wrap64 (cnt + go_mod s 5);
            cnt = (if cnt < 1 then 1 else cnt);
            cnt = (if cnt > 16 then 16 else cnt);
            mn = wrap64 (mn + go_mod s 16 * 8);
            mn = (if mn < 64 then 64 else mn);
            mx = wrap64 (mx + go_mod s 32 * 32);
            mx = (if mx < mn then wrap64 (mn + 256) else mx);
            mx = (if mx > 2048 then 2048 else mx)
        in (cnt, mn, mx))"

section \<open>The handshake\<close>

record Handshake =
  hs_Role :: byte
  hs_ChannelID :: byte
  hs_Token :: string

text \<open>
  \<open>skip_loop buf n\<close> is the loop of \<^verbatim>\<open>SkipUntilMagic\<close>: a window of the last five bytes and the
  number of bytes read.
\<close>

fun skip_loop :: "bytes \<Rightarrow> nat \<Rightarrow> bytes \<Rightarrow> go_error + (unit \<times> bytes)" where
  "skip_loop buf n [] = Inl EOF"
| "skip_loop buf n (b # s) =
     (let buf' = tl buf @ [b]; n' = Suc n in
      if n' \<ge> 5 \<and> buf' = magic then Inr ((), s) else skip_loop buf' n' s)"

definition SkipUntilMagic :: "unit rd" where
  "SkipUntilMagic = skip_loop [0, 0, 0, 0, 0] 0"

definition readHandshakeBody :: "Handshake rd" where
  "readHandshakeBody =
     rbind read_byte (\<lambda>ver.
     if ver \<noteq> version then rfail (Error ''bad version'') else
     rbind read_byte (\<lambda>role.
     rbind read_u16 (\<lambda>tokLen.
     if tokLen > 4096 then rfail (Error ''bad token len'') else
     rbind (read_full (unat tokLen)) (\<lambda>tok.
     rbind (if role = roleUDP then read_byte else rret 0) (\<lambda>ch.
     rret \<lparr>hs_Role = role, hs_ChannelID = ch, hs_Token = bytes_str tok\<rparr>)))))"

definition readHandshakeOpts :: "bytes rd" where
  "readHandshakeOpts =
     rbind read_u16 (\<lambda>n.
     if unat n > maxOptsLen then rfail (Error ''bad opts len'')
     else if n = 0 then rret []
     else read_full (unat n))"

definition discardHandshakeOpts :: "unit rd" where
  "discardHandshakeOpts = rbind readHandshakeOpts (\<lambda>_. rret ())"

definition ReadHandshake :: "Handshake rd" where
  "ReadHandshake =
     rbind (read_full (length magic)) (\<lambda>got.
     if got \<noteq> magic then rfail (Error ''bad magic'') else
     rbind readHandshakeBody (\<lambda>hs.
     rbind discardHandshakeOpts (\<lambda>_. rret hs)))"

definition ReadHandshakeAfterSkip :: "Handshake rd" where
  "ReadHandshakeAfterSkip =
     rbind SkipUntilMagic (\<lambda>_.
     rbind readHandshakeBody (\<lambda>hs.
     rbind discardHandshakeOpts (\<lambda>_. rret hs)))"

definition ReadHandshakeAfterSkipWithOpts :: "(Handshake \<times> bytes) rd" where
  "ReadHandshakeAfterSkipWithOpts =
     rbind SkipUntilMagic (\<lambda>_.
     rbind readHandshakeBody (\<lambda>hs.
     rbind readHandshakeOpts (\<lambda>opts. rret (hs, opts))))"

subsection \<open>Writing\<close>

text \<open>
  \<open>parseMagicSplit\<close>: the sum is an \<^verbatim>\<open>int\<close>, so it wraps. The slice \<open>magic[off:off+n]\<close> panics
  when \<open>off+n\<close>, which wraps too, is below \<open>off\<close>.
\<close>

fun parse_splits :: "string list \<Rightarrow> int list \<Rightarrow> int \<Rightarrow> (int list \<times> int) option" where
  "parse_splits [] lens acc = Some (lens, acc)"
| "parse_splits (p # ps) lens acc =
     (let p = trim_space p in
      if p = [] then parse_splits ps lens acc
      else case atoi p of
        None \<Rightarrow> None
      | Some n \<Rightarrow> if n \<le> 0 then None
                 else parse_splits ps (lens @ [n]) (wrap64 (acc + n)))"

definition parseMagicSplit :: "string \<Rightarrow> int list" where
  "parseMagicSplit s =
     (let s = trim_space s in
      if s = [] then []
      else case parse_splits (split_on (CHR '','') s) [] 0 of
        None \<Rightarrow> []
      | Some (lens, acc) \<Rightarrow> if acc \<noteq> 5 then [] else lens)"

fun write_magic_parts :: "int \<Rightarrow> int list \<Rightarrow> wout" where
  "write_magic_parts off [] =
     (if off < int (length magic) then wwrite (drop (nat off) magic) else wok)"
| "write_magic_parts off (n # ns) =
     (let e = wrap64 (off + n) in
      if e > int (length magic) then write_magic_parts off []
      else if e < off then werr (Panic ''slice bounds out of range'')
      else wthen (wwrite (take (nat (e - off)) (drop (nat off) magic)))
             (wthen wflush (write_magic_parts e ns)))"

text \<open>
  \<open>magic_split_of\<close> stands for the JSON decoder applied to the options: the value of the
  \<^verbatim>\<open>magicSplit\<close> field after decoding. \<open>entropy\<close> gives the random padding before the magic.
\<close>

definition handshake_pad :: "entropy \<Rightarrow> int \<Rightarrow> bytes" where
  "handshake_pad ent prefixLen =
     (let prefixLen = (if prefixLen > maxPrefixLen then maxPrefixLen else prefixLen) in
      if prefixLen > 0 then rand_read ent 0 (rand_int ent 0 (nat prefixLen + 1)) else [])"

definition WriteHandshakeWithPrefixAndOptsSlot ::
  "(bytes \<Rightarrow> string) \<Rightarrow> entropy \<Rightarrow> byte \<Rightarrow> byte \<Rightarrow> string \<Rightarrow> int \<Rightarrow> bytes \<Rightarrow> wout" where
  "WriteHandshakeWithPrefixAndOptsSlot magic_split_of ent role channelID token prefixLen optsJSON =
     (let pad = handshake_pad ent prefixLen;
          have_opts = 0 < length optsJSON \<and> length optsJSON \<le> maxOptsLen;
          splits = parseMagicSplit (if have_opts then magic_split_of optsJSON else []);
          optsLen = (if have_opts then length optsJSON else 0)
      in wseq [
        (if pad = [] then wok else wwrite pad),
        (if splits \<noteq> [] then write_magic_parts 0 splits else wwrite magic),
        wwrite [version],
        wwrite [role],
        (if length token > 4096 then werr (Error ''token too long'') else wok),
        wwrite (be_put 2 (word_of_nat (length token) :: u16)),
        wwrite (str_bytes token),
        (if role = roleUDP then wwrite [channelID] else wok),
        wwrite (be_put 2 (word_of_nat optsLen :: u16)),
        (if optsLen > 0 then wwrite optsJSON else wok),
        wflush])"

definition WriteHandshake :: "(bytes \<Rightarrow> string) \<Rightarrow> entropy \<Rightarrow> byte \<Rightarrow> byte \<Rightarrow> string \<Rightarrow> wout" where
  "WriteHandshake ms ent role channelID token =
     WriteHandshakeWithPrefixAndOptsSlot ms ent role channelID token 0 []"

subsection \<open>Lemmas\<close>

lemma length_magic [simp]: "length magic = 5"
  by (simp add: magic_def)

text \<open>The window of the scan after a list of bytes.\<close>

definition window :: "bytes \<Rightarrow> bytes" where
  "window p = drop (length p) (replicate 5 0 @ p)"

lemma window_Nil: "window [] = [0, 0, 0, 0, 0]"
  by (simp add: window_def numeral_eq_Suc)

lemma window_snoc: "window (p @ [b]) = tl (window p) @ [b]"
proof -
  have "drop (Suc (length p)) ((replicate 5 0 @ p) @ [b])
      = drop (Suc (length p)) (replicate 5 0 @ p) @ [b]"
    by (subst drop_append) simp
  then show ?thesis
    by (simp only: window_def append_assoc length_append_singleton drop_Suc_tl)
qed

lemma window_match: "length p \<ge> 5 \<Longrightarrow> window p = magic \<longleftrightarrow> suffix magic p"
  by (simp add: window_def drop_append suffix_iff_drop)

text \<open>\<open>quiet p q\<close>: reading \<open>q\<close> after \<open>p\<close> never completes the magic.\<close>

fun quiet :: "bytes \<Rightarrow> bytes \<Rightarrow> bool" where
  "quiet p [] = True"
| "quiet p (b # q) = (\<not> suffix magic (p @ [b]) \<and> quiet (p @ [b]) q)"

lemma quiet_iff: "quiet p q \<longleftrightarrow> (\<forall>k < length q. \<not> suffix magic (p @ take (Suc k) q))"
  by (induction p q rule: quiet.induct) (simp_all add: All_less_Suc2 del: suffix_snoc)

lemma skip_loop_step:
  "skip_loop (window p) (length p) (b # s) =
   (if suffix magic (p @ [b]) then Inr ((), s) else skip_loop (window (p @ [b])) (length (p @ [b])) s)"
proof -
  have m: "5 \<le> Suc (length p) \<and> window (p @ [b]) = magic \<longleftrightarrow> suffix magic (p @ [b])"
  proof (cases "5 \<le> Suc (length p)")
    case True
    then show ?thesis using window_match [of "p @ [b]"] by simp
  next
    case False
    then show ?thesis using suffix_length_le [of magic "p @ [b]"] by auto
  qed
  show ?thesis
    by (simp only: skip_loop.simps Let_def window_snoc [symmetric] m length_append_singleton)
qed

lemma skip_loop_spec:
  "skip_loop (window p) (length p) s = Inr ((), r) \<longleftrightarrow>
   (\<exists>q b. s = q @ b # r \<and> quiet p q \<and> suffix magic (p @ q @ [b]))"
proof (induction s arbitrary: p)
  case Nil
  then show ?case by simp
next
  case (Cons a s)
  show ?case
  proof (cases "suffix magic (p @ [a])")
    case True
    then show ?thesis
      unfolding skip_loop_step by (auto simp: Cons_eq_append_conv simp del: suffix_snoc)
  next
    case False
    have "(\<exists>q b. a # s = q @ b # r \<and> quiet p q \<and> suffix magic (p @ q @ [b])) \<longleftrightarrow>
      (\<exists>q b. s = q @ b # r \<and> quiet (p @ [a]) q \<and> suffix magic ((p @ [a]) @ q @ [b]))" (is "?L = ?R")
    proof
      assume ?L
      then obtain q b where q: "a # s = q @ b # r" "quiet p q" "suffix magic (p @ q @ [b])" by blast
      then obtain q1 where "q = a # q1" using False by (cases q) auto
      then show ?R using q by (intro exI [of _ q1] exI [of _ b]) simp
    next
      assume ?R
      then obtain q b where "s = q @ b # r" "quiet (p @ [a]) q" "suffix magic ((p @ [a]) @ q @ [b])"
        by blast
      then show ?L using False by (intro exI [of _ "a # q"] exI [of _ b]) simp
    qed
    then show ?thesis using False Cons.IH by (simp only: skip_loop_step if_False)
  qed
qed

lemma SkipUntilMagic_spec:
  "SkipUntilMagic s = Inr ((), r) \<longleftrightarrow>
   (\<exists>q b. s = q @ b # r \<and> quiet [] q \<and> suffix magic (q @ [b]))"
  using skip_loop_spec [of "[]" s r] by (simp only: SkipUntilMagic_def window_Nil list.size append_Nil)

text \<open>The magic does not overlap itself, so it is found right behind any bytes free of it.\<close>

lemma magic_border_free:
  assumes "suffix magic (junk @ m)" and "strict_prefix m magic" and "m \<noteq> []"
  shows False
proof -
  have pre: "prefix m magic" "m \<noteq> magic" using assms(2) by auto
  then have l: "length m < 5"
    using prefix_length_less [OF assms(2)] by simp
  have "suffix m (junk @ m)" by (simp add: suffix_def)
  with assms(1) have "suffix m magic"
    using suffix_length_suffix [of m "junk @ m" magic] l by simp
  then have "take (length m) magic = drop (5 - length m) magic"
    using pre by (metis append_eq_conv_conj length_magic prefix_def suffix_iff_drop)
  moreover have "length m \<in> {1, 2, 3, 4}" using l assms(3) by (cases "length m") auto
  ultimately show False by (auto simp: magic_def)
qed

lemma SkipUntilMagic_junk [rd_simps]:
  assumes "\<not> sublist magic junk"
  shows "SkipUntilMagic (junk @ magic @ r) = Inr ((), r)"
proof -
  define q where "q = junk @ butlast magic"
  have q: "junk @ magic @ r = q @ 1 # r" "q @ [1] = junk @ magic"
    by (simp_all add: q_def magic_def)
  have "quiet [] q"
    unfolding quiet_iff append_Nil
  proof (intro allI impI)
    fix k assume "k < length q"
    then have k: "Suc k < length junk + 5" by (simp add: q_def)
    show "\<not> suffix magic (take (Suc k) q)"
    proof (cases "Suc k \<le> length junk")
      case True
      then have "take (Suc k) q = take (Suc k) junk" by (simp add: q_def)
      then show ?thesis using assms
        by (metis prefix_imp_sublist sublist_order.order_trans suffix_imp_sublist take_is_prefix)
    next
      case False
      define m where "m = take (Suc k - length junk) magic"
      have "take (Suc k) q = junk @ m"
        using False k by (simp add: q_def m_def butlast_conv_take)
      moreover have "strict_prefix m magic" "m \<noteq> []"
        using False k by (auto simp: m_def strict_prefix_def take_is_prefix dest: arg_cong [of _ _ length])
      ultimately show ?thesis using magic_border_free by metis
    qed
  qed
  then show ?thesis
    unfolding SkipUntilMagic_spec q(1) using q(2) by (metis suffixI)
qed

text \<open>What the writer of the magic emits: the magic itself, in the chunks asked for.\<close>

lemma write_magic_parts_bytes:
  "0 \<le> off \<Longrightarrow> off \<le> 5 \<Longrightarrow> wfailed (write_magic_parts off ns) = None \<Longrightarrow>
   wbytes (write_magic_parts off ns) = drop (nat off) magic"
proof (induction off ns rule: write_magic_parts.induct)
  case (1 off)
  then show ?case by (auto simp: wr_simps)
next
  case (2 off n ns)
  let ?e = "wrap64 (off + n)"
  consider "?e > 5" | "?e \<le> 5" "?e < off" | "?e \<le> 5" "off \<le> ?e" by linarith
  then show ?case
  proof cases
    case 1
    then show ?thesis using 2 by (simp add: Let_def)
  next
    case 2
    then show ?thesis using "2.prems" by (simp add: Let_def wr_simps)
  next
    case 3
    then have "wfailed (write_magic_parts ?e ns) = None"
      using "2.prems" by (simp add: Let_def wr_simps)
    then have "wbytes (write_magic_parts ?e ns) = drop (nat ?e) magic"
      using "2.IH"(2) [of ?e] 3 "2.prems" by (simp add: Let_def)
    moreover have "take (nat (?e - off)) (drop (nat off) magic) @ drop (nat ?e) magic = drop (nat off) magic"
    proof -
      have "nat ?e = nat (?e - off) + nat off" using 3 "2.prems" by simp
      then show ?thesis by (metis append_take_drop_id drop_drop)
    qed
    ultimately show ?thesis using 3 by (simp add: Let_def wr_simps)
  qed
qed

lemma write_magic_parts_error:
  "wfailed (write_magic_parts off ns) = None \<or>
   wfailed (write_magic_parts off ns) = Some (Panic ''slice bounds out of range'')"
  by (induction off ns rule: write_magic_parts.induct) (auto simp: Let_def wr_simps)

lemma length_handshake_pad: "length (handshake_pad ent k) \<le> 64"
proof -
  have r: "rand_int ent 0 (Suc m) \<le> m" for m
    by (metis less_Suc_eq_le rand_int_less zero_less_Suc)
  have b: "rand_int ent 0 (Suc m) \<le> 64" if "m \<le> 64" for m
    using r [of m] that by simp
  show ?thesis using b [of 64] b [of "nat k"]
    by (auto simp: handshake_pad_def Let_def maxPrefixLen_def)
qed

lemma handshake_pad_prefix: "prefix (handshake_pad ent k) (rand_read ent 0 64)"
proof -
  have "handshake_pad ent k = [] \<or> (\<exists>n. handshake_pad ent k = rand_read ent 0 n)"
    by (auto simp: handshake_pad_def Let_def)
  moreover have "prefix (rand_read ent 0 n) (rand_read ent 0 64)" if "n \<le> 64" for n
    using that by (metis length_map length_upt minus_nat.diff_0 rand_read_def take_is_prefix
        take_map take_upt add_0)
  ultimately show ?thesis using length_handshake_pad [of ent k] by auto
qed

abbreviation sent_opts :: "bytes \<Rightarrow> bytes" where
  "sent_opts optsJSON \<equiv> if length optsJSON \<le> maxOptsLen then optsJSON else []"

lemma write_handshake_bytes:
  assumes "wfailed (WriteHandshakeWithPrefixAndOptsSlot ms ent role ch token k opts) = None"
  shows "length token \<le> 4096"
    and "wbytes (WriteHandshakeWithPrefixAndOptsSlot ms ent role ch token k opts) =
      handshake_pad ent k @ magic @ [version, role] @
      be_put 2 (word_of_nat (length token) :: u16) @ str_bytes token @
      (if role = roleUDP then [ch] else []) @
      be_put 2 (word_of_nat (length (sent_opts opts)) :: u16) @ sent_opts opts"
proof -
  show "length token \<le> 4096"
    using assms unfolding WriteHandshakeWithPrefixAndOptsSlot_def
    by (auto simp: Let_def wr_simps split: if_splits)
  let ?splits = "parseMagicSplit (if 0 < length opts \<and> length opts \<le> maxOptsLen then ms opts else [])"
  have m: "?splits = [] \<or> wfailed (write_magic_parts 0 ?splits) = None"
    using assms unfolding WriteHandshakeWithPrefixAndOptsSlot_def
    by (auto simp: Let_def wr_simps split: if_splits)
  then show "wbytes (WriteHandshakeWithPrefixAndOptsSlot ms ent role ch token k opts) =
      handshake_pad ent k @ magic @ [version, role] @
      be_put 2 (word_of_nat (length token) :: u16) @ str_bytes token @
      (if role = roleUDP then [ch] else []) @
      be_put 2 (word_of_nat (length (sent_opts opts)) :: u16) @ sent_opts opts"
    using \<open>length token \<le> 4096\<close> unfolding WriteHandshakeWithPrefixAndOptsSlot_def
    by (auto simp: Let_def wr_simps write_magic_parts_bytes)
qed

lemma readHandshakeBody_written [rd_simps]:
  assumes "length token \<le> 4096"
  shows "readHandshakeBody ([version, role] @ be_put 2 (word_of_nat (length token) :: u16) @
      str_bytes token @ (if role = roleUDP then [ch] else []) @ r) =
    Inr (\<lparr>hs_Role = role, hs_ChannelID = (if role = roleUDP then ch else 0), hs_Token = token\<rparr>, r)"
proof -
  have u: "unat (word_of_nat (length token) :: u16) = length token"
    using assms by (simp add: unat_of_nat)
  then have le: "((word_of_nat (length token) :: u16) > 4096) = False"
    using assms by (simp add: word_less_nat_alt)
  have l: "length (str_bytes token) = unat (word_of_nat (length token) :: u16)"
    using u by simp
  show ?thesis
    by (simp only: append_Cons append_Nil readHandshakeBody_def rbind_app read_byte_Cons sum.case
        prod.case le if_False simp_thms read_u16_be_put read_full_append [OF l] read_optional_byte)
      (simp add: rret_def)
qed

lemma readHandshakeOpts_written [rd_simps]:
  assumes "length o1 \<le> maxOptsLen"
  shows "readHandshakeOpts (be_put 2 (word_of_nat (length o1) :: u16) @ o1 @ r) = Inr (o1, r)"
proof -
  have "length o1 < 65536" "length o1 \<le> 2048" using assms by (simp_all add: maxOptsLen_def)
  then show ?thesis
    by (simp add: readHandshakeOpts_def maxOptsLen_def rd_simps del: length_greater_0_conv)
qed

text \<open>
  Handshakes in a row: without padding and options the handshake is a wire format read by
  \<open>ReadHandshake\<close>, which the server uses on plain connections.
\<close>

definition plain_handshake :: "Handshake \<Rightarrow> bytes" where
  "plain_handshake h =
     wbytes (WriteHandshake (\<lambda>_. []) (\<lambda>_. 0, \<lambda>_ _. 0) (hs_Role h) (hs_ChannelID h) (hs_Token h))"

definition handshake_ok :: "Handshake \<Rightarrow> bool" where
  "handshake_ok h \<longleftrightarrow> length (hs_Token h) \<le> 4096 \<and> (hs_Role h \<noteq> roleUDP \<longrightarrow> hs_ChannelID h = 0)"

lemma WriteHandshake_no_error:
  "length token \<le> 4096 \<Longrightarrow> wfailed (WriteHandshake ms ent role ch token) = None"
  by (simp add: WriteHandshake_def WriteHandshakeWithPrefixAndOptsSlot_def Let_def wr_simps
      parseMagicSplit_def)

lemma read_plain_handshake:
  assumes "handshake_ok h"
  shows "ReadHandshake (plain_handshake h @ r) = Inr (h, r)"
proof -
  have t: "length (hs_Token h) \<le> 4096" using assms by (simp add: handshake_ok_def)
  have b: "plain_handshake h = magic @ [version, hs_Role h] @
      be_put 2 (word_of_nat (length (hs_Token h)) :: u16) @ str_bytes (hs_Token h) @
      (if hs_Role h = roleUDP then [hs_ChannelID h] else []) @
      be_put 2 (word_of_nat (length ([] :: bytes)) :: u16) @ []"
    unfolding plain_handshake_def WriteHandshake_def
    using write_handshake_bytes(2) [OF WriteHandshake_no_error [OF t, unfolded WriteHandshake_def],
        of "\<lambda>_. []" "(\<lambda>_. 0, \<lambda>_ _. 0)" "hs_Role h" "hs_ChannelID h"]
    by (simp add: handshake_pad_def maxOptsLen_def)
  have "readHandshakeOpts (be_put 2 (word_of_nat (length ([] :: bytes)) :: u16) @ [] @ r) = Inr ([], r)"
    by (rule readHandshakeOpts_written) (simp add: maxOptsLen_def)
  then have o: "discardHandshakeOpts (be_put 2 (0 :: u16) @ r) = Inr ((), r)"
    by (simp add: discardHandshakeOpts_def rd_simps)
  have body: "readHandshakeBody ([version, hs_Role h] @
      be_put 2 (word_of_nat (length (hs_Token h)) :: u16) @ str_bytes (hs_Token h) @
      (if hs_Role h = roleUDP then [hs_ChannelID h] else []) @ be_put 2 (0 :: u16) @ r)
    = Inr (h, be_put 2 (0 :: u16) @ r)"
    using assms by (subst readHandshakeBody_written [OF t])
      (auto simp: handshake_ok_def intro: Handshake.equality)
  show ?thesis
    unfolding ReadHandshake_def b using o body
    by (simp add: rd_simps del: be_put.simps append_Cons)
qed

interpretation hs: stream_codec plain_handshake ReadHandshake handshake_ok
  by unfold_locales (rule read_plain_handshake)

end
