(* ===== verification/Messages.thy ===== *)
theory Messages
  imports Protocol
begin

text \<open>
  The messages after the handshake, the second half of \<^verbatim>\<open>internal/protocol/protocol.go\<close>: the
  server's capability hello with its extensions, the TCP connect request, the hop
  acknowledgement and the UDP frame, each with its writer and its reader.
\<close>

section \<open>The capability hello\<close>

record ServerHelloCaps =
  hc_Version :: byte
  hc_LegacyIPv6 :: bool
  hc_TransportMask :: byte
  hc_FeatureBits :: u16
  hc_QuicPort :: u16
  hc_TCPPortHint :: u16
  hc_ObfsProfileID :: byte
  hc_Nonce :: bytes
  hc_QuicLeafPinSHA256 :: bytes
  hc_RelayClass :: byte
  hc_PathTTL :: byte
  hc_RelayFlags :: u16

definition appendTLV :: "bytes \<Rightarrow> byte \<Rightarrow> bytes \<Rightarrow> bytes" where
  "appendTLV dst tag val =
     (let val = (if length val > 255 then take 255 val else val)
      in dst @ [tag, word_of_nat (length val)] @ val)"

definition WriteServerHelloCaps :: "ServerHelloCaps \<Rightarrow> wout" where
  "WriteServerHelloCaps caps =
     (let legacy = (if hc_LegacyIPv6 caps then 1 else 0 :: byte);
          nonceLen = length (hc_Nonce caps) in
      if nonceLen > HelloCapsMaxNonceLen then werr (Error ''caps nonce too long'')
      else
        let payload = [hc_Version caps, legacy, hc_TransportMask caps] @
              be_put 2 (hc_FeatureBits caps) @ be_put 2 (hc_QuicPort caps) @
              be_put 2 (hc_TCPPortHint caps) @
              [hc_ObfsProfileID caps, word_of_nat nonceLen] @ hc_Nonce caps
        in if hc_QuicLeafPinSHA256 caps \<noteq> [] \<and> length (hc_QuicLeafPinSHA256 caps) \<noteq> 32
           then werr (Error ''caps quic leaf pin must be 32 bytes'')
           else
             let payload = (if hc_QuicLeafPinSHA256 caps \<noteq> []
                   then appendTLV payload helloCapsExtQuicLeafPin (hc_QuicLeafPinSHA256 caps)
                   else payload);
                 payload = (if hc_RelayClass caps \<noteq> 0
                   then appendTLV payload helloCapsExtRelayClass [hc_RelayClass caps] else payload);
                 payload = (if hc_PathTTL caps \<noteq> 0
                   then appendTLV payload helloCapsExtPathTTL [hc_PathTTL caps] else payload);
                 payload = (if hc_RelayFlags caps \<noteq> 0
                   then appendTLV payload helloCapsExtRelayFlags (be_put 2 (hc_RelayFlags caps))
                   else payload)
             in wwrite payload)"

text \<open>The loop over the extensions; a single trailing byte ends it silently.\<close>

function caps_ext_loop :: "bytes \<Rightarrow> ServerHelloCaps \<Rightarrow> go_error + ServerHelloCaps" where
  "caps_ext_loop ext caps =
     (case ext of
        tag # ln # rest \<Rightarrow>
          (let n = unat ln in
           if n > length rest then Inl (Error ''caps bad extension len'')
           else let val = take n rest; rest' = drop n rest in
             if tag = helloCapsExtQuicLeafPin then
               (if n \<noteq> 32 then Inl (Error ''caps bad quic pin len'')
                else caps_ext_loop rest' (caps\<lparr>hc_QuicLeafPinSHA256 := val\<rparr>))
             else if tag = helloCapsExtRelayClass then
               (if n \<noteq> 1 then Inl (Error ''caps bad relay class len'')
                else caps_ext_loop rest' (caps\<lparr>hc_RelayClass := val ! 0\<rparr>))
             else if tag = helloCapsExtPathTTL then
               (if n \<noteq> 1 then Inl (Error ''caps bad path ttl len'')
                else caps_ext_loop rest' (caps\<lparr>hc_PathTTL := val ! 0\<rparr>))
             else if tag = helloCapsExtRelayFlags then
               (if n \<noteq> 2 then Inl (Error ''caps bad relay flags len'')
                else caps_ext_loop rest' (caps\<lparr>hc_RelayFlags := be_get val\<rparr>))
             else Inl (Error ''caps unknown extension tag''))
      | _ \<Rightarrow> Inr caps)"
  by pat_completeness auto
termination
  by (relation "measure (\<lambda>(ext, caps). length ext)") auto

declare caps_ext_loop.simps [simp del]

text \<open>\<open>ReadServerHelloCaps\<close> reads the stream to its end (\<^verbatim>\<open>io.ReadAll\<close>).\<close>

definition ReadServerHelloCaps :: "bytes \<Rightarrow> go_error + ServerHelloCaps" where
  "ReadServerHelloCaps r =
     ebind (read_full 11 r) (\<lambda>(buf, r).
     let nonceLen = unat (buf ! 10) in
     if nonceLen > HelloCapsMaxNonceLen then Inl (Error ''caps nonce too long'')
     else ebind (if nonceLen > 0 then read_full nonceLen r else Inr ([], r)) (\<lambda>(nonce, extBuf).
       caps_ext_loop extBuf
         \<lparr>hc_Version = buf ! 0, hc_LegacyIPv6 = (buf ! 1 = 1), hc_TransportMask = buf ! 2,
          hc_FeatureBits = be_get (take 2 (drop 3 buf)), hc_QuicPort = be_get (take 2 (drop 5 buf)),
          hc_TCPPortHint = be_get (take 2 (drop 7 buf)), hc_ObfsProfileID = buf ! 9,
          hc_Nonce = nonce, hc_QuicLeafPinSHA256 = [], hc_RelayClass = 0, hc_PathTTL = 0,
          hc_RelayFlags = 0\<rparr>))"

section \<open>TCP connect\<close>

record TcpConnect =
  tc_AddrType :: byte
  tc_IP :: bytes
  tc_Port :: u16

definition normalizeIP :: "bytes \<Rightarrow> go_error + byte \<times> bytes" where
  "normalizeIP ip =
     (case to4 ip of
        Some v4 \<Rightarrow> Inr (addrV4, v4)
      | None \<Rightarrow> (case to16 ip of
          Some v6 \<Rightarrow> Inr (addrV6, v6)
        | None \<Rightarrow> Inl (Error ''bad ip'')))"

definition readAddr :: "byte \<Rightarrow> bytes rd" where
  "readAddr at =
     (if at = addrV4 then read_full 4
      else if at = addrV6 then read_full 16
      else rfail (Error ''bad addr type''))"

definition WriteTcpConnect :: "bytes \<Rightarrow> u16 \<Rightarrow> wout" where
  "WriteTcpConnect ip port =
     (case normalizeIP ip of
        Inl e \<Rightarrow> werr e
      | Inr (at, ipb) \<Rightarrow> wseq [wwrite [at], wwrite ipb, wwrite (be_put 2 port), wflush])"

definition ReadTcpConnect :: "TcpConnect rd" where
  "ReadTcpConnect =
     rbind read_byte (\<lambda>at.
     rbind (readAddr at) (\<lambda>ipb.
     rbind read_u16 (\<lambda>p.
     rret \<lparr>tc_AddrType = at, tc_IP = ipb, tc_Port = p\<rparr>)))"

section \<open>Hop acknowledgement\<close>

record HopAck =
  ha_RouteID :: string
  ha_HopIdx :: byte
  ha_NodeID :: string
  ha_Status :: byte
  ha_Reason :: string
  ha_TsMs :: u64

text \<open>\<^verbatim>\<open>TsMs\<close> is an \<^verbatim>\<open>int64\<close>, sent as the \<^verbatim>\<open>uint64\<close> with the same bits, which is what is kept here.\<close>

definition write_sized :: "string \<Rightarrow> wout" where
  "write_sized s =
     wthen (wwrite (be_put 2 (word_of_nat (length s) :: u16)))
       (if length s > 0 then wwrite (str_bytes s) else wok)"

definition WriteHopAck :: "HopAck \<Rightarrow> wout" where
  "WriteHopAck ack = wseq [
     wwrite [hopAckMagic], wwrite [hopAckV1], wwrite [ha_Status ack], wwrite [ha_HopIdx ack],
     write_sized (ha_RouteID ack), write_sized (ha_NodeID ack), write_sized (ha_Reason ack),
     wwrite (be_put 8 (ha_TsMs ack)), wflush]"

definition readSizedString :: "string rd" where
  "readSizedString =
     rbind read_u16 (\<lambda>n. if n = 0 then rret []
       else rbind (read_full (unat n)) (\<lambda>b. rret (bytes_str b)))"

definition ReadHopAck :: "HopAck rd" where
  "ReadHopAck =
     rbind read_byte (\<lambda>m.
     if m \<noteq> hopAckMagic then rfail (Error ''bad hop ack magic'') else
     rbind read_byte (\<lambda>v.
     if v \<noteq> hopAckV1 then rfail (Error ''bad hop ack version'') else
     rbind read_byte (\<lambda>st.
     rbind read_byte (\<lambda>hopIdx.
     rbind readSizedString (\<lambda>routeID.
     rbind readSizedString (\<lambda>nodeID.
     rbind readSizedString (\<lambda>reason.
     rbind (read_full 8) (\<lambda>b8.
     rret \<lparr>ha_RouteID = routeID, ha_HopIdx = hopIdx, ha_NodeID = nodeID, ha_Status = st,
       ha_Reason = reason, ha_TsMs = be_get b8\<rparr>))))))))"

section \<open>UDP frames\<close>

record UDPFrame =
  uf_AddrType :: byte
  uf_SrcPort :: u16
  uf_DstIP :: bytes
  uf_DstPort :: u16
  uf_Payload :: bytes

text \<open>The body of \<open>ReadUDPFrame\<close> once the frame is in \<open>buf\<close>, with every index and slice checked.\<close>

definition udp_frame_of_buf :: "bytes \<Rightarrow> go_error + UDPFrame" where
  "udp_frame_of_buf buf =
     ebind (bidx buf 0) (\<lambda>m.
     if m \<noteq> msgUDP then Inl (Error ''bad msg'') else
     ebind (bidx buf 1) (\<lambda>at.
     let off = 2 in
     if length buf < off + 2 then Inl (Error ''short frame'') else
     ebind (bslice buf off (off + 2)) (\<lambda>sp.
     let off = off + 2 in
     if at \<noteq> addrV6 \<and> at \<noteq> addrV4 then Inl (Error ''bad addr type'') else
     let ipLen = (if at = addrV6 then 16 else 4) in
     if length buf < off + ipLen + 2 then Inl (Error ''short frame'') else
     ebind (bslice buf off (off + ipLen)) (\<lambda>dstIP.
     let off = off + ipLen in
     ebind (bslice buf off (off + 2)) (\<lambda>dp.
     let off = off + 2 in
     ebind (bidx buf (length buf - 1)) (\<lambda>lastb.
     let padLen = unat lastb in
     if padLen > 64 \<or> int (length buf) - 1 - int padLen < int off then Inl (Error ''bad pad len'') else
     let payEnd = length buf - 1 - padLen in
     ebind (bslice buf off payEnd) (\<lambda>payload.
     Inr \<lparr>uf_AddrType = at, uf_SrcPort = be_get sp, uf_DstIP = dstIP, uf_DstPort = be_get dp,
          uf_Payload = payload\<rparr>)))))))"

definition ReadUDPFrame :: "UDPFrame rd" where
  "ReadUDPFrame =
     rbind read_u32 (\<lambda>flen.
     if flen < 2 \<or> flen > 64 * 1024 + 64 then rfail (Error ''bad frame len'') else
     rbind (read_full (unat flen)) (\<lambda>buf.
     case udp_frame_of_buf buf of Inl e \<Rightarrow> rfail e | Inr f \<Rightarrow> rret f))"

text \<open>
  \<open>fillUdpPadFast\<close> fills the padding eight bytes at a time, little end first, from 64-bit draws.
\<close>

fun le_put :: "nat \<Rightarrow> u64 \<Rightarrow> bytes" where
  "le_put 0 u = []"
| "le_put (Suc n) u = ucast u # le_put n (drop_bit 8 u)"

fun fillUdpPadFast :: "(nat \<Rightarrow> u64) \<Rightarrow> nat \<Rightarrow> nat \<Rightarrow> bytes" where
  "fillUdpPadFast draw i n =
     (if n \<ge> 8 then le_put 8 (draw i) @ fillUdpPadFast draw (Suc i) (n - 8)
      else if n = 0 then [] else le_put n (draw i))"

declare fillUdpPadFast.simps [simp del]

definition writeUDPFrameInternal :: "(nat \<Rightarrow> u64) \<Rightarrow> UDPFrame \<Rightarrow> nat \<Rightarrow> wout" where
  "writeUDPFrameInternal draw f padLen =
     (case normalizeIP (uf_DstIP f) of
        Inl e \<Rightarrow> werr e
      | Inr (at, ipb) \<Rightarrow>
        (let ipLen = length ipb;
             flen = 1 + 1 + 2 + ipLen + 2 + length (uf_Payload f) + padLen + 1
         in wseq [
           wwrite (be_put 4 (word_of_nat flen :: u32)), wwrite [msgUDP], wwrite [at],
           wwrite (be_put 2 (uf_SrcPort f)), wwrite ipb, wwrite (be_put 2 (uf_DstPort f)),
           wwrite (uf_Payload f),
           (if padLen > 0 then wwrite (fillUdpPadFast draw 0 padLen) else wok),
           wwrite [word_of_nat padLen], wflush]))"

definition randPadLenN :: "entropy \<Rightarrow> int \<Rightarrow> nat" where
  "randPadLenN ent m = (if m \<le> 0 then 0 else rand_int ent 0 (nat (m + 1)))"

definition WriteUDPFrameWithPad :: "entropy \<Rightarrow> (nat \<Rightarrow> u64) \<Rightarrow> UDPFrame \<Rightarrow> int \<Rightarrow> wout" where
  "WriteUDPFrameWithPad ent draw f maxPadVal =
     (let maxPadVal = (if maxPadVal \<le> 0 \<or> maxPadVal > 64 then maxPad else maxPadVal)
      in writeUDPFrameInternal draw f (randPadLenN ent maxPadVal))"

definition WriteUDPFrameExactPad :: "(nat \<Rightarrow> u64) \<Rightarrow> UDPFrame \<Rightarrow> int \<Rightarrow> wout" where
  "WriteUDPFrameExactPad draw f padLen =
     (let padLen = (if padLen < 0 then 0 else padLen);
          padLen = (if padLen > 64 then 64 else padLen)
      in writeUDPFrameInternal draw f (nat padLen))"

section \<open>Lemmas: hop acknowledgement\<close>

lemma write_sized_bytes [wr_simps]:
  "wbytes (write_sized s) = be_put 2 (word_of_nat (length s) :: u16) @ str_bytes s"
  and write_sized_ok [wr_simps]: "wfailed (write_sized s) = None"
  by (simp_all add: write_sized_def wr_simps)

lemma readSizedString_written [rd_simps]:
  assumes "length s < 65536"
  shows "readSizedString (be_put 2 (word_of_nat (length s) :: u16) @ str_bytes s @ r) = Inr (s, r)"
proof (cases "s = []")
  case True
  then show ?thesis by (simp add: readSizedString_def rd_simps del: be_put.simps)
next
  case False
  then have z: "((word_of_nat (length s) :: u16) = 0) = False"
    using assms by (simp add: word_of_nat_eq_0_u16)
  have l: "length (str_bytes s) = unat (word_of_nat (length s) :: u16)"
    using assms by (simp add: unat_small)
  show ?thesis
    by (simp only: readSizedString_def rbind_app read_u16_be_put sum.case prod.case z if_False
        read_full_append [OF l] rret_app bytes_str_str_bytes)
qed

definition hop_ack_ok :: "HopAck \<Rightarrow> bool" where
  "hop_ack_ok a \<longleftrightarrow> length (ha_RouteID a) < 65536 \<and> length (ha_NodeID a) < 65536
     \<and> length (ha_Reason a) < 65536"

lemma WriteHopAck_bytes:
  "wbytes (WriteHopAck a) = [hopAckMagic, hopAckV1, ha_Status a, ha_HopIdx a] @
     be_put 2 (word_of_nat (length (ha_RouteID a)) :: u16) @ str_bytes (ha_RouteID a) @
     be_put 2 (word_of_nat (length (ha_NodeID a)) :: u16) @ str_bytes (ha_NodeID a) @
     be_put 2 (word_of_nat (length (ha_Reason a)) :: u16) @ str_bytes (ha_Reason a) @
     be_put 8 (ha_TsMs a)"
  by (simp add: WriteHopAck_def wr_simps)

lemma read_hop_ack_written:
  assumes "hop_ack_ok a"
  shows "ReadHopAck (wbytes (WriteHopAck a) @ r) = Inr (a, r)"
proof -
  have l: "length (ha_RouteID a) < 65536" "length (ha_NodeID a) < 65536" "length (ha_Reason a) < 65536"
    using assms by (simp_all add: hop_ack_ok_def)
  have r8: "read_full 8 (be_put 8 (ha_TsMs a) @ r) = Inr (be_put 8 (ha_TsMs a), r)"
    by (rule read_full_append) simp
  show ?thesis
    by (simp only: WriteHopAck_bytes ReadHopAck_def rbind_app append_assoc append_Cons append_Nil
        read_byte_Cons sum.case prod.case simp_thms if_False readSizedString_written [OF l(1)]
        readSizedString_written [OF l(2)] readSizedString_written [OF l(3)] r8)
      (simp add: rret_def)
qed

interpretation ack: stream_codec "\<lambda>a. wbytes (WriteHopAck a)" ReadHopAck hop_ack_ok
  by unfold_locales (rule read_hop_ack_written)

section \<open>Lemmas: TCP connect\<close>

lemma normalizeIP_cases:
  assumes "normalizeIP ip = Inr (at, ipb)"
  shows "at = addrV4 \<and> to4 ip = Some ipb \<and> length ipb = 4
       \<or> at = addrV6 \<and> to4 ip = None \<and> to16 ip = Some ipb \<and> length ipb = 16"
  using assms by (auto simp: normalizeIP_def to4_length to16_length split: option.splits)

lemma readAddr_written [rd_simps]:
  assumes "normalizeIP ip = Inr (at, ipb)"
  shows "readAddr at (ipb @ r) = Inr (ipb, r)"
  using normalizeIP_cases [OF assms]
  by (auto simp: readAddr_def read_full_append addrV4_def addrV6_def)

lemma read_tcp_connect_written:
  assumes "normalizeIP ip = Inr (at, ipb)"
  shows "ReadTcpConnect (wbytes (WriteTcpConnect ip port) @ r) =
    Inr (\<lparr>tc_AddrType = at, tc_IP = ipb, tc_Port = port\<rparr>, r)"
  by (simp add: WriteTcpConnect_def ReadTcpConnect_def assms wr_simps rbind_app read_byte_Cons
      readAddr_written [OF assms] read_u16_be_put rret_def del: be_put.simps)

text \<open>The requests a client can send, in the normal form the reader yields.\<close>

definition tcp_connect_ok :: "TcpConnect \<Rightarrow> bool" where
  "tcp_connect_ok t \<longleftrightarrow> normalizeIP (tc_IP t) = Inr (tc_AddrType t, tc_IP t)"

interpretation tcp: stream_codec "\<lambda>t. wbytes (WriteTcpConnect (tc_IP t) (tc_Port t))"
  ReadTcpConnect tcp_connect_ok
  by unfold_locales (simp add: tcp_connect_ok_def read_tcp_connect_written)

section \<open>Lemmas: UDP frames\<close>

lemma length_le_put [simp]: "length (le_put n u) = n"
  by (induction n arbitrary: u) auto

lemma length_fillUdpPadFast [simp]: "length (fillUdpPadFast draw i n) = n"
proof (induction draw i n rule: fillUdpPadFast.induct)
  case (1 draw i n)
  then show ?case by (subst fillUdpPadFast.simps) simp
qed

text \<open>No datagram makes the reader index or slice out of range.\<close>

lemma int_minus_le_imp: "int c \<le> int a - int b \<Longrightarrow> c \<le> a - b"
  "int c + 1 \<le> int a - int b \<Longrightarrow> c \<le> a - Suc b"
  by linarith+

lemma udp_frame_of_buf_no_panic:
  assumes "2 \<le> length buf"
  shows "no_panic (udp_frame_of_buf buf)"
  using assms unfolding udp_frame_of_buf_def Let_def
  by (intro no_panic_ebind no_panic_if) (auto simp: not_less dest: int_minus_le_imp simp del: of_nat_unat)

lemma udp_frame_of_buf_written:
  assumes a: "at = addrV4 \<and> length ipb = 4 \<or> at = addrV6 \<and> length ipb = 16" and p: "length pad \<le> 64"
  shows "udp_frame_of_buf ([msgUDP, at] @ be_put 2 sp @ ipb @ be_put 2 dp @ payload @ pad @
      [word_of_nat (length pad)]) =
    Inr \<lparr>uf_AddrType = at, uf_SrcPort = sp, uf_DstIP = ipb, uf_DstPort = dp, uf_Payload = payload\<rparr>"
proof -
  define buf where "buf = [msgUDP, at] @ be_put 2 sp @ ipb @ be_put 2 dp @ payload @ pad @ [word_of_nat (length pad)]"
  have len: "length buf = 7 + length ipb + length payload + length pad"
    by (simp add: buf_def del: be_put.simps)
  have b0: "bidx buf 0 = Inr msgUDP" and b1: "bidx buf 1 = Inr at"
    by (simp_all add: buf_def del: be_put.simps)
  have "buf = (butlast buf) @ [word_of_nat (length pad)]"
    by (simp add: buf_def butlast_append)
  then have bl: "bidx buf (length buf - 1) = Inr (word_of_nat (length pad))"
    using len by (metis add_gr_0 bidx_ok diff_less last_conv_nth last_snoc length_0_conv not_gr_zero
        zero_less_numeral zero_less_one)
  have pl: "unat (word_of_nat (length pad) :: byte) = length pad"
    using p by (simp add: unat_small)
  have s1: "bslice buf 2 4 = Inr (be_put 2 sp)"
    using bslice_mid [of "[msgUDP, at]" 2 "be_put 2 sp" 4] by (simp add: buf_def del: be_put.simps)
  have s2: "bslice buf 4 (4 + length ipb) = Inr ipb"
    using bslice_mid [of "[msgUDP, at] @ be_put 2 sp" 4 ipb]
    by (simp add: buf_def del: be_put.simps)
  have b3: "buf = ([msgUDP, at] @ be_put 2 sp @ ipb) @ be_put 2 dp @ (payload @ pad @ [word_of_nat (length pad)])"
    and b4: "buf = ([msgUDP, at] @ be_put 2 sp @ ipb @ be_put 2 dp) @ payload @ (pad @ [word_of_nat (length pad)])"
    by (simp_all add: buf_def del: be_put.simps)
  have s3: "bslice buf (4 + length ipb) (4 + length ipb + 2) = Inr (be_put 2 dp)"
    unfolding b3 by (rule bslice_mid) (simp_all del: be_put.simps)
  have s4: "bslice buf (4 + length ipb + 2) (length buf - 1 - length pad) = Inr payload"
    unfolding len unfolding b4 by (rule bslice_mid) (simp_all del: be_put.simps)
  have c: "\<not> length buf < 2 + 2" "\<not> length buf < 4 + length ipb + 2"
    "\<not> (64 < length pad \<or> int (length buf) - 1 - int (length pad) < int (4 + length ipb + 2))"
    using len p by auto
  have t: "(if at = addrV6 then 16 else 4) = length ipb" "\<not> (at \<noteq> addrV6 \<and> at \<noteq> addrV4)"
    using a by (auto simp: addrV4_def addrV6_def)
  have "(2 :: nat) + 2 = 4" by simp
  then show ?thesis
    unfolding buf_def [symmetric]
    by (simp only: udp_frame_of_buf_def Let_def t b0 b1 bl pl s1 s2 s3 s4 c ebind_simps if_False
        simp_thms be_get_be_put16) (simp add: len)
qed

lemma writeUDPFrameInternal_bytes:
  assumes "normalizeIP (uf_DstIP f) = Inr (at, ipb)"
  shows "wbytes (writeUDPFrameInternal draw f n) =
    be_put 4 (word_of_nat (7 + length ipb + length (uf_Payload f) + n) :: u32) @
    [msgUDP, at] @ be_put 2 (uf_SrcPort f) @ ipb @ be_put 2 (uf_DstPort f) @ uf_Payload f @
    fillUdpPadFast draw 0 n @ [word_of_nat n]"
proof -
  have z: "fillUdpPadFast draw 0 0 = []" by (simp add: fillUdpPadFast.simps)
  have "1 + 1 + 2 + length ipb + 2 + length (uf_Payload f) + n + 1 = 7 + length ipb + length (uf_Payload f) + n"
    by simp
  then show ?thesis
    by (simp only: writeUDPFrameInternal_def assms sum.case prod.case Let_def)
      (simp add: wr_simps z del: be_put.simps)
qed

lemma read_udp_frame_written:
  assumes ip: "normalizeIP (uf_DstIP f) = Inr (at, ipb)" and n: "n \<le> 64"
    and len: "7 + length ipb + length (uf_Payload f) + n \<le> 65600"
  shows "ReadUDPFrame (wbytes (writeUDPFrameInternal draw f n) @ r) =
    Inr (f\<lparr>uf_AddrType := at, uf_DstIP := ipb\<rparr>, r)"
proof -
  let ?b = "[msgUDP, at] @ be_put 2 (uf_SrcPort f) @ ipb @ be_put 2 (uf_DstPort f) @ uf_Payload f @
    fillUdpPadFast draw 0 n @ [word_of_nat n]"
  let ?l = "7 + length ipb + length (uf_Payload f) + n"
  have u: "unat (word_of_nat ?l :: u32) = ?l"
    using len by (intro unat_small) simp
  have g: "\<not> ((word_of_nat ?l :: u32) < 2 \<or> (word_of_nat ?l :: u32) > 64 * 1024 + 64)"
    using u len by (simp add: word_less_nat_alt)
  have rf: "read_full (unat (word_of_nat ?l :: u32)) (?b @ r) = Inr (?b, r)"
    unfolding u by (rule read_full_append) (simp del: be_put.simps)
  have at: "at = addrV4 \<and> length ipb = 4 \<or> at = addrV6 \<and> length ipb = 16"
    using normalizeIP_cases [OF ip] by auto
  have pb: "udp_frame_of_buf ?b =
      Inr \<lparr>uf_AddrType = at, uf_SrcPort = uf_SrcPort f, uf_DstIP = ipb, uf_DstPort = uf_DstPort f,
        uf_Payload = uf_Payload f\<rparr>"
    using udp_frame_of_buf_written [OF at, of "fillUdpPadFast draw 0 n"] n by simp
  show ?thesis
    by (simp only: writeUDPFrameInternal_bytes [OF ip] append_assoc [of "be_put 4 _"] ReadUDPFrame_def
        rbind_app read_u32_be_put sum.case prod.case g if_False rf pb rret_app)
      simp
qed

lemma ReadUDPFrame_no_panic: "no_panic (ReadUDPFrame s)"
proof -
  show ?thesis
    unfolding ReadUDPFrame_def
  proof (intro no_panic_rbind)
    fix flen :: u32 and r
    show "no_panic ((if flen < 2 \<or> flen > 64 * 1024 + 64 then rfail (Error ''bad frame len'')
      else rbind (read_full (unat flen)) (\<lambda>buf. case udp_frame_of_buf buf of
        Inl e \<Rightarrow> rfail e | Inr f \<Rightarrow> rret f)) r)"
    proof (cases "flen < 2 \<or> flen > 64 * 1024 + 64")
      case False
      then have l: "2 \<le> unat flen" by (simp add: word_less_nat_alt)
      have "no_panic (rbind (read_full (unat flen)) (\<lambda>buf. case udp_frame_of_buf buf of
        Inl e \<Rightarrow> rfail e | Inr f \<Rightarrow> rret f) r)"
      proof (rule no_panic_rbind)
        fix buf r' assume "read_full (unat flen) r = Inr (buf, r')"
        then have "no_panic (udp_frame_of_buf buf)"
          using l by (intro udp_frame_of_buf_no_panic) (auto simp: read_full_Inr)
        then show "no_panic ((case udp_frame_of_buf buf of Inl e \<Rightarrow> rfail e | Inr f \<Rightarrow> rret f) r')"
          by (auto simp: rret_def rfail_def no_panic_def split: sum.splits go_error.splits)
      qed simp
      with False show ?thesis by simp
    qed simp
  qed simp
qed

section \<open>Lemmas: the capability hello\<close>

lemma caps_ext_known:
  assumes "length val \<le> 255"
  shows "caps_ext_loop (appendTLV [] tag val @ r) caps =
     (if tag = helloCapsExtQuicLeafPin then
        (if length val \<noteq> 32 then Inl (Error ''caps bad quic pin len'')
         else caps_ext_loop r (caps\<lparr>hc_QuicLeafPinSHA256 := val\<rparr>))
      else if tag = helloCapsExtRelayClass then
        (if length val \<noteq> 1 then Inl (Error ''caps bad relay class len'')
         else caps_ext_loop r (caps\<lparr>hc_RelayClass := val ! 0\<rparr>))
      else if tag = helloCapsExtPathTTL then
        (if length val \<noteq> 1 then Inl (Error ''caps bad path ttl len'')
         else caps_ext_loop r (caps\<lparr>hc_PathTTL := val ! 0\<rparr>))
      else if tag = helloCapsExtRelayFlags then
        (if length val \<noteq> 2 then Inl (Error ''caps bad relay flags len'')
         else caps_ext_loop r (caps\<lparr>hc_RelayFlags := be_get val\<rparr>))
      else Inl (Error ''caps unknown extension tag''))"
proof -
  have u: "unat (word_of_nat (length val) :: byte) = length val"
    using assms by (intro unat_small) simp
  have e: "appendTLV [] tag val @ r = tag # word_of_nat (length val) # val @ r"
    using assms by (simp add: appendTLV_def)
  have l: "(length (val @ r) < length val) = False" "take (length val) (val @ r) = val"
    "drop (length val) (val @ r) = r" by simp_all
  show ?thesis
    unfolding e
    by (subst caps_ext_loop.simps) (simp only: list.case Let_def u l if_False)
qed

lemma appendTLV_append: "appendTLV dst tag val = dst @ appendTLV [] tag val"
  by (simp add: appendTLV_def)

definition caps_ok :: "ServerHelloCaps \<Rightarrow> bool" where
  "caps_ok c \<longleftrightarrow> length (hc_Nonce c) \<le> 32 \<and>
     (hc_QuicLeafPinSHA256 c = [] \<or> length (hc_QuicLeafPinSHA256 c) = 32)"

text \<open>The extensions that are written: those whose field is not zero.\<close>

definition caps_exts :: "ServerHelloCaps \<Rightarrow> bytes" where
  "caps_exts c =
     (if hc_QuicLeafPinSHA256 c \<noteq> [] then appendTLV [] helloCapsExtQuicLeafPin (hc_QuicLeafPinSHA256 c) else []) @
     (if hc_RelayClass c \<noteq> 0 then appendTLV [] helloCapsExtRelayClass [hc_RelayClass c] else []) @
     (if hc_PathTTL c \<noteq> 0 then appendTLV [] helloCapsExtPathTTL [hc_PathTTL c] else []) @
     (if hc_RelayFlags c \<noteq> 0 then appendTLV [] helloCapsExtRelayFlags (be_put 2 (hc_RelayFlags c)) else [])"

lemma WriteServerHelloCaps_bytes:
  assumes "caps_ok c"
  shows "WriteServerHelloCaps c = wwrite ([hc_Version c, if hc_LegacyIPv6 c then 1 else 0, hc_TransportMask c] @
     be_put 2 (hc_FeatureBits c) @ be_put 2 (hc_QuicPort c) @ be_put 2 (hc_TCPPortHint c) @
     [hc_ObfsProfileID c, word_of_nat (length (hc_Nonce c))] @ hc_Nonce c @ caps_exts c)"
proof -
  have n: "(length (hc_Nonce c) > HelloCapsMaxNonceLen) = False"
    "(hc_QuicLeafPinSHA256 c \<noteq> [] \<and> length (hc_QuicLeafPinSHA256 c) \<noteq> 32) = False"
    using assms by (auto simp: caps_ok_def HelloCapsMaxNonceLen_def)
  show ?thesis
    by (simp only: WriteServerHelloCaps_def Let_def n if_False caps_exts_def
        appendTLV_append [of "if _ then _ else _"] appendTLV_append [of "_ @ _"] if_distrib [of "\<lambda>x. x @ _"])
      (simp add: appendTLV_append [of "_ @ _"] appendTLV_append [of "_ # _"] del: be_put.simps)
qed

lemma caps_ext_written:
  assumes "caps_ok c"
    and "hc_QuicLeafPinSHA256 c0 = []" "hc_RelayClass c0 = 0" "hc_PathTTL c0 = 0" "hc_RelayFlags c0 = 0"
  shows "caps_ext_loop (caps_exts c) c0 =
    Inr (c0\<lparr>hc_QuicLeafPinSHA256 := hc_QuicLeafPinSHA256 c, hc_RelayClass := hc_RelayClass c,
      hc_PathTTL := hc_PathTTL c, hc_RelayFlags := hc_RelayFlags c\<rparr>)"
proof -
  have tags: "helloCapsExtRelayClass \<noteq> helloCapsExtQuicLeafPin" "helloCapsExtPathTTL \<noteq> helloCapsExtQuicLeafPin"
    "helloCapsExtPathTTL \<noteq> helloCapsExtRelayClass" "helloCapsExtRelayFlags \<noteq> helloCapsExtQuicLeafPin"
    "helloCapsExtRelayFlags \<noteq> helloCapsExtRelayClass" "helloCapsExtRelayFlags \<noteq> helloCapsExtPathTTL"
    by (simp_all add: caps_tags)
  have E: "caps_ext_loop [] x = Inr x" for x by (simp add: caps_ext_loop.simps)
  have l: "hc_QuicLeafPinSHA256 c = [] \<or> length (hc_QuicLeafPinSHA256 c) = 32"
    using assms(1) by (simp add: caps_ok_def)
  have F: "caps_ext_loop ((if hc_RelayFlags c \<noteq> 0 then appendTLV [] helloCapsExtRelayFlags
        (be_put 2 (hc_RelayFlags c)) else [])) x = Inr (x\<lparr>hc_RelayFlags := hc_RelayFlags c\<rparr>)"
    if "hc_RelayFlags x = 0" for x
    using caps_ext_known [of "be_put 2 (hc_RelayFlags c)" helloCapsExtRelayFlags "[]" x] that
    by (cases x) (simp add: tags E del: be_put.simps)
  have P: "caps_ext_loop ((if hc_PathTTL c \<noteq> 0 then appendTLV [] helloCapsExtPathTTL [hc_PathTTL c] else []) @ r) x
      = caps_ext_loop r (x\<lparr>hc_PathTTL := hc_PathTTL c\<rparr>)" if "hc_PathTTL x = 0" for x r
    using caps_ext_known [of "[hc_PathTTL c]" helloCapsExtPathTTL r x] that by (cases x) (simp add: tags)
  have R: "caps_ext_loop ((if hc_RelayClass c \<noteq> 0 then appendTLV [] helloCapsExtRelayClass [hc_RelayClass c] else []) @ r) x
      = caps_ext_loop r (x\<lparr>hc_RelayClass := hc_RelayClass c\<rparr>)" if "hc_RelayClass x = 0" for x r
    using caps_ext_known [of "[hc_RelayClass c]" helloCapsExtRelayClass r x] that by (cases x) (simp add: tags)
  have Q: "caps_ext_loop ((if hc_QuicLeafPinSHA256 c \<noteq> [] then appendTLV [] helloCapsExtQuicLeafPin
        (hc_QuicLeafPinSHA256 c) else []) @ r) x
      = caps_ext_loop r (x\<lparr>hc_QuicLeafPinSHA256 := hc_QuicLeafPinSHA256 c\<rparr>)"
    if "hc_QuicLeafPinSHA256 x = []" for x r
    using caps_ext_known [of "hc_QuicLeafPinSHA256 c" helloCapsExtQuicLeafPin r x] that l by (cases x) (auto simp: tags)
  show ?thesis
    unfolding caps_exts_def using assms(2-) by (simp add: Q R P F)
qed

lemma read_caps_written:
  assumes "caps_ok c"
  shows "ReadServerHelloCaps (wbytes (WriteServerHelloCaps c)) = Inr c"
proof -
  let ?h = "[hc_Version c, if hc_LegacyIPv6 c then 1 else 0, hc_TransportMask c] @
     be_put 2 (hc_FeatureBits c) @ be_put 2 (hc_QuicPort c) @ be_put 2 (hc_TCPPortHint c) @
     [hc_ObfsProfileID c, word_of_nat (length (hc_Nonce c))]"
  have b: "wbytes (WriteServerHelloCaps c) = ?h @ hc_Nonce c @ caps_exts c"
    using WriteServerHelloCaps_bytes [OF assms] by (simp add: wr_simps)
  have rf: "read_full 11 (?h @ s) = Inr (?h, s)" for s
    by (rule read_full_append) (simp del: be_put.simps)
  have n: "length (hc_Nonce c) \<le> 32" using assms by (simp add: caps_ok_def)
  have i10: "?h ! 10 = word_of_nat (length (hc_Nonce c))"
    by (simp add: nth_append nth_Cons' del: be_put.simps)
  have u: "unat (word_of_nat (length (hc_Nonce c)) :: byte) = length (hc_Nonce c)"
    using n by (intro unat_small) simp
  have t: "take 2 (drop 3 ?h) = be_put 2 (hc_FeatureBits c)" "take 2 (drop 5 ?h) = be_put 2 (hc_QuicPort c)"
    "take 2 (drop 7 ?h) = be_put 2 (hc_TCPPortHint c)"
    by (simp_all del: be_put.simps)
  have rn: "(if length (hc_Nonce c) > 0 then read_full (length (hc_Nonce c)) (hc_Nonce c @ s) else Inr ([], hc_Nonce c @ s))
      = Inr (hc_Nonce c, s)" for s
    by (auto simp: read_full_append)
  have i: "?h ! 0 = hc_Version c" "?h ! 1 = (if hc_LegacyIPv6 c then 1 else 0)" "?h ! 2 = hc_TransportMask c"
    "?h ! 9 = hc_ObfsProfileID c"
    by (simp_all add: nth_append nth_Cons' del: be_put.simps)
  have nl: "\<not> length (hc_Nonce c) > HelloCapsMaxNonceLen" using n by (simp add: HelloCapsMaxNonceLen_def)
  show ?thesis
    unfolding b
    by (simp only: ReadServerHelloCaps_def rf ebind_simps prod.case Let_def i10 u nl if_False rn t i be_get_be_put16)
      (simp add: caps_ext_written [OF assms])
qed

section \<open>Properties\<close>

lemma handshake_read_back:
  assumes "wfailed (WriteHandshakeWithPrefixAndOptsSlot ms ent role ch token k opts) = None"
    and "\<not> sublist magic (junk @ handshake_pad ent k)"
  shows "ReadHandshakeAfterSkipWithOpts
      (junk @ wbytes (WriteHandshakeWithPrefixAndOptsSlot ms ent role ch token k opts) @ r) =
    Inr ((\<lparr>hs_Role = role, hs_ChannelID = (if role = roleUDP then ch else 0), hs_Token = token\<rparr>,
          if length opts \<le> maxOptsLen then opts else []), r)"
proof -
  have t: "length token \<le> 4096" by (rule write_handshake_bytes(1) [OF assms(1)])
  have o: "length (sent_opts opts) \<le> maxOptsLen" by simp
  have b: "junk @ wbytes (WriteHandshakeWithPrefixAndOptsSlot ms ent role ch token k opts) @ r =
      (junk @ handshake_pad ent k) @ magic @ [version, role] @
      be_put 2 (word_of_nat (length token) :: u16) @ str_bytes token @
      (if role = roleUDP then [ch] else []) @
      be_put 2 (word_of_nat (length (sent_opts opts)) :: u16) @ sent_opts opts @ r"
    unfolding write_handshake_bytes(2) [OF assms(1)] by (simp del: be_put.simps)
  show ?thesis
    unfolding b
    by (simp only: ReadHandshakeAfterSkipWithOpts_def rbind_app SkipUntilMagic_junk [OF assms(2)]
        readHandshakeBody_written [OF t] readHandshakeOpts_written [OF o] sum.case prod.case rret_app)
qed

text \<open>
  C1. Whatever a client writes as a handshake, behind any preamble and padding free of the
  magic and however the magic is split over packets, the server resynchronises on it and reads
  back the role, the channel, the token and the options, leaving the stream right behind it.
\<close>

theorem handshake_resync:
  assumes "wfailed (WriteHandshakeWithPrefixAndOptsSlot ms ent role ch token k opts) = None"
    and "\<not> sublist magic (junk @ handshake_pad ent k)"
  shows "ReadHandshakeAfterSkipWithOpts
      (junk @ wbytes (WriteHandshakeWithPrefixAndOptsSlot ms ent role ch token k opts) @ r) =
    Inr ((\<lparr>hs_Role = role, hs_ChannelID = (if role = roleUDP then ch else 0), hs_Token = token\<rparr>,
          if length opts \<le> maxOptsLen then opts else []), r)"
  by (rule handshake_read_back [OF assms])

theorem handshake_resync_witness:
  "ReadHandshakeAfterSkipWithOpts
     ([22, 3, 1] @ wbytes (WriteHandshakeWithPrefixAndOptsSlot (\<lambda>_. ''2, 3'')
        (\<lambda>_. 1, \<lambda>_ _. 7) roleUDP 9 ''tok'' 4 [123, 125]) @ [5]) =
   Inr ((\<lparr>hs_Role = roleUDP, hs_ChannelID = 9, hs_Token = ''tok''\<rparr>, [123, 125]), [5])"
proof -
  have f: "wfailed (WriteHandshakeWithPrefixAndOptsSlot (\<lambda>_. ''2, 3'')
      (\<lambda>_. 1, \<lambda>_ _. 7) roleUDP 9 ''tok'' 4 [123, 125]) = None" by code_simp
  have s: "\<not> sublist magic ([22, 3, 1] @ handshake_pad (\<lambda>_. 1, \<lambda>_ _. 7) 4)" by code_simp
  show ?thesis using handshake_resync [OF f s, of "[5]"] by (simp add: maxOptsLen_def)
qed

text \<open>
  A handshake whose options carry an unsatisfiable split of the magic can crash the client:
  the sum of the parts is taken in wrapping 64-bit arithmetic, so a list whose parts add up to
  five only after wrapping passes the check, and the slice of the second part panics.
\<close>

theorem magic_split_panics:
  "wfailed (WriteHandshakeWithPrefixAndOptsSlot
      (\<lambda>_. ''1,9223372036854775807,9223372036854775807,6'') ent role ch token 0 [123, 125]) =
    Some (Panic ''slice bounds out of range'')"
proof -
  have s: "parseMagicSplit ''1,9223372036854775807,9223372036854775807,6'' =
      [1, 9223372036854775807, 9223372036854775807, 6]" by code_simp
  have w: "wfailed (write_magic_parts 0 [1, 9223372036854775807, 9223372036854775807, 6]) =
      Some (Panic ''slice bounds out of range'')" by code_simp
  have o: "0 < length ([123, 125] :: bytes) \<and> length ([123, 125] :: bytes) \<le> maxOptsLen"
    by (simp add: maxOptsLen_def)
  show ?thesis
    unfolding WriteHandshakeWithPrefixAndOptsSlot_def Let_def if_P [OF o] s
    by (simp add: handshake_pad_def wr_simps w del: write_magic_parts.simps)
qed

text \<open>
  C6. The server's capability hello is read back exactly by the client, nonce, certificate pin
  and all optional extensions included, for every value the writer accepts.
\<close>

theorem server_caps_roundtrip:
  assumes "length (hc_Nonce c) \<le> 32"
    and "hc_QuicLeafPinSHA256 c = [] \<or> length (hc_QuicLeafPinSHA256 c) = 32"
  shows "ReadServerHelloCaps (wbytes (WriteServerHelloCaps c)) = Inr c"
  by (rule read_caps_written) (simp add: caps_ok_def assms)

theorem server_caps_roundtrip_witness:
  "ReadServerHelloCaps (wbytes (WriteServerHelloCaps
     \<lparr>hc_Version = 1, hc_LegacyIPv6 = True, hc_TransportMask = 3, hc_FeatureBits = 0x102, hc_QuicPort = 443,
      hc_TCPPortHint = 8443, hc_ObfsProfileID = 2, hc_Nonce = [1, 2, 3], hc_QuicLeafPinSHA256 = replicate 32 9,
      hc_RelayClass = 2, hc_PathTTL = 0, hc_RelayFlags = 0x8001\<rparr>)) =
   Inr \<lparr>hc_Version = 1, hc_LegacyIPv6 = True, hc_TransportMask = 3, hc_FeatureBits = 0x102, hc_QuicPort = 443,
      hc_TCPPortHint = 8443, hc_ObfsProfileID = 2, hc_Nonce = [1, 2, 3], hc_QuicLeafPinSHA256 = replicate 32 9,
      hc_RelayClass = 2, hc_PathTTL = 0, hc_RelayFlags = 0x8001\<rparr>"
  by (rule server_caps_roundtrip) simp_all

text \<open>
  Hop acknowledgements on one stream are self-delimiting: a sequence of them, each with
  strings shorter than 65536 bytes, is read back one by one.
\<close>

theorem hop_acks_in_a_row:
  assumes "\<forall>a \<in> set as. length (ha_RouteID a) < 65536 \<and> length (ha_NodeID a) < 65536
     \<and> length (ha_Reason a) < 65536"
  shows "read_many (length as) ReadHopAck (concat (map (\<lambda>a. wbytes (WriteHopAck a)) as) @ r) = Inr (as, r)"
  using assms by (intro ack.read_many_concat) (simp add: hop_ack_ok_def)

theorem hop_acks_in_a_row_witness:
  "read_many 2 ReadHopAck (concat (map (\<lambda>a. wbytes (WriteHopAck a))
     [\<lparr>ha_RouteID = ''r1'', ha_HopIdx = 0, ha_NodeID = ''n'', ha_Status = 1, ha_Reason = [], ha_TsMs = 5\<rparr>,
      \<lparr>ha_RouteID = ''r1'', ha_HopIdx = 1, ha_NodeID = ''m'', ha_Status = 0, ha_Reason = ''x'', ha_TsMs = 6\<rparr>]) @ [7]) =
   Inr ([\<lparr>ha_RouteID = ''r1'', ha_HopIdx = 0, ha_NodeID = ''n'', ha_Status = 1, ha_Reason = [], ha_TsMs = 5\<rparr>,
      \<lparr>ha_RouteID = ''r1'', ha_HopIdx = 1, ha_NodeID = ''m'', ha_Status = 0, ha_Reason = ''x'', ha_TsMs = 6\<rparr>], [7])"
proof -
  let ?as = "[\<lparr>ha_RouteID = ''r1'', ha_HopIdx = 0, ha_NodeID = ''n'', ha_Status = 1, ha_Reason = [], ha_TsMs = 5\<rparr>,
      \<lparr>ha_RouteID = ''r1'', ha_HopIdx = 1, ha_NodeID = ''m'', ha_Status = 0, ha_Reason = ''x'', ha_TsMs = 6\<rparr>]"
  have "length ?as = 2" by simp
  moreover have "read_many (length ?as) ReadHopAck (concat (map (\<lambda>a. wbytes (WriteHopAck a)) ?as) @ [7]) = Inr (?as, [7])"
    by (rule hop_acks_in_a_row) simp
  ultimately show ?thesis by metis
qed

text \<open>
  A UDP frame written with any padding the sender may draw is read back with the same ports,
  payload and (normalised) address, as long as it fits the reader's frame limit.
\<close>

theorem udp_frame_roundtrip:
  assumes "normalizeIP (uf_DstIP f) = Inr (at, ipb)" and "length (uf_Payload f) \<le> 65513"
  shows "ReadUDPFrame (wbytes (WriteUDPFrameWithPad ent draw f maxPadVal) @ r) =
      Inr (f\<lparr>uf_AddrType := at, uf_DstIP := ipb\<rparr>, r)"
proof -
  have l: "length ipb \<le> 16" using normalizeIP_cases [OF assms(1)] by auto
  have p: "randPadLenN ent m \<le> 64" if "m \<le> 64" for m
  proof -
    have "rand_int ent 0 (nat (m + 1)) \<le> 64" if "0 < m"
      using rand_int_less [of "nat (m + 1)" ent 0] that \<open>m \<le> 64\<close> by linarith
    then show ?thesis by (simp add: randPadLenN_def)
  qed
  show ?thesis
    unfolding WriteUDPFrameWithPad_def Let_def
    by (rule read_udp_frame_written [OF assms(1)])
      (use p [of "if maxPadVal \<le> 0 \<or> 64 < maxPadVal then maxPad else maxPadVal"] l assms(2) in
        \<open>auto simp: maxPad_def split: if_splits\<close>)
qed

theorem udp_frame_roundtrip_witness:
  "ReadUDPFrame (wbytes (WriteUDPFrameWithPad (\<lambda>_. 5, \<lambda>_ _. 0) (\<lambda>_. 1)
     \<lparr>uf_AddrType = 0, uf_SrcPort = 53, uf_DstIP = v4_in_v6 @ [1, 2, 3, 4], uf_DstPort = 80, uf_Payload = [1, 2]\<rparr> 40) @ [9]) =
   Inr (\<lparr>uf_AddrType = 4, uf_SrcPort = 53, uf_DstIP = [1, 2, 3, 4], uf_DstPort = 80, uf_Payload = [1, 2]\<rparr>, [9])"
proof -
  have "normalizeIP (v4_in_v6 @ [1, 2, 3, 4]) = Inr (4, [1, 2, 3, 4])" by code_simp
  then show ?thesis
    using udp_frame_roundtrip [of "\<lparr>uf_AddrType = 0, uf_SrcPort = 53, uf_DstIP = v4_in_v6 @ [1, 2, 3, 4],
        uf_DstPort = 80, uf_Payload = [1, 2]\<rparr>" 4 "[1, 2, 3, 4]" "(\<lambda>_. 5, \<lambda>_ _. 0)" "\<lambda>_. 1" 40 "[9]"]
    by simp
qed

text \<open>
  No sequence of bytes a peer sends can make the UDP frame reader index or slice out of
  range.
\<close>

theorem udp_reader_safe: "no_panic (ReadUDPFrame s)"
  by (rule ReadUDPFrame_no_panic)

end
