(* ===== verification/Preamble.thy ===== *)
theory Preamble
  imports Messages
begin

text \<open>
  The camouflage bytes sent before the handshake: \<^verbatim>\<open>internal/protocol/preamble_write.go\<close> and the
  two junk writers of \<^verbatim>\<open>protocol.go\<close>. Each of the four kinds imitates the framing of another
  protocol; the lemmas show that what is sent is well framed. Drawing a
  number is \<open>rand_int\<close>, filling a buffer \<open>rand_read\<close>, both with the number of the round.
\<close>

section \<open>Choosing the kind\<close>

definition PreambleTLSRecord :: string where "PreambleTLSRecord = ''tls_record''"
definition PreambleTLSCHShape :: string where "PreambleTLSCHShape = ''tls_ch_shape''"
definition PreambleSMB1Shape :: string where "PreambleSMB1Shape = ''smb1_shape''"
definition PreambleMcFrame :: string where "PreambleMcFrame = ''mc_frame''"
definition PreambleRotate :: string where "PreambleRotate = ''rotate''"

lemmas preamble_kinds = PreambleTLSRecord_def PreambleTLSCHShape_def PreambleSMB1Shape_def
  PreambleMcFrame_def PreambleRotate_def

text \<open>\<open>sha256\<close> is the hash of the standard library; only its first byte is used here.\<close>

definition kindRotate :: "(bytes \<Rightarrow> bytes) \<Rightarrow> int \<Rightarrow> string \<Rightarrow> byte \<Rightarrow> string" where
  "kindRotate sha256 slot token probeObfs =
     (let base = (if probeObfs = 0
            then uint (sha256 (str_bytes (itoa slot @ ''|'' @ token)) ! 0) else uint probeObfs);
          k = go_mod (wrap64 (base + slot)) 4
      in if k = 0 then PreambleTLSRecord
         else if k = 1 then PreambleTLSCHShape
         else if k = 2 then PreambleSMB1Shape
         else PreambleMcFrame)"

definition ResolvePreambleKind ::
  "(bytes \<Rightarrow> bytes) \<Rightarrow> string \<Rightarrow> string \<Rightarrow> bool \<Rightarrow> bool \<Rightarrow> int \<Rightarrow> string \<Rightarrow> byte \<Rightarrow> string" where
  "ResolvePreambleKind sha256 junkStyle preambleProfile preambleRotate obfuscationEnhanced slot token probeObfs =
     (let pp = to_lower (trim_space preambleProfile) in
      if pp = PreambleRotate \<or> (obfuscationEnhanced \<and> preambleRotate)
      then kindRotate sha256 slot token probeObfs
      else if pp \<in> set [PreambleTLSRecord, PreambleTLSCHShape, PreambleSMB1Shape, PreambleMcFrame] then pp
      else if equal_fold junkStyle ''tls'' then PreambleTLSRecord
      else [])"

section \<open>The junk writers\<close>

text \<open>
  The flush call-back of the caller, when there is one, flushes; \<open>fc\<close> says whether it is called
  after every chunk. \<open>rounds n f\<close> is \<^verbatim>\<open>for i := 0; i < n; i++\<close> over the writes \<open>f i\<close>.
\<close>

definition rounds :: "nat \<Rightarrow> (nat \<Rightarrow> wout) \<Rightarrow> wout" where
  "rounds n f = wseq (map f [0..<n])"

definition chunk_flush :: "bool \<Rightarrow> wout" where
  "chunk_flush fc = (if fc then wflush else wok)"

text \<open>The length the \<open>i\<close>-th round draws between the bounds.\<close>

definition draw_len :: "entropy \<Rightarrow> nat \<Rightarrow> int \<Rightarrow> int \<Rightarrow> int" where
  "draw_len ent i mn mx = mn + int (rand_int ent i (nat (mx - mn + 1)))"

definition WriteJunk :: "entropy \<Rightarrow> int \<Rightarrow> int \<Rightarrow> int \<Rightarrow> bool \<Rightarrow> wout" where
  "WriteJunk ent cnt mn mx fc =
     (if cnt \<le> 0 \<or> mn \<le> 0 \<or> mx < mn then wok
      else let mx = (if mx > 1024 then 1024 else mx);
               mn = (if mn > mx then mx else mn)
        in rounds (nat cnt) (\<lambda>i.
             let sz = draw_len ent i mn mx
             in wseq [wwrite (rand_read ent i (nat sz)), chunk_flush fc]))"

definition WriteTLSLikeJunk :: "entropy \<Rightarrow> int \<Rightarrow> int \<Rightarrow> int \<Rightarrow> bool \<Rightarrow> wout" where
  "WriteTLSLikeJunk ent cnt minLen maxLen fc =
     (if cnt \<le> 0 \<or> minLen \<le> 0 \<or> maxLen < minLen then wok
      else let maxLen = (if maxLen > 1024 then 1024 else maxLen);
               minLen = (if minLen > maxLen then maxLen else minLen)
        in rounds (nat cnt) (\<lambda>i.
             let payloadLen = draw_len ent i minLen maxLen
             in wseq [wwrite [0x16, 0x03, 0x01, word_of_int (payloadLen div 256), word_of_int payloadLen],
                  wwrite (rand_read ent i (nat payloadLen)), chunk_flush fc]))"

definition writeTLSClientHelloShapeJunk :: "entropy \<Rightarrow> int \<Rightarrow> int \<Rightarrow> int \<Rightarrow> bool \<Rightarrow> wout" where
  "writeTLSClientHelloShapeJunk ent cnt minLen maxLen fc =
     (if cnt \<le> 0 \<or> minLen \<le> 0 \<or> maxLen < minLen then wok
      else let maxLen = (if maxLen > 1024 then 1024 else maxLen);
               minLen = (if minLen > maxLen then maxLen else minLen)
        in rounds (nat cnt) (\<lambda>i.
             let payloadLen = draw_len ent i minLen maxLen;
                 payloadLen = (if payloadLen < 11 then 11 else payloadLen);
                 inner = payloadLen - 5;
                 inner = (if inner > maxLen then maxLen else inner)
             in wseq [wwrite [0x16, 0x03, 0x03, word_of_int ((payloadLen - 5) div 256), word_of_int (payloadLen - 5)],
                  wwrite (rand_read ent i (nat inner)), chunk_flush fc]))"

definition smb1_prefix :: bytes where
  "smb1_prefix = [0x00, 0x00, 0x00, 0x54, 0xff, 0x53, 0x4d, 0x42, 0x72, 0x00, 0x00, 0x00, 0x00]"

definition writeSMB1ShapeJunk :: "entropy \<Rightarrow> int \<Rightarrow> int \<Rightarrow> int \<Rightarrow> bool \<Rightarrow> wout" where
  "writeSMB1ShapeJunk ent cnt minLen maxLen fc =
     (if cnt \<le> 0 \<or> minLen \<le> 0 \<or> maxLen < minLen then wok
      else let maxLen = (if maxLen > 1024 then 1024 else maxLen);
               minLen = (if minLen > maxLen then maxLen else minLen)
        in rounds (nat cnt) (\<lambda>i.
             let tot = draw_len ent i minLen maxLen;
                 extra = tot - int (length smb1_prefix);
                 extra = (if extra < 8 then 8 else extra)
             in wseq [wwrite smb1_prefix,
                  (let extra = (if extra > maxLen then maxLen else extra)
                   in wwrite (rand_read ent i (nat extra))),
                  chunk_flush fc]))"

function varint_bytes :: "u32 \<Rightarrow> bytes list" where
  "varint_bytes v =
     (let b = ucast (v AND 0x7f) :: byte; v = drop_bit 7 v;
          b = (if v \<noteq> 0 then b OR 0x80 else b)
      in [b] # (if v = 0 then [] else varint_bytes v))"
  by pat_completeness auto
termination
proof (relation "measure unat")
  fix v x xa xb
  assume "xa = drop_bit 7 (v :: u32)" "xa \<noteq> 0"
  then have "v \<noteq> 0" by auto
  then have "unat v div 2 ^ 7 < unat v" by (simp add: unat_gt_0)
  then show "(xa, v) \<in> measure unat"
    by (simp add: \<open>xa = drop_bit 7 v\<close> unat_drop_bit_eq drop_bit_eq_div unat_div)
qed simp

declare varint_bytes.simps [simp del]

definition writeVarInt :: "u32 \<Rightarrow> wout" where
  "writeVarInt v = wseq (map wwrite (varint_bytes v))"

definition writeMinecraftFrameJunk :: "entropy \<Rightarrow> int \<Rightarrow> int \<Rightarrow> int \<Rightarrow> bool \<Rightarrow> wout" where
  "writeMinecraftFrameJunk ent cnt minLen maxLen fc =
     (if cnt \<le> 0 \<or> minLen \<le> 0 \<or> maxLen < minLen then wok
      else let maxLen = (if maxLen > 1024 then 1024 else maxLen);
               minLen = (if minLen > maxLen then maxLen else minLen)
        in rounds (nat cnt) (\<lambda>i.
             let inner = draw_len ent i minLen maxLen;
                 inner = (if inner < 16 then 16 else inner);
                 inner = (if inner > maxLen then maxLen else inner)
             in wseq [writeVarInt (word_of_int inner), wwrite (rand_read ent i (nat inner)),
                  chunk_flush fc]))"

definition WriteJunkOrTLSLike ::
  "entropy \<Rightarrow> int \<Rightarrow> int \<Rightarrow> int \<Rightarrow> string \<Rightarrow> string \<Rightarrow> bool \<Rightarrow> wout" where
  "WriteJunkOrTLSLike ent cnt mn mx junkStyle flushPolicy has_flush =
     (let fc = has_flush \<and> equal_fold flushPolicy ''perChunk''
      in if equal_fold junkStyle ''tls'' then WriteTLSLikeJunk ent cnt mn mx fc
         else WriteJunk ent cnt mn mx fc)"

definition WritePreamble ::
  "entropy \<Rightarrow> string \<Rightarrow> int \<Rightarrow> int \<Rightarrow> int \<Rightarrow> string \<Rightarrow> bool \<Rightarrow> wout" where
  "WritePreamble ent kind cnt mn mx flushPolicy has_flush =
     (let fc = has_flush \<and> equal_fold flushPolicy ''perChunk'';
          k = to_lower (trim_space kind)
      in if k = PreambleTLSRecord then WriteTLSLikeJunk ent cnt mn mx fc
         else if k = PreambleTLSCHShape then writeTLSClientHelloShapeJunk ent cnt mn mx fc
         else if k = PreambleSMB1Shape then writeSMB1ShapeJunk ent cnt mn mx fc
         else if k = PreambleMcFrame then writeMinecraftFrameJunk ent cnt mn mx fc
         else WriteJunk ent cnt mn mx fc)"

section \<open>Lemmas\<close>

lemma wseq_bytes [wr_simps]:
  "\<forall>w \<in> set ws. wfailed w = None \<Longrightarrow> wbytes (wseq ws) = concat (map wbytes ws)"
  by (induction ws) (simp_all add: wr_simps)

lemma wseq_ok [wr_simps]: "\<forall>w \<in> set ws. wfailed w = None \<Longrightarrow> wfailed (wseq ws) = None"
  by (induction ws) (simp_all add: wr_simps)

lemma chunk_flush_w [wr_simps]: "wbytes (chunk_flush fc) = []" "wfailed (chunk_flush fc) = None"
  by (simp_all add: chunk_flush_def wr_simps)

lemma rounds_bytes:
  "(\<And>i. i < n \<Longrightarrow> wfailed (f i) = None) \<Longrightarrow> wbytes (rounds n f) = concat (map (\<lambda>i. wbytes (f i)) [0..<n])"
  unfolding rounds_def by (subst wseq_bytes) (simp_all add: comp_def)

lemma writeVarInt_w [wr_simps]:
  "wbytes (writeVarInt v) = concat (varint_bytes v)" "wfailed (writeVarInt v) = None"
  unfolding writeVarInt_def by (subst wseq_bytes wseq_ok; simp add: wr_simps comp_def)+

lemma draw_len_bounds:
  "0 < mn \<Longrightarrow> mn \<le> mx \<Longrightarrow> mn \<le> draw_len ent i mn mx \<and> draw_len ent i mn mx \<le> mx"
  using rand_int_less [of "nat (mx - mn + 1)" ent i] unfolding draw_len_def by linarith

text \<open>Readers of the imitated framings, as the protocol's own endpoint would read them.\<close>

definition read_tls_record :: "bytes rd" where
  "read_tls_record =
     rbind (read_full 3) (\<lambda>h. if h \<noteq> [0x16, 3, 1] then rfail (Error ''not a record'') else
     rbind read_u16 (\<lambda>n. read_full (unat n)))"

function read_varint :: "nat \<Rightarrow> nat rd" where
  "read_varint sh s =
     (case s of [] \<Rightarrow> Inl EOF
      | b # s' \<Rightarrow>
         if bit b 7
         then (case read_varint (sh + 7) s' of Inl e \<Rightarrow> Inl e | Inr (n, r) \<Rightarrow> Inr (unat (b AND 0x7f) * 2 ^ sh + n, r))
         else Inr (unat b * 2 ^ sh, s'))"
  by pat_completeness auto
termination by (relation "measure (\<lambda>(sh, s). length s)") auto

declare read_varint.simps [simp del]

definition read_mc_frame :: "bytes rd" where
  "read_mc_frame = rbind (read_varint 0) (\<lambda>n. read_full n)"

lemma read_rounds:
  assumes "\<And>i. i < n \<Longrightarrow> wfailed (f i) = None"
    and "\<And>i r. i < n \<Longrightarrow> dec (wbytes (f i) @ r) = Inr (g i, r)"
  shows "read_many n dec (wbytes (rounds n f) @ r) = Inr (map g [0..<n], r)"
proof -
  have "read_many (length is) dec (concat (map (\<lambda>i. wbytes (f i)) is) @ r) = Inr (map g is, r)"
    if "\<forall>i \<in> set is. i < n" for "is"
    using that by (induction "is") (auto simp: rbind_def rret_def assms(2))
  from this [of "[0..<n]"] show ?thesis by (simp add: rounds_bytes assms(1))
qed

lemma read_tls_record_written:
  assumes "length p < 65536"
  shows "read_tls_record ([0x16, 0x03, 0x01, word_of_int (int (length p) div 256), word_of_int (int (length p))] @ p @ r)
    = Inr (p, r)"
proof -
  have e: "[0x16, 0x03, 0x01, word_of_int (int (length p) div 256), word_of_int (int (length p))] @ p @ r
      = [0x16, 3, 1] @ be_put 2 (word_of_int (int (length p)) :: u16) @ p @ r"
  proof -
    have "int (length p) div 256 = int (length p div 256)" by simp
    then show ?thesis
      using be_put_2_nat [OF assms] by (simp del: of_nat_div be_put.simps)
  qed
  have u: "unat (word_of_int (int (length p)) :: u16) = length p"
    using assms unat_small(2) [of "length p"] by simp
  have h: "read_full 3 ([0x16, 3, 1] @ s) = Inr ([0x16, 3, 1], s)" for s
    by (rule read_full_append) simp
  show ?thesis
    unfolding e
    by (simp only: read_tls_record_def rbind_app h sum.case prod.case simp_thms if_False read_u16_be_put u
        read_full_append [OF refl])
qed

lemma read_varint_written:
  "read_varint sh (concat (varint_bytes v) @ r) = Inr (unat v * 2 ^ sh, r)"
proof (induction v arbitrary: sh rule: varint_bytes.induct)
  case (1 v)
  define b where "b = (ucast (v AND 0x7f) :: byte)"
  have m: "v AND 0x7f = take_bit 7 v"
    by (simp add: take_bit_eq_mask mask_eq_exp_minus_1)
  have ub: "unat b = unat v mod 128"
    by (simp add: b_def m unsigned_ucast_eq unsigned_take_bit_eq take_bit_take_bit) (simp add: take_bit_eq_mod)
  have b7: "\<not> bit b 7"
    by (simp add: b_def m bit_simps)
  have bo: "bit (b OR 0x80) 7" "(b OR 0x80) AND 0x7f = b"
  proof -
    have c: "bit (0x80 :: byte) n \<longleftrightarrow> n = 7" for n
      using bit_push_bit_iff [of 7 "1 :: byte" n] by (auto simp: bit_1_iff)
    have f: "bit (0x7f :: byte) n \<longleftrightarrow> n < 7" for n
      using bit_mask_iff [where 'a = byte, of 7 n] by (auto simp: mask_eq_exp_minus_1)
    show "bit (b OR 0x80) 7" by (simp add: bit_or_iff c)
    have "bit b n \<Longrightarrow> n < 7" for n by (simp add: b_def m bit_simps)
    then show "(b OR 0x80) AND 0x7f = b"
      by (intro bit_eqI) (simp only: bit_or_iff bit_and_iff c f, auto)
  qed
  have d: "unat (drop_bit 7 v) = unat v div 128"
    by (simp add: unat_drop_bit_eq drop_bit_eq_div unat_div)
  show ?case
  proof (cases "drop_bit 7 v = 0")
    case True
    then have "unat v div 128 = 0" using d by simp
    then have "unat v mod 128 = unat v" by auto
    moreover have "varint_bytes v = [[b]]"
      using True by (subst varint_bytes.simps) (simp add: Let_def b_def)
    ultimately show ?thesis
      using b7 ub by (simp add: read_varint.simps)
  next
    case False
    have v: "varint_bytes v = [b OR 0x80] # varint_bytes (drop_bit 7 v)"
      using False by (subst varint_bytes.simps) (simp add: Let_def b_def)
    have IH: "read_varint (sh + 7) (concat (varint_bytes (drop_bit 7 v)) @ r) = Inr (unat v div 128 * 2 ^ (sh + 7), r)"
      using 1 [of _ "drop_bit 7 v"] False d by simp
    have "unat v mod 128 * 2 ^ sh + unat v div 128 * 2 ^ (sh + 7) = unat v * 2 ^ sh"
    proof -
      have "(a + q * 128) * k = a * k + q * (k * 128)" for a q k :: nat by (simp add: algebra_simps)
      from this [of "unat v mod 128" "unat v div 128" "2 ^ sh"] show ?thesis by (simp add: power_add)
    qed
    then show ?thesis
      unfolding v using bo ub IH by (simp add: read_varint.simps [of sh "_ # _"])
  qed
qed

lemma read_mc_frame_written:
  assumes "length p < 4294967296"
  shows "read_mc_frame (concat (varint_bytes (word_of_int (int (length p)))) @ p @ r) = Inr (p, r)"
proof -
  have u: "unat (word_of_int (int (length p)) :: u32) = length p"
    using assms unat_small(3) [of "length p"] by simp
  show ?thesis
    unfolding read_mc_frame_def rbind_app read_varint_written u using u by (simp add: read_full_append)
qed

text \<open>What the loops of the two framed kinds send is read back frame by frame.\<close>

lemma WriteTLSLikeJunk_frames:
  assumes "0 < cnt" "0 < mn" "mn \<le> mx"
  shows "\<exists>ps. length ps = nat cnt \<and>
    (\<forall>p \<in> set ps. min mn 1024 \<le> int (length p) \<and> int (length p) \<le> min mx 1024) \<and>
    read_many (nat cnt) read_tls_record (wbytes (WriteTLSLikeJunk ent cnt mn mx fc) @ r) = Inr (ps, r)"
proof -
  define mx' where "mx' = (if mx > 1024 then 1024 else mx)"
  define mn' where "mn' = (if mn > mx' then mx' else mn)"
  have m: "0 < mn'" "mn' \<le> mx'" "mx' \<le> 1024" "mn' = min mn 1024" "mx' = min mx 1024"
    using assms by (auto simp: mx'_def mn'_def)
  let ?L = "\<lambda>i. draw_len ent i mn' mx'"
  have L: "mn' \<le> ?L i" "?L i \<le> mx'" "0 \<le> ?L i" "int (nat (?L i)) = ?L i" for i
    using draw_len_bounds [OF m(1,2), of ent i] m(1) by linarith+
  let ?p = "\<lambda>i. rand_read ent i (nat (?L i))"
  have "read_many (nat cnt) read_tls_record (wbytes (WriteTLSLikeJunk ent cnt mn mx fc) @ r)
      = Inr (map ?p [0..<nat cnt], r)"
    unfolding WriteTLSLikeJunk_def Let_def mx'_def [symmetric] mn'_def [symmetric]
    using assms
  proof (simp, intro read_rounds)
    fix i r
    have "length (?p i) < 65536" using L [of i] m(3) by simp
    from read_tls_record_written [OF this, of r]
    show "read_tls_record (wbytes (wthen (wwrite [0x16, 3, 1, word_of_int (?L i div 256), word_of_int (?L i)])
        (wthen (wwrite (?p i)) (wthen (chunk_flush fc) wok))) @ r) = Inr (?p i, r)"
      by (simp add: wr_simps L)
  qed (simp add: wr_simps)
  then show ?thesis
    unfolding m(4,5) [symmetric] using L by (intro exI [of _ "map ?p [0..<nat cnt]"]) auto
qed

lemma writeMinecraftFrameJunk_frames:
  assumes "0 < cnt" "0 < mn" "mn \<le> mx"
  shows "\<exists>ps. length ps = nat cnt \<and>
    (\<forall>p \<in> set ps. min mn 1024 \<le> int (length p) \<and> int (length p) \<le> min mx 1024) \<and>
    read_many (nat cnt) read_mc_frame (wbytes (writeMinecraftFrameJunk ent cnt mn mx fc) @ r) = Inr (ps, r)"
proof -
  define mx' where "mx' = (if mx > 1024 then 1024 else mx)"
  define mn' where "mn' = (if mn > mx' then mx' else mn)"
  have m: "0 < mn'" "mn' \<le> mx'" "mx' \<le> 1024" "mn' = min mn 1024" "mx' = min mx 1024"
    using assms by (auto simp: mx'_def mn'_def)
  define L1 where "L1 i = (if draw_len ent i mn' mx' < 16 then 16 else draw_len ent i mn' mx')" for i
  define L where "L i = (if L1 i > mx' then mx' else L1 i)" for i
  have L: "mn' \<le> L i" "L i \<le> mx'" "0 \<le> L i" "int (nat (L i)) = L i" for i
    using draw_len_bounds [OF m(1,2), of ent i] m by (auto simp: L_def L1_def)
  let ?p = "\<lambda>i. rand_read ent i (nat (L i))"
  have "read_many (nat cnt) read_mc_frame (wbytes (writeMinecraftFrameJunk ent cnt mn mx fc) @ r)
      = Inr (map ?p [0..<nat cnt], r)"
    unfolding writeMinecraftFrameJunk_def Let_def mx'_def [symmetric] mn'_def [symmetric]
      L1_def [symmetric] L_def [symmetric]
    using assms
  proof (simp, intro read_rounds)
    fix i r
    have "length (?p i) < 4294967296" using L [of i] m(3) by simp
    from read_mc_frame_written [OF this, of r]
    show "read_mc_frame (wbytes (wthen (writeVarInt (word_of_int (L i)))
        (wthen (wwrite (?p i)) (wthen (chunk_flush fc) wok))) @ r) = Inr (?p i, r)"
      by (simp add: wr_simps L)
  qed (simp add: wr_simps)
  then show ?thesis
    unfolding m(4,5) [symmetric] using L by (intro exI [of _ "map ?p [0..<nat cnt]"]) auto
qed

section \<open>Properties\<close>

lemma preamble_kind_names:
  "to_lower (trim_space PreambleTLSRecord) = PreambleTLSRecord"
  "to_lower (trim_space PreambleMcFrame) = PreambleMcFrame"
  "PreambleMcFrame \<noteq> PreambleTLSRecord" "PreambleMcFrame \<noteq> PreambleTLSCHShape"
  "PreambleMcFrame \<noteq> PreambleSMB1Shape"
  by (code_simp, code_simp, simp_all add: preamble_kinds)

text \<open>
  C8. The TLS-record and the Minecraft preamble are well framed: an endpoint of the imitated
  protocol reads exactly the requested number of records, each within the length bounds (which
  are cut at 1024), and is left in front of the bytes that follow the preamble.
\<close>

theorem preamble_reframed:
  assumes "(kind, dec) \<in> {(PreambleTLSRecord, read_tls_record), (PreambleMcFrame, read_mc_frame)}"
    and "0 < cnt" and "0 < mn" and "mn \<le> mx"
  shows "\<exists>ps. length ps = nat cnt \<and>
    (\<forall>p \<in> set ps. min mn 1024 \<le> int (length p) \<and> int (length p) \<le> min mx 1024) \<and>
    read_many (nat cnt) dec (wbytes (WritePreamble ent kind cnt mn mx flushPolicy has_flush) @ r) = Inr (ps, r)"
proof -
  from assms(1) consider "kind = PreambleTLSRecord" "dec = read_tls_record"
    | "kind = PreambleMcFrame" "dec = read_mc_frame" by auto
  then show ?thesis
  proof cases
    case 1
    then show ?thesis
      unfolding WritePreamble_def Let_def
      using WriteTLSLikeJunk_frames [OF assms(2-4)] by (simp add: preamble_kind_names)
  next
    case 2
    then show ?thesis
      unfolding WritePreamble_def Let_def
      using writeMinecraftFrameJunk_frames [OF assms(2-4)] by (simp add: preamble_kind_names)
  qed
qed

theorem preamble_reframed_witness:
  "\<exists>ps. length ps = nat 3 \<and>
    (\<forall>p \<in> set ps. min 20 1024 \<le> int (length p) \<and> int (length p) \<le> min 2000 1024) \<and>
    read_many (nat 3) read_mc_frame
      (wbytes (WritePreamble (\<lambda>i. i, \<lambda>_ _. 0) PreambleMcFrame 3 20 2000 [] False) @ [86]) = Inr (ps, [86])"
  by (rule preamble_reframed) simp_all

text \<open>
  The TLS client hello shape is not always well framed: below six bytes the header announces
  more than follows, because the length is raised to eleven after the buffer was made.
\<close>

lemma ch_shape_short:
  "wbytes (writeTLSClientHelloShapeJunk ent 1 1 1 False) = [0x16, 3, 3, 0, 6] @ rand_read ent 0 1"
  by (simp add: writeTLSClientHelloShapeJunk_def Let_def rounds_def draw_len_def rand_int_def wr_simps)

end
