(* ===== verification/PeerFrame.thy ===== *)
theory PeerFrame
  imports Interfaces GoStd
begin

text \<open>
  Framing between peers, \<^verbatim>\<open>internal/peertransport\<close>: the length-prefixed VP01 frame on a stream
  (\<^verbatim>\<open>udp_frame.go\<close>), and the VP02 chunks a message is cut into to travel in datagrams and the
  assembler that puts them together (\<^verbatim>\<open>vp02.go\<close>), whatever the order they arrive in.
\<close>

section \<open>VP01 frames\<close>

definition peerUDPMagic :: bytes where "peerUDPMagic = str_bytes ''VP01''"
definition MaxPeerUDPBody :: nat where "MaxPeerUDPBody = 65507"

definition WritePeerUDPFrame :: "bytes \<Rightarrow> wout" where
  "WritePeerUDPFrame payload =
     (let payload = (if length payload > MaxPeerUDPBody then take MaxPeerUDPBody payload else payload)
      in wseq [wwrite (peerUDPMagic @ be_put 4 (word_of_nat (length payload) :: u32)), wwrite payload])"

text \<open>\<open>ReadPeerUDPFrame\<close> reads into a buffer of \<open>cap\<close> bytes; its result is the filled part.\<close>

definition ReadPeerUDPFrame :: "nat \<Rightarrow> bytes rd" where
  "ReadPeerUDPFrame cap =
     rbind (read_full 8) (\<lambda>hdr.
     if take 4 hdr \<noteq> peerUDPMagic then rfail (Error ''peerudp: bad magic'') else
     let n = (be_get (drop 4 hdr) :: u32) in
     if unat n > MaxPeerUDPBody then rfail (Error ''peerudp: length'')
     else if unat n > cap then rfail (Error ''peerudp: short buf'')
     else read_full (unat n))"

lemma length_peerUDPMagic [simp]: "length peerUDPMagic = 4"
  by (simp add: peerUDPMagic_def)

lemma read_peer_frame_written:
  assumes "length p \<le> MaxPeerUDPBody" and "length p \<le> cap"
  shows "ReadPeerUDPFrame cap (wbytes (WritePeerUDPFrame p) @ r) = Inr (p, r)"
proof -
  have u: "unat (word_of_nat (length p) :: u32) = length p"
    using assms(1) by (simp add: unat_small MaxPeerUDPBody_def)
  have rf: "read_full 8 ((peerUDPMagic @ be_put 4 (word_of_nat (length p) :: u32)) @ p @ r) =
      Inr (peerUDPMagic @ be_put 4 (word_of_nat (length p) :: u32), p @ r)"
    by (rule read_full_append) (simp del: be_put.simps)
  have g: "(length p > MaxPeerUDPBody) = False" "(length p > cap) = False" using assms by auto
  have d: "take 4 (peerUDPMagic @ b) = peerUDPMagic" "drop 4 (peerUDPMagic @ b) = b" for b
    by simp_all
  have b: "wbytes (WritePeerUDPFrame p) = (peerUDPMagic @ be_put 4 (word_of_nat (length p) :: u32)) @ p"
    by (simp only: WritePeerUDPFrame_def Let_def g if_False) (simp add: wr_simps del: be_put.simps)
  show ?thesis
    unfolding b append_assoc [of "peerUDPMagic @ _"]
    by (simp only: ReadPeerUDPFrame_def rbind_app rf sum.case prod.case d simp_thms if_False Let_def
        be_get_be_put32 u g read_full_append [OF refl])
qed

interpretation vp01: stream_codec "\<lambda>p. wbytes (WritePeerUDPFrame p)" "ReadPeerUDPFrame cap"
  "\<lambda>p. length p \<le> MaxPeerUDPBody \<and> length p \<le> cap"
  for cap
  by unfold_locales (simp add: read_peer_frame_written)

section \<open>VP02 chunks\<close>

definition vp02Magic :: bytes where "vp02Magic = str_bytes ''VP02''"
definition vp02Header :: nat where "vp02Header = 12"
definition MaxVP02ChunkPayload :: nat where "MaxVP02ChunkPayload = 1200"
definition maxVP02ChunkCount :: nat where "maxVP02ChunkCount = 2048"

lemmas vp02_consts = vp02Header_def MaxVP02ChunkPayload_def maxVP02ChunkCount_def

definition vp02_header :: "nat \<Rightarrow> nat \<Rightarrow> nat \<Rightarrow> bytes" where
  "vp02_header tot seq n =
     vp02Magic @ be_put 2 (word_of_nat tot :: u16) @ be_put 2 (word_of_nat seq :: u16) @
     be_put 4 (word_of_nat n :: u32)"

text \<open>
  \<open>writeVP02Message\<close> hands the datagrams to \<open>send\<close> one by one; a failing \<open>send\<close> ends it. The
  loop over \<^verbatim>\<open>seq\<close> carries the offset.
\<close>

fun vp02_loop :: "bytes \<Rightarrow> nat \<Rightarrow> nat \<Rightarrow> nat list \<Rightarrow> bytes list" where
  "vp02_loop p tot off [] = []"
| "vp02_loop p tot off (seq # seqs) =
     (let n = (if off + MaxVP02ChunkPayload > length p then length p - off else MaxVP02ChunkPayload)
      in (vp02_header tot seq n @ take n (drop off p)) # vp02_loop p tot (off + n) seqs)"

definition writeVP02Message :: "bytes \<Rightarrow> go_error + bytes list" where
  "writeVP02Message p =
     (if length p = 0 then Inl (Error ''peerudp: empty payload'')
      else let tot = (length p + MaxVP02ChunkPayload - 1) div MaxVP02ChunkPayload in
        if tot > maxVP02ChunkCount then Inl (Error ''peerudp: payload too large'')
        else Inr (vp02_loop p tot 0 [0..<tot]))"

definition WriteVP02Frame :: "u16 \<Rightarrow> u16 \<Rightarrow> bytes \<Rightarrow> wout" where
  "WriteVP02Frame tot seq payload =
     (if unat tot < 1 \<or> unat tot > maxVP02ChunkCount then werr (Error ''peerudp: bad total'')
      else if length payload > MaxVP02ChunkPayload then werr (Error ''peerudp: chunk too large'')
      else wseq [wwrite (vp02Magic @ be_put 2 tot @ be_put 2 seq @
                   be_put 4 (word_of_nat (length payload) :: u32)), wwrite payload])"

section \<open>The assembler\<close>

text \<open>\<open>asm_parts = None\<close> is the nil slice; a part not received yet is the empty slice.\<close>

record Assembler =
  asm_total :: nat
  asm_parts :: "bytes list option"
  asm_got :: nat

definition asm_reset :: Assembler where
  "asm_reset = \<lparr>asm_total = 0, asm_parts = None, asm_got = 0\<rparr>"

definition InProgress :: "Assembler \<Rightarrow> bool" where
  "InProgress a \<longleftrightarrow> asm_parts a \<noteq> None \<and> asm_got a > 0 \<and> asm_got a < asm_total a"

definition Feed :: "Assembler \<Rightarrow> bytes \<Rightarrow> bytes option \<times> Assembler" where
  "Feed a pkt =
     (if length pkt < vp02Header then (None, asm_reset)
      else if take 4 pkt \<noteq> vp02Magic then (None, asm_reset)
      else
        let tot = unat (be_get (take 2 (drop 4 pkt)) :: u16);
            seq = unat (be_get (take 2 (drop 6 pkt)) :: u16);
            plen = unat (be_get (take 4 (drop 8 pkt)) :: u32)
        in if plen > MaxVP02ChunkPayload \<or> length pkt < vp02Header + plen then (None, asm_reset)
        else
          let payload = take plen (drop vp02Header pkt) in
          if tot < 1 \<or> tot > maxVP02ChunkCount \<or> seq \<ge> tot then (None, asm_reset)
          else
            let a = (if asm_parts a = None
                     then \<lparr>asm_total = tot, asm_parts = Some (replicate tot []), asm_got = 0\<rparr>
                     else a);
                parts = the (asm_parts a)
            in if asm_total a \<noteq> tot then (None, asm_reset)
            else if length (parts ! seq) \<noteq> 0 then (None, a)
            else
              let parts = parts[seq := payload];
                  a = a\<lparr>asm_parts := Some parts, asm_got := asm_got a + 1\<rparr>
              in if asm_got a < asm_total a then (None, a)
                 else (Some (concat parts), asm_reset))"

text \<open>
  \<open>ReadVP02Message\<close> feeds datagrams (cut to the buffer, \<open>cap\<close> bytes) until one completes a
  message. The arriving datagrams are a list; \<open>None\<close> is the read error at its end.
\<close>

fun ReadVP02Message :: "nat \<Rightarrow> Assembler \<Rightarrow> bytes list \<Rightarrow> (bytes \<times> bytes list) option \<times> Assembler" where
  "ReadVP02Message cap a [] = (None, a)"
| "ReadVP02Message cap a (d # ds) =
     (case Feed a (take cap d) of
        (Some msg, a') \<Rightarrow> (Some (msg, ds), a')
      | (None, a') \<Rightarrow> ReadVP02Message cap a' ds)"

section \<open>Lemmas\<close>

lemma length_vp02Magic [simp]: "length vp02Magic = 4"
  by (simp add: vp02Magic_def)

lemma length_vp02_header [simp]: "length (vp02_header tot seq n) = 12"
  by (simp add: vp02_header_def del: be_put.simps)

definition chunk :: "bytes \<Rightarrow> nat \<Rightarrow> bytes" where
  "chunk p j = take MaxVP02ChunkPayload (drop (j * MaxVP02ChunkPayload) p)"

definition chunks :: "bytes \<Rightarrow> nat" where
  "chunks p = (length p + MaxVP02ChunkPayload - 1) div MaxVP02ChunkPayload"

definition vp02_packet :: "bytes \<Rightarrow> nat \<Rightarrow> bytes" where
  "vp02_packet p j = vp02_header (chunks p) j (length (chunk p j)) @ chunk p j"

lemma chunk_nonempty: "j < chunks p \<Longrightarrow> chunk p j \<noteq> []"
  unfolding chunk_def chunks_def by (simp add: vp02_consts)

lemma length_chunk_le: "length (chunk p j) \<le> MaxVP02ChunkPayload"
  by (simp add: chunk_def)

lemma chunks_pos: "p \<noteq> [] \<Longrightarrow> 0 < chunks p"
proof -
  assume "p \<noteq> []"
  then have "1200 \<le> length p + 1199" by (cases p) auto
  then have "1200 div 1200 \<le> (length p + 1199) div 1200" by (rule div_le_mono)
  then show ?thesis by (simp add: chunks_def vp02_consts)
qed

lemma concat_chunks_upto: "concat (map (chunk p) [0..<k]) = take (k * MaxVP02ChunkPayload) p"
proof (induction k)
  case (Suc k)
  have "Suc k * MaxVP02ChunkPayload = k * MaxVP02ChunkPayload + MaxVP02ChunkPayload" by simp
  then show ?case using Suc.IH by (simp only: take_add) (simp add: chunk_def)
qed simp

lemma concat_chunks: "concat (map (chunk p) [0..<chunks p]) = p"
proof -
  have "length p \<le> chunks p * MaxVP02ChunkPayload"
    unfolding chunks_def by (simp add: vp02_consts)
  then show ?thesis by (simp add: concat_chunks_upto)
qed

lemma vp02_loop_packets:
  "vp02_loop p (chunks p) (min (i * MaxVP02ChunkPayload) (length p)) [i..<k] = map (vp02_packet p) [i..<k]"
proof (induction "k - i" arbitrary: i)
  case 0
  then show ?case by simp
next
  case (Suc d)
  let ?off = "min (i * MaxVP02ChunkPayload) (length p)"
  have cons: "[i..<k] = i # [Suc i..<k]" using Suc.hyps(2) by (simp add: upt_conv_Cons)
  let ?n = "if ?off + MaxVP02ChunkPayload > length p then length p - ?off else MaxVP02ChunkPayload"
  have n: "?n = length (chunk p i)" by (auto simp: chunk_def)
  have t: "take ?n (drop ?off p) = chunk p i"
    by (auto simp: chunk_def min_def)
  have o: "?off + ?n = min (Suc i * MaxVP02ChunkPayload) (length p)" by auto
  have "vp02_loop p (chunks p) ?off (i # [Suc i..<k]) =
      (vp02_header (chunks p) i ?n @ take ?n (drop ?off p)) # vp02_loop p (chunks p) (?off + ?n) [Suc i..<k]"
    by (simp only: vp02_loop.simps Let_def)
  also have "\<dots> = vp02_packet p i # map (vp02_packet p) [Suc i..<k]"
    unfolding t o using Suc.hyps(1) [of "Suc i"] Suc.hyps(2) by (simp add: n vp02_packet_def)
  finally show ?case unfolding cons by simp
qed

lemma writeVP02Message_packets:
  "writeVP02Message p = Inr ds \<longleftrightarrow>
   p \<noteq> [] \<and> chunks p \<le> maxVP02ChunkCount \<and> ds = map (vp02_packet p) [0..<chunks p]"
  using vp02_loop_packets [of p 0 "chunks p"]
  unfolding writeVP02Message_def chunks_def [symmetric] Let_def by auto

text \<open>The state after the chunks of \<open>S\<close> have arrived.\<close>

definition asm_state :: "bytes \<Rightarrow> nat set \<Rightarrow> Assembler" where
  "asm_state p S =
     (if S = {} then asm_reset
      else \<lparr>asm_total = chunks p,
            asm_parts = Some (map (\<lambda>j. if j \<in> S then chunk p j else []) [0..<chunks p]),
            asm_got = card S\<rparr>)"

lemma Feed_fields:
  assumes "p \<noteq> []" and "chunks p \<le> maxVP02ChunkCount" and "j < chunks p"
  shows "length (vp02_packet p j) = vp02Header + length (chunk p j)"
    and "take 4 (vp02_packet p j) = vp02Magic"
    and "unat (be_get (take 2 (drop 4 (vp02_packet p j))) :: u16) = chunks p"
    and "unat (be_get (take 2 (drop 6 (vp02_packet p j))) :: u16) = j"
    and "unat (be_get (take 4 (drop 8 (vp02_packet p j))) :: u32) = length (chunk p j)"
    and "take (length (chunk p j)) (drop vp02Header (vp02_packet p j)) = chunk p j"
proof -
  have b: "chunks p < 65536" "j < 65536" "length (chunk p j) < 4294967296"
    using assms length_chunk_le [of p j] by (auto simp: vp02_consts)
  have u: "unat (word_of_nat (chunks p) :: u16) = chunks p" "unat (word_of_nat j :: u16) = j"
    "unat (word_of_nat (length (chunk p j)) :: u32) = length (chunk p j)"
    using b unat_small by simp_all
  note P = vp02_packet_def vp02_header_def vp02Header_def
  show "length (vp02_packet p j) = vp02Header + length (chunk p j)"
    "take 4 (vp02_packet p j) = vp02Magic"
    "take (length (chunk p j)) (drop vp02Header (vp02_packet p j)) = chunk p j"
    by (simp_all add: P del: be_put.simps)
  have "take 2 (drop 4 (vp02_packet p j)) = be_put 2 (word_of_nat (chunks p) :: u16)"
    "take 2 (drop 6 (vp02_packet p j)) = be_put 2 (word_of_nat j :: u16)"
    "take 4 (drop 8 (vp02_packet p j)) = be_put 4 (word_of_nat (length (chunk p j)) :: u32)"
    by (simp_all add: P del: be_put.simps)
  then show "unat (be_get (take 2 (drop 4 (vp02_packet p j))) :: u16) = chunks p"
    "unat (be_get (take 2 (drop 6 (vp02_packet p j))) :: u16) = j"
    "unat (be_get (take 4 (drop 8 (vp02_packet p j))) :: u32) = length (chunk p j)"
    using u by simp_all
qed

lemma Feed_packet:
  assumes p: "p \<noteq> []" and c: "chunks p \<le> maxVP02ChunkCount" and j: "j < chunks p"
    and S: "S \<subset> {..<chunks p}"
  shows "Feed (asm_state p S) (vp02_packet p j) =
    (if insert j S = {..<chunks p} then (Some p, asm_reset) else (None, asm_state p (insert j S)))"
proof -
  note F = Feed_fields [OF p c j]
  have fin: "finite S" using S finite_subset by blast
  have cardS: "card S < chunks p" using psubset_card_mono [OF _ S] by simp
  have le: "length (chunk p j) \<le> MaxVP02ChunkPayload" by (rule length_chunk_le)
  have pos: "0 < chunks p" using j by simp
  let ?pt = "map (\<lambda>i. if i \<in> S then chunk p i else []) [0..<chunks p]"
  let ?a = "\<lparr>asm_total = chunks p, asm_parts = Some ?pt, asm_got = card S\<rparr>"
  have a: "(if asm_parts (asm_state p S) = None
       then \<lparr>asm_total = chunks p, asm_parts = Some (replicate (chunks p) []), asm_got = 0\<rparr>
       else asm_state p S) = ?a"
    by (auto simp: asm_state_def asm_reset_def map_replicate_const)
  have up: "?pt[j := chunk p j] = map (\<lambda>i. if i \<in> insert j S then chunk p i else []) [0..<chunks p]"
    using j by (intro nth_equalityI) (auto simp: nth_list_update)
  have st: "(length (vp02_packet p j) < vp02Header) = False" "(take 4 (vp02_packet p j) \<noteq> vp02Magic) = False"
    "(length (chunk p j) > MaxVP02ChunkPayload \<or> length (vp02_packet p j) < vp02Header + length (chunk p j)) = False"
    "(chunks p < 1 \<or> chunks p > maxVP02ChunkCount \<or> j \<ge> chunks p) = False"
    using F(1,2) le c j pos by auto
  have E: "Feed (asm_state p S) (vp02_packet p j) =
     (if length (?pt ! j) \<noteq> 0 then (None, ?a)
      else if card S + 1 < chunks p then (None, ?a\<lparr>asm_parts := Some (?pt[j := chunk p j]), asm_got := card S + 1\<rparr>)
      else (Some (concat (?pt[j := chunk p j])), asm_reset))"
    unfolding Feed_def Let_def F(3-6) st a if_False by simp
  show ?thesis
  proof (cases "j \<in> S")
    case True
    then have "S \<noteq> {}" "insert j S = S" by auto
    moreover have "?pt ! j \<noteq> []" using True j chunk_nonempty [OF j] by simp
    ultimately show ?thesis unfolding E using S by (auto simp: asm_state_def)
  next
    case False
    have z: "?pt ! j = []" using False j by simp
    have ci: "card (insert j S) = card S + 1" using False fin by simp
    have full: "insert j S = {..<chunks p} \<longleftrightarrow> \<not> card S + 1 < chunks p"
    proof
      assume "insert j S = {..<chunks p}"
      then show "\<not> card S + 1 < chunks p" using ci by (metis card_lessThan less_irrefl)
    next
      assume n: "\<not> card S + 1 < chunks p"
      have "insert j S \<subseteq> {..<chunks p}" using S j by auto
      then show "insert j S = {..<chunks p}"
        using n ci by (intro card_seteq) auto
    qed
    show ?thesis
    proof (cases "card S + 1 < chunks p")
      case True
      then show ?thesis unfolding E full using z ci by (simp add: asm_state_def up del: insert_iff)
    next
      case f: False
      then have i: "insert j S = {..<chunks p}" using full by simp
      have "concat (map (\<lambda>i. if i \<in> insert j S then chunk p i else []) [0..<chunks p]) = p"
      proof -
        have "map (\<lambda>i. if i \<in> {..<chunks p} then chunk p i else []) [0..<chunks p] = map (chunk p) [0..<chunks p]"
          by (rule map_cong) simp_all
        then show ?thesis unfolding i using concat_chunks [of p] by (simp only:)
      qed
      then show ?thesis unfolding E using z f i up by simp
    qed
  qed
qed

lemma ReadVP02_collect:
  assumes p: "p \<noteq> []" and c: "chunks p \<le> maxVP02ChunkCount" and cap: "vp02Header + MaxVP02ChunkPayload \<le> cap"
  shows "S \<subseteq> {..<chunks p} \<Longrightarrow> set is \<subseteq> {..<chunks p} \<Longrightarrow> S \<union> set is \<noteq> {..<chunks p} \<Longrightarrow>
    ReadVP02Message cap (asm_state p S) (map (vp02_packet p) is @ ds) =
    ReadVP02Message cap (asm_state p (S \<union> set is)) ds"
proof (induction "is" arbitrary: S)
  case (Cons i "is")
  have t: "take cap (vp02_packet p i) = vp02_packet p i"
    using Feed_fields(1) [OF p c, of i] Cons.prems(2) length_chunk_le [of p i] cap by simp
  have S: "S \<subset> {..<chunks p}" "insert i S \<noteq> {..<chunks p}" using Cons.prems by auto
  have "Feed (asm_state p S) (vp02_packet p i) = (None, asm_state p (insert i S))"
    using Feed_packet [OF p c _ S(1), of i] S(2) Cons.prems(2) by simp
  then show ?case using Cons.IH [of "insert i S"] Cons.prems by (simp add: t)
qed simp

section \<open>Properties\<close>

text \<open>
  A message cut into chunks is put together again whatever the order in which the datagrams
  arrive and however often each is repeated: the read returns the message with the datagram that
  was missing last, not before, leaves the assembler empty and the later datagrams unread.
\<close>

theorem vp02_reassembly:
  assumes "writeVP02Message p = Inr ds" and "1212 \<le> cap"
    and "set is \<subseteq> {..<length ds}" and "j < length ds" and "j \<notin> set is"
    and "insert j (set is) = {..<length ds}"
  shows "ReadVP02Message cap asm_reset (map (nth ds) is @ ds ! j # rest) = (Some (p, rest), asm_reset)"
proof -
  have w: "p \<noteq> []" "chunks p \<le> maxVP02ChunkCount" "ds = map (vp02_packet p) [0..<chunks p]"
    using assms(1) unfolding writeVP02Message_packets by auto
  have l: "length ds = chunks p" by (simp add: w)
  have m: "map (nth ds) is = map (vp02_packet p) is"
    using assms(3) l by (intro map_cong refl) (auto simp: w(3) subset_iff)
  have j: "ds ! j = vp02_packet p j" using assms(4) l by (simp add: w(3))
  have S: "{} \<union> set is \<noteq> {..<chunks p}" "set is \<subset> {..<chunks p}" using assms l by auto
  have cap: "vp02Header + MaxVP02ChunkPayload \<le> cap" using assms(2) by (simp add: vp02_consts)
  have r: "asm_reset = asm_state p {}" by (simp add: asm_state_def)
  have "ReadVP02Message cap asm_reset (map (nth ds) is @ ds ! j # rest) =
      ReadVP02Message cap (asm_state p (set is)) (vp02_packet p j # rest)"
    unfolding r m j using ReadVP02_collect [OF w(1,2) cap _ _ S(1)] assms(3) l by simp
  also have "\<dots> = (Some (p, rest), asm_reset)"
  proof -
    have t: "take cap (vp02_packet p j) = vp02_packet p j"
      using Feed_fields(1) [OF w(1,2), of j] assms(4) l length_chunk_le [of p j] cap by simp
    have "Feed (asm_state p (set is)) (vp02_packet p j) = (Some p, asm_reset)"
      using Feed_packet [OF w(1,2) _ S(2), of j] assms(4,6) l by simp
    then show ?thesis by (simp add: t)
  qed
  finally show ?thesis .
qed

theorem vp02_reassembly_witness:
  "\<exists>ds. writeVP02Message (replicate 2500 7) = Inr ds \<and> length ds = 3 \<and>
     ReadVP02Message 65536 asm_reset (map (nth ds) [2, 0, 2] @ ds ! 1 # [[1]]) =
       (Some (replicate 2500 7, [[1]]), asm_reset)"
proof -
  let ?p = "replicate 2500 7 :: bytes"
  define ds where "ds = map (vp02_packet ?p) [0..<chunks ?p]"
  have c: "chunks ?p = 3" by (simp add: chunks_def vp02_consts)
  have w: "writeVP02Message ?p = Inr ds"
    unfolding writeVP02Message_packets by (simp add: ds_def c) (simp add: vp02_consts)
  have l: "length ds = 3" by (simp add: ds_def c)
  have "ReadVP02Message 65536 asm_reset (map (nth ds) [2, 0, 2] @ ds ! 1 # [[1]]) = (Some (?p, [[1]]), asm_reset)"
  proof (rule vp02_reassembly [OF w])
    have "{..<length ds} = {0, 1, 2}" unfolding l by auto
    then show "set [2, 0, 2] \<subseteq> {..<length ds}" "insert 1 (set [2, 0, 2]) = {..<length ds}" by auto
  qed (simp_all add: l)
  with w l show ?thesis by blast
qed

text \<open>
  The assembler can hand out a message with a part missing: an empty chunk does not mark
  its part as received, so the same empty datagram counts twice.
\<close>

theorem vp02_empty_chunk_counts_twice:
  "ReadVP02Message 65536 asm_reset [vp02_header 2 0 0, vp02_header 2 0 0] = (Some ([], []), asm_reset)"
proof -
  let ?h = "vp02_header 2 0 0"
  let ?a = "\<lparr>asm_total = 2, asm_parts = Some [[], []], asm_got = 1\<rparr>"
  have t: "take 65536 ?h = ?h" by simp
  have "Feed asm_reset ?h = (None, ?a)" "Feed ?a ?h = (Some [], asm_reset)"
    by code_simp+
  then show ?thesis by (simp add: t)
qed

end
