(* ===== verification/Dexote.thy ===== *)
theory Dexote
  imports Interfaces GoStd
begin

text \<open>
  The authenticated key exchange, \<^verbatim>\<open>internal/dexote\<close>: the two hello messages with their masked
  ephemeral keys, the plaintext formats and the cursor that parses them, the session keys, the
  replay cache and the keyed generator of padding lengths. The cryptographic primitives
  (X25519, HKDF, keyed BLAKE2s, ChaCha20 and ChaCha20-Poly1305) are the fields of a record of
  functions; what the code relies on is \<open>crypto_laws\<close>.
\<close>

section \<open>Primitives\<close>

record crypto =
  cr_x25519 :: "bytes \<Rightarrow> bytes \<Rightarrow> bytes option"
  cr_base :: bytes
  cr_hkdf :: "bytes \<Rightarrow> bytes \<Rightarrow> string \<Rightarrow> nat \<Rightarrow> bytes"
  cr_blake2s128 :: "bytes \<Rightarrow> bytes \<Rightarrow> bytes"
  cr_seal :: "bytes \<Rightarrow> bytes \<Rightarrow> bytes \<Rightarrow> bytes \<Rightarrow> bytes"
  cr_open :: "bytes \<Rightarrow> bytes \<Rightarrow> bytes \<Rightarrow> bytes \<Rightarrow> bytes option"
  cr_chacha20 :: "bytes \<Rightarrow> nat \<Rightarrow> byte"

text \<open>
  \<open>cr_x25519 s p\<close> is \<open>None\<close> where the package returns an error (a result of all zeros, a bad
  length); \<open>cr_seal key nonce ad pt\<close>; \<open>cr_chacha20 key\<close> is the key stream for the zero nonce.
  The laws: both orders of a Diffie--Hellman exchange agree, what is sealed opens under the same
  key, nonce and associated data, and the outputs have their documented sizes.
\<close>

definition crypto_laws :: "crypto \<Rightarrow> bool" where
  "crypto_laws cr \<longleftrightarrow>
     (\<forall>a b pa pb. cr_x25519 cr a (cr_base cr) = Some pa \<longrightarrow> cr_x25519 cr b (cr_base cr) = Some pb \<longrightarrow>
        cr_x25519 cr a pb = cr_x25519 cr b pa) \<and>
     (\<forall>s p k. cr_x25519 cr s p = Some k \<longrightarrow> length k = 32) \<and>
     (\<forall>i s f n. length (cr_hkdf cr i s f n) = n) \<and>
     (\<forall>k d. length (cr_blake2s128 cr k d) = 16) \<and>
     (\<forall>k n a p. length (cr_seal cr k n a p) = length p + 16) \<and>
     (\<forall>k n a p. cr_open cr k n a (cr_seal cr k n a p) = Some p)"

definition keyLen :: nat where "keyLen = 32"
definition macLen :: nat where "macLen = 16"
definition nonceLen :: nat where "nonceLen = 16"
definition maxCtLen :: nat where "maxCtLen = 8192"
definition maxHSPad :: int where "maxHSPad = 512"
definition replayWindow :: int where "replayWindow = 90"
definition Version :: byte where "Version = 1"

definition infoMask :: string where "infoMask = ''dexote-mask-v1''"
definition infoC2S :: string where "infoC2S = ''dexote-c2s-v1''"
definition infoS2C :: string where "infoS2C = ''dexote-s2c-v1''"
definition infoSession :: string where "infoSession = ''dexote-session-v1''"

lemmas dexote_sizes = keyLen_def macLen_def nonceLen_def

definition slotBytes :: "int \<Rightarrow> bytes" where
  "slotBytes slot = be_put 8 (word_of_int slot :: u64)"

definition x25519 :: "crypto \<Rightarrow> bytes \<Rightarrow> bytes \<Rightarrow> go_error + bytes" where
  "x25519 cr s p = (case cr_x25519 cr s p of None \<Rightarrow> Inl (Error ''x25519'') | Some k \<Rightarrow> Inr k)"

definition pubFromScalar :: "crypto \<Rightarrow> bytes \<Rightarrow> go_error + bytes" where
  "pubFromScalar cr scalar = x25519 cr scalar (cr_base cr)"

definition maskStream :: "crypto \<Rightarrow> bytes \<Rightarrow> int \<Rightarrow> bytes" where
  "maskStream cr serverPub slot = cr_hkdf cr serverPub (slotBytes slot) infoMask keyLen"

definition maskPub :: "crypto \<Rightarrow> bytes \<Rightarrow> bytes \<Rightarrow> int \<Rightarrow> bytes" where
  "maskPub cr pub serverPub slot =
     (let ks = maskStream cr serverPub slot in map (\<lambda>i. pub ! i XOR ks ! i) [0..<keyLen])"

definition unmaskPub :: "crypto \<Rightarrow> bytes \<Rightarrow> bytes \<Rightarrow> int \<Rightarrow> bytes" where
  "unmaskPub cr masked serverPub slot = maskPub cr masked serverPub slot"

text \<open>\<open>serverPub[:keyLen]\<close> panics on a shorter key.\<close>

definition mac :: "crypto \<Rightarrow> bytes \<Rightarrow> bytes \<Rightarrow> go_error + bytes" where
  "mac cr serverPub dat =
     ebind (bslice serverPub 0 keyLen) (\<lambda>k. Inr (take macLen (cr_blake2s128 cr k dat)))"

definition seal :: "crypto \<Rightarrow> bytes \<Rightarrow> bytes \<Rightarrow> bytes \<Rightarrow> go_error + bytes" where
  "seal cr key ad plaintext =
     (if length key \<noteq> 32 then Inl (Error ''chacha20poly1305: bad key length'')
      else Inr (cr_seal cr key (replicate 12 0) ad plaintext))"

definition open_aead :: "crypto \<Rightarrow> bytes \<Rightarrow> bytes \<Rightarrow> bytes \<Rightarrow> go_error + bytes" where
  "open_aead cr key ad ct =
     (if length key \<noteq> 32 then Inl (Error ''chacha20poly1305: bad key length'')
      else case cr_open cr key (replicate 12 0) ad ct of
        None \<Rightarrow> Inl (Error ''dexote: decrypt failed'')
      | Some pt \<Rightarrow> Inr pt)"

section \<open>The generator of lengths\<close>

record Poly =
  poly_key :: bytes
  poly_pos :: nat

definition NewPoly :: "crypto \<Rightarrow> bytes \<Rightarrow> int \<Rightarrow> string \<Rightarrow> Poly" where
  "NewPoly cr secret slot info =
     \<lparr>poly_key = cr_hkdf cr secret (slotBytes slot) (''dexote-poly-'' @ info) 32, poly_pos = 0\<rparr>"

definition next64 :: "crypto \<Rightarrow> Poly \<Rightarrow> u64 \<times> Poly" where
  "next64 cr p =
     (be_get (map (\<lambda>i. cr_chacha20 cr (poly_key p) (poly_pos p + i)) [0..<8]),
      p\<lparr>poly_pos := poly_pos p + 8\<rparr>)"

text \<open>The span is zero only for the whole 64-bit range; Go then panics.\<close>

definition IntRange :: "crypto \<Rightarrow> Poly \<Rightarrow> int \<Rightarrow> int \<Rightarrow> go_error + int \<times> Poly" where
  "IntRange cr p mn mx =
     (if mx \<le> mn then Inr (mn, p)
      else let span = (word_of_int (mx - mn) :: u64) + 1; (x, p') = next64 cr p
        in if span = 0 then Inl (Panic ''integer divide by zero'')
           else Inr (wrap64 (mn + wrap64 (uint (x mod span))), p'))"

definition PadLen :: "crypto \<Rightarrow> Poly \<Rightarrow> int \<Rightarrow> go_error + int \<times> Poly" where
  "PadLen cr p mp = (if mp \<le> 0 then Inr (0, p) else IntRange cr p 0 mp)"

fun junk_sizes :: "crypto \<Rightarrow> nat \<Rightarrow> Poly \<Rightarrow> int \<Rightarrow> int \<Rightarrow> go_error + int list \<times> Poly" where
  "junk_sizes cr 0 p mn mx = Inr ([], p)"
| "junk_sizes cr (Suc n) p mn mx =
     ebind (IntRange cr p mn mx) (\<lambda>(s, p).
     ebind (junk_sizes cr n p mn mx) (\<lambda>(ss, p). Inr (s # ss, p)))"

definition JunkPlan :: "crypto \<Rightarrow> Poly \<Rightarrow> int \<Rightarrow> int \<Rightarrow> int \<Rightarrow> go_error + int list \<times> Poly" where
  "JunkPlan cr p maxCount minSize maxSize =
     ebind (IntRange cr p 0 maxCount) (\<lambda>(n, p). junk_sizes cr (nat n) p minSize maxSize)"

section \<open>Session keys\<close>

record Keys =
  TxKey :: bytes
  RxKey :: bytes
  TxLenKey :: bytes
  RxLenKey :: bytes
  Secret :: bytes

definition sessionKeys :: "crypto \<Rightarrow> bytes \<Rightarrow> bytes \<Rightarrow> bytes \<Rightarrow> bool \<Rightarrow> Keys" where
  "sessionKeys cr secret cliNonce srvNonce clientSide =
     (let salt = cliNonce @ srvNonce;
          c2s = cr_hkdf cr secret salt (infoSession @ ''|c2s|data'') keyLen;
          s2c = cr_hkdf cr secret salt (infoSession @ ''|s2c|data'') keyLen;
          c2sLen = cr_hkdf cr secret salt (infoSession @ ''|c2s|len'') keyLen;
          s2cLen = cr_hkdf cr secret salt (infoSession @ ''|s2c|len'') keyLen;
          root = cr_hkdf cr secret salt (infoSession @ ''|root'') keyLen
      in if clientSide
         then \<lparr>TxKey = c2s, RxKey = s2c, TxLenKey = c2sLen, RxLenKey = s2cLen, Secret = root\<rparr>
         else \<lparr>TxKey = s2c, RxKey = c2s, TxLenKey = s2cLen, RxLenKey = c2sLen, Secret = root\<rparr>)"

definition deriveSecret :: "crypto \<Rightarrow> bytes \<Rightarrow> bytes \<Rightarrow> bytes \<Rightarrow> bytes \<Rightarrow> bytes" where
  "deriveSecret cr ss3 ss1 cliNonce srvNonce =
     cr_hkdf cr (ss3 @ ss1) (cliNonce @ srvNonce) infoSession keyLen"

section \<open>Plaintexts\<close>

record ClientHelloPayload =
  ch_Role :: byte
  ch_Token :: string
  ch_Opts :: bytes

definition appendU16 :: "bytes \<Rightarrow> nat \<Rightarrow> bytes" where
  "appendU16 b v = b @ [word_of_nat (v div 256), word_of_nat v]"

definition buildClientPlaintext :: "ClientHelloPayload \<Rightarrow> bytes \<Rightarrow> int \<Rightarrow> bytes \<Rightarrow> bytes" where
  "buildClientPlaintext p cliNonce tsSec pad =
     (let tok = str_bytes (ch_Token p);
          buf = [Version, ch_Role p] @ cliNonce @ be_put 8 (word_of_int tsSec :: u64);
          buf = appendU16 buf (length tok) @ tok;
          buf = appendU16 buf (length (ch_Opts p)) @ ch_Opts p
      in appendU16 buf (length pad) @ pad)"

definition buildServerPlaintext :: "bytes \<Rightarrow> bytes \<Rightarrow> bytes \<Rightarrow> bytes" where
  "buildServerPlaintext srvNonce caps pad =
     appendU16 (appendU16 srvNonce (length caps) @ caps) (length pad) @ pad"

text \<open>
  The cursor reads without returning errors: after the first short read it is marked and yields
  zeros; the parsers look at the mark at their end.
\<close>

record cursor =
  cur_b :: bytes
  cur_off :: nat
  cur_err :: bool

definition newCursor :: "bytes \<Rightarrow> cursor" where
  "newCursor b = \<lparr>cur_b = b, cur_off = 0, cur_err = False\<rparr>"

definition cur_u8 :: "cursor \<Rightarrow> byte \<times> cursor" where
  "cur_u8 c =
     (if cur_err c \<or> cur_off c \<ge> length (cur_b c) then (0, c\<lparr>cur_err := True\<rparr>)
      else (cur_b c ! cur_off c, c\<lparr>cur_off := cur_off c + 1\<rparr>))"

definition cur_n :: "nat \<Rightarrow> cursor \<Rightarrow> bytes \<times> cursor" where
  "cur_n n c =
     (if cur_err c \<or> cur_off c + n > length (cur_b c) then (replicate n 0, c\<lparr>cur_err := True\<rparr>)
      else (take n (drop (cur_off c) (cur_b c)), c\<lparr>cur_off := cur_off c + n\<rparr>))"

definition cur_lenPrefixed :: "cursor \<Rightarrow> bytes \<times> cursor" where
  "cur_lenPrefixed c =
     (if cur_err c \<or> cur_off c + 2 > length (cur_b c) then ([], c\<lparr>cur_err := True\<rparr>)
      else let n = unat (be_get (take 2 (drop (cur_off c) (cur_b c))) :: u16)
        in cur_n n (c\<lparr>cur_off := cur_off c + 2\<rparr>))"

definition short_plaintext :: go_error where
  "short_plaintext = Error ''dexote: short plaintext''"

definition parseClientPlaintext :: "bytes \<Rightarrow> go_error + ClientHelloPayload \<times> bytes \<times> int" where
  "parseClientPlaintext pt =
     (let r = newCursor pt;
          (ver, r) = cur_u8 r;
          (role, r) = cur_u8 r in
      if ver \<noteq> Version then Inl (Error ''dexote: bad version'')
      else
        let (cliNonce, r) = cur_n nonceLen r;
            (ts, r) = cur_n 8 r;
            (tok, r) = cur_lenPrefixed r;
            (opts, r) = cur_lenPrefixed r;
            (_, r) = cur_lenPrefixed r
        in if cur_err r then Inl short_plaintext
           else Inr (\<lparr>ch_Role = role, ch_Token = bytes_str tok, ch_Opts = opts\<rparr>, cliNonce,
                  sint (be_get ts :: u64)))"

definition parseServerPlaintext :: "bytes \<Rightarrow> go_error + bytes \<times> bytes" where
  "parseServerPlaintext pt =
     (let r = newCursor pt;
          (srvNonce, r) = cur_n nonceLen r;
          (caps, r) = cur_lenPrefixed r;
          (_, r) = cur_lenPrefixed r
      in if cur_err r then Inl short_plaintext else Inr (srvNonce, caps))"

section \<open>The replay cache\<close>

record MemReplayCache =
  rc_seen :: "(bytes, int) gomap"
  rc_window :: int

definition NewMemReplayCache :: MemReplayCache where
  "NewMemReplayCache = \<lparr>rc_seen = [], rc_window = replayWindow * 2\<rparr>"

definition rc_Add :: "int \<Rightarrow> bytes \<Rightarrow> MemReplayCache \<Rightarrow> bool \<times> MemReplayCache" where
  "rc_Add now nonce c =
     (let seen = filter (\<lambda>(k, ins). \<not> ins < now - rc_window c) (rc_seen c) in
      case mget seen nonce of
        Some _ \<Rightarrow> (False, c\<lparr>rc_seen := seen\<rparr>)
      | None \<Rightarrow> (True, c\<lparr>rc_seen := mput nonce now seen\<rparr>))"

section \<open>The handshake\<close>

text \<open>
  An endpoint of the handshake is what it writes and, at the end, its error or its result with
  the input it left unread. The bytes drawn are the reads 0, 1 and 2 of \<open>ent\<close>.
\<close>

type_synonym 'a hs = "wact list \<times> (go_error + 'a \<times> bytes)"

definition hs_lift :: "(go_error + 'a) \<Rightarrow> ('a \<Rightarrow> 'b hs) \<Rightarrow> 'b hs" where
  "hs_lift m f = (case m of Inl e \<Rightarrow> ([], Inl e) | Inr x \<Rightarrow> f x)"

definition hs_write :: "bytes list \<Rightarrow> 'b hs \<Rightarrow> 'b hs" where
  "hs_write bs k = (map Wr bs @ fst k, snd k)"

definition read_u16_int :: "nat rd" where
  "read_u16_int = rbind (read_full 2) (\<lambda>b. rret (unat (be_get b :: u16)))"

text \<open>The client's two halves: building its hello, then reading the answer.\<close>

definition client_hello ::
  "crypto \<Rightarrow> entropy \<Rightarrow> int \<Rightarrow> bytes \<Rightarrow> int \<Rightarrow> ClientHelloPayload \<Rightarrow>
   go_error + bytes list \<times> bytes \<times> bytes \<times> bytes" where
  "client_hello cr ent now serverPub slot p =
     (if length serverPub \<noteq> keyLen then Inl (Error ''dexote: bad server pubkey'')
      else
        let scalar = rand_read ent 0 keyLen in
        ebind (pubFromScalar cr scalar) (\<lambda>ePub.
        let masked = maskPub cr ePub serverPub slot in
        ebind (mac cr serverPub (masked @ slotBytes slot)) (\<lambda>m.
        ebind (x25519 cr scalar serverPub) (\<lambda>ss1.
        let k1 = cr_hkdf cr ss1 (slotBytes slot) infoC2S keyLen;
            cliNonce = rand_read ent 1 nonceLen in
        ebind (PadLen cr (NewPoly cr k1 slot ''hspad'') maxHSPad) (\<lambda>(padLen, _).
        let pad = rand_read ent 2 (nat padLen);
            pt = buildClientPlaintext p cliNonce now pad in
        ebind (seal cr k1 masked pt) (\<lambda>ct.
        if length ct > maxCtLen then Inl (Error ''dexote: hello too large'')
        else Inr ([masked, m, be_put 2 (word_of_nat (length ct) :: u16), ct], scalar, ss1, cliNonce)))))))"

definition client_finish ::
  "crypto \<Rightarrow> bytes \<Rightarrow> int \<Rightarrow> bytes \<Rightarrow> bytes \<Rightarrow> bytes \<Rightarrow> (Keys \<times> bytes) rd" where
  "client_finish cr serverPub slot scalar ss1 cliNonce =
     rbind (read_full keyLen) (\<lambda>maskedS inp.
     let sPub = unmaskPub cr maskedS serverPub slot in
     ebind (x25519 cr scalar sPub) (\<lambda>ss3.
     let k2 = cr_hkdf cr ss3 (slotBytes slot) infoS2C keyLen in
     ebind (read_u16_int inp) (\<lambda>(sctLen, inp).
     if sctLen > maxCtLen then Inl (Error ''dexote: server hello too large'')
     else ebind (read_full sctLen inp) (\<lambda>(sct, inp).
     ebind (open_aead cr k2 maskedS sct) (\<lambda>spt.
     ebind (parseServerPlaintext spt) (\<lambda>(srvNonce, caps).
     let secret = deriveSecret cr ss3 ss1 cliNonce srvNonce in
     Inr ((sessionKeys cr secret cliNonce srvNonce True, caps), inp)))))))"

definition ClientHandshake ::
  "crypto \<Rightarrow> entropy \<Rightarrow> int \<Rightarrow> bytes \<Rightarrow> int \<Rightarrow> ClientHelloPayload \<Rightarrow> bytes \<Rightarrow> (Keys \<times> bytes) hs" where
  "ClientHandshake cr ent now serverPub slot p inp =
     hs_lift (client_hello cr ent now serverPub slot p) (\<lambda>(msgs, scalar, ss1, cliNonce).
     hs_write msgs ([], client_finish cr serverPub slot scalar ss1 cliNonce inp))"

text \<open>
  The server's two halves: authenticating the hello (all its reads), then the answer. The clock
  is read twice, for the time window (\<open>now\<close>) and by the replay cache (\<open>now'\<close>); \<open>seen\<close> may be nil.
\<close>

definition server_read_hello ::
  "crypto \<Rightarrow> bytes \<Rightarrow> bytes \<Rightarrow> int \<Rightarrow>
   bytes \<Rightarrow> go_error + (bytes \<times> bytes \<times> ClientHelloPayload \<times> bytes \<times> int) \<times> bytes" where
  "server_read_hello cr serverScalar serverPub slot =
     rbind (read_full keyLen) (\<lambda>masked.
     rbind (read_full macLen) (\<lambda>gotMAC inp.
     ebind (mac cr serverPub (masked @ slotBytes slot)) (\<lambda>wantMAC.
     if gotMAC \<noteq> wantMAC then Inl (Error ''dexote: bad mac'')
     else let ePub = unmaskPub cr masked serverPub slot in
     ebind (x25519 cr serverScalar ePub) (\<lambda>ss1.
     let k1 = cr_hkdf cr ss1 (slotBytes slot) infoC2S keyLen in
     ebind (read_u16_int inp) (\<lambda>(ctLen, inp).
     if ctLen > maxCtLen then Inl (Error ''dexote: hello too large'')
     else ebind (read_full ctLen inp) (\<lambda>(ct, inp).
     ebind (open_aead cr k1 masked ct) (\<lambda>pt.
     ebind (parseClientPlaintext pt) (\<lambda>(payload, cliNonce, tsSec).
     Inr ((ePub, ss1, payload, cliNonce, tsSec), inp)))))))))"

definition server_answer ::
  "crypto \<Rightarrow> entropy \<Rightarrow> bytes \<Rightarrow> int \<Rightarrow> bytes \<Rightarrow> bytes \<Rightarrow> bytes \<Rightarrow> bytes \<Rightarrow> ClientHelloPayload \<Rightarrow> bytes \<Rightarrow>
   (Keys \<times> ClientHelloPayload) hs" where
  "server_answer cr ent serverPub slot capsBytes ePub ss1 cliNonce payload inp =
     (let sScalar = rand_read ent 0 keyLen in
      hs_lift (pubFromScalar cr sScalar) (\<lambda>sEPub.
      let maskedS = maskPub cr sEPub serverPub slot in
      hs_lift (x25519 cr sScalar ePub) (\<lambda>ss3.
      let k2 = cr_hkdf cr ss3 (slotBytes slot) infoS2C keyLen;
          srvNonce = rand_read ent 1 nonceLen in
      hs_lift (PadLen cr (NewPoly cr k2 slot ''hspad'') maxHSPad) (\<lambda>(padLen, _).
      let spt = buildServerPlaintext srvNonce capsBytes (rand_read ent 2 (nat padLen)) in
      hs_lift (seal cr k2 maskedS spt) (\<lambda>sct.
      hs_write [maskedS, be_put 2 (word_of_nat (length sct) :: u16), sct]
        (let secret = deriveSecret cr ss3 ss1 cliNonce srvNonce in
         ([], Inr ((sessionKeys cr secret cliNonce srvNonce False, payload), inp))))))))"

definition ServerHandshake ::
  "crypto \<Rightarrow> entropy \<Rightarrow> int \<Rightarrow> int \<Rightarrow> bytes \<Rightarrow> bytes \<Rightarrow> int \<Rightarrow> bytes \<Rightarrow> MemReplayCache option \<Rightarrow> bytes \<Rightarrow>
   (Keys \<times> ClientHelloPayload) hs \<times> MemReplayCache option" where
  "ServerHandshake cr ent now now' serverScalar serverPub slot capsBytes seen inp =
     (case server_read_hello cr serverScalar serverPub slot inp of
        Inl e \<Rightarrow> (([], Inl e), seen)
      | Inr ((ePub, ss1, payload, cliNonce, tsSec), inp) \<Rightarrow>
          if tsSec < now - replayWindow \<or> tsSec > now + replayWindow
          then (([], Inl (Error ''dexote: stale or replayed hello'')), seen)
          else
            let (fresh, seen) = (case seen of
                  None \<Rightarrow> (True, None)
                | Some c \<Rightarrow> (let (b, c) = rc_Add now' cliNonce c in (b, Some c)))
            in if \<not> fresh then (([], Inl (Error ''dexote: stale or replayed hello'')), seen)
               else (server_answer cr ent serverPub slot capsBytes ePub ss1 cliNonce payload inp, seen))"

section \<open>Lemmas: the plaintext formats\<close>

text \<open>The cursor behind \<open>a\<close>, in front of \<open>r\<close>.\<close>

definition cur_at :: "bytes \<Rightarrow> bytes \<Rightarrow> cursor" where
  "cur_at a r = \<lparr>cur_b = a @ r, cur_off = length a, cur_err = False\<rparr>"

lemma newCursor_at: "newCursor b = cur_at [] b"
  by (simp add: newCursor_def cur_at_def)

lemma cur_err_at [simp]: "\<not> cur_err (cur_at a r)"
  by (simp add: cur_at_def)

lemma cur_u8_at: "cur_u8 (cur_at a (b # r)) = (b, cur_at (a @ [b]) r)"
  by (simp add: cur_u8_def cur_at_def)

lemma cur_n_at: "length x = n \<Longrightarrow> cur_n n (cur_at a (x @ r)) = (x, cur_at (a @ x) r)"
  by (auto simp: cur_n_def cur_at_def)

lemma cur_lenPrefixed_at:
  assumes "length x < 65536"
  shows "cur_lenPrefixed (cur_at a (be_put 2 (word_of_nat (length x) :: u16) @ x @ r)) =
    (x, cur_at (a @ be_put 2 (word_of_nat (length x) :: u16) @ x) r)"
proof -
  let ?h = "be_put 2 (word_of_nat (length x) :: u16)"
  let ?b = "a @ ?h @ x @ r"
  have u: "unat (word_of_nat (length x) :: u16) = length x"
    using assms by (simp add: unat_small)
  have t: "take 2 (drop (length a) ?b) = ?h"
    by (simp del: be_put.simps)
  have adv: "(cur_at a (?h @ x @ r))\<lparr>cur_off := length a + 2\<rparr> = cur_at (a @ ?h) (x @ r)"
    by (simp add: cur_at_def del: be_put.simps)
  have "cur_lenPrefixed (cur_at a (?h @ x @ r)) = cur_n (length x) (cur_at (a @ ?h) (x @ r))"
    unfolding cur_lenPrefixed_def Let_def adv [symmetric]
    using t u by (simp add: cur_at_def del: be_put.simps)
  then show ?thesis by (simp add: cur_n_at del: be_put.simps)
qed

lemma appendU16_be: "v < 65536 \<Longrightarrow> appendU16 b v = b @ be_put 2 (word_of_nat v :: u16)"
  by (simp add: appendU16_def be_put_2_nat)

lemma sint_word_of_int64:
  "- (2 ^ 63) \<le> x \<Longrightarrow> x < 2 ^ 63 \<Longrightarrow> sint (word_of_int x :: u64) = x"
  by (simp add: sint_sbintrunc' signed_take_bit_int_eq_self)

lemma parse_client_built:
  assumes "length (ch_Token p) < 65536" "length (ch_Opts p) < 65536" "length pad < 65536"
    and "length nonce = 16" and "- (2 ^ 63) \<le> ts" "ts < 2 ^ 63"
  shows "parseClientPlaintext (buildClientPlaintext p nonce ts pad) = Inr (p, nonce, ts)"
proof -
  let ?t = "be_put 8 (word_of_int ts :: u64)"
  let ?l = "\<lambda>x. be_put 2 (word_of_nat (length x) :: u16) @ x"
  let ?tok = "str_bytes (ch_Token p)"
  have b: "buildClientPlaintext p nonce ts pad =
      Version # ch_Role p # nonce @ ?t @ ?l ?tok @ ?l (ch_Opts p) @ ?l pad @ []"
    using assms by (simp add: buildClientPlaintext_def Let_def appendU16_be del: be_put.simps)
  have tok: "length ?tok < 65536" using assms(1) by simp
  note L = cur_lenPrefixed_at [OF tok] cur_lenPrefixed_at [OF assms(2)] cur_lenPrefixed_at [OF assms(3)]
  have n: "cur_n nonceLen (cur_at a (nonce @ r)) = (nonce, cur_at (a @ nonce) r)" for a r
    using assms(4) by (intro cur_n_at) (simp add: nonceLen_def)
  have t: "cur_n 8 (cur_at a (?t @ r)) = (?t, cur_at (a @ ?t) r)" for a r
    by (rule cur_n_at) simp
  show ?thesis
    unfolding b parseClientPlaintext_def Let_def newCursor_at cur_u8_at prod.case append_assoc n t L
    by (simp add: sint_word_of_int64 [OF assms(5,6)] del: be_put.simps)
qed

lemma parse_server_built:
  assumes "length caps < 65536" "length pad < 65536" and "length nonce = 16"
  shows "parseServerPlaintext (buildServerPlaintext nonce caps pad) = Inr (nonce, caps)"
proof -
  let ?l = "\<lambda>x. be_put 2 (word_of_nat (length x) :: u16) @ x"
  have b: "buildServerPlaintext nonce caps pad = nonce @ ?l caps @ ?l pad @ []"
    using assms by (simp add: buildServerPlaintext_def appendU16_be del: be_put.simps)
  have n: "cur_n nonceLen (cur_at a (nonce @ r)) = (nonce, cur_at (a @ nonce) r)" for a r
    using assms(3) by (intro cur_n_at) (simp add: nonceLen_def)
  note L = cur_lenPrefixed_at [OF assms(1)] cur_lenPrefixed_at [OF assms(2)]
  show ?thesis
    unfolding b parseServerPlaintext_def Let_def newCursor_at prod.case append_assoc n L
    by simp
qed

section \<open>Lemmas: padding\<close>

lemma two_powers: "(2 :: int) ^ 62 = 4611686018427387904" "(2 :: int) ^ 63 = 9223372036854775808"
  by simp_all

lemma IntRange_bounds:
  assumes "mn \<le> mx" "- (2 ^ 62) \<le> mn" "mx < 2 ^ 62"
  shows "\<exists>n p'. IntRange cr p mn mx = Inr (n, p') \<and> mn \<le> n \<and> n \<le> mx"
proof (cases "mx = mn")
  case True
  then show ?thesis by (simp add: IntRange_def)
next
  case False
  then have lt: "mn < mx" using assms(1) by simp
  obtain x p' where x: "next64 cr p = (x, p')" by (cases "next64 cr p")
  let ?d = "mx - mn"
  have "uint ((word_of_int ?d :: u64) + 1) = ?d + 1"
  proof -
    have "(word_of_int ?d :: u64) + 1 = word_of_int (?d + 1)" by simp
    moreover have "uint (word_of_int (?d + 1) :: u64) = ?d + 1"
      using lt assms by (simp only: uint_word_of_int) (simp add: take_bit_eq_mod)
    ultimately show ?thesis by simp
  qed
  then have s: "uint ((word_of_int ?d :: u64) + 1) = ?d + 1" .
  then have nz: "(word_of_int ?d :: u64) + 1 \<noteq> 0" using lt by (metis uint_0_iff add_nonneg_pos
        diff_ge_0_iff_ge less_le_not_le less_imp_le zero_less_one)
  have m: "uint (x mod ((word_of_int ?d :: u64) + 1)) = uint x mod (?d + 1)"
    by (simp only: uint_mod s)
  have b: "0 \<le> uint x mod (?d + 1)" "uint x mod (?d + 1) < ?d + 1"
    using lt pos_mod_sign [of "?d + 1" "uint x"] pos_mod_bound [of "?d + 1" "uint x"] by linarith+
  have w: "wrap64 (uint x mod (?d + 1)) = uint x mod (?d + 1)"
    using b lt assms unfolding two_powers by (intro wrap64_id; unfold two_powers) linarith+
  have w2: "wrap64 (mn + uint x mod (?d + 1)) = mn + uint x mod (?d + 1)"
    using b lt assms unfolding two_powers by (intro wrap64_id; unfold two_powers) linarith+
  show ?thesis
    using lt nz b unfolding IntRange_def Let_def x prod.case m w w2 by auto
qed

lemma PadLen_bounds:
  assumes "mp < 2 ^ 62"
  shows "\<exists>n p'. PadLen cr p mp = Inr (n, p') \<and> 0 \<le> n \<and> n \<le> max 0 mp"
proof (cases "mp \<le> 0")
  case True
  then show ?thesis by (simp add: PadLen_def)
next
  case False
  then show ?thesis using IntRange_bounds [of 0 mp cr p] assms by (auto simp: PadLen_def)
qed

lemma length_maskPub [simp]: "length (maskPub cr a b s) = 32"
  by (simp add: maskPub_def Let_def keyLen_def)

lemma unmask_mask:
  assumes "length pub = 32"
  shows "unmaskPub cr (maskPub cr pub serverPub slot) serverPub slot = pub"
  by (rule nth_equalityI) (auto simp: unmaskPub_def maskPub_def Let_def keyLen_def assms xor.assoc)

section \<open>Lemmas: the two endpoints together\<close>

lemma crypto_lawsD:
  assumes "crypto_laws cr"
  shows "cr_x25519 cr a (cr_base cr) = Some pa \<Longrightarrow> cr_x25519 cr b (cr_base cr) = Some pb \<Longrightarrow>
      cr_x25519 cr a pb = cr_x25519 cr b pa"
    and "cr_x25519 cr s q = Some k \<Longrightarrow> length k = 32"
    and "length (cr_hkdf cr i sl f n) = n"
    and "length (cr_blake2s128 cr key d) = 16"
    and "length (cr_seal cr key nn ad pt) = length pt + 16"
    and "cr_open cr key nn ad (cr_seal cr key nn ad pt) = Some pt"
  using assms unfolding crypto_laws_def by - ((elim conjE, metis)+)

lemma x25519_Inr: "x25519 cr s p = Inr k \<longleftrightarrow> cr_x25519 cr s p = Some k"
  by (simp add: x25519_def split: option.splits)

lemma length_buildClientPlaintext:
  "length (buildClientPlaintext p nonce ts pad) =
   16 + length nonce + length (ch_Token p) + length (ch_Opts p) + length pad"
  by (simp add: buildClientPlaintext_def appendU16_def Let_def del: be_put.simps)

lemma length_buildServerPlaintext:
  "length (buildServerPlaintext nonce caps pad) = 4 + length nonce + length caps + length pad"
  by (simp add: buildServerPlaintext_def appendU16_def)

lemma client_hello_Inr:
  assumes "client_hello cr ent now serverPub slot p = Inr (msgs, scalar, ss1, cliNonce)"
  shows "\<exists>ePub pad. length serverPub = 32 \<and> scalar = rand_read ent 0 32 \<and> cliNonce = rand_read ent 1 16 \<and>
    cr_x25519 cr scalar (cr_base cr) = Some ePub \<and> cr_x25519 cr scalar serverPub = Some ss1 \<and> length pad \<le> 512 \<and>
    (let masked = maskPub cr ePub serverPub slot;
         k1 = cr_hkdf cr ss1 (slotBytes slot) infoC2S keyLen;
         ct = cr_seal cr k1 (replicate 12 0) masked (buildClientPlaintext p cliNonce now pad)
     in length ct \<le> maxCtLen \<and>
        msgs = [masked, take macLen (cr_blake2s128 cr (take 32 serverPub) (masked @ slotBytes slot)),
                be_put 2 (word_of_nat (length ct) :: u16), ct])"
proof -
  have pl: "PadLen cr q maxHSPad = Inr (n, q') \<Longrightarrow> nat n \<le> 512" for q n q'
    using PadLen_bounds [of maxHSPad cr q] by (auto simp: maxHSPad_def)
  show ?thesis
    using assms unfolding client_hello_def Let_def
    by (auto simp: ebind_Inr_iff x25519_Inr pubFromScalar_def mac_def bslice_def seal_def keyLen_def
        nonceLen_def macLen_def split: if_splits intro!: exI dest!: pl)
qed

lemma server_reads_hello:
  assumes L: "crypto_laws cr"
    and c: "client_hello cr ent now serverPub slot p = Inr (msgs, scalar, ss1, cliNonce)"
    and pub: "cr_x25519 cr serverScalar (cr_base cr) = Some serverPub"
    and t: "- (2 ^ 63) \<le> now" "now < 2 ^ 63"
  obtains ePub where "server_read_hello cr serverScalar serverPub slot (concat msgs @ r) =
      Inr ((ePub, ss1, p, cliNonce, now), r)"
    and "cr_x25519 cr scalar (cr_base cr) = Some ePub"
proof -
  obtain ePub pad where h: "length serverPub = 32" "cliNonce = rand_read ent 1 16"
      "cr_x25519 cr scalar (cr_base cr) = Some ePub" "cr_x25519 cr scalar serverPub = Some ss1" "length pad \<le> 512"
    and m: "(let masked = maskPub cr ePub serverPub slot;
         k1 = cr_hkdf cr ss1 (slotBytes slot) infoC2S keyLen;
         ct = cr_seal cr k1 (replicate 12 0) masked (buildClientPlaintext p cliNonce now pad)
     in length ct \<le> maxCtLen \<and>
        msgs = [masked, take macLen (cr_blake2s128 cr (take 32 serverPub) (masked @ slotBytes slot)),
                be_put 2 (word_of_nat (length ct) :: u16), ct])"
    using client_hello_Inr [OF c] by blast
  define masked where "masked = maskPub cr ePub serverPub slot"
  define k1 where "k1 = cr_hkdf cr ss1 (slotBytes slot) infoC2S keyLen"
  define pt where "pt = buildClientPlaintext p cliNonce now pad"
  define ct where "ct = cr_seal cr k1 (replicate 12 0) masked pt"
  define mc where "mc = take macLen (cr_blake2s128 cr (take 32 serverPub) (masked @ slotBytes slot))"
  have lct: "length ct \<le> 8192" and msgs: "msgs = [masked, mc, be_put 2 (word_of_nat (length ct) :: u16), ct]"
    using m by (simp_all add: Let_def masked_def k1_def pt_def ct_def mc_def maxCtLen_def)
  have lpt: "length pt \<le> 8176" using lct crypto_lawsD(5) [OF L] by (simp add: ct_def)
  have sz: "length (ch_Token p) < 65536" "length (ch_Opts p) < 65536" "length pad < 65536" "length cliNonce = 16"
    using lpt h by (auto simp: pt_def length_buildClientPlaintext)
  have u: "unat (word_of_nat (length ct) :: u16) = length ct" using lct by (simp add: unat_small)
  have r1: "read_full keyLen (masked @ s) = Inr (masked, s)" for s
    by (rule read_full_append) (simp add: masked_def keyLen_def)
  have r2: "read_full macLen (mc @ s) = Inr (mc, s)" for s
    by (rule read_full_append) (simp add: mc_def crypto_lawsD(4) [OF L] macLen_def)
  have r3: "read_u16_int (be_put 2 (word_of_nat (length ct) :: u16) @ s) = Inr (length ct, s)" for s
  proof -
    have "read_full 2 (be_put 2 (word_of_nat (length ct) :: u16) @ s) =
        Inr (be_put 2 (word_of_nat (length ct) :: u16), s)" by (rule read_full_append) simp
    then show ?thesis by (simp only: read_u16_int_def rbind_app sum.case prod.case rret_app be_get_be_put16 u)
  qed
  have r4: "read_full (length ct) (ct @ r) = Inr (ct, r)" by (rule read_full_append) simp
  have mac: "mac cr serverPub (masked @ slotBytes slot) = Inr mc"
    using h(1) by (simp add: mac_def keyLen_def mc_def)
  have un: "unmaskPub cr masked serverPub slot = ePub"
    unfolding masked_def using crypto_lawsD(2) [OF L h(3)] by (rule unmask_mask)
  have dh: "x25519 cr serverScalar ePub = Inr ss1"
    unfolding x25519_Inr using crypto_lawsD(1) [OF L pub h(3)] h(4) by simp
  have op: "open_aead cr k1 masked ct = Inr pt"
    by (simp add: open_aead_def ct_def crypto_lawsD(6) [OF L] k1_def crypto_lawsD(3) [OF L] keyLen_def)
  have pa: "parseClientPlaintext pt = Inr (p, cliNonce, now)"
    unfolding pt_def by (rule parse_client_built [OF sz t])
  have mx: "(length ct > maxCtLen) = False" using lct by (simp add: maxCtLen_def)
  have b: "concat msgs @ r = masked @ mc @ be_put 2 (word_of_nat (length ct) :: u16) @ ct @ r"
    by (simp add: msgs del: be_put.simps)
  have "server_read_hello cr serverScalar serverPub slot (concat msgs @ r) = Inr ((ePub, ss1, p, cliNonce, now), r)"
    unfolding b
    by (simp only: server_read_hello_def rbind_app r1 r2 r3 r4 sum.case prod.case mac ebind_simps simp_thms
        if_False Let_def un dh k1_def [symmetric] mx op pa)
  then show ?thesis using that h(3) by blast
qed

lemma client_reads_answer:
  assumes L: "crypto_laws cr" and caps: "length caps \<le> 7600"
    and e: "cr_x25519 cr scalar (cr_base cr) = Some ePub" and sp: "length serverPub = 32"
    and a: "server_answer cr ent serverPub slot caps ePub ss1 cliNonce p inp = (sw, Inr ((skeys, p'), inp'))"
  obtains ckeys where
    "client_finish cr serverPub slot scalar ss1 cliNonce (acts_bytes sw @ r) = Inr ((ckeys, caps), r)"
    and "TxKey ckeys = RxKey skeys" and "RxKey ckeys = TxKey skeys"
    and "TxLenKey ckeys = RxLenKey skeys" and "RxLenKey ckeys = TxLenKey skeys"
    and "Secret ckeys = Secret skeys" and "p' = p"
proof -
  define sS where "sS = rand_read ent 0 keyLen"
  define sn where "sn = rand_read ent 1 nonceLen"
  obtain sE where sE: "cr_x25519 cr sS (cr_base cr) = Some sE"
    using a by (auto simp: server_answer_def hs_lift_def pubFromScalar_def x25519_def sS_def [symmetric]
        Let_def split: option.splits)
  obtain ss3 where ss3: "cr_x25519 cr sS ePub = Some ss3"
    using a by (auto simp: server_answer_def hs_lift_def pubFromScalar_def x25519_def sS_def [symmetric] sE
        Let_def split: option.splits)
  define k2 where "k2 = cr_hkdf cr ss3 (slotBytes slot) infoS2C keyLen"
  define maskedS where "maskedS = maskPub cr sE serverPub slot"
  obtain pl q where pl: "PadLen cr (NewPoly cr k2 slot ''hspad'') maxHSPad = Inr (pl, q)" "0 \<le> pl" "pl \<le> 512"
    using PadLen_bounds [of maxHSPad cr "NewPoly cr k2 slot ''hspad''"] by (auto simp: maxHSPad_def)
  define spt where "spt = buildServerPlaintext sn caps (rand_read ent 2 (nat pl))"
  define sct where "sct = cr_seal cr k2 (replicate 12 0) maskedS spt"
  have lk: "length k2 = 32" by (simp add: k2_def crypto_lawsD(3) [OF L] keyLen_def)
  have x1: "pubFromScalar cr sS = Inr sE" "x25519 cr sS ePub = Inr ss3"
    by (simp_all add: pubFromScalar_def x25519_Inr sE ss3)
  have se: "seal cr k2 maskedS spt = Inr sct" by (simp add: seal_def lk sct_def)
  let ?sec = "deriveSecret cr ss3 ss1 cliNonce sn"
  have ans: "server_answer cr ent serverPub slot caps ePub ss1 cliNonce p inp =
      (map Wr [maskedS, be_put 2 (word_of_nat (length sct) :: u16), sct],
       Inr ((sessionKeys cr ?sec cliNonce sn False, p), inp))"
    unfolding server_answer_def Let_def sS_def [symmetric] sn_def [symmetric]
    by (simp only: hs_lift_def x1 sum.case prod.case k2_def [symmetric] maskedS_def [symmetric] pl(1)
        spt_def [symmetric] se hs_write_def fst_conv snd_conv append_Nil2)
  have sw: "acts_bytes sw @ r = maskedS @ be_put 2 (word_of_nat (length sct) :: u16) @ sct @ r"
    and sk: "skeys = sessionKeys cr ?sec cliNonce sn False" and p': "p' = p"
    using a unfolding ans by (auto simp del: be_put.simps)
  have lsct: "length sct \<le> 8192"
    using pl caps by (simp add: sct_def crypto_lawsD(5) [OF L] spt_def length_buildServerPlaintext sn_def nonceLen_def)
  have u: "unat (word_of_nat (length sct) :: u16) = length sct" using lsct by (simp add: unat_small)
  have r1: "read_full keyLen (maskedS @ s) = Inr (maskedS, s)" for s
    by (rule read_full_append) (simp add: maskedS_def keyLen_def)
  have r3: "read_u16_int (be_put 2 (word_of_nat (length sct) :: u16) @ s) = Inr (length sct, s)" for s
  proof -
    have "read_full 2 (be_put 2 (word_of_nat (length sct) :: u16) @ s) =
        Inr (be_put 2 (word_of_nat (length sct) :: u16), s)" by (rule read_full_append) simp
    then show ?thesis by (simp only: read_u16_int_def rbind_app sum.case prod.case rret_app be_get_be_put16 u)
  qed
  have r4: "read_full (length sct) (sct @ r) = Inr (sct, r)" by (rule read_full_append) simp
  have un: "unmaskPub cr maskedS serverPub slot = sE"
    unfolding maskedS_def using crypto_lawsD(2) [OF L sE] by (rule unmask_mask)
  have dh: "x25519 cr scalar sE = Inr ss3"
    unfolding x25519_Inr using crypto_lawsD(1) [OF L e sE] ss3 by simp
  have op: "open_aead cr k2 maskedS sct = Inr spt"
    by (simp add: open_aead_def sct_def crypto_lawsD(6) [OF L] lk)
  have pa: "parseServerPlaintext spt = Inr (sn, caps)"
    unfolding spt_def using caps pl by (intro parse_server_built) (simp_all add: sn_def nonceLen_def)
  have mx: "(length sct > maxCtLen) = False" using lsct by (simp add: maxCtLen_def)
  have "client_finish cr serverPub slot scalar ss1 cliNonce (acts_bytes sw @ r) =
      Inr ((sessionKeys cr ?sec cliNonce sn True, caps), r)"
    unfolding sw
    by (simp only: client_finish_def rbind_app r1 r3 r4 sum.case prod.case ebind_simps
        if_False Let_def un dh k2_def [symmetric] mx op pa)
  then show ?thesis
    by (rule that) (simp_all add: sk sessionKeys_def p' Let_def)
qed

section \<open>The replay cache is a replay guard\<close>

definition rc_ok :: "MemReplayCache \<Rightarrow> bool" where
  "rc_ok c \<longleftrightarrow> gomap_ok (rc_seen c) \<and> rc_window c = 180"

definition rc_held :: "int \<Rightarrow> bytes \<Rightarrow> MemReplayCache \<Rightarrow> bool" where
  "rc_held now nonce c \<longleftrightarrow> (case mget (rc_seen c) nonce of None \<Rightarrow> False | Some ins \<Rightarrow> \<not> ins < now - rc_window c)"

lemma rc_ok_new: "rc_ok NewMemReplayCache"
  by (simp add: rc_ok_def NewMemReplayCache_def replayWindow_def)

lemma rc_filtered:
  assumes "rc_ok c"
  shows "mget (filter (\<lambda>(k, ins). \<not> ins < now - rc_window c) (rc_seen c)) nonce =
    (case mget (rc_seen c) nonce of None \<Rightarrow> None | Some ins \<Rightarrow> if \<not> ins < now - rc_window c then Some ins else None)"
  using assms mget_filter [of "rc_seen c" "\<lambda>k ins. \<not> ins < now - rc_window c" nonce]
  by (simp add: rc_ok_def)

lemma rc_Add_result: "rc_ok c \<Longrightarrow> fst (rc_Add now nonce c) \<longleftrightarrow> \<not> rc_held now nonce c"
  unfolding rc_Add_def rc_held_def Let_def rc_filtered by (auto split: option.splits)

lemma rc_Add_state:
  assumes "rc_ok c"
  shows "mget (rc_seen (snd (rc_Add now nonce c))) k =
    (if k = nonce \<and> \<not> rc_held now nonce c then Some now
     else case mget (rc_seen c) k of None \<Rightarrow> None | Some ins \<Rightarrow> if \<not> ins < now - rc_window c then Some ins else None)"
  unfolding rc_Add_def rc_held_def Let_def rc_filtered [OF assms]
  by (auto split: option.splits simp: rc_filtered [OF assms] gomap)

lemma rc_ok_Add: "rc_ok c \<Longrightarrow> rc_ok (snd (rc_Add now nonce c))"
  by (auto simp: rc_Add_def rc_ok_def Let_def gomap split: option.splits)

interpretation rc: replay_guard rc_Add rc_held rc_ok 180
proof unfold_locales
  fix c and t u :: int and nonce j
  assume c: "rc_ok c" and tu: "t \<le> u"
  have w: "rc_window c = 180" "rc_window (snd (rc_Add t j c)) = 180" for j
    using c rc_ok_Add [OF c] by (simp_all add: rc_ok_def)
  show "rc_held u nonce (snd (rc_Add t nonce c))" if "u \<le> t + 180" "fst (rc_Add t nonce c)"
    using that tu rc_Add_result [OF c] w by (simp add: rc_held_def rc_Add_state [OF c])
  show "rc_held u nonce (snd (rc_Add t j c))" if "rc_held u nonce c"
    using that tu w unfolding rc_held_def rc_Add_state [OF c] by (auto split: option.splits)
qed (simp_all add: rc_ok_Add rc_Add_result)

section \<open>Properties\<close>

text \<open>
  C3. A client and a server that run the handshake against each other agree: when the server
  accepts, it has read the client's own role, token and options, the client accepts the
  server's answer and gets the server's capabilities, and the keys of the two sides match
  crosswise. Nothing on the stream behind the two hellos is consumed.
\<close>

theorem dexote_agreement:
  assumes "crypto_laws cr"
    and "cr_x25519 cr serverScalar (cr_base cr) = Some serverPub"
    and "client_hello cr entC now serverPub slot p = Inr (msgs, scalar, ss1, cliNonce)"
    and "- (2 ^ 63) \<le> now" and "now < 2 ^ 63" and "length caps \<le> 7600"
    and "ServerHandshake cr entS nowS nowS' serverScalar serverPub slot caps seen (concat msgs @ early) =
      ((sw, Inr ((skeys, p'), rest)), seen')"
  shows "p' = p \<and> rest = early \<and>
    (\<exists>ckeys. ClientHandshake cr entC now serverPub slot p (acts_bytes sw @ late) =
       (map Wr msgs, Inr ((ckeys, caps), late)) \<and>
     TxKey ckeys = RxKey skeys \<and> RxKey ckeys = TxKey skeys \<and>
     TxLenKey ckeys = RxLenKey skeys \<and> RxLenKey ckeys = TxLenKey skeys \<and> Secret ckeys = Secret skeys)"
proof -
  obtain ePub where rd: "server_read_hello cr serverScalar serverPub slot (concat msgs @ early) =
      Inr ((ePub, ss1, p, cliNonce, now), early)" and e: "cr_x25519 cr scalar (cr_base cr) = Some ePub"
    using server_reads_hello [OF assms(1,3,2,4,5)] by blast
  have an: "server_answer cr entS serverPub slot caps ePub ss1 cliNonce p early = (sw, Inr ((skeys, p'), rest))"
    using assms(7) by (simp add: ServerHandshake_def rd split: if_splits option.splits prod.splits)
  have re: "rest = early"
  proof -
    have "snd (server_answer cr entS serverPub slot caps ePub ss1 cliNonce p early) = Inr (x, q) \<Longrightarrow> q = early" for x q
      by (auto simp: server_answer_def hs_lift_def hs_write_def Let_def split: sum.splits prod.splits)
    then show ?thesis using an by simp
  qed
  have sp: "length serverPub = 32" using crypto_lawsD(2) [OF assms(1,2)] .
  obtain ckeys where "client_finish cr serverPub slot scalar ss1 cliNonce (acts_bytes sw @ late) = Inr ((ckeys, caps), late)"
    "TxKey ckeys = RxKey skeys" "RxKey ckeys = TxKey skeys" "TxLenKey ckeys = RxLenKey skeys"
    "RxLenKey ckeys = TxLenKey skeys" "Secret ckeys = Secret skeys" "p' = p"
    using client_reads_answer [OF assms(1,6) e sp an, of late] by blast
  then show ?thesis
    using re assms(3) by (simp add: ClientHandshake_def hs_lift_def hs_write_def)
qed

text \<open>
  C4. A client hello the server has accepted is never accepted again with the same replay cache:
  not within the time window, where the cache still holds its nonce whatever other hellos came
  in between, and not after it, where its timestamp is stale. (The two clock readings of the
  second run are not further apart than those of the first.)
\<close>

theorem dexote_no_replay:
  assumes "rc_ok c"
    and "ServerHandshake cr ent t t' serverScalar serverPub slot caps (Some c) hello = ((sw, Inr r), Some c')"
    and "t \<le> t'" and "t' \<le> u" and "u \<le> u'" and "u' - u \<le> t' - t"
    and "\<forall>(v, j) \<in> set between. v \<le> u'"
  shows "snd (fst (ServerHandshake cr ent2 u u' serverScalar serverPub slot caps2 (Some (rc.run_guard between c')) hello)) =
    Inl (Error ''dexote: stale or replayed hello'')"
proof -
  obtain ePub ss1 payload nonce ts inp where
    rd: "server_read_hello cr serverScalar serverPub slot hello = Inr ((ePub, ss1, payload, nonce, ts), inp)"
    using assms(2) by (auto simp: ServerHandshake_def split: sum.splits)
  have win: "\<not> (ts < t - replayWindow \<or> ts > t + replayWindow)"
    and add: "fst (rc_Add t' nonce c)" and c': "c' = snd (rc_Add t' nonce c)"
    using assms(2) by (auto simp: ServerHandshake_def rd Let_def split: if_splits prod.splits)
  show ?thesis
  proof (cases "ts < u - replayWindow \<or> ts > u + replayWindow")
    case True
    then show ?thesis by (simp add: ServerHandshake_def rd)
  next
    case False
    then have "u \<le> t + 180" using win by (simp add: replayWindow_def)
    then have "\<not> fst (rc_Add u' nonce (rc.run_guard between (snd (rc_Add t' nonce c))))"
      using assms by (intro rc.no_replay [OF assms(1) add]) auto
    then obtain c2 where "rc_Add u' nonce (rc.run_guard between (snd (rc_Add t' nonce c))) = (False, c2)"
      by (cases "rc_Add u' nonce (rc.run_guard between (snd (rc_Add t' nonce c)))") auto
    then show ?thesis
      using False unfolding c' by (simp add: ServerHandshake_def rd Let_def)
  qed
qed

text \<open>A concrete instance of the primitives, for the witnesses.\<close>

definition demo_crypto :: crypto where
  "demo_crypto =
     \<lparr>cr_x25519 = (\<lambda>s p. Some (map (\<lambda>i. s ! i XOR p ! i) [0..<32])), cr_base = replicate 32 9,
      cr_hkdf = (\<lambda>i s f n. replicate n 0), cr_blake2s128 = (\<lambda>k d. replicate 16 (foldr (+) d 0)),
      cr_seal = (\<lambda>k n a p. p @ replicate 16 0), cr_open = (\<lambda>k n a c. Some (take (length c - 16) c)),
      cr_chacha20 = (\<lambda>k n. 0)\<rparr>"

lemma demo_crypto_laws: "crypto_laws demo_crypto"
  by (auto simp: crypto_laws_def demo_crypto_def xor.left_commute)

abbreviation demo_pub :: bytes where
  "demo_pub \<equiv> map (\<lambda>i. replicate 32 5 ! i XOR replicate 32 9 ! i) [0..<32]"

abbreviation demo_hello :: "go_error + bytes list \<times> bytes \<times> bytes \<times> bytes" where
  "demo_hello \<equiv> client_hello demo_crypto (\<lambda>_. 0, \<lambda>_ i. of_nat i) 1000 demo_pub 7
     \<lparr>ch_Role = 2, ch_Token = ''tk'', ch_Opts = [1]\<rparr>"

abbreviation demo_server :: "int \<Rightarrow> int \<Rightarrow> MemReplayCache option \<Rightarrow> (Keys \<times> ClientHelloPayload) hs \<times> MemReplayCache option" where
  "demo_server t t' seen \<equiv> ServerHandshake demo_crypto (\<lambda>_. 0, \<lambda>_ i. of_nat (i + 1)) t t' (replicate 32 5)
     demo_pub 7 [3, 4] seen (concat (fst (projr demo_hello)) @ [99])"

theorem dexote_agreement_witness:
  "\<exists>msgs scalar ss1 cliNonce sw skeys seen' ckeys. demo_hello = Inr (msgs, scalar, ss1, cliNonce) \<and>
     demo_server 1010 1010 None = ((sw, Inr ((skeys, \<lparr>ch_Role = 2, ch_Token = ''tk'', ch_Opts = [1]\<rparr>), [99])), seen') \<and>
     ClientHandshake demo_crypto (\<lambda>_. 0, \<lambda>_ i. of_nat i) 1000 demo_pub 7 \<lparr>ch_Role = 2, ch_Token = ''tk'', ch_Opts = [1]\<rparr>
       (acts_bytes sw @ [8]) = (map Wr msgs, Inr ((ckeys, [3, 4]), [8])) \<and> TxKey ckeys = RxKey skeys"
proof -
  have "\<not> isl demo_hello" by code_simp
  then obtain msgs scalar ss1 cliNonce where h: "demo_hello = Inr (msgs, scalar, ss1, cliNonce)"
    by (cases demo_hello) auto
  have "\<not> isl (snd (fst (demo_server 1010 1010 None)))" by code_simp
  then obtain sw skeys p' rest seen' where s: "demo_server 1010 1010 None = ((sw, Inr ((skeys, p'), rest)), seen')"
    by (cases "demo_server 1010 1010 None"; cases "fst (demo_server 1010 1010 None)";
        cases "snd (fst (demo_server 1010 1010 None))") auto
  have pub: "cr_x25519 demo_crypto (replicate 32 5) (cr_base demo_crypto) = Some demo_pub"
    by (simp add: demo_crypto_def)
  show ?thesis
    using dexote_agreement [OF demo_crypto_laws pub h _ _ _ s [unfolded h sum.sel prod.sel fst_conv], of "[8]"] h s
    by auto
qed

theorem dexote_no_replay_witness:
  "\<exists>c'. snd (demo_server 1010 1010 (Some NewMemReplayCache)) = Some c' \<and>
     snd (fst (demo_server 1080 1080 (Some (rc.run_guard [(1020, [1, 2])] c')))) =
       Inl (Error ''dexote: stale or replayed hello'')"
proof -
  let ?s = "demo_server 1010 1010 (Some NewMemReplayCache)"
  have "\<not> isl (snd (fst ?s)) \<and> snd ?s \<noteq> None" by code_simp
  then obtain sw r c' where s: "?s = ((sw, Inr r), Some c')"
    by (cases ?s; cases "fst ?s"; cases "snd (fst ?s)") auto
  have "snd (fst (demo_server 1080 1080 (Some (rc.run_guard [(1020, [1, 2])] c')))) =
      Inl (Error ''dexote: stale or replayed hello'')"
    by (rule dexote_no_replay [OF rc_ok_new s]) simp_all
  then show ?thesis using s by simp
qed

end
