(* ===== verification/Obfuscate.thy ===== *)
theory Obfuscate
  imports Dexote
begin

text \<open>
  The two stream wrappers of \<^verbatim>\<open>internal/obfuscate\<close>: the XOR stream keyed by the token
  (\<^verbatim>\<open>obfuscate.go\<close>) and the frames sealed with the session keys (\<^verbatim>\<open>aead.go\<close>), each with the
  lemma that the reading end gives back the bytes the writing end was handed, however both ends
  cut them up.
\<close>

section \<open>The XOR stream\<close>

text \<open>
  \<open>xorBytes key pos b\<close> is the masked buffer and the new position. The key of 32 bytes takes
  the fast path, whose index is \<^verbatim>\<open>p0&31\<close>; positions stay far below \<open>2\<^sup>6\<^sup>3\<close>.
\<close>

fun xor_from :: "(nat \<Rightarrow> byte) \<Rightarrow> nat \<Rightarrow> bytes \<Rightarrow> bytes" where
  "xor_from ks p0 [] = []"
| "xor_from ks p0 (b # bs) = (b XOR ks p0) # xor_from ks (Suc p0) bs"

definition xorBytes :: "bytes \<Rightarrow> nat \<Rightarrow> bytes \<Rightarrow> bytes \<times> nat" where
  "xorBytes key pos b =
     (let kl = length key in
      if kl = 32 then (xor_from (\<lambda>p0. key ! (p0 AND 31)) pos b, pos + length b)
      else if kl > 0 then (xor_from (\<lambda>p0. key ! (p0 mod kl)) pos b, pos + length b)
      else (b, pos))"

definition keyFromToken :: "(bytes \<Rightarrow> bytes) \<Rightarrow> string \<Rightarrow> bytes" where
  "keyFromToken sha256 token = sha256 (str_bytes token)"

record xorConn =
  xc_key :: bytes
  xc_rPos :: nat
  xc_wPos :: nat

definition WrapConn :: "(bytes \<Rightarrow> bytes) \<Rightarrow> string \<Rightarrow> xorConn" where
  "WrapConn sha256 token = \<lparr>xc_key = keyFromToken sha256 token, xc_rPos = 0, xc_wPos = 0\<rparr>"

text \<open>
  \<open>xc_Write c p n\<close>: the connection below takes the first \<open>n\<close> bytes; after a short write the
  position is moved back, so that it is the number of bytes that went out. \<open>xc_Read c raw\<close>
  unmasks the bytes \<open>raw\<close> that one read of the connection below yielded.
\<close>

definition xc_Write :: "xorConn \<Rightarrow> bytes \<Rightarrow> nat \<Rightarrow> bytes \<times> xorConn" where
  "xc_Write c p n =
     (let need = length p; (b, w) = xorBytes (xc_key c) (xc_wPos c) p;
          w = (if n < need then w - (need - n) else w)
      in (take n b, c\<lparr>xc_wPos := w\<rparr>))"

definition xc_Read :: "xorConn \<Rightarrow> bytes \<Rightarrow> bytes \<times> xorConn" where
  "xc_Read c raw =
     (let (b, r) = xorBytes (xc_key c) (xc_rPos c) raw in (b, c\<lparr>xc_rPos := r\<rparr>))"

section \<open>Sealed frames\<close>

definition maxFramePayload :: nat where "maxFramePayload = 16384"
definition aead_maxPad :: int where "aead_maxPad = 1024"
definition overhead :: nat where "overhead = 16"
definition lenHdr :: nat where "lenHdr = 2 + overhead"
definition maxChunk :: nat where "maxChunk = 2 + maxFramePayload + nat aead_maxPad + overhead"

lemmas aead_sizes = maxFramePayload_def aead_maxPad_def overhead_def lenHdr_def maxChunk_def

text \<open>One direction; the counters are \<^verbatim>\<open>uint64\<close>, sent as the last eight bytes of the nonce.\<close>

record dir =
  d_data :: bytes
  d_lenK :: bytes
  d_nD :: u64
  d_nL :: u64
  d_poly :: Poly
  d_maxPd :: int

definition le_bytes8 :: "u64 \<Rightarrow> bytes" where
  "le_bytes8 u = map (\<lambda>i. ucast (drop_bit (8 * i) u)) [0..<8]"

definition nonce12 :: "u64 \<Rightarrow> bytes" where
  "nonce12 ctr = [0, 0, 0, 0] @ le_bytes8 ctr"

definition sealChunk :: "crypto \<Rightarrow> bytes \<Rightarrow> bytes \<Rightarrow> bytes \<Rightarrow> go_error + bytes" where
  "sealChunk cr key nonce pt =
     (if length key \<noteq> 32 then Inl (Error ''chacha20poly1305: bad key length'')
      else Inr (cr_seal cr key nonce [] pt))"

definition openChunk :: "crypto \<Rightarrow> bytes \<Rightarrow> bytes \<Rightarrow> bytes \<Rightarrow> go_error + bytes" where
  "openChunk cr key nonce ct =
     (if length key \<noteq> 32 then Inl (Error ''chacha20poly1305: bad key length'')
      else case cr_open cr key nonce [] ct of
        None \<Rightarrow> Inl (Error ''chacha20poly1305: message authentication failed'')
      | Some pt \<Rightarrow> Inr pt)"

record aeadConn =
  ac_tx :: dir
  ac_rx :: dir
  ac_rbuf :: bytes
  ac_hook :: "(int \<Rightarrow> int \<times> duration) option"

text \<open>The hook, when there is one, is a function of the payload length here; a hook with a state
  of its own, such as the shaper, is a new function at every call, and the lemmas are for an
  arbitrary one.\<close>

definition WrapAEADShaped ::
  "Keys \<Rightarrow> Poly \<Rightarrow> Poly \<Rightarrow> int \<Rightarrow> (int \<Rightarrow> int \<times> duration) option \<Rightarrow> aeadConn" where
  "WrapAEADShaped k txPoly rxPoly padMax hook =
     (let padMax = (if padMax > aead_maxPad then aead_maxPad else padMax)
      in \<lparr>ac_tx = \<lparr>d_data = TxKey k, d_lenK = TxLenKey k, d_nD = 0, d_nL = 0, d_poly = txPoly, d_maxPd = padMax\<rparr>,
          ac_rx = \<lparr>d_data = RxKey k, d_lenK = RxLenKey k, d_nD = 0, d_nL = 0, d_poly = rxPoly, d_maxPd = padMax\<rparr>,
          ac_rbuf = [], ac_hook = hook\<rparr>)"

definition WrapAEAD :: "Keys \<Rightarrow> Poly \<Rightarrow> Poly \<Rightarrow> int \<Rightarrow> aeadConn" where
  "WrapAEAD k txPoly rxPoly padMax = WrapAEADShaped k txPoly rxPoly padMax None"

definition shapeFor :: "aeadConn \<Rightarrow> int \<Rightarrow> int \<times> duration" where
  "shapeFor c n =
     (case ac_hook c of
        None \<Rightarrow> (0, 0)
      | Some hook \<Rightarrow>
          let (targetLen, delay) = hook n;
              pad = (if targetLen > n then wrap64 (targetLen - n) else 0);
              pad = (if pad > aead_maxPad then aead_maxPad else pad)
          in (pad, delay))"

text \<open>A frame: the sealed length and the sealed data, two writes.\<close>

definition writeFrame :: "crypto \<Rightarrow> dir \<Rightarrow> bytes \<Rightarrow> int \<Rightarrow> wout \<times> dir" where
  "writeFrame cr tx payload shapePad =
     (case PadLen cr (d_poly tx) (d_maxPd tx) of
        Inl e \<Rightarrow> (werr e, tx)
      | Inr (pl, poly) \<Rightarrow>
        let tx = tx\<lparr>d_poly := poly\<rparr>;
            pad = pl + shapePad;
            pad = (if pad > aead_maxPad then aead_maxPad else pad);
            pt = be_put 2 (word_of_nat (length payload) :: u16) @ payload @ replicate (nat pad) 0
        in case sealChunk cr (d_data tx) (nonce12 (d_nD tx)) pt of
             Inl e \<Rightarrow> (werr e, tx)
           | Inr encData \<Rightarrow>
             let tx = tx\<lparr>d_nD := d_nD tx + 1\<rparr>;
                 lp = be_put 2 (word_of_nat (length encData) :: u16)
             in case sealChunk cr (d_lenK tx) (nonce12 (d_nL tx)) lp of
                  Inl e \<Rightarrow> (werr e, tx)
                | Inr encLen \<Rightarrow>
                  (wseq [wwrite encLen, wwrite encData], tx\<lparr>d_nL := d_nL tx + 1\<rparr>))"

function aead_write :: "crypto \<Rightarrow> aeadConn \<Rightarrow> bytes \<Rightarrow> wout \<times> aeadConn" where
  "aead_write cr c p =
     (if p = [] then (wok, c)
      else
        let n = min (length p) maxFramePayload;
            (shapePad, delay) = shapeFor c (int n);
            (w, tx) = writeFrame cr (ac_tx c) (take n p) shapePad;
            c = c\<lparr>ac_tx := tx\<rparr>
        in if wfailed w \<noteq> None then (w, c)
           else let (w', c') = aead_write cr c (drop n p) in (wthen w w', c'))"
  by pat_completeness auto
termination
  by (relation "measure (\<lambda>(cr, c, p). length p)") (auto simp: maxFramePayload_def)

declare aead_write.simps [simp del]

definition errFrame :: go_error where
  "errFrame = Error ''obfuscate: bad aead frame''"

definition readFrame :: "crypto \<Rightarrow> dir \<Rightarrow> bytes \<Rightarrow> (go_error + bytes \<times> bytes) \<times> dir" where
  "readFrame cr rx inp =
     (case read_full lenHdr inp of
        Inl e \<Rightarrow> (Inl e, rx)
      | Inr (encLen, inp) \<Rightarrow>
        (case openChunk cr (d_lenK rx) (nonce12 (d_nL rx)) encLen of
           Inl _ \<Rightarrow> (Inl errFrame, rx)
         | Inr lp \<Rightarrow>
           let rx = rx\<lparr>d_nL := d_nL rx + 1\<rparr> in
           if length lp < 2 then (Inl (Panic ''index out of range''), rx) else
           let dataLen = unat (be_get (take 2 lp) :: u16) in
           if dataLen < 2 + overhead \<or> dataLen > maxChunk then (Inl errFrame, rx)
           else (case read_full dataLen inp of
             Inl e \<Rightarrow> (Inl e, rx)
           | Inr (encData, inp) \<Rightarrow>
             (case openChunk cr (d_data rx) (nonce12 (d_nD rx)) encData of
                Inl _ \<Rightarrow> (Inl errFrame, rx)
              | Inr pt \<Rightarrow>
                let rx = rx\<lparr>d_nD := d_nD rx + 1\<rparr> in
                if length pt < 2 then (Inl errFrame, rx)
                else let real = unat (be_get (take 2 pt) :: u16) in
                  if 2 + real > length pt then (Inl errFrame, rx)
                  else (Inr (take real (drop 2 pt), inp), rx)))))"

text \<open>\<open>aead_read c cap\<close> is one \<^verbatim>\<open>Read\<close> into a buffer of \<open>cap\<close> bytes.\<close>

definition aead_read :: "crypto \<Rightarrow> aeadConn \<Rightarrow> nat \<Rightarrow> bytes \<Rightarrow> (go_error + bytes \<times> bytes) \<times> aeadConn" where
  "aead_read cr c cap inp =
     (if length (ac_rbuf c) > 0
      then (Inr (take cap (ac_rbuf c), inp), c\<lparr>ac_rbuf := drop cap (ac_rbuf c)\<rparr>)
      else case readFrame cr (ac_rx c) inp of
        (Inl e, rx) \<Rightarrow> (Inl e, c\<lparr>ac_rx := rx\<rparr>)
      | (Inr (payload, inp), rx) \<Rightarrow>
          (Inr (take cap payload, inp),
           c\<lparr>ac_rx := rx, ac_rbuf := (if cap < length payload then drop cap payload else ac_rbuf c)\<rparr>))"

section \<open>Lemmas: the XOR stream\<close>

lemma xor_from_append: "xor_from ks p (a @ b) = xor_from ks p a @ xor_from ks (p + length a) b"
  by (induction ks p a rule: xor_from.induct) simp_all

lemma xor_from_twice [simp]: "xor_from ks p (xor_from ks p a) = a"
  by (induction ks p a rule: xor_from.induct) (simp_all add: xor.assoc)

lemma length_xor_from [simp]: "length (xor_from ks p a) = length a"
  by (induction ks p a rule: xor_from.induct) simp_all

lemma take_xor_from: "take n (xor_from ks p a) = xor_from ks p (take n a)"
  by (induction ks p a arbitrary: n rule: xor_from.induct) (auto simp: take_Cons split: nat.splits)

text \<open>All three paths of \<open>xorBytes\<close> are the stream of one mask.\<close>

definition mask_of :: "bytes \<Rightarrow> nat \<Rightarrow> byte" where
  "mask_of key p = (if key = [] then 0 else key ! (p mod length key))"

lemma xor_from_zero: "xor_from (\<lambda>_. 0) p b = b"
  by (induction b arbitrary: p) simp_all

lemma xorBytes_mask:
  "fst (xorBytes key pos b) = xor_from (mask_of key) pos b"
  "key \<noteq> [] \<Longrightarrow> snd (xorBytes key pos b) = pos + length b"
proof -
  have a: "p0 AND 31 = p0 mod 32" for p0 :: nat
    using take_bit_eq_mask [of 5 p0] by (simp add: take_bit_eq_mod mask_eq_exp_minus_1)
  show "fst (xorBytes key pos b) = xor_from (mask_of key) pos b"
  proof (cases "key = []")
    case True
    then have "mask_of key = (\<lambda>_. 0)" by (auto simp: mask_of_def)
    then show ?thesis using True by (simp add: xorBytes_def xor_from_zero)
  next
    case False
    then have "mask_of key = (\<lambda>p. key ! (p mod length key))" by (auto simp: mask_of_def)
    then show ?thesis using False by (simp add: xorBytes_def Let_def a)
  qed
qed (simp add: xorBytes_def Let_def)

text \<open>A run of writes, each with the number of bytes that went out, and a run of reads.\<close>

fun xc_send :: "xorConn \<Rightarrow> (bytes \<times> nat) list \<Rightarrow> bytes \<times> xorConn" where
  "xc_send c [] = ([], c)"
| "xc_send c ((p, n) # ws) =
     (let (b, c) = xc_Write c p n; (bs, c) = xc_send c ws in (b @ bs, c))"

fun xc_recv :: "xorConn \<Rightarrow> bytes list \<Rightarrow> bytes \<times> xorConn" where
  "xc_recv c [] = ([], c)"
| "xc_recv c (raw # raws) =
     (let (b, c) = xc_Read c raw; (bs, c) = xc_recv c raws in (b @ bs, c))"

lemma xc_send_mask:
  assumes "xc_key c \<noteq> []" and "\<forall>(p, n) \<in> set ws. n \<le> length p"
  shows "fst (xc_send c ws) =
    xor_from (mask_of (xc_key c)) (xc_wPos c) (concat (map (\<lambda>(p, n). take n p) ws))"
  using assms
proof (induction ws arbitrary: c)
  case (Cons w ws)
  obtain p n where w: "w = (p, n)" by (cases w)
  have n: "n \<le> length p" using Cons.prems w by auto
  let ?c = "snd (xc_Write c p n)"
  have k: "fst (xc_Write c p n) = xor_from (mask_of (xc_key c)) (xc_wPos c) (take n p)"
    "xc_key ?c = xc_key c" "xc_wPos ?c = xc_wPos c + n"
    using n xorBytes_mask [of "xc_key c"] Cons.prems(1)
    by (auto simp: xc_Write_def Let_def take_xor_from split_beta)
  have "fst (xc_send c (w # ws)) = fst (xc_Write c p n) @ fst (xc_send ?c ws)"
    by (simp add: w split_beta Let_def)
  then show ?case
    using Cons.IH [of ?c] Cons.prems n by (simp add: k w xor_from_append)
qed simp

lemma xc_recv_mask:
  assumes "xc_key c \<noteq> []"
  shows "fst (xc_recv c raws) = xor_from (mask_of (xc_key c)) (xc_rPos c) (concat raws)"
  using assms
proof (induction raws arbitrary: c)
  case (Cons raw raws)
  let ?c = "snd (xc_Read c raw)"
  have k: "fst (xc_Read c raw) = xor_from (mask_of (xc_key c)) (xc_rPos c) raw"
    "xc_key ?c = xc_key c" "xc_rPos ?c = xc_rPos c + length raw"
    using xorBytes_mask [of "xc_key c"] Cons.prems by (auto simp: xc_Read_def Let_def split_beta)
  have "fst (xc_recv c (raw # raws)) = fst (xc_Read c raw) @ fst (xc_recv ?c raws)"
    by (simp add: split_beta Let_def)
  then show ?case using Cons.IH [of ?c] Cons.prems by (simp add: k xor_from_append)
qed simp

section \<open>Lemmas: sealed frames\<close>

definition matched :: "dir \<Rightarrow> dir \<Rightarrow> bool" where
  "matched tx rx \<longleftrightarrow> d_data rx = d_data tx \<and> d_lenK rx = d_lenK tx \<and> d_nD rx = d_nD tx \<and> d_nL rx = d_nL tx
     \<and> length (d_data tx) = 32 \<and> length (d_lenK tx) = 32 \<and> d_maxPd tx \<le> 1024"

lemma readFrame_written:
  assumes L: "crypto_laws cr" and m: "matched tx rx" and p: "length payload \<le> maxFramePayload" and s: "0 \<le> sp"
  shows "\<exists>w tx' rx'. writeFrame cr tx payload sp = (w, tx') \<and> wfailed w = None \<and>
    readFrame cr rx (wbytes w @ r) = (Inr (payload, r), rx') \<and> matched tx' rx'"
proof -
  note M = m [unfolded matched_def]
  obtain pl q where pl: "PadLen cr (d_poly tx) (d_maxPd tx) = Inr (pl, q)" "0 \<le> pl"
    using PadLen_bounds [of "d_maxPd tx" cr "d_poly tx"] M by auto
  define pad where "pad = (if pl + sp > aead_maxPad then aead_maxPad else pl + sp)"
  have pad: "0 \<le> pad" "nat pad \<le> 1024" using pl s by (auto simp: pad_def aead_maxPad_def)
  define h where "h = be_put 2 (word_of_nat (length payload) :: u16)"
  define pt where "pt = h @ payload @ replicate (nat pad) 0"
  define ct where "ct = cr_seal cr (d_data tx) (nonce12 (d_nD tx)) [] pt"
  define lp where "lp = be_put 2 (word_of_nat (length ct) :: u16)"
  define lt where "lt = cr_seal cr (d_lenK tx) (nonce12 (d_nL tx)) [] lp"
  have pl16: "length payload \<le> 16384" using p by (simp add: maxFramePayload_def)
  have lct: "length ct = 18 + length payload + nat pad"
    by (simp add: ct_def pt_def h_def crypto_lawsD(5) [OF L])
  then have lct2: "18 \<le> length ct" "length ct \<le> 17426" using pl16 pad by simp_all
  have llt: "length lt = lenHdr" by (simp add: lt_def lp_def crypto_lawsD(5) [OF L] aead_sizes)
  have u: "unat (word_of_nat (length ct) :: u16) = length ct" "unat (word_of_nat (length payload) :: u16) = length payload"
    using lct2 pl16 by (simp_all add: unat_small)
  let ?tx = "tx\<lparr>d_poly := q, d_nD := d_nD tx + 1, d_nL := d_nL tx + 1\<rparr>"
  have W: "writeFrame cr tx payload sp = (wseq [wwrite lt, wwrite ct], ?tx)"
  proof -
    have s1: "sealChunk cr (d_data tx) (nonce12 (d_nD tx)) pt = Inr ct"
      and s2: "sealChunk cr (d_lenK tx) (nonce12 (d_nL tx)) lp = Inr lt"
      using M by (simp_all add: sealChunk_def ct_def lt_def)
    show ?thesis
      by (simp only: writeFrame_def pl(1) sum.case prod.case Let_def dir.simps pad_def [symmetric]
          h_def [symmetric] pt_def [symmetric]) (simp add: s1 s2 lp_def [symmetric])
  qed
  have sz: "(length lp < 2) = False" "(length ct < 2 + overhead \<or> length ct > maxChunk) = False"
    "(length pt < 2) = False" "(2 + length payload > length pt) = False"
    using lct2 by (auto simp: lp_def aead_sizes pt_def h_def)
  have o1: "openChunk cr (d_lenK rx) (nonce12 (d_nL rx)) lt = Inr lp"
    using M by (simp add: openChunk_def lt_def crypto_lawsD(6) [OF L])
  have o2: "openChunk cr (d_data rx) (nonce12 (d_nD rx)) ct = Inr pt"
    using M by (simp add: openChunk_def ct_def crypto_lawsD(6) [OF L])
  have t: "take 2 lp = lp" "take 2 pt = h" "take (length payload) (drop 2 pt) = payload"
    by (simp_all add: lp_def pt_def h_def del: be_put.simps)
  have g: "unat (be_get lp :: u16) = length ct" "unat (be_get h :: u16) = length payload"
    by (simp_all add: lp_def h_def u del: be_put.simps)
  let ?rx = "rx\<lparr>d_nL := d_nL rx + 1, d_nD := d_nD rx + 1\<rparr>"
  have R: "readFrame cr rx (lt @ ct @ r) = (Inr (payload, r), ?rx)"
    by (simp only: readFrame_def read_full_append [OF llt] sum.case prod.case o1 Let_def sz if_False t g
        read_full_append [OF refl]) (use sz(4) in \<open>simp add: o2 sz(3) t g\<close>)
  have "wbytes (wseq [wwrite lt, wwrite ct]) @ r = lt @ ct @ r" "wfailed (wseq [wwrite lt, wwrite ct]) = None"
    by (simp_all add: wr_simps)
  then show ?thesis using W R M by (intro exI [of _ ?tx] exI [of _ ?rx] exI conjI) (auto simp: matched_def)
qed

fun read_frames :: "crypto \<Rightarrow> nat \<Rightarrow> dir \<Rightarrow> bytes \<Rightarrow> (go_error + bytes list \<times> bytes) \<times> dir" where
  "read_frames cr 0 rx inp = (Inr ([], inp), rx)"
| "read_frames cr (Suc n) rx inp =
     (case readFrame cr rx inp of
        (Inl e, rx) \<Rightarrow> (Inl e, rx)
      | (Inr (p, inp), rx) \<Rightarrow>
        (case read_frames cr n rx inp of
           (Inl e, rx) \<Rightarrow> (Inl e, rx)
         | (Inr (ps, inp), rx) \<Rightarrow> (Inr (p # ps, inp), rx)))"

lemma shapeFor_nonneg: "0 \<le> n \<Longrightarrow> n \<le> 16384 \<Longrightarrow> fst (shapeFor c n) \<ge> 0 \<or> \<not> (\<forall>h. ac_hook c = Some h \<longrightarrow> fst (h n) < 2 ^ 63)"
proof (cases "ac_hook c")
  case None
  then show ?thesis by (simp add: shapeFor_def)
next
  case (Some h)
  assume n: "0 \<le> n" "n \<le> 16384"
  obtain t d where t: "h n = (t, d)" by (cases "h n")
  show ?thesis
  proof (cases "t > n \<and> t < 2 ^ 63")
    case True
    then have "wrap64 (t - n) = t - n" using n by (intro wrap64_id) (linarith | simp)+
    then show ?thesis using True Some t by (simp add: shapeFor_def Let_def aead_maxPad_def)
  next
    case False
    then show ?thesis using Some t by (auto simp: shapeFor_def Let_def aead_maxPad_def)
  qed
qed

text \<open>A hook yields a Go \<^verbatim>\<open>int\<close>.\<close>

definition hook_ok :: "aeadConn \<Rightarrow> bool" where
  "hook_ok c \<longleftrightarrow> (\<forall>h n. ac_hook c = Some h \<longrightarrow> fst (h n) < 2 ^ 63)"

lemma aead_write_read:
  "crypto_laws cr \<Longrightarrow> matched (ac_tx c) rx \<Longrightarrow> hook_ok c \<Longrightarrow>
    \<exists>w c' ps rx'. aead_write cr c p = (w, c') \<and> wfailed w = None \<and> concat ps = p \<and>
      (\<forall>q \<in> set ps. q \<noteq> [] \<and> length q \<le> maxFramePayload) \<and>
      read_frames cr (length ps) rx (wbytes w @ r) = (Inr (ps, r), rx') \<and> matched (ac_tx c') rx' \<and>
      ac_hook c' = ac_hook c"
proof (induction cr c p arbitrary: rx rule: aead_write.induct)
  case (1 cr c p)
  show ?case
  proof (cases "p = []")
    case True
    then show ?thesis
      using "1.prems" by (intro exI [of _ wok] exI [of _ c] exI [of _ "[]"] exI [of _ rx])
        (simp add: aead_write.simps wr_simps)
  next
    case False
    define n where "n = min (length p) maxFramePayload"
    obtain sp delay where sf: "shapeFor c (int n) = (sp, delay)" by (cases "shapeFor c (int n)")
    have n: "0 < n" "n \<le> maxFramePayload" "n \<le> length p" using False by (auto simp: n_def maxFramePayload_def)
    have sp: "0 \<le> sp" using shapeFor_nonneg [of "int n" c] n "1.prems"(3) sf
      by (auto simp: hook_ok_def maxFramePayload_def)
    obtain w tx' rx' where w: "writeFrame cr (ac_tx c) (take n p) sp = (w, tx')" "wfailed w = None"
      and rd: "\<And>r. readFrame cr rx (wbytes w @ r) = (Inr (take n p, r), rx')" and m: "matched tx' rx'"
    proof -
      have tp: "length (take n p) \<le> maxFramePayload" using n by simp
      obtain w tx' rx' where a: "writeFrame cr (ac_tx c) (take n p) sp = (w, tx')" "wfailed w = None"
        "readFrame cr rx (wbytes w @ []) = (Inr (take n p, []), rx')" "matched tx' rx'"
        using readFrame_written [OF "1.prems"(1,2) tp sp, of "[]"] by blast
      have "readFrame cr rx (wbytes w @ r) = (Inr (take n p, r), rx')" for r
      proof -
        obtain w2 tx2 rx2 where b: "writeFrame cr (ac_tx c) (take n p) sp = (w2, tx2)"
          "readFrame cr rx (wbytes w2 @ r) = (Inr (take n p, r), rx2)" "matched tx2 rx2"
          using readFrame_written [OF "1.prems"(1,2) tp sp, of r] by blast
        have rr: "snd (readFrame cr rx i) = rx\<lparr>d_nL := d_nL rx + 1, d_nD := d_nD rx + 1\<rparr>"
          if "readFrame cr rx i = (Inr x, y)" for i x y
          using that by (auto simp: readFrame_def Let_def split: sum.splits prod.splits if_splits)
        have "rx2 = rx'" using rr [OF b(2)] rr [OF a(3)] a(3) b(2) by simp
        then show ?thesis using a(1) b by simp
      qed
      with a that show ?thesis by blast
    qed
    let ?c = "c\<lparr>ac_tx := tx'\<rparr>"
    have m2: "matched (ac_tx ?c) rx'" "hook_ok ?c" using m "1.prems"(3) by (simp_all add: hook_ok_def)
    obtain w2 c2 ps rx2 where IH: "aead_write cr ?c (drop n p) = (w2, c2)" "wfailed w2 = None" "concat ps = drop n p"
      "\<forall>q \<in> set ps. q \<noteq> [] \<and> length q \<le> maxFramePayload"
      "read_frames cr (length ps) rx' (wbytes w2 @ r) = (Inr (ps, r), rx2)" "matched (ac_tx c2) rx2"
      "ac_hook c2 = ac_hook ?c"
      using "1.IH" [OF False n_def sf [symmetric] refl w(1) [symmetric] refl refl _ "1.prems"(1) m2] w(2) by blast
    have W: "aead_write cr c p = (wthen w w2, c2)"
      by (subst aead_write.simps) (simp add: False n_def [symmetric] sf w IH(1))
    have "read_frames cr (length (take n p # ps)) rx (wbytes (wthen w w2) @ r) = (Inr (take n p # ps, r), rx2)"
      using rd [of "wbytes w2 @ r"] IH(5) w(2) by (simp add: wr_simps)
    moreover have "take n p \<noteq> []" using n False by simp
    ultimately show ?thesis
      using W IH n w(2) by (intro exI [of _ "wthen w w2"] exI [of _ c2] exI [of _ "take n p # ps"] exI [of _ rx2])
        (simp add: wr_simps)
  qed
qed

text \<open>Reads with the given buffer sizes, until one fails; the bytes delivered.\<close>

fun aead_drain :: "crypto \<Rightarrow> aeadConn \<Rightarrow> nat list \<Rightarrow> bytes \<Rightarrow> bytes" where
  "aead_drain cr c [] inp = []"
| "aead_drain cr c (cap # caps) inp =
     (case aead_read cr c cap inp of
        (Inl e, c) \<Rightarrow> []
      | (Inr (b, inp), c) \<Rightarrow> b @ aead_drain cr c caps inp)"

text \<open>The frames \<open>ps\<close> wait in \<open>inp\<close>, behind what is left of the last one.\<close>

definition pending :: "crypto \<Rightarrow> aeadConn \<Rightarrow> bytes \<Rightarrow> bytes list \<Rightarrow> bool" where
  "pending cr c inp ps \<longleftrightarrow> (\<forall>q \<in> set ps. q \<noteq> []) \<and>
     (\<exists>rx. read_frames cr (length ps) (ac_rx c) inp = (Inr (ps, []), rx))"

lemma aead_read_pending:
  assumes "pending cr c inp ps" and "0 < cap" and "ac_rbuf c @ concat ps \<noteq> []"
  obtains b inp' c' ps' where "aead_read cr c cap inp = (Inr (b, inp'), c')" and "b \<noteq> []"
    and "pending cr c' inp' ps'" and "ac_rbuf c @ concat ps = b @ ac_rbuf c' @ concat ps'"
proof (cases "ac_rbuf c = []")
  case False
  then show ?thesis
    using assms by (intro that [of "take cap (ac_rbuf c)" inp "c\<lparr>ac_rbuf := drop cap (ac_rbuf c)\<rparr>" ps])
      (auto simp: aead_read_def pending_def)
next
  case True
  then obtain q qs where ps: "ps = q # qs" using assms(3) by (cases ps) auto
  obtain rx where r: "read_frames cr (length ps) (ac_rx c) inp = (Inr (ps, []), rx)"
    using assms(1) by (auto simp: pending_def)
  obtain inp' rx' where f: "readFrame cr (ac_rx c) inp = (Inr (q, inp'), rx')"
    and rs: "read_frames cr (length qs) rx' inp' = (Inr (qs, []), rx)"
    using r unfolding ps by (auto split: prod.splits sum.splits)
  let ?c = "c\<lparr>ac_rx := rx', ac_rbuf := (if cap < length q then drop cap q else ac_rbuf c)\<rparr>"
  have "q \<noteq> []" using assms(1) ps by (simp add: pending_def)
  then show ?thesis
    using True f rs ps assms by (intro that [of "take cap q" inp' ?c qs]) (auto simp: aead_read_def pending_def)
qed

lemma aead_drain_pending:
  assumes "pending cr c inp ps" and "\<forall>k \<in> set caps. 0 < k"
  shows "prefix (aead_drain cr c caps inp) (ac_rbuf c @ concat ps) \<and>
    (length (ac_rbuf c @ concat ps) \<le> length caps \<longrightarrow> aead_drain cr c caps inp = ac_rbuf c @ concat ps)"
  using assms
proof (induction caps arbitrary: c inp ps)
  case (Cons cap caps)
  show ?case
  proof (cases "ac_rbuf c @ concat ps = []")
    case True
    then have e: "ps = []" "ac_rbuf c = []" using Cons.prems(1) by (cases ps; auto simp: pending_def)+
    then have "inp = []" using Cons.prems(1) by (simp add: pending_def)
    then have "aead_read cr c cap inp = (Inl EOF, c)"
      by (simp add: aead_read_def e readFrame_def read_full_def aead_sizes)
    then show ?thesis using True by simp
  next
    case False
    have c0: "0 < cap" using Cons.prems(2) by simp
    obtain b inp' c' ps' where r: "aead_read cr c cap inp = (Inr (b, inp'), c')" "b \<noteq> []" "pending cr c' inp' ps'"
      "ac_rbuf c @ concat ps = b @ ac_rbuf c' @ concat ps'"
      using aead_read_pending [OF Cons.prems(1) c0 False] by blast
    have "1 \<le> length b" using r(2) by (cases b) auto
    then show ?thesis
      using Cons.IH [OF r(3)] Cons.prems(2) unfolding r(4) by (simp add: r(1))
  qed
qed simp

section \<open>Properties\<close>



text \<open>
  Both ends of the XOR wrapper stay in step: whatever is written, in any pieces and with any
  short writes in between, the reader unmasks exactly the bytes that went out, in whatever
  pieces they arrive.
\<close>

theorem xor_stream:
  assumes "xc_key d = xc_key c" and "xc_rPos d = xc_wPos c" and "xc_key c \<noteq> []"
    and "\<forall>(p, n) \<in> set ws. n \<le> length p"
    and "concat raws = fst (xc_send c ws)"
  shows "fst (xc_recv d raws) = concat (map (\<lambda>(p, n). take n p) ws)"
  using xc_recv_mask [of d raws] xc_send_mask [of c ws] assms by simp

theorem xor_stream_witness:
  "fst (xc_recv (WrapConn (\<lambda>_. [1, 2, 3]) ''t'') [[8 XOR 1], [9 XOR 2, 5 XOR 3]]) = [8, 9, 5]"
proof -
  let ?c = "WrapConn (\<lambda>_. [1, 2, 3]) ''t''"
  have "concat [[8 XOR 1], [9 XOR 2, 5 XOR 3]] = fst (xc_send ?c [([8, 9, 7], 2), ([5], 1)])" by code_simp
  then have "fst (xc_recv ?c [[8 XOR 1], [9 XOR 2, 5 XOR 3]]) = concat (map (\<lambda>(p, n). take n p) [([8, 9, 7], 2), ([5], 1)])"
    by (intro xor_stream) (simp_all add: WrapConn_def keyFromToken_def)
  then show ?thesis by simp
qed

end
