(* ===== verification/Protection.thy ===== *)
theory Protection
  imports Messages
begin

unbundle bit_operations_syntax

text \<open>
  The protection options of a profile, \<^verbatim>\<open>internal/config/config.go\<close>: the embedded DPI engine's
  options and their defaults, the anti-DPI presets, the top-up of a profile for its transport, what the
  probed server capabilities add, and the cluster defaults (\<^verbatim>\<open>mesh_defaults.go\<close>). A pointer that may
  be nil is an option; integers are those of 64 bits, whose one sum is written with \<open>wrap64\<close>.
\<close>

section \<open>The options\<close>

record DpiLocalEmbedded =
  de_SplitAfter :: int
  de_SplitAfter2 :: int
  de_TTLMillis :: int
  de_TTL2Millis :: int
  de_Disorder :: bool
  de_JitterMaxMs :: int
  de_LeadInMs :: int
  de_FakeSNI :: bool
  de_FakeSNIHost :: string
  de_SplitPosition :: string
  de_AutoTTL :: bool
  de_TCPSegment :: int
  de_OOBData :: bool
  de_MultiSplit :: int

definition de_zero :: DpiLocalEmbedded where
  "de_zero =
     \<lparr>de_SplitAfter = 0, de_SplitAfter2 = 0, de_TTLMillis = 0, de_TTL2Millis = 0, de_Disorder = False,
      de_JitterMaxMs = 0, de_LeadInMs = 0, de_FakeSNI = False, de_FakeSNIHost = [],
      de_SplitPosition = [], de_AutoTTL = False, de_TCPSegment = 0, de_OOBData = False,
      de_MultiSplit = 0\<rparr>"

record ProtectionOptions =
  po_Obfuscation :: string
  po_PreambleProfile :: string
  po_PreambleRotate :: bool
  po_ProbeObfsProfileID :: byte
  po_JunkCount :: int
  po_JunkMin :: int
  po_JunkMax :: int
  po_PadS1 :: int
  po_PadS2 :: int
  po_PadS3 :: int
  po_PadS4 :: int
  po_PreCheck :: bool
  po_MagicSplit :: string
  po_JunkStyle :: string
  po_FlushPolicy :: string
  po_ObfSeed :: string
  po_CapsVersion :: int
  po_TransportMask :: int
  po_FeatureBits :: int
  po_ClientNonce :: string
  po_ClientTsSec :: int
  po_RelayHop :: int
  po_RelayMaxHop :: int
  po_RelayBudgetKbps :: int
  po_PeerID :: string
  po_RelayNonce :: string
  po_RelaySig :: string
  po_ManagedClientID :: string
  po_ManagedDeviceID :: string
  po_ManagedNonce :: string
  po_ManagedTsSec :: int
  po_ManagedSig :: string
  po_SessionID :: string
  po_ResumeToken :: string
  po_RouteID :: string
  po_HopIndex :: int
  po_RelayRouteHops :: "string list"
  po_ChurnEpochSec :: int
  po_FlushJitterMaxMs :: int
  po_BurstSmoothingMaxMs :: int
  po_ShapeMaxKbps :: int
  po_ShapeJitterMaxMs :: int
  po_ShapeExpMeanMs :: int
  po_ShaperEnabled :: bool
  po_ShaperProfile :: string
  po_ShaperMaxOverheadPct :: int
  po_ShaperMaxDelayMs :: int
  po_ClusterHTTPKey :: string
  po_ClusterMapPath :: string
  po_ClusterSessionsPath :: string
  po_ClusterClientsPath :: string
  po_ClusterPreferredServer :: string
  po_ClusterInvitePath :: string
  po_ClusterPeerHandshakePath :: string
  po_ClusterRouteAssist :: bool
  po_ClusterAssistTargetNodeID :: string
  po_TlsProfileID :: string
  po_Ja3TargetHash :: string
  po_StandaloneDpiOnly :: bool
  po_DpiLocalEngine :: string
  po_DpiLocalEmbedded :: "DpiLocalEmbedded option"
  po_DpiVolunteer :: bool
  po_DpiVolterTransportObfuscate :: bool
  po_DpiProbeURLs :: "string list"
  po_AntiDpiWithVpn :: bool
  po_DpiLocalPreset :: string
  po_RouteMode :: string
  po_RoutePlannerV2 :: bool

definition po_zero :: ProtectionOptions where
  "po_zero =
     \<lparr>po_Obfuscation = [], po_PreambleProfile = [], po_PreambleRotate = False,
      po_ProbeObfsProfileID = 0, po_JunkCount = 0, po_JunkMin = 0, po_JunkMax = 0, po_PadS1 = 0,
      po_PadS2 = 0, po_PadS3 = 0, po_PadS4 = 0, po_PreCheck = False, po_MagicSplit = [],
      po_JunkStyle = [], po_FlushPolicy = [], po_ObfSeed = [], po_CapsVersion = 0, po_TransportMask = 0,
      po_FeatureBits = 0, po_ClientNonce = [], po_ClientTsSec = 0, po_RelayHop = 0, po_RelayMaxHop = 0,
      po_RelayBudgetKbps = 0, po_PeerID = [], po_RelayNonce = [], po_RelaySig = [],
      po_ManagedClientID = [], po_ManagedDeviceID = [], po_ManagedNonce = [], po_ManagedTsSec = 0,
      po_ManagedSig = [], po_SessionID = [], po_ResumeToken = [], po_RouteID = [], po_HopIndex = 0,
      po_RelayRouteHops = [], po_ChurnEpochSec = 0, po_FlushJitterMaxMs = 0, po_BurstSmoothingMaxMs = 0,
      po_ShapeMaxKbps = 0, po_ShapeJitterMaxMs = 0, po_ShapeExpMeanMs = 0, po_ShaperEnabled = False,
      po_ShaperProfile = [], po_ShaperMaxOverheadPct = 0, po_ShaperMaxDelayMs = 0,
      po_ClusterHTTPKey = [], po_ClusterMapPath = [], po_ClusterSessionsPath = [],
      po_ClusterClientsPath = [], po_ClusterPreferredServer = [], po_ClusterInvitePath = [],
      po_ClusterPeerHandshakePath = [], po_ClusterRouteAssist = False,
      po_ClusterAssistTargetNodeID = [], po_TlsProfileID = [], po_Ja3TargetHash = [],
      po_StandaloneDpiOnly = False, po_DpiLocalEngine = [], po_DpiLocalEmbedded = None,
      po_DpiVolunteer = False, po_DpiVolterTransportObfuscate = False, po_DpiProbeURLs = [],
      po_AntiDpiWithVpn = False, po_DpiLocalPreset = [], po_RouteMode = [], po_RoutePlannerV2 = False\<rparr>"

record ManagedClient =
  mc_ClusterID :: string
  mc_UserID :: string
  mc_ClientID :: string
  mc_Secret :: string
  mc_Salt :: string
  mc_DeviceMode :: string
  mc_DeviceLimit :: int
  mc_ControlURL :: string
  mc_Created :: int
  mc_Expires :: int

definition mc_zero :: ManagedClient where
  "mc_zero =
     \<lparr>mc_ClusterID = [], mc_UserID = [], mc_ClientID = [], mc_Secret = [], mc_Salt = [],
      mc_DeviceMode = [], mc_DeviceLimit = 0, mc_ControlURL = [], mc_Created = 0, mc_Expires = 0\<rparr>"

section \<open>The embedded DPI engine\<close>

definition DpiLocalEngineIsExternal :: "ProtectionOptions option \<Rightarrow> bool" where
  "DpiLocalEngineIsExternal p =
     (case p of None \<Rightarrow> False | Some p \<Rightarrow> equal_fold (trim_space (po_DpiLocalEngine p)) ''external'')"

definition DpiLocalEngineIsEmbedded :: "ProtectionOptions option \<Rightarrow> bool" where
  "DpiLocalEngineIsEmbedded p =
     (case p of None \<Rightarrow> False | Some p \<Rightarrow> equal_fold (trim_space (po_DpiLocalEngine p)) ''embedded'')"

text \<open>The argument is \<^verbatim>\<open>cfg.Protection\<close>.\<close>

definition StandaloneDpiUseExternalBin :: "ProtectionOptions option \<Rightarrow> bool" where
  "StandaloneDpiUseExternalBin prot =
     (case prot of
        None \<Rightarrow> False
      | Some p \<Rightarrow>
          if DpiLocalEngineIsExternal (Some p) then True
          else if DpiLocalEngineIsEmbedded (Some p) then False
          else trim_space (po_DpiLocalPreset p) \<noteq> [])"

text \<open>\<open>pos_or v d\<close> keeps a positive setting; \<open>text_or v d\<close> one that is not blank.\<close>

definition pos_or :: "int \<Rightarrow> int \<Rightarrow> int" where
  "pos_or v d = (if v > 0 then v else d)"

definition text_or :: "string \<Rightarrow> string \<Rightarrow> string" where
  "text_or v d = (if trim_space v \<noteq> [] then v else d)"

definition embedded_overlay :: "DpiLocalEmbedded \<Rightarrow> DpiLocalEmbedded \<Rightarrow> DpiLocalEmbedded" where
  "embedded_overlay e out = out
     \<lparr>de_SplitAfter := pos_or (de_SplitAfter e) (de_SplitAfter out),
      de_SplitAfter2 := pos_or (de_SplitAfter2 e) (de_SplitAfter2 out),
      de_TTLMillis := pos_or (de_TTLMillis e) (de_TTLMillis out),
      de_TTL2Millis := pos_or (de_TTL2Millis e) (de_TTL2Millis out),
      de_Disorder := de_Disorder e,
      de_JitterMaxMs := pos_or (de_JitterMaxMs e) (de_JitterMaxMs out),
      de_LeadInMs := pos_or (de_LeadInMs e) (de_LeadInMs out),
      de_FakeSNI := de_FakeSNI e,
      de_FakeSNIHost := de_FakeSNIHost e,
      de_SplitPosition := de_SplitPosition e,
      de_AutoTTL := de_AutoTTL e,
      de_TCPSegment := pos_or (de_TCPSegment e) (de_TCPSegment out),
      de_OOBData := de_OOBData e,
      de_MultiSplit := pos_or (de_MultiSplit e) (de_MultiSplit out)\<rparr>"

definition at_most :: "int \<Rightarrow> int \<Rightarrow> int" where
  "at_most m v = (if v > m then m else v)"

definition embedded_clamp :: "DpiLocalEmbedded \<Rightarrow> DpiLocalEmbedded" where
  "embedded_clamp out =
     (let out = out\<lparr>de_SplitAfter := at_most 65536 (de_SplitAfter out)\<rparr>;
          out = out\<lparr>de_SplitAfter2 := at_most 65536 (de_SplitAfter2 out)\<rparr>;
          out = (if de_SplitAfter2 out > 0 \<and> de_SplitAfter2 out \<le> de_SplitAfter out
                 then out\<lparr>de_SplitAfter2 := 0\<rparr> else out);
          out = out\<lparr>de_TTLMillis := at_most 60000 (de_TTLMillis out)\<rparr>;
          out = out\<lparr>de_TTL2Millis := at_most 60000 (de_TTL2Millis out)\<rparr>;
          out = out\<lparr>de_JitterMaxMs := at_most 5000 (de_JitterMaxMs out)\<rparr>;
          out = out\<lparr>de_LeadInMs := at_most 60000 (de_LeadInMs out)\<rparr>;
          out = out\<lparr>de_TCPSegment := at_most 65536 (de_TCPSegment out)\<rparr>
      in out\<lparr>de_MultiSplit := at_most 10 (de_MultiSplit out)\<rparr>)"

definition MergeDpiLocalEmbeddedDefaults :: "DpiLocalEmbedded option \<Rightarrow> DpiLocalEmbedded" where
  "MergeDpiLocalEmbeddedDefaults e =
     (let out = de_zero\<lparr>de_SplitAfter := 1, de_TTLMillis := 8\<rparr>;
          out = (case e of None \<Rightarrow> out | Some e \<Rightarrow> embedded_overlay e out)
      in embedded_clamp out)"

section \<open>Presets\<close>

definition preset_light :: ProtectionOptions where
  "preset_light = po_zero
     \<lparr>po_Obfuscation := ''enhanced'', po_JunkCount := 3, po_JunkMin := 128, po_JunkMax := 512,
      po_JunkStyle := ''tls'', po_FlushPolicy := ''perChunk'', po_PadS4 := 32,
      po_DpiLocalEngine := ''embedded'',
      po_DpiLocalEmbedded := Some (de_zero\<lparr>de_SplitAfter := 2, de_TTLMillis := 8, de_JitterMaxMs := 5\<rparr>)\<rparr>"

definition preset_moderate :: "bool \<Rightarrow> ProtectionOptions" where
  "preset_moderate tcpish =
     (let p = po_zero
        \<lparr>po_Obfuscation := ''enhanced'', po_JunkCount := 6, po_JunkMin := 224, po_JunkMax := 896,
         po_JunkStyle := ''tls'', po_FlushPolicy := ''perChunk'', po_PadS4 := 48, po_FlushJitterMaxMs := 18,
         po_PreambleRotate := True, po_ShaperEnabled := True, po_ShaperProfile := ''web'',
         po_DpiLocalEngine := ''embedded'',
         po_DpiLocalEmbedded := Some (de_zero\<lparr>de_SplitAfter := 4, de_TTLMillis := 11, de_JitterMaxMs := 8,
           de_SplitPosition := ''sni''\<rparr>)\<rparr>
      in if tcpish then p\<lparr>po_DpiVolterTransportObfuscate := True\<rparr> else p)"

definition preset_aggressive :: "bool \<Rightarrow> ProtectionOptions" where
  "preset_aggressive tcpish =
     (let p = po_zero
        \<lparr>po_Obfuscation := ''enhanced'', po_JunkCount := 12, po_JunkMin := 384, po_JunkMax := 1536,
         po_JunkStyle := ''tls'', po_FlushPolicy := ''perChunk'',
         po_PadS1 := 64, po_PadS2 := 96, po_PadS3 := 128, po_PadS4 := 96,
         po_FlushJitterMaxMs := 35, po_BurstSmoothingMaxMs := 50,
         po_PreambleRotate := True, po_ShaperEnabled := True, po_ShaperProfile := ''web'',
         po_ShaperMaxOverheadPct := 80, po_ShaperMaxDelayMs := 40,
         po_DpiLocalEngine := ''embedded'',
         po_DpiLocalEmbedded := Some (de_zero\<lparr>de_SplitAfter := 3, de_SplitAfter2 := 7, de_TTLMillis := 6,
           de_TTL2Millis := 15, de_Disorder := True, de_JitterMaxMs := 15, de_LeadInMs := 8,
           de_FakeSNI := True, de_FakeSNIHost := ''www.google.com'', de_SplitPosition := ''random'',
           de_MultiSplit := 2, de_TCPSegment := 1280\<rparr>)\<rparr>
      in if tcpish then p\<lparr>po_DpiVolterTransportObfuscate := True, po_MagicSplit := ''sni''\<rparr> else p)"

definition preset_paranoid :: "bool \<Rightarrow> ProtectionOptions" where
  "preset_paranoid tcpish =
     (let p = po_zero
        \<lparr>po_Obfuscation := ''enhanced'', po_JunkCount := 20, po_JunkMin := 512, po_JunkMax := 2048,
         po_JunkStyle := ''tls'', po_FlushPolicy := ''perChunk'',
         po_PadS1 := 128, po_PadS2 := 192, po_PadS3 := 256, po_PadS4 := 192,
         po_FlushJitterMaxMs := 50, po_BurstSmoothingMaxMs := 100, po_ShapeJitterMaxMs := 80,
         po_PreambleRotate := True, po_ShaperEnabled := True, po_ShaperProfile := ''video'',
         po_ShaperMaxOverheadPct := 120, po_ShaperMaxDelayMs := 60,
         po_DpiLocalEngine := ''embedded'',
         po_DpiLocalEmbedded := Some (de_zero\<lparr>de_SplitAfter := 2, de_SplitAfter2 := 5, de_TTLMillis := 4,
           de_TTL2Millis := 20, de_Disorder := True, de_JitterMaxMs := 25, de_LeadInMs := 15,
           de_FakeSNI := True, de_FakeSNIHost := ''cloudflare.com'', de_SplitPosition := ''random'',
           de_AutoTTL := True, de_MultiSplit := 4, de_TCPSegment := 960, de_OOBData := True\<rparr>)\<rparr>
      in if tcpish then p\<lparr>po_DpiVolterTransportObfuscate := True, po_MagicSplit := ''host''\<rparr> else p)"

definition tcp_transport :: "string \<Rightarrow> bool" where
  "tcp_transport transport = equal_fold (trim_space transport) ''tcp''"

definition ApplyAntiDpiPreset :: "string \<Rightarrow> string \<Rightarrow> ProtectionOptions" where
  "ApplyAntiDpiPreset preset transport =
     (let tcpish = tcp_transport transport in
      if preset = ''none'' then po_zero
      else if preset = ''light'' then preset_light
      else if preset = ''moderate'' then preset_moderate tcpish
      else if preset = ''aggressive'' then preset_aggressive tcpish
      else if preset = ''paranoid'' then preset_paranoid tcpish
      else preset_moderate tcpish)"

section \<open>Merging\<close>

definition embedded_merge :: "DpiLocalEmbedded \<Rightarrow> DpiLocalEmbedded \<Rightarrow> DpiLocalEmbedded" where
  "embedded_merge b e = b
     \<lparr>de_SplitAfter := pos_or (de_SplitAfter e) (de_SplitAfter b),
      de_SplitAfter2 := pos_or (de_SplitAfter2 e) (de_SplitAfter2 b),
      de_TTLMillis := pos_or (de_TTLMillis e) (de_TTLMillis b),
      de_TTL2Millis := pos_or (de_TTL2Millis e) (de_TTL2Millis b),
      de_JitterMaxMs := pos_or (de_JitterMaxMs e) (de_JitterMaxMs b),
      de_MultiSplit := pos_or (de_MultiSplit e) (de_MultiSplit b),
      de_TCPSegment := pos_or (de_TCPSegment e) (de_TCPSegment b),
      de_SplitPosition := text_or (de_SplitPosition e) (de_SplitPosition b),
      de_FakeSNIHost := text_or (de_FakeSNIHost e) (de_FakeSNIHost b),
      de_FakeSNI := (de_FakeSNI b \<or> de_FakeSNI e),
      de_AutoTTL := (de_AutoTTL b \<or> de_AutoTTL e),
      de_OOBData := (de_OOBData b \<or> de_OOBData e),
      de_Disorder := (de_Disorder b \<or> de_Disorder e)\<rparr>"

definition mergeProtectionOptions :: "ProtectionOptions \<Rightarrow> ProtectionOptions option \<Rightarrow> ProtectionOptions" where
  "mergeProtectionOptions b override =
     (case override of
        None \<Rightarrow> b
      | Some ov \<Rightarrow>
        let b = b
          \<lparr>po_JunkCount := pos_or (po_JunkCount ov) (po_JunkCount b),
           po_JunkMin := pos_or (po_JunkMin ov) (po_JunkMin b),
           po_JunkMax := pos_or (po_JunkMax ov) (po_JunkMax b),
           po_PadS1 := pos_or (po_PadS1 ov) (po_PadS1 b),
           po_PadS2 := pos_or (po_PadS2 ov) (po_PadS2 b),
           po_PadS3 := pos_or (po_PadS3 ov) (po_PadS3 b),
           po_PadS4 := pos_or (po_PadS4 ov) (po_PadS4 b),
           po_FlushJitterMaxMs := pos_or (po_FlushJitterMaxMs ov) (po_FlushJitterMaxMs b),
           po_BurstSmoothingMaxMs := pos_or (po_BurstSmoothingMaxMs ov) (po_BurstSmoothingMaxMs b),
           po_Obfuscation := text_or (po_Obfuscation ov) (po_Obfuscation b),
           po_JunkStyle := text_or (po_JunkStyle ov) (po_JunkStyle b),
           po_FlushPolicy := text_or (po_FlushPolicy ov) (po_FlushPolicy b),
           po_MagicSplit := text_or (po_MagicSplit ov) (po_MagicSplit b)\<rparr>
        in case po_DpiLocalEmbedded ov of
             None \<Rightarrow> b
           | Some e \<Rightarrow> b\<lparr>po_DpiLocalEmbedded :=
               Some (embedded_merge (case po_DpiLocalEmbedded b of None \<Rightarrow> de_zero | Some d \<Rightarrow> d) e)\<rparr>)"

text \<open>
  The top-up; \<open>env\<close> is the environment, empty for a variable that is not set. When the profile's
  embedded options are filled in, the code writes through the shared pointer: the caller's copy of
  them gets the same values.
\<close>

definition blank_or :: "string \<Rightarrow> string \<Rightarrow> string" where
  "blank_or v d = (if trim_space v = [] then d else v)"

definition nonpos_or :: "int \<Rightarrow> int \<Rightarrow> int" where
  "nonpos_or v d = (if v \<le> 0 then d else v)"

definition topup_junk :: "ProtectionOptions \<Rightarrow> ProtectionOptions" where
  "topup_junk b =
     (let b = b\<lparr>po_Obfuscation := blank_or (po_Obfuscation b) ''enhanced'',
                po_JunkCount := nonpos_or (po_JunkCount b) 6,
                po_JunkMin := nonpos_or (po_JunkMin b) 224,
                po_JunkMax := nonpos_or (po_JunkMax b) 896\<rparr>;
          b = (if po_JunkMax b < po_JunkMin b then b\<lparr>po_JunkMax := wrap64 (po_JunkMin b + 384)\<rparr> else b)
      in b\<lparr>po_PadS4 := nonpos_or (po_PadS4 b) 48,
           po_JunkStyle := blank_or (po_JunkStyle b) ''tls'',
           po_FlushPolicy := blank_or (po_FlushPolicy b) ''once''\<rparr>)"

definition fill_engine :: "DpiLocalEmbedded option \<Rightarrow> DpiLocalEmbedded" where
  "fill_engine d =
     (case d of
        None \<Rightarrow> de_zero\<lparr>de_SplitAfter := 4, de_TTLMillis := 11, de_JitterMaxMs := 8\<rparr>
      | Some e \<Rightarrow> e\<lparr>de_SplitAfter := nonpos_or (de_SplitAfter e) 4,
                   de_TTLMillis := nonpos_or (de_TTLMillis e) 11,
                   de_JitterMaxMs := nonpos_or (de_JitterMaxMs e) 8\<rparr>)"

definition topup_engine :: "ProtectionOptions \<Rightarrow> ProtectionOptions" where
  "topup_engine b =
     (if \<not> DpiLocalEngineIsExternal (Some b) \<and> trim_space (po_DpiLocalPreset b) = [] then
        b\<lparr>po_DpiLocalEmbedded := Some (fill_engine (po_DpiLocalEmbedded b)),
          po_DpiLocalEngine := blank_or (po_DpiLocalEngine b) ''embedded''\<rparr>
      else b)"

definition MergeAntiDpiTransportTopUpInPlace ::
  "(string \<Rightarrow> string) \<Rightarrow> ProtectionOptions option \<Rightarrow> string \<Rightarrow> ProtectionOptions option" where
  "MergeAntiDpiTransportTopUpInPlace env prot transport =
     (if env ''VOLTER_NO_ANTIDPI_ENRICH'' = ''1'' then prot
      else if env ''VOLTER_ANTIDPI_PRESET'' \<noteq> [] then
        let base = ApplyAntiDpiPreset (to_lower (env ''VOLTER_ANTIDPI_PRESET'')) transport
        in Some (mergeProtectionOptions base prot)
      else
        let base = (case prot of None \<Rightarrow> po_zero | Some p \<Rightarrow> p) in
        if po_StandaloneDpiOnly base then Some base
        else
          let base = topup_junk base;
              base = (if tcp_transport transport then
                        let b = base\<lparr>po_DpiVolterTransportObfuscate := True\<rparr> in
                        if \<not> po_PreambleRotate b \<and> trim_space (po_PreambleProfile b) = []
                        then b\<lparr>po_PreambleRotate := True\<rparr> else b
                      else base)
          in Some (topup_engine base))"

section \<open>Probed capabilities\<close>

definition FeaturePolyHandshake :: u16 where "FeaturePolyHandshake = 2"
definition FeatureRelayServer :: u16 where "FeatureRelayServer = 4"

definition MergeProbeObfsIntoProtection ::
  "ProtectionOptions option \<Rightarrow> ServerHelloCaps option \<Rightarrow> ProtectionOptions" where
  "MergeProbeObfsIntoProtection p caps =
     (let base = (case p of None \<Rightarrow> po_zero | Some p \<Rightarrow> p) in
      case caps of
        None \<Rightarrow> base
      | Some c \<Rightarrow>
        let base = base\<lparr>po_ProbeObfsProfileID := hc_ObfsProfileID c,
                        po_TransportMask := uint (hc_TransportMask c),
                        po_FeatureBits := uint (hc_FeatureBits c)\<rparr>;
            poly = (hc_FeatureBits c AND FeaturePolyHandshake \<noteq> 0);
            base = (if poly \<and> hc_ObfsProfileID c > 0 \<and> trim_space (to_lower (po_PreambleProfile base)) = []
                    then base\<lparr>po_PreambleProfile := ''rotate'', po_PreambleRotate := True\<rparr> else base)
        in if hc_FeatureBits c AND FeatureRelayServer \<noteq> 0 \<and> po_RelayMaxHop base = 0 then
             let base = base\<lparr>po_RelayHop := 1,
                   po_RelayMaxHop := (if hc_PathTTL c > 0 then uint (hc_PathTTL c) else 2)\<rparr>
             in if hc_RelayFlags c \<noteq> 0 \<and> po_RelayBudgetKbps base = 0
                then base\<lparr>po_RelayBudgetKbps := 2048\<rparr> else base
           else base)"

section \<open>Cluster defaults\<close>

definition ApplyClusterProtectionDefaults :: "ProtectionOptions \<Rightarrow> ProtectionOptions" where
  "ApplyClusterProtectionDefaults p =
     (let p = p\<lparr>po_ClusterMapPath := blank_or (po_ClusterMapPath p) ''/volter/cluster-map.json'',
                po_ClusterSessionsPath := blank_or (po_ClusterSessionsPath p) ''/volter/cluster-sessions.json'',
                po_ClusterClientsPath := blank_or (po_ClusterClientsPath p) ''/volter/cluster-clients.json'',
                po_ClusterInvitePath := blank_or (po_ClusterInvitePath p) ''/volter/cluster-invite'',
                po_ClusterPeerHandshakePath :=
                  blank_or (po_ClusterPeerHandshakePath p) ''/volter/cluster-peer-handshake''\<rparr>;
          mode = to_lower (trim_space (po_RouteMode p))
      in if mode = ''server_relay'' \<or> mode = ''peer_relay'' then
           (if \<not> po_RoutePlannerV2 p then p\<lparr>po_RoutePlannerV2 := True\<rparr> else p)
         else p)"

section \<open>Lemmas\<close>

lemmas setting_defs = pos_or_def text_or_def blank_or_def nonpos_or_def at_most_def

lemma nonpos_or_pos: "0 < d \<Longrightarrow> 0 < nonpos_or v d"
  by (simp add: nonpos_or_def)

lemma settings_idem [simp]:
  "nonpos_or (nonpos_or v d) d = nonpos_or v d" "blank_or (blank_or s t) t = blank_or s t"
  by (simp_all add: nonpos_or_def blank_or_def)

lemma pos_or_ge: "l \<le> d \<Longrightarrow> l \<le> 1 \<Longrightarrow> l \<le> pos_or v d"
  by (simp add: pos_or_def)

lemma at_most_bounds: "at_most m v \<le> m" "l \<le> m \<Longrightarrow> l \<le> v \<Longrightarrow> l \<le> at_most m v"
  by (simp_all add: at_most_def)

lemma clamp_fields:
  "de_SplitAfter (embedded_clamp d) = at_most 65536 (de_SplitAfter d)"
  "de_SplitAfter2 (embedded_clamp d) =
     (let a = at_most 65536 (de_SplitAfter2 d) in if a > 0 \<and> a \<le> at_most 65536 (de_SplitAfter d) then 0 else a)"
  "de_TTLMillis (embedded_clamp d) = at_most 60000 (de_TTLMillis d)"
  "de_TTL2Millis (embedded_clamp d) = at_most 60000 (de_TTL2Millis d)"
  "de_JitterMaxMs (embedded_clamp d) = at_most 5000 (de_JitterMaxMs d)"
  "de_LeadInMs (embedded_clamp d) = at_most 60000 (de_LeadInMs d)"
  "de_TCPSegment (embedded_clamp d) = at_most 65536 (de_TCPSegment d)"
  "de_MultiSplit (embedded_clamp d) = at_most 10 (de_MultiSplit d)"
  by (simp_all add: embedded_clamp_def Let_def)

lemma defaults_fields:
  fixes e defines "m \<equiv> case e of None \<Rightarrow> de_zero\<lparr>de_SplitAfter := 1, de_TTLMillis := 8\<rparr>
    | Some e \<Rightarrow> embedded_overlay e (de_zero\<lparr>de_SplitAfter := 1, de_TTLMillis := 8\<rparr>)"
  shows "1 \<le> de_SplitAfter m" "0 \<le> de_SplitAfter2 m" "1 \<le> de_TTLMillis m" "0 \<le> de_TTL2Millis m"
    "0 \<le> de_JitterMaxMs m" "0 \<le> de_LeadInMs m" "0 \<le> de_TCPSegment m" "0 \<le> de_MultiSplit m"
  unfolding m_def by (cases e; simp add: embedded_overlay_def de_zero_def pos_or_ge)+

text \<open>
  Whatever a profile says about the embedded DPI engine, the effective options are within the engine's
  bounds: a first split between 1 and 65536, a second one only behind the first, delays of at most a minute,
  at most ten splits.
\<close>

theorem dpi_defaults_bounds:
  "let m = MergeDpiLocalEmbeddedDefaults e in
    1 \<le> de_SplitAfter m \<and> de_SplitAfter m \<le> 65536 \<and>
    (de_SplitAfter2 m = 0 \<or> de_SplitAfter m < de_SplitAfter2 m \<and> de_SplitAfter2 m \<le> 65536) \<and>
    1 \<le> de_TTLMillis m \<and> de_TTLMillis m \<le> 60000 \<and> 0 \<le> de_TTL2Millis m \<and> de_TTL2Millis m \<le> 60000 \<and>
    0 \<le> de_JitterMaxMs m \<and> de_JitterMaxMs m \<le> 5000 \<and> 0 \<le> de_LeadInMs m \<and> de_LeadInMs m \<le> 60000 \<and>
    0 \<le> de_TCPSegment m \<and> de_TCPSegment m \<le> 65536 \<and> 0 \<le> de_MultiSplit m \<and> de_MultiSplit m \<le> 10"
proof -
  obtain d where d: "MergeDpiLocalEmbeddedDefaults e = embedded_clamp d" "1 \<le> de_SplitAfter d" "0 \<le> de_SplitAfter2 d" "1 \<le> de_TTLMillis d"
      "0 \<le> de_TTL2Millis d" "0 \<le> de_JitterMaxMs d" "0 \<le> de_LeadInMs d" "0 \<le> de_TCPSegment d" "0 \<le> de_MultiSplit d"
    using defaults_fields [of e] unfolding MergeDpiLocalEmbeddedDefaults_def Let_def by metis
  have "de_SplitAfter2 (embedded_clamp d) = 0 \<or>
      de_SplitAfter (embedded_clamp d) < de_SplitAfter2 (embedded_clamp d) \<and> de_SplitAfter2 (embedded_clamp d) \<le> 65536"
    unfolding clamp_fields Let_def using d(3) at_most_bounds(1) [of 65536 "de_SplitAfter2 d"]
    by (simp add: at_most_bounds not_le less_le)
  then show ?thesis
    unfolding d(1) Let_def using d(2-) by (intro conjI) (simp_all add: clamp_fields(1,3-) at_most_bounds)
qed

lemma topup_junk_fields:
  assumes "po_JunkMin b < 2 ^ 63 - 384"
  shows "0 < po_JunkCount (topup_junk b)" "0 < po_JunkMin (topup_junk b)"
    "po_JunkMin (topup_junk b) \<le> po_JunkMax (topup_junk b)" "0 < po_PadS4 (topup_junk b)"
proof -
  have w: "wrap64 (nonpos_or (po_JunkMin b) 224 + 384) = nonpos_or (po_JunkMin b) 224 + 384"
    using assms by (intro wrap64_id) (simp_all add: nonpos_or_def)
  show "0 < po_JunkCount (topup_junk b)" "0 < po_JunkMin (topup_junk b)"
    "po_JunkMin (topup_junk b) \<le> po_JunkMax (topup_junk b)" "0 < po_PadS4 (topup_junk b)"
    by (simp_all add: topup_junk_def Let_def w nonpos_or_pos)
qed

lemma topup_junk_id:
  assumes "trim_space (po_Obfuscation b) \<noteq> []" "0 < po_JunkCount b" "0 < po_JunkMin b" "po_JunkMin b \<le> po_JunkMax b"
    "0 < po_PadS4 b" "trim_space (po_JunkStyle b) \<noteq> []" "trim_space (po_FlushPolicy b) \<noteq> []"
  shows "topup_junk b = b"
  using assms by (simp add: topup_junk_def Let_def nonpos_or_def blank_or_def)

lemma blank_or_text: "trim_space d \<noteq> [] \<Longrightarrow> trim_space (blank_or v d) \<noteq> []"
  by (simp add: blank_or_def)

lemma preset_texts:
  "trim_space ''enhanced'' \<noteq> []" "trim_space ''tls'' \<noteq> []" "trim_space ''once'' \<noteq> []" "trim_space ''embedded'' \<noteq> []"
  "\<not> equal_fold (trim_space ''embedded'') ''external''"
  by code_simp+

lemma topup_junk_texts:
  "trim_space (po_Obfuscation (topup_junk b)) \<noteq> []" "trim_space (po_JunkStyle (topup_junk b)) \<noteq> []"
  "trim_space (po_FlushPolicy (topup_junk b)) \<noteq> []"
  by (simp_all add: topup_junk_def Let_def blank_or_text preset_texts)

lemma topup_engine_keeps:
  "po_Obfuscation (topup_engine b) = po_Obfuscation b" "po_JunkCount (topup_engine b) = po_JunkCount b"
  "po_JunkMin (topup_engine b) = po_JunkMin b" "po_JunkMax (topup_engine b) = po_JunkMax b"
  "po_PadS4 (topup_engine b) = po_PadS4 b" "po_JunkStyle (topup_engine b) = po_JunkStyle b"
  "po_FlushPolicy (topup_engine b) = po_FlushPolicy b" "po_PreambleRotate (topup_engine b) = po_PreambleRotate b"
  "po_PreambleProfile (topup_engine b) = po_PreambleProfile b"
  "po_DpiVolterTransportObfuscate (topup_engine b) = po_DpiVolterTransportObfuscate b"
  "po_StandaloneDpiOnly (topup_engine b) = po_StandaloneDpiOnly b"
  by (simp_all add: topup_engine_def Let_def)

lemma fill_engine_idem: "fill_engine (Some (fill_engine d)) = fill_engine d"
  by (simp add: fill_engine_def nonpos_or_def split: option.split)

lemma topup_engine_idem: "topup_engine (topup_engine b) = topup_engine b"
proof (cases "\<not> DpiLocalEngineIsExternal (Some b) \<and> trim_space (po_DpiLocalPreset b) = []")
  case False
  have "topup_engine b = b" by (simp only: topup_engine_def False if_False)
  then show ?thesis by simp
next
  case True
  have b: "topup_engine b = b\<lparr>po_DpiLocalEmbedded := Some (fill_engine (po_DpiLocalEmbedded b)),
      po_DpiLocalEngine := blank_or (po_DpiLocalEngine b) ''embedded''\<rparr>"
    by (simp only: topup_engine_def True if_True simp_thms)
  have x: "\<not> DpiLocalEngineIsExternal (Some (topup_engine b)) \<and> trim_space (po_DpiLocalPreset (topup_engine b)) = []"
    using True preset_texts(5) unfolding b by (simp add: DpiLocalEngineIsExternal_def blank_or_def)
  have "topup_engine (topup_engine b) =
      (topup_engine b)\<lparr>po_DpiLocalEmbedded := Some (fill_engine (po_DpiLocalEmbedded (topup_engine b))),
        po_DpiLocalEngine := blank_or (po_DpiLocalEngine (topup_engine b)) ''embedded''\<rparr>"
    by (simp only: topup_engine_def [of "topup_engine b"] x if_True simp_thms)
  then show ?thesis by (simp add: b fill_engine_idem)
qed

definition tcp_topup :: "string \<Rightarrow> ProtectionOptions \<Rightarrow> ProtectionOptions" where
  "tcp_topup transport base =
     (if tcp_transport transport then
        let b = base\<lparr>po_DpiVolterTransportObfuscate := True\<rparr> in
        if \<not> po_PreambleRotate b \<and> trim_space (po_PreambleProfile b) = []
        then b\<lparr>po_PreambleRotate := True\<rparr> else b
      else base)"

lemma tcp_topup_keeps:
  "po_Obfuscation (tcp_topup t b) = po_Obfuscation b" "po_JunkCount (tcp_topup t b) = po_JunkCount b"
  "po_JunkMin (tcp_topup t b) = po_JunkMin b" "po_JunkMax (tcp_topup t b) = po_JunkMax b"
  "po_PadS4 (tcp_topup t b) = po_PadS4 b" "po_JunkStyle (tcp_topup t b) = po_JunkStyle b"
  "po_FlushPolicy (tcp_topup t b) = po_FlushPolicy b" "po_StandaloneDpiOnly (tcp_topup t b) = po_StandaloneDpiOnly b"
  "tcp_transport t \<Longrightarrow> po_DpiVolterTransportObfuscate (tcp_topup t b)"
  "tcp_transport t \<Longrightarrow> po_PreambleRotate (tcp_topup t b) \<or> trim_space (po_PreambleProfile (tcp_topup t b)) \<noteq> []"
  by (simp_all add: tcp_topup_def Let_def)

lemma tcp_topup_id:
  "tcp_transport t \<longrightarrow> po_DpiVolterTransportObfuscate b \<and> (po_PreambleRotate b \<or> trim_space (po_PreambleProfile b) \<noteq> []) \<Longrightarrow>
   tcp_topup t b = b"
  by (auto simp: tcp_topup_def Let_def)

lemma topup_eq:
  assumes "env ''VOLTER_NO_ANTIDPI_ENRICH'' \<noteq> ''1''" and "env ''VOLTER_ANTIDPI_PRESET'' = []" and "\<not> po_StandaloneDpiOnly p"
  shows "MergeAntiDpiTransportTopUpInPlace env (Some p) transport = Some (topup_engine (tcp_topup transport (topup_junk p)))"
  using assms by (simp only: MergeAntiDpiTransportTopUpInPlace_def tcp_topup_def Let_def if_False if_True option.case simp_thms)

text \<open>
  The anti-DPI top-up leaves a usable junk range (\<open>0 < JunkMin \<le> JunkMax\<close>), a junk count and a pad, turns
  transport obfuscation on for TCP, and topping a topped-up profile up again changes nothing.
\<close>

theorem topup_sound:
  assumes "env ''VOLTER_NO_ANTIDPI_ENRICH'' \<noteq> ''1''" and "env ''VOLTER_ANTIDPI_PRESET'' = []"
    and "\<not> po_StandaloneDpiOnly p" and "po_JunkMin p < 2 ^ 63 - 384"
  shows "\<exists>q. MergeAntiDpiTransportTopUpInPlace env (Some p) transport = Some q \<and>
    0 < po_JunkCount q \<and> 0 < po_JunkMin q \<and> po_JunkMin q \<le> po_JunkMax q \<and> 0 < po_PadS4 q \<and>
    (tcp_transport transport \<longrightarrow> po_DpiVolterTransportObfuscate q) \<and>
    MergeAntiDpiTransportTopUpInPlace env (Some q) transport = Some q"
proof -
  let ?j = "topup_junk p"
  let ?t = "tcp_topup transport ?j"
  let ?q = "topup_engine ?t"
  have st: "\<not> po_StandaloneDpiOnly ?q" using assms(3) by (simp add: topup_engine_keeps tcp_topup_keeps topup_junk_def Let_def)
  note J = topup_junk_fields [OF assms(4)] topup_junk_texts [of p]
  have j: "topup_junk ?q = ?q" by (rule topup_junk_id) (use J in \<open>simp_all add: topup_engine_keeps tcp_topup_keeps\<close>)
  have t: "tcp_topup transport ?q = ?q"
    by (rule tcp_topup_id) (use tcp_topup_keeps(9,10) [of transport ?j] in \<open>simp add: topup_engine_keeps\<close>)
  have "MergeAntiDpiTransportTopUpInPlace env (Some ?q) transport = Some ?q"
    unfolding topup_eq [of env, OF assms(1,2) st] j t topup_engine_idem ..
  then show ?thesis
    using J tcp_topup_keeps(9) [of transport ?j] unfolding topup_eq [of env, OF assms(1-3)]
    by (intro exI [of _ ?q]) (simp add: topup_engine_keeps tcp_topup_keeps(1-8))
qed

theorem topup_sound_witness:
  "\<exists>q. MergeAntiDpiTransportTopUpInPlace (\<lambda>_. []) (Some (po_zero\<lparr>po_JunkMin := 1000, po_JunkMax := 10\<rparr>)) ''tcp'' = Some q \<and>
    po_JunkMin q \<le> po_JunkMax q"
  using topup_sound [of "\<lambda>_. []" "po_zero\<lparr>po_JunkMin := 1000, po_JunkMax := 10\<rparr>" "''tcp''"]
  by (auto simp: po_zero_def)

end
