(* ===== verification/Ice.thy ===== *)
theory Ice
  imports GoStd
begin

unbundle bit_operations_syntax

text \<open>
  Address discovery, \<^verbatim>\<open>internal/ice\<close>: STUN binding requests and responses and the loops over
  the servers (\<^verbatim>\<open>stun.go\<close>), TURN allocation with long-term credentials (\<^verbatim>\<open>turn.go\<close>), the
  candidate weights (\<^verbatim>\<open>candidate.go\<close>) and the look-up of an address among the local ones
  (\<^verbatim>\<open>host.go\<close>). Slices are checked (\<open>bslice\<close>), so that an out-of-range access would be a
  \<open>Panic\<close>. MD5, HMAC-SHA1 and the datagram exchange are arguments; weights are in hundredths.
\<close>

section \<open>Candidates\<close>

datatype CandidateKind = CandidateUnknown | CandidateHost | CandidateSrflx | CandidateRelay

fun PathWeight :: "CandidateKind \<Rightarrow> nat" where
  "PathWeight CandidateHost = 100"
| "PathWeight CandidateSrflx = 92"
| "PathWeight CandidateRelay = 72"
| "PathWeight CandidateUnknown = 100"

definition IPOnLocalMachine :: "bytes option \<Rightarrow> bytes list \<Rightarrow> bool" where
  "IPOnLocalMachine ip locals =
     (case ip of
        None \<Rightarrow> False
      | Some ip \<Rightarrow> let ip = (case to16 ip of None \<Rightarrow> [] | Some i \<Rightarrow> i) in \<exists>x \<in> set locals. ip_equal x ip)"

section \<open>Messages\<close>

definition stunMagicCookie :: u32 where "stunMagicCookie = 0x2112A442"

definition typAllocateRequest :: u16 where "typAllocateRequest = 0x0003"
definition attrRequestedTransport :: u16 where "attrRequestedTransport = 0x0019"
definition attrUsername :: u16 where "attrUsername = 0x0006"
definition attrMessageIntegrity :: u16 where "attrMessageIntegrity = 0x0008"
definition attrErrorCode :: u16 where "attrErrorCode = 0x0009"
definition attrRealm :: u16 where "attrRealm = 0x0014"
definition attrNonce :: u16 where "attrNonce = 0x0015"
definition attrXorRelayedAddress :: u16 where "attrXorRelayedAddress = 0x0016"

lemmas turn_attrs = attrRequestedTransport_def attrUsername_def attrMessageIntegrity_def attrErrorCode_def
  attrRealm_def attrNonce_def attrXorRelayedAddress_def

definition IsBindingResponse :: "bytes \<Rightarrow> bytes \<times> bool" where
  "IsBindingResponse pkt =
     (if length pkt < 20 then (replicate 12 0, False)
      else if (be_get (take 2 pkt) :: u16) AND 0x0110 \<noteq> 0x0100 then (replicate 12 0, False)
      else if be_get (take 4 (drop 4 pkt)) \<noteq> stunMagicCookie then (replicate 12 0, False)
      else (take 12 (drop 8 pkt), True))"

definition buildBindingRequest :: "bytes \<Rightarrow> bytes" where
  "buildBindingRequest txID =
     be_put 2 (0x0001 :: u16) @ be_put 2 (0 :: u16) @ be_put 4 stunMagicCookie @ txID"

text \<open>\<open>(n + 3) &^ 3\<close>: the length rounded up to a multiple of four.\<close>

definition pad4 :: "nat \<Rightarrow> nat" where
  "pad4 n = (n + 3) div 4 * 4"

text \<open>A nil address is \<open>None\<close>.\<close>

definition decodeXorMapped :: "bytes \<Rightarrow> bytes \<Rightarrow> bytes option \<times> u16" where
  "decodeXorMapped v txID =
     (if length v < 8 then (None, 0)
      else
        let fam = v ! 1;
            xport = be_get (take 2 (drop 2 v)) XOR (0x2112 :: u16)
        in if fam = 1 then
             (let x = be_get (take 4 (drop 4 v)) XOR stunMagicCookie in (Some (be_put 4 x), xport))
           else if fam = 2 then
             (if length v < 20 then (None, 0)
              else let key = be_put 4 stunMagicCookie @ txID
                in (Some (map (\<lambda>(a, b). a XOR b) (zip (take 16 (drop 4 v)) key)), xport))
           else (None, 0))"

definition decodeMapped :: "bytes \<Rightarrow> bytes option \<times> u16" where
  "decodeMapped v =
     (if length v < 8 then (None, 0)
      else
        let fam = v ! 1; port = be_get (take 2 (drop 2 v)) in
        if fam = 1 then (Some (v4_in_v6 @ take 4 (drop 4 v)), port)
        else if fam = 2 then (if length v < 20 then (None, 0) else (Some (take 16 (drop 4 v)), port))
        else (None, 0))"

text \<open>The loop over the attributes of a binding response.\<close>

function binding_attrs :: "bytes \<Rightarrow> bytes \<Rightarrow> nat \<Rightarrow> nat \<Rightarrow> go_error + bytes \<times> u16" where
  "binding_attrs pkt wantTx endp pos =
     (if pos + 4 \<le> endp then
        ebind (bslice pkt pos (pos + 2)) (\<lambda>ab.
        ebind (bslice pkt (pos + 2) (pos + 4)) (\<lambda>lb.
        let attr = be_get ab :: u16;
            al = unat (be_get lb :: u16);
            pad = pad4 al
        in if pos + 4 + al > endp then Inl (Error ''stun: bad attribute length'')
           else
             ebind (bslice pkt (pos + 4) (pos + 4 + al)) (\<lambda>val.
             if attr = 0x0020 \<and> fst (decodeXorMapped val wantTx) \<noteq> None then
               Inr (the (fst (decodeXorMapped val wantTx)), snd (decodeXorMapped val wantTx))
             else if attr = 0x0001 \<and> fst (decodeMapped val) \<noteq> None then
               Inr (the (fst (decodeMapped val)), snd (decodeMapped val))
             else binding_attrs pkt wantTx endp (pos + 4 + pad))))
      else Inl (Error ''stun: no mapped address''))"
  by pat_completeness auto

termination by (relation "measure (\<lambda>(pkt, wantTx, endp, pos). endp - pos)") auto

declare binding_attrs.simps [simp del]

definition parseBindingResponse :: "bytes \<Rightarrow> bytes \<Rightarrow> go_error + bytes \<times> u16" where
  "parseBindingResponse pkt wantTx =
     (if length pkt < 20 then Inl (Error ''stun: packet too short'')
      else
        let typ = be_get (take 2 pkt) :: u16;
            len = unat (be_get (take 2 (drop 2 pkt)) :: u16)
        in if typ AND 0x0110 \<noteq> 0x0100 then Inl (Error ''stun: not success response'')
           else if length pkt < 20 + len then Inl (Error ''stun: truncated body'')
           else if be_get (take 4 (drop 4 pkt)) \<noteq> stunMagicCookie then Inl (Error ''stun: bad magic cookie'')
           else if take 12 (drop 8 pkt) \<noteq> wantTx then Inl (Error ''stun: transaction mismatch'')
           else binding_attrs pkt wantTx (20 + len) 20)"

definition ParseBindingResponseForPeerSocket :: "bytes \<Rightarrow> bytes \<Rightarrow> go_error + bytes \<times> u16" where
  "ParseBindingResponseForPeerSocket pkt wantTx = parseBindingResponse pkt wantTx"

section \<open>Servers\<close>

datatype network = Udp | Tcp

definition stunServerSpec :: "string \<Rightarrow> network \<times> string" where
  "stunServerSpec hostPort =
     (let s = trim_space hostPort in
      if has_prefix s ''udp://'' then (Udp, trim_prefix s ''udp://'')
      else if has_prefix s ''tcp://'' then (Tcp, trim_prefix s ''tcp://'')
      else (Udp, s))"

record SrflxResult =
  sr_IP :: bytes
  sr_Port :: u16
  sr_Server :: string
  sr_Kind :: CandidateKind

text \<open>
  \<open>udp\<close> and \<open>tcp\<close> send the request to an address and give the datagram, or the stream, that comes
  back; a stream is read header first. The round-trip time is left out.
\<close>

type_synonym exchange = "string \<Rightarrow> bytes \<Rightarrow> go_error + bytes"

definition srflx_of :: "string \<Rightarrow> go_error + bytes \<times> u16 \<Rightarrow> go_error + SrflxResult" where
  "srflx_of server r = ebind r (\<lambda>(ip, port).
     Inr \<lparr>sr_IP = ip, sr_Port = port, sr_Server = server, sr_Kind = CandidateUnknown\<rparr>)"

definition gatherOneTCP :: "exchange \<Rightarrow> bytes \<Rightarrow> string \<Rightarrow> go_error + SrflxResult" where
  "gatherOneTCP tcp txID hostPort =
     (let clean = snd (stunServerSpec hostPort) in
      ebind (tcp clean (buildBindingRequest txID)) (\<lambda>s.
      case rbind (read_full 20) (\<lambda>hdr.
             rbind (read_full (unat (be_get (take 2 (drop 2 hdr)) :: u16))) (\<lambda>body. rret (hdr @ body))) s of
        Inl e \<Rightarrow> Inl e
      | Inr (pkt, _) \<Rightarrow> srflx_of (clean @ ''/tcp'') (parseBindingResponse pkt txID)))"

definition gatherOneUDP :: "exchange \<Rightarrow> exchange \<Rightarrow> bytes \<Rightarrow> string \<Rightarrow> go_error + SrflxResult" where
  "gatherOneUDP udp tcp txID hostPort =
     (let (network, clean) = stunServerSpec hostPort in
      if network = Tcp then gatherOneTCP tcp txID clean
      else ebind (udp clean (buildBindingRequest txID)) (\<lambda>d.
        srflx_of (clean @ ''/udp'') (parseBindingResponse (take 2048 d) txID)))"

text \<open>On a shared socket datagrams of other peers may come first: they are skipped.\<close>

fun own_answer :: "string \<Rightarrow> (string \<times> bytes) list \<Rightarrow> go_error + bytes" where
  "own_answer addr [] = Inl (Error ''i/o timeout'')"
| "own_answer addr ((from, d) # ds) = (if from \<noteq> addr then own_answer addr ds else Inr d)"

definition gatherOneOnUDP ::
  "(string \<Rightarrow> bytes \<Rightarrow> (string \<times> bytes) list) \<Rightarrow> bytes \<Rightarrow> string \<Rightarrow> go_error + SrflxResult" where
  "gatherOneOnUDP sock txID hostPort =
     ebind (own_answer hostPort (sock hostPort (buildBindingRequest txID))) (\<lambda>d.
     srflx_of hostPort (parseBindingResponse (take 2048 d) txID))"

definition DefaultSTUNServers :: "string list" where
  "DefaultSTUNServers = [''stun.rtc.yandex.net:3478'', ''stun.l.google.com:19302'']"

definition no_stun_servers :: go_error where
  "no_stun_servers = Error ''ice: no stun servers''"

text \<open>The loop: the first server that answers, else the last error.\<close>

fun gather_loop :: "(string \<Rightarrow> go_error + SrflxResult) \<Rightarrow> string list \<Rightarrow> go_error option \<Rightarrow> go_error + SrflxResult" where
  "gather_loop one [] lastErr = Inl (case lastErr of None \<Rightarrow> no_stun_servers | Some e \<Rightarrow> e)"
| "gather_loop one (h # hs) lastErr =
     (case one h of
        Inr r \<Rightarrow> Inr (r\<lparr>sr_Kind := CandidateSrflx\<rparr>)
      | Inl e \<Rightarrow> gather_loop one hs (Some e))"

definition GatherSrflx :: "exchange \<Rightarrow> exchange \<Rightarrow> bytes \<Rightarrow> string list \<Rightarrow> go_error + SrflxResult" where
  "GatherSrflx udp tcp txID servers =
     (let servers = (if length servers = 0 then DefaultSTUNServers else servers) in
      gather_loop (\<lambda>hostPort. case gatherOneUDP udp tcp txID hostPort of
          Inr r \<Rightarrow> Inr r
        | Inl _ \<Rightarrow> gatherOneTCP tcp txID hostPort) servers None)"

definition GatherSrflxOnUDP ::
  "(string \<Rightarrow> bytes \<Rightarrow> (string \<times> bytes) list) \<Rightarrow> bytes \<Rightarrow> string list \<Rightarrow> go_error + SrflxResult" where
  "GatherSrflxOnUDP sock txID servers =
     (let servers = (if length servers = 0 then DefaultSTUNServers else servers) in
      gather_loop (\<lambda>hostPort. let (network, clean) = stunServerSpec hostPort in
        if network = Tcp then Inl (Error ''ice: tcp-only stun is unsupported for shared udp socket'')
        else gatherOneOnUDP sock txID clean) servers None)"

section \<open>TURN\<close>

definition packAttr :: "u16 \<Rightarrow> bytes \<Rightarrow> bytes" where
  "packAttr typ val =
     be_put 2 typ @ be_put 2 (word_of_nat (length val) :: u16) @ val @ replicate (pad4 (length val) - length val) 0"

definition parseTurnURL :: "string \<Rightarrow> go_error + string \<times> string \<times> string" where
  "parseTurnURL raw =
     (let s = trim_space raw;
          s = trim_prefix s ''turn:'';
          s = trim_prefix s ''turn://''
      in if s = [] then Inl (Error ''turn: empty url'')
         else
           let (hostPort, user, pass) =
             (case index_byte s CHR ''@'' of
                Some i \<Rightarrow>
                  let userPass = take i s; hostPort = drop (i + 1) s in
                  (case index_byte userPass CHR '':'' of
                     Some j \<Rightarrow> (hostPort, take j userPass, drop (j + 1) userPass)
                   | None \<Rightarrow> (hostPort, userPass, []))
              | None \<Rightarrow> (s, [], []))
           in if hostPort = [] then Inl (Error ''turn: missing host'') else Inr (hostPort, user, pass))"

definition buildAllocateFirst :: "bytes \<Rightarrow> bytes" where
  "buildAllocateFirst txID =
     (let attr = packAttr attrRequestedTransport [17, 0, 0, 0]
      in be_put 2 typAllocateRequest @ be_put 2 (word_of_nat (length attr) :: u16) @
         be_put 4 stunMagicCookie @ txID @ attr)"

definition buildAllocateAuth ::
  "(bytes \<Rightarrow> bytes) \<Rightarrow> (bytes \<Rightarrow> bytes \<Rightarrow> bytes) \<Rightarrow> bytes \<Rightarrow> string \<Rightarrow> string \<Rightarrow> string \<Rightarrow> string \<Rightarrow> bytes" where
  "buildAllocateAuth md5 hmac_sha1 txID user pass realm nonce =
     (let body = packAttr attrRequestedTransport [17, 0, 0, 0] @
                 packAttr attrUsername (str_bytes user) @
                 packAttr attrRealm (str_bytes realm) @
                 packAttr attrNonce (str_bytes nonce) @
                 packAttr attrMessageIntegrity (replicate 20 0);
          msg = be_put 2 typAllocateRequest @ be_put 2 (word_of_nat (length body) :: u16) @
                be_put 4 stunMagicCookie @ txID @ body;
          key = md5 (str_bytes (user @ '':'' @ realm @ '':'' @ pass));
          sm = hmac_sha1 key msg
      in take (length msg - 20) msg @ take 20 sm)"

definition parseErrorCodeAttr :: "bytes \<Rightarrow> int" where
  "parseErrorCodeAttr val =
     (if length val < 4 then 0 else uint (val ! 2) * 100 + uint (val ! 3 mod 100))"

record alloc_response =
  ar_IP :: "bytes option"
  ar_Port :: u16
  ar_realm :: string
  ar_nonce :: string
  ar_err :: int

definition alloc_none :: "int \<Rightarrow> alloc_response" where
  "alloc_none e = \<lparr>ar_IP = None, ar_Port = 0, ar_realm = [], ar_nonce = [], ar_err = e\<rparr>"

text \<open>The \<^verbatim>\<open>switch\<close> on one attribute.\<close>

definition alloc_attr :: "bytes \<Rightarrow> u16 \<Rightarrow> bytes \<Rightarrow> alloc_response \<Rightarrow> alloc_response" where
  "alloc_attr tx attr val r =
     (if attr = attrXorRelayedAddress then
        (case decodeXorMapped val tx of
           (Some ip, port) \<Rightarrow> r\<lparr>ar_IP := Some ip, ar_Port := port\<rparr>
         | (None, _) \<Rightarrow> r)
      else if attr = attrRealm then r\<lparr>ar_realm := bytes_str val\<rparr>
      else if attr = attrNonce then r\<lparr>ar_nonce := bytes_str val\<rparr>
      else if attr = attrErrorCode then r\<lparr>ar_err := parseErrorCodeAttr val\<rparr>
      else r)"

function alloc_attrs :: "bytes \<Rightarrow> bytes \<Rightarrow> nat \<Rightarrow> nat \<Rightarrow> alloc_response \<Rightarrow> go_error + alloc_response" where
  "alloc_attrs pkt tx endp pos r =
     (if pos + 4 \<le> endp then
        ebind (bslice pkt pos (pos + 2)) (\<lambda>ab.
        ebind (bslice pkt (pos + 2) (pos + 4)) (\<lambda>lb.
        let attr = be_get ab :: u16;
            al = unat (be_get lb :: u16);
            pad = pad4 al
        in if pos + 4 + al > length pkt then Inr r
           else
             ebind (bslice pkt (pos + 4) (pos + 4 + al)) (\<lambda>val.
             alloc_attrs pkt tx endp (pos + 4 + pad) (alloc_attr tx attr val r))))
      else Inr r)"
  by pat_completeness auto

termination by (relation "measure (\<lambda>(pkt, tx, endp, pos, r). endp - pos)") auto

declare alloc_attrs.simps [simp del]

definition parseAllocateResponse :: "bytes \<Rightarrow> bytes \<Rightarrow> go_error + alloc_response" where
  "parseAllocateResponse pkt wantTx =
     (if length pkt < 20 then Inr (alloc_none (- 1))
      else if be_get (take 4 (drop 4 pkt)) \<noteq> stunMagicCookie then Inr (alloc_none (- 1))
      else if take 12 (drop 8 pkt) \<noteq> wantTx then Inr (alloc_none (- 1))
      else
        let len = unat (be_get (take 2 (drop 2 pkt)) :: u16);
            endp = 20 + len;
            endp = (if endp > length pkt then length pkt else endp)
        in alloc_attrs pkt wantTx endp 20 (alloc_none 0))"

record TurnResult =
  tr_IP :: bytes
  tr_Port :: u16
  tr_Server :: string

text \<open>\<open>send1\<close> and \<open>send2\<close> are the two exchanges on the socket dialled to an address.\<close>

definition TryTurnAllocate ::
  "(bytes \<Rightarrow> bytes) \<Rightarrow> (bytes \<Rightarrow> bytes \<Rightarrow> bytes) \<Rightarrow> exchange \<Rightarrow> exchange \<Rightarrow> bytes \<Rightarrow> bytes \<Rightarrow> string \<Rightarrow> go_error + TurnResult" where
  "TryTurnAllocate md5 hmac_sha1 send1 send2 txID txID2 turnURL =
     ebind (parseTurnURL turnURL) (\<lambda>(hostPort, user, pass).
     ebind (send1 hostPort (buildAllocateFirst txID)) (\<lambda>d.
     ebind (parseAllocateResponse (take 2048 d) txID) (\<lambda>r.
     if ar_IP r \<noteq> None \<and> ar_err r = 0 then
       Inr \<lparr>tr_IP = the (ar_IP r), tr_Port = ar_Port r, tr_Server = hostPort\<rparr>
     else if user = [] \<or> pass = [] \<or> ar_realm r = [] \<or> ar_nonce r = [] then
       (if ar_err r \<noteq> 0 then Inl (Error (''turn: allocate failed code='' @ itoa (ar_err r)))
        else Inl (Error ''turn: no relayed address (set turn:user:pass@host:port)''))
     else
       ebind (send2 hostPort (buildAllocateAuth md5 hmac_sha1 txID2 user pass (ar_realm r) (ar_nonce r))) (\<lambda>d2.
       ebind (parseAllocateResponse (take 2048 d2) txID2) (\<lambda>r2.
       if ar_err r2 \<noteq> 0 then Inl (Error (''turn: allocate auth failed code='' @ itoa (ar_err r2)))
       else case ar_IP r2 of
         None \<Rightarrow> Inl (Error ''turn: no relayed address after auth'')
       | Some ip \<Rightarrow> Inr \<lparr>tr_IP = ip, tr_Port = ar_Port r2, tr_Server = hostPort\<rparr>)))))"

section \<open>Attributes on the wire\<close>

text \<open>A message of the attributes \<open>attrs\<close>, and what the two attribute loops make of such a list.\<close>

type_synonym attr = "u16 \<times> bytes"

definition attrs_bytes :: "attr list \<Rightarrow> bytes" where
  "attrs_bytes attrs = concat (map (\<lambda>(t, v). packAttr t v) attrs)"

definition attrs_ok :: "attr list \<Rightarrow> bool" where
  "attrs_ok attrs \<longleftrightarrow> (\<forall>(t, v) \<in> set attrs. length v < 65536) \<and> length (attrs_bytes attrs) < 65536"

definition stun_message :: "u16 \<Rightarrow> bytes \<Rightarrow> attr list \<Rightarrow> bytes" where
  "stun_message mt txID attrs =
     be_put 2 mt @ be_put 2 (word_of_nat (length (attrs_bytes attrs)) :: u16) @ be_put 4 stunMagicCookie @
     txID @ attrs_bytes attrs"

fun first_mapped :: "bytes \<Rightarrow> attr list \<Rightarrow> go_error + bytes \<times> u16" where
  "first_mapped tx [] = Inl (Error ''stun: no mapped address'')"
| "first_mapped tx ((t, v) # as) =
     (case (if t = 0x0020 then decodeXorMapped v tx else if t = 0x0001 then decodeMapped v else (None, 0)) of
        (Some ip, port) \<Rightarrow> Inr (ip, port)
      | (None, _) \<Rightarrow> first_mapped tx as)"

lemma pad4_ge: "n \<le> pad4 n"
  by (simp add: pad4_def)

lemma length_packAttr [simp]: "length (packAttr t v) = 4 + pad4 (length v)"
  using pad4_ge [of "length v"] by (simp add: packAttr_def del: be_put.simps)

lemma attrs_bytes_Cons: "attrs_bytes ((t, v) # as) = packAttr t v @ attrs_bytes as"
  by (simp add: attrs_bytes_def)

lemma attrs_bytes_Nil [simp]: "attrs_bytes [] = []"
  by (simp add: attrs_bytes_def)

text \<open>The three slices of one turn of either loop.\<close>

lemma attr_slices:
  assumes "length pre = pos" and "length v < 65536"
  shows "bslice (pre @ packAttr t v @ rest) pos (pos + 2) = Inr (be_put 2 t)"
    and "bslice (pre @ packAttr t v @ rest) (pos + 2) (pos + 4) = Inr (be_put 2 (word_of_nat (length v) :: u16))"
    and "bslice (pre @ packAttr t v @ rest) (pos + 4) (pos + 4 + length v) = Inr v"
    and "unat (word_of_nat (length v) :: u16) = length v"
proof -
  let ?l = "be_put 2 (word_of_nat (length v) :: u16)" and ?p = "replicate (pad4 (length v) - length v) 0 :: bytes"
  have e: "pre @ packAttr t v @ rest = pre @ be_put 2 t @ (?l @ v @ ?p @ rest)"
    "pre @ packAttr t v @ rest = (pre @ be_put 2 t) @ ?l @ (v @ ?p @ rest)"
    "pre @ packAttr t v @ rest = (pre @ be_put 2 t @ ?l) @ v @ (?p @ rest)"
    by (simp_all add: packAttr_def)
  show "bslice (pre @ packAttr t v @ rest) pos (pos + 2) = Inr (be_put 2 t)"
    unfolding e(1) by (rule bslice_mid) (use assms in simp_all)
  show "bslice (pre @ packAttr t v @ rest) (pos + 2) (pos + 4) = Inr ?l"
    unfolding e(2) by (rule bslice_mid) (use assms in simp_all)
  show "bslice (pre @ packAttr t v @ rest) (pos + 4) (pos + 4 + length v) = Inr v"
    unfolding e(3) by (rule bslice_mid) (use assms in simp_all)
  show "unat (word_of_nat (length v) :: u16) = length v" using assms(2) by (simp add: unat_small)
qed

lemma binding_attrs_written:
  assumes "\<forall>(t, v) \<in> set attrs. length v < 65536"
  shows "binding_attrs (pre @ attrs_bytes attrs) tx (length pre + length (attrs_bytes attrs)) (length pre) =
    first_mapped tx attrs"
  using assms
proof (induction attrs arbitrary: pre)
  case Nil
  then show ?case by (simp add: binding_attrs.simps)
next
  case (Cons a "as")
  obtain t v where a: "a = (t, v)" by (cases a)
  have v: "length v < 65536" using Cons.prems a by simp
  let ?pkt = "pre @ packAttr t v @ attrs_bytes as" and ?pos = "length pre"
  let ?fin = "?pos + (4 + pad4 (length v) + length (attrs_bytes as))"
  note S = attr_slices(1-3) [where pre = pre and t = t and rest = "attrs_bytes as", OF refl v] attr_slices(4) [OF refl v]
  have IH: "binding_attrs ?pkt tx ?fin (?pos + 4 + pad4 (length v)) = first_mapped tx as"
    using Cons.IH [of "pre @ packAttr t v"] Cons.prems by (simp add: add.assoc)
  have c: "?pos + 4 \<le> ?fin" "\<not> ?pos + 4 + length v > ?fin" using pad4_ge [of "length v"] by simp_all
  have "binding_attrs ?pkt tx ?fin ?pos = first_mapped tx ((t, v) # as)"
    by (subst binding_attrs.simps)
      (simp only: c S ebind_simps Let_def be_get_be_put16 if_True if_False IH first_mapped.simps,
       auto split: prod.splits option.splits)
  then show ?case by (simp add: a attrs_bytes_Cons)
qed

lemma alloc_attrs_written:
  assumes "\<forall>(t, v) \<in> set attrs. length v < 65536"
  shows "alloc_attrs (pre @ attrs_bytes attrs) tx (length pre + length (attrs_bytes attrs)) (length pre) r =
    Inr (fold (\<lambda>(t, v). alloc_attr tx t v) attrs r)"
  using assms
proof (induction attrs arbitrary: pre r)
  case Nil
  then show ?case by (simp add: alloc_attrs.simps)
next
  case (Cons a "as")
  obtain t v where a: "a = (t, v)" by (cases a)
  have v: "length v < 65536" using Cons.prems a by simp
  let ?pkt = "pre @ packAttr t v @ attrs_bytes as" and ?pos = "length pre"
  let ?fin = "?pos + (4 + pad4 (length v) + length (attrs_bytes as))"
  note S = attr_slices(1-3) [where pre = pre and t = t and rest = "attrs_bytes as", OF refl v] attr_slices(4) [OF refl v]
  have IH: "alloc_attrs ?pkt tx ?fin (?pos + 4 + pad4 (length v)) r' = Inr (fold (\<lambda>(t, v). alloc_attr tx t v) as r')" for r'
    using Cons.IH [of "pre @ packAttr t v" r'] Cons.prems by (simp add: add.assoc)
  have c: "?pos + 4 \<le> ?fin" "\<not> ?pos + 4 + length v > length ?pkt" using pad4_ge [of "length v"] by simp_all
  have "alloc_attrs ?pkt tx ?fin ?pos r = Inr (fold (\<lambda>(t, v). alloc_attr tx t v) as (alloc_attr tx t v r))"
    by (subst alloc_attrs.simps) (simp only: c S ebind_simps Let_def be_get_be_put16 if_True if_False IH)
  then show ?case by (simp add: a attrs_bytes_Cons)
qed

lemma stun_message_fields:
  fixes mt :: u16
  assumes "length txID = 12" and "attrs_ok attrs"
  defines "pkt \<equiv> stun_message mt txID attrs"
  shows "length pkt = 20 + length (attrs_bytes attrs)" and "be_get (take 2 pkt) = mt"
    and "unat (be_get (take 2 (drop 2 pkt)) :: u16) = length (attrs_bytes attrs)"
    and "be_get (take 4 (drop 4 pkt)) = stunMagicCookie" and "take 12 (drop 8 pkt) = txID"
    and "pkt = (be_put 2 mt @ be_put 2 (word_of_nat (length (attrs_bytes attrs)) :: u16) @ be_put 4 stunMagicCookie @ txID) @ attrs_bytes attrs"
proof -
  have u: "unat (word_of_nat (length (attrs_bytes attrs)) :: u16) = length (attrs_bytes attrs)"
    using assms(2) by (simp add: attrs_ok_def unat_small)
  have t: "take 2 pkt = be_put 2 mt" "take 2 (drop 2 pkt) = be_put 2 (word_of_nat (length (attrs_bytes attrs)) :: u16)"
    "take 4 (drop 4 pkt) = be_put 4 stunMagicCookie"
    using assms(1) by (simp_all add: pkt_def stun_message_def del: be_put.simps)
  show "length pkt = 20 + length (attrs_bytes attrs)" "take 12 (drop 8 pkt) = txID"
    "pkt = (be_put 2 mt @ be_put 2 (word_of_nat (length (attrs_bytes attrs)) :: u16) @ be_put 4 stunMagicCookie @ txID) @ attrs_bytes attrs"
    using assms(1) by (simp_all add: pkt_def stun_message_def del: be_put.simps)
  show "be_get (take 2 pkt) = mt" "be_get (take 4 (drop 4 pkt)) = stunMagicCookie"
    "unat (be_get (take 2 (drop 2 pkt)) :: u16) = length (attrs_bytes attrs)"
    unfolding t be_get_be_put16 be_get_be_put32 u by simp_all
qed

lemma parse_binding_written:
  assumes "length txID = 12" and "attrs_ok attrs" and "mt AND 0x0110 = 0x0100"
  shows "parseBindingResponse (stun_message mt txID attrs) txID = first_mapped txID attrs"
proof -
  note F = stun_message_fields [OF assms(1,2), of mt]
  let ?h = "be_put 2 mt @ be_put 2 (word_of_nat (length (attrs_bytes attrs)) :: u16) @ be_put 4 stunMagicCookie @ txID"
  have lh: "length ?h = 20" using assms(1) by (simp del: be_put.simps)
  have "binding_attrs (stun_message mt txID attrs) txID (20 + length (attrs_bytes attrs)) 20 = first_mapped txID attrs"
    using binding_attrs_written [of attrs ?h txID] assms(2) unfolding F(6) lh by (simp add: attrs_ok_def)
  then show ?thesis
    unfolding parseBindingResponse_def F(1-5) Let_def using assms(3) by simp
qed

lemma parse_allocate_written:
  assumes "length txID = 12" and "attrs_ok attrs"
  shows "parseAllocateResponse (stun_message mt txID attrs) txID =
    Inr (fold (\<lambda>(t, v). alloc_attr txID t v) attrs (alloc_none 0))"
proof -
  note F = stun_message_fields [OF assms(1,2), of mt]
  let ?h = "be_put 2 mt @ be_put 2 (word_of_nat (length (attrs_bytes attrs)) :: u16) @ be_put 4 stunMagicCookie @ txID"
  have lh: "length ?h = 20" using assms(1) by (simp del: be_put.simps)
  have "alloc_attrs (stun_message mt txID attrs) txID (20 + length (attrs_bytes attrs)) 20 (alloc_none 0) =
      Inr (fold (\<lambda>(t, v). alloc_attr txID t v) attrs (alloc_none 0))"
    using alloc_attrs_written [of attrs ?h txID "alloc_none 0"] assms(2) unfolding F(6) lh by (simp add: attrs_ok_def)
  then show ?thesis
    unfolding parseAllocateResponse_def F(1-5) Let_def by simp
qed

section \<open>Properties\<close>

text \<open>The value of an XOR-MAPPED-ADDRESS or XOR-RELAYED-ADDRESS attribute, as a server writes it.\<close>

definition xor_address :: "bytes \<Rightarrow> bytes \<Rightarrow> u16 \<Rightarrow> bytes" where
  "xor_address txID ip port =
     [0, if length ip = 4 then 1 else 2] @ be_put 2 (port XOR 0x2112) @
     (if length ip = 4 then be_put 4 (be_get ip XOR stunMagicCookie)
      else map (\<lambda>(a, b). a XOR b) (zip ip (be_put 4 stunMagicCookie @ txID)))"

lemma xor_zip_twice:
  "length a = length (k :: bytes) \<Longrightarrow>
   map (\<lambda>(a, b). a XOR b) (zip (map (\<lambda>(a, b). a XOR b) (zip a k)) k) = a"
  by (induction a k rule: list_induct2) (auto simp: xor.assoc)

lemma length_xor_address:
  "length txID = 12 \<Longrightarrow> length ip = 4 \<or> length ip = 16 \<Longrightarrow> length (xor_address txID ip port) = 4 + length ip"
  by (auto simp: xor_address_def simp del: be_put.simps)

lemma decode_xor_address:
  assumes "length txID = 12" and "length ip = 4 \<or> length ip = 16"
  shows "decodeXorMapped (xor_address txID ip port) txID = (Some ip, port)"
proof -
  let ?v = "xor_address txID ip port"
  have p: "take 2 (drop 2 ?v) = be_put 2 (port XOR 0x2112)"
    by (simp add: xor_address_def del: be_put.simps)
  have l: "\<not> length ?v < 8" using length_xor_address [OF assms] assms(2) by auto
  show ?thesis
  proof (cases "length ip = 4")
    case True
    have x: "take 4 (drop 4 ?v) = be_put 4 (be_get ip XOR stunMagicCookie)" "?v ! 1 = 1"
      using True by (simp_all add: xor_address_def del: be_put.simps)
    have "be_put 4 (be_get ip :: u32) = ip" using be_put_be_get [of ip, where 'a = 32] True by simp
    then show ?thesis
      unfolding decodeXorMapped_def Let_def p x be_get_be_put16 be_get_be_put32 using l by (simp add: xor.assoc)
  next
    case False
    then have ip: "length ip = 16" using assms(2) by simp
    let ?key = "be_put 4 stunMagicCookie @ txID"
    have k: "length ip = length ?key" using ip assms(1) by (simp del: be_put.simps)
    have x: "take 16 (drop 4 ?v) = map (\<lambda>(a, b). a XOR b) (zip ip ?key)" "?v ! 1 = 2"
      using ip k by (simp_all add: xor_address_def del: be_put.simps)
    have "\<not> length ?v < 20" using length_xor_address [OF assms] ip by simp
    then show ?thesis
      unfolding decodeXorMapped_def Let_def p x be_get_be_put16 xor_zip_twice [OF k] using l by (simp add: xor.assoc)
  qed
qed

lemma first_mapped_skip:
  "\<forall>(t, _) \<in> set pre. t \<noteq> 0x0020 \<and> t \<noteq> 0x0001 \<Longrightarrow> first_mapped tx (pre @ as) = first_mapped tx as"
  by (induction pre) auto

text \<open>
  The reflexive address comes through: whatever attributes of other types a success response carries
  before its XOR-MAPPED-ADDRESS, and whatever follows it, the parser returns the server's address and port.
\<close>

theorem stun_mapped_address:
  assumes "length txID = 12" and "length ip = 4 \<or> length ip = 16" and "mt AND 0x0110 = 0x0100"
    and "\<forall>(t, _) \<in> set pre. t \<noteq> 0x0020 \<and> t \<noteq> 0x0001"
    and "attrs_ok (pre @ (0x0020, xor_address txID ip port) # post)"
  shows "parseBindingResponse (stun_message mt txID (pre @ (0x0020, xor_address txID ip port) # post)) txID =
    Inr (ip, port)"
  unfolding parse_binding_written [OF assms(1,5,3)] first_mapped_skip [OF assms(4)]
  by (simp add: decode_xor_address [OF assms(1,2)])

theorem stun_mapped_address_witness:
  "parseBindingResponse (stun_message 0x0101 (replicate 12 7)
     ([(0x8022, [1, 2, 3])] @ (0x0020, xor_address (replicate 12 7) [192, 0, 2, 1] 9) # [])) (replicate 12 7) =
   Inr ([192, 0, 2, 1], 9)"
  by (rule stun_mapped_address) (simp_all add: attrs_ok_def attrs_bytes_def length_xor_address pad4_def)

lemma binding_attrs_no_panic: "endp \<le> length pkt \<Longrightarrow> no_panic (binding_attrs pkt tx endp pos)"
proof (induction pkt tx endp pos rule: binding_attrs.induct)
  case (1 pkt tx endp pos)
  show ?case
    by (subst binding_attrs.simps) (unfold Let_def, intro no_panic_if no_panic_ebind, insert 1, auto simp: not_less)
qed

lemma alloc_attrs_no_panic: "endp \<le> length pkt \<Longrightarrow> no_panic (alloc_attrs pkt tx endp pos r)"
proof (induction pkt tx endp pos r rule: alloc_attrs.induct)
  case (1 pkt tx endp pos r)
  show ?case
    by (subst alloc_attrs.simps) (unfold Let_def, intro no_panic_if no_panic_ebind, insert 1, auto simp: not_less)
qed

text \<open>No datagram makes the STUN or the TURN parser index or slice out of range.\<close>

theorem stun_parsers_safe:
  "no_panic (parseBindingResponse pkt tx) \<and> no_panic (parseAllocateResponse pkt tx)"
  by (auto simp: parseBindingResponse_def parseAllocateResponse_def Let_def not_less
      intro!: no_panic_if binding_attrs_no_panic alloc_attrs_no_panic)

definition turn_mac_input :: "bytes \<Rightarrow> string \<Rightarrow> string \<Rightarrow> string \<Rightarrow> bytes" where
  "turn_mac_input txID user realm nonce =
     stun_message typAllocateRequest txID
       [(attrRequestedTransport, [17, 0, 0, 0]), (attrUsername, str_bytes user), (attrRealm, str_bytes realm),
        (attrNonce, str_bytes nonce), (attrMessageIntegrity, replicate 20 0)]"

lemma build_auth_message:
  assumes "\<And>k d. length (hmac k d) = 20"
  shows "buildAllocateAuth md5 hmac txID user pass realm nonce =
    stun_message typAllocateRequest txID
      [(attrRequestedTransport, [17, 0, 0, 0]), (attrUsername, str_bytes user), (attrRealm, str_bytes realm),
       (attrNonce, str_bytes nonce),
       (attrMessageIntegrity, hmac (md5 (str_bytes (user @ '':'' @ realm @ '':'' @ pass)))
          (turn_mac_input txID user realm nonce))]"
proof -
  let ?m = "hmac (md5 (str_bytes (user @ '':'' @ realm @ '':'' @ pass))) (turn_mac_input txID user realm nonce)"
  let ?M = "turn_mac_input txID user realm nonce"
  let ?as = "[(attrRequestedTransport, [17, 0, 0, 0]), (attrUsername, str_bytes user), (attrRealm, str_bytes realm),
       (attrNonce, str_bytes nonce)]"
  have z: "packAttr attrMessageIntegrity v = be_put 2 attrMessageIntegrity @ be_put 2 (20 :: u16) @ v"
    if "length v = 20" for v using that by (simp add: packAttr_def pad4_def)
  let ?P = "be_put 2 typAllocateRequest @ be_put 2 (word_of_nat (length (attrs_bytes ?as) + 24) :: u16) @
      be_put 4 stunMagicCookie @ txID @ attrs_bytes ?as @ be_put 2 attrMessageIntegrity @ be_put 2 (20 :: u16)"
  have S: "stun_message typAllocateRequest txID (?as @ [(attrMessageIntegrity, v)]) = ?P @ v" if "length v = 20" for v
    using that by (simp add: stun_message_def attrs_bytes_def z pad4_def add.assoc del: be_put.simps of_nat_add)
  have M: "?M = ?P @ replicate 20 0" using S [of "replicate 20 0"] by (simp add: turn_mac_input_def)
  have "buildAllocateAuth md5 hmac txID user pass realm nonce = take (length ?M - 20) ?M @ take 20 ?m"
    by (simp add: buildAllocateAuth_def turn_mac_input_def stun_message_def attrs_bytes_def Let_def
        del: be_put.simps of_nat_add)
  also have "\<dots> = ?P @ ?m" unfolding M using assms by (simp del: be_put.simps of_nat_add)
  also have "\<dots> = stun_message typAllocateRequest txID (?as @ [(attrMessageIntegrity, ?m)])"
    by (rule S [symmetric, OF assms])
  finally show ?thesis by simp
qed

text \<open>
  TURN with credentials: the URL names user, password and server; when the server turns the first
  request down with a realm and a nonce, the second is a well-formed request with exactly those, the
  user name and the MAC, and the relayed address of the answer is the result. (The MAC covers the whole
  message, its own attribute zeroed included.)
\<close>

theorem turn_authenticated_allocation:
  assumes "\<And>k d. length (hmac k d) = 20" and "length txID = 12" "length txID2 = 12"
    and "CHR '':'' \<notin> set user" "CHR ''@'' \<notin> set (user @ pass)" "user \<noteq> []" "pass \<noteq> []" "hostp \<noteq> []"
    and "trim_space (''turn:'' @ user @ '':'' @ pass @ ''@'' @ hostp) = ''turn:'' @ user @ '':'' @ pass @ ''@'' @ hostp"
    and "\<not> has_prefix (user @ '':'' @ pass @ ''@'' @ hostp) ''turn://''"
    and "realm \<noteq> []" "nonce \<noteq> []" and "length ip = 4 \<or> length ip = 16"
    and "challenge = [(attrErrorCode, [0, 0, 4, 1]), (attrRealm, str_bytes realm), (attrNonce, str_bytes nonce)]"
    and "attrs_ok challenge" "length (attrs_bytes challenge) \<le> 2000"
    and "send1 hostp (buildAllocateFirst txID) = Inr (stun_message 0x0113 txID challenge)"
    and "send2 hostp (stun_message typAllocateRequest txID2
      [(attrRequestedTransport, [17, 0, 0, 0]), (attrUsername, str_bytes user), (attrRealm, str_bytes realm),
       (attrNonce, str_bytes nonce),
       (attrMessageIntegrity, hmac (md5 (str_bytes (user @ '':'' @ realm @ '':'' @ pass)))
          (turn_mac_input txID2 user realm nonce))]) =
      Inr (stun_message 0x0103 txID2 [(attrXorRelayedAddress, xor_address txID2 ip port)])"
  shows "TryTurnAllocate md5 hmac send1 send2 txID txID2 (''turn:'' @ user @ '':'' @ pass @ ''@'' @ hostp) =
    Inr \<lparr>tr_IP = ip, tr_Port = port, tr_Server = hostp\<rparr>"
proof -
  have u: "parseTurnURL (''turn:'' @ user @ '':'' @ pass @ ''@'' @ hostp) = Inr (hostp, user, pass)"
  proof -
    let ?s = "user @ '':'' @ pass @ ''@'' @ hostp"
    have t: "trim_prefix (trim_prefix (''turn:'' @ ?s) ''turn:'') ''turn://'' = ?s"
      using assms(10) by (simp add: trim_prefix_def)
    have i: "index_byte ?s CHR ''@'' = Some (length (user @ '':'' @ pass))"
      using index_byte_append [of "CHR ''@''" "user @ '':'' @ pass" hostp] assms(5) by simp
    have j: "index_byte (user @ '':'' @ pass) CHR '':'' = Some (length user)"
      using index_byte_append [of "CHR '':''" user pass] assms(4) by simp
    have k: "take (length (user @ '':'' @ pass)) ?s = user @ '':'' @ pass"
      "drop (length (user @ '':'' @ pass) + 1) ?s = hostp" by simp_all
    show ?thesis
      unfolding parseTurnURL_def assms(9) Let_def t i option.case k j using assms(8) by simp
  qed
  have l1: "take 2048 (stun_message 0x0113 txID challenge) = stun_message 0x0113 txID challenge"
    using stun_message_fields(1) [OF assms(2,15)] assms(16) by simp
  let ?r = "[(attrXorRelayedAddress, xor_address txID2 ip port)]"
  have ok2: "attrs_ok ?r" "length (attrs_bytes ?r) \<le> 2000"
    using length_xor_address [OF assms(3,13)] assms(13) by (auto simp: attrs_ok_def attrs_bytes_def pad4_def)
  have l2: "take 2048 (stun_message 0x0103 txID2 ?r) = stun_message 0x0103 txID2 ?r"
    using stun_message_fields(1) [OF assms(3) ok2(1)] ok2(2) by simp
  have r1: "parseAllocateResponse (stun_message 0x0113 txID challenge) txID =
      Inr \<lparr>ar_IP = None, ar_Port = 0, ar_realm = realm, ar_nonce = nonce, ar_err = 401\<rparr>"
    unfolding parse_allocate_written [OF assms(2,15)] unfolding assms(14)
    by (simp add: alloc_attr_def turn_attrs alloc_none_def parseErrorCodeAttr_def)
  have r2: "parseAllocateResponse (stun_message 0x0103 txID2 ?r) txID2 =
      Inr \<lparr>ar_IP = Some ip, ar_Port = port, ar_realm = [], ar_nonce = [], ar_err = 0\<rparr>"
    unfolding parse_allocate_written [OF assms(3) ok2(1)]
    by (simp add: alloc_attr_def alloc_none_def decode_xor_address [OF assms(3,13)])
  show ?thesis
    unfolding TryTurnAllocate_def u ebind_simps prod.case assms(17) l1 r1
    using assms(6,7,11,12) assms(18) l2 r2 by (simp add: build_auth_message [of hmac, OF assms(1)])
qed

theorem turn_authenticated_allocation_witness:
  "TryTurnAllocate (\<lambda>x. x) (\<lambda>k d. replicate 20 0)
     (\<lambda>h d. Inr (stun_message 0x0113 (replicate 12 1)
        [(attrErrorCode, [0, 0, 4, 1]), (attrRealm, str_bytes ''r''), (attrNonce, str_bytes ''n'')]))
     (\<lambda>h d. Inr (stun_message 0x0103 (replicate 12 2) [(attrXorRelayedAddress, xor_address (replicate 12 2) [10, 0, 0, 1] 5000)]))
     (replicate 12 1) (replicate 12 2) (''turn:'' @ ''me'' @ '':'' @ ''secret'' @ ''@'' @ ''host:3478'') =
   Inr \<lparr>tr_IP = [10, 0, 0, 1], tr_Port = 5000, tr_Server = ''host:3478''\<rparr>"
proof (rule turn_authenticated_allocation [OF _ _ _ _ _ _ _ _ _ _ _ _ _ refl _ _ refl refl])
  show "trim_space (''turn:'' @ ''me'' @ '':'' @ ''secret'' @ ''@'' @ ''host:3478'') =
      ''turn:'' @ ''me'' @ '':'' @ ''secret'' @ ''@'' @ ''host:3478''"
    by code_simp
  show "\<not> has_prefix (''me'' @ '':'' @ ''secret'' @ ''@'' @ ''host:3478'') ''turn://''" by code_simp
  show "attrs_ok [(attrErrorCode, [0, 0, 4, 1]), (attrRealm, str_bytes ''r''), (attrNonce, str_bytes ''n'')]"
    "length (attrs_bytes [(attrErrorCode, [0, 0, 4, 1]), (attrRealm, str_bytes ''r''), (attrNonce, str_bytes ''n'')]) \<le> 2000"
    by (simp_all add: attrs_ok_def attrs_bytes_def pad4_def)
qed simp_all

text \<open>
  A URL with an authority marker keeps its slashes: \<^verbatim>\<open>turn:\<close> is cut first, so
  \<^verbatim>\<open>turn://host\<close> names the host \<^verbatim>\<open>//host\<close>.
\<close>

theorem turn_url_slashes: "parseTurnURL ''turn://host:3478'' = Inr (''//host:3478'', [], [])"
  by code_simp

end
