(* ===== verification/Mesh.thy ===== *)
theory Mesh
  imports Protection Ice
begin

text \<open>
  Profiles and their mesh section, \<^verbatim>\<open>internal/config\<close>: the configuration itself
  (\<^verbatim>\<open>config.go\<close>), the mesh options, their translation to and from the older relay options and the
  migration of a profile (\<^verbatim>\<open>mesh.go\<close>), and the defaults (\<^verbatim>\<open>mesh_defaults.go\<close>). The random peer
  identifier is an argument.
\<close>

section \<open>The options\<close>

record RelayOptions =
  ro_PeerID :: string
  ro_PrivateKey :: string
  ro_AllowedClasses :: "string list"
  ro_MaxConcurrent :: int
  ro_BudgetKbps :: int
  ro_PeerRelayBudgetKbps :: int
  ro_MaxPeerHops :: int
  ro_HealthMaxAgeSec :: int
  ro_DiscoverySigned :: string
  ro_DiscoveryURL :: string
  ro_GossipEnabled :: bool
  ro_BootstrapPubKey :: string
  ro_EmergencyPolicyURL :: string
  ro_EmergencyPolicyPubKey :: string
  ro_PathAggressive :: bool
  ro_PathCooldownMs :: int
  ro_StunServers :: "string list"
  ro_TurnURLs :: "string list"
  ro_GossipPeers :: "string list"
  ro_GossipIntervalSec :: int
  ro_GossipMaxAgeSec :: int
  ro_GeoAllowCountries :: "string list"
  ro_GeoDenyCountries :: "string list"
  ro_StakeMin :: int
  ro_PeerPathFromDiscovery :: bool
  ro_PeerRelayUseQUIC :: bool
  ro_PeerRelayUseUDP :: bool
  ro_PeerRelayUseTCP :: "bool option"
  ro_PeerRelayUDPListen :: string
  ro_PeerRelayUDPAdvertise :: string
  ro_PeerQuicServerName :: string
  ro_DHTFindURLs :: "string list"
  ro_StakeRegistryURL :: string
  ro_StakeRegistryPubKey :: string
  ro_StakeReputationFile :: string
  ro_StakeBonusHTTPURL :: string
  ro_StakeMerkleFile :: string
  ro_StakeMerkleRootURL :: string
  ro_DhtRpcListenUDP :: string
  ro_DhtRpcSecret :: string
  ro_DhtRpcSeedPeers :: "string list"
  ro_DhtRpcIntervalSec :: int
  ro_DhtRpcFindK :: int
  ro_DhtIterativeRounds :: int
  ro_DhtIterativeAlpha :: int
  ro_DhtPublishSrflx :: bool
  ro_SymmetricNatHolePunch :: bool

definition ro_zero :: RelayOptions where
  "ro_zero =
     \<lparr>ro_PeerID = [], ro_PrivateKey = [], ro_AllowedClasses = [], ro_MaxConcurrent = 0,
      ro_BudgetKbps = 0, ro_PeerRelayBudgetKbps = 0, ro_MaxPeerHops = 0, ro_HealthMaxAgeSec = 0,
      ro_DiscoverySigned = [], ro_DiscoveryURL = [], ro_GossipEnabled = False, ro_BootstrapPubKey = [],
      ro_EmergencyPolicyURL = [], ro_EmergencyPolicyPubKey = [], ro_PathAggressive = False,
      ro_PathCooldownMs = 0, ro_StunServers = [], ro_TurnURLs = [], ro_GossipPeers = [],
      ro_GossipIntervalSec = 0, ro_GossipMaxAgeSec = 0, ro_GeoAllowCountries = [],
      ro_GeoDenyCountries = [], ro_StakeMin = 0, ro_PeerPathFromDiscovery = False,
      ro_PeerRelayUseQUIC = False, ro_PeerRelayUseUDP = False, ro_PeerRelayUseTCP = None,
      ro_PeerRelayUDPListen = [], ro_PeerRelayUDPAdvertise = [], ro_PeerQuicServerName = [],
      ro_DHTFindURLs = [], ro_StakeRegistryURL = [], ro_StakeRegistryPubKey = [],
      ro_StakeReputationFile = [], ro_StakeBonusHTTPURL = [], ro_StakeMerkleFile = [],
      ro_StakeMerkleRootURL = [], ro_DhtRpcListenUDP = [], ro_DhtRpcSecret = [],
      ro_DhtRpcSeedPeers = [], ro_DhtRpcIntervalSec = 0, ro_DhtRpcFindK = 0, ro_DhtIterativeRounds = 0,
      ro_DhtIterativeAlpha = 0, ro_DhtPublishSrflx = False, ro_SymmetricNatHolePunch = False\<rparr>"

record MeshVolunteerOptions =
  mv_Enabled :: bool
  mv_PeerID :: string
  mv_PrivateKey :: string
  mv_UDPListen :: string
  mv_UDPAdvertise :: string
  mv_MaxConcurrent :: int
  mv_BudgetKbps :: int

definition mv_zero :: MeshVolunteerOptions where
  "mv_zero =
     \<lparr>mv_Enabled = False, mv_PeerID = [], mv_PrivateKey = [], mv_UDPListen = [], mv_UDPAdvertise = [],
      mv_MaxConcurrent = 0, mv_BudgetKbps = 0\<rparr>"

record MeshP2POptions =
  mp_Enabled :: bool
  mp_UseUDP :: bool
  mp_UseQUIC :: bool
  mp_UseTCP :: bool
  mp_QuicServerName :: string

definition mp_zero :: MeshP2POptions where
  "mp_zero =
     \<lparr>mp_Enabled = False, mp_UseUDP = False, mp_UseQUIC = False, mp_UseTCP = False,
      mp_QuicServerName = []\<rparr>"

record MeshServerRelayOptions =
  ms_Enabled :: bool
  ms_AllowedClasses :: "string list"
  ms_DiscoveryURL :: string
  ms_BootstrapPubKey :: string

definition ms_zero :: MeshServerRelayOptions where
  "ms_zero =
     \<lparr>ms_Enabled = False, ms_AllowedClasses = [], ms_DiscoveryURL = [], ms_BootstrapPubKey = []\<rparr>"

record MeshSTUNOptions =
  mt_Enabled :: bool
  mt_Servers :: "string list"
  mt_PublishSrflx :: bool
  mt_SymmetricNatHolePunch :: bool

definition mt_zero :: MeshSTUNOptions where
  "mt_zero =
     \<lparr>mt_Enabled = False, mt_Servers = [], mt_PublishSrflx = False, mt_SymmetricNatHolePunch = False\<rparr>"

record MeshDiscoveryOptions =
  md_GossipEnabled :: bool
  md_GossipPeers :: "string list"
  md_GossipIntervalSec :: int
  md_GossipMaxAgeSec :: int
  md_DHTFindURLs :: "string list"
  md_DhtRpcListenUDP :: string
  md_DhtRpcSecret :: string
  md_DhtRpcSeedPeers :: "string list"
  md_DhtRpcIntervalSec :: int
  md_DhtRpcFindK :: int
  md_DhtIterativeRounds :: int
  md_DhtIterativeAlpha :: int

definition md_zero :: MeshDiscoveryOptions where
  "md_zero =
     \<lparr>md_GossipEnabled = False, md_GossipPeers = [], md_GossipIntervalSec = 0, md_GossipMaxAgeSec = 0,
      md_DHTFindURLs = [], md_DhtRpcListenUDP = [], md_DhtRpcSecret = [], md_DhtRpcSeedPeers = [],
      md_DhtRpcIntervalSec = 0, md_DhtRpcFindK = 0, md_DhtIterativeRounds = 0, md_DhtIterativeAlpha = 0\<rparr>"

record MeshPolicyOptions =
  my_RouteMode :: string
  my_MaxPeerHops :: int
  my_BudgetKbps :: int
  my_PathAggressive :: bool
  my_PathCooldownMs :: int
  my_HealthMaxAgeSec :: int

definition my_zero :: MeshPolicyOptions where
  "my_zero =
     \<lparr>my_RouteMode = [], my_MaxPeerHops = 0, my_BudgetKbps = 0, my_PathAggressive = False,
      my_PathCooldownMs = 0, my_HealthMaxAgeSec = 0\<rparr>"

record MeshConfig =
  me_Enabled :: bool
  me_Volunteer :: MeshVolunteerOptions
  me_P2P :: MeshP2POptions
  me_ServerRelay :: MeshServerRelayOptions
  me_STUN :: MeshSTUNOptions
  me_Discovery :: MeshDiscoveryOptions
  me_Policy :: MeshPolicyOptions

definition mesh_zero :: MeshConfig where
  "mesh_zero =
     \<lparr>me_Enabled = False, me_Volunteer = mv_zero, me_P2P = mp_zero, me_ServerRelay = ms_zero,
      me_STUN = mt_zero, me_Discovery = md_zero, me_Policy = my_zero\<rparr>"

record Config =
  cf_Server :: string
  cf_QuicServer :: string
  cf_Token :: string
  cf_Transport :: string
  cf_QuicServerName :: string
  cf_QuicSkipVerify :: "bool option"
  cf_QuicCertPinSHA256 :: string
  cf_QuicCaCert :: string
  cf_QuicTraceLog :: bool
  cf_DualTransport :: "bool option"
  cf_Routes :: string
  cf_Exclude :: string
  cf_TunCIDR6 :: string
  cf_Managed :: "ManagedClient option"
  cf_Protection :: "ProtectionOptions option"
  cf_Mesh :: "MeshConfig option"
  cf_Relay :: "RelayOptions option"
  cf_DexoteServerPub :: string

definition cf_zero :: Config where
  "cf_zero =
     \<lparr>cf_Server = [], cf_QuicServer = [], cf_Token = [], cf_Transport = [], cf_QuicServerName = [],
      cf_QuicSkipVerify = None, cf_QuicCertPinSHA256 = [], cf_QuicCaCert = [], cf_QuicTraceLog = False,
      cf_DualTransport = None, cf_Routes = [], cf_Exclude = [], cf_TunCIDR6 = [], cf_Managed = None,
      cf_Protection = None, cf_Mesh = None, cf_Relay = None, cf_DexoteServerPub = []\<rparr>"

section \<open>Relay options and mesh options\<close>

definition MeshToRelayOptions :: "MeshConfig option \<Rightarrow> RelayOptions option" where
  "MeshToRelayOptions mo =
     (case mo of
        None \<Rightarrow> None
      | Some m \<Rightarrow>
        if \<not> me_Enabled m then None
        else
          let r = ro_zero
            \<lparr>ro_PeerID := mv_PeerID (me_Volunteer m),
             ro_PrivateKey := mv_PrivateKey (me_Volunteer m),
             ro_MaxConcurrent := mv_MaxConcurrent (me_Volunteer m),
             ro_BudgetKbps := my_BudgetKbps (me_Policy m),
             ro_PeerRelayBudgetKbps := mv_BudgetKbps (me_Volunteer m),
             ro_MaxPeerHops := my_MaxPeerHops (me_Policy m),
             ro_HealthMaxAgeSec := my_HealthMaxAgeSec (me_Policy m),
             ro_PathAggressive := my_PathAggressive (me_Policy m),
             ro_PathCooldownMs := my_PathCooldownMs (me_Policy m),
             ro_GossipEnabled := md_GossipEnabled (me_Discovery m),
             ro_GossipPeers := md_GossipPeers (me_Discovery m),
             ro_GossipIntervalSec := md_GossipIntervalSec (me_Discovery m),
             ro_GossipMaxAgeSec := md_GossipMaxAgeSec (me_Discovery m),
             ro_PeerPathFromDiscovery := mp_Enabled (me_P2P m),
             ro_PeerRelayUseQUIC := (mp_Enabled (me_P2P m) \<and> mp_UseQUIC (me_P2P m)),
             ro_PeerRelayUseUDP := (mp_Enabled (me_P2P m) \<and> mp_UseUDP (me_P2P m)),
             ro_PeerRelayUseTCP := Some (mp_Enabled (me_P2P m) \<and> mp_UseTCP (me_P2P m)),
             ro_PeerQuicServerName := mp_QuicServerName (me_P2P m),
             ro_DHTFindURLs := md_DHTFindURLs (me_Discovery m),
             ro_DhtRpcListenUDP := md_DhtRpcListenUDP (me_Discovery m),
             ro_DhtRpcSecret := md_DhtRpcSecret (me_Discovery m),
             ro_DhtRpcSeedPeers := md_DhtRpcSeedPeers (me_Discovery m),
             ro_DhtRpcIntervalSec := md_DhtRpcIntervalSec (me_Discovery m),
             ro_DhtRpcFindK := md_DhtRpcFindK (me_Discovery m),
             ro_DhtIterativeRounds := md_DhtIterativeRounds (me_Discovery m),
             ro_DhtIterativeAlpha := md_DhtIterativeAlpha (me_Discovery m)\<rparr>;
              r = (if mt_Enabled (me_STUN m) then r\<lparr>ro_StunServers := mt_Servers (me_STUN m)\<rparr> else r);
              r = (if ms_Enabled (me_ServerRelay m) then
                     r\<lparr>ro_AllowedClasses := ms_AllowedClasses (me_ServerRelay m),
                       ro_DiscoveryURL := ms_DiscoveryURL (me_ServerRelay m),
                       ro_BootstrapPubKey := ms_BootstrapPubKey (me_ServerRelay m)\<rparr>
                   else r);
              r = (if mv_Enabled (me_Volunteer m) then
                     let r = r\<lparr>ro_PeerRelayUDPListen := mv_UDPListen (me_Volunteer m),
                               ro_PeerRelayUDPAdvertise := mv_UDPAdvertise (me_Volunteer m)\<rparr>
                     in if mt_Enabled (me_STUN m) then
                          r\<lparr>ro_DhtPublishSrflx := mt_PublishSrflx (me_STUN m),
                            ro_SymmetricNatHolePunch := mt_SymmetricNatHolePunch (me_STUN m)\<rparr>
                        else r
                   else r)
          in Some r)"

definition RelayOptionsHasMeshProfileData :: "RelayOptions option \<Rightarrow> bool" where
  "RelayOptionsHasMeshProfileData ro =
     (case ro of
        None \<Rightarrow> False
      | Some r \<Rightarrow>
          ro_PeerID r \<noteq> [] \<or>
          ro_DiscoveryURL r \<noteq> [] \<or>
          ro_BootstrapPubKey r \<noteq> [] \<or>
          length (ro_StunServers r) > 0 \<or>
          length (ro_GossipPeers r) > 0 \<or>
          length (ro_DHTFindURLs r) > 0 \<or>
          ro_DhtRpcListenUDP r \<noteq> [] \<or>
          ro_DhtRpcSecret r \<noteq> [] \<or>
          length (ro_DhtRpcSeedPeers r) > 0 \<or>
          ro_PeerRelayUDPListen r \<noteq> [] \<or>
          ro_PeerRelayUDPAdvertise r \<noteq> [])"

definition RelayOptionsHasCarryOverData :: "RelayOptions option \<Rightarrow> bool" where
  "RelayOptionsHasCarryOverData ro =
     (case ro of
        None \<Rightarrow> False
      | Some r \<Rightarrow>
          length (ro_TurnURLs r) > 0 \<or>
          ro_EmergencyPolicyURL r \<noteq> [] \<or>
          ro_EmergencyPolicyPubKey r \<noteq> [] \<or>
          ro_DiscoverySigned r \<noteq> [] \<or>
          length (ro_GeoAllowCountries r) > 0 \<or>
          length (ro_GeoDenyCountries r) > 0 \<or>
          ro_StakeRegistryURL r \<noteq> [] \<or>
          ro_StakeRegistryPubKey r \<noteq> [] \<or>
          ro_StakeReputationFile r \<noteq> [] \<or>
          ro_StakeBonusHTTPURL r \<noteq> [] \<or>
          ro_StakeMerkleFile r \<noteq> [] \<or>
          ro_StakeMerkleRootURL r \<noteq> [])"

definition overlay_fields :: "RelayOptions \<Rightarrow> RelayOptions \<Rightarrow> RelayOptions" where
  "overlay_fields out mapped = out
     \<lparr>ro_PeerID := ro_PeerID mapped,
      ro_PrivateKey := ro_PrivateKey mapped,
      ro_MaxConcurrent := ro_MaxConcurrent mapped,
      ro_BudgetKbps := ro_BudgetKbps mapped,
      ro_PeerRelayBudgetKbps := ro_PeerRelayBudgetKbps mapped,
      ro_MaxPeerHops := ro_MaxPeerHops mapped,
      ro_HealthMaxAgeSec := ro_HealthMaxAgeSec mapped,
      ro_AllowedClasses := ro_AllowedClasses mapped,
      ro_DiscoveryURL := ro_DiscoveryURL mapped,
      ro_BootstrapPubKey := ro_BootstrapPubKey mapped,
      ro_PathAggressive := ro_PathAggressive mapped,
      ro_PathCooldownMs := ro_PathCooldownMs mapped,
      ro_StunServers := ro_StunServers mapped,
      ro_GossipEnabled := ro_GossipEnabled mapped,
      ro_GossipPeers := ro_GossipPeers mapped,
      ro_GossipIntervalSec := ro_GossipIntervalSec mapped,
      ro_GossipMaxAgeSec := ro_GossipMaxAgeSec mapped,
      ro_PeerPathFromDiscovery := ro_PeerPathFromDiscovery mapped,
      ro_PeerRelayUseQUIC := ro_PeerRelayUseQUIC mapped,
      ro_PeerRelayUseUDP := ro_PeerRelayUseUDP mapped,
      ro_PeerRelayUseTCP := ro_PeerRelayUseTCP mapped,
      ro_PeerRelayUDPListen := ro_PeerRelayUDPListen mapped,
      ro_PeerRelayUDPAdvertise := ro_PeerRelayUDPAdvertise mapped,
      ro_PeerQuicServerName := ro_PeerQuicServerName mapped,
      ro_DHTFindURLs := ro_DHTFindURLs mapped,
      ro_DhtRpcListenUDP := ro_DhtRpcListenUDP mapped,
      ro_DhtRpcSecret := ro_DhtRpcSecret mapped,
      ro_DhtRpcSeedPeers := ro_DhtRpcSeedPeers mapped,
      ro_DhtRpcIntervalSec := ro_DhtRpcIntervalSec mapped,
      ro_DhtRpcFindK := ro_DhtRpcFindK mapped,
      ro_DhtIterativeRounds := ro_DhtIterativeRounds mapped,
      ro_DhtIterativeAlpha := ro_DhtIterativeAlpha mapped,
      ro_DhtPublishSrflx := ro_DhtPublishSrflx mapped,
      ro_SymmetricNatHolePunch := ro_SymmetricNatHolePunch mapped,
      ro_TurnURLs := ro_TurnURLs out,
      ro_DiscoverySigned := ro_DiscoverySigned out,
      ro_EmergencyPolicyURL := ro_EmergencyPolicyURL out,
      ro_EmergencyPolicyPubKey := ro_EmergencyPolicyPubKey out,
      ro_GeoAllowCountries := ro_GeoAllowCountries out,
      ro_GeoDenyCountries := ro_GeoDenyCountries out,
      ro_StakeRegistryURL := ro_StakeRegistryURL out,
      ro_StakeRegistryPubKey := ro_StakeRegistryPubKey out,
      ro_StakeReputationFile := ro_StakeReputationFile out,
      ro_StakeBonusHTTPURL := ro_StakeBonusHTTPURL out,
      ro_StakeMerkleFile := ro_StakeMerkleFile out,
      ro_StakeMerkleRootURL := ro_StakeMerkleRootURL out\<rparr>"

definition RelayOptionsWithMeshOverlay :: "RelayOptions option \<Rightarrow> MeshConfig option \<Rightarrow> RelayOptions option" where
  "RelayOptionsWithMeshOverlay legacy mesh =
     (if (case mesh of None \<Rightarrow> True | Some m \<Rightarrow> \<not> me_Enabled m) then legacy
      else
        let out = (case legacy of None \<Rightarrow> ro_zero | Some r \<Rightarrow> r) in
        case MeshToRelayOptions mesh of
          None \<Rightarrow> Some out
        | Some mapped \<Rightarrow> Some (overlay_fields out mapped))"

definition LegacyRelayCarryOver :: "RelayOptions \<Rightarrow> RelayOptions option" where
  "LegacyRelayCarryOver r =
     (let out = ro_zero
        \<lparr>ro_TurnURLs := ro_TurnURLs r,
         ro_DiscoverySigned := ro_DiscoverySigned r,
         ro_EmergencyPolicyURL := ro_EmergencyPolicyURL r,
         ro_EmergencyPolicyPubKey := ro_EmergencyPolicyPubKey r,
         ro_GeoAllowCountries := ro_GeoAllowCountries r,
         ro_GeoDenyCountries := ro_GeoDenyCountries r,
         ro_StakeRegistryURL := ro_StakeRegistryURL r,
         ro_StakeRegistryPubKey := ro_StakeRegistryPubKey r,
         ro_StakeReputationFile := ro_StakeReputationFile r,
         ro_StakeBonusHTTPURL := ro_StakeBonusHTTPURL r,
         ro_StakeMerkleFile := ro_StakeMerkleFile r,
         ro_StakeMerkleRootURL := ro_StakeMerkleRootURL r\<rparr>
      in if \<not> RelayOptionsHasCarryOverData (Some out) then None else Some out)"

definition RelayOptionsToMesh :: "RelayOptions option \<Rightarrow> MeshConfig option \<Rightarrow> MeshConfig" where
  "RelayOptionsToMesh ro base =
     (let base = (case base of None \<Rightarrow> mesh_zero\<lparr>me_Enabled := True\<rparr> | Some b \<Rightarrow> b);
          out = base\<lparr>me_Enabled := True\<rparr>
      in case ro of
           None \<Rightarrow> out
         | Some r \<Rightarrow> out
           \<lparr>me_Volunteer := me_Volunteer out
             \<lparr>mv_PeerID := ro_PeerID r,
              mv_PrivateKey := ro_PrivateKey r,
              mv_UDPListen := ro_PeerRelayUDPListen r,
              mv_UDPAdvertise := ro_PeerRelayUDPAdvertise r,
              mv_MaxConcurrent := ro_MaxConcurrent r,
              mv_BudgetKbps := (if ro_PeerRelayBudgetKbps r \<le> 0 then ro_BudgetKbps r else ro_PeerRelayBudgetKbps r),
              mv_Enabled := (ro_PeerRelayUDPListen r \<noteq> [] \<or> ro_PeerRelayUDPAdvertise r \<noteq> [])\<rparr>,
            me_P2P := me_P2P out
             \<lparr>mp_Enabled := ro_PeerPathFromDiscovery r,
              mp_UseUDP := ro_PeerRelayUseUDP r,
              mp_UseQUIC := ro_PeerRelayUseQUIC r,
              mp_UseTCP := (case ro_PeerRelayUseTCP r of None \<Rightarrow> True | Some v \<Rightarrow> v),
              mp_QuicServerName := ro_PeerQuicServerName r\<rparr>,
            me_ServerRelay := me_ServerRelay out
             \<lparr>ms_Enabled := True,
              ms_AllowedClasses := ro_AllowedClasses r,
              ms_DiscoveryURL := ro_DiscoveryURL r,
              ms_BootstrapPubKey := ro_BootstrapPubKey r\<rparr>,
            me_STUN := me_STUN out
             \<lparr>mt_Enabled := (length (ro_StunServers r) > 0 \<or> ro_DhtPublishSrflx r \<or> ro_SymmetricNatHolePunch r),
              mt_Servers := ro_StunServers r,
              mt_PublishSrflx := ro_DhtPublishSrflx r,
              mt_SymmetricNatHolePunch := ro_SymmetricNatHolePunch r\<rparr>,
            me_Discovery := me_Discovery out
             \<lparr>md_GossipEnabled := ro_GossipEnabled r,
              md_GossipPeers := ro_GossipPeers r,
              md_GossipIntervalSec := ro_GossipIntervalSec r,
              md_GossipMaxAgeSec := ro_GossipMaxAgeSec r,
              md_DHTFindURLs := ro_DHTFindURLs r,
              md_DhtRpcListenUDP := ro_DhtRpcListenUDP r,
              md_DhtRpcSecret := ro_DhtRpcSecret r,
              md_DhtRpcSeedPeers := ro_DhtRpcSeedPeers r,
              md_DhtRpcIntervalSec := ro_DhtRpcIntervalSec r,
              md_DhtRpcFindK := ro_DhtRpcFindK r,
              md_DhtIterativeRounds := ro_DhtIterativeRounds r,
              md_DhtIterativeAlpha := ro_DhtIterativeAlpha r\<rparr>,
            me_Policy := me_Policy out
             \<lparr>my_PathAggressive := ro_PathAggressive r,
              my_PathCooldownMs := ro_PathCooldownMs r,
              my_MaxPeerHops := ro_MaxPeerHops r,
              my_BudgetKbps := ro_BudgetKbps r,
              my_HealthMaxAgeSec := ro_HealthMaxAgeSec r\<rparr>\<rparr>)"

section \<open>Profiles\<close>

definition VolunteerEnabled :: "MeshConfig option \<Rightarrow> bool" where
  "VolunteerEnabled m = (case m of None \<Rightarrow> False | Some m \<Rightarrow> me_Enabled m \<and> mv_Enabled (me_Volunteer m))"

definition P2PEnabled :: "MeshConfig option \<Rightarrow> bool" where
  "P2PEnabled m = (case m of None \<Rightarrow> False | Some m \<Rightarrow> me_Enabled m \<and> mp_Enabled (me_P2P m))"

definition ServerRelayEnabled :: "MeshConfig option \<Rightarrow> bool" where
  "ServerRelayEnabled m = (case m of None \<Rightarrow> False | Some m \<Rightarrow> me_Enabled m \<and> ms_Enabled (me_ServerRelay m))"

definition RelayOptionsHasProfileData :: "RelayOptions option \<Rightarrow> bool" where
  "RelayOptionsHasProfileData r \<longleftrightarrow> RelayOptionsHasMeshProfileData r \<or> RelayOptionsHasCarryOverData r"

definition mesh_on :: "Config \<Rightarrow> bool" where
  "mesh_on cfg \<longleftrightarrow> (case cf_Mesh cfg of None \<Rightarrow> False | Some m \<Rightarrow> me_Enabled m)"

definition EffectiveRelayOptions :: "Config option \<Rightarrow> RelayOptions option" where
  "EffectiveRelayOptions co =
     (case co of
        None \<Rightarrow> None
      | Some cfg \<Rightarrow>
        if mesh_on cfg then RelayOptionsWithMeshOverlay (cf_Relay cfg) (cf_Mesh cfg) else cf_Relay cfg)"

definition MigrateLegacyRelayToMeshInPlace :: "Config \<Rightarrow> bool \<times> Config" where
  "MigrateLegacyRelayToMeshInPlace cfg =
     (case cf_Relay cfg of
        None \<Rightarrow> (False, cfg)
      | Some r \<Rightarrow>
        if mesh_on cfg then (False, cfg)
        else if \<not> RelayOptionsHasMeshProfileData (Some r) then (False, cfg)
        else (True, cfg\<lparr>cf_Mesh := Some (RelayOptionsToMesh (Some r) (cf_Mesh cfg)),
                         cf_Relay := LegacyRelayCarryOver r\<rparr>))"

text \<open>
  The JSON decoder of the mesh section turns on what the text does not mention; \<open>has obj key\<close>
  is \<^verbatim>\<open>jsonHas\<close> on the text.
\<close>

definition mesh_json_defaults :: "(string \<Rightarrow> string \<Rightarrow> bool) \<Rightarrow> MeshConfig \<Rightarrow> MeshConfig" where
  "mesh_json_defaults has a =
     (let a = (if \<not> has ''stun'' ''enabled'' then a\<lparr>me_STUN := me_STUN a\<lparr>mt_Enabled := True\<rparr>\<rparr> else a);
          a = (if \<not> has ''serverRelay'' ''enabled''
               then a\<lparr>me_ServerRelay := me_ServerRelay a\<lparr>ms_Enabled := True\<rparr>\<rparr> else a);
          a = (if \<not> has ''p2p'' ''useUdp'' then a\<lparr>me_P2P := me_P2P a\<lparr>mp_UseUDP := True\<rparr>\<rparr> else a);
          a = (if \<not> has ''p2p'' ''useQuic'' then a\<lparr>me_P2P := me_P2P a\<lparr>mp_UseQUIC := True\<rparr>\<rparr> else a)
      in if \<not> has ''p2p'' ''useTcp'' then a\<lparr>me_P2P := me_P2P a\<lparr>mp_UseTCP := True\<rparr>\<rparr> else a)"

section \<open>Defaults\<close>

definition DefaultSTUNServerList :: "string list" where
  "DefaultSTUNServerList =
     fold (\<lambda>s out. let s = trim_space s in if s = [] \<or> s \<in> set out then out else out @ [s])
       (DefaultSTUNServers @ [''stun.cloudflare.com:3478'', ''stun1.l.google.com:19302'']) []"

definition DefaultMeshAllowedClasses :: "string list" where
  "DefaultMeshAllowedClasses = [''server'', ''peer'']"

definition list_or :: "'a list \<Rightarrow> 'a list \<Rightarrow> 'a list" where
  "list_or l d = (if length l = 0 then d else l)"

text \<open>The sections in turn: they depend on each other only through the enabled flags.\<close>

definition stun_defaults :: "bool \<Rightarrow> MeshSTUNOptions \<Rightarrow> MeshSTUNOptions" where
  "stun_defaults volunteer s =
     (let s = s\<lparr>mt_Enabled := True, mt_Servers := list_or (mt_Servers s) DefaultSTUNServerList\<rparr>
      in if volunteer then s\<lparr>mt_PublishSrflx := True, mt_SymmetricNatHolePunch := True\<rparr> else s)"

definition p2p_defaults :: "MeshP2POptions \<Rightarrow> MeshP2POptions" where
  "p2p_defaults p =
     (if mp_Enabled p \<and> \<not> mp_UseUDP p \<and> \<not> mp_UseQUIC p \<and> \<not> mp_UseTCP p
      then p\<lparr>mp_UseUDP := True, mp_UseQUIC := True, mp_UseTCP := True\<rparr> else p)"

definition policy_defaults :: "MeshPolicyOptions \<Rightarrow> MeshPolicyOptions" where
  "policy_defaults y = y
     \<lparr>my_MaxPeerHops := nonpos_or (my_MaxPeerHops y) 2, my_HealthMaxAgeSec := nonpos_or (my_HealthMaxAgeSec y) 300,
      my_RouteMode := blank_or (my_RouteMode y) ''auto'', my_BudgetKbps := nonpos_or (my_BudgetKbps y) 2048\<rparr>"

definition discovery_defaults :: "bool \<Rightarrow> MeshDiscoveryOptions \<Rightarrow> MeshDiscoveryOptions" where
  "discovery_defaults gossip d =
     (let d = d\<lparr>md_GossipIntervalSec := nonpos_or (md_GossipIntervalSec d) 180,
                md_GossipMaxAgeSec := nonpos_or (md_GossipMaxAgeSec d) 900,
                md_DhtRpcIntervalSec := nonpos_or (md_DhtRpcIntervalSec d) 120,
                md_DhtRpcFindK := nonpos_or (md_DhtRpcFindK d) 20,
                md_DhtIterativeAlpha := nonpos_or (md_DhtIterativeAlpha d) 3\<rparr>
      in if gossip then d\<lparr>md_GossipEnabled := True\<rparr> else d)"

definition volunteer_defaults :: "string \<Rightarrow> MeshVolunteerOptions \<Rightarrow> MeshVolunteerOptions" where
  "volunteer_defaults randomPeerID v =
     (if mv_Enabled v then
        v\<lparr>mv_PeerID := blank_or (mv_PeerID v) randomPeerID, mv_UDPListen := blank_or (mv_UDPListen v) ''0.0.0.0:0'',
          mv_MaxConcurrent := nonpos_or (mv_MaxConcurrent v) 32, mv_BudgetKbps := nonpos_or (mv_BudgetKbps v) 768\<rparr>
      else v)"

definition ApplyMeshDefaults :: "string \<Rightarrow> MeshConfig \<Rightarrow> MeshConfig" where
  "ApplyMeshDefaults randomPeerID m =
     (if \<not> me_Enabled m then m
      else
        let volunteer = mv_Enabled (me_Volunteer m)
        in m\<lparr>me_STUN := stun_defaults volunteer (me_STUN m),
             me_ServerRelay := (me_ServerRelay m)\<lparr>ms_Enabled := True,
               ms_AllowedClasses := list_or (ms_AllowedClasses (me_ServerRelay m)) DefaultMeshAllowedClasses\<rparr>,
             me_P2P := p2p_defaults (me_P2P m),
             me_Policy := policy_defaults (me_Policy m),
             me_Discovery := discovery_defaults (mp_Enabled (me_P2P m) \<or> volunteer) (me_Discovery m),
             me_Volunteer := volunteer_defaults randomPeerID (me_Volunteer m)\<rparr>)"

definition ApplyRelayDefaults :: "string \<Rightarrow> RelayOptions \<Rightarrow> RelayOptions" where
  "ApplyRelayDefaults randomPeerID r =
     (let r = r\<lparr>ro_StunServers := list_or (ro_StunServers r) DefaultSTUNServerList,
                ro_AllowedClasses := list_or (ro_AllowedClasses r) DefaultMeshAllowedClasses,
                ro_MaxPeerHops := nonpos_or (ro_MaxPeerHops r) 2,
                ro_HealthMaxAgeSec := nonpos_or (ro_HealthMaxAgeSec r) 300,
                ro_GossipIntervalSec := nonpos_or (ro_GossipIntervalSec r) 180,
                ro_GossipMaxAgeSec := nonpos_or (ro_GossipMaxAgeSec r) 900,
                ro_DhtRpcIntervalSec := nonpos_or (ro_DhtRpcIntervalSec r) 120,
                ro_DhtRpcFindK := nonpos_or (ro_DhtRpcFindK r) 20,
                ro_DhtIterativeAlpha := nonpos_or (ro_DhtIterativeAlpha r) 3,
                ro_MaxConcurrent := nonpos_or (ro_MaxConcurrent r) 32,
                ro_PeerRelayBudgetKbps := nonpos_or (ro_PeerRelayBudgetKbps r) 768,
                ro_BudgetKbps := nonpos_or (ro_BudgetKbps r) 2048,
                ro_PeerID := blank_or (ro_PeerID r) randomPeerID\<rparr>;
          r = (if trim_space (ro_PeerRelayUDPListen r) = [] \<and> ro_PeerRelayUseUDP r
               then r\<lparr>ro_PeerRelayUDPListen := ''0.0.0.0:0''\<rparr> else r);
          r = (if \<not> ro_PeerPathFromDiscovery r \<and> \<not> ro_GossipEnabled r
               then r\<lparr>ro_PeerPathFromDiscovery := True\<rparr> else r);
          r = r\<lparr>ro_DhtPublishSrflx := True, ro_SymmetricNatHolePunch := True\<rparr>;
          r = (if ro_PeerRelayUseTCP r = None then r\<lparr>ro_PeerRelayUseTCP := Some True\<rparr> else r)
      in if \<not> ro_PeerRelayUseUDP r \<and> \<not> ro_PeerRelayUseQUIC r \<and> ro_PeerRelayUseTCP r \<in> {None, Some True}
         then r\<lparr>ro_PeerRelayUseUDP := True\<rparr> else r)"

section \<open>Properties\<close>

lemma mapped_fields:
  assumes "MeshToRelayOptions (Some m) = Some x"
  shows "ro_PeerID x = mv_PeerID (me_Volunteer m) \<and>
    ro_PrivateKey x = mv_PrivateKey (me_Volunteer m) \<and>
    ro_MaxConcurrent x = mv_MaxConcurrent (me_Volunteer m) \<and>
    ro_BudgetKbps x = my_BudgetKbps (me_Policy m) \<and>
    ro_PeerRelayBudgetKbps x = mv_BudgetKbps (me_Volunteer m) \<and>
    ro_MaxPeerHops x = my_MaxPeerHops (me_Policy m) \<and>
    ro_HealthMaxAgeSec x = my_HealthMaxAgeSec (me_Policy m) \<and>
    ro_PathAggressive x = my_PathAggressive (me_Policy m) \<and>
    ro_PathCooldownMs x = my_PathCooldownMs (me_Policy m) \<and>
    ro_GossipEnabled x = md_GossipEnabled (me_Discovery m) \<and>
    ro_GossipPeers x = md_GossipPeers (me_Discovery m) \<and>
    ro_GossipIntervalSec x = md_GossipIntervalSec (me_Discovery m) \<and>
    ro_GossipMaxAgeSec x = md_GossipMaxAgeSec (me_Discovery m) \<and>
    ro_PeerPathFromDiscovery x = mp_Enabled (me_P2P m) \<and>
    ro_PeerRelayUseQUIC x = (mp_Enabled (me_P2P m) \<and> mp_UseQUIC (me_P2P m)) \<and>
    ro_PeerRelayUseUDP x = (mp_Enabled (me_P2P m) \<and> mp_UseUDP (me_P2P m)) \<and>
    ro_PeerRelayUseTCP x = Some (mp_Enabled (me_P2P m) \<and> mp_UseTCP (me_P2P m)) \<and>
    ro_PeerQuicServerName x = mp_QuicServerName (me_P2P m) \<and>
    ro_DHTFindURLs x = md_DHTFindURLs (me_Discovery m) \<and>
    ro_DhtRpcListenUDP x = md_DhtRpcListenUDP (me_Discovery m) \<and>
    ro_DhtRpcSecret x = md_DhtRpcSecret (me_Discovery m) \<and>
    ro_DhtRpcSeedPeers x = md_DhtRpcSeedPeers (me_Discovery m) \<and>
    ro_DhtRpcIntervalSec x = md_DhtRpcIntervalSec (me_Discovery m) \<and>
    ro_DhtRpcFindK x = md_DhtRpcFindK (me_Discovery m) \<and>
    ro_DhtIterativeRounds x = md_DhtIterativeRounds (me_Discovery m) \<and>
    ro_DhtIterativeAlpha x = md_DhtIterativeAlpha (me_Discovery m) \<and>
    ro_StunServers x = (if mt_Enabled (me_STUN m) then mt_Servers (me_STUN m) else []) \<and>
    ro_AllowedClasses x = (if ms_Enabled (me_ServerRelay m) then ms_AllowedClasses (me_ServerRelay m) else []) \<and>
    ro_DiscoveryURL x = (if ms_Enabled (me_ServerRelay m) then ms_DiscoveryURL (me_ServerRelay m) else []) \<and>
    ro_BootstrapPubKey x = (if ms_Enabled (me_ServerRelay m) then ms_BootstrapPubKey (me_ServerRelay m) else []) \<and>
    ro_PeerRelayUDPListen x = (if mv_Enabled (me_Volunteer m) then mv_UDPListen (me_Volunteer m) else []) \<and>
    ro_PeerRelayUDPAdvertise x = (if mv_Enabled (me_Volunteer m) then mv_UDPAdvertise (me_Volunteer m) else []) \<and>
    ro_DhtPublishSrflx x = (mv_Enabled (me_Volunteer m) \<and> mt_Enabled (me_STUN m) \<and> mt_PublishSrflx (me_STUN m)) \<and>
    ro_SymmetricNatHolePunch x = (mv_Enabled (me_Volunteer m) \<and> mt_Enabled (me_STUN m) \<and> mt_SymmetricNatHolePunch (me_STUN m))"
proof -
  have on: "me_Enabled m" using assms by (cases "me_Enabled m") (simp_all add: MeshToRelayOptions_def)
  show ?thesis
    using assms on
    by (cases "mt_Enabled (me_STUN m)"; cases "ms_Enabled (me_ServerRelay m)"; cases "mv_Enabled (me_Volunteer m)";
        clarsimp simp: MeshToRelayOptions_def Let_def ro_zero_def)
qed

definition to_mesh_and_back :: "RelayOptions \<Rightarrow> RelayOptions" where
  "to_mesh_and_back r = r
    \<lparr>ro_PeerRelayUseQUIC := (ro_PeerPathFromDiscovery r \<and> ro_PeerRelayUseQUIC r),
     ro_PeerRelayUseUDP := (ro_PeerPathFromDiscovery r \<and> ro_PeerRelayUseUDP r),
     ro_PeerRelayUseTCP := Some (ro_PeerPathFromDiscovery r \<and> ro_PeerRelayUseTCP r \<noteq> Some False),
     ro_PeerRelayBudgetKbps := (if ro_PeerRelayBudgetKbps r \<le> 0 then ro_BudgetKbps r else ro_PeerRelayBudgetKbps r),
     ro_DhtPublishSrflx := (ro_DhtPublishSrflx r \<and> (ro_PeerRelayUDPListen r \<noteq> [] \<or> ro_PeerRelayUDPAdvertise r \<noteq> [])),
     ro_SymmetricNatHolePunch :=
       (ro_SymmetricNatHolePunch r \<and> (ro_PeerRelayUDPListen r \<noteq> [] \<or> ro_PeerRelayUDPAdvertise r \<noteq> [])),
     ro_StakeMin := 0\<rparr>"

definition carry_fields :: "RelayOptions \<Rightarrow> RelayOptions" where
  "carry_fields r = ro_zero
     \<lparr>ro_TurnURLs := ro_TurnURLs r, ro_DiscoverySigned := ro_DiscoverySigned r,
      ro_EmergencyPolicyURL := ro_EmergencyPolicyURL r, ro_EmergencyPolicyPubKey := ro_EmergencyPolicyPubKey r,
      ro_GeoAllowCountries := ro_GeoAllowCountries r, ro_GeoDenyCountries := ro_GeoDenyCountries r,
      ro_StakeRegistryURL := ro_StakeRegistryURL r, ro_StakeRegistryPubKey := ro_StakeRegistryPubKey r,
      ro_StakeReputationFile := ro_StakeReputationFile r, ro_StakeBonusHTTPURL := ro_StakeBonusHTTPURL r,
      ro_StakeMerkleFile := ro_StakeMerkleFile r, ro_StakeMerkleRootURL := ro_StakeMerkleRootURL r\<rparr>"

lemma carry_over_cases: "(case LegacyRelayCarryOver r of None \<Rightarrow> ro_zero | Some c \<Rightarrow> c) = carry_fields r"
proof (cases "RelayOptionsHasCarryOverData (Some (carry_fields r))")
  case True
  then show ?thesis by (simp add: LegacyRelayCarryOver_def Let_def flip: carry_fields_def)
next
  case False
  then have "carry_fields r = ro_zero"
    by (simp add: RelayOptionsHasCarryOverData_def carry_fields_def ro_zero_def)
  then show ?thesis using False by (simp add: LegacyRelayCarryOver_def Let_def flip: carry_fields_def)
qed

text \<open>
  C13. What the migration of an old profile does, exactly: the effective relay options afterwards are those of
  before, except that the peer transports count only with peer paths from discovery, publishing and hole punching
  only for a volunteer, a peer-relay budget of none is the general budget, and the minimum stake is lost.
\<close>

theorem migration_exact:
  assumes "cf_Mesh cfg = None" and "cf_Relay cfg = Some r" and "RelayOptionsHasMeshProfileData (Some r)"
  shows "EffectiveRelayOptions (Some (snd (MigrateLegacyRelayToMeshInPlace cfg))) = Some (r
    \<lparr>ro_PeerRelayUseQUIC := (ro_PeerPathFromDiscovery r \<and> ro_PeerRelayUseQUIC r),
     ro_PeerRelayUseUDP := (ro_PeerPathFromDiscovery r \<and> ro_PeerRelayUseUDP r),
     ro_PeerRelayUseTCP := Some (ro_PeerPathFromDiscovery r \<and> ro_PeerRelayUseTCP r \<noteq> Some False),
     ro_PeerRelayBudgetKbps := (if ro_PeerRelayBudgetKbps r \<le> 0 then ro_BudgetKbps r else ro_PeerRelayBudgetKbps r),
     ro_DhtPublishSrflx := (ro_DhtPublishSrflx r \<and> (ro_PeerRelayUDPListen r \<noteq> [] \<or> ro_PeerRelayUDPAdvertise r \<noteq> [])),
     ro_SymmetricNatHolePunch :=
       (ro_SymmetricNatHolePunch r \<and> (ro_PeerRelayUDPListen r \<noteq> [] \<or> ro_PeerRelayUDPAdvertise r \<noteq> [])),
     ro_StakeMin := 0\<rparr>)"
proof -
  let ?m = "RelayOptionsToMesh (Some r) None"
  have on: "me_Enabled ?m" by (simp add: RelayOptionsToMesh_def Let_def)
  have mig: "snd (MigrateLegacyRelayToMeshInPlace cfg) = cfg\<lparr>cf_Mesh := Some ?m, cf_Relay := LegacyRelayCarryOver r\<rparr>"
    using assms by (simp add: MigrateLegacyRelayToMeshInPlace_def mesh_on_def)
  obtain mapped where mapped: "MeshToRelayOptions (Some ?m) = Some mapped"
    using on by (simp add: MeshToRelayOptions_def Let_def)
  have "RelayOptionsWithMeshOverlay (LegacyRelayCarryOver r) (Some ?m) = Some (to_mesh_and_back r)"
  proof -
    note M = mapped_fields [OF mapped]
    have S: "me_Volunteer ?m = \<lparr>mv_Enabled = (ro_PeerRelayUDPListen r \<noteq> [] \<or> ro_PeerRelayUDPAdvertise r \<noteq> []),
        mv_PeerID = ro_PeerID r, mv_PrivateKey = ro_PrivateKey r, mv_UDPListen = ro_PeerRelayUDPListen r,
        mv_UDPAdvertise = ro_PeerRelayUDPAdvertise r, mv_MaxConcurrent = ro_MaxConcurrent r,
        mv_BudgetKbps = (if ro_PeerRelayBudgetKbps r \<le> 0 then ro_BudgetKbps r else ro_PeerRelayBudgetKbps r)\<rparr>"
      "me_STUN ?m = \<lparr>mt_Enabled = (length (ro_StunServers r) > 0 \<or> ro_DhtPublishSrflx r \<or> ro_SymmetricNatHolePunch r),
        mt_Servers = ro_StunServers r, mt_PublishSrflx = ro_DhtPublishSrflx r,
        mt_SymmetricNatHolePunch = ro_SymmetricNatHolePunch r\<rparr>"
      by (simp_all add: RelayOptionsToMesh_def Let_def mesh_zero_def mv_zero_def mt_zero_def)
    have stun: "(if length (ro_StunServers r) > 0 \<or> ro_DhtPublishSrflx r \<or> ro_SymmetricNatHolePunch r
        then ro_StunServers r else []) = ro_StunServers r" by simp
    have vol: "(if ro_PeerRelayUDPListen r \<noteq> [] \<or> ro_PeerRelayUDPAdvertise r \<noteq> [] then ro_PeerRelayUDPListen r else []) = ro_PeerRelayUDPListen r"
      "(if ro_PeerRelayUDPListen r \<noteq> [] \<or> ro_PeerRelayUDPAdvertise r \<noteq> [] then ro_PeerRelayUDPAdvertise r else []) = ro_PeerRelayUDPAdvertise r"
      by auto
    have "overlay_fields (carry_fields r) mapped = to_mesh_and_back r"
    proof (rule RelayOptions.equality)
    qed (simp_all add: overlay_fields_def carry_fields_def to_mesh_and_back_def ro_zero_def M S stun vol,
        auto simp: RelayOptionsToMesh_def Let_def split: option.splits)
    then show ?thesis using mapped on
      by (simp only: RelayOptionsWithMeshOverlay_def carry_over_cases option.case Let_def if_False simp_thms)
  qed
  then show ?thesis unfolding mig by (simp add: EffectiveRelayOptions_def mesh_on_def on to_mesh_and_back_def)
qed

theorem migration_exact_witness:
  "EffectiveRelayOptions (Some (snd (MigrateLegacyRelayToMeshInPlace
     (cf_zero\<lparr>cf_Relay := Some (ro_zero\<lparr>ro_PeerID := ''me'', ro_StakeMin := 5\<rparr>)\<rparr>)))) =
   Some (ro_zero\<lparr>ro_PeerID := ''me'', ro_PeerRelayUseTCP := Some False\<rparr>)"
  by (subst migration_exact [where r = "ro_zero\<lparr>ro_PeerID := ''me'', ro_StakeMin := 5\<rparr>"])
    (simp_all add: cf_zero_def ro_zero_def RelayOptionsHasMeshProfileData_def)

lemma section_defaults_idem:
  "stun_defaults v (stun_defaults v s) = stun_defaults v s"
  "p2p_defaults (p2p_defaults p) = p2p_defaults p" "mp_Enabled (p2p_defaults p) = mp_Enabled p"
  "policy_defaults (policy_defaults y) = policy_defaults y"
  "discovery_defaults g (discovery_defaults g d) = discovery_defaults g d"
  "mv_Enabled (volunteer_defaults i w) = mv_Enabled w"
  by (simp_all add: stun_defaults_def p2p_defaults_def policy_defaults_def discovery_defaults_def volunteer_defaults_def
      Let_def list_or_def)

lemma volunteer_defaults_idem:
  assumes "trim_space i \<noteq> []"
  shows "volunteer_defaults j (volunteer_defaults i w) = volunteer_defaults i w"
proof -
  have "blank_or (blank_or s i) j = blank_or s i" for s using assms by (simp add: blank_or_def)
  then show ?thesis by (simp add: volunteer_defaults_def)
qed

text \<open>
  The mesh defaults leave every limit and interval positive, a way to reach peers when peer paths are on, and a
  STUN server; applying them again, with whatever random identifier, changes nothing.
\<close>

theorem mesh_defaults_sound:
  assumes "me_Enabled m" and "trim_space i \<noteq> []"
  shows "let d = ApplyMeshDefaults i m in
    0 < my_MaxPeerHops (me_Policy d) \<and> 0 < my_HealthMaxAgeSec (me_Policy d) \<and> 0 < my_BudgetKbps (me_Policy d) \<and>
    0 < md_GossipIntervalSec (me_Discovery d) \<and> 0 < md_DhtRpcFindK (me_Discovery d) \<and>
    mt_Servers (me_STUN d) \<noteq> [] \<and>
    (mp_Enabled (me_P2P d) \<longrightarrow> mp_UseUDP (me_P2P d) \<or> mp_UseQUIC (me_P2P d) \<or> mp_UseTCP (me_P2P d)) \<and>
    (mv_Enabled (me_Volunteer d) \<longrightarrow>
       trim_space (mv_PeerID (me_Volunteer d)) \<noteq> [] \<and> 0 < mv_MaxConcurrent (me_Volunteer d) \<and> md_GossipEnabled (me_Discovery d)) \<and>
    ApplyMeshDefaults j d = d"
proof -
  have s: "DefaultSTUNServerList \<noteq> []" by code_simp
  have idem: "ApplyMeshDefaults j (ApplyMeshDefaults i m) = ApplyMeshDefaults i m"
    using assms(1) by (simp add: ApplyMeshDefaults_def Let_def section_defaults_idem volunteer_defaults_idem [OF assms(2)] list_or_def)
  have pos: "0 < nonpos_or v d" if "0 < d" for v d :: int using that by (rule nonpos_or_pos)
  show ?thesis
    unfolding Let_def idem
    using assms s
    by (simp add: ApplyMeshDefaults_def Let_def stun_defaults_def p2p_defaults_def policy_defaults_def discovery_defaults_def
        volunteer_defaults_def list_or_def pos blank_or_text)
qed

theorem mesh_defaults_sound_witness:
  "0 < my_MaxPeerHops (me_Policy (ApplyMeshDefaults ''peer-1'' (mesh_zero\<lparr>me_Enabled := True\<rparr>)))"
proof -
  have "trim_space ''peer-1'' \<noteq> []" by code_simp
  with mesh_defaults_sound [of "mesh_zero\<lparr>me_Enabled := True\<rparr>" "''peer-1''"] show ?thesis
    by (simp add: Let_def mesh_zero_def)
qed

text \<open>
  The relay defaults are order dependent: UDP relaying is turned on after the listen address was filled in, so a
  profile without transports is left with UDP on and no address, and a second application changes it.
\<close>

theorem relay_defaults_not_idempotent:
  "let d = ApplyRelayDefaults ''peer-1'' ro_zero in
   ro_PeerRelayUseUDP d \<and> ro_PeerRelayUDPListen d = [] \<and>
   ro_PeerRelayUDPListen (ApplyRelayDefaults ''peer-1'' d) = ''0.0.0.0:0''"
  by code_simp

end
