(* ===== verification/GoUrl.thy ===== *)
theory GoUrl
  imports GoStd
begin

text \<open>
  More of Go's standard library on text: base64 without padding and with the URL alphabet, trimming by a
  set of characters, and \<^verbatim>\<open>strings.Fields\<close>.
\<close>

section \<open>Base64 without padding\<close>

definition b64_raw_decode :: "string \<Rightarrow> bytes option" where
  "b64_raw_decode s =
     (let f = filter (\<lambda>c. c \<noteq> CHR 0x0A \<and> c \<noteq> CHR 0x0D) s in
      if CHR ''='' \<in> set f \<or> length f mod 4 = 1 then None
      else b64_groups (f @ replicate ((4 - length f mod 4) mod 4) (CHR ''='')))"

lemma b64_char_not_pad: "n < 64 \<Longrightarrow> b64_char n \<noteq> CHR ''=''"
proof
  assume "n < 64" "b64_char n = CHR ''=''"
  then show False using b64_val_char [of n] b64_val_pad by simp
qed

lemma b64_encode_padded:
  "b64_encode bs = b64_encode_raw bs @ replicate ((4 - length (b64_encode_raw bs) mod 4) mod 4) (CHR ''='') \<and>
   length (b64_encode_raw bs) mod 4 \<noteq> 1"
proof (induction bs rule: b64_encode.induct)
  case (2 a)
  show ?case by (simp add: b64_encode_raw_def b64_char_not_pad b64_byte_digits numeral_2_eq_2)
next
  case (3 a b)
  show ?case by (simp add: b64_encode_raw_def b64_char_not_pad b64_byte_digits)
next
  case (4 a b c r)
  have l: "Suc (Suc (Suc (Suc n))) mod 4 = n mod 4" for n :: nat by presburger
  show ?case using 4 by (simp add: b64_encode_raw_def b64_char_not_pad b64_byte_digits l)
qed (simp add: b64_encode_raw_def)

lemma plain_b64_raw: "list_all plain_char (b64_encode_raw bs)"
  using plain_b64_encode [of bs] unfolding b64_encode_raw_def list_all_iff by (metis set_takeWhileD)

lemma b64_raw_decode_encode [simp]: "b64_raw_decode (b64_encode_raw bs) = Some bs"
proof -
  have f: "filter (\<lambda>c. c \<noteq> CHR 0x0A \<and> c \<noteq> CHR 0x0D) (b64_encode_raw bs) = b64_encode_raw bs"
    using plain_b64_raw [of bs] by (auto simp: filter_id_conv list_all_iff plain_char_def)
  have "CHR ''='' \<notin> set (b64_encode_raw bs)" by (auto simp: b64_encode_raw_def dest: set_takeWhileD)
  then show ?thesis
    using b64_encode_padded [of bs] b64_groups_encode [of bs]
    by (simp add: b64_raw_decode_def f)
qed

section \<open>The URL alphabet\<close>

definition to_url :: "char \<Rightarrow> char" where
  "to_url c = (if c = CHR ''+'' then CHR ''-'' else if c = CHR ''/'' then CHR ''_'' else c)"

definition from_url :: "char \<Rightarrow> char" where
  "from_url c = (if c = CHR ''-'' then CHR ''+'' else if c = CHR ''_'' then CHR ''/'' else c)"

definition url_text :: "string \<Rightarrow> bool" where
  "url_text s \<longleftrightarrow> CHR ''+'' \<notin> set s \<and> CHR ''/'' \<notin> set s"

definition b64_raw_url_encode :: "bytes \<Rightarrow> string" where
  "b64_raw_url_encode bs = map to_url (b64_encode_raw bs)"

definition b64_raw_url_decode :: "string \<Rightarrow> bytes option" where
  "b64_raw_url_decode s = (if url_text s then b64_raw_decode (map from_url s) else None)"

definition b64_url_decode :: "string \<Rightarrow> bytes option" where
  "b64_url_decode s = (if url_text s then b64_decode (map from_url s) else None)"

lemma b64_char_alphabet: "list_all (\<lambda>n. b64_char n \<notin> {CHR ''-'', CHR ''_'', CHR ''?'', CHR ''#''}) [0..<64]"
  by code_simp

lemma b64_raw_chars: "c \<in> set (b64_encode bs) \<Longrightarrow> c \<notin> {CHR ''-'', CHR ''_'', CHR ''?'', CHR ''#''}"
proof (induction bs rule: b64_encode.induct)
  case (2 a)
  then show ?case using b64_char_alphabet by (auto simp: list_all_iff b64_byte_digits)
next
  case (3 a b)
  then show ?case using b64_char_alphabet by (auto simp: list_all_iff b64_byte_digits)
next
  case (4 a b c r)
  then show ?case using b64_char_alphabet by (auto simp: list_all_iff b64_byte_digits)
qed simp

lemma b64_raw_url_decode_encode [simp]: "b64_raw_url_decode (b64_raw_url_encode bs) = Some bs"
proof -
  have c: "c \<noteq> CHR ''-'' \<and> c \<noteq> CHR ''_''" if "c \<in> set (b64_encode_raw bs)" for c
    using that b64_raw_chars [of c bs] by (auto simp: b64_encode_raw_def dest: set_takeWhileD)
  have u: "url_text (b64_raw_url_encode bs)"
    by (auto simp: url_text_def b64_raw_url_encode_def to_url_def split: if_splits)
  have "map from_url (b64_raw_url_encode bs) = b64_encode_raw bs"
    unfolding b64_raw_url_encode_def map_map by (rule map_idI) (auto simp: to_url_def from_url_def dest: c)
  then show ?thesis using u by (simp add: b64_raw_url_decode_def)
qed

lemma no_query_b64_url: "c \<in> set (b64_raw_url_encode bs) \<Longrightarrow> c \<noteq> CHR ''?'' \<and> c \<noteq> CHR ''#''"
  using b64_raw_chars by (fastforce simp: b64_raw_url_encode_def b64_encode_raw_def to_url_def dest: set_takeWhileD split: if_splits)

lemma b64_raw_url_Nil: "b64_raw_url_encode bs = [] \<longleftrightarrow> bs = []"
  using b64_raw_url_decode_encode [of bs] b64_raw_url_decode_encode [of "[]"]
  by (auto simp: b64_raw_url_encode_def b64_encode_raw_def)

lemma plain_url: "plain_char c \<Longrightarrow> plain_char (to_url c)"
  by (simp add: to_url_def plain_char_def)

lemma plain_b64_raw_url: "list_all plain_char (b64_raw_url_encode bs)"
  using plain_b64_raw [of bs] by (auto simp: b64_raw_url_encode_def list_all_iff plain_url)

section \<open>Trimming and splitting\<close>

definition trim_chars :: "string \<Rightarrow> string \<Rightarrow> string" where
  "trim_chars cs s = rev (dropWhile (\<lambda>c. c \<in> set cs) (rev (dropWhile (\<lambda>c. c \<in> set cs) s)))"

text \<open>The text up to the next white space, and the rest.\<close>

fun take_word :: "string \<Rightarrow> string \<times> string" where
  "take_word [] = ([], [])"
| "take_word (c # s) =
     (if trim_left (c # s) \<noteq> c # s then ([], c # s)
      else let (w, r) = take_word s in (c # w, r))"

lemma take_word_length: "length (snd (take_word s)) \<le> length s"
  by (induction s) (auto simp: case_prod_beta)

lemma take_word_shorter: "s \<noteq> [] \<Longrightarrow> trim_left s = s \<Longrightarrow> length (snd (take_word s)) < length s"
proof (cases s)
  case (Cons c t)
  assume "trim_left s = s"
  then show ?thesis using Cons take_word_length [of t] by (simp add: case_prod_beta del: trim_left.simps)
qed simp

function words_of :: "string \<Rightarrow> string list" where
  "words_of s =
     (let s = trim_left s in
      if s = [] then [] else let (w, r) = take_word s in w # words_of r)"
  by pat_completeness auto

termination
proof (relation "measure length")
  fix s t x w r
  assume a: "t = trim_left s" "t \<noteq> []" "x = take_word t" "(w, r) = x"
  have "length (snd (take_word t)) < length t" using a by (intro take_word_shorter) (auto simp: trim_left_idem)
  then have "length r < length t" by (simp flip: a(3,4))
  moreover have "length t \<le> length s" using suffix_length_le [OF trim_left_suffix [of s]] a(1) by simp
  ultimately show "(r, s) \<in> measure length" by simp
qed auto

declare words_of.simps [simp del]

end
