(* ===== verification/ConfigUri.thy ===== *)
theory ConfigUri
  imports Mesh GoUrl
begin

text \<open>
  Connection strings, keys and profiles of the client, \<^verbatim>\<open>internal/config/config.go\<close>, \<^verbatim>\<open>cloud.go\<close>,
  \<^verbatim>\<open>peer_ticket.go\<close> and \<^verbatim>\<open>quic_pin.go\<close>. JSON is a parameter (\<open>uri_json\<close>); SHA-256 is an argument.
  A slice of a text that is too short is the panic the code has there.
\<close>

section \<open>Addresses\<close>

definition isValidServerAddress :: "string \<Rightarrow> bool" where
  "isValidServerAddress raw =
     (let raw = trim_space raw in
      if raw = [] then False
      else if has_prefix raw ''['' then
        (case index_byte raw (CHR '']'') of
           None \<Rightarrow> False
         | Some i \<Rightarrow>
           if i + 1 \<ge> length raw \<or> raw ! (i + 1) \<noteq> CHR '':'' then False
           else (case split_host_port raw of None \<Rightarrow> False | Some (host, port) \<Rightarrow> host \<noteq> [] \<and> port \<noteq> []))
      else split_host_port raw \<noteq> None)"

text \<open>\<^verbatim>\<open>SanitizeName\<close> keeps ASCII letters, digits, '-' and '_'; no byte of a longer character is one of these.\<close>

definition name_char :: "char \<Rightarrow> bool" where
  "name_char c \<longleftrightarrow>
     (of_char c \<ge> (97 :: nat) \<and> of_char c \<le> (122 :: nat)) \<or> (of_char c \<ge> (65 :: nat) \<and> of_char c \<le> (90 :: nat)) \<or>
     (of_char c \<ge> (48 :: nat) \<and> of_char c \<le> (57 :: nat)) \<or> c = CHR ''-'' \<or> c = CHR ''_''"

definition SanitizeName :: "string \<Rightarrow> string" where
  "SanitizeName s =
     (let out = filter name_char (trim_space s) in if out = [] then ''default'' else out)"

section \<open>Keys\<close>

record volterURI =
  vu_Server :: string
  vu_Token :: string
  vu_Pub :: string

record VoultKey =
  vk_Version :: int
  vk_Type :: string
  vk_ClusterID :: string
  vk_UserID :: string
  vk_ClientID :: string
  vk_Secret :: string
  vk_Salt :: string
  vk_Servers :: "string list"
  vk_DeviceMode :: string
  vk_DeviceLimit :: int
  vk_Created :: int
  vk_Expires :: int
  vk_TransportToken :: string

record uri_json =
  uj_enc :: "volterURI \<Rightarrow> bytes"
  uj_dec :: "bytes \<Rightarrow> volterURI option"
  uj_key :: "bytes \<Rightarrow> VoultKey option"

fun first_some :: "'a option list \<Rightarrow> 'a option" where
  "first_some [] = None"
| "first_some (Some x # _) = Some x"
| "first_some (None # xs) = first_some xs"

text \<open>\<^verbatim>\<open>strings.IndexAny(body, "?#")\<close> cuts a query or a fragment off.\<close>

definition cut_query :: "string \<Rightarrow> string" where
  "cut_query body = takeWhile (\<lambda>c. c \<noteq> CHR ''?'' \<and> c \<noteq> CHR ''#'') body"

definition decodeVolterPayload :: "string \<Rightarrow> go_error + bytes option" where
  "decodeVolterPayload raw =
     (if length raw < length ''volter://'' then Inl (Panic ''slice bounds out of range'')
      else
        let body = trim_space (drop (length ''volter://'') raw) in
        Inr (if body = [] then None
             else let body = trim_space (cut_query body) in
               if body = [] then None
               else first_some [b64_raw_url_decode body, b64_url_decode body, b64_raw_decode body, b64_decode body]))"

definition ParseVoultKeyURI :: "uri_json \<Rightarrow> string \<Rightarrow> go_error + VoultKey option" where
  "ParseVoultKeyURI j raw = ebind (decodeVolterPayload raw) (\<lambda>data. Inr
     (case data of
        None \<Rightarrow> None
      | Some data \<Rightarrow>
        (case uj_key j data of
           None \<Rightarrow> None
         | Some v \<Rightarrow>
           if vk_Version v \<noteq> 2 \<or> \<not> equal_fold (trim_space (vk_Type v)) ''voultkey'' then None
           else
             let v = v\<lparr>vk_ClientID := trim_space (vk_ClientID v), vk_Secret := trim_space (vk_Secret v),
                       vk_TransportToken := trim_space (vk_TransportToken v)\<rparr>
             in if vk_ClientID v = [] \<or> vk_Secret v = [] \<or> vk_TransportToken v = [] \<or> length (vk_Servers v) = 0 then None
                else if \<exists>s \<in> set (vk_Servers v). isValidServerAddress s then Some v else None)))"

text \<open>The first valid server of a key.\<close>

definition key_server :: "VoultKey \<Rightarrow> string option" where
  "key_server v = find isValidServerAddress (map trim_space (vk_Servers v))"

definition parseVolterURIPub :: "uri_json \<Rightarrow> string \<Rightarrow> go_error + (string \<times> string \<times> string) option" where
  "parseVolterURIPub j raw =
     ebind (ParseVoultKeyURI j raw) (\<lambda>vk.
     case Option.bind vk (\<lambda>v. map_option (\<lambda>s. (s, vk_TransportToken v, [])) (key_server v)) of
       Some r \<Rightarrow> Inr (Some r)
     | None \<Rightarrow>
       ebind (decodeVolterPayload raw) (\<lambda>data. Inr
         (case Option.bind data (uj_dec j) of
            None \<Rightarrow> None
          | Some u \<Rightarrow>
            let server = trim_space (vu_Server u); token = trim_space (vu_Token u) in
            if server = [] \<or> token = [] \<or> \<not> isValidServerAddress server then None
            else Some (server, token, trim_space (vu_Pub u)))))"

definition parseVolterURI :: "uri_json \<Rightarrow> string \<Rightarrow> go_error + (string \<times> string) option" where
  "parseVolterURI j raw = ebind (parseVolterURIPub j raw) (\<lambda>r. Inr (map_option (\<lambda>(s, t, _). (s, t)) r))"

text \<open>The loop from the last colon backwards; \<open>n\<close> is one more than the index \<^verbatim>\<open>i\<close>.\<close>

fun split_token :: "string \<Rightarrow> nat \<Rightarrow> (string \<times> string) option" where
  "split_token s 0 = None"
| "split_token s (Suc i) =
     (if s ! i \<noteq> CHR '':'' then split_token s i
      else
        let server = trim_space (take i s); token = trim_space (drop (i + 1) s) in
        if server = [] \<or> token = [] then split_token s i
        else if isValidServerAddress server then Some (server, token)
        else split_token s i)"

definition is_volter_uri :: "string \<Rightarrow> bool" where
  "is_volter_uri s = has_prefix (to_lower s) ''volter://''"

definition ParseConnection :: "uri_json \<Rightarrow> string \<Rightarrow> go_error + (string \<times> string) option" where
  "ParseConnection j s =
     (let s = trim_space s in
      if s = [] then Inr None
      else ebind (if is_volter_uri s then parseVolterURI j s else Inr None) (\<lambda>r.
        case r of Some p \<Rightarrow> Inr (Some p) | None \<Rightarrow> Inr (split_token s (length s))))"

definition BuildConnectionURI :: "uri_json \<Rightarrow> string \<Rightarrow> string \<Rightarrow> string option \<Rightarrow> string" where
  "BuildConnectionURI j server token dexotePub =
     (let u = \<lparr>vu_Server = trim_space server, vu_Token = trim_space token,
               vu_Pub = (case dexotePub of None \<Rightarrow> [] | Some p \<Rightarrow> trim_space p)\<rparr>
      in if vu_Server u = [] \<or> vu_Token u = [] then []
         else ''volter://'' @ b64_raw_url_encode (uj_enc j u))"

definition ParseConnectionConfig :: "uri_json \<Rightarrow> string \<Rightarrow> go_error + Config option" where
  "ParseConnectionConfig j s =
     (let s = trim_space s in
      if s = [] then Inr None
      else ebind (if is_volter_uri s then parseVolterURIPub j s else Inr None) (\<lambda>r.
        case r of
          Some (server, token, pub) \<Rightarrow>
            Inr (Some (cf_zero\<lparr>cf_Server := server, cf_Token := token, cf_DexoteServerPub := pub\<rparr>))
        | None \<Rightarrow>
          ebind (ParseConnection j s) (\<lambda>r. Inr (map_option (\<lambda>(server, token).
            cf_zero\<lparr>cf_Server := server, cf_Token := token\<rparr>) r))))"

definition ConfigFromVoultKey :: "VoultKey \<Rightarrow> Config" where
  "ConfigFromVoultKey v = cf_zero
     \<lparr>cf_Server := (case key_server v of None \<Rightarrow> [] | Some s \<Rightarrow> s),
      cf_Token := trim_space (vk_TransportToken v),
      cf_Managed := Some (mc_zero
        \<lparr>mc_ClusterID := trim_space (vk_ClusterID v), mc_UserID := trim_space (vk_UserID v),
         mc_ClientID := trim_space (vk_ClientID v), mc_Secret := trim_space (vk_Secret v),
         mc_Salt := trim_space (vk_Salt v), mc_DeviceMode := trim_space (vk_DeviceMode v),
         mc_DeviceLimit := vk_DeviceLimit v, mc_Created := vk_Created v, mc_Expires := vk_Expires v\<rparr>)\<rparr>"

definition SanitizeManagedInPlace :: "ManagedClient option \<Rightarrow> ManagedClient option" where
  "SanitizeManagedInPlace = map_option (\<lambda>m.
     let m = m\<lparr>mc_ClusterID := trim_space (mc_ClusterID m), mc_UserID := trim_space (mc_UserID m),
               mc_ClientID := trim_space (mc_ClientID m), mc_Secret := trim_space (mc_Secret m),
               mc_Salt := trim_space (mc_Salt m), mc_DeviceMode := trim_space (mc_DeviceMode m)\<rparr>
     in if mc_ClientID m = [] \<or> mc_Secret m = [] then mc_zero else m)"

definition QuicSkipVerifyEffective :: "Config \<Rightarrow> bool" where
  "QuicSkipVerifyEffective c = (case cf_QuicSkipVerify c of None \<Rightarrow> True | Some b \<Rightarrow> b)"

definition QuicSkipVerifyFormField :: "Config \<Rightarrow> string" where
  "QuicSkipVerifyFormField c =
     (case cf_QuicSkipVerify c of None \<Rightarrow> [] | Some b \<Rightarrow> if b then ''true'' else ''false'')"

section \<open>Client settings\<close>

record ClientSettings =
  cs_Mode :: string
  cs_SystemProxy :: bool
  cs_ProxyListen :: string
  cs_LastProfile :: string
  cs_SplitTunnelEnabled :: bool
  cs_SplitTunnelMode :: string
  cs_SplitTunnelURL :: string
  cs_SplitTunnelCountries :: "string list"

definition settings_default :: ClientSettings where
  "settings_default =
     \<lparr>cs_Mode = ''tun'', cs_SystemProxy = False, cs_ProxyListen = ''127.0.0.1:1080'', cs_LastProfile = [],
      cs_SplitTunnelEnabled = False, cs_SplitTunnelMode = [], cs_SplitTunnelURL = [], cs_SplitTunnelCountries = []\<rparr>"

text \<open>A file that is not there is \<open>Inr None\<close>; any other read error is an error.\<close>

definition LoadClientSettings ::
  "(bytes \<Rightarrow> go_error + ClientSettings) \<Rightarrow> go_error + bytes option \<Rightarrow> go_error + ClientSettings" where
  "LoadClientSettings unmarshal file = ebind file (\<lambda>b.
     case b of
       None \<Rightarrow> Inr settings_default
     | Some b \<Rightarrow> ebind (unmarshal b) (\<lambda>s. Inr (s
         \<lparr>cs_Mode := (if cs_Mode s \<noteq> ''proxy'' then ''tun'' else cs_Mode s),
          cs_ProxyListen := (if cs_ProxyListen s = [] then ''127.0.0.1:1080'' else cs_ProxyListen s),
          cs_SplitTunnelMode := (if cs_SplitTunnelMode s \<noteq> ''bypass'' then ''only'' else cs_SplitTunnelMode s),
          cs_SplitTunnelCountries := map (\<lambda>c. to_upper (trim_space c)) (cs_SplitTunnelCountries s)\<rparr>)))"

section \<open>The cloud list\<close>

definition QuicServerHostPortForCloudTCP :: "string \<Rightarrow> string" where
  "QuicServerHostPortForCloudTCP server =
     (let server = trim_space server in
      case split_host_port server of
        None \<Rightarrow> if server = [] then [] else join_host_port server ''4433''
      | Some (h, _) \<Rightarrow> join_host_port h ''4433'')"

definition cloudQuicNeedsDefaultPort :: "string \<Rightarrow> string \<Rightarrow> bool" where
  "cloudQuicNeedsDefaultPort tcpServer quicServer =
     (let tcp = trim_space tcpServer; qs = trim_space quicServer in
      if tcp = [] then False else if qs = [] then True else qs = tcp)"

definition ApplyCloudConnectDefaults :: "string \<Rightarrow> bool \<Rightarrow> Config \<Rightarrow> Config" where
  "ApplyCloudConnectDefaults serverMode probeIPv6 cfg =
     (let cfg = (if trim_space (cf_QuicCertPinSHA256 cfg) = [] then cfg\<lparr>cf_QuicSkipVerify := None\<rparr> else cfg);
          mode = to_lower (trim_space serverMode);
          cfg = (if equal_fold (trim_space (cf_Transport cfg)) ''tcp'' then cfg\<lparr>cf_QuicServer := []\<rparr>
                 else if mode = ''tcp only'' then cfg\<lparr>cf_Transport := ''tcp'', cf_QuicServer := []\<rparr>
                 else if cloudQuicNeedsDefaultPort (cf_Server cfg) (cf_QuicServer cfg)
                 then cfg\<lparr>cf_QuicServer := QuicServerHostPortForCloudTCP (cf_Server cfg)\<rparr> else cfg)
      in if trim_space (cf_TunCIDR6 cfg) = [] \<and> probeIPv6 then cfg\<lparr>cf_TunCIDR6 := ''fd00:13:37::2/64''\<rparr> else cfg)"

text \<open>\<^verbatim>\<open>ParseConnection\<close> for a caller; it never panics (\<open>ParseConnection_no_panic\<close>).\<close>

definition connection :: "uri_json \<Rightarrow> string \<Rightarrow> (string \<times> string) option" where
  "connection j s = (case ParseConnection j s of Inr r \<Rightarrow> r | Inl _ \<Rightarrow> None)"

definition parseCloudLines :: "uri_json \<Rightarrow> string \<Rightarrow> string list" where
  "parseCloudLines j s =
     filter (\<lambda>line. line \<noteq> [] \<and> \<not> has_prefix line ''#'' \<and>
         (case words_of line of
            [] \<Rightarrow> False
          | p # _ \<Rightarrow> (case connection j p of None \<Rightarrow> False | Some (server, token) \<Rightarrow> server \<noteq> [] \<and> token \<noteq> [])))
       (map trim_space (split_on (CHR 0x0A) s))"

text \<open>One word of a line; \<open>cidr\<close> is \<^verbatim>\<open>net.ParseCIDR\<close>. The state is the tunnel prefix, the QUIC server and the transport.\<close>

definition cloud_part :: "(string \<Rightarrow> bool) \<Rightarrow> string \<Rightarrow> string \<times> string \<times> string \<Rightarrow> string \<times> string \<times> string" where
  "cloud_part cidr p st =
     (case st of (tun, quic, tr) \<Rightarrow>
      let raw = trim_space p; low = to_lower raw;
          val = (case index_byte raw (CHR ''='') of
                   Some i \<Rightarrow> if i + 1 < length raw then Some (drop (i + 1) raw) else None
                 | None \<Rightarrow> None)
      in if has_prefix low ''quic='' then
           (case val of Some v \<Rightarrow> (tun, trim_space v, tr) | None \<Rightarrow> st)
         else if has_prefix low ''transport='' then
           (case val of
              Some v \<Rightarrow> let v = to_lower (trim_space v) in
                if v = ''tcp'' \<or> v = ''quic'' then (tun, quic, v)
                else if v = ''auto'' \<or> v = [] then (tun, quic, [])
                else st
            | None \<Rightarrow> st)
         else if CHR ''/'' \<in> set raw \<and> cidr raw then
           (if tun = [] then (raw, quic, tr) else st)
         else if split_host_port raw \<noteq> None then
           (if quic = [] then (tun, raw, tr) else st)
         else st)"

definition ParseCloudLineParts :: "(string \<Rightarrow> bool) \<Rightarrow> string \<Rightarrow> string \<times> string \<times> string \<times> string" where
  "ParseCloudLineParts cidr line =
     (case words_of (trim_space line) of
        [] \<Rightarrow> ([], [], [], [])
      | conn # parts \<Rightarrow> (conn, fold (cloud_part cidr) parts ([], [], [])))"

definition cloud_config :: "uri_json \<Rightarrow> (string \<Rightarrow> bool) \<Rightarrow> nat \<times> string \<Rightarrow> (Config \<times> string) option" where
  "cloud_config j cidr il =
     (case il of (i, line) \<Rightarrow>
      case ParseCloudLineParts cidr line of (conn, tun6, quicOpt, tr) \<Rightarrow>
      map_option (\<lambda>(server, token).
        let c = cf_zero\<lparr>cf_Server := server, cf_Token := token, cf_TunCIDR6 := tun6, cf_Transport := tr,
                        cf_QuicServer := QuicServerHostPortForCloudTCP server\<rparr>;
            c = (if trim_space quicOpt \<noteq> [] then c\<lparr>cf_QuicServer := trim_space quicOpt\<rparr> else c);
            c = (if equal_fold (trim_space tr) ''tcp'' then c\<lparr>cf_QuicServer := []\<rparr> else c)
        in (c, ''cloud-'' @ itoa (int i + 1))) (connection j conn))"

text \<open>\<open>raw\<close> is the list as it was fetched or loaded.\<close>

definition CloudList :: "uri_json \<Rightarrow> (string \<Rightarrow> bool) \<Rightarrow> go_error + string \<Rightarrow> go_error + Config list \<times> string list" where
  "CloudList j cidr raw = ebind raw (\<lambda>raw.
     if raw = [] then Inr ([], [])
     else
       let lines = parseCloudLines j raw;
           cs = List.map_filter (cloud_config j cidr) (zip [0..<length lines] lines)
       in Inr (map fst cs, map snd cs))"

section \<open>QUIC certificate and transport\<close>

definition QuicTLSVerifyStrict :: "Config \<Rightarrow> bool" where
  "QuicTLSVerifyStrict c = (cf_QuicSkipVerify c = Some False)"

definition EffectiveQuicCertPin :: "Config \<Rightarrow> ServerHelloCaps option \<Rightarrow> string" where
  "EffectiveQuicCertPin c caps =
     (let manual = trim_space (filter (\<lambda>x. x \<noteq> CHR '':'') (cf_QuicCertPinSHA256 c)) in
      if manual \<noteq> [] then cf_QuicCertPinSHA256 c
      else case caps of
        None \<Rightarrow> []
      | Some k \<Rightarrow>
        if length (hc_QuicLeafPinSHA256 k) \<noteq> 32 then []
        else if QuicTLSVerifyStrict c \<and> trim_space (cf_QuicCaCert c) \<noteq> [] then []
        else hex_encode (hc_QuicLeafPinSHA256 k))"

definition ApplyTcpOnlyIfServerHasNoQUIC :: "ServerHelloCaps option \<Rightarrow> Config \<Rightarrow> Config" where
  "ApplyTcpOnlyIfServerHasNoQUIC caps cfg =
     (case caps of
        None \<Rightarrow> cfg
      | Some k \<Rightarrow>
        let hasTCP = (hc_TransportMask k AND TransportTCP \<noteq> 0); hasQUIC = (hc_TransportMask k AND TransportQUIC \<noteq> 0) in
        if hasTCP \<and> hasQUIC then cfg
        else if hasTCP \<and> \<not> hasQUIC then cfg\<lparr>cf_Transport := ''tcp'', cf_QuicServer := []\<rparr>
        else if hasQUIC \<and> \<not> hasTCP then
          let cfg = cfg\<lparr>cf_Transport := ''quic''\<rparr> in
          if trim_space (cf_QuicServer cfg) = [] then
            (case split_host_port (trim_space (cf_Server cfg)) of
               Some (host, _) \<Rightarrow>
                 if host \<noteq> [] then
                   let port = uint (hc_QuicPort k);
                       port = (if port \<le> 0 \<or> port > 65535 then 4433 else port)
                   in cfg\<lparr>cf_QuicServer := join_host_port host (itoa port)\<rparr>
                 else cfg
             | None \<Rightarrow> cfg)
          else cfg
        else cfg)"

section \<open>Peer tickets\<close>

record PeerTicket =
  pt_PeerID :: string
  pt_PubKey :: string
  pt_Addrs :: "string list"
  pt_ExpiresAt :: int
  pt_Nonce :: string
  pt_Sig :: string

record ticket_json =
  tj_env :: "PeerTicket \<Rightarrow> bytes"
  tj_dec :: "bytes \<Rightarrow> (string \<times> PeerTicket) option"
  tj_store :: "PeerTicket list \<Rightarrow> bytes"
  tj_load :: "bytes \<Rightarrow> go_error + PeerTicket list"

fun trim_distinct :: "string list \<Rightarrow> string list \<Rightarrow> string list" where
  "trim_distinct seen [] = []"
| "trim_distinct seen (a # as) =
     (let v = trim_space a in
      if v = [] \<or> v \<in> set seen then trim_distinct seen as else v # trim_distinct (v # seen) as)"

definition peerTicketSig :: "(bytes \<Rightarrow> bytes) \<Rightarrow> string \<Rightarrow> string \<Rightarrow> string list \<Rightarrow> int \<Rightarrow> string \<Rightarrow> string" where
  "peerTicketSig sha256 peerID pubKey addrs expiresAt nonce =
     hex_encode (sha256 (str_bytes (trim_space peerID @ ''|'' @ trim_space pubKey @ ''|'' @ join_with '','' addrs @ ''|'' @
       itoa expiresAt @ ''|'' @ trim_space nonce)))"

definition sanitizePeerTicket :: "PeerTicket \<Rightarrow> PeerTicket" where
  "sanitizePeerTicket t = t
     \<lparr>pt_PeerID := trim_space (pt_PeerID t), pt_PubKey := trim_space (pt_PubKey t), pt_Nonce := trim_space (pt_Nonce t),
      pt_Sig := trim_space (to_lower (pt_Sig t)), pt_Addrs := trim_distinct [] (pt_Addrs t)\<rparr>"

definition BuildPeerTicketURI :: "ticket_json \<Rightarrow> PeerTicket \<Rightarrow> string" where
  "BuildPeerTicketURI j t = ''volter://'' @ b64_raw_url_encode (tj_env j t)"

definition ticket_valid :: "(bytes \<Rightarrow> bytes) \<Rightarrow> PeerTicket \<Rightarrow> bool" where
  "ticket_valid sha256 t \<longleftrightarrow>
     pt_Sig t = peerTicketSig sha256 (pt_PeerID t) (pt_PubKey t) (pt_Addrs t) (pt_ExpiresAt t) (pt_Nonce t)"

definition ParsePeerTicketURI :: "(bytes \<Rightarrow> bytes) \<Rightarrow> ticket_json \<Rightarrow> instant \<Rightarrow> string \<Rightarrow> PeerTicket option" where
  "ParsePeerTicketURI sha256 j now raw =
     (let s = trim_space raw in
      if \<not> is_volter_uri s then None
      else
        let body = cut_query (trim_space (drop (length ''volter://'') s)) in
        if body = [] then None
        else case first_some [b64_raw_url_decode body, b64_url_decode body] of
          None \<Rightarrow> None
        | Some data \<Rightarrow>
          (case tj_dec j data of
             None \<Rightarrow> None
           | Some (t, ticket) \<Rightarrow>
             if t \<noteq> ''peerTicket'' then None
             else
               let t = sanitizePeerTicket ticket in
               if pt_PeerID t = [] \<or> pt_PubKey t = [] \<or> length (pt_Addrs t) = 0 \<or> pt_ExpiresAt t \<le> unix_milli now then None
               else if \<not> ticket_valid sha256 t then None
               else Some t))"

definition CreatePeerTicket ::
  "(bytes \<Rightarrow> bytes) \<Rightarrow> instant \<Rightarrow> string \<Rightarrow> string \<Rightarrow> string list \<Rightarrow> duration \<Rightarrow> PeerTicket" where
  "CreatePeerTicket sha256 now peerID pubKey addrs ttl =
     (let ttl = (if ttl < second then 24 * hour else ttl);
          clean = trim_distinct [] addrs;
          exp = unix_milli (now + ttl);
          nonceRaw = sha256 (str_bytes (trim_space peerID @ ''|'' @ trim_space pubKey @ ''|'' @ join_with '','' clean @ ''|'' @ itoa exp));
          nonce = take 16 (hex_encode nonceRaw);
          t = \<lparr>pt_PeerID = trim_space peerID, pt_PubKey = trim_space pubKey, pt_Addrs = clean, pt_ExpiresAt = exp,
               pt_Nonce = nonce, pt_Sig = []\<rparr>
      in t\<lparr>pt_Sig := peerTicketSig sha256 (pt_PeerID t) (pt_PubKey t) (pt_Addrs t) (pt_ExpiresAt t) (pt_Nonce t)\<rparr>)"

text \<open>The store: the content of the ticket file, \<open>None\<close> when there is none. Read and write errors are left out.\<close>

definition LoadPeerTickets :: "(bytes \<Rightarrow> bytes) \<Rightarrow> ticket_json \<Rightarrow> instant \<Rightarrow> bytes option \<Rightarrow> go_error + PeerTicket list" where
  "LoadPeerTickets sha256 j now file =
     (case file of
        None \<Rightarrow> Inr []
      | Some data \<Rightarrow> ebind (tj_load j data) (\<lambda>raw. Inr
          (filter (\<lambda>t. \<not> pt_ExpiresAt t \<le> unix_milli now \<and> ticket_valid sha256 t) (map sanitizePeerTicket raw))))"

fun upsert :: "PeerTicket \<Rightarrow> PeerTicket list \<Rightarrow> PeerTicket list" where
  "upsert t [] = [t]"
| "upsert t (u # us) = (if pt_PeerID u = pt_PeerID t then t # us else u # upsert t us)"

definition UpsertPeerTicket ::
  "(bytes \<Rightarrow> bytes) \<Rightarrow> ticket_json \<Rightarrow> instant \<Rightarrow> PeerTicket \<Rightarrow> bytes option \<Rightarrow> go_error + bytes" where
  "UpsertPeerTicket sha256 j now t file =
     (let t = sanitizePeerTicket t in
      ebind (LoadPeerTickets sha256 j now file) (\<lambda>all. Inr (tj_store j (upsert t all))))"

section \<open>Reading back\<close>

lemma valid_trim: "isValidServerAddress (trim_space s) = isValidServerAddress s"
  by (simp add: isValidServerAddress_def)

lemma valid_nonempty: "isValidServerAddress s \<Longrightarrow> trim_space s \<noteq> []"
  by (auto simp: isValidServerAddress_def)

lemma plain_scheme: "list_all plain_char ''volter://''"
  by code_simp

lemma volter_uri [simp]: "trim_space (''volter://'' @ b64_raw_url_encode bs) = ''volter://'' @ b64_raw_url_encode bs"
  "is_volter_uri (''volter://'' @ s)"
proof -
  show "trim_space (''volter://'' @ b64_raw_url_encode bs) = ''volter://'' @ b64_raw_url_encode bs"
    using plain_scheme plain_b64_raw_url [of bs] by (intro trim_space_plain) auto
  have "to_lower ''volter://'' = ''volter://''" by code_simp
  then show "is_volter_uri (''volter://'' @ s)" by (simp add: is_volter_uri_def to_lower_def has_prefix_iff)
qed

lemma cut_query_b64 [simp]: "cut_query (b64_raw_url_encode bs) = b64_raw_url_encode bs"
  unfolding cut_query_def using no_query_b64_url by (auto simp: takeWhile_eq_all_conv)

lemma trim_b64_url [simp]: "trim_space (b64_raw_url_encode bs) = b64_raw_url_encode bs"
  by (rule trim_space_plain [OF plain_b64_raw_url])

lemma decode_volter [simp]:
  "bs \<noteq> [] \<Longrightarrow> decodeVolterPayload (''volter://'' @ b64_raw_url_encode bs) = Inr (Some bs)"
  by (simp add: decodeVolterPayload_def Let_def b64_raw_url_Nil)

lemma volter_uri_long: "is_volter_uri s \<Longrightarrow> 9 \<le> length s"
  using prefix_length_le [of "''volter://''" "to_lower s"] by (simp add: is_volter_uri_def has_prefix_iff)

text \<open>The prefix is checked before the text is cut, so a connection string never panics.\<close>

lemma ParseConnection_no_panic: "\<exists>r. ParseConnection j s = Inr r"
proof -
  have d: "\<exists>r. decodeVolterPayload s = Inr r" if "is_volter_uri s" for s
    using volter_uri_long [OF that] by (simp add: decodeVolterPayload_def Let_def)
  have "\<exists>r. parseVolterURI j s = Inr r" if "is_volter_uri s" for s
    using d [OF that] by (auto simp: parseVolterURI_def parseVolterURIPub_def ParseVoultKeyURI_def split: option.splits)
  then show ?thesis by (fastforce simp: ParseConnection_def Let_def split: option.splits)
qed

lemma connection_link_parts:
  assumes "isValidServerAddress server" and "trim_space token \<noteq> []"
    and "u = \<lparr>vu_Server = trim_space server, vu_Token = trim_space token, vu_Pub = trim_space pub\<rparr>"
    and "uj_dec j (uj_enc j u) = Some u" and "uj_enc j u \<noteq> []"
    and "\<forall>v. uj_key j (uj_enc j u) = Some v \<longrightarrow> vk_Version v \<noteq> 2"
  defines "link \<equiv> BuildConnectionURI j server token (Some pub)"
  shows "trim_space link = link" and "ParseVoultKeyURI j link = Inr None"
    and "ParseConnection j link = Inr (Some (trim_space server, trim_space token))"
    and "ParseConnectionConfig j link = Inr (Some (cf_zero
      \<lparr>cf_Server := trim_space server, cf_Token := trim_space token, cf_DexoteServerPub := trim_space pub\<rparr>))"
proof -
  let ?link = "''volter://'' @ b64_raw_url_encode (uj_enc j u)"
  have b: "link = ?link"
    using assms(1-3) by (auto simp: link_def BuildConnectionURI_def Let_def dest: valid_nonempty)
  show t: "trim_space link = link" unfolding b by (rule volter_uri(1))
  show k: "ParseVoultKeyURI j link = Inr None"
    unfolding b ParseVoultKeyURI_def decode_volter [OF assms(5)] using assms(6) by (auto split: option.splits)
  have p: "parseVolterURIPub j link = Inr (Some (trim_space server, trim_space token, trim_space pub))"
    using k assms(1,2,3,4) valid_nonempty [OF assms(1)] unfolding b parseVolterURIPub_def decode_volter [OF assms(5)]
    by (simp add: valid_trim)
  have v: "is_volter_uri link" "link \<noteq> []" unfolding b by (rule volter_uri(2), simp)
  show "ParseConnection j link = Inr (Some (trim_space server, trim_space token))"
    using t v p by (simp add: ParseConnection_def parseVolterURI_def)
  show "ParseConnectionConfig j link = Inr (Some (cf_zero
      \<lparr>cf_Server := trim_space server, cf_Token := trim_space token, cf_DexoteServerPub := trim_space pub\<rparr>))"
    using t v p by (simp add: ParseConnectionConfig_def)
qed

text \<open>
  C32. A connection link gives back what it was made from: server, token and public key, trimmed; whatever JSON does, as
  long as it reads back what it wrote and does not take the link for a key of the managed format.
\<close>

theorem connection_link_roundtrip:
  assumes "isValidServerAddress server" and "trim_space token \<noteq> []"
    and "u = \<lparr>vu_Server = trim_space server, vu_Token = trim_space token, vu_Pub = trim_space pub\<rparr>"
    and "uj_dec j (uj_enc j u) = Some u" and "uj_enc j u \<noteq> []"
    and "\<forall>v. uj_key j (uj_enc j u) = Some v \<longrightarrow> vk_Version v \<noteq> 2"
  shows "ParseConnectionConfig j (BuildConnectionURI j server token (Some pub)) = Inr (Some (cf_zero
    \<lparr>cf_Server := trim_space server, cf_Token := trim_space token, cf_DexoteServerPub := trim_space pub\<rparr>))"
  using connection_link_parts(4) [OF assms] .

text \<open>A token without a colon and a valid server are split at the last colon.\<close>

lemma split_token_at:
  assumes "isValidServerAddress server" and "trim_space server = server" and "trim_space token = token"
    and "server \<noteq> []" "token \<noteq> []" and "CHR '':'' \<notin> set token" and "k \<le> length token"
  shows "split_token (server @ '':'' @ token) (Suc (length server + k)) = Some (server, token)"
  using assms(7)
proof (induction k)
  case 0
  then show ?case using assms by (simp add: nth_append)
next
  case (Suc k)
  then have "token ! k \<noteq> CHR '':''" using assms(6) nth_mem [of k token] by (metis Suc_le_lessD)
  then show ?case using Suc by (simp add: nth_append)
qed

text \<open>
  The plain form \<^verbatim>\<open>server:token\<close> is read as a profile, but the same text crashes the client a line later:
  \<^verbatim>\<open>ParseVoultKeyURI\<close> cuts the scheme off any key it is given, and a text shorter than the scheme panics.
\<close>

theorem plain_connection_then_panic:
  assumes "isValidServerAddress server" and "list_all plain_char (server @ '':'' @ token)" and "token \<noteq> []"
    and "CHR '':'' \<notin> set token" and "length (server @ '':'' @ token) < 9"
  shows "ParseConnectionConfig j (server @ '':'' @ token) = Inr (Some (cf_zero\<lparr>cf_Server := server, cf_Token := token\<rparr>)) \<and>
    ParseVoultKeyURI j (server @ '':'' @ token) = Inl (Panic ''slice bounds out of range'')"
proof -
  let ?s = "server @ '':'' @ token"
  have t: "trim_space server = server" "trim_space token = token" "trim_space ?s = ?s"
    using assms(2) by (auto intro!: trim_space_plain)
  have ne: "server \<noteq> []" using valid_nonempty [OF assms(1)] t(1) by auto
  have nu: "\<not> is_volter_uri ?s" using volter_uri_long [of ?s] assms(5) by auto
  have "split_token ?s (Suc (length server + length token)) = Some (server, token)"
    using split_token_at [OF assms(1) t(1,2) ne assms(3,4) order_refl] .
  then have c: "ParseConnection j ?s = Inr (Some (server, token))"
    using nu ne t(3) by (simp add: ParseConnection_def Let_def)
  have p: "ParseVoultKeyURI j ?s = Inl (Panic ''slice bounds out of range'')"
    using assms(5) by (simp add: ParseVoultKeyURI_def decodeVolterPayload_def)
  show ?thesis using nu ne t(3) c p by (simp add: ParseConnectionConfig_def Let_def)
qed

lemma plain_connection_then_panic_witness:
  "ParseConnectionConfig \<lparr>uj_enc = \<lambda>u. [], uj_dec = \<lambda>b. None, uj_key = \<lambda>b. None\<rparr> (''h:1'' @ '':'' @ ''t'') =
      Inr (Some (cf_zero\<lparr>cf_Server := ''h:1'', cf_Token := ''t''\<rparr>)) \<and>
    ParseVoultKeyURI \<lparr>uj_enc = \<lambda>u. [], uj_dec = \<lambda>b. None, uj_key = \<lambda>b. None\<rparr> (''h:1'' @ '':'' @ ''t'') =
      Inl (Panic ''slice bounds out of range'')"
  by (rule plain_connection_then_panic) code_simp+

text \<open>JSON that can only hold one link, for the witness.\<close>

definition one_link :: "volterURI \<Rightarrow> uri_json" where
  "one_link u = \<lparr>uj_enc = \<lambda>_. [1], uj_dec = \<lambda>b. if b = [1] then Some u else None, uj_key = \<lambda>b. None\<rparr>"

lemma connection_link_roundtrip_witness:
  "let j = one_link \<lparr>vu_Server = ''h:1'', vu_Token = ''t'', vu_Pub = ''p''\<rparr> in
   ParseConnectionConfig j (BuildConnectionURI j '' h:1'' ''t '' (Some ''p'')) = Inr (Some (cf_zero
     \<lparr>cf_Server := trim_space '' h:1'', cf_Token := trim_space ''t '', cf_DexoteServerPub := trim_space ''p''\<rparr>))"
proof -
  have t: "trim_space '' h:1'' = ''h:1''" "trim_space ''t '' = ''t''" "trim_space ''p'' = ''p''" by code_simp+
  have v: "isValidServerAddress '' h:1''" by code_simp
  show ?thesis unfolding Let_def
    by (rule connection_link_roundtrip [OF v]) (simp_all add: t one_link_def)
qed

section \<open>Tickets\<close>

lemma to_lower_hex: "to_lower (hex_encode bs) = hex_encode bs"
proof -
  have d: "lower_char (hex_digit n) = hex_digit n" if "n < 16" for n
    using that by (auto simp: lower_char_def hex_digit_def Let_def)
  show ?thesis
  proof (induction bs)
    case (Cons b bs)
    have "unat b div 16 < 16" using unsigned_less [of b, where 'a = nat] by simp
    then show ?case using Cons by (simp add: to_lower_def d)
  qed (simp add: to_lower_def)
qed

lemma trim_hex: "trim_space (hex_encode bs) = hex_encode bs" "trim_space (take n (hex_encode bs)) = take n (hex_encode bs)"
proof -
  have "list_all plain_char (take n (hex_encode bs))"
    using plain_hex_encode [of bs] unfolding list_all_iff by (meson in_set_takeD)
  then show "trim_space (hex_encode bs) = hex_encode bs" "trim_space (take n (hex_encode bs)) = take n (hex_encode bs)"
    using plain_hex_encode by (auto intro: trim_space_plain)
qed

lemma trim_distinct_spec:
  "(\<forall>a \<in> set (trim_distinct seen as). a \<noteq> [] \<and> trim_space a = a \<and> a \<notin> set seen) \<and> distinct (trim_distinct seen as)"
proof (induction as arbitrary: seen)
  case (Cons a as)
  show ?case using Cons.IH [of seen] Cons.IH [of "trim_space a # seen"] by (auto simp: Let_def)
qed simp

lemma trim_distinct_fixed:
  "\<forall>a \<in> set as. a \<noteq> [] \<and> trim_space a = a \<and> a \<notin> set seen \<Longrightarrow> distinct as \<Longrightarrow> trim_distinct seen as = as"
proof (induction as arbitrary: seen)
  case (Cons a as)
  have "trim_distinct (a # seen) as = as" by (rule Cons.IH) (use Cons.prems in auto)
  then show ?case using Cons.prems by (simp add: Let_def)
qed simp

lemma trim_distinct_idem [simp]: "trim_distinct [] (trim_distinct [] as) = trim_distinct [] as"
  using trim_distinct_spec [of "[]" as] by (intro trim_distinct_fixed) auto

lemma created_clean: "sanitizePeerTicket (CreatePeerTicket sha256 now i k as ttl) = CreatePeerTicket sha256 now i k as ttl"
  by (simp add: sanitizePeerTicket_def CreatePeerTicket_def Let_def trim_hex to_lower_hex peerTicketSig_def)

lemma created_valid: "ticket_valid sha256 (CreatePeerTicket sha256 now i k as ttl)"
  by (simp add: ticket_valid_def CreatePeerTicket_def Let_def)

text \<open>
  A ticket link gives the ticket back until it expires. Nothing but the text of the ticket goes into its signature,
  so anyone can make one: the holder of the key is not asked.
\<close>

theorem ticket_link_roundtrip:
  assumes "t = CreatePeerTicket sha256 now i k as ttl" and "trim_space i \<noteq> []" and "trim_space k \<noteq> []"
    and "\<exists>a \<in> set as. trim_space a \<noteq> []" and "unix_milli now' < pt_ExpiresAt t"
    and "tj_dec j (tj_env j t) = Some (''peerTicket'', t)" and "tj_env j t \<noteq> []"
  shows "ParsePeerTicketURI sha256 j now' (BuildPeerTicketURI j t) = Some t"
proof -
  have c: "sanitizePeerTicket t = t" "ticket_valid sha256 t" unfolding assms(1) by (rule created_clean created_valid)+
  have f: "pt_PeerID t = trim_space i" "pt_PubKey t = trim_space k" "pt_Addrs t = trim_distinct [] as"
    by (simp_all add: assms(1) CreatePeerTicket_def Let_def)
  have "trim_distinct [] as \<noteq> []" using assms(4) by (induction as) (auto simp: Let_def)
  then have "ParsePeerTicketURI sha256 j now' l = Some t"
    if "trim_space l = l" "is_volter_uri l" "drop (length ''volter://'') l = b64_raw_url_encode (tj_env j t)" for l
    using assms(2,3,5,6,7) c f that by (simp add: ParsePeerTicketURI_def Let_def b64_raw_url_Nil)
  from this [OF volter_uri(1,2)] show ?thesis unfolding BuildPeerTicketURI_def by simp
qed

lemma ticket_link_roundtrip_witness:
  "let t = CreatePeerTicket (\<lambda>b. replicate 32 7) 0 ''peer'' ''key'' ['' 10.0.0.1:1 '', ''10.0.0.1:1''] hour;
       j = \<lparr>tj_env = \<lambda>_. [1], tj_dec = \<lambda>_. Some (''peerTicket'', t), tj_store = \<lambda>_. [], tj_load = \<lambda>_. Inr []\<rparr>
   in ParsePeerTicketURI (\<lambda>b. replicate 32 7) j 0 (BuildPeerTicketURI j t) = Some t"
proof -
  have t: "trim_space ''peer'' \<noteq> []" "trim_space ''key'' \<noteq> []" "trim_space '' 10.0.0.1:1 '' \<noteq> []" by code_simp+
  show ?thesis unfolding Let_def
    by (rule ticket_link_roundtrip [OF refl t(1,2)])
      (use t(3) in \<open>simp_all add: CreatePeerTicket_def Let_def unix_milli_def duration_units\<close>)
qed

text \<open>
  Storing a ticket: afterwards the store gives it for its peer and, for every other peer, what it gave before; no
  peer gets a second ticket.
\<close>

theorem ticket_store_upsert:
  assumes "UpsertPeerTicket sha256 j now t file = Inr file'" and "LoadPeerTickets sha256 j now file = Inr all"
    and "tj_load j file' = Inr (upsert (sanitizePeerTicket t) all)" and "ticket_valid sha256 (sanitizePeerTicket t)"
    and "unix_milli now < pt_ExpiresAt t"
  shows "\<exists>all'. LoadPeerTickets sha256 j now (Some file') = Inr all' \<and>
    sanitizePeerTicket t \<in> set all' \<and>
    filter (\<lambda>u. pt_PeerID u \<noteq> trim_space (pt_PeerID t)) all' = filter (\<lambda>u. pt_PeerID u \<noteq> trim_space (pt_PeerID t)) all \<and>
    (distinct (map pt_PeerID all) \<longrightarrow> distinct (map pt_PeerID all'))"
proof -
  let ?t = "sanitizePeerTicket t"
  have idem: "sanitizePeerTicket (sanitizePeerTicket u) = sanitizePeerTicket u" for u
    by (simp add: sanitizePeerTicket_def trim_space_to_lower flip: trim_space_to_lower)
  have all: "\<forall>u \<in> set all. sanitizePeerTicket u = u \<and> \<not> pt_ExpiresAt u \<le> unix_milli now \<and> ticket_valid sha256 u"
    using assms(2) idem by (auto simp: LoadPeerTickets_def ebind_Inr_iff split: option.splits)
  have su: "set (upsert u us) \<subseteq> insert u (set us)" "u \<in> set (upsert u us)" for u us by (induction us) auto
  have keep: "\<forall>u \<in> set (upsert ?t all). sanitizePeerTicket u = u \<and> \<not> pt_ExpiresAt u \<le> unix_milli now \<and> ticket_valid sha256 u"
    using su(1) [of ?t all] all idem assms(4,5) by (auto simp: sanitizePeerTicket_def)
  then have "map sanitizePeerTicket (upsert ?t all) = upsert ?t all" by (simp add: map_idI)
  then have L: "LoadPeerTickets sha256 j now (Some file') = Inr (upsert ?t all)"
    using keep assms(3) by (simp add: LoadPeerTickets_def filter_id_conv)
  have o: "filter (\<lambda>u. pt_PeerID u \<noteq> pt_PeerID v) (upsert v us) = filter (\<lambda>u. pt_PeerID u \<noteq> pt_PeerID v) us" for v us
    by (induction us) auto
  have i: "pt_PeerID ` set (upsert v us) = insert (pt_PeerID v) (pt_PeerID ` set us)" for v us by (induction us) auto
  have d: "distinct (map pt_PeerID us) \<Longrightarrow> distinct (map pt_PeerID (upsert v us))" for v us
    by (induction us) (auto simp: i)
  have p: "pt_PeerID ?t = trim_space (pt_PeerID t)" by (simp add: sanitizePeerTicket_def)
  show ?thesis using L su(2) [of ?t all] o [of ?t all] d [of all ?t] unfolding p by blast
qed

lemma ticket_store_upsert_witness:
  "let t = CreatePeerTicket (\<lambda>b. replicate 32 7) 0 ''peer'' ''key'' [''10.0.0.1:1''] hour;
       j = \<lparr>tj_env = \<lambda>_. [], tj_dec = \<lambda>_. None, tj_store = \<lambda>l. [1], tj_load = \<lambda>b. Inr [t]\<rparr>
   in \<exists>all'. LoadPeerTickets (\<lambda>b. replicate 32 7) j 0 (Some [1]) = Inr all' \<and> sanitizePeerTicket t \<in> set all'"
proof -
  let ?sha = "\<lambda>b :: bytes. replicate 32 7 :: bytes"
  let ?t = "CreatePeerTicket ?sha 0 ''peer'' ''key'' [''10.0.0.1:1''] hour"
  let ?j = "\<lparr>tj_env = \<lambda>_. [], tj_dec = \<lambda>_. None, tj_store = \<lambda>l. [1], tj_load = \<lambda>b. Inr [?t]\<rparr>"
  have c: "sanitizePeerTicket ?t = ?t" "ticket_valid ?sha ?t" by (rule created_clean created_valid)+
  have e: "unix_milli 0 < pt_ExpiresAt ?t" by (simp add: CreatePeerTicket_def Let_def unix_milli_def duration_units)
  have "\<exists>all'. LoadPeerTickets ?sha ?j 0 (Some [1]) = Inr all' \<and> sanitizePeerTicket ?t \<in> set all' \<and>
    filter (\<lambda>u. pt_PeerID u \<noteq> trim_space (pt_PeerID ?t)) all' = filter (\<lambda>u. pt_PeerID u \<noteq> trim_space (pt_PeerID ?t)) [] \<and>
    (distinct (map pt_PeerID ([] :: PeerTicket list)) \<longrightarrow> distinct (map pt_PeerID all'))"
    by (rule ticket_store_upsert [of ?sha ?j 0 ?t None "[1]" "[]"])
      (use c e in \<open>simp_all add: UpsertPeerTicket_def LoadPeerTickets_def\<close>)
  then show ?thesis unfolding Let_def by blast
qed

end
