(* ===== verification/Discovery.thy ===== *)
theory Discovery
  imports GoStd "HOL-Library.Multiset"
begin

text \<open>
  Relay discovery, \<^verbatim>\<open>internal/discovery\<close>: the relay node, the signed bootstrap list and the
  signed emergency policy, the filters by class, stake and country, the gossip merge and the
  HTTP fetchers. Ed25519, SHA-256, the JSON codec and the HTTP exchange are function arguments;
  the JSON encoding of a payload is an arbitrary function of its fields. \<^verbatim>\<open>sort.Slice\<close> is
  \<open>sort_key\<close>, which for distinct keys is the only possible outcome.
\<close>

section \<open>Nodes\<close>

record RelayNode =
  rn_ID :: string
  rn_Endpoints :: "string list"
  rn_Class :: string
  rn_UpdatedAt :: int
  rn_Srflx :: string
  rn_Turn :: string
  rn_Stake :: int
  rn_Region :: string
  rn_Quic :: string
  rn_DhtRPC :: string

definition RelayHasContact :: "RelayNode \<Rightarrow> bool" where
  "RelayHasContact n \<longleftrightarrow>
     (\<exists>e \<in> set (rn_Endpoints n). trim_space e \<noteq> []) \<or>
     trim_space (rn_Quic n) \<noteq> [] \<or> trim_space (rn_Srflx n) \<noteq> [] \<or> trim_space (rn_DhtRPC n) \<noteq> []"

section \<open>The signed bootstrap list\<close>

record SignedBootstrap =
  sb_EpochSec :: int
  sb_ExpiresAt :: int
  sb_Nodes :: "RelayNode list"
  sb_Signature :: string

type_synonym bootstrap_json = "int \<Rightarrow> int \<Rightarrow> RelayNode list \<Rightarrow> bytes"

definition canonicalBootstrapBody :: "bootstrap_json \<Rightarrow> int \<Rightarrow> int \<Rightarrow> RelayNode list \<Rightarrow> bytes" where
  "canonicalBootstrapBody marshal epoch ex nodes = marshal epoch ex (sort_key rn_ID nodes)"

definition SignBootstrap ::
  "bootstrap_json \<Rightarrow> (bytes \<Rightarrow> bytes \<Rightarrow> bytes) \<Rightarrow> int \<Rightarrow> int \<Rightarrow> RelayNode list \<Rightarrow> bytes \<Rightarrow> go_error + SignedBootstrap" where
  "SignBootstrap marshal sign epoch ex nodes priv =
     (if length priv \<noteq> 64 then Inl (Error ''bootstrap: bad private key size'')
      else let sig = sign priv (canonicalBootstrapBody marshal epoch ex nodes)
        in Inr \<lparr>sb_EpochSec = epoch, sb_ExpiresAt = ex, sb_Nodes = nodes, sb_Signature = b64_encode sig\<rparr>)"

text \<open>The answer of a \<^verbatim>\<open>Verify\<close> method: \<open>None\<close> is the nil error.\<close>

definition bootstrap_Verify ::
  "bootstrap_json \<Rightarrow> (bytes \<Rightarrow> bytes \<Rightarrow> bytes \<Rightarrow> bool) \<Rightarrow> SignedBootstrap \<Rightarrow> bytes \<Rightarrow> instant \<Rightarrow> go_error option" where
  "bootstrap_Verify marshal ed_verify b pub now =
     (if length pub \<noteq> 32 then Some (Error ''bootstrap: bad public key'')
      else if unix now > sb_ExpiresAt b then Some (Error ''bootstrap: expired'')
      else let body = canonicalBootstrapBody marshal (sb_EpochSec b) (sb_ExpiresAt b) (sb_Nodes b) in
        case b64_decode (trim_space (sb_Signature b)) of
          None \<Rightarrow> Some (Error ''bootstrap: bad signature format'')
        | Some sig \<Rightarrow> if \<not> ed_verify pub body sig then Some (Error ''bootstrap: signature verify failed'')
                      else None)"

definition RelayIndexDigest :: "bootstrap_json \<Rightarrow> (bytes \<Rightarrow> bytes) \<Rightarrow> RelayNode list \<Rightarrow> string" where
  "RelayIndexDigest marshal sha256 nodes = b64_encode_raw (sha256 (canonicalBootstrapBody marshal 0 0 nodes))"

section \<open>The signed emergency policy\<close>

record SignedEmergencyPolicy =
  ep_EpochSec :: int
  ep_ExpiresAt :: int
  ep_DisablePeerRelay :: bool
  ep_Signature :: string

definition emergencySigningPayload :: "int \<Rightarrow> int \<Rightarrow> bool \<Rightarrow> bytes" where
  "emergencySigningPayload epoch ex disable =
     str_bytes (''policy-v1|'' @ itoa epoch @ ''|'' @ itoa ex @ ''|'' @ (if disable then ''true'' else ''false''))"

definition emergency_Verify ::
  "(bytes \<Rightarrow> bytes \<Rightarrow> bytes \<Rightarrow> bool) \<Rightarrow> SignedEmergencyPolicy \<Rightarrow> bytes \<Rightarrow> instant \<Rightarrow> go_error option" where
  "emergency_Verify ed_verify p pub now =
     (if length pub \<noteq> 32 then Some (Error ''policy: bad public key'')
      else if unix now > ep_ExpiresAt p then Some (Error ''policy: expired'')
      else let payload = emergencySigningPayload (ep_EpochSec p) (ep_ExpiresAt p) (ep_DisablePeerRelay p) in
        case b64_decode (trim_space (ep_Signature p)) of
          None \<Rightarrow> Some (Error ''policy: bad signature encoding'')
        | Some sig \<Rightarrow> if \<not> ed_verify pub payload sig then Some (Error ''policy: signature verify failed'')
                      else None)"

definition ParseSignedEmergencyPolicyJSON ::
  "(string \<Rightarrow> go_error + SignedEmergencyPolicy) \<Rightarrow> string \<Rightarrow> go_error + SignedEmergencyPolicy" where
  "ParseSignedEmergencyPolicyJSON decode raw = decode (trim_space raw)"

definition ParseSignedBootstrapJSON ::
  "(string \<Rightarrow> go_error + SignedBootstrap) \<Rightarrow> string \<Rightarrow> go_error + SignedBootstrap" where
  "ParseSignedBootstrapJSON decode raw = decode (trim_space raw)"

text \<open>The four base64 variants are an argument, in the order the code tries them.\<close>

definition DecodeEd25519PublicKey :: "(string \<Rightarrow> bytes option) list \<Rightarrow> string \<Rightarrow> go_error + bytes" where
  "DecodeEd25519PublicKey encodings s =
     (let s = trim_space s in
      if s = [] then Inl (Error ''empty key'')
      else case [b. Some b \<leftarrow> map (\<lambda>dec. dec s) encodings, length b = 32] of
        b # _ \<Rightarrow> Inr b
      | [] \<Rightarrow> Inl (Error ''bad ed25519 public key''))"

section \<open>Filters\<close>

definition FilterRelayNodesByClass :: "RelayNode list \<Rightarrow> string list \<Rightarrow> RelayNode list" where
  "FilterRelayNodesByClass nodes allowed =
     (if length allowed = 0 then nodes
      else
        let st = filter (\<lambda>a. a \<noteq> []) (map (\<lambda>a. trim_space (to_lower a)) allowed) in
        if length st = 0 then nodes
        else filter (\<lambda>n. trim_space (to_lower (rn_Class n)) \<in> set st) nodes)"

definition FilterRelayNodesByStake :: "RelayNode list \<Rightarrow> int \<Rightarrow> RelayNode list" where
  "FilterRelayNodesByStake nodes minStake =
     (if minStake \<le> 0 then nodes else filter (\<lambda>n. rn_Stake n \<ge> minStake) nodes)"

fun firstEndpointHost_loop :: "string list \<Rightarrow> string" where
  "firstEndpointHost_loop [] = []"
| "firstEndpointHost_loop (ep # eps) =
     (let ep = trim_space ep in
      if ep = [] then firstEndpointHost_loop eps
      else case split_host_port ep of None \<Rightarrow> ep | Some (h, _) \<Rightarrow> h)"

definition firstEndpointHost :: "RelayNode \<Rightarrow> string" where
  "firstEndpointHost n = firstEndpointHost_loop (rn_Endpoints n)"

definition countrySet :: "string list \<Rightarrow> string list" where
  "countrySet l = filter (\<lambda>s. s \<noteq> []) (map (\<lambda>s. to_upper (trim_space s)) l)"

definition countrySets :: "string list \<Rightarrow> string list \<Rightarrow> string list \<times> string list" where
  "countrySets allow deny = (countrySet allow, countrySet deny)"

definition geoAllowed :: "string \<Rightarrow> string list \<Rightarrow> string list \<Rightarrow> bool" where
  "geoAllowed cc allow deny =
     (if length deny > 0 \<and> cc \<in> set deny then False
      else if length allow = 0 then True
      else cc \<in> set allow)"

text \<open>
  The verdict on one node: without an endpoint the region hint decides (no hint, no node); with
  one the country of its host, and an address that cannot be resolved is kept.
\<close>

definition geo_keep :: "(string \<Rightarrow> go_error + string) \<Rightarrow> string list \<Rightarrow> string list \<Rightarrow> RelayNode \<Rightarrow> bool" where
  "geo_keep resolve aSet dSet n =
     (let host = firstEndpointHost n in
      if host = [] then
        (let hint = trim_space (rn_Region n) in hint \<noteq> [] \<and> geoAllowed (to_upper hint) aSet dSet)
      else case resolve host of
        Inl _ \<Rightarrow> True
      | Inr cc \<Rightarrow> geoAllowed (to_upper (trim_space cc)) aSet dSet)"

text \<open>
  The look-ups run concurrently and the nodes are collected as they finish: \<open>sched\<close> is the
  order in which the verdicts come in, a permutation of the nodes. (The context is not
  cancelled.)
\<close>

definition FilterRelayNodesByGeo ::
  "(RelayNode list \<Rightarrow> RelayNode list) \<Rightarrow> RelayNode list \<Rightarrow> string list \<Rightarrow> string list \<Rightarrow>
   (string \<Rightarrow> go_error + string) \<Rightarrow> RelayNode list" where
  "FilterRelayNodesByGeo sched nodes allow deny resolve =
     (if length allow = 0 \<and> length deny = 0 then nodes
      else let (aSet, dSet) = countrySets allow deny
        in filter (geo_keep resolve aSet dSet) (sched nodes))"

section \<open>The gossip merge\<close>

fun gossip_base :: "(string, RelayNode) gomap \<Rightarrow> RelayNode list \<Rightarrow> (string, RelayNode) gomap" where
  "gossip_base idx [] = idx"
| "gossip_base idx (n # ns) =
     gossip_base (if rn_ID n = [] then idx else mput (rn_ID n) n idx) ns"

fun gossip_updates :: "(string, RelayNode) gomap \<Rightarrow> RelayNode list \<Rightarrow> (string, RelayNode) gomap" where
  "gossip_updates idx [] = idx"
| "gossip_updates idx (n # ns) =
     gossip_updates
       (if rn_ID n = [] \<or> \<not> RelayHasContact n then idx
        else case mget idx (rn_ID n) of
          None \<Rightarrow> mput (rn_ID n) n idx
        | Some old \<Rightarrow> if rn_UpdatedAt n > rn_UpdatedAt old then mput (rn_ID n) n idx else idx) ns"

text \<open>\<open>order\<close> is the order in which the \<^verbatim>\<open>range\<close> loop visits the index.\<close>

definition MergeGossip ::
  "((string, RelayNode) gomap \<Rightarrow> (string, RelayNode) gomap) \<Rightarrow>
   RelayNode list \<Rightarrow> RelayNode list \<Rightarrow> instant \<Rightarrow> duration \<Rightarrow> RelayNode list" where
  "MergeGossip order base updates now maxAge =
     (let idx = gossip_updates (gossip_base [] base) updates;
          cutoff = unix (now + - maxAge);
          out = filter (\<lambda>n. \<not> rn_UpdatedAt n < cutoff) (map snd (order idx))
      in sort_key rn_ID out)"

section \<open>Fetching\<close>

text \<open>
  \<open>http url\<close> is the outcome of a GET: an error, or the status and the body. The bodies read
  are cut at the limits of the code.
\<close>

type_synonym http = "string \<Rightarrow> go_error + int \<times> bytes"

definition MaxBootstrapBodyBytes :: nat where "MaxBootstrapBodyBytes = 2097152"

definition FetchBootstrapBody :: "http \<Rightarrow> string \<Rightarrow> go_error + bytes" where
  "FetchBootstrapBody http rawURL =
     (let rawURL = trim_space rawURL in
      if rawURL = [] then Inl (Error ''empty url'')
      else ebind (http rawURL) (\<lambda>(status, body).
        if status \<noteq> 200 then Inl (Error (''http status '' @ itoa status))
        else let b = take (MaxBootstrapBodyBytes + 1) body in
          if length b > MaxBootstrapBodyBytes then Inl (Error ''bootstrap body too large'')
          else Inr b))"

text \<open>\<open>env\<close> and \<open>flat\<close> decode the two accepted shapes, an object with nodes and a bare list.\<close>

definition FetchGossipHTTP ::
  "(bytes \<Rightarrow> go_error + RelayNode list) \<Rightarrow> (bytes \<Rightarrow> go_error + RelayNode list) \<Rightarrow> http \<Rightarrow> string \<Rightarrow>
   go_error + RelayNode list" where
  "FetchGossipHTTP env flat http rawURL =
     (let rawURL = trim_space rawURL in
      if rawURL = [] then Inl (Error ''gossip: empty url'')
      else ebind (http rawURL) (\<lambda>(status, body).
        if status \<noteq> 200
        then Inl (Error (''gossip: http '' @ itoa status @ '': '' @ trim_space (bytes_str (take 2048 body))))
        else
          let body = take 4194304 body in
          case env body of
            Inr (n # ns) \<Rightarrow> Inr (n # ns)
          | _ \<Rightarrow> (case flat body of
                    Inr (n # ns) \<Rightarrow> Inr (n # ns)
                  | _ \<Rightarrow> (case env body of Inl e \<Rightarrow> Inl e | Inr ns \<Rightarrow> Inr ns))))"

section \<open>Lemmas: lists sorted by a key\<close>

lemma sorted_by_key_unique:
  fixes f :: "'a \<Rightarrow> 'b::linorder"
  assumes "sorted (map f xs)" "distinct (map f xs)" "sorted (map f ys)" "distinct (map f ys)" "set xs = set ys"
  shows "xs = ys"
proof -
  have "map f xs = map f ys"
    using assms by (intro sorted_distinct_set_unique) simp_all
  moreover have "inj_on f (set xs \<union> set ys)"
    using assms(2,5) by (simp add: distinct_map)
  ultimately show ?thesis by (rule map_inj_on)
qed

lemma distinct_map_sort_key: "distinct (map f (sort_key f xs)) = distinct (map f xs)"
  by (metis distinct_map distinct_sort set_sort sort_key_const)

section \<open>Lemmas: the gossip merge\<close>

text \<open>An index of nodes: the key of an entry is the identifier of its node, which is not empty.\<close>

definition idx_ok :: "(string, RelayNode) gomap \<Rightarrow> bool" where
  "idx_ok idx \<longleftrightarrow> gomap_ok idx \<and> (\<forall>(k, n) \<in> set idx. k = rn_ID n \<and> k \<noteq> [])"

lemma set_mput: "gomap_ok m \<Longrightarrow> set (mput k v m) = insert (k, v) {(k', v'). (k', v') \<in> set m \<and> k' \<noteq> k}"
  using gomap_ok_mput [of m k v] by (auto simp: mget_in gomap split: if_splits)

lemma idx_ok_mput: "idx_ok idx \<Longrightarrow> rn_ID n \<noteq> [] \<Longrightarrow> idx_ok (mput (rn_ID n) n idx)"
  by (auto simp: idx_ok_def gomap set_mput)

lemma idx_ok_base: "idx_ok idx \<Longrightarrow> idx_ok (gossip_base idx ns)"
  by (induction idx ns rule: gossip_base.induct) (auto simp: idx_ok_mput)

lemma idx_ok_updates: "idx_ok idx \<Longrightarrow> idx_ok (gossip_updates idx ns)"
  by (induction idx ns rule: gossip_updates.induct) (auto simp: idx_ok_mput split: option.splits)

lemma gossip_base_from:
  "mget (gossip_base idx ns) k = Some n \<Longrightarrow> mget idx k = Some n \<or> n \<in> set ns"
  by (induction idx ns rule: gossip_base.induct) (auto simp: gomap split: if_splits)

lemma gossip_updates_from:
  "mget (gossip_updates idx ns) k = Some n \<Longrightarrow>
   mget idx k = Some n \<or> n \<in> set ns \<and> RelayHasContact n \<and> rn_ID n = k \<and> k \<noteq> []"
  by (induction idx ns rule: gossip_updates.induct) (auto simp: gomap split: if_splits option.splits)

text \<open>An entry is only ever replaced by a newer one.\<close>

lemma gossip_updates_keeps:
  "mget idx k = Some n \<Longrightarrow> \<exists>n'. mget (gossip_updates idx ns) k = Some n' \<and> rn_UpdatedAt n \<le> rn_UpdatedAt n'"
proof (induction idx ns arbitrary: n rule: gossip_updates.induct)
  case (2 idx u ns)
  let ?idx = "if rn_ID u = [] \<or> \<not> RelayHasContact u then idx
        else case mget idx (rn_ID u) of None \<Rightarrow> mput (rn_ID u) u idx
        | Some old \<Rightarrow> if rn_UpdatedAt u > rn_UpdatedAt old then mput (rn_ID u) u idx else idx"
  have "\<exists>m. mget ?idx k = Some m \<and> rn_UpdatedAt n \<le> rn_UpdatedAt m"
    using "2.prems" by (auto simp: gomap split: option.splits)
  then obtain m where m: "mget ?idx k = Some m" "rn_UpdatedAt n \<le> rn_UpdatedAt m" by blast
  obtain n' where "mget (gossip_updates ?idx ns) k = Some n'" "rn_UpdatedAt m \<le> rn_UpdatedAt n'"
    using "2.IH" [OF m(1)] by blast
  then show ?case using m(2) by (auto intro!: exI [of _ n'])
qed simp

lemma gossip_updates_newest:
  "u \<in> set ns \<Longrightarrow> rn_ID u \<noteq> [] \<Longrightarrow> RelayHasContact u \<Longrightarrow>
   \<exists>n. mget (gossip_updates idx ns) (rn_ID u) = Some n \<and> rn_UpdatedAt u \<le> rn_UpdatedAt n"
proof (induction idx ns rule: gossip_updates.induct)
  case (2 idx v ns)
  let ?idx = "if rn_ID v = [] \<or> \<not> RelayHasContact v then idx
        else case mget idx (rn_ID v) of None \<Rightarrow> mput (rn_ID v) v idx
        | Some old \<Rightarrow> if rn_UpdatedAt v > rn_UpdatedAt old then mput (rn_ID v) v idx else idx"
  show ?case
  proof (cases "u = v")
    case True
    then have "\<exists>m. mget ?idx (rn_ID u) = Some m \<and> rn_UpdatedAt u \<le> rn_UpdatedAt m"
      using "2.prems" by (auto simp: gomap split: option.splits)
    then obtain m where m: "mget ?idx (rn_ID u) = Some m" "rn_UpdatedAt u \<le> rn_UpdatedAt m" by blast
    obtain n where "mget (gossip_updates ?idx ns) (rn_ID u) = Some n" "rn_UpdatedAt m \<le> rn_UpdatedAt n"
      using gossip_updates_keeps [OF m(1)] by blast
    then show ?thesis using m(2) by (auto intro!: exI [of _ n])
  next
    case False
    then show ?thesis using 2 by simp
  qed
qed simp

text \<open>Updates no newer than the index leave its entries alone.\<close>

lemma gossip_updates_old:
  "mget idx k = Some n \<Longrightarrow> \<forall>u \<in> set ns. rn_ID u = k \<and> RelayHasContact u \<longrightarrow> rn_UpdatedAt u \<le> rn_UpdatedAt n \<Longrightarrow>
   mget (gossip_updates idx ns) k = Some n"
proof (induction idx ns rule: gossip_updates.induct)
  case (2 idx u ns)
  let ?idx = "if rn_ID u = [] \<or> \<not> RelayHasContact u then idx
        else case mget idx (rn_ID u) of None \<Rightarrow> mput (rn_ID u) u idx
        | Some old \<Rightarrow> if rn_UpdatedAt u > rn_UpdatedAt old then mput (rn_ID u) u idx else idx"
  have "mget ?idx k = Some n"
    using "2.prems" by (auto simp: gomap split: option.splits)
  then show ?case using "2.IH" "2.prems"(2) by simp
qed simp

text \<open>The visiting order of a \<^verbatim>\<open>range\<close> loop: the same entries, each once.\<close>

definition range_order :: "(('k, 'v) gomap \<Rightarrow> ('k, 'v) gomap) \<Rightarrow> bool" where
  "range_order order \<longleftrightarrow> (\<forall>m. gomap_ok m \<longrightarrow> set (order m) = set m \<and> gomap_ok (order m))"

definition merge_idx :: "RelayNode list \<Rightarrow> RelayNode list \<Rightarrow> (string, RelayNode) gomap" where
  "merge_idx base updates = gossip_updates (gossip_base [] base) updates"

lemma idx_ok_merge: "idx_ok (merge_idx base updates)"
  unfolding merge_idx_def by (intro idx_ok_updates idx_ok_base) (simp add: idx_ok_def)

lemma map_snd_idx: "idx_ok idx \<Longrightarrow> map rn_ID (map snd idx) = map fst idx"
  by (auto simp: idx_ok_def)

lemma MergeGossip_set:
  assumes "range_order order"
  shows "n \<in> set (MergeGossip order base updates now maxAge) \<longleftrightarrow>
    mget (merge_idx base updates) (rn_ID n) = Some n \<and> \<not> rn_UpdatedAt n < unix (now + - maxAge)"
proof -
  let ?idx = "merge_idx base updates"
  have ok: "idx_ok ?idx" by (rule idx_ok_merge)
  then have g: "gomap_ok ?idx" by (simp add: idx_ok_def)
  have o: "set (order ?idx) = set ?idx" using assms g by (simp add: range_order_def)
  have "n \<in> snd ` set ?idx \<longleftrightarrow> (rn_ID n, n) \<in> set ?idx"
    using ok by (force simp: idx_ok_def)
  then show ?thesis
    unfolding MergeGossip_def Let_def merge_idx_def [symmetric] by (auto simp: o mget_in [OF g])
qed

lemma MergeGossip_sorted:
  assumes "range_order order"
  shows "sorted (map rn_ID (MergeGossip order base updates now maxAge))"
    and "distinct (map rn_ID (MergeGossip order base updates now maxAge))"
proof -
  let ?idx = "merge_idx base updates"
  have ok: "idx_ok ?idx" by (rule idx_ok_merge)
  then have "gomap_ok (order ?idx)" and o: "set (order ?idx) = set ?idx"
    using assms by (simp_all add: range_order_def idx_ok_def)
  then have "idx_ok (order ?idx)" using ok by (simp add: idx_ok_def)
  then have "distinct (map rn_ID (map snd (order ?idx)))"
    by (simp only: map_snd_idx) (simp add: idx_ok_def gomap_ok_def)
  then have "distinct (map rn_ID (filter (\<lambda>n. \<not> rn_UpdatedAt n < unix (now + - maxAge)) (map snd (order ?idx))))"
    by (rule distinct_map_filter)
  then show "distinct (map rn_ID (MergeGossip order base updates now maxAge))"
    unfolding MergeGossip_def Let_def merge_idx_def [symmetric] by (simp add: distinct_map_sort_key)
  show "sorted (map rn_ID (MergeGossip order base updates now maxAge))"
    unfolding MergeGossip_def Let_def by simp
qed

lemma MergeGossip_unique:
  assumes "range_order o1" "range_order o2"
    and "\<And>n. n \<in> set (MergeGossip o1 b1 u1 t1 a1) \<longleftrightarrow> n \<in> set (MergeGossip o2 b2 u2 t2 a2)"
  shows "MergeGossip o1 b1 u1 t1 a1 = MergeGossip o2 b2 u2 t2 a2"
  by (rule sorted_by_key_unique [where f = rn_ID]) (use assms MergeGossip_sorted in auto)

lemma gossip_base_distinct:
  "distinct (map rn_ID ns) \<Longrightarrow> \<forall>n \<in> set ns. rn_ID n \<noteq> [] \<Longrightarrow>
   mget (gossip_base idx ns) k = (case find (\<lambda>n. rn_ID n = k) ns of Some n \<Rightarrow> Some n | None \<Rightarrow> mget idx k)"
proof (induction idx ns rule: gossip_base.induct)
  case (2 idx n ns)
  have "rn_ID n = k \<Longrightarrow> find (\<lambda>n. rn_ID n = k) ns = None"
    using "2.prems"(1) by (simp add: find_None_iff) (metis image_eqI)
  then show ?case using 2 by (auto simp: gomap split: option.splits)
qed simp

lemma gossip_base_out:
  assumes "range_order order" and "out = MergeGossip order base updates now maxAge"
  shows "mget (gossip_base [] out) k = Some n \<longleftrightarrow> n \<in> set out \<and> rn_ID n = k"
proof -
  have d: "distinct (map rn_ID out)" using assms MergeGossip_sorted(2) by simp
  have i: "\<forall>n \<in> set out. rn_ID n \<noteq> []"
    using idx_ok_merge [of base updates] mget_Some_in
    by (fastforce simp: assms(2) MergeGossip_set [OF assms(1)] idx_ok_def)
  have u: "x \<in> set out \<Longrightarrow> y \<in> set out \<Longrightarrow> rn_ID x = rn_ID y \<Longrightarrow> x = y" for x y
    using d by (simp add: distinct_map inj_on_def)
  show ?thesis
    unfolding gossip_base_distinct [OF d i]
    by (auto simp: mget_Nil find_Some_iff find_None_iff split: option.splits dest: u)
      (metis nth_mem u)+
qed

lemma merge_again:
  assumes o: "range_order order" and out: "out = MergeGossip order base updates now maxAge"
    and fresh: "\<not> rn_UpdatedAt n < unix (now + - maxAge)"
  shows "mget (merge_idx out updates) (rn_ID n) = Some n \<longleftrightarrow> n \<in> set out"
proof -
  have in_out: "x \<in> set out \<longleftrightarrow> mget (merge_idx base updates) (rn_ID x) = Some x \<and> \<not> rn_UpdatedAt x < unix (now + - maxAge)" for x
    using MergeGossip_set [OF o] out by simp
  have keep: "mget (merge_idx out updates) (rn_ID x) = Some x" if "x \<in> set out" for x
  proof -
    have b: "mget (gossip_base [] out) (rn_ID x) = Some x" using gossip_base_out [OF o out] that by simp
    have I: "mget (merge_idx base updates) (rn_ID x) = Some x" using in_out that by simp
    have ne: "rn_ID x \<noteq> []" using idx_ok_merge [of base updates] mget_Some_in [OF I] by (auto simp: idx_ok_def)
    have "\<forall>u \<in> set updates. rn_ID u = rn_ID x \<and> RelayHasContact u \<longrightarrow> rn_UpdatedAt u \<le> rn_UpdatedAt x"
      using gossip_updates_newest [of _ updates "gossip_base [] base"] I ne by (fastforce simp: merge_idx_def)
    then show ?thesis unfolding merge_idx_def by (intro gossip_updates_old b)
  qed
  show ?thesis
  proof
    assume J: "mget (merge_idx out updates) (rn_ID n) = Some n"
    then consider "mget (gossip_base [] out) (rn_ID n) = Some n"
      | "n \<in> set updates" "RelayHasContact n" "rn_ID n \<noteq> []"
      unfolding merge_idx_def using gossip_updates_from by blast
    then show "n \<in> set out"
    proof cases
      case 1
      then show ?thesis using gossip_base_out [OF o out] by simp
    next
      case 2
      obtain n' where n': "mget (merge_idx base updates) (rn_ID n) = Some n'" "rn_UpdatedAt n \<le> rn_UpdatedAt n'"
        using gossip_updates_newest [OF 2(1,3,2)] unfolding merge_idx_def by blast
      have "rn_ID n' = rn_ID n"
        using mget_Some_in [OF n'(1)] idx_ok_merge [of base updates] by (auto simp: idx_ok_def)
      then have "n' \<in> set out" using n' fresh in_out by simp
      then show ?thesis using keep J \<open>rn_ID n' = rn_ID n\<close> by (metis option.inject)
    qed
  qed (rule keep)
qed

section \<open>Properties\<close>

text \<open>A node for the witnesses.\<close>

abbreviation demo_node :: "string \<Rightarrow> int \<Rightarrow> RelayNode" where
  "demo_node i t \<equiv> \<lparr>rn_ID = i, rn_Endpoints = [''1.2.3.4:5''], rn_Class = [], rn_UpdatedAt = t, rn_Srflx = [],
     rn_Turn = [], rn_Stake = 0, rn_Region = [], rn_Quic = [], rn_DhtRPC = []\<rparr>"

text \<open>
  The gossip merge yields, in the order of their identifiers, one node per identifier, each
  taken unchanged from the base or the updates and not older than the cutoff; and no usable
  update is lost: for each one that is fresh enough the result has a node of that identifier
  which is at least as new.
\<close>

theorem gossip_merge_spec:
  assumes "range_order order"
  shows "let out = MergeGossip order base updates now maxAge in
     sorted (map rn_ID out) \<and> distinct (map rn_ID out) \<and>
     (\<forall>n \<in> set out. (n \<in> set base \<or> n \<in> set updates \<and> RelayHasContact n) \<and> rn_UpdatedAt n \<ge> unix (now - maxAge)) \<and>
     (\<forall>u \<in> set updates. rn_ID u \<noteq> [] \<and> RelayHasContact u \<and> rn_UpdatedAt u \<ge> unix (now - maxAge) \<longrightarrow>
        (\<exists>n \<in> set out. rn_ID n = rn_ID u \<and> rn_UpdatedAt n \<ge> rn_UpdatedAt u))"
proof -
  have from_base: "n \<in> set base \<or> n \<in> set updates \<and> RelayHasContact n"
    if "mget (merge_idx base updates) (rn_ID n) = Some n" for n
    using that gossip_updates_from [of "gossip_base [] base"] gossip_base_from [of "[]" base]
    by (fastforce simp: merge_idx_def mget_Nil)
  have newest: "\<exists>n. mget (merge_idx base updates) (rn_ID n) = Some n \<and> rn_ID n = rn_ID u \<and> rn_UpdatedAt u \<le> rn_UpdatedAt n"
    if u: "u \<in> set updates" "rn_ID u \<noteq> []" "RelayHasContact u" for u
  proof -
    obtain n where n: "mget (merge_idx base updates) (rn_ID u) = Some n" "rn_UpdatedAt u \<le> rn_UpdatedAt n"
      using gossip_updates_newest [OF u] unfolding merge_idx_def by blast
    then have "rn_ID n = rn_ID u"
      using mget_Some_in [OF n(1)] idx_ok_merge [of base updates] by (auto simp: idx_ok_def)
    then show ?thesis using n by metis
  qed
  show ?thesis
    unfolding Let_def Ball_def Bex_def MergeGossip_set [OF assms]
    using MergeGossip_sorted [OF assms] from_base newest by (auto simp: not_less) force
qed

theorem gossip_merge_spec_witness:
  "let u = \<lparr>rn_ID = ''a'', rn_Endpoints = [''1.2.3.4:5''], rn_Class = [], rn_UpdatedAt = 7, rn_Srflx = [],
        rn_Turn = [], rn_Stake = 0, rn_Region = [], rn_Quic = [], rn_DhtRPC = []\<rparr>
   in \<exists>n \<in> set (MergeGossip rev [u\<lparr>rn_UpdatedAt := 3\<rparr>] [u] 0 0). rn_ID n = ''a'' \<and> rn_UpdatedAt n \<ge> 7"
proof -
  let ?u = "\<lparr>rn_ID = ''a'', rn_Endpoints = [''1.2.3.4:5''], rn_Class = [], rn_UpdatedAt = 7, rn_Srflx = [],
        rn_Turn = [], rn_Stake = 0, rn_Region = [], rn_Quic = [], rn_DhtRPC = []\<rparr>"
  have o: "range_order rev" by (simp add: range_order_def gomap_ok_def rev_map [symmetric])
  have "RelayHasContact ?u" by code_simp
  then show ?thesis
    using gossip_merge_spec [OF o, of "[?u\<lparr>rn_UpdatedAt := 3\<rparr>]" "[?u]" 0 0] by (simp add: Let_def unix_def)
qed

text \<open>
  Merging is idempotent and does not depend on the order Go visits its maps in: merging the
  same updates once more into the result, under any visiting orders, changes nothing.
\<close>

theorem gossip_merge_idempotent:
  assumes "range_order o1" and "range_order o2" and "range_order o3"
  shows "MergeGossip o1 (MergeGossip o2 base updates now maxAge) updates now maxAge =
    MergeGossip o3 base updates now maxAge"
proof (rule MergeGossip_unique [OF assms(1,3)])
  fix n
  show "n \<in> set (MergeGossip o1 (MergeGossip o2 base updates now maxAge) updates now maxAge) \<longleftrightarrow>
      n \<in> set (MergeGossip o3 base updates now maxAge)"
    unfolding MergeGossip_set [OF assms(1)] MergeGossip_set [OF assms(3)]
    using merge_again [OF assms(2) refl, of n now maxAge base updates] MergeGossip_set [OF assms(2), of n base updates now maxAge]
    by blast
qed

theorem gossip_merge_idempotent_witness:
  "MergeGossip rev (MergeGossip id [demo_node ''a'' 3] [demo_node ''b'' 2, demo_node ''a'' 4] 9 4)
     [demo_node ''b'' 2, demo_node ''a'' 4] 9 4 =
   MergeGossip rev [demo_node ''a'' 3] [demo_node ''b'' 2, demo_node ''a'' 4] 9 4"
proof -
  have "range_order rev" "range_order id" by (simp_all add: range_order_def gomap_ok_def rev_map [symmetric])
  then show ?thesis by (intro gossip_merge_idempotent)
qed

text \<open>
  A bootstrap list that was signed verifies until it expires, in whatever order its nodes
  are listed, and only then: what verifies has an unexpired date and carries a signature of
  exactly its epoch, its expiry and its nodes.
\<close>

theorem bootstrap_sign_verify:
  assumes "\<And>m. ed_verify pub m (sign priv m)" and "length pub = 32"
    and "SignBootstrap marshal sign epoch ex nodes priv = Inr b"
    and "distinct (map rn_ID nodes)" and "distinct (map rn_ID nodes')" and "set nodes' = set nodes"
  shows "bootstrap_Verify marshal ed_verify (b\<lparr>sb_Nodes := nodes'\<rparr>) pub now = None \<longleftrightarrow> unix now \<le> ex"
proof -
  have "sort_key rn_ID nodes' = sort_key rn_ID nodes"
    by (rule sorted_by_key_unique [where f = rn_ID]) (use assms(4-6) in \<open>simp_all add: distinct_map_sort_key\<close>)
  then have c: "canonicalBootstrapBody marshal epoch ex nodes' = canonicalBootstrapBody marshal epoch ex nodes"
    by (simp add: canonicalBootstrapBody_def)
  have b: "b = \<lparr>sb_EpochSec = epoch, sb_ExpiresAt = ex, sb_Nodes = nodes,
      sb_Signature = b64_encode (sign priv (canonicalBootstrapBody marshal epoch ex nodes))\<rparr>"
    using assms(3) by (auto simp: SignBootstrap_def Let_def split: if_splits)
  show ?thesis
    unfolding bootstrap_Verify_def b by (simp add: assms(1,2) c Let_def not_less)
qed

theorem bootstrap_sign_verify_witness:
  "\<exists>b n. SignBootstrap (\<lambda>e x ns. concat (map (\<lambda>n. str_bytes (rn_ID n)) ns)) (\<lambda>k m. m) 1 100 [n, n\<lparr>rn_ID := ''a''\<rparr>] (replicate 64 0) = Inr b \<and>
     rn_ID n = ''b'' \<and>
     (bootstrap_Verify (\<lambda>e x ns. concat (map (\<lambda>n. str_bytes (rn_ID n)) ns)) (\<lambda>k m s. m = s)
       (b\<lparr>sb_Nodes := [n\<lparr>rn_ID := ''a''\<rparr>, n]\<rparr>) (replicate 32 0) 5 = None \<longleftrightarrow> unix 5 \<le> 100)"
proof -
  let ?m = "\<lambda>(e :: int) (x :: int) ns. concat (map (\<lambda>n. str_bytes (rn_ID n)) ns)"
  let ?n = "\<lparr>rn_ID = ''b'', rn_Endpoints = [], rn_Class = [], rn_UpdatedAt = 7, rn_Srflx = [],
        rn_Turn = [], rn_Stake = 0, rn_Region = [], rn_Quic = [], rn_DhtRPC = []\<rparr>"
  obtain b where b: "SignBootstrap ?m (\<lambda>k m. m) 1 100 [?n, ?n\<lparr>rn_ID := ''a''\<rparr>] (replicate 64 0) = Inr b"
    by (simp add: SignBootstrap_def Let_def)
  have "bootstrap_Verify ?m (\<lambda>k m s. m = s) (b\<lparr>sb_Nodes := [?n\<lparr>rn_ID := ''a''\<rparr>, ?n]\<rparr>) (replicate 32 0) 5 = None \<longleftrightarrow> unix 5 \<le> 100"
    by (rule bootstrap_sign_verify [OF _ _ b]) auto
  then show ?thesis using b by (intro exI [of _ b] exI [of _ ?n]) simp
qed

text \<open>The country rule, on the lists as configured.\<close>

definition country_ok :: "string list \<Rightarrow> string list \<Rightarrow> string \<Rightarrow> bool" where
  "country_ok allow deny cc \<longleftrightarrow>
     (\<forall>d \<in> set deny. trim_space d \<noteq> [] \<longrightarrow> cc \<noteq> to_upper (trim_space d)) \<and>
     ((\<forall>a \<in> set allow. trim_space a = []) \<or> (\<exists>a \<in> set allow. trim_space a \<noteq> [] \<and> cc = to_upper (trim_space a)))"

lemma set_countrySet: "set (countrySet l) = {to_upper (trim_space x) |x. x \<in> set l \<and> trim_space x \<noteq> []}"
  by (auto simp: countrySet_def to_upper_def)

lemma geoAllowed_iff: "geoAllowed cc (countrySet allow) (countrySet deny) = country_ok allow deny cc"
proof -
  have e: "length (countrySet l) = 0 \<longleftrightarrow> (\<forall>a \<in> set l. trim_space a = [])" for l
    by (auto simp: countrySet_def to_upper_def filter_empty_conv)
  have m: "cc \<in> set (countrySet l) \<longleftrightarrow> (\<exists>a \<in> set l. trim_space a \<noteq> [] \<and> cc = to_upper (trim_space a))" for l
    by (auto simp: set_countrySet)
  have l: "length (countrySet deny) > 0 \<and> cc \<in> set (countrySet deny) \<longleftrightarrow> cc \<in> set (countrySet deny)" by auto
  show ?thesis unfolding geoAllowed_def country_ok_def l unfolding e m if_bool_eq_conj by blast
qed

text \<open>
  The country filter keeps, with multiplicity and in whatever order the resolver answers, exactly the
  relays whose country the rule admits: the resolver's for a relay with an endpoint, the stated region for
  one without. A relay the resolver fails on is kept, one with neither endpoint nor region is not.
\<close>

theorem geo_filter_exact:
  assumes "mset (sched nodes) = mset nodes"
  shows "mset (FilterRelayNodesByGeo sched nodes allow deny resolve) =
    (if allow = [] \<and> deny = [] then mset nodes
     else filter_mset (\<lambda>n.
       if firstEndpointHost n = []
       then trim_space (rn_Region n) \<noteq> [] \<and> country_ok allow deny (to_upper (trim_space (rn_Region n)))
       else case resolve (firstEndpointHost n) of
         Inl _ \<Rightarrow> True
       | Inr cc \<Rightarrow> country_ok allow deny (to_upper (trim_space cc))) (mset nodes))"
proof -
  have "geo_keep resolve (countrySet allow) (countrySet deny) = (\<lambda>n.
       if firstEndpointHost n = []
       then trim_space (rn_Region n) \<noteq> [] \<and> country_ok allow deny (to_upper (trim_space (rn_Region n)))
       else case resolve (firstEndpointHost n) of
         Inl _ \<Rightarrow> True
       | Inr cc \<Rightarrow> country_ok allow deny (to_upper (trim_space cc)))"
    by (intro ext) (simp add: geo_keep_def geoAllowed_iff Let_def split: sum.split)
  then show ?thesis by (simp add: FilterRelayNodesByGeo_def countrySets_def assms)
qed

theorem geo_filter_exact_witness:
  "mset (FilterRelayNodesByGeo rev [demo_node ''a'' 1, demo_node ''b'' 1] [''de''] [] (\<lambda>h. Inr ''DE'')) =
     {# demo_node ''a'' 1, demo_node ''b'' 1 #}"
proof -
  have "firstEndpointHost (demo_node ''a'' 1) \<noteq> []" "firstEndpointHost (demo_node ''b'' 1) \<noteq> []"
    "country_ok [''de''] [] (to_upper (trim_space ''DE''))"
    by code_simp+
  then show ?thesis by (subst geo_filter_exact) simp_all
qed

end
