(* ===== verification/Dht.thy ===== *)
theory Dht
  imports Discovery
begin

text \<open>
  The distributed hash table of relays, \<^verbatim>\<open>internal/dht\<close>: the table of contacts with its
  256 buckets (\<^verbatim>\<open>table.go\<close>, \<^verbatim>\<open>kbucket.go\<close>) and the store of values
  (\<^verbatim>\<open>kvstore.go\<close>). A 32-byte array is a byte list of that length, \<open>sha256\<close> an argument.
  The two loops that shrink the table are \<open>partial_function\<close>s, so that they end is a theorem.
\<close>

section \<open>Distances and buckets\<close>

definition bucketK :: nat where "bucketK = 20"
definition maxEntries :: nat where "maxEntries = 2048"

definition LeadingZeros8 :: "byte \<Rightarrow> nat" where
  "LeadingZeros8 x = length (takeWhile (\<lambda>i. \<not> bit x (7 - i)) [0..<8])"

fun xorLeadingBitIdx_from :: "nat \<Rightarrow> bytes \<Rightarrow> nat" where
  "xorLeadingBitIdx_from i [] = 255"
| "xorLeadingBitIdx_from i (x # xd) =
     (if x \<noteq> 0 then i * 8 + LeadingZeros8 x else xorLeadingBitIdx_from (i + 1) xd)"

definition xorLeadingBitIdx :: "bytes \<Rightarrow> nat" where
  "xorLeadingBitIdx xd = xorLeadingBitIdx_from 0 xd"

definition xorDist :: "bytes \<Rightarrow> bytes \<Rightarrow> bytes" where
  "xorDist a b = map2 (XOR) a b"

fun distLess :: "bytes \<Rightarrow> bytes \<Rightarrow> bool" where
  "distLess (x # xs) (y # ys) = (if x \<noteq> y then x < y else distLess xs ys)"
| "distLess _ _ = False"

lemma distLess_less: "length x = length y \<Longrightarrow> distLess x y \<longleftrightarrow> x < y"
  by (induction x y rule: distLess.induct) auto

section \<open>The table\<close>

record relayEntry =
  re_id :: bytes
  re_n :: RelayNode

record Table =
  tab_self :: bytes
  tab_byID :: "(string, relayEntry) gomap"
  tab_buckets :: "string list list"

definition NewTable :: "(bytes \<Rightarrow> bytes) \<Rightarrow> string \<Rightarrow> Table" where
  "NewTable sha256 seed =
     \<lparr>tab_self = sha256 (str_bytes seed), tab_byID = [], tab_buckets = replicate 256 []\<rparr>"

definition nodeID :: "(bytes \<Rightarrow> bytes) \<Rightarrow> RelayNode \<Rightarrow> bytes" where
  "nodeID sha256 r = sha256 (str_bytes (rn_ID r))"

definition placeInBucketLocked :: "Table \<Rightarrow> nat \<Rightarrow> string \<Rightarrow> Table" where
  "placeInBucketLocked t b i = t\<lparr>tab_buckets := (tab_buckets t)[b := tab_buckets t ! b @ [i]]\<rparr>"

definition dropContactLocked :: "Table \<Rightarrow> string \<Rightarrow> Table" where
  "dropContactLocked t i =
     (case mget (tab_byID t) i of
        None \<Rightarrow> t
      | Some e \<Rightarrow>
          let bi = xorLeadingBitIdx (xorDist (tab_self t) (re_id e))
          in t\<lparr>tab_buckets := (tab_buckets t)[bi := remove1 i (tab_buckets t ! bi)],
               tab_byID := mdel i (tab_byID t)\<rparr>)"

text \<open>A missing entry is the zero value of the map, whose identifier is all zeros.\<close>

definition contact_id :: "Table \<Rightarrow> string \<Rightarrow> bytes" where
  "contact_id t rid = (case mget (tab_byID t) rid of None \<Rightarrow> replicate 32 0 | Some e \<Rightarrow> re_id e)"

definition worst_in :: "Table \<Rightarrow> string list \<Rightarrow> (string \<times> bytes) option" where
  "worst_in t rids = pick distLess (map (\<lambda>rid. (rid, xorDist (tab_self t) (contact_id t rid))) rids) None"

partial_function (option) trimBucketLocked :: "nat \<Rightarrow> Table \<Rightarrow> Table option" where
  "trimBucketLocked bi t =
     (if length (tab_buckets t ! bi) > bucketK
      then case worst_in t (tab_buckets t ! bi) of
             None \<Rightarrow> Some t
           | Some (victim, _) \<Rightarrow> trimBucketLocked bi (dropContactLocked t victim)
      else Some t)"

text \<open>\<open>order\<close> is the order in which the \<^verbatim>\<open>range\<close> loop visits \<open>byID\<close>.\<close>

definition farthest_in :: "Table \<Rightarrow> (string \<times> relayEntry) list \<Rightarrow> (string \<times> bytes) option" where
  "farthest_in t es = pick distLess (map (\<lambda>(i, e). (i, xorDist (re_id e) (tab_self t))) es) None"

definition evictOneFarthestLocked ::
  "((string, relayEntry) gomap \<Rightarrow> (string, relayEntry) gomap) \<Rightarrow> Table \<Rightarrow> Table" where
  "evictOneFarthestLocked order t =
     (case farthest_in t (order (tab_byID t)) of
        None \<Rightarrow> t
      | Some (farthest, _) \<Rightarrow> if farthest = [] then t else dropContactLocked t farthest)"

partial_function (option) evict_loop ::
  "((string, relayEntry) gomap \<Rightarrow> (string, relayEntry) gomap) \<Rightarrow> Table \<Rightarrow> Table option" where
  "evict_loop order t =
     (if length (tab_byID t) > maxEntries then evict_loop order (evictOneFarthestLocked order t)
      else Some t)"

definition Insert ::
  "((string, relayEntry) gomap \<Rightarrow> (string, relayEntry) gomap) \<Rightarrow> (bytes \<Rightarrow> bytes) \<Rightarrow> RelayNode \<Rightarrow> Table \<Rightarrow> Table option" where
  "Insert order sha256 r t =
     (if rn_ID r = [] then Some t
      else let hasEP = (\<exists>e \<in> set (rn_Endpoints r). trim_space e \<noteq> []) in
        if \<not> hasEP \<and> trim_space (rn_Quic r) = [] \<and> trim_space (rn_Srflx r) = [] \<and> trim_space (rn_DhtRPC r) = []
        then Some t
        else
          let i = nodeID sha256 r; entry = \<lparr>re_id = i, re_n = r\<rparr> in
          if mget (tab_byID t) (rn_ID r) \<noteq> None
          then Some (t\<lparr>tab_byID := mput (rn_ID r) entry (tab_byID t)\<rparr>)
          else
            let xd = xorDist (tab_self t) i;
                bi = xorLeadingBitIdx xd;
                t = t\<lparr>tab_byID := mput (rn_ID r) entry (tab_byID t)\<rparr>;
                t = placeInBucketLocked t (bi mod 256) (rn_ID r)
            in Option.bind (trimBucketLocked bi t) (evict_loop order))"

fun Merge ::
  "((string, relayEntry) gomap \<Rightarrow> (string, relayEntry) gomap) \<Rightarrow> (bytes \<Rightarrow> bytes) \<Rightarrow> RelayNode list \<Rightarrow> Table \<Rightarrow> Table option" where
  "Merge order sha256 [] t = Some t"
| "Merge order sha256 (r # rs) t = Option.bind (Insert order sha256 r t) (Merge order sha256 rs)"

definition NearestTo ::
  "((string, relayEntry) gomap \<Rightarrow> (string, relayEntry) gomap) \<Rightarrow> Table \<Rightarrow> bytes \<Rightarrow> int \<Rightarrow> RelayNode list" where
  "NearestTo order t target k =
     (if k \<le> 0 then []
      else
        let pp = map (\<lambda>(_, e). (xorDist (re_id e) target, re_n e)) (order (tab_byID t));
            pp = sort_key fst pp;
            k = (if k > int (length pp) then int (length pp) else k)
        in map snd (take (nat k) pp))"

definition Nearest ::
  "((string, relayEntry) gomap \<Rightarrow> (string, relayEntry) gomap) \<Rightarrow> Table \<Rightarrow> int \<Rightarrow> RelayNode list" where
  "Nearest order t k = NearestTo order t (tab_self t) k"

definition Len :: "Table \<Rightarrow> nat" where
  "Len t = length (tab_byID t)"

definition PullMergeFromURL ::
  "((string, relayEntry) gomap \<Rightarrow> (string, relayEntry) gomap) \<Rightarrow> (bytes \<Rightarrow> bytes) \<Rightarrow>
   (string \<Rightarrow> go_error + RelayNode list) \<Rightarrow> string \<Rightarrow> Table \<Rightarrow> (go_error option \<times> Table) option" where
  "PullMergeFromURL order sha256 fetch rawURL t =
     (case fetch rawURL of
        Inl e \<Rightarrow> Some (Some e, t)
      | Inr nodes \<Rightarrow> Option.bind (Merge order sha256 nodes t) (\<lambda>t. Some (None, t)))"

section \<open>The value store\<close>

definition KVMaxValue :: nat where "KVMaxValue = 4096"
definition KVMaxKeys :: nat where "KVMaxKeys = 8192"

record kvRec =
  kv_v :: bytes
  kv_exp :: instant

type_synonym KVStore = "(bytes, kvRec) gomap"

definition oldest_in :: "bytes \<Rightarrow> (bytes \<times> kvRec) list \<Rightarrow> (bytes \<times> instant) option" where
  "oldest_in skip es =
     pick (\<lambda>t0 ex. ex < t0) (map (\<lambda>(k, r). (k, kv_exp r)) (filter (\<lambda>(k, _). k \<noteq> skip) es)) None"

definition mustEvictLocked :: "(KVStore \<Rightarrow> KVStore) \<Rightarrow> bytes \<Rightarrow> KVStore \<Rightarrow> bool \<times> KVStore" where
  "mustEvictLocked order skip m =
     (case oldest_in skip (order m) of
        None \<Rightarrow> (True, m)
      | Some (oldest, _) \<Rightarrow> (False, mdel oldest m))"

definition kv_Put :: "(KVStore \<Rightarrow> KVStore) \<Rightarrow> instant \<Rightarrow> bytes \<Rightarrow> duration \<Rightarrow> bytes \<Rightarrow> KVStore \<Rightarrow> bool \<times> KVStore" where
  "kv_Put order now key ttl val m =
     (let val = (if length val > KVMaxValue then take KVMaxValue val else val);
          (full, m) = (if length m \<ge> KVMaxKeys then mustEvictLocked order key m else (False, m))
      in if full then (False, m)
         else let ex = (if ttl \<le> 0 then now + 24 * hour else now + ttl)
           in (True, mput key \<lparr>kv_v = val, kv_exp = ex\<rparr> m))"

definition kv_Get :: "instant \<Rightarrow> bytes \<Rightarrow> KVStore \<Rightarrow> bytes option \<times> KVStore" where
  "kv_Get now key m =
     (case mget m key of
        None \<Rightarrow> (None, m)
      | Some r \<Rightarrow> if now > kv_exp r then (None, mdel key m) else (Some (kv_v r), m))"

section \<open>Lemmas: the invariant of the table\<close>

definition bucket_of :: "Table \<Rightarrow> bytes \<Rightarrow> nat" where
  "bucket_of t i = xorLeadingBitIdx (xorDist (tab_self t) i)"

text \<open>
  Without the bounds (which are broken for a moment inside \<open>Insert\<close>): the entries are those of
  the nodes' own identifiers, and every bucket lists exactly the contacts that belong in it.
\<close>

definition tab_wf :: "(bytes \<Rightarrow> bytes) \<Rightarrow> Table \<Rightarrow> bool" where
  "tab_wf sha256 t \<longleftrightarrow>
     length (tab_self t) = 32 \<and> length (tab_buckets t) = 256 \<and> gomap_ok (tab_byID t) \<and>
     (\<forall>i e. mget (tab_byID t) i = Some e \<longrightarrow> i \<noteq> [] \<and> rn_ID (re_n e) = i \<and> re_id e = sha256 (str_bytes i)) \<and>
     (\<forall>b < 256. distinct (tab_buckets t ! b) \<and>
        (\<forall>i. i \<in> set (tab_buckets t ! b) \<longleftrightarrow>
           mget (tab_byID t) i \<noteq> None \<and> bucket_of t (sha256 (str_bytes i)) = b))"

definition tab_ok :: "(bytes \<Rightarrow> bytes) \<Rightarrow> Table \<Rightarrow> bool" where
  "tab_ok sha256 t \<longleftrightarrow> tab_wf sha256 t \<and> length (tab_byID t) \<le> maxEntries \<and>
     (\<forall>b < 256. length (tab_buckets t ! b) \<le> bucketK)"

lemma LeadingZeros8_less:
  assumes "x \<noteq> 0"
  shows "LeadingZeros8 x < 8"
proof -
  obtain n where n: "bit x n" using assms by (auto simp: bit_eq_iff)
  then have "n < 8" using bit_imp_le_length [of x n] by simp
  let ?P = "\<lambda>i. \<not> bit x (7 - i)"
  have "\<not> (\<forall>i \<in> set [0..<8]. ?P i)"
    using n \<open>n < 8\<close> by (auto intro!: bexI [of _ "7 - n"])
  then have "takeWhile ?P [0..<8] \<noteq> [0..<8]" by (simp only: takeWhile_eq_all_conv) simp
  moreover have "length (takeWhile ?P [0..<8]) \<le> 8" using length_takeWhile_le [of ?P "[0..<8]"] by simp
  moreover have "length (takeWhile ?P [0..<8]) = 8 \<Longrightarrow> takeWhile ?P [0..<8] = [0..<8]"
    using takeWhile_eq_take [of ?P "[0..<8]"] by (metis diff_zero length_upt take_all order_refl)
  ultimately show ?thesis unfolding LeadingZeros8_def by linarith
qed

lemma xorLeadingBitIdx_from_less: "i + length xd \<le> 32 \<Longrightarrow> xorLeadingBitIdx_from i xd < 256"
proof (induction i xd rule: xorLeadingBitIdx_from.induct)
  case (2 i x xd)
  then show ?case using LeadingZeros8_less [of x] by auto
qed simp

lemma xorLeadingBitIdx_less [simp]: "length xd = 32 \<Longrightarrow> xorLeadingBitIdx xd < 256"
  by (simp add: xorLeadingBitIdx_def xorLeadingBitIdx_from_less)

lemma length_xorDist [simp]: "length (xorDist a b) = min (length a) (length b)"
  by (simp add: xorDist_def)

lemma xorDist_comm: "xorDist a b = xorDist b a"
proof -
  have "map2 (XOR) a b = map2 (XOR) b a" for a b :: bytes
    by (induction a b rule: list_induct2') (simp_all add: xor.commute)
  then show ?thesis by (simp add: xorDist_def)
qed

definition sha_ok :: "(bytes \<Rightarrow> bytes) \<Rightarrow> bool" where
  "sha_ok sha256 \<longleftrightarrow> (\<forall>x. length (sha256 x) = 32)"

lemma bucket_of_less: "sha_ok sha256 \<Longrightarrow> tab_wf sha256 t \<Longrightarrow> bucket_of t (sha256 x) < 256"
  by (simp add: bucket_of_def tab_wf_def sha_ok_def)

lemma tab_wf_drop:
  assumes "tab_wf sha256 t" and "mget (tab_byID t) i = Some e" and "sha_ok sha256"
  defines "b \<equiv> bucket_of t (sha256 (str_bytes i))"
  shows "tab_wf sha256 (dropContactLocked t i)"
    and "tab_byID (dropContactLocked t i) = mdel i (tab_byID t)"
    and "tab_buckets (dropContactLocked t i) = (tab_buckets t)[b := remove1 i (tab_buckets t ! b)]"
    and "tab_self (dropContactLocked t i) = tab_self t"
proof -
  have e: "re_id e = sha256 (str_bytes i)" using assms(1,2) by (simp add: tab_wf_def)
  have d: "dropContactLocked t i = t\<lparr>tab_buckets := (tab_buckets t)[b := remove1 i (tab_buckets t ! b)],
      tab_byID := mdel i (tab_byID t)\<rparr>"
    by (simp add: dropContactLocked_def assms(2) e b_def bucket_of_def Let_def)
  show "tab_byID (dropContactLocked t i) = mdel i (tab_byID t)"
    "tab_buckets (dropContactLocked t i) = (tab_buckets t)[b := remove1 i (tab_buckets t ! b)]"
    "tab_self (dropContactLocked t i) = tab_self t" by (simp_all add: d)
  have b: "b < 256" unfolding b_def by (rule bucket_of_less [OF assms(3,1)])
  note W = assms(1) [unfolded tab_wf_def]
  have "bucket_of (dropContactLocked t i) x = bucket_of t x" for x by (simp add: d bucket_of_def)
  then show "tab_wf sha256 (dropContactLocked t i)"
    unfolding tab_wf_def using W b
    by (auto simp: d gomap nth_list_update b_def[symmetric] intro: distinct_remove1 split: if_splits)
qed

lemma worst_in_Some:
  assumes "sha_ok sha256" "tab_wf sha256 t" and "set rids \<subseteq> {i. mget (tab_byID t) i \<noteq> None}"
    and "worst_in t rids = Some (v, d)"
  shows "v \<in> set rids" and "\<And>i. i \<in> set rids \<Longrightarrow>
    xorDist (tab_self t) (sha256 (str_bytes i)) \<le> xorDist (tab_self t) (sha256 (str_bytes v))"
proof -
  let ?xs = "map (\<lambda>rid. (rid, xorDist (tab_self t) (contact_id t rid))) rids"
  have c: "contact_id t i = sha256 (str_bytes i)" if "i \<in> set rids" for i
    using assms(2,3) that by (auto simp: contact_id_def tab_wf_def split: option.splits)
  have l: "length k = 32" if "k \<in> snd ` set ?xs" for k
    using that assms(1,2) c by (auto simp: tab_wf_def sha_ok_def)
  have lt: "\<forall>k1 \<in> snd ` set ?xs. \<forall>k2 \<in> snd ` set ?xs. distLess k1 k2 \<longleftrightarrow> k1 < k2"
    by (intro ballI distLess_less) (simp only: l)
  note B = pick_best [where m = "\<lambda>k. k", OF lt assms(4) [unfolded worst_in_def]]
  show v: "v \<in> set rids" using B(1) by auto
  have d: "d = xorDist (tab_self t) (sha256 (str_bytes v))" using B(1) c by auto
  show "xorDist (tab_self t) (sha256 (str_bytes i)) \<le> xorDist (tab_self t) (sha256 (str_bytes v))"
    if "i \<in> set rids" for i
  proof -
    have "(i, xorDist (tab_self t) (contact_id t i)) \<in> set ?xs" using that by simp
    from B(2) [OF this] show ?thesis by (simp only: d c [OF that])
  qed
qed

lemma farthest_in_Some:
  assumes "sha_ok sha256" "tab_wf sha256 t" and "set es \<subseteq> set (tab_byID t)"
    and "farthest_in t es = Some (v, d)"
  shows "v \<in> fst ` set es" and "\<And>i. i \<in> fst ` set es \<Longrightarrow>
    xorDist (tab_self t) (sha256 (str_bytes i)) \<le> xorDist (tab_self t) (sha256 (str_bytes v))"
proof -
  let ?xs = "map (\<lambda>(i, e). (i, xorDist (re_id e) (tab_self t))) es"
  have c: "re_id e = sha256 (str_bytes i)" if "(i, e) \<in> set es" for i e
  proof -
    have "mget (tab_byID t) i = Some e" using assms(2,3) that by (auto simp: tab_wf_def mget_in [symmetric])
    then show ?thesis using assms(2) by (simp add: tab_wf_def)
  qed
  have l: "length k = 32" if "k \<in> snd ` set ?xs" for k
    using that assms(1,2) c by (auto simp: tab_wf_def sha_ok_def)
  have lt: "\<forall>k1 \<in> snd ` set ?xs. \<forall>k2 \<in> snd ` set ?xs. distLess k1 k2 \<longleftrightarrow> k1 < k2"
    by (intro ballI distLess_less) (simp only: l)
  note B = pick_best [where m = "\<lambda>k. k", OF lt assms(4) [unfolded farthest_in_def]]
  show v: "v \<in> fst ` set es" using B(1) by force
  have d: "d = xorDist (tab_self t) (sha256 (str_bytes v))" using B(1) c by (auto simp: xorDist_comm)
  show "xorDist (tab_self t) (sha256 (str_bytes i)) \<le> xorDist (tab_self t) (sha256 (str_bytes v))"
    if i: "i \<in> fst ` set es" for i
  proof -
    obtain e where e: "(i, e) \<in> set es" using i by auto
    then have "(i, xorDist (re_id e) (tab_self t)) \<in> set ?xs" by force
    from B(2) [OF this] show ?thesis using d c [OF e] by (simp add: xorDist_comm)
  qed
qed

section \<open>Lemmas: inserting\<close>

lemma range_order_set: "range_order order \<Longrightarrow> gomap_ok m \<Longrightarrow> set (order m) = set m"
  by (simp add: range_order_def)

lemma tab_wf_place:
  assumes W: "tab_wf sha256 t" and S: "sha_ok sha256" and new: "mget (tab_byID t) i = None" and i: "i \<noteq> []" "rn_ID r = i"
  defines "b \<equiv> bucket_of t (sha256 (str_bytes i))"
  defines "t1 \<equiv> placeInBucketLocked
      (t\<lparr>tab_byID := mput i \<lparr>re_id = sha256 (str_bytes i), re_n = r\<rparr> (tab_byID t)\<rparr>) b i"
  shows "tab_wf sha256 t1" and "length (tab_buckets t1 ! b) = Suc (length (tab_buckets t ! b))"
    and "\<And>c. c \<noteq> b \<Longrightarrow> tab_buckets t1 ! c = tab_buckets t ! c"
proof -
  have b: "b < 256" unfolding b_def by (rule bucket_of_less [OF S W])
  note W' = W [unfolded tab_wf_def]
  have bo: "bucket_of t1 x = bucket_of t x" for x by (simp add: t1_def placeInBucketLocked_def bucket_of_def)
  have ni: "c < 256 \<Longrightarrow> i \<notin> set (tab_buckets t ! c)" for c using W' new by simp
  show "tab_wf sha256 t1"
    unfolding tab_wf_def bo using W' b ni i
    by (auto simp: t1_def placeInBucketLocked_def gomap nth_list_update b_def split: if_splits)
  show "length (tab_buckets t1 ! b) = Suc (length (tab_buckets t ! b))"
    "\<And>c. c \<noteq> b \<Longrightarrow> tab_buckets t1 ! c = tab_buckets t ! c"
    using W' b by (simp_all add: t1_def placeInBucketLocked_def)
qed

text \<open>What an insertion may throw out: nothing, or one contact, the farthest of its bucket.\<close>

definition dropped_farthest :: "(bytes \<Rightarrow> bytes) \<Rightarrow> Table \<Rightarrow> string set \<Rightarrow> bool" where
  "dropped_farthest sha256 t V \<longleftrightarrow>
     V = {} \<or> (\<exists>v. V = {v} \<and> (\<forall>i. mget (tab_byID t) i \<noteq> None \<and>
        bucket_of t (sha256 (str_bytes i)) = bucket_of t (sha256 (str_bytes v)) \<longrightarrow>
        xorDist (tab_self t) (sha256 (str_bytes i)) \<le> xorDist (tab_self t) (sha256 (str_bytes v))))"

lemma trim_step:
  assumes S: "sha_ok sha256" and W: "tab_wf sha256 t" and b: "b < 256"
    and len: "length (tab_buckets t ! b) = Suc bucketK"
  obtains v e where "trimBucketLocked b t = Some (dropContactLocked t v)" and "mget (tab_byID t) v = Some e"
    and "tab_wf sha256 (dropContactLocked t v)" and "length (tab_buckets (dropContactLocked t v) ! b) = bucketK"
    and "\<And>c. c \<noteq> b \<Longrightarrow> tab_buckets (dropContactLocked t v) ! c = tab_buckets t ! c"
    and "dropped_farthest sha256 t {v}"
proof -
  note W' = W [unfolded tab_wf_def]
  have mem: "i \<in> set (tab_buckets t ! b) \<longleftrightarrow> mget (tab_byID t) i \<noteq> None \<and> bucket_of t (sha256 (str_bytes i)) = b" for i
    using W' b by blast
  have "worst_in t (tab_buckets t ! b) \<noteq> None"
    using len by (auto simp: worst_in_def pick_None)
  then obtain v d where w: "worst_in t (tab_buckets t ! b) = Some (v, d)" by auto
  have sub: "set (tab_buckets t ! b) \<subseteq> {i. mget (tab_byID t) i \<noteq> None}" using mem by blast
  note V = worst_in_Some [OF S W sub w]
  obtain e where e: "mget (tab_byID t) v = Some e" and bv: "bucket_of t (sha256 (str_bytes v)) = b"
    using V(1) mem by auto
  note D = tab_wf_drop [OF W e S, unfolded bv]
  have lb: "length (tab_buckets (dropContactLocked t v) ! b) = bucketK"
    using D(3) W' b V(1) len by (simp add: length_remove1)
  have stop: "trimBucketLocked b (dropContactLocked t v) = Some (dropContactLocked t v)"
    by (subst trimBucketLocked.simps) (simp add: lb)
  have "trimBucketLocked b t = Some (dropContactLocked t v)"
    by (subst trimBucketLocked.simps) (simp add: len w stop)
  moreover have "dropped_farthest sha256 t {v}"
    unfolding dropped_farthest_def using V(2) mem bv by blast
  moreover have "tab_buckets (dropContactLocked t v) ! c = tab_buckets t ! c" if "c \<noteq> b" for c
    using D(3) that by simp
  ultimately show ?thesis using that e D(1) lb by blast
qed

lemma evict_step:
  assumes S: "sha_ok sha256" and O: "range_order order" and W: "tab_wf sha256 t"
    and len: "length (tab_byID t) = Suc maxEntries"
  obtains v e where "evict_loop order t = Some (dropContactLocked t v)" and "mget (tab_byID t) v = Some e"
    and "tab_wf sha256 (dropContactLocked t v)" and "length (tab_byID (dropContactLocked t v)) = maxEntries"
    and "dropped_farthest sha256 t {v}"
proof -
  note W' = W [unfolded tab_wf_def]
  have os: "set (order (tab_byID t)) = set (tab_byID t)" using range_order_set [OF O] W' by blast
  then have "order (tab_byID t) \<noteq> []" using len by (auto simp flip: set_empty)
  then have "farthest_in t (order (tab_byID t)) \<noteq> None" by (auto simp: farthest_in_def pick_None)
  then obtain v d where w: "farthest_in t (order (tab_byID t)) = Some (v, d)" by auto
  have sub: "set (order (tab_byID t)) \<subseteq> set (tab_byID t)" using os by simp
  note V = farthest_in_Some [OF S W sub w, unfolded os]
  obtain e where e: "mget (tab_byID t) v = Some e"
    using V(1) W' by (auto simp: mget_in)
  have ne: "v \<noteq> []" using e W' by blast
  note D = tab_wf_drop [OF W e S]
  have l: "length (tab_byID (dropContactLocked t v)) = maxEntries"
    using D(2) length_mdel [OF _ e] W' len by simp
  have ev: "evictOneFarthestLocked order t = dropContactLocked t v"
    by (simp add: evictOneFarthestLocked_def w ne)
  have stop: "evict_loop order (dropContactLocked t v) = Some (dropContactLocked t v)"
    by (subst evict_loop.simps) (simp add: l)
  have "evict_loop order t = Some (dropContactLocked t v)"
    by (subst evict_loop.simps) (simp add: len ev stop)
  moreover have "dropped_farthest sha256 t {v}"
    unfolding dropped_farthest_def using V(2) mget_Some_in by fastforce
  ultimately show ?thesis using that e D(1) l by blast
qed

definition usable :: "RelayNode \<Rightarrow> bool" where
  "usable r \<longleftrightarrow> rn_ID r \<noteq> [] \<and> RelayHasContact r"

lemma Insert_unusable: "\<not> usable r \<Longrightarrow> Insert order sha256 r t = Some t"
  by (auto simp: Insert_def usable_def RelayHasContact_def Let_def)

lemma Insert_old:
  assumes "tab_ok sha256 t" and "usable r" and "mget (tab_byID t) (rn_ID r) = Some e"
  shows "\<exists>t'. Insert order sha256 r t = Some t' \<and> tab_ok sha256 t' \<and> tab_self t' = tab_self t \<and>
    (\<forall>i. mget (tab_byID t') i =
       (if i = rn_ID r then Some \<lparr>re_id = sha256 (str_bytes i), re_n = r\<rparr> else mget (tab_byID t) i))"
proof -
  let ?t = "t\<lparr>tab_byID := mput (rn_ID r) \<lparr>re_id = nodeID sha256 r, re_n = r\<rparr> (tab_byID t)\<rparr>"
  have "Insert order sha256 r t = Some ?t"
    using assms(2,3) by (auto simp: Insert_def usable_def RelayHasContact_def Let_def)
  moreover have "tab_ok sha256 ?t"
    using assms unfolding tab_ok_def tab_wf_def
    by (auto simp: gomap nodeID_def bucket_of_def length_mput_old usable_def)
  ultimately show ?thesis by (intro exI [of _ ?t]) (simp add: gomap nodeID_def)
qed

text \<open>The outcome of an insertion that threw out \<open>V\<close>.\<close>

definition inserted :: "(bytes \<Rightarrow> bytes) \<Rightarrow> Table \<Rightarrow> RelayNode \<Rightarrow> string set \<Rightarrow> Table \<Rightarrow> bool" where
  "inserted sha256 t r V t' \<longleftrightarrow>
     tab_ok sha256 t' \<and> tab_self t' = tab_self t \<and> dropped_farthest sha256 t' V \<and>
     (\<forall>i. mget (tab_byID t') i =
       (if i \<in> V then None else if i = rn_ID r then Some \<lparr>re_id = sha256 (str_bytes i), re_n = r\<rparr>
        else mget (tab_byID t) i))"

lemma inserted_drop:
  assumes S: "sha_ok sha256" and W: "tab_wf sha256 t1"
    and s1: "tab_self t1 = tab_self t"
    and g1: "\<And>j. mget (tab_byID t1) j = (if j = rn_ID r then Some \<lparr>re_id = sha256 (str_bytes j), re_n = r\<rparr> else mget (tab_byID t) j)"
    and l1: "length (tab_byID t1) \<le> Suc maxEntries"
    and v: "mget (tab_byID t1) v = Some e" "dropped_farthest sha256 t1 {v}"
    and le: "\<And>c. c < 256 \<Longrightarrow> length (tab_buckets (dropContactLocked t1 v) ! c) \<le> bucketK"
  shows "inserted sha256 t r {v} (dropContactLocked t1 v)"
proof -
  note D = tab_wf_drop [OF W v(1) S]
  have "Suc (length (mdel v (tab_byID t1))) = length (tab_byID t1)"
    using length_mdel [OF _ v(1)] W by (simp add: tab_wf_def)
  then have l: "length (tab_byID (dropContactLocked t1 v)) \<le> maxEntries" using l1 D(2) by simp
  have "dropped_farthest sha256 (dropContactLocked t1 v) {v}"
    using v(2) by (auto simp: dropped_farthest_def D bucket_of_def gomap split: if_splits)
  then show ?thesis
    using le l D(1) by (auto simp: inserted_def tab_ok_def D(2,4) s1 g1 gomap)
qed

lemma Insert_new:
  assumes T: "tab_ok sha256 t" and S: "sha_ok sha256" and O: "range_order order" and u: "usable r"
    and new: "mget (tab_byID t) (rn_ID r) = None"
  shows "\<exists>t' V. Insert order sha256 r t = Some t' \<and> inserted sha256 t r V t'"
proof -
  define i where "i = rn_ID r"
  define b where "b = bucket_of t (sha256 (str_bytes i))"
  define t1 where "t1 = placeInBucketLocked
      (t\<lparr>tab_byID := mput i \<lparr>re_id = sha256 (str_bytes i), re_n = r\<rparr> (tab_byID t)\<rparr>) b i"
  have W: "tab_wf sha256 t" using T by (simp add: tab_ok_def)
  have b: "b < 256" unfolding b_def by (rule bucket_of_less [OF S W])
  have i: "i \<noteq> []" "rn_ID r = i" using u by (simp_all add: usable_def i_def)
  have new': "mget (tab_byID t) i = None" using new i by simp
  note P = tab_wf_place [OF W S new' i, folded b_def, folded t1_def]
  have ins: "Insert order sha256 r t = Option.bind (trimBucketLocked b t1) (evict_loop order)"
    using u new b by (auto simp: Insert_def usable_def RelayHasContact_def Let_def nodeID_def t1_def i_def
        b_def bucket_of_def)
  have s1: "tab_self t1 = tab_self t" by (simp add: t1_def placeInBucketLocked_def)
  have g1: "mget (tab_byID t1) j = (if j = rn_ID r then Some \<lparr>re_id = sha256 (str_bytes j), re_n = r\<rparr> else mget (tab_byID t) j)" for j
    by (simp add: t1_def placeInBucketLocked_def gomap i_def)
  have l1: "length (tab_byID t1) = Suc (length (tab_byID t))"
    by (simp add: t1_def placeInBucketLocked_def length_mput_new [OF new'])
  have lt: "length (tab_byID t) \<le> maxEntries" "\<And>c. c < 256 \<Longrightarrow> length (tab_buckets t ! c) \<le> bucketK"
    using T by (simp_all add: tab_ok_def)
  have l1': "length (tab_byID t1) \<le> Suc maxEntries" using l1 lt(1) by simp
  note drop = inserted_drop [OF S P(1) s1 g1 l1']
  show ?thesis
  proof (cases "length (tab_buckets t1 ! b) = Suc bucketK")
    case True
    obtain v e where v: "trimBucketLocked b t1 = Some (dropContactLocked t1 v)" "mget (tab_byID t1) v = Some e"
        "length (tab_buckets (dropContactLocked t1 v) ! b) = bucketK"
        "\<And>c. c \<noteq> b \<Longrightarrow> tab_buckets (dropContactLocked t1 v) ! c = tab_buckets t1 ! c" "dropped_farthest sha256 t1 {v}"
      using trim_step [OF S P(1) b True] by metis
    have le: "length (tab_buckets (dropContactLocked t1 v) ! c) \<le> bucketK" if "c < 256" for c
      using v(3,4) P(3) lt(2) that by (cases "c = b") auto
    have I: "inserted sha256 t r {v} (dropContactLocked t1 v)" by (rule drop [OF v(2,5) le])
    then have "evict_loop order (dropContactLocked t1 v) = Some (dropContactLocked t1 v)"
      by (subst evict_loop.simps) (simp add: inserted_def tab_ok_def)
    then have "Insert order sha256 r t = Some (dropContactLocked t1 v)" by (simp add: ins v(1))
    then show ?thesis using I by blast
  next
    case False
    then have lb: "length (tab_buckets t1 ! b) \<le> bucketK" using P(2) lt(2) [OF b] by simp
    then have tr: "trimBucketLocked b t1 = Some t1" by (subst trimBucketLocked.simps) simp
    have le: "length (tab_buckets t1 ! c) \<le> bucketK" if "c < 256" for c
      using lb P(3) lt(2) that by (cases "c = b") auto
    show ?thesis
    proof (cases "length (tab_byID t1) = Suc maxEntries")
      case True
      obtain v e where v: "evict_loop order t1 = Some (dropContactLocked t1 v)" "mget (tab_byID t1) v = Some e"
          "dropped_farthest sha256 t1 {v}"
        using evict_step [OF S O P(1) True] by metis
      have le2: "length (tab_buckets (dropContactLocked t1 v) ! c) \<le> bucketK" if "c < 256" for c
      proof -
        have "length (tab_buckets t1) = 256" using P(1) by (simp add: tab_wf_def)
        then show ?thesis
          using le [OF that] that tab_wf_drop(3) [OF P(1) v(2) S]
          by (cases "c = bucket_of t1 (sha256 (str_bytes v))") (auto simp: length_remove1)
      qed
      have "Insert order sha256 r t = Some (dropContactLocked t1 v)" by (simp add: ins tr v(1))
      then show ?thesis using drop [OF v(2,3) le2] by blast
    next
      case False
      then have l: "length (tab_byID t1) \<le> maxEntries" using l1' by simp
      then have "evict_loop order t1 = Some t1" by (subst evict_loop.simps) simp
      then have "Insert order sha256 r t = Some t1" by (simp add: ins tr)
      moreover have "inserted sha256 t r {} t1"
        using P(1) le l s1 g1 by (auto simp: inserted_def tab_ok_def dropped_farthest_def)
      ultimately show ?thesis by blast
    qed
  qed
qed

section \<open>Lemmas: the nearest contacts\<close>

lemma take_sort_key_split:
  fixes f :: "'a \<Rightarrow> 'b::linorder"
  assumes "x \<in> set (take n (sort_key f xs))" and "y \<in> set (drop n (sort_key f xs))"
  shows "f x \<le> f y"
proof -
  have "sorted (map f (take n (sort_key f xs)) @ map f (drop n (sort_key f xs)))"
    using sorted_sort_key [of f xs] by (metis append_take_drop_id map_append)
  then show ?thesis using assms by (auto simp: sorted_append)
qed

lemma NearestTo_eq:
  "0 < k \<Longrightarrow> NearestTo order t target k =
   map snd (take (nat k) (sort_key fst (map (\<lambda>(_, e). (xorDist (re_id e) target, re_n e)) (order (tab_byID t)))))"
  by (auto simp: NearestTo_def Let_def)

section \<open>Lemmas: the value store\<close>

definition kv_ok :: "KVStore \<Rightarrow> bool" where
  "kv_ok m \<longleftrightarrow> gomap_ok m \<and> length m \<le> KVMaxKeys \<and> (\<forall>(k, r) \<in> set m. length (kv_v r) \<le> KVMaxValue)"

lemma set_mdel: "set (mdel k m) = {e \<in> set m. fst e \<noteq> k}"
  by (auto simp: mdel_def)

lemma other_key:
  assumes "gomap_ok m" and "2 \<le> length m"
  shows "\<exists>k r. (k, r) \<in> set m \<and> k \<noteq> skip"
proof (rule ccontr)
  assume "\<not> ?thesis"
  then have "set (map fst m) \<subseteq> {skip}" by auto
  then have "card (set (map fst m)) \<le> 1" using card_mono [of "{skip}"] by fastforce
  then show False using assms by (simp add: gomap_ok_def distinct_card del: set_map)
qed

lemma mustEvict_some:
  assumes O: "range_order order" and m: "gomap_ok m" and len: "2 \<le> length m"
  obtains oldest r where "mustEvictLocked order skip m = (False, mdel oldest m)" and "oldest \<noteq> skip"
    and "mget m oldest = Some r" and "\<And>k r'. mget m k = Some r' \<Longrightarrow> k \<noteq> skip \<Longrightarrow> kv_exp r \<le> kv_exp r'"
proof -
  let ?es = "filter (\<lambda>(k, _). k \<noteq> skip) (order m)"
  let ?xs = "map (\<lambda>(k, r). (k, kv_exp r)) ?es"
  have os: "set (order m) = set m" by (rule range_order_set [OF O m])
  have "?xs \<noteq> []" using os other_key [OF m len, of skip] by (auto simp: filter_empty_conv)
  then have "pick (\<lambda>t0 ex. ex < t0) ?xs None \<noteq> None" by (simp only: pick_None) simp
  then obtain o1 ex where w: "pick (\<lambda>t0 ex. ex < t0) ?xs None = Some (o1, ex)" by auto
  have lt: "\<forall>k1 \<in> snd ` set ?xs. \<forall>k2 \<in> snd ` set ?xs. (k2 < k1) = (- k1 < - k2)" by simp
  note B = pick_best [where m = uminus, OF lt w]
  obtain r where r: "(o1, r) \<in> set m" "o1 \<noteq> skip" "ex = kv_exp r" using B(1) by (auto simp: os)
  have best: "kv_exp r \<le> kv_exp r'" if "mget m k = Some r'" "k \<noteq> skip" for k r'
  proof -
    have "(k, kv_exp r') \<in> set ?xs" using that os mget_Some_in by force
    then show ?thesis using B(2) r(3) by fastforce
  qed
  show ?thesis
    by (rule that [of o1 r]) (use r m best in \<open>simp_all add: mustEvictLocked_def oldest_in_def w mget_in\<close>)
qed

lemma kv_ok_mput:
  "kv_ok m \<Longrightarrow> length (kv_v r) \<le> KVMaxValue \<Longrightarrow> length m < KVMaxKeys \<or> mget m k \<noteq> None \<Longrightarrow> kv_ok (mput k r m)"
  by (cases "mget m k") (auto simp: kv_ok_def gomap set_mput length_mput_new length_mput_old)

lemma kv_ok_mdel: "kv_ok m \<Longrightarrow> kv_ok (mdel k m)"
  using length_mdel_le [of k m] by (auto simp: kv_ok_def gomap set_mdel)

lemma kv_ok_Put:
  assumes "range_order order" and "kv_ok m"
  shows "fst (kv_Put order now key ttl val m) \<and> kv_ok (snd (kv_Put order now key ttl val m))"
proof -
  let ?val = "if length val > KVMaxValue then take KVMaxValue val else val"
  have lv: "length ?val \<le> KVMaxValue" by simp
  show ?thesis
  proof (cases "length m \<ge> KVMaxKeys")
    case False
    then show ?thesis using lv kv_ok_mput [OF assms(2)] by (simp add: kv_Put_def Let_def)
  next
    case True
    have g: "gomap_ok m" "2 \<le> length m" "length m \<le> KVMaxKeys"
      using assms(2) True by (simp_all add: kv_ok_def KVMaxKeys_def)
    obtain oldest r where e: "mustEvictLocked order key m = (False, mdel oldest m)" "mget m oldest = Some r"
      using mustEvict_some [OF assms(1) g(1,2)] by metis
    have "length (mdel oldest m) < KVMaxKeys" using length_mdel [OF g(1) e(2)] g(3) by simp
    then show ?thesis
      using True lv kv_ok_mput [OF kv_ok_mdel [OF assms(2)]] by (simp add: kv_Put_def Let_def e(1))
  qed
qed

lemma kv_Put_entry:
  assumes "range_order order" and "kv_ok m"
  shows "mget (snd (kv_Put order now key ttl val m)) key =
    Some \<lparr>kv_v = take KVMaxValue val, kv_exp = (if ttl \<le> 0 then now + 24 * hour else now + ttl)\<rparr>"
  using kv_ok_Put [OF assms, of now key ttl val]
  by (auto simp: kv_Put_def Let_def gomap split: if_splits prod.splits)

lemma kv_Put_lost:
  assumes O: "range_order order" and m: "kv_ok m"
    and k: "k \<noteq> key" "mget m k = Some r" "mget (snd (kv_Put order now key ttl val m)) k = None"
  shows "length m = KVMaxKeys \<and> (\<forall>k' r'. k' \<noteq> key \<and> mget m k' = Some r' \<longrightarrow> kv_exp r \<le> kv_exp r')"
proof (cases "length m \<ge> KVMaxKeys")
  case False
  then have "mget (snd (kv_Put order now key ttl val m)) k = mget m k"
    using k(1) by (auto simp: kv_Put_def Let_def gomap)
  then show ?thesis using k by simp
next
  case True
  have g: "gomap_ok m" "2 \<le> length m" "length m = KVMaxKeys"
    using m True by (simp_all add: kv_ok_def KVMaxKeys_def)
  obtain oldest r0 where o: "mustEvictLocked order key m = (False, mdel oldest m)" "mget m oldest = Some r0"
    "\<And>k r'. mget m k = Some r' \<Longrightarrow> k \<noteq> key \<Longrightarrow> kv_exp r0 \<le> kv_exp r'"
    using mustEvict_some [OF O g(1,2), of key] by metis
  have "mget (snd (kv_Put order now key ttl val m)) k = mget (mdel oldest m) k"
    using k(1) True by (auto simp: kv_Put_def Let_def o(1) gomap)
  then have "k = oldest" using k by (auto simp: gomap split: if_splits)
  then show ?thesis using o k(2) g(3) by auto
qed

section \<open>Properties\<close>


lemma tab_ok_new: "sha_ok sha256 \<Longrightarrow> tab_ok sha256 (NewTable sha256 seed)"
  by (simp add: tab_ok_def tab_wf_def NewTable_def sha_ok_def mget_Nil)

abbreviation demo_sha :: "bytes \<Rightarrow> bytes" where
  "demo_sha \<equiv> \<lambda>x. replicate 32 (of_nat (length x))"

lemma demo_ok: "sha_ok demo_sha" "range_order id" "range_order rev"
  by (simp_all add: sha_ok_def range_order_def gomap_ok_def rev_map [symmetric])


text \<open>
  Starting from an empty table, any sequence of inserted relays leaves a sound table: the
  shrinking loops always end.
\<close>

lemma Merge_ok:
  assumes "sha_ok sha256" and "range_order order"
  shows "tab_ok sha256 t \<Longrightarrow> \<exists>t'. Merge order sha256 rs t = Some t' \<and> tab_ok sha256 t'"
proof (induction rs arbitrary: t)
  case (Cons r rs)
  have "\<exists>t1. Insert order sha256 r t = Some t1 \<and> tab_ok sha256 t1"
  proof (cases "usable r")
    case True
    then show ?thesis
      using Insert_new [OF Cons.prems assms True] Insert_old [OF Cons.prems True, of _ order]
      by (cases "mget (tab_byID t) (rn_ID r)") (auto simp: inserted_def)
  qed (use Insert_unusable Cons.prems in blast)
  then show ?case using Cons.IH by auto
qed simp

theorem dht_merge_sound:
  assumes "sha_ok sha256" and "range_order order"
  shows "\<exists>t'. Merge order sha256 rs (NewTable sha256 seed) = Some t' \<and> tab_ok sha256 t'"
  using Merge_ok [OF assms tab_ok_new [OF assms(1)]] .

theorem dht_merge_sound_witness:
  "\<exists>t'. Merge rev demo_sha [demo_node ''a'' 1, demo_node ''bb'' 2] (NewTable demo_sha ''s'') = Some t' \<and>
     tab_ok demo_sha t'"
  by (rule dht_merge_sound [OF demo_ok(1,3)])

text \<open>
  A look-up of the nearest contacts returns as many as asked for (or all there are), each a
  contact of the table, in the order of their distance to the target, and no contact left out is
  nearer than one returned.
\<close>

theorem dht_nearest:
  assumes "range_order order" and "tab_ok sha256 t" and "0 < k"
  shows "let out = NearestTo order t target k; dist = (\<lambda>n. xorDist (nodeID sha256 n) target) in
    length out = min (nat k) (length (order (tab_byID t))) \<and> sorted (map dist out) \<and>
    (\<forall>n \<in> set out. \<exists>e. mget (tab_byID t) (rn_ID n) = Some e \<and> re_n e = n) \<and>
    (\<forall>i e n. mget (tab_byID t) i = Some e \<and> re_n e \<notin> set out \<and> n \<in> set out \<longrightarrow> dist n \<le> dist (re_n e))"
proof -
  let ?pp = "map (\<lambda>(_, e). (xorDist (re_id e) target, re_n e)) (order (tab_byID t))"
  let ?dist = "\<lambda>n. xorDist (nodeID sha256 n) target"
  let ?s = "sort_key fst ?pp"
  have W: "gomap_ok (tab_byID t)"
    "\<And>i e. mget (tab_byID t) i = Some e \<Longrightarrow> rn_ID (re_n e) = i \<and> re_id e = sha256 (str_bytes i)"
    using assms(2) by (auto simp: tab_ok_def tab_wf_def)
  have os: "set (order (tab_byID t)) = set (tab_byID t)" by (rule range_order_set [OF assms(1) W(1)])
  have pp: "(d, n) \<in> set ?pp \<longleftrightarrow> (\<exists>i e. mget (tab_byID t) i = Some e \<and> d = xorDist (re_id e) target \<and> n = re_n e)" for d n
    by (force simp: os mget_in [OF W(1), symmetric])
  have pd: "fst p = ?dist (snd p)" if "p \<in> set ?pp" for p
    using that W(2) pp [of "fst p" "snd p"] by (auto simp: nodeID_def)
  have eq: "NearestTo order t target k = map snd (take (nat k) ?s)" by (rule NearestTo_eq [OF assms(3)])
  have in_pp: "p \<in> set (take (nat k) ?s) \<or> p \<in> set (drop (nat k) ?s) \<Longrightarrow> p \<in> set ?pp" for p
    using in_set_takeD [of p "nat k" ?s] in_set_dropD [of p "nat k" ?s] by auto
  have md: "map ?dist (map snd (take (nat k) ?s)) = map fst (take (nat k) ?s)"
    using pd in_pp by simp
  have so: "sorted (map fst (take (nat k) ?s))"
    unfolding take_map [symmetric] by (intro sorted_wrt_take) simp
  have far: "?dist n \<le> ?dist (re_n e)"
    if e: "mget (tab_byID t) i = Some e" and out: "re_n e \<notin> snd ` set (take (nat k) ?s)"
      and n: "n \<in> snd ` set (take (nat k) ?s)" for i e n
  proof -
    let ?p = "(xorDist (re_id e) target, re_n e)"
    have "?p \<in> set ?s" using e pp by auto
    then have "?p \<in> set (take (nat k) ?s) \<union> set (drop (nat k) ?s)"
      by (metis append_take_drop_id set_append)
    then have d: "?p \<in> set (drop (nat k) ?s)" using out by force
    obtain q where q: "q \<in> set (take (nat k) ?s)" "n = snd q" using n by auto
    have "fst q \<le> fst ?p" by (rule take_sort_key_split [OF q(1) d])
    then show ?thesis using pd [of q] pd [of ?p] in_pp q d by simp
  qed
  have mem: "\<exists>e. mget (tab_byID t) (rn_ID n) = Some e \<and> re_n e = n" if n: "n \<in> snd ` set (take (nat k) ?s)" for n
  proof -
    obtain q where "q \<in> set ?pp" "n = snd q" using n in_pp by blast
    then show ?thesis using pp [of "fst q" "snd q"] W(2) by auto
  qed
  show ?thesis
    unfolding Let_def eq md using so far mem by (auto simp: min.commute)
qed

theorem dht_nearest_witness:
  "\<exists>t. Merge id demo_sha [demo_node ''a'' 1, demo_node ''bb'' 2] (NewTable demo_sha ''s'') = Some t \<and>
     length (NearestTo id t (replicate 32 0) 1) = min (nat 1) (length (tab_byID t))"
proof -
  obtain t where t: "Merge id demo_sha [demo_node ''a'' 1, demo_node ''bb'' 2] (NewTable demo_sha ''s'') = Some t"
    "tab_ok demo_sha t"
    using Merge_ok [OF demo_ok(1,2) tab_ok_new [OF demo_ok(1)]] by blast
  have "length (NearestTo id t (replicate 32 0) 1) = min (nat 1) (length (tab_byID t))"
    using dht_nearest [OF demo_ok(2) t(2), of 1 "replicate 32 0"] by (simp add: Let_def)
  then show ?thesis using t by blast
qed

text \<open>
  The store never refuses a value and stays within its bounds; a stored value (cut to 4096
  bytes) is returned until it expires and not after, and an entry of another key is lost only
  when the store is full, and then only the one that expires first.
\<close>

theorem kv_put_get:
  assumes "range_order order" and "kv_ok m" and "0 < ttl"
  shows "let (ok, m') = kv_Put order now key ttl val m in
    ok \<and> kv_ok m' \<and>
    fst (kv_Get later key m') = (if later \<le> now + ttl then Some (take 4096 val) else None) \<and>
    (\<forall>k r. k \<noteq> key \<and> mget m k = Some r \<and> mget m' k = None \<longrightarrow>
       length m = KVMaxKeys \<and> (\<forall>k' r'. k' \<noteq> key \<and> mget m k' = Some r' \<longrightarrow> kv_exp r \<le> kv_exp r'))"
proof -
  obtain b m' where p: "kv_Put order now key ttl val m = (b, m')" by (cases "kv_Put order now key ttl val m")
  have P: "b" "kv_ok m'" using kv_ok_Put [OF assms(1,2), of now key ttl val] p by simp_all
  have e: "mget m' key = Some \<lparr>kv_v = take KVMaxValue val, kv_exp = now + ttl\<rparr>"
    using kv_Put_entry [OF assms(1,2), of now key ttl val] p assms(3) by simp
  have "fst (kv_Get later key m') = (if later \<le> now + ttl then Some (take 4096 val) else None)"
    by (simp add: kv_Get_def e KVMaxValue_def)
  then show ?thesis
    using P kv_Put_lost [OF assms(1,2), of _ key _ now ttl val] unfolding p by auto
qed

theorem kv_put_get_witness:
  "fst (kv_Get 5 [1] (snd (kv_Put id 0 [1] 10 [7, 8] [([2], \<lparr>kv_v = [], kv_exp = 3\<rparr>)]))) = Some [7, 8]"
proof -
  have "kv_ok [([2], \<lparr>kv_v = [], kv_exp = 3\<rparr>)]"
    by (simp add: kv_ok_def gomap_ok_def KVMaxKeys_def)
  from kv_put_get [OF demo_ok(2) this, of 10 0 "[1]" "[7, 8]" 5] show ?thesis
    by (simp add: split_beta)
qed

end
