(* ===== verification/GoFloat.thy ===== *)
theory GoFloat
  imports Complex_Main
begin

text \<open>
  Go's \<^verbatim>\<open>float64\<close> as the rationals it can hold, each operation rounded to 53 bits of mantissa, ties to
  even. The exponent is not bounded: the program's figures (success rates, milliseconds) stay far from
  overflow and from the subnormal range. Sums and products are rounded one by one, as on a target
  without fused multiply-add.
\<close>

section \<open>Rounding to an integer\<close>

definition round_even :: "rat \<Rightarrow> int" where
  "round_even x =
     (let f = \<lfloor>x\<rfloor>; d = x - of_int f in
      if d < 1 / 2 then f else if d > 1 / 2 then f + 1 else if even f then f else f + 1)"

lemma round_even_of_int [simp]: "round_even (of_int n) = n"
  by (simp add: round_even_def)

lemma round_even_bounds: "\<lfloor>x\<rfloor> \<le> round_even x" "round_even x \<le> \<lfloor>x\<rfloor> + 1"
  by (auto simp: round_even_def Let_def)

lemma round_even_mono: "round_even x \<le> round_even y" if le: "x \<le> y"
proof (cases "\<lfloor>x\<rfloor> = \<lfloor>y\<rfloor>")
  case True
  then show ?thesis using le by (auto simp: round_even_def Let_def)
next
  case False
  then have "\<lfloor>x\<rfloor> + 1 \<le> \<lfloor>y\<rfloor>" using floor_mono [OF le] by linarith
  then show ?thesis using round_even_bounds [of x] round_even_bounds [of y] by linarith
qed

lemma round_even_minus: "round_even (- x) = - round_even x"
proof (cases "x = of_int \<lfloor>x\<rfloor>")
  case True
  then show ?thesis using round_even_of_int [of "- \<lfloor>x\<rfloor>"] round_even_of_int [of "\<lfloor>x\<rfloor>"] by simp
next
  case False
  then have "of_int \<lfloor>x\<rfloor> < x" "x < of_int \<lfloor>x\<rfloor> + 1"
    using of_int_floor_le [of x] floor_correct [of x] by (auto simp: less_le)
  then have f: "\<lfloor>- x\<rfloor> = - \<lfloor>x\<rfloor> - 1" by (simp add: floor_eq_iff)
  show ?thesis unfolding round_even_def Let_def f by (auto simp: algebra_simps)
qed

section \<open>The exponent of a number\<close>

fun ilog2 :: "nat \<Rightarrow> nat" where
  "ilog2 n = (if n < 2 then 0 else Suc (ilog2 (n div 2)))"

declare ilog2.simps [simp del]

lemma ilog2_bounds: "0 < n \<Longrightarrow> 2 ^ ilog2 n \<le> n \<and> n < 2 ^ Suc (ilog2 n)"
proof (induction n rule: ilog2.induct)
  case (1 n)
  show ?case
  proof (cases "n < 2")
    case True
    then show ?thesis using 1(2) by (simp add: ilog2.simps [of n])
  next
    case False
    then have b: "2 ^ ilog2 (n div 2) \<le> n div 2" "n div 2 < 2 * 2 ^ ilog2 (n div 2)" using 1(1) by simp_all
    have "2 * k \<le> n \<and> n < 4 * k" if "k \<le> n div 2" "n div 2 < 2 * k" for k :: nat using that by presburger
    from this [OF b] show ?thesis using False by (simp add: ilog2.simps [of n])
  qed
qed

definition exp2 :: "rat \<Rightarrow> int" where
  "exp2 x =
     (let (p, q) = quotient_of x; e = int (ilog2 (nat p)) - int (ilog2 (nat q)) in
      if 2 powi e \<le> x then e else e - 1)"

lemma exp2_bounds:
  assumes "0 < x"
  shows "2 powi exp2 x \<le> x \<and> x < 2 powi (exp2 x + 1)"
proof -
  obtain p q where pq: "quotient_of x = (p, q)" by fastforce
  have q: "0 < q" using quotient_of_denom_pos [OF pq] .
  have x: "x = of_int p / of_int q" using quotient_of_div [OF pq] .
  have p: "0 < p" using assms x q by (simp add: zero_less_divide_iff)
  define lp lq where "lp = ilog2 (nat p)" and "lq = ilog2 (nat q)"
  have B: "2 ^ ilog2 (nat k) \<le> (of_int k :: rat) \<and> (of_int k :: rat) < 2 * 2 ^ ilog2 (nat k)" if "0 < k" for k
  proof -
    have "int (2 ^ ilog2 (nat k)) \<le> k \<and> k < int (2 ^ Suc (ilog2 (nat k)))"
      using ilog2_bounds [of "nat k"] that by linarith
    then have "of_int (int (2 ^ ilog2 (nat k))) \<le> (of_int k :: rat) \<and> (of_int k :: rat) < of_int (int (2 ^ Suc (ilog2 (nat k))))"
      by (simp only: of_int_le_iff of_int_less_iff)
    then show ?thesis by simp
  qed
  have P: "2 ^ lp \<le> (of_int p :: rat)" "(of_int p :: rat) < 2 * 2 ^ lp" using B [OF p] by (simp_all add: lp_def)
  have Q: "2 ^ lq \<le> (of_int q :: rat)" "(of_int q :: rat) < 2 * 2 ^ lq" using B [OF q] by (simp_all add: lq_def)
  define e where "e = int lp - int lq"
  have E: "2 powi e = (2 ^ lp / 2 ^ lq :: rat)" by (simp add: e_def power_int_diff)
  have E1: "2 powi (e + 1) = (2 * 2 ^ lp / 2 ^ lq :: rat)" by (simp add: power_int_add E)
  have E2: "2 powi (e - 1) = (2 ^ lp / (2 * 2 ^ lq) :: rat)" by (simp add: power_int_diff E)
  have lo: "2 powi (e - 1) \<le> x" unfolding E2 x using P Q q p by (intro frac_le) auto
  have hi: "x < 2 powi (e + 1)" unfolding E1 x using P Q q p by (intro frac_less) auto
  have ex: "exp2 x = (if 2 powi e \<le> x then e else e - 1)"
    by (simp add: exp2_def pq e_def lp_def lq_def)
  show ?thesis using lo hi unfolding ex by auto
qed

section \<open>Rounding to a float\<close>

definition fl64 :: "rat \<Rightarrow> rat" where
  "fl64 x =
     (if x = 0 then 0
      else let s = 2 powi (52 - exp2 \<bar>x\<bar>) in of_int (round_even (x * s)) / s)"

lemma fl64_minus: "fl64 (- x) = - fl64 x"
  by (simp add: fl64_def Let_def round_even_minus)

lemma fl64_0 [simp]: "fl64 0 = 0"
  by (simp add: fl64_def)

text \<open>A number is rounded within its binade.\<close>

lemma fl64_binade:
  assumes "0 < x"
  shows "2 powi exp2 x \<le> fl64 x \<and> fl64 x \<le> 2 powi (exp2 x + 1)"
proof -
  define s :: rat where "s = 2 powi (52 - exp2 x)"
  have s: "0 < s" by (simp add: s_def)
  have lo: "2 powi exp2 x * s = of_int (2 ^ 52)" and hi: "2 powi (exp2 x + 1) * s = of_int (2 ^ 53)"
    by (simp_all add: s_def power_int_add [symmetric])
  have b: "of_int (2 ^ 52) \<le> x * s" "x * s \<le> of_int (2 ^ 53)"
    using exp2_bounds [OF assms] s unfolding lo [symmetric] hi [symmetric] by (simp_all add: less_imp_le)
  have "2 ^ 52 \<le> round_even (x * s)" "round_even (x * s) \<le> 2 ^ 53"
    using round_even_mono [OF b(1)] round_even_mono [OF b(2)] by (simp_all only: round_even_of_int)
  then have "of_int (2 ^ 52) \<le> (of_int (round_even (x * s)) :: rat)" "(of_int (round_even (x * s)) :: rat) \<le> of_int (2 ^ 53)"
    by (simp_all only: of_int_le_iff)
  then have "2 powi exp2 x * s \<le> of_int (round_even (x * s))" "of_int (round_even (x * s)) \<le> 2 powi (exp2 x + 1) * s"
    unfolding lo hi by simp_all
  then show ?thesis using assms s by (simp add: fl64_def s_def [symmetric] Let_def pos_le_divide_eq pos_divide_le_eq)
qed

lemma fl64_nonneg: "0 \<le> x \<Longrightarrow> 0 \<le> fl64 x"
proof (cases "x = 0")
  case False
  assume "0 \<le> x"
  then have "0 < x" using False by simp
  then have "(0::rat) < 2 powi exp2 x" "2 powi exp2 x \<le> fl64 x" using fl64_binade by simp_all
  then show ?thesis by linarith
qed simp

lemma fl64_mono_pos:
  assumes "0 < x" and "x \<le> y"
  shows "fl64 x \<le> fl64 y"
proof -
  have y: "0 < y" using assms by linarith
  show ?thesis
  proof (cases "exp2 x = exp2 y")
    case True
    define s :: rat where "s = 2 powi (52 - exp2 y)"
    have "round_even (x * s) \<le> round_even (y * s)" using assms by (intro round_even_mono mult_right_mono) (auto simp: s_def)
    then show ?thesis using assms(1) y True by (simp add: fl64_def Let_def s_def divide_right_mono)
  next
    case False
    have "exp2 x < exp2 y"
    proof (rule ccontr)
      assume "\<not> exp2 x < exp2 y"
      then have "exp2 y + 1 \<le> exp2 x" using False by simp
      then have "(2::rat) powi (exp2 y + 1) \<le> 2 powi exp2 x" by (intro power_int_increasing) auto
      then show False using exp2_bounds [OF assms(1)] exp2_bounds [OF y] assms(2) by linarith
    qed
    then have "(2::rat) powi (exp2 x + 1) \<le> 2 powi exp2 y" by (intro power_int_increasing) auto
    then show ?thesis using fl64_binade [OF assms(1)] fl64_binade [OF y] by linarith
  qed
qed

lemma fl64_mono: "x \<le> y \<Longrightarrow> fl64 x \<le> fl64 y"
proof -
  assume le: "x \<le> y"
  consider "0 < x" | "x \<le> 0" "0 \<le> y" | "x < 0" "y < 0"
    using le by (cases "0 < x"; cases "0 \<le> y") auto
  then show ?thesis
  proof cases
    case 1 then show ?thesis using fl64_mono_pos le by blast
  next
    case 2
    then have "0 \<le> fl64 (- x)" "0 \<le> fl64 y" by (simp_all add: fl64_nonneg)
    then show ?thesis by (simp add: fl64_minus)
  next
    case 3
    then have "fl64 (- y) \<le> fl64 (- x)" using le by (intro fl64_mono_pos) auto
    then show ?thesis by (simp add: fl64_minus)
  qed
qed

lemma fl64_1 [simp]: "fl64 1 = 1"
  by code_simp

text \<open>What 53 bits can hold is not rounded; a bound that is held exactly is a bound of the rounded figure.\<close>

lemma fl64_exact:
  assumes "\<bar>k\<bar> < 2 ^ 53"
  shows "fl64 (of_int k / 2 ^ n) = of_int k / 2 ^ n"
proof -
  have pos: "fl64 (of_int k / 2 ^ n) = of_int k / 2 ^ n" if k: "0 < k" "k < 2 ^ 53" for k :: int
  proof -
    let ?x = "of_int k / 2 ^ n :: rat"
    have x: "0 < ?x" using k by simp
    have "of_int k < (of_int (2 ^ 53) :: rat)" using k by (simp only: of_int_less_iff)
    then have "?x < 2 ^ 53 / 2 ^ n" by (simp add: divide_strict_right_mono)
    also have "\<dots> = 2 powi (53 - int n)" by (simp add: power_int_diff)
    finally have "2 powi exp2 ?x < (2 :: rat) powi (53 - int n)" using exp2_bounds [OF x] by linarith
    then have e: "exp2 ?x < 53 - int n"
      using power_int_increasing [of "53 - int n" "exp2 ?x" "2 :: rat"] by (cases "53 - int n \<le> exp2 ?x") auto
    define d where "d = nat (52 - exp2 ?x - int n)"
    have s: "2 powi (52 - exp2 ?x) = (2 ^ d * 2 ^ n :: rat)"
    proof -
      have "(2 :: rat) powi (52 - exp2 ?x) = 2 powi int (d + n)" using e by (simp add: d_def)
      also have "\<dots> = 2 ^ (d + n)" by (rule power_int_of_nat)
      finally show ?thesis by (simp add: power_add)
    qed
    have "?x * (2 ^ d * 2 ^ n) = of_int (k * 2 ^ d)" by simp
    then have "round_even (?x * (2 ^ d * 2 ^ n)) = k * 2 ^ d" using round_even_of_int by metis
    then show ?thesis using x k by (simp add: fl64_def s)
  qed
  consider "k = 0" | "0 < k" | "k < 0" by linarith
  then show ?thesis
  proof cases
    case 3
    then have "fl64 (of_int (- k) / 2 ^ n) = of_int (- k) / 2 ^ n" using assms by (intro pos) auto
    then show ?thesis by (simp add: fl64_minus)
  qed (use pos assms in auto)
qed

lemma fl64_lower: "\<bar>k\<bar> < 2 ^ 53 \<Longrightarrow> of_int k / 2 ^ n \<le> x \<Longrightarrow> of_int k / 2 ^ n \<le> fl64 x"
  using fl64_mono [of "of_int k / 2 ^ n" x] by (simp add: fl64_exact)

lemma fl64_upper: "\<bar>k\<bar> < 2 ^ 53 \<Longrightarrow> x \<le> of_int k / 2 ^ n \<Longrightarrow> fl64 x \<le> of_int k / 2 ^ n"
  using fl64_mono [of x "of_int k / 2 ^ n"] by (simp add: fl64_exact)

lemma fl64_of_int: "\<bar>k\<bar> < 2 ^ 53 \<Longrightarrow> fl64 (of_int k) = of_int k"
  using fl64_exact [of k 0] by simp

section \<open>Rounding twice\<close>

lemma exp2_unique:
  assumes "2 powi e \<le> x" and "x < 2 powi (e + 1)"
  shows "exp2 x = e"
proof -
  have "(0 :: rat) < 2 powi e" by simp
  then have x: "0 < x" using assms(1) by linarith
  have "\<not> exp2 x < e"
  proof
    assume "exp2 x < e"
    then have "(2 :: rat) powi (exp2 x + 1) \<le> 2 powi e" by (intro power_int_increasing) auto
    then show False using exp2_bounds [OF x] assms(1) by linarith
  qed
  moreover have "\<not> e < exp2 x"
  proof
    assume "e < exp2 x"
    then have "(2 :: rat) powi (e + 1) \<le> 2 powi exp2 x" by (intro power_int_increasing) auto
    then show False using exp2_bounds [OF x] assms(2) by linarith
  qed
  ultimately show ?thesis by linarith
qed

lemma fl64_fixed: "0 < y \<Longrightarrow> y * 2 powi (52 - exp2 y) = of_int k \<Longrightarrow> fl64 y = y"
  by (simp add: fl64_def Let_def) (metis nonzero_mult_div_cancel_right power_int_eq_0_iff zero_neq_numeral)

lemma fl64_idem_pos:
  assumes "0 < x"
  shows "fl64 (fl64 x) = fl64 x"
proof -
  define e s y where "e = exp2 x" and "s = (2 :: rat) powi (52 - e)" and "y = fl64 x"
  have y: "y = of_int (round_even (x * s)) / s" using assms by (simp add: y_def fl64_def Let_def s_def e_def)
  have b: "2 powi e \<le> y" "y \<le> 2 powi (e + 1)" using fl64_binade [OF assms] by (simp_all add: y_def e_def)
  have "(0 :: rat) < 2 powi e" by simp
  then have pos: "0 < y" using b(1) by linarith
  show ?thesis
  proof (cases "y < 2 powi (e + 1)")
    case True
    have "exp2 y = e" by (rule exp2_unique [OF b(1) True])
    then have "y * 2 powi (52 - exp2 y) = of_int (round_even (x * s))" using y by (simp add: s_def)
    then show ?thesis using fl64_fixed [OF pos] by (simp add: y_def)
  next
    case False
    then have yy: "y = 2 powi (e + 1)" using b(2) by simp
    have "exp2 y = e + 1" by (rule exp2_unique) (simp_all add: yy power_int_add)
    then have "y * 2 powi (52 - exp2 y) = of_int (2 ^ 52)" by (simp add: yy power_int_add [symmetric])
    then show ?thesis using fl64_fixed [OF pos] by (simp add: y_def)
  qed
qed

lemma fl64_idem [simp]: "fl64 (fl64 x) = fl64 x"
proof -
  consider "0 < x" | "x = 0" | "0 < - x" by linarith
  then show ?thesis
  proof cases
    case 3
    then show ?thesis using fl64_idem_pos [of "- x"] by (simp add: fl64_minus)
  qed (simp_all add: fl64_idem_pos)
qed

lemma fl64_pos: "0 < x \<Longrightarrow> 0 < fl64 x"
proof -
  assume "0 < x"
  then have "2 powi exp2 x \<le> fl64 x" "(0 :: rat) < 2 powi exp2 x" using fl64_binade by simp_all
  then show ?thesis by linarith
qed

lemma fl64_ge_1: "1 \<le> x \<Longrightarrow> 1 \<le> fl64 x"
  using fl64_mono [of 1 x] by simp

section \<open>Arithmetic\<close>

definition fadd :: "rat \<Rightarrow> rat \<Rightarrow> rat" where "fadd a b = fl64 (a + b)"
definition fsub :: "rat \<Rightarrow> rat \<Rightarrow> rat" where "fsub a b = fl64 (a - b)"
definition fmul :: "rat \<Rightarrow> rat \<Rightarrow> rat" where "fmul a b = fl64 (a * b)"
definition fdiv :: "rat \<Rightarrow> rat \<Rightarrow> rat" where "fdiv a b = fl64 (a / b)"

lemmas fops = fadd_def fsub_def fmul_def fdiv_def

text \<open>
  What a damped average relies on: rounding is monotone and exact at 0 and 1, so figures that start
  between 0 and 1 and are scaled down stay there.
\<close>

locale rounding =
  fixes rnd :: "rat \<Rightarrow> rat"
  assumes mono: "x \<le> y \<Longrightarrow> rnd x \<le> rnd y"
    and rnd_0: "rnd 0 = 0" and rnd_1: "rnd 1 = 1"
begin

lemma nonneg: "0 \<le> x \<Longrightarrow> 0 \<le> rnd x"
  using mono [of 0 x] rnd_0 by simp

lemma at_most_1: "x \<le> 1 \<Longrightarrow> rnd x \<le> 1"
  using mono [of x 1] rnd_1 by simp

lemma scaled_nonneg: "0 \<le> c \<Longrightarrow> 0 \<le> x \<Longrightarrow> 0 \<le> rnd (rnd c * x)"
  by (intro nonneg mult_nonneg_nonneg)

lemma scaled_unit: "0 \<le> c \<Longrightarrow> c \<le> 1 \<Longrightarrow> 0 \<le> x \<Longrightarrow> x \<le> 1 \<Longrightarrow> rnd (rnd c * x) \<le> 1"
  by (intro at_most_1 mult_le_one) (auto intro: nonneg at_most_1)

lemma added_nonneg: "0 \<le> a \<Longrightarrow> 0 \<le> b \<Longrightarrow> 0 \<le> rnd (a + b)"
  by (intro nonneg add_nonneg_nonneg)

text \<open>Scaling a bounded figure keeps it under the rounded bound.\<close>

lemma scaled_le: "0 \<le> c \<Longrightarrow> x \<le> b \<Longrightarrow> rnd (rnd c * x) \<le> rnd (rnd c * b)"
  by (intro mono mult_left_mono nonneg)

end

interpretation fl: rounding fl64
  by unfold_locales (auto intro: fl64_mono)

text \<open>\<^verbatim>\<open>int(x)\<close> and \<^verbatim>\<open>time.Duration(x)\<close> of a float cut the fraction off.\<close>

definition trunc :: "rat \<Rightarrow> int" where
  "trunc x = (if x < 0 then \<lceil>x\<rceil> else \<lfloor>x\<rfloor>)"

end
