(* ===== verification/PathManager.thy ===== *)
theory PathManager
  imports Mesh Dht GoFloat
begin

text \<open>
  The path manager of the tunnel, \<^verbatim>\<open>internal/tunnel/path_manager.go\<close>: for each destination the success
  average and the run of failures, the decision between QUIC, TCP and a path through a peer, and the
  eviction of destinations that are old or too many. A destination is the text of its address; the clock
  is read several times in a decision, so \<open>clk i\<close> is its \<open>i\<close>-th reading; the order in which Go ranges over
  a map is a parameter. Figures are \<^verbatim>\<open>float64\<close> (theory GoFloat). A run of failures is an \<open>int\<close> without bound:
  it grows by one per connection.
\<close>

section \<open>State\<close>

definition PathClassDirect :: byte where "PathClassDirect = 1"
definition PathClassServer :: byte where "PathClassServer = 2"
definition PathClassPeer :: byte where "PathClassPeer = 3"
definition pathStatTTL :: duration where "pathStatTTL = 30 * minute"
definition pathStatMaxEntries :: nat where "pathStatMaxEntries = 4096"

lemmas path_classes = PathClassDirect_def PathClassServer_def PathClassPeer_def

record PathDecision =
  pd_PreferTCP :: bool
  pd_RelayClass :: byte
  pd_PathTTL :: byte
  pd_PeerAddr :: string
  pd_PeerQUIC :: string
  pd_PeerUDP :: string
  pd_PeerUDPCandidates :: "string list"
  pd_PeerTCPCandidates :: "string list"
  pd_PeerQUICCandidates :: "string list"
  pd_MaxPeerHops :: int

definition direct_path :: PathDecision where
  "direct_path =
     \<lparr>pd_PreferTCP = False, pd_RelayClass = PathClassDirect, pd_PathTTL = 1, pd_PeerAddr = [], pd_PeerQUIC = [],
      pd_PeerUDP = [], pd_PeerUDPCandidates = [], pd_PeerTCPCandidates = [], pd_PeerQUICCandidates = [],
      pd_MaxPeerHops = 0\<rparr>"

record pathStat =
  ps_ewmaOK :: rat
  ps_failStreak :: int
  ps_lastRelay :: byte
  ps_lastTTL :: byte
  ps_lastAttempt :: instant
  ps_lastTouch :: instant

record PathManager =
  pm_paths :: "(string, pathStat) gomap"
  pm_globalCand :: CandidateKind
  pm_srflxRTTEwma :: rat
  pm_aggressive :: bool
  pm_pathCooldown :: duration
  pm_tcpStickUntil :: "(string, instant) gomap option"
  pm_peerDial :: bool
  pm_peerRelayUseQuic :: bool
  pm_peerRelayUseUDP :: bool
  pm_peerRelayUseTCP :: bool
  pm_maxPeerHops :: int
  pm_peerMaxAge :: duration
  pm_peerUDPEndpoints :: "(string \<Rightarrow> string list) option"

definition NewPathManager :: PathManager where
  "NewPathManager =
     \<lparr>pm_paths = [], pm_globalCand = CandidateUnknown, pm_srflxRTTEwma = 0, pm_aggressive = False,
      pm_pathCooldown = 0, pm_tcpStickUntil = None, pm_peerDial = False, pm_peerRelayUseQuic = False,
      pm_peerRelayUseUDP = False, pm_peerRelayUseTCP = False, pm_maxPeerHops = 0, pm_peerMaxAge = 0,
      pm_peerUDPEndpoints = None\<rparr>"

definition NewPathManagerFromRelay :: "RelayOptions option \<Rightarrow> PathManager" where
  "NewPathManagerFromRelay r =
     (case r of
        None \<Rightarrow> NewPathManager
      | Some r \<Rightarrow>
        let m = NewPathManager
              \<lparr>pm_aggressive := ro_PathAggressive r,
               pm_peerDial := ro_PeerPathFromDiscovery r,
               pm_peerRelayUseQuic := ro_PeerRelayUseQUIC r,
               pm_peerRelayUseUDP := ro_PeerRelayUseUDP r,
               pm_peerRelayUseTCP := (case ro_PeerRelayUseTCP r of None \<Rightarrow> True | Some b \<Rightarrow> b),
               pm_maxPeerHops := ro_MaxPeerHops r\<rparr>;
            m = (if ro_HealthMaxAgeSec r > 0
                 then m\<lparr>pm_peerMaxAge := wrap64 (ro_HealthMaxAgeSec r * second)\<rparr> else m)
        in if ro_PathCooldownMs r > 0
           then m\<lparr>pm_pathCooldown := wrap64 (ro_PathCooldownMs r * millisecond), pm_tcpStickUntil := Some []\<rparr>
           else m)"

definition SetPeerUDPEndpointsResolver :: "(string \<Rightarrow> string list) option \<Rightarrow> PathManager option \<Rightarrow> PathManager option" where
  "SetPeerUDPEndpointsResolver fn = map_option (\<lambda>m. m\<lparr>pm_peerUDPEndpoints := fn\<rparr>)"

definition SetGlobalCandidate :: "CandidateKind \<Rightarrow> PathManager option \<Rightarrow> PathManager option" where
  "SetGlobalCandidate k = map_option (\<lambda>m. m\<lparr>pm_globalCand := k\<rparr>)"

definition SetSrflxRTT :: "duration \<Rightarrow> PathManager option \<Rightarrow> PathManager option" where
  "SetSrflxRTT d = map_option (\<lambda>m.
     if d \<le> 0 then m
     else let ms = fl64 (of_int (go_div d millisecond)) in
       if pm_srflxRTTEwma m \<le> 0 then m\<lparr>pm_srflxRTTEwma := ms\<rparr>
       else m\<lparr>pm_srflxRTTEwma := fadd (fmul (fl64 (17 / 20)) (pm_srflxRTTEwma m)) (fmul (fl64 (3 / 20)) ms)\<rparr>)"

definition SrflxRTTEwmaMs :: "PathManager option \<Rightarrow> rat" where
  "SrflxRTTEwmaMs m = (case m of None \<Rightarrow> 0 | Some m \<Rightarrow> pm_srflxRTTEwma m)"

definition srflxLatencyFactor :: "PathManager \<Rightarrow> rat" where
  "srflxLatencyFactor m =
     (if pm_srflxRTTEwma m \<le> 0 then 1
      else if pm_srflxRTTEwma m < 80 then 1
      else let p = fsub 1 (fdiv (fsub (pm_srflxRTTEwma m) 80) 500) in
        if p < fl64 (18 / 25) then fl64 (18 / 25) else p)"

text \<open>\<^verbatim>\<open>PathWeight\<close> as the \<^verbatim>\<open>float64\<close> the code computes with.\<close>

definition path_weight :: "CandidateKind \<Rightarrow> rat" where
  "path_weight k = fl64 (of_nat (PathWeight k) / 100)"

section \<open>Eviction\<close>

definition touched :: "pathStat \<Rightarrow> instant" where
  "touched st = (if ps_lastTouch st = zero_time then ps_lastAttempt st else ps_lastTouch st)"

definition expired :: "instant \<Rightarrow> pathStat \<Rightarrow> bool" where
  "expired cutoff st \<longleftrightarrow> touched st \<noteq> zero_time \<and> touched st < cutoff"

definition forget :: "string \<Rightarrow> PathManager \<Rightarrow> PathManager" where
  "forget k m = m\<lparr>pm_paths := mdel k (pm_paths m), pm_tcpStickUntil := map_option (mdel k) (pm_tcpStickUntil m)\<rparr>"

text \<open>The index of the entry with the earliest time, the first one among equals.\<close>

definition oldest :: "(string \<times> instant) list \<Rightarrow> nat" where
  "oldest items = fold (\<lambda>i o'. if snd (items ! i) < snd (items ! o') then i else o') [1..<length items] 0"

function evict_items :: "(string \<times> instant) list \<Rightarrow> PathManager \<Rightarrow> PathManager" where
  "evict_items items m =
     (if length (pm_paths m) > pathStatMaxEntries \<and> length items > 0 then
        let i = oldest items
        in evict_items (butlast (items[i := last items])) (forget (fst (items ! i)) m)
      else m)"
  by pat_completeness auto

termination by (relation "measure (\<lambda>(items, m). length items)") auto

declare evict_items.simps [simp del]

definition sweepPathsLocked ::
  "((string, pathStat) gomap \<Rightarrow> (string, pathStat) gomap) \<Rightarrow> instant \<Rightarrow> PathManager \<Rightarrow> PathManager" where
  "sweepPathsLocked order now m =
     (if length (pm_paths m) = 0 then m
      else
        let cutoff = now - pathStatTTL;
            m = fold (\<lambda>(k, st) m. if expired cutoff st then forget k m else m) (order (pm_paths m)) m
        in if length (pm_paths m) \<le> pathStatMaxEntries then m
           else evict_items (map (\<lambda>(k, st). (k, touched st)) (order (pm_paths m))) m)"

section \<open>Peer routes\<close>

fun dedupe_from :: "string list \<Rightarrow> string list \<Rightarrow> string list" where
  "dedupe_from seen [] = []"
| "dedupe_from seen (s # ss) =
     (let s = trim_space s in
      if s = [] then dedupe_from seen ss
      else let k = to_lower s in
        if k \<in> set seen then dedupe_from seen ss else s # dedupe_from (k # seen) ss)"

definition dedupeEndpoints :: "string list \<Rightarrow> string list" where
  "dedupeEndpoints list = dedupe_from [] list"

definition add_trimmed :: "string \<Rightarrow> string list \<Rightarrow> string list" where
  "add_trimmed v cands = (let v = trim_space v in if v \<noteq> [] then cands @ [v] else cands)"

text \<open>The address a relay is dialled at over TCP: the reflexive one, else its first endpoint.\<close>

definition node_tcp :: "RelayNode \<Rightarrow> string" where
  "node_tcp n =
     (let s = trim_space (rn_Srflx n) in
      if s \<noteq> [] then s
      else case filter (\<lambda>ep. ep \<noteq> []) (map trim_space (rn_Endpoints n)) of [] \<Rightarrow> [] | ep # _ \<Rightarrow> ep)"

record peer_cands =
  pc_tcp :: "string list"
  pc_quic :: "string list"
  pc_udp :: "string list"
  pc_udpAddr :: string

text \<open>What one peer contributes.\<close>

definition node_cands :: "(string \<Rightarrow> string list) option \<Rightarrow> bool \<Rightarrow> RelayNode \<Rightarrow> peer_cands \<Rightarrow> peer_cands" where
  "node_cands eps useUDP n c =
     (let tcp = node_tcp n;
          c = c\<lparr>pc_tcp := add_trimmed tcp (pc_tcp c), pc_quic := add_trimmed (rn_Quic n) (pc_quic c)\<rparr>
      in if useUDP then
           let cand = (if tcp \<noteq> [] then [tcp] else []) @
                 (case eps of None \<Rightarrow> [] | Some f \<Rightarrow> dedupeEndpoints (f (rn_ID n)));
               c = c\<lparr>pc_udp := dedupeEndpoints cand\<rparr>
           in if pc_udp c \<noteq> [] then c\<lparr>pc_udpAddr := hd (pc_udp c)\<rparr> else c
         else c)"

fun pick_nodes ::
  "(string \<Rightarrow> string list) option \<Rightarrow> bool \<Rightarrow> int \<Rightarrow> duration \<Rightarrow> instant \<Rightarrow> RelayNode list \<Rightarrow> peer_cands \<Rightarrow> peer_cands" where
  "pick_nodes eps useUDP limit maxAge now [] c = c"
| "pick_nodes eps useUDP limit maxAge now (n # ns) c =
     (if \<not> equal_fold (trim_space (rn_Class n)) ''peer'' then pick_nodes eps useUDP limit maxAge now ns c
      else if maxAge > 0 \<and> (rn_UpdatedAt n \<le> 0 \<or> time_sub now (from_unix (rn_UpdatedAt n)) > maxAge)
      then pick_nodes eps useUDP limit maxAge now ns c
      else
        let c = node_cands eps useUDP n c in
        if int (length (pc_tcp c) + length (pc_quic c) + length (pc_udp c)) \<ge> limit then c
        else pick_nodes eps useUDP limit maxAge now ns c)"

record peer_routes =
  pr_tcpAddr :: string
  pr_quicAddr :: string
  pr_udpAddr :: string
  pr_udpEnds :: "string list"
  pr_tcpCands :: "string list"
  pr_quicCands :: "string list"

text \<open>\<open>hints\<close> are the cluster's peer addresses, \<open>nodes\<close> the 48 nearest relays of the DHT table.\<close>

definition pickPeerRoutes ::
  "string list \<Rightarrow> RelayNode list \<Rightarrow> (string \<Rightarrow> string list) option \<Rightarrow> bool \<Rightarrow> int \<Rightarrow> duration \<Rightarrow> instant \<Rightarrow> peer_routes" where
  "pickPeerRoutes hints nodes eps useUDP limit maxAge now =
     (let extraTCP = (if maxAge \<le> 0 then hints else []);
          limit = (if limit \<le> 0 then 1 else limit);
          c = \<lparr>pc_tcp = fold add_trimmed extraTCP [], pc_quic = [], pc_udp = [], pc_udpAddr = []\<rparr>;
          c = pick_nodes eps useUDP limit maxAge now nodes c;
          tcpCands = dedupeEndpoints (pc_tcp c);
          quicCands = dedupeEndpoints (pc_quic c);
          udpEnds = dedupeEndpoints (pc_udp c)
      in \<lparr>pr_tcpAddr = (if tcpCands \<noteq> [] then hd tcpCands else []),
          pr_quicAddr = (if quicCands \<noteq> [] then hd quicCands else []),
          pr_udpAddr = (if udpEnds \<noteq> [] then hd udpEnds else pc_udpAddr c),
          pr_udpEnds = take (nat limit) udpEnds,
          pr_tcpCands = take (nat limit) tcpCands,
          pr_quicCands = take (nat limit) quicCands\<rparr>)"

section \<open>Decisions\<close>

definition new_stat :: "instant \<Rightarrow> pathStat" where
  "new_stat now =
     \<lparr>ps_ewmaOK = 1, ps_failStreak = 0, ps_lastRelay = 0, ps_lastTTL = 0, ps_lastAttempt = zero_time, ps_lastTouch = now\<rparr>"

definition stat_of :: "instant \<Rightarrow> string \<Rightarrow> PathManager \<Rightarrow> pathStat" where
  "stat_of now key m = (case mget (pm_paths m) key of None \<Rightarrow> new_stat now | Some st \<Rightarrow> st)"

definition peer_limit :: "PathManager \<Rightarrow> pathStat \<Rightarrow> int" where
  "peer_limit m st =
     (let l = (if ps_failStreak st \<ge> 3 then 3 else if ps_failStreak st \<ge> 1 then 2 else 1)
      in if pm_maxPeerHops m > 0 \<and> l > pm_maxPeerHops m then pm_maxPeerHops m else l)"

definition try_peer ::
  "string list \<Rightarrow> RelayNode list \<Rightarrow> instant \<Rightarrow> PathManager \<Rightarrow> pathStat \<Rightarrow> bool \<Rightarrow> bool \<Rightarrow> PathDecision option" where
  "try_peer hints nodes now m st allowPeerPath forcePeerPath =
     (if \<not> allowPeerPath \<or> \<not> pm_peerDial m then None
      else if \<not> forcePeerPath \<and> pm_globalCand m \<noteq> CandidateSrflx \<and> pm_globalCand m \<noteq> CandidateRelay then None
      else if \<not> forcePeerPath \<and> ps_failStreak st < 1 \<and> ps_ewmaOK st \<ge> fl64 (21 / 50) then None
      else
        let peerLimit = peer_limit m st;
            r = pickPeerRoutes hints nodes (pm_peerUDPEndpoints m) (pm_peerRelayUseUDP m) peerLimit (pm_peerMaxAge m) now
        in if pr_tcpAddr r = [] \<and> pr_quicAddr r = [] \<and> pr_udpAddr r = [] then None
           else
             let quicAddr = (if \<not> pm_peerRelayUseQuic m then [] else pr_quicAddr r);
                 tcpAddr = (if \<not> pm_peerRelayUseTCP m then [] else pr_tcpAddr r);
                 tcpCands = (if \<not> pm_peerRelayUseTCP m then [] else pr_tcpCands r);
                 udpAddr = (if \<not> pm_peerRelayUseUDP m then [] else pr_udpAddr r);
                 peerUDPExtras = (if \<not> pm_peerRelayUseUDP m then [] else pr_udpEnds r);
                 quicCands = (if \<not> pm_peerRelayUseQuic m then [] else pr_quicCands r);
                 prefTCP = (if pm_peerRelayUseQuic m \<and> quicAddr \<noteq> [] then False else True)
             in Some \<lparr>pd_PreferTCP = prefTCP, pd_RelayClass = PathClassPeer, pd_PathTTL = word_of_int peerLimit,
                  pd_PeerAddr = tcpAddr, pd_PeerQUIC = quicAddr, pd_PeerUDP = udpAddr,
                  pd_PeerUDPCandidates = peerUDPExtras, pd_PeerTCPCandidates = tcpCands,
                  pd_PeerQUICCandidates = quicCands, pd_MaxPeerHops = peerLimit\<rparr>)"

text \<open>How good the direct path looks, between 0 and 1.\<close>

definition eff_ok :: "PathManager \<Rightarrow> pathStat \<Rightarrow> rat" where
  "eff_ok m st =
     (let w = (if pm_globalCand m \<noteq> CandidateUnknown then path_weight (pm_globalCand m) else 1);
          effOK = fmul (fmul (ps_ewmaOK st) w) (srflxLatencyFactor m);
          effOK = (if effOK < 0 then 0 else effOK)
      in if effOK > 1 then 1 else effOK)"

definition sticks :: "instant \<Rightarrow> string \<Rightarrow> PathManager \<Rightarrow> bool" where
  "sticks now key m =
     (pm_pathCooldown m > 0 \<and>
      (case pm_tcpStickUntil m of
         None \<Rightarrow> False
       | Some s \<Rightarrow> (case mget s key of None \<Rightarrow> False | Some till \<Rightarrow> now < till)))"

definition decide_on ::
  "((string, pathStat) gomap \<Rightarrow> (string, pathStat) gomap) \<Rightarrow> string list \<Rightarrow> RelayNode list \<Rightarrow> (nat \<Rightarrow> instant) \<Rightarrow>
   string \<Rightarrow> bool \<Rightarrow> bool \<Rightarrow> bool \<Rightarrow> bool \<Rightarrow> PathManager \<Rightarrow> PathDecision \<times> PathManager" where
  "decide_on order hints nodes clk key dual quicEnabled allowPeerPath forcePeerPath m =
     (let now = clk 0;
          m = sweepPathsLocked order now m;
          st = (stat_of now key m)\<lparr>ps_lastAttempt := now, ps_lastTouch := now\<rparr>;
          m = m\<lparr>pm_paths := mput key st (pm_paths m)\<rparr>;
          peer = try_peer hints nodes now m st allowPeerPath forcePeerPath;
          dec = direct_path
      in if \<not> dual \<or> \<not> quicEnabled then
           (case peer of Some d \<Rightarrow> (d, m) | None \<Rightarrow> (dec\<lparr>pd_PreferTCP := True\<rparr>, m))
         else if sticks (clk 1) key m then
           (case peer of Some d \<Rightarrow> (d, m) | None \<Rightarrow> (dec\<lparr>pd_PreferTCP := True\<rparr>, m))
         else
           let failThresh = (if pm_aggressive m then 2 else 3);
               effThresh = (if pm_aggressive m then fl64 (19 / 50) else fl64 (7 / 20))
           in if ps_failStreak st \<ge> failThresh \<or> eff_ok m st < effThresh then
                (case peer of
                   Some d \<Rightarrow> (d, m)
                 | None \<Rightarrow>
                   (dec\<lparr>pd_PreferTCP := True\<rparr>,
                    case pm_tcpStickUntil m of
                      Some s \<Rightarrow> if pm_pathCooldown m > 0
                        then m\<lparr>pm_tcpStickUntil := Some (mput key (clk 2 + pm_pathCooldown m) s)\<rparr> else m
                    | None \<Rightarrow> m))
              else (case peer of Some d \<Rightarrow> (d, m) | None \<Rightarrow> (dec, m)))"

definition Decide ::
  "((string, pathStat) gomap \<Rightarrow> (string, pathStat) gomap) \<Rightarrow> string list \<Rightarrow> RelayNode list \<Rightarrow> (nat \<Rightarrow> instant) \<Rightarrow>
   string \<Rightarrow> bool \<Rightarrow> bool \<Rightarrow> bool \<Rightarrow> bool \<Rightarrow> PathManager option \<Rightarrow> PathDecision \<times> PathManager option" where
  "Decide order hints nodes clk key dual quicEnabled allowPeerPath forcePeerPath m =
     (case m of
        None \<Rightarrow> (direct_path, None)
      | Some m \<Rightarrow>
        let (d, m) = decide_on order hints nodes clk key dual quicEnabled allowPeerPath forcePeerPath m in (d, Some m))"

text \<open>The outcome of a connection.\<close>

definition record_ok :: "bool \<Rightarrow> pathStat \<Rightarrow> pathStat" where
  "record_ok ok st =
     (let st = (if ok then st\<lparr>ps_failStreak := 0,
                              ps_ewmaOK := fadd (fmul (fl64 (17 / 20)) (ps_ewmaOK st)) (fl64 (3 / 20))\<rparr>
                else st\<lparr>ps_failStreak := ps_failStreak st + 1, ps_ewmaOK := fmul (ps_ewmaOK st) (fl64 (4 / 5))\<rparr>);
          st = (if ps_ewmaOK st > 1 then st\<lparr>ps_ewmaOK := 1\<rparr> else st)
      in if ps_ewmaOK st < 0 then st\<lparr>ps_ewmaOK := 0\<rparr> else st)"

definition Record ::
  "((string, pathStat) gomap \<Rightarrow> (string, pathStat) gomap) \<Rightarrow> instant \<Rightarrow>
   string \<Rightarrow> bool \<Rightarrow> byte \<Rightarrow> byte \<Rightarrow> PathManager option \<Rightarrow> PathManager option" where
  "Record order now key ok relayClass pathTTL = map_option (\<lambda>m.
     let m = sweepPathsLocked order now m;
         st = record_ok ok ((stat_of now key m)\<lparr>ps_lastTouch := now\<rparr>);
         m = (if ok then m\<lparr>pm_tcpStickUntil := map_option (mdel key) (pm_tcpStickUntil m)\<rparr> else m)
     in m\<lparr>pm_paths := mput key (st\<lparr>ps_lastRelay := relayClass, ps_lastTTL := pathTTL\<rparr>) (pm_paths m)\<rparr>)"

section \<open>What eviction keeps\<close>

text \<open>\<open>m'\<close> is \<open>m\<close> with some destinations forgotten.\<close>

inductive forgotten :: "PathManager \<Rightarrow> PathManager \<Rightarrow> bool" for m where
  forgotten_none: "forgotten m m"
| forgotten_key: "forgotten m m' \<Longrightarrow> forgotten m (forget k m')"

definition settings :: "PathManager \<Rightarrow> PathManager" where
  "settings m = m\<lparr>pm_paths := [], pm_tcpStickUntil := None\<rparr>"

lemma settings_forget [simp]: "settings (forget k m) = settings m"
  by (simp add: settings_def forget_def)

lemma forgotten_settings: "forgotten m m' \<Longrightarrow> settings m' = settings m"
  by (induction rule: forgotten.induct) auto

lemma forgotten_paths:
  "forgotten m m' \<Longrightarrow> mget (pm_paths m') k = Some st \<Longrightarrow> mget (pm_paths m) k = Some st"
  by (induction arbitrary: rule: forgotten.induct) (auto simp: forget_def gomap split: if_splits)

lemma forgotten_gomap_ok: "forgotten m m' \<Longrightarrow> gomap_ok (pm_paths m) \<Longrightarrow> gomap_ok (pm_paths m')"
  by (induction rule: forgotten.induct) (auto simp: forget_def gomap)

lemma forgotten_length: "forgotten m m' \<Longrightarrow> length (pm_paths m') \<le> length (pm_paths m)"
  by (induction rule: forgotten.induct) (auto simp: forget_def intro: order_trans [OF length_mdel_le])

lemma forgotten_trans: "forgotten m' m'' \<Longrightarrow> forgotten m m' \<Longrightarrow> forgotten m m''"
  by (induction rule: forgotten.induct) (auto intro: forgotten_key)

lemma forgotten_fold:
  "forgotten m (fold (\<lambda>(k, st) m. if expired cutoff st then forget k m else m) xs m)"
proof (induction xs rule: rev_induct)
  case (snoc x xs)
  then show ?case by (cases x) (auto intro: forgotten_key)
qed (simp add: forgotten_none)

lemma forgotten_evict: "forgotten m (evict_items items m)"
proof (induction items m rule: evict_items.induct)
  case (1 items m)
  show ?case
  proof (cases "length (pm_paths m) > pathStatMaxEntries \<and> length items > 0")
    case True
    let ?i = "oldest items"
    have eq: "evict_items items m = evict_items (butlast (items[?i := last items])) (forget (fst (items ! ?i)) m)"
      using True by (subst evict_items.simps) (simp add: Let_def)
    show ?thesis unfolding eq
      by (rule forgotten_trans [OF 1 [OF True refl]]) (intro forgotten_key forgotten_none)
  next
    case False
    have "evict_items items m = m" by (subst evict_items.simps) (rule if_not_P [OF False])
    then show ?thesis by (simp add: forgotten_none)
  qed
qed

lemma forgotten_sweep: "forgotten m (sweepPathsLocked order now m)"
  unfolding sweepPathsLocked_def Let_def
  by (auto intro: forgotten_none forgotten_trans forgotten_fold forgotten_evict)

lemma unexpired_kept:
  "\<forall>st'. (k, st') \<in> set xs \<longrightarrow> \<not> expired cutoff st' \<Longrightarrow>
   mget (pm_paths (fold (\<lambda>(k, st) m. if expired cutoff st then forget k m else m) xs m)) k = mget (pm_paths m) k"
proof (induction xs rule: rev_induct)
  case (snoc x xs)
  then show ?case by (cases x) (auto simp: forget_def gomap)
qed simp

lemma oldest_less: "items \<noteq> [] \<Longrightarrow> oldest items < length items"
proof -
  have "fold (\<lambda>i o'. if snd (items ! i) < snd (items ! o') then i else o') is s < length items"
    if "s < length items" "\<forall>i \<in> set is. i < length items" for "is" s
    using that by (induction "is" arbitrary: s) auto
  then show "items \<noteq> [] \<Longrightarrow> oldest items < length items" by (simp add: oldest_def)
qed

lemma mset_drop_swap:
  assumes "i < length xs"
  shows "mset xs = mset (xs ! i # butlast (xs[i := last xs]))"
proof -
  obtain ys z where xs: "xs = ys @ [z]" using assms by (metis length_0_conv less_nat_zero_code rev_exhaust)
  show ?thesis
  proof (cases "i < length ys")
    case True
    then have "mset (ys[i := z]) = add_mset z (mset ys - {#ys ! i#})" by (rule mset_update)
    then show ?thesis using True by (simp add: xs list_update_append nth_append)
  next
    case False
    then have "i = length ys" using assms by (simp add: xs)
    then show ?thesis by (simp add: xs)
  qed
qed

definition lists_keys :: "(string \<times> instant) list \<Rightarrow> PathManager \<Rightarrow> bool" where
  "lists_keys items m \<longleftrightarrow> distinct (map fst items) \<and> fst ` set items = fst ` set (pm_paths m)"

lemma lists_keys_length: "lists_keys items m \<Longrightarrow> gomap_ok (pm_paths m) \<Longrightarrow> length (pm_paths m) = length items"
  using distinct_card [of "map fst items"] distinct_card [of "map fst (pm_paths m)"]
  by (simp add: lists_keys_def gomap_ok_def)

lemma lists_keys_evict:
  assumes "lists_keys items m" and "i < length items"
  shows "lists_keys (butlast (items[i := last items])) (forget (fst (items ! i)) m)"
proof -
  let ?r = "butlast (items[i := last items])"
  have ms: "mset items = mset (items ! i # ?r)" by (rule mset_drop_swap [OF assms(2)])
  have d: "distinct (map fst (items ! i # ?r))"
    using assms(1) ms by (metis lists_keys_def mset_eq_imp_distinct_iff mset_map)
  have si: "set items = set (items ! i # ?r)" using ms by (rule mset_eq_setD)
  have nf: "fst (items ! i) \<notin> fst ` set ?r" using d by (simp only: list.map distinct.simps set_map not_False_eq_True)
  have "fst ` set (pm_paths (forget (fst (items ! i)) m)) = fst ` set (pm_paths m) - {fst (items ! i)}"
    by (auto simp: forget_def mdel_def)
  also have "\<dots> = fst ` set (items ! i # ?r) - {fst (items ! i)}"
    using assms(1) unfolding lists_keys_def si by blast
  also have "\<dots> = fst ` set ?r" unfolding list.set image_insert using nf by (rule Diff_insert_absorb)
  finally have "fst ` set ?r = fst ` set (pm_paths (forget (fst (items ! i)) m))" by (rule sym)
  then show ?thesis using d by (simp add: lists_keys_def)
qed

lemma evict_items_bound:
  "lists_keys items m \<Longrightarrow> gomap_ok (pm_paths m) \<Longrightarrow> length (pm_paths (evict_items items m)) \<le> pathStatMaxEntries"
proof (induction items m rule: evict_items.induct)
  case (1 items m)
  show ?case
  proof (cases "length (pm_paths m) > pathStatMaxEntries \<and> length items > 0")
    case True
    have ok: "gomap_ok (pm_paths (forget (fst (items ! oldest items)) m))" using 1(3) by (simp add: forget_def gomap)
    have "oldest items < length items" using True by (intro oldest_less) auto
    note lk = lists_keys_evict [OF 1(2) this]
    show ?thesis using 1(1) [OF True refl lk ok] True by (subst evict_items.simps) (simp add: Let_def)
  next
    case False
    then show ?thesis using lists_keys_length [OF 1(2,3)] by (auto simp: evict_items.simps)
  qed
qed

lemma sweep_bound:
  assumes "gomap_ok (pm_paths m)" and "range_order order"
  shows "length (pm_paths (sweepPathsLocked order now m)) \<le> pathStatMaxEntries"
proof -
  let ?m = "fold (\<lambda>(k, st) m. if expired (now - pathStatTTL) st then forget k m else m) (order (pm_paths m)) m"
  have ok: "gomap_ok (pm_paths ?m)" using forgotten_gomap_ok [OF forgotten_fold assms(1)] .
  have "lists_keys (map (\<lambda>(k, st). (k, touched st)) (order (pm_paths ?m))) ?m"
    using range_order_set [OF assms(2) ok] ok assms(2)
    by (auto simp: lists_keys_def gomap_ok_def range_order_def o_def case_prod_beta image_image)
  from evict_items_bound [OF this ok] show ?thesis by (auto simp: sweepPathsLocked_def Let_def pathStatMaxEntries_def)
qed

lemma sweep_keeps:
  assumes "gomap_ok (pm_paths m)" and "range_order order" and "length (pm_paths m) \<le> pathStatMaxEntries"
    and "mget (pm_paths m) k = Some st" and "\<not> expired (now - pathStatTTL) st"
  shows "mget (pm_paths (sweepPathsLocked order now m)) k = Some st"
proof -
  let ?m = "fold (\<lambda>(k, st) m. if expired (now - pathStatTTL) st then forget k m else m) (order (pm_paths m)) m"
  have "mget (pm_paths ?m) k = mget (pm_paths m) k"
    using range_order_set [OF assms(2,1)] assms mget_in [OF assms(1)] by (intro unexpired_kept) auto
  moreover have "length (pm_paths ?m) \<le> pathStatMaxEntries"
    using forgotten_length [OF forgotten_fold] assms(3) by (rule order_trans)
  ultimately show ?thesis using assms(4) by (auto simp: sweepPathsLocked_def Let_def)
qed
lemma settings_fields:
  assumes "settings m' = settings m"
  shows "pm_globalCand m' = pm_globalCand m" "pm_srflxRTTEwma m' = pm_srflxRTTEwma m" "pm_aggressive m' = pm_aggressive m"
    "pm_pathCooldown m' = pm_pathCooldown m" "pm_peerDial m' = pm_peerDial m"
    "pm_peerRelayUseQuic m' = pm_peerRelayUseQuic m" "pm_peerRelayUseUDP m' = pm_peerRelayUseUDP m"
    "pm_peerRelayUseTCP m' = pm_peerRelayUseTCP m" "pm_maxPeerHops m' = pm_maxPeerHops m"
    "pm_peerMaxAge m' = pm_peerMaxAge m" "pm_peerUDPEndpoints m' = pm_peerUDPEndpoints m"
  using assms by (cases m; cases m'; simp add: settings_def)+

lemmas sweep_fields [simp] = settings_fields [OF forgotten_settings [OF forgotten_sweep]]

section \<open>The invariant\<close>

definition stat_ok :: "pathStat \<Rightarrow> bool" where
  "stat_ok st \<longleftrightarrow> 0 \<le> ps_ewmaOK st \<and> ps_ewmaOK st \<le> 1 \<and> 0 \<le> ps_failStreak st"

definition pm_sound :: "PathManager \<Rightarrow> bool" where
  "pm_sound m \<longleftrightarrow> gomap_ok (pm_paths m) \<and> length (pm_paths m) \<le> Suc pathStatMaxEntries \<and>
     (\<forall>k st. mget (pm_paths m) k = Some st \<longrightarrow> stat_ok st) \<and> 0 \<le> pm_srflxRTTEwma m"

lemma stat_ok_new [simp]: "stat_ok (new_stat now)"
  by (simp add: stat_ok_def new_stat_def)

lemma stat_ok_record: "stat_ok st \<Longrightarrow> stat_ok (record_ok ok st)"
  by (simp add: stat_ok_def record_ok_def Let_def)

lemma stat_ok_stat_of: "pm_sound m \<Longrightarrow> stat_ok (stat_of now key m)"
  by (auto simp: stat_of_def pm_sound_def split: option.splits)

lemma pm_sound_sweep:
  assumes "pm_sound m" and "range_order order"
  shows "pm_sound (sweepPathsLocked order now m) \<and> length (pm_paths (sweepPathsLocked order now m)) \<le> pathStatMaxEntries"
  using assms sweep_bound [of m order now] forgotten_gomap_ok [OF forgotten_sweep [of m order now]]
    forgotten_paths [OF forgotten_sweep [of m order now]]
  by (auto simp: pm_sound_def)

lemma pm_sound_put:
  assumes "pm_sound m" and "length (pm_paths m) \<le> pathStatMaxEntries" and "stat_ok st"
  shows "pm_sound (m\<lparr>pm_paths := mput k st (pm_paths m)\<rparr>)"
  using assms length_mput_new [of "pm_paths m" k st] length_mput_old [of "pm_paths m" k _ st]
  by (cases "mget (pm_paths m) k") (auto simp: pm_sound_def gomap)

lemma pm_sound_other [simp]:
  "pm_sound (m\<lparr>pm_tcpStickUntil := s\<rparr>) = pm_sound m" "pm_sound (m\<lparr>pm_globalCand := c\<rparr>) = pm_sound m"
  "pm_sound (m\<lparr>pm_peerUDPEndpoints := f\<rparr>) = pm_sound m"
  by (simp_all add: pm_sound_def)

lemma pm_sound_new: "pm_sound (NewPathManagerFromRelay r)"
  by (auto simp: pm_sound_def NewPathManagerFromRelay_def NewPathManager_def Let_def gomap split: option.splits)

lemma pm_sound_decide:
  assumes "pm_sound m" and "range_order order"
  shows "pm_sound (snd (decide_on order hints nodes clk key dual quic allow force m))"
proof -
  let ?m = "sweepPathsLocked order (clk 0) m"
  let ?st = "(stat_of (clk 0) key ?m)\<lparr>ps_lastAttempt := clk 0, ps_lastTouch := clk 0\<rparr>"
  have s: "pm_sound ?m" "length (pm_paths ?m) \<le> pathStatMaxEntries" using pm_sound_sweep [OF assms] by auto
  have "stat_ok ?st" using stat_ok_stat_of [OF s(1)] by (simp add: stat_ok_def)
  from pm_sound_put [OF s this] show ?thesis
    unfolding decide_on_def Let_def by (simp split: option.splits)
qed

lemma pm_sound_record:
  assumes "pm_sound m" and "range_order order"
  shows "pm_sound (the (Record order now key ok c t (Some m)))"
proof -
  let ?m = "sweepPathsLocked order now m"
  have s: "pm_sound ?m" "length (pm_paths ?m) \<le> pathStatMaxEntries" using pm_sound_sweep [OF assms] by auto
  have "stat_ok ((record_ok ok ((stat_of now key ?m)\<lparr>ps_lastTouch := now\<rparr>))\<lparr>ps_lastRelay := c, ps_lastTTL := t\<rparr>)"
    using stat_ok_record [of "(stat_of now key ?m)\<lparr>ps_lastTouch := now\<rparr>" ok] stat_ok_stat_of [OF s(1)]
    by (simp add: stat_ok_def)
  from pm_sound_put [OF s this] show ?thesis by (auto simp: Record_def Let_def pm_sound_def)
qed

lemma pm_sound_srflx: "pm_sound m \<Longrightarrow> pm_sound (the (SetSrflxRTT d (Some m)))"
  by (auto simp: SetSrflxRTT_def pm_sound_def Let_def fops millisecond_def go_div_nonneg
      intro!: fl.nonneg add_nonneg_nonneg mult_nonneg_nonneg)

text \<open>What a running manager can reach, from the options of its profile.\<close>

inductive pm_reach ::
  "((string, pathStat) gomap \<Rightarrow> (string, pathStat) gomap) \<Rightarrow> RelayOptions option \<Rightarrow> PathManager \<Rightarrow> bool" for order r where
  pm_new: "pm_reach order r (NewPathManagerFromRelay r)"
| pm_decide: "pm_reach order r m \<Longrightarrow> pm_reach order r (snd (decide_on order hints nodes clk key dual quic allow force m))"
| pm_record: "pm_reach order r m \<Longrightarrow> pm_reach order r (the (Record order now key ok c t (Some m)))"
| pm_candidate: "pm_reach order r m \<Longrightarrow> pm_reach order r (the (SetGlobalCandidate k (Some m)))"
| pm_srflx: "pm_reach order r m \<Longrightarrow> pm_reach order r (the (SetSrflxRTT d (Some m)))"
| pm_resolver: "pm_reach order r m \<Longrightarrow> pm_reach order r (the (SetPeerUDPEndpointsResolver f (Some m)))"

lemma pm_reach_sound: "pm_reach order r m \<Longrightarrow> range_order order \<Longrightarrow> pm_sound m"
proof (induction rule: pm_reach.induct)
  case pm_new show ?case by (rule pm_sound_new)
next
  case pm_decide then show ?case by (intro pm_sound_decide) auto
next
  case pm_record then show ?case by (intro pm_sound_record) auto
next
  case pm_candidate then show ?case by (simp add: SetGlobalCandidate_def)
next
  case pm_srflx then show ?case by (intro pm_sound_srflx) auto
next
  case pm_resolver then show ?case by (simp add: SetPeerUDPEndpointsResolver_def)
qed
section \<open>Peer routes are usable\<close>

definition usable_addr :: "string \<Rightarrow> bool" where
  "usable_addr a \<longleftrightarrow> a \<noteq> [] \<and> trim_space a = a"

lemma dedupe_from_spec:
  "(\<forall>a \<in> set (dedupe_from seen ss). usable_addr a \<and> to_lower a \<notin> set seen) \<and>
   distinct (map to_lower (dedupe_from seen ss))"
proof (induction ss arbitrary: seen)
  case (Cons s ss)
  show ?case using Cons.IH [of seen] Cons.IH [of "to_lower (trim_space s) # seen"]
    by (auto simp: Let_def usable_addr_def)
qed simp

lemma dedupe_usable: "a \<in> set (dedupeEndpoints l) \<Longrightarrow> usable_addr a"
  using dedupe_from_spec [of "[]" l] by (simp add: dedupeEndpoints_def)

lemma dedupe_distinct: "distinct (map to_lower (dedupeEndpoints l))"
  using dedupe_from_spec [of "[]" l] by (simp add: dedupeEndpoints_def)

definition addr_ok :: "string \<Rightarrow> bool" where
  "addr_ok a \<longleftrightarrow> a = [] \<or> usable_addr a"

lemma addr_ok_Nil [simp]: "addr_ok []"
  by (simp add: addr_ok_def)

lemma addr_ok_first: "addr_ok (if dedupeEndpoints l \<noteq> [] then hd (dedupeEndpoints l) else [])"
  by (auto simp: addr_ok_def intro: dedupe_usable hd_in_set)

lemma hd_dedupe: "dedupeEndpoints l \<noteq> [] \<Longrightarrow> addr_ok (hd (dedupeEndpoints l))"
  by (auto simp: addr_ok_def intro: dedupe_usable hd_in_set)

lemma node_cands_udp: "addr_ok (pc_udpAddr c) \<Longrightarrow> addr_ok (pc_udpAddr (node_cands eps useUDP n c))"
  by (simp add: node_cands_def Let_def hd_dedupe)

lemma pick_nodes_udp:
  "addr_ok (pc_udpAddr c) \<Longrightarrow> addr_ok (pc_udpAddr (pick_nodes eps useUDP limit maxAge now ns c))"
  by (induction ns arbitrary: c) (simp_all add: Let_def node_cands_udp)

definition routes_ok :: "int \<Rightarrow> peer_routes \<Rightarrow> bool" where
  "routes_ok limit r \<longleftrightarrow>
     (\<forall>a \<in> {pr_tcpAddr r, pr_quicAddr r, pr_udpAddr r}. addr_ok a) \<and>
     (\<forall>l \<in> {pr_tcpCands r, pr_quicCands r, pr_udpEnds r}. list_all usable_addr l \<and> distinct (map to_lower l) \<and> int (length l) \<le> limit)"

lemma routes_take:
  "list_all usable_addr (take n (dedupeEndpoints l))" "distinct (map to_lower (take n (dedupeEndpoints l)))"
proof -
  show "list_all usable_addr (take n (dedupeEndpoints l))"
    unfolding list_all_iff using dedupe_usable in_set_takeD by fast
  show "distinct (map to_lower (take n (dedupeEndpoints l)))"
    unfolding take_map [symmetric] by (rule distinct_take [OF dedupe_distinct])
qed

lemma pickPeerRoutes_ok:
  assumes "1 \<le> limit"
  shows "routes_ok limit (pickPeerRoutes hints nodes eps useUDP limit maxAge now)"
proof -
  have len: "int (length (take (nat limit) (dedupeEndpoints l))) \<le> limit" for l
    using assms by simp
  have udp: "addr_ok (if dedupeEndpoints l \<noteq> [] then hd (dedupeEndpoints l)
      else pc_udpAddr (pick_nodes eps useUDP limit maxAge now nodes \<lparr>pc_tcp = t, pc_quic = [], pc_udp = [], pc_udpAddr = []\<rparr>))" for l t
    by (simp add: hd_dedupe pick_nodes_udp)
  have l: "(if limit \<le> 0 then 1 else limit) = limit" using assms by simp
  show ?thesis
    unfolding routes_ok_def pickPeerRoutes_def Let_def l peer_routes.simps ball_simps bex_simps
    by (simp only: ball_empty ball_simps simp_thms addr_ok_first udp routes_take len)
qed

lemma peer_limit_bounds: "1 \<le> peer_limit m st \<and> peer_limit m st \<le> 3"
  by (auto simp: peer_limit_def Let_def)

definition peer_decision_ok :: "PathManager \<Rightarrow> bool \<Rightarrow> bool \<Rightarrow> PathDecision \<Rightarrow> bool" where
  "peer_decision_ok m allow force d \<longleftrightarrow>
     pd_RelayClass d = PathClassPeer \<and> allow \<and> pm_peerDial m \<and>
     (force \<or> pm_globalCand m = CandidateSrflx \<or> pm_globalCand m = CandidateRelay) \<and>
     1 \<le> pd_MaxPeerHops d \<and> pd_MaxPeerHops d \<le> 3 \<and> uint (pd_PathTTL d) = pd_MaxPeerHops d \<and>
     (pm_maxPeerHops m > 0 \<longrightarrow> pd_MaxPeerHops d \<le> pm_maxPeerHops m) \<and>
     (\<forall>a \<in> {pd_PeerAddr d, pd_PeerQUIC d, pd_PeerUDP d}. addr_ok a) \<and>
     (\<forall>l \<in> {pd_PeerTCPCandidates d, pd_PeerQUICCandidates d, pd_PeerUDPCandidates d}.
        list_all usable_addr l \<and> distinct (map to_lower l) \<and> int (length l) \<le> pd_MaxPeerHops d) \<and>
     (\<not> pm_peerRelayUseTCP m \<longrightarrow> pd_PeerAddr d = [] \<and> pd_PeerTCPCandidates d = []) \<and>
     (\<not> pm_peerRelayUseQuic m \<longrightarrow> pd_PeerQUIC d = [] \<and> pd_PeerQUICCandidates d = []) \<and>
     (\<not> pm_peerRelayUseUDP m \<longrightarrow> pd_PeerUDP d = [] \<and> pd_PeerUDPCandidates d = []) \<and>
     (\<not> pd_PreferTCP d \<longrightarrow> pd_PeerQUIC d \<noteq> [])"

lemma try_peer_ok:
  assumes "try_peer hints nodes now m st allow force = Some d"
  shows "peer_decision_ok m allow force d"
proof -
  let ?l = "peer_limit m st"
  have l: "1 \<le> ?l" "?l \<le> 3" using peer_limit_bounds by auto
  have cap: "pm_maxPeerHops m > 0 \<longrightarrow> ?l \<le> pm_maxPeerHops m" by (auto simp: peer_limit_def Let_def)
  have ttl: "uint (word_of_int ?l :: byte) = ?l" using l by (simp add: uint_word_of_int_eq take_bit_int_eq_self)
  have r: "routes_ok ?l (pickPeerRoutes hints nodes (pm_peerUDPEndpoints m) (pm_peerRelayUseUDP m) ?l (pm_peerMaxAge m) now)"
    using l(1) by (rule pickPeerRoutes_ok)
  from assms r l cap ttl show ?thesis
    unfolding try_peer_def Let_def peer_decision_ok_def routes_ok_def by (clarsimp split: if_splits)
qed
section \<open>Runs of outcomes\<close>

definition stick_of :: "string \<Rightarrow> PathManager \<Rightarrow> instant option" where
  "stick_of key m = (case pm_tcpStickUntil m of None \<Rightarrow> None | Some s \<Rightarrow> mget s key)"

lemma forgotten_stick: "forgotten m m' \<Longrightarrow> stick_of key m = None \<Longrightarrow> stick_of key m' = None"
  by (induction rule: forgotten.induct) (auto simp: forget_def stick_of_def gomap split: option.splits)

definition outcome :: "bool \<Rightarrow> byte \<Rightarrow> byte \<Rightarrow> instant \<Rightarrow> pathStat \<Rightarrow> pathStat" where
  "outcome ok c p now st = (record_ok ok (st\<lparr>ps_lastTouch := now\<rparr>))\<lparr>ps_lastRelay := c, ps_lastTTL := p\<rparr>"

lemma record_paths:
  "pm_paths (the (Record order now key ok c p (Some m))) =
   mput key (outcome ok c p now (stat_of now key (sweepPathsLocked order now m))) (pm_paths (sweepPathsLocked order now m))"
  by (simp add: Record_def Let_def outcome_def)

lemma record_stick: "stick_of key (the (Record order now key True c p (Some m))) = None"
  by (auto simp: Record_def Let_def stick_of_def gomap split: option.splits)

lemma outcome_touch [simp]: "ps_lastTouch (outcome ok c p now st) = now"
  by (simp add: outcome_def record_ok_def Let_def)

lemma Record_Some: "Record order now key ok c t (Some m) = Some (the (Record order now key ok c t (Some m)))"
  by (simp add: Record_def)

text \<open>Times that follow one another closely enough for nothing to expire.\<close>

fun closely :: "instant \<Rightarrow> instant list \<Rightarrow> bool" where
  "closely t [] = True"
| "closely t (u # us) = (t \<le> u \<and> u - t \<le> pathStatTTL \<and> closely u us)"

text \<open>
  \<open>Q n\<close> is what is known of a path after \<open>n\<close> equal outcomes in a row, whatever it was before.
\<close>

locale outcome_run =
  fixes ok :: bool and Q :: "nat \<Rightarrow> pathStat \<Rightarrow> bool"
  assumes first: "stat_ok st \<Longrightarrow> Q 1 (outcome ok c p now st)"
    and next_one: "Q n st \<Longrightarrow> Q (Suc n) (outcome ok c p now st)"
begin

definition run_at :: "string \<Rightarrow> nat \<Rightarrow> instant \<Rightarrow> PathManager \<Rightarrow> bool" where
  "run_at key n t m \<longleftrightarrow> pm_sound m \<and> length (pm_paths m) \<le> pathStatMaxEntries \<and> (ok \<longrightarrow> stick_of key m = None) \<and>
     (\<exists>st. mget (pm_paths m) key = Some st \<and> Q n st \<and> ps_lastTouch st = t)"

lemma run_first:
  assumes "pm_sound m" and "range_order order" and "length (pm_paths m) < pathStatMaxEntries"
  shows "run_at key 1 t (the (Record order t key ok c p (Some m)))"
proof -
  let ?s = "sweepPathsLocked order t m"
  have len: "length (pm_paths ?s) < pathStatMaxEntries"
    using forgotten_length [OF forgotten_sweep [of m order t]] assms(3) by simp
  have st: "stat_ok (stat_of t key ?s)" using stat_ok_stat_of pm_sound_sweep [OF assms(1,2)] by blast
  have "length (mput key x (pm_paths ?s)) \<le> pathStatMaxEntries" for x
    using len length_mput_new [of "pm_paths ?s" key x] length_mput_old [of "pm_paths ?s" key _ x]
    by (cases "mget (pm_paths ?s) key") auto
  then show ?thesis using first [OF st] pm_sound_record [OF assms(1,2)]
    by (auto simp: run_at_def record_paths gomap record_stick)
qed

lemma run_swept:
  assumes "run_at key n t m" and "range_order order" and "zero_time < t" and "u - t \<le> pathStatTTL"
  obtains st where "mget (pm_paths (sweepPathsLocked order u m)) key = Some st" and "Q n st" and "ps_lastTouch st = t"
proof -
  obtain st where st: "mget (pm_paths m) key = Some st" "Q n st" "ps_lastTouch st = t"
    using assms(1) by (auto simp: run_at_def)
  have "\<not> expired (u - pathStatTTL) st" using st(3) assms(3,4) by (simp add: expired_def touched_def)
  from sweep_keeps [OF _ assms(2) _ st(1) this] have "mget (pm_paths (sweepPathsLocked order u m)) key = Some st"
    using assms(1) by (simp add: run_at_def pm_sound_def)
  then show ?thesis using st(2,3) that by blast
qed

lemma run_next:
  assumes "run_at key n t m" and "range_order order" and "zero_time < t" and "u - t \<le> pathStatTTL"
  shows "run_at key (Suc n) u (the (Record order u key ok c p (Some m)))"
proof -
  let ?s = "sweepPathsLocked order u m"
  obtain st where st: "mget (pm_paths ?s) key = Some st" "Q n st" "ps_lastTouch st = t"
    using run_swept [OF assms] .
  have m: "pm_sound m" using assms(1) by (simp add: run_at_def)
  have "length (mput key x (pm_paths ?s)) \<le> pathStatMaxEntries" for x
    using pm_sound_sweep [OF m assms(2), of u] length_mput_old [OF st(1)] by simp
  then show ?thesis using st next_one [OF st(2)] pm_sound_record [OF m assms(2)]
    by (auto simp: run_at_def record_paths gomap stat_of_def record_stick)
qed

lemma run_fold:
  assumes "range_order order"
  shows "run_at key n t m \<Longrightarrow> zero_time < t \<Longrightarrow> closely t (us @ [v]) \<Longrightarrow>
    \<exists>m'. fold (\<lambda>u. Record order u key ok c p) us (Some m) = Some m' \<and> run_at key (n + length us) (last (t # us)) m' \<and>
      zero_time < last (t # us) \<and> v - last (t # us) \<le> pathStatTTL \<and> settings m' = settings m"
proof (induction us arbitrary: t n m)
  case (Cons u us)
  let ?m = "the (Record order u key ok c p (Some m))"
  have a: "run_at key (Suc n) u ?m" using run_next [OF Cons.prems(1) assms Cons.prems(2)] Cons.prems(3) by simp
  have b: "zero_time < u" "closely u (us @ [v])" using Cons.prems by auto
  have g: "settings ?m = settings m" using forgotten_settings [OF forgotten_sweep [of m order u]]
    by (simp add: Record_def Let_def settings_def)
  show ?case using Cons.IH [OF a b] g Record_Some [of order u key ok c p m] by simp
qed simp

text \<open>After the whole run the path is known when the next decision is made.\<close>

lemma run_decided:
  assumes "pm_sound m" and "range_order order" and "length (pm_paths m) < pathStatMaxEntries"
    and "zero_time < t" and "closely t (us @ [v])"
  obtains m' st where "fold (\<lambda>u. Record order u key ok c p) (t # us) (Some m) = Some m'"
    and "mget (pm_paths (sweepPathsLocked order v m')) key = Some st" and "Q (length (t # us)) st"
    and "settings m' = settings m" and "pm_sound m'" and "ok \<Longrightarrow> stick_of key (sweepPathsLocked order v m') = None"
proof -
  let ?m = "the (Record order t key ok c p (Some m))"
  have s: "settings ?m = settings m" using forgotten_settings [OF forgotten_sweep [of m order t]]
    by (simp add: Record_def Let_def settings_def)
  obtain m2 where f: "fold (\<lambda>u. Record order u key ok c p) us (Some ?m) = Some m2" and
    r: "run_at key (1 + length us) (last (t # us)) m2" and z: "zero_time < last (t # us)" and
    l: "v - last (t # us) \<le> pathStatTTL" and g: "settings m2 = settings ?m"
    using run_fold [OF assms(2) run_first [OF assms(1,2,3)] assms(4,5)] by blast
  obtain st where st: "mget (pm_paths (sweepPathsLocked order v m2)) key = Some st" "Q (1 + length us) st"
    using run_swept [OF r assms(2) z l] by blast
  have k: "ok \<longrightarrow> stick_of key m2 = None" using r by (simp add: run_at_def)
  show ?thesis
  proof (rule that [of m2 st])
    show "ok \<Longrightarrow> stick_of key (sweepPathsLocked order v m2) = None"
      using k forgotten_stick [OF forgotten_sweep] by blast
  qed (use f r st g s Record_Some [of order t key ok c p m] in \<open>auto simp: run_at_def\<close>)
qed

end

text \<open>The average after a success, from below.\<close>

definition grow :: "rat \<Rightarrow> rat" where
  "grow e = (let x = fadd (fmul (fl64 (17 / 20)) e) (fl64 (3 / 20)) in if x > 1 then 1 else x)"

lemma grow_mono: "a \<le> b \<Longrightarrow> grow a \<le> grow b"
proof -
  assume "a \<le> b"
  then have "fadd (fmul (fl64 (17 / 20)) a) (fl64 (3 / 20)) \<le> fadd (fmul (fl64 (17 / 20)) b) (fl64 (3 / 20))"
    unfolding fops by (intro fl64_mono add_right_mono mult_left_mono fl64_nonneg) auto
  then show ?thesis by (simp add: grow_def Let_def)
qed

interpretation failures: outcome_run False "\<lambda>n st. int n \<le> ps_failStreak st"
  by unfold_locales (auto simp: outcome_def record_ok_def Let_def stat_ok_def)

interpretation successes: outcome_run True
  "\<lambda>n st. 0 \<le> ps_ewmaOK st \<and> ps_ewmaOK st \<le> 1 \<and> ps_failStreak st = 0 \<and> (grow ^^ n) 0 \<le> ps_ewmaOK st"
proof
  have g: "ps_ewmaOK (outcome True c p now st) = grow (ps_ewmaOK st)" "ps_failStreak (outcome True c p now st) = 0"
    "0 \<le> grow (ps_ewmaOK st)" "grow (ps_ewmaOK st) \<le> 1"
    if "0 \<le> ps_ewmaOK st" for c p now st
  proof -
    have nn: "0 \<le> fadd (fmul (fl64 (17 / 20)) (ps_ewmaOK st)) (fl64 (3 / 20))"
      unfolding fops using that by (intro fl64_nonneg add_nonneg_nonneg mult_nonneg_nonneg) auto
    then show "ps_ewmaOK (outcome True c p now st) = grow (ps_ewmaOK st)" "ps_failStreak (outcome True c p now st) = 0"
      "0 \<le> grow (ps_ewmaOK st)" "grow (ps_ewmaOK st) \<le> 1"
      by (auto simp: outcome_def record_ok_def Let_def grow_def)
  qed
  fix st :: pathStat and c p :: byte and now and n
  show "stat_ok st \<Longrightarrow> 0 \<le> ps_ewmaOK (outcome True c p now st) \<and> ps_ewmaOK (outcome True c p now st) \<le> 1 \<and>
    ps_failStreak (outcome True c p now st) = 0 \<and> (grow ^^ 1) 0 \<le> ps_ewmaOK (outcome True c p now st)"
    by (simp add: stat_ok_def g grow_mono)
  show "0 \<le> ps_ewmaOK st \<and> ps_ewmaOK st \<le> 1 \<and> ps_failStreak st = 0 \<and> (grow ^^ n) 0 \<le> ps_ewmaOK st \<Longrightarrow>
    0 \<le> ps_ewmaOK (outcome True c p now st) \<and> ps_ewmaOK (outcome True c p now st) \<le> 1 \<and>
    ps_failStreak (outcome True c p now st) = 0 \<and> (grow ^^ Suc n) 0 \<le> ps_ewmaOK (outcome True c p now st)"
    by (simp add: g grow_mono)
qed

section \<open>Properties\<close>

lemma weight_bounds: "fl64 (18 / 25) \<le> path_weight k"
  by (cases k) (auto simp: path_weight_def intro!: fl64_mono fl.at_most_1)

lemma latency_bounds: "fl64 (18 / 25) \<le> srflxLatencyFactor m"
  using fl.at_most_1 [of "18 / 25"] by (auto simp: srflxLatencyFactor_def Let_def)

text \<open>The average after a run of successes, from below, in units of \<open>2 ^ -20\<close>.\<close>

lemma grow_lower:
  assumes "0 \<le> k" and "k < 2 ^ 20" and "of_int k / 2 ^ 20 \<le> e"
  shows "of_int (891289 * k div 2 ^ 20 + 157286) / 2 ^ 20 \<le> grow e"
proof -
  let ?d = "891289 * k div 2 ^ 20"
  have d: "0 \<le> ?d" "?d * 2 ^ 20 \<le> 891289 * k" using assms(1) by (auto simp: pos_imp_zdiv_nonneg_iff)
  have "x \<le> 891289" if "x * 2 ^ 20 \<le> 891289 * j" "j < 2 ^ 20" for x j :: int using that by simp
  from this [OF d(2) assms(2)] have d2: "?d \<le> 891289" .
  have a: "of_int 891289 / 2 ^ 20 \<le> fl64 (17 / 20)" by (rule fl64_lower) simp_all
  have b: "of_int 157286 / 2 ^ 20 \<le> fl64 (3 / 20)" by (rule fl64_lower) simp_all
  have e: "0 \<le> e" using assms by (auto intro: order_trans [rotated])
  have "of_int ?d / 2 ^ 20 \<le> (of_int 891289 / 2 ^ 20) * (of_int k / 2 ^ 20 :: rat)"
  proof -
    have "of_int (?d * 2 ^ 20) \<le> (of_int (891289 * k) :: rat)" using d(2) by (simp only: of_int_le_iff)
    then show ?thesis by (simp add: field_simps)
  qed
  also have "\<dots> \<le> fl64 (17 / 20) * e" using a assms e by (intro mult_mono) auto
  finally have m: "of_int ?d / 2 ^ 20 \<le> fmul (fl64 (17 / 20)) e"
    unfolding fmul_def using d d2 by (intro fl64_lower) auto
  have "of_int (?d + 157286) / 2 ^ 20 \<le> fmul (fl64 (17 / 20)) e + fl64 (3 / 20)" using m b by (simp add: add_divide_distrib)
  then have "of_int (?d + 157286) / 2 ^ 20 \<le> fadd (fmul (fl64 (17 / 20)) e) (fl64 (3 / 20))"
    unfolding fadd_def using d d2 by (intro fl64_lower) auto
  moreover have "of_int (?d + 157286) / 2 ^ 20 \<le> (1 :: rat)" using d2 by simp
  ultimately show ?thesis by (simp add: grow_def Let_def)
qed

lemma nine_grow: "of_int 805702 / 2 ^ 20 \<le> (grow ^^ 9) 0"
proof -
  have s0: "of_int 0 / 2 ^ 20 \<le> (0 :: rat)" by simp
  have s1: "of_int 157286 / 2 ^ 20 \<le> grow 0" using grow_lower [OF _ _ s0] by simp
  have s2: "of_int 290979 / 2 ^ 20 \<le> grow (grow 0)" using grow_lower [OF _ _ s1] by simp
  have s3: "of_int 404617 / 2 ^ 20 \<le> grow (grow (grow 0))" using grow_lower [OF _ _ s2] by simp
  have s4: "of_int 501210 / 2 ^ 20 \<le> grow (grow (grow (grow 0)))" using grow_lower [OF _ _ s3] by simp
  have s5: "of_int 583314 / 2 ^ 20 \<le> grow (grow (grow (grow (grow 0))))" using grow_lower [OF _ _ s4] by simp
  have s6: "of_int 653102 / 2 ^ 20 \<le> grow (grow (grow (grow (grow (grow 0)))))" using grow_lower [OF _ _ s5] by simp
  have s7: "of_int 712422 / 2 ^ 20 \<le> grow (grow (grow (grow (grow (grow (grow 0))))))" using grow_lower [OF _ _ s6] by simp
  have s8: "of_int 762844 / 2 ^ 20 \<le> grow (grow (grow (grow (grow (grow (grow (grow 0)))))))" using grow_lower [OF _ _ s7] by simp
  have s9: "of_int 805702 / 2 ^ 20 \<le> grow (grow (grow (grow (grow (grow (grow (grow (grow 0))))))))" using grow_lower [OF _ _ s8] by simp
  show ?thesis using s9 by (simp add: eval_nat_numeral)
qed

lemma grow_funpow_le: "n \<le> k \<Longrightarrow> (grow ^^ n) 0 \<le> (grow ^^ k) 0"
proof -
  have z: "0 \<le> grow 0" using grow_lower [of 0 0] by simp
  have step: "(grow ^^ j) 0 \<le> (grow ^^ Suc j) 0" for j
    by (induction j) (auto simp: z intro: grow_mono)
  show "n \<le> k \<Longrightarrow> (grow ^^ n) 0 \<le> (grow ^^ k) 0"
    using lift_Suc_mono_le [of "\<lambda>j. (grow ^^ j) 0" n k] step by blast
qed

lemma eff_ok_lower:
  assumes "(grow ^^ 9) 0 \<le> ps_ewmaOK st"
  shows "fl64 (19 / 50) \<le> eff_ok m st"
proof -
  let ?w = "if pm_globalCand m \<noteq> CandidateUnknown then path_weight (pm_globalCand m) else 1"
  let ?c = "of_int 754974 / 2 ^ 20 :: rat"
  have c: "?c \<le> fl64 (18 / 25)" by (rule fl64_lower) simp_all
  have w: "?c \<le> ?w" using c weight_bounds [of "pm_globalCand m"] by auto
  have l: "?c \<le> srflxLatencyFactor m" using c latency_bounds [of m] by linarith
  have e: "of_int 805702 / 2 ^ 20 \<le> ps_ewmaOK st" using nine_grow assms by linarith
  have "of_int 580104 / 2 ^ 20 \<le> (of_int 805702 / 2 ^ 20) * ?c" by simp
  also have "\<dots> \<le> ps_ewmaOK st * ?w" using e w by (intro mult_mono) auto
  finally have 1: "of_int 580104 / 2 ^ 20 \<le> fmul (ps_ewmaOK st) ?w" unfolding fmul_def by (intro fl64_lower) auto
  have "of_int 417000 / 2 ^ 20 \<le> (of_int 580104 / 2 ^ 20) * ?c" by simp
  also have "\<dots> \<le> fmul (ps_ewmaOK st) ?w * srflxLatencyFactor m" using 1 l by (intro mult_mono) auto
  finally have 2: "of_int 417000 / 2 ^ 20 \<le> fmul (fmul (ps_ewmaOK st) ?w) (srflxLatencyFactor m)"
    unfolding fmul_def [of "fmul _ _"] by (intro fl64_lower) auto
  have u: "fl64 (19 / 50) \<le> of_int 417000 / 2 ^ 20" by (rule fl64_upper) simp_all
  have "(of_int 417000 / 2 ^ 20 :: rat) \<le> 1" by simp
  then show ?thesis using 2 u by (auto simp: eff_ok_def Let_def)
qed


text \<open>
  Recovery: nine successes in a row bring any destination back to plain QUIC, whatever it went through before,
  whatever the candidate and the latency; a peer path is then taken only when it is forced.
\<close>

theorem path_recovers:
  assumes "pm_reach order r m" and "range_order order" and "length (pm_paths m) < pathStatMaxEntries"
    and "zero_time < t" and "closely t (us @ [clk 0])" and "9 \<le> length (t # us)"
  shows "fst (Decide order hints nodes clk key True True allow False
      (fold (\<lambda>u. Record order u key True c p) (t # us) (Some m))) = direct_path"
proof -
  obtain m2 st where f: "fold (\<lambda>u. Record order u key True c p) (t # us) (Some m) = Some m2"
    and st: "mget (pm_paths (sweepPathsLocked order (clk 0) m2)) key = Some st"
    and q: "ps_failStreak st = 0" "(grow ^^ length (t # us)) 0 \<le> ps_ewmaOK st"
    and k: "stick_of key (sweepPathsLocked order (clk 0) m2) = None"
    using successes.run_decided [OF pm_reach_sound [OF assms(1,2)] assms(2-5)] by blast
  let ?st = "st\<lparr>ps_lastAttempt := clk 0, ps_lastTouch := clk 0\<rparr>"
  have e: "(grow ^^ 9) 0 \<le> ps_ewmaOK ?st" using q(2) grow_funpow_le [OF assms(6)] by simp
  have up: "\<not> eff_ok m2 ?st < fl64 (19 / 50)" for m2 using eff_ok_lower [OF e] by (simp only: not_less)
  have "fl64 (7 / 20) \<le> fl64 (19 / 50)" by (rule fl64_mono) simp
  then have up2: "\<not> eff_ok m2 ?st < fl64 (7 / 20)" for m2 using eff_ok_lower [OF e] by (simp only: not_less) (rule order_trans)
  have "fl64 (21 / 50) \<le> of_int 805702 / 2 ^ 20" by (rule fl64_upper) simp_all
  then have h: "fl64 (21 / 50) \<le> ps_ewmaOK ?st" using e nine_grow by linarith
  have np: "try_peer hints nodes now m' ?st allow False = None" for now m'
    using h q(1) by (simp add: try_peer_def)
  have ns: "\<not> sticks v key (sweepPathsLocked order (clk 0) m2\<lparr>pm_paths := x\<rparr>)" for v x
    using k by (auto simp: sticks_def stick_of_def split: option.splits)
  show ?thesis
    unfolding f Decide_def decide_on_def Let_def stat_of_def st option.case case_prod_beta np
    using q(1) by (simp add: up up2 ns)
qed
text \<open>
  The memory of the paths, at any time: never more than 4097 destinations; every average stays between 0 and 1
  and every run of failures is a count; and while there is room nothing is forgotten within its half hour.
\<close>

theorem path_memory_sound:
  assumes "pm_reach order r m" and "range_order order"
  shows "length (pm_paths m) \<le> 4097 \<and> gomap_ok (pm_paths m) \<and> 0 \<le> SrflxRTTEwmaMs (Some m) \<and>
    (\<forall>k st. mget (pm_paths m) k = Some st \<longrightarrow>
       0 \<le> ps_ewmaOK st \<and> ps_ewmaOK st \<le> 1 \<and> 0 \<le> ps_failStreak st \<and>
       (length (pm_paths m) \<le> 4096 \<and> zero_time < ps_lastTouch st \<and> now - ps_lastTouch st \<le> 30 * minute \<longrightarrow>
        mget (pm_paths (the (Record order now key ok c p (Some m)))) k \<noteq> None))"
proof -
  have s: "pm_sound m" by (rule pm_reach_sound [OF assms])
  have keep: "mget (pm_paths (the (Record order now key ok c p (Some m)))) k \<noteq> None"
    if "mget (pm_paths m) k = Some st" "length (pm_paths m) \<le> 4096" "zero_time < ps_lastTouch st"
      "now - ps_lastTouch st \<le> 30 * minute" for k st
  proof -
    have "\<not> expired (now - pathStatTTL) st" using that(3,4) by (simp add: expired_def touched_def pathStatTTL_def)
    from sweep_keeps [OF _ assms(2) _ that(1) this] show ?thesis
      using s that(2) by (simp add: pm_sound_def pathStatMaxEntries_def record_paths gomap)
  qed
  show ?thesis using s keep by (auto simp: pm_sound_def pathStatMaxEntries_def stat_ok_def SrflxRTTEwmaMs_def)
qed

text \<open>
  What a decision may be: a path through peers only where the profile and the caller allow it, with the reflexive
  or relayed candidate it needs unless forced, at most three hops, usable addresses of the enabled transports only, and
  QUIC only with an address to dial; otherwise the direct path, by TCP when QUIC is not available.
\<close>

theorem path_decision_sound:
  "let d = fst (Decide order hints nodes clk key dual quic allow force (Some m)) in
    peer_decision_ok m allow force d \<or>
    d = direct_path\<lparr>pd_PreferTCP := pd_PreferTCP d\<rparr> \<and> (pd_PreferTCP d \<or> dual \<and> quic)"
proof -
  let ?s = "sweepPathsLocked order (clk 0) m"
  have pe: "peer_decision_ok m allow force d'"
    if "try_peer hints nodes now (?s\<lparr>pm_paths := x\<rparr>) st allow force = Some d'" for now x st d'
    using try_peer_ok [OF that] by (simp add: peer_decision_ok_def)
  have "pd_PreferTCP direct_path = False" by (simp add: direct_path_def)
  then show ?thesis
    unfolding Decide_def decide_on_def Let_def by (auto split: option.splits dest: pe)
qed

definition quic_peer :: RelayNode where
  "quic_peer = \<lparr>rn_ID = ''p'', rn_Endpoints = [], rn_Class = ''peer'', rn_UpdatedAt = 0, rn_Srflx = [], rn_Turn = [],
     rn_Stake = 0, rn_Region = [], rn_Quic = ''10.0.0.1:443'', rn_DhtRPC = []\<rparr>"

definition no_address :: "PathDecision \<Rightarrow> bool" where
  "no_address d \<longleftrightarrow> pd_PeerAddr d = [] \<and> pd_PeerQUIC d = [] \<and> pd_PeerUDP d = [] \<and>
     pd_PeerTCPCandidates d = [] \<and> pd_PeerQUICCandidates d = [] \<and> pd_PeerUDPCandidates d = []"

lemma quic_peer_routes:
  "pickPeerRoutes [] [quic_peer] None u limit 0 now =
    \<lparr>pr_tcpAddr = [], pr_quicAddr = ''10.0.0.1:443'', pr_udpAddr = [], pr_udpEnds = [], pr_tcpCands = [],
     pr_quicCands = take (nat (if limit \<le> 0 then 1 else limit)) [''10.0.0.1:443'']\<rparr>"
proof -
  have c: "equal_fold (trim_space (rn_Class quic_peer)) ''peer''" by code_simp
  have t: "trim_space ''10.0.0.1:443'' = ''10.0.0.1:443''" by code_simp
  have n: "node_cands None u quic_peer \<lparr>pc_tcp = [], pc_quic = [], pc_udp = [], pc_udpAddr = []\<rparr> =
      \<lparr>pc_tcp = [], pc_quic = [''10.0.0.1:443''], pc_udp = [], pc_udpAddr = []\<rparr>"
    by (simp add: node_cands_def node_tcp_def quic_peer_def add_trimmed_def t dedupeEndpoints_def Let_def)
  show ?thesis by (simp add: pickPeerRoutes_def Let_def c n dedupeEndpoints_def t)
qed

lemma quic_peer_decision:
  assumes "pm_peerDial m" and "\<not> pm_peerRelayUseQuic m" and "pm_peerMaxAge m = 0" and "pm_peerUDPEndpoints m = None"
  obtains d where "try_peer [] [quic_peer] now m st True True = Some d" and "pd_RelayClass d = PathClassPeer" and "no_address d"
  using assms by (simp add: try_peer_def Let_def quic_peer_routes no_address_def)

text \<open>
  The check that a peer was found comes before the transports that are turned off are struck out: with QUIC off,
  and a peer known by its QUIC address alone, the decision is a path through a peer without any address.
\<close>

theorem peer_path_without_address:
  assumes "pm_peerDial m" and "\<not> pm_peerRelayUseQuic m" and "pm_peerMaxAge m = 0" and "pm_peerUDPEndpoints m = None"
  shows "let d = fst (Decide order [] [quic_peer] clk key dual quic True True (Some m)) in
    pd_RelayClass d = PathClassPeer \<and> no_address d"
proof -
  let ?m = "\<lambda>x. (sweepPathsLocked order (clk 0) m)\<lparr>pm_paths := x\<rparr>"
  obtain f where f: "try_peer [] [quic_peer] now (?m x) st True True = Some (f now x st)"
    "pd_RelayClass (f now x st) = PathClassPeer" "no_address (f now x st)" for now x st
  proof -
    have "\<exists>d. try_peer [] [quic_peer] now (?m x) st True True = Some d \<and> pd_RelayClass d = PathClassPeer \<and> no_address d" for now x st
      by (rule quic_peer_decision [of "?m x" now st]) (use assms in auto)
    then show thesis using that [of "\<lambda>now x st. the (try_peer [] [quic_peer] now (?m x) st True True)"] by (metis option.sel)
  qed
  show ?thesis using f(2,3) by (simp add: Decide_def decide_on_def Let_def case_prod_beta f(1))
qed

section \<open>Concrete managers\<close>

lemma order_id: "range_order (\<lambda>m. m)"
  by (simp add: range_order_def)

definition demo_times :: "instant list" where
  "demo_times = map (\<lambda>i. int i * minute) [1..<10]"


lemma path_recovers_witness:
  "fst (Decide (\<lambda>m. m) [] [] (\<lambda>_. 10 * minute) ''10.0.0.1'' True True True False
     (fold (\<lambda>u. Record (\<lambda>m. m) u ''10.0.0.1'' True 1 1) (minute # tl demo_times)
        (Record (\<lambda>m. m) 0 ''10.0.0.1'' False 1 1 (Some (NewPathManagerFromRelay None))))) = direct_path"
proof -
  let ?m = "the (Record (\<lambda>m. m) 0 ''10.0.0.1'' False 1 1 (Some (NewPathManagerFromRelay None)))"
  have r: "pm_reach (\<lambda>m. m) None ?m" by (intro pm_record pm_new)
  have l: "length (pm_paths ?m) < pathStatMaxEntries"
    by (simp add: record_paths sweepPathsLocked_def NewPathManagerFromRelay_def NewPathManager_def mput_def pathStatMaxEntries_def)
  have c: "closely minute (tl demo_times @ [10 * minute])" by code_simp
  show ?thesis using path_recovers [OF r order_id l _ , of minute "tl demo_times" "\<lambda>_. 10 * minute" "[]" "[]" "''10.0.0.1''" True 1 1] c
    by (simp add: Record_Some [symmetric] duration_units zero_time_def demo_times_def)
qed

lemma path_memory_sound_witness:
  "length (pm_paths (the (Record (\<lambda>m. m) 5 ''10.0.0.1'' False 1 1 (Some (NewPathManagerFromRelay None))))) \<le> 4097"
  using path_memory_sound [OF pm_record [OF pm_new] order_id] by blast

lemma peer_path_without_address_witness:
  "let d = fst (Decide (\<lambda>m. m) [] [quic_peer] (\<lambda>_. 0) ''10.0.0.1'' True True True True
         (Some (NewPathManager\<lparr>pm_peerDial := True, pm_peerRelayUseUDP := True\<rparr>))) in
   pd_RelayClass d = PathClassPeer \<and> no_address d"
  by (rule peer_path_without_address) (simp_all add: NewPathManager_def)

end
