(* ===== verification/RouteHops.thy ===== *)
theory RouteHops
  imports PathManager GoUrl Preamble
begin

text \<open>
  Routes of the tunnel: the plan of hops and its text form, \<^verbatim>\<open>internal/tunnel/route_hops.go\<close> and
  \<^verbatim>\<open>relay_prot.go\<close>; and the options a connection sends on each kind of route, \<^verbatim>\<open>preamble.go\<close>.
  \<open>live\<close> holds the process-wide values the code keeps in \<^verbatim>\<open>atomic.Value\<close>s; randomness is an
  \<open>entropy\<close>; SHA-256, HMAC and JSON are arguments.
\<close>

section \<open>Live settings\<close>

record live =
  lv_activeVolterServer :: "string option"
  lv_routeMode :: "string option"
  lv_clusterPreferredServer :: "string option"
  lv_clusterPeerTCP :: "string list"

definition live_zero :: live where
  "live_zero = \<lparr>lv_activeVolterServer = None, lv_routeMode = None, lv_clusterPreferredServer = None, lv_clusterPeerTCP = []\<rparr>"

definition text_of :: "string option \<Rightarrow> string" where
  "text_of v = (case v of None \<Rightarrow> [] | Some s \<Rightarrow> s)"

definition ClearActiveVolterServer :: "live \<Rightarrow> live" where
  "ClearActiveVolterServer l = l\<lparr>lv_activeVolterServer := Some []\<rparr>"

definition setActiveVolterServerAddr :: "string \<Rightarrow> live \<Rightarrow> live" where
  "setActiveVolterServerAddr addr l =
     (let addr = trim_space addr in if addr = [] then l else l\<lparr>lv_activeVolterServer := Some addr\<rparr>)"

definition ActiveVolterServer :: "live \<Rightarrow> string" where
  "ActiveVolterServer l = text_of (lv_activeVolterServer l)"

definition SetLiveRouteMode :: "string \<Rightarrow> live \<Rightarrow> live" where
  "SetLiveRouteMode mode l =
     (let mode = to_lower (trim_space mode) in
      if mode = [] then l\<lparr>lv_routeMode := Some [], lv_clusterPreferredServer := Some []\<rparr>
      else let l = l\<lparr>lv_routeMode := Some mode\<rparr> in
        if mode \<noteq> ''server_relay'' then l\<lparr>lv_clusterPreferredServer := Some []\<rparr> else l)"

definition ClearLiveRouteMode :: "live \<Rightarrow> live" where
  "ClearLiveRouteMode l = l\<lparr>lv_routeMode := Some [], lv_clusterPreferredServer := Some []\<rparr>"

definition liveRouteModeValue :: "live \<Rightarrow> string" where
  "liveRouteModeValue l = trim_space (text_of (lv_routeMode l))"

definition SetLiveClusterPreferredServer :: "string \<Rightarrow> live \<Rightarrow> live" where
  "SetLiveClusterPreferredServer server l = l\<lparr>lv_clusterPreferredServer := Some (trim_space server)\<rparr>"

definition LiveClusterPreferredServerValue :: "live \<Rightarrow> string" where
  "LiveClusterPreferredServerValue l = trim_space (text_of (lv_clusterPreferredServer l))"

definition SetGlobalClusterPeerTCPHints :: "string list \<Rightarrow> live \<Rightarrow> live" where
  "SetGlobalClusterPeerTCPHints h l = l\<lparr>lv_clusterPeerTCP := h\<rparr>"

definition GlobalClusterPeerTCPHintCount :: "live \<Rightarrow> nat" where
  "GlobalClusterPeerTCPHintCount l = length (lv_clusterPeerTCP l)"

section \<open>The plan\<close>

record RouteHop =
  rh_Kind :: string
  rh_Addr :: string

record RoutePlan =
  rp_Target :: string
  rp_Hops :: "RouteHop list"

definition EncodeRouteHops :: "RoutePlan \<Rightarrow> string list" where
  "EncodeRouteHops plan =
     map (\<lambda>h. trim_space (rh_Kind h) @ '':'' @ trim_space (rh_Addr h))
       (filter (\<lambda>h. trim_space (rh_Kind h) \<noteq> [] \<and> trim_space (rh_Addr h) \<noteq> []) (rp_Hops plan))"

definition ParseRouteHop :: "string \<Rightarrow> (string \<times> string) option" where
  "ParseRouteHop raw =
     (let raw = trim_space raw in
      if raw = [] then None
      else case index_byte raw (CHR '':'') of
        None \<Rightarrow> None
      | Some i \<Rightarrow> if i = 0 \<or> i \<ge> length raw - 1 then None else Some (take i raw, drop (i + 1) raw))"

definition NextRelayHop :: "string list \<Rightarrow> int \<Rightarrow> (string \<times> string) option" where
  "NextRelayHop hops hopIndex =
     (if hopIndex < 1 \<or> length hops = 0 then None
      else if hopIndex \<ge> int (length hops) then None
      else ParseRouteHop (hops ! nat hopIndex))"

definition AttachRouteHops :: "RoutePlan \<Rightarrow> ProtectionOptions option \<Rightarrow> ProtectionOptions option" where
  "AttachRouteHops plan = map_option (\<lambda>cp.
     let hops = EncodeRouteHops plan in cp
       \<lparr>po_RelayRouteHops := hops,
        po_RelayMaxHop := (if po_RelayMaxHop cp \<le> 0 \<and> length hops > 0 then int (length hops) else po_RelayMaxHop cp),
        po_RoutePlannerV2 :=
          (if \<not> po_RoutePlannerV2 cp \<and> trim_space (po_RouteID cp) = [] \<and> length hops > 1 then True else po_RoutePlannerV2 cp)\<rparr>)"

definition add_hop :: "string \<Rightarrow> string \<Rightarrow> RouteHop list \<Rightarrow> RouteHop list" where
  "add_hop kind addr hops =
     (let addr = trim_space addr in if addr = [] then hops else hops @ [\<lparr>rh_Kind = kind, rh_Addr = addr\<rparr>])"

definition nth_text :: "string list \<Rightarrow> nat \<Rightarrow> string" where
  "nth_text l i = (if i < length l then l ! i else [])"

fun cand_hops :: "PathDecision \<Rightarrow> int \<Rightarrow> nat \<Rightarrow> string list \<Rightarrow> RouteHop list \<Rightarrow> RouteHop list" where
  "cand_hops d maxHops i [] hops = hops"
| "cand_hops d maxHops i (addr # as) hops =
     (if int (length hops) \<ge> maxHops then hops
      else cand_hops d maxHops (Suc i) as
        (if addr \<noteq> [] then add_hop ''peer_tcp'' addr hops
         else if nth_text (pd_PeerQUICCandidates d) i \<noteq> [] then add_hop ''peer_quic'' (nth_text (pd_PeerQUICCandidates d) i) hops
         else if nth_text (pd_PeerUDPCandidates d) i \<noteq> [] then add_hop ''peer_udp'' (nth_text (pd_PeerUDPCandidates d) i) hops
         else hops))"

definition BuildRoutePlan :: "string \<Rightarrow> string \<Rightarrow> PathDecision \<Rightarrow> RoutePlan" where
  "BuildRoutePlan target serverAddr decision =
     (let serverAddr = trim_space serverAddr;
          maxHops = (if pd_MaxPeerHops decision \<le> 0 then 1 else pd_MaxPeerHops decision);
          hops = cand_hops decision maxHops 0 (pd_PeerTCPCandidates decision) [];
          hops = (if length hops = 0 then
                    let hops = (if trim_space (pd_PeerQUIC decision) \<noteq> [] then add_hop ''peer_quic'' (pd_PeerQUIC decision) hops else hops);
                        hops = (if int (length hops) < maxHops \<and> trim_space (pd_PeerUDP decision) \<noteq> []
                                then add_hop ''peer_udp'' (pd_PeerUDP decision) hops else hops)
                    in (if int (length hops) < maxHops \<and> trim_space (pd_PeerAddr decision) \<noteq> []
                        then add_hop ''peer_tcp'' (pd_PeerAddr decision) hops else hops)
                  else hops);
          hops = (if length hops = 0 \<and> serverAddr \<noteq> [] then
                    if pd_RelayClass decision = PathClassServer then add_hop ''server_relay'' serverAddr hops
                    else add_hop ''direct_server'' serverAddr hops
                  else hops)
      in \<lparr>rp_Target = trim_space target, rp_Hops = take (nat maxHops) hops\<rparr>)"

definition relayHopLimitExceeded :: "ProtectionOptions option \<Rightarrow> bool" where
  "relayHopLimitExceeded opts =
     (case opts of
        None \<Rightarrow> True
      | Some o' \<Rightarrow> po_RelayHop o' > (if po_RelayMaxHop o' \<le> 0 then 2 else po_RelayMaxHop o'))"

definition relayHopLimitReason :: "ProtectionOptions \<Rightarrow> string" where
  "relayHopLimitReason opts =
     ''relay hop limit exceeded ('' @ itoa (po_RelayHop opts) @ ''>'' @ itoa (po_RelayMaxHop opts) @ '')''"

definition firstServerAddr :: "live \<Rightarrow> string list \<Rightarrow> string" where
  "firstServerAddr l addrs =
     (case filter (\<lambda>a. a \<noteq> []) (map trim_space addrs) of
        a # _ \<Rightarrow> a
      | [] \<Rightarrow> trim_space (ActiveVolterServer l))"

definition hopServerAddrs :: "live \<Rightarrow> string \<Rightarrow> string list \<Rightarrow> string list" where
  "hopServerAddrs l addr fallbacks =
     (let addr = trim_space addr in
      if addr \<noteq> [] \<and> split_host_port addr \<noteq> None then [addr]
      else let s = firstServerAddr l fallbacks in if s \<noteq> [] then [s] else [])"

section \<open>Options of a route\<close>

text \<open>The hop and the limit on hops, where they are not set.\<close>

definition default_hops :: "ProtectionOptions \<Rightarrow> ProtectionOptions" where
  "default_hops cp = cp
     \<lparr>po_RelayHop := nonpos_or (po_RelayHop cp) 1, po_RelayMaxHop := nonpos_or (po_RelayMaxHop cp) 2\<rparr>"

text \<open>The budget of the relay profile, where the options have none.\<close>

definition relay_budget :: "RelayOptions option \<Rightarrow> ProtectionOptions \<Rightarrow> ProtectionOptions" where
  "relay_budget relay cp = cp\<lparr>po_RelayBudgetKbps :=
     (case relay of
        None \<Rightarrow> po_RelayBudgetKbps cp
      | Some r \<Rightarrow> if ro_BudgetKbps r > 0 \<and> po_RelayBudgetKbps cp \<le> 0 then ro_BudgetKbps r else po_RelayBudgetKbps cp)\<rparr>"

text \<open>\<open>nonce\<close> are the twelve random bytes, \<open>None\<close> when the generator fails.\<close>

definition relay_credentials ::
  "(bytes \<Rightarrow> bytes) \<Rightarrow> (bytes \<Rightarrow> bytes \<Rightarrow> bytes) \<Rightarrow> bytes option \<Rightarrow> string \<Rightarrow> ProtectionOptions \<Rightarrow> ProtectionOptions" where
  "relay_credentials sha256 hmac nonce token cp =
     (let n = (if po_RelayNonce cp = [] then (case nonce of Some rb \<Rightarrow> b64_raw_url_encode rb | None \<Rightarrow> []) else po_RelayNonce cp);
          i = (if po_PeerID cp = [] then ''p-'' @ b64_raw_url_encode (take 6 (sha256 (str_bytes token))) else po_PeerID cp);
          sg = (if po_RelaySig cp = [] then b64_raw_url_encode (hmac (str_bytes token) (str_bytes (i @ ''|'' @ n)))
                else po_RelaySig cp)
      in cp\<lparr>po_RelayNonce := n, po_PeerID := i, po_RelaySig := sg\<rparr>)"

definition relayOptsForHandshake ::
  "(bytes \<Rightarrow> bytes) \<Rightarrow> (bytes \<Rightarrow> bytes \<Rightarrow> bytes) \<Rightarrow> bytes option \<Rightarrow> string \<Rightarrow> ProtectionOptions option \<Rightarrow> ProtectionOptions option" where
  "relayOptsForHandshake sha256 hmac nonce token = map_option (\<lambda>cp.
     if trim_space (po_ClusterPreferredServer cp) \<noteq> [] then
       cp\<lparr>po_PeerID := [], po_RelayNonce := [], po_RelaySig := []\<rparr>
     else if \<not> (po_RelayHop cp > 0 \<or> po_RelayMaxHop cp > 0 \<or> trim_space (po_PeerID cp) \<noteq> []) then cp
     else relay_credentials sha256 hmac nonce token (default_hops cp))"

definition ProtForRelayForward ::
  "(bytes \<Rightarrow> bytes) \<Rightarrow> (bytes \<Rightarrow> bytes \<Rightarrow> bytes) \<Rightarrow> bytes option \<Rightarrow> string \<Rightarrow> ProtectionOptions option \<Rightarrow> ProtectionOptions option" where
  "ProtForRelayForward sha256 hmac nonce token base =
     Option.bind base (\<lambda>cp.
       relayOptsForHandshake sha256 hmac nonce token (Some (cp
         \<lparr>po_RelayHop := wrap64 (nonpos_or (po_RelayHop cp) 1 + 1), po_HopIndex := wrap64 (po_HopIndex cp + 1),
          po_RelayMaxHop := nonpos_or (po_RelayMaxHop cp) 2\<rparr>)))"

definition RelayProtForPeerHop :: "ProtectionOptions option \<Rightarrow> RelayOptions option \<Rightarrow> ProtectionOptions option" where
  "RelayProtForPeerHop base relay =
     (if relay = None \<and> base = None then None
      else
        let cp = (case base of None \<Rightarrow> po_zero | Some b \<Rightarrow> b);
            cp = cp\<lparr>po_PeerID := (case relay of
                    None \<Rightarrow> po_PeerID cp
                  | Some r \<Rightarrow> if trim_space (ro_PeerID r) \<noteq> [] then trim_space (ro_PeerID r) else po_PeerID cp)\<rparr>;
            cp = default_hops (relay_budget relay cp)
        in Some (cp\<lparr>po_HopIndex := (if po_RoutePlannerV2 cp then nonpos_or (po_HopIndex cp) (po_RelayHop cp) else po_HopIndex cp)\<rparr>))"

definition enrichSessionOptions :: "(bytes \<Rightarrow> bytes) \<Rightarrow> bytes option \<Rightarrow> string \<Rightarrow> ProtectionOptions option \<Rightarrow> ProtectionOptions option" where
  "enrichSessionOptions sha256 rnd token = map_option (\<lambda>p.
     let i = (if trim_space (po_SessionID p) = []
              then (case rnd of Some rb \<Rightarrow> ''s-'' @ hex_encode rb | None \<Rightarrow> po_SessionID p) else po_SessionID p)
     in p\<lparr>po_SessionID := i,
          po_ResumeToken := blank_or (po_ResumeToken p)
            (b64_encode_raw (take 16 (sha256 (str_bytes (trim_space token @ ''|'' @ trim_space i)))))\<rparr>)"

definition routeModeOf :: "live \<Rightarrow> ProtectionOptions option \<Rightarrow> string" where
  "routeModeOf l prot =
     (let m = liveRouteModeValue l in
      if m \<in> {''direct'', ''peer_relay'', ''server_relay'', ''auto''} then m
      else case prot of
        None \<Rightarrow> ''auto''
      | Some p \<Rightarrow>
        let mode = to_lower (trim_space (po_RouteMode p)) in
        if mode \<in> {''direct'', ''peer_relay'', ''server_relay''} then mode else ''auto'')"

definition protForDirectRoute :: "ProtectionOptions option \<Rightarrow> ProtectionOptions option" where
  "protForDirectRoute = map_option (\<lambda>cp. cp
     \<lparr>po_RelayHop := 0, po_RelayMaxHop := 0, po_PeerID := [], po_RelayNonce := [], po_RelaySig := [],
      po_RoutePlannerV2 := False, po_ClusterPreferredServer := []\<rparr>)"

definition protForServerRelayRoute :: "ProtectionOptions option \<Rightarrow> RelayOptions option \<Rightarrow> ProtectionOptions" where
  "protForServerRelayRoute base relay =
     (let cp = (case base of None \<Rightarrow> po_zero | Some b \<Rightarrow> b);
          exit = (trim_space (po_ClusterPreferredServer cp) \<noteq> []);
          cp = cp\<lparr>po_PeerID := (if exit then [] else po_PeerID cp), po_RelayNonce := (if exit then [] else po_RelayNonce cp),
                  po_RelaySig := (if exit then [] else po_RelaySig cp),
                  po_RoutePlannerV2 := (po_RoutePlannerV2 cp \<and> \<not> exit)\<rparr>
      in relay_budget relay (default_hops cp))"

definition fallbackDialProt :: "ProtectionOptions option \<Rightarrow> RelayOptions option \<Rightarrow> bool \<Rightarrow> bool \<Rightarrow> ProtectionOptions option" where
  "fallbackDialProt dialProt relay clusterExit allowPeerPath =
     (if clusterExit then Some (protForServerRelayRoute dialProt relay)
      else if \<not> allowPeerPath then protForDirectRoute dialProt
      else protForDirectRoute dialProt)"

lemma handshake_fields:
  assumes "relayOptsForHandshake sha256 hmac nonce token (Some p) = Some q"
  shows "po_RelayRouteHops q = po_RelayRouteHops p" and "po_HopIndex q = po_HopIndex p"
    and "0 < po_RelayHop p \<Longrightarrow> 0 < po_RelayMaxHop p \<Longrightarrow> po_RelayHop q = po_RelayHop p \<and> po_RelayMaxHop q = po_RelayMaxHop p"
  using assms unfolding relayOptsForHandshake_def option.map(2) option.inject
  by (auto simp: relay_credentials_def default_hops_def Let_def nonpos_or_def split: if_splits)

lemma forward_fields:
  assumes "ProtForRelayForward sha256 hmac nonce token (Some p) = Some q"
  shows "po_RelayRouteHops q = po_RelayRouteHops p" and "po_HopIndex q = wrap64 (po_HopIndex p + 1)"
    and "0 < po_RelayHop p \<Longrightarrow> po_RelayHop p < 2 ^ 63 - 1 \<Longrightarrow> 0 < po_RelayMaxHop p \<Longrightarrow>
      po_RelayHop q = po_RelayHop p + 1 \<and> po_RelayMaxHop q = po_RelayMaxHop p"
  using assms handshake_fields unfolding ProtForRelayForward_def Option.bind.simps
  by (fastforce simp: nonpos_or_def wrap64_id)+

section \<open>A plan and its text\<close>

lemma trim_rev_then:
  assumes "trim_rev a = a" and "a \<noteq> []" and "plain_char c"
  shows "trim_rev (a @ c # r) = a @ c # r"
proof -
  have le: "length (trim_rev x) \<le> length x" for x by (rule suffix_length_le [OF trim_rev_suffix])
  have m: "\<not> sp3 x c y" for x y using assms(3) by (auto simp: plain_char_def sp3_def Let_def)
  show ?thesis
  proof (cases a rule: trim_rev.cases)
    case (2 x)
    then show ?thesis using assms(1,3) m by (cases r) (auto split: if_splits)
  next
    case (3 x y)
    have "\<not> sp1 x" using assms(1) le[of "[y]"] unfolding 3 by (auto split: if_splits)
    moreover have "\<not> sp2 y x" using assms(1) unfolding 3 by (auto split: if_splits)
    ultimately show ?thesis using 3 assms(3) by simp
  next
    case (4 x y z t)
    have "\<not> sp1 x \<and> \<not> sp2 y x \<and> \<not> sp3 z y x"
    proof (rule ccontr)
      assume h: "\<not> (\<not> sp1 x \<and> \<not> sp2 y x \<and> \<not> sp3 z y x)"
      have "length (trim_rev a) < length a"
        using h le [of "y # z # t"] le [of "z # t"] le [of t] unfolding 4 by auto
      with assms(1) show False by simp
    qed
    then show ?thesis using 4 by simp
  qed (use assms(2) in simp)
qed

text \<open>A hop of a plan: a plain kind without a colon, and a trimmed address.\<close>

definition hop_kind :: "string \<Rightarrow> bool" where
  "hop_kind k \<longleftrightarrow> k \<noteq> [] \<and> list_all plain_char k \<and> CHR '':'' \<notin> set k"

definition hop_ok :: "RouteHop \<Rightarrow> bool" where
  "hop_ok h \<longleftrightarrow> hop_kind (rh_Kind h) \<and> rh_Addr h \<noteq> [] \<and> trim_space (rh_Addr h) = rh_Addr h"

definition hop_text :: "RouteHop \<Rightarrow> string" where
  "hop_text h = rh_Kind h @ '':'' @ rh_Addr h"

lemma ParseRouteHop_text:
  assumes "hop_ok h"
  shows "ParseRouteHop (hop_text h) = Some (rh_Kind h, rh_Addr h)"
proof -
  have k: "rh_Kind h \<noteq> []" "list_all plain_char (rh_Kind h)" "CHR '':'' \<notin> set (rh_Kind h)"
    and a: "rh_Addr h \<noteq> []" "trim_space (rh_Addr h) = rh_Addr h" using assms by (auto simp: hop_ok_def hop_kind_def)
  have "suffix (trim_left (rh_Addr h)) (rh_Addr h)" by (rule trim_left_suffix)
  moreover have "length (rh_Addr h) \<le> length (trim_left (rh_Addr h))"
    using suffix_length_le [OF trim_rev_suffix, of "rev (trim_left (rh_Addr h))"]
      arg_cong [OF a(2), of length] by (simp add: trim_space_def)
  ultimately have l: "trim_left (rh_Addr h) = rh_Addr h" by (metis suffix_length_suffix suffix_order.antisym suffix_order.refl)
  have r: "trim_rev (rev (rh_Addr h)) = rev (rh_Addr h)"
    using a(2) unfolding trim_space_def l by (metis rev_rev_ident)
  have "trim_rev (rev (rh_Addr h) @ CHR '':'' # rev (rh_Kind h)) = rev (rh_Addr h) @ CHR '':'' # rev (rh_Kind h)"
    by (rule trim_rev_then [OF r]) (simp_all add: a plain_char_def)
  moreover have "trim_left (hop_text h) = hop_text h"
    by (rule trim_left_plain) (use k in \<open>auto simp: hop_text_def list_all_iff hd_append\<close>)
  ultimately have t: "trim_space (hop_text h) = hop_text h" by (simp add: trim_space_def hop_text_def)
  have i: "index_byte (hop_text h) (CHR '':'') = Some (length (rh_Kind h))"
    using index_byte_append [OF k(3)] by (simp add: hop_text_def)
  have "hop_text h \<noteq> []" using k(1) by (simp add: hop_text_def)
  then show ?thesis using k(1) a(1) i t by (simp add: ParseRouteHop_def Let_def) (simp add: hop_text_def)
qed

lemma hop_kinds [simp]:
  "hop_kind ''peer_tcp''" "hop_kind ''peer_quic''" "hop_kind ''peer_udp''" "hop_kind ''server_relay''" "hop_kind ''direct_server''"
  by code_simp+

lemma add_hop_ok: "list_all hop_ok hops \<Longrightarrow> hop_kind k \<Longrightarrow> list_all hop_ok (add_hop k a hops)"
  by (simp add: add_hop_def Let_def hop_ok_def)

lemma cand_hops_ok: "list_all hop_ok hops \<Longrightarrow> list_all hop_ok (cand_hops d m i as hops)"
proof (induction as arbitrary: i hops)
  case (Cons a as)
  have "list_all hop_ok
      (if a \<noteq> [] then add_hop ''peer_tcp'' a hops
       else if x \<noteq> [] then add_hop ''peer_quic'' x hops else if y \<noteq> [] then add_hop ''peer_udp'' y hops else hops)" for x y
    by (simp only: add_hop_ok [OF Cons.prems] hop_kinds Cons.prems split: if_split) simp
  then show ?case unfolding cand_hops.simps using Cons.IH Cons.prems by (simp only: split: if_split) blast
qed (simp only: cand_hops.simps)

lemma if_ok: "(b \<Longrightarrow> list_all P x) \<Longrightarrow> list_all P y \<Longrightarrow> list_all P (if b then x else y)"
  by simp

lemma nil_ok: "list_all P []"
  by simp

lemma take_ok: "list_all P xs \<Longrightarrow> list_all P (take n xs)"
  by (auto simp: list_all_iff dest: in_set_takeD)

lemma BuildRoutePlan_ok: "list_all hop_ok (rp_Hops (BuildRoutePlan target server d))"
  unfolding BuildRoutePlan_def Let_def RoutePlan.simps
  by (intro take_ok if_ok add_hop_ok cand_hops_ok hop_kinds nil_ok)

lemma BuildRoutePlan_length: "int (length (rp_Hops (BuildRoutePlan target server d))) \<le> max 1 (pd_MaxPeerHops d)"
proof -
  have t: "int (length (take (nat (if m \<le> 0 then 1 else m)) hs)) \<le> max 1 m" for m and hs :: "RouteHop list"
    by auto
  show ?thesis unfolding BuildRoutePlan_def Let_def RoutePlan.simps by (rule t)
qed

lemma EncodeRouteHops_ok:
  assumes "list_all hop_ok (rp_Hops plan)"
  shows "EncodeRouteHops plan = map hop_text (rp_Hops plan)"
proof -
  have "trim_space (rh_Kind h) = rh_Kind h" if "hop_ok h" for h
    using that by (simp add: hop_ok_def hop_kind_def trim_space_plain)
  then show ?thesis using assms
    by (auto simp: EncodeRouteHops_def list_all_iff hop_text_def hop_ok_def hop_kind_def intro!: map_cong filter_True)
qed

text \<open>
  The options a client dials the first hop of a plan with (\<^verbatim>\<open>DialTunFlow\<close>).
\<close>

definition first_hop_opts :: "RoutePlan \<Rightarrow> RelayOptions option \<Rightarrow> ProtectionOptions option \<Rightarrow> ProtectionOptions option" where
  "first_hop_opts plan relay dialProt =
     map_option (\<lambda>protR. protR\<lparr>po_HopIndex := nonpos_or (po_HopIndex protR) 1\<rparr>)
       (RelayProtForPeerHop (AttachRouteHops plan dialProt) relay)"

lemma first_hop_fields:
  assumes "po_RelayHop p \<le> 1" and "po_HopIndex p \<le> 1" and "rp_Hops plan \<noteq> []" and "list_all hop_ok (rp_Hops plan)"
  obtains q where "first_hop_opts plan relay (Some p) = Some q"
    and "po_RelayRouteHops q = map hop_text (rp_Hops plan)" and "po_HopIndex q = 1" and "po_RelayHop q = 1"
    and "po_RelayMaxHop q = (if po_RelayMaxHop p \<le> 0 then int (length (rp_Hops plan)) else po_RelayMaxHop p)"
    and "po_RelaySig q = po_RelaySig p" and "po_ClusterPreferredServer q = po_ClusterPreferredServer p"
proof -
  have e: "EncodeRouteHops plan = map hop_text (rp_Hops plan)" by (rule EncodeRouteHops_ok [OF assms(4)])
  obtain q where q: "first_hop_opts plan relay (Some p) = Some q" 
    by (simp add: first_hop_opts_def RelayProtForPeerHop_def AttachRouteHops_def Let_def)
  moreover from q assms(1-3) have "po_RelayRouteHops q = map hop_text (rp_Hops plan)" "po_HopIndex q = 1" "po_RelayHop q = 1"
    "po_RelayMaxHop q = (if po_RelayMaxHop p \<le> 0 then int (length (rp_Hops plan)) else po_RelayMaxHop p)"
    "po_RelaySig q = po_RelaySig p" "po_ClusterPreferredServer q = po_ClusterPreferredServer p"
    by (auto simp: first_hop_opts_def RelayProtForPeerHop_def AttachRouteHops_def e Let_def default_hops_def relay_budget_def nonpos_or_def)
  ultimately show thesis by (rule that)
qed

end
