(* ===== verification/PeerRelay.thy ===== *)
theory PeerRelay
  imports RouteHops PeerFrame Interfaces
begin

text \<open>
  The relay a peer runs for others: \<^verbatim>\<open>internal/tunnel/peer_udp_listener.go\<close> (sessions over UDP, who is
  admitted, nonces seen), \<^verbatim>\<open>peer_relay_forward.go\<close> (where a connection goes next) and the dispatch of
  \<^verbatim>\<open>peer_socket.go\<close>. \<open>relay_ev\<close> is the step relation of the relay: the goroutines of its sessions
  interleave at the points where they take the lock or use a channel, which is where the steps are cut.
  A session is named by its number in the order of creation; \<open>panic\<close> is a send on a closed channel.
\<close>

section \<open>The relay and its sessions\<close>

definition peerRelayHopHardLimit :: int where "peerRelayHopHardLimit = 2"
definition peerRelayReplayTTL :: duration where "peerRelayReplayTTL = 90 * second"

definition session_queue_cap :: nat where "session_queue_cap = 256"

record peerUDPState =
  us_asm :: Assembler
  us_sess :: "nat option"

record peerUDPSession =
  se_key :: string
  se_in :: "bytes list"
  se_in_closed :: bool
  se_done :: bool
  se_readBuf :: bytes
  se_readOff :: nat

record PeerUDPRelay =
  pr_token :: string
  pr_budgetKbps :: int
  pr_slots :: nat
  pr_taken :: nat
  pr_peers :: "(string, peerUDPState) gomap"
  pr_sessions :: "peerUDPSession list"
  pr_relayReplay :: "(string, int) gomap"

definition ListenPeerRelayUDP :: "bool \<Rightarrow> string \<Rightarrow> string \<Rightarrow> int \<Rightarrow> int \<Rightarrow> go_error + PeerUDPRelay" where
  "ListenPeerRelayUDP own_socket addr token maxConcurrent budgetKbps =
     (if own_socket \<and> addr = [] then Inl (Error ''peer udp: empty listen addr'')
      else if token = [] then Inl (Error ''peer udp: empty token'')
      else Inr \<lparr>pr_token = token, pr_budgetKbps = budgetKbps, pr_slots = nat (nonpos_or maxConcurrent 32),
        pr_taken = 0, pr_peers = [], pr_sessions = [], pr_relayReplay = []\<rparr>)"

datatype dispatched = Waiting | Dropped | Started nat | Queued nat | QueueFull nat | SendOnClosed

definition dispatch :: "string \<Rightarrow> bytes \<Rightarrow> PeerUDPRelay \<Rightarrow> dispatched \<times> PeerUDPRelay" where
  "dispatch key pkt r =
     (let st = (case mget (pr_peers r) key of Some st \<Rightarrow> st | None \<Rightarrow> \<lparr>us_asm = asm_reset, us_sess = None\<rparr>);
          (m, asm) = Feed (us_asm st) pkt;
          st = st\<lparr>us_asm := asm\<rparr>;
          r = r\<lparr>pr_peers := mput key st (pr_peers r)\<rparr>
      in case m of
        None \<Rightarrow>
          (Waiting, if us_sess st = None \<and> \<not> InProgress asm then r\<lparr>pr_peers := mdel key (pr_peers r)\<rparr> else r)
      | Some msg \<Rightarrow>
        (case us_sess st of
           None \<Rightarrow>
             if pr_taken r < pr_slots r then
               let s = \<lparr>se_key = key, se_in = [], se_in_closed = False, se_done = False, se_readBuf = msg, se_readOff = 0\<rparr>;
                   n = length (pr_sessions r)
               in (Started n, r\<lparr>pr_taken := pr_taken r + 1, pr_sessions := pr_sessions r @ [s],
                                pr_peers := mput key (st\<lparr>us_sess := Some n\<rparr>) (pr_peers r)\<rparr>)
             else (Dropped, r\<lparr>pr_peers := mdel key (pr_peers r)\<rparr>)
         | Some n \<Rightarrow>
             let s = pr_sessions r ! n in
             if se_in_closed s then (SendOnClosed, r)
             else if length (se_in s) < session_queue_cap then
               (Queued n, r\<lparr>pr_sessions := (pr_sessions r)[n := s\<lparr>se_in := se_in s @ [msg]\<rparr>]\<rparr>)
             else (QueueFull n, r)))"

text \<open>\<open>Close\<close> first closes the session's done channel, then takes the relay's lock.\<close>

definition close_done :: "nat \<Rightarrow> PeerUDPRelay \<Rightarrow> PeerUDPRelay" where
  "close_done n r = r\<lparr>pr_sessions := (pr_sessions r)[n := (pr_sessions r ! n)\<lparr>se_done := True\<rparr>]\<rparr>"

definition close_locked :: "nat \<Rightarrow> PeerUDPRelay \<Rightarrow> PeerUDPRelay" where
  "close_locked n r =
     (let s = pr_sessions r ! n in
      case mget (pr_peers r) (se_key s) of
        None \<Rightarrow> r
      | Some st \<Rightarrow>
        if us_sess st = Some n then
          r\<lparr>pr_peers := mdel (se_key s) (pr_peers r),
            pr_sessions := (pr_sessions r)[n := s\<lparr>se_in_closed := True\<rparr>],
            pr_taken := (if pr_taken r > 0 then pr_taken r - 1 else pr_taken r)\<rparr>
        else r)"

text \<open>
  A read of at most \<open>cap\<close> bytes: what is left of the last message, or the next message; \<open>None\<close> while
  there is neither. The select takes either of a closed \<open>done\<close> and a waiting message (\<open>sel\<close> says which).
\<close>

definition session_take :: "nat \<Rightarrow> peerUDPSession \<Rightarrow> bytes \<times> peerUDPSession" where
  "session_take cap s =
     (let out = take cap (drop (se_readOff s) (se_readBuf s));
          off = se_readOff s + length out
      in (out, if off \<ge> length (se_readBuf s) then s\<lparr>se_readBuf := [], se_readOff := 0\<rparr> else s\<lparr>se_readOff := off\<rparr>))"

definition session_Read :: "bool \<Rightarrow> nat \<Rightarrow> peerUDPSession \<Rightarrow> (go_error + bytes) option \<times> peerUDPSession" where
  "session_Read sel cap s =
     (if se_readOff s < length (se_readBuf s) then let (out, s) = session_take cap s in (Some (Inr out), s)
      else if se_done s \<and> (sel \<or> se_in s = []) then (Some (Inl EOF), s)
      else case se_in s of
        msg # rest \<Rightarrow>
          let s = s\<lparr>se_in := rest, se_readBuf := msg, se_readOff := 0\<rparr> in
          if msg = [] then (None, s) else let (out, s) = session_take cap s in (Some (Inr out), s)
      | [] \<Rightarrow> if se_in_closed s then (Some (Inl EOF), s) else (None, s))"

definition roleTCP :: byte where "roleTCP = 2"
definition roleRelayTCP :: byte where "roleRelayTCP = 3"

section \<open>Who is admitted\<close>

definition hopIndexByte :: "int \<Rightarrow> byte" where
  "hopIndexByte v = (if v < 0 then 0 else if v > 255 then 255 else word_of_int v)"

definition replayKey :: "string \<Rightarrow> string \<Rightarrow> string \<Rightarrow> string" where
  "replayKey raddr peerID nonce = raddr @ [char_of_byte 0] @ peerID @ [char_of_byte 0] @ nonce"

text \<open>\<open>t1\<close> and \<open>t2\<close>: the two readings of the clock.\<close>

definition markRelayNonceFresh :: "instant \<Rightarrow> instant \<Rightarrow> string \<Rightarrow> (string, int) gomap \<Rightarrow> bool \<times> (string, int) gomap" where
  "markRelayNonceFresh t1 t2 key m =
     (let cutoff = unix_milli (t1 - peerRelayReplayTTL);
          m = filter (\<lambda>(k, ts). \<not> ts < cutoff) m
      in if mget m key \<noteq> None then (False, m) else (True, mput key (unix_milli t2) m))"

definition decode_sig :: "string \<Rightarrow> bytes option" where
  "decode_sig s =
     (case b64_raw_url_decode s of Some b \<Rightarrow> Some b | None \<Rightarrow>
      case b64_url_decode s of Some b \<Rightarrow> Some b | None \<Rightarrow>
      case b64_raw_decode s of Some b \<Rightarrow> Some b | None \<Rightarrow> b64_decode s)"

definition allowPeerRelayOptions :: "(bytes \<Rightarrow> bytes \<Rightarrow> bytes) \<Rightarrow> ProtectionOptions option \<Rightarrow> string \<Rightarrow> bool" where
  "allowPeerRelayOptions hmac opts token =
     (case opts of None \<Rightarrow> False | Some o' \<Rightarrow>
        0 < po_RelayHop o'
        \<and> (let maxHop = po_RelayMaxHop o' in
           po_RelayHop o' \<le> (if maxHop \<le> 0 \<or> maxHop > peerRelayHopHardLimit then peerRelayHopHardLimit else maxHop))
        \<and> po_PeerID o' \<noteq> [] \<and> po_RelayNonce o' \<noteq> [] \<and> po_RelaySig o' \<noteq> []
        \<and> decode_sig (po_RelaySig o') = Some (hmac (str_bytes token) (str_bytes (po_PeerID o' @ ''|'' @ po_RelayNonce o'))))"

definition needHopAck :: "ProtectionOptions option \<Rightarrow> bool" where
  "needHopAck prot = (case prot of None \<Rightarrow> False | Some p \<Rightarrow> po_RoutePlannerV2 p \<or> trim_space (po_RouteID p) \<noteq> [])"

definition relay_budget_of :: "int \<Rightarrow> int \<Rightarrow> int" where
  "relay_budget_of asked own = (if own > 0 \<and> (asked \<le> 0 \<or> asked > own) then own else asked)"

definition hop_ack_of :: "ProtectionOptions \<Rightarrow> HopAck" where
  "hop_ack_of o' = \<lparr>ha_RouteID = po_RouteID o', ha_HopIdx = hopIndexByte (po_HopIndex o'), ha_NodeID = po_PeerID o',
     ha_Status = 1, ha_Reason = [], ha_TsMs = 0\<rparr>"

record admitted =
  ad_opts :: ProtectionOptions
  ad_target :: TcpConnect
  ad_ack :: bytes
  ad_budget :: int
  ad_rest :: bytes

text \<open>
  What \<^verbatim>\<open>handleSession\<close> makes of the bytes of a session before it relays: \<open>None\<close> when it closes the session
  without a word. \<open>unmarshal\<close> decodes the options, \<open>raddr\<close> is the sender's address.
\<close>

definition handleSession ::
  "(bytes \<Rightarrow> bytes \<Rightarrow> bytes) \<Rightarrow> (bytes \<Rightarrow> ProtectionOptions option) \<Rightarrow> instant \<Rightarrow> instant \<Rightarrow> string \<Rightarrow> bytes \<Rightarrow>
   PeerUDPRelay \<Rightarrow> admitted option \<times> PeerUDPRelay" where
  "handleSession hmac unmarshal t1 t2 raddr stream r =
     (case ReadHandshakeAfterSkipWithOpts stream of
        Inl e \<Rightarrow> (None, r)
      | Inr ((hs, optsJSON), stream) \<Rightarrow>
        if hs_Token hs \<noteq> pr_token r \<or> hs_Role hs \<noteq> roleRelayTCP then (None, r)
        else case (if length optsJSON > 0 then unmarshal optsJSON else Some po_zero) of
          None \<Rightarrow> (None, r)
        | Some opts \<Rightarrow>
          if \<not> allowPeerRelayOptions hmac (Some opts) (pr_token r) then (None, r)
          else
            let (fresh, replay) = markRelayNonceFresh t1 t2 (replayKey raddr (po_PeerID opts) (po_RelayNonce opts)) (pr_relayReplay r);
                r = r\<lparr>pr_relayReplay := replay\<rparr>
            in if \<not> fresh then (None, r)
            else case ReadTcpConnect stream of
              Inl e \<Rightarrow> (None, r)
            | Inr (tc, stream) \<Rightarrow>
              let ack = (if needHopAck (Some opts) then WriteHopAck (hop_ack_of opts) else wok) in
              if wfailed ack \<noteq> None then (None, r)
              else (Some \<lparr>ad_opts = opts, ad_target = tc, ad_ack = wbytes ack,
                      ad_budget = relay_budget_of (po_RelayBudgetKbps opts) (pr_budgetKbps r), ad_rest = stream\<rparr>, r))"

section \<open>Steps and reachable states\<close>

inductive relay_ev :: "PeerUDPRelay \<Rightarrow> PeerUDPRelay \<Rightarrow> bool" where
  ev_dispatch: "relay_ev r (snd (dispatch key pkt r))"
| ev_close: "n < length (pr_sessions r) \<Longrightarrow> relay_ev r (close_done n r)"
| ev_closed: "n < length (pr_sessions r) \<Longrightarrow> se_done (pr_sessions r ! n) \<Longrightarrow> relay_ev r (close_locked n r)"
| ev_read: "n < length (pr_sessions r) \<Longrightarrow>
    relay_ev r (r\<lparr>pr_sessions := (pr_sessions r)[n := snd (session_Read b cap (pr_sessions r ! n))]\<rparr>)"
| ev_admit: "relay_ev r (snd (handleSession hmac unmarshal t1 t2 raddr stream r))"

inductive relay_reach :: "PeerUDPRelay \<Rightarrow> PeerUDPRelay \<Rightarrow> bool" for r where
  relay_start: "relay_reach r r"
| relay_step: "relay_reach r r' \<Longrightarrow> relay_ev r' r'' \<Longrightarrow> relay_reach r r''"

inductive_cases relay_evE: "relay_ev r r'"

text \<open>How many entries of a map satisfy \<open>P\<close>.\<close>

definition mcount :: "('v \<Rightarrow> bool) \<Rightarrow> ('k, 'v) gomap \<Rightarrow> nat" where
  "mcount P m = length (filter (\<lambda>(k, v). P v) m)"

definition holds_at :: "('v \<Rightarrow> bool) \<Rightarrow> ('k, 'v) gomap \<Rightarrow> 'k \<Rightarrow> bool" where
  "holds_at P m k = (case mget m k of Some v \<Rightarrow> P v | None \<Rightarrow> False)"

lemma holds_at_simps [simp]:
  "mget m k = Some v \<Longrightarrow> holds_at P m k = P v" "mget m k = None \<Longrightarrow> \<not> holds_at P m k"
  by (simp_all add: holds_at_def)

lemma mcount_Nil [simp]: "mcount P [] = 0"
  by (simp add: mcount_def)

lemma mcount_mput: "mcount P (mput k v m) + of_bool (holds_at P m k) = mcount P m + of_bool (P v)"
  by (induction m) (auto simp: mcount_def mput_def holds_at_def mget_def)

lemma mcount_mdel:
  "gomap_ok m \<Longrightarrow> mcount P (mdel k m) + of_bool (holds_at P m k) = mcount P m"
proof (induction m)
  case (Cons e m)
  obtain a b where e: "e = (a, b)" by (cases e)
  show ?case
  proof (cases "a = k")
    case True
    then have "mget m k = None" using Cons.prems e by (force simp: gomap_ok_def mget_def map_of_eq_None_iff)
    then have "mdel k m = m" by (auto simp: mdel_def mget_None_iff filter_id_conv intro: rev_image_eqI)
    then show ?thesis using True e by (simp add: mdel_def mcount_def holds_at_def mget_def)
  next
    case False
    have "gomap_ok m" using Cons.prems by (simp add: gomap_ok_def)
    with Cons.IH False e show ?thesis by (simp add: mdel_def mcount_def holds_at_def mget_def)
  qed
qed (simp_all add: mdel_def holds_at_def mget_def)

definition in_session :: "peerUDPState \<Rightarrow> bool" where
  "in_session st \<longleftrightarrow> us_sess st \<noteq> None"

definition session_of :: "PeerUDPRelay \<Rightarrow> string \<Rightarrow> nat option" where
  "session_of r k = Option.bind (mget (pr_peers r) k) us_sess"

definition sessions_ok :: "PeerUDPRelay \<Rightarrow> bool" where
  "sessions_ok r \<longleftrightarrow> (\<forall>k n. session_of r k = Some n \<longrightarrow>
     n < length (pr_sessions r) \<and> se_key (pr_sessions r ! n) = k \<and> \<not> se_in_closed (pr_sessions r ! n))"

definition queues_ok :: "PeerUDPRelay \<Rightarrow> bool" where
  "queues_ok r \<longleftrightarrow> list_all (\<lambda>s. length (se_in s) \<le> session_queue_cap) (pr_sessions r)"

definition slots_ok :: "PeerUDPRelay \<Rightarrow> bool" where
  "slots_ok r \<longleftrightarrow> gomap_ok (pr_peers r) \<and> pr_taken r = mcount in_session (pr_peers r) \<and> pr_taken r \<le> pr_slots r"

definition relay_inv :: "PeerUDPRelay \<Rightarrow> bool" where
  "relay_inv r \<longleftrightarrow> slots_ok r \<and> sessions_ok r \<and> queues_ok r"

lemma dispatch_slots:
  assumes "slots_ok r"
  shows "slots_ok (snd (dispatch key pkt r))"
proof -
  let ?st = "case mget (pr_peers r) key of Some st \<Rightarrow> st | None \<Rightarrow> \<lparr>us_asm = asm_reset, us_sess = None\<rparr>"
  obtain m asm where f: "Feed (us_asm ?st) pkt = (m, asm)" by fastforce
  let ?p = "mput key (?st\<lparr>us_asm := asm\<rparr>) (pr_peers r)"
  have g: "gomap_ok (pr_peers r)" and t: "pr_taken r = mcount in_session (pr_peers r)" and l: "pr_taken r \<le> pr_slots r"
    using assms by (simp_all add: slots_ok_def)
  have p: "gomap_ok ?p" by (rule gomap_ok_mput [OF g])
  have h: "holds_at in_session (pr_peers r) key = (us_sess ?st \<noteq> None)"
    by (auto simp: holds_at_def in_session_def split: option.split)
  have c: "mcount in_session ?p = mcount in_session (pr_peers r)"
    using mcount_mput [of in_session key "?st\<lparr>us_asm := asm\<rparr>" "pr_peers r"] h by (simp add: in_session_def)
  have hp: "holds_at in_session ?p key = (us_sess ?st \<noteq> None)" by (simp add: holds_at_def gomap in_session_def)
  have d: "us_sess ?st = None \<Longrightarrow> mcount in_session (mdel key ?p) = mcount in_session ?p"
    using mcount_mdel [OF p, of in_session key] hp by simp
  have s: "us_sess ?st = None \<Longrightarrow> mcount in_session (mput key (?st\<lparr>us_asm := asm, us_sess := Some n\<rparr>) ?p) = mcount in_session ?p + 1" for n
    using mcount_mput [of in_session key "?st\<lparr>us_asm := asm, us_sess := Some n\<rparr>" ?p] hp by (simp add: in_session_def)
  show ?thesis
    unfolding dispatch_def Let_def f prod.case slots_ok_def
    using g p t l c d s by (auto simp: gomap_ok_mput gomap_ok_mdel split: option.split)
qed

lemma session_of_put: "session_of (r\<lparr>pr_peers := mput key st (pr_peers r)\<rparr>) k = (if k = key then us_sess st else session_of r k)"
  by (simp add: session_of_def gomap)

lemma session_of_cong: "pr_peers r = pr_peers r' \<Longrightarrow> session_of r = session_of r'"
  by (rule ext) (simp add: session_of_def)

lemma sessions_okD:
  "sessions_ok r \<Longrightarrow> mget (pr_peers r) k = Some st \<Longrightarrow> us_sess st = Some n \<Longrightarrow>
   n < length (pr_sessions r) \<and> se_key (pr_sessions r ! n) = k \<and> \<not> se_in_closed (pr_sessions r ! n)"
  unfolding sessions_ok_def session_of_def by (metis Option.bind.simps(2))

text \<open>A step that only takes sessions away, or changes one without closing its channel.\<close>

lemma sessions_ok_sub:
  assumes "sessions_ok r" and "\<And>k n. session_of r' k = Some n \<Longrightarrow> session_of r k = Some n"
    and "length (pr_sessions r') = length (pr_sessions r)"
    and "\<And>k n. session_of r' k = Some n \<Longrightarrow> n < length (pr_sessions r) \<Longrightarrow>
      se_key (pr_sessions r' ! n) = se_key (pr_sessions r ! n) \<and> se_in_closed (pr_sessions r' ! n) = se_in_closed (pr_sessions r ! n)"
  shows "sessions_ok r'"
  unfolding sessions_ok_def
proof (intro allI impI)
  fix k n assume h: "session_of r' k = Some n"
  from assms(1,2) h have "n < length (pr_sessions r) \<and> se_key (pr_sessions r ! n) = k \<and> \<not> se_in_closed (pr_sessions r ! n)"
    unfolding sessions_ok_def by blast
  then show "n < length (pr_sessions r') \<and> se_key (pr_sessions r' ! n) = k \<and> \<not> se_in_closed (pr_sessions r' ! n)"
    using assms(3) assms(4) [OF h] by simp
qed

lemma nth_updated: "j < length xs \<Longrightarrow> xs[i := y] ! j = (if i = j then y else xs ! j)"
  by (cases "i = j") simp_all

lemma dispatch_sessions:
  assumes ok: "sessions_ok r"
  shows "sessions_ok (snd (dispatch key pkt r))"
proof -
  define st where "st = (case mget (pr_peers r) key of Some st \<Rightarrow> st | None \<Rightarrow> \<lparr>us_asm = asm_reset, us_sess = None\<rparr>)"
  obtain m asm where f: "Feed (us_asm st) pkt = (m, asm)" by fastforce
  have u: "us_sess st = session_of r key" by (simp add: st_def session_of_def split: option.split)
  note d = dispatch_def Let_def st_def [symmetric] f prod.case
  show ?thesis
  proof (cases m)
    case None
    show ?thesis unfolding d None option.case snd_conv
      by (rule sessions_ok_sub [OF ok]) (auto simp: session_of_def gomap u split: if_splits option.splits)
  next
    case (Some msg)
    show ?thesis
    proof (cases "us_sess st")
      case N: None
      show ?thesis
      proof (cases "pr_taken r < pr_slots r")
        case True
        let ?n = "length (pr_sessions r)"
        let ?s = "\<lparr>se_key = key, se_in = [], se_in_closed = False, se_done = False, se_readBuf = msg, se_readOff = 0\<rparr>"
        have e: "snd (dispatch key pkt r) = r\<lparr>pr_taken := pr_taken r + 1, pr_sessions := pr_sessions r @ [?s],
            pr_peers := mput key (st\<lparr>us_asm := asm, us_sess := Some ?n\<rparr>) (mput key (st\<lparr>us_asm := asm\<rparr>) (pr_peers r))\<rparr>"
          by (simp add: d Some N True)
        have so: "session_of (snd (dispatch key pkt r)) k = (if k = key then Some ?n else session_of r k)" for k
          by (simp add: e session_of_def gomap)
        show ?thesis unfolding sessions_ok_def so
        proof (intro allI impI)
          fix k n assume h: "(if k = key then Some ?n else session_of r k) = Some n"
          show "n < length (pr_sessions (snd (dispatch key pkt r))) \<and> se_key (pr_sessions (snd (dispatch key pkt r)) ! n) = k
              \<and> \<not> se_in_closed (pr_sessions (snd (dispatch key pkt r)) ! n)"
          proof (cases "k = key")
            case True
            then show ?thesis using h by (auto simp: e)
          next
            case False
            then have "n < ?n \<and> se_key (pr_sessions r ! n) = k \<and> \<not> se_in_closed (pr_sessions r ! n)"
              using h ok unfolding sessions_ok_def by simp
            then show ?thesis by (simp add: e nth_append)
          qed
        qed
      next
        case False
        have e: "snd (dispatch key pkt r) = r\<lparr>pr_peers := mdel key (mput key (st\<lparr>us_asm := asm\<rparr>) (pr_peers r))\<rparr>"
          by (simp add: d Some N False)
        show ?thesis unfolding e
          by (rule sessions_ok_sub [OF ok]) (auto simp: session_of_def gomap split: if_splits)
      qed
    next
      case (Some n)
      have same: "session_of (r\<lparr>pr_peers := mput key (st\<lparr>us_asm := asm\<rparr>) (pr_peers r), pr_sessions := ss\<rparr>) = session_of r" for ss
        by (rule ext) (use u in \<open>simp add: session_of_def gomap\<close>)
      have keep: "sessions_ok (r\<lparr>pr_peers := mput key (st\<lparr>us_asm := asm\<rparr>) (pr_peers r), pr_sessions := ss\<rparr>)"
        if "ss = pr_sessions r \<or> (\<exists>m. ss = (pr_sessions r)[n := (pr_sessions r ! n)\<lparr>se_in := m\<rparr>])" for ss
        by (rule sessions_ok_sub [OF ok]) (use that in \<open>auto simp: same nth_updated split: if_splits\<close>)
      have "sessions_ok (r\<lparr>pr_peers := mput key (st\<lparr>us_asm := asm\<rparr>) (pr_peers r)\<rparr>)"
        using keep [of "pr_sessions r"] by simp
      moreover have "sessions_ok (r\<lparr>pr_peers := mput key (st\<lparr>us_asm := asm\<rparr>) (pr_peers r),
          pr_sessions := (pr_sessions r)[n := (pr_sessions r ! n)\<lparr>se_in := m\<rparr>]\<rparr>)" for m
        by (rule keep) blast
      ultimately show ?thesis by (simp add: d \<open>m = Some msg\<close> Some)
    qed
  qed
qed

lemma list_all_update: "list_all P xs \<Longrightarrow> P y \<Longrightarrow> list_all P (xs[n := y])"
  by (auto simp: list_all_iff dest: set_update_subset_insert [THEN subsetD])

lemma dispatch_queues: "queues_ok r \<Longrightarrow> queues_ok (snd (dispatch key pkt r))"
  by (simp add: dispatch_def Let_def queues_ok_def case_prod_beta list_all_update session_queue_cap_def split: option.splits)

lemma close_locked_inv:
  assumes "relay_inv r" and "n < length (pr_sessions r)"
  shows "relay_inv (close_locked n r)"
proof (cases "session_of r (se_key (pr_sessions r ! n)) = Some n")
  case False
  then have "close_locked n r = r"
    by (auto simp: close_locked_def session_of_def Let_def split: option.split)
  then show ?thesis using assms(1) by simp
next
  case True
  let ?s = "pr_sessions r ! n" and ?r = "close_locked n r"
  obtain st where st: "mget (pr_peers r) (se_key ?s) = Some st" "us_sess st = Some n"
    using True by (auto simp: session_of_def split: bind_split_asm)
  have g: "gomap_ok (pr_peers r)" and t: "pr_taken r = mcount in_session (pr_peers r)" and l: "pr_taken r \<le> pr_slots r"
    and ok: "sessions_ok r" and q: "queues_ok r"
    using assms(1) by (simp_all add: relay_inv_def slots_ok_def)
  have "mcount in_session (mdel (se_key ?s) (pr_peers r)) + 1 = mcount in_session (pr_peers r)"
    using mcount_mdel [OF g, of in_session "se_key ?s"] st by (simp add: in_session_def)
  then have "slots_ok ?r" using g t l st
    by (auto simp: slots_ok_def close_locked_def Let_def gomap_ok_mdel)
  moreover have "sessions_ok ?r"
  proof (rule sessions_ok_sub [OF ok])
    fix k m assume h: "session_of ?r k = Some m"
    have k: "k \<noteq> se_key ?s" and m: "session_of r k = Some m"
      using h st by (auto simp: close_locked_def session_of_def Let_def gomap split: if_splits)
    show "session_of r k = Some m" by (rule m)
    have "m \<noteq> n" using k m ok by (auto simp: sessions_ok_def)
    then show "se_key (pr_sessions ?r ! m) = se_key (pr_sessions r ! m) \<and> se_in_closed (pr_sessions ?r ! m) = se_in_closed (pr_sessions r ! m)"
      using st by (simp add: close_locked_def Let_def)
  qed (use st in \<open>simp add: close_locked_def Let_def\<close>)
  moreover have "queues_ok ?r" using q assms(2) st
    by (auto simp: queues_ok_def close_locked_def Let_def list_all_length nth_list_update)
  ultimately show ?thesis by (simp add: relay_inv_def)
qed

text \<open>A step inside one session.\<close>

lemma session_step_inv:
  assumes "relay_inv r" and "n < length (pr_sessions r)"
    and "se_key s = se_key (pr_sessions r ! n)" and "se_in_closed s = se_in_closed (pr_sessions r ! n)"
    and "length (se_in s) \<le> length (se_in (pr_sessions r ! n))"
  shows "relay_inv (r\<lparr>pr_sessions := (pr_sessions r)[n := s]\<rparr>)"
proof -
  let ?r = "r\<lparr>pr_sessions := (pr_sessions r)[n := s]\<rparr>"
  have e: "session_of ?r = session_of r" by (rule session_of_cong) simp
  have "sessions_ok ?r"
    by (rule sessions_ok_sub [where r = r]) (use assms in \<open>auto simp: relay_inv_def e nth_list_update\<close>)
  moreover have "queues_ok ?r" using assms
    by (auto simp: relay_inv_def queues_ok_def list_all_length nth_list_update intro: order_trans)
  ultimately show ?thesis using assms(1) by (simp add: relay_inv_def slots_ok_def)
qed

lemma session_Read_keeps:
  "se_key (snd (session_Read b cap s)) = se_key s \<and> se_in_closed (snd (session_Read b cap s)) = se_in_closed s
   \<and> length (se_in (snd (session_Read b cap s))) \<le> length (se_in s)"
  by (auto simp: session_Read_def session_take_def Let_def split: list.split)

lemma handleSession_keeps:
  "snd (handleSession hmac unmarshal t1 t2 raddr stream r)
   = r\<lparr>pr_relayReplay := pr_relayReplay (snd (handleSession hmac unmarshal t1 t2 raddr stream r))\<rparr>"
  by (simp add: handleSession_def Let_def case_prod_beta split: sum.split option.split)

lemma relay_inv_replay: "relay_inv (r\<lparr>pr_relayReplay := m\<rparr>) = relay_inv r"
proof -
  have "session_of (r\<lparr>pr_relayReplay := m\<rparr>) = session_of r" by (rule session_of_cong) simp
  then show ?thesis by (simp add: relay_inv_def slots_ok_def sessions_ok_def queues_ok_def)
qed

lemma relay_ev_inv: "relay_ev r r' \<Longrightarrow> relay_inv r \<Longrightarrow> relay_inv r'"
proof (erule relay_evE)
  fix key pkt assume "relay_inv r" and "r' = snd (dispatch key pkt r)"
  then show "relay_inv r'" by (simp add: relay_inv_def dispatch_slots dispatch_sessions dispatch_queues)
next
  fix n assume "relay_inv r" and "r' = close_done n r" and "n < length (pr_sessions r)"
  then show "relay_inv r'" unfolding close_done_def by (auto intro!: session_step_inv)
next
  fix n assume "relay_inv r" and "r' = close_locked n r" and "n < length (pr_sessions r)"
  then show "relay_inv r'" by (simp add: close_locked_inv)
next
  fix n b cap
  assume "relay_inv r" and "r' = r\<lparr>pr_sessions := (pr_sessions r)[n := snd (session_Read b cap (pr_sessions r ! n))]\<rparr>"
    and "n < length (pr_sessions r)"
  then show "relay_inv r'" using session_Read_keeps [of b cap "pr_sessions r ! n"] by (auto intro!: session_step_inv)
next
  fix hmac unmarshal t1 t2 raddr stream
  assume "relay_inv r" and "r' = snd (handleSession hmac unmarshal t1 t2 raddr stream r)"
  then show "relay_inv r'" using handleSession_keeps [of hmac unmarshal t1 t2 raddr stream r] relay_inv_replay by metis
qed

lemma relay_reach_inv: "relay_reach r r' \<Longrightarrow> relay_inv r \<Longrightarrow> relay_inv r'"
  by (induction rule: relay_reach.induct) (auto intro: relay_ev_inv)

lemma Listen_inv: "ListenPeerRelayUDP own addr token m b = Inr r \<Longrightarrow> relay_inv r"
  by (auto simp: ListenPeerRelayUDP_def relay_inv_def slots_ok_def sessions_ok_def session_of_def queues_ok_def gomap
      split: if_splits)

section \<open>Replayed handshakes\<close>

definition seen_at :: "instant \<Rightarrow> string \<Rightarrow> (string, int) gomap \<Rightarrow> bool" where
  "seen_at u k m = (\<exists>ts. mget m k = Some ts \<and> unix_milli (u - peerRelayReplayTTL) \<le> ts)"

interpretation relay_replay: replay_guard "\<lambda>t. markRelayNonceFresh t t" seen_at gomap_ok peerRelayReplayTTL
proof
  fix s t k
  show "gomap_ok s \<Longrightarrow> gomap_ok (snd (markRelayNonceFresh t t k s))"
    by (auto simp: markRelayNonceFresh_def Let_def gomap)
  show "gomap_ok s \<Longrightarrow> fst (markRelayNonceFresh t t k s) = (\<not> seen_at t k s)"
    using mget_filter [of s "\<lambda>_ ts. \<not> ts < unix_milli (t - peerRelayReplayTTL)"]
    by (auto simp: markRelayNonceFresh_def Let_def seen_at_def split: option.splits)
next
  fix s t u k assume "gomap_ok s" "t \<le> u" "u \<le> t + peerRelayReplayTTL" "fst (markRelayNonceFresh t t k s)"
  then show "seen_at u k (snd (markRelayNonceFresh t t k s))"
    by (auto simp: markRelayNonceFresh_def Let_def seen_at_def gomap unix_milli_def split: if_splits intro!: zdiv_mono1)
next
  fix s t u k j assume a: "gomap_ok s" "t \<le> u" "seen_at u k s"
  then obtain ts where ts: "mget s k = Some ts" "unix_milli (u - peerRelayReplayTTL) \<le> ts" by (auto simp: seen_at_def)
  have "unix_milli (t - peerRelayReplayTTL) \<le> unix_milli (u - peerRelayReplayTTL)"
    using a(2) by (auto simp: unix_milli_def intro!: zdiv_mono1)
  then have keep: "mget (filter (\<lambda>(k, ts). \<not> ts < unix_milli (t - peerRelayReplayTTL)) s) k = Some ts"
    using mget_filter [OF a(1), of "\<lambda>_ ts. \<not> ts < unix_milli (t - peerRelayReplayTTL)"] ts by simp
  show "seen_at u k (snd (markRelayNonceFresh t t j s))"
  proof (cases "j = k")
    case True
    then show ?thesis using keep ts by (simp add: markRelayNonceFresh_def Let_def seen_at_def)
  next
    case False
    then show ?thesis using keep ts by (auto simp: markRelayNonceFresh_def Let_def seen_at_def gomap)
  qed
qed

section \<open>Whom a relay admits\<close>

lemma credentials_ok:
  assumes "relayOptsForHandshake sha256 hmac nonce token (Some p) = Some q"
    and "trim_space (po_ClusterPreferredServer p) = []"
    and "0 < po_RelayHop p \<or> 0 < po_RelayMaxHop p \<or> trim_space (po_PeerID p) \<noteq> []"
  shows "q = relay_credentials sha256 hmac nonce token (default_hops p)"
  using assms by (simp add: relayOptsForHandshake_def)

lemma default_hops_fields [simp]:
  "po_PeerID (default_hops p) = po_PeerID p" "po_RelayNonce (default_hops p) = po_RelayNonce p"
  "po_RelaySig (default_hops p) = po_RelaySig p" "po_RelayHop (default_hops p) = nonpos_or (po_RelayHop p) 1"
  "po_RelayMaxHop (default_hops p) = nonpos_or (po_RelayMaxHop p) 2"
  "po_ClusterPreferredServer (default_hops p) = po_ClusterPreferredServer p"
  by (simp_all add: default_hops_def)

lemma relay_credentials_fields:
  "po_PeerID (relay_credentials sha256 hmac nonce token p) \<noteq> []"
  "(\<exists>rb. nonce = Some rb \<and> rb \<noteq> []) \<or> po_RelayNonce p \<noteq> [] \<Longrightarrow> po_RelayNonce (relay_credentials sha256 hmac nonce token p) \<noteq> []"
  "po_RelaySig p = [] \<Longrightarrow> po_RelaySig (relay_credentials sha256 hmac nonce token p) =
     b64_raw_url_encode (hmac (str_bytes token) (str_bytes (po_PeerID (relay_credentials sha256 hmac nonce token p)
       @ ''|'' @ po_RelayNonce (relay_credentials sha256 hmac nonce token p))))"
  "po_RelayHop (relay_credentials sha256 hmac nonce token p) = po_RelayHop p"
  "po_RelayMaxHop (relay_credentials sha256 hmac nonce token p) = po_RelayMaxHop p"
  "po_ClusterPreferredServer (relay_credentials sha256 hmac nonce token p) = po_ClusterPreferredServer p"
  by (auto simp: relay_credentials_def Let_def b64_raw_url_Nil)

definition hop_limit :: "int \<Rightarrow> int" where
  "hop_limit m = (if m \<le> 0 \<or> m > peerRelayHopHardLimit then peerRelayHopHardLimit else m)"

lemma decode_sig_made [simp]: "decode_sig (b64_raw_url_encode bs) = Some bs"
  by (simp add: decode_sig_def)

text \<open>
  The credentials of a handshake. When a client's options ask for a relay and carry no signature of their own,
  what it sends (\<open>relayOptsForHandshake\<close>) is admitted by a relay exactly if the relay's token gives the same
  MAC of the peer and the nonce as the client's does (so a relay of the same network always admits it) and the
  hop is within the limit, which is two at most whatever the options ask for. A client bound to an exit
  of its cluster sends no credentials, and no relay admits it.
\<close>

theorem relay_admits:
  assumes "relayOptsForHandshake sha256 hmac nonce token (Some p) = Some q"
    and "0 < po_RelayHop p \<or> 0 < po_RelayMaxHop p \<or> trim_space (po_PeerID p) \<noteq> []" and "po_RelaySig p = []"
    and "\<And>k m. hmac k m \<noteq> []" and "nonce = Some rb" and "rb \<noteq> []"
  shows "allowPeerRelayOptions hmac (Some q) token' \<longleftrightarrow>
    trim_space (po_ClusterPreferredServer p) = []
    \<and> nonpos_or (po_RelayHop p) 1 \<le> hop_limit (po_RelayMaxHop p)
    \<and> hmac (str_bytes token') (str_bytes (po_PeerID q @ ''|'' @ po_RelayNonce q))
        = hmac (str_bytes token) (str_bytes (po_PeerID q @ ''|'' @ po_RelayNonce q))"
proof (cases "trim_space (po_ClusterPreferredServer p) = []")
  case False
  then show ?thesis using assms(1) by (auto simp: relayOptsForHandshake_def allowPeerRelayOptions_def)
next
  case True
  note q = credentials_ok [OF assms(1) True assms(2)]
  note f = relay_credentials_fields
  have n: "po_RelayNonce q \<noteq> []" using f(2) assms(5,6) unfolding q by blast
  have s: "po_RelaySig q = b64_raw_url_encode (hmac (str_bytes token) (str_bytes (po_PeerID q @ ''|'' @ po_RelayNonce q)))"
    unfolding q by (rule f(3)) (simp add: assms(3))
  have h: "po_RelayHop q = nonpos_or (po_RelayHop p) 1" "po_RelayMaxHop q = nonpos_or (po_RelayMaxHop p) 2"
    unfolding q f(4,5) by simp_all
  have l: "hop_limit (nonpos_or (po_RelayMaxHop p) 2) = hop_limit (po_RelayMaxHop p)"
    by (simp add: hop_limit_def nonpos_or_def peerRelayHopHardLimit_def)
  have sn: "po_RelaySig q \<noteq> []" unfolding s b64_raw_url_Nil by (rule assms(4))
  have i: "po_PeerID q \<noteq> []" unfolding q by (rule f(1))
  have pos: "0 < nonpos_or (po_RelayHop p) 1" by (simp add: nonpos_or_def)
  have d: "decode_sig (po_RelaySig q) = Some (hmac (str_bytes token) (str_bytes (po_PeerID q @ ''|'' @ po_RelayNonce q)))"
    unfolding s by simp
  show ?thesis
    unfolding allowPeerRelayOptions_def option.case Let_def h hop_limit_def [symmetric] l d option.inject
    using True n i sn pos by auto
qed

lemma relay_admits_witness:
  "\<exists>q. relayOptsForHandshake (\<lambda>_. [1, 2, 3, 4, 5, 6, 7]) (\<lambda>k _. 1 # k) (Some [9]) ''secret'' (Some (po_zero\<lparr>po_RelayHop := 1\<rparr>)) = Some q
     \<and> allowPeerRelayOptions (\<lambda>k _. 1 # k) (Some q) ''secret''
     \<and> \<not> allowPeerRelayOptions (\<lambda>k _. 1 # k) (Some q) ''other''"
proof -
  let ?p = "po_zero\<lparr>po_RelayHop := 1\<rparr>"
  obtain q where q: "relayOptsForHandshake (\<lambda>_. [1, 2, 3, 4, 5, 6, 7]) (\<lambda>k _. 1 # k) (Some [9]) ''secret'' (Some ?p) = Some q"
    by (simp add: relayOptsForHandshake_def)
  have "allowPeerRelayOptions (\<lambda>k _. 1 # k) (Some q) t = (str_bytes t = str_bytes ''secret'')" for t
    using relay_admits [OF q, where rb = "[9]" and token' = t]
    by (simp add: po_zero_def nonpos_or_def hop_limit_def peerRelayHopHardLimit_def)
  then show ?thesis using q by (auto simp: str_bytes_inj)
qed

section \<open>The chain of relays\<close>

text \<open>
  What a relay does with a connection that arrives with these options (\<^verbatim>\<open>handleSession\<close> and
  \<^verbatim>\<open>runPeerRelaySession\<close>): it drops it if it does not admit them, refuses it over the limit, hands it to the
  next hop of the list, or connects to the target.
\<close>

datatype relay_step = Forward string string | Deliver | Refuse string | Drop

definition runPeerRelaySession :: "ProtectionOptions option \<Rightarrow> relay_step" where
  "runPeerRelaySession opts =
     (case opts of
        None \<Rightarrow> Drop
      | Some o' \<Rightarrow>
        if relayHopLimitExceeded opts then Refuse (relayHopLimitReason o')
        else case NextRelayHop (po_RelayRouteHops o') (po_HopIndex o') of
          None \<Rightarrow> Deliver
        | Some (kind, addr) \<Rightarrow> Forward kind addr)"

definition relay_session :: "(bytes \<Rightarrow> bytes \<Rightarrow> bytes) \<Rightarrow> string \<Rightarrow> ProtectionOptions option \<Rightarrow> relay_step" where
  "relay_session hmac token opts =
     (if allowPeerRelayOptions hmac opts token then runPeerRelaySession opts else Drop)"

text \<open>
  A chain of relays with the same token: each passes on the options of \<^verbatim>\<open>ProtForRelayForward\<close>; \<open>nonces i\<close> is what
  the relay with hop index \<open>i\<close> draws. It ends because the hop goes up at every relay and none admits a third.
\<close>

definition hops_left :: "ProtectionOptions option \<Rightarrow> nat" where
  "hops_left opts = (case opts of None \<Rightarrow> 0 | Some p \<Rightarrow> nat (peerRelayHopHardLimit + 1 - po_RelayHop p))"

lemma allow_hop:
  "allowPeerRelayOptions hmac (Some p) token \<Longrightarrow> 0 < po_RelayHop p \<and> po_RelayHop p \<le> hop_limit (po_RelayMaxHop p)"
  by (auto simp: allowPeerRelayOptions_def hop_limit_def Let_def)

lemma hop_limit_le: "hop_limit m \<le> peerRelayHopHardLimit"
  by (simp add: hop_limit_def)

lemma forward_hop:
  assumes "ProtForRelayForward sha256 hmac nonce token (Some p) = Some q" and "0 < po_RelayHop p" and "po_RelayHop p \<le> 2"
  shows "po_RelayHop q = po_RelayHop p + 1"
proof -
  have "wrap64 (po_RelayHop p + 1) = po_RelayHop p + 1" using assms(2,3) by (intro wrap64_id) auto
  then show ?thesis
    using assms handshake_fields(3) unfolding ProtForRelayForward_def Option.bind.simps by (fastforce simp: nonpos_or_def)
qed

function relay_chain ::
  "(bytes \<Rightarrow> bytes) \<Rightarrow> (bytes \<Rightarrow> bytes \<Rightarrow> bytes) \<Rightarrow> (int \<Rightarrow> bytes option) \<Rightarrow> string \<Rightarrow> ProtectionOptions option \<Rightarrow> relay_step list" where
  "relay_chain sha256 hmac nonces token opts =
     (case relay_session hmac token opts of
        Forward kind addr \<Rightarrow>
          Forward kind addr # relay_chain sha256 hmac nonces token
            (ProtForRelayForward sha256 hmac (nonces (po_HopIndex (the opts))) token opts)
      | r \<Rightarrow> [r])"
  by pat_completeness auto

termination
proof (relation "measure (\<lambda>(_, _, _, _, opts). hops_left opts)")
  fix sha256 :: "bytes \<Rightarrow> bytes" and hmac :: "bytes \<Rightarrow> bytes \<Rightarrow> bytes" and nonces :: "int \<Rightarrow> bytes option"
    and token opts kind addr
  assume "relay_session hmac token opts = Forward kind addr"
  then obtain p where p: "opts = Some p" and "allowPeerRelayOptions hmac (Some p) token"
    by (auto simp: relay_session_def runPeerRelaySession_def split: option.splits if_splits)
  then have h: "0 < po_RelayHop p" "po_RelayHop p \<le> 2"
    using allow_hop hop_limit_le [of "po_RelayMaxHop p"] by (fastforce simp: peerRelayHopHardLimit_def)+
  have "hops_left (ProtForRelayForward sha256 hmac n token (Some p)) < hops_left (Some p)" for n
  proof (cases "ProtForRelayForward sha256 hmac n token (Some p)")
    case (Some q)
    then show ?thesis using forward_hop [OF Some h] h by (simp add: hops_left_def peerRelayHopHardLimit_def)
  qed (use h in \<open>simp add: hops_left_def peerRelayHopHardLimit_def\<close>)
  then show "((sha256, hmac, nonces, token, ProtForRelayForward sha256 hmac (nonces (po_HopIndex (the opts))) token opts),
      sha256, hmac, nonces, token, opts) \<in> measure (\<lambda>(_, _, _, _, opts). hops_left opts)"
    by (simp add: p)
qed auto

declare relay_chain.simps [simp del]

text \<open>Options with the credentials of \<open>token\<close>: what a relay wants to see, the hop apart.\<close>

definition signed :: "(bytes \<Rightarrow> bytes \<Rightarrow> bytes) \<Rightarrow> string \<Rightarrow> ProtectionOptions \<Rightarrow> bool" where
  "signed hmac token p \<longleftrightarrow> trim_space (po_ClusterPreferredServer p) = [] \<and> po_PeerID p \<noteq> [] \<and> po_RelayNonce p \<noteq> [] \<and>
     po_RelaySig p \<noteq> [] \<and>
     po_RelaySig p = b64_raw_url_encode (hmac (str_bytes token) (str_bytes (po_PeerID p @ ''|'' @ po_RelayNonce p)))"

lemma signed_allow:
  assumes "signed hmac token p" and "0 < po_RelayHop p"
  shows "allowPeerRelayOptions hmac (Some p) token \<longleftrightarrow> po_RelayHop p \<le> hop_limit (po_RelayMaxHop p)"
proof -
  have "decode_sig (po_RelaySig p) = Some (hmac (str_bytes token) (str_bytes (po_PeerID p @ ''|'' @ po_RelayNonce p)))"
    using assms(1) by (simp add: signed_def)
  then show ?thesis using assms
    unfolding allowPeerRelayOptions_def option.case Let_def hop_limit_def [symmetric] by (auto simp: signed_def)
qed

lemma signed_forward:
  assumes "signed hmac token p" and "ProtForRelayForward sha256 hmac nonce token (Some p) = Some q"
  shows "signed hmac token q"
proof -
  have "po_ClusterPreferredServer q = po_ClusterPreferredServer p" "po_PeerID q = po_PeerID p"
    "po_RelayNonce q = po_RelayNonce p" "po_RelaySig q = po_RelaySig p"
    using assms unfolding ProtForRelayForward_def Option.bind.simps
    by (auto simp: relayOptsForHandshake_def relay_credentials_def default_hops_def signed_def Let_def split: if_splits)
  note e = this
  show ?thesis using assms(1) unfolding signed_def e .
qed

lemma signed_handshake:
  assumes "relayOptsForHandshake sha256 hmac (Some rb) token (Some p) = Some q" and "rb \<noteq> []" and "\<And>k m. hmac k m \<noteq> []"
    and "trim_space (po_ClusterPreferredServer p) = []" and "0 < po_RelayHop p" and "po_RelaySig p = []"
  shows "signed hmac token q"
proof -
  have q: "q = relay_credentials sha256 hmac (Some rb) token (default_hops p)"
    by (rule credentials_ok [OF assms(1,4)]) (simp add: assms(5))
  note f = relay_credentials_fields
  have s: "po_RelaySig q = b64_raw_url_encode (hmac (str_bytes token) (str_bytes (po_PeerID q @ ''|'' @ po_RelayNonce q)))"
    unfolding q by (rule f(3)) (simp add: assms(6))
  have "po_PeerID q \<noteq> []" unfolding q by (rule f(1))
  moreover have "po_RelayNonce q \<noteq> []" unfolding q by (rule f(2)) (use assms(2) in blast)
  moreover have "po_RelaySig q \<noteq> []" unfolding s b64_raw_url_Nil by (rule assms(3))
  moreover have "trim_space (po_ClusterPreferredServer q) = []" unfolding q f(6) by (simp add: assms(4))
  ultimately show ?thesis using s unfolding signed_def by blast
qed

definition hop_forward :: "RouteHop \<Rightarrow> relay_step" where
  "hop_forward h = Forward (rh_Kind h) (rh_Addr h)"

lemma relay_session_at:
  assumes "po_RelayRouteHops p = map hop_text hs" and "list_all hop_ok hs" and "signed hmac token p"
    and "1 \<le> po_HopIndex p" and "1 \<le> po_RelayHop p"
  shows "relay_session hmac token (Some p) =
    (if po_RelayHop p \<le> hop_limit (po_RelayMaxHop p)
     then case drop (nat (po_HopIndex p)) hs of [] \<Rightarrow> Deliver | h # _ \<Rightarrow> hop_forward h else Drop)"
proof -
  have n: "NextRelayHop (map hop_text hs) i = map_option (\<lambda>h. (rh_Kind h, rh_Addr h))
      (case drop (nat i) hs of [] \<Rightarrow> None | h # _ \<Rightarrow> Some h)" if "1 \<le> i" for i
  proof (cases "nat i < length hs")
    case True
    then have "hop_ok (hs ! nat i)" using assms(2) by (simp add: list_all_length)
    then show ?thesis using True that
      by (auto simp: NextRelayHop_def ParseRouteHop_text Cons_nth_drop_Suc [symmetric])
  qed (use that in \<open>auto simp: NextRelayHop_def split: list.split\<close>)
  have a: "allowPeerRelayOptions hmac (Some p) token \<longleftrightarrow> po_RelayHop p \<le> hop_limit (po_RelayMaxHop p)"
    by (rule signed_allow [OF assms(3)]) (use assms(5) in simp)
  have l: "po_RelayHop p \<le> hop_limit (po_RelayMaxHop p) \<Longrightarrow> \<not> relayHopLimitExceeded (Some p)"
    by (auto simp: relayHopLimitExceeded_def hop_limit_def peerRelayHopHardLimit_def split: if_splits)
  show ?thesis using l assms(1,4)
    by (simp add: relay_session_def a runPeerRelaySession_def n hop_forward_def split: list.split)
qed

lemma relay_chain_run:
  assumes "po_RelayRouteHops p = map hop_text hs" and "list_all hop_ok hs" and "signed hmac token p"
    and "1 \<le> po_HopIndex p" and "1 \<le> po_RelayHop p" and "1 \<le> po_RelayMaxHop p" and "length hs < 2 ^ 62"
  shows "relay_chain sha256 hmac nonces token (Some p) =
    (let rest = drop (nat (po_HopIndex p)) hs; k = nat (hop_limit (po_RelayMaxHop p) - po_RelayHop p + 1)
     in map hop_forward (take k rest) @ [if length rest < k then Deliver else Drop])"
  using assms
proof (induction "length hs - nat (po_HopIndex p)" arbitrary: p)
  case 0
  then show ?case
    by (subst relay_chain.simps, subst relay_session_at [OF "0.prems"(1-5)]) auto
next
  case (Suc n)
  let ?i = "nat (po_HopIndex p)" and ?l = "hop_limit (po_RelayMaxHop p)"
  have i: "?i < length hs" using Suc.hyps(2) by simp
  then have rest: "drop ?i hs = hs ! ?i # drop (Suc ?i) hs" by (rule Cons_nth_drop_Suc [symmetric])
  show ?case
  proof (cases "po_RelayHop p \<le> ?l")
    case False
    then show ?thesis
      by (subst relay_chain.simps, subst relay_session_at [OF Suc.prems(1-5)]) simp
  next
    case True
    then have h: "po_RelayHop p \<le> 2" using hop_limit_le [of "po_RelayMaxHop p"] by (simp add: peerRelayHopHardLimit_def)
    obtain q where q: "ProtForRelayForward sha256 hmac (nonces (po_HopIndex p)) token (Some p) = Some q"
      by (auto simp: ProtForRelayForward_def relayOptsForHandshake_def)
    have "wrap64 (po_HopIndex p + 1) = po_HopIndex p + 1" by (rule wrap64_id) (use i Suc.prems in auto)
    with forward_fields [OF q] h Suc.prems
    have f: "po_RelayRouteHops q = map hop_text hs" "po_HopIndex q = po_HopIndex p + 1"
      "po_RelayHop q = po_RelayHop p + 1" "po_RelayMaxHop q = po_RelayMaxHop p" by auto
    have j: "nat (po_HopIndex q) = Suc ?i" using f(2) Suc.prems(4) by simp
    have "relay_chain sha256 hmac nonces token (Some q) =
      (let rest = drop (nat (po_HopIndex q)) hs; k = nat (hop_limit (po_RelayMaxHop q) - po_RelayHop q + 1)
       in map hop_forward (take k rest) @ [if length rest < k then Deliver else Drop])"
      by (rule Suc.hyps(1)) (use Suc.hyps(2) Suc.prems f j signed_forward [OF Suc.prems(3) q] in auto)
    moreover have "?l - (po_RelayHop p + 1) + 1 = ?l - po_RelayHop p" by simp
    ultimately have r: "relay_chain sha256 hmac nonces token (Some q) =
      (let rest = drop (Suc ?i) hs; k = nat (?l - po_RelayHop p)
       in map hop_forward (take k rest) @ [if length rest < k then Deliver else Drop])"
      unfolding j f(3,4) by simp
    have k: "nat (?l - po_RelayHop p + 1) = Suc (nat (?l - po_RelayHop p))" using True by simp
    have "relay_chain sha256 hmac nonces token (Some p) = hop_forward (hs ! ?i) # relay_chain sha256 hmac nonces token (Some q)"
      by (subst relay_chain.simps, subst relay_session_at [OF Suc.prems(1-5)])
        (use True rest q in \<open>simp add: hop_forward_def\<close>)
    then show ?thesis unfolding r rest k Let_def by simp
  qed
qed


definition two_hops :: PathDecision where
  "two_hops = direct_path\<lparr>pd_MaxPeerHops := 3, pd_PeerTCPCandidates := [''10.0.0.1:443'', ''10.0.0.2:443'']\<rparr>"

definition three_hops :: PathDecision where
  "three_hops = two_hops\<lparr>pd_PeerTCPCandidates := [''10.0.0.1:443'', ''10.0.0.2:443'', ''10.0.0.3:443'']\<rparr>"

lemma plan_hops:
  "rp_Hops (BuildRoutePlan ''1.1.1.1'' [] two_hops)
   = [\<lparr>rh_Kind = ''peer_tcp'', rh_Addr = ''10.0.0.1:443''\<rparr>, \<lparr>rh_Kind = ''peer_tcp'', rh_Addr = ''10.0.0.2:443''\<rparr>]"
  "rp_Hops (BuildRoutePlan ''1.1.1.1'' [] three_hops)
   = [\<lparr>rh_Kind = ''peer_tcp'', rh_Addr = ''10.0.0.1:443''\<rparr>, \<lparr>rh_Kind = ''peer_tcp'', rh_Addr = ''10.0.0.2:443''\<rparr>,
      \<lparr>rh_Kind = ''peer_tcp'', rh_Addr = ''10.0.0.3:443''\<rparr>]"
  by code_simp+

definition route_start :: "PathDecision \<Rightarrow> ProtectionOptions option" where
  "route_start d = relayOptsForHandshake (\<lambda>_. []) (\<lambda>_ _. [7]) (Some [9]) ''t''
     (first_hop_opts (BuildRoutePlan ''1.1.1.1'' [] d) None (Some po_zero))"


text \<open>
  C15. Sessions of the relay. Whatever datagrams arrive and however the sessions' goroutines interleave with them, the relay
  never sends on the channel of a closed session (which would crash it), a slot is taken exactly by each peer with a
  session and never by more than the configured number, and no session queues more than 256 messages.
\<close>

theorem relay_sessions_sound:
  assumes "ListenPeerRelayUDP own addr tok maxConcurrent budget = Inr r" and "relay_reach r r'"
  shows "fst (dispatch key pkt r') \<noteq> SendOnClosed
    \<and> pr_taken r' = mcount in_session (pr_peers r') \<and> pr_taken r' \<le> pr_slots r'
    \<and> list_all (\<lambda>s. length (se_in s) \<le> session_queue_cap) (pr_sessions r')"
proof -
  have i: "relay_inv r'" by (rule relay_reach_inv [OF assms(2) Listen_inv [OF assms(1)]])
  then have ok: "sessions_ok r'" by (simp add: relay_inv_def)
  have "fst (dispatch key pkt r') \<noteq> SendOnClosed"
  proof (cases "mget (pr_peers r') key")
    case None
    then show ?thesis by (simp add: dispatch_def Let_def case_prod_beta split: option.split)
  next
    case (Some st)
    have "us_sess st = Some n \<Longrightarrow> \<not> se_in_closed (pr_sessions r' ! n)" for n using sessions_okD [OF ok Some] by blast
    then show ?thesis using Some by (simp add: dispatch_def Let_def case_prod_beta split: option.split)
  qed
  then show ?thesis using i by (simp add: relay_inv_def slots_ok_def queues_ok_def)
qed

definition hello_packet :: bytes where "hello_packet = vp02Magic @ [0, 1, 0, 0, 0, 0, 0, 1, 65]"

definition fresh_relay :: PeerUDPRelay where
  "fresh_relay = \<lparr>pr_token = ''t'', pr_budgetKbps = 0, pr_slots = 1, pr_taken = 0, pr_peers = [], pr_sessions = [], pr_relayReplay = []\<rparr>"

lemma relay_sessions_sound_witness:
  "fst (dispatch ''10.0.0.1:9'' hello_packet (close_done 0 (snd (dispatch ''10.0.0.1:9'' hello_packet fresh_relay)))) = Queued 0
   \<and> pr_taken (close_done 0 (snd (dispatch ''10.0.0.1:9'' hello_packet fresh_relay))) = 1"
proof -
  let ?r = "snd (dispatch ''10.0.0.1:9'' hello_packet fresh_relay)"
  have l: "ListenPeerRelayUDP True ''0.0.0.0:9'' ''t'' 1 0 = Inr fresh_relay" by code_simp
  have "0 < length (pr_sessions ?r)" by code_simp
  then have "relay_reach fresh_relay (close_done 0 ?r)"
    by (intro relay_step [OF relay_step [OF relay_start ev_dispatch] ev_close])
  note s = relay_sessions_sound [OF l this, of "''10.0.0.1:9''" hello_packet]
  have "fst (dispatch ''10.0.0.1:9'' hello_packet (close_done 0 ?r)) = SendOnClosed
      \<or> fst (dispatch ''10.0.0.1:9'' hello_packet (close_done 0 ?r)) = Queued 0" by code_simp
  moreover have "mcount in_session (pr_peers (close_done 0 ?r)) = 1" by code_simp
  ultimately show ?thesis using s by metis
qed

text \<open>
  A replayed handshake is turned down: what a relay has admitted from one address, with a peer's identity and
  nonce, it does not admit again from there for the next ninety seconds, whatever other handshakes it sees in between.
\<close>

theorem relay_handshake_no_replay:
  assumes "gomap_ok m" and "fst (markRelayNonceFresh t t (replayKey raddr i nonce) m)"
    and "t \<le> u" and "u \<le> t + peerRelayReplayTTL" and "\<forall>(t', k) \<in> set es. t' \<le> u"
  shows "\<not> fst (markRelayNonceFresh u u (replayKey raddr i nonce)
    (relay_replay.run_guard es (snd (markRelayNonceFresh t t (replayKey raddr i nonce) m))))"
  by (rule relay_replay.no_replay [OF assms])

lemma relay_handshake_no_replay_witness:
  "\<not> fst (markRelayNonceFresh (second + 5) (second + 5) (replayKey ''a'' ''p'' ''n'')
    (relay_replay.run_guard [(3, ''x'')] (snd (markRelayNonceFresh 5 5 (replayKey ''a'' ''p'' ''n'') []))))"
  by (rule relay_handshake_no_replay)
    (simp_all add: markRelayNonceFresh_def gomap second_def peerRelayReplayTTL_def)

text \<open>
  C0. Half-open peers are never forgotten: for every number there is a reachable state of a fresh relay that
  remembers so many senders although none of them has a session: one datagram with the first part of a longer message
  from each address is enough, and no step of the code removes such an entry by age.
\<close>

definition first_part :: bytes where "first_part = vp02Magic @ [0, 2, 0, 0, 0, 0, 0, 1, 65]"

lemma first_part_fed:
  obtains a where "Feed asm_reset first_part = (None, a)" and "InProgress a"
proof
  show "Feed asm_reset first_part = (None, \<lparr>asm_total = 2, asm_parts = Some [[65], []], asm_got = 1\<rparr>)" by code_simp
qed (simp add: InProgress_def)

theorem half_open_unbounded:
  "\<exists>r. relay_reach fresh_relay r \<and> length (pr_peers r) = n \<and> pr_taken r = 0"
proof -
  obtain a where a: "Feed asm_reset first_part = (None, a)" "InProgress a" by (rule first_part_fed)
  let ?key = "\<lambda>i. replicate i (CHR ''x'')"
  have "\<exists>r. relay_reach fresh_relay r \<and> length (pr_peers r) = n \<and> pr_taken r = 0 \<and> (\<forall>i \<ge> n. mget (pr_peers r) (?key i) = None)"
  proof (induction n)
    case 0
    show ?case by (rule exI [of _ fresh_relay]) (simp add: relay_start fresh_relay_def gomap)
  next
    case (Suc n)
    then obtain r where r: "relay_reach fresh_relay r" "length (pr_peers r) = n" "pr_taken r = 0"
      and k: "\<And>i. n \<le> i \<Longrightarrow> mget (pr_peers r) (?key i) = None" by blast
    let ?r = "snd (dispatch (?key n) first_part r)"
    have e: "?r = r\<lparr>pr_peers := mput (?key n) \<lparr>us_asm = a, us_sess = None\<rparr> (pr_peers r)\<rparr>"
      using a by (simp add: dispatch_def Let_def k)
    have "relay_reach fresh_relay ?r" by (rule relay_step [OF r(1) ev_dispatch])
    moreover have "mget (pr_peers ?r) (?key i) = None" if "Suc n \<le> i" for i
      using that k [of i] by (simp add: e gomap)
    moreover have "length (pr_peers ?r) = Suc n" using length_mput_new [OF k [of n]] r(2) by (simp add: e)
    moreover have "pr_taken ?r = 0" using r(3) by (simp add: e)
    ultimately show ?case by blast
  qed
  then show ?thesis by blast
qed
end
