(* ===== verification/ServerSide.thy ===== *)
theory ServerSide
  imports GoUrl Protection Interfaces
begin

text \<open>
  The Go side of the server, \<^verbatim>\<open>internal/server\<close>: its properties file (\<^verbatim>\<open>config.go\<close>), the check of a client's options
  with the memory of nonces (\<^verbatim>\<open>negotiate.go\<close>) and the rotation of the wire profile (\<^verbatim>\<open>wire_profile.go\<close>). Files and JSON are
  arguments; instants and durations are counted in nanoseconds.
\<close>

section \<open>The properties file\<close>

definition ModeTCPOnly :: string where "ModeTCPOnly = ''tcp-only''"
definition ModeQUICOnly :: string where "ModeQUICOnly = ''quic-only''"
definition ModeBoth :: string where "ModeBoth = ''both''"

record ServerConfig =
  sc_ListenPorts :: "int list"
  sc_Token :: string
  sc_UDPChannels :: int
  sc_PublicHost :: string
  sc_Debug :: bool
  sc_ServerMode :: string
  sc_QUICListenPort :: int
  sc_QUICCertPath :: string
  sc_QUICKeyPath :: string
  sc_QUICALPN :: string
  sc_QUICMaxStreams :: int
  sc_QUICMaxHandshakes :: int
  sc_QUICIdleTimeout :: duration
  sc_QUICHandshakeTimeout :: duration
  sc_QUICTCPConnectTimeout :: duration
  sc_QUICIngressRingSlots :: int
  sc_RealityEnabled :: bool
  sc_RealityDest :: string
  sc_RealityPrivateKeyPEM :: string
  sc_RealityShortIDs :: "bytes list"
  sc_RealityServerNames :: "string list"
  sc_WireProfileRotateSec :: int
  sc_TCPNoDelay :: bool
  sc_HandshakeSkew :: duration
  sc_ReplayWindow :: duration

definition property_line :: "string \<Rightarrow> (string \<times> string) option" where
  "property_line line =
     (let line = trim_space line in
      if line = [] \<or> has_prefix line ''#'' then None
      else case index_byte line (CHR ''='') of
        None \<Rightarrow> None
      | Some i \<Rightarrow> if i = 0 then None else Some (trim_space (take i line), trim_space (drop (i + 1) line)))"

definition parseProperties :: "string \<Rightarrow> (string, string) gomap" where
  "parseProperties s =
     fold (\<lambda>line m. case property_line line of Some (k, v) \<Rightarrow> mput k v m | None \<Rightarrow> m) (split_on (CHR 0x0A) s) []"

definition prop_at :: "(string, string) gomap \<Rightarrow> string \<Rightarrow> string" where
  "prop_at p k = (case mget p k of Some v \<Rightarrow> v | None \<Rightarrow> [])"

definition firstNonEmpty :: "string \<Rightarrow> string \<Rightarrow> string" where
  "firstNonEmpty a b = (let a = trim_space a in if a \<noteq> [] then a else trim_space b)"

fun ports_of :: "string list \<Rightarrow> go_error + int list" where
  "ports_of [] = Inr []"
| "ports_of (raw # rs) =
     (let raw = trim_space raw in
      if raw = [] then ports_of rs
      else case atoi raw of
        None \<Rightarrow> Inl (Error (''bad port: '' @ raw))
      | Some p \<Rightarrow> if p < 1 \<or> p > 65535 then Inl (Error (''bad port: '' @ raw))
                 else ebind (ports_of rs) (\<lambda>ps. Inr (p # ps)))"

definition parsePortsCSV :: "string \<Rightarrow> go_error + int list" where
  "parsePortsCSV s =
     ebind (ports_of (split_on (CHR '','') s)) (\<lambda>out. if out = [] then Inl (Error ''listenPorts empty'') else Inr out)"

definition parseIntDef :: "string \<Rightarrow> int \<Rightarrow> int" where
  "parseIntDef s d = (let s = trim_space s in if s = [] then d else case atoi s of None \<Rightarrow> d | Some v \<Rightarrow> v)"

definition parseBoolDef :: "string \<Rightarrow> bool \<Rightarrow> bool" where
  "parseBoolDef s d = (let s = trim_space (to_lower s) in if s = [] then d else s = ''true'' \<or> s = ''1'' \<or> s = ''yes'')"

definition parse_names :: "string \<Rightarrow> string list" where
  "parse_names sn = (let sn = trim_space sn in if sn = [] then [] else filter (\<lambda>s. s \<noteq> []) (map trim_space (split_on (CHR '','') sn)))"

definition parse_short_ids :: "string \<Rightarrow> bytes list" where
  "parse_short_ids s =
     (let s = trim_space s in if s = [] then []
      else concat (map (\<lambda>h. case hex_decode (trim_space h) of Some b \<Rightarrow> if length b \<noteq> 8 then [] else [b] | None \<Rightarrow> [])
             (split_on (CHR '','') s)))"

definition dur_of :: "int \<Rightarrow> duration \<Rightarrow> duration" where
  "dur_of n unit = wrap64 (n * unit)"

definition config_of :: "(string, string) gomap \<Rightarrow> int list \<Rightarrow> string \<Rightarrow> string \<Rightarrow> ServerConfig" where
  "config_of p ports token mode = \<lparr>
     sc_ListenPorts = ports, sc_Token = token, sc_UDPChannels = parseIntDef (prop_at p ''udpChannels'') 4,
     sc_PublicHost = trim_space (prop_at p ''publicHost''), sc_Debug = equal_fold (trim_space (prop_at p ''debug'')) ''true'',
     sc_ServerMode = mode, sc_QUICListenPort = parseIntDef (prop_at p ''quicListenPort'') 0,
     sc_QUICCertPath = trim_space (prop_at p ''quicCertPath''), sc_QUICKeyPath = trim_space (prop_at p ''quicKeyPath''),
     sc_QUICALPN = trim_space (firstNonEmpty (prop_at p ''quicAlpn'') ''volter''),
     sc_QUICMaxStreams = parseIntDef (prop_at p ''quicMaxStreams'') 128,
     sc_QUICMaxHandshakes = parseIntDef (prop_at p ''quicMaxHandshakes'') 512,
     sc_QUICIdleTimeout = (let d = dur_of (parseIntDef (prop_at p ''quicIdleTimeoutMs'') 900000) millisecond in if d \<le> 0 then 24 * hour else d),
     sc_QUICHandshakeTimeout = dur_of (parseIntDef (prop_at p ''quicHandshakeTimeoutMs'') 60000) millisecond,
     sc_QUICTCPConnectTimeout = dur_of (parseIntDef (prop_at p ''quicTcpConnectTimeoutMs'') 10000) millisecond,
     sc_QUICIngressRingSlots = parseIntDef (prop_at p ''quicIngressRingSlots'') 4096,
     sc_RealityEnabled = equal_fold (trim_space (prop_at p ''reality.enabled'')) ''true'',
     sc_RealityDest = trim_space (prop_at p ''reality.dest''),
     sc_RealityPrivateKeyPEM = trim_space (prop_at p ''reality.privateKey''),
     sc_RealityShortIDs = parse_short_ids (prop_at p ''reality.shortIds''),
     sc_RealityServerNames = parse_names (prop_at p ''reality.serverNames''),
     sc_WireProfileRotateSec = parseIntDef (prop_at p ''wireProfile.rotateSec'') 300,
     sc_TCPNoDelay = parseBoolDef (prop_at p ''tcpNoDelay'') True,
     sc_HandshakeSkew = dur_of (parseIntDef (prop_at p ''handshake.skewSec'') 120) second,
     sc_ReplayWindow = dur_of (parseIntDef (prop_at p ''replay.windowSec'') 90) second\<rparr>"

definition LoadConfig :: "go_error + string \<Rightarrow> go_error + ServerConfig" where
  "LoadConfig file =
     ebind file (\<lambda>s.
     let p = parseProperties s; portsStr = firstNonEmpty (prop_at p ''listenPorts'') (prop_at p ''listenPort'') in
     if portsStr = [] then Inl (Error ''listenPorts is required'')
     else ebind (parsePortsCSV portsStr) (\<lambda>ports.
     let token = trim_space (prop_at p ''token'') in
     if token = [] then Inl (Error ''token is required'')
     else if length token > 4096 then Inl (Error ''token too long'')
     else let mode = to_lower (trim_space (firstNonEmpty (prop_at p ''serverMode'') ''tcp-only''));
              cfg = config_of p ports token mode in
     if sc_UDPChannels cfg \<noteq> 4 then Inl (Error ''udpChannels must be 4'')
     else if mode \<noteq> ModeTCPOnly \<and> mode \<noteq> ModeQUICOnly \<and> mode \<noteq> ModeBoth then Inl (Error ''bad serverMode'')
     else if mode \<noteq> ModeTCPOnly \<and> (sc_QUICListenPort cfg < 1 \<or> sc_QUICListenPort cfg > 65535) then Inl (Error ''bad quicListenPort'')
     else if mode \<noteq> ModeTCPOnly \<and> (sc_QUICCertPath cfg = [] \<or> sc_QUICKeyPath cfg = [])
       then Inl (Error ''quicCertPath and quicKeyPath are required for QUIC'')
     else if sc_RealityEnabled cfg \<and> (sc_RealityDest cfg = [] \<or> sc_RealityPrivateKeyPEM cfg = [])
       then Inl (Error ''reality.dest and reality.privateKey required when reality.enabled'')
     else Inr cfg))"

section \<open>Nonces\<close>

type_synonym nonceCache = "(string, instant) gomap"

definition checkAndRemember :: "duration \<Rightarrow> instant \<Rightarrow> string \<Rightarrow> nonceCache \<Rightarrow> bool \<times> nonceCache" where
  "checkAndRemember win now key m =
     (let m = filter (\<lambda>(k, t). \<not> time_sub now t > win) m in
      if mget m key \<noteq> None then (False, m) else (True, mput key now m))"

definition nonce_held :: "duration \<Rightarrow> instant \<Rightarrow> string \<Rightarrow> nonceCache \<Rightarrow> bool" where
  "nonce_held win u k m = (\<exists>t. mget m k = Some t \<and> \<not> time_sub u t > win)"

text \<open>The loop of \<^verbatim>\<open>trimSpace\<close> looks at the left end only.\<close>

definition server_trimSpace :: "string \<Rightarrow> string" where
  "server_trimSpace s = dropWhile (\<lambda>c. c = CHR '' '' \<or> c = CHR 0x09 \<or> c = CHR 0x0A) s"

definition parseClientNonce :: "string \<Rightarrow> go_error + bytes" where
  "parseClientNonce s =
     (let s = server_trimSpace s in
      if s = [] then Inl (Error ''missing nonce'')
      else let hex = (case hex_decode s of
             None \<Rightarrow> Inl (Error ''hex'')
           | Some b \<Rightarrow> if length b < 8 then Inl (Error ''nonce short'') else Inr b) in
        case b64_raw_url_decode s of
          Some b \<Rightarrow> if length b \<ge> 8 then Inr b else hex
        | None \<Rightarrow> hex)"

definition parseClientOptsJSON :: "(bytes \<Rightarrow> go_error + ProtectionOptions) \<Rightarrow> bytes \<Rightarrow> go_error + ProtectionOptions" where
  "parseClientOptsJSON unmarshal raw = (if raw = [] then Inl (Error ''empty opts'') else unmarshal raw)"

definition CapsVersion :: int where "CapsVersion = 1"

definition skew_of :: "ServerConfig \<Rightarrow> duration" where
  "skew_of cfg = (if sc_HandshakeSkew cfg \<le> 0 then 2 * minute else sc_HandshakeSkew cfg)"

definition window_of :: "ServerConfig \<Rightarrow> duration" where
  "window_of cfg = (if sc_ReplayWindow cfg \<le> 0 then 90 * second else sc_ReplayWindow cfg)"

definition ts_ok :: "ServerConfig \<Rightarrow> instant \<Rightarrow> instant \<Rightarrow> ProtectionOptions \<Rightarrow> bool" where
  "ts_ok cfg t1 t2 o' =
     (let ts = from_unix (po_ClientTsSec o'); slack = wrap64 (skew_of cfg + window_of cfg) in
      \<not> ts < t1 + wrap64 (- skew_of cfg - window_of cfg) \<and> \<not> (ts > t2 + slack))"

text \<open>\<open>clk\<close> gives the three readings of the clock: two for the time stamp, one for the nonce.\<close>

definition validateClientOpts ::
  "ServerConfig \<Rightarrow> string \<Rightarrow> (nat \<Rightarrow> instant) \<Rightarrow> ProtectionOptions \<Rightarrow> nonceCache \<Rightarrow> go_error option \<times> nonceCache" where
  "validateClientOpts cfg token clk o' nonces =
     (if po_CapsVersion o' \<noteq> CapsVersion then (Some (Error ''caps version''), nonces)
      else if po_TransportMask o' = 0 then (Some (Error ''transport mask''), nonces)
      else case parseClientNonce (po_ClientNonce o') of
        Inl e \<Rightarrow> (Some e, nonces)
      | Inr nonce \<Rightarrow>
        if po_ClientTsSec o' = 0 then (Some (Error ''timestamp''), nonces)
        else if \<not> ts_ok cfg (clk 0) (clk 1) o' then (Some (Error ''time skew''), nonces)
        else let (fresh, nonces) = checkAndRemember (window_of cfg) (clk 2) (token @ '':'' @ hex_encode nonce) nonces
             in (if fresh then None else Some (Error ''replay''), nonces))"

section \<open>The wire profile\<close>

datatype WireProfileStyle = StylePlain | StyleHTTP1Like | StyleHTTP2Preface | StyleTLSRecordJunk

definition NewWireProfileRotator :: "int \<Rightarrow> duration" where
  "NewWireProfileRotator rotateSec = dur_of (if rotateSec < 60 then 300 else rotateSec) second"

text \<open>The epoch, and the style with its variant; a period under a second divides by zero.\<close>

definition wire_current :: "duration \<Rightarrow> instant \<Rightarrow> go_error + (int option \<times> WireProfileStyle \<times> byte)" where
  "wire_current period now =
     (if period \<le> 0 then Inr (None, StylePlain, 0)
      else let secs = period div second in
        if secs = 0 then Inl (Panic ''integer divide by zero'')
        else let t = go_div (unix now) secs; r = go_mod t 4 in
          Inr (Some t,
            if r = 0 then (StyleHTTP1Like, word_of_int (go_mod t 7))
            else if r = 1 then (StyleHTTP2Preface, word_of_int (go_mod t 5))
            else if r = 2 then (StyleTLSRecordJunk, word_of_int (go_mod t 11))
            else (StylePlain, 0)))"

section \<open>What the file may say\<close>

lemma ports_of_ok: "ports_of rs = Inr ps \<Longrightarrow> p \<in> set ps \<Longrightarrow> 1 \<le> p \<and> p \<le> 65535"
  by (induction rs arbitrary: ps) (auto simp: Let_def ebind_def split: if_splits option.splits sum.splits)

lemma parsePortsCSV_ok: "parsePortsCSV s = Inr ps \<Longrightarrow> ps \<noteq> [] \<and> (\<forall>p \<in> set ps. 1 \<le> p \<and> p \<le> 65535)"
  using ports_of_ok by (auto simp: parsePortsCSV_def ebind_def split: sum.splits if_splits)

definition quic_ready :: "ServerConfig \<Rightarrow> bool" where
  "quic_ready c \<longleftrightarrow> sc_ServerMode c = ModeTCPOnly \<or>
     1 \<le> sc_QUICListenPort c \<and> sc_QUICListenPort c \<le> 65535 \<and> sc_QUICCertPath c \<noteq> [] \<and> sc_QUICKeyPath c \<noteq> []"

definition reality_ready :: "ServerConfig \<Rightarrow> bool" where
  "reality_ready c \<longleftrightarrow> \<not> sc_RealityEnabled c \<or> sc_RealityDest c \<noteq> [] \<and> sc_RealityPrivateKeyPEM c \<noteq> []"

definition server_config_ok :: "ServerConfig \<Rightarrow> bool" where
  "server_config_ok c \<longleftrightarrow>
     sc_ListenPorts c \<noteq> [] \<and> list_all (\<lambda>p. 1 \<le> p \<and> p \<le> 65535) (sc_ListenPorts c) \<and>
     sc_Token c \<noteq> [] \<and> length (sc_Token c) \<le> 4096 \<and> sc_UDPChannels c = 4 \<and>
     sc_ServerMode c \<in> {ModeTCPOnly, ModeQUICOnly, ModeBoth} \<and> quic_ready c \<and> reality_ready c \<and>
     0 < sc_QUICIdleTimeout c \<and> list_all (\<lambda>i. length i = 8) (sc_RealityShortIDs c) \<and>
     list_all (\<lambda>n. n \<noteq> [] \<and> trim_space n = n) (sc_RealityServerNames c)"

lemma config_of_ok:
  "list_all (\<lambda>i. length i = 8) (sc_RealityShortIDs (config_of p ports token mode))"
  "list_all (\<lambda>n. n \<noteq> [] \<and> trim_space n = n) (sc_RealityServerNames (config_of p ports token mode))"
  "0 < sc_QUICIdleTimeout (config_of p ports token mode)"
  "sc_ListenPorts (config_of p ports token mode) = ports" "sc_Token (config_of p ports token mode) = token"
  "sc_ServerMode (config_of p ports token mode) = mode"
  by (auto simp: config_of_def parse_short_ids_def parse_names_def list_all_iff Let_def duration_units split: option.splits if_splits)

text \<open>
  C34. The server starts only on a sound configuration: whatever the properties file holds, a configuration that is read from it
  has ports in range, a token that fits the handshake, a known mode, what QUIC and Reality need when they are on,
  four UDP channels, a positive idle timeout and eight-byte short identifiers.
\<close>

theorem server_config_sound:
  assumes "LoadConfig file = Inr c"
  shows "server_config_ok c"
proof -
  obtain p ports token mode where
    c: "c = config_of p ports token mode" and ports: "ports \<noteq> [] \<and> (\<forall>p \<in> set ports. 1 \<le> p \<and> p \<le> 65535)"
    and token: "token \<noteq> []" "length token \<le> 4096"
    and rest: "sc_UDPChannels c = 4" "mode \<in> {ModeTCPOnly, ModeQUICOnly, ModeBoth}"
      "mode = ModeTCPOnly \<or> \<not> (sc_QUICListenPort c < 1 \<or> sc_QUICListenPort c > 65535)"
      "mode = ModeTCPOnly \<or> \<not> (sc_QUICCertPath c = [] \<or> sc_QUICKeyPath c = [])"
      "\<not> (sc_RealityEnabled c \<and> (sc_RealityDest c = [] \<or> sc_RealityPrivateKeyPEM c = []))"
    using assms unfolding LoadConfig_def Let_def ebind_def
    by (simp split: sum.splits if_split_asm add: not_less) (metis parsePortsCSV_ok)
  note f = config_of_ok [of p ports token mode, folded c]
  show ?thesis unfolding server_config_ok_def quic_ready_def reality_ready_def f(4-6)
    using f(1-3) ports token rest by (auto simp: list_all_iff)
qed

definition demo_file :: string where
  "demo_file = ''listenPorts=443, 8443'' @ [CHR 0x0A] @ ''token = secret''"

lemma server_config_sound_witness: "\<exists>c. LoadConfig (Inr demo_file) = Inr c \<and> server_config_ok c"
proof -
  have e: "(case LoadConfig (Inr demo_file) of Inr c \<Rightarrow> sc_ListenPorts c | Inl _ \<Rightarrow> []) = [443, 8443]" by code_simp
  show ?thesis
  proof (cases "LoadConfig (Inr demo_file)")
    case (Inr c)
    then show ?thesis using server_config_sound [OF Inr] by blast
  qed (use e in simp)
qed

section \<open>Replays\<close>

lemma time_sub_mono: "t \<le> u \<Longrightarrow> time_sub t s \<le> time_sub u s"
  by (simp add: time_sub_def)

interpretation nonces: replay_guard "checkAndRemember w" "nonce_held w" gomap_ok w for w
proof
  fix s t k
  show "gomap_ok s \<Longrightarrow> gomap_ok (snd (checkAndRemember w t k s))"
    by (auto simp: checkAndRemember_def Let_def gomap)
  show "gomap_ok s \<Longrightarrow> fst (checkAndRemember w t k s) = (\<not> nonce_held w t k s)"
    using mget_filter [of s "\<lambda>_ t'. \<not> time_sub t t' > w"]
    by (auto simp: checkAndRemember_def Let_def nonce_held_def split: option.splits)
next
  fix s t u k assume "gomap_ok s" "t \<le> u" "u \<le> t + w" "fst (checkAndRemember w t k s)"
  then show "nonce_held w u k (snd (checkAndRemember w t k s))"
    by (auto simp: checkAndRemember_def Let_def nonce_held_def gomap time_sub_def split: if_splits)
next
  fix s t u k j assume a: "gomap_ok s" "t \<le> u" "nonce_held w u k s"
  then obtain x where x: "mget s k = Some x" "\<not> time_sub u x > w" by (auto simp: nonce_held_def)
  have "\<not> time_sub t x > w" using time_sub_mono [OF a(2), of x] x(2) by simp
  then have keep: "mget (filter (\<lambda>(k, x). \<not> time_sub t x > w) s) k = Some x"
    using mget_filter [OF a(1), of "\<lambda>_ x. \<not> time_sub t x > w"] x by simp
  show "nonce_held w u k (snd (checkAndRemember w t j s))"
  proof (cases "j = k")
    case True
    then show ?thesis using keep x by (simp add: checkAndRemember_def Let_def nonce_held_def)
  next
    case False
    then show ?thesis using keep x by (auto simp: checkAndRemember_def Let_def nonce_held_def gomap)
  qed
qed

text \<open>What one validation does to the nonces.\<close>

lemma validate_cases:
  obtains "fst (validateClientOpts cfg token clk o' n) \<noteq> None" and "snd (validateClientOpts cfg token clk o' n) = n"
  | nonce where "parseClientNonce (po_ClientNonce o') = Inr nonce" and "ts_ok cfg (clk 0) (clk 1) o'"
    and "fst (validateClientOpts cfg token clk o' n) = None \<longleftrightarrow>
      fst (checkAndRemember (window_of cfg) (clk 2) (token @ '':'' @ hex_encode nonce) n)"
    and "snd (validateClientOpts cfg token clk o' n) = snd (checkAndRemember (window_of cfg) (clk 2) (token @ '':'' @ hex_encode nonce) n)"
proof (cases "po_CapsVersion o' \<noteq> CapsVersion \<or> po_TransportMask o' = 0 \<or> (\<exists>e. parseClientNonce (po_ClientNonce o') = Inl e)
    \<or> po_ClientTsSec o' = 0 \<or> \<not> ts_ok cfg (clk 0) (clk 1) o'")
  case True
  then have "fst (validateClientOpts cfg token clk o' n) \<noteq> None \<and> snd (validateClientOpts cfg token clk o' n) = n"
    by (auto simp: validateClientOpts_def split: sum.split)
  then show thesis using that(1) by blast
next
  case False
  then obtain nonce where p: "parseClientNonce (po_ClientNonce o') = Inr nonce"
    by (cases "parseClientNonce (po_ClientNonce o')") auto
  show thesis
    by (rule that(2) [OF p]) (use False p in \<open>auto simp: validateClientOpts_def Let_def case_prod_beta\<close>)
qed

lemma validate_ok: "gomap_ok n \<Longrightarrow> gomap_ok (snd (validateClientOpts cfg token clk o' n))"
  by (rule validate_cases [of cfg token clk o' n]) (auto intro: nonces.ok_remember)

lemma validate_held:
  "gomap_ok n \<Longrightarrow> clk 2 \<le> u \<Longrightarrow> nonce_held (window_of cfg) u k n \<Longrightarrow>
   nonce_held (window_of cfg) u k (snd (validateClientOpts cfg token clk o' n))"
  by (rule validate_cases [of cfg token clk o' n]) (auto intro: nonces.held_keeps)

fun validate_all :: "ServerConfig \<Rightarrow> (string \<times> (nat \<Rightarrow> instant) \<times> ProtectionOptions) list \<Rightarrow> nonceCache \<Rightarrow> nonceCache" where
  "validate_all cfg [] n = n"
| "validate_all cfg ((token, clk, o') # es) n = validate_all cfg es (snd (validateClientOpts cfg token clk o' n))"

lemma validate_all_held:
  "gomap_ok n \<Longrightarrow> \<forall>(_, clk, _) \<in> set es. clk 2 \<le> u \<Longrightarrow> nonce_held (window_of cfg) u k n \<Longrightarrow>
   gomap_ok (validate_all cfg es n) \<and> nonce_held (window_of cfg) u k (validate_all cfg es n)"
  by (induction cfg es n rule: validate_all.induct) (auto simp: validate_ok validate_held)

lemma accepted:
  assumes "fst (validateClientOpts cfg token clk o' n) = None"
  obtains nonce where "parseClientNonce (po_ClientNonce o') = Inr nonce"
    and "fst (checkAndRemember (window_of cfg) (clk 2) (token @ '':'' @ hex_encode nonce) n)"
    and "snd (validateClientOpts cfg token clk o' n) = snd (checkAndRemember (window_of cfg) (clk 2) (token @ '':'' @ hex_encode nonce) n)"
  by (rule validate_cases [of cfg token clk o' n]) (use assms that in auto)

text \<open>
  C33. A client's options are accepted once: until the replay window is over the server turns down the same options
  under the same token, whatever other clients' options it checks in between, good or bad.
\<close>

theorem server_no_replay:
  assumes "gomap_ok n" and "fst (validateClientOpts cfg token clk o' n) = None"
    and "\<forall>(_, c, _) \<in> set es. c 2 \<le> clk' 2" and "clk 2 \<le> clk' 2" and "clk' 2 \<le> clk 2 + window_of cfg"
  shows "fst (validateClientOpts cfg token clk' o' (validate_all cfg es (snd (validateClientOpts cfg token clk o' n)))) \<noteq> None"
proof -
  let ?n = "snd (validateClientOpts cfg token clk o' n)"
  obtain nonce where p: "parseClientNonce (po_ClientNonce o') = Inr nonce"
    and a: "fst (checkAndRemember (window_of cfg) (clk 2) (token @ '':'' @ hex_encode nonce) n)"
    and s: "?n = snd (checkAndRemember (window_of cfg) (clk 2) (token @ '':'' @ hex_encode nonce) n)"
    by (rule accepted [OF assms(2)])
  have "nonce_held (window_of cfg) (clk' 2) (token @ '':'' @ hex_encode nonce) ?n"
    unfolding s by (rule nonces.held_self [OF assms(1,4,5) a])
  then have h: "gomap_ok (validate_all cfg es ?n)"
    "nonce_held (window_of cfg) (clk' 2) (token @ '':'' @ hex_encode nonce) (validate_all cfg es ?n)"
    using validate_all_held [OF validate_ok [OF assms(1)] assms(3)] by blast+
  show ?thesis
    by (rule validate_cases [of cfg token clk' o' "validate_all cfg es ?n"])
      (use h p nonces.accepts_new [OF h(1)] in auto)
qed

text \<open>
  The gap behind the window. The time stamp is accepted for longer than the nonce is remembered, so the same options are
  accepted a second time exactly when the replay window is over and the time stamp still passes: with the default settings a
  captured handshake works again from the ninety-first second until three and a half minutes after its time stamp.
\<close>

theorem server_replay_gap:
  assumes "gomap_ok n" and "fst (validateClientOpts cfg token (\<lambda>_. t) o' n) = None"
    and "t \<le> u" and "u - t < 2 ^ 63" and "window_of cfg < 2 ^ 63 - 1"
  shows "fst (validateClientOpts cfg token (\<lambda>_. u) o' (snd (validateClientOpts cfg token (\<lambda>_. t) o' n))) = None
    \<longleftrightarrow> window_of cfg < u - t \<and> ts_ok cfg u u o'"
proof -
  let ?n = "snd (validateClientOpts cfg token (\<lambda>_. t) o' n)"
  obtain nonce where p: "parseClientNonce (po_ClientNonce o') = Inr nonce"
    and a: "fst (checkAndRemember (window_of cfg) t (token @ '':'' @ hex_encode nonce) n)"
    and s: "?n = snd (checkAndRemember (window_of cfg) t (token @ '':'' @ hex_encode nonce) n)"
    by (rule accepted [OF assms(2)])
  have ok: "gomap_ok ?n" by (rule validate_ok [OF assms(1)])
  have "mget ?n (token @ '':'' @ hex_encode nonce) = Some t"
    using a unfolding s by (auto simp: checkAndRemember_def Let_def gomap split: if_splits)
  then have h: "nonce_held (window_of cfg) u (token @ '':'' @ hex_encode nonce) ?n \<longleftrightarrow> \<not> window_of cfg < u - t"
    using assms(3,4) by (auto simp: nonce_held_def time_sub_def)
  have "fst (validateClientOpts cfg token (\<lambda>_. u) o' ?n) = None \<longleftrightarrow>
      ts_ok cfg u u o' \<and> fst (checkAndRemember (window_of cfg) u (token @ '':'' @ hex_encode nonce) ?n)"
    using assms(2) p by (auto simp: validateClientOpts_def Let_def case_prod_beta split: if_splits)
  then show ?thesis unfolding nonces.accepts_new [OF ok] h by blast
qed

definition demo_config :: ServerConfig where
  "demo_config = config_of [] [443] ''secret'' ModeTCPOnly"

definition demo_opts :: ProtectionOptions where
  "demo_opts = po_zero\<lparr>po_CapsVersion := 1, po_TransportMask := 1, po_ClientNonce := ''0102030405060708'', po_ClientTsSec := 1000\<rparr>"

lemma demo_accepted:
  "fst (validateClientOpts demo_config ''secret'' (\<lambda>_. 1000 * second) demo_opts []) = None"
  "ts_ok demo_config (1091 * second) (1091 * second) demo_opts" "window_of demo_config = 90 * second"
  by code_simp+

lemma server_no_replay_witness:
  "fst (validateClientOpts demo_config ''secret'' (\<lambda>_. 1090 * second) demo_opts
     (validate_all demo_config [(''other'', \<lambda>_. 1050 * second, demo_opts)]
       (snd (validateClientOpts demo_config ''secret'' (\<lambda>_. 1000 * second) demo_opts [])))) \<noteq> None"
  by (rule server_no_replay [OF _ demo_accepted(1)]) (simp_all add: demo_accepted(3) second_def)

lemma server_replay_gap_witness:
  "fst (validateClientOpts demo_config ''secret'' (\<lambda>_. 1091 * second) demo_opts
     (snd (validateClientOpts demo_config ''secret'' (\<lambda>_. 1000 * second) demo_opts []))) = None"
proof -
  have "window_of demo_config < 2 ^ 63 - 1" "(1091 * second - 1000 * second) < 2 ^ 63" "1000 * second \<le> 1091 * second"
    "window_of demo_config < 1091 * second - 1000 * second"
    by (simp_all add: demo_accepted second_def)
  then show ?thesis using server_replay_gap [OF _ demo_accepted(1), of "1091 * second"] demo_accepted(2) by simp
qed

section \<open>The epochs of the wire profile\<close>

lemma wire_current_no_panic:
  assumes "rotateSec < 2 ^ 33" 
  shows "no_panic (wire_current (NewWireProfileRotator rotateSec) now)"
proof -
  let ?s = "if rotateSec < 60 then 300 else rotateSec"
  have "wrap64 (?s * second) = ?s * second" using assms by (intro wrap64_id) (auto simp: second_def)
  then have "NewWireProfileRotator rotateSec = ?s * second" by (simp add: NewWireProfileRotator_def dur_of_def)
  then have "NewWireProfileRotator rotateSec div second = ?s" by (simp add: second_def)
  then show ?thesis by (auto simp: wire_current_def no_panic_def Let_def)
qed
end
