(* ===== verification/Shaper.thy ===== *)
theory Shaper
  imports GoFloat GoStd
begin

text \<open>
  The traffic shaper, \<^verbatim>\<open>internal/shaper\<close>: a Markov chain over four states gives each packet a target length and a delay. The
  generator (\<^verbatim>\<open>rng.go\<close>) is exact on 64-bit words; the logarithm, square root and cosine of \<^verbatim>\<open>math\<close> are arguments
  (\<open>libm\<close>), and every other operation on \<^verbatim>\<open>float64\<close> is rounded as in \<open>GoFloat\<close>.
\<close>

section \<open>Random numbers\<close>

record libm =
  m_log :: "rat \<Rightarrow> rat"
  m_sqrt :: "rat \<Rightarrow> rat"
  m_cos :: "rat \<Rightarrow> rat"

definition golden :: u64 where "golden = 0x9e3779b97f4a7c15"

definition newPRNG :: "u64 \<Rightarrow> u64" where
  "newPRNG seed = (if seed = 0 then golden else seed)"

definition prng_next :: "u64 \<Rightarrow> u64 \<times> u64" where
  "prng_next s =
     (let s = s + golden; z = s;
          z = (z XOR drop_bit 30 z) * 0xbf58476d1ce4e5b9;
          z = (z XOR drop_bit 27 z) * 0x94d049bb133111eb
      in (z XOR drop_bit 31 z, s))"

definition prng_float64 :: "u64 \<Rightarrow> rat \<times> u64" where
  "prng_float64 s = (let (z, s) = prng_next s in (of_int (uint (drop_bit 11 z)) / 2 ^ 53, s))"

definition tiny :: rat where "tiny = fl64 (1 / 10 ^ 12)"

definition two_pi :: rat where "two_pi = 884279719003555 / 2 ^ 47"

definition normFloat64 :: "libm \<Rightarrow> u64 \<Rightarrow> rat \<times> u64" where
  "normFloat64 lib s =
     (let (u1, s) = prng_float64 s;
          u1 = (if u1 < tiny then tiny else u1);
          (u2, s) = prng_float64 s
      in (fmul (m_sqrt lib (fmul (- 2) (m_log lib u1))) (m_cos lib (fmul two_pi u2)), s))"

datatype distKind = distUniform | distExp | distNormal

record dist =
  di_kind :: distKind
  di_min :: rat
  di_max :: rat
  di_mean :: rat
  di_std :: rat

definition clamp_to :: "dist \<Rightarrow> rat \<Rightarrow> rat" where
  "clamp_to d v = (let v = (if v < di_min d then di_min d else v) in if v > di_max d then di_max d else v)"

definition sample :: "libm \<Rightarrow> dist \<Rightarrow> u64 \<Rightarrow> rat \<times> u64" where
  "sample lib d s =
     (if di_max d \<le> di_min d then (di_min d, s)
      else
        let (v, s) =
          (case di_kind d of
             distUniform \<Rightarrow>
               let (u, s) = prng_float64 s in (fadd (di_min d) (fmul u (fsub (di_max d) (di_min d))), s)
           | distExp \<Rightarrow>
               let (u, s) = prng_float64 s;
                   u = (if u < tiny then tiny else u);
                   mean = (if di_mean d \<le> 0 then fdiv (fsub (di_max d) (di_min d)) 2 else di_mean d)
               in (fadd (di_min d) (fmul (- m_log lib u) mean), s)
           | distNormal \<Rightarrow>
               let std = (if di_std d \<le> 0 then fdiv (fsub (di_max d) (di_min d)) 6 else di_std d);
                   (g, s) = normFloat64 lib s
               in (fadd (di_mean d) (fmul g std), s))
        in (clamp_to d v, s))"

section \<open>Profiles\<close>

datatype State = StateIdle | StateBurst | StateSustained | StateTail

definition numStates :: nat where "numStates = 4"

fun State_String :: "State \<Rightarrow> string" where
  "State_String StateIdle = ''idle''"
| "State_String StateBurst = ''burst''"
| "State_String StateSustained = ''sustained''"
| "State_String StateTail = ''tail''"

record stateParams =
  sp_frameLen :: dist
  sp_delayMs :: dist

record Profile =
  pf_Name :: string
  pf_trans :: "State \<Rightarrow> rat list"
  pf_params :: "State \<Rightarrow> stateParams"
  pf_initial :: State

definition pct :: "int list \<Rightarrow> rat list" where
  "pct ns = map (\<lambda>n. fl64 (of_int n / 100)) ns"

definition mk :: "distKind \<Rightarrow> rat \<Rightarrow> rat \<Rightarrow> rat \<Rightarrow> rat \<Rightarrow> dist" where
  "mk k lo hi mean std = \<lparr>di_kind = k, di_min = lo, di_max = hi, di_mean = mean, di_std = std\<rparr>"

definition by_state :: "'a \<Rightarrow> 'a \<Rightarrow> 'a \<Rightarrow> 'a \<Rightarrow> State \<Rightarrow> 'a" where
  "by_state a b c d s = (case s of StateIdle \<Rightarrow> a | StateBurst \<Rightarrow> b | StateSustained \<Rightarrow> c | StateTail \<Rightarrow> d)"

definition profile_web :: Profile where
  "profile_web = \<lparr>pf_Name = ''web'',
     pf_trans = by_state (pct [55, 35, 8, 2]) (pct [5, 45, 30, 20]) (pct [10, 20, 50, 20]) (pct [55, 10, 15, 20]),
     pf_params = by_state
       \<lparr>sp_frameLen = mk distExp 40 300 80 0, sp_delayMs = mk distExp 5 800 120 0\<rparr>
       \<lparr>sp_frameLen = mk distNormal 800 1400 1300 200, sp_delayMs = mk distExp 0 20 2 0\<rparr>
       \<lparr>sp_frameLen = mk distNormal 400 1400 1000 300, sp_delayMs = mk distExp 1 60 10 0\<rparr>
       \<lparr>sp_frameLen = mk distExp 100 900 300 0, sp_delayMs = mk distExp 2 150 25 0\<rparr>,
     pf_initial = StateIdle\<rparr>"

definition profile_video :: Profile where
  "profile_video = \<lparr>pf_Name = ''video'',
     pf_trans = by_state (pct [30, 20, 45, 5]) (pct [2, 40, 53, 5]) (pct [5, 25, 65, 5]) (pct [40, 15, 40, 5]),
     pf_params = by_state
       \<lparr>sp_frameLen = mk distExp 60 400 120 0, sp_delayMs = mk distExp 5 500 80 0\<rparr>
       \<lparr>sp_frameLen = mk distNormal 1000 1400 1350 120, sp_delayMs = mk distUniform 0 8 0 0\<rparr>
       \<lparr>sp_frameLen = mk distNormal 900 1400 1250 200, sp_delayMs = mk distNormal 8 60 33 10\<rparr>
       \<lparr>sp_frameLen = mk distExp 200 1000 400 0, sp_delayMs = mk distExp 5 120 30 0\<rparr>,
     pf_initial = StateSustained\<rparr>"

definition profile_game :: Profile where
  "profile_game = \<lparr>pf_Name = ''game'',
     pf_trans = by_state (pct [40, 15, 43, 2]) (pct [5, 35, 55, 5]) (pct [8, 17, 70, 5]) (pct [45, 10, 40, 5]),
     pf_params = by_state
       \<lparr>sp_frameLen = mk distExp 30 200 60 0, sp_delayMs = mk distExp 5 300 50 0\<rparr>
       \<lparr>sp_frameLen = mk distNormal 150 600 350 100, sp_delayMs = mk distExp 0 15 3 0\<rparr>
       \<lparr>sp_frameLen = mk distNormal 60 400 180 80, sp_delayMs = mk distNormal 8 50 22 8\<rparr>
       \<lparr>sp_frameLen = mk distExp 40 250 90 0, sp_delayMs = mk distExp 3 80 18 0\<rparr>,
     pf_initial = StateSustained\<rparr>"

definition profile_bulk :: Profile where
  "profile_bulk = \<lparr>pf_Name = ''bulk'',
     pf_trans = by_state (pct [20, 60, 18, 2]) (pct [1, 80, 17, 2]) (pct [3, 55, 40, 2]) (pct [30, 45, 20, 5]),
     pf_params = by_state
       \<lparr>sp_frameLen = mk distExp 100 800 300 0, sp_delayMs = mk distExp 2 200 30 0\<rparr>
       \<lparr>sp_frameLen = mk distNormal 1200 1400 1400 80, sp_delayMs = mk distUniform 0 3 0 0\<rparr>
       \<lparr>sp_frameLen = mk distNormal 800 1400 1200 200, sp_delayMs = mk distExp 0 25 4 0\<rparr>
       \<lparr>sp_frameLen = mk distExp 200 1000 500 0, sp_delayMs = mk distExp 1 60 12 0\<rparr>,
     pf_initial = StateBurst\<rparr>"

definition builtins :: "Profile list" where
  "builtins = [profile_web, profile_video, profile_game, profile_bulk]"

definition ProfileByName :: "string \<Rightarrow> Profile option" where
  "ProfileByName name = find (\<lambda>p. pf_Name p = name) builtins"

definition ProfileNames :: "string list" where
  "ProfileNames = [''web'', ''video'', ''game'', ''bulk'']"

section \<open>The shaper\<close>

definition defaultMaxOverheadPct :: int where "defaultMaxOverheadPct = 100"
definition defaultMaxDelayMs :: int where "defaultMaxDelayMs = 200"
definition maxFrameTarget :: int where "maxFrameTarget = 1400"
definition ewmaAlpha :: rat where "ewmaAlpha = fl64 (1 / 5)"

record ShaperConfig =
  shc_Enabled :: bool
  shc_Profile :: string
  shc_MaxOverheadPct :: int
  shc_MaxDelayMs :: int
  shc_Seed :: u64

record Shaper =
  sh_enabled :: bool
  sh_prof :: Profile
  sh_maxOvhdPct :: int
  sh_maxDelayMs :: int
  sh_rng :: u64
  sh_state :: State
  sh_obsLen :: rat
  sh_lastSeen :: bool

record Decision =
  de_TargetLen :: int
  de_Delay :: duration

definition hash_mix :: "u64 \<Rightarrow> u64 \<Rightarrow> u64" where
  "hash_mix h x = (h XOR x) * 1099511628211"

definition hashSeed :: "string \<Rightarrow> int \<Rightarrow> int \<Rightarrow> u64" where
  "hashSeed profile a b =
     (let h = foldl hash_mix 1469598103934665603 (map ucast (str_bytes profile));
          h = hash_mix (hash_mix h (word_of_int a)) (word_of_int b)
      in if h = 0 then 1 else h)"

definition disabled_shaper :: Shaper where
  "disabled_shaper = \<lparr>sh_enabled = False, sh_prof = profile_web, sh_maxOvhdPct = 0, sh_maxDelayMs = 0, sh_rng = 0,
     sh_state = StateIdle, sh_obsLen = 0, sh_lastSeen = False\<rparr>"

definition New :: "ShaperConfig \<Rightarrow> Shaper" where
  "New cfg =
     (if \<not> shc_Enabled cfg \<or> shc_Profile cfg = [] then disabled_shaper
      else case ProfileByName (shc_Profile cfg) of
        None \<Rightarrow> disabled_shaper
      | Some prof \<Rightarrow>
        let ovhd = (if shc_MaxOverheadPct cfg \<le> 0 then defaultMaxOverheadPct else shc_MaxOverheadPct cfg);
            del = (if shc_MaxDelayMs cfg \<le> 0 then defaultMaxDelayMs else shc_MaxDelayMs cfg);
            seed = (if shc_Seed cfg = 0 then hashSeed (shc_Profile cfg) ovhd del else shc_Seed cfg)
        in \<lparr>sh_enabled = True, sh_prof = prof, sh_maxOvhdPct = ovhd, sh_maxDelayMs = del, sh_rng = newPRNG seed,
            sh_state = pf_initial prof, sh_obsLen = 0, sh_lastSeen = False\<rparr>)"

definition Enabled :: "Shaper option \<Rightarrow> bool" where
  "Enabled s = (case s of None \<Rightarrow> False | Some s \<Rightarrow> sh_enabled s)"

fun pick_state :: "rat \<Rightarrow> rat \<Rightarrow> (State \<times> rat) list \<Rightarrow> State" where
  "pick_state u acc [] = StateTail"
| "pick_state u acc ((s, w) # r) = (let acc = fadd acc w in if u \<le> acc then s else pick_state u acc r)"

definition advance :: "Shaper \<Rightarrow> Shaper" where
  "advance s =
     (let row = pf_trans (sh_prof s) (sh_state s); (u, g) = prng_float64 (sh_rng s) in
      s\<lparr>sh_rng := g, sh_state := pick_state u 0 (zip [StateIdle, StateBurst, StateSustained, StateTail] row)\<rparr>)"

definition observe :: "int \<Rightarrow> Shaper \<Rightarrow> Shaper" where
  "observe payloadLen s =
     (let pl = fl64 (of_int payloadLen) in
      s\<lparr>sh_obsLen := (if \<not> sh_lastSeen s then pl else fadd (fmul ewmaAlpha pl) (fmul (fl64 (4 / 5)) (sh_obsLen s))),
        sh_lastSeen := True\<rparr>)"

definition math_round :: "rat \<Rightarrow> int" where
  "math_round x = (if x < 0 then - \<lfloor>- x + 1 / 2\<rfloor> else \<lfloor>x + 1 / 2\<rfloor>)"

definition adaptTarget :: "int \<Rightarrow> int \<Rightarrow> Shaper \<Rightarrow> int" where
  "adaptTarget profileTarget payloadLen s =
     (if sh_obsLen s \<le> 0 then profileTarget
      else let t = math_round (fadd (fmul (fl64 (7 / 10)) (fl64 (of_int profileTarget))) (fmul (fl64 (3 / 10)) (sh_obsLen s)))
           in if t < payloadLen then payloadLen else t)"

definition capTarget :: "int \<Rightarrow> int \<Rightarrow> Shaper \<Rightarrow> int" where
  "capTarget target payloadLen s =
     (if target \<le> payloadLen then 0
      else let maxAdd = go_div (wrap64 (payloadLen * sh_maxOvhdPct s)) 100;
               maxAdd = (if maxAdd < 0 then 0 else maxAdd);
               target = (if wrap64 (target - payloadLen) > maxAdd then wrap64 (payloadLen + maxAdd) else target);
               target = (if target > maxFrameTarget \<and> payloadLen \<le> maxFrameTarget then maxFrameTarget else target)
           in if target \<le> payloadLen then 0 else target)"

definition capDelay :: "rat \<Rightarrow> Shaper \<Rightarrow> rat" where
  "capDelay ms s =
     (if ms < 0 then 0 else if ms > fl64 (of_int (sh_maxDelayMs s)) then fl64 (of_int (sh_maxDelayMs s)) else ms)"

definition Next :: "libm \<Rightarrow> int \<Rightarrow> Shaper option \<Rightarrow> Decision \<times> Shaper option" where
  "Next lib payloadLen s =
     (case s of
        None \<Rightarrow> (\<lparr>de_TargetLen = 0, de_Delay = 0\<rparr>, None)
      | Some s \<Rightarrow>
        if \<not> sh_enabled s then (\<lparr>de_TargetLen = 0, de_Delay = 0\<rparr>, Some s)
        else
          let s = advance (observe payloadLen s);
              p = pf_params (sh_prof s) (sh_state s);
              (t, g) = sample lib (sp_frameLen p) (sh_rng s);
              (delayMs, g) = sample lib (sp_delayMs p) g;
              s = s\<lparr>sh_rng := g\<rparr>;
              target = capTarget (adaptTarget (trunc t) payloadLen s) payloadLen s
          in (\<lparr>de_TargetLen = target, de_Delay = wrap64 (trunc (capDelay delayMs s) * millisecond)\<rparr>, Some s))"

section \<open>The vectors of the tests\<close>

lemma prng_vectors:
  "fst (prng_next (newPRNG 12345)) = 0x22118258a9d111a0"
  "fst (prng_next (snd (prng_next (newPRNG 12345)))) = 0x346edce5f713f8ed"
  "fst (prng_next (snd (prng_next (snd (prng_next (newPRNG 12345)))))) = 0x1e9a57bc80e6721d"
  by code_simp+

lemma hashSeed_vector: "hashSeed ''web'' 100 200 = 0x5b37348f357dadff"
  by code_simp

lemma transition_rows:
  "list_all (\<lambda>p. list_all (\<lambda>s. length (pf_trans p s) = 4) [StateIdle, StateBurst, StateSustained, StateTail]) builtins"
  by (simp add: builtins_def profile_web_def profile_video_def profile_game_def profile_bulk_def by_state_def pct_def)

section \<open>What a decision may be\<close>

lemma prng_float64_range: "0 \<le> fst (prng_float64 s) \<and> fst (prng_float64 s) < 1"
proof -
  obtain z t where z: "prng_next s = (z, t)" by fastforce
  have "uint (drop_bit 11 z :: u64) = uint z div 2 ^ 11" by (simp add: drop_bit_eq_div uint_div)
  moreover have "uint z < 2 ^ 64" using uint_lt2p [of z] by simp
  ultimately have "uint (drop_bit 11 z :: u64) < 2 ^ 53" by simp
  then have "(of_int (uint (drop_bit 11 z :: u64)) :: rat) < of_int (2 ^ 53)" by (simp only: of_int_less_iff)
  moreover have "(0 :: rat) \<le> of_int (uint (drop_bit 11 z :: u64))" by (simp only: of_int_0_le_iff unsigned_greater_eq)
  moreover have "0 \<le> a \<Longrightarrow> a < of_int (2 ^ 53) \<Longrightarrow> 0 \<le> a / 2 ^ 53 \<and> a / 2 ^ 53 < 1" for a :: rat by simp
  ultimately show ?thesis unfolding prng_float64_def z Let_def prod.case fst_conv by blast
qed

lemma clamp_to_bounds: "di_min d \<le> di_max d \<Longrightarrow> di_min d \<le> clamp_to d v \<and> clamp_to d v \<le> di_max d"
  by (simp add: clamp_to_def Let_def)

lemma sample_bounds: "di_min d \<le> di_max d \<Longrightarrow> di_min d \<le> fst (sample lib d s) \<and> fst (sample lib d s) \<le> di_max d"
  using clamp_to_bounds [of d] by (simp add: sample_def Let_def case_prod_beta)

lemma capTarget_bounds:
  assumes "0 \<le> n" and "0 < sh_maxOvhdPct s" and "n * sh_maxOvhdPct s < 2 ^ 62" and "t < 2 ^ 63"
  shows "capTarget t n s = 0 \<or> n < capTarget t n s \<and> capTarget t n s \<le> n + n * sh_maxOvhdPct s div 100
    \<and> (n \<le> maxFrameTarget \<longrightarrow> capTarget t n s \<le> maxFrameTarget)"
proof (cases "t \<le> n")
  case False
  have p: "0 \<le> n * sh_maxOvhdPct s" using assms by simp
  have m: "go_div (wrap64 (n * sh_maxOvhdPct s)) 100 = n * sh_maxOvhdPct s div 100"
    using p assms(3) by (simp add: wrap64_id go_div_nonneg)
  have a: "0 \<le> n * sh_maxOvhdPct s div 100" "n * sh_maxOvhdPct s div 100 < 2 ^ 62" using p assms(3) by auto
  have "n \<le> n * sh_maxOvhdPct s" using assms(1,2) by (metis mult.right_neutral mult_left_mono int_one_le_iff_zero_less)
  then have n: "n < 2 ^ 62" using assms(3) by linarith
  have w: "wrap64 (t - n) = t - n" "wrap64 (n + n * sh_maxOvhdPct s div 100) = n + n * sh_maxOvhdPct s div 100"
    using False assms(1,4) a n by (auto intro!: wrap64_id)
  show ?thesis using False a by (auto simp: capTarget_def Let_def m w maxFrameTarget_def)
qed (simp add: capTarget_def)

lemma capDelay_bounds:
  assumes "0 < sh_maxDelayMs s" and "sh_maxDelayMs s < 2 ^ 43"
  shows "0 \<le> wrap64 (trunc (capDelay ms s) * millisecond) \<and> wrap64 (trunc (capDelay ms s) * millisecond) \<le> sh_maxDelayMs s * millisecond"
proof -
  have e: "fl64 (of_int (sh_maxDelayMs s)) = of_int (sh_maxDelayMs s)" using assms by (intro fl64_of_int) auto
  have c: "0 \<le> capDelay ms s" "capDelay ms s \<le> of_int (sh_maxDelayMs s)" using assms(1) by (auto simp: capDelay_def e)
  have t: "0 \<le> trunc (capDelay ms s)" "trunc (capDelay ms s) \<le> sh_maxDelayMs s"
    using c by (auto simp: trunc_def floor_le_iff intro: order_le_less_trans)
  then have "wrap64 (trunc (capDelay ms s) * millisecond) = trunc (capDelay ms s) * millisecond"
    using assms(2) by (intro wrap64_id) (auto simp: millisecond_def)
  then show ?thesis using t by (simp add: millisecond_def)
qed

text \<open>The settings of a shaper stay as they were made; its profile is one of the built-in ones.\<close>

definition same_settings :: "Shaper \<Rightarrow> Shaper \<Rightarrow> bool" where
  "same_settings s t \<longleftrightarrow> sh_enabled t = sh_enabled s \<and> sh_prof t = sh_prof s \<and> sh_maxOvhdPct t = sh_maxOvhdPct s \<and> sh_maxDelayMs t = sh_maxDelayMs s"

lemma Next_settings: "\<exists>t. snd (Next lib n (Some s)) = Some t \<and> same_settings s t"
  by (simp add: Next_def Let_def case_prod_beta advance_def observe_def same_settings_def)

fun shape_run :: "libm \<Rightarrow> int list \<Rightarrow> Shaper option \<Rightarrow> Shaper option" where
  "shape_run lib [] s = s"
| "shape_run lib (n # ns) s = shape_run lib ns (snd (Next lib n s))"

lemma shape_run_settings: "\<exists>t. shape_run lib ns (Some s) = Some t \<and> same_settings s t"
proof (induction ns arbitrary: s)
  case (Cons n ns)
  obtain t where t: "snd (Next lib n (Some s)) = Some t" "same_settings s t" using Next_settings by blast
  obtain u where "shape_run lib ns (Some t) = Some u" "same_settings t u" using Cons by blast
  then show ?case using t by (auto simp: same_settings_def)
qed (simp add: same_settings_def)

lemma New_positive: "sh_enabled (New cfg) \<Longrightarrow> 0 < sh_maxOvhdPct (New cfg) \<and> 0 < sh_maxDelayMs (New cfg)"
  by (auto simp: New_def Let_def disabled_shaper_def defaultMaxOverheadPct_def defaultMaxDelayMs_def split: option.splits if_splits)

lemma round_small: "x \<le> of_int k \<Longrightarrow> 0 \<le> k \<Longrightarrow> math_round x \<le> k"
proof (cases "x < 0")
  case True
  assume "0 \<le> k"
  have "0 \<le> \<lfloor>- x + 1 / 2\<rfloor>" using True by (simp add: le_floor_iff)
  then show ?thesis using \<open>0 \<le> k\<close> unfolding math_round_def if_P [OF True] by linarith
next
  case False
  assume "x \<le> of_int k"
  then have "x + 1 / 2 < of_int (k + 1)" by simp
  then have "\<lfloor>x + 1 / 2\<rfloor> < k + 1" by (simp only: floor_less_iff)
  then show ?thesis using False by (simp add: math_round_def)
qed

definition packet_max :: int where "packet_max = 2 ^ 20"

text \<open>The moving average of packet lengths stays under the bound of the packets, rounding included.\<close>

lemma fl64_at:
  assumes "0 < x" and "2 powi e \<le> x" and "x < 2 powi (e + 1)"
  shows "fl64 x = of_int (round_even (x * 2 powi (52 - e))) / 2 powi (52 - e)"
proof -
  have b: "2 powi exp2 x \<le> x" "x < 2 powi (exp2 x + 1)" using exp2_bounds [OF assms(1)] by simp_all
  have "(2 :: rat) powi a \<le> x \<Longrightarrow> x < 2 powi (c + 1) \<Longrightarrow> a \<le> c" for a c :: int
    using power_int_increasing [of "c + 1" a "2 :: rat"] by (cases "c + 1 \<le> a") auto
  then have "exp2 x = e" using b assms(2,3) by (meson order_antisym)
  then show ?thesis using assms(1) by (simp add: fl64_def Let_def)
qed

lemma ewma_round: "x \<le> 3602879701896397 / 2 ^ 34 \<Longrightarrow> y \<le> 3602879701896397 / 2 ^ 32 \<Longrightarrow> fl64 (x + y) \<le> 2 ^ 20"
proof -
  assume "x \<le> 3602879701896397 / 2 ^ 34" and "y \<le> 3602879701896397 / 2 ^ 32"
  then have "x + y \<le> 18014398509481985 / 2 ^ 34" by simp
  then have "fl64 (x + y) \<le> fl64 (18014398509481985 / 2 ^ 34)" by (rule fl64_mono)
  also have "fl64 (18014398509481985 / 2 ^ 34) = of_int (round_even (18014398509481985 / 2 ^ 34 * 2 powi (52 - 20))) / 2 powi (52 - 20)"
    by (rule fl64_at) simp_all
  also have "\<dots> = 2 ^ 20"
  proof -
    have "(18014398509481985 / 2 ^ 34 * 2 powi (52 - 20) :: rat) = 4503599627370496 + 1 / 4" by simp
    moreover have "\<lfloor>4503599627370496 + 1 / 4 :: rat\<rfloor> = 4503599627370496" by (simp add: floor_eq_iff)
    ultimately show ?thesis by (simp add: round_even_def Let_def)
  qed
  finally show ?thesis .
qed

lemma len_float: "0 \<le> n \<Longrightarrow> n \<le> packet_max \<Longrightarrow> fl64 (of_int n) = of_int n \<and> fl64 (of_int n) \<le> 2 ^ 20"
proof -
  assume n: "0 \<le> n" "n \<le> packet_max"
  then have "fl64 (of_int n) = of_int n" by (intro fl64_of_int) (auto simp: packet_max_def)
  moreover have "(of_int n :: rat) \<le> of_int (2 ^ 20)" using n by (simp only: of_int_le_iff packet_max_def)
  ultimately show ?thesis by simp
qed

lemma observe_le:
  assumes "0 \<le> n" and "n \<le> packet_max" and "sh_obsLen s \<le> 2 ^ 20"
  shows "sh_obsLen (observe n s) \<le> 2 ^ 20"
proof -
  have n: "fl64 (of_int n) \<le> 2 ^ 20" using len_float [OF assms(1,2)] by simp
  have c: "fl64 (1 / 5) \<le> 3602879701896397 / 2 ^ 54" "fl64 (4 / 5) \<le> 3602879701896397 / 2 ^ 52"
    using fl64_upper [of 3602879701896397 "1 / 5" 54] fl64_upper [of 3602879701896397 "4 / 5" 52] by simp_all
  have up: "fl64 (c * y) \<le> 3602879701896397 / 2 ^ k"
    if "0 \<le> c" "c \<le> 3602879701896397 / 2 ^ (k + 20)" "y \<le> 2 ^ 20" for c y :: rat and k
  proof -
    have "c * y \<le> c * 2 ^ 20" using that(1,3) by (rule mult_left_mono [rotated])
    also have "\<dots> \<le> 3602879701896397 / 2 ^ (k + 20) * 2 ^ 20" using that(2) by (rule mult_right_mono) simp
    also have "\<dots> = of_int 3602879701896397 / 2 ^ k" by (simp add: power_add)
    finally show ?thesis using fl64_upper [of 3602879701896397 "c * y" k] by simp
  qed
  have "fadd (fmul ewmaAlpha (fl64 (of_int n))) (fmul (fl64 (4 / 5)) (sh_obsLen s)) \<le> 2 ^ 20"
    unfolding fops ewmaAlpha_def using c fl.nonneg [of "1 / 5"] fl.nonneg [of "4 / 5"] n assms(3)
    by (intro ewma_round up) simp_all
  then show ?thesis using n by (simp add: observe_def Let_def)
qed

lemma Next_obs: "snd (Next lib n (Some s)) = Some t \<Longrightarrow> sh_obsLen t = (if sh_enabled s then sh_obsLen (observe n s) else sh_obsLen s)"
  by (auto simp: Next_def Let_def case_prod_beta advance_def observe_def)

lemma shape_run_obs:
  "list_all (\<lambda>n. 0 \<le> n \<and> n \<le> packet_max) ns \<Longrightarrow> sh_obsLen s \<le> 2 ^ 20 \<Longrightarrow> shape_run lib ns (Some s) = Some t \<Longrightarrow> sh_obsLen t \<le> 2 ^ 20"
proof (induction ns arbitrary: s)
  case (Cons n ns)
  obtain u where u: "snd (Next lib n (Some s)) = Some u" using Next_settings by blast
  have "sh_obsLen u \<le> 2 ^ 20" using Cons.prems(1,2) observe_le [of n s] Next_obs [OF u] by simp
  then show ?case using Cons.IH [of u] Cons.prems(1,3) u by simp
qed simp

lemma scaled_under: "0 \<le> c \<Longrightarrow> c \<le> 1 \<Longrightarrow> x \<le> 2 ^ 20 \<Longrightarrow> fmul (fl64 c) x \<le> 2 ^ 20"
proof -
  assume c: "0 \<le> c" "c \<le> 1" and x: "x \<le> 2 ^ 20"
  have "fl64 c * x \<le> fl64 c * 2 ^ 20" using fl.nonneg [OF c(1)] x by (rule mult_left_mono [rotated])
  also have "\<dots> \<le> 2 ^ 20" using fl.at_most_1 [OF c(2)] by simp
  finally show ?thesis using fl64_upper [of "2 ^ 20" "fl64 c * x" 0] by (simp add: fmul_def)
qed

lemma adaptTarget_le:
  assumes "sh_obsLen s \<le> 2 ^ 20" and "t \<le> 2 ^ 20" and "n \<le> packet_max" and "- (2 ^ 20) \<le> t"
  shows "adaptTarget t n s \<le> 2 ^ 21"
proof -
  have "fl64 (of_int t) = of_int t" using assms(2,4) by (intro fl64_of_int) auto
  moreover have "(of_int t :: rat) \<le> of_int (2 ^ 20)" using assms(2) by (simp only: of_int_le_iff)
  ultimately have t: "fl64 (of_int t) \<le> 2 ^ 20" by simp
  have "fmul (fl64 (7 / 10)) (fl64 (of_int t)) + fmul (fl64 (3 / 10)) (sh_obsLen s) \<le> 2 ^ 21"
    using scaled_under [of "7 / 10", OF _ _ t] scaled_under [of "3 / 10", OF _ _ assms(1)] by simp
  then have "fadd (fmul (fl64 (7 / 10)) (fl64 (of_int t))) (fmul (fl64 (3 / 10)) (sh_obsLen s)) \<le> of_int (2 ^ 21)"
    using fl64_upper [of "2 ^ 21" _ 0] by (simp add: fadd_def)
  then have "math_round (fadd (fmul (fl64 (7 / 10)) (fl64 (of_int t))) (fmul (fl64 (3 / 10)) (sh_obsLen s))) \<le> 2 ^ 21"
    by (rule round_small) simp
  then show ?thesis using assms(2,3) by (simp add: adaptTarget_def Let_def packet_max_def)
qed

lemma builtin_ranges:
  assumes "p \<in> set builtins"
  shows "0 \<le> di_min (sp_frameLen (pf_params p s)) \<and> di_min (sp_frameLen (pf_params p s)) \<le> di_max (sp_frameLen (pf_params p s))
    \<and> di_max (sp_frameLen (pf_params p s)) \<le> 1400"
  using assms
  by (cases s) (auto simp: builtins_def profile_web_def profile_video_def profile_game_def profile_bulk_def by_state_def mk_def)

lemma New_builtin: "sh_prof (New cfg) \<in> set builtins"
proof -
  have "ProfileByName x = Some p \<Longrightarrow> p \<in> set builtins" for x p by (auto simp: ProfileByName_def find_Some_iff)
  then show ?thesis by (auto simp: New_def Let_def disabled_shaper_def builtins_def split: option.split)
qed

text \<open>
  C35. What the shaper may ask for. Whatever the functions of the mathematics library return, and after any packets (of up to a
  megabyte) before, a shaper made from a configuration asks either for no padding or for a longer frame, within the configured
  overhead and, unless the packet is already longer, within 1400 bytes; the delay is never negative and never above
  the configured one. A shaper that is off, or whose profile is not known, asks for nothing.
\<close>

theorem shaper_decision_bounds:
  assumes "list_all (\<lambda>n. 0 \<le> n \<and> n \<le> packet_max) (n # ns)"
    and "shc_MaxOverheadPct cfg < 2 ^ 42" and "shc_MaxDelayMs cfg < 2 ^ 43"
    and "d = fst (Next lib n (shape_run lib ns (Some (New cfg))))"
  shows "if sh_enabled (New cfg)
    then (de_TargetLen d = 0 \<or> n < de_TargetLen d \<and> de_TargetLen d \<le> n + n * sh_maxOvhdPct (New cfg) div 100
         \<and> (n \<le> maxFrameTarget \<longrightarrow> de_TargetLen d \<le> maxFrameTarget))
      \<and> 0 \<le> de_Delay d \<and> de_Delay d \<le> sh_maxDelayMs (New cfg) * millisecond
    else de_TargetLen d = 0 \<and> de_Delay d = 0"
proof -
  have n: "0 \<le> n" "n \<le> packet_max" and ns: "list_all (\<lambda>n. 0 \<le> n \<and> n \<le> packet_max) ns" using assms(1) by simp_all
  obtain s where s: "shape_run lib ns (Some (New cfg)) = Some s" and same: "same_settings (New cfg) s"
    using shape_run_settings by blast
  have z: "sh_obsLen (New cfg) = 0" by (auto simp: New_def Let_def disabled_shaper_def split: option.split)
  have o: "sh_obsLen s \<le> 2 ^ 20" using shape_run_obs [OF ns _ s] z by simp
  show ?thesis
  proof (cases "sh_enabled (New cfg)")
    case False
    then show ?thesis using same by (simp add: assms(4) s Next_def same_settings_def)
  next
    case True
    have en: "sh_enabled s" "sh_maxOvhdPct s = sh_maxOvhdPct (New cfg)" "sh_maxDelayMs s = sh_maxDelayMs (New cfg)" "sh_prof s \<in> set builtins"
      using same True New_builtin [of cfg] by (auto simp: same_settings_def)
    have pos: "0 < sh_maxOvhdPct (New cfg)" "0 < sh_maxDelayMs (New cfg)" using New_positive [OF True] by simp_all
    have lim: "sh_maxOvhdPct (New cfg) < 2 ^ 42" "sh_maxDelayMs (New cfg) < 2 ^ 43" using assms(2,3) True
      by (auto simp: New_def Let_def disabled_shaper_def defaultMaxOverheadPct_def defaultMaxDelayMs_def split: option.splits if_splits)
    let ?a = "advance (observe n s)"
    have a: "sh_prof ?a = sh_prof s" "sh_obsLen ?a \<le> 2 ^ 20" "sh_maxOvhdPct ?a = sh_maxOvhdPct s" "sh_maxDelayMs ?a = sh_maxDelayMs s"
      using observe_le [OF n o] by (simp_all add: advance_def observe_def case_prod_beta Let_def)
    let ?d = "sp_frameLen (pf_params (sh_prof ?a) (sh_state ?a))"
    obtain x g where x: "sample lib ?d (sh_rng ?a) = (x, g)" by fastforce
    have r: "0 \<le> x" "x \<le> 1400"
      using builtin_ranges [OF en(4), of "sh_state ?a"] sample_bounds [of ?d lib "sh_rng ?a"] a(1) x by auto
    have tr: "0 \<le> trunc x" "trunc x \<le> 1400" using r by (auto simp: trunc_def floor_le_iff)
    obtain y g' where y: "sample lib (sp_delayMs (pf_params (sh_prof ?a) (sh_state ?a))) g = (y, g')" by fastforce
    let ?f = "?a\<lparr>sh_rng := g'\<rparr>"
    have t: "adaptTarget (trunc x) n ?f < 2 ^ 63"
      using adaptTarget_le [of ?f "trunc x" n] a(2) tr n(2) by simp
    have m: "n * sh_maxOvhdPct ?f < 2 ^ 62"
    proof -
      have "n * sh_maxOvhdPct ?f \<le> 2 ^ 20 * (2 ^ 42 - 1)"
        using n lim pos a en by (intro mult_mono) (auto simp: packet_max_def)
      then show ?thesis by simp
    qed
    have d: "de_TargetLen d = capTarget (adaptTarget (trunc x) n ?f) n ?f" "de_Delay d = wrap64 (trunc (capDelay y ?f) * millisecond)"
      by (simp_all add: assms(4) s Next_def en(1) Let_def x y)
    have f: "sh_maxOvhdPct ?f = sh_maxOvhdPct (New cfg)" "sh_maxDelayMs ?f = sh_maxDelayMs (New cfg)" using a en by simp_all
    have p: "0 < sh_maxOvhdPct ?f" "0 < sh_maxDelayMs ?f" "sh_maxDelayMs ?f < 2 ^ 43" unfolding f by (fact pos lim(2))+
    show ?thesis unfolding d
      using True capTarget_bounds [OF n(1) p(1) m t] capDelay_bounds [OF p(2,3), of y] by (simp add: f)
  qed
qed

definition demo_lib :: libm where "demo_lib = \<lparr>m_log = \<lambda>_. - 1, m_sqrt = \<lambda>_. 1, m_cos = \<lambda>_. 1\<rparr>"

lemma shaper_decision_bounds_witness:
  "let d = fst (Next demo_lib 200 (shape_run demo_lib [1000]
      (Some (New \<lparr>shc_Enabled = True, shc_Profile = ''web'', shc_MaxOverheadPct = 50, shc_MaxDelayMs = 20, shc_Seed = 7\<rparr>))))
   in (de_TargetLen d = 0 \<or> 200 < de_TargetLen d \<and> de_TargetLen d \<le> 300) \<and> 0 \<le> de_Delay d \<and> de_Delay d \<le> 20 * millisecond"
proof -
  let ?c = "\<lparr>shc_Enabled = True, shc_Profile = ''web'', shc_MaxOverheadPct = 50, shc_MaxDelayMs = 20, shc_Seed = 7\<rparr>"
  have "ProfileByName ''web'' = Some profile_web" by (simp add: ProfileByName_def builtins_def profile_web_def)
  then have e: "sh_enabled (New ?c)" "sh_maxOvhdPct (New ?c) = 50" "sh_maxDelayMs (New ?c) = 20" by (simp_all add: New_def Let_def)
  obtain d where d: "d = fst (Next demo_lib 200 (shape_run demo_lib [1000] (Some (New ?c))))" by simp
  show ?thesis unfolding d [symmetric] Let_def
    using shaper_decision_bounds [OF _ _ _ d] e by (auto simp: packet_max_def)
qed
end
