(* ===== verification/Dialing.thy ===== *)
theory Dialing
  imports PeerRelay Dexote
begin

text \<open>
  Connections of the client, \<^verbatim>\<open>internal/tunnel/tunnel.go\<close>, \<^verbatim>\<open>dexote_dial.go\<close>, \<^verbatim>\<open>peer_udp.go\<close>, \<^verbatim>\<open>quic_resolve.go\<close>,
  \<^verbatim>\<open>active_volter.go\<close> and \<^verbatim>\<open>route_trace.go\<close>. A \<open>net_env\<close> is what lies outside: sockets, QUIC and the Dexote handshake over them
  (theory Dexote has the handshake itself) answer the \<open>n\<close>-th attempt with an error or with a \<open>link\<close>, which has the outcome of
  the write of the request and the bytes that come back. A \<open>world\<close> is what the process keeps: the attempts made, the live settings and the
  trace of the last route. Deadlines, closing and logging are left out.
\<close>

section \<open>Servers\<close>

definition DefaultQUICPort :: string where "DefaultQUICPort = ''4433''"

definition ResolveQUICDialAddr :: "string list \<Rightarrow> string \<Rightarrow> go_error + string \<times> bool" where
  "ResolveQUICDialAddr serverAddrs quicServer =
     (let s = trim_space quicServer in
      if s \<noteq> [] then
        (case split_host_port s of
           None \<Rightarrow> Inr (join_host_port s DefaultQUICPort, True)
         | Some _ \<Rightarrow> Inr (s, False))
      else case serverAddrs of
        [] \<Rightarrow> Inl (Error ''quic: no tcp server address to derive QUIC host'')
      | a # _ \<Rightarrow> (case split_host_port a of
          None \<Rightarrow> Inl (Error ''quic: parse'')
        | Some (h, _) \<Rightarrow> Inr (join_host_port h DefaultQUICPort, True)))"

fun same_host :: "string \<Rightarrow> string list \<Rightarrow> string option" where
  "same_host qh [] = None"
| "same_host qh (sa # sas) =
     (let sa = trim_space sa in
      if sa = [] then same_host qh sas
      else case split_host_port sa of
        None \<Rightarrow> if equal_fold (trim_chars ''[]'' sa) qh then Some sa else same_host qh sas
      | Some (sh, _) \<Rightarrow> if trim_chars ''[]'' (to_lower sh) = qh then Some sa else same_host qh sas)"

definition PickServerAddrForQUIC :: "string list \<Rightarrow> string \<Rightarrow> string" where
  "PickServerAddrForQUIC serverAddrs quicServer =
     (case serverAddrs of
        [] \<Rightarrow> []
      | a0 # _ \<Rightarrow>
        (case ResolveQUICDialAddr serverAddrs quicServer of
           Inl _ \<Rightarrow> trim_space a0
         | Inr (qa, _) \<Rightarrow>
           (case split_host_port qa of
              None \<Rightarrow> trim_space a0
            | Some (qh, _) \<Rightarrow>
              (case same_host (trim_chars ''[]'' (to_lower qh)) serverAddrs of
                 Some sa \<Rightarrow> sa
               | None \<Rightarrow> trim_space a0))))"

definition UsesQUICTransport :: "string \<Rightarrow> string \<Rightarrow> bool" where
  "UsesQUICTransport transport quicServer =
     (if equal_fold transport ''tcp'' then False
      else if equal_fold transport ''quic'' then True
      else trim_space quicServer \<noteq> [])"

definition ResolvedTransportLabel :: "string \<Rightarrow> string \<Rightarrow> string" where
  "ResolvedTransportLabel transport quicServer = (if UsesQUICTransport transport quicServer then ''quic'' else ''tcp'')"

definition VolterTunnelTag :: "string \<Rightarrow> string \<Rightarrow> string" where
  "VolterTunnelTag transport quicServer = (if UsesQUICTransport transport quicServer then ''QUIC'' else ''TCP'')"

text \<open>The server a destination starts with. The sum is a \<^verbatim>\<open>uint\<close> of 64 bits, its conversion to \<^verbatim>\<open>int\<close> keeps the bits.\<close>

record target =
  tg_ip :: bytes
  tg_text :: string
  tg_port :: u16

definition addr_hash :: "string \<Rightarrow> u16 \<Rightarrow> u64" where
  "addr_hash text port = fold (\<lambda>b h. h * 31 + ucast b) (str_bytes text) 0 + ucast port"

definition pickAddrIndex :: "string list \<Rightarrow> string \<Rightarrow> u16 \<Rightarrow> int" where
  "pickAddrIndex addrs text port =
     (if length addrs = 1 then 0 else go_mod (sint (addr_hash text port)) (int (length addrs)))"

definition at_int :: "'a list \<Rightarrow> int \<Rightarrow> go_error + 'a" where
  "at_int xs i = (if i < 0 then Inl (Panic ''index out of range'') else bidx xs (nat i))"

definition pickAddr :: "string list \<Rightarrow> string \<Rightarrow> u16 \<Rightarrow> go_error + string" where
  "pickAddr addrs text port = at_int addrs (pickAddrIndex addrs text port)"

section \<open>The world of a dial\<close>

record link =
  lk_id :: string
  lk_write :: "go_error option"
  lk_in :: bytes

datatype via = ViaTCP | ViaQUIC | ViaPeerQUIC | ViaPeerUDP

record attempt =
  at_via :: via
  at_addr :: string
  at_prot :: "ProtectionOptions option"

record route_trace =
  rt_target :: string
  rt_plan :: string
  rt_hop :: string
  rt_reason :: string

definition SetRouteTrace :: "string \<Rightarrow> string \<Rightarrow> string \<Rightarrow> string \<Rightarrow> route_trace \<Rightarrow> route_trace" where
  "SetRouteTrace target plan hop reason t =
     \<lparr>rt_target = (if target \<noteq> [] then target else rt_target t),
      rt_plan = (if plan \<noteq> [] then plan else rt_plan t),
      rt_hop = (if hop \<noteq> [] then hop else rt_hop t),
      rt_reason = (if reason \<noteq> [] then reason else rt_reason t)\<rparr>"

definition LastRouteTrace :: "route_trace \<Rightarrow> string \<times> string \<times> string \<times> string" where
  "LastRouteTrace t = (rt_target t, rt_plan t, rt_hop t, rt_reason t)"

record world =
  wd_live :: live
  wd_trace :: route_trace
  wd_tries :: "attempt list"
  wd_slept :: duration

abbreviation wd_n :: "world \<Rightarrow> nat" where
  "wd_n w \<equiv> length (wd_tries w)"

definition note_try :: "via \<Rightarrow> string \<Rightarrow> ProtectionOptions option \<Rightarrow> world \<Rightarrow> world" where
  "note_try v addr prot w = w\<lparr>wd_tries := wd_tries w @ [\<lparr>at_via = v, at_addr = addr, at_prot = prot\<rparr>]\<rparr>"

text \<open>\<open>ne_quic_open\<close> dials an address, or opens a stream on the shared connection where there is none.\<close>

record net_env =
  ne_pub :: bytes
  ne_sha256 :: "bytes \<Rightarrow> bytes"
  ne_hmac :: "bytes \<Rightarrow> bytes \<Rightarrow> bytes"
  ne_marshal :: "ProtectionOptions \<Rightarrow> bytes"
  ne_rnd :: "nat \<Rightarrow> bytes option"
  ne_nonce :: "nat \<Rightarrow> bytes option"
  ne_clock :: "nat \<Rightarrow> int"
  ne_tcp :: "nat \<Rightarrow> string \<Rightarrow> int \<Rightarrow> ClientHelloPayload \<Rightarrow> go_error + link"
  ne_quic_open :: "nat \<Rightarrow> string option \<Rightarrow> go_error option"
  ne_quic :: "nat \<Rightarrow> string option \<Rightarrow> int \<Rightarrow> ClientHelloPayload \<Rightarrow> go_error + link"
  ne_udp :: "nat \<Rightarrow> string \<Rightarrow> int \<Rightarrow> ClientHelloPayload \<Rightarrow> go_error + link"

definition SlotForProtection :: "net_env \<Rightarrow> nat \<Rightarrow> ProtectionOptions option \<Rightarrow> int" where
  "SlotForProtection env n prot =
     EffectiveSlot (ne_clock env n) (ne_clock env n) (case prot of None \<Rightarrow> 0 | Some p \<Rightarrow> po_ChurnEpochSec p)"

section \<open>The hello\<close>

definition role_of :: "ProtectionOptions \<Rightarrow> ProtectionOptions \<Rightarrow> byte" where
  "role_of prot eff =
     (let clusterExit = (trim_space (po_ClusterPreferredServer prot) \<noteq> []);
          hasPeerRelay = (trim_space (po_PeerID eff) \<noteq> []);
          needRelay = ((po_RelayHop eff > 0 \<or> po_RelayMaxHop eff > 0) \<and> \<not> clusterExit \<and> hasPeerRelay)
      in if needRelay then roleRelayTCP else roleTCP)"

text \<open>The role and options of the hello, with the options as they stand after it: a missing session id is drawn in place.\<close>

definition dexotePayload ::
  "net_env \<Rightarrow> nat \<Rightarrow> string \<Rightarrow> ProtectionOptions option \<Rightarrow> (byte \<times> bytes) \<times> ProtectionOptions option" where
  "dexotePayload env n token prot =
     (let prot = enrichSessionOptions (ne_sha256 env) (ne_rnd env n) token prot in
      ((case (prot, relayOptsForHandshake (ne_sha256 env) (ne_hmac env) (ne_nonce env n) token prot) of
          (Some p, Some eff) \<Rightarrow> (role_of p eff, ne_marshal env eff)
        | _ \<Rightarrow> (roleTCP, [])),
       prot))"

definition dexotePadMax :: "ProtectionOptions option \<Rightarrow> int" where
  "dexotePadMax prot =
     (case prot of
        None \<Rightarrow> 64
      | Some p \<Rightarrow> if po_PadS4 p > 0 then (if po_PadS4 p > 1024 then 1024 else po_PadS4 p) else 64)"

definition dexoteUDPPayload ::
  "net_env \<Rightarrow> nat \<Rightarrow> string \<Rightarrow> byte \<Rightarrow> ProtectionOptions option \<Rightarrow> bytes \<times> ProtectionOptions option" where
  "dexoteUDPPayload env n token channelID prot =
     (let prot = enrichSessionOptions (ne_sha256 env) (ne_rnd env n) token prot in
      (channelID # (case prot of None \<Rightarrow> [] | Some p \<Rightarrow> ne_marshal env p), prot))"

definition hello_of :: "byte \<times> bytes \<Rightarrow> string \<Rightarrow> ClientHelloPayload" where
  "hello_of rp token = \<lparr>ch_Role = fst rp, ch_Token = token, ch_Opts = snd rp\<rparr>"

definition no_pub :: go_error where
  "no_pub = Error ''dexote: server pubkey not configured (set dexoteServerPub)''"

definition dialServerDexote :: "net_env \<Rightarrow> nat \<Rightarrow> string \<Rightarrow> int \<Rightarrow> ClientHelloPayload \<Rightarrow> go_error + link" where
  "dialServerDexote env n addr slot hello = (if ne_pub env = [] then Inl no_pub else ne_tcp env n addr slot hello)"

text \<open>The request on a link and, where the options ask for it, the acknowledgement of the hop.\<close>

datatype link_end = LinkFailed go_error | LinkRejected string | LinkOpen link

definition request :: "target \<Rightarrow> ProtectionOptions option \<Rightarrow> link \<Rightarrow> link_end" where
  "request tg prot l =
     (case wfailed (WriteTcpConnect (tg_ip tg) (tg_port tg)) of
        Some e \<Rightarrow> LinkFailed e
      | None \<Rightarrow>
        (case lk_write l of
           Some e \<Rightarrow> LinkFailed e
         | None \<Rightarrow>
           if needHopAck prot then
             (case ReadHopAck (lk_in l) of
                Inl e \<Rightarrow> LinkFailed e
              | Inr (ack, rest) \<Rightarrow>
                if ha_Status ack = 0 then LinkRejected (ha_Reason ack) else LinkOpen (l\<lparr>lk_in := rest\<rparr>))
           else LinkOpen l))"

definition rejected :: "string \<Rightarrow> go_error" where
  "rejected reason = Error (''hop ack rejected: '' @ reason)"

definition link_result :: "link_end \<Rightarrow> go_error + link" where
  "link_result r = (case r of LinkFailed e \<Rightarrow> Inl e | LinkRejected reason \<Rightarrow> Inl (rejected reason) | LinkOpen l \<Rightarrow> Inr l)"

section \<open>TCP\<close>

text \<open>One attempt on one server, with the options as they stand after it.\<close>

definition tcp_try ::
  "net_env \<Rightarrow> target \<Rightarrow> string \<Rightarrow> string \<Rightarrow> ProtectionOptions option \<Rightarrow> world \<Rightarrow> link_end \<times> ProtectionOptions option \<times> world" where
  "tcp_try env tg token addr prot w =
     (let (rp, prot) = dexotePayload env (wd_n w) token prot;
          r = dialServerDexote env (wd_n w) addr (SlotForProtection env (wd_n w) prot) (hello_of rp token)
      in (case r of Inl e \<Rightarrow> LinkFailed e | Inr l \<Rightarrow> request tg prot l, prot, note_try ViaTCP addr prot w))"

definition DialSingleTCP ::
  "net_env \<Rightarrow> target \<Rightarrow> string \<Rightarrow> string \<Rightarrow> ProtectionOptions option \<Rightarrow> world \<Rightarrow> (go_error + link) \<times> world" where
  "DialSingleTCP env tg token addr prot w =
     (let (r, prot, w) = tcp_try env tg token addr prot w in (link_result r, w))"

definition route_mode_text :: "ProtectionOptions option \<Rightarrow> string" where
  "route_mode_text prot = (case prot of None \<Rightarrow> [] | Some p \<Rightarrow> trim_space (po_RouteMode p))"

text \<open>A round over the servers; the error is that of the last attempt.\<close>

fun dial_round ::
  "net_env \<Rightarrow> target \<Rightarrow> string \<Rightarrow> string list \<Rightarrow> go_error option \<Rightarrow> ProtectionOptions option \<Rightarrow> world \<Rightarrow>
   (link + go_error option) \<times> ProtectionOptions option \<times> world" where
  "dial_round env tg token [] lastErr prot w = (Inr lastErr, prot, w)"
| "dial_round env tg token (addr # addrs) lastErr prot w =
     (let (r, prot, w) = tcp_try env tg token addr prot w in
      case r of
        LinkFailed e \<Rightarrow> dial_round env tg token addrs (Some e) prot w
      | LinkRejected reason \<Rightarrow>
          dial_round env tg token addrs (Some (rejected reason)) prot
            (w\<lparr>wd_trace := SetRouteTrace (tg_text tg) (route_mode_text prot) [] reason (wd_trace w)\<rparr>)
      | LinkOpen l \<Rightarrow> (Inl l, prot, w\<lparr>wd_live := setActiveVolterServerAddr addr (wd_live w)\<rparr>))"

definition next_backoff :: "duration \<Rightarrow> duration" where
  "next_backoff b = (if b < 1200 * millisecond then b * 2 else b)"

fun dial_rounds ::
  "nat \<Rightarrow> duration \<Rightarrow> net_env \<Rightarrow> target \<Rightarrow> string \<Rightarrow> string list \<Rightarrow> go_error option \<Rightarrow> ProtectionOptions option \<Rightarrow> world \<Rightarrow>
   (go_error + link) \<times> ProtectionOptions option \<times> world" where
  "dial_rounds 0 backoff env tg token addrs lastErr prot w =
     (Inl (case lastErr of None \<Rightarrow> Error ''tcp dial failed'' | Some e \<Rightarrow> e), prot, w)"
| "dial_rounds (Suc k) backoff env tg token addrs lastErr prot w =
     (let (r, prot, w) = dial_round env tg token addrs lastErr prot w in
      case r of
        Inl l \<Rightarrow> (Inr l, prot, w)
      | Inr lastErr \<Rightarrow>
          dial_rounds k (next_backoff backoff) env tg token addrs lastErr prot (w\<lparr>wd_slept := wd_slept w + backoff\<rparr>))"

text \<open>The order of a round: from the server the destination starts with. A negative start indexes out of range at once.\<close>

definition server_order :: "string list \<Rightarrow> int \<Rightarrow> go_error + string list" where
  "server_order addrs start =
     (if start < 0 then Inl (Panic ''index out of range'')
      else Inr (map (\<lambda>i. addrs ! ((nat start + i) mod length addrs)) [0..<length addrs]))"

definition dialTCP ::
  "net_env \<Rightarrow> target \<Rightarrow> string \<Rightarrow> string list \<Rightarrow> ProtectionOptions option \<Rightarrow> world \<Rightarrow>
   (go_error + link) \<times> ProtectionOptions option \<times> world" where
  "dialTCP env tg token addrs prot w =
     (if addrs = [] then (Inl (Error ''tcp dial: empty server addresses''), prot, w)
      else case server_order addrs (pickAddrIndex addrs (tg_text tg) (tg_port tg)) of
        Inl e \<Rightarrow> (Inl e, prot, w)
      | Inr order \<Rightarrow> dial_rounds 3 (200 * millisecond) env tg token order None prot w)"

section \<open>QUIC\<close>

text \<open>A stream on a connection of its own (\<open>Some\<close> address) or on the shared one.\<close>

definition quic_try ::
  "net_env \<Rightarrow> target \<Rightarrow> via \<Rightarrow> string \<Rightarrow> string option \<Rightarrow> ProtectionOptions option \<Rightarrow> world \<Rightarrow>
   link_end \<times> ProtectionOptions option \<times> world" where
  "quic_try env tg v token addr prot w =
     (let n = wd_n w; at_text = (case addr of None \<Rightarrow> [] | Some a \<Rightarrow> a) in
      case ne_quic_open env n addr of
        Some e \<Rightarrow> (LinkFailed e, prot, note_try v at_text prot w)
      | None \<Rightarrow>
        let (rp, prot) = dexotePayload env n token prot;
            r = (if ne_pub env = [] then Inl no_pub
                 else ne_quic env n addr (SlotForProtection env n prot) (hello_of rp token))
        in (case r of Inl e \<Rightarrow> LinkFailed e | Inr l \<Rightarrow> request tg prot l, prot, note_try v at_text prot w))"

definition dialQUIC ::
  "net_env \<Rightarrow> target \<Rightarrow> string \<Rightarrow> string list \<Rightarrow> string \<Rightarrow> bool \<Rightarrow> ProtectionOptions option \<Rightarrow> world \<Rightarrow>
   (go_error + link) \<times> ProtectionOptions option \<times> world" where
  "dialQUIC env tg token addrs quicServer shared prot w =
     (if shared then
        let (r, prot, w) = quic_try env tg ViaQUIC token None prot w in (link_result r, prot, w)
      else case ResolveQUICDialAddr addrs quicServer of
        Inl e \<Rightarrow> (Inl e, prot, w)
      | Inr (addr, _) \<Rightarrow>
        let (r, prot, w) = quic_try env tg ViaQUIC token (Some addr) prot w
        in (link_result r, prot,
            case r of
              LinkOpen l \<Rightarrow> w\<lparr>wd_live := setActiveVolterServerAddr (PickServerAddrForQUIC addrs quicServer) (wd_live w)\<rparr>
            | _ \<Rightarrow> w))"

definition DialPeerRelayQUIC ::
  "net_env \<Rightarrow> target \<Rightarrow> string \<Rightarrow> string \<Rightarrow> ProtectionOptions option \<Rightarrow> world \<Rightarrow> (go_error + link) \<times> world" where
  "DialPeerRelayQUIC env tg token addr prot w =
     (let addr = trim_space addr in
      if addr = [] then (Inl (Error ''peer quic: empty addr''), w)
      else let (r, prot, w) = quic_try env tg ViaPeerQUIC token (Some addr) prot w in (link_result r, w))"

text \<open>\<^verbatim>\<open>Dial\<close>: QUIC or TCP. \<open>qs\<close> is the QUIC server, \<open>shared\<close> says that there is a shared QUIC connection.\<close>

definition Dial ::
  "net_env \<Rightarrow> string list \<Rightarrow> target \<Rightarrow> string \<Rightarrow> ProtectionOptions option \<Rightarrow> string \<Rightarrow> string \<Rightarrow> bool \<Rightarrow> bool \<Rightarrow> world \<Rightarrow>
   (go_error + link) \<times> world" where
  "Dial env addrs tg token prot transport qs shared tunPreferTCP w =
     (let (r, prot, w) =
        (if \<not> tunPreferTCP \<and> UsesQUICTransport transport qs then dialQUIC env tg token addrs qs shared prot w
         else dialTCP env tg token addrs prot w)
      in (r, w))"

section \<open>Peers over UDP\<close>

definition DialPeerRelayUDP ::
  "net_env \<Rightarrow> target \<Rightarrow> string \<Rightarrow> string \<Rightarrow> ProtectionOptions option \<Rightarrow> world \<Rightarrow> (go_error + link) \<times> world" where
  "DialPeerRelayUDP env tg token addr prot w =
     (let n = wd_n w;
          (rp, prot) = dexotePayload env n token prot;
          w = note_try ViaPeerUDP addr prot w
      in case ne_udp env n addr (SlotForProtection env n prot) (hello_of rp token) of
           Inl e \<Rightarrow> (Inl e, w)
         | Inr l \<Rightarrow>
           (case request tg prot l of
              LinkRejected reason \<Rightarrow>
                (Inl (rejected reason),
                 w\<lparr>wd_trace := SetRouteTrace (tg_text tg) (route_mode_text prot) [] reason (wd_trace w)\<rparr>)
            | r \<Rightarrow> (link_result r, w)))"

section \<open>A hop of a route\<close>

record dial_args =
  da_addrs :: "string list"
  da_token :: string
  da_transport :: string
  da_quicServer :: string
  da_shared :: bool

definition dialRelayHop ::
  "net_env \<Rightarrow> dial_args \<Rightarrow> target \<Rightarrow> RelayOptions option \<Rightarrow> string \<Rightarrow> string \<Rightarrow> ProtectionOptions option \<Rightarrow> world \<Rightarrow>
   (go_error + link) \<times> world" where
  "dialRelayHop env da tg relay kind addr prot w =
     (let k = to_lower (trim_space kind) in
      if k = ''peer_udp'' then DialPeerRelayUDP env tg (da_token da) addr prot w
      else if k = ''peer_quic'' then DialPeerRelayQUIC env tg (da_token da) addr prot w
      else if k = ''peer_tcp'' then DialSingleTCP env tg (da_token da) addr prot w
      else if k = ''direct_server'' then
        (let addrs = hopServerAddrs (wd_live w) addr (da_addrs da) in
         if addrs = [] then (Inl (Error ''direct_server: no server address''), w)
         else Dial env addrs tg (da_token da) (protForDirectRoute prot) (da_transport da) (da_quicServer da) (da_shared da) True w)
      else if k = ''server_relay'' then
        (let addrs = hopServerAddrs (wd_live w) addr (da_addrs da) in
         if addrs = [] then (Inl (Error ''server_relay: no server address''), w)
         else Dial env addrs tg (da_token da) (Some (protForServerRelayRoute prot relay)) (da_transport da) (da_quicServer da)
                (da_shared da) True w)
      else (Inl (Error (''peer relay: unknown hop kind '' @ kind)), w))"

fun contains_text :: "string \<Rightarrow> string \<Rightarrow> bool" where
  "contains_text [] t = (t = [])"
| "contains_text (c # cs) t = (has_prefix (c # cs) t \<or> contains_text cs t)"

definition dialRouteHopConn ::
  "net_env \<Rightarrow> dial_args \<Rightarrow> target \<Rightarrow> RelayOptions option \<Rightarrow> string \<Rightarrow> string \<Rightarrow> ProtectionOptions option \<Rightarrow> world \<Rightarrow>
   (go_error + link \<times> bool) \<times> world" where
  "dialRouteHopConn env da tg relay kind addr prot w =
     (let (r, w) = dialRelayHop env da tg relay kind addr prot w in
      (case r of
         Inl e \<Rightarrow> Inl e
       | Inr c \<Rightarrow> Inr (c, has_prefix (to_lower kind) ''peer_tcp'' \<or> contains_text kind ''server''), w))"


section \<open>Which servers are tried\<close>

definition tried :: "world \<Rightarrow> (via \<times> string) list" where
  "tried w = map (\<lambda>a. (at_via a, at_addr a)) (wd_tries w)"

definition tcp_tries :: "string list \<Rightarrow> (via \<times> string) list" where
  "tcp_tries as = map (Pair ViaTCP) as"

lemma tcp_tries_simps [simp]:
  "tcp_tries [] = []" "tcp_tries (a # as) = (ViaTCP, a) # tcp_tries as" "tcp_tries (as @ bs) = tcp_tries as @ tcp_tries bs"
  by (simp_all add: tcp_tries_def)

lemma tcp_try_log:
  assumes "tcp_try env tg token addr prot w = (r, prot', w')"
  shows "tried w' = tried w @ [(ViaTCP, addr)]" and "wd_live w' = wd_live w" and "wd_slept w' = wd_slept w"
  using assms by (auto simp: tcp_try_def note_try_def tried_def Let_def split: prod.splits)

definition round_log :: "string list \<Rightarrow> world \<Rightarrow> link + go_error option \<Rightarrow> world \<Rightarrow> bool" where
  "round_log as w r w' \<longleftrightarrow>
     wd_slept w' = wd_slept w \<and>
     (case r of
        Inr _ \<Rightarrow> tried w' = tried w @ tcp_tries as \<and> wd_live w' = wd_live w
      | Inl l \<Rightarrow> \<exists>k < length as. tried w' = tried w @ tcp_tries (take (Suc k) as) \<and>
          wd_live w' = setActiveVolterServerAddr (as ! k) (wd_live w))"

lemma dial_round_log: "dial_round env tg token as lastErr prot w = (r, prot', w') \<Longrightarrow> round_log as w r w'"
proof (induction as arbitrary: lastErr prot w)
  case (Cons addr as)
  obtain q prot1 w1 where t: "tcp_try env tg token addr prot w = (q, prot1, w1)" by (cases "tcp_try env tg token addr prot w")
  note log = tcp_try_log [OF t]
  have step: "round_log (addr # as) w r w'" if "round_log as w2 r w'" "tried w2 = tried w1" "wd_live w2 = wd_live w1" "wd_slept w2 = wd_slept w1" for w2
    using that log by (fastforce simp: round_log_def split: sum.splits intro: exI [of _ "Suc k" for k])
  show ?case
  proof (cases q)
    case (LinkFailed e)
    then have "dial_round env tg token as (Some e) prot1 w1 = (r, prot', w')" using Cons.prems t by simp
    then show ?thesis using Cons.IH step by blast
  next
    case (LinkRejected x)
    let ?w = "w1\<lparr>wd_trace := SetRouteTrace (tg_text tg) (route_mode_text prot1) [] x (wd_trace w1)\<rparr>"
    have "dial_round env tg token as (Some (rejected x)) prot1 ?w = (r, prot', w')"
      using Cons.prems t LinkRejected by simp
    then have "round_log as ?w r w'" by (rule Cons.IH)
    then show ?thesis by (rule step) (simp_all add: tried_def)
  next
    case (LinkOpen l)
    then show ?thesis using Cons.prems t log by (auto simp: round_log_def tried_def intro!: exI [of _ "0 :: nat"])
  qed
qed (auto simp: round_log_def)

fun backoffs :: "nat \<Rightarrow> duration \<Rightarrow> duration" where
  "backoffs 0 b = 0"
| "backoffs (Suc k) b = b + backoffs k (next_backoff b)"

definition rounds_log :: "nat \<Rightarrow> duration \<Rightarrow> string list \<Rightarrow> world \<Rightarrow> go_error + link \<Rightarrow> world \<Rightarrow> bool" where
  "rounds_log k b as w r w' \<longleftrightarrow>
     (case r of
        Inl _ \<Rightarrow> tried w' = tried w @ tcp_tries (concat (replicate k as)) \<and> wd_live w' = wd_live w \<and>
          wd_slept w' = wd_slept w + backoffs k b
      | Inr l \<Rightarrow> \<exists>m < k * length as. tried w' = tried w @ tcp_tries (take (Suc m) (concat (replicate k as))) \<and>
          wd_live w' = setActiveVolterServerAddr (concat (replicate k as) ! m) (wd_live w))"

lemma dial_rounds_log: "dial_rounds k b env tg token as lastErr prot w = (r, prot', w') \<Longrightarrow> rounds_log k b as w r w'"
proof (induction k arbitrary: b lastErr prot w)
  case (Suc k)
  obtain q prot1 w1 where t: "dial_round env tg token as lastErr prot w = (q, prot1, w1)"
    by (cases "dial_round env tg token as lastErr prot w")
  note log = dial_round_log [OF t, unfolded round_log_def]
  show ?case
  proof (cases q)
    case (Inl l)
    then have "r = Inr l" "w' = w1" using Suc.prems t by simp_all
    then show ?thesis using log Inl by (auto simp: rounds_log_def nth_append trans_less_add1)
  next
    case (Inr e)
    let ?w = "w1\<lparr>wd_slept := wd_slept w1 + b\<rparr>"
    have "dial_rounds k (next_backoff b) env tg token as e prot1 ?w = (r, prot', w')" using Suc.prems t Inr by simp
    then have IH: "rounds_log k (next_backoff b) as ?w r w'" by (rule Suc.IH)
    show ?thesis
    proof (cases r)
      case [simp]: (Inl e)
      show ?thesis using IH log Inr by (simp add: rounds_log_def tried_def)
    next
      case (Inr l)
      then obtain m where "m < k * length as" "tried w' = tried ?w @ tcp_tries (take (Suc m) (concat (replicate k as)))"
        "wd_live w' = setActiveVolterServerAddr (concat (replicate k as) ! m) (wd_live ?w)"
        using IH by (auto simp: rounds_log_def)
      then show ?thesis using log \<open>q = Inr _\<close> Inr
        by (auto simp: rounds_log_def tried_def nth_append Suc_diff_le intro!: exI [of _ "length as + m"])
    qed
  qed
qed (auto simp: rounds_log_def)

lemma server_order_perm:
  assumes "server_order addrs start = Inr order"
  shows "mset order = mset addrs" and "order = rotate (nat start) addrs"
proof -
  show r: "order = rotate (nat start) addrs"
    using assms by (intro nth_equalityI) (auto simp: server_order_def nth_rotate split: if_splits)
  have "mset (rotate n xs) = mset xs" for n and xs :: "'a list"
    by (metis append_take_drop_id mset_append rotate_drop_take union_commute)
  then show "mset order = mset addrs" by (simp add: r)
qed

lemma setActive_shows: "trim_space a \<noteq> [] \<Longrightarrow> ActiveVolterServer (setActiveVolterServerAddr a l) = trim_space a"
  by (simp add: ActiveVolterServer_def setActiveVolterServerAddr_def text_of_def Let_def)

lemma tcp_rounds_outcome:
  assumes "addrs \<noteq> []" and start: "0 \<le> pickAddrIndex addrs (tg_text tg) (tg_port tg)"
    and "UsesQUICTransport transport qs \<Longrightarrow> force"
    and dial: "Dial env addrs tg token prot transport qs shared force w = (r, w')"
  defines "order \<equiv> rotate (nat (pickAddrIndex addrs (tg_text tg) (tg_port tg))) addrs"
  shows "r = Inl e \<Longrightarrow> tried w' = tried w @ tcp_tries (order @ order @ order) \<and> wd_live w' = wd_live w \<and>
           wd_slept w' = wd_slept w + 1400 * millisecond"
    and "r = Inr l \<Longrightarrow> \<exists>m < 3 * length addrs. tried w' = tried w @ tcp_tries (take (Suc m) (order @ order @ order)) \<and>
           wd_live w' = setActiveVolterServerAddr ((order @ order @ order) ! m) (wd_live w)"
proof -
  let ?start = "pickAddrIndex addrs (tg_text tg) (tg_port tg)"
  obtain order' where o': "server_order addrs ?start = Inr order'" using start by (simp add: server_order_def)
  then have o: "order' = order" using server_order_perm(2) by (simp add: order_def)
  have tcp: "\<not> (\<not> force \<and> UsesQUICTransport transport qs)" using assms(3) by blast
  obtain prot' where "dial_rounds 3 (200 * millisecond) env tg token order None prot w = (r, prot', w')"
    using dial assms(1) o' unfolding Dial_def if_not_P [OF tcp] by (auto simp: dialTCP_def o split: prod.splits)
  note log = dial_rounds_log [OF this, unfolded rounds_log_def]
  have three: "concat (replicate 3 order) = order @ order @ order" by (simp add: numeral_3_eq_3)
  have slept: "backoffs 3 (200 * millisecond) = 1400 * millisecond" by (simp add: numeral_3_eq_3 next_backoff_def millisecond_def)
  have len: "length order = length addrs" by (simp add: order_def)
  show "r = Inl e \<Longrightarrow> tried w' = tried w @ tcp_tries (order @ order @ order) \<and> wd_live w' = wd_live w \<and>
           wd_slept w' = wd_slept w + 1400 * millisecond"
    using log unfolding three slept by simp
  show "r = Inr l \<Longrightarrow> \<exists>m < 3 * length addrs. tried w' = tried w @ tcp_tries (take (Suc m) (order @ order @ order)) \<and>
           wd_live w' = setActiveVolterServerAddr ((order @ order @ order) ! m) (wd_live w)"
    using log unfolding three len by simp
qed


definition demo_env :: "(nat \<Rightarrow> string \<Rightarrow> go_error + link) \<Rightarrow> net_env" where
  "demo_env f =
     \<lparr>ne_pub = [1], ne_sha256 = (\<lambda>b. b), ne_hmac = (\<lambda>k b. k @ b), ne_marshal = (\<lambda>_. []), ne_rnd = (\<lambda>n. Some [word_of_nat n]),
      ne_nonce = (\<lambda>n. Some [word_of_nat n]), ne_clock = (\<lambda>_. 0), ne_tcp = (\<lambda>n a _ _. f n a), ne_quic_open = (\<lambda>_ _. None),
      ne_quic = (\<lambda>n a _ _. Inl EOF), ne_udp = (\<lambda>n a _ _. Inl EOF)\<rparr>"

definition demo_world :: world where
  "demo_world = \<lparr>wd_live = live_zero, wd_trace = \<lparr>rt_target = [], rt_plan = [], rt_hop = [], rt_reason = []\<rparr>, wd_tries = [], wd_slept = 0\<rparr>"

definition demo_link :: link where
  "demo_link = \<lparr>lk_id = ''link'', lk_write = None, lk_in = []\<rparr>"

definition demo_target :: target where
  "demo_target = \<lparr>tg_ip = [1, 1, 1, 1], tg_text = ''1.1.1.1'', tg_port = 443\<rparr>"

definition demo_dial :: "(go_error + link) \<times> world" where
  "demo_dial = Dial (demo_env (\<lambda>n a. if n = 2 then Inr demo_link else Inl EOF)) [''a:1'', ''b:2''] demo_target ''t'' None
     ''tcp'' [] False True demo_world"


text \<open>The server recorded for a QUIC connection is one of those configured.\<close>

lemma same_host_in: "same_host qh as = Some a \<Longrightarrow> a \<in> trim_space ` set as"
  by (induction as) (auto simp: Let_def split: if_splits option.splits)

lemma PickServerAddrForQUIC_in:
  assumes "addrs \<noteq> []"
  shows "PickServerAddrForQUIC addrs qs \<in> trim_space ` set addrs"
proof -
  obtain a0 as where a: "addrs = a0 # as" using assms by (cases addrs) auto
  have "PickServerAddrForQUIC (a0 # as) qs = trim_space a0 \<or> (\<exists>qh. same_host qh (a0 # as) = Some (PickServerAddrForQUIC (a0 # as) qs))"
    unfolding PickServerAddrForQUIC_def list.case by (auto split: sum.split option.split prod.split simp del: same_host.simps)
  then show ?thesis using same_host_in unfolding a by (metis imageI list.set_intros(1))
qed

text \<open>
  The hash of the destination is converted to a signed integer, so for half of the longer addresses it is negative, and with
  more than one server the remainder can be too: the first attempt of a dial indexes the servers with it and panics. Here,
  the destination 104.16.132.229:443 with any three servers.
\<close>

theorem dial_index_panics:
  "Dial env [s1, s2, s3] \<lparr>tg_ip = [104, 16, 132, 229], tg_text = ''104.16.132.229'', tg_port = 443\<rparr> token prot transport qs shared True w
   = (Inl (Panic ''index out of range''), w)"
proof -
  have "addr_hash ''104.16.132.229'' 443 = 18142759939818744294" by code_simp
  then have "pickAddrIndex [s1, s2, s3] ''104.16.132.229'' 443 = - 1" by (simp add: pickAddrIndex_def go_mod_def)
  then show ?thesis by (simp add: Dial_def dialTCP_def server_order_def)
qed

end
