(* ===== verification/Selectors.thy ===== *)
theory Selectors
  imports GoFloat Prelude
begin

text \<open>
  The small machines that steer the tunnel: the choice between QUIC and TCP (\<^verbatim>\<open>internal/tunnel/dual_selector.go\<close>), the
  choice of a peer (\<^verbatim>\<open>peer_selector.go\<close>), the byte bucket (\<^verbatim>\<open>shaper.go\<close> of the same package), the ring of path events and the
  service counters (\<^verbatim>\<open>internal/telemetry\<close>). Random draws and the clock are arguments; locks are left out.
\<close>

section \<open>QUIC or TCP\<close>

record DualPathSelector =
  ds_ewma :: rat
  ds_consecutiveFails :: nat
  ds_degraded :: bool
  ds_probeTick :: u64

definition newDualPathSelector :: DualPathSelector where
  "newDualPathSelector = \<lparr>ds_ewma = 1, ds_consecutiveFails = 0, ds_degraded = False, ds_probeTick = 0\<rparr>"

definition QuicGoodnessEWMA :: "DualPathSelector \<Rightarrow> rat" where
  "QuicGoodnessEWMA s = ds_ewma s"

definition prefer_prob :: "rat \<Rightarrow> rat" where
  "prefer_prob e =
     (let p = fadd (fl64 (19 / 50)) (fmul (fl64 (27 / 50)) e);
          p = (if p < fl64 (21 / 50) then fl64 (21 / 50) else p)
      in if p > fl64 (9 / 10) then fl64 (9 / 10) else p)"

text \<open>\<open>r\<close> is the random number between 0 and 1 drawn for the choice.\<close>

definition PreferQUIC :: "rat \<Rightarrow> DualPathSelector \<Rightarrow> bool \<times> DualPathSelector" where
  "PreferQUIC r s =
     (if ds_degraded s then
        let s = s\<lparr>ds_probeTick := ds_probeTick s + 1\<rparr> in (ds_probeTick s mod 6 = 0, s)
      else (r < prefer_prob (ds_ewma s), s))"

definition RecordQuicOutcome :: "bool \<Rightarrow> DualPathSelector \<Rightarrow> DualPathSelector" where
  "RecordQuicOutcome ok s =
     (if ok then
        let e = fadd (fmul (fl64 (41 / 50)) (ds_ewma s)) (fl64 (9 / 50)) in
        s\<lparr>ds_consecutiveFails := 0, ds_degraded := False, ds_ewma := (if e > 1 then 1 else e)\<rparr>
      else
        s\<lparr>ds_consecutiveFails := ds_consecutiveFails s + 1, ds_ewma := fmul (ds_ewma s) (fl64 (41 / 50)),
          ds_degraded := (if ds_consecutiveFails s + 1 \<ge> 4 then True else ds_degraded s)\<rparr>)"

section \<open>A peer for the next connection\<close>

record PeerHealth =
  ph_RTT :: duration
  ph_SuccessEWMA :: rat
  ph_FailStreak :: nat
  ph_LastOK :: instant
  ph_InFlight :: nat

record PeerCandidate =
  pc_ID :: string
  pc_Endpoint :: string
  pc_UpdatedAt :: instant
  pc_Health :: PeerHealth

record PeerDecision =
  pe_PeerID :: string
  pe_Endpoint :: string
  pe_Score :: rat
  pe_Reason :: string

definition no_peer :: PeerDecision where
  "no_peer = \<lparr>pe_PeerID = [], pe_Endpoint = [], pe_Score = 0, pe_Reason = []\<rparr>"

definition NewPeerSelector :: "duration \<Rightarrow> duration" where
  "NewPeerSelector maxAge = (if maxAge \<le> 0 then 5 * minute else maxAge)"

definition peerScore :: "PeerHealth \<Rightarrow> rat" where
  "peerScore h =
     (let ok = (if ph_SuccessEWMA h \<le> 0 then 1 / 2 else ph_SuccessEWMA h);
          ok = (if ok > 1 then 1 else ok);
          failPenalty = fdiv 1 (fl64 (of_nat (1 + ph_FailStreak h)));
          rttPenalty = (if ph_RTT h > 0
            then fdiv 1 (fadd 1 (fdiv (fl64 (of_int (ph_RTT h div millisecond))) 250)) else 1);
          inFlightPenalty = fdiv 1 (fl64 (of_nat (1 + ph_InFlight h)))
      in fmul (fmul (fmul ok failPenalty) rttPenalty) inFlightPenalty)"

definition pick_step :: "duration \<Rightarrow> instant \<Rightarrow> PeerCandidate \<Rightarrow> PeerDecision \<Rightarrow> PeerDecision" where
  "pick_step maxAge now p best =
     (if pc_ID p = [] \<or> pc_Endpoint p = [] then best
      else if pc_UpdatedAt p = zero_time \<or> time_sub now (pc_UpdatedAt p) > maxAge then best
      else let score = peerScore (pc_Health p) in
        if score \<le> 0 then best
        else if pe_PeerID best = [] \<or> score > pe_Score best
          then \<lparr>pe_PeerID = pc_ID p, pe_Endpoint = pc_Endpoint p, pe_Score = score, pe_Reason = ''health''\<rparr>
          else best)"

definition Pick :: "duration option \<Rightarrow> PeerCandidate list \<Rightarrow> instant \<Rightarrow> PeerDecision \<times> bool" where
  "Pick s peers now =
     (let maxAge = (case s of None \<Rightarrow> NewPeerSelector 0 | Some m \<Rightarrow> m);
          best = fold (pick_step maxAge now) peers no_peer
      in (best, pe_PeerID best \<noteq> []))"

section \<open>The byte bucket\<close>

record ByteBucket =
  bb_rate :: rat
  bb_burst :: rat
  bb_tok :: rat
  bb_last :: instant

definition NewByteBucket :: "instant \<Rightarrow> int \<Rightarrow> ByteBucket option" where
  "NewByteBucket now maxKbps =
     (if maxKbps \<le> 0 then None
      else let r = fdiv (fmul (fl64 (of_int maxKbps)) 1000) 8
           in Some \<lparr>bb_rate = r, bb_burst = fmul r 2, bb_tok = fmul r 2, bb_last = now\<rparr>)"

text \<open>\<^verbatim>\<open>Duration.Seconds\<close>.\<close>

definition seconds_of :: "duration \<Rightarrow> rat" where
  "seconds_of d = fadd (fl64 (of_int (go_div d second))) (fdiv (fl64 (of_int (go_mod d second))) (fl64 (10 ^ 9)))"

text \<open>
  One round of the loop at time \<open>now\<close>: \<open>Inr\<close> the bucket after the bytes are taken, or \<open>Inl\<close> the time to sleep and the bucket to
  try again with.
\<close>

definition refill :: "instant \<Rightarrow> ByteBucket \<Rightarrow> ByteBucket" where
  "refill now b =
     (let dt = seconds_of (time_sub now (bb_last b)) in
      if dt > 0 then
        let t = fadd (bb_tok b) (fmul dt (bb_rate b)) in
        b\<lparr>bb_tok := (if t > bb_burst b then bb_burst b else t), bb_last := now\<rparr>
      else b)"

definition take_round :: "instant \<Rightarrow> int \<Rightarrow> ByteBucket \<Rightarrow> (duration \<times> ByteBucket) + ByteBucket" where
  "take_round now n b =
     (let need = fl64 (of_int n); b = refill now b in
      if bb_tok b \<ge> need then Inr (b\<lparr>bb_tok := fsub (bb_tok b) need\<rparr>)
      else
        let short = fsub need (bb_tok b);
            sleep = trunc (fmul (fdiv short (bb_rate b)) (fl64 (10 ^ 9)))
        in Inl (if sleep < millisecond then millisecond else sleep, b))"

text \<open>
  The loop over the times at which it wakes up, \<open>None\<close> while it has not taken the bytes by the last of them.
\<close>

fun WaitTake :: "instant list \<Rightarrow> int \<Rightarrow> ByteBucket option \<Rightarrow> ByteBucket option option" where
  "WaitTake ts n None = Some None"
| "WaitTake [] n (Some b) = (if n \<le> 0 then Some (Some b) else None)"
| "WaitTake (t # ts) n (Some b) =
     (if n \<le> 0 then Some (Some b)
      else case take_round t n b of Inr b' \<Rightarrow> Some (Some b') | Inl (_, b') \<Rightarrow> WaitTake ts n (Some b'))"

section \<open>Telemetry\<close>

datatype PathSwitchKind = SwitchTransport | SwitchICE | SwitchRelay | SwitchWatchdog

record PathEvent =
  ev_Ts :: instant
  ev_Kind :: PathSwitchKind
  ev_Note :: string

definition pathRingCap :: nat where "pathRingCap = 64"

record PathRing =
  ri_buf :: "PathEvent list"
  ri_n :: nat
  ri_head :: nat

definition no_event :: PathEvent where
  "no_event = \<lparr>ev_Ts = zero_time, ev_Kind = SwitchTransport, ev_Note = []\<rparr>"

definition ring_zero :: PathRing where
  "ring_zero = \<lparr>ri_buf = replicate pathRingCap no_event, ri_n = 0, ri_head = 0\<rparr>"

definition ring_Add :: "PathEvent \<Rightarrow> PathRing option \<Rightarrow> PathRing option" where
  "ring_Add e = map_option (\<lambda>r.
     r\<lparr>ri_buf := (ri_buf r)[ri_head r := e], ri_head := (ri_head r + 1) mod pathRingCap,
       ri_n := (if ri_n r < pathRingCap then ri_n r + 1 else ri_n r)\<rparr>)"

definition ring_Snapshot :: "PathRing option \<Rightarrow> PathEvent list" where
  "ring_Snapshot r =
     (case r of None \<Rightarrow> [] | Some r \<Rightarrow>
        let start = (ri_head r + pathRingCap - ri_n r) mod pathRingCap
        in map (\<lambda>i. ri_buf r ! ((start + i) mod pathRingCap)) [0..<ri_n r])"

definition NoteFailoverLatency :: "duration \<Rightarrow> rat \<Rightarrow> rat" where
  "NoteFailoverLatency d e =
     (if d \<le> 0 then e
      else let ms = fl64 (of_int (d div millisecond)) in
        if e \<le> 0 then ms else fadd (fmul (fl64 (17 / 20)) e) (fmul (fl64 (3 / 20)) ms))"

definition FailoverLatencyEWMA :: "rat \<Rightarrow> duration" where
  "FailoverLatencyEWMA e = (if e \<le> 0 then 0 else wrap64 (trunc e * millisecond))"

record SLO =
  sl_sessionsStarted :: u64
  sl_sessionsReady :: u64
  sl_transportFallback :: u64
  sl_lastReadyAt :: instant
  sl_dpiQuicGoodness :: rat
  sl_iceSrflxEwma :: rat

definition NoteVPNStart :: "SLO \<Rightarrow> SLO" where
  "NoteVPNStart s = s\<lparr>sl_sessionsStarted := sl_sessionsStarted s + 1\<rparr>"

definition NoteSessionReady :: "instant \<Rightarrow> SLO \<Rightarrow> SLO" where
  "NoteSessionReady now s = s\<lparr>sl_sessionsReady := sl_sessionsReady s + 1, sl_lastReadyAt := now\<rparr>"

definition NoteTransportFallback :: "SLO \<Rightarrow> SLO" where
  "NoteTransportFallback s = s\<lparr>sl_transportFallback := sl_transportFallback s + 1\<rparr>"

definition TransportFallbackCount :: "SLO \<Rightarrow> u64" where
  "TransportFallbackCount s = sl_transportFallback s"

definition SetDpiQuicGoodnessEWMA :: "rat \<Rightarrow> SLO \<Rightarrow> SLO" where
  "SetDpiQuicGoodnessEWMA v s = s\<lparr>sl_dpiQuicGoodness := v\<rparr>"

definition DpiQuicGoodnessEWMA :: "SLO \<Rightarrow> rat" where
  "DpiQuicGoodnessEWMA s = sl_dpiQuicGoodness s"

definition SetIceSrflxRttEwmaMs :: "rat \<Rightarrow> SLO \<Rightarrow> SLO" where
  "SetIceSrflxRttEwmaMs v s = s\<lparr>sl_iceSrflxEwma := v\<rparr>"

definition IceSrflxRttEwmaMs :: "SLO \<Rightarrow> rat" where
  "IceSrflxRttEwmaMs s = sl_iceSrflxEwma s"

definition SLOSnapshot :: "SLO \<Rightarrow> u64 \<times> u64 \<times> instant" where
  "SLOSnapshot s = (sl_sessionsStarted s, sl_sessionsReady s, sl_lastReadyAt s)"


section \<open>What the selectors promise\<close>

text \<open>A history of a selector is a sequence of questions, each with its draw, and of outcomes.\<close>

datatype ds_event = Ask rat | Outcome bool

fun ds_step :: "ds_event \<Rightarrow> DualPathSelector \<Rightarrow> DualPathSelector" where
  "ds_step (Ask r) s = snd (PreferQUIC r s)"
| "ds_step (Outcome ok) s = RecordQuicOutcome ok s"

definition ds_run :: "ds_event list \<Rightarrow> DualPathSelector" where
  "ds_run evs = fold ds_step evs newDualPathSelector"

text \<open>The specification counts the failures since the last success, newest event first.\<close>

fun failures :: "ds_event list \<Rightarrow> nat" where
  "failures [] = 0"
| "failures (Ask r # evs) = failures evs"
| "failures (Outcome True # evs) = 0"
| "failures (Outcome False # evs) = Suc (failures evs)"

definition ds_ok :: "nat \<Rightarrow> DualPathSelector \<Rightarrow> bool" where
  "ds_ok k s \<longleftrightarrow>
     ds_consecutiveFails s = k \<and> ds_degraded s = (4 \<le> k) \<and> 0 \<le> ds_ewma s \<and> ds_ewma s \<le> 1"

lemma PreferQUIC_keeps: "ds_ok k (snd (PreferQUIC r s)) = ds_ok k s"
  by (simp add: PreferQUIC_def ds_ok_def Let_def)

lemma ewma_gain: "0 \<le> e \<Longrightarrow> 0 \<le> fadd (fmul (fl64 (41 / 50)) e) (fl64 (9 / 50))"
  unfolding fops by (intro fl.added_nonneg fl.scaled_nonneg fl.nonneg) auto

lemma ewma_loss:
  assumes "0 \<le> e" and "e \<le> 1"
  shows "0 \<le> fmul e (fl64 (41 / 50))" and "fmul e (fl64 (41 / 50)) \<le> 1"
  using fl.scaled_nonneg [of "41 / 50" e] fl.scaled_unit [of "41 / 50" e] assms by (simp_all add: fops mult.commute)

lemma Record_ok: "ds_ok k s \<Longrightarrow> ds_ok (if ok then 0 else Suc k) (RecordQuicOutcome ok s)"
  using ewma_gain [of "ds_ewma s"] ewma_loss [of "ds_ewma s"] by (auto simp: RecordQuicOutcome_def ds_ok_def Let_def)

lemma ds_run_ok: "ds_ok (failures (rev evs)) (ds_run evs)"
proof (induction evs rule: rev_induct)
  case Nil
  show ?case by (simp add: ds_run_def ds_ok_def newDualPathSelector_def)
next
  case (snoc e evs)
  have run: "ds_run (evs @ [e]) = ds_step e (ds_run evs)" by (simp add: ds_run_def)
  show ?case
  proof (cases e)
    case (Ask r)
    show ?thesis using snoc unfolding run unfolding Ask by (simp add: PreferQUIC_keeps)
  next
    case (Outcome ok)
    show ?thesis using Record_ok [OF snoc, of ok] unfolding run unfolding Outcome by (cases ok) simp_all
  qed
qed

lemma prefer_prob_bounds: "2 / 5 < prefer_prob e \<and> prefer_prob e < 91 / 100"
proof -
  have a: "2 / 5 < fl64 (21 / 50)" by code_simp
  have b: "fl64 (9 / 10) < 91 / 100" by code_simp
  have c: "fl64 (21 / 50) < fl64 (9 / 10)" by code_simp
  show ?thesis using a b c by (auto simp: prefer_prob_def Let_def)
qed

text \<open>
  The selector is degraded exactly when the last four outcomes or more were failures, whatever was asked in between; its
  figure stays between 0 and 1, so that a selector that is not degraded prefers QUIC for a share of the draws that lies between 40
  and 91 in a hundred.
\<close>

theorem dual_selector_refines:
  "ds_consecutiveFails (ds_run evs) = failures (rev evs) \<and>
   ds_degraded (ds_run evs) = (4 \<le> failures (rev evs)) \<and>
   0 \<le> QuicGoodnessEWMA (ds_run evs) \<and> QuicGoodnessEWMA (ds_run evs) \<le> 1 \<and>
   2 / 5 < prefer_prob (QuicGoodnessEWMA (ds_run evs)) \<and> prefer_prob (QuicGoodnessEWMA (ds_run evs)) < 91 / 100"
  using ds_run_ok [of evs] prefer_prob_bounds by (simp add: ds_ok_def QuicGoodnessEWMA_def)

text \<open>A degraded selector still tries QUIC.\<close>

fun asks :: "rat list \<Rightarrow> DualPathSelector \<Rightarrow> bool list \<times> DualPathSelector" where
  "asks [] s = ([], s)"
| "asks (r # rs) s = (let (b, s) = PreferQUIC r s; (bs, s) = asks rs s in (b # bs, s))"

lemma PreferQUIC_degraded:
  "ds_degraded s \<Longrightarrow> PreferQUIC r s = ((ds_probeTick s + 1) mod 6 = 0, s\<lparr>ds_probeTick := ds_probeTick s + 1\<rparr>)"
  by (simp add: PreferQUIC_def Let_def)

lemma asks_degraded:
  "ds_degraded s \<Longrightarrow> fst (asks rs s) = map (\<lambda>i. (ds_probeTick s + of_nat i + 1) mod 6 = 0) [0..<length rs]"
proof (induction rs arbitrary: s)
  case (Cons r rs)
  have d: "ds_degraded (s\<lparr>ds_probeTick := ds_probeTick s + 1\<rparr>)" using Cons.prems by simp
  show ?case
    using Cons.IH [OF d] by (simp add: PreferQUIC_degraded [OF Cons.prems] case_prod_unfold Let_def upt_conv_Cons
        map_Suc_upt [symmetric] o_def algebra_simps del: upt_Suc)
qed simp

lemma tick_soon: "\<exists>i<6. ((t :: u64) + of_nat i + 1) mod 6 = 0"
proof -
  let ?n = "unat t"
  have lt: "?n < 2 ^ 64" using unsigned_less [of t] by simp
  show ?thesis
  proof (cases "?n + 6 < 2 ^ 64")
    case True
    define i where "i = 5 - ?n mod 6"
    have i: "i < 6" "(?n + i + 1) mod 6 = 0" unfolding i_def by presburger+
    have "unat (t + of_nat i + 1) = ?n + i + 1" using True i(1) by (simp add: unat_word_ariths unat_of_nat)
    then have "unat ((t + of_nat i + 1) mod 6) = 0" using i(2) by (simp add: unat_mod)
    then show ?thesis using i(1) unat_eq_zero by blast
  next
    case False
    define i where "i = 2 ^ 64 - 1 - ?n"
    have i: "i < 6" "?n + i + 1 = 2 ^ 64" using False lt by (auto simp: i_def)
    have "t + of_nat i + 1 = of_nat (?n + i + 1)" by simp
    also have "\<dots> = 0" unfolding i(2) by simp
    finally show ?thesis using i(1) by (intro exI [of _ i]) simp
  qed
qed

lemma asks_probe:
  assumes "ds_degraded s" and "6 \<le> length rs"
  shows "True \<in> set (fst (asks rs s))"
proof -
  obtain i where i: "i < 6" "(ds_probeTick s + of_nat i + 1) mod 6 = 0" using tick_soon [of "ds_probeTick s"] by (elim exE conjE)
  have "i \<in> {0..<length rs}" using i(1) assms(2) by simp
  then show ?thesis unfolding asks_degraded [OF assms(1)] set_map set_upt using i(2) by (intro image_eqI [of _ _ i]) simp_all
qed

text \<open>Of any six questions in a row to a degraded selector one at least is answered with QUIC, also where the 64-bit tick wraps.\<close>

lemma degraded_probes: "True \<in> set (fst (asks (r1 # r2 # r3 # r4 # r5 # r6 # rs) (s\<lparr>ds_degraded := True\<rparr>)))"
  by (rule asks_probe) simp_all

subsection \<open>The choice of a peer\<close>

definition eligible :: "duration \<Rightarrow> instant \<Rightarrow> PeerCandidate \<Rightarrow> bool" where
  "eligible maxAge now p \<longleftrightarrow>
     pc_ID p \<noteq> [] \<and> pc_Endpoint p \<noteq> [] \<and> pc_UpdatedAt p \<noteq> zero_time \<and> time_sub now (pc_UpdatedAt p) \<le> maxAge"

definition chosen :: "PeerCandidate \<Rightarrow> PeerDecision" where
  "chosen p = \<lparr>pe_PeerID = pc_ID p, pe_Endpoint = pc_Endpoint p, pe_Score = peerScore (pc_Health p), pe_Reason = ''health''\<rparr>"

definition unit_pos :: "rat \<Rightarrow> bool" where "unit_pos x \<longleftrightarrow> 0 < x \<and> x \<le> 1"

lemma unit_pos_mul: "unit_pos a \<Longrightarrow> unit_pos b \<Longrightarrow> unit_pos (fmul a b)"
  by (auto simp: unit_pos_def fops intro!: fl64_pos fl.at_most_1 mult_le_one)

lemma unit_pos_inv: "1 \<le> a \<Longrightarrow> unit_pos (fdiv 1 a)"
  by (auto simp: unit_pos_def fops intro!: fl64_pos fl.at_most_1)

lemma peerScore_unit: "0 < peerScore h \<and> peerScore h \<le> 1"
proof -
  define ok where "ok = (let ok = (if ph_SuccessEWMA h \<le> 0 then 1 / 2 else ph_SuccessEWMA h) in if ok > 1 then 1 else ok)"
  have ok: "unit_pos ok" by (auto simp: ok_def unit_pos_def Let_def)
  have n: "unit_pos (fdiv 1 (fl64 (of_nat (1 + n))))" for n by (intro unit_pos_inv fl64_ge_1) simp
  have rtt: "unit_pos (if ph_RTT h > 0 then fdiv 1 (fadd 1 (fdiv (fl64 (of_int (ph_RTT h div millisecond))) 250)) else 1)"
  proof -
    have "1 \<le> fadd 1 (fdiv (fl64 (of_int (ph_RTT h div millisecond))) 250)" if "0 < ph_RTT h"
    proof -
      have "0 \<le> fdiv (fl64 (of_int (ph_RTT h div millisecond))) 250"
        using that by (auto simp: fops millisecond_def intro!: fl.nonneg divide_nonneg_nonneg pos_imp_zdiv_nonneg_iff [THEN iffD2])
      then show ?thesis unfolding fadd_def by (intro fl64_ge_1) linarith
    qed
    then show ?thesis by (auto simp: unit_pos_def [of 1] intro: unit_pos_inv)
  qed
  have "unit_pos (peerScore h)" unfolding peerScore_def Let_def using ok n rtt unfolding ok_def Let_def by (intro unit_pos_mul) auto
  then show ?thesis by (simp add: unit_pos_def)
qed

lemma pick_step_simp:
  "pick_step a now p best =
     (if eligible a now p \<and> (pe_PeerID best = [] \<or> pe_Score best < peerScore (pc_Health p)) then chosen p else best)"
  using peerScore_unit [of "pc_Health p"] by (auto simp: pick_step_def eligible_def chosen_def Let_def)

definition best_of :: "duration \<Rightarrow> instant \<Rightarrow> PeerCandidate list \<Rightarrow> PeerDecision \<Rightarrow> bool" where
  "best_of a now ps d \<longleftrightarrow>
     (if \<exists>p \<in> set ps. eligible a now p
      then \<exists>i < length ps. eligible a now (ps ! i) \<and> d = chosen (ps ! i) \<and>
             (\<forall>j < length ps. eligible a now (ps ! j) \<longrightarrow>
                peerScore (pc_Health (ps ! j)) \<le> pe_Score d \<and> (j < i \<longrightarrow> peerScore (pc_Health (ps ! j)) < pe_Score d))
      else d = no_peer)"

lemma chosen_simps [simp]:
  "pe_Score (chosen p) = peerScore (pc_Health p)" "pe_PeerID (chosen p) = pc_ID p" "pe_PeerID no_peer = []"
  by (simp_all add: chosen_def no_peer_def)

lemma best_of_snoc:
  assumes "best_of a now ps d"
  shows "best_of a now (ps @ [p]) (pick_step a now p d)"
proof (cases "\<exists>q \<in> set ps. eligible a now q")
  case False
  then have d: "d = no_peer" using assms by (simp add: best_of_def)
  have none: "\<not> eligible a now (ps ! j)" if "j < length ps" for j using False that by auto
  show ?thesis
  proof (cases "eligible a now p")
    case True
    have n2: "\<not> eligible a now ((ps @ [p]) ! j)" if "j < length ps" for j
      using that none [of j] by (simp add: nth_append)
    then show ?thesis using True unfolding best_of_def
      by (auto simp: pick_step_simp d less_Suc_eq intro!: exI [of _ "length ps"])
  next
    case no: False
    then show ?thesis using False by (auto simp: best_of_def pick_step_simp d)
  qed
next
  case True
  then obtain i where i: "i < length ps" "eligible a now (ps ! i)" "d = chosen (ps ! i)"
    and max: "\<And>j. j < length ps \<Longrightarrow> eligible a now (ps ! j) \<Longrightarrow>
        peerScore (pc_Health (ps ! j)) \<le> pe_Score d \<and> (j < i \<longrightarrow> peerScore (pc_Health (ps ! j)) < pe_Score d)"
    using assms by (auto simp: best_of_def)
  have id: "pe_PeerID d \<noteq> []" using i by (simp add: eligible_def)
  have ex: "\<exists>q \<in> set (ps @ [p]). eligible a now q" using True by auto
  show ?thesis
  proof (cases "eligible a now p \<and> pe_Score d < peerScore (pc_Health p)")
    case new: True
    have "peerScore (pc_Health ((ps @ [p]) ! j)) \<le> peerScore (pc_Health p) \<and>
        (j < length ps \<longrightarrow> peerScore (pc_Health ((ps @ [p]) ! j)) < peerScore (pc_Health p))"
      if "j < length (ps @ [p])" "eligible a now ((ps @ [p]) ! j)" for j
      using that max [of j] new by (cases "j < length ps") (auto simp: nth_append less_Suc_eq)
    then show ?thesis using new ex unfolding best_of_def
      by (auto simp: pick_step_simp intro!: exI [of _ "length ps"])
  next
    case False
    then have d': "pick_step a now p d = d" using id False by (auto simp: pick_step_simp)
    have "peerScore (pc_Health ((ps @ [p]) ! j)) \<le> pe_Score d \<and> (j < i \<longrightarrow> peerScore (pc_Health ((ps @ [p]) ! j)) < pe_Score d)"
      if "j < length (ps @ [p])" "eligible a now ((ps @ [p]) ! j)" for j
      using that max [of j] False i(1) by (cases "j < length ps") (auto simp: nth_append less_Suc_eq)
    then show ?thesis using i ex unfolding best_of_def d'
      by (auto simp: nth_append intro!: exI [of _ i])
  qed
qed

lemma fold_best: "best_of a now ps (fold (pick_step a now) ps no_peer)"
proof (induction ps rule: rev_induct)
  case Nil
  show ?case by (simp add: best_of_def)
next
  case (snoc p ps)
  then show ?case using best_of_snoc by simp
qed

text \<open>
  The peer picked is the first of those with the highest score among the candidates that have an identifier, an endpoint and a
  report that is recent enough; there is none exactly when no candidate is of that kind. A selector with no age set takes five minutes.
\<close>

lemma pick_first_best:
  shows "best_of (case s of None \<Rightarrow> 5 * minute | Some a \<Rightarrow> a) now peers (fst (Pick s peers now))"
    and "snd (Pick s peers now) = (\<exists>p \<in> set peers. eligible (case s of None \<Rightarrow> 5 * minute | Some a \<Rightarrow> a) now p)"
proof -
  define a where "a = (case s of None \<Rightarrow> 5 * minute | Some a \<Rightarrow> a)"
  have P: "Pick s peers now = (let best = fold (pick_step a now) peers no_peer in (best, pe_PeerID best \<noteq> []))"
    by (simp add: Pick_def a_def NewPeerSelector_def split: option.splits)
  have B: "best_of a now peers (fst (Pick s peers now))" using fold_best by (simp add: P Let_def)
  have ne: "pc_ID (peers ! i) \<noteq> []" if "eligible a now (peers ! i)" for i using that by (simp add: eligible_def)
  have "snd (Pick s peers now) = (pe_PeerID (fst (Pick s peers now)) \<noteq> [])" by (simp add: P Let_def)
  also have "\<dots> = (\<exists>p \<in> set peers. eligible a now p)"
    using B ne unfolding best_of_def by (auto split: if_splits)
  finally show "snd (Pick s peers now) = (\<exists>p \<in> set peers. eligible (case s of None \<Rightarrow> 5 * minute | Some a \<Rightarrow> a) now p)"
    by (simp add: a_def)
  show "best_of (case s of None \<Rightarrow> 5 * minute | Some a \<Rightarrow> a) now peers (fst (Pick s peers now))" using B by (simp add: a_def)
qed


subsection \<open>The byte bucket\<close>

lemma refill_fields [simp]:
  "bb_rate (refill now b) = bb_rate b" "bb_burst (refill now b) = bb_burst b"
  by (simp_all add: refill_def Let_def)

definition bucket_ok :: "ByteBucket \<Rightarrow> bool" where
  "bucket_ok b \<longleftrightarrow> 0 < bb_rate b \<and> 0 \<le> bb_tok b \<and> bb_tok b \<le> bb_burst b \<and> fl64 (bb_burst b) = bb_burst b"

lemma refill_ok: "bucket_ok b \<Longrightarrow> bucket_ok (refill now b)"
  by (auto simp: bucket_ok_def refill_def fops Let_def intro!: fl.nonneg add_nonneg_nonneg mult_nonneg_nonneg)

lemma take_round_ok:
  assumes "bucket_ok b" and "0 < n"
  shows "case take_round now n b of Inl (d, b') \<Rightarrow> bucket_ok b' \<and> bb_burst b' = bb_burst b \<and> millisecond \<le> d
           | Inr b' \<Rightarrow> bucket_ok b' \<and> bb_burst b' = bb_burst b"
proof -
  let ?r = "refill now b" and ?need = "fl64 (of_int n)"
  have r: "bucket_ok ?r" using refill_ok [OF assms(1)] .
  have need: "0 \<le> ?need" using assms(2) by (intro fl.nonneg) simp
  have left: "0 \<le> fsub (bb_tok ?r) ?need" "fsub (bb_tok ?r) ?need \<le> bb_burst b" if "?need \<le> bb_tok ?r"
  proof -
    show "0 \<le> fsub (bb_tok ?r) ?need" using that by (simp add: fops fl.nonneg)
    have "fsub (bb_tok ?r) ?need \<le> fl64 (bb_burst ?r)"
      using r need unfolding fops bucket_ok_def by (intro fl64_mono) linarith
    then show "fsub (bb_tok ?r) ?need \<le> bb_burst b" using r by (simp add: bucket_ok_def)
  qed
  show ?thesis using r left by (auto simp: take_round_def Let_def bucket_ok_def)
qed

text \<open>A bucket in use: each entry is a take, with the times its loop wakes up at.\<close>

fun takes :: "(instant list \<times> int) list \<Rightarrow> ByteBucket option \<Rightarrow> ByteBucket option option" where
  "takes [] b = Some b"
| "takes ((ts, n) # h) b = (case WaitTake ts n b of None \<Rightarrow> None | Some b' \<Rightarrow> takes h b')"

lemma WaitTake_keeps:
  "WaitTake ts n (Some b) = Some (Some b') \<Longrightarrow> bucket_ok b \<Longrightarrow> bucket_ok b' \<and> bb_burst b' = bb_burst b \<and> bb_rate b' = bb_rate b"
proof (induction ts n "Some b" arbitrary: b rule: WaitTake.induct)
  case (3 t ts n b)
  show ?case
  proof (cases "n \<le> 0")
    case False
    have rate: "case take_round t n b of Inl (d, b') \<Rightarrow> bb_rate b' = bb_rate b | Inr b' \<Rightarrow> bb_rate b' = bb_rate b"
      by (simp add: take_round_def Let_def)
    show ?thesis using False 3 rate take_round_ok [of b n t] by (fastforce split: sum.splits)
  qed (use 3 in simp)
qed (auto split: if_splits)

lemma WaitTake_some: "WaitTake ts n (Some b) = Some r \<Longrightarrow> \<exists>b'. r = Some b'"
  by (induction ts n "Some b" arbitrary: b rule: WaitTake.induct) (auto split: if_splits sum.splits)

lemma takes_keep:
  "takes h (Some b) = Some (Some b') \<Longrightarrow> bucket_ok b \<Longrightarrow> bucket_ok b' \<and> bb_burst b' = bb_burst b \<and> bb_rate b' = bb_rate b"
proof (induction h arbitrary: b)
  case (Cons a h)
  obtain ts n where a: "a = (ts, n)" by fastforce
  from Cons.prems(1) obtain b1 where b1: "WaitTake ts n (Some b) = Some (Some b1)" "takes h (Some b1) = Some (Some b')"
    using WaitTake_some by (fastforce simp: a split: option.splits)
  show ?case using WaitTake_keeps [OF b1(1) Cons.prems(2)] Cons.IH [OF b1(2)] by simp
qed simp

lemma WaitTake_too_big:
  assumes "bucket_ok b" and "0 < n" and "bb_burst b < fl64 (of_int n)"
  shows "WaitTake ts n (Some b) = None"
  using assms
proof (induction ts arbitrary: b)
  case (Cons t ts)
  have r: "bb_tok (refill t b) \<le> bb_burst b" using refill_ok [OF Cons.prems(1), of t] by (simp add: bucket_ok_def)
  then obtain d where d: "take_round t n b = Inl (d, refill t b)" using Cons.prems(3) by (simp add: take_round_def Let_def)
  show ?case using Cons.IH [OF refill_ok [OF Cons.prems(1)] Cons.prems(2)] Cons.prems(2,3) by (simp add: d)
qed simp

lemma NewByteBucket_exact:
  assumes "0 < k" and "k < 2 ^ 40"
  shows "NewByteBucket t k = Some \<lparr>bb_rate = of_int (125 * k), bb_burst = of_int (250 * k), bb_tok = of_int (250 * k), bb_last = t\<rparr>"
proof -
  have a: "fl64 (of_int k) = of_int k" using assms by (intro fl64_of_int) simp
  have b: "fl64 (of_int k * 1000) = of_int (1000 * k)" using assms fl64_of_int [of "1000 * k"] by (simp add: mult.commute)
  have c: "fl64 (of_int (1000 * k) / 8) = of_int (125 * k)" using assms fl64_of_int [of "125 * k"] by simp
  have d: "fl64 (of_int (125 * k) * 2) = of_int (250 * k)" using assms fl64_of_int [of "250 * k"] by simp
  show ?thesis using assms(1) unfolding NewByteBucket_def fops a b c by (simp add: d [simplified])
qed

lemma NewByteBucket_ok:
  assumes "0 < k" and "k < 2 ^ 40" and "NewByteBucket t k = Some b"
  shows "bucket_ok b \<and> bb_burst b = of_int (250 * k) \<and> bb_rate b = of_int (125 * k)"
proof -
  have "fl64 (of_int (250 * k)) = of_int (250 * k)" using assms(1,2) by (intro fl64_of_int) simp
  then show ?thesis using assms(1,3) unfolding NewByteBucket_exact [OF assms(1,2)] bucket_ok_def by auto
qed

lemma WaitTake_after_3s:
  assumes b: "bucket_ok b" and rate: "bb_burst b = 2 * bb_rate b" and n: "fl64 (of_int n) \<le> bb_burst b"
    and t: "3 * second \<le> time_sub t (bb_last b)"
  shows "WaitTake (t # ts) n (Some b) \<noteq> None"
proof -
  let ?d = "time_sub t (bb_last b)"
  have d: "0 \<le> ?d" "0 < second" using t by (simp_all add: second_def)
  have "3 \<le> ?d div second" using t zdiv_mono1 [of "3 * second" ?d second] by (simp add: second_def)
  then have "(3 :: rat) \<le> of_int (go_div ?d second)" by (simp add: go_div_nonneg [OF d])
  then have q: "3 \<le> fl64 (of_int (go_div ?d second))" using fl64_lower [of 3 0] by simp
  have f: "0 \<le> fdiv (fl64 (of_int (go_mod ?d second))) (fl64 (10 ^ 9))"
    unfolding fops by (intro fl.nonneg divide_nonneg_nonneg) (simp_all add: go_mod_nonneg [OF d] d)
  have s: "3 \<le> seconds_of ?d" using q f fl64_lower [of 3 0] by (simp add: seconds_of_def fadd_def)
  have "bb_burst b \<le> seconds_of ?d * bb_rate b" using s b rate mult_right_mono [of 3 "seconds_of ?d" "bb_rate b"]
    by (simp add: bucket_ok_def)
  then have "bb_burst b \<le> fmul (seconds_of ?d) (bb_rate b)" using b fl64_mono [of "bb_burst b"] by (fastforce simp: fops bucket_ok_def)
  then have "bb_burst b \<le> bb_tok b + fmul (seconds_of ?d) (bb_rate b)" using b by (simp add: bucket_ok_def)
  then have "bb_burst b \<le> fadd (bb_tok b) (fmul (seconds_of ?d) (bb_rate b))"
    using b fl64_mono [of "bb_burst b"] by (fastforce simp: fadd_def bucket_ok_def)
  then have "bb_tok (refill t b) = bb_burst b" using s by (simp add: refill_def Let_def)
  then show ?thesis using n by (simp add: take_round_def Let_def)
qed

lemma bucket_take:
  assumes "0 < k" and "k < 2 ^ 40" and "0 < n" and "n < 2 ^ 53"
    and "takes h (NewByteBucket t0 k) = Some (Some b)"
  shows "250 * k < n \<Longrightarrow> WaitTake ts n (Some b) = None"
    and "n \<le> 250 * k \<Longrightarrow> 3 * second \<le> time_sub t (bb_last b) \<Longrightarrow> WaitTake (t # ts) n (Some b) \<noteq> None"
proof -
  obtain b0 where b0: "NewByteBucket t0 k = Some b0" using NewByteBucket_exact [OF assms(1,2)] by blast
  have b: "bucket_ok b" "bb_burst b = of_int (250 * k)" "bb_rate b = of_int (125 * k)"
    using takes_keep [of h b0 b] assms(5) NewByteBucket_ok [OF assms(1,2) b0] unfolding b0 by auto
  have n: "fl64 (of_int n) = of_int n" using assms(3,4) by (intro fl64_of_int) simp
  show "WaitTake ts n (Some b) = None" if "250 * k < n"
  proof -
    have "bb_burst b < fl64 (of_int n)" unfolding n b(2) of_int_less_iff by (rule that)
    then show ?thesis using WaitTake_too_big [OF b(1) assms(3)] by blast
  qed
  show "WaitTake (t # ts) n (Some b) \<noteq> None" if "n \<le> 250 * k" "3 * second \<le> time_sub t (bb_last b)"
  proof (rule WaitTake_after_3s [OF b(1) _ _ that(2)])
    show "bb_burst b = 2 * bb_rate b" unfolding b by simp
    show "fl64 (of_int n) \<le> bb_burst b" unfolding n b(2) of_int_le_iff by (rule that(1))
  qed
qed

text \<open>
  A bucket of \<open>k\<close> kilobits per second holds two seconds' worth of bytes: whatever was taken before, a request for more
  bytes than that is never granted, however often the loop wakes up, and one that fits is granted at a wake-up three seconds after the last refill.
\<close>

theorem bucket_grants_what_fits:
  assumes "0 < k" and "k < 2 ^ 40" and "0 < n" and "n < 2 ^ 53"
    and "takes h (NewByteBucket t0 k) = Some (Some b)"
  shows "(250 * k < n \<longrightarrow> WaitTake ts n (Some b) = None) \<and>
    (n \<le> 250 * k \<and> 3 * second \<le> time_sub t (bb_last b) \<longrightarrow> WaitTake (t # ts) n (Some b) \<noteq> None)"
  using bucket_take [OF assms] by blast

lemma bucket_grants_what_fits_witness:
  "WaitTake [second, 2 * second, 3600 * second] 65536 (NewByteBucket 0 200) = None \<and> WaitTake [3 * second] 1500 (NewByteBucket 0 200) \<noteq> None"
proof -
  obtain b where b: "NewByteBucket 0 200 = Some b" "bb_last b = 0" using NewByteBucket_exact [of 200 0] by simp
  have t: "takes [] (NewByteBucket 0 200) = Some (Some b)" using b(1) by simp
  have d: "3 * second \<le> time_sub (3 * second) (bb_last b)" by (simp add: b(2) time_sub_def second_def)
  show ?thesis using bucket_grants_what_fits [OF _ _ _ _ t, of 65536 "[second, 2 * second, 3600 * second]"]
      bucket_grants_what_fits [OF _ _ _ _ t, of 1500 "[]" "3 * second"] d unfolding b(1) by simp
qed

subsection \<open>The ring of path events\<close>

definition last_n :: "nat \<Rightarrow> 'a list \<Rightarrow> 'a list" where
  "last_n n xs = drop (length xs - n) xs"

definition ring_rel :: "PathEvent list \<Rightarrow> PathRing \<Rightarrow> bool" where
  "ring_rel es r \<longleftrightarrow>
     length (ri_buf r) = pathRingCap \<and> ri_n r = min pathRingCap (length es) \<and> ri_head r = length es mod pathRingCap \<and>
     (\<forall>j < length es. length es \<le> j + pathRingCap \<longrightarrow> ri_buf r ! (j mod pathRingCap) = es ! j)"

lemma mod_cap_eq: "i < n \<Longrightarrow> n < i + c \<Longrightarrow> (i :: nat) mod c \<noteq> n mod c"
  by (metis add_diff_cancel_left' le_add_diff_inverse less_imp_le_nat mod_eq_dvd_iff_nat nat_dvd_not_less zero_less_diff add_less_cancel_left)

lemma ring_rel_Add:
  assumes "ring_rel es r"
  obtains r' where "ring_Add e (Some r) = Some r'" and "ring_rel (es @ [e]) r'"
proof
  define r' where "r' = the (ring_Add e (Some r))"
  show "ring_Add e (Some r) = Some r'" by (simp add: r'_def ring_Add_def)
  have cap: "0 < pathRingCap" by (simp add: pathRingCap_def)
  have "ri_buf r' ! (j mod pathRingCap) = (es @ [e]) ! j"
    if j: "j < length (es @ [e])" "length (es @ [e]) \<le> j + pathRingCap" for j
  proof (cases "j = length es")
    case True
    then show ?thesis using assms cap by (simp add: r'_def ring_Add_def ring_rel_def)
  next
    case False
    then have lt: "j < length es" using j by simp
    then have "j mod pathRingCap \<noteq> length es mod pathRingCap" using j by (intro mod_cap_eq) auto
    then show ?thesis using assms lt j by (simp add: r'_def ring_Add_def ring_rel_def nth_append)
  qed
  then show "ring_rel (es @ [e]) r'" using assms cap
    by (simp add: ring_rel_def r'_def ring_Add_def mod_Suc_eq min_def)
qed

lemma ring_rel_run: "\<exists>r. fold ring_Add es (Some ring_zero) = Some r \<and> ring_rel es r"
proof (induction es rule: rev_induct)
  case Nil
  show ?case by (simp add: ring_rel_def ring_zero_def)
next
  case (snoc e es)
  then obtain r where "fold ring_Add es (Some ring_zero) = Some r" "ring_rel es r" by blast
  then show ?case using ring_rel_Add [of es r e] by auto
qed

lemma ring_rel_Snapshot:
  assumes "ring_rel es r"
  shows "ring_Snapshot (Some r) = last_n pathRingCap es"
proof (rule nth_equalityI)
  let ?n = "length es"
  have n: "ri_n r = min pathRingCap ?n" and h: "ri_head r = ?n mod pathRingCap" using assms by (simp_all add: ring_rel_def)
  show len: "length (ring_Snapshot (Some r)) = length (last_n pathRingCap es)"
    by (simp add: ring_Snapshot_def last_n_def n Let_def)
  fix i assume "i < length (ring_Snapshot (Some r))"
  then have i: "i < min pathRingCap ?n" by (simp add: ring_Snapshot_def n Let_def)
  define m where "m = ?n - min pathRingCap ?n"
  have m: "?n = m + min pathRingCap ?n" by (simp add: m_def)
  have "(ri_head r + pathRingCap - ri_n r) mod pathRingCap = m mod pathRingCap"
    by (cases "?n < pathRingCap") (simp_all add: h n m_def min_def le_mod_geq)
  then have "((ri_head r + pathRingCap - ri_n r) mod pathRingCap + i) mod pathRingCap = (m + i) mod pathRingCap"
    by (metis mod_add_left_eq)
  then have "ring_Snapshot (Some r) ! i = ri_buf r ! ((m + i) mod pathRingCap)"
    using i by (simp add: ring_Snapshot_def n Let_def)
  also have "\<dots> = es ! (m + i)"
  proof -
    have "m + i < ?n" "?n \<le> m + i + pathRingCap" using i m by auto
    then show ?thesis using assms unfolding ring_rel_def by blast
  qed
  also have "\<dots> = last_n pathRingCap es ! i" using i by (simp add: last_n_def m_def min_def)
  finally show "ring_Snapshot (Some r) ! i = last_n pathRingCap es ! i" .
qed

text \<open>The ring implements the list of the last sixty-four events: whatever was added, a snapshot shows them, oldest first.\<close>

lemma ring_refines: "ring_Snapshot (fold ring_Add es (Some ring_zero)) = last_n 64 es"
  using ring_rel_run [of es] ring_rel_Snapshot by (auto simp: pathRingCap_def)

end
