(* ===== verification/Flow.thy ===== *)
theory Flow
  imports Dialing Selectors
begin

text \<open>
  One TCP flow of the tunnel: \<^verbatim>\<open>DialTunFlow\<close> and \<^verbatim>\<open>dialDualRace\<close> of \<^verbatim>\<open>internal/tunnel/preamble.go\<close>, with the canonical
  form of server addresses, \<^verbatim>\<open>internal/clusteraddr/normalize.go\<close>. A \<open>flow\<close> is all the state a dial touches: the world of theory Dialing, the
  path manager, the QUIC selector and the telemetry, with a log of the outcomes reported to the path manager. The two dials of a race run
  at the same time; when each of them ends is an argument, and the attempts of the one that starts first come first in the log. A panic in
  a goroutine of the race ends the process. The texts of telemetry events are left out.
\<close>

section \<open>Server addresses\<close>

text \<open>\<open>ae_ip\<close> is \<^verbatim>\<open>net.ParseIP\<close> followed by \<^verbatim>\<open>String\<close>, \<open>ae_url\<close> the host of a text that \<^verbatim>\<open>url.Parse\<close> accepts.\<close>

record addr_env =
  ae_ip :: "string \<Rightarrow> string option"
  ae_url :: "string \<Rightarrow> string option"

definition joinCanonicalHostPort :: "addr_env \<Rightarrow> string \<Rightarrow> string" where
  "joinCanonicalHostPort ae h =
     (let h = trim_space h in
      if h = [] then []
      else case split_host_port h of
        None \<Rightarrow> []
      | Some (host, port) \<Rightarrow>
        let host = trim_space host; port = trim_space port in
        (case ae_ip ae (trim_chars ''[]'' host) of
           Some ip \<Rightarrow> join_host_port ip port
         | None \<Rightarrow> to_lower host @ '':'' @ port))"

definition canonical_plain :: "addr_env \<Rightarrow> string \<Rightarrow> string" where
  "canonical_plain ae s =
     (let c = joinCanonicalHostPort ae s in
      if c \<noteq> [] then c
      else case ae_url ae s of
        Some host \<Rightarrow> if host \<noteq> [] then joinCanonicalHostPort ae host else s
      | None \<Rightarrow> s)"

text \<open>The text between the first opening and the last closing parenthesis.\<close>

definition inner_text :: "string \<Rightarrow> string option" where
  "inner_text s =
     (case index_byte s (CHR ''('') of
        None \<Rightarrow> None
      | Some i \<Rightarrow>
        (case last_index s (CHR '')'') of
           None \<Rightarrow> None
         | Some j \<Rightarrow> if j > i then Some (trim_space (drop (i + 1) (take j s))) else None))"

lemma inner_text_shorter: "inner_text s = Some t \<Longrightarrow> length t < length s"
proof -
  assume "inner_text s = Some t"
  then obtain i j where ij: "last_index s (CHR '')'') = Some j" "i < j" "t = trim_space (drop (i + 1) (take j s))"
    by (auto simp: inner_text_def split: option.splits if_splits)
  have "s \<noteq> []" using ij(1) by (auto simp: last_index_def)
  then have "j < length s" using ij(1) by (cases s rule: rev_cases) (auto simp: last_index_def split: option.splits)
  then show "length t < length s" using ij(2,3) length_trim_space [of "drop (i + 1) (take j s)"] by simp
qed

function CanonicalHostPort :: "addr_env \<Rightarrow> string \<Rightarrow> string" where
  "CanonicalHostPort ae s0 =
     (let s = trim_space s0 in
      if s = [] then []
      else case inner_text s of
        None \<Rightarrow> canonical_plain ae s
      | Some t \<Rightarrow> let c = CanonicalHostPort ae t in if c \<noteq> [] then c else canonical_plain ae s)"
  by pat_completeness auto

termination
proof (relation "measure (length \<circ> snd)")
  fix ae :: addr_env and s0 s t
  assume "s = trim_space s0" "inner_text s = Some t"
  then show "((ae, t), ae, s0) \<in> measure (length \<circ> snd)"
    using inner_text_shorter [of s t] length_trim_space [of s0] by simp
qed simp

declare CanonicalHostPort.simps [simp del]

fun match_from :: "addr_env \<Rightarrow> string \<Rightarrow> string \<Rightarrow> nat \<Rightarrow> string list \<Rightarrow> int" where
  "match_from ae want preferred i [] = - 1"
| "match_from ae want preferred i (a # as) =
     (if CanonicalHostPort ae a = want then int i
      else if joinCanonicalHostPort ae (trim_space a) = want then int i
      else if equal_fold (trim_space a) (trim_space preferred) then int i
      else match_from ae want preferred (Suc i) as)"

definition MatchPreferred :: "addr_env \<Rightarrow> string list \<Rightarrow> string \<Rightarrow> int" where
  "MatchPreferred ae addrs preferred =
     (let want = CanonicalHostPort ae preferred in if want = [] then - 1 else match_from ae want preferred 0 addrs)"

section \<open>The state of a flow\<close>

record flow =
  fl_world :: world
  fl_pm :: "PathManager option"
  fl_records :: "(bool \<times> byte \<times> byte) list"
  fl_sel :: "DualPathSelector option"
  fl_slo :: SLO
  fl_failover :: rat
  fl_switches :: "PathSwitchKind list"

text \<open>
  \<open>fe_order\<close>, \<open>fe_hints\<close>, \<open>fe_nodes\<close> and \<open>fe_clk\<close> are the arguments of \<open>Decide\<close>, \<open>fe_now i\<close> is the clock at the \<open>i\<close>-th report,
  \<open>fe_draw\<close> the selector's draw, \<open>fe_took b\<close> how long the dial of the race over TCP (or QUIC) takes, \<open>fe_elapsed\<close> the time since the flow began.
\<close>

record flow_env =
  fe_net :: net_env
  fe_addr :: addr_env
  fe_order :: "(string, pathStat) gomap \<Rightarrow> (string, pathStat) gomap"
  fe_hints :: "string list"
  fe_nodes :: "RelayNode list"
  fe_clk :: "nat \<Rightarrow> instant"
  fe_now :: "nat \<Rightarrow> instant"
  fe_draw :: rat
  fe_took :: "bool \<Rightarrow> duration"
  fe_elapsed :: duration

record flow_args =
  fa_dial :: dial_args
  fa_target :: target
  fa_dual :: bool
  fa_relay :: "RelayOptions option"

definition dial_server ::
  "flow_env \<Rightarrow> flow_args \<Rightarrow> ProtectionOptions option \<Rightarrow> bool \<Rightarrow> world \<Rightarrow> (go_error + link) \<times> world" where
  "dial_server fe fa prot force w =
     (let da = fa_dial fa in
      Dial (fe_net fe) (da_addrs da) (fa_target fa) (da_token da) prot (da_transport da) (da_quicServer da) (da_shared da) force w)"

definition on_world :: "(world \<Rightarrow> 'r \<times> world) \<Rightarrow> flow \<Rightarrow> 'r \<times> flow" where
  "on_world f fl = (let (r, w) = f (fl_world fl) in (r, fl\<lparr>fl_world := w\<rparr>))"

definition trace :: "flow_args \<Rightarrow> string \<Rightarrow> string \<Rightarrow> string \<Rightarrow> flow \<Rightarrow> flow" where
  "trace fa plan hop reason fl =
     fl\<lparr>fl_world := (fl_world fl)\<lparr>wd_trace := SetRouteTrace (tg_text (fa_target fa)) plan hop reason (wd_trace (fl_world fl))\<rparr>\<rparr>"

definition report :: "flow_env \<Rightarrow> flow_args \<Rightarrow> bool \<Rightarrow> byte \<Rightarrow> byte \<Rightarrow> flow \<Rightarrow> flow" where
  "report fe fa ok cls ttl fl =
     (if fl_pm fl = None then fl
      else fl\<lparr>fl_pm := Record (fe_order fe) (fe_now fe (length (fl_records fl))) (tg_text (fa_target fa)) ok cls ttl (fl_pm fl),
              fl_records := fl_records fl @ [(ok, cls, ttl)]\<rparr>)"

definition switched :: "PathSwitchKind \<Rightarrow> flow \<Rightarrow> flow" where
  "switched k fl = fl\<lparr>fl_switches := fl_switches fl @ [k]\<rparr>"

definition quic_outcome :: "bool \<Rightarrow> flow \<Rightarrow> flow" where
  "quic_outcome ok fl =
     (case fl_sel fl of
        None \<Rightarrow> fl
      | Some s \<Rightarrow>
        let s = RecordQuicOutcome ok s
        in fl\<lparr>fl_sel := Some s, fl_slo := SetDpiQuicGoodnessEWMA (QuicGoodnessEWMA s) (fl_slo fl)\<rparr>)"

definition err_text :: "go_error \<Rightarrow> string" where
  "err_text e = (case e of EOF \<Rightarrow> ''EOF'' | UnexpectedEOF \<Rightarrow> ''unexpected EOF'' | Error s \<Rightarrow> s | Panic s \<Rightarrow> s)"

section \<open>The route\<close>

definition preferred_of :: "ProtectionOptions option \<Rightarrow> string" where
  "preferred_of prot = (case prot of None \<Rightarrow> [] | Some p \<Rightarrow> trim_space (po_ClusterPreferredServer p))"

definition set_preferred :: "string \<Rightarrow> ProtectionOptions option \<Rightarrow> ProtectionOptions option" where
  "set_preferred s = map_option (\<lambda>p. p\<lparr>po_ClusterPreferredServer := s\<rparr>)"

text \<open>The preferred exit is dropped when it is the entry server itself, and kept in canonical form otherwise.\<close>

definition canonical_prot :: "addr_env \<Rightarrow> string list \<Rightarrow> ProtectionOptions option \<Rightarrow> ProtectionOptions option" where
  "canonical_prot ae addrs prot =
     (if preferred_of prot = [] then prot
      else let canonical = CanonicalHostPort ae (preferred_of prot) in
        if canonical \<noteq> [] \<and> MatchPreferred ae addrs canonical \<ge> 0 then set_preferred [] prot
        else set_preferred canonical prot)"

definition live_prot :: "string \<Rightarrow> ProtectionOptions option \<Rightarrow> ProtectionOptions option" where
  "live_prot mode prot = (if mode \<noteq> ''server_relay'' \<and> preferred_of prot \<noteq> [] then set_preferred [] prot else prot)"

definition server_path :: PathDecision where
  "server_path = direct_path\<lparr>pd_PreferTCP := True, pd_RelayClass := PathClassServer, pd_PathTTL := 2\<rparr>"

text \<open>What the mode makes of the flow.\<close>

record route =
  ro_allowPeer :: bool
  ro_decision :: PathDecision
  ro_prot :: "ProtectionOptions option"
  ro_preferTCP :: bool

definition decide ::
  "flow_env \<Rightarrow> flow_args \<Rightarrow> bool \<Rightarrow> bool \<Rightarrow> bool \<Rightarrow> PathDecision \<Rightarrow> flow \<Rightarrow> PathDecision \<times> flow" where
  "decide fe fa quicEnabled allowPeerPath forcePeer dec fl =
     (if fl_pm fl = None then (dec, fl)
      else let (d, pm) = Decide (fe_order fe) (fe_hints fe) (fe_nodes fe) (fe_clk fe) (tg_text (fa_target fa)) (fa_dual fa) quicEnabled
                 allowPeerPath forcePeer (fl_pm fl)
           in (d, fl\<lparr>fl_pm := pm\<rparr>))"

definition choose_route ::
  "flow_env \<Rightarrow> flow_args \<Rightarrow> string \<Rightarrow> ProtectionOptions option \<Rightarrow> bool \<Rightarrow> flow \<Rightarrow> route \<times> flow" where
  "choose_route fe fa mode prot allowPeerPath fl =
     (let da = fa_dial fa;
          clusterExit = (preferred_of prot \<noteq> []);
          quicEnabled = (UsesQUICTransport (da_transport da) (da_quicServer da) \<and> da_shared da \<and> \<not> clusterExit);
          rt = \<lparr>ro_allowPeer = allowPeerPath, ro_decision = direct_path, ro_prot = prot, ro_preferTCP = clusterExit\<rparr>;
          (rt, fl) =
            (if mode = ''direct'' then (rt\<lparr>ro_allowPeer := False, ro_prot := protForDirectRoute prot\<rparr>, fl)
             else if mode = ''server_relay'' then
               (if clusterExit then
                  (rt\<lparr>ro_allowPeer := False, ro_decision := server_path, ro_preferTCP := True,
                      ro_prot := Some (protForServerRelayRoute prot (fa_relay fa))\<rparr>, fl)
                else (rt\<lparr>ro_allowPeer := False, ro_prot := protForDirectRoute prot\<rparr>, fl))
             else if mode = ''peer_relay'' then
               let (d, fl) = decide fe fa quicEnabled (\<not> clusterExit) (\<not> clusterExit) direct_path fl
               in (rt\<lparr>ro_allowPeer := \<not> clusterExit, ro_decision := d\<rparr>, fl)
             else
               let (d, fl) = decide fe fa quicEnabled (allowPeerPath \<and> \<not> clusterExit) False direct_path fl
               in (rt\<lparr>ro_decision := d\<rparr>, fl));
          rt = (if clusterExit \<and> mode \<noteq> ''direct''
                then rt\<lparr>ro_allowPeer := False, ro_decision := server_path, ro_preferTCP := True,
                        ro_prot := Some (protForServerRelayRoute prot (fa_relay fa))\<rparr>
                else rt)
      in (if pd_PreferTCP (ro_decision rt) then rt\<lparr>ro_preferTCP := True\<rparr> else rt, fl))"

text \<open>Without the second planner one candidate of each kind is kept.\<close>

definition first_candidates :: "ProtectionOptions option \<Rightarrow> PathDecision \<Rightarrow> PathDecision" where
  "first_candidates prot d =
     (if (case prot of None \<Rightarrow> True | Some p \<Rightarrow> \<not> po_RoutePlannerV2 p) then
        d\<lparr>pd_PeerQUICCandidates := take 1 (pd_PeerQUICCandidates d), pd_PeerUDPCandidates := take 1 (pd_PeerUDPCandidates d),
          pd_PeerTCPCandidates := take 1 (pd_PeerTCPCandidates d)\<rparr>
      else d)"

section \<open>Candidates\<close>

definition peer_prot :: "ProtectionOptions option \<Rightarrow> RelayOptions option \<Rightarrow> nat \<Rightarrow> ProtectionOptions option" where
  "peer_prot dialProt relay i = map_option (\<lambda>p. p\<lparr>po_HopIndex := int i + 1\<rparr>) (RelayProtForPeerHop dialProt relay)"

text \<open>\<open>label\<close> is the kind shown in the trace. The first candidate that answers is the connection.\<close>

fun try_peers ::
  "flow_env \<Rightarrow> flow_args \<Rightarrow> string \<Rightarrow> string \<Rightarrow> PathDecision \<Rightarrow>
   (nat \<Rightarrow> string \<Rightarrow> world \<Rightarrow> (go_error + link) \<times> world) \<Rightarrow> (nat \<times> string) list \<Rightarrow> flow \<Rightarrow> link option \<times> flow" where
  "try_peers fe fa mode label d dial [] fl = (None, fl)"
| "try_peers fe fa mode label d dial ((i, addr) # cands) fl =
     (let (r, fl) = on_world (dial i addr) fl in
      case r of
        Inr l \<Rightarrow>
          (Some l,
           switched SwitchRelay (report fe fa True (pd_RelayClass d) (pd_PathTTL d) (trace fa mode (label @ '':'' @ addr) [] fl)))
      | Inl e \<Rightarrow> try_peers fe fa mode label d dial cands (trace fa mode (label @ '':'' @ addr) (err_text e) fl))"

text \<open>The first hop of the plan.\<close>

definition try_plan ::
  "flow_env \<Rightarrow> flow_args \<Rightarrow> string \<Rightarrow> PathDecision \<Rightarrow> ProtectionOptions option \<Rightarrow> flow \<Rightarrow> (link \<times> bool) option \<times> flow" where
  "try_plan fe fa mode d dialProt fl =
     (let da = fa_dial fa; tg = fa_target fa; relay = fa_relay fa;
          plan = BuildRoutePlan (tg_text tg) (firstServerAddr (wd_live (fl_world fl)) (da_addrs da)) d;
          hops = rp_Hops plan;
          fl = (if hops \<noteq> []
                then trace fa (join_with '' -> '' (map (\<lambda>h. rh_Kind h @ ''='' @ rh_Addr h) hops)) [] [] fl else fl);
          chainProt = AttachRouteHops plan dialProt
      in case hops of
           [] \<Rightarrow> (None, fl)
         | h # _ \<Rightarrow>
           if chainProt = None then (None, fl)
           else
             let protR = map_option (\<lambda>p. p\<lparr>po_HopIndex := nonpos_or (po_HopIndex p) 1\<rparr>) (RelayProtForPeerHop chainProt relay);
                 (r, fl) = on_world (dialRouteHopConn (fe_net fe) da tg relay (rh_Kind h) (rh_Addr h) protR) fl;
                 label = rh_Kind h @ '':'' @ rh_Addr h
             in case r of
                  Inr (l, usedTCP) \<Rightarrow>
                    (Some (l, usedTCP),
                     switched SwitchRelay (report fe fa True (pd_RelayClass d) (pd_PathTTL d) (trace fa mode label [] fl)))
                | Inl e \<Rightarrow> (None, trace fa mode label (err_text e) fl))"

definition try_quic_peers ::
  "flow_env \<Rightarrow> flow_args \<Rightarrow> string \<Rightarrow> PathDecision \<Rightarrow> ProtectionOptions option \<Rightarrow> flow \<Rightarrow> link option \<times> flow" where
  "try_quic_peers fe fa mode d dialProt fl =
     (case fa_relay fa of
        None \<Rightarrow> (None, fl)
      | Some relay \<Rightarrow>
        if ro_PeerRelayUseQUIC relay \<and> trim_space (pd_PeerQUIC d) \<noteq> [] then
          let cands = (if pd_PeerQUICCandidates d = [] then [pd_PeerQUIC d] else pd_PeerQUICCandidates d)
          in try_peers fe fa mode ''peer_quic'' d
               (\<lambda>i q. DialPeerRelayQUIC (fe_net fe) (fa_target fa) (da_token (fa_dial fa)) q (peer_prot dialProt (Some relay) i))
               (enumerate 0 cands) fl
        else (None, fl))"

definition try_udp_peers ::
  "flow_env \<Rightarrow> flow_args \<Rightarrow> string \<Rightarrow> PathDecision \<Rightarrow> ProtectionOptions option \<Rightarrow> flow \<Rightarrow> link option \<times> flow" where
  "try_udp_peers fe fa mode d dialProt fl =
     (case fa_relay fa of
        None \<Rightarrow> (None, fl)
      | Some relay \<Rightarrow>
        if ro_PeerRelayUseUDP relay then
          let cands = (if pd_PeerUDPCandidates d \<noteq> [] then pd_PeerUDPCandidates d
                       else if trim_space (pd_PeerUDP d) \<noteq> [] then [trim_space (pd_PeerUDP d)] else [])
          in try_peers fe fa mode ''peer_udp'' d
               (\<lambda>i u. DialPeerRelayUDP (fe_net fe) (fa_target fa) (da_token (fa_dial fa)) u (peer_prot dialProt (Some relay) i))
               (filter (\<lambda>(i, a). a \<noteq> []) (enumerate 0 (map trim_space cands))) fl
        else (None, fl))"

text \<open>Peers over TCP; where there were some and none answered, the flow counts as direct from here on.\<close>

definition try_tcp_peers ::
  "flow_env \<Rightarrow> flow_args \<Rightarrow> string \<Rightarrow> PathDecision \<Rightarrow> ProtectionOptions option \<Rightarrow> flow \<Rightarrow> link option \<times> PathDecision \<times> flow" where
  "try_tcp_peers fe fa mode d dialProt fl =
     (case fa_relay fa of
        None \<Rightarrow> (None, d, fl)
      | Some relay \<Rightarrow>
        if pd_PeerAddr d \<noteq> [] \<and> (case ro_PeerRelayUseTCP relay of None \<Rightarrow> True | Some b \<Rightarrow> b) then
          let cands = (if pd_PeerTCPCandidates d = [] then [pd_PeerAddr d] else pd_PeerTCPCandidates d);
              (r, fl) = try_peers fe fa mode ''peer_tcp'' d
                (\<lambda>i a. DialSingleTCP (fe_net fe) (fa_target fa) (da_token (fa_dial fa)) a (peer_prot dialProt (Some relay) i))
                (enumerate 0 cands) fl
          in (r, d\<lparr>pd_RelayClass := PathClassDirect, pd_PeerAddr := []\<rparr>, fl)
        else (None, d, fl))"

section \<open>The race\<close>

definition DualPathRaceTimeout :: duration where "DualPathRaceTimeout = 12 * second"

definition deadline_exceeded :: go_error where
  "deadline_exceeded = Error ''context deadline exceeded''"

definition is_panic :: "go_error + 'a \<Rightarrow> bool" where
  "is_panic r = (case r of Inl (Panic _) \<Rightarrow> True | _ \<Rightarrow> False)"

text \<open>The loop over the results as they come in: the time of each, whether it is TCP, and what it is.\<close>

fun race_loop ::
  "bool \<Rightarrow> go_error option \<Rightarrow> (duration \<times> bool \<times> (go_error + link)) list \<Rightarrow> (go_error + link) \<times> bool \<times> bool" where
  "race_loop preferTCP firstErr [] = (Inl (case firstErr of None \<Rightarrow> deadline_exceeded | Some e \<Rightarrow> e), True, preferTCP)"
| "race_loop preferTCP firstErr ((t, force, r) # rs) =
     (if t \<ge> DualPathRaceTimeout
      then (Inl (case firstErr of None \<Rightarrow> deadline_exceeded | Some e \<Rightarrow> e), True, preferTCP)
      else case r of
        Inr l \<Rightarrow> (Inr l, force, force)
      | Inl e \<Rightarrow> race_loop preferTCP (case firstErr of None \<Rightarrow> Some e | Some e' \<Rightarrow> Some e') rs)"

text \<open>
  The preferred transport starts at once and the other 120 milliseconds later, unless the race is decided by then. The results
  are the connection, whether QUIC failed, and whether TCP was used.
\<close>

definition dialDualRace ::
  "flow_env \<Rightarrow> flow_args \<Rightarrow> ProtectionOptions option \<Rightarrow> bool \<Rightarrow> world \<Rightarrow> ((go_error + link) \<times> bool \<times> bool) \<times> world" where
  "dialDualRace fe fa prot preferTCP w =
     (let (r1, w1) = dial_server fe fa prot preferTCP w;
          t1 = fe_took fe preferTCP
      in if t1 < 120 * millisecond \<and> (is_panic r1 \<or> (\<exists>l. r1 = Inr l)) then ((r1, preferTCP, preferTCP), w1)
         else
           let (r2, w2) = dial_server fe fa prot (\<not> preferTCP) w1;
               t2 = 120 * millisecond + fe_took fe (\<not> preferTCP);
               a = (t1, preferTCP, r1); b = (t2, \<not> preferTCP, r2)
           in if is_panic r1 then ((r1, True, preferTCP), w2)
              else if is_panic r2 then ((r2, True, preferTCP), w2)
              else (race_loop preferTCP None (if t1 \<le> t2 then [a, b] else [b, a]), w2))"

section \<open>The flow\<close>

type_synonym flow_result = "(go_error + link) \<times> bool \<times> bool"

definition dial_last ::
  "flow_env \<Rightarrow> flow_args \<Rightarrow> PathDecision \<Rightarrow> ProtectionOptions option \<Rightarrow> bool \<Rightarrow> flow \<Rightarrow> flow_result \<times> flow" where
  "dial_last fe fa d fb preferTCP fl =
     (let ok = (\<lambda>r. case r of Inr (l :: link) \<Rightarrow> True | Inl (e :: go_error) \<Rightarrow> False);
          rep = (\<lambda>r. report fe fa (ok r) (pd_RelayClass d) (pd_PathTTL d)) in
      if preferTCP then
        let (r, fl) = on_world (dial_server fe fa fb True) fl in ((r, False, True), rep r fl)
      else
        let (r, fl) = on_world (dial_server fe fa fb False) fl in
        if \<not> ok r \<and> fa_dual fa \<and> da_shared (fa_dial fa) then
          let fl = quic_outcome False fl;
              fl = fl\<lparr>fl_failover := NoteFailoverLatency (fe_elapsed fe) (fl_failover fl),
                      fl_slo := NoteTransportFallback (fl_slo fl)\<rparr>;
              fl = switched SwitchTransport fl;
              (r, fl) = on_world (dial_server fe fa fb True) fl
          in ((r, True, False), rep r fl)
        else
          let fl = (if ok r then quic_outcome True fl else fl) in ((r, False, False), rep r fl))"

text \<open>The race, and the last dial where it fails.\<close>

definition dial_rest ::
  "flow_env \<Rightarrow> flow_args \<Rightarrow> PathDecision \<Rightarrow> ProtectionOptions option \<Rightarrow> bool \<Rightarrow> bool \<Rightarrow> bool \<Rightarrow> flow \<Rightarrow> flow_result \<times> flow" where
  "dial_rest fe fa d dialProt clusterExit allowPeerPath preferTCP fl =
     (let da = fa_dial fa;
          fb = fallbackDialProt dialProt (fa_relay fa) clusterExit allowPeerPath
      in if fa_dual fa \<and> da_shared da \<and> UsesQUICTransport (da_transport da) (da_quicServer da) then
           let (preferTCP, fl) =
                 (case fl_sel fl of
                    None \<Rightarrow> (preferTCP, fl)
                  | Some s \<Rightarrow> let (q, s) = PreferQUIC (fe_draw fe) s in (\<not> q, fl\<lparr>fl_sel := Some s\<rparr>));
               ((r, quicFailed, tcpUsed), fl) = on_world (dialDualRace fe fa dialProt preferTCP) fl
           in if is_panic r then ((r, quicFailed, tcpUsed), fl)
              else
                let fl = (case r of
                      Inr _ \<Rightarrow> switched SwitchTransport fl
                    | Inl e \<Rightarrow> if e = deadline_exceeded then switched SwitchTransport fl else fl);
                    fl = quic_outcome (\<not> tcpUsed) fl;
                    fl = report fe fa (case r of Inr _ \<Rightarrow> True | Inl _ \<Rightarrow> False) (pd_RelayClass d) (pd_PathTTL d) fl
                in (case r of
                      Inr l \<Rightarrow> ((r, quicFailed, tcpUsed), fl)
                    | Inl _ \<Rightarrow> dial_last fe fa d fb preferTCP fl)
         else dial_last fe fa d fb preferTCP fl)"

definition DialTunFlow ::
  "flow_env \<Rightarrow> flow_args \<Rightarrow> ProtectionOptions option \<Rightarrow> bool \<Rightarrow> flow \<Rightarrow> flow_result \<times> flow" where
  "DialTunFlow fe fa prot0 allowPeerPath fl =
     (let da = fa_dial fa;
          prot = canonical_prot (fe_addr fe) (da_addrs da) prot0;
          mode = routeModeOf (wd_live (fl_world fl)) prot;
          prot = live_prot mode prot;
          clusterExit = (preferred_of prot \<noteq> []);
          fl = trace fa mode [] [] fl;
          (rt, fl) = choose_route fe fa mode prot allowPeerPath fl
      in if mode = ''direct'' then
           let fb = protForDirectRoute (ro_prot rt);
               force = (ro_preferTCP rt \<or> \<not> UsesQUICTransport (da_transport da) (da_quicServer da) \<or> \<not> da_shared da);
               (r, fl) = on_world (dial_server fe fa fb force) fl
           in ((r, False, force), report fe fa (case r of Inr _ \<Rightarrow> True | Inl _ \<Rightarrow> False) PathClassDirect 1 fl)
         else
           let d = first_candidates prot (ro_decision rt);
               dialProt = ro_prot rt;
               (r, fl) = try_plan fe fa mode d dialProt fl
           in case r of
                Some (l, usedTCP) \<Rightarrow> ((Inr l, False, usedTCP), fl)
              | None \<Rightarrow>
                let (r, fl) = try_quic_peers fe fa mode d dialProt fl in
                case r of
                  Some l \<Rightarrow> ((Inr l, False, False), fl)
                | None \<Rightarrow>
                  let (r, fl) = try_udp_peers fe fa mode d dialProt fl in
                  case r of
                    Some l \<Rightarrow> ((Inr l, False, True), fl)
                  | None \<Rightarrow>
                    let (r, d, fl) = try_tcp_peers fe fa mode d dialProt fl in
                    case r of
                      Some l \<Rightarrow> ((Inr l, False, True), fl)
                    | None \<Rightarrow> dial_rest fe fa d dialProt clusterExit (ro_allowPeer rt) (ro_preferTCP rt) fl)"


section \<open>What is reported\<close>

text \<open>\<open>reported fl fl' rs\<close>: the path manager, which there is, has been told \<open>rs\<close> in between.\<close>

definition reported :: "flow \<Rightarrow> flow \<Rightarrow> (bool \<times> byte \<times> byte) list \<Rightarrow> bool" where
  "reported fl fl' rs \<longleftrightarrow> fl_pm fl' \<noteq> None \<and> fl_records fl' = fl_records fl @ rs"

named_theorems quiet

lemma quiet_ops [quiet]:
  "fl_pm (trace fa plan hop reason fl) = fl_pm fl" "fl_records (trace fa plan hop reason fl) = fl_records fl"
  "fl_pm (switched k fl) = fl_pm fl" "fl_records (switched k fl) = fl_records fl"
  "fl_pm (quic_outcome ok fl) = fl_pm fl" "fl_records (quic_outcome ok fl) = fl_records fl"
  "fl_pm (snd (on_world f fl)) = fl_pm fl" "fl_records (snd (on_world f fl)) = fl_records fl"
  by (simp_all add: trace_def switched_def quic_outcome_def on_world_def Let_def split: option.splits prod.splits)

lemma reported_trans: "reported fl1 fl2 rs \<Longrightarrow> reported fl2 fl3 rs' \<Longrightarrow> reported fl1 fl3 (rs @ rs')"
  by (simp add: reported_def)

lemma reported_report: "fl_pm fl \<noteq> None \<Longrightarrow> reported fl (report fe fa ok cls ttl fl) [(ok, cls, ttl)]"
  by (auto simp: reported_def report_def Record_def)

lemma reported_quiet: "fl_pm fl' = fl_pm fl \<Longrightarrow> fl_records fl' = fl_records fl \<Longrightarrow> reported fl' fl2 rs = reported fl fl2 rs"
  by (simp add: reported_def)

definition success :: "go_error + 'a \<Rightarrow> bool" where
  "success r = (case r of Inr _ \<Rightarrow> True | Inl _ \<Rightarrow> False)"

lemma success_simps [simp]: "success (Inr x)" "\<not> success (Inl e)"
  by (simp_all add: success_def)

lemma on_world_quiet: "on_world f fl = (r, fl') \<Longrightarrow> fl_pm fl' = fl_pm fl \<and> fl_records fl' = fl_records fl"
  using quiet_ops(7,8) [of f fl] by simp

definition peer_outcome :: "PathDecision \<Rightarrow> 'a option \<Rightarrow> (bool \<times> byte \<times> byte) list" where
  "peer_outcome d r = (if r = None then [] else [(True, pd_RelayClass d, pd_PathTTL d)])"

lemma peer_outcome_simps [simp]:
  "peer_outcome d None = []" "peer_outcome d (Some x) = [(True, pd_RelayClass d, pd_PathTTL d)]"
  by (simp_all add: peer_outcome_def)

lemma reported_none: "fl_pm fl \<noteq> None \<Longrightarrow> fl_pm fl' = fl_pm fl \<Longrightarrow> fl_records fl' = fl_records fl \<Longrightarrow> reported fl fl' []"
  by (simp add: reported_def)

text \<open>A connection that a peer gave.\<close>

lemma reported_peer:
  assumes "fl_pm fl \<noteq> None" and "fl_pm fl1 = fl_pm fl" and "fl_records fl1 = fl_records fl"
  shows "reported fl (switched k (report fe fa ok cls ttl (trace fa plan hop reason fl1))) [(ok, cls, ttl)]"
  using assms reported_report [of "trace fa plan hop reason fl1" fe fa ok cls ttl] by (simp add: reported_def quiet)

lemma try_peers_reported:
  "fl_pm fl \<noteq> None \<Longrightarrow> try_peers fe fa mode label d dial cands fl = (r, fl') \<Longrightarrow> reported fl fl' (peer_outcome d r)"
proof (induction cands arbitrary: fl)
  case (Cons c cands)
  obtain i addr where c: "c = (i, addr)" by fastforce
  obtain q fl1 where q: "on_world (dial i addr) fl = (q, fl1)" by fastforce
  note keep = on_world_quiet [OF q]
  show ?case
  proof (cases q)
    case (Inl e)
    let ?fl = "trace fa mode (label @ '':'' @ addr) (err_text e) fl1"
    have "try_peers fe fa mode label d dial cands ?fl = (r, fl')" using Cons.prems q Inl by (simp add: c)
    moreover have "fl_pm ?fl \<noteq> None" using Cons.prems keep by (simp add: quiet)
    ultimately have "reported ?fl fl' (peer_outcome d r)" using Cons.IH by blast
    then show ?thesis using keep reported_quiet [of ?fl fl] by (simp add: quiet)
  next
    case (Inr l)
    then have "r = Some l" "fl' = switched SwitchRelay (report fe fa True (pd_RelayClass d) (pd_PathTTL d) (trace fa mode (label @ '':'' @ addr) [] fl1))"
      using Cons.prems(2) q by (simp_all add: c)
    then show ?thesis using reported_peer [OF Cons.prems(1)] keep by simp
  qed
qed (auto intro: reported_none)

lemma try_plan_reported:
  assumes "fl_pm fl \<noteq> None" and "try_plan fe fa mode d dialProt fl = (r, fl')"
  shows "reported fl fl' (peer_outcome d r)"
proof -
  define plan where "plan = BuildRoutePlan (tg_text (fa_target fa)) (firstServerAddr (wd_live (fl_world fl)) (da_addrs (fa_dial fa))) d"
  define fl1 where "fl1 = (if rp_Hops plan \<noteq> []
      then trace fa (join_with '' -> '' (map (\<lambda>h. rh_Kind h @ ''='' @ rh_Addr h) (rp_Hops plan))) [] [] fl else fl)"
  have keep1: "fl_pm fl1 = fl_pm fl" "fl_records fl1 = fl_records fl" by (simp_all add: fl1_def quiet)
  note eq = assms(2) [unfolded try_plan_def Let_def, folded plan_def, folded fl1_def]
  show ?thesis
  proof (cases "rp_Hops plan = [] \<or> AttachRouteHops plan dialProt = None")
    case True
    then have "r = None" "fl' = fl1" using eq by (auto split: list.splits)
    then show ?thesis using assms(1) keep1 by (auto intro: reported_none)
  next
    case False
    then obtain h hs where h: "rp_Hops plan = h # hs" and c: "AttachRouteHops plan dialProt \<noteq> None"
      by (cases "rp_Hops plan") auto
    let ?dial = "dialRouteHopConn (fe_net fe) (fa_dial fa) (fa_target fa) (fa_relay fa) (rh_Kind h) (rh_Addr h)
        (map_option (\<lambda>p. p\<lparr>po_HopIndex := nonpos_or (po_HopIndex p) 1\<rparr>)
          (RelayProtForPeerHop (AttachRouteHops plan dialProt) (fa_relay fa)))"
    obtain q fl2 where q: "on_world ?dial fl1 = (q, fl2)" by fastforce
    have keep: "fl_pm fl2 = fl_pm fl" "fl_records fl2 = fl_records fl" using on_world_quiet [OF q] keep1 by simp_all
    have e2: "(case q of
           Inl e \<Rightarrow> (None, trace fa mode (rh_Kind h @ '':'' @ rh_Addr h) (err_text e) fl2)
         | Inr (l, usedTCP) \<Rightarrow> (Some (l, usedTCP), switched SwitchRelay (report fe fa True (pd_RelayClass d) (pd_PathTTL d)
             (trace fa mode (rh_Kind h @ '':'' @ rh_Addr h) [] fl2)))) = (r, fl')"
      using eq c by (simp add: h q)
    show ?thesis
    proof (cases q)
      case (Inl e)
      then show ?thesis using e2 assms(1) keep by (auto simp: quiet intro: reported_none)
    next
      case (Inr y)
      obtain l usedTCP where y: "y = (l, usedTCP)" by fastforce
      then have "r = Some (l, usedTCP)" "fl' = switched SwitchRelay (report fe fa True (pd_RelayClass d) (pd_PathTTL d)
          (trace fa mode (rh_Kind h @ '':'' @ rh_Addr h) [] fl2))"
        using e2 Inr by simp_all
      then show ?thesis using reported_peer [OF assms(1) keep] by simp
    qed
  qed
qed

lemma reported_if:
  assumes "fl_pm fl \<noteq> None" and "(if b then try_peers fe fa mode label d dial cands fl else (None, fl)) = (r, fl')"
  shows "reported fl fl' (peer_outcome d r)"
  using assms try_peers_reported [OF assms(1), of fe fa mode label d dial cands r fl'] by (cases b) (simp_all add: reported_none)

lemma try_quic_reported:
  assumes "fl_pm fl \<noteq> None" and "try_quic_peers fe fa mode d dialProt fl = (r, fl')"
  shows "reported fl fl' (peer_outcome d r)"
proof (cases "fa_relay fa")
  case None
  then show ?thesis using assms by (auto simp: try_quic_peers_def intro: reported_none)
next
  case (Some relay)
  show ?thesis using assms(2) unfolding try_quic_peers_def Some option.case Let_def by (rule reported_if [OF assms(1)])
qed

lemma try_udp_reported:
  assumes "fl_pm fl \<noteq> None" and "try_udp_peers fe fa mode d dialProt fl = (r, fl')"
  shows "reported fl fl' (peer_outcome d r)"
proof (cases "fa_relay fa")
  case None
  then show ?thesis using assms by (auto simp: try_udp_peers_def intro: reported_none)
next
  case (Some relay)
  show ?thesis using assms(2) unfolding try_udp_peers_def Some option.case Let_def by (rule reported_if [OF assms(1)])
qed

lemma try_tcp_reported:
  assumes "fl_pm fl \<noteq> None" and "try_tcp_peers fe fa mode d dialProt fl = (r, d', fl')"
  shows "reported fl fl' (peer_outcome d r)"
proof (cases "fa_relay fa")
  case None
  then show ?thesis using assms by (auto simp: try_tcp_peers_def intro: reported_none)
next
  case (Some relay)
  let ?b = "pd_PeerAddr d \<noteq> [] \<and> (case ro_PeerRelayUseTCP relay of None \<Rightarrow> True | Some b \<Rightarrow> b)"
  show ?thesis
  proof (cases ?b)
    case True
    then have "try_peers fe fa mode ''peer_tcp'' d
        (\<lambda>i a. DialSingleTCP (fe_net fe) (fa_target fa) (da_token (fa_dial fa)) a (peer_prot dialProt (Some relay) i))
        (enumerate 0 (if pd_PeerTCPCandidates d = [] then [pd_PeerAddr d] else pd_PeerTCPCandidates d)) fl = (r, fl')"
      using assms(2) unfolding try_tcp_peers_def Some option.case Let_def if_P [OF True]
      by (simp add: case_prod_unfold del: enumerate_simps try_peers.simps split del: if_split) (metis prod.collapse)
    then show ?thesis by (rule try_peers_reported [OF assms(1)])
  next
    case False
    then show ?thesis using assms unfolding try_tcp_peers_def Some option.case if_not_P [OF False]
      by (auto intro: reported_none)
  qed
qed

text \<open>The outcomes told are one or two, and the last of them is the outcome of the flow.\<close>

definition told :: "flow \<Rightarrow> go_error + link \<Rightarrow> flow \<Rightarrow> bool" where
  "told fl r fl' \<longleftrightarrow>
     (\<exists>rs. reported fl fl' rs \<and> rs \<noteq> [] \<and> length rs \<le> 2 \<and> fst (last rs) = success r)"

lemma told_one: "reported fl fl' [(ok, cls, ttl)] \<Longrightarrow> ok = success r \<Longrightarrow> told fl r fl'"
  by (auto simp: told_def)

lemma dial_last_reported:
  assumes "fl_pm fl \<noteq> None" and "dial_last fe fa d fb preferTCP fl = ((r, qf, tu), fl')"
  shows "reported fl fl' [(success r, pd_RelayClass d, pd_PathTTL d)]"
proof -
  have ok: "(\<lambda>r. case r of Inr (l :: link) \<Rightarrow> True | Inl (e :: go_error) \<Rightarrow> False) = success"
    by (rule ext) (simp add: success_def split: sum.splits)
  note eq = assms(2) [unfolded dial_last_def Let_def ok]
  have rep: "reported fl (report fe fa (success q) (pd_RelayClass d) (pd_PathTTL d) fl1) [(success q, pd_RelayClass d, pd_PathTTL d)]"
    if "fl_pm fl1 = fl_pm fl" "fl_records fl1 = fl_records fl" for q :: "go_error + link" and fl1
    using that assms(1) reported_report [of fl1] by (simp add: reported_def)
  obtain q fl1 where q: "on_world (dial_server fe fa fb preferTCP) fl = (q, fl1)" by fastforce
  note k1 = on_world_quiet [OF q]
  show ?thesis
  proof (cases preferTCP)
    case True
    then show ?thesis using eq q k1 rep by auto
  next
    case False
    define fl2 where "fl2 = switched SwitchTransport (quic_outcome False fl1
        \<lparr>fl_failover := NoteFailoverLatency (fe_elapsed fe) (fl_failover (quic_outcome False fl1)),
         fl_slo := NoteTransportFallback (fl_slo (quic_outcome False fl1))\<rparr>)"
    have k2: "fl_pm fl2 = fl_pm fl" "fl_records fl2 = fl_records fl" using k1 by (simp_all add: fl2_def quiet)
    obtain q2 fl3 where q2: "on_world (dial_server fe fa fb True) fl2 = (q2, fl3)" by fastforce
    have k3: "fl_pm fl3 = fl_pm fl" "fl_records fl3 = fl_records fl" using on_world_quiet [OF q2] k2 by simp_all
    show ?thesis
    proof (cases "\<not> success q \<and> fa_dual fa \<and> da_shared (fa_dial fa)")
      case True
      then have "r = q2" "fl' = report fe fa (success q2) (pd_RelayClass d) (pd_PathTTL d) fl3"
        using eq q q2 \<open>\<not> preferTCP\<close> by (auto simp: fl2_def)
      then show ?thesis using rep k3 by simp
    next
      case no: False
      then have "r = q" "fl' = report fe fa (success q) (pd_RelayClass d) (pd_PathTTL d) (if success q then quic_outcome True fl1 else fl1)"
        using eq q \<open>\<not> preferTCP\<close> by auto
      then show ?thesis using rep k1 by (simp add: quiet)
    qed
  qed
qed

lemma is_panic_Inr [simp]: "\<not> is_panic (Inr x)"
  by (simp add: is_panic_def)

lemma dial_rest_reported:
  assumes "fl_pm fl \<noteq> None" and "dial_rest fe fa d dialProt clusterExit allow preferTCP fl = ((r, qf, tu), fl')"
  shows "is_panic r \<or> told fl r fl'"
proof -
  let ?da = "fa_dial fa"
  define fb where "fb = fallbackDialProt dialProt (fa_relay fa) clusterExit allow"
  show ?thesis
  proof (cases "fa_dual fa \<and> da_shared ?da \<and> UsesQUICTransport (da_transport ?da) (da_quicServer ?da)")
    case False
    then have "dial_last fe fa d fb preferTCP fl = ((r, qf, tu), fl')"
      using assms(2) unfolding dial_rest_def Let_def if_not_P [OF False] by (simp add: fb_def)
    from told_one [OF dial_last_reported [OF assms(1) this]] show ?thesis by simp
  next
    case True
    define asked where "asked = (case fl_sel fl of
        None \<Rightarrow> (preferTCP, fl)
      | Some s \<Rightarrow> let (q, s) = PreferQUIC (fe_draw fe) s in (\<not> q, fl\<lparr>fl_sel := Some s\<rparr>))"
    obtain pref fl1 where ask1: "asked = (pref, fl1)" by fastforce
    have k1: "fl_pm fl1 = fl_pm fl" "fl_records fl1 = fl_records fl"
      using ask1 by (auto simp: asked_def Let_def split: option.splits prod.splits)
    obtain q qf1 tu1 fl2 where race: "on_world (dialDualRace fe fa dialProt pref) fl1 = ((q, qf1, tu1), fl2)"
      by (metis prod_cases3 prod.collapse)
    have k2: "fl_pm fl2 = fl_pm fl" "fl_records fl2 = fl_records fl" using on_world_quiet [OF race] k1 by simp_all
    define fl3 where "fl3 = quic_outcome (\<not> tu1) (case q of
                      Inr _ \<Rightarrow> switched SwitchTransport fl2
                    | Inl e \<Rightarrow> if e = deadline_exceeded then switched SwitchTransport fl2 else fl2)"
    have k3: "fl_pm fl3 = fl_pm fl" "fl_records fl3 = fl_records fl" using k2 by (simp_all add: fl3_def quiet split: sum.splits)
    define fl4 where "fl4 = report fe fa (success q) (pd_RelayClass d) (pd_PathTTL d) fl3"
    have r4: "reported fl fl4 [(success q, pd_RelayClass d, pd_PathTTL d)]"
      using reported_report [of fl3] assms(1) k3 by (simp add: fl4_def reported_def)
    have eq: "(if is_panic q then ((q, qf1, tu1), fl2)
        else case q of Inr l \<Rightarrow> ((q, qf1, tu1), fl4) | Inl _ \<Rightarrow> dial_last fe fa d fb pref fl4) = ((r, qf, tu), fl')"
      using assms(2) unfolding dial_rest_def Let_def if_P [OF True] asked_def [symmetric, unfolded Let_def]
      by (cases q; cases "is_panic q") (auto simp: ask1 race fb_def fl4_def fl3_def)
    show ?thesis
    proof (cases q)
      case (Inr l)
      then have "r = q" "fl' = fl4" using eq by (simp_all add: is_panic_def)
      then show ?thesis using told_one [OF r4] by simp
    next
      case (Inl e)
      show ?thesis
      proof (cases "is_panic q")
        case True
        then show ?thesis using eq by simp
      next
        case no: False
        then have "dial_last fe fa d fb pref fl4 = ((r, qf, tu), fl')" using eq Inl by simp
        moreover have "fl_pm fl4 \<noteq> None" using r4 by (simp add: reported_def)
        ultimately have "reported fl4 fl' [(success r, pd_RelayClass d, pd_PathTTL d)]" using dial_last_reported by blast
        from reported_trans [OF r4 this] show ?thesis by (auto simp: told_def)
      qed
    qed
  qed
qed

lemma Decide_Some: "m \<noteq> None \<Longrightarrow> snd (Decide order hints nodes clk key dual q a f m) \<noteq> None"
  by (auto simp: Decide_def split: prod.splits)

lemma choose_route_quiet:
  assumes "choose_route fe fa mode prot allow fl = (rt, fl')"
  shows "fl_records fl' = fl_records fl" and "fl_pm fl \<noteq> None \<Longrightarrow> fl_pm fl' \<noteq> None"
proof -
  have d: "fl_records (snd (decide fe fa q a f dec fl)) = fl_records fl \<and>
      (fl_pm fl \<noteq> None \<longrightarrow> fl_pm (snd (decide fe fa q a f dec fl)) \<noteq> None)" for q a f dec
    using Decide_Some by (auto simp: decide_def Let_def split: prod.splits) (metis option.discI snd_conv)+
  define e where "e = (preferred_of prot \<noteq> [])"
  define q where "q = (UsesQUICTransport (da_transport (fa_dial fa)) (da_quicServer (fa_dial fa)) \<and> da_shared (fa_dial fa) \<and> \<not> e)"
  have "snd (choose_route fe fa mode prot allow fl) =
     (if mode = ''direct'' \<or> mode = ''server_relay'' then fl
      else if mode = ''peer_relay'' then snd (decide fe fa q (\<not> e) (\<not> e) direct_path fl)
      else snd (decide fe fa q (allow \<and> \<not> e) False direct_path fl))"
    by (simp add: choose_route_def Let_def case_prod_unfold e_def q_def)
  then have "\<exists>q a f dec. fl' = fl \<or> fl' = snd (decide fe fa q a f dec fl)" using assms by (auto split: if_splits)
  then show "fl_records fl' = fl_records fl" "fl_pm fl \<noteq> None \<Longrightarrow> fl_pm fl' \<noteq> None" using d by auto
qed



section \<open>What is sent, and to whom\<close>

text \<open>Options up to the session, which a dial fills in.\<close>

definition sessionless :: "ProtectionOptions option \<Rightarrow> ProtectionOptions option" where
  "sessionless = map_option (\<lambda>p. p\<lparr>po_SessionID := [], po_ResumeToken := []\<rparr>)"

lemma sessionless_enrich [simp]: "sessionless (enrichSessionOptions sha rnd token p) = sessionless p"
  by (cases p) (simp_all add: sessionless_def enrichSessionOptions_def Let_def)

lemma sessionless_payload [simp]: "sessionless (snd (dexotePayload env n token prot)) = sessionless prot"
  by (simp add: dexotePayload_def Let_def)

lemma sessionless_payloadD: "dexotePayload env n token prot = (rp, prot') \<Longrightarrow> sessionless prot' = sessionless prot"
  using sessionless_payload [of env n token prot] by simp

text \<open>\<open>sent p w w'\<close>: in between, servers only were dialled, with the options \<open>p\<close>.\<close>

definition to_server :: "ProtectionOptions option \<Rightarrow> attempt \<Rightarrow> bool" where
  "to_server p a \<longleftrightarrow> at_via a \<in> {ViaTCP, ViaQUIC} \<and> sessionless (at_prot a) = sessionless p"

definition sent :: "ProtectionOptions option \<Rightarrow> world \<Rightarrow> world \<Rightarrow> bool" where
  "sent p w w' \<longleftrightarrow> (\<exists>as. wd_tries w' = wd_tries w @ as \<and> list_all (to_server p) as)"

lemma sent_refl [simp]: "wd_tries w' = wd_tries w \<Longrightarrow> sent p w w'"
  by (simp add: sent_def)

lemma sent_trans: "sent p w1 w2 \<Longrightarrow> sent q w2 w3 \<Longrightarrow> sessionless q = sessionless p \<Longrightarrow> sent p w1 w3"
  by (force simp: sent_def to_server_def list_all_iff)

lemma sent_tries: "wd_tries w2 = wd_tries w1 \<Longrightarrow> sent p w w1 \<Longrightarrow> sent p w w2"
  by (simp add: sent_def)

lemma tcp_try_sent:
  assumes "tcp_try env tg token addr prot w = (r, prot', w')"
  shows "sent prot w w'" and "sessionless prot' = sessionless prot"
  using assms
  by (auto simp: tcp_try_def sent_def note_try_def to_server_def Let_def dest: sessionless_payloadD split: prod.splits)

lemma dial_round_sent:
  "dial_round env tg token as lastErr prot w = (r, prot', w') \<Longrightarrow> sent prot w w' \<and> sessionless prot' = sessionless prot"
proof (induction as arbitrary: lastErr prot w)
  case (Cons addr as)
  obtain q prot1 w1 where t: "tcp_try env tg token addr prot w = (q, prot1, w1)" by (cases "tcp_try env tg token addr prot w")
  note one = tcp_try_sent [OF t]
  have more: "sent prot w w' \<and> sessionless prot' = sessionless prot"
    if "dial_round env tg token as e prot1 w2 = (r, prot', w')" "wd_tries w2 = wd_tries w1" for e w2
    using Cons.IH [OF that(1)] sent_trans [OF sent_tries [OF that(2) one(1)]] one(2) by auto
  show ?case
  proof (cases q)
    case (LinkOpen l)
    then have "w' = w1\<lparr>wd_live := setActiveVolterServerAddr addr (wd_live w1)\<rparr>" "prot' = prot1" using Cons.prems t by auto
    then show ?thesis using one by (simp add: sent_def)
  qed (use Cons.prems t more in auto)
qed auto

lemma dial_rounds_sent:
  "dial_rounds k b env tg token as lastErr prot w = (r, prot', w') \<Longrightarrow> sent prot w w' \<and> sessionless prot' = sessionless prot"
proof (induction k arbitrary: b lastErr prot w)
  case (Suc k)
  obtain q prot1 w1 where t: "dial_round env tg token as lastErr prot w = (q, prot1, w1)"
    by (cases "dial_round env tg token as lastErr prot w")
  note one = dial_round_sent [OF t]
  show ?case
  proof (cases q)
    case (Inl l)
    then show ?thesis using Suc.prems t one by auto
  next
    case (Inr e)
    let ?w = "w1\<lparr>wd_slept := wd_slept w1 + b\<rparr>"
    have "dial_rounds k (next_backoff b) env tg token as e prot1 ?w = (r, prot', w')" using Suc.prems t Inr by simp
    from Suc.IH [OF this] show ?thesis using sent_trans [OF sent_tries [of ?w w1] ] one by auto
  qed
qed auto

lemma quic_try_sent: "quic_try env tg ViaQUIC token addr prot w = (r, prot', w') \<Longrightarrow> sent prot w w'"
  by (auto simp: quic_try_def sent_def note_try_def to_server_def Let_def dest: sessionless_payloadD split: prod.splits option.splits)

lemma Dial_sent:
  assumes "Dial env addrs tg token prot transport qs shared force w = (r, w')"
  shows "sent prot w w'"
proof (cases "\<not> force \<and> UsesQUICTransport transport qs")
  case False
  then obtain prot' where "dialTCP env tg token addrs prot w = (r, prot', w')"
    using assms unfolding Dial_def if_not_P [OF False] by (auto split: prod.splits)
  then show ?thesis by (auto simp: dialTCP_def dest: dial_rounds_sent split: if_splits sum.splits)
next
  case True
  then obtain prot' where q: "dialQUIC env tg token addrs qs shared prot w = (r, prot', w')"
    using assms unfolding Dial_def if_P [OF True] by (auto split: prod.splits)
  show ?thesis
  proof (cases shared)
    case True
    then show ?thesis using q by (auto simp: dialQUIC_def Let_def dest: quic_try_sent split: prod.splits)
  next
    case False
    show ?thesis
    proof (cases "ResolveQUICDialAddr addrs qs")
      case (Inl e)
      then show ?thesis using q False by (simp add: dialQUIC_def)
    next
      case (Inr y)
      obtain r2 prot2 w2 where t: "quic_try env tg ViaQUIC token (Some (fst y)) prot w = (r2, prot2, w2)"
        by (cases "quic_try env tg ViaQUIC token (Some (fst y)) prot w")
      have "wd_tries w' = wd_tries w2" using q False Inr t
        by (cases y) (auto simp: dialQUIC_def Let_def split: link_end.splits)
      then show ?thesis using quic_try_sent [OF t] by (simp add: sent_def)
    qed
  qed
qed

text \<open>A flow that is to be direct tells a server nothing of relays.\<close>

definition says_no_relay :: "ProtectionOptions option \<Rightarrow> bool" where
  "says_no_relay prot = (case prot of None \<Rightarrow> True | Some p \<Rightarrow>
     po_PeerID p = [] \<and> po_RelayNonce p = [] \<and> po_RelaySig p = [] \<and> po_RelayHop p = 0 \<and> po_RelayMaxHop p = 0 \<and>
     \<not> po_RoutePlannerV2 p \<and> po_ClusterPreferredServer p = [])"

lemma says_no_relay_sessionless: "sessionless p = sessionless q \<Longrightarrow> says_no_relay p = says_no_relay q"
proof -
  have "says_no_relay (sessionless r) = says_no_relay r" for r by (cases r) (simp_all add: sessionless_def says_no_relay_def)
  then show "sessionless p = sessionless q \<Longrightarrow> says_no_relay p = says_no_relay q" by metis
qed

lemma says_no_relay_direct: "says_no_relay (protForDirectRoute p)"
  by (cases p) (simp_all add: protForDirectRoute_def says_no_relay_def)

definition flow_mode :: "flow_env \<Rightarrow> flow_args \<Rightarrow> ProtectionOptions option \<Rightarrow> flow \<Rightarrow> string" where
  "flow_mode fe fa prot fl =
     routeModeOf (wd_live (fl_world fl)) (canonical_prot (fe_addr fe) (da_addrs (fa_dial fa)) prot)"



section \<open>TCP before QUIC\<close>

lemma hop_name_simps [simp]:
  "to_lower (trim_space ''direct_server'') = ''direct_server''"
  "has_prefix (to_lower ''direct_server'') ''peer_tcp'' = False" "contains_text ''direct_server'' ''server''"
  by code_simp+

text \<open>Without peers the plan is the first server.\<close>

lemma plan_without_peers:
  "trim_space s = s \<Longrightarrow> s \<noteq> [] \<Longrightarrow> rp_Hops (BuildRoutePlan t s (first_candidates p direct_path)) = [\<lparr>rh_Kind = ''direct_server'', rh_Addr = s\<rparr>]"
  by (simp add: BuildRoutePlan_def first_candidates_def direct_path_def add_hop_def path_classes Let_def)

lemma firstServerAddr_trimmed: "trim_space (firstServerAddr l addrs) = firstServerAddr l addrs"
proof (cases "filter (\<lambda>a. a \<noteq> []) (map trim_space addrs)")
  case (Cons a as)
  then have "a \<in> set (map trim_space addrs)" by (metis filter_is_subset list.set_intros(1) subsetD)
  then show ?thesis using Cons by (auto simp: firstServerAddr_def)
qed (simp add: firstServerAddr_def)

definition accepts :: "net_env \<Rightarrow> target \<Rightarrow> string \<Rightarrow> link \<Rightarrow> bool" where
  "accepts env tg s l \<longleftrightarrow>
     ne_pub env \<noteq> [] \<and> (\<forall>n slot h. ne_tcp env n s slot h = Inr l) \<and> lk_write l = None \<and>
     wfailed (WriteTcpConnect (tg_ip tg) (tg_port tg)) = None"

lemma needHopAck_sessionless: "sessionless p = sessionless q \<Longrightarrow> needHopAck p = needHopAck q"
proof -
  have "needHopAck (sessionless r) = needHopAck r" for r by (cases r) (simp_all add: sessionless_def needHopAck_def)
  then show "sessionless p = sessionless q \<Longrightarrow> needHopAck p = needHopAck q" by metis
qed

lemma Dial_accepts:
  assumes "accepts env tg s l" and "\<not> needHopAck prot"
  obtains w' where "Dial env [s] tg token prot transport qs shared True w = (Inr l, w')" and "tried w' = tried w @ [(ViaTCP, s)]"
proof -
  obtain rp prot1 where p: "dexotePayload env (wd_n w) token prot = (rp, prot1)" by fastforce
  have "\<not> needHopAck prot1" using needHopAck_sessionless [OF sessionless_payloadD [OF p]] assms(2) by simp
  then have t: "tcp_try env tg token s prot w = (LinkOpen l, prot1, note_try ViaTCP s prot1 w)"
    using assms(1) by (simp add: tcp_try_def p dialServerDexote_def accepts_def request_def)
  have "Dial env [s] tg token prot transport qs shared True w =
      (Inr l, (note_try ViaTCP s prot1 w)\<lparr>wd_live := setActiveVolterServerAddr s (wd_live w)\<rparr>)"
    by (simp add: Dial_def dialTCP_def pickAddrIndex_def server_order_def numeral_3_eq_3 t note_try_def)
  then show thesis by (rule that) (simp add: tried_def note_try_def)
qed

text \<open>
  Where there are no peers to try, the plan of every flow that has options and is not in the direct mode is the first server, and
  its hop is dialled over TCP before anything else: as long as that server accepts TCP connections, QUIC is not used, whether or not the
  transport is set to QUIC, a QUIC connection is at hand, or the race of both is asked for.
\<close>

theorem tcp_before_quic:
  assumes prot: "trim_space (po_ClusterPreferredServer p) = []" "trim_space (po_RouteID p) = []"
    and mode: "flow_mode fe fa (Some p) fl \<noteq> ''direct''" and pm: "fl_pm fl = None"
    and server: "firstServerAddr (wd_live (fl_world fl)) (da_addrs (fa_dial fa)) = s" "split_host_port s \<noteq> None"
    and accept: "accepts (fe_net fe) (fa_target fa) s l"
  shows "fst (DialTunFlow fe fa (Some p) allow fl) = (Inr l, False, True) \<and>
    tried (fl_world (snd (DialTunFlow fe fa (Some p) allow fl))) = tried (fl_world fl) @ [(ViaTCP, s)]"
proof -
  let ?da = "fa_dial fa"
  define mode where "mode = routeModeOf (wd_live (fl_world fl)) (Some p)"
  have none: "preferred_of (Some p) = []" using prot(1) by (simp add: preferred_of_def)
  then have canon: "canonical_prot (fe_addr fe) (da_addrs ?da) (Some p) = Some p" by (simp add: canonical_prot_def)
  have live: "live_prot mode (Some p) = Some p" using none by (simp add: live_prot_def)
  have nd: "mode \<noteq> ''direct''" using \<open>flow_mode fe fa (Some p) fl \<noteq> _\<close> by (simp add: flow_mode_def canon mode_def)
  define fl0 where "fl0 = trace fa mode [] [] fl"
  have pm0: "fl_pm fl0 = None" using pm by (simp add: fl0_def quiet)
  define rt where "rt = fst (choose_route fe fa mode (Some p) allow fl0)"
  have "pd_PreferTCP direct_path = False" by (simp add: direct_path_def)
  then have "snd (choose_route fe fa mode (Some p) allow fl0) = fl0 \<and> ro_decision rt = direct_path \<and>
      (ro_prot rt = Some p \<or> ro_prot rt = protForDirectRoute (Some p))"
    using nd unfolding rt_def choose_route_def decide_def Let_def none pm0 by (simp add: case_prod_unfold)
  then have rt: "choose_route fe fa mode (Some p) allow fl0 = (rt, fl0)" "ro_decision rt = direct_path"
    "ro_prot rt = Some p \<or> ro_prot rt = protForDirectRoute (Some p)"
    by (simp_all add: rt_def prod_eq_iff)
  obtain q where q: "ro_prot rt = Some q" "trim_space (po_RouteID q) = []"
    using rt(3) prot(2) by (auto simp: protForDirectRoute_def)
  have s: "trim_space s = s" using firstServerAddr_trimmed server(1) by metis
  have "s \<noteq> []" using server(2) by (auto simp: split_host_port_def last_index_def)
  define plan where "plan = BuildRoutePlan (tg_text (fa_target fa)) s (first_candidates (Some p) direct_path)"
  have hops: "rp_Hops plan = [\<lparr>rh_Kind = ''direct_server'', rh_Addr = s\<rparr>]"
    unfolding plan_def by (rule plan_without_peers [OF s \<open>s \<noteq> []\<close>])
  obtain chain where chain: "AttachRouteHops plan (Some q) = Some chain" "trim_space (po_RouteID chain) = []"
    using q(2) by (simp add: AttachRouteHops_def Let_def)
  obtain protR where protR: "map_option (\<lambda>p. p\<lparr>po_HopIndex := nonpos_or (po_HopIndex p) 1\<rparr>) (RelayProtForPeerHop (Some chain) (fa_relay fa)) = Some protR"
    "trim_space (po_RouteID protR) = []"
    using chain(2) by (simp add: RelayProtForPeerHop_def Let_def relay_budget_def default_hops_def)
  have "\<not> needHopAck (protForDirectRoute (Some protR))" using protR(2) by (simp add: needHopAck_def protForDirectRoute_def)
  define fl1 where "fl1 = trace fa (join_with '' -> '' (map (\<lambda>h. rh_Kind h @ ''='' @ rh_Addr h) (rp_Hops plan))) [] [] fl0"
  obtain w' where dial: "Dial (fe_net fe) [s] (fa_target fa) (da_token ?da) (protForDirectRoute (Some protR)) (da_transport ?da)
      (da_quicServer ?da) (da_shared ?da) True (fl_world fl1) = (Inr l, w')" "tried w' = tried (fl_world fl1) @ [(ViaTCP, s)]"
    using Dial_accepts [OF accept \<open>\<not> needHopAck _\<close>] by blast
  have hop: "dialRouteHopConn (fe_net fe) ?da (fa_target fa) (fa_relay fa) ''direct_server'' s (Some protR) (fl_world fl1) = (Inr (l, True), w')"
    using server(2) \<open>s \<noteq> []\<close> by (simp add: dialRouteHopConn_def dialRelayHop_def hopServerAddrs_def s dial(1))
  have live0: "wd_live (fl_world fl0) = wd_live (fl_world fl)" by (simp add: fl0_def trace_def)
  obtain fl2 where plan_try: "try_plan fe fa mode (first_candidates (Some p) direct_path) (Some q) fl0 = (Some (l, True), fl2)"
    "tried (fl_world fl2) = tried w'"
  proof -
    have "try_plan fe fa mode (first_candidates (Some p) direct_path) (Some q) fl0 =
        (Some (l, True), switched SwitchRelay (report fe fa True (pd_RelayClass (first_candidates (Some p) direct_path))
          (pd_PathTTL (first_candidates (Some p) direct_path)) (trace fa mode (''direct_server'' @ '':'' @ s) [] (fl1\<lparr>fl_world := w'\<rparr>))))"
      unfolding try_plan_def Let_def live0 server(1) plan_def [symmetric] hops
      by (simp add: chain(1) protR(1) on_world_def hop fl1_def [unfolded hops, simplified, symmetric])
    then show thesis
      by (rule that) (simp add: switched_def report_def trace_def pm0 fl1_def quiet tried_def)
  qed
  have "DialTunFlow fe fa (Some p) allow fl = ((Inr l, False, True), fl2)"
    unfolding DialTunFlow_def Let_def canon mode_def [symmetric] live fl0_def [symmetric]
    by (simp add: rt nd q(1) plan_try(1))
  then show ?thesis using plan_try(2) dial(2) by (simp add: fl1_def fl0_def trace_def tried_def)
qed

section \<open>What the selector learns\<close>

lemma race_lost:
  "list_all (\<lambda>(t, f, r). \<exists>e. r = Inl e \<and> ok e) rs \<Longrightarrow> (case firstErr of None \<Rightarrow> ok deadline_exceeded | Some e \<Rightarrow> ok e) \<Longrightarrow>
   \<exists>e. race_loop p firstErr rs = (Inl e, True, p) \<and> ok e"
  by (induction p firstErr rs rule: race_loop.induct) (auto split: option.splits)

lemma sel_after:
  "fl_sel (report fe fa ok cls ttl fl) = fl_sel fl" "fl_sel (switched k fl) = fl_sel fl"
  "fl_sel (quic_outcome ok fl) = map_option (RecordQuicOutcome ok) (fl_sel fl)"
  "on_world f fl = (r, fl') \<Longrightarrow> fl_sel fl' = fl_sel fl"
  by (auto simp: report_def switched_def quic_outcome_def on_world_def Let_def split: option.splits prod.splits)

lemma two_outcomes:
  "\<not> ds_degraded (RecordQuicOutcome b (RecordQuicOutcome True s)) \<and> ds_consecutiveFails (RecordQuicOutcome b (RecordQuicOutcome True s)) \<le> 1"
  by (simp add: RecordQuicOutcome_def Let_def)

lemma dial_last_sel:
  assumes "fa_dual fa" "da_shared (fa_dial fa)" and s: "fl_sel fl = Some (RecordQuicOutcome True s)"
  shows "\<exists>s''. fl_sel (snd (dial_last fe fa d fb False fl)) = Some s'' \<and> \<not> ds_degraded s'' \<and> ds_consecutiveFails s'' \<le> 1"
proof -
  obtain q fl1 where q: "on_world (dial_server fe fa fb False) fl = (q, fl1)" by fastforce
  have s1: "fl_sel fl1 = Some (RecordQuicOutcome True s)" using sel_after(4) [OF q] s by simp
  have sel: "fl_sel (snd (on_world f f')) = fl_sel f'" for f :: "world \<Rightarrow> 'x \<times> world" and f'
    by (simp add: on_world_def case_prod_unfold Let_def)
  have "\<exists>b. fl_sel (snd (dial_last fe fa d fb False fl)) = Some (RecordQuicOutcome b (RecordQuicOutcome True s))"
    using assms(1,2) s1 by (cases q) (auto simp: dial_last_def Let_def q case_prod_unfold sel_after(1-3) sel)
  then show ?thesis using two_outcomes by blast
qed

lemma race_told_selector:
  assumes race: "fa_dual fa" "da_shared (fa_dial fa)" "UsesQUICTransport (da_transport (fa_dial fa)) (da_quicServer (fa_dial fa))"
    and sel: "fl_sel fl = Some s" "PreferQUIC (fe_draw fe) s = (q, s')"
  shows "\<not> q \<Longrightarrow> dial_server fe fa prot True (fl_world fl) = (Inr l, w) \<Longrightarrow> fe_took fe True < 120 * millisecond \<Longrightarrow>
      fl_sel (snd (dial_rest fe fa d prot exit allow preferTCP fl)) = Some (RecordQuicOutcome False s') \<and>
      fl_world (snd (dial_rest fe fa d prot exit allow preferTCP fl)) = w"
    and "q \<Longrightarrow> dial_server fe fa prot False (fl_world fl) = (Inl e1, w1) \<Longrightarrow> dial_server fe fa prot True w1 = (Inl e2, w2) \<Longrightarrow>
      \<not> is_panic (Inl e1 :: go_error + link) \<Longrightarrow> \<not> is_panic (Inl e2 :: go_error + link) \<Longrightarrow>
      \<exists>s''. fl_sel (snd (dial_rest fe fa d prot exit allow preferTCP fl)) = Some s'' \<and> \<not> ds_degraded s'' \<and> ds_consecutiveFails s'' \<le> 1"
proof -
  let ?da = "fa_dial fa"
  have cond: "fa_dual fa \<and> da_shared ?da \<and> UsesQUICTransport (da_transport ?da) (da_quicServer ?da)" using race by simp
  define fl1 where "fl1 = fl\<lparr>fl_sel := Some s'\<rparr>"
  define fb where "fb = fallbackDialProt prot (fa_relay fa) exit allow"
  have w0: "fl_world fl1 = fl_world fl" by (simp add: fl1_def)
  note rest = dial_rest_def [of fe fa d prot exit allow preferTCP fl, unfolded Let_def if_P [OF cond] sel option.case prod.case,
      folded fl1_def fb_def]
  {
    assume "\<not> q" "dial_server fe fa prot True (fl_world fl) = (Inr l, w)" "fe_took fe True < 120 * millisecond"
    then have "dialDualRace fe fa prot True (fl_world fl1) = ((Inr l, True, True), w)"
      by (simp add: dialDualRace_def Let_def w0)
    then have "dial_rest fe fa d prot exit allow preferTCP fl =
        ((Inr l, True, True), report fe fa True (pd_RelayClass d) (pd_PathTTL d)
          (quic_outcome False (switched SwitchTransport (fl1\<lparr>fl_world := w\<rparr>))))"
      using \<open>\<not> q\<close> rest by (simp add: on_world_def)
    then show "fl_sel (snd (dial_rest fe fa d prot exit allow preferTCP fl)) = Some (RecordQuicOutcome False s') \<and>
        fl_world (snd (dial_rest fe fa d prot exit allow preferTCP fl)) = w"
      by (simp add: report_def quic_outcome_def switched_def fl1_def Let_def)
  }
  {
    assume q: "q" and d1: "dial_server fe fa prot False (fl_world fl) = (Inl e1, w1)" and d2: "dial_server fe fa prot True w1 = (Inl e2, w2)"
      and np: "\<not> is_panic (Inl e1 :: go_error + link)" "\<not> is_panic (Inl e2 :: go_error + link)"
    define ok where "ok = (\<lambda>e. \<not> is_panic (Inl e :: go_error + link))"
    have ok: "ok e1" "ok e2" "ok deadline_exceeded" using np by (simp_all add: ok_def is_panic_def deadline_exceeded_def)
    obtain e where lost: "dialDualRace fe fa prot False (fl_world fl1) = ((Inl e, True, False), w2)" "ok e"
    proof -
      let ?a = "(fe_took fe False, False, Inl e1 :: go_error + link)" and ?b = "(120 * millisecond + fe_took fe True, True, Inl e2 :: go_error + link)"
      let ?rs = "if fst ?a \<le> fst ?b then [?a, ?b] else [?b, ?a]"
      have "list_all (\<lambda>(t, f, r :: go_error + link). \<exists>e. r = Inl e \<and> ok e) ?rs" using ok by simp
      from race_lost [OF this, of None False] obtain e where "race_loop False None ?rs = (Inl e, True, False)" "ok e"
        using ok(3) by auto
      then show thesis using np by (intro that [of e]) (simp_all add: dialDualRace_def Let_def w0 d1 d2)
    qed
    define fl4 where "fl4 = report fe fa False (pd_RelayClass d) (pd_PathTTL d) (quic_outcome True
        (if e = deadline_exceeded then switched SwitchTransport (fl1\<lparr>fl_world := w2\<rparr>) else fl1\<lparr>fl_world := w2\<rparr>))"
    have "dial_rest fe fa d prot exit allow preferTCP fl = dial_last fe fa d fb False fl4"
      using rest q lost(2) by (simp add: on_world_def lost(1) ok_def fl4_def)
    moreover have "fl_sel fl4 = Some (RecordQuicOutcome True s')"
      by (simp add: fl4_def report_def quic_outcome_def switched_def fl1_def Let_def)
    ultimately show "\<exists>s''. fl_sel (snd (dial_rest fe fa d prot exit allow preferTCP fl)) = Some s'' \<and> \<not> ds_degraded s'' \<and> ds_consecutiveFails s'' \<le> 1"
      using dial_last_sel [OF race(1,2)] by metis
  }
qed

text \<open>
  In the race of a flow the selector is told that QUIC failed exactly when TCP was used. So a connection that TCP, asked first, gives within
  120 milliseconds counts as a failure of QUIC, which was not dialled; and a race that both lose after QUIC was asked first counts as
  a success of QUIC, so that a selector never turns away from QUIC while everything fails.
\<close>

theorem selector_misled:
  assumes "fa_dual fa" "da_shared (fa_dial fa)" "UsesQUICTransport (da_transport (fa_dial fa)) (da_quicServer (fa_dial fa))"
    and "fl_sel fl = Some s" "PreferQUIC (fe_draw fe) s = (q, s')"
  shows "(\<forall>l w. \<not> q \<and> dial_server fe fa prot True (fl_world fl) = (Inr l, w) \<and> fe_took fe True < 120 * millisecond \<longrightarrow>
      fl_sel (snd (dial_rest fe fa d prot exit allow preferTCP fl)) = Some (RecordQuicOutcome False s') \<and>
      fl_world (snd (dial_rest fe fa d prot exit allow preferTCP fl)) = w) \<and>
    (\<forall>e1 e2 w1 w2. q \<and> dial_server fe fa prot False (fl_world fl) = (Inl e1, w1) \<and> dial_server fe fa prot True w1 = (Inl e2, w2) \<and>
      \<not> is_panic (Inl e1 :: go_error + link) \<and> \<not> is_panic (Inl e2 :: go_error + link) \<longrightarrow>
      (\<exists>s''. fl_sel (snd (dial_rest fe fa d prot exit allow preferTCP fl)) = Some s'' \<and> \<not> ds_degraded s'' \<and> ds_consecutiveFails s'' \<le> 1))"
  using race_told_selector [OF assms, where prot = prot and d = d and exit = exit and allow = allow and preferTCP = preferTCP] by blast

section \<open>Instances\<close>

definition demo_fe :: "(nat \<Rightarrow> string \<Rightarrow> go_error + link) \<Rightarrow> rat \<Rightarrow> flow_env" where
  "demo_fe f draw =
     \<lparr>fe_net = demo_env f, fe_addr = \<lparr>ae_ip = (\<lambda>_. None), ae_url = (\<lambda>_. None)\<rparr>, fe_order = id, fe_hints = [], fe_nodes = [],
      fe_clk = (\<lambda>_. 0), fe_now = (\<lambda>_. 0), fe_draw = draw, fe_took = (\<lambda>_. 0), fe_elapsed = 0\<rparr>"

definition demo_fa :: flow_args where
  "demo_fa = \<lparr>fa_dial = \<lparr>da_addrs = [''a:1''], da_token = ''t'', da_transport = ''quic'', da_quicServer = [], da_shared = True\<rparr>,
     fa_target = demo_target, fa_dual = True, fa_relay = None\<rparr>"

definition demo_flow :: "PathManager option \<Rightarrow> flow" where
  "demo_flow pm = \<lparr>fl_world = demo_world, fl_pm = pm, fl_records = [], fl_sel = Some newDualPathSelector,
     fl_slo = \<lparr>sl_sessionsStarted = 0, sl_sessionsReady = 0, sl_transportFallback = 0, sl_lastReadyAt = zero_time,
       sl_dpiQuicGoodness = 0, sl_iceSrflxEwma = 0\<rparr>, fl_failover = 0, fl_switches = []\<rparr>"

abbreviation up :: "nat \<Rightarrow> string \<Rightarrow> go_error + link" where "up \<equiv> \<lambda>_ _. Inr demo_link"
abbreviation down :: "nat \<Rightarrow> string \<Rightarrow> go_error + link" where "down \<equiv> \<lambda>_ _. Inl EOF"


definition demo_direct :: ProtectionOptions where
  "demo_direct = po_zero\<lparr>po_RouteMode := ''direct'', po_PeerID := ''p'', po_RelayHop := 1\<rparr>"


lemma tcp_before_quic_witness:
  "fst (DialTunFlow (demo_fe up 0) demo_fa (Some po_zero) True (demo_flow None)) = (Inr demo_link, False, True)"
proof -
  have "flow_mode (demo_fe up 0) demo_fa (Some po_zero) (demo_flow None) \<noteq> ''direct''" by code_simp
  moreover have "firstServerAddr (wd_live (fl_world (demo_flow None))) (da_addrs (fa_dial demo_fa)) = ''a:1''"
    "split_host_port ''a:1'' \<noteq> None" by code_simp+
  moreover have "accepts (fe_net (demo_fe up 0)) (fa_target demo_fa) ''a:1'' demo_link"
  proof -
    have "wfailed (WriteTcpConnect (tg_ip demo_target) (tg_port demo_target)) = None" by code_simp
    then show ?thesis by (simp add: accepts_def demo_fe_def demo_env_def demo_fa_def demo_link_def)
  qed
  ultimately show ?thesis using tcp_before_quic [of po_zero "demo_fe up 0" demo_fa "demo_flow None" "''a:1''" demo_link True]
    by (simp add: po_zero_def demo_flow_def trim_space_def trim_rev.simps)
qed

lemma selector_misled_witness:
  "fl_sel (snd (dial_rest (demo_fe up 1) demo_fa direct_path None False False False (demo_flow None))) =
     Some (RecordQuicOutcome False newDualPathSelector) \<and>
   \<not> ds_degraded (the (fl_sel (snd (dial_rest (demo_fe down 0) demo_fa direct_path None False False False (demo_flow None)))))"
proof
  have fa: "fa_dual demo_fa" "da_shared (fa_dial demo_fa)" "UsesQUICTransport (da_transport (fa_dial demo_fa)) (da_quicServer (fa_dial demo_fa))"
    by code_simp+
  have sel: "fl_sel (demo_flow None) = Some newDualPathSelector" by (simp add: demo_flow_def)
  have p1: "PreferQUIC (fe_draw (demo_fe up 1)) newDualPathSelector = (False, newDualPathSelector)"
    using prefer_prob_bounds [of 1] by (simp add: PreferQUIC_def newDualPathSelector_def demo_fe_def)
  have "fst (dial_server (demo_fe up 1) demo_fa None True (fl_world (demo_flow None))) = Inr demo_link" by code_simp
  then have d1: "dial_server (demo_fe up 1) demo_fa None True (fl_world (demo_flow None)) =
      (Inr demo_link, snd (dial_server (demo_fe up 1) demo_fa None True (fl_world (demo_flow None))))" by (simp add: prod_eq_iff)
  have took: "fe_took (demo_fe up 1) True < 120 * millisecond" by (simp add: demo_fe_def millisecond_def)
  show "fl_sel (snd (dial_rest (demo_fe up 1) demo_fa direct_path None False False False (demo_flow None))) =
     Some (RecordQuicOutcome False newDualPathSelector)"
    using selector_misled [OF fa sel p1] d1 took by blast
  let ?fe = "demo_fe down 0" and ?w = "fl_world (demo_flow None)"
  have p: "PreferQUIC (fe_draw ?fe) newDualPathSelector = (True, newDualPathSelector)"
    using prefer_prob_bounds [of 1] by (simp add: PreferQUIC_def newDualPathSelector_def demo_fe_def)
  have "fst (dial_server ?fe demo_fa None False ?w) = Inl EOF"
    "fst (dial_server ?fe demo_fa None True (snd (dial_server ?fe demo_fa None False ?w))) = Inl EOF" by code_simp+
  then have d: "dial_server ?fe demo_fa None False ?w = (Inl EOF, snd (dial_server ?fe demo_fa None False ?w))"
    "dial_server ?fe demo_fa None True (snd (dial_server ?fe demo_fa None False ?w)) =
     (Inl EOF, snd (dial_server ?fe demo_fa None True (snd (dial_server ?fe demo_fa None False ?w))))" by (simp_all add: prod_eq_iff)
  show "\<not> ds_degraded (the (fl_sel (snd (dial_rest ?fe demo_fa direct_path None False False False (demo_flow None)))))"
    using selector_misled [OF fa sel p, of None direct_path False False False] d by (fastforce simp: is_panic_def)
qed

end
