(* ===== verification/Control.thy ===== *)
theory Control
  imports Flow
begin

text \<open>
  What steers a flow from outside: the mesh policy (\<^verbatim>\<open>internal/vpn/mesh_runtime.go\<close>), the directives of the route controller
  (\<^verbatim>\<open>route_controller.go\<close>, \<^verbatim>\<open>route_directive.go\<close>), the preferred server (\<^verbatim>\<open>dial_addrs.go\<close>, \<^verbatim>\<open>cluster_snap.go\<close> and its siblings),
  the orchestrator that probes a target and asks the cluster for help (\<^verbatim>\<open>internal/routeorch\<close>, \<^verbatim>\<open>cluster_orchestrate.go\<close>,
  \<^verbatim>\<open>cluster_route_assist.go\<close>), and the handler of a TCP connection from the tunnel (\<^verbatim>\<open>vpn.go\<close>), which puts them together and
  starts the flow of theory Flow. HTTP, JSON and the probe are arguments; the waits and time-outs of a probe are left out.
\<close>

section \<open>The mesh policy\<close>

definition meshAllowsVolunteerRelay :: "MeshConfig option \<Rightarrow> bool" where
  "meshAllowsVolunteerRelay mesh = (case mesh of None \<Rightarrow> False | Some m \<Rightarrow> me_Enabled m \<and> mv_Enabled (me_Volunteer m))"

definition meshAllowsPresencePublish :: "MeshConfig option \<Rightarrow> bool" where
  "meshAllowsPresencePublish mesh = meshAllowsVolunteerRelay mesh"

definition meshAllowsSTUN :: "MeshConfig option \<Rightarrow> bool" where
  "meshAllowsSTUN mesh = (case mesh of None \<Rightarrow> True | Some m \<Rightarrow> \<not> me_Enabled m \<or> mt_Enabled (me_STUN m))"

definition meshAllowsServerRelay :: "MeshConfig option \<Rightarrow> bool" where
  "meshAllowsServerRelay mesh = (case mesh of None \<Rightarrow> True | Some m \<Rightarrow> \<not> me_Enabled m \<or> ms_Enabled (me_ServerRelay m))"

definition policy_mode :: "MeshConfig option \<Rightarrow> string" where
  "policy_mode mesh =
     (case mesh of None \<Rightarrow> [] | Some m \<Rightarrow> if me_Enabled m then to_lower (trim_space (my_RouteMode (me_Policy m))) else [])"

definition or_zero :: "ProtectionOptions option \<Rightarrow> ProtectionOptions" where
  "or_zero base = (case base of None \<Rightarrow> po_zero | Some b \<Rightarrow> b)"

definition protectionWithMeshPolicy :: "ProtectionOptions option \<Rightarrow> MeshConfig option \<Rightarrow> ProtectionOptions option" where
  "protectionWithMeshPolicy base mesh =
     (let mode = policy_mode mesh; out = Some ((or_zero base)\<lparr>po_RouteMode := mode\<rparr>) in
      if mode = ''direct'' then out
      else if mode = ''peer_relay'' then (if \<not> P2PEnabled mesh then base else out)
      else if mode = ''server_relay'' then (if \<not> meshAllowsServerRelay mesh then base else out)
      else base)"

section \<open>Directives\<close>

record RouteDirective =
  rd_Target :: string
  rd_Mode :: string
  rd_PeerID :: string
  rd_Endpoint :: string
  rd_RouteID :: string
  rd_ExpiresAt :: instant
  rd_Reason :: string

definition rd_zero :: RouteDirective where
  "rd_zero = \<lparr>rd_Target = [], rd_Mode = [], rd_PeerID = [], rd_Endpoint = [], rd_RouteID = [], rd_ExpiresAt = zero_time, rd_Reason = []\<rparr>"

type_synonym RouteController = "(string, RouteDirective) gomap"

definition NewRouteController :: RouteController where
  "NewRouteController = []"

definition rc_Apply :: "RouteDirective \<Rightarrow> RouteController option \<Rightarrow> RouteController option" where
  "rc_Apply d = map_option (\<lambda>items.
     let key = trim_space (rd_Target d) in
     if key = [] \<or> rd_ExpiresAt d = zero_time then items else mput key d items)"

definition directive_at :: "string \<Rightarrow> instant \<Rightarrow> RouteController \<Rightarrow> RouteDirective option \<times> RouteController" where
  "directive_at key now items =
     (case mget items key of
        None \<Rightarrow> (None, items)
      | Some d \<Rightarrow> if \<not> rd_ExpiresAt d > now then (None, mdel key items) else (Some d, items))"

definition DirectiveFor :: "target \<Rightarrow> instant \<Rightarrow> RouteController option \<Rightarrow> RouteDirective option \<times> RouteController option" where
  "DirectiveFor f now c =
     (case c of
        None \<Rightarrow> (None, c)
      | Some items \<Rightarrow>
        if tg_ip f = [] \<or> tg_port f = 0 then (None, c)
        else let (d, items) = directive_at (join_host_port (tg_text f) (itoa (uint (tg_port f)))) now items in (d, Some items))"

definition DirectiveForTarget :: "string \<Rightarrow> instant \<Rightarrow> RouteController option \<Rightarrow> RouteDirective option \<times> RouteController option" where
  "DirectiveForTarget t now c =
     (case c of
        None \<Rightarrow> (None, c)
      | Some items \<Rightarrow>
        let key = trim_space t in
        if key = [] then (None, c) else let (d, items) = directive_at key now items in (d, Some items))"

definition routeDirectiveProtectionForMesh ::
  "ProtectionOptions option \<Rightarrow> RouteDirective \<Rightarrow> MeshConfig option \<Rightarrow> ProtectionOptions option \<times> bool" where
  "routeDirectiveProtectionForMesh base d mesh =
     (if trim_space (rd_Endpoint d) = [] then (base, False)
      else
        let out = or_zero base;
            mode = to_lower (trim_space (rd_Mode d));
            mode = (if mode = [] then ''server_relay'' else mode)
        in if mode = ''server_relay'' then
             (if \<not> meshAllowsServerRelay mesh then (base, False)
              else (Some (out\<lparr>po_RouteMode := ''server_relay'', po_ClusterPreferredServer := trim_space (rd_Endpoint d), po_RouteID := []\<rparr>), True))
           else if mode = ''direct'' then
             (Some (out\<lparr>po_RouteMode := ''direct'', po_ClusterPreferredServer := [], po_RouteID := []\<rparr>), True)
           else if mode = ''peer_relay'' then
             (if (case mesh of None \<Rightarrow> False | Some m \<Rightarrow> me_Enabled m \<and> \<not> P2PEnabled mesh) then (base, False)
              else (Some (out\<lparr>po_RouteMode := ''peer_relay'', po_ClusterPreferredServer := [], po_RouteID := trim_space (rd_RouteID d),
                              po_PeerID := trim_space (rd_PeerID d)\<rparr>), True))
           else (base, False))"

section \<open>Servers\<close>

text \<open>\<open>pref\<close> is the process-wide preference, empty when there is none.\<close>

definition SetClusterDialPreference :: "addr_env \<Rightarrow> string \<Rightarrow> string" where
  "SetClusterDialPreference ae hostPort = CanonicalHostPort ae hostPort"

fun index_of :: "('a \<Rightarrow> bool) \<Rightarrow> 'a list \<Rightarrow> nat option" where
  "index_of p [] = None"
| "index_of p (x # xs) = (if p x then Some 0 else map_option Suc (index_of p xs))"

definition reorderPrimaryFirst :: "addr_env \<Rightarrow> string list \<Rightarrow> string \<Rightarrow> string list" where
  "reorderPrimaryFirst ae addrs primary =
     (if length addrs \<le> 1 \<or> primary = [] then addrs
      else case index_of (\<lambda>a. CanonicalHostPort ae a = primary) addrs of
        None \<Rightarrow> addrs
      | Some i \<Rightarrow> if i = 0 then addrs else addrs ! i # take i addrs @ drop (i + 1) addrs)"

definition dialServerAddrs :: "addr_env \<Rightarrow> string \<Rightarrow> string list \<Rightarrow> ProtectionOptions option \<Rightarrow> string list" where
  "dialServerAddrs ae pref base prot =
     (if preferred_of prot \<noteq> [] then base else if pref = [] then base else reorderPrimaryFirst ae base pref)"

definition reorderServerAddrsActiveFirst :: "addr_env \<Rightarrow> string list \<Rightarrow> string \<Rightarrow> string list" where
  "reorderServerAddrsActiveFirst ae addrs active =
     (let active = trim_space active in
      if active = [] \<or> length addrs \<le> 1 then addrs
      else let want = CanonicalHostPort ae active in
        if want = [] then addrs
        else
          let as = filter (\<lambda>a. a \<noteq> []) (map trim_space addrs);
              head = filter (\<lambda>a. CanonicalHostPort ae a = want) as;
              tail = filter (\<lambda>a. CanonicalHostPort ae a \<noteq> want) as
          in if head = [] then addrs else head @ tail)"

definition clusterPollAcceptSource :: "addr_env \<Rightarrow> live \<Rightarrow> string \<Rightarrow> bool" where
  "clusterPollAcceptSource ae l serverAddr =
     (let want = trim_space (ActiveVolterServer l) in
      want = [] \<or> CanonicalHostPort ae serverAddr = CanonicalHostPort ae want)"

definition clusterHTTPPollTarget :: "addr_env \<Rightarrow> live \<Rightarrow> string \<Rightarrow> string list \<Rightarrow> ProtectionOptions option \<Rightarrow> string" where
  "clusterHTTPPollTarget ae l pref base prot =
     (let a = trim_space (ActiveVolterServer l) in
      if a \<noteq> [] then a
      else case filter (\<lambda>a. a \<noteq> []) (map trim_space (dialServerAddrs ae pref base prot)) of [] \<Rightarrow> [] | a # _ \<Rightarrow> a)"

definition clusterPollHeaderKey :: "ProtectionOptions option \<Rightarrow> string \<Rightarrow> string" where
  "clusterPollHeaderKey prot token =
     (case prot of
        None \<Rightarrow> trim_space token
      | Some p \<Rightarrow> if trim_space (po_ClusterHTTPKey p) \<noteq> [] then trim_space (po_ClusterHTTPKey p) else trim_space token)"

definition normalizeClusterHTTPPath :: "string \<Rightarrow> string" where
  "normalizeClusterHTTPPath p =
     (let p = trim_space p in if p = [] then [] else if \<not> has_prefix p ''/'' then CHR ''/'' # p else p)"

definition poll_path :: "string \<Rightarrow> string \<Rightarrow> string" where
  "poll_path p dflt = (if trim_space p \<noteq> [] then normalizeClusterHTTPPath (trim_space p) else dflt)"

definition clusterPollPaths :: "ProtectionOptions option \<Rightarrow> string \<times> string \<times> string" where
  "clusterPollPaths prot =
     (let p = or_zero prot in
      (poll_path (po_ClusterMapPath p) ''/volter/cluster-map.json'',
       poll_path (po_ClusterSessionsPath p) ''/volter/cluster-sessions.json'',
       poll_path (po_ClusterClientsPath p) ''/volter/cluster-clients.json''))"

definition ClusterInviteHTTPPath :: "ProtectionOptions option \<Rightarrow> string" where
  "ClusterInviteHTTPPath prot = (case prot of None \<Rightarrow> [] | Some p \<Rightarrow> normalizeClusterHTTPPath (po_ClusterInvitePath p))"

definition ClusterPeerHandshakeHTTPPath :: "ProtectionOptions option \<Rightarrow> string" where
  "ClusterPeerHandshakeHTTPPath prot = (case prot of None \<Rightarrow> [] | Some p \<Rightarrow> normalizeClusterHTTPPath (po_ClusterPeerHandshakePath p))"

section \<open>The handler\<close>

record handler =
  hd_prot :: "ProtectionOptions option"
  hd_rc :: "RouteController option"
  hd_mesh :: "MeshConfig option"
  hd_pref :: string
  hd_emergency :: bool

text \<open>\<open>parse\<close> is \<^verbatim>\<open>net.ParseIP\<close>.\<close>

definition isServerAddr :: "(string \<Rightarrow> bytes option) \<Rightarrow> addr_env \<Rightarrow> string list \<Rightarrow> handler \<Rightarrow> target \<Rightarrow> bool" where
  "isServerAddr parse ae addrs h tg =
     list_ex (\<lambda>a. case split_host_port a of
         None \<Rightarrow> False
       | Some (host, port) \<Rightarrow> port = itoa (uint (tg_port tg)) \<and> (case parse host of None \<Rightarrow> False | Some ip \<Rightarrow> ip_equal ip (tg_ip tg)))
       (dialServerAddrs ae (hd_pref h) addrs (hd_prot h))"

text \<open>\<^verbatim>\<open>handler.routeDirectiveProtection\<close>.\<close>

definition directed_prot :: "target \<Rightarrow> instant \<Rightarrow> handler \<Rightarrow> ProtectionOptions option \<times> handler" where
  "directed_prot tg now h =
     (let base = hd_prot h in
      if hd_rc h = None then (base, h)
      else
        let (d, rc) = DirectiveFor tg now (hd_rc h); h = h\<lparr>hd_rc := rc\<rparr>;
            p = (case d of None \<Rightarrow> (base, False) | Some d \<Rightarrow> routeDirectiveProtectionForMesh base d (hd_mesh h))
        in if snd p then (fst p, h)
           else (case base of
                None \<Rightarrow> (base, h)
              | Some b \<Rightarrow>
                let (d, rc) = DirectiveForTarget (po_ClusterPreferredServer b) now (hd_rc h); h = h\<lparr>hd_rc := rc\<rparr>;
                    p = (case d of None \<Rightarrow> (base, False) | Some d \<Rightarrow> routeDirectiveProtectionForMesh base d (hd_mesh h))
                in (if snd p then fst p else base, h)))"

definition live_preferred :: "live \<Rightarrow> ProtectionOptions option \<Rightarrow> ProtectionOptions option \<Rightarrow> ProtectionOptions option" where
  "live_preferred l own prot =
     (let v = LiveClusterPreferredServerValue l in
      if v = [] then prot
      else case prot of
        None \<Rightarrow> Some (po_zero\<lparr>po_ClusterPreferredServer := v, po_RouteMode := po_RouteMode (or_zero own)\<rparr>)
      | Some p \<Rightarrow> Some (p\<lparr>po_ClusterPreferredServer := v\<rparr>))"

definition nil_pointer :: go_error where
  "nil_pointer = Panic ''invalid memory address or nil pointer dereference''"

text \<open>
  The connection of a TCP stream out of the tunnel: \<open>None\<close> for one to a server itself, which is dropped. The options are read
  through a pointer, so there have to be some.
\<close>

definition handleTCP ::
  "(string \<Rightarrow> bytes option) \<Rightarrow> flow_env \<Rightarrow> flow_args \<Rightarrow> instant \<Rightarrow> handler \<Rightarrow> flow \<Rightarrow> flow_result option \<times> handler \<times> flow" where
  "handleTCP parse fe fa now h fl =
     (let ae = fe_addr fe; da = fa_dial fa in
      if isServerAddr parse ae (da_addrs da) h (fa_target fa) then (None, h, fl)
      else
        let (p, h) = directed_prot (fa_target fa) now h;
            dialProt = live_preferred (wd_live (fl_world fl)) (hd_prot h) p;
            allowPeerPath = ((case fa_relay fa of None \<Rightarrow> False | Some r \<Rightarrow> ro_PeerPathFromDiscovery r) \<and> \<not> hd_emergency h)
        in case dialProt of
             None \<Rightarrow> (Some (Inl nil_pointer, False, False), h, fl)
           | Some q \<Rightarrow>
             let mode = to_lower (trim_space (po_RouteMode q));
                 allowPeerPath = (if mode = ''direct'' \<or> mode = ''server_relay'' then False
                                  else if mode = ''peer_relay'' then True else allowPeerPath);
                 fa = fa\<lparr>fa_dial := da\<lparr>da_addrs := dialServerAddrs ae (hd_pref h) (da_addrs da) dialProt\<rparr>\<rparr>;
                 (r, fl) = DialTunFlow fe fa dialProt allowPeerPath fl
             in (Some r, h, fl))"


section \<open>The orchestrator\<close>

datatype Stage = StagePickTarget | StageProbeDirect | StageSignal | StageProbeAssist | StageMigrate | StageFallback

datatype Outcome = OutcomeMigrated | OutcomeFallback | OutcomeError

definition InviteTTL :: duration where "InviteTTL = 5 * second"

record InviteRequest =
  iq_ClientID :: string
  iq_Nonce :: string
  iq_TargetNodeID :: string
  iq_CorrelationID :: string
  iq_DeadlineMs :: int

record PeerHandshakeRequest =
  hq_InviteID :: string
  hq_TargetNodeID :: string
  hq_CorrelationID :: string
  hq_DeadlineMs :: int

text \<open>The two answers have the same fields.\<close>

record InviteResponse =
  ir_Status :: string
  ir_RedirectHostPort :: string
  ir_Reason :: string
  ir_RouteMode :: string
  ir_PeerID :: string
  ir_Endpoint :: string
  ir_RouteID :: string
  ir_TTLSeconds :: int

record AssistConfig =
  ac_ClusterKey :: string
  ac_InvitePath :: string
  ac_HandshakePath :: string
  ac_TargetNodeID :: string
  ac_ClientID :: string
  ac_CorrelationID :: string
  ac_DeadlineMs :: int

text \<open>
  \<open>ax_post url key body\<close> is the answer of the cluster: a status and a body. \<open>ax_nonce\<close> and \<open>ax_corr\<close> are the eight random bytes of the nonce
  and of the correlation, \<open>ax_now\<close> and \<open>ax_then\<close> the clock when the deadline is set and when the answers are in, \<open>ax_cancelled\<close> says that
  the context ended during the wait.
\<close>

record assist_env =
  ax_post :: "string \<Rightarrow> string \<Rightarrow> bytes \<Rightarrow> go_error + nat \<times> bytes"
  ax_invite :: "InviteRequest \<Rightarrow> bytes"
  ax_handshake :: "PeerHandshakeRequest \<Rightarrow> bytes"
  ax_decode :: "bytes \<Rightarrow> InviteResponse option"
  ax_nonce :: bytes
  ax_corr :: bytes
  ax_now :: instant
  ax_then :: instant
  ax_cancelled :: bool

definition post_cluster ::
  "assist_env \<Rightarrow> string \<Rightarrow> bool \<Rightarrow> string \<Rightarrow> string \<Rightarrow> string \<Rightarrow> string \<Rightarrow> bytes \<Rightarrow> go_error + InviteResponse" where
  "post_cluster ax what showsBody dflt base key path body =
     (let base = trim_space base in
      if base = [] then Inl (Error ''empty host'')
      else
        let base = (if CHR '':'' \<in> set base then base else base @ '':80'');
            path = (if trim_space path = [] then dflt else trim_space path)
        in case ax_post ax (''http://'' @ base @ path) (trim_space key) body of
             Inl e \<Rightarrow> Inl e
           | Inr (status, b) \<Rightarrow>
             (case ax_decode ax (take (64 * 1024) b) of
                None \<Rightarrow> Inl (Error (what @ '': bad json status='' @ itoa (int status) @
                  (if showsBody then '' body='' @ bytes_str (take (64 * 1024) b) else [])))
              | Some out \<Rightarrow>
                if status < 200 \<or> status \<ge> 300 then Inl (Error (what @ '': http '' @ itoa (int status))) else Inr out))"

definition PostClusterInvite :: "assist_env \<Rightarrow> string \<Rightarrow> string \<Rightarrow> string \<Rightarrow> InviteRequest \<Rightarrow> go_error + InviteResponse" where
  "PostClusterInvite ax base key path req = post_cluster ax ''invite'' True ''/volter/cluster-invite'' base key path (ax_invite ax req)"

definition PostClusterPeerHandshake ::
  "assist_env \<Rightarrow> string \<Rightarrow> string \<Rightarrow> string \<Rightarrow> PeerHandshakeRequest \<Rightarrow> go_error + InviteResponse" where
  "PostClusterPeerHandshake ax base key path req =
     post_cluster ax ''peer handshake'' False ''/volter/cluster-peer-handshake'' base key path (ax_handshake ax req)"

text \<open>\<open>probe i\<close> is the \<open>i\<close>-th probe of a run, \<open>None\<close> when it reaches the address.\<close>

type_synonym probe = "nat \<Rightarrow> string \<Rightarrow> go_error option"

definition orch_Run :: "addr_env \<Rightarrow> string \<Rightarrow> string \<Rightarrow> probe option \<Rightarrow> Stage \<times> Outcome \<times> string" where
  "orch_Run ae target entryHostPort probe =
     (let tgt = CanonicalHostPort ae target in
      if tgt = [] then (StagePickTarget, OutcomeError, ''empty_target'')
      else case probe of
        None \<Rightarrow> (StageProbeDirect, OutcomeError, ''no_probe'')
      | Some p \<Rightarrow>
        (case p 0 tgt of
           None \<Rightarrow> (StageMigrate, OutcomeMigrated, tgt)
         | Some e \<Rightarrow>
           let ent = trim_space entryHostPort in
           if ent = [] \<or> CanonicalHostPort ae ent = tgt then (StageFallback, OutcomeFallback, err_text e)
           else (StageSignal, OutcomeFallback, ''direct_failed_signal_pending'')))"

text \<open>A later answer overrides an earlier one, field by field.\<close>

record assist_fields =
  af_mode :: string
  af_peer :: string
  af_endpoint :: string
  af_rid :: string
  af_ttl :: int

definition nonblank_or :: "string \<Rightarrow> string \<Rightarrow> string" where
  "nonblank_or s t = (if trim_space s \<noteq> [] then trim_space s else t)"

definition apply_answer :: "InviteResponse \<Rightarrow> assist_fields \<Rightarrow> assist_fields" where
  "apply_answer r f =
     \<lparr>af_mode = nonblank_or (ir_RouteMode r) (af_mode f), af_peer = nonblank_or (ir_PeerID r) (af_peer f),
      af_endpoint = nonblank_or (ir_Endpoint r) (af_endpoint f), af_rid = nonblank_or (ir_RouteID r) (af_rid f),
      af_ttl = (if ir_TTLSeconds r > 0 then ir_TTLSeconds r else af_ttl f)\<rparr>"

definition routeDirectiveFromResponses ::
  "instant \<Rightarrow> string \<Rightarrow> string \<Rightarrow> InviteResponse option \<Rightarrow> InviteResponse option \<Rightarrow> RouteDirective" where
  "routeDirectiveFromResponses now target routeID invt hs =
     (let f = \<lparr>af_mode = [], af_peer = [], af_endpoint = [], af_rid = [], af_ttl = 0\<rparr>;
          f = (case invt of None \<Rightarrow> f | Some r \<Rightarrow> apply_answer r f);
          f = (case hs of None \<Rightarrow> f | Some r \<Rightarrow> apply_answer r f)
      in if af_endpoint f = [] then rd_zero
         else \<lparr>rd_Target = target, rd_Mode = (if af_mode f = [] then ''server_relay'' else af_mode f), rd_PeerID = af_peer f,
                rd_Endpoint = af_endpoint f, rd_RouteID = (if af_rid f = [] then routeID else af_rid f),
                rd_ExpiresAt = now + wrap64 ((if af_ttl f \<le> 0 then 5 else af_ttl f) * second), rd_Reason = ''assist_response''\<rparr>)"

definition declined :: "InviteResponse \<Rightarrow> bool" where
  "declined r = (let s = to_lower (trim_space (ir_Status r)) in s \<noteq> [] \<and> s \<noteq> ''accepted'')"

definition redirected :: "addr_env \<Rightarrow> InviteResponse \<Rightarrow> string \<Rightarrow> string" where
  "redirected ae r t = (let redir = CanonicalHostPort ae (trim_space (ir_RedirectHostPort r)) in if redir \<noteq> [] then redir else t)"

definition invite_request :: "assist_env \<Rightarrow> AssistConfig \<Rightarrow> InviteRequest" where
  "invite_request ax a =
     \<lparr>iq_ClientID = (if trim_space (ac_ClientID a) = [] then ''volter-client'' else trim_space (ac_ClientID a)),
      iq_Nonce = hex_encode (ax_nonce ax), iq_TargetNodeID = trim_space (ac_TargetNodeID a),
      iq_CorrelationID = (if trim_space (ac_CorrelationID a) = [] then hex_encode (ax_corr ax) else trim_space (ac_CorrelationID a)),
      iq_DeadlineMs = (if ac_DeadlineMs a = 0 then unix_milli (ax_now ax + InviteTTL) else ac_DeadlineMs a)\<rparr>"

definition RunFullDirective ::
  "addr_env \<Rightarrow> assist_env \<Rightarrow> string \<Rightarrow> string \<Rightarrow> probe option \<Rightarrow> AssistConfig option \<Rightarrow> Stage \<times> Outcome \<times> string \<times> RouteDirective" where
  "RunFullDirective ae ax target entryHostPort probe assist =
     (let (st, out, detail) = orch_Run ae target entryHostPort probe in
      if out = OutcomeMigrated then (st, out, detail, rd_zero)
      else case (assist, probe) of
        (Some a, Some p) \<Rightarrow>
        if st \<noteq> StageSignal then (st, out, detail, rd_zero)
        else
          let ent = trim_space entryHostPort in
          if ent = [] then (StageFallback, OutcomeFallback, detail, rd_zero)
          else if trim_space (ac_TargetNodeID a) = [] then (StageSignal, OutcomeFallback, ''assist_missing_target_node_id'', rd_zero)
          else
            let req = invite_request ax a in
            (case PostClusterInvite ax ent (ac_ClusterKey a) (trim_space (ac_InvitePath a)) req of
               Inl e \<Rightarrow> (StageProbeAssist, OutcomeFallback, err_text e, rd_zero)
             | Inr resp \<Rightarrow>
               if declined resp then (StageProbeAssist, OutcomeFallback, ''invite_status:'' @ ir_Status resp, rd_zero)
               else
                 (case PostClusterPeerHandshake ax ent (ac_ClusterKey a) (trim_space (ac_HandshakePath a))
                         \<lparr>hq_InviteID = iq_CorrelationID req, hq_TargetNodeID = trim_space (ac_TargetNodeID a),
                          hq_CorrelationID = iq_CorrelationID req, hq_DeadlineMs = iq_DeadlineMs req\<rparr> of
                    Inl e \<Rightarrow> (StageProbeAssist, OutcomeFallback, err_text e, rd_zero)
                  | Inr hs \<Rightarrow>
                    let dir = routeDirectiveFromResponses (ax_then ax) (CanonicalHostPort ae target) (iq_CorrelationID req) (Some resp) (Some hs) in
                    if declined hs then (StageProbeAssist, OutcomeFallback, ''handshake_status:'' @ ir_Status hs, rd_zero)
                    else if ax_cancelled ax then (StageProbeAssist, OutcomeError, ''context canceled'', rd_zero)
                    else
                      let probeTarget = redirected ae hs (redirected ae resp (CanonicalHostPort ae target)) in
                      (case p 1 probeTarget of
                         Some e \<Rightarrow> (StageFallback, OutcomeFallback, err_text e, rd_zero)
                       | None \<Rightarrow>
                         (StageMigrate, OutcomeMigrated, probeTarget,
                          if rd_Endpoint dir = [] then
                            \<lparr>rd_Target = CanonicalHostPort ae target, rd_Mode = ''server_relay'', rd_PeerID = [], rd_Endpoint = probeTarget,
                             rd_RouteID = iq_CorrelationID req, rd_ExpiresAt = iq_DeadlineMs req * millisecond, rd_Reason = ''probe_assist''\<rparr>
                          else dir))))
      | _ \<Rightarrow> (st, out, detail, rd_zero))"

text \<open>\<^verbatim>\<open>RunClusterRouteOrchestrator\<close>: the result and the preference after it.\<close>

definition RunClusterRouteOrchestrator ::
  "addr_env \<Rightarrow> string \<Rightarrow> string \<Rightarrow> probe option \<Rightarrow> string \<Rightarrow> (Stage \<times> Outcome \<times> string) \<times> string" where
  "RunClusterRouteOrchestrator ae target entry probe pref =
     (let (st, out, detail) = orch_Run ae target entry probe in
      ((st, out, detail), if out = OutcomeMigrated \<and> detail \<noteq> [] then SetClusterDialPreference ae detail else pref))"

definition RunClusterRouteOrchestratorFullDirective ::
  "addr_env \<Rightarrow> assist_env \<Rightarrow> string \<Rightarrow> string \<Rightarrow> probe option \<Rightarrow> AssistConfig option \<Rightarrow> string \<Rightarrow>
   (Stage \<times> Outcome \<times> string \<times> RouteDirective) \<times> string" where
  "RunClusterRouteOrchestratorFullDirective ae ax target entry probe assist pref =
     (let (st, out, detail, rd) = RunFullDirective ae ax target entry probe assist;
          dir = (if rd_Endpoint rd \<noteq> [] then rd else rd_zero)
      in if out = OutcomeMigrated \<and> detail \<noteq> [] then
           ((st, out, detail,
             if rd_Endpoint dir = [] then
               rd_zero\<lparr>rd_Target := target, rd_Mode := ''server_relay'', rd_Endpoint := detail, rd_ExpiresAt := ax_then ax + InviteTTL,
                       rd_Reason := ''probe_migrated''\<rparr>
             else dir), SetClusterDialPreference ae detail)
         else ((st, out, detail, dir), pref))"

text \<open>
  A round of \<^verbatim>\<open>runClusterRouteAssist\<close> over the entries, with the environment and the probe of each: it stops at the first entry that migrates,
  and hands a directive to the route controller.
\<close>

fun assist_round ::
  "addr_env \<Rightarrow> string \<Rightarrow> AssistConfig option \<Rightarrow> (string \<times> assist_env \<times> probe) list \<Rightarrow> string \<times> RouteController option \<Rightarrow>
   string \<times> RouteController option" where
  "assist_round ae target assist [] s = s"
| "assist_round ae target assist ((entry, ax, probe) # es) (pref, rc) =
     (case assist of
        Some a \<Rightarrow>
          let ((st, out, detail, dir), pref) = RunClusterRouteOrchestratorFullDirective ae ax target entry (Some probe) (Some a) pref in
          if out = OutcomeMigrated then (pref, if rd_Endpoint dir \<noteq> [] then rc_Apply dir rc else rc)
          else assist_round ae target assist es (pref, rc)
      | None \<Rightarrow>
          let ((st, out, detail), pref) = RunClusterRouteOrchestrator ae target entry (Some probe) pref in
          if out = OutcomeMigrated then (pref, rc) else assist_round ae target assist es (pref, rc))"

text \<open>What a round is run with: the target and the configuration of the assistance, \<open>None\<close> when there is no round.\<close>

definition assist_config ::
  "addr_env \<Rightarrow> ProtectionOptions option \<Rightarrow> string \<Rightarrow> string list \<Rightarrow> (string \<times> AssistConfig option \<times> string list) option" where
  "assist_config ae prot token addrs =
     (case prot of
        None \<Rightarrow> None
      | Some p \<Rightarrow>
        let raw = trim_space (po_ClusterPreferredServer p); target = CanonicalHostPort ae raw; entries = dedupeEndpoints addrs;
            nodeID = trim_space (po_ClusterAssistTargetNodeID p)
        in if \<not> po_ClusterRouteAssist p \<or> raw = [] \<or> target = [] \<or> CHR '':'' \<notin> set target \<or> entries = [] then None
           else Some (target,
             if nodeID = [] then None
             else Some \<lparr>ac_ClusterKey = clusterPollHeaderKey prot token,
                        ac_InvitePath = blank_or (trim_space (po_ClusterInvitePath p)) ''/volter/cluster-invite'',
                        ac_HandshakePath = blank_or (trim_space (po_ClusterPeerHandshakePath p)) ''/volter/cluster-peer-handshake'',
                        ac_TargetNodeID = nodeID, ac_ClientID = [], ac_CorrelationID = [], ac_DeadlineMs = 0\<rparr>,
             entries))"


section \<open>What the controller promises\<close>

text \<open>What happens to a controller: directives arrive, and are asked for, by an address or by a flow, at a time.\<close>

datatype rc_event = Applied RouteDirective | Asked string instant | AskedFlow target instant

fun rc_step :: "RouteController option \<Rightarrow> rc_event \<Rightarrow> RouteController option" where
  "rc_step c (Applied d) = rc_Apply d c"
| "rc_step c (Asked t now) = snd (DirectiveForTarget t now c)"
| "rc_step c (AskedFlow f now) = snd (DirectiveFor f now c)"

text \<open>The contract: the newest directive of a key, until it expires.\<close>

definition newest :: "string \<Rightarrow> rc_event list \<Rightarrow> RouteDirective option" where
  "newest key es = fold (\<lambda>e b. case e of
     Applied d \<Rightarrow> if trim_space (rd_Target d) = key \<and> key \<noteq> [] \<and> rd_ExpiresAt d \<noteq> zero_time then Some d else b | _ \<Rightarrow> b) es None"

definition unexpired :: "instant \<Rightarrow> RouteDirective option \<Rightarrow> RouteDirective option" where
  "unexpired now d = (case d of None \<Rightarrow> None | Some d \<Rightarrow> if rd_ExpiresAt d > now then Some d else None)"

fun event_time :: "rc_event \<Rightarrow> instant option" where
  "event_time (Applied d) = None"
| "event_time (Asked t now) = Some now"
| "event_time (AskedFlow f now) = Some now"

lemma unexpired_simps [simp]:
  "unexpired now None = None"
  "rd_ExpiresAt d > now \<Longrightarrow> unexpired now (Some d) = Some d"
  "\<not> rd_ExpiresAt d > now \<Longrightarrow> unexpired now (Some d) = None"
  by (auto simp: unexpired_def)

lemma newest_snoc:
  "newest key (es @ [e]) =
     (case e of Applied d \<Rightarrow> if trim_space (rd_Target d) = key \<and> key \<noteq> [] \<and> rd_ExpiresAt d \<noteq> zero_time then Some d else newest key es
      | _ \<Rightarrow> newest key es)"
  by (cases e) (simp_all add: newest_def)

text \<open>A table that answers like the contract at every time from \<open>now\<close> on.\<close>

definition tracks :: "instant \<Rightarrow> rc_event list \<Rightarrow> RouteController option \<Rightarrow> bool" where
  "tracks now es c \<longleftrightarrow>
     (\<exists>items. c = Some items \<and> (\<forall>key. mget items key = newest key es \<or> mget items key = None \<and> unexpired now (newest key es) = None))"

lemma directive_at_fst: "fst (directive_at key now items) = unexpired now (mget items key)"
  by (simp add: directive_at_def unexpired_def split: option.splits)

lemma directive_at_snd:
  "mget (snd (directive_at key now items)) k = (if k = key then unexpired now (mget items key) else mget items k)"
  by (simp add: directive_at_def unexpired_def gomap split: option.splits)

lemma unexpired_later: "unexpired t d = None \<Longrightarrow> t \<le> now \<Longrightarrow> unexpired now d = None"
  by (auto simp: unexpired_def split: option.splits if_splits)

lemma tracks_later: "tracks t es c \<Longrightarrow> t \<le> now \<Longrightarrow> tracks now es c"
  unfolding tracks_def by (metis unexpired_later)

lemma tracks_ask:
  assumes "tracks now es (Some items)"
  shows "tracks now (es @ [Asked t u]) (Some (snd (directive_at key now items)))"
    "tracks now (es @ [AskedFlow f u]) (Some (snd (directive_at key now items)))"
    "fst (directive_at key now items) = unexpired now (newest key es)"
proof -
  have *: "mget items k = newest k es \<or> mget items k = None \<and> unexpired now (newest k es) = None" for k
    using assms by (simp add: tracks_def)
  have k: "mget (snd (directive_at key now items)) k = newest k es \<or>
      mget (snd (directive_at key now items)) k = None \<and> unexpired now (newest k es) = None" for k
    using * [of k] by (auto simp: directive_at_snd unexpired_def split: option.splits)
  then show "tracks now (es @ [Asked t u]) (Some (snd (directive_at key now items)))"
    "tracks now (es @ [AskedFlow f u]) (Some (snd (directive_at key now items)))"
    by (simp_all add: tracks_def newest_snoc)
  show "fst (directive_at key now items) = unexpired now (newest key es)"
    using * [of key] by (auto simp: directive_at_fst)
qed

lemma tracks_same: "tracks now es c \<Longrightarrow> tracks now (es @ [Asked t u]) c" "tracks now es c \<Longrightarrow> tracks now (es @ [AskedFlow f u]) c"
  by (simp_all add: tracks_def newest_snoc)

lemma tracks_step:
  assumes "tracks now es c" "event_time e = None \<or> event_time e = Some now"
  shows "tracks now (es @ [e]) (rc_step c e)"
proof -
  obtain items where c: "c = Some items" using assms(1) by (auto simp: tracks_def)
  show ?thesis
  proof (cases e)
    case (Applied d)
    show ?thesis using assms(1) unfolding Applied c
      by (fastforce simp: tracks_def newest_snoc rc_Apply_def Let_def gomap)
  next
    case (Asked t u)
    then show ?thesis using assms tracks_ask(1) [of now es items] tracks_same(1) [of now es c]
      by (simp add: c DirectiveForTarget_def Let_def case_prod_beta)
  next
    case (AskedFlow f u)
    then show ?thesis using assms tracks_ask(2) [of now es items] tracks_same(2) [of now es c]
      by (simp add: c DirectiveFor_def Let_def case_prod_beta)
  qed
qed

definition ends_before :: "instant \<Rightarrow> rc_event list \<Rightarrow> bool" where
  "ends_before now es = list_all (\<lambda>t. t \<le> now) (List.map_filter event_time es)"

definition in_order :: "rc_event list \<Rightarrow> bool" where
  "in_order es = sorted (List.map_filter event_time es)"

lemma map_filter_snoc: "List.map_filter f (xs @ [x]) = List.map_filter f xs @ (case f x of None \<Rightarrow> [] | Some y \<Rightarrow> [y])"
  by (simp add: List.map_filter_def split: option.splits)

lemma tracks_run: "in_order es \<Longrightarrow> ends_before now es \<Longrightarrow> tracks now es (foldl rc_step (Some NewRouteController) es)"
proof (induction es arbitrary: now rule: rev_induct)
  case Nil
  show ?case by (simp add: tracks_def NewRouteController_def newest_def gomap)
next
  case (snoc e es)
  show ?case
  proof (cases "event_time e")
    case None
    then have "tracks now es (foldl rc_step (Some NewRouteController) es)"
      using snoc.prems by (intro snoc.IH) (simp_all add: in_order_def ends_before_def map_filter_snoc)
    then show ?thesis using tracks_step None by simp
  next
    case (Some t)
    then have "tracks t es (foldl rc_step (Some NewRouteController) es)" and "t \<le> now"
      using snoc.prems
      by (auto intro!: snoc.IH simp: in_order_def ends_before_def map_filter_snoc sorted_append list_all_iff)
    then show ?thesis using tracks_step [of t es _ e] Some tracks_later by fastforce
  qed
qed

lemma controller_answers:
  assumes "in_order es" "ends_before now es"
  shows "fst (DirectiveForTarget t now (foldl rc_step (Some NewRouteController) es)) = unexpired now (newest (trim_space t) es)"
    "tg_ip f \<noteq> [] \<Longrightarrow> tg_port f \<noteq> 0 \<Longrightarrow>
     fst (DirectiveFor f now (foldl rc_step (Some NewRouteController) es)) =
       unexpired now (newest (join_host_port (tg_text f) (itoa (uint (tg_port f)))) es)"
proof -
  obtain items where items: "foldl rc_step (Some NewRouteController) es = Some items" "tracks now es (Some items)"
    using tracks_run [OF assms] by (auto simp: tracks_def)
  have empty: "newest [] es = None" by (induction es rule: rev_induct) (auto simp: newest_def split: rc_event.splits)
  show "fst (DirectiveForTarget t now (foldl rc_step (Some NewRouteController) es)) = unexpired now (newest (trim_space t) es)"
    using tracks_ask(3) [OF items(2), of "trim_space t"] empty
    by (cases "trim_space t = []") (simp_all add: items(1) DirectiveForTarget_def Let_def case_prod_beta)
  show "tg_ip f \<noteq> [] \<Longrightarrow> tg_port f \<noteq> 0 \<Longrightarrow>
     fst (DirectiveFor f now (foldl rc_step (Some NewRouteController) es)) =
       unexpired now (newest (join_host_port (tg_text f) (itoa (uint (tg_port f)))) es)"
    using tracks_ask(3) [OF items(2)] by (simp add: items(1) DirectiveFor_def Let_def case_prod_beta)
qed

text \<open>
  C39. The route controller refines its contract: after any history of directives and questions, with times that do not go back,
  the answer for an address, and for a flow, is the newest directive of that key when it has not expired yet and none otherwise.
\<close>

theorem controller_refines:
  assumes "in_order es" "ends_before now es"
  shows "fst (DirectiveForTarget t now (foldl rc_step (Some NewRouteController) es)) = unexpired now (newest (trim_space t) es) \<and>
    (tg_ip f \<noteq> [] \<and> tg_port f \<noteq> 0 \<longrightarrow>
     fst (DirectiveFor f now (foldl rc_step (Some NewRouteController) es)) =
       unexpired now (newest (join_host_port (tg_text f) (itoa (uint (tg_port f)))) es))"
  using controller_answers [OF assms] by blast

section \<open>What a migration means\<close>

lemma orch_Run_migrated:
  "orch_Run ae target entry probe = (st, OutcomeMigrated, detail) \<Longrightarrow>
   st = StageMigrate \<and> detail = CanonicalHostPort ae target \<and> (\<exists>p. probe = Some p \<and> p 0 detail = None)"
  by (auto simp: orch_Run_def Let_def split: if_splits option.splits)

lemma responses_reason:
  "d = routeDirectiveFromResponses now t r i h \<Longrightarrow> rd_Endpoint d \<noteq> [] \<Longrightarrow> rd_Reason d = ''assist_response''"
  by (auto simp: routeDirectiveFromResponses_def Let_def rd_zero_def split: if_splits)

text \<open>
  C40. The orchestrator migrates only to an address its probe has reached, directly or after the cluster's help, in stage
  \<open>StageMigrate\<close>, and a directive it returns then leads to that same address, save one taken from the answers of the cluster.
\<close>

theorem migration_probed:
  assumes "RunFullDirective ae ax target entry probe assist = (st, OutcomeMigrated, detail, dir)"
  shows "\<exists>p. probe = Some p \<and> st = StageMigrate \<and> (p 0 detail = None \<or> p 1 detail = None) \<and>
     (rd_Endpoint dir \<in> {[], detail} \<or> rd_Reason dir = ''assist_response'')"
proof -
  obtain st0 out0 detail0 where run: "orch_Run ae target entry probe = (st0, out0, detail0)" by (rule prod_cases3)
  show ?thesis
  proof (cases "out0 = OutcomeMigrated")
    case True
    then show ?thesis using assms run orch_Run_migrated [of ae target entry probe st0 detail0]
      by (auto simp: RunFullDirective_def Let_def rd_zero_def)
  next
    case False
    show ?thesis
    proof (cases probe)
      case None
      then show ?thesis using assms run False
        by (auto simp: RunFullDirective_def Let_def split: option.splits)
    next
      case p: (Some p)
      show ?thesis
      proof (cases assist)
        case None
        then show ?thesis using assms run False by (auto simp: RunFullDirective_def)
      next
        case a: (Some a)
        let ?req = "invite_request ax a" and ?ent = "trim_space entry"
        let ?inv = "PostClusterInvite ax ?ent (ac_ClusterKey a) (trim_space (ac_InvitePath a)) ?req"
        let ?hs = "PostClusterPeerHandshake ax ?ent (ac_ClusterKey a) (trim_space (ac_HandshakePath a))
            \<lparr>hq_InviteID = iq_CorrelationID ?req, hq_TargetNodeID = trim_space (ac_TargetNodeID a),
             hq_CorrelationID = iq_CorrelationID ?req, hq_DeadlineMs = iq_DeadlineMs ?req\<rparr>"
        note eq = assms [unfolded p a RunFullDirective_def run [unfolded p] Let_def prod.case option.case]
        have pre: "st0 = StageSignal" "?ent \<noteq> []" "trim_space (ac_TargetNodeID a) \<noteq> []"
          using eq False by (simp_all split: if_splits)
        obtain resp where resp: "?inv = Inr resp" using eq pre False by (cases ?inv) simp_all
        have ok: "\<not> declined resp" using eq pre resp False by (cases "declined resp") simp_all
        obtain hs where hs: "?hs = Inr hs" using eq pre resp ok False by (cases ?hs) simp_all
        have ok': "\<not> declined hs" using eq pre resp ok hs False by (cases "declined hs") simp_all
        have go: "\<not> ax_cancelled ax" using eq pre resp ok hs ok' False by (cases "ax_cancelled ax") simp_all
        define dir' where "dir' = routeDirectiveFromResponses (ax_then ax) (CanonicalHostPort ae target) (iq_CorrelationID ?req) (Some resp) (Some hs)"
        define pt where "pt = redirected ae hs (redirected ae resp (CanonicalHostPort ae target))"
        have pr: "p 1 pt = None"
          using eq pre resp ok hs ok' go False by (cases "p 1 pt") (simp_all add: pt_def)
        show ?thesis
          using eq pre resp ok hs ok' go pr False p responses_reason [OF dir'_def]
          by (cases "rd_Endpoint dir' = []") (auto simp: pt_def dir'_def)
      qed
    qed
  qed
qed

text \<open>
  The endpoint the cluster answers with is dialled without a probe: when the direct probe fails and the assisted one, of the target,
  succeeds, the directive leads to whatever endpoint the answers name, and the next connection to the target has it as its
  preferred server.
\<close>

theorem assisted_endpoint_unprobed:
  assumes "CanonicalHostPort ae target = t" "t \<noteq> []" "p 0 t = Some e" "p 1 t = None"
    "trim_space entry \<noteq> []" "CanonicalHostPort ae (trim_space entry) \<noteq> t" "trim_space (ac_TargetNodeID a) \<noteq> []"
    "\<And>url key body. ax_post ax url key body = Inr (200, b)" "ax_decode ax (take (64 * 1024) b) = Some r" "\<not> ax_cancelled ax"
    "\<not> declined r" "CanonicalHostPort ae (trim_space (ir_RedirectHostPort r)) = []"
    "trim_space (ir_Endpoint r) = endpoint" "endpoint \<noteq> []" "trim_space (ir_RouteMode r) = []"
    "trim_space t = t" "ax_then ax + wrap64 ((if ir_TTLSeconds r \<le> 0 then 5 else ir_TTLSeconds r) * second) > now"
    "ax_then ax + wrap64 ((if ir_TTLSeconds r \<le> 0 then 5 else ir_TTLSeconds r) * second) \<noteq> zero_time"
    "trim_space (po_ClusterPreferredServer b0) = t" "meshAllowsServerRelay mesh"
  shows "\<exists>dir. RunFullDirective ae ax target entry (Some p) (Some a) = (StageMigrate, OutcomeMigrated, t, dir) \<and>
     (\<exists>q. fst (directed_prot tg now
        \<lparr>hd_prot = Some b0, hd_rc = rc_Apply dir (Some NewRouteController), hd_mesh = mesh, hd_pref = pref, hd_emergency = em\<rparr>) = Some q \<and>
      po_ClusterPreferredServer q = endpoint)"
proof -
  have run: "orch_Run ae target entry (Some p) = (StageSignal, OutcomeFallback, ''direct_failed_signal_pending'')"
    using assms by (simp add: orch_Run_def Let_def)
  have base: "(if CHR '':'' \<in> set (trim_space entry) then trim_space entry else trim_space entry @ '':80'') \<noteq> []"
    using assms(5) by auto
  have inv: "PostClusterInvite ax (trim_space entry) k q rq = Inr r" for k q rq
    using assms(5,8,9) by (simp add: PostClusterInvite_def post_cluster_def Let_def)
  have hs: "PostClusterPeerHandshake ax (trim_space entry) k q rq = Inr r" for k q rq
    using assms(5,8,9) by (simp add: PostClusterPeerHandshake_def post_cluster_def Let_def)
  define dir where "dir = routeDirectiveFromResponses (ax_then ax) t (iq_CorrelationID (invite_request ax a)) (Some r) (Some r)"
  have dir: "rd_Target dir = t" "rd_Mode dir = ''server_relay''" "rd_Endpoint dir = endpoint"
     "rd_ExpiresAt dir = ax_then ax + wrap64 ((if ir_TTLSeconds r \<le> 0 then 5 else ir_TTLSeconds r) * second)"
    using assms(13-15) by (auto simp: dir_def routeDirectiveFromResponses_def apply_answer_def nonblank_or_def Let_def)
  have run': "RunFullDirective ae ax target entry (Some p) (Some a) = (StageMigrate, OutcomeMigrated, t, dir)"
    using assms(1-7,10-12,14) dir(3) unfolding RunFullDirective_def
    by (simp add: run inv hs Let_def dir_def redirected_def)
  have ep: "trim_space endpoint = endpoint" using assms(13) by auto
  have at: "directive_at t now (mput t dir []) = (Some dir, mput t dir [])"
    using assms(17) dir(4) by (simp add: directive_at_def gomap)
  have ap: "rc_Apply dir (Some NewRouteController) = Some (mput t dir [])"
    using assms(2,16,18) dir by (simp add: rc_Apply_def NewRouteController_def Let_def)
  have dft: "DirectiveForTarget (po_ClusterPreferredServer b0) now (Some (mput t dir [])) = (Some dir, Some (mput t dir []))"
    using at assms(2,19) by (simp add: DirectiveForTarget_def Let_def)
  have "directive_at k now (mput t dir []) \<in> {(None, mput t dir []), (Some dir, mput t dir [])}" for k
    using at by (cases "k = t") (simp_all add: directive_at_def gomap)
  from this [of "join_host_port (tg_text tg) (itoa (uint (tg_port tg)))"]
  have df: "DirectiveFor tg now (Some (mput t dir [])) \<in> {(None, Some (mput t dir [])), (Some dir, Some (mput t dir []))}"
    by (auto simp: DirectiveFor_def Let_def)
  have sr: "to_lower (trim_space ''server_relay'') = ''server_relay''" by code_simp
  have q: "routeDirectiveProtectionForMesh (Some b0) dir mesh =
      (Some (b0\<lparr>po_RouteMode := ''server_relay'', po_ClusterPreferredServer := endpoint, po_RouteID := []\<rparr>), True)"
    using sr ep assms(14,20) dir by (simp add: routeDirectiveProtectionForMesh_def or_zero_def)
  have "\<exists>q. fst (directed_prot tg now
        \<lparr>hd_prot = Some b0, hd_rc = Some (mput t dir []), hd_mesh = mesh, hd_pref = pref, hd_emergency = em\<rparr>) = Some q \<and>
      po_ClusterPreferredServer q = endpoint"
    using df by (elim insertE emptyE; simp add: directed_prot_def Let_def dft q)
  with run' ap show ?thesis by metis
qed

section \<open>What the handler makes of it\<close>

lemma colon_no_space: "\<not> sp1 (CHR '':'')" "\<not> sp2 (CHR '':'') b" "\<not> sp2 a (CHR '':'')"
    "\<not> sp3 (CHR '':'') b c" "\<not> sp3 a (CHR '':'') c" "\<not> sp3 a b (CHR '':'')"
  by (simp_all add: sp1_def sp2_def sp3_def)

lemma trim_left_colon: "CHR '':'' \<in> set s \<Longrightarrow> CHR '':'' \<in> set (trim_left s)"
  by (induction s rule: trim_left.induct) (auto simp: colon_no_space)

lemma trim_rev_colon: "CHR '':'' \<in> set s \<Longrightarrow> CHR '':'' \<in> set (trim_rev s)"
  by (induction s rule: trim_rev.induct) (auto simp: colon_no_space)

lemma trim_colon: "CHR '':'' \<in> set s \<Longrightarrow> trim_space s \<noteq> []"
  using trim_left_colon [of s] trim_rev_colon [of "rev (trim_left s)"] by (auto simp: trim_space_def)

lemma joinCanonical_nonblank: "joinCanonicalHostPort ae s \<noteq> [] \<Longrightarrow> trim_space (joinCanonicalHostPort ae s) \<noteq> []"
proof -
  assume "joinCanonicalHostPort ae s \<noteq> []"
  then have "CHR '':'' \<in> set (joinCanonicalHostPort ae s)"
    by (auto simp: joinCanonicalHostPort_def join_host_port_def Let_def split: option.splits prod.splits if_splits)
  then show ?thesis by (rule trim_colon)
qed

lemma canonical_plain_nonblank: "trim_space s \<noteq> [] \<Longrightarrow> canonical_plain ae s \<noteq> [] \<Longrightarrow> trim_space (canonical_plain ae s) \<noteq> []"
  using joinCanonical_nonblank by (auto simp: canonical_plain_def Let_def split: option.splits if_splits)

lemma CanonicalHostPort_nonblank: "CanonicalHostPort ae s \<noteq> [] \<Longrightarrow> trim_space (CanonicalHostPort ae s) \<noteq> []"
proof (induction ae s rule: CanonicalHostPort.induct)
  case (1 ae s0)
  show ?case
  proof (cases "trim_space s0 = []")
    case True
    then show ?thesis using 1(2) by (simp add: CanonicalHostPort.simps [of ae s0])
  next
    case False
    have plain: "canonical_plain ae (trim_space s0) \<noteq> [] \<Longrightarrow> trim_space (canonical_plain ae (trim_space s0)) \<noteq> []"
      using canonical_plain_nonblank [of "trim_space s0" ae] False by simp
    show ?thesis
    proof (cases "inner_text (trim_space s0)")
      case None
      then show ?thesis using 1(2) False plain by (simp add: CanonicalHostPort.simps [of ae s0])
    next
      case (Some t)
      then show ?thesis using 1 False plain
        by (cases "CanonicalHostPort ae t = []") (simp_all add: CanonicalHostPort.simps [of ae s0] Let_def)
    qed
  qed
qed

lemma preferred_dropped:
  assumes "mode \<noteq> ''server_relay''" "preferred_of prot \<noteq> []"
  shows "live_prot mode (canonical_prot ae addrs prot) = set_preferred [] prot"
proof -
  obtain p where p: "prot = Some p" using assms(2) by (cases prot) (simp_all add: preferred_of_def)
  let ?c = "CanonicalHostPort ae (preferred_of prot)"
  show ?thesis
  proof (cases "?c = []")
    case True
    then show ?thesis using assms p by (simp add: canonical_prot_def live_prot_def preferred_of_def set_preferred_def Let_def)
  next
    case False
    then have "trim_space ?c \<noteq> []" by (rule CanonicalHostPort_nonblank)
    then show ?thesis using assms p False
      by (simp add: canonical_prot_def live_prot_def preferred_of_def set_preferred_def Let_def)
  qed
qed

text \<open>
  A preferred server, such as that of a directive, has no effect on a connection while the live route mode, which is set from the
  options at the start, is \<open>direct\<close>, \<open>peer_relay\<close> or \<open>auto\<close>: the mode of the directive is not looked at and its server is dropped.
\<close>

theorem live_mode_beats_directive:
  assumes "routeDirectiveProtectionForMesh base d mesh = (Some q, True)" "preferred_of (Some q) \<noteq> []"
    "liveRouteModeValue (wd_live (fl_world fl)) \<in> {''direct'', ''peer_relay'', ''auto''}"
  shows "DialTunFlow fe fa (Some q) allow fl =
    DialTunFlow fe fa (Some (q\<lparr>po_ClusterPreferredServer := []\<rparr>)) allow fl"
proof -
  let ?q = "Some (q\<lparr>po_ClusterPreferredServer := []\<rparr>)"
  let ?m = "liveRouteModeValue (wd_live (fl_world fl))"
  have mode: "routeModeOf (wd_live (fl_world fl)) p = ?m" for p
    using assms(3) by (auto simp: routeModeOf_def Let_def)
  have "?m \<noteq> ''server_relay''" using assms(3) by auto
  then have l: "live_prot ?m (canonical_prot (fe_addr fe) (da_addrs (fa_dial fa)) (Some q)) = ?q"
    using preferred_dropped [OF _ assms(2)] by (simp add: set_preferred_def)
  have l': "live_prot ?m (canonical_prot (fe_addr fe) (da_addrs (fa_dial fa)) ?q) = ?q"
    by (simp add: canonical_prot_def live_prot_def preferred_of_def trim_space_def)
  show ?thesis unfolding DialTunFlow_def Let_def mode l l' ..
qed

text \<open>
  A handler without protection options panics on the first connection that no directive and no live preference covers: the
  handler reads the route mode through the pointer to the options.
\<close>

theorem handler_without_options_panics:
  assumes "hd_prot h = None" "fst (DirectiveFor (fa_target fa) now (hd_rc h)) = None"
    "LiveClusterPreferredServerValue (wd_live (fl_world fl)) = []"
    "\<not> isServerAddr parse (fe_addr fe) (da_addrs (fa_dial fa)) h (fa_target fa)"
  shows "fst (handleTCP parse fe fa now h fl) = Some (Inl nil_pointer, False, False)"
  using assms by (cases "DirectiveFor (fa_target fa) now (hd_rc h)")
    (simp add: handleTCP_def directed_prot_def live_preferred_def Let_def)

lemma index_of_Some: "index_of p xs = Some i \<Longrightarrow> i < length xs \<and> p (xs ! i) \<and> (\<forall>j < i. \<not> p (xs ! j))"
  by (induction xs arbitrary: i) (auto simp: nth_Cons split: if_splits nat.splits)

lemma index_of_None: "index_of p xs = None \<longleftrightarrow> (\<forall>x \<in> set xs. \<not> p x)"
  by (induction xs) auto

lemma mset_front: "i < length xs \<Longrightarrow> mset (xs ! i # take i xs @ drop (i + 1) xs) = mset xs"
  using id_take_nth_drop [of i xs] by (metis Suc_eq_plus1 mset.simps(2) mset_append union_mset_add_mset_right)

lemma reorderPrimaryFirst_mset [simp]: "mset (reorderPrimaryFirst ae addrs primary) = mset addrs"
proof (cases "index_of (\<lambda>a. CanonicalHostPort ae a = primary) addrs")
  case (Some i)
  then show ?thesis using mset_front [of i addrs] index_of_Some [OF Some] by (simp add: reorderPrimaryFirst_def)
qed (simp add: reorderPrimaryFirst_def)

lemma reorderPrimaryFirst_hd:
  assumes "primary \<noteq> []" "a \<in> set addrs" "CanonicalHostPort ae a = primary"
  shows "CanonicalHostPort ae (hd (reorderPrimaryFirst ae addrs primary)) = primary"
proof -
  obtain i where i: "index_of (\<lambda>a. CanonicalHostPort ae a = primary) addrs = Some i"
    using assms index_of_None [of _ addrs] by (metis (mono_tags, lifting) option.exhaust)
  show ?thesis
  proof (cases "length addrs \<le> 1")
    case True
    then show ?thesis using assms by (cases addrs) (auto simp: reorderPrimaryFirst_def)
  next
    case False
    then show ?thesis using assms(1) i index_of_Some [OF i] by (cases addrs) (auto simp: reorderPrimaryFirst_def)
  qed
qed

text \<open>
  The servers a connection is dialled at are those configured, none lost and none added, with one that is the process-wide
  preference in front, if there is one and the options name no server of their own.
\<close>

theorem dial_servers_rearranged:
  "mset (dialServerAddrs ae pref base prot) = mset base \<and>
   (preferred_of prot = [] \<and> pref \<noteq> [] \<and> (\<exists>a \<in> set base. CanonicalHostPort ae a = pref) \<longrightarrow>
      CanonicalHostPort ae (hd (dialServerAddrs ae pref base prot)) = pref) \<and>
   (preferred_of prot \<noteq> [] \<longrightarrow> dialServerAddrs ae pref base prot = base)"
  using reorderPrimaryFirst_hd [of pref _ base ae] by (auto simp: dialServerAddrs_def)

section \<open>Instances\<close>

definition demo_dir :: RouteDirective where
  "demo_dir = rd_zero\<lparr>rd_Target := ''x:1'', rd_Mode := ''direct'', rd_Endpoint := ''y:2'', rd_ExpiresAt := 100\<rparr>"

lemma controller_refines_witness:
  "fst (DirectiveForTarget ''x:1'' 60 (foldl rc_step (Some NewRouteController) [Applied demo_dir, Asked ''x:1'' 50])) = Some demo_dir \<and>
   fst (DirectiveFor demo_target 60 (foldl rc_step (Some NewRouteController) [Applied demo_dir])) = None"
proof
  have "in_order [Applied demo_dir, Asked ''x:1'' 50]" "ends_before 60 [Applied demo_dir, Asked ''x:1'' 50]"
    "in_order [Applied demo_dir]" "ends_before 60 [Applied demo_dir]" by (simp_all add: in_order_def ends_before_def List.map_filter_simps)
  note r = controller_refines [OF this(1,2), of "''x:1''" demo_target] controller_refines [OF this(3,4), of "''x:1''" demo_target]
  have "unexpired 60 (newest (trim_space ''x:1'') [Applied demo_dir, Asked ''x:1'' 50]) = Some demo_dir" by code_simp
  then show "fst (DirectiveForTarget ''x:1'' 60 (foldl rc_step (Some NewRouteController) [Applied demo_dir, Asked ''x:1'' 50])) = Some demo_dir"
    using r(1) by simp
  have t: "tg_ip demo_target \<noteq> []" "tg_port demo_target \<noteq> 0" by code_simp+
  have "unexpired 60 (newest (join_host_port (tg_text demo_target) (itoa (uint (tg_port demo_target)))) [Applied demo_dir]) = None"
    by code_simp
  then show "fst (DirectiveFor demo_target 60 (foldl rc_step (Some NewRouteController) [Applied demo_dir])) = None"
    using r(2) t by simp
qed

definition demo_ae :: addr_env where
  "demo_ae = \<lparr>ae_ip = (\<lambda>_. None), ae_url = (\<lambda>_. None)\<rparr>"

definition demo_answer :: InviteResponse where
  "demo_answer = \<lparr>ir_Status = ''accepted'', ir_RedirectHostPort = [], ir_Reason = [], ir_RouteMode = [], ir_PeerID = [],
     ir_Endpoint = ''e:9'', ir_RouteID = [], ir_TTLSeconds = 30\<rparr>"

definition demo_ax :: assist_env where
  "demo_ax = \<lparr>ax_post = (\<lambda>_ _ _. Inr (200, [])), ax_invite = (\<lambda>_. []), ax_handshake = (\<lambda>_. []), ax_decode = (\<lambda>_. Some demo_answer),
     ax_nonce = [], ax_corr = [], ax_now = 0, ax_then = 0, ax_cancelled = False\<rparr>"

definition demo_assist :: AssistConfig where
  "demo_assist = \<lparr>ac_ClusterKey = ''k'', ac_InvitePath = [], ac_HandshakePath = [], ac_TargetNodeID = ''n'', ac_ClientID = [],
     ac_CorrelationID = ''c'', ac_DeadlineMs = 1\<rparr>"

text \<open>The first probe fails, and any probe of the endpoint.\<close>

definition demo_probe :: probe where
  "demo_probe i a = (if i = 0 \<or> a = ''e:9'' then Some EOF else None)"

lemma migration_probed_witness:
  "\<exists>p. Some demo_probe = Some p \<and> StageMigrate = StageMigrate \<and> (p 0 ''x:1'' = None \<or> p 1 ''x:1'' = None) \<and>
     (rd_Endpoint (snd (snd (snd (RunFullDirective demo_ae demo_ax ''x:1'' ''s:1'' (Some demo_probe) (Some demo_assist))))) \<in> {[], ''x:1''} \<or>
      rd_Reason (snd (snd (snd (RunFullDirective demo_ae demo_ax ''x:1'' ''s:1'' (Some demo_probe) (Some demo_assist))))) = ''assist_response'')"
proof (rule migration_probed)
  have c: "CanonicalHostPort demo_ae ''x:1'' = ''x:1''" "CanonicalHostPort demo_ae ''s:1'' = ''s:1''" "CanonicalHostPort demo_ae [] = []"
    "trim_space ''s:1'' = ''s:1''" "trim_space ''n'' = ''n''" "declined demo_answer = False" by code_simp+
  have "orch_Run demo_ae ''x:1'' ''s:1'' (Some demo_probe) = (StageSignal, OutcomeFallback, ''direct_failed_signal_pending'')"
    by (simp add: orch_Run_def Let_def c demo_probe_def)
  then show "RunFullDirective demo_ae demo_ax ''x:1'' ''s:1'' (Some demo_probe) (Some demo_assist) =
      (StageMigrate, OutcomeMigrated, ''x:1'', snd (snd (snd (RunFullDirective demo_ae demo_ax ''x:1'' ''s:1'' (Some demo_probe) (Some demo_assist)))))"
    using c by (simp add: RunFullDirective_def Let_def PostClusterInvite_def PostClusterPeerHandshake_def post_cluster_def demo_ax_def
        redirected_def demo_probe_def demo_assist_def) (simp add: demo_answer_def)
qed

lemma assisted_endpoint_unprobed_witness:
  "\<exists>dir. RunFullDirective demo_ae demo_ax ''x:1'' ''s:1'' (Some demo_probe) (Some demo_assist) =
       (StageMigrate, OutcomeMigrated, ''x:1'', dir) \<and>
     (\<exists>q. fst (directed_prot demo_target 1
        \<lparr>hd_prot = Some (po_zero\<lparr>po_ClusterPreferredServer := ''x:1''\<rparr>), hd_rc = rc_Apply dir (Some NewRouteController), hd_mesh = None,
         hd_pref = [], hd_emergency = False\<rparr>) = Some q \<and> po_ClusterPreferredServer q = ''e:9'')"
proof (rule assisted_endpoint_unprobed)
  show "CanonicalHostPort demo_ae ''x:1'' = ''x:1''" by code_simp
  show "CanonicalHostPort demo_ae (trim_space ''s:1'') \<noteq> ''x:1''" by code_simp
  show "ax_post demo_ax url key body = Inr (200, [])" for url key body by (simp add: demo_ax_def)
  show "demo_probe 0 ''x:1'' = Some EOF" "demo_probe 1 ''x:1'' = None" by (simp_all add: demo_probe_def)
  show "trim_space ''s:1'' \<noteq> []" "trim_space (ac_TargetNodeID demo_assist) \<noteq> []" by code_simp+
  show "ax_decode demo_ax (take (64 * 1024) []) = Some demo_answer" by (simp add: demo_ax_def)
  show "\<not> ax_cancelled demo_ax" by (simp add: demo_ax_def)
  show "\<not> declined demo_answer" by code_simp
  show "CanonicalHostPort demo_ae (trim_space (ir_RedirectHostPort demo_answer)) = []" by code_simp
  show "trim_space (ir_Endpoint demo_answer) = ''e:9''" "trim_space (ir_RouteMode demo_answer) = []" "trim_space ''x:1'' = ''x:1''" by code_simp+
  show "1 < ax_then demo_ax + wrap64 ((if ir_TTLSeconds demo_answer \<le> 0 then 5 else ir_TTLSeconds demo_answer) * second)" by code_simp
  show "ax_then demo_ax + wrap64 ((if ir_TTLSeconds demo_answer \<le> 0 then 5 else ir_TTLSeconds demo_answer) * second) \<noteq> zero_time" by code_simp
  show "trim_space (po_ClusterPreferredServer (po_zero\<lparr>po_ClusterPreferredServer := ''x:1''\<rparr>)) = ''x:1''" by code_simp
  show "meshAllowsServerRelay None" by code_simp
qed simp_all

definition demo_preferring :: ProtectionOptions where
  "demo_preferring = po_zero\<lparr>po_RouteMode := ''server_relay'', po_ClusterPreferredServer := ''y:2'', po_RouteID := []\<rparr>"

definition demo_live_flow :: flow where
  "demo_live_flow = (demo_flow None)\<lparr>fl_world := demo_world\<lparr>wd_live := SetLiveRouteMode ''auto'' (wd_live demo_world)\<rparr>\<rparr>"

lemma live_mode_beats_directive_witness:
  "DialTunFlow (demo_fe up 0) demo_fa (Some demo_preferring) True demo_live_flow =
   DialTunFlow (demo_fe up 0) demo_fa (Some (demo_preferring\<lparr>po_ClusterPreferredServer := []\<rparr>)) True demo_live_flow"
proof (rule live_mode_beats_directive)
  show "routeDirectiveProtectionForMesh (Some po_zero) (demo_dir\<lparr>rd_Mode := ''server_relay''\<rparr>) None = (Some demo_preferring, True)"
    by code_simp
  show "preferred_of (Some demo_preferring) \<noteq> []" by code_simp
  show "liveRouteModeValue (wd_live (fl_world demo_live_flow)) \<in> {''direct'', ''peer_relay'', ''auto''}" by code_simp
qed

definition demo_handler :: handler where
  "demo_handler = \<lparr>hd_prot = None, hd_rc = Some NewRouteController, hd_mesh = None, hd_pref = [], hd_emergency = False\<rparr>"

lemma handler_without_options_panics_witness:
  "fst (handleTCP (\<lambda>_. None) (demo_fe up 0) demo_fa 0 demo_handler (demo_flow None)) = Some (Inl nil_pointer, False, False)"
proof (rule handler_without_options_panics)
  show "fst (DirectiveFor (fa_target demo_fa) 0 (hd_rc demo_handler)) = None" by code_simp
  show "LiveClusterPreferredServerValue (wd_live (fl_world (demo_flow None))) = []" by code_simp
  show "\<not> isServerAddr (\<lambda>_. None) (fe_addr (demo_fe up 0)) (da_addrs (fa_dial demo_fa)) demo_handler (fa_target demo_fa)" by code_simp
qed (simp add: demo_handler_def)

lemma dial_servers_rearranged_witness:
  "CanonicalHostPort demo_ae (hd (dialServerAddrs demo_ae ''b:2'' [''a:1'', ''b:2''] None)) = ''b:2''"
proof -
  have "CanonicalHostPort demo_ae ''b:2'' = ''b:2''" "preferred_of None = []" by code_simp+
  then show ?thesis using dial_servers_rearranged [of demo_ae "''b:2''" "[''a:1'', ''b:2'']" None] by auto
qed
end
