(* ===== verification/Cluster.thy ===== *)
theory Cluster
  imports Control
begin

text \<open>
  What a session learns from its cluster and how it watches its servers: the documents polled over HTTP and kept with their age
  (\<^verbatim>\<open>internal/vpn/cluster_snap.go\<close>, \<^verbatim>\<open>cluster_map.go\<close>, \<^verbatim>\<open>cluster_sessions.go\<close>, \<^verbatim>\<open>cluster_clients.go\<close>,
  \<^verbatim>\<open>cluster_refresh.go\<close>), the addresses found in them (\<^verbatim>\<open>cluster_hints.go\<close>), and the watchdog (\<^verbatim>\<open>watchdog.go\<close>). HTTP is an argument;
  tickers become lists of rounds.
\<close>

section \<open>Addresses in a text\<close>

definition is_digit_char :: "char \<Rightarrow> bool" where
  "is_digit_char c = (let n = of_char c :: nat in 48 \<le> n \<and> n \<le> 57)"

definition is_word_char :: "char \<Rightarrow> bool" where
  "is_word_char c = (let n = of_char c :: nat in is_digit_char c \<or> (65 \<le> n \<and> n \<le> 90) \<or> (97 \<le> n \<and> n \<le> 122) \<or> n = 95)"

text \<open>
  A run of one to \<open>hi\<close> digits: what follows in the pattern is no digit, or a word boundary, so that only the whole run can match.
\<close>

definition digit_run :: "nat \<Rightarrow> string \<Rightarrow> (string \<times> string) option" where
  "digit_run hi s =
     (let d = takeWhile is_digit_char s in if d \<noteq> [] \<and> length d \<le> hi then Some (d, drop (length d) s) else None)"

definition octet_then :: "char \<Rightarrow> string \<Rightarrow> (string \<times> string) option" where
  "octet_then c s =
     (case digit_run 3 s of
        Some (d, x # r) \<Rightarrow> if x = c then Some (d @ [c], r) else None
      | _ \<Rightarrow> None)"

text \<open>The expression \<open>reHostPort\<close> at a place a word begins: the text matched and the rest.\<close>

definition reHostPort_at :: "string \<Rightarrow> (string \<times> string) option" where
  "reHostPort_at s =
     Option.bind (octet_then (CHR ''.'') s) (\<lambda>(a, s).
     Option.bind (octet_then (CHR ''.'') s) (\<lambda>(b, s).
     Option.bind (octet_then (CHR ''.'') s) (\<lambda>(c, s).
     Option.bind (octet_then (CHR '':'') s) (\<lambda>(d, s).
     Option.bind (digit_run 5 s) (\<lambda>(p, s).
     if s \<noteq> [] \<and> is_word_char (hd s) then None else Some (a @ b @ c @ d @ p, s))))))"

lemma digit_run_shorter: "digit_run hi s = Some (d, r) \<Longrightarrow> length r < length s \<and> s = d @ r"
proof -
  assume a: "digit_run hi s = Some (d, r)"
  then have d: "d = takeWhile is_digit_char s" "d \<noteq> []" "r = drop (length d) s"
    by (auto simp: digit_run_def Let_def split: if_splits)
  then have "s = d @ r" using takeWhile_eq_take [of is_digit_char s] by (metis append_take_drop_id)
  then show ?thesis using d(2) by auto
qed

lemma octet_then_shorter: "octet_then c s = Some (d, r) \<Longrightarrow> length r < length s \<and> s = d @ r"
proof -
  assume "octet_then c s = Some (d, r)"
  then obtain d' where "digit_run 3 s = Some (d', c # r)" "d = d' @ [c]"
    by (auto simp: octet_then_def split: option.splits list.splits if_splits)
  then show ?thesis using digit_run_shorter [of 3 s d' "c # r"] by simp
qed

lemma reHostPort_at_splits: "reHostPort_at s = Some (m, r) \<Longrightarrow> length r < length s \<and> s = m @ r"
proof -
  assume "reHostPort_at s = Some (m, r)"
  then obtain a s1 b s2 c s3 d s4 p where
    "octet_then (CHR ''.'') s = Some (a, s1)" "octet_then (CHR ''.'') s1 = Some (b, s2)" "octet_then (CHR ''.'') s2 = Some (c, s3)"
    "octet_then (CHR '':'') s3 = Some (d, s4)" "digit_run 5 s4 = Some (p, r)" "m = a @ b @ c @ d @ p"
    by (auto simp: reHostPort_at_def bind_eq_Some_conv split: if_splits)
  then show ?thesis
    using octet_then_shorter [of _ s a s1] octet_then_shorter [of _ s1 b s2] octet_then_shorter [of _ s2 c s3]
      octet_then_shorter [of _ s3 d s4] digit_run_shorter [of 5 s4 p r] by fastforce
qed

text \<open>All matches from left to right; \<open>w\<close> says that the character before is one of a word.\<close>

function find_all :: "bool \<Rightarrow> string \<Rightarrow> string list" where
  "find_all w [] = []"
| "find_all w (c # s) =
     (case (if w then None else reHostPort_at (c # s)) of
        Some (m, r) \<Rightarrow> m # find_all True r
      | None \<Rightarrow> find_all (is_word_char c) s)"
  by pat_completeness auto

termination
proof (relation "measure (length \<circ> snd)")
  fix w c s m r and mr :: "string \<times> string"
  assume "(if w then None else reHostPort_at (c # s)) = Some mr" "(m, r) = mr"
  then have "reHostPort_at (c # s) = Some (m, r)" by (auto split: if_splits)
  then have "length r < length (c # s)" using reHostPort_at_splits by blast
  then show "((True, r), w, c # s) \<in> measure (length \<circ> snd)" by (simp only: in_measure comp_apply snd_conv)
qed auto

fun first_distinct :: "nat \<Rightarrow> 'a list \<Rightarrow> 'a list \<Rightarrow> 'a list" where
  "first_distinct k seen [] = []"
| "first_distinct 0 seen xs = []"
| "first_distinct (Suc k) seen (x # xs) =
     (if x \<in> set seen then first_distinct (Suc k) seen xs else x # first_distinct k (x # seen) xs)"

definition peerHintsFromClusterRaw :: "string \<Rightarrow> string list" where
  "peerHintsFromClusterRaw raw =
     (let raw = trim_space raw in if raw = [] then [] else first_distinct 32 [] (find_all False raw))"

section \<open>Documents\<close>

type_synonym cached = "(string \<times> instant) option"

definition clusterStore :: "string \<Rightarrow> instant \<Rightarrow> cached" where
  "clusterStore body now = Some (body, now)"

definition clusterLoad :: "duration \<Rightarrow> instant \<Rightarrow> cached \<Rightarrow> string \<times> bool" where
  "clusterLoad maxStale now v =
     (case v of
        None \<Rightarrow> ([], False)
      | Some (body, t) \<Rightarrow> if maxStale > 0 \<and> time_sub now t > maxStale then ([], True) else (body, False))"

record cluster_docs =
  lastClusterMap :: cached
  lastClusterSessions :: cached
  lastClusterClients :: cached

definition LastClusterMap :: "instant \<Rightarrow> cluster_docs \<Rightarrow> string" where
  "LastClusterMap now d = fst (clusterLoad (30 * second) now (lastClusterMap d))"

definition LastClusterSessions :: "instant \<Rightarrow> cluster_docs \<Rightarrow> string" where
  "LastClusterSessions now d = fst (clusterLoad (45 * second) now (lastClusterSessions d))"

text \<open>A stale list of clients takes the hints drawn from it along.\<close>

definition LastClusterClients :: "instant \<Rightarrow> cluster_docs \<Rightarrow> live \<Rightarrow> string \<times> live" where
  "LastClusterClients now d l =
     (let (s, stale) = clusterLoad (45 * second) now (lastClusterClients d)
      in (s, if stale then SetGlobalClusterPeerTCPHints [] l else l))"

text \<open>\<open>get url key\<close> is the outcome of a request: an error, or the status and the body.\<close>

type_synonym cluster_http = "string \<Rightarrow> string \<Rightarrow> go_error + int \<times> bytes"

definition accepted_body :: "cluster_http \<Rightarrow> addr_env \<Rightarrow> live \<Rightarrow> string \<Rightarrow> string \<Rightarrow> string \<Rightarrow> nat \<Rightarrow> string option" where
  "accepted_body get ae l serverAddr url key limit =
     (case get url (trim_space key) of
        Inl _ \<Rightarrow> None
      | Inr (status, body) \<Rightarrow>
        if status < 200 \<or> status \<ge> 300 then None
        else let b = take limit body in
          if b = [] then None
          else if \<not> clusterPollAcceptSource ae l serverAddr then None
          else Some (bytes_str b))"

text \<open>One round of a poll: the body it keeps.\<close>

definition poll_fetch :: "cluster_http \<Rightarrow> addr_env \<Rightarrow> live \<Rightarrow> string \<Rightarrow> string \<Rightarrow> string \<Rightarrow> string \<Rightarrow> string \<Rightarrow> nat \<Rightarrow> string option" where
  "poll_fetch get ae l pref entryAddr key httpPath dflt limit =
     (let entryAddr = trim_space entryAddr;
          path = (if trim_space httpPath = [] then dflt else trim_space httpPath);
          serverAddr = clusterHTTPPollTarget ae l pref [entryAddr] None
      in if serverAddr = [] then None
         else accepted_body get ae l serverAddr (''http://'' @ serverAddr @ path) key limit)"

definition map_poll :: "cluster_http \<Rightarrow> addr_env \<Rightarrow> live \<Rightarrow> string \<Rightarrow> string \<Rightarrow> string \<Rightarrow> string \<Rightarrow> instant \<Rightarrow> cluster_docs \<Rightarrow> cluster_docs" where
  "map_poll get ae l pref entryAddr key httpPath now d =
     (case poll_fetch get ae l pref entryAddr key httpPath ''/volter/cluster-map.json'' (256 * 1024) of
        None \<Rightarrow> d | Some s \<Rightarrow> d\<lparr>lastClusterMap := clusterStore s now\<rparr>)"

definition sessions_poll ::
  "cluster_http \<Rightarrow> addr_env \<Rightarrow> live \<Rightarrow> string \<Rightarrow> string \<Rightarrow> string \<Rightarrow> string \<Rightarrow> instant \<Rightarrow> cluster_docs \<Rightarrow> cluster_docs" where
  "sessions_poll get ae l pref entryAddr key httpPath now d =
     (case poll_fetch get ae l pref entryAddr key httpPath ''/volter/cluster-sessions.json'' (512 * 1024) of
        None \<Rightarrow> d | Some s \<Rightarrow> d\<lparr>lastClusterSessions := clusterStore s now\<rparr>)"

definition clients_poll ::
  "cluster_http \<Rightarrow> addr_env \<Rightarrow> string \<Rightarrow> string \<Rightarrow> string \<Rightarrow> string \<Rightarrow> instant \<Rightarrow> cluster_docs \<times> live \<Rightarrow> cluster_docs \<times> live" where
  "clients_poll get ae pref entryAddr key httpPath now dl =
     (let (d, l) = dl in
      case poll_fetch get ae l pref entryAddr key httpPath ''/volter/cluster-clients.json'' (512 * 1024) of
        None \<Rightarrow> (d, l)
      | Some s \<Rightarrow> (d\<lparr>lastClusterClients := clusterStore s now\<rparr>, SetGlobalClusterPeerTCPHints (peerHintsFromClusterRaw s) l))"

record ClusterRefreshResult =
  cr_OK :: bool
  cr_MapOK :: bool
  cr_SessionsOK :: bool
  cr_ClientsOK :: bool
  cr_Error :: string
  cr_ServerUsed :: string

definition refreshClusterHTTP :: "cluster_http \<Rightarrow> addr_env \<Rightarrow> live \<Rightarrow> string \<Rightarrow> string \<Rightarrow> string \<Rightarrow> nat \<Rightarrow> string option" where
  "refreshClusterHTTP get ae l serverAddr key path limit =
     (let path = trim_space path in
      if path = [] then None
      else accepted_body get ae l serverAddr (''http://'' @ trim_space serverAddr @ path) key limit)"

text \<open>\<^verbatim>\<open>RefreshClusterEndpointsJSON\<close>, before its result is put into JSON.\<close>

definition RefreshClusterEndpoints ::
  "cluster_http \<Rightarrow> addr_env \<Rightarrow> string \<Rightarrow> string list \<Rightarrow> ProtectionOptions option \<Rightarrow> string \<Rightarrow> instant \<Rightarrow> cluster_docs \<times> live \<Rightarrow>
   ClusterRefreshResult \<times> cluster_docs \<times> live" where
  "RefreshClusterEndpoints get ae pref addrs prot token now dl =
     (let (d, l) = dl;
          r = \<lparr>cr_OK = False, cr_MapOK = False, cr_SessionsOK = False, cr_ClientsOK = False, cr_Error = [], cr_ServerUsed = []\<rparr>;
          addr = clusterHTTPPollTarget ae l pref addrs prot
      in if addrs = [] \<or> addr = [] then (r\<lparr>cr_Error := ''server addrs empty''\<rparr>, d, l)
         else
           let ck = clusterPollHeaderKey prot token;
               (mapPath, sessPath, clientsPath) = clusterPollPaths prot;
               m = refreshClusterHTTP get ae l addr ck mapPath (256 * 1024);
               s = refreshClusterHTTP get ae l addr ck sessPath (512 * 1024);
               c = refreshClusterHTTP get ae l addr ck clientsPath (512 * 1024);
               d = (case m of None \<Rightarrow> d | Some b \<Rightarrow> d\<lparr>lastClusterMap := clusterStore b now\<rparr>);
               d = (case s of None \<Rightarrow> d | Some b \<Rightarrow> d\<lparr>lastClusterSessions := clusterStore b now\<rparr>);
               d = (case c of None \<Rightarrow> d | Some b \<Rightarrow> d\<lparr>lastClusterClients := clusterStore b now\<rparr>);
               l = (case c of None \<Rightarrow> l | Some b \<Rightarrow> SetGlobalClusterPeerTCPHints (peerHintsFromClusterRaw b) l);
               any = (m \<noteq> None \<or> s \<noteq> None \<or> c \<noteq> None)
           in (r\<lparr>cr_OK := any, cr_MapOK := m \<noteq> None, cr_SessionsOK := s \<noteq> None, cr_ClientsOK := c \<noteq> None,
                 cr_Error := (if any then [] else ''cluster HTTP unreachable''), cr_ServerUsed := addr\<rparr>, d, l))"

section \<open>The watchdog\<close>

definition watchdogMaxMisses :: nat where "watchdogMaxMisses = 3"

definition watchdogPingOrder :: "addr_env \<Rightarrow> live \<Rightarrow> string list \<Rightarrow> string list" where
  "watchdogPingOrder ae l addrs =
     (if length addrs \<le> 1 then addrs
      else let active = trim_space (ActiveVolterServer l) in
        if active = [] then addrs
        else case index_of (\<lambda>a. CanonicalHostPort ae a = CanonicalHostPort ae active) addrs of
          None \<Rightarrow> addrs
        | Some i \<Rightarrow> if i = 0 then addrs else drop i addrs @ take i addrs)"

text \<open>
  A round: \<open>quicAlive\<close> is the state of the QUIC connection, \<open>answers\<close> says which servers accept a connection. The counter \<open>rr\<close> is shared by
  all rounds.
\<close>

fun any_up :: "(string \<Rightarrow> bool) \<Rightarrow> string list \<Rightarrow> bool" where
  "any_up answers [] = False"
| "any_up answers (a # as) = (if answers a then True else any_up answers as)"

definition watchdogOnce :: "addr_env \<Rightarrow> live \<Rightarrow> string list \<Rightarrow> bool \<Rightarrow> (string \<Rightarrow> bool) \<Rightarrow> u32 \<Rightarrow> bool \<times> u32" where
  "watchdogOnce ae l addrs quicAlive answers rr =
     (if quicAlive then (True, rr)
      else if addrs = [] then (False, rr)
      else
        let ordered = watchdogPingOrder ae l addrs; n = length ordered; start = unat rr mod n
        in (any_up answers (map (\<lambda>i. ordered ! ((start + i) mod n)) [0..<n]), rr + 1))"

text \<open>The rounds of a run; the result is the number of the round, from 1, in which \<^verbatim>\<open>OnWatchdogFail\<close> is called.\<close>

record watch_round =
  wr_live :: live
  wr_quicAlive :: bool
  wr_up :: "string \<Rightarrow> bool"

fun watchdog_loop :: "addr_env \<Rightarrow> string list \<Rightarrow> nat \<Rightarrow> nat \<Rightarrow> u32 \<Rightarrow> watch_round list \<Rightarrow> nat option" where
  "watchdog_loop ae addrs misses n rr [] = None"
| "watchdog_loop ae addrs misses n rr (r # rs) =
     (let (ok, rr) = watchdogOnce ae (wr_live r) addrs (wr_quicAlive r) (wr_up r) rr in
      if ok then watchdog_loop ae addrs 0 (n + 1) rr rs
      else if misses + 1 < watchdogMaxMisses then watchdog_loop ae addrs (misses + 1) (n + 1) rr rs
      else Some (n + 1))"

definition runWatchdog :: "addr_env \<Rightarrow> string list \<Rightarrow> duration \<Rightarrow> bool \<Rightarrow> u32 \<Rightarrow> watch_round list \<Rightarrow> nat option" where
  "runWatchdog ae addrs interval hasCallback rr rs =
     (if interval \<le> 0 \<or> \<not> hasCallback then None else watchdog_loop ae addrs 0 0 rr rs)"


section \<open>What the hints are\<close>

definition hint_form :: "string \<Rightarrow> bool" where
  "hint_form h \<longleftrightarrow> reHostPort_at h = Some (h, [])"

lemma digit_run_cut: "digit_run hi s = Some (d, r) \<Longrightarrow> digit_run hi d = Some (d, [])"
  by (auto simp: digit_run_def Let_def dest: set_takeWhileD split: if_splits)

lemma digit_run_next: "digit_run hi s = Some (d, c # r) \<Longrightarrow> \<not> is_digit_char c"
proof -
  assume a: "digit_run hi s = Some (d, c # r)"
  then have "dropWhile is_digit_char s = c # r"
    by (auto simp: digit_run_def Let_def dropWhile_eq_drop split: if_splits)
  then show ?thesis using hd_dropWhile [of is_digit_char s] by simp
qed

lemma digit_run_app:
  assumes "digit_run hi x = Some (d, r)" "r \<noteq> [] \<or> s = [] \<or> \<not> is_digit_char (hd s)"
  shows "digit_run hi (x @ s) = Some (d, r @ s)"
proof -
  have d: "d = takeWhile is_digit_char x" "d \<noteq> []" "length d \<le> hi" "r = drop (length d) x"
    using assms(1) by (auto simp: digit_run_def Let_def split: if_splits)
  have x: "x = d @ r" using digit_run_shorter [OF assms(1)] by simp
  have all: "\<forall>c \<in> set d. is_digit_char c" using d(1) by (metis set_takeWhileD)
  have "r \<noteq> [] \<Longrightarrow> \<not> is_digit_char (hd r)"
    using digit_run_next [of hi x d] assms(1) by (cases r) auto
  then have "takeWhile is_digit_char (r @ s) = []" using assms(2) by (cases r; cases s) auto
  then have "takeWhile is_digit_char (d @ r @ s) = d" using all by (simp add: takeWhile_append2)
  then have "digit_run hi (d @ r @ s) = Some (d, r @ s)" using d(2,3) by (simp add: digit_run_def)
  then show ?thesis by (simp add: x)
qed

lemma octet_then_cut: "octet_then c s = Some (d, r) \<Longrightarrow> octet_then c (d @ t) = Some (d, t)"
proof -
  assume "octet_then c s = Some (d, r)"
  then obtain d' where d': "digit_run 3 s = Some (d', c # r)" "d = d' @ [c]"
    by (auto simp: octet_then_def split: option.splits list.splits if_splits)
  have "\<not> is_digit_char c" by (rule digit_run_next [OF d'(1)])
  then have "digit_run 3 (d' @ c # t) = Some (d', c # t)"
    using digit_run_app [OF digit_run_cut [OF d'(1)], of "c # t"] by simp
  then show ?thesis by (simp add: octet_then_def d'(2))
qed

lemma reHostPort_at_cut:
  assumes "reHostPort_at s = Some (m, r)" "t = [] \<or> \<not> is_word_char (hd t)"
  shows "reHostPort_at (m @ t) = Some (m, t)"
proof -
  obtain a s1 b s2 c s3 d s4 p where
    m: "octet_then (CHR ''.'') s = Some (a, s1)" "octet_then (CHR ''.'') s1 = Some (b, s2)" "octet_then (CHR ''.'') s2 = Some (c, s3)"
    "octet_then (CHR '':'') s3 = Some (d, s4)" "digit_run 5 s4 = Some (p, r)" "m = a @ b @ c @ d @ p"
    using assms(1) by (auto simp: reHostPort_at_def bind_eq_Some_conv split: if_splits)
  have "t = [] \<or> \<not> is_digit_char (hd t)" using assms(2) by (auto simp: is_word_char_def Let_def)
  then have p: "digit_run 5 (p @ t) = Some (p, t)" using digit_run_app [OF digit_run_cut [OF m(5)], of t] by simp
  show ?thesis
    unfolding reHostPort_at_def using assms(2)
    by (simp add: m(6) octet_then_cut [OF m(1)] octet_then_cut [OF m(2)] octet_then_cut [OF m(3)] octet_then_cut [OF m(4)] p)
qed

lemma reHostPort_form: "reHostPort_at s = Some (m, r) \<Longrightarrow> hint_form m"
  using reHostPort_at_cut [of s m r "[]"] by (simp add: hint_form_def)

lemma no_digit_no_match: "\<not> is_digit_char c \<Longrightarrow> reHostPort_at (c # s) = None"
  by (simp add: reHostPort_at_def octet_then_def digit_run_def)

lemma hint_ends: "hint_form h \<Longrightarrow> h \<noteq> []"
  by (auto simp: hint_form_def reHostPort_at_def octet_then_def digit_run_def)

lemma find_all_form: "list_all hint_form (find_all w s)"
  by (induction w s rule: find_all.induct) (auto simp: reHostPort_form split: option.splits if_splits)

lemma find_all_in: "h \<in> set (find_all w s) \<Longrightarrow> \<exists>u v. s = u @ h @ v"
proof (induction w s rule: find_all.induct)
  case (2 w c s)
  show ?case
  proof (cases "if w then None else reHostPort_at (c # s)")
    case None
    then obtain u v where "s = u @ h @ v" using 2 by auto
    then have "c # s = (c # u) @ h @ v" by simp
    then show ?thesis by blast
  next
    case (Some mr)
    then obtain m r where mr: "(if w then None else reHostPort_at (c # s)) = Some (m, r)" by (cases mr) simp
    then have s: "c # s = m @ r" using reHostPort_at_splits [of "c # s" m r] by (auto split: if_splits)
    have "h = m \<or> (\<exists>u v. r = u @ h @ v)" using 2(2) [OF mr] 2(3) mr by auto
    then show ?thesis using s by (metis append.assoc append_Nil)
  qed
qed simp

lemma first_distinct_spec:
  "set (first_distinct k seen xs) \<subseteq> set xs \<and> distinct (first_distinct k seen xs) \<and> length (first_distinct k seen xs) \<le> k \<and>
   set (first_distinct k seen xs) \<inter> set seen = {}"
proof (induction k seen xs rule: first_distinct.induct)
  case (3 k seen x xs)
  then show ?case by (cases "x \<in> set seen") auto
qed simp_all

lemma trim_space_infix: "\<exists>u v. s = u @ trim_space s @ v"
  by (metis append.assoc rev_append rev_rev_ident suffix_def trim_left_suffix trim_rev_suffix trim_space_def)

text \<open>
  Whatever text a cluster serves, the hints drawn from it are at most 32, all different, each is four runs of one to three digits
  with a port of one to five digits, and each stands in the text.
\<close>

theorem hints_sound:
  "length (peerHintsFromClusterRaw raw) \<le> 32 \<and> distinct (peerHintsFromClusterRaw raw) \<and>
   list_all (\<lambda>h. hint_form h \<and> (\<exists>u v. raw = u @ h @ v)) (peerHintsFromClusterRaw raw)"
proof -
  have "list_all (\<lambda>h. hint_form h \<and> (\<exists>u v. raw = u @ h @ v)) (find_all False (trim_space raw))"
  proof (unfold list_all_iff, rule ballI, rule conjI)
    fix h assume h: "h \<in> set (find_all False (trim_space raw))"
    then show "hint_form h" using find_all_form [of False "trim_space raw"] by (simp add: list_all_iff)
    obtain u v where "trim_space raw = u @ h @ v" using find_all_in [OF h] by blast
    then show "\<exists>u v. raw = u @ h @ v" using trim_space_infix [of raw] by (metis append.assoc)
  qed
  then show ?thesis
    using first_distinct_spec [of 32 "[]" "find_all False (trim_space raw)"]
    by (auto simp: peerHintsFromClusterRaw_def Let_def list_all_iff)
qed

text \<open>A text without digits is skipped.\<close>

definition no_digits :: "string \<Rightarrow> bool" where
  "no_digits j = list_all (\<lambda>c. \<not> is_digit_char c) j"

lemma find_all_skip: "no_digits j \<Longrightarrow> j \<noteq> [] \<Longrightarrow> find_all w (j @ s) = find_all (is_word_char (last j)) s"
proof (induction j arbitrary: w)
  case (Cons c j)
  then have c: "find_all w ((c # j) @ s) = find_all (is_word_char c) (j @ s)" by (simp add: no_digits_def no_digit_no_match)
  show ?case
  proof (cases "j = []")
    case False
    then show ?thesis using Cons c by (simp add: no_digits_def)
  next
    case True
    then show ?thesis using Cons.prems by (simp add: no_digits_def no_digit_no_match)
  qed
qed simp

lemma find_all_take:
  assumes "hint_form h" "s = [] \<or> \<not> is_word_char (hd s)"
  shows "find_all False (h @ s) = h # find_all True s"
proof -
  obtain c t where h: "h = c # t" using hint_ends [OF assms(1)] by (cases h) auto
  have "reHostPort_at (h @ s) = Some (h, s)" using reHostPort_at_cut [of h h "[]" s] assms by (simp add: hint_form_def)
  then show ?thesis by (simp add: h)
qed

definition separates :: "string \<Rightarrow> bool" where
  "separates j \<longleftrightarrow> j \<noteq> [] \<and> no_digits j \<and> \<not> is_word_char (hd j) \<and> \<not> is_word_char (last j)"

lemma find_all_items:
  "list_all (\<lambda>(j, h). separates j \<and> hint_form h) items \<Longrightarrow> rest = [] \<or> separates rest \<Longrightarrow>
   find_all w (concat (map (\<lambda>(j, h). j @ h) items) @ rest) = map snd items"
proof (induction items arbitrary: w)
  case Nil
  then show ?case using find_all_skip [of rest w "[]"] by (auto simp: separates_def)
next
  case (Cons i items)
  obtain j h where i: "i = (j, h)" by fastforce
  let ?r = "concat (map (\<lambda>(j, h). j @ h) items) @ rest"
  have r: "?r = [] \<or> \<not> is_word_char (hd ?r)"
    using Cons.prems by (cases items) (auto simp: separates_def)
  have "find_all w (concat (map (\<lambda>(j, h). j @ h) (i # items)) @ rest) = find_all False (h @ ?r)"
    using find_all_skip [of j w "h @ ?r"] Cons.prems by (simp add: i separates_def)
  also have "\<dots> = h # find_all True ?r" using find_all_take [OF _ r] Cons.prems by (simp add: i)
  finally show ?case using Cons by (simp add: i)
qed

text \<open>
  From a document in which addresses stand between texts without digits that begin and end outside a word, such as the JSON list
  of a cluster's clients, the hints are these addresses in their order, repeats left out, up to 32.
\<close>

theorem hints_complete:
  assumes "list_all (\<lambda>(j, h). separates j \<and> hint_form h) items" "rest = [] \<or> separates rest"
    and "raw = concat (map (\<lambda>(j, h). j @ h) items) @ rest" "trim_space raw = raw"
  shows "peerHintsFromClusterRaw raw = first_distinct 32 [] (map snd items)"
proof (cases "raw = []")
  case True
  then have "items = []" using assms(1,3) hint_ends by (cases items) auto
  then show ?thesis using True by (simp add: peerHintsFromClusterRaw_def)
next
  case False
  have "find_all False raw = map snd items" using find_all_items [OF assms(1,2)] by (simp add: assms(3))
  then show ?thesis using False assms(4) by (simp add: peerHintsFromClusterRaw_def)
qed

section \<open>What the watchdog does\<close>

text \<open>A round is missed when QUIC is down and no server answers.\<close>

definition missed :: "string list \<Rightarrow> watch_round \<Rightarrow> bool" where
  "missed addrs r = (\<not> wr_quicAlive r \<and> \<not> list_ex (wr_up r) addrs)"

definition three_missed :: "bool list \<Rightarrow> nat \<Rightarrow> bool" where
  "three_missed bs k = (3 \<le> k \<and> bs ! (k - 1) \<and> bs ! (k - 2) \<and> bs ! (k - 3))"

lemma any_up_iff: "any_up p as = list_ex p as"
  by (induction as) simp_all

lemma watchdogPingOrder_set: "set (watchdogPingOrder ae l addrs) = set addrs"
proof (cases "index_of (\<lambda>a. CanonicalHostPort ae a = CanonicalHostPort ae (trim_space (ActiveVolterServer l))) addrs")
  case (Some i)
  have "set (drop i addrs @ take i addrs) = set addrs" by (metis append_take_drop_id set_append sup_commute)
  then show ?thesis using Some by (simp add: watchdogPingOrder_def Let_def)
qed (simp add: watchdogPingOrder_def Let_def)

lemma round_robin_set: "xs \<noteq> [] \<Longrightarrow> set (map (\<lambda>i. xs ! ((start + i) mod length xs)) [0..<length xs]) = set xs"
proof -
  assume "xs \<noteq> []"
  then have "rotate start xs = map (\<lambda>i. xs ! ((start + i) mod length xs)) [0..<length xs]"
    by (intro nth_equalityI) (simp_all add: nth_rotate add.commute)
  then show ?thesis by (metis set_rotate)
qed

lemma watchdogOnce_missed: "fst (watchdogOnce ae (wr_live r) addrs (wr_quicAlive r) (wr_up r) rr) \<longleftrightarrow> \<not> missed addrs r"
proof (cases "addrs = []")
  case False
  let ?o = "watchdogPingOrder ae (wr_live r) addrs"
  have o: "set ?o = set addrs" "?o \<noteq> []" using watchdogPingOrder_set [of ae "wr_live r" addrs] False by auto
  have "list_ex (wr_up r) (map (\<lambda>i. ?o ! ((unat rr mod length ?o + i) mod length ?o)) [0..<length ?o]) = list_ex (wr_up r) addrs"
    unfolding list_ex_iff round_robin_set [OF o(2)] o(1) ..
  then show ?thesis using False by (simp add: watchdogOnce_def any_up_iff missed_def Let_def)
qed (simp add: watchdogOnce_def missed_def)

text \<open>\<open>m\<close> misses in a row end what has been seen so far.\<close>

definition streak :: "nat \<Rightarrow> bool list \<Rightarrow> bool" where
  "streak m bs \<longleftrightarrow> m < 3 \<and> m \<le> length bs \<and> (\<forall>j < m. bs ! (length bs - 1 - j)) \<and> (m < length bs \<longrightarrow> \<not> bs ! (length bs - 1 - m))"

lemma streak_snoc:
  assumes "streak m bs"
  shows "three_missed (bs @ b # cs) (Suc (length bs)) \<longleftrightarrow> b \<and> m = 2"
    "\<not> b \<Longrightarrow> streak 0 (bs @ [b])" "b \<Longrightarrow> m < 2 \<Longrightarrow> streak (Suc m) (bs @ [b])"
proof -
  have "m < 3" using assms by (simp add: streak_def)
  then have m: "m = 0 \<or> m = 1 \<or> m = 2" by arith
  show "three_missed (bs @ b # cs) (Suc (length bs)) \<longleftrightarrow> b \<and> m = 2"
  proof (cases "2 \<le> length bs")
    case False
    then show ?thesis using assms by (auto simp: three_missed_def streak_def)
  next
    case True
    have "three_missed (bs @ b # cs) (Suc (length bs)) \<longleftrightarrow> b \<and> bs ! (length bs - 1) \<and> bs ! (length bs - 2)"
      using True by (auto simp: three_missed_def nth_append numeral_3_eq_3 numeral_2_eq_2)
    also have "\<dots> \<longleftrightarrow> b \<and> m = 2"
      using assms m True by (auto simp: streak_def numeral_2_eq_2 less_Suc_eq)
    finally show ?thesis .
  qed
  show "\<not> b \<Longrightarrow> streak 0 (bs @ [b])" by (simp add: streak_def)
  show "b \<Longrightarrow> m < 2 \<Longrightarrow> streak (Suc m) (bs @ [b])"
    using assms by (auto simp: streak_def nth_append less_Suc_eq_0_disj Suc_diff_Suc split: if_splits)
qed

lemma watchdog_loop_spec:
  "streak m bs \<Longrightarrow> n = length bs \<Longrightarrow>
   watchdog_loop ae addrs m n rr rs =
     List.find (three_missed (bs @ map (missed addrs) rs)) [Suc n..<Suc (n + length rs)]"
proof (induction rs arbitrary: m bs n rr)
  case (Cons r rs)
  let ?b = "missed addrs r"
  obtain rr' where once: "watchdogOnce ae (wr_live r) addrs (wr_quicAlive r) (wr_up r) rr = (\<not> ?b, rr')"
    using watchdogOnce_missed [of ae r addrs rr] by (cases "watchdogOnce ae (wr_live r) addrs (wr_quicAlive r) (wr_up r) rr") auto
  have up: "[Suc n..<Suc (n + length (r # rs))] = Suc n # [Suc (Suc n)..<Suc (Suc n + length rs)]"
    by (simp add: upt_conv_Cons del: upt_Suc)
  have app: "bs @ map (missed addrs) (r # rs) = (bs @ [?b]) @ map (missed addrs) rs" by simp
  have here: "three_missed (bs @ map (missed addrs) (r # rs)) (Suc n) \<longleftrightarrow> ?b \<and> m = 2"
    using streak_snoc(1) [OF Cons.prems(1)] Cons.prems(2) by simp
  note ih = Cons.IH [where bs = "bs @ [?b]" and n = "Suc n" and rr = rr']
  have m: "m < 3" using Cons.prems(1) by (simp add: streak_def)
  show ?case
  proof (cases ?b)
    case False
    then show ?thesis
      using ih [of 0] streak_snoc(2) [OF Cons.prems(1) False] Cons.prems(2) here unfolding up app by (simp add: once)
  next
    case True
    show ?thesis
    proof (cases "m = 2")
      case True
      then show ?thesis using \<open>?b\<close> here unfolding up by (simp add: once watchdogMaxMisses_def)
    next
      case False
      then have "m < 2" using m by simp
      then show ?thesis
        using ih [of "Suc m"] streak_snoc(3) [OF Cons.prems(1) True] Cons.prems(2) here \<open>?b\<close>
        unfolding up app by (simp add: once watchdogMaxMisses_def)
    qed
  qed
qed simp

text \<open>
  C23. The watchdog gives up in the first round that ends three missed rounds in a row, rounds in which QUIC is down and none of the
  servers answers, and never otherwise: neither the active server, which changes the order of the probes, nor the counter that
  turns that order matters.
\<close>

theorem watchdog_fires:
  "runWatchdog ae addrs interval hasCallback rr rs =
     (if 0 < interval \<and> hasCallback then List.find (three_missed (map (missed addrs) rs)) [1..<Suc (length rs)] else None)"
proof -
  have "streak 0 []" by (simp add: streak_def)
  from watchdog_loop_spec [OF this, of 0 ae addrs rr rs]
  have "watchdog_loop ae addrs 0 0 rr rs = List.find (three_missed (map (missed addrs) rs)) [1..<Suc (length rs)]"
    unfolding append_Nil add_0 One_nat_def by (simp only: list.size simp_thms)
  then show ?thesis by (auto simp: runWatchdog_def)
qed

section \<open>Instances\<close>

lemma hints_complete_witness:
  "peerHintsFromClusterRaw ''[\"10.0.0.1:443\",\"10.0.0.2:80\",\"10.0.0.1:443\"]'' = [''10.0.0.1:443'', ''10.0.0.2:80'']"
proof -
  let ?items = "[(''[\"'', ''10.0.0.1:443''), (''\",\"'', ''10.0.0.2:80''), (''\",\"'', ''10.0.0.1:443'')]"
  have "list_all (\<lambda>(j, h). separates j \<and> hint_form h) ?items" by code_simp
  moreover have "''\"]'' = [] \<or> separates ''\"]''" by code_simp
  moreover have "''[\"10.0.0.1:443\",\"10.0.0.2:80\",\"10.0.0.1:443\"]'' = concat (map (\<lambda>(j, h). j @ h) ?items) @ ''\"]''" by code_simp
  moreover have "trim_space ''[\"10.0.0.1:443\",\"10.0.0.2:80\",\"10.0.0.1:443\"]'' = ''[\"10.0.0.1:443\",\"10.0.0.2:80\",\"10.0.0.1:443\"]''"
    by code_simp
  ultimately have "peerHintsFromClusterRaw ''[\"10.0.0.1:443\",\"10.0.0.2:80\",\"10.0.0.1:443\"]'' = first_distinct 32 [] (map snd ?items)"
    by (rule hints_complete)
  also have "\<dots> = [''10.0.0.1:443'', ''10.0.0.2:80'']" by code_simp
  finally show ?thesis .
qed

text \<open>Numbers are not looked at: a hint need not be an address.\<close>

lemma hint_out_of_range: "peerHintsFromClusterRaw ''v 999.1.2.3:99999'' = [''999.1.2.3:99999'']"
  by code_simp
end
