(* ===== verification/DhtRpc.thy ===== *)
theory DhtRpc
  imports Dht Interfaces
begin

text \<open>
  The DHT's datagram protocol, \<^verbatim>\<open>internal/dht\<close>: packets with their optional MAC
  (\<^verbatim>\<open>rpc_packet.go\<close>), the server's handling of a datagram and the client calls
  (\<^verbatim>\<open>rpc_udp.go\<close>), the iterative look-up (\<^verbatim>\<open>iterative.go\<close>) and the look-up over HTTP
  (\<^verbatim>\<open>find_http.go\<close>). HMAC-SHA256 is an argument; the JSON bodies are the fields of a record
  of codec functions.
\<close>

section \<open>Packets\<close>

definition rpcMagic :: bytes where "rpcMagic = str_bytes ''VLDR''"
definition rpcVer :: byte where "rpcVer = 1"
definition rpcHdr :: nat where "rpcHdr = 12"
definition rpcMacLen :: nat where "rpcMacLen = 32"
definition rpcMaxPay :: nat where "rpcMaxPay = 48000"

definition OpPing :: byte where "OpPing = 1"
definition OpFindNode :: byte where "OpFindNode = 2"
definition OpStore :: byte where "OpStore = 3"
definition OpGet :: byte where "OpGet = 4"
definition opResp :: byte where "opResp = 0x80"

lemmas rpc_ops = OpPing_def OpFindNode_def OpStore_def OpGet_def opResp_def

type_synonym hmac = "bytes \<Rightarrow> bytes \<Rightarrow> bytes"

definition signPacket :: "hmac \<Rightarrow> string \<Rightarrow> bytes \<Rightarrow> bytes" where
  "signPacket hmac secret body = (if secret = [] then [] else hmac (str_bytes secret) body)"

definition appendMAC :: "hmac \<Rightarrow> string \<Rightarrow> bytes \<Rightarrow> bytes" where
  "appendMAC hmac secret pkt =
     (if secret = [] then pkt
      else let m = signPacket hmac secret pkt
        in pkt @ take rpcMacLen m @ replicate (rpcMacLen - length m) 0)"

definition verifyMAC :: "hmac \<Rightarrow> string \<Rightarrow> bytes \<Rightarrow> bytes option" where
  "verifyMAC hmac secret pkt =
     (if secret = [] then Some pkt
      else if length pkt < rpcMacLen then None
      else
        let body = take (length pkt - rpcMacLen) pkt;
            want = drop (length pkt - rpcMacLen) pkt;
            got = signPacket hmac secret body
        in if want \<noteq> got then None else Some body)"

definition encodeRequest :: "u32 \<Rightarrow> byte \<Rightarrow> bytes \<Rightarrow> bytes" where
  "encodeRequest reqID op body =
     (let body = (if length body > rpcMaxPay then take rpcMaxPay body else body)
      in rpcMagic @ [rpcVer, op] @ be_put 4 reqID @ be_put 2 (word_of_nat (length body) :: u16) @ body)"

definition encodePingReq :: "u32 \<Rightarrow> bytes" where
  "encodePingReq reqID = encodeRequest reqID OpPing []"

definition encodeFindNodeReq :: "u32 \<Rightarrow> bytes \<Rightarrow> int \<Rightarrow> bytes" where
  "encodeFindNodeReq reqID target k =
     (let k = (if k < 1 then 1 else k);
          k = (if k > 256 then 256 else k)
      in encodeRequest reqID OpFindNode (take 32 target @ [word_of_int k]))"

definition decodePacket :: "bytes \<Rightarrow> go_error + u32 \<times> byte \<times> bytes" where
  "decodePacket pkt =
     (if length pkt < rpcHdr then Inl (Error ''dht rpc: short packet'')
      else if take 4 pkt \<noteq> rpcMagic then Inl (Error ''dht rpc: bad magic'')
      else if pkt ! 4 \<noteq> rpcVer then Inl (Error (''dht rpc: version '' @ itoa (uint (pkt ! 4))))
      else
        let op = pkt ! 5;
            reqID = be_get (take 4 (drop 6 pkt));
            bl = unat (be_get (take 2 (drop 10 pkt)) :: u16)
        in if rpcHdr + bl > length pkt then Inl (Error ''dht rpc: bad length'')
           else Inr (reqID, op, take bl (drop 12 pkt)))"

section \<open>Bodies\<close>

text \<open>
  The JSON objects of the bodies: \<open>js_nodes\<close> the answer to a find, \<open>js_store\<close> key, lifetime and
  payload, \<open>js_ok\<close> the answer to a store, \<open>js_key\<close> the decoder of a get request, \<open>js_get\<close> the
  answer to it. The \<open>_dec\<close> functions are \<^verbatim>\<open>json.Unmarshal\<close> into the matching struct.
\<close>

record dht_json =
  js_nodes :: "RelayNode list \<Rightarrow> bytes"
  js_nodes_dec :: "bytes \<Rightarrow> (RelayNode list) option"
  js_store :: "string \<Rightarrow> u32 \<Rightarrow> string \<Rightarrow> bytes"
  js_store_dec :: "bytes \<Rightarrow> (string \<times> u32 \<times> string) option"
  js_ok :: "bool \<Rightarrow> bytes"
  js_ok_dec :: "bytes \<Rightarrow> bool option"
  js_key_dec :: "bytes \<Rightarrow> string option"
  js_get :: "bool \<Rightarrow> string \<Rightarrow> bytes"
  js_get_dec :: "bytes \<Rightarrow> (bool \<times> string) option"

definition json_err :: go_error where
  "json_err = Error ''json''"

definition encodeFindNodeResp :: "dht_json \<Rightarrow> u32 \<Rightarrow> RelayNode list \<Rightarrow> bytes" where
  "encodeFindNodeResp j reqID nodes = encodeRequest reqID (OpFindNode OR opResp) (js_nodes j nodes)"

definition decodeFindNodeResp :: "dht_json \<Rightarrow> bytes \<Rightarrow> go_error + RelayNode list" where
  "decodeFindNodeResp j body = (case js_nodes_dec j body of None \<Rightarrow> Inl json_err | Some ns \<Rightarrow> Inr ns)"

definition encodeStoreReq :: "dht_json \<Rightarrow> u32 \<Rightarrow> bytes \<Rightarrow> u32 \<Rightarrow> bytes \<Rightarrow> bytes" where
  "encodeStoreReq j reqID key ttlSec val =
     (let val = (if length val > KVMaxValue then take KVMaxValue val else val)
      in encodeRequest reqID OpStore (js_store j (hex_encode key) ttlSec (hex_encode val)))"

definition decodeStoreReq :: "dht_json \<Rightarrow> bytes \<Rightarrow> go_error + bytes \<times> u32 \<times> bytes" where
  "decodeStoreReq j body =
     (case js_store_dec j body of
        None \<Rightarrow> Inl json_err
      | Some (k, ttlSec, payload) \<Rightarrow>
        (case hex_decode k of
           None \<Rightarrow> Inl (Error ''dht store: bad key'')
         | Some kb \<Rightarrow>
           if length kb \<noteq> 32 then Inl (Error ''dht store: bad key'')
           else if payload = [] then Inr (kb, ttlSec, [])
           else case hex_decode payload of
             None \<Rightarrow> Inl (Error ''encoding/hex'')
           | Some val \<Rightarrow> Inr (kb, ttlSec, val)))"

definition encodeStoreResp :: "dht_json \<Rightarrow> u32 \<Rightarrow> bool \<Rightarrow> bytes" where
  "encodeStoreResp j reqID ok = encodeRequest reqID (OpStore OR opResp) (js_ok j ok)"

definition decodeStoreResp :: "dht_json \<Rightarrow> bytes \<Rightarrow> go_error + bool" where
  "decodeStoreResp j body = (case js_ok_dec j body of None \<Rightarrow> Inl json_err | Some b \<Rightarrow> Inr b)"

definition encodeGetReq :: "u32 \<Rightarrow> bytes \<Rightarrow> bytes" where
  "encodeGetReq reqID key =
     encodeRequest reqID OpGet (str_bytes (''{\"key\":\"'' @ hex_encode key @ ''\"}''))"

definition decodeGetReq :: "dht_json \<Rightarrow> bytes \<Rightarrow> go_error + bytes" where
  "decodeGetReq j body =
     (case js_key_dec j body of
        None \<Rightarrow> Inl json_err
      | Some k \<Rightarrow> (case hex_decode k of
          None \<Rightarrow> Inl (Error ''dht get: bad key'')
        | Some kb \<Rightarrow> if length kb \<noteq> 32 then Inl (Error ''dht get: bad key'') else Inr kb))"

definition encodeGetResp :: "dht_json \<Rightarrow> u32 \<Rightarrow> bool \<Rightarrow> bytes \<Rightarrow> bytes" where
  "encodeGetResp j reqID found val =
     encodeRequest reqID (OpGet OR opResp)
       (js_get j found (if found \<and> length val > 0 then hex_encode val else []))"

definition decodeGetResp :: "dht_json \<Rightarrow> bytes \<Rightarrow> go_error + bytes option" where
  "decodeGetResp j body =
     (case js_get_dec j body of
        None \<Rightarrow> Inl json_err
      | Some (found, payload) \<Rightarrow>
          if \<not> found then Inr None
          else if payload = [] then Inr (Some [])
          else case hex_decode payload of None \<Rightarrow> Inl (Error ''encoding/hex'') | Some v \<Rightarrow> Inr (Some v))"

section \<open>The server\<close>

text \<open>
  One round of the loop of \<open>serveRPCUDP\<close>: a datagram comes in at time \<open>now\<close>; what is sent
  back, if anything, and the store afterwards. The table is only read.
\<close>

definition serve_packet ::
  "((string, relayEntry) gomap \<Rightarrow> (string, relayEntry) gomap) \<Rightarrow> (KVStore \<Rightarrow> KVStore) \<Rightarrow> hmac \<Rightarrow> dht_json \<Rightarrow>
   string \<Rightarrow> Table \<Rightarrow> instant \<Rightarrow> bytes \<Rightarrow> KVStore \<Rightarrow> bytes option \<times> KVStore" where
  "serve_packet torder korder hmac j secret tab now dgram kv =
     (case verifyMAC hmac secret dgram of
        None \<Rightarrow> (None, kv)
      | Some pkt \<Rightarrow>
        (case decodePacket pkt of
           Inl _ \<Rightarrow> (None, kv)
         | Inr (reqID, op, body) \<Rightarrow>
           if op AND opResp \<noteq> 0 then (None, kv)
           else if op = OpPing then
             (Some (appendMAC hmac secret (encodeRequest reqID (OpPing OR opResp) [])), kv)
           else if op = OpFindNode then
             (if length body < 33 then (None, kv)
              else let target = take 32 body;
                       k = uint (body ! 32);
                       nodes = NearestTo torder tab target k
                in (Some (appendMAC hmac secret (encodeFindNodeResp j reqID nodes)), kv))
           else if op = OpStore then
             (case decodeStoreReq j body of
                Inl _ \<Rightarrow> (None, kv)
              | Inr (key, ttlSec, val) \<Rightarrow>
                  let ttl = uint ttlSec * second;
                      (ok, kv) = kv_Put korder now key ttl val kv
                  in (Some (appendMAC hmac secret (encodeStoreResp j reqID ok)), kv))
           else if op = OpGet then
             (case decodeGetReq j body of
                Inl _ \<Rightarrow> (None, kv)
              | Inr key \<Rightarrow>
                  let (r, kv) = kv_Get now key kv
                  in (Some (appendMAC hmac secret
                       (encodeGetResp j reqID (r \<noteq> None) (case r of None \<Rightarrow> [] | Some v \<Rightarrow> v))), kv))
           else (None, kv)))"

section \<open>The client\<close>

text \<open>
  \<open>udpExchange\<close> sends the request with its MAC and checks the one datagram that comes back;
  \<open>net\<close> is what came back, or the socket error.
\<close>

definition udpExchange ::
  "hmac \<Rightarrow> string \<Rightarrow> (bytes \<Rightarrow> go_error + bytes) \<Rightarrow> bytes \<Rightarrow> byte \<Rightarrow> go_error + bytes" where
  "udpExchange hmac secret net req wantRespOp =
     (if length req < rpcHdr then Inl (Error ''dht rpc: bad req'')
      else
        let wantID = be_get (take 4 (drop 6 req)) :: u32 in
        ebind (net (appendMAC hmac secret req)) (\<lambda>dgram.
        case verifyMAC hmac secret dgram of
          None \<Rightarrow> Inl (Error ''dht rpc: bad mac'')
        | Some pkt \<Rightarrow>
          ebind (decodePacket pkt) (\<lambda>(rid, op, body).
          if rid \<noteq> wantID \<or> op \<noteq> wantRespOp then Inl (Error ''dht rpc: bad response'')
          else Inr body)))"

definition UDPPing :: "hmac \<Rightarrow> string \<Rightarrow> (bytes \<Rightarrow> go_error + bytes) \<Rightarrow> u32 \<Rightarrow> go_error + unit" where
  "UDPPing hmac secret net reqID =
     ebind (udpExchange hmac secret net (encodePingReq reqID) (OpPing OR opResp)) (\<lambda>_. Inr ())"

definition UDPFindNode ::
  "hmac \<Rightarrow> dht_json \<Rightarrow> string \<Rightarrow> (bytes \<Rightarrow> go_error + bytes) \<Rightarrow> u32 \<Rightarrow> bytes \<Rightarrow> int \<Rightarrow> go_error + RelayNode list" where
  "UDPFindNode hmac j secret net reqID target k =
     (let k = (if k < 1 then 16 else k);
          k = (if k > 256 then 256 else k)
      in ebind (udpExchange hmac secret net (encodeFindNodeReq reqID target k) (OpFindNode OR opResp))
           (decodeFindNodeResp j))"

definition UDPStore ::
  "hmac \<Rightarrow> dht_json \<Rightarrow> string \<Rightarrow> (bytes \<Rightarrow> go_error + bytes) \<Rightarrow> u32 \<Rightarrow> bytes \<Rightarrow> u32 \<Rightarrow> bytes \<Rightarrow> go_error + bool" where
  "UDPStore hmac j secret net reqID key ttlSec val =
     ebind (udpExchange hmac secret net (encodeStoreReq j reqID key ttlSec val) (OpStore OR opResp))
       (decodeStoreResp j)"

definition UDPGet ::
  "hmac \<Rightarrow> dht_json \<Rightarrow> string \<Rightarrow> (bytes \<Rightarrow> go_error + bytes) \<Rightarrow> u32 \<Rightarrow> bytes \<Rightarrow> go_error + bytes option" where
  "UDPGet hmac j secret net reqID key =
     ebind (udpExchange hmac secret net (encodeGetReq reqID key) (OpGet OR opResp)) (decodeGetResp j)"

section \<open>The iterative look-up\<close>

fun pick_addrs :: "string list \<Rightarrow> string list \<Rightarrow> int \<Rightarrow> string list \<Rightarrow> string list" where
  "pick_addrs [] seen alpha out = out"
| "pick_addrs (a # as) seen alpha out =
     (if int (length out) \<ge> alpha then out
      else let a = trim_space a in
        if a = [] \<or> a \<in> set seen then pick_addrs as seen alpha out
        else pick_addrs as seen alpha (out @ [a]))"

definition pickQueryAddrs ::
  "((string, relayEntry) gomap \<Rightarrow> (string, relayEntry) gomap) \<Rightarrow> Table \<Rightarrow> bytes \<Rightarrow> string list \<Rightarrow> string list \<Rightarrow> int \<Rightarrow> string list" where
  "pickQueryAddrs order tab target seedAddrs seen alpha =
     (let out = pick_addrs seedAddrs seen alpha []
      in pick_addrs (map rn_DhtRPC (NearestTo order tab target 512)) seen alpha out)"

text \<open>
  \<open>query round addr\<close> is what the queried address answered (after the filter), nothing when it
  failed; the answers of a round come in concurrently, in the order \<open>arrive\<close> puts them.
  The value carries the addresses queried, round by round.
\<close>

fun iterate_rounds ::
  "((string, relayEntry) gomap \<Rightarrow> (string, relayEntry) gomap) \<Rightarrow> (bytes \<Rightarrow> bytes) \<Rightarrow> (nat \<Rightarrow> string \<Rightarrow> RelayNode list) \<Rightarrow>
   (RelayNode list list \<Rightarrow> RelayNode list list) \<Rightarrow> bytes \<Rightarrow> string list \<Rightarrow> int \<Rightarrow> nat \<Rightarrow> nat \<Rightarrow> string list \<Rightarrow> Table \<Rightarrow>
   (string list list \<times> Table) option" where
  "iterate_rounds order sha256 query arrive target seeds alpha round 0 seen tab = Some ([], tab)"
| "iterate_rounds order sha256 query arrive target seeds alpha round (Suc left) seen tab =
     (let addrs = pickQueryAddrs order tab target seeds seen alpha in
      if length addrs = 0 then Some ([], tab)
      else
        let seen = addrs @ seen;
            batch = concat (arrive (map (query round) addrs))
        in Option.bind (if batch = [] then Some tab else Merge order sha256 batch tab) (\<lambda>tab.
           Option.bind (iterate_rounds order sha256 query arrive target seeds alpha (round + 1) left seen tab)
             (\<lambda>(qs, tab). Some (addrs # qs, tab))))"

definition IterativeFindNode ::
  "((string, relayEntry) gomap \<Rightarrow> (string, relayEntry) gomap) \<Rightarrow> (bytes \<Rightarrow> bytes) \<Rightarrow> (int \<Rightarrow> nat \<Rightarrow> string \<Rightarrow> RelayNode list) \<Rightarrow>
   (RelayNode list list \<Rightarrow> RelayNode list list) \<Rightarrow> bytes \<Rightarrow> string list \<Rightarrow> int \<Rightarrow> int \<Rightarrow> int \<Rightarrow> Table \<Rightarrow>
   (string list list \<times> Table) option" where
  "IterativeFindNode order sha256 query arrive target seeds k alpha maxRounds tab =
     (if maxRounds \<le> 0 \<or> alpha \<le> 0 then Some ([], tab)
      else
        let k = (if k < 1 then 16 else k);
            k = (if k > 256 then 256 else k)
        in iterate_rounds order sha256 (query k) arrive target seeds alpha 0 (nat maxRounds) [] tab)"

section \<open>The look-up over HTTP\<close>

fun trim_right_set :: "char set \<Rightarrow> string \<Rightarrow> string" where
  "trim_right_set cs s = rev (dropWhile (\<lambda>c. c \<in> cs) (rev s))"

definition find_url :: "string \<Rightarrow> bytes \<Rightarrow> int \<Rightarrow> string" where
  "find_url baseURL targetID limit =
     (let u = trim_right_set {CHR ''?'', CHR ''&''} baseURL;
          sep = (if CHR ''?'' \<in> set u then ''&'' else ''?'')
      in u @ sep @ ''target='' @ hex_encode targetID @ ''&limit='' @ itoa limit)"

definition FetchFindNearest ::
  "(bytes \<Rightarrow> go_error + RelayNode list) \<Rightarrow> http \<Rightarrow> string \<Rightarrow> bytes \<Rightarrow> int \<Rightarrow> go_error + RelayNode list" where
  "FetchFindNearest env http baseURL targetID limit =
     (let baseURL = trim_space baseURL in
      if baseURL = [] then Inl (Error ''dht find: empty url'')
      else
        let limit = (if limit \<le> 0 then 16 else limit);
            limit = (if limit > 256 then 256 else limit)
        in ebind (http (find_url baseURL targetID limit)) (\<lambda>(status, body).
           if status \<noteq> 200 then Inl (Error (''dht find: http '' @ itoa status))
           else env (take 4194304 body)))"

section \<open>Lemmas\<close>

lemma verify_append:
  assumes "\<And>k d. length (hmac k d) = 32"
  shows "verifyMAC hmac secret (appendMAC hmac secret pkt) = Some pkt"
  using assms by (simp add: verifyMAC_def appendMAC_def signPacket_def rpcMacLen_def Let_def)

lemma length_rpcMagic [simp]: "length rpcMagic = 4"
  by (simp add: rpcMagic_def)

lemma encodeRequest_short:
  "length body \<le> 48000 \<Longrightarrow> encodeRequest reqID op body =
   rpcMagic @ [rpcVer, op] @ be_put 4 reqID @ be_put 2 (word_of_nat (length body) :: u16) @ body"
  by (simp add: encodeRequest_def rpcMaxPay_def Let_def)

lemma decode_encode:
  assumes "length body \<le> 48000"
  shows "decodePacket (encodeRequest reqID op body) = Inr (reqID, op, body)"
proof -
  let ?p = "rpcMagic @ [rpcVer, op] @ be_put 4 reqID @ be_put 2 (word_of_nat (length body) :: u16) @ body"
  have u: "unat (word_of_nat (length body) :: u16) = length body" using assms by (simp add: unat_small)
  have f: "length ?p = 12 + length body" "take 4 ?p = rpcMagic" "?p ! 4 = rpcVer" "?p ! 5 = op"
    "take 4 (drop 6 ?p) = be_put 4 reqID" "take 2 (drop 10 ?p) = be_put 2 (word_of_nat (length body) :: u16)"
    "drop 12 ?p = body"
    by (simp_all add: nth_append del: be_put.simps)
  show ?thesis
    unfolding encodeRequest_short [OF assms] decodePacket_def Let_def f rpcHdr_def be_get_be_put32 be_get_be_put16 u
    by simp
qed

lemma request_id: "be_get (take 4 (drop 6 (encodeRequest reqID op body))) = reqID"
  and length_request: "\<not> length (encodeRequest reqID op body) < rpcHdr"
  by (simp_all add: encodeRequest_def Let_def rpcHdr_def del: be_put.simps)

lemma exchange_answer:
  assumes "\<And>k d. length (hmac k d) = 32" and "length b \<le> 48000"
    and "net (appendMAC hmac secret (encodeRequest reqID op body)) = Inr (appendMAC hmac secret (encodeRequest reqID op' b))"
  shows "udpExchange hmac secret net (encodeRequest reqID op body) op' = Inr b"
  using assms length_request [of reqID op body]
  by (simp add: udpExchange_def request_id verify_append decode_encode Let_def)

text \<open>What the JSON codec is relied on for.\<close>

definition json_laws :: "dht_json \<Rightarrow> bool" where
  "json_laws j \<longleftrightarrow>
     (\<forall>k t p. length k = 64 \<longrightarrow> js_store_dec j (js_store j k t p) = Some (k, t, p) \<and>
        length (js_store j k t p) \<le> length k + length p + 64) \<and>
     (\<forall>b. js_ok_dec j (js_ok j b) = Some b \<and> length (js_ok j b) \<le> 64) \<and>
     (\<forall>bs. js_key_dec j (str_bytes (''{\"key\":\"'' @ hex_encode bs @ ''\"}'')) = Some (hex_encode bs)) \<and>
     (\<forall>f p. js_get_dec j (js_get j f p) = Some (f, p) \<and> length (js_get j f p) \<le> length p + 64) \<and>
     js_nodes_dec j (js_nodes j []) = Some [] \<and> length (js_nodes j []) \<le> 64"

lemma json_lawsD:
  assumes "json_laws j"
  shows "length k = 64 \<Longrightarrow> js_store_dec j (js_store j k t p) = Some (k, t, p)"
    and "length k = 64 \<Longrightarrow> length (js_store j k t p) \<le> length k + length p + 64"
    and "js_ok_dec j (js_ok j b) = Some b" and "length (js_ok j b) \<le> 64"
    and "js_key_dec j (str_bytes (''{\"key\":\"'' @ hex_encode bs @ ''\"}'')) = Some (hex_encode bs)"
    and "js_get_dec j (js_get j f q) = Some (f, q)" and "length (js_get j f q) \<le> length q + 64"
    and "js_nodes_dec j (js_nodes j []) = Some []" and "length (js_nodes j []) \<le> 64"
  using assms unfolding json_laws_def by simp_all

lemma op_bits:
  "OpPing AND opResp = 0" "OpFindNode AND opResp = 0" "OpStore AND opResp = 0" "OpGet AND opResp = 0"
  "OpFindNode \<noteq> OpPing" "OpStore \<noteq> OpPing" "OpStore \<noteq> OpFindNode" "OpGet \<noteq> OpPing" "OpGet \<noteq> OpFindNode" "OpGet \<noteq> OpStore"
  by (simp_all add: rpc_ops)

lemma serve_store:
  assumes H: "\<And>k d. length (hmac k d) = 32" and J: "json_laws j" and k: "length key = 32"
  shows "serve_packet torder korder hmac j secret tab now
      (appendMAC hmac secret (encodeStoreReq j reqID key ttlSec val)) kv =
    (let (ok, kv') = kv_Put korder now key (uint ttlSec * second) (take KVMaxValue val) kv
     in (Some (appendMAC hmac secret (encodeStoreResp j reqID ok)), kv'))"
proof -
  let ?v = "take KVMaxValue val"
  let ?b = "js_store j (hex_encode key) ttlSec (hex_encode ?v)"
  have v: "(if length val > KVMaxValue then take KVMaxValue val else val) = ?v" by simp
  have "length (hex_encode ?v) \<le> 8192" by (simp add: KVMaxValue_def)
  then have l: "length ?b \<le> 48000" using json_lawsD(2) [OF J, of "hex_encode key" ttlSec "hex_encode ?v"] k by simp
  have d: "decodeStoreReq j ?b = Inr (key, ttlSec, ?v)"
  proof (cases "?v = []")
    case True
    then show ?thesis using k by (simp add: decodeStoreReq_def json_lawsD(1) [OF J])
  next
    case False
    then have "hex_encode ?v \<noteq> []" by (metis hex_decode_encode hex_decode.simps(1) option.inject)
    then show ?thesis using k by (simp add: decodeStoreReq_def json_lawsD(1) [OF J])
  qed
  show ?thesis
    unfolding encodeStoreReq_def Let_def v serve_packet_def verify_append [of hmac, OF H] option.case
      decode_encode [OF l] sum.case prod.case
    by (simp add: op_bits d Let_def split_beta)
qed

lemma serve_get:
  assumes H: "\<And>k d. length (hmac k d) = 32" and J: "json_laws j" and k: "length key = 32"
  shows "serve_packet torder korder hmac j secret tab now (appendMAC hmac secret (encodeGetReq reqID key)) kv =
    (let (r, kv') = kv_Get now key kv
     in (Some (appendMAC hmac secret (encodeGetResp j reqID (r \<noteq> None) (case r of None \<Rightarrow> [] | Some v \<Rightarrow> v))), kv'))"
proof -
  let ?b = "str_bytes (''{\"key\":\"'' @ hex_encode key @ ''\"}'')"
  have l: "length ?b \<le> 48000" using k by simp
  have d: "decodeGetReq j ?b = Inr key"
    unfolding decodeGetReq_def json_lawsD(5) [OF J] using k by simp
  show ?thesis
    unfolding encodeGetReq_def Let_def serve_packet_def verify_append [of hmac, OF H] option.case
      decode_encode [OF l] sum.case prod.case d
    by (simp add: op_bits split_beta)
qed

lemma find_req:
  "1 \<le> k \<Longrightarrow> encodeFindNodeReq reqID target k =
    encodeRequest reqID OpFindNode (take 32 target @ [word_of_int (if k > 256 then 256 else k)])"
  by (simp add: encodeFindNodeReq_def Let_def)

lemma serve_find:
  assumes H: "\<And>k d. length (hmac k d) = 32" and t: "length target = 32" and k: "1 \<le> k"
  shows "serve_packet torder korder hmac j secret tab now
      (appendMAC hmac secret (encodeFindNodeReq reqID target k)) kv =
    (Some (appendMAC hmac secret (encodeFindNodeResp j reqID
       (NearestTo torder tab target (if k > 255 then 0 else k)))), kv)"
proof -
  let ?w = "word_of_int (if k > 256 then 256 else k) :: byte"
  let ?b = "take 32 target @ [?w]"
  have l: "length ?b \<le> 48000" "\<not> length ?b < 33" "take 32 ?b = target" "?b ! 32 = ?w"
    using t by (simp_all add: nth_append)
  have u: "uint ?w = (if k > 255 then 0 else k)"
  proof (cases "k < 256")
    case True
    then show ?thesis using k by (simp add: uint_word_of_int take_bit_eq_mod)
  next
    case False
    then have "(if k > 256 then 256 else k) = 256" by simp
    then show ?thesis using False by simp
  qed
  show ?thesis
    unfolding find_req [OF k] serve_packet_def verify_append [of hmac, OF H] option.case
      decode_encode [OF l(1)] sum.case prod.case Let_def l(3,4) u if_not_P [OF l(2)]
    using op_bits by simp
qed

lemma pick_addrs_spec:
  "set (pick_addrs as seen alpha out) \<subseteq> set out \<union> {a. a \<noteq> [] \<and> a \<notin> set seen}"
proof (induction "as" arbitrary: out)
  case (Cons a as)
  show ?case
  proof (cases "int (length out) \<ge> alpha \<or> trim_space a = [] \<or> trim_space a \<in> set seen")
    case True
    then show ?thesis using Cons.IH [of out] by (auto simp: Let_def)
  next
    case False
    then have "pick_addrs (a # as) seen alpha out = pick_addrs as seen alpha (out @ [trim_space a])"
      by (simp add: Let_def)
    then show ?thesis using Cons.IH [of "out @ [trim_space a]"] False by auto
  qed
qed simp

lemma pick_addrs_length: "int (length out) \<le> alpha \<Longrightarrow> int (length (pick_addrs as seen alpha out)) \<le> alpha"
  by (induction "as" seen alpha out rule: pick_addrs.induct) (auto simp: Let_def)

lemma pickQueryAddrs_spec:
  "0 \<le> alpha \<Longrightarrow> int (length (pickQueryAddrs order tab target seeds seen alpha)) \<le> alpha"
  "set (pickQueryAddrs order tab target seeds seen alpha) \<subseteq> {a. a \<noteq> [] \<and> a \<notin> set seen}"
proof -
  show "0 \<le> alpha \<Longrightarrow> int (length (pickQueryAddrs order tab target seeds seen alpha)) \<le> alpha"
    unfolding pickQueryAddrs_def Let_def by (intro pick_addrs_length) simp
  show "set (pickQueryAddrs order tab target seeds seen alpha) \<subseteq> {a. a \<noteq> [] \<and> a \<notin> set seen}"
    unfolding pickQueryAddrs_def Let_def
    using pick_addrs_spec [of "map rn_DhtRPC (NearestTo order tab target 512)" seen alpha "pick_addrs seeds seen alpha []"]
      pick_addrs_spec [of seeds seen alpha "[]"] by (auto dest!: subsetD)
qed

lemma iterate_rounds_ok:
  assumes S: "sha_ok sha256" and O: "range_order order" and al: "0 \<le> alpha"
  shows "tab_ok sha256 tab \<Longrightarrow>
    \<exists>qs tab'. iterate_rounds order sha256 query arrive target seeds alpha round left seen tab = Some (qs, tab') \<and>
      tab_ok sha256 tab' \<and> length qs \<le> left \<and>
      (\<forall>q \<in> set qs. int (length q) \<le> alpha \<and> set q \<inter> set seen = {} \<and> [] \<notin> set q) \<and>
      (\<forall>i < length qs. \<forall>k < i. set (qs ! i) \<inter> set (qs ! k) = {})"
proof (induction left arbitrary: round seen tab)
  case (Suc left)
  let ?as = "pickQueryAddrs order tab target seeds seen alpha"
  show ?case
  proof (cases "length ?as = 0")
    case True
    then show ?thesis using Suc.prems by simp
  next
    case False
    let ?batch = "concat (arrive (map (query round) ?as))"
    obtain tab1 where t1: "(if ?batch = [] then Some tab else Merge order sha256 ?batch tab) = Some tab1"
        "tab_ok sha256 tab1"
    proof (cases "?batch = []")
      case True
      then show ?thesis using that Suc.prems by (metis (full_types))
    next
      case False
      then show ?thesis using that Merge_ok [OF S O Suc.prems, of ?batch] by (metis (full_types))
    qed
    obtain qs tab2 where q: "iterate_rounds order sha256 query arrive target seeds alpha (round + 1) left (?as @ seen) tab1 = Some (qs, tab2)"
        "tab_ok sha256 tab2" "length qs \<le> left"
        "\<forall>q \<in> set qs. int (length q) \<le> alpha \<and> set q \<inter> set (?as @ seen) = {} \<and> [] \<notin> set q"
        "\<forall>i < length qs. \<forall>k < i. set (qs ! i) \<inter> set (qs ! k) = {}"
      using Suc.IH [OF t1(2), of "round + 1" "?as @ seen"] by blast
    have it: "iterate_rounds order sha256 query arrive target seeds alpha round (Suc left) seen tab = Some (?as # qs, tab2)"
      using False by (simp only: iterate_rounds.simps Let_def if_False t1(1) bind.bind_lunit q(1) prod.case)
    have A: "int (length ?as) \<le> alpha" "set ?as \<inter> set seen = {}" "[] \<notin> set ?as"
      using pickQueryAddrs_spec [where order = order] al by (fastforce)+
    have "set ((?as # qs) ! i) \<inter> set ((?as # qs) ! k) = {}" if "i < length (?as # qs)" "k < i" for i k
    proof (cases k)
      case 0
      then have "(?as # qs) ! i \<in> set qs" using that by (cases i) auto
      then show ?thesis using q(4) 0 by fastforce
    next
      case (Suc k')
      then show ?thesis using that q(5) by (cases i) auto
    qed
    then show ?thesis
      using it q A by (intro exI [of _ "?as # qs"] exI [of _ tab2]) auto
  qed
qed simp

section \<open>Properties\<close>

text \<open>A request that reaches the server and whose answer reaches the client.\<close>

definition server_net ::
  "((string, relayEntry) gomap \<Rightarrow> (string, relayEntry) gomap) \<Rightarrow> (KVStore \<Rightarrow> KVStore) \<Rightarrow> hmac \<Rightarrow> dht_json \<Rightarrow>
   string \<Rightarrow> Table \<Rightarrow> instant \<Rightarrow> KVStore \<Rightarrow> bytes \<Rightarrow> go_error + bytes" where
  "server_net torder korder hmac j secret tab now kv d =
     (case fst (serve_packet torder korder hmac j secret tab now d kv) of
        None \<Rightarrow> Inl (Error ''i/o timeout'')
      | Some r \<Rightarrow> Inr r)"

definition server_after_store ::
  "((string, relayEntry) gomap \<Rightarrow> (string, relayEntry) gomap) \<Rightarrow> (KVStore \<Rightarrow> KVStore) \<Rightarrow> hmac \<Rightarrow> dht_json \<Rightarrow>
   string \<Rightarrow> Table \<Rightarrow> instant \<Rightarrow> u32 \<Rightarrow> bytes \<Rightarrow> u32 \<Rightarrow> bytes \<Rightarrow> KVStore \<Rightarrow> KVStore" where
  "server_after_store torder korder hmac j secret tab now reqID key ttlSec val kv =
     snd (serve_packet torder korder hmac j secret tab now
       (appendMAC hmac secret (encodeStoreReq j reqID key ttlSec val)) kv)"

text \<open>A codec with the laws, for the witnesses.\<close>

definition demo_json :: dht_json where
  "demo_json =
     \<lparr>js_nodes = (\<lambda>ns. []), js_nodes_dec = (\<lambda>b. Some []),
      js_store = (\<lambda>k t p. be_put 4 t @ str_bytes (k @ p)),
      js_store_dec = (\<lambda>b. Some (bytes_str (take 64 (drop 4 b)), be_get (take 4 b), bytes_str (drop 68 b))),
      js_ok = (\<lambda>b. [if b then 1 else 0]), js_ok_dec = (\<lambda>b. Some (b = [1])),
      js_key_dec = (\<lambda>b. Some (bytes_str (take (length b - 10) (drop 8 b)))),
      js_get = (\<lambda>f p. (if f then 1 else 0) # str_bytes p),
      js_get_dec = (\<lambda>b. Some (hd b = 1, bytes_str (tl b)))\<rparr>"

lemma json_laws_demo: "json_laws demo_json"
  by (simp add: json_laws_def demo_json_def str_bytes_def bytes_str_def take_map [symmetric] drop_map [symmetric] comp_def
      del: be_put.simps)

lemma store_then_get:
  assumes "\<And>k d. length (hmac k d) = 32" and "json_laws j" and "range_order korder" and "kv_ok kv"
    and "length key = 32" and "0 < ttlSec" and "now2 \<le> now + uint ttlSec * second"
  shows "UDPStore hmac j secret (server_net torder korder hmac j secret tab now kv) id1 key ttlSec val = Inr True \<and>
    UDPGet hmac j secret (server_net torder korder hmac j secret tab now2
        (server_after_store torder korder hmac j secret tab now id1 key ttlSec val kv)) id2 key =
      Inr (Some (take 4096 val))"
proof -
  let ?v = "take KVMaxValue val"
  let ?server = "\<lambda>n. server_net torder korder hmac j secret tab n"
  let ?kv = "server_after_store torder korder hmac j secret tab now id1 key ttlSec val kv"
  have kt: "take KVMaxValue (take KVMaxValue val) = ?v" by simp
  have ttl: "0 < uint ttlSec * second" using assms(6) by (simp add: second_def word_less_def)
  have P: "fst (kv_Put korder now key (uint ttlSec * second) ?v kv)"
    using kv_ok_Put [OF assms(3,4), of now key "uint ttlSec * second" ?v] by simp
  have sk: "?kv = snd (kv_Put korder now key (uint ttlSec * second) ?v kv)"
    unfolding server_after_store_def serve_store [of hmac, OF assms(1,2,5)] by (simp add: split_beta Let_def)
  have e: "mget ?kv key = Some \<lparr>kv_v = ?v, kv_exp = now + uint ttlSec * second\<rparr>"
    using kv_Put_entry [OF assms(3,4), of now key "uint ttlSec * second" ?v] ttl unfolding sk kt by simp
  have g: "fst (kv_Get now2 key ?kv) = Some ?v" using assms(7) by (simp add: kv_Get_def e)
  have s1: "?server now kv (appendMAC hmac secret (encodeStoreReq j id1 key ttlSec val)) =
      Inr (appendMAC hmac secret (encodeRequest id1 (OpStore OR opResp) (js_ok j True)))"
    unfolding server_net_def serve_store [of hmac, OF assms(1,2,5)] using P
    by (simp add: split_beta Let_def encodeStoreResp_def)
  have lv: "length ?v \<le> 4096" by (simp add: KVMaxValue_def)
  let ?p = "if length ?v > 0 then hex_encode ?v else []"
  have s2: "?server now2 ?kv (appendMAC hmac secret (encodeGetReq id2 key)) =
      Inr (appendMAC hmac secret (encodeRequest id2 (OpGet OR opResp) (js_get j True ?p)))"
    unfolding server_net_def serve_get [of hmac, OF assms(1,2,5)] using g
    by (simp add: split_beta Let_def encodeGetResp_def)
  have l1: "length (js_ok j True) \<le> 48000" using json_lawsD(4) [OF assms(2), of True] by simp
  have l2: "length (js_get j True ?p) \<le> 48000"
    using json_lawsD(7) [OF assms(2), of True ?p] lv by (auto split: if_splits)
  have st: "UDPStore hmac j secret (?server now kv) id1 key ttlSec val = Inr True"
    unfolding UDPStore_def encodeStoreReq_def Let_def
    using exchange_answer [of hmac _ "?server now kv", OF assms(1) l1, OF s1 [unfolded encodeStoreReq_def Let_def]]
    by (simp add: decodeStoreResp_def json_lawsD(3) [OF assms(2)])
  have "hex_encode ?v \<noteq> []" if "?v \<noteq> []" by (metis that hex_decode_encode hex_decode.simps(1) option.inject)
  then have "UDPGet hmac j secret (?server now2 ?kv) id2 key = Inr (Some ?v)"
    unfolding UDPGet_def encodeGetReq_def
    using exchange_answer [of hmac _ "?server now2 ?kv", OF assms(1) l2, OF s2 [unfolded encodeGetReq_def]]
    by (auto simp: decodeGetResp_def json_lawsD(6) [OF assms(2)])
  then show ?thesis using st by (simp add: KVMaxValue_def)
qed



text \<open>
  A find over the wire returns the server's nearest contacts to the target, as long as at most
  255 are asked for and their encoding fits a packet. Asked for 256 or more, which client and encoder
  allow, it returns none: the count is sent as one byte.
\<close>

theorem dht_find_answer:
  assumes "\<And>k d. length (hmac k d) = 32" and "json_laws j" and "length target = 32"
    and "ns = NearestTo torder tab target k"
    and "k \<le> 255 \<Longrightarrow> js_nodes_dec j (js_nodes j ns) = Some ns \<and> length (js_nodes j ns) \<le> 48000"
    and "1 \<le> k"
  shows "UDPFindNode hmac j secret (server_net torder korder hmac j secret tab now kv) id1 target k =
    Inr (if k \<le> 255 then ns else [])"
proof -
  let ?k = "if k > 256 then 256 else k :: int"
  let ?ns = "NearestTo torder tab target (if ?k > 255 then 0 else ?k)"
  have k: "1 \<le> ?k" using assms(6) by simp
  have q: "?ns = (if k \<le> 255 then ns else [])" using assms(4) by (auto simp: NearestTo_def)
  have N: "js_nodes_dec j (js_nodes j ?ns) = Some ?ns" "length (js_nodes j ?ns) \<le> 48000"
    unfolding q using assms(5) json_lawsD(8,9) [OF assms(2)] by auto
  have s: "server_net torder korder hmac j secret tab now kv (appendMAC hmac secret (encodeFindNodeReq id1 target ?k)) =
      Inr (appendMAC hmac secret (encodeRequest id1 (OpFindNode OR opResp) (js_nodes j ?ns)))"
    unfolding server_net_def serve_find [of hmac, OF assms(1,3) k] fst_conv option.case encodeFindNodeResp_def ..
  have e: "(if k < 1 then 16 else k) = k" using assms(6) by simp
  show ?thesis
    unfolding UDPFindNode_def Let_def e
      exchange_answer [of hmac _ "server_net torder korder hmac j secret tab now kv", OF assms(1) N(2)
        s [unfolded find_req [OF k]], folded find_req [OF k]]
    by (simp only: ebind_simps decodeFindNodeResp_def N(1) [unfolded q] option.case q)
qed

theorem dht_find_answer_witness:
  "UDPFindNode (\<lambda>k d. replicate 32 0) demo_json ''s''
     (server_net id id (\<lambda>k d. replicate 32 0) demo_json ''s'' (NewTable demo_sha ''me'') 0 []) 9 (replicate 32 1) 8 =
   Inr []"
  using dht_find_answer [of "\<lambda>k d. replicate 32 0" demo_json "replicate 32 1"
      "NearestTo id (NewTable demo_sha ''me'') (replicate 32 1) 8" id "NewTable demo_sha ''me''" 8 "''s''" id 0 "[]" 9,
      OF _ json_laws_demo]
  by (simp add: NearestTo_def NewTable_def demo_json_def)

text \<open>
  C11. The iterative look-up ends within its rounds whatever the queried relays answer and in whatever order,
  leaves a sound table, queries at most \<open>alpha\<close> addresses a round, never an empty one, and none in two
  rounds.
\<close>

theorem dht_iterative_lookup:
  assumes "sha_ok sha256" and "range_order order" and "tab_ok sha256 tab"
  shows "\<exists>qs tab'. IterativeFindNode order sha256 query arrive target seeds k alpha maxRounds tab = Some (qs, tab') \<and>
    tab_ok sha256 tab' \<and> length qs \<le> nat maxRounds \<and>
    (\<forall>q \<in> set qs. int (length q) \<le> alpha \<and> [] \<notin> set q) \<and>
    (\<forall>i < length qs. \<forall>m < i. set (qs ! i) \<inter> set (qs ! m) = {})"
proof (cases "maxRounds \<le> 0 \<or> alpha \<le> 0")
  case True
  then show ?thesis using assms(3) by (auto simp: IterativeFindNode_def)
next
  case False
  let ?k = "let k = (if k < 1 then 16 else k) in if k > 256 then 256 else k"
  have e: "IterativeFindNode order sha256 query arrive target seeds k alpha maxRounds tab =
      iterate_rounds order sha256 (query ?k) arrive target seeds alpha 0 (nat maxRounds) [] tab"
    using False unfolding IterativeFindNode_def Let_def by simp
  have "0 \<le> alpha" using False by simp
  from iterate_rounds_ok [OF assms(1,2) this assms(3), of "query ?k" arrive target seeds 0 "nat maxRounds" "[]"]
  show ?thesis unfolding e by blast
qed

theorem dht_iterative_lookup_witness:
  "\<exists>qs tab'. IterativeFindNode id demo_sha (\<lambda>k r a. [demo_node a 1]) rev (replicate 32 0) [''r1'', ''r2''] 4 2 3
     (NewTable demo_sha ''me'') = Some (qs, tab') \<and> tab_ok demo_sha tab'"
  using dht_iterative_lookup [OF demo_ok(1,2) tab_ok_new [OF demo_ok(1)], of "\<lambda>k r a. [demo_node a 1]" rev
    "replicate 32 0" "[''r1'', ''r2'']" 4 2 3 "''me''"] by blast

end
