(* ===== verification/Stake.thy ===== *)
theory Stake
  imports Discovery
begin

text \<open>
  Where the stake of a relay comes from, \<^verbatim>\<open>internal/stake\<close>: the signed registry
  (\<^verbatim>\<open>registry.go\<close>), the local reputation file (\<^verbatim>\<open>reputation.go\<close>), the HTTP bonus
  (\<^verbatim>\<open>bonus_http.go\<close>), the Merkle-proved overrides (\<^verbatim>\<open>merkle.go\<close>) and their
  composition (\<^verbatim>\<open>economy.go\<close>). Files, HTTP, JSON, Ed25519 and SHA-256 are arguments. Every
  source is an interpretation of the locale \<open>stake_source\<close>: it changes stakes, relay by relay,
  and nothing else.
\<close>

section \<open>Sources of stake\<close>

text \<open>What a source may do: set the stake of each relay to something that depends on that relay alone.\<close>

definition restaking :: "(RelayNode list \<Rightarrow> RelayNode list) \<Rightarrow> bool" where
  "restaking src \<longleftrightarrow> (\<exists>f. \<forall>ns. src ns = map (\<lambda>n. n\<lparr>rn_Stake := f n\<rparr>) ns)"

named_theorems restake

locale stake_source =
  fixes src :: "RelayNode list \<Rightarrow> RelayNode list"
  assumes restaking: "restaking src"
begin

lemma keeps_rest: "map (\<lambda>n. n\<lparr>rn_Stake := 0\<rparr>) (src ns) = map (\<lambda>n. n\<lparr>rn_Stake := 0\<rparr>) ns"
  using restaking by (auto simp: restaking_def comp_def)

lemma src_append: "src (xs @ ys) = src xs @ src ys"
  using restaking by (auto simp: restaking_def)

lemma keeps_length: "length (src ns) = length ns"
  using restaking by (auto simp: restaking_def)

end

locale stake_pipeline = first: stake_source src1 + second: stake_source src2
  for src1 :: "RelayNode list \<Rightarrow> RelayNode list" and src2 :: "RelayNode list \<Rightarrow> RelayNode list"

sublocale stake_pipeline \<subseteq> both: stake_source "\<lambda>ns. src2 (src1 ns)"
proof
  obtain f g where "\<forall>ns. src1 ns = map (\<lambda>n. n\<lparr>rn_Stake := f n\<rparr>) ns" "\<forall>ns. src2 ns = map (\<lambda>n. n\<lparr>rn_Stake := g n\<rparr>) ns"
    using first.restaking second.restaking unfolding restaking_def by blast
  then show "restaking (\<lambda>ns. src2 (src1 ns))"
    unfolding restaking_def by (intro exI [of _ "\<lambda>n. g (n\<lparr>rn_Stake := f n\<rparr>)"]) (simp add: comp_def)
qed

lemma restaking_id [restake]: "restaking (\<lambda>ns. ns)"
  unfolding restaking_def by (rule exI [of _ rn_Stake]) simp

lemma restaking_if [restake]: "restaking f \<Longrightarrow> restaking g \<Longrightarrow> restaking (\<lambda>ns. if c then f ns else g ns)"
  by (cases c) simp_all

lemma restaking_unless_empty [restake]:
  "restaking g \<Longrightarrow> restaking (\<lambda>ns. if length ns = 0 then ns else g ns)"
  "restaking g \<Longrightarrow> restaking (\<lambda>ns. if c \<or> length ns = 0 then ns else g ns)"
  "restaking g \<Longrightarrow> restaking (\<lambda>ns. if c \<or> d \<or> length ns = 0 then ns else g ns)"
proof -
  show E: "restaking g \<Longrightarrow> restaking (\<lambda>ns. if length ns = 0 then ns else g ns)"
    unfolding restaking_def by (elim exE) (rule exI, auto)
  then show "restaking g \<Longrightarrow> restaking (\<lambda>ns. if c \<or> length ns = 0 then ns else g ns)"
    using restaking_id by (cases c) simp_all
  then show "restaking g \<Longrightarrow> restaking (\<lambda>ns. if c \<or> d \<or> length ns = 0 then ns else g ns)"
    using restaking_id E by (cases c; cases d) simp_all
qed

lemma restaking_option [restake]:
  "restaking f \<Longrightarrow> (\<And>y. restaking (\<lambda>ns. g ns y)) \<Longrightarrow> restaking (\<lambda>ns. case x of None \<Rightarrow> f ns | Some y \<Rightarrow> g ns y)"
  by (cases x) simp_all

lemma restaking_sum [restake]:
  "(\<And>e. restaking (\<lambda>ns. f ns e)) \<Longrightarrow> (\<And>y. restaking (\<lambda>ns. g ns y)) \<Longrightarrow>
   restaking (\<lambda>ns. case x of Inl e \<Rightarrow> f ns e | Inr y \<Rightarrow> g ns y)"
  by (cases x) simp_all

lemma restaking_prod [restake]:
  "(\<And>a b. restaking (\<lambda>ns. f ns a b)) \<Longrightarrow> restaking (\<lambda>ns. case x of (a, b) \<Rightarrow> f ns a b)"
  by (cases x) simp

lemma restaking_map [restake]:
  assumes "\<And>n. \<exists>v. g n = n\<lparr>rn_Stake := v\<rparr>"
  shows "restaking (map g)"
proof -
  have "\<exists>f. \<forall>n. g n = n\<lparr>rn_Stake := f n\<rparr>" using assms by (intro choice) blast
  then obtain f where "\<And>n. g n = n\<lparr>rn_Stake := f n\<rparr>" by blast
  then show ?thesis unfolding restaking_def by (intro exI [of _ f]) simp
qed

lemma same_stake: "\<exists>v. (n :: RelayNode) = n\<lparr>rn_Stake := v\<rparr>"
  by (rule exI [of _ "rn_Stake n"]) simp

section \<open>The signed registry\<close>

record stakeEntry =
  se_ID :: string
  se_Stake :: int

record SignedStakeRegistry =
  sr_EpochSec :: int
  sr_ExpiresAt :: int
  sr_Stakes :: "stakeEntry list"
  sr_Signature :: string

type_synonym stake_json = "int \<Rightarrow> int \<Rightarrow> stakeEntry list \<Rightarrow> bytes"

definition canonicalStakeBody :: "stake_json \<Rightarrow> int \<Rightarrow> int \<Rightarrow> stakeEntry list \<Rightarrow> bytes" where
  "canonicalStakeBody marshal epoch ex stakes =
     (let cp = map (\<lambda>s. s\<lparr>se_ID := trim_space (se_ID s)\<rparr>) stakes
      in marshal epoch ex (sort_key se_ID cp))"

definition verifyStakeRegistry ::
  "stake_json \<Rightarrow> (bytes \<Rightarrow> bytes \<Rightarrow> bytes \<Rightarrow> bool) \<Rightarrow> bytes \<Rightarrow> SignedStakeRegistry \<Rightarrow> instant \<Rightarrow> go_error option" where
  "verifyStakeRegistry marshal ed_verify pub reg now =
     (if unix now > sr_ExpiresAt reg then Some (Error ''stake registry expired'')
      else let body = canonicalStakeBody marshal (sr_EpochSec reg) (sr_ExpiresAt reg) (sr_Stakes reg) in
        case b64_decode (trim_space (sr_Signature reg)) of
          None \<Rightarrow> Some (Error ''illegal base64 data'')
        | Some sig \<Rightarrow> if \<not> ed_verify pub body sig then Some (Error ''stake registry verify failed'') else None)"

definition registry_index :: "stakeEntry list \<Rightarrow> (string, int) gomap" where
  "registry_index stakes =
     fold (\<lambda>s idx. let sid = trim_space (se_ID s) in if sid \<noteq> [] then mput sid (se_Stake s) idx else idx) stakes []"

definition ApplyRegistry ::
  "stake_json \<Rightarrow> (bytes \<Rightarrow> bytes \<Rightarrow> bytes \<Rightarrow> bool) \<Rightarrow> (string \<Rightarrow> bytes option) list \<Rightarrow> (bytes \<Rightarrow> SignedStakeRegistry option) \<Rightarrow>
   http \<Rightarrow> instant \<Rightarrow> string \<Rightarrow> string \<Rightarrow> RelayNode list \<Rightarrow> RelayNode list" where
  "ApplyRegistry marshal ed_verify encodings decode http now url pubB64 nodes =
     (let url = trim_space url; pubB64 = trim_space pubB64 in
      if url = [] \<or> pubB64 = [] \<or> length nodes = 0 then nodes
      else case DecodeEd25519PublicKey encodings pubB64 of
        Inl _ \<Rightarrow> nodes
      | Inr pub \<Rightarrow>
        (case http url of
           Inl _ \<Rightarrow> nodes
         | Inr (status, body) \<Rightarrow>
           if status \<noteq> 200 then nodes
           else case decode (take 2097152 body) of
             None \<Rightarrow> nodes
           | Some reg \<Rightarrow>
             if verifyStakeRegistry marshal ed_verify pub reg now \<noteq> None then nodes
             else let idx = registry_index (sr_Stakes reg)
               in map (\<lambda>n. case mget idx (rn_ID n) of
                    Some v \<Rightarrow> if v \<ge> 0 then n\<lparr>rn_Stake := v\<rparr> else n
                  | None \<Rightarrow> n) nodes))"

section \<open>Reputation and bonus\<close>

text \<open>\<open>read_file\<close> is \<^verbatim>\<open>os.ReadFile\<close>, \<open>None\<close> an error; sums are those of 64-bit integers.\<close>

type_synonym file_sys = "string \<Rightarrow> bytes option"

definition add_scores :: "(string, int) gomap \<Rightarrow> RelayNode list \<Rightarrow> RelayNode list" where
  "add_scores scores nodes =
     map (\<lambda>n. case mget scores (trim_space (rn_ID n)) of
            Some v \<Rightarrow> if v \<ge> 0 then n\<lparr>rn_Stake := wrap64 (rn_Stake n + v)\<rparr> else n
          | None \<Rightarrow> n) nodes"

definition MergeReputation ::
  "(bytes \<Rightarrow> (string, int) gomap option) \<Rightarrow> file_sys \<Rightarrow> string \<Rightarrow> RelayNode list \<Rightarrow> RelayNode list" where
  "MergeReputation decode read_file path nodes =
     (let path = trim_space path in
      if path = [] \<or> length nodes = 0 then nodes
      else case read_file path of
        None \<Rightarrow> nodes
      | Some b \<Rightarrow>
        if length b = 0 then nodes
        else case decode b of
          None \<Rightarrow> nodes
        | Some scores \<Rightarrow> if length scores = 0 then nodes else add_scores scores nodes)"

definition MergeHTTPBonus ::
  "(bytes \<Rightarrow> (string, int) gomap option) \<Rightarrow> http \<Rightarrow> string \<Rightarrow> RelayNode list \<Rightarrow> RelayNode list" where
  "MergeHTTPBonus decode http url nodes =
     (let url = trim_space url in
      if url = [] \<or> length nodes = 0 then nodes
      else case http url of
        Inl _ \<Rightarrow> nodes
      | Inr (status, body) \<Rightarrow>
        if status \<noteq> 200 then nodes
        else case decode (take 2097152 body) of
          None \<Rightarrow> nodes
        | Some bonuses \<Rightarrow> if length bonuses = 0 then nodes else add_scores bonuses nodes)"

section \<open>Merkle-proved overrides\<close>

record merkleEntry =
  me_Stake :: int
  me_Proof :: "string list"

record merkleFile =
  mf_Root :: string
  mf_Nodes :: "(string, merkleEntry) gomap"

type_synonym sha = "bytes \<Rightarrow> bytes"

definition leafHash :: "sha \<Rightarrow> string \<Rightarrow> int \<Rightarrow> bytes" where
  "leafHash sha256 nodeID stake =
     sha256 ([0] @ str_bytes nodeID @ be_put 4 (word_of_int stake :: u32))"

fun bytes_le :: "bytes \<Rightarrow> bytes \<Rightarrow> bool" where
  "bytes_le [] b = True"
| "bytes_le (x # a) [] = False"
| "bytes_le (x # a) (y # b) = (x < y \<or> x = y \<and> bytes_le a b)"

definition parentHash :: "sha \<Rightarrow> bytes \<Rightarrow> bytes \<Rightarrow> bytes" where
  "parentHash sha256 a b = (if bytes_le a b then sha256 (a @ b) else sha256 (b @ a))"

fun verify_climb :: "sha \<Rightarrow> bytes \<Rightarrow> bytes \<Rightarrow> string list \<Rightarrow> bool" where
  "verify_climb sha256 root cur [] = (cur = root)"
| "verify_climb sha256 root cur (ph # phs) =
     (let ph = trim_space ph in
      if ph = [] then False
      else case hex_decode ph of
        None \<Rightarrow> False
      | Some sib \<Rightarrow> if length sib \<noteq> 32 then False
                    else verify_climb sha256 root (parentHash sha256 cur sib) phs)"

definition verifyToRoot :: "sha \<Rightarrow> bytes \<Rightarrow> bytes \<Rightarrow> string list \<Rightarrow> bool" where
  "verifyToRoot sha256 root leaf proofHex = verify_climb sha256 root leaf proofHex"

definition decodeHex32 :: "string \<Rightarrow> bytes option" where
  "decodeHex32 s =
     hex_decode (trim_prefix (trim_prefix (trim_space s) ''0x'') ''0X'')"

text \<open>\<open>decode_root\<close> is the JSON object with the field \<^verbatim>\<open>root\<close>; \<open>Inr []\<close> is the nil root with the nil error.\<close>

definition FetchMerkleRootFromURL ::
  "(bytes \<Rightarrow> string option) \<Rightarrow> http \<Rightarrow> string \<Rightarrow> go_error + bytes" where
  "FetchMerkleRootFromURL decode_root http url =
     (let url = trim_space url in
      if url = [] then Inr []
      else ebind (http url) (\<lambda>(status, body).
        if status < 200 \<or> status \<ge> 300 then Inl (Error (''merkle root http status '' @ itoa status))
        else case decode_root (take 1048576 body) of
          None \<Rightarrow> Inl (Error ''json'')
        | Some r \<Rightarrow>
          (case decodeHex32 r of
             None \<Rightarrow> Inl (Error ''encoding/hex'')
           | Some root \<Rightarrow> if length root \<noteq> 32 then Inr [] else Inr root)))"

definition mergeVerifiedOverrides :: "sha \<Rightarrow> merkleFile \<Rightarrow> bytes \<Rightarrow> RelayNode list \<Rightarrow> RelayNode list" where
  "mergeVerifiedOverrides sha256 mf root nodes =
     map (\<lambda>n. let nid = trim_space (rn_ID n) in
            case mget (mf_Nodes mf) nid of
              None \<Rightarrow> n
            | Some ent \<Rightarrow>
              if me_Stake ent \<le> 0 then n
              else let lh = leafHash sha256 nid (me_Stake ent) in
                if \<not> verifyToRoot sha256 root lh (me_Proof ent) then n
                else n\<lparr>rn_Stake := me_Stake ent\<rparr>) nodes"

definition merkle_root ::
  "(bytes \<Rightarrow> string option) \<Rightarrow> http \<Rightarrow> string \<Rightarrow> merkleFile \<Rightarrow> bytes option" where
  "merkle_root decode_root http merkleRootURL mf =
     (let u = trim_space merkleRootURL;
          root = (if u \<noteq> [] then case FetchMerkleRootFromURL decode_root http u of
                    Inl _ \<Rightarrow> [] | Inr r \<Rightarrow> if length r = 32 then r else []
                  else [])
      in if length root \<noteq> 32
         then case decodeHex32 (mf_Root mf) of
                None \<Rightarrow> None
              | Some rf \<Rightarrow> if length rf \<noteq> 32 then None else Some rf
         else Some root)"

definition MergeMerkleFromSources ::
  "sha \<Rightarrow> (bytes \<Rightarrow> string option) \<Rightarrow> (bytes \<Rightarrow> merkleFile option) \<Rightarrow> http \<Rightarrow> file_sys \<Rightarrow> string \<Rightarrow> string \<Rightarrow>
   RelayNode list \<Rightarrow> RelayNode list" where
  "MergeMerkleFromSources sha256 decode_root decode http read_file path merkleRootURL nodes =
     (let path = trim_space path in
      if path = [] \<or> length nodes = 0 then nodes
      else case read_file path of
        None \<Rightarrow> nodes
      | Some b \<Rightarrow>
        if length b > 2097152 then nodes
        else case decode b of
          None \<Rightarrow> nodes
        | Some mf \<Rightarrow>
          if length (mf_Nodes mf) = 0 then nodes
          else case merkle_root decode_root http merkleRootURL mf of
            None \<Rightarrow> nodes
          | Some root \<Rightarrow> mergeVerifiedOverrides sha256 mf root nodes)"

definition MergeMerkle ::
  "sha \<Rightarrow> (bytes \<Rightarrow> string option) \<Rightarrow> (bytes \<Rightarrow> merkleFile option) \<Rightarrow> http \<Rightarrow> file_sys \<Rightarrow> string \<Rightarrow>
   RelayNode list \<Rightarrow> RelayNode list" where
  "MergeMerkle sha256 decode_root decode http read_file path nodes =
     MergeMerkleFromSources sha256 decode_root decode http read_file path [] nodes"

section \<open>The economy\<close>

record Economy =
  RegistryURL :: string
  RegistryPubKey :: string
  ReputationFile :: string
  StakeBonusHTTPURL :: string
  StakeMerkleFile :: string
  StakeMerkleRootURL :: string

text \<open>What the sources call outside the package.\<close>

record stake_env =
  ev_marshal :: stake_json
  ev_verify :: "bytes \<Rightarrow> bytes \<Rightarrow> bytes \<Rightarrow> bool"
  ev_encodings :: "(string \<Rightarrow> bytes option) list"
  ev_registry :: "bytes \<Rightarrow> SignedStakeRegistry option"
  ev_scores :: "bytes \<Rightarrow> (string, int) gomap option"
  ev_root :: "bytes \<Rightarrow> string option"
  ev_merkle :: "bytes \<Rightarrow> merkleFile option"
  ev_sha :: sha
  ev_http :: http
  ev_files :: file_sys

definition MergeStake :: "stake_env \<Rightarrow> instant \<Rightarrow> Economy \<Rightarrow> RelayNode list \<Rightarrow> RelayNode list" where
  "MergeStake ev now e nodes =
     (let out = ApplyRegistry (ev_marshal ev) (ev_verify ev) (ev_encodings ev) (ev_registry ev) (ev_http ev) now
                  (RegistryURL e) (RegistryPubKey e) nodes;
          out = MergeReputation (ev_scores ev) (ev_files ev) (ReputationFile e) out;
          out = MergeHTTPBonus (ev_scores ev) (ev_http ev) (StakeBonusHTTPURL e) out
      in MergeMerkleFromSources (ev_sha ev) (ev_root ev) (ev_merkle ev) (ev_http ev) (ev_files ev)
           (StakeMerkleFile e) (StakeMerkleRootURL e) out)"

section \<open>Every source restakes and does nothing else\<close>

lemma restaking_add_scores [restake]: "restaking (add_scores scores)"
  unfolding add_scores_def using same_stake by (intro restaking_map) (auto split: option.split)

lemma restaking_overrides [restake]: "restaking (mergeVerifiedOverrides sha256 mf root)"
  unfolding mergeVerifiedOverrides_def Let_def
  using same_stake by (intro restaking_map) (auto split: option.split)

lemma restaking_registry_index:
  "restaking (map (\<lambda>n. case mget idx (rn_ID n) of
     Some v \<Rightarrow> if v \<ge> 0 then n\<lparr>rn_Stake := v\<rparr> else n | None \<Rightarrow> n))"
  using same_stake by (intro restaking_map) (auto split: option.split)

interpretation registry: stake_source "ApplyRegistry marshal ed_verify encodings decode http now url pubB64"
  for marshal ed_verify encodings decode http now url pubB64
  by unfold_locales (unfold ApplyRegistry_def Let_def, intro restake restaking_registry_index)

interpretation reputation: stake_source "MergeReputation decode read_file path" for decode read_file path
  by unfold_locales (unfold MergeReputation_def Let_def, intro restake)

interpretation bonus: stake_source "MergeHTTPBonus decode http url" for decode http url
  by unfold_locales (unfold MergeHTTPBonus_def Let_def, intro restake)

interpretation merkle: stake_source "MergeMerkleFromSources sha256 decode_root decode http read_file path rootURL"
  for sha256 decode_root decode http read_file path rootURL
  by unfold_locales (unfold MergeMerkleFromSources_def Let_def, intro restake)

interpretation reg_rep: stake_pipeline
  "ApplyRegistry marshal ed_verify encodings decode http now url pubB64" "MergeReputation decode_scores read_file path"
  for marshal ed_verify encodings decode http now url pubB64 decode_scores read_file path ..

interpretation reg_rep_bonus: stake_pipeline
  "\<lambda>ns. MergeReputation decode_scores read_file path (ApplyRegistry marshal ed_verify encodings decode http now url pubB64 ns)"
  "MergeHTTPBonus decode_scores http burl"
  for marshal ed_verify encodings decode http now url pubB64 decode_scores read_file path burl
  by (intro stake_pipeline.intro reg_rep.both.stake_source_axioms bonus.stake_source_axioms)

interpretation economy: stake_pipeline
  "\<lambda>ns. MergeHTTPBonus decode_scores http burl (MergeReputation decode_scores read_file path
     (ApplyRegistry marshal ed_verify encodings decode http now url pubB64 ns))"
  "MergeMerkleFromSources sha256 decode_root decode_merkle http read_file mpath rootURL"
  for marshal ed_verify encodings decode http now url pubB64 decode_scores read_file path burl
    sha256 decode_root decode_merkle mpath rootURL
  by (intro stake_pipeline.intro reg_rep_bonus.both.stake_source_axioms merkle.stake_source_axioms)

section \<open>Merkle trees\<close>

text \<open>The tree an issuer builds, its root, and the proof it gives to each leaf.\<close>

datatype mtree = MLeaf string int | MNode mtree mtree

fun mroot :: "sha \<Rightarrow> mtree \<Rightarrow> bytes" where
  "mroot sha256 (MLeaf i s) = leafHash sha256 i s"
| "mroot sha256 (MNode l r) = parentHash sha256 (mroot sha256 l) (mroot sha256 r)"

fun mleaves :: "mtree \<Rightarrow> (string \<times> int) list" where
  "mleaves (MLeaf i s) = [(i, s)]"
| "mleaves (MNode l r) = mleaves l @ mleaves r"

fun mproofs :: "sha \<Rightarrow> mtree \<Rightarrow> (string \<times> int \<times> bytes list) list" where
  "mproofs sha256 (MLeaf i s) = [(i, s, [])]"
| "mproofs sha256 (MNode l r) =
     map (\<lambda>(i, s, p). (i, s, p @ [mroot sha256 r])) (mproofs sha256 l) @
     map (\<lambda>(i, s, p). (i, s, p @ [mroot sha256 l])) (mproofs sha256 r)"

text \<open>What is hashed: a leaf's bytes, and the ordered pair of two nodes.\<close>

definition leaf_in :: "string \<Rightarrow> int \<Rightarrow> bytes" where
  "leaf_in i s = [0] @ str_bytes i @ be_put 4 (word_of_int s :: u32)"

definition pair_in :: "bytes \<Rightarrow> bytes \<Rightarrow> bytes" where
  "pair_in a b = (if bytes_le a b then a @ b else b @ a)"

lemma leafHash_in: "leafHash sha256 i s = sha256 (leaf_in i s)"
  by (simp only: leafHash_def leaf_in_def)

lemma parentHash_in: "parentHash sha256 a b = sha256 (pair_in a b)"
  by (simp add: parentHash_def pair_in_def)

fun tree_inputs :: "sha \<Rightarrow> mtree \<Rightarrow> bytes set" where
  "tree_inputs sha256 (MLeaf i s) = {leaf_in i s}"
| "tree_inputs sha256 (MNode l r) =
     insert (pair_in (mroot sha256 l) (mroot sha256 r)) (tree_inputs sha256 l \<union> tree_inputs sha256 r)"

fun climb_inputs :: "sha \<Rightarrow> bytes \<Rightarrow> bytes list \<Rightarrow> bytes set" where
  "climb_inputs sha256 cur [] = {}"
| "climb_inputs sha256 cur (sib # sibs) =
     insert (pair_in cur sib) (climb_inputs sha256 (parentHash sha256 cur sib) sibs)"

lemma bytes_le_total: "bytes_le a b \<or> bytes_le b a"
  by (induction a b rule: bytes_le.induct) auto

lemma bytes_le_antisym: "bytes_le a b \<Longrightarrow> bytes_le b a \<Longrightarrow> length a = length b \<Longrightarrow> a = b"
  by (induction a b rule: bytes_le.induct) auto

lemma pair_in_comm: "length a = length b \<Longrightarrow> pair_in a b = pair_in b a"
  using bytes_le_total [of a b] bytes_le_antisym [of a b] by (auto simp: pair_in_def)

lemma length_pair_in [simp]: "length (pair_in a b) = length a + length b"
  by (simp add: pair_in_def)

lemma length_leaf_in [simp]: "length (leaf_in i s) = length i + 5"
  by (simp add: leaf_in_def del: be_put.simps)

lemma pair_in_eq:
  assumes "pair_in a b = pair_in c d" and "length a = 32" "length b = 32" "length c = 32" "length d = 32"
  shows "a = c \<or> a = d"
  using assms by (auto simp: pair_in_def split: if_splits)

lemma leaf_in_eq:
  assumes "leaf_in i s = leaf_in j t"
  shows "i = j" and "(word_of_int s :: u32) = word_of_int t"
proof -
  have "length i = length j" using arg_cong [OF assms, of length] by simp
  then have "str_bytes i = str_bytes j" "be_put 4 (word_of_int s :: u32) = be_put 4 (word_of_int t :: u32)"
    using assms by (simp_all add: leaf_in_def del: be_put.simps)
  then show "i = j" "(word_of_int s :: u32) = word_of_int t"
    by (metis str_bytes_inj, metis be_get_be_put32)
qed

text \<open>A verified proof is a climb along decoded siblings.\<close>

lemma verify_climb_iff:
  "verify_climb sha256 root cur phs \<longleftrightarrow>
   (\<exists>sibs. map (\<lambda>ph. hex_decode (trim_space ph)) phs = map Some sibs \<and> (\<forall>s \<in> set sibs. length s = 32) \<and>
      foldl (parentHash sha256) cur sibs = root)"
proof (induction phs arbitrary: cur)
  case (Cons ph phs)
  show ?case
  proof (cases "hex_decode (trim_space ph)")
    case None
    then show ?thesis by (auto simp: Let_def)
  next
    case (Some sib)
    show ?thesis
    proof (cases "length sib = 32")
      case False
      then show ?thesis using Some by (auto simp: Let_def Cons_eq_map_conv)
    next
      case True
      then have "trim_space ph \<noteq> []" using Some by auto
      then show ?thesis using Some True Cons.IH [of "parentHash sha256 cur sib"]
        by (auto simp: Let_def Cons_eq_map_conv)
    qed
  qed
qed auto

lemma mproofs_climb:
  assumes "\<And>x. length (sha256 x) = 32"
  shows "(i, s, p) \<in> set (mproofs sha256 t) \<Longrightarrow>
    foldl (parentHash sha256) (leafHash sha256 i s) p = mroot sha256 t \<and> (\<forall>x \<in> set p. length x = 32)"
proof (induction t arbitrary: i s p)
  case (MNode l r)
  have len: "length (mroot sha256 t) = 32" for t by (cases t) (simp_all add: leafHash_in parentHash_in assms)
  show ?case using MNode pair_in_comm [of "mroot sha256 l" "mroot sha256 r"]
    by (auto simp: len parentHash_in)
qed simp

lemma climb_inputs_snoc:
  "climb_inputs sha256 c (sibs @ [x]) = insert (pair_in (foldl (parentHash sha256) c sibs) x) (climb_inputs sha256 c sibs)"
  by (induction sibs arbitrary: c) auto

lemma climb_sound:
  assumes L: "\<And>x. length (sha256 x) = 32" and i: "length i \<noteq> 59"
  shows "inj_on sha256 (tree_inputs sha256 t \<union> insert (leaf_in i s) (climb_inputs sha256 (leafHash sha256 i s) sibs)) \<Longrightarrow>
    \<forall>(j, _) \<in> set (mleaves t). length j \<noteq> 59 \<Longrightarrow> \<forall>x \<in> set sibs. length x = 32 \<Longrightarrow>
    foldl (parentHash sha256) (leafHash sha256 i s) sibs = mroot sha256 t \<Longrightarrow>
    \<exists>s'. (i, s') \<in> set (mleaves t) \<and> (word_of_int s :: u32) = word_of_int s'"
proof (induction t arbitrary: sibs)
  case (MLeaf j s')
  have len: "length (foldl (parentHash sha256) (leafHash sha256 i s) xs) = 32" for xs
    by (cases xs rule: rev_cases) (simp_all add: leafHash_in parentHash_in L)
  show ?case
  proof (cases sibs rule: rev_cases)
    case Nil
    have "sha256 (leaf_in i s) = sha256 (leaf_in j s')" using MLeaf.prems(4) Nil by (simp add: leafHash_in)
    then have "leaf_in i s = leaf_in j s'" by (rule inj_onD [OF MLeaf.prems(1)]) simp_all
    from leaf_in_eq [OF this] show ?thesis by simp
  next
    case (snoc xs x)
    let ?c = "foldl (parentHash sha256) (leafHash sha256 i s) xs"
    have "sha256 (pair_in ?c x) = sha256 (leaf_in j s')"
      using MLeaf.prems(4) unfolding snoc by (simp add: parentHash_in [of sha256 ?c x] leafHash_in [of sha256 j s'])
    then have "pair_in ?c x = leaf_in j s'"
      by (rule inj_onD [OF MLeaf.prems(1) [unfolded snoc climb_inputs_snoc]]) simp_all
    then have "length (pair_in ?c x) = length (leaf_in j s')" by simp
    then show ?thesis using MLeaf.prems(2,3) len by (simp add: snoc)
  qed
next
  case (MNode l r)
  have len: "length (foldl (parentHash sha256) (leafHash sha256 i s) xs) = 32" for xs
    by (cases xs rule: rev_cases) (simp_all add: leafHash_in parentHash_in L)
  have lr: "length (mroot sha256 t) = 32" for t by (cases t) (simp_all add: leafHash_in parentHash_in L)
  show ?case
  proof (cases sibs rule: rev_cases)
    case Nil
    then have "sha256 (leaf_in i s) = sha256 (pair_in (mroot sha256 l) (mroot sha256 r))"
      using MNode.prems(4) by (simp add: leafHash_in [of sha256 i] parentHash_in)
    then have "leaf_in i s = pair_in (mroot sha256 l) (mroot sha256 r)"
      by (rule inj_onD [OF MNode.prems(1)]) simp_all
    then have "length (leaf_in i s) = length (pair_in (mroot sha256 l) (mroot sha256 r))" by simp
    then show ?thesis using i by (simp add: lr)
  next
    case (snoc xs x)
    let ?c = "foldl (parentHash sha256) (leafHash sha256 i s) xs"
    have "sha256 (pair_in ?c x) = sha256 (pair_in (mroot sha256 l) (mroot sha256 r))"
      using MNode.prems(4) unfolding snoc
      by (simp add: parentHash_in [of sha256 ?c x] parentHash_in [of sha256 "mroot sha256 l"])
    then have "pair_in ?c x = pair_in (mroot sha256 l) (mroot sha256 r)"
      by (rule inj_onD [OF MNode.prems(1) [unfolded snoc climb_inputs_snoc]]) simp_all
    then have "?c = mroot sha256 l \<or> ?c = mroot sha256 r"
      using pair_in_eq len lr MNode.prems(3) snoc by simp
    then show ?thesis
    proof
      assume c: "?c = mroot sha256 l"
      have "inj_on sha256 (tree_inputs sha256 l \<union> insert (leaf_in i s) (climb_inputs sha256 (leafHash sha256 i s) xs))"
        by (rule inj_on_subset [OF MNode.prems(1)]) (auto simp: snoc climb_inputs_snoc)
      then show ?thesis using MNode.IH(1) [OF _ _ _ c] MNode.prems(2,3) snoc by auto
    next
      assume c: "?c = mroot sha256 r"
      have "inj_on sha256 (tree_inputs sha256 r \<union> insert (leaf_in i s) (climb_inputs sha256 (leafHash sha256 i s) xs))"
        by (rule inj_on_subset [OF MNode.prems(1)]) (auto simp: snoc climb_inputs_snoc)
      then show ?thesis using MNode.IH(2) [OF _ _ _ c] MNode.prems(2,3) snoc by auto
    qed
  qed
qed

section \<open>Properties\<close>

definition decoded :: "string list \<Rightarrow> bytes list" where
  "decoded phs = map (\<lambda>ph. the (hex_decode (trim_space ph))) phs"

text \<open>All that is hashed when the tree is built and when the entries of the file are checked.\<close>

definition merkle_inputs :: "sha \<Rightarrow> mtree \<Rightarrow> merkleFile \<Rightarrow> bytes set" where
  "merkle_inputs sha256 t mf = tree_inputs sha256 t \<union>
     (\<Union>(i, e) \<in> set (mf_Nodes mf). insert (leaf_in i (me_Stake e))
        (climb_inputs sha256 (leafHash sha256 i (me_Stake e)) (decoded (me_Proof e))))"

text \<open>
  C12. Merkle overrides are sound: with the root of an issuer's tree, and no collision among the inputs
  hashed, a relay keeps its stake or gets the stake of an entry whose identifier is a leaf of the
  tree, with a stake equal to the leaf's in its low 32 bits. (Identifiers of 59 bytes are left out: their
  leaves are as long as an inner node.)
\<close>

theorem merkle_overrides_sound:
  assumes "\<And>x. length (sha256 x) = 32" and "inj_on sha256 (merkle_inputs sha256 t mf)"
    and "\<forall>(i, _) \<in> set (mleaves t). length i \<noteq> 59" and "\<forall>(i, _) \<in> set (mf_Nodes mf). length i \<noteq> 59"
  shows "list_all2 (\<lambda>n n'. n' = n \<or>
      (\<exists>e s. mget (mf_Nodes mf) (trim_space (rn_ID n)) = Some e \<and> n' = n\<lparr>rn_Stake := me_Stake e\<rparr> \<and>
         (trim_space (rn_ID n), s) \<in> set (mleaves t) \<and> (word_of_int (me_Stake e) :: u32) = word_of_int s))
    nodes (mergeVerifiedOverrides sha256 mf (mroot sha256 t) nodes)"
proof -
  have "\<exists>s. (i, s) \<in> set (mleaves t) \<and> (word_of_int (me_Stake e) :: u32) = word_of_int s"
    if e: "mget (mf_Nodes mf) i = Some e"
      and v: "verifyToRoot sha256 (mroot sha256 t) (leafHash sha256 i (me_Stake e)) (me_Proof e)" for i e
  proof -
    have ie: "(i, e) \<in> set (mf_Nodes mf)" by (rule mget_Some_in [OF e])
    obtain sibs where s: "map (\<lambda>ph. hex_decode (trim_space ph)) (me_Proof e) = map Some sibs"
        "\<forall>x \<in> set sibs. length x = 32" "foldl (parentHash sha256) (leafHash sha256 i (me_Stake e)) sibs = mroot sha256 t"
      using v unfolding verifyToRoot_def verify_climb_iff by blast
    have "map the (map (\<lambda>ph. hex_decode (trim_space ph)) (me_Proof e)) = sibs" unfolding s(1) by (simp add: comp_def)
    then have d: "decoded (me_Proof e) = sibs" by (simp add: decoded_def comp_def)
    have "inj_on sha256 (tree_inputs sha256 t \<union> insert (leaf_in i (me_Stake e))
        (climb_inputs sha256 (leafHash sha256 i (me_Stake e)) sibs))"
      by (rule inj_on_subset [OF assms(2)]) (use ie d in \<open>fastforce simp: merkle_inputs_def\<close>)
    moreover have "length i \<noteq> 59" using assms(4) ie by auto
    ultimately show ?thesis using climb_sound [OF assms(1) _ _ assms(3) s(2,3)] by blast
  qed
  then show ?thesis
    unfolding mergeVerifiedOverrides_def list_all2_map2
    by (intro list.rel_refl_strong) (auto simp: Let_def split: option.split)
qed

definition demo_merkle_sha :: sha where
  "demo_merkle_sha x = take 32 (of_nat (length x) # x @ replicate 32 0)"

definition demo_tree :: mtree where
  "demo_tree = MNode (MLeaf ''a'' 10) (MLeaf ''b'' 20)"

definition demo_file :: merkleFile where
  "demo_file = \<lparr>mf_Root = [], mf_Nodes = [(''a'', \<lparr>me_Stake = 10, me_Proof = [hex_encode (leafHash demo_merkle_sha ''b'' 20)]\<rparr>)]\<rparr>"

theorem merkle_overrides_sound_witness:
  "list_all2 (\<lambda>n n'. n' = n \<or>
      (\<exists>e s. mget (mf_Nodes demo_file) (trim_space (rn_ID n)) = Some e \<and> n' = n\<lparr>rn_Stake := me_Stake e\<rparr> \<and>
         (trim_space (rn_ID n), s) \<in> set (mleaves demo_tree) \<and> (word_of_int (me_Stake e) :: u32) = word_of_int s))
    [demo_node ''a'' 0] (mergeVerifiedOverrides demo_merkle_sha demo_file (mroot demo_merkle_sha demo_tree) [demo_node ''a'' 0])"
proof (rule merkle_overrides_sound)
  show "length (demo_merkle_sha x) = 32" for x by (simp add: demo_merkle_sha_def)
  have "merkle_inputs demo_merkle_sha demo_tree demo_file =
      {leaf_in ''a'' 10, leaf_in ''b'' 20,
       pair_in (leafHash demo_merkle_sha ''a'' 10) (leafHash demo_merkle_sha ''b'' 20)}"
    by (auto simp: merkle_inputs_def demo_tree_def demo_file_def decoded_def trim_space_plain [OF plain_hex_encode])
  moreover have "distinct (map demo_merkle_sha [leaf_in ''a'' 10, leaf_in ''b'' 20,
       pair_in (leafHash demo_merkle_sha ''a'' 10) (leafHash demo_merkle_sha ''b'' 20)])"
    by code_simp
  ultimately show "inj_on demo_merkle_sha (merkle_inputs demo_merkle_sha demo_tree demo_file)"
    by (simp add: inj_on_def) metis
qed (simp_all add: demo_tree_def demo_file_def)

text \<open>
  Merkle overrides are complete: an entry with a positive stake and the proof of its leaf gives its
  relay that stake.
\<close>

theorem merkle_overrides_complete:
  assumes "\<And>x. length (sha256 x) = 32" and "(trim_space (rn_ID n), s, p) \<in> set (mproofs sha256 t)" and "0 < s"
    and "mget (mf_Nodes mf) (trim_space (rn_ID n)) = Some \<lparr>me_Stake = s, me_Proof = map hex_encode p\<rparr>"
  shows "mergeVerifiedOverrides sha256 mf (mroot sha256 t) [n] = [n\<lparr>rn_Stake := s\<rparr>]"
proof -
  have "verifyToRoot sha256 (mroot sha256 t) (leafHash sha256 (trim_space (rn_ID n)) s) (map hex_encode p)"
    unfolding verifyToRoot_def verify_climb_iff
    by (rule exI [of _ p]) (use mproofs_climb [OF assms(1,2)] in \<open>simp add: trim_space_plain [OF plain_hex_encode]\<close>)
  then show ?thesis using assms(3,4) by (simp add: mergeVerifiedOverrides_def Let_def)
qed

theorem merkle_overrides_complete_witness:
  "mergeVerifiedOverrides demo_merkle_sha demo_file (mroot demo_merkle_sha demo_tree) [demo_node ''a'' 0] =
     [(demo_node ''a'' 0)\<lparr>rn_Stake := 10\<rparr>]"
proof (rule merkle_overrides_complete)
  show "length (demo_merkle_sha x) = 32" for x by (simp add: demo_merkle_sha_def)
  show "(trim_space (rn_ID (demo_node ''a'' 0)), 10, [leafHash demo_merkle_sha ''b'' 20]) \<in> set (mproofs demo_merkle_sha demo_tree)"
    by code_simp
  show "mget (mf_Nodes demo_file) (trim_space (rn_ID (demo_node ''a'' 0))) =
      Some \<lparr>me_Stake = 10, me_Proof = map hex_encode [leafHash demo_merkle_sha ''b'' 20]\<rparr>"
    by code_simp
qed simp

text \<open>
  The stake is cut to 32 bits before it is hashed: a file that claims \<open>2 ^ 32\<close> more than the leaf is
  accepted with the leaf's proof, and the relay gets the larger stake.
\<close>

theorem merkle_stake_wraps:
  "mergeVerifiedOverrides demo_merkle_sha
     \<lparr>mf_Root = [], mf_Nodes = [(''a'', \<lparr>me_Stake = 10 + 2 ^ 32, me_Proof = [hex_encode (leafHash demo_merkle_sha ''b'' 20)]\<rparr>)]\<rparr>
     (mroot demo_merkle_sha demo_tree) [demo_node ''a'' 0] = [(demo_node ''a'' 0)\<lparr>rn_Stake := 10 + 2 ^ 32\<rparr>]"
  by code_simp

text \<open>
  Whatever the four sources answer, the economy changes no relay but in its stake, keeps their order,
  and gives a relay a stake that does not depend on the other relays in the list.
\<close>

theorem economy_changes_stake_only:
  "map (\<lambda>n. n\<lparr>rn_Stake := 0\<rparr>) (MergeStake ev now e ns) = map (\<lambda>n. n\<lparr>rn_Stake := 0\<rparr>) ns \<and>
   MergeStake ev now e (ns @ ms) = MergeStake ev now e ns @ MergeStake ev now e ms"
  unfolding MergeStake_def Let_def by (intro conjI economy.both.keeps_rest economy.both.src_append)

end
