(* ===== verification/MeshFeed.thy ===== *)
theory MeshFeed
  imports Cluster DhtRpc Stake
begin

text \<open>
  How relays come into the routing table of a session: the filters every source passes, the signed bootstrap list
  (\<^verbatim>\<open>internal/vpn/relay_bootstrap.go\<close>), the gossip rounds (\<^verbatim>\<open>gossip_mesh.go\<close>), the seeds of the hash table
  (\<^verbatim>\<open>dht_seed_discovery.go\<close>) and its rounds of queries (\<^verbatim>\<open>dht_rpc.go\<close>). The table is that of theory Dht; tickers become lists of rounds,
  HTTP and the answers of other nodes are arguments. Logging and telemetry are left out.
\<close>

section \<open>The filters\<close>

text \<open>What the filters call: the stake sources, the order in which the look-ups of countries end, the resolver.\<close>

record feed_env =
  fd_stake :: stake_env
  fd_sched :: "RelayNode list \<Rightarrow> RelayNode list"
  fd_resolve :: "string \<Rightarrow> go_error + string"
  fd_order :: "(string, relayEntry) gomap \<Rightarrow> (string, relayEntry) gomap"
  fd_idx :: "(string, RelayNode) gomap \<Rightarrow> (string, RelayNode) gomap"
  fd_sha :: "bytes \<Rightarrow> bytes"
  fd_marshal :: bootstrap_json
  fd_parse :: "string \<Rightarrow> go_error + SignedBootstrap"
  fd_verify :: "bytes \<Rightarrow> bytes \<Rightarrow> bytes \<Rightarrow> bool"
  fd_encodings :: "(string \<Rightarrow> bytes option) list"
  fd_http :: http
  fd_gossip_env :: "bytes \<Rightarrow> go_error + RelayNode list"
  fd_gossip_flat :: "bytes \<Rightarrow> go_error + RelayNode list"
  fd_find_env :: "bytes \<Rightarrow> go_error + RelayNode list"

definition economy_of :: "RelayOptions \<Rightarrow> Economy" where
  "economy_of r =
     \<lparr>RegistryURL = ro_StakeRegistryURL r, RegistryPubKey = ro_StakeRegistryPubKey r, ReputationFile = ro_StakeReputationFile r,
      StakeBonusHTTPURL = ro_StakeBonusHTTPURL r, StakeMerkleFile = ro_StakeMerkleFile r, StakeMerkleRootURL = ro_StakeMerkleRootURL r\<rparr>"

definition applyRelayProductFilters :: "feed_env \<Rightarrow> instant \<Rightarrow> RelayNode list \<Rightarrow> RelayOptions option \<Rightarrow> RelayNode list" where
  "applyRelayProductFilters fd now nodes relay =
     (case relay of
        None \<Rightarrow> nodes
      | Some r \<Rightarrow>
        let out = FilterRelayNodesByClass nodes (ro_AllowedClasses r);
            out = MergeStake (fd_stake fd) now (economy_of r) out;
            out = FilterRelayNodesByStake out (ro_StakeMin r)
        in FilterRelayNodesByGeo (fd_sched fd) out (ro_GeoAllowCountries r) (ro_GeoDenyCountries r) (fd_resolve fd))"

section \<open>The bootstrap list\<close>

record boot_state =
  bs_cur :: "SignedBootstrap option"
  bs_lastDig :: string
  bs_tab :: Table

definition applyRaw :: "feed_env \<Rightarrow> bytes \<Rightarrow> RelayOptions \<Rightarrow> instant \<Rightarrow> string \<Rightarrow> boot_state \<Rightarrow> ((go_error + string) \<times> boot_state) option" where
  "applyRaw fd pub relay now raw s =
     (case ParseSignedBootstrapJSON (fd_parse fd) raw of
        Inl e \<Rightarrow> Some (Inl e, s)
      | Inr b \<Rightarrow>
        (case bootstrap_Verify (fd_marshal fd) (fd_verify fd) b pub now of
           Some e \<Rightarrow> Some (Inl e, s)
         | None \<Rightarrow>
           let view = applyRelayProductFilters fd now (sb_Nodes b) (Some relay) in
           Option.bind (Merge (fd_order fd) (fd_sha fd) view (bs_tab s)) (\<lambda>tab.
             Some (Inr (RelayIndexDigest (fd_marshal fd) (fd_sha fd) view), s\<lparr>bs_tab := tab, bs_cur := Some b\<rparr>))))"

definition fetchRaw :: "feed_env \<Rightarrow> string \<Rightarrow> string \<Rightarrow> go_error + string" where
  "fetchRaw fd url inline =
     (if url \<noteq> [] then
        case FetchBootstrapBody (fd_http fd) url of
          Inl e \<Rightarrow> if inline \<noteq> [] then Inr inline else Inl e
        | Inr b \<Rightarrow> Inr (bytes_str b)
      else Inr inline)"

definition boot_once :: "feed_env \<Rightarrow> bytes \<Rightarrow> RelayOptions \<Rightarrow> instant \<Rightarrow> boot_state \<Rightarrow> boot_state option" where
  "boot_once fd pub relay now s =
     (case fetchRaw fd (trim_space (ro_DiscoveryURL relay)) (trim_space (ro_DiscoverySigned relay)) of
        Inl _ \<Rightarrow> Some s
      | Inr raw \<Rightarrow>
        Option.bind (applyRaw fd pub relay now raw s) (\<lambda>(r, s).
          Some (case r of Inl _ \<Rightarrow> s | Inr dig \<Rightarrow> s\<lparr>bs_lastDig := dig\<rparr>)))"

text \<open>
  The rounds after the first: a quick one, every 12 seconds, runs only until a list is loaded, a slow one, every quarter of an
  hour, always and ends the task when the list has expired. Each round has its own environment and time.
\<close>

datatype boot_tick = QuickRetry feed_env instant | Tick feed_env instant

fun boot_loop :: "bytes \<Rightarrow> RelayOptions \<Rightarrow> boot_tick list \<Rightarrow> boot_state \<Rightarrow> boot_state option" where
  "boot_loop pub relay [] s = Some s"
| "boot_loop pub relay (QuickRetry fd now # ts) s =
     Option.bind (if bs_cur s = None then boot_once fd pub relay now s else Some s) (boot_loop pub relay ts)"
| "boot_loop pub relay (Tick fd now # ts) s =
     Option.bind (boot_once fd pub relay now s) (\<lambda>s.
       case bs_cur s of
         None \<Rightarrow> boot_loop pub relay ts s
       | Some b \<Rightarrow>
         if bootstrap_Verify (fd_marshal fd) (fd_verify fd) b pub now \<noteq> None then Some s else boot_loop pub relay ts s)"

definition runRelayBootstrapVerify ::
  "feed_env \<Rightarrow> RelayOptions option \<Rightarrow> instant \<Rightarrow> boot_tick list \<Rightarrow> Table \<Rightarrow> Table option" where
  "runRelayBootstrapVerify fd relay now ts tab =
     (case relay of
        None \<Rightarrow> Some tab
      | Some r \<Rightarrow>
        if trim_space (ro_BootstrapPubKey r) = [] \<or> (trim_space (ro_DiscoveryURL r) = [] \<and> trim_space (ro_DiscoverySigned r) = [])
        then Some tab
        else case DecodeEd25519PublicKey (fd_encodings fd) (trim_space (ro_BootstrapPubKey r)) of
          Inl _ \<Rightarrow> Some tab
        | Inr pub \<Rightarrow>
          Option.bind (boot_once fd pub r now \<lparr>bs_cur = None, bs_lastDig = [], bs_tab = tab\<rparr>) (\<lambda>s.
          Option.bind (boot_loop pub r ts s) (\<lambda>s. Some (bs_tab s))))"

section \<open>Gossip\<close>

fun gossip_fetch ::
  "feed_env \<Rightarrow> (string \<Rightarrow> go_error + RelayNode list) \<Rightarrow> instant \<Rightarrow> duration \<Rightarrow> string list \<Rightarrow> RelayNode list \<Rightarrow> RelayNode list" where
  "gossip_fetch fd fetch now maxAge [] merged = merged"
| "gossip_fetch fd fetch now maxAge (u # us) merged =
     gossip_fetch fd fetch now maxAge us
       (if trim_space u = [] then merged
        else case fetch (trim_space u) of
          Inl _ \<Rightarrow> merged
        | Inr nodes \<Rightarrow> MergeGossip (fd_idx fd) merged nodes now maxAge)"

definition runGossipMeshOnce :: "feed_env \<Rightarrow> RelayOptions \<Rightarrow> instant \<Rightarrow> duration \<Rightarrow> Table \<Rightarrow> Table option" where
  "runGossipMeshOnce fd relay now maxAge tab =
     (let merged = gossip_fetch fd (FetchGossipHTTP (fd_gossip_env fd) (fd_gossip_flat fd) (fd_http fd)) now maxAge (ro_GossipPeers relay) [];
          merged = gossip_fetch fd (\<lambda>base. FetchFindNearest (fd_find_env fd) (fd_http fd) base (tab_self tab) 32) now maxAge
                     (ro_DHTFindURLs relay) merged;
          view = applyRelayProductFilters fd now merged (Some relay)
      in Merge (fd_order fd) (fd_sha fd) view tab)"

text \<open>The rounds of the task, each with its environment and time.\<close>

definition runGossipMesh :: "RelayOptions option \<Rightarrow> (feed_env \<times> instant) list \<Rightarrow> Table \<Rightarrow> Table option" where
  "runGossipMesh relay rs tab =
     (case relay of
        None \<Rightarrow> Some tab
      | Some r \<Rightarrow>
        if \<not> ro_GossipEnabled r \<or> (ro_GossipPeers r = [] \<and> ro_DHTFindURLs r = []) then Some tab
        else
          let maxAge = (if ro_GossipMaxAgeSec r > 0 then wrap64 (ro_GossipMaxAgeSec r * second) else 24 * hour)
          in fold (\<lambda>(fd, now) t. Option.bind t (runGossipMeshOnce fd r now maxAge)) rs (Some tab))"

section \<open>The hash table\<close>

fun seeds_from :: "string list \<Rightarrow> string list \<Rightarrow> string list" where
  "seeds_from seen [] = []"
| "seeds_from seen (v # vs) =
     (let v = trim_space v in
      if v = [] then seeds_from seen vs
      else if split_host_port v = None then seeds_from seen vs
      else let key = to_lower v in
        if key \<in> set seen then seeds_from seen vs else v # seeds_from (key # seen) vs)"

text \<open>\<open>nodes_of\<close> decodes the addresses in the document of the cluster map.\<close>

definition clusterMapSeeds :: "(string \<Rightarrow> string list option) \<Rightarrow> instant \<Rightarrow> cluster_docs \<Rightarrow> string list" where
  "clusterMapSeeds nodes_of now d =
     (let raw = trim_space (LastClusterMap now d) in
      if raw = [] then []
      else case nodes_of raw of
        None \<Rightarrow> []
      | Some ns \<Rightarrow> filter (\<lambda>hp. hp \<noteq> []) (map trim_space ns))"

definition dhtRPCSeeds ::
  "((string, relayEntry) gomap \<Rightarrow> (string, relayEntry) gomap) \<Rightarrow> (string \<Rightarrow> string list option) \<Rightarrow> instant \<Rightarrow> cluster_docs \<Rightarrow> Table \<Rightarrow>
   RelayOptions option \<Rightarrow> string list" where
  "dhtRPCSeeds order nodes_of now d tab relay =
     seeds_from []
       ((case relay of None \<Rightarrow> [] | Some r \<Rightarrow> ro_DhtRpcSeedPeers r) @ map rn_DhtRPC (Nearest order tab 64) @
        clusterMapSeeds nodes_of now d)"

text \<open>
  A round of queries. \<open>answer k n addr\<close> is what \<^verbatim>\<open>UDPFindNode\<close> brings from \<open>addr\<close> in the \<open>n\<close>-th query for \<open>k\<close> nodes. The iterative look-up
  gets it through the filters, an error like an empty answer; \<open>arrive\<close> is the order in which its answers come in.
\<close>

fun probe_addrs ::
  "feed_env \<Rightarrow> (nat \<Rightarrow> string \<Rightarrow> go_error + RelayNode list) \<Rightarrow> instant \<Rightarrow> RelayOptions \<Rightarrow> nat \<Rightarrow> string list \<Rightarrow> string list \<Rightarrow> Table \<Rightarrow>
   Table option" where
  "probe_addrs fd answer now relay n seen [] tab = Some tab"
| "probe_addrs fd answer now relay n seen (a # as) tab =
     (let addr = trim_space a in
      if addr = [] then probe_addrs fd answer now relay n seen as tab
      else if addr \<in> set seen then probe_addrs fd answer now relay n seen as tab
      else case answer n addr of
        Inl _ \<Rightarrow> probe_addrs fd answer now relay (n + 1) (addr # seen) as tab
      | Inr raw \<Rightarrow>
        Option.bind (Merge (fd_order fd) (fd_sha fd) (applyRelayProductFilters fd now raw (Some relay)) tab)
          (probe_addrs fd answer now relay (n + 1) (addr # seen) as))"

definition runDhtRpcProbe ::
  "feed_env \<Rightarrow> (int \<Rightarrow> nat \<Rightarrow> string \<Rightarrow> go_error + RelayNode list) \<Rightarrow> (RelayNode list list \<Rightarrow> RelayNode list list) \<Rightarrow> instant \<Rightarrow> string list \<Rightarrow>
   RelayOptions option \<Rightarrow> Table \<Rightarrow> Table option" where
  "runDhtRpcProbe fd answer arrive now seeds relay tab =
     (case relay of
        None \<Rightarrow> Some tab
      | Some r \<Rightarrow>
        let findK = (if ro_DhtRpcFindK r > 0 then ro_DhtRpcFindK r else 24) in
        if ro_DhtIterativeRounds r > 0 then
          let alpha = (if ro_DhtIterativeAlpha r \<le> 0 then 3 else ro_DhtIterativeAlpha r);
              query = (\<lambda>k n a. case answer k n a of Inl _ \<Rightarrow> [] | Inr raw \<Rightarrow> applyRelayProductFilters fd now raw (Some r))
          in map_option snd
               (IterativeFindNode (fd_order fd) (fd_sha fd) query arrive (tab_self tab) seeds findK alpha (ro_DhtIterativeRounds r) tab)
        else
          let addrs = seeds @ filter (\<lambda>a. a \<noteq> []) (map (\<lambda>n. trim_space (rn_DhtRPC n)) (Nearest (fd_order fd) tab 64))
          in probe_addrs fd (answer findK) now r 0 [] addrs tab)"


section \<open>What gets into the table\<close>

definition stored :: "Table \<Rightarrow> RelayNode set" where
  "stored t = {re_n e |i e. mget (tab_byID t) i = Some e}"

text \<open>A feed always returns, keeps the table sound, and adds nothing but nodes of \<open>A\<close>.\<close>

definition feeds :: "(bytes \<Rightarrow> bytes) \<Rightarrow> RelayNode set \<Rightarrow> (Table \<Rightarrow> Table option) \<Rightarrow> bool" where
  "feeds sha256 A feed \<longleftrightarrow>
     (\<forall>t. tab_ok sha256 t \<longrightarrow> (\<exists>t'. feed t = Some t' \<and> tab_ok sha256 t' \<and> tab_self t' = tab_self t \<and> stored t' \<subseteq> stored t \<union> A))"

locale table_feed =
  fixes sha256 :: "bytes \<Rightarrow> bytes" and A :: "RelayNode set" and feed :: "Table \<Rightarrow> Table option"
  assumes feeds: "feeds sha256 A feed"
begin

lemma ends: "tab_ok sha256 t \<Longrightarrow> feed t \<noteq> None"
  using feeds by (fastforce simp: feeds_def)

lemma sound: "tab_ok sha256 t \<Longrightarrow> feed t = Some t' \<Longrightarrow> tab_ok sha256 t' \<and> stored t' \<subseteq> stored t \<union> A"
  using feeds by (fastforce simp: feeds_def)

end

locale two_feeds = one: table_feed sha256 A feed1 + other: table_feed sha256 A feed2
  for sha256 :: "bytes \<Rightarrow> bytes" and A :: "RelayNode set" and feed1 feed2 :: "Table \<Rightarrow> Table option"

sublocale two_feeds \<subseteq> both: table_feed sha256 A "\<lambda>t. Option.bind (feed1 t) feed2"
proof (unfold_locales, unfold feeds_def, intro allI impI)
  fix t assume "tab_ok sha256 t"
  then obtain t1 where t1: "feed1 t = Some t1" "tab_ok sha256 t1" "tab_self t1 = tab_self t" "stored t1 \<subseteq> stored t \<union> A"
    using one.feeds by (auto simp: feeds_def)
  then obtain t2 where "feed2 t1 = Some t2" "tab_ok sha256 t2" "tab_self t2 = tab_self t1" "stored t2 \<subseteq> stored t1 \<union> A"
    using other.feeds by (auto simp: feeds_def)
  then show "\<exists>t'. Option.bind (feed1 t) feed2 = Some t' \<and> tab_ok sha256 t' \<and> tab_self t' = tab_self t \<and> stored t' \<subseteq> stored t \<union> A"
    using t1 by auto
qed

context two_feeds begin

lemma then_feeds: "feeds sha256 A (\<lambda>t. Option.bind (feed1 t) feed2)"
  by (rule both.feeds)

end

lemma feeds_bind:
  assumes "feeds sha256 A f" "feeds sha256 A g"
  shows "feeds sha256 A (\<lambda>t. Option.bind (f t) g)"
  by (rule two_feeds.then_feeds [OF two_feeds.intro [OF table_feed.intro [OF assms(1)] table_feed.intro [OF assms(2)]]])

lemma feeds_Some: "feeds sha256 A Some"
  by (simp add: feeds_def)

lemma feeds_mono: "feeds sha256 A f \<Longrightarrow> A \<subseteq> B \<Longrightarrow> feeds sha256 B f"
  unfolding feeds_def by (meson order_refl subset_trans sup.mono)

lemma Insert_feeds:
  assumes S: "sha_ok sha256" and R: "range_order order"
  shows "feeds sha256 {r} (Insert order sha256 r)"
  unfolding feeds_def
proof (intro allI impI)
  fix t assume T: "tab_ok sha256 t"
  show "\<exists>t'. Insert order sha256 r t = Some t' \<and> tab_ok sha256 t' \<and> tab_self t' = tab_self t \<and> stored t' \<subseteq> stored t \<union> {r}"
  proof (cases "usable r")
    case False
    then show ?thesis using T by (auto simp: Insert_unusable)
  next
    case u: True
    show ?thesis
    proof (cases "mget (tab_byID t) (rn_ID r)")
      case None
      from Insert_new [OF T S R u None] obtain t' V where
        t': "Insert order sha256 r t = Some t'" "inserted sha256 t r V t'" by blast
      have "stored t' \<subseteq> stored t \<union> {r}"
      proof
        fix n assume "n \<in> stored t'"
        then obtain i e where "mget (tab_byID t') i = Some e" "n = re_n e" by (auto simp: stored_def)
        then show "n \<in> stored t \<union> {r}" using t'(2) by (auto simp: inserted_def stored_def split: if_splits)
      qed
      then show ?thesis using t' by (auto simp: inserted_def)
    next
      case (Some e)
      from Insert_old [OF T u Some] obtain t' where t': "Insert order sha256 r t = Some t'" "tab_ok sha256 t'" "tab_self t' = tab_self t"
        "\<forall>i. mget (tab_byID t') i = (if i = rn_ID r then Some \<lparr>re_id = sha256 (str_bytes i), re_n = r\<rparr> else mget (tab_byID t) i)"
        by blast
      then have "stored t' \<subseteq> stored t \<union> {r}" by (auto simp: stored_def split: if_splits)
      then show ?thesis using t' by blast
    qed
  qed
qed

lemma Merge_feeds:
  assumes "sha_ok sha256" "range_order order"
  shows "set ns \<subseteq> A \<Longrightarrow> feeds sha256 A (Merge order sha256 ns)"
proof (induction ns)
  case (Cons r rs)
  have "Merge order sha256 (r # rs) = (\<lambda>t. Option.bind (Insert order sha256 r t) (Merge order sha256 rs))" by auto
  moreover have "feeds sha256 A (Insert order sha256 r)" using Insert_feeds [OF assms, of r] Cons.prems feeds_mono by fastforce
  ultimately show ?case using feeds_bind Cons by simp
qed (simp add: feeds_def)

text \<open>The nodes a session admits, apart from the look-up of countries.\<close>

definition class_in :: "string list \<Rightarrow> RelayNode \<Rightarrow> bool" where
  "class_in allowed n =
     (let st = filter (\<lambda>a. a \<noteq> []) (map (\<lambda>a. trim_space (to_lower a)) allowed)
      in st = [] \<or> trim_space (to_lower (rn_Class n)) \<in> set st)"

definition region_in :: "string list \<Rightarrow> string list \<Rightarrow> RelayNode \<Rightarrow> bool" where
  "region_in allow deny n =
     (allow = [] \<and> deny = [] \<or> firstEndpointHost n \<noteq> [] \<or>
      trim_space (rn_Region n) \<noteq> [] \<and> geoAllowed (to_upper (trim_space (rn_Region n))) (countrySet allow) (countrySet deny))"

definition admitted :: "RelayOptions \<Rightarrow> RelayNode \<Rightarrow> bool" where
  "admitted r n = (class_in (ro_AllowedClasses r) n \<and> ro_StakeMin r \<le> max 0 (rn_Stake n) \<and>
     region_in (ro_GeoAllowCountries r) (ro_GeoDenyCountries r) n)"

definition restaked_from :: "RelayNode list \<Rightarrow> RelayNode \<Rightarrow> bool" where
  "restaked_from ns n = (\<exists>m \<in> set ns. n = m\<lparr>rn_Stake := rn_Stake n\<rparr>)"

text \<open>What the environment of a feed is relied on for.\<close>

definition feed_ok :: "feed_env \<Rightarrow> bool" where
  "feed_ok fd \<longleftrightarrow> sha_ok (fd_sha fd) \<and> range_order (fd_order fd) \<and> (\<forall>ns. set (fd_sched fd ns) \<subseteq> set ns)"

lemma FilterByClass_in: "n \<in> set (FilterRelayNodesByClass ns allowed) \<Longrightarrow> n \<in> set ns \<and> class_in allowed n"
  by (auto simp: FilterRelayNodesByClass_def class_in_def Let_def split: if_splits)

lemma FilterByStake_in: "n \<in> set (FilterRelayNodesByStake ns m) \<Longrightarrow> n \<in> set ns \<and> m \<le> max 0 (rn_Stake n)"
  by (auto simp: FilterRelayNodesByStake_def split: if_splits)

lemma FilterByGeo_in:
  "\<forall>ns. set (sched ns) \<subseteq> set ns \<Longrightarrow> n \<in> set (FilterRelayNodesByGeo sched ns allow deny resolve) \<Longrightarrow>
   n \<in> set ns \<and> region_in allow deny n"
  by (auto simp: FilterRelayNodesByGeo_def region_in_def countrySets_def geo_keep_def Let_def split: if_splits)

lemma MergeStake_in: "n \<in> set (MergeStake ev now e ns) \<Longrightarrow> restaked_from ns n"
proof -
  have "restaking (MergeStake ev now e)" unfolding MergeStake_def Let_def by (rule economy.both.restaking)
  then obtain f where "MergeStake ev now e ns = map (\<lambda>n. n\<lparr>rn_Stake := f n\<rparr>) ns" by (auto simp: restaking_def)
  moreover assume "n \<in> set (MergeStake ev now e ns)"
  ultimately show ?thesis by (auto simp: restaked_from_def)
qed

lemma filters_in:
  assumes "feed_ok fd" "n \<in> set (applyRelayProductFilters fd now ns (Some r))"
  shows "admitted r n \<and> restaked_from ns n"
proof -
  let ?c = "FilterRelayNodesByClass ns (ro_AllowedClasses r)"
  let ?s = "MergeStake (fd_stake fd) now (economy_of r) ?c"
  have n: "n \<in> set (FilterRelayNodesByGeo (fd_sched fd) (FilterRelayNodesByStake ?s (ro_StakeMin r)) (ro_GeoAllowCountries r)
      (ro_GeoDenyCountries r) (fd_resolve fd))"
    using assms(2) by (simp add: applyRelayProductFilters_def)
  have g: "n \<in> set (FilterRelayNodesByStake ?s (ro_StakeMin r))" "region_in (ro_GeoAllowCountries r) (ro_GeoDenyCountries r) n"
    using FilterByGeo_in [OF _ n] assms(1) by (auto simp: feed_ok_def)
  have m: "n \<in> set ?s" "ro_StakeMin r \<le> max 0 (rn_Stake n)" using FilterByStake_in [OF g(1)] by auto
  have rs: "restaked_from ?c n" by (rule MergeStake_in [OF m(1)])
  then obtain c where c: "c \<in> set ?c" "n = c\<lparr>rn_Stake := rn_Stake n\<rparr>" by (auto simp: restaked_from_def)
  note k = FilterByClass_in [OF c(1)]
  have "rn_Class n = rn_Class c" by (subst c(2)) simp
  then have "class_in (ro_AllowedClasses r) n" using k by (simp add: class_in_def)
  then show ?thesis using g(2) m(2) k c(2) by (auto simp: admitted_def restaked_from_def)
qed

lemma filtered_feeds:
  assumes "feed_ok fd"
  shows "feeds (fd_sha fd) (Collect (admitted r)) (Merge (fd_order fd) (fd_sha fd) (applyRelayProductFilters fd now ns (Some r)))"
  using assms filters_in [OF assms] by (intro Merge_feeds) (auto simp: feed_ok_def)

lemma feedsD:
  assumes "feeds sha256 A f" "tab_ok sha256 t"
  obtains t' where "f t = Some t'" "tab_ok sha256 t'" "tab_self t' = tab_self t" "stored t' \<subseteq> stored t \<union> A"
  using assms by (auto simp: feeds_def)

lemma gossip_feeds: "feed_ok fd \<Longrightarrow> feeds (fd_sha fd) (Collect (admitted r)) (runGossipMeshOnce fd r now maxAge)"
  using filtered_feeds [of fd r now] unfolding runGossipMeshOnce_def feeds_def Let_def by blast

lemma probe_addrs_feeds: "feed_ok fd \<Longrightarrow> feeds (fd_sha fd) (Collect (admitted r)) (probe_addrs fd answer now r n seen as)"
proof (induction as arbitrary: n seen)
  case Nil
  then show ?case by (simp add: feeds_def)
next
  case (Cons a as)
  note ih = Cons.IH [OF Cons.prems]
  show ?case
  proof (cases "trim_space a = [] \<or> trim_space a \<in> set seen")
    case True
    then have "probe_addrs fd answer now r n seen (a # as) = probe_addrs fd answer now r n seen as"
      by (auto simp: fun_eq_iff Let_def)
    then show ?thesis using ih by simp
  next
    case False
    show ?thesis
    proof (cases "answer n (trim_space a)")
      case (Inl e)
      then have "probe_addrs fd answer now r n seen (a # as) = probe_addrs fd answer now r (n + 1) (trim_space a # seen) as"
        using False by (auto simp: fun_eq_iff Let_def)
      then show ?thesis using ih by simp
    next
      case (Inr raw)
      have "feeds (fd_sha fd) (Collect (admitted r)) (\<lambda>t. Option.bind
          (Merge (fd_order fd) (fd_sha fd) (applyRelayProductFilters fd now raw (Some r)) t)
          (probe_addrs fd answer now r (n + 1) (trim_space a # seen) as))"
        using feeds_bind [OF filtered_feeds [OF Cons.prems] ih] .
      moreover have "probe_addrs fd answer now r n seen (a # as) = (\<lambda>t. Option.bind
          (Merge (fd_order fd) (fd_sha fd) (applyRelayProductFilters fd now raw (Some r)) t)
          (probe_addrs fd answer now r (n + 1) (trim_space a # seen) as))"
        using False Inr by (auto simp: fun_eq_iff Let_def)
      ultimately show ?thesis by simp
    qed
  qed
qed

lemma rounds_feeds:
  assumes S: "sha_ok sha256" "range_order order" and A: "\<And>n a. set (query n a) \<subseteq> A" "\<And>xs. set (arrive xs) \<subseteq> set xs"
  shows "feeds sha256 A (\<lambda>t. map_option snd (iterate_rounds order sha256 query arrive target seeds alpha rnd left seen t))"
proof (induction left arbitrary: rnd seen)
  case (Suc left)
  show ?case unfolding feeds_def
  proof (intro allI impI)
    fix t assume T: "tab_ok sha256 t"
    let ?as = "pickQueryAddrs order t target seeds seen alpha"
    let ?b = "concat (arrive (map (query rnd) ?as))"
    have "set ?b \<subseteq> A" using A(1) A(2) [of "map (query rnd) ?as"] by fastforce
    then have "feeds sha256 A (Merge order sha256 ?b)" by (rule Merge_feeds [OF S])
    then obtain t1 where t1: "Merge order sha256 ?b t = Some t1" "tab_ok sha256 t1" "tab_self t1 = tab_self t" "stored t1 \<subseteq> stored t \<union> A"
      using feedsD T by metis
    have m: "(if ?b = [] then Some t else Merge order sha256 ?b t) = Some t1" using t1(1) by (metis Merge.simps(1))
    obtain t2 where t2: "map_option snd (iterate_rounds order sha256 query arrive target seeds alpha (rnd + 1) left (?as @ seen) t1) = Some t2"
      "tab_ok sha256 t2" "tab_self t2 = tab_self t1" "stored t2 \<subseteq> stored t1 \<union> A"
      using feedsD [OF Suc.IH t1(2)] by metis
    show "\<exists>t'. map_option snd (iterate_rounds order sha256 query arrive target seeds alpha rnd (Suc left) seen t) = Some t' \<and>
        tab_ok sha256 t' \<and> tab_self t' = tab_self t \<and> stored t' \<subseteq> stored t \<union> A"
    proof (cases "length ?as = 0")
      case True
      then show ?thesis using T by simp
    next
      case False
      then have "map_option snd (iterate_rounds order sha256 query arrive target seeds alpha rnd (Suc left) seen t) = Some t2"
        using t2(1) m by (auto simp: Let_def)
      then show ?thesis using t2 t1 by auto
    qed
  qed
qed (simp add: feeds_def)

lemma query_in:
  "feed_ok fd \<Longrightarrow> set (case answer k n a of Inl e \<Rightarrow> [] | Inr raw \<Rightarrow> applyRelayProductFilters fd now raw (Some r)) \<subseteq> Collect (admitted r)"
  using filters_in by (auto split: sum.splits)

lemma probe_feeds:
  assumes F: "feed_ok fd" and A: "\<And>xs. set (arrive xs) \<subseteq> set xs"
  shows "feeds (fd_sha fd) (Collect (admitted r)) (runDhtRpcProbe fd answer arrive now seeds (Some r))"
proof -
  have S: "sha_ok (fd_sha fd)" "range_order (fd_order fd)" using F by (simp_all add: feed_ok_def)
  show ?thesis
  proof (cases "ro_DhtIterativeRounds r > 0")
    case True
    let ?q = "\<lambda>k n a. case answer k n a of Inl _ \<Rightarrow> [] | Inr raw \<Rightarrow> applyRelayProductFilters fd now raw (Some r)"
    have q: "set (?q k n a) \<subseteq> Collect (admitted r)" for k n a by (rule query_in [OF F])
    show ?thesis unfolding feeds_def
    proof (intro allI impI)
      fix t assume T: "tab_ok (fd_sha fd) t"
      show "\<exists>t'. runDhtRpcProbe fd answer arrive now seeds (Some r) t = Some t' \<and> tab_ok (fd_sha fd) t' \<and> tab_self t' = tab_self t \<and>
          stored t' \<subseteq> stored t \<union> Collect (admitted r)"
      proof -
        let ?a = "if ro_DhtIterativeAlpha r \<le> 0 then 3 else ro_DhtIterativeAlpha r"
        let ?k = "let k = (if ro_DhtRpcFindK r > 0 then ro_DhtRpcFindK r else 24); k = (if k < 1 then 16 else k) in if k > 256 then 256 else k"
        have a: "0 < ?a" by simp
        define R where "R = (\<lambda>u. map_option snd
            (iterate_rounds (fd_order fd) (fd_sha fd) (?q ?k) arrive (tab_self t) seeds ?a 0 (nat (ro_DhtIterativeRounds r)) [] u))"
        have R: "runDhtRpcProbe fd answer arrive now seeds (Some r) t = R t"
          using True a by (simp add: R_def runDhtRpcProbe_def IterativeFindNode_def Let_def)
        have "feeds (fd_sha fd) (Collect (admitted r)) R" unfolding R_def by (rule rounds_feeds [OF S q A])
        then show ?thesis using T unfolding R feeds_def by blast
      qed
    qed
  next
    case False
    then show ?thesis using probe_addrs_feeds [OF F, of r _ now 0 "[]"] by (simp add: runDhtRpcProbe_def feeds_def Let_def)
  qed
qed

definition verified :: "feed_env \<Rightarrow> bytes \<Rightarrow> instant \<Rightarrow> SignedBootstrap \<Rightarrow> bool" where
  "verified fd pub now b \<longleftrightarrow> bootstrap_Verify (fd_marshal fd) (fd_verify fd) b pub now = None"

lemma boot_once_ok:
  assumes F: "feed_ok fd" and T: "tab_ok (fd_sha fd) (bs_tab s)"
  shows "\<exists>s'. boot_once fd pub r now s = Some s' \<and> tab_ok (fd_sha fd) (bs_tab s') \<and>
    (bs_tab s' = bs_tab s \<and> bs_cur s' = bs_cur s \<or>
     (\<exists>b. verified fd pub now b \<and> bs_cur s' = Some b \<and>
        stored (bs_tab s') \<subseteq> stored (bs_tab s) \<union> {n. admitted r n \<and> restaked_from (sb_Nodes b) n}))"
proof (cases "fetchRaw fd (trim_space (ro_DiscoveryURL r)) (trim_space (ro_DiscoverySigned r))")
  case (Inl e)
  then show ?thesis using T by (simp add: boot_once_def)
next
  case raw: (Inr raw)
  show ?thesis
  proof (cases "ParseSignedBootstrapJSON (fd_parse fd) raw")
    case (Inl e)
    then show ?thesis using T raw by (simp add: boot_once_def applyRaw_def)
  next
    case b: (Inr b)
    show ?thesis
    proof (cases "bootstrap_Verify (fd_marshal fd) (fd_verify fd) b pub now")
      case (Some e)
      then show ?thesis using T raw b by (simp add: boot_once_def applyRaw_def)
    next
      case None
      let ?v = "applyRelayProductFilters fd now (sb_Nodes b) (Some r)"
      have v: "set ?v \<subseteq> {n. admitted r n \<and> restaked_from (sb_Nodes b) n}" using filters_in [OF F] by blast
      have S: "sha_ok (fd_sha fd)" "range_order (fd_order fd)" using F by (simp_all add: feed_ok_def)
      obtain t' where "Merge (fd_order fd) (fd_sha fd) ?v (bs_tab s) = Some t'" "tab_ok (fd_sha fd) t'"
        "stored t' \<subseteq> stored (bs_tab s) \<union> {n. admitted r n \<and> restaked_from (sb_Nodes b) n}"
        by (rule feedsD [OF Merge_feeds [OF S v] T])
      then show ?thesis using raw b None by (simp add: boot_once_def applyRaw_def Let_def verified_def)
    qed
  qed
qed

lemma boot_loop_ok:
  "\<forall>t \<in> set ts. case t of QuickRetry fd _ \<Rightarrow> feed_ok fd \<and> fd_sha fd = sha256 | Tick fd _ \<Rightarrow> feed_ok fd \<and> fd_sha fd = sha256 \<Longrightarrow>
   tab_ok sha256 (bs_tab s) \<Longrightarrow> \<exists>s'. boot_loop pub r ts s = Some s' \<and> tab_ok sha256 (bs_tab s')"
proof (induction ts arbitrary: s)
  case (Cons t ts)
  obtain fd now where t: "t = QuickRetry fd now \<or> t = Tick fd now" by (cases t) auto
  then have F: "feed_ok fd" "fd_sha fd = sha256" using Cons.prems(1) by auto
  obtain s1 where s1: "boot_once fd pub r now s = Some s1" "tab_ok sha256 (bs_tab s1)"
    using boot_once_ok [OF F(1), of s pub r now] Cons.prems(2) F(2) by blast
  have rest: "\<exists>s'. boot_loop pub r ts u = Some s' \<and> tab_ok sha256 (bs_tab s')" if "tab_ok sha256 (bs_tab u)" for u
    using Cons.IH [of u] Cons.prems(1) that by simp
  from t show ?case
  proof
    assume "t = QuickRetry fd now"
    then show ?thesis using s1 rest Cons.prems(2) by simp
  next
    assume "t = Tick fd now"
    then show ?thesis using s1 rest [OF s1(2)] by (cases "bs_cur s1") auto
  qed
qed simp

lemma gossip_rounds_ok:
  "\<forall>(fd, now) \<in> set rs. feed_ok fd \<and> fd_sha fd = sha256 \<Longrightarrow> tab_ok sha256 t \<Longrightarrow>
   \<exists>t'. fold (\<lambda>(fd, now) t. Option.bind t (runGossipMeshOnce fd r now maxAge)) rs (Some t) = Some t' \<and> tab_ok sha256 t'"
proof (induction rs arbitrary: t)
  case (Cons p rs)
  obtain fd now where p: "p = (fd, now)" by fastforce
  then have F: "feed_ok fd" "fd_sha fd = sha256" using Cons.prems(1) by auto
  obtain t1 where "runGossipMeshOnce fd r now maxAge t = Some t1" "tab_ok sha256 t1"
    using gossip_feeds [OF F(1), of r now maxAge] Cons.prems(2) unfolding F(2) feeds_def by blast
  then show ?case using Cons by (simp add: p)
qed simp


section \<open>A session's table\<close>

text \<open>The steps of the tasks of one session, in any order, each with its own environment and time; all share the hash.\<close>

inductive feed_step :: "RelayOptions \<Rightarrow> bytes \<Rightarrow> (bytes \<Rightarrow> bytes) \<Rightarrow> boot_state \<Rightarrow> boot_state \<Rightarrow> bool"
  for r pub sha256 where
  Boot: "feed_ok fd \<Longrightarrow> fd_sha fd = sha256 \<Longrightarrow> boot_once fd pub r now s = Some s' \<Longrightarrow> feed_step r pub sha256 s s'"
| Gossip: "feed_ok fd \<Longrightarrow> fd_sha fd = sha256 \<Longrightarrow> runGossipMeshOnce fd r now maxAge (bs_tab s) = Some t \<Longrightarrow>
    feed_step r pub sha256 s (s\<lparr>bs_tab := t\<rparr>)"
| Probe: "feed_ok fd \<Longrightarrow> fd_sha fd = sha256 \<Longrightarrow> (\<And>xs. set (arrive xs) \<subseteq> set xs) \<Longrightarrow>
    runDhtRpcProbe fd answer arrive now seeds (Some r) (bs_tab s) = Some t \<Longrightarrow> feed_step r pub sha256 s (s\<lparr>bs_tab := t\<rparr>)"

inductive_cases feed_stepE: "feed_step r pub sha256 s s'"

text \<open>What holds of a session that began with the nodes \<open>N\<close> and no list.\<close>

definition session_ok :: "RelayOptions \<Rightarrow> bytes \<Rightarrow> (bytes \<Rightarrow> bytes) \<Rightarrow> RelayNode set \<Rightarrow> boot_state \<Rightarrow> bool" where
  "session_ok r pub sha256 N s \<longleftrightarrow>
     tab_ok sha256 (bs_tab s) \<and> stored (bs_tab s) \<subseteq> N \<union> Collect (admitted r) \<and>
     (\<forall>b. bs_cur s = Some b \<longrightarrow> (\<exists>fd now. verified fd pub now b))"

lemma session_fed:
  assumes "session_ok r pub sha256 N s" "feeds sha256 (Collect (admitted r)) f" "f (bs_tab s) = Some t"
  shows "session_ok r pub sha256 N (s\<lparr>bs_tab := t\<rparr>)"
proof -
  have "tab_ok sha256 t \<and> stored t \<subseteq> stored (bs_tab s) \<union> Collect (admitted r)"
    using table_feed.sound [OF table_feed.intro [OF assms(2)] _ assms(3)] assms(1) by (simp add: session_ok_def)
  then show ?thesis using assms(1) by (auto simp: session_ok_def)
qed

lemma session_step: "feed_step r pub sha256 s s' \<Longrightarrow> session_ok r pub sha256 N s \<Longrightarrow> session_ok r pub sha256 N s'"
proof (erule feed_stepE)
  fix fd now
  assume s: "session_ok r pub sha256 N s" and F: "feed_ok fd" "fd_sha fd = sha256" and st: "boot_once fd pub r now s = Some s'"
  have "tab_ok (fd_sha fd) (bs_tab s)" using s F(2) by (simp add: session_ok_def)
  from boot_once_ok [OF F(1) this, of pub r now] st F(2)
  have b: "tab_ok sha256 (bs_tab s')" "bs_tab s' = bs_tab s \<and> bs_cur s' = bs_cur s \<or>
     (\<exists>b. verified fd pub now b \<and> bs_cur s' = Some b \<and>
        stored (bs_tab s') \<subseteq> stored (bs_tab s) \<union> {n. admitted r n \<and> restaked_from (sb_Nodes b) n})"
    by auto
  from b(2) show "session_ok r pub sha256 N s'"
  proof (elim disjE exE conjE)
    fix b assume "verified fd pub now b" "bs_cur s' = Some b"
      "stored (bs_tab s') \<subseteq> stored (bs_tab s) \<union> {n. admitted r n \<and> restaked_from (sb_Nodes b) n}"
    then show ?thesis using b(1) s by (auto simp: session_ok_def)
  qed (use b(1) s in \<open>simp add: session_ok_def\<close>)
next
  fix fd now maxAge t
  assume "session_ok r pub sha256 N s" "feed_ok fd" "fd_sha fd = sha256" "s' = s\<lparr>bs_tab := t\<rparr>"
    "runGossipMeshOnce fd r now maxAge (bs_tab s) = Some t"
  then show "session_ok r pub sha256 N s'" using session_fed gossip_feeds by blast
next
  fix fd arrive answer now seeds t
  assume "session_ok r pub sha256 N s" "feed_ok fd" "fd_sha fd = sha256" "s' = s\<lparr>bs_tab := t\<rparr>"
    "\<And>xs. set (arrive xs) \<subseteq> set xs" "runDhtRpcProbe fd answer arrive now seeds (Some r) (bs_tab s) = Some t"
  then show "session_ok r pub sha256 N s'" using session_fed probe_feeds by blast
qed


section \<open>Instances\<close>

definition demo_feed :: feed_env where
  "demo_feed =
     \<lparr>fd_stake = \<lparr>ev_marshal = (\<lambda>_ _ _. []), ev_verify = (\<lambda>_ _ _. False), ev_encodings = [], ev_registry = (\<lambda>_. None), ev_scores = (\<lambda>_. None),
        ev_root = (\<lambda>_. None), ev_merkle = (\<lambda>_. None), ev_sha = demo_sha, ev_http = (\<lambda>_. Inl EOF), ev_files = (\<lambda>_. None)\<rparr>,
      fd_sched = id, fd_resolve = (\<lambda>_. Inl EOF), fd_order = id, fd_idx = id, fd_sha = demo_sha, fd_marshal = (\<lambda>_ _ _. []),
      fd_parse = (\<lambda>_. Inl EOF), fd_verify = (\<lambda>_ _ _. False), fd_encodings = [], fd_http = (\<lambda>_. Inl EOF),
      fd_gossip_env = (\<lambda>_. Inl EOF), fd_gossip_flat = (\<lambda>_. Inl EOF), fd_find_env = (\<lambda>_. Inl EOF)\<rparr>"

lemma demo_feed_ok: "feed_ok demo_feed" "fd_sha demo_feed = demo_sha"
  using demo_ok(1,2) by (simp_all add: feed_ok_def demo_feed_def)


end
