(* ===== verification/Background.thy ===== *)
theory Background
  imports MeshFeed
begin

text \<open>
  The other tasks of a session: the queue of control messages kept at the nodes of the hash table
  (\<^verbatim>\<open>internal/vpn/control_store_forward.go\<close>), the addresses a peer publishes there (\<^verbatim>\<open>presence_dht.go\<close>), the emergency policy
  (\<^verbatim>\<open>emergency_policy.go\<close>), the credentials of a managed client (\<^verbatim>\<open>managed_auth.go\<close>), the registry of volunteers
  (\<^verbatim>\<open>internal/volunteer/registry.go\<close>) and the log of sessions (\<^verbatim>\<open>internal/metrics/metrics.go\<close>). The answers of nodes come by the number
  of the call; SHA-256, HMAC and JSON are arguments; punching through a NAT is left out.
\<close>

section \<open>Control messages\<close>

record controlPlaneMessage =
  cm_ID :: string
  cm_From :: string
  cm_Type :: string
  cm_Body :: string
  cm_CreatedAt :: int
  cm_TTL :: int

record controlPlaneQueue =
  cq_pending :: "controlPlaneMessage list"
  cq_seen :: "(string, int) gomap"

record storeForwardStats =
  st_Sent :: "64 word"
  st_Received :: "64 word"

definition cpSeenMax :: nat where "cpSeenMax = 8192"
definition cpSeenTTL :: duration where "cpSeenTTL = 24 * hour"

text \<open>\<open>t1\<close> and \<open>t2\<close> are the two readings of the clock.\<close>

definition cp_enqueue ::
  "(bytes \<Rightarrow> bytes) \<Rightarrow> RelayOptions \<Rightarrow> instant \<Rightarrow> instant \<Rightarrow> string \<Rightarrow> string \<Rightarrow> duration \<Rightarrow> controlPlaneQueue \<Rightarrow> controlPlaneQueue" where
  "cp_enqueue sha256 relay t1 t2 tp body ttl q =
     q\<lparr>cq_pending := cq_pending q @
       [\<lparr>cm_ID = hex_encode (sha256 (str_bytes (tp @ ''|'' @ body @ ''|'' @ itoa (unix_milli t1)))),
         cm_From = trim_space (ro_PeerID relay), cm_Type = tp, cm_Body = body, cm_CreatedAt = unix_milli t2,
         cm_TTL = go_div ttl millisecond\<rparr>]\<rparr>"

text \<open>A request to store: the node, the key, the lifetime in seconds, the value.\<close>

type_synonym store_req = "string \<times> bytes \<times> u32 \<times> bytes"

definition cp_head_key :: "(bytes \<Rightarrow> bytes) \<Rightarrow> string \<Rightarrow> bytes" where
  "cp_head_key sha256 peer = sha256 (str_bytes (''cp:'' @ trim_space peer))"

definition cp_message_key :: "(bytes \<Rightarrow> bytes) \<Rightarrow> string \<Rightarrow> string \<Rightarrow> bytes" where
  "cp_message_key sha256 peer i = sha256 (str_bytes (''cp:'' @ trim_space peer @ '':'' @ i))"

definition cp_ttl :: "controlPlaneMessage \<Rightarrow> u32" where
  "cp_ttl m = word_of_int (max 5 (go_div (cm_TTL m) 1000))"

definition cp_requests ::
  "(bytes \<Rightarrow> bytes) \<Rightarrow> (controlPlaneMessage \<Rightarrow> bytes option) \<Rightarrow> RelayOptions \<Rightarrow> string list \<Rightarrow> instant \<Rightarrow> controlPlaneMessage \<Rightarrow>
   store_req list" where
  "cp_requests sha256 marshal relay seeds now m =
     (if wrap64 (cm_CreatedAt m + cm_TTL m) \<le> unix_milli now then []
      else case marshal m of
        None \<Rightarrow> []
      | Some b \<Rightarrow>
        concat (map (\<lambda>seed.
          let seed = trim_space seed in
          if seed = [] then []
          else [(seed, cp_message_key sha256 (ro_PeerID relay) (cm_ID m), cp_ttl m, b),
                (seed, cp_head_key sha256 (ro_PeerID relay), cp_ttl m, b)]) seeds))"

text \<open>
  \<open>ans i\<close> is the answer to the \<open>i\<close>-th request; those to the requests with an even number, the ones under the message's own key, are
  counted when they succeed. The seeds are those at the time of the flush.
\<close>

definition flushControlQueue ::
  "(bytes \<Rightarrow> bytes) \<Rightarrow> (controlPlaneMessage \<Rightarrow> bytes option) \<Rightarrow> RelayOptions \<Rightarrow> string list \<Rightarrow> instant \<Rightarrow> (nat \<Rightarrow> go_error + bool) \<Rightarrow>
   controlPlaneQueue \<times> storeForwardStats \<Rightarrow> store_req list \<times> controlPlaneQueue \<times> storeForwardStats" where
  "flushControlQueue sha256 marshal relay seeds now ans qs =
     (let (q, st) = qs;
          reqs = concat (map (cp_requests sha256 marshal relay seeds now) (cq_pending q));
          n = length (filter (\<lambda>i. even i \<and> ans i = Inr True) [0..<length reqs])
      in (reqs, q\<lparr>cq_pending := []\<rparr>, st\<lparr>st_Sent := st_Sent st + word_of_nat n\<rparr>))"

text \<open>\<open>order\<close> is the order of the map; the sort is not stable, which the order makes up for.\<close>

definition pruneSeenLocked ::
  "((string, int) gomap \<Rightarrow> (string, int) gomap) \<Rightarrow> instant \<Rightarrow> (string, int) gomap \<Rightarrow> (string, int) gomap" where
  "pruneSeenLocked order now seen =
     (let cutoff = unix_milli now - go_div cpSeenTTL millisecond;
          seen = filter (\<lambda>(k, t). \<not> t < cutoff) seen
      in if length seen \<le> cpSeenMax then seen
         else
           let tmp = sort_key snd (order seen); excess = length seen - cpSeenMax
           in fold (\<lambda>(k, t). mdel k) (take excess tmp) seen)"

text \<open>The requests of a pull, one for each near peer and seed: the node and the key.\<close>

definition cp_gets ::
  "(bytes \<Rightarrow> bytes) \<Rightarrow> ((string, relayEntry) gomap \<Rightarrow> (string, relayEntry) gomap) \<Rightarrow> Table \<Rightarrow> RelayOptions \<Rightarrow> string list \<Rightarrow>
   (string \<times> bytes) list" where
  "cp_gets sha256 order tab relay seeds =
     concat (map (\<lambda>n.
       let peerID = trim_space (rn_ID n) in
       if peerID = [] \<or> equal_fold peerID (ro_PeerID relay) then []
       else map (\<lambda>seed. (seed, cp_head_key sha256 peerID)) (filter (\<lambda>s. s \<noteq> []) (map trim_space seeds)))
       (Nearest order tab 8))"

definition cp_receive ::
  "((string, int) gomap \<Rightarrow> (string, int) gomap) \<Rightarrow> (bytes \<Rightarrow> controlPlaneMessage option) \<Rightarrow> instant \<Rightarrow> go_error + bytes option \<Rightarrow>
   controlPlaneQueue \<times> storeForwardStats \<Rightarrow> controlPlaneQueue \<times> storeForwardStats" where
  "cp_receive order decode now r qs =
     (case r of
        Inr (Some val) \<Rightarrow>
          if val = [] then qs
          else (case decode val of
            None \<Rightarrow> qs
          | Some m \<Rightarrow>
            if cm_ID m = [] then qs
            else
              let (q, st) = qs; seen = pruneSeenLocked order now (cq_seen q) in
              (case mget seen (cm_ID m) of
                 None \<Rightarrow> (q\<lparr>cq_seen := mput (cm_ID m) (unix_milli now) seen\<rparr>, st\<lparr>st_Received := st_Received st + 1\<rparr>)
               | Some _ \<Rightarrow> (q\<lparr>cq_seen := seen\<rparr>, st)))
      | _ \<Rightarrow> qs)"

text \<open>\<open>ans i\<close> is the answer to the \<open>i\<close>-th request of the pull, \<open>clk i\<close> the time it is taken in.\<close>

definition pullControlInbox ::
  "(bytes \<Rightarrow> bytes) \<Rightarrow> ((string, relayEntry) gomap \<Rightarrow> (string, relayEntry) gomap) \<Rightarrow> ((string, int) gomap \<Rightarrow> (string, int) gomap) \<Rightarrow>
   (bytes \<Rightarrow> controlPlaneMessage option) \<Rightarrow> (nat \<Rightarrow> instant) \<Rightarrow> (nat \<Rightarrow> go_error + bytes option) \<Rightarrow> Table \<Rightarrow> RelayOptions \<Rightarrow> string list \<Rightarrow>
   controlPlaneQueue \<times> storeForwardStats \<Rightarrow> controlPlaneQueue \<times> storeForwardStats" where
  "pullControlInbox sha256 torder order decode clk ans tab relay seeds qs =
     fold (\<lambda>i. cp_receive order decode (clk i) (ans i)) [0..<length (cp_gets sha256 torder tab relay seeds)] qs"

text \<open>A tick of the sender: a heartbeat is put into the queue, which is then flushed.\<close>

definition cp_flush_tick ::
  "(bytes \<Rightarrow> bytes) \<Rightarrow> (controlPlaneMessage \<Rightarrow> bytes option) \<Rightarrow> RelayOptions \<Rightarrow> string list \<Rightarrow> instant \<Rightarrow> instant \<Rightarrow> instant \<Rightarrow>
   (nat \<Rightarrow> go_error + bool) \<Rightarrow> controlPlaneQueue \<times> storeForwardStats \<Rightarrow> store_req list \<times> controlPlaneQueue \<times> storeForwardStats" where
  "cp_flush_tick sha256 marshal relay seeds t1 t2 t3 ans qs =
     flushControlQueue sha256 marshal relay seeds t3 ans
       (cp_enqueue sha256 relay t1 t2 ''heartbeat'' ''alive'' (30 * second) (fst qs), snd qs)"

definition cp_start :: "(bytes \<Rightarrow> bytes) \<Rightarrow> RelayOptions \<Rightarrow> instant \<Rightarrow> instant \<Rightarrow> controlPlaneQueue" where
  "cp_start sha256 relay t1 t2 =
     cp_enqueue sha256 relay t1 t2 ''hello'' ''boot'' (30 * second) \<lparr>cq_pending = [], cq_seen = []\<rparr>"

section \<open>Presence\<close>

definition mergePresenceEndpoints :: "string \<Rightarrow> string list \<Rightarrow> string list" where
  "mergePresenceEndpoints primary extra = dedupe_from [] (primary # extra)"

record dhtPresenceRecord =
  dp_Srflx :: string
  dp_Candidates :: "string list"
  dp_Epoch :: int

definition marshalPresence :: "(dhtPresenceRecord \<Rightarrow> bytes) \<Rightarrow> instant \<Rightarrow> string \<Rightarrow> string list \<Rightarrow> bytes" where
  "marshalPresence marshal now primary extra =
     (let cands = mergePresenceEndpoints primary extra in
      if cands = [] then []
      else marshal \<lparr>dp_Srflx = cands ! 0, dp_Candidates = cands, dp_Epoch = unix now\<rparr>)"

definition presenceDHTStore :: "(bytes \<Rightarrow> bytes) \<Rightarrow> RelayOptions option \<Rightarrow> string list \<Rightarrow> bytes \<Rightarrow> store_req list" where
  "presenceDHTStore sha256 relay seeds val =
     (case relay of
        None \<Rightarrow> []
      | Some r \<Rightarrow>
        if trim_space (ro_PeerID r) = [] \<or> seeds = [] \<or> val = [] then []
        else map (\<lambda>seed. (seed, sha256 (str_bytes (trim_space (ro_PeerID r))), 900, val))
               (filter (\<lambda>s. s \<noteq> []) (map trim_space seeds)))"

definition publishMergedPresenceCandidates ::
  "(bytes \<Rightarrow> bytes) \<Rightarrow> (dhtPresenceRecord \<Rightarrow> bytes) \<Rightarrow> instant \<Rightarrow> RelayOptions option \<Rightarrow> string list \<Rightarrow> string \<Rightarrow> string list \<Rightarrow> store_req list" where
  "publishMergedPresenceCandidates sha256 marshal now relay seeds primary extras =
     (case relay of
        None \<Rightarrow> []
      | Some r \<Rightarrow>
        if \<not> ro_DhtPublishSrflx r \<and> \<not> ro_SymmetricNatHolePunch r then []
        else presenceDHTStore sha256 relay seeds (marshalPresence marshal now primary extras))"

text \<open>The requests and the address last published.\<close>

definition publishSrflxToDHT ::
  "(bytes \<Rightarrow> bytes) \<Rightarrow> (dhtPresenceRecord \<Rightarrow> bytes) \<Rightarrow> instant \<Rightarrow> RelayOptions option \<Rightarrow> string list \<Rightarrow> string \<Rightarrow> string \<Rightarrow>
   store_req list \<times> string" where
  "publishSrflxToDHT sha256 marshal now relay seeds hostPort lastSrflx =
     (case relay of
        None \<Rightarrow> ([], lastSrflx)
      | Some r \<Rightarrow>
        if \<not> ro_DhtPublishSrflx r \<or> seeds = [] \<or> trim_space (ro_PeerID r) = [] \<or> trim_space hostPort = [] then ([], lastSrflx)
        else (publishMergedPresenceCandidates sha256 marshal now relay seeds (trim_space hostPort) [], trim_space hostPort))"

definition publishVolunteerSrflxToDHT ::
  "(bytes \<Rightarrow> bytes) \<Rightarrow> (dhtPresenceRecord \<Rightarrow> bytes) \<Rightarrow> instant \<Rightarrow> MeshConfig option \<Rightarrow> RelayOptions option \<Rightarrow> string list \<Rightarrow> string \<Rightarrow> string \<Rightarrow>
   store_req list \<times> string" where
  "publishVolunteerSrflxToDHT sha256 marshal now mesh relay seeds hostPort lastSrflx =
     (if \<not> meshAllowsPresencePublish mesh then ([], lastSrflx)
      else publishSrflxToDHT sha256 marshal now relay seeds hostPort lastSrflx)"

text \<open>\<open>decode\<close> and \<open>legacy\<close> read the two forms of a record.\<close>

definition endpointsFromPresenceJSON ::
  "(bytes \<Rightarrow> dhtPresenceRecord option) \<Rightarrow> (bytes \<Rightarrow> string option) \<Rightarrow> bytes \<Rightarrow> string list" where
  "endpointsFromPresenceJSON decode legacy raw =
     (case decode raw of
        Some rec \<Rightarrow> mergePresenceEndpoints (dp_Srflx rec) (dp_Candidates rec)
      | None \<Rightarrow>
        (case legacy raw of
           None \<Rightarrow> []
         | Some s \<Rightarrow> if trim_space s = [] then [] else [trim_space s]))"

text \<open>\<open>get seed key\<close> is what \<^verbatim>\<open>UDPGet\<close> brings from a seed.\<close>

fun fetch_endpoints ::
  "(bytes \<Rightarrow> string list) \<Rightarrow> (string \<Rightarrow> bytes \<Rightarrow> go_error + bytes option) \<Rightarrow> bytes \<Rightarrow> string list \<Rightarrow> string list" where
  "fetch_endpoints ends get key [] = []"
| "fetch_endpoints ends get key (seed # seeds) =
     (let seed = trim_space seed in
      if seed = [] then fetch_endpoints ends get key seeds
      else case get seed key of
        Inr (Some val) \<Rightarrow> if ends val \<noteq> [] then ends val else fetch_endpoints ends get key seeds
      | _ \<Rightarrow> fetch_endpoints ends get key seeds)"

definition fetchUdpEndpointsFromDHT ::
  "(bytes \<Rightarrow> bytes) \<Rightarrow> (bytes \<Rightarrow> dhtPresenceRecord option) \<Rightarrow> (bytes \<Rightarrow> string option) \<Rightarrow> (string \<Rightarrow> bytes \<Rightarrow> go_error + bytes option) \<Rightarrow>
   RelayOptions option \<Rightarrow> string list \<Rightarrow> string \<Rightarrow> string list" where
  "fetchUdpEndpointsFromDHT sha256 decode legacy get relay seeds peerID =
     (if relay = None \<or> trim_space peerID = [] \<or> seeds = [] then []
      else fetch_endpoints (endpointsFromPresenceJSON decode legacy) get (sha256 (str_bytes (trim_space peerID))) seeds)"

section \<open>The emergency policy\<close>

definition emergencyPolicyConfigured :: "RelayOptions option \<Rightarrow> bool" where
  "emergencyPolicyConfigured relay =
     (case relay of
        None \<Rightarrow> False
      | Some r \<Rightarrow> trim_space (ro_EmergencyPolicyURL r) \<noteq> [] \<and> trim_space (ro_EmergencyPolicyPubKey r) \<noteq> [])"

text \<open>The flag \<^verbatim>\<open>emergencyDisablePeerRelay\<close> after a round.\<close>

definition applyEmergencyPolicyOnce ::
  "(string \<Rightarrow> bytes option) list \<Rightarrow> http \<Rightarrow> (string \<Rightarrow> go_error + SignedEmergencyPolicy) \<Rightarrow> (bytes \<Rightarrow> bytes \<Rightarrow> bytes \<Rightarrow> bool) \<Rightarrow> instant \<Rightarrow>
   RelayOptions option \<Rightarrow> bool \<Rightarrow> bool" where
  "applyEmergencyPolicyOnce encodings http decode ed_verify now relay blocked =
     (case relay of
        None \<Rightarrow> blocked
      | Some r \<Rightarrow>
        let url = trim_space (ro_EmergencyPolicyURL r); pkb = trim_space (ro_EmergencyPolicyPubKey r) in
        if url = [] \<or> pkb = [] then blocked
        else case DecodeEd25519PublicKey encodings pkb of
          Inl _ \<Rightarrow> blocked
        | Inr pub \<Rightarrow>
          (case FetchBootstrapBody http url of
             Inl _ \<Rightarrow> blocked
           | Inr raw \<Rightarrow>
             (case ParseSignedEmergencyPolicyJSON decode (bytes_str raw) of
                Inl _ \<Rightarrow> blocked
              | Inr pol \<Rightarrow>
                (case emergency_Verify ed_verify pol pub now of
                   Some _ \<Rightarrow> False
                 | None \<Rightarrow> ep_DisablePeerRelay pol))))"

section \<open>Managed clients\<close>

definition sha256Hex :: "(bytes \<Rightarrow> bytes) \<Rightarrow> string \<Rightarrow> string" where
  "sha256Hex sha256 s = hex_encode (sha256 (str_bytes s))"

definition managedDeviceID :: "string \<Rightarrow> string \<Rightarrow> string" where
  "managedDeviceID goos hostname = goos @ '':'' @ (if trim_space hostname = [] then ''unknown'' else trim_space hostname)"

text \<open>\<open>rnd\<close> is what the random source brings; without it the time stands in.\<close>

definition randomB64 :: "bytes option \<Rightarrow> instant \<Rightarrow> string" where
  "randomB64 rnd now = (case rnd of None \<Rightarrow> itoa now | Some b \<Rightarrow> b64_raw_url_encode b)"

definition protectionWithManagedAuth ::
  "(bytes \<Rightarrow> bytes) \<Rightarrow> (bytes \<Rightarrow> bytes \<Rightarrow> bytes) \<Rightarrow> bytes option \<Rightarrow> instant \<Rightarrow> string \<Rightarrow> string \<Rightarrow> ProtectionOptions option \<Rightarrow>
   ManagedClient option \<Rightarrow> ProtectionOptions option" where
  "protectionWithManagedAuth sha256 hmac rnd now goos hostname base managed =
     (case managed of
        None \<Rightarrow> base
      | Some m \<Rightarrow>
        if trim_space (mc_ClientID m) = [] \<or> trim_space (mc_Secret m) = [] then base
        else
          let nonce = randomB64 rnd now; ts = unix now; device = managedDeviceID goos hostname; clientID = trim_space (mc_ClientID m);
              secretHash = sha256Hex sha256 (trim_space (mc_Salt m) @ '':'' @ trim_space (mc_Secret m));
              msg = clientID @ ''|'' @ device @ ''|'' @ nonce @ ''|'' @ itoa ts
          in Some ((or_zero base)\<lparr>po_ManagedClientID := clientID, po_ManagedDeviceID := device, po_ManagedNonce := nonce,
                po_ManagedTsSec := ts, po_ManagedSig := b64_raw_url_encode (hmac (str_bytes secretHash) (str_bytes msg))\<rparr>))"

section \<open>Volunteers\<close>

definition registryStaleAge :: duration where "registryStaleAge = 10 * minute"

record Entry =
  en_ClientUUID :: string
  en_Volunteer :: bool
  en_DpiPresetRef :: string
  en_LastSeen :: instant

type_synonym Registry = "(string, Entry) gomap"

definition evictStaleLocked :: "instant \<Rightarrow> Registry \<Rightarrow> Registry" where
  "evictStaleLocked now m = filter (\<lambda>(i, e). \<not> en_LastSeen e < now - registryStaleAge) m"

text \<open>\<open>t1\<close> and \<open>t2\<close> are the two readings of the clock.\<close>

definition reg_Upsert :: "instant \<Rightarrow> instant \<Rightarrow> Entry \<Rightarrow> Registry \<Rightarrow> Registry" where
  "reg_Upsert t1 t2 e m =
     (if en_ClientUUID e = [] then m
      else
        let e = (if en_LastSeen e = zero_time then e\<lparr>en_LastSeen := t1\<rparr> else e)
        in mput (en_ClientUUID e) e (evictStaleLocked t2 m))"

definition reg_Snapshot :: "(Registry \<Rightarrow> Registry) \<Rightarrow> instant \<Rightarrow> Registry \<Rightarrow> Entry list \<times> Registry" where
  "reg_Snapshot order now m = (let m = evictStaleLocked now m in (map snd (order m), m))"

text \<open>The document of the volunteers: the node, the time, the entries with their times in milliseconds.\<close>

definition ExportClusterJSON ::
  "(string \<times> int \<times> (string \<times> bool \<times> string \<times> int) list \<Rightarrow> bytes) \<Rightarrow> (Registry \<Rightarrow> Registry) \<Rightarrow> instant \<Rightarrow> string \<Rightarrow> instant \<Rightarrow>
   Registry \<Rightarrow> bytes" where
  "ExportClusterJSON marshal order clock node now m =
     marshal (node, unix_milli now,
       map (\<lambda>e. (en_ClientUUID e, en_Volunteer e, en_DpiPresetRef e, unix_milli (en_LastSeen e))) (fst (reg_Snapshot order clock m)))"

section \<open>The log of sessions\<close>

definition maxRecords :: nat where "maxRecords = 500"

definition store_Append :: "'r \<Rightarrow> 'r list \<Rightarrow> 'r list" where
  "store_Append r records =
     (let records = records @ [r] in
      if length records > maxRecords then drop (length records - maxRecords) records else records)"


section \<open>The head key\<close>

text \<open>The store of a node that takes the requests sent to it, each at its own time.\<close>

definition node_after ::
  "((string, relayEntry) gomap \<Rightarrow> (string, relayEntry) gomap) \<Rightarrow> (KVStore \<Rightarrow> KVStore) \<Rightarrow> hmac \<Rightarrow> dht_json \<Rightarrow> string \<Rightarrow> Table \<Rightarrow>
   (nat \<Rightarrow> instant) \<Rightarrow> (nat \<Rightarrow> u32) \<Rightarrow> string \<Rightarrow> store_req list \<Rightarrow> KVStore \<Rightarrow> KVStore" where
  "node_after torder korder hmac j secret tab clk ids seed reqs kv =
     fold (\<lambda>(i, (n, key, ttl, v)). server_after_store torder korder hmac j secret tab (clk i) (ids i) key ttl v)
       (enumerate 0 (filter (\<lambda>r. fst r = seed) reqs)) kv"

lemma kv_ok_server:
  assumes "\<And>k d. length (hmac k d) = 32" and "json_laws j" and "range_order korder" and "length key = 32" and "kv_ok kv"
  shows "kv_ok (server_after_store torder korder hmac j secret tab now i key ttl v kv)"
  unfolding server_after_store_def serve_store [of hmac, OF assms(1,2,4)]
  using kv_ok_Put [OF assms(3,5)] by (simp add: split_beta Let_def)

lemma kv_ok_serve_all:
  assumes "\<And>k d. length (hmac k d) = 32" and "json_laws j" and "range_order korder"
    and "\<forall>(i, (n, key, ttl, v)) \<in> set rs. length key = 32" and "kv_ok kv"
  shows "kv_ok (fold (\<lambda>(i, (n, key, ttl, v)). server_after_store torder korder hmac j secret tab (clk i) (ids i) key ttl v) rs kv)"
  using assms(4,5)
proof (induction rs arbitrary: kv)
  case (Cons r rs)
  obtain i n key ttl v where r: "r = (i, n, key, ttl, v)" by (cases r) auto
  show ?case using Cons.prems kv_ok_server [of hmac, OF assms(1-3), of key kv]
    by (simp add: r Cons.IH)
qed simp

text \<open>What was stored last at a node is what a peer gets from it.\<close>

lemma last_store_got:
  assumes "\<And>k d. length (hmac k d) = 32" and "json_laws j" and "range_order korder" and "kv_ok kv"
    and "filter (\<lambda>r. fst r = seed) reqs = rs @ [(seed, key, ttl, v)]"
    and "\<forall>(n, key, ttl, v) \<in> set reqs. length key = 32" and "0 < ttl" and "now \<le> clk (length rs) + uint ttl * second"
  shows "UDPGet hmac j secret (server_net torder korder hmac j secret tab now
      (node_after torder korder hmac j secret tab clk ids seed reqs kv)) i key = Inr (Some (take 4096 v))"
proof -
  have S: "set (rs @ [(seed, key, ttl, v)]) \<subseteq> set reqs" using assms(5) by (metis filter_is_subset)
  then have k: "length key = 32" using assms(6) by auto
  have K: "\<forall>(i, (n, key, ttl, v)) \<in> set (enumerate 0 rs). length key = 32"
    using S assms(6) by (fastforce simp: in_set_enumerate_eq dest!: nth_mem)
  let ?f = "\<lambda>(i, (n, key, ttl, v)). server_after_store torder korder hmac j secret tab (clk i) (ids i) key ttl v"
  have e: "node_after torder korder hmac j secret tab clk ids seed reqs kv =
      server_after_store torder korder hmac j secret tab (clk (length rs)) (ids (length rs)) key ttl v
        (fold ?f (enumerate 0 rs) kv)"
    by (simp add: node_after_def assms(5) enumerate_append_eq)
  show ?thesis unfolding e
    by (rule store_then_get [THEN conjunct2, OF assms(1-3) kv_ok_serve_all [OF assms(1-3) K assms(4)] k assms(7,8)])
qed

lemma replicate_Suc_append: "concat (replicate (Suc n) xs) = concat (replicate n xs) @ xs"
  by (induction n) simp_all

lemma concat_append_last:
  assumes "x \<in> set xs" and "\<And>y. filter P (f y) = (if g y then [a, b] else [])" and "g x"
  shows "\<exists>ys. filter P (concat (map f xs)) = ys @ [b]"
proof -
  have e: "filter P (concat (map f xs)) = concat (replicate (length (filter g xs)) [a, b])"
    by (induction xs) (simp_all add: assms(2))
  have "filter g xs \<noteq> []" using assms(1,3) by (auto simp: filter_empty_conv)
  then obtain n where "length (filter g xs) = Suc n" by (cases "filter g xs") auto
  then have "filter P (concat (map f xs)) = (concat (replicate n [a, b]) @ [a]) @ [b]"
    unfolding e by (simp only: replicate_Suc_append) simp
  then show ?thesis by blast
qed

lemma cp_requests_last:
  assumes "seed \<in> trim_space ` set seeds" and "seed \<noteq> []" and "marshal m = Some b"
    and "\<not> wrap64 (cm_CreatedAt m + cm_TTL m) \<le> unix_milli now"
  shows "\<exists>rs. filter (\<lambda>r. fst r = seed) (cp_requests sha256 marshal relay seeds now m) =
    rs @ [(seed, cp_head_key sha256 (ro_PeerID relay), cp_ttl m, b)]"
proof -
  obtain s where s: "s \<in> set seeds" "trim_space s = seed" using assms(1) by auto
  have "\<exists>ys. filter (\<lambda>r. fst r = seed) (concat (map (\<lambda>seed. let seed = trim_space seed in
          if seed = [] then []
          else [(seed, cp_message_key sha256 (ro_PeerID relay) (cm_ID m), cp_ttl m, b),
                (seed, cp_head_key sha256 (ro_PeerID relay), cp_ttl m, b)]) seeds)) =
      ys @ [(seed, cp_head_key sha256 (ro_PeerID relay), cp_ttl m, b)]"
    by (rule concat_append_last [where g = "\<lambda>s. trim_space s = seed" and x = s,
          where a = "(seed, cp_message_key sha256 (ro_PeerID relay) (cm_ID m), cp_ttl m, b)"])
      (use s assms(2) in \<open>auto simp: Let_def\<close>)
  then show ?thesis using assms(3,4) by (simp add: cp_requests_def)
qed

lemma set_cp_requests:
  assumes "(n, key, ttl, v) \<in> set (cp_requests sha256 marshal relay seeds now m)" and "\<And>b. length (sha256 b) = 32"
  shows "length key = 32"
  using assms by (auto simp: cp_requests_def cp_head_key_def cp_message_key_def Let_def split: if_splits option.splits)

lemma flush_tick_last:
  assumes "seed \<in> trim_space ` set seeds" and "seed \<noteq> []"
    and "m = last (cq_pending (cp_enqueue sha256 relay t1 t2 ''heartbeat'' ''alive'' (30 * second) q))"
    and "marshal m = Some b" and "0 \<le> t2" and "t2 + 30 * second < 2 ^ 63" and "t3 < t2 + 29 * second"
  shows "\<exists>rs. filter (\<lambda>r. fst r = seed) (fst (cp_flush_tick sha256 marshal relay seeds t1 t2 t3 ans (q, st))) =
    rs @ [(seed, cp_head_key sha256 (ro_PeerID relay), 30, b)]"
proof -
  have m: "cm_CreatedAt m = unix_milli t2" "cm_TTL m = 30000"
    by (simp_all add: assms(3) cp_enqueue_def go_div_def second_def millisecond_def)
  have w: "wrap64 (cm_CreatedAt m + cm_TTL m) = unix_milli t2 + 30000"
    unfolding m by (rule wrap64_id) (use assms(5,6) in \<open>simp_all add: unix_milli_def second_def\<close>)
  have lt: "\<not> wrap64 (cm_CreatedAt m + cm_TTL m) \<le> unix_milli t3"
    unfolding w using assms(7) by (simp add: unix_milli_def second_def)
  have ttl: "cp_ttl m = 30" by (simp add: cp_ttl_def m go_div_def)
  obtain rs where r: "filter (\<lambda>r. fst r = seed) (cp_requests sha256 marshal relay seeds t3 m) =
      rs @ [(seed, cp_head_key sha256 (ro_PeerID relay), 30, b)]"
    using cp_requests_last [of seed seeds marshal m b t3, OF assms(1,2,4) lt] unfolding ttl by blast
  have "cq_pending (cp_enqueue sha256 relay t1 t2 ''heartbeat'' ''alive'' (30 * second) q) = cq_pending q @ [m]"
    by (simp add: assms(3) cp_enqueue_def)
  then show ?thesis using r by (simp add: cp_flush_tick_def flushControlQueue_def Let_def)
qed


definition demo_cp_marshal :: "controlPlaneMessage \<Rightarrow> bytes option" where
  "demo_cp_marshal m = Some (str_bytes (cm_Type m))"


section \<open>What a receiver remembers\<close>

definition seen_ok :: "(string, int) gomap \<Rightarrow> bool" where
  "seen_ok seen \<longleftrightarrow> gomap_ok seen \<and> length seen \<le> Suc cpSeenMax"

lemma fold_mdel_keys:
  "gomap_ok m \<Longrightarrow> distinct (map fst xs) \<Longrightarrow> set xs \<subseteq> set m \<Longrightarrow>
   gomap_ok (fold (\<lambda>(k, t). mdel k) xs m) \<and> length (fold (\<lambda>(k, t). mdel k) xs m) + length xs = length m"
proof (induction xs arbitrary: m)
  case (Cons x xs)
  obtain k t where x: "x = (k, t)" by (cases x)
  have k: "mget m k = Some t" using Cons.prems by (simp add: x mget_in)
  have "set xs \<subseteq> set (mdel k m)" using Cons.prems by (force simp: x set_mdel)
  from Cons.IH [OF gomap_ok_mdel [OF Cons.prems(1)] _ this] Cons.prems(2) length_mdel [OF Cons.prems(1) k]
  show ?case by (simp add: x)
qed simp

lemma prune_ok:
  assumes "range_order order" and "gomap_ok seen"
  shows "gomap_ok (pruneSeenLocked order now seen) \<and> length (pruneSeenLocked order now seen) \<le> cpSeenMax"
proof -
  define s where "s = filter (\<lambda>(k, t). \<not> t < unix_milli now - go_div cpSeenTTL millisecond) seen"
  have g: "gomap_ok s" unfolding s_def by (rule gomap_ok_filter [OF assms(2)])
  let ?x = "take (length s - cpSeenMax) (sort_key snd (order s))"
  have o: "set (order s) = set s" "gomap_ok (order s)" using assms(1) g by (simp_all add: range_order_def)
  have "distinct (map fst (sort_key snd (order s)))"
    using o(2) by (simp add: gomap_ok_def distinct_map)
  then have d: "distinct (map fst ?x)" by (simp add: take_map [symmetric])
  have "set ?x \<subseteq> set s" using set_take_subset [of "length s - cpSeenMax" "sort_key snd (order s)"] o(1) by simp
  note f = fold_mdel_keys [OF g d this]
  have "length (order s) = length s"
    using g o by (metis distinct_card gomap_ok_def distinct_map)
  then show ?thesis using f g by (auto simp: pruneSeenLocked_def s_def [symmetric] Let_def)
qed

lemma receive_ok:
  assumes "range_order order" and "seen_ok (cq_seen (fst qs))"
  shows "seen_ok (cq_seen (fst (cp_receive order decode now r qs))) \<and>
    cq_pending (fst (cp_receive order decode now r qs)) = cq_pending (fst qs)"
proof -
  have p: "gomap_ok (pruneSeenLocked order now (cq_seen (fst qs)))"
    "length (pruneSeenLocked order now (cq_seen (fst qs))) \<le> cpSeenMax"
    using prune_ok [OF assms(1)] assms(2) by (simp_all add: seen_ok_def)
  show ?thesis using assms(2) p
    by (auto simp: cp_receive_def Let_def split_beta seen_ok_def gomap_ok_mput length_mput_new split: sum.splits option.splits)
qed

text \<open>
  A pull keeps the memory of a receiver to at most 8193 messages with no message twice, whatever the nodes answer and
  in whatever order the map is walked, and leaves the messages waiting to be sent alone.
\<close>

theorem inbox_bounded:
  assumes "range_order order" and "seen_ok (cq_seen (fst qs))"
    and "qs' = pullControlInbox sha256 torder order decode clk ans tab relay seeds qs"
  shows "seen_ok (cq_seen (fst qs')) \<and> cq_pending (fst qs') = cq_pending (fst qs)"
proof -
  have "seen_ok (cq_seen (fst (fold (\<lambda>i. cp_receive order decode (clk i) (ans i)) is qs))) \<and>
      cq_pending (fst (fold (\<lambda>i. cp_receive order decode (clk i) (ans i)) is qs)) = cq_pending (fst qs)" for "is"
    using assms(2) by (induction "is" arbitrary: qs) (simp_all add: receive_ok [OF assms(1)])
  then show ?thesis by (simp add: assms(3) pullControlInbox_def)
qed

theorem inbox_bounded_witness:
  "seen_ok (cq_seen (fst (pullControlInbox demo_sha id rev (\<lambda>_. None) (\<lambda>i. 5) (\<lambda>i. Inr (Some [1])) (NewTable demo_sha ''me'')
     ro_zero [''s''] (\<lparr>cq_pending = [], cq_seen = [(''m'', 3)]\<rparr>, \<lparr>st_Sent = 0, st_Received = 0\<rparr>))))"
  using inbox_bounded [OF demo_ok(3) _ refl, THEN conjunct1,
      of "(\<lparr>cq_pending = [], cq_seen = [(''m'', 3)]\<rparr>, \<lparr>st_Sent = 0, st_Received = 0\<rparr>)" demo_sha id "\<lambda>_. None" "\<lambda>i. 5"
        "\<lambda>i. Inr (Some [1])" "NewTable demo_sha ''me''" ro_zero "[''s'']"]
  by (simp add: seen_ok_def gomap_ok_def)

section \<open>Presence, published and fetched\<close>

lemma dedupe_from_fixed:
  "\<forall>s \<in> set ss. usable_addr s \<and> to_lower s \<notin> set seen \<Longrightarrow> distinct (map to_lower ss) \<Longrightarrow> dedupe_from seen ss = ss"
proof (induction ss arbitrary: seen)
  case (Cons s ss)
  have "\<forall>r \<in> set ss. usable_addr r \<and> to_lower r \<notin> set (to_lower s # seen)" using Cons.prems by auto (metis image_eqI)
  moreover have "distinct (map to_lower ss)" using Cons.prems(2) by simp
  ultimately have "dedupe_from (to_lower s # seen) ss = ss" by (rule Cons.IH)
  then show ?case using Cons.prems by (simp add: usable_addr_def)
qed simp

lemma merge_merge:
  assumes "mergePresenceEndpoints p es = c # cs"
  shows "mergePresenceEndpoints c (c # cs) = c # cs"
proof -
  have a: "\<forall>s \<in> set (c # cs). usable_addr s" "distinct (map to_lower (c # cs))"
    using dedupe_from_spec [of "[]" "p # es"] assms by (simp_all add: mergePresenceEndpoints_def)
  then have "\<forall>r \<in> set cs. usable_addr r \<and> to_lower r \<notin> set [to_lower c]" by auto (metis image_eqI)
  moreover have "distinct (map to_lower cs)" using a(2) by simp
  ultimately have "dedupe_from [to_lower c] cs = cs" by (rule dedupe_from_fixed)
  then show ?thesis using a(1) by (simp add: mergePresenceEndpoints_def usable_addr_def)
qed


definition demo_presence_dec :: "bytes \<Rightarrow> dhtPresenceRecord option" where
  "demo_presence_dec b = (if b = [1] then Some \<lparr>dp_Srflx = ''a:1'', dp_Candidates = [''a:1'', ''b:2''], dp_Epoch = 0\<rparr> else None)"


section \<open>The policy, the registry and the log\<close>

text \<open>
  The emergency policy fails open: a round on which the fetched document parses but does not verify (it is expired, or signed
  by nobody) lifts a block that an earlier, verified policy imposed, so whoever can answer the fetch, without the key, can lift it. Only a
  policy that verifies and asks for it imposes a block.
\<close>

theorem emergency_fail_open:
  assumes "emergencyPolicyConfigured (Some r)"
    and "DecodeEd25519PublicKey encodings (ro_EmergencyPolicyPubKey r) = Inr pub"
    and "FetchBootstrapBody http (ro_EmergencyPolicyURL r) = Inr raw"
    and "ParseSignedEmergencyPolicyJSON decode (bytes_str raw) = Inr pol"
    and "after = applyEmergencyPolicyOnce encodings http decode ed_verify now (Some r)"
  shows "if unix now > ep_ExpiresAt pol \<or>
           (\<forall>sig. b64_decode (trim_space (ep_Signature pol)) = Some sig \<longrightarrow>
              \<not> ed_verify pub (emergencySigningPayload (ep_EpochSec pol) (ep_ExpiresAt pol) (ep_DisablePeerRelay pol)) sig)
         then \<not> after True
         else length pub = 32 \<longrightarrow> after blocked = ep_DisablePeerRelay pol"
proof -
  have d: "DecodeEd25519PublicKey encodings (trim_space (ro_EmergencyPolicyPubKey r)) = Inr pub"
    "FetchBootstrapBody http (trim_space (ro_EmergencyPolicyURL r)) = Inr raw"
    using assms(2,3) by (simp_all add: DecodeEd25519PublicKey_def FetchBootstrapBody_def)
  have a: "after b = (emergency_Verify ed_verify pol pub now = None \<and> ep_DisablePeerRelay pol)" for b
    using assms(1,4) by (auto simp: assms(5) applyEmergencyPolicyOnce_def emergencyPolicyConfigured_def d Let_def split: option.splits)
  show ?thesis unfolding a by (auto simp: emergency_Verify_def Let_def split: option.splits)
qed

theorem emergency_fail_open_witness:
  "\<not> applyEmergencyPolicyOnce [\<lambda>_. Some (replicate 32 0)] (\<lambda>_. Inr (200, [])) 
      (\<lambda>_. Inr \<lparr>ep_EpochSec = 0, ep_ExpiresAt = 9, ep_DisablePeerRelay = True, ep_Signature = ''''\<rparr>) (\<lambda>_ _ _. False) 0
      (Some (ro_zero\<lparr>ro_EmergencyPolicyURL := ''u'', ro_EmergencyPolicyPubKey := ''k''\<rparr>)) True"
proof -
  have t: "trim_space ''u'' = ''u''" "trim_space ''k'' = ''k''" by code_simp+
  show ?thesis
    using emergency_fail_open [of "ro_zero\<lparr>ro_EmergencyPolicyURL := ''u'', ro_EmergencyPolicyPubKey := ''k''\<rparr>"
      "[\<lambda>_. Some (replicate 32 0)]" "replicate 32 0" "\<lambda>_. Inr (200, [])" "[]"
      "\<lambda>_. Inr \<lparr>ep_EpochSec = 0, ep_ExpiresAt = 9, ep_DisablePeerRelay = True, ep_Signature = ''''\<rparr>" _ _ "\<lambda>_ _ _. False" 0 True,
      OF _ _ _ _ refl]
    by (simp add: emergencyPolicyConfigured_def t DecodeEd25519PublicKey_def FetchBootstrapBody_def
        ParseSignedEmergencyPolicyJSON_def MaxBootstrapBodyBytes_def)
qed

text \<open>What the registry promises: for each client the last entry brought, as long as it is fresh.\<close>

definition reg_stamp :: "instant \<Rightarrow> Entry \<Rightarrow> Entry" where
  "reg_stamp t e = (if en_LastSeen e = zero_time then e\<lparr>en_LastSeen := t\<rparr> else e)"

definition reg_latest :: "(instant \<times> instant \<times> Entry) list \<Rightarrow> string \<Rightarrow> Entry option" where
  "reg_latest evs = fold (\<lambda>(t1, t2, e) l. if en_ClientUUID e = [] then l else l(en_ClientUUID e \<mapsto> reg_stamp t1 e)) evs Map.empty"

definition reg_fresh :: "instant \<Rightarrow> Entry option \<Rightarrow> Entry option" where
  "reg_fresh now x = (case x of Some e \<Rightarrow> if now - registryStaleAge \<le> en_LastSeen e then Some e else None | None \<Rightarrow> None)"

lemma reg_fresh_later: "reg_fresh t x = reg_fresh t y \<Longrightarrow> t \<le> t' \<Longrightarrow> reg_fresh t' x = reg_fresh t' y"
  by (force simp: reg_fresh_def split: option.splits if_splits)

lemma mget_evict: "gomap_ok m \<Longrightarrow> mget (evictStaleLocked t m) i = reg_fresh t (mget m i)"
  unfolding evictStaleLocked_def reg_fresh_def
  by (subst mget_filter [where p = "\<lambda>_ e. \<not> en_LastSeen e < t - registryStaleAge"]) (auto split: option.splits)

lemma reg_step:
  assumes "gomap_ok m" and "\<forall>i. reg_fresh t (mget m i) = reg_fresh t (l i)" and "t \<le> t2"
  shows "gomap_ok (reg_Upsert t1 t2 e m) \<and>
    (\<forall>i. reg_fresh t2 (mget (reg_Upsert t1 t2 e m) i) =
       reg_fresh t2 ((if en_ClientUUID e = [] then l else l(en_ClientUUID e \<mapsto> reg_stamp t1 e)) i))"
proof -
  have a: "reg_fresh t2 (mget m i) = reg_fresh t2 (l i)" for i using assms(2,3) reg_fresh_later by blast
  have i: "reg_fresh t2 (reg_fresh t2 x) = reg_fresh t2 x" for x by (simp add: reg_fresh_def split: option.splits)
  have g: "gomap_ok (evictStaleLocked t2 m)" by (simp add: evictStaleLocked_def gomap_ok_filter assms(1))
  show ?thesis
    using assms(1) g a by (auto simp: reg_Upsert_def reg_stamp_def [symmetric] Let_def gomap mget_evict i) (auto simp: reg_stamp_def gomap)
qed

lemma reg_run:
  assumes "sorted (map (\<lambda>(t1, t2, e). t2) evs)"
  shows "gomap_ok (fold (\<lambda>(t1, t2, e). reg_Upsert t1 t2 e) evs []) \<and>
    (\<forall>t. (\<forall>(t1, t2, e) \<in> set evs. t2 \<le> t) \<longrightarrow>
      (\<forall>i. reg_fresh t (mget (fold (\<lambda>(t1, t2, e). reg_Upsert t1 t2 e) evs []) i) = reg_fresh t (reg_latest evs i)))"
  using assms
proof (induction evs rule: rev_induct)
  case Nil
  then show ?case by (simp add: reg_latest_def mget_Nil)
next
  case (snoc x evs)
  obtain t1 t2 e where x: "x = (t1, t2, e)" by (cases x) auto
  have s: "sorted (map (\<lambda>(t1, t2, e). t2) evs)" "\<forall>(t1, t', e) \<in> set evs. t' \<le> t2"
    using snoc.prems by (auto simp: x sorted_append)
  let ?m = "fold (\<lambda>(t1, t2, e). reg_Upsert t1 t2 e) evs []"
  have "gomap_ok ?m" "\<forall>i. reg_fresh t2 (mget ?m i) = reg_fresh t2 (reg_latest evs i)"
    using snoc.IH [OF s(1)] s(2) by blast+
  from reg_step [OF this order_refl, of t1 e]
  have "gomap_ok (reg_Upsert t1 t2 e ?m)"
    "\<forall>i. reg_fresh t2 (mget (reg_Upsert t1 t2 e ?m) i) = reg_fresh t2 (reg_latest (evs @ [x]) i)"
    by (auto simp: reg_latest_def x)
  then show ?case by (auto simp: x intro: reg_fresh_later)
qed

text \<open>
  C22. The registry of volunteers refines its promise: after any upserts, made in the order of time, a snapshot lists for each
  client the last entry brought for it, when that was seen in the last 10 minutes, and nothing else, whatever was evicted in between.
\<close>

theorem registry_refines:
  assumes "range_order order" and "sorted (map (\<lambda>(t1, t2, e). t2) evs)" and "\<forall>(t1, t2, e) \<in> set evs. t2 \<le> now"
    and "(out, m) = reg_Snapshot order now (fold (\<lambda>(t1, t2, e). reg_Upsert t1 t2 e) evs [])"
  shows "gomap_ok m \<and> (\<forall>i. mget m i = reg_fresh now (reg_latest evs i)) \<and>
    set out = {e. \<exists>i. reg_fresh now (reg_latest evs i) = Some e}"
proof -
  let ?m = "fold (\<lambda>(t1, t2, e). reg_Upsert t1 t2 e) evs []"
  have g: "gomap_ok ?m" and f: "reg_fresh now (mget ?m i) = reg_fresh now (reg_latest evs i)" for i
    using reg_run [OF assms(2)] assms(3) by blast+
  have m: "m = evictStaleLocked now ?m" "out = map snd (order m)" using assms(4) by (simp_all only: reg_Snapshot_def Let_def prod.inject)
  have gm: "gomap_ok m" by (simp add: m(1) evictStaleLocked_def gomap_ok_filter g)
  have e: "mget m i = reg_fresh now (reg_latest evs i)" for i by (simp add: m(1) mget_evict g f)
  have "set out = snd ` set m" by (simp add: m(2) range_order_set [OF assms(1) gm])
  also have "\<dots> = {e. \<exists>i. mget m i = Some e}" by (force simp: mget_in [OF gm, symmetric])
  finally show ?thesis using gm e by simp
qed

definition demo_upserts :: "(instant \<times> instant \<times> Entry) list" where
  "demo_upserts = [(1, 2, \<lparr>en_ClientUUID = ''a'', en_Volunteer = True, en_DpiPresetRef = [], en_LastSeen = 5\<rparr>),
     (7, 600 * second, \<lparr>en_ClientUUID = ''b'', en_Volunteer = True, en_DpiPresetRef = [], en_LastSeen = 600 * second\<rparr>)]"

theorem registry_refines_witness:
  "mget (snd (reg_Snapshot rev (900 * second) (fold (\<lambda>(t1, t2, e). reg_Upsert t1 t2 e) demo_upserts []))) ''a'' = None"
proof -
  have "sorted (map (\<lambda>(t1, t2, e). t2) demo_upserts)" "\<forall>(t1, t2, e) \<in> set demo_upserts. t2 \<le> 900 * second"
    by (simp_all add: demo_upserts_def second_def)
  note r = registry_refines [OF demo_ok(3) this prod.collapse]
  have "reg_fresh (900 * second) (reg_latest demo_upserts ''a'') = None" by code_simp
  then show ?thesis using r by simp
qed

lemma append_keeps_last: "store_Append r (drop (length xs - 500) xs) = drop (length (xs @ [r]) - 500) (xs @ [r])"
proof (cases "500 \<le> length xs")
  case True
  then have "Suc (length xs - 500) = length xs - 499" by simp
  then show ?thesis using True by (simp add: store_Append_def maxRecords_def Let_def)
qed (simp add: store_Append_def maxRecords_def Let_def)

text \<open>The log keeps the last 500 sessions in order: appending any records is appending them all and keeping the end.\<close>

theorem log_keeps_last:
  "fold store_Append rs (drop (length rs0 - 500) rs0) = drop (length (rs0 @ rs) - 500) (rs0 @ rs)"
proof (induction rs rule: rev_induct)
  case (snoc r rs)
  then show ?case using append_keeps_last [of r "rs0 @ rs"] by simp
qed simp

end
