(* ===== verification/UdpMux.thy ===== *)
theory UdpMux
  imports Background Shaper
begin

text \<open>
  The UDP traffic of a session (\<^verbatim>\<open>internal/vpn/vpn.go\<close>): the multiplexer that carries the flows of the tunnel over a
  few channels to the server, its set-up over TCP and QUIC, the writer of a channel with its shaping, the reader with its recovery, and the handler
  of a flow. Links are numbers, what dialling brings is an argument; the bytes of a channel are those of theory Messages. The lock of
  a channel is left out.
\<close>

section \<open>Channels\<close>

record udpAssocKey =
  ak_SrcPort :: u16
  ak_DstIP :: string
  ak_DstPort :: u16

record udpChan =
  uc_conn :: nat
  uc_slot :: int
  uc_maxPad :: int
  uc_burstSmoothMaxMs :: int
  uc_shapeJitterMaxMs :: int
  uc_shapeExpMeanMs :: int
  uc_shape :: "ByteBucket option"
  uc_shaper :: "Shaper option"

definition buildShaper :: "ProtectionOptions option \<Rightarrow> int \<Rightarrow> Shaper option" where
  "buildShaper prot slot =
     (case prot of
        None \<Rightarrow> None
      | Some p \<Rightarrow>
        if \<not> po_ShaperEnabled p then None
        else Some (New \<lparr>shc_Enabled = True, shc_Profile = po_ShaperProfile p, shc_MaxOverheadPct = po_ShaperMaxOverheadPct p,
               shc_MaxDelayMs = po_ShaperMaxDelayMs p, shc_Seed = word_of_int (slot + 1)\<rparr>))"

text \<open>A channel on a link; only those over TCP smooth their bursts.\<close>

definition udp_chan :: "bool \<Rightarrow> instant \<Rightarrow> ProtectionOptions option \<Rightarrow> int \<Rightarrow> nat \<Rightarrow> int \<Rightarrow> udpChan" where
  "udp_chan smooth now prot slot conn pad =
     (let p = or_zero prot; pos = (\<lambda>v. if v > 0 then v else 0) in
      \<lparr>uc_conn = conn, uc_slot = slot, uc_maxPad = pad,
       uc_burstSmoothMaxMs = (if smooth then pos (po_BurstSmoothingMaxMs p) else 0),
       uc_shapeJitterMaxMs = pos (po_ShapeJitterMaxMs p), uc_shapeExpMeanMs = pos (po_ShapeExpMeanMs p),
       uc_shape = NewByteBucket now (po_ShapeMaxKbps p), uc_shaper = buildShaper prot slot\<rparr>)"

text \<open>\<open>dial c a\<close> is the \<open>c\<close>-th dial, to the address \<open>a\<close>. A round tries the addresses in turn and keeps the last error.\<close>

type_synonym chan_dial = "nat \<Rightarrow> string \<Rightarrow> go_error + nat \<times> int"

fun chan_tries :: "chan_dial \<Rightarrow> nat \<Rightarrow> string list \<Rightarrow> go_error option \<Rightarrow> (go_error option + nat \<times> int) \<times> nat" where
  "chan_tries dial c [] prev = (Inl prev, c)"
| "chan_tries dial c (a # as) prev =
     (case dial c a of
        Inl e \<Rightarrow> chan_tries dial (c + 1) as (Some e)
      | Inr l \<Rightarrow> (Inr l, c + 1))"

text \<open>The rounds, with the pauses between them.\<close>

fun chan_rounds ::
  "chan_dial \<Rightarrow> string list \<Rightarrow> nat \<Rightarrow> duration \<Rightarrow> nat \<Rightarrow> go_error option \<Rightarrow> (go_error + nat \<times> int) \<times> duration list \<times> nat" where
  "chan_rounds dial as 0 backoff c prev = (Inl (case prev of None \<Rightarrow> Error ''dial failed'' | Some e \<Rightarrow> e), [], c)"
| "chan_rounds dial as (Suc n) backoff c prev =
     (case chan_tries dial c as prev of
        (Inr l, c) \<Rightarrow> (Inr l, [], c)
      | (Inl prev, c) \<Rightarrow>
        let (r, sleeps, c) = chan_rounds dial as n (if backoff < 1200 * millisecond then backoff * 2 else backoff) c prev
        in (r, if n > 0 then backoff # sleeps else sleeps, c))"

definition turned :: "nat \<Rightarrow> 'a list \<Rightarrow> 'a list" where
  "turned start xs = map (\<lambda>i. xs ! ((start + i) mod length xs)) [0..<length xs]"

definition newUDPChan ::
  "chan_dial \<Rightarrow> instant \<Rightarrow> byte \<Rightarrow> string list \<Rightarrow> ProtectionOptions option \<Rightarrow> (go_error + udpChan) \<times> duration list \<times> nat" where
  "newUDPChan dial now i addrs prot =
     (if addrs = [] then (Inl (Panic ''integer divide by zero''), [], 0)
      else
        let (r, sleeps, c) = chan_rounds dial (turned (unat i mod length addrs) addrs) 3 (250 * millisecond) 0 None
        in (map_sum id (\<lambda>(conn, pad). udp_chan True now prot (uint i) conn pad) r, sleeps, c))"

section \<open>The multiplexer\<close>

text \<open>An association is a flow of the tunnel, a number; \<open>mx_quic\<close> is the shared connection.\<close>

record udpMux =
  mx_chans :: "udpChan list"
  mx_assoc :: "(udpAssocKey, nat) gomap"
  mx_quic :: "nat option"

text \<open>\<open>qdial k\<close> is the \<open>k\<close>-th attempt over QUIC: the connection, and the link and padding of each stream.\<close>

fun quic_attempts ::
  "(nat \<Rightarrow> go_error + nat \<times> (nat \<times> int) list) \<Rightarrow> nat \<Rightarrow> nat \<Rightarrow> duration \<Rightarrow> (go_error + nat \<times> (nat \<times> int) list) \<times> duration list" where
  "quic_attempts qdial attempt 0 backoff = (Inl (Error ''''), [])"
| "quic_attempts qdial attempt (Suc n) backoff =
     (case qdial attempt of
        Inr r \<Rightarrow> (Inr r, [])
      | Inl e \<Rightarrow>
        if n = 0 then (Inl e, [])
        else let (r, sleeps) = quic_attempts qdial (attempt + 1) n (if backoff < 2 * second then backoff * 2 else backoff)
             in (r, backoff # sleeps))"

text \<open>The channels over TCP, one after the other: the first that fails closes those before it.\<close>

fun open_chans ::
  "(nat \<Rightarrow> chan_dial) \<Rightarrow> (nat \<Rightarrow> instant) \<Rightarrow> string list \<Rightarrow> ProtectionOptions option \<Rightarrow> udpChan list \<Rightarrow> nat list \<Rightarrow>
   (go_error + udpChan list) \<times> nat list" where
  "open_chans dial clk addrs prot opened [] = (Inr opened, [])"
| "open_chans dial clk addrs prot opened (i # is) =
     (case fst (newUDPChan (dial i) (clk i) (word_of_nat i) addrs prot) of
        Inl e \<Rightarrow> (Inl e, map uc_conn opened)
      | Inr c \<Rightarrow> open_chans dial clk addrs prot (opened @ [c]) is)"

text \<open>The multiplexer or the error, and the links closed.\<close>

definition newUDPMux ::
  "(nat \<Rightarrow> chan_dial) \<Rightarrow> (nat \<Rightarrow> go_error + nat \<times> (nat \<times> int) list) \<Rightarrow> (nat \<Rightarrow> instant) \<Rightarrow> string list \<Rightarrow> nat \<Rightarrow>
   ProtectionOptions option \<Rightarrow> string \<Rightarrow> string \<Rightarrow> (go_error + udpMux) \<times> nat list" where
  "newUDPMux dial qdial clk addrs n prot transport quicServer =
     (if UsesQUICTransport transport quicServer then
        (case fst (quic_attempts qdial 0 4 (300 * millisecond)) of
           Inl e \<Rightarrow> (Inl e, [])
         | Inr (shared, streams) \<Rightarrow>
           if length streams < n then (Inl (Panic ''index out of range''), [])
           else (Inr \<lparr>mx_chans = map (\<lambda>i. udp_chan False (clk i) prot (int i) (fst (streams ! i)) (snd (streams ! i))) [0..<n],
                      mx_assoc = [], mx_quic = Some shared\<rparr>, []))
      else (let (r, closed) = open_chans dial clk addrs prot [] [0..<n] in
            (map_sum id (\<lambda>cs. \<lparr>mx_chans = cs, mx_assoc = [], mx_quic = None\<rparr>) r, closed)))"

definition mux_register :: "udpAssocKey \<Rightarrow> nat \<Rightarrow> udpMux \<Rightarrow> udpMux" where
  "mux_register k a m = m\<lparr>mx_assoc := mput k a (mx_assoc m)\<rparr>"

definition mux_unregister :: "udpAssocKey \<Rightarrow> udpMux \<Rightarrow> udpMux" where
  "mux_unregister k m = m\<lparr>mx_assoc := mdel k (mx_assoc m)\<rparr>"

text \<open>The multiplexer after \<^verbatim>\<open>Close\<close>, and the links closed.\<close>

definition mux_Close :: "udpMux \<Rightarrow> udpMux \<times> nat list" where
  "mux_Close m = (m\<lparr>mx_assoc := [], mx_quic := None\<rparr>, map uc_conn (mx_chans m))"

definition mux_pick :: "(bytes \<Rightarrow> bytes) \<Rightarrow> udpAssocKey \<Rightarrow> udpMux \<Rightarrow> nat" where
  "mux_pick sha256 k m =
     unat (sha256 (str_bytes (itoa (uint (ak_SrcPort k)) @ ''|'' @ ak_DstIP k @ ''|'' @ itoa (uint (ak_DstPort k)))) ! 0) mod length (mx_chans m)"

text \<open>\<open>ip_str\<close> and \<open>ip_parse\<close> are \<^verbatim>\<open>IP.String\<close> and \<^verbatim>\<open>net.ParseIP\<close>.\<close>

definition mux_dispatch :: "(bytes \<Rightarrow> string) \<Rightarrow> UDPFrame \<Rightarrow> udpMux \<Rightarrow> (nat \<times> bytes) option" where
  "mux_dispatch ip_str f m =
     map_option (\<lambda>a. (a, uf_Payload f))
       (mget (mx_assoc m) \<lparr>ak_SrcPort = uf_SrcPort f, ak_DstIP = ip_str (uf_DstIP f), ak_DstPort = uf_DstPort f\<rparr>)"

section \<open>Sending\<close>

text \<open>What a send draws: the times at which the wait for the bucket wakes up, the random numbers of the pauses and of the padding.\<close>

record send_env =
  se_wakes :: "instant list"
  se_lib :: libm
  se_jitter :: "int \<Rightarrow> int"
  se_uniform :: rat
  se_burst :: "int \<Rightarrow> int"
  se_pad :: entropy
  se_fill :: "nat \<Rightarrow> u64"

definition exp_pause :: "libm \<Rightarrow> rat \<Rightarrow> int \<Rightarrow> duration" where
  "exp_pause lib u mean =
     (let u = (if u < tiny then tiny else u);
          ms = fmul (- m_log lib u) (fl64 (of_int mean)); top = fl64 (of_int (wrap64 (mean * 30)));
          ms = (if ms > top then top else ms)
      in trunc (fmul ms (fl64 (of_int millisecond))))"

text \<open>The bytes written, the pauses made and the channel after it, \<open>None\<close> while the bucket has not let it through.\<close>

definition chan_Send :: "send_env \<Rightarrow> UDPFrame \<Rightarrow> udpChan \<Rightarrow> (wout \<times> duration list \<times> udpChan) option" where
  "chan_Send se f c =
     (case WaitTake (se_wakes se) (int (length (uf_Payload f)) + 96) (uc_shape c) of
        None \<Rightarrow> None
      | Some b \<Rightarrow>
        let c = c\<lparr>uc_shape := b\<rparr>; n = int (length (uf_Payload f)) in
        if Enabled (uc_shaper c) then
          let (d, s) = Next (se_lib se) n (uc_shaper c);
              pad = (if de_TargetLen d > n then de_TargetLen d - n else 0)
          in Some (WriteUDPFrameExactPad (se_fill se) f pad, if de_Delay d > 0 then [de_Delay d] else [], c\<lparr>uc_shaper := s\<rparr>)
        else
          Some (WriteUDPFrameWithPad (se_pad se) (se_fill se) f (uc_maxPad c),
            (if uc_shapeJitterMaxMs c > 0 then [se_jitter se (uc_shapeJitterMaxMs c + 1) * millisecond] else []) @
            (if uc_shapeExpMeanMs c > 0 then [exp_pause (se_lib se) (se_uniform se) (uc_shapeExpMeanMs c)] else []) @
            (if uc_burstSmoothMaxMs c > 0 then [se_burst se (uc_burstSmoothMaxMs c + 1) * millisecond] else []), c))"

definition mux_send ::
  "(bytes \<Rightarrow> bytes) \<Rightarrow> (string \<Rightarrow> bytes option) \<Rightarrow> send_env \<Rightarrow> udpAssocKey \<Rightarrow> bytes \<Rightarrow> udpMux \<Rightarrow> (wout \<times> nat \<times> udpMux) option" where
  "mux_send sha256 ip_parse se k payload m =
     (let i = mux_pick sha256 k m;
          f = \<lparr>uf_AddrType = 0, uf_SrcPort = ak_SrcPort k, uf_DstIP = (case ip_parse (ak_DstIP k) of None \<Rightarrow> [] | Some ip \<Rightarrow> ip),
               uf_DstPort = ak_DstPort k, uf_Payload = payload\<rparr>
      in map_option (\<lambda>(w, _, c). (w, i, m\<lparr>mx_chans := (mx_chans m)[i := c]\<rparr>)) (chan_Send se f (mx_chans m ! i)))"

section \<open>Receiving\<close>

text \<open>The frames of a stream up to the error that ends them.\<close>

lemma ReadUDPFrame_consumes:
  assumes "ReadUDPFrame s = Inr (f, r)"
  shows "length r < length s"
proof -
  obtain l s' where l: "read_u32 s = Inr (l, s')"
    and b: "rbind (read_full (unat l)) (\<lambda>buf. case udp_frame_of_buf buf of Inl e \<Rightarrow> rfail e | Inr f \<Rightarrow> rret f) s' = Inr (f, r)"
    using assms unfolding ReadUDPFrame_def by (auto simp: rbind_eq_Inr rfail_def split: if_split_asm)
  obtain buf r' where "s' = buf @ r'" "(case udp_frame_of_buf buf of Inl e \<Rightarrow> rfail e | Inr f \<Rightarrow> rret f) r' = Inr (f, r)"
    using b by (auto simp: rbind_eq_Inr read_full_Inr)
  then have "length r \<le> length s'" by (cases "udp_frame_of_buf buf") (auto simp: rfail_def rret_def)
  moreover have "length s = length s' + 4" using l by (auto simp: read_u32_def rbind_eq_Inr read_full_Inr rret_def)
  ultimately show ?thesis by simp
qed

function udp_frames :: "bytes \<Rightarrow> UDPFrame list \<times> go_error" where
  "udp_frames s = (case ReadUDPFrame s of Inl e \<Rightarrow> ([], e) | Inr (f, r) \<Rightarrow> let (fs, e) = udp_frames r in (f # fs, e))"
  by pat_completeness auto
termination by (relation "measure length") (auto dest: ReadUDPFrame_consumes)

declare udp_frames.simps [simp del]

text \<open>
  The read loop of a channel over the bytes of its link: the frames handed on, and the channel at its end. Over QUIC a failed read opens the
  slot again; the list holds what each attempt brings, the link, its padding and its bytes.
\<close>

type_synonym reopened = "go_error + nat \<times> int \<times> bytes"

fun chan_readLoop :: "bool \<Rightarrow> reopened list \<Rightarrow> bytes \<Rightarrow> udpChan \<Rightarrow> UDPFrame list \<times> udpChan" where
  "chan_readLoop quic [] s c = (fst (udp_frames s), c)"
| "chan_readLoop quic (st # sts) s c =
     (if \<not> quic then (fst (udp_frames s), c)
      else case st of
        Inl _ \<Rightarrow> (fst (udp_frames s), c)
      | Inr (conn, pad, s') \<Rightarrow>
        let (fs, c) = chan_readLoop quic sts s' (c\<lparr>uc_conn := conn, uc_maxPad := pad\<rparr>) in (fst (udp_frames s) @ fs, c))"

section \<open>The handler of a flow\<close>

definition udp_key :: "(bytes \<Rightarrow> string) \<Rightarrow> u16 \<Rightarrow> bytes \<Rightarrow> u16 \<Rightarrow> udpAssocKey" where
  "udp_key ip_str srcPort dstIP dstPort = \<lparr>ak_SrcPort = srcPort, ak_DstIP = ip_str dstIP, ak_DstPort = dstPort\<rparr>"

definition udp_begin :: "(bytes \<Rightarrow> string) \<Rightarrow> nat \<Rightarrow> u16 \<Rightarrow> bytes \<Rightarrow> u16 \<Rightarrow> udpMux \<Rightarrow> udpMux" where
  "udp_begin ip_str a srcPort dstIP dstPort m =
     (let k = udp_key ip_str srcPort dstIP dstPort; kAlt = udp_key ip_str dstPort dstIP srcPort; m = mux_register k a m
      in if kAlt \<noteq> k then mux_register kAlt a m else m)"

definition udp_end :: "(bytes \<Rightarrow> string) \<Rightarrow> u16 \<Rightarrow> bytes \<Rightarrow> u16 \<Rightarrow> udpMux \<Rightarrow> udpMux" where
  "udp_end ip_str srcPort dstIP dstPort m =
     (let k = udp_key ip_str srcPort dstIP dstPort; kAlt = udp_key ip_str dstPort dstIP srcPort;
          m = (if kAlt \<noteq> k then mux_unregister kAlt m else m)
      in mux_unregister k m)"

text \<open>The packets of the flow until one fails: what is written, on which channel, and whether the loop waits in a send.\<close>

fun udp_packets ::
  "(bytes \<Rightarrow> bytes) \<Rightarrow> (string \<Rightarrow> bytes option) \<Rightarrow> udpAssocKey \<Rightarrow> (send_env \<times> bytes) list \<Rightarrow> udpMux \<Rightarrow>
   (wout \<times> nat) list \<times> bool \<times> udpMux" where
  "udp_packets sha256 ip_parse k [] m = ([], False, m)"
| "udp_packets sha256 ip_parse k ((se, p) # ps) m =
     (case mux_send sha256 ip_parse se k p m of
        None \<Rightarrow> ([], True, m)
      | Some (w, i, m) \<Rightarrow>
        if wfailed w \<noteq> None then ([(w, i)], False, m)
        else let (ws, waits, m) = udp_packets sha256 ip_parse k ps m in ((w, i) # ws, waits, m))"

definition handleUDP ::
  "(bytes \<Rightarrow> bytes) \<Rightarrow> (bytes \<Rightarrow> string) \<Rightarrow> (string \<Rightarrow> bytes option) \<Rightarrow> nat \<Rightarrow> u16 \<Rightarrow> bytes \<Rightarrow> u16 \<Rightarrow> (send_env \<times> bytes) list \<Rightarrow>
   udpMux \<Rightarrow> (wout \<times> nat) list \<times> bool \<times> udpMux" where
  "handleUDP sha256 ip_str ip_parse a srcPort dstIP dstPort ps m =
     (let (ws, waits, m) = udp_packets sha256 ip_parse (udp_key ip_str srcPort dstIP dstPort) ps (udp_begin ip_str a srcPort dstIP dstPort m)
      in (ws, waits, if waits then m else udp_end ip_str srcPort dstIP dstPort m))"


section \<open>Who gets an answer\<close>

definition udp_keys :: "(bytes \<Rightarrow> string) \<Rightarrow> u16 \<times> bytes \<times> u16 \<Rightarrow> udpAssocKey set" where
  "udp_keys ip_str t = (case t of (sp, ip, dp) \<Rightarrow> {udp_key ip_str sp ip dp, udp_key ip_str dp ip sp})"

text \<open>
  The open flows of the handlers, each with its source port, address and port. A flow begins uncrossed when it shares no key with another
  open one.
\<close>

type_synonym open_flows = "(nat, u16 \<times> bytes \<times> u16) gomap"

inductive mux_reach :: "(bytes \<Rightarrow> string) \<Rightarrow> udpMux \<Rightarrow> open_flows \<Rightarrow> bool" for ip_str where
  start: "mx_assoc m = [] \<Longrightarrow> mux_reach ip_str m []"
| begins: "mux_reach ip_str m fl \<Longrightarrow> mget fl a = None \<Longrightarrow>
    \<forall>b u. mget fl b = Some u \<longrightarrow> udp_keys ip_str (sp, ip, dp) \<inter> udp_keys ip_str u = {} \<Longrightarrow>
    mux_reach ip_str (udp_begin ip_str a sp ip dp m) (mput a (sp, ip, dp) fl)"
| ends: "mux_reach ip_str m fl \<Longrightarrow> mget fl a = Some (sp, ip, dp) \<Longrightarrow>
    mux_reach ip_str (udp_end ip_str sp ip dp m) (mdel a fl)"
| sends: "mux_reach ip_str m fl \<Longrightarrow> mux_send sha256 ip_parse se k p m = Some (w, i, m') \<Longrightarrow> mux_reach ip_str m' fl"

lemma mux_send_assoc: "mux_send sha256 ip_parse se k p m = Some (w, i, m') \<Longrightarrow> mx_assoc m' = mx_assoc m"
  by (auto simp: mux_send_def Let_def)

lemma begin_assoc:
  "mget (mx_assoc (udp_begin ip_str a sp ip dp m)) k = (if k \<in> udp_keys ip_str (sp, ip, dp) then Some a else mget (mx_assoc m) k)"
  by (auto simp: udp_begin_def udp_keys_def mux_register_def Let_def gomap)

lemma end_assoc:
  "mget (mx_assoc (udp_end ip_str sp ip dp m)) k = (if k \<in> udp_keys ip_str (sp, ip, dp) then None else mget (mx_assoc m) k)"
  by (auto simp: udp_end_def udp_keys_def mux_unregister_def Let_def gomap)

definition keys_owned :: "(bytes \<Rightarrow> string) \<Rightarrow> udpMux \<Rightarrow> open_flows \<Rightarrow> bool" where
  "keys_owned ip_str m fl \<longleftrightarrow> (\<forall>k a. mget (mx_assoc m) k = Some a \<longleftrightarrow> (\<exists>u. mget fl a = Some u \<and> k \<in> udp_keys ip_str u))"

lemma keys_ownedD: "keys_owned ip_str m fl \<Longrightarrow> mget fl a = Some u \<Longrightarrow> k \<in> udp_keys ip_str u \<Longrightarrow> mget (mx_assoc m) k = Some a"
  by (metis keys_owned_def)

lemma mux_reach_owned: "mux_reach ip_str m fl \<Longrightarrow> keys_owned ip_str m fl"
proof (induction rule: mux_reach.induct)
  case (begins m fl a sp ip dp)
  then show ?case by (fastforce simp: keys_owned_def begin_assoc gomap)
next
  case (ends m fl a sp ip dp)
  have "b = a" if "mget fl b = Some u" "k \<in> udp_keys ip_str u" "k \<in> udp_keys ip_str (sp, ip, dp)" for b u k
    using keys_ownedD [OF ends.IH that(1,2)] keys_ownedD [OF ends.IH ends.hyps(2) that(3)] by simp
  then have u: "(\<exists>u. mget (mdel a fl) b = Some u \<and> k \<in> udp_keys ip_str u) \<longleftrightarrow>
      k \<notin> udp_keys ip_str (sp, ip, dp) \<and> (\<exists>u. mget fl b = Some u \<and> k \<in> udp_keys ip_str u)" for k b
    unfolding mget_mdel using ends.hyps(2) by (metis option.distinct(1) option.inject)
  have "mget (mx_assoc (udp_end ip_str sp ip dp m)) k = Some b \<longleftrightarrow> (\<exists>u. mget (mdel a fl) b = Some u \<and> k \<in> udp_keys ip_str u)" for k b
    unfolding u end_assoc using ends.IH by (simp add: keys_owned_def del: split_paired_Ex)
  then show ?case unfolding keys_owned_def by blast
qed (auto simp: keys_owned_def mget_Nil mux_send_assoc)

text \<open>
  As long as no flow crosses another, an answer goes to the flow it belongs to and to no other: a frame from the server is handed to a flow
  exactly when the flow is open and the frame carries its ports and address, the ports in either order; any other frame is dropped.
\<close>

theorem answers_go_home:
  assumes "mux_reach ip_str m fl" and "k = udp_key ip_str (uf_SrcPort f) (uf_DstIP f) (uf_DstPort f)"
  shows "mux_dispatch ip_str f m = Some (a, p) \<longleftrightarrow>
    p = uf_Payload f \<and> (\<exists>u. mget fl a = Some u \<and> k \<in> udp_keys ip_str u)"
  using mux_reach_owned [OF assms(1)] by (auto simp: mux_dispatch_def keys_owned_def assms(2) udp_key_def)

text \<open>
  A flow loses its answers to one that crosses it: when a flow from port \<open>p\<close> to port \<open>q\<close> of an address is open and another, from port
  \<open>q\<close> to port \<open>p\<close> of the same address, begins, the answers to the first go to the second, and once the second has ended
  they are dropped.
\<close>

theorem crossing_flow_steals:
  "let m1 = udp_begin ip_str a p ip q m; m2 = udp_begin ip_str b q ip p m1;
       f = \<lparr>uf_AddrType = ty, uf_SrcPort = p, uf_DstIP = ip, uf_DstPort = q, uf_Payload = x\<rparr>
   in mux_dispatch ip_str f m1 = Some (a, x) \<and> mux_dispatch ip_str f m2 = Some (b, x) \<and>
      mux_dispatch ip_str f (udp_end ip_str q ip p m2) = None"
  by (simp add: Let_def mux_dispatch_def begin_assoc end_assoc udp_keys_def udp_key_def)

section \<open>A packet and its answer\<close>

lemma normalizeIP_idem: "normalizeIP ip = Inr (ty, b) \<Longrightarrow> normalizeIP b = Inr (ty, b)"
  using normalizeIP_cases [of ip ty b] by (auto simp: normalizeIP_def to4_def to16_def split: if_splits option.splits)

lemma exact_pad: "\<exists>n \<le> 64. WriteUDPFrameExactPad draw f pad = writeUDPFrameInternal draw f n"
  unfolding WriteUDPFrameExactPad_def Let_def by (rule exI [of _ "nat (if (if pad < 0 then 0 else pad) > 64 then 64 else if pad < 0 then 0 else pad)"]) auto

lemma drawn_pad: "\<exists>n \<le> 64. WriteUDPFrameWithPad ent draw f m = writeUDPFrameInternal draw f n"
proof -
  have "randPadLenN ent k \<le> 64" if "k \<le> 64" for k
  proof -
    have "rand_int ent 0 (nat (k + 1)) \<le> 64" if "0 < k"
      using rand_int_less [of "nat (k + 1)" ent 0] that \<open>k \<le> 64\<close> by linarith
    then show ?thesis by (simp add: randPadLenN_def)
  qed
  then show ?thesis unfolding WriteUDPFrameWithPad_def Let_def by (intro exI [of _ "randPadLenN ent (if m \<le> 0 \<or> m > 64 then maxPad else m)"])
      (auto simp: maxPad_def)
qed

lemma chan_Send_writes:
  assumes "chan_Send se f c = Some (w, sl, c')"
  shows "\<exists>n \<le> 64. w = writeUDPFrameInternal (se_fill se) f n"
proof -
  obtain b where b: "WaitTake (se_wakes se) (int (length (uf_Payload f)) + 96) (uc_shape c) = Some b"
    using assms by (auto simp: chan_Send_def split: option.splits)
  show ?thesis
  proof (cases "Enabled (uc_shaper c)")
    case True
    then have "\<exists>pad. w = WriteUDPFrameExactPad (se_fill se) f pad" using assms b by (auto simp: chan_Send_def Let_def split_beta)
    then show ?thesis using exact_pad by metis
  next
    case False
    then have "w = WriteUDPFrameWithPad (se_pad se) (se_fill se) f (uc_maxPad c)" using assms b by (simp add: chan_Send_def Let_def)
    then show ?thesis using drawn_pad by metis
  qed
qed

lemma udp_frames_Cons: "ReadUDPFrame s = Inr (f, r) \<Longrightarrow> udp_frames s = (f # fst (udp_frames r), snd (udp_frames r))"
  by (subst udp_frames.simps) (simp add: split_beta Let_def)


lemma some_triple: "x \<noteq> None \<Longrightarrow> (\<And>a b c. x = Some (a, b, c) \<Longrightarrow> P) \<Longrightarrow> P"
  by (cases x) auto

lemma begin_chans: "mx_chans (udp_begin ip_str a sp ip dp m) = mx_chans m"
  by (simp add: udp_begin_def mux_register_def Let_def)

definition demo_ip_str :: "bytes \<Rightarrow> string" where
  "demo_ip_str = bytes_str"

definition demo_mux :: udpMux where
  "demo_mux = \<lparr>mx_chans = [udp_chan True 0 None 0 3 0], mx_assoc = [], mx_quic = None\<rparr>"

definition demo_send :: send_env where
  "demo_send = \<lparr>se_wakes = [], se_lib = demo_lib, se_jitter = \<lambda>_. 0, se_uniform = 0, se_burst = \<lambda>_. 0,
     se_pad = (\<lambda>_. 5, \<lambda>_ _. 0), se_fill = \<lambda>_. 1\<rparr>"

lemma demo_reach:
  "mux_reach demo_ip_str (udp_begin demo_ip_str 7 9 [1, 2, 3, 4] 53 demo_mux) [(7, 9, [1, 2, 3, 4], 53)]"
proof -
  have "mux_reach demo_ip_str demo_mux []" by (rule mux_reach.start) (simp add: demo_mux_def)
  then have "mux_reach demo_ip_str (udp_begin demo_ip_str 7 9 [1, 2, 3, 4] 53 demo_mux) (mput 7 (9, [1, 2, 3, 4], 53) [])"
    by (rule mux_reach.begins) (simp_all add: mget_Nil)
  then show ?thesis by (simp add: mput_def)
qed

theorem answers_go_home_witness:
  "mux_dispatch demo_ip_str \<lparr>uf_AddrType = 4, uf_SrcPort = 53, uf_DstIP = [1, 2, 3, 4], uf_DstPort = 9, uf_Payload = [6]\<rparr>
     (udp_begin demo_ip_str 7 9 [1, 2, 3, 4] 53 demo_mux) = Some (7, [6])"
  by (subst answers_go_home [OF demo_reach refl]) (simp add: mget_def udp_keys_def udp_key_def)


section \<open>Setting up\<close>

text \<open>The rounds of a channel are one round over the addresses repeated.\<close>

lemma chan_tries_append:
  "chan_tries dial c (xs @ ys) prev = (case chan_tries dial c xs prev of (Inr l, c) \<Rightarrow> (Inr l, c) | (Inl p, c) \<Rightarrow> chan_tries dial c ys p)"
  by (induction xs arbitrary: c prev) (simp_all split: sum.splits)

lemma chan_rounds_tries:
  "(let (r, sleeps, k) = chan_rounds dial as n b c prev in (r, k)) =
   (let (r, k) = chan_tries dial c (concat (replicate n as)) prev in
      (case r of Inr l \<Rightarrow> Inr l | Inl p \<Rightarrow> Inl (case p of None \<Rightarrow> Error ''dial failed'' | Some e \<Rightarrow> e), k))"
proof (induction n arbitrary: b c prev)
  case (Suc n)
  show ?case
  proof (cases "chan_tries dial c as prev")
    case (Pair r k)
    show ?thesis
    proof (cases r)
      case (Inl p)
      show ?thesis using Suc.IH [of "if b < 1200 * millisecond then b * 2 else b" k p]
        by (simp add: chan_tries_append Pair Inl split_beta Let_def)
    qed (simp add: chan_tries_append Pair)
  qed
qed simp

lemma chan_tries_spec:
  assumes "as \<noteq> []" and "chan_tries dial c as prev = (r, k)"
  shows "c < k \<and> k \<le> c + length as \<and> (\<forall>j. c \<le> j \<and> j < k - 1 \<longrightarrow> (\<exists>e. dial j (as ! (j - c)) = Inl e)) \<and>
    (case dial (k - 1) (as ! (k - 1 - c)) of Inr l \<Rightarrow> r = Inr l | Inl e \<Rightarrow> k = c + length as \<and> r = Inl (Some e))"
  using assms
proof (induction as arbitrary: c prev)
  case (Cons a as)
  show ?case
  proof (cases "dial c a")
    case (Inr l)
    then show ?thesis using Cons.prems by auto
  next
    case (Inl e)
    show ?thesis
    proof (cases "as = []")
      case True
      then show ?thesis using Cons.prems Inl by auto
    next
      case False
      have "chan_tries dial (c + 1) as (Some e) = (r, k)" using Cons.prems Inl by simp
      note i = Cons.IH [OF False this]
      have "\<exists>e. dial j ((a # as) ! (j - c)) = Inl e" if "c \<le> j" "j < k - 1" for j
        using i Inl that by (cases "j = c") (auto simp: nth_Cons')
      moreover have "(a # as) ! (k - 1 - c) = as ! (k - 1 - (c + 1))" using i by (simp add: nth_Cons')
      ultimately show ?thesis using i by (auto split: sum.splits)
    qed
  qed
qed simp

lemma length_turned [simp]: "length (turned k xs) = length xs"
  by (simp add: turned_def)

lemma nth_repeated: "c < n * length xs \<Longrightarrow> concat (replicate n xs) ! c = xs ! (c mod length xs)"
proof (induction n arbitrary: c)
  case (Suc n)
  then show ?case by (cases "c < length xs") (simp_all add: nth_append le_mod_geq not_less)
qed simp

lemma length_repeated: "length (concat (replicate n xs)) = n * length xs"
  by (induction n) simp_all

text \<open>
  C17. Setting up a channel ends after at most three rounds: it dials the servers one after the other, from the one its number names and round
  again, stops at the first that answers and uses that link, and fails only when every server failed three times, with the last error.
\<close>

theorem udp_chan_dials:
  assumes "addrs \<noteq> []" and "newUDPChan dial now i addrs prot = (r, sleeps, k)"
    and "answer = (\<lambda>c. dial c (addrs ! ((unat i mod length addrs + c mod length addrs) mod length addrs)))"
  shows "0 < k \<and> k \<le> 3 * length addrs \<and> (\<forall>c < k - 1. \<exists>e. answer c = Inl e) \<and>
    (case answer (k - 1) of
       Inr (conn, pad) \<Rightarrow> r = Inr (udp_chan True now prot (uint i) conn pad)
     | Inl e \<Rightarrow> k = 3 * length addrs \<and> r = Inl e)"
proof -
  let ?as = "turned (unat i mod length addrs) addrs"
  let ?all = "concat (replicate 3 ?as)"
  have n: "length ?all = 3 * length addrs" by (simp only: length_repeated length_turned)
  then have ne: "?all \<noteq> []" using assms(1) by (metis length_0_conv mult_eq_0_iff zero_neq_numeral)
  have at: "dial c (?all ! c) = answer c" if "c < 3 * length addrs" for c
    using that nth_repeated [of c 3 ?as] assms(1) by (simp add: assms(3) turned_def)
  obtain q ss where q: "chan_rounds dial ?as 3 (250 * millisecond) 0 None = (q, ss, k)"
      "r = map_sum id (\<lambda>(conn, pad). udp_chan True now prot (uint i) conn pad) q"
    using assms(1,2) by (auto simp: newUDPChan_def split_beta Let_def prod_eq_iff)
  obtain t where t: "chan_tries dial 0 ?all None = (t, k)"
      "q = (case t of Inr l \<Rightarrow> Inr l | Inl p \<Rightarrow> Inl (case p of None \<Rightarrow> Error ''dial failed'' | Some e \<Rightarrow> e))"
    using chan_rounds_tries [of dial ?as 3 "250 * millisecond" 0 None] q(1) by (auto simp: split_beta Let_def prod_eq_iff)
  note s = chan_tries_spec [OF ne t(1), unfolded n]
  then have k: "0 < k" "k \<le> 3 * length addrs" by auto
  have f: "\<exists>e. answer c = Inl e" if "c < k - 1" for c
  proof -
    have "c < 3 * length addrs" using that k by linarith
    then have a: "dial c (?all ! c) = answer c" by (rule at)
    have "\<exists>e. dial c (?all ! c) = Inl e" using s that by auto
    then show ?thesis unfolding a .
  qed
  have e: "dial (k - 1) (?all ! (k - 1)) = answer (k - 1)" using at [of "k - 1"] k by simp
  show ?thesis
  proof (cases "answer (k - 1)")
    case (Inl x)
    then have "k = 3 * length addrs" "t = Inl (Some x)" using s unfolding diff_zero e by simp_all
    then show ?thesis using k f Inl q(2) t(2) by simp
  next
    case (Inr l)
    then have "t = Inr l" using s unfolding diff_zero e by simp
    then show ?thesis using k f Inr q(2) t(2) by (cases l) simp
  qed
qed

theorem udp_chan_dials_witness:
  "\<exists>sleeps. newUDPChan (\<lambda>c a. if a = ''b'' \<and> 2 \<le> c then Inr (8, 0) else Inl EOF) 0 1 [''a'', ''b''] None =
     (Inr (udp_chan True 0 None 1 8 0), sleeps, 3)"
proof -
  let ?d = "\<lambda>c a. if a = ''b'' \<and> 2 \<le> c then Inr (8, 0) else Inl EOF :: go_error + nat \<times> int"
  obtain r sleeps k where n: "newUDPChan ?d 0 1 [''a'', ''b''] None = (r, sleeps, k)" by (metis prod_cases3)
  have "k = 3" using n by (simp add: newUDPChan_def turned_def upt_rec numeral_3_eq_3)
  moreover have "[''a'', ''b''] ! (Suc (2 mod Suc (Suc 0)) mod Suc (Suc 0)) = ''b''" by code_simp
  ultimately show ?thesis using udp_chan_dials [OF _ n refl] n by simp
qed

lemma open_chans_spec:
  assumes "open_chans dial clk addrs prot cs is = (r, shut)"
  shows "case r of
      Inr cs' \<Rightarrow> shut = [] \<and> map Inr cs' = map Inr cs @ map (\<lambda>i. fst (newUDPChan (dial i) (clk i) (word_of_nat i) addrs prot)) is
    | Inl e \<Rightarrow> \<exists>k < length is. \<exists>opened. fst (newUDPChan (dial (is ! k)) (clk (is ! k)) (word_of_nat (is ! k)) addrs prot) = Inl e \<and>
        map Inr opened = map (\<lambda>i. fst (newUDPChan (dial i) (clk i) (word_of_nat i) addrs prot)) (take k is) \<and>
        shut = map uc_conn (cs @ opened)"
  using assms
proof (induction "is" arbitrary: cs)
  case (Cons i "is")
  show ?case
  proof (cases "fst (newUDPChan (dial i) (clk i) (word_of_nat i) addrs prot)")
    case (Inl e)
    then show ?thesis using Cons.prems by auto
  next
    case (Inr c)
    then have o: "open_chans dial clk addrs prot (cs @ [c]) is = (r, shut)" using Cons.prems by simp
    show ?thesis
    proof (cases r)
      case (Inl e)
      obtain k opened where k: "k < length is" "fst (newUDPChan (dial (is ! k)) (clk (is ! k)) (word_of_nat (is ! k)) addrs prot) = Inl e"
          "map Inr opened = map (\<lambda>i. fst (newUDPChan (dial i) (clk i) (word_of_nat i) addrs prot)) (take k is)"
          "shut = map uc_conn ((cs @ [c]) @ opened)"
        using Cons.IH [OF o] Inl by auto
      show ?thesis unfolding Inl sum.case using k Inr by (intro exI [of _ "Suc k"] conjI exI [of _ "c # opened"]) simp_all
    qed (use Cons.IH [OF o] Inr in simp)
  qed
qed auto

lemma newUDPChan_slot: "fst (newUDPChan dial now i addrs prot) = Inr c \<Longrightarrow> uc_slot c = uint i"
  by (auto simp: newUDPChan_def udp_chan_def Let_def split: if_splits prod.splits sum.splits) (auto simp: map_sum_def split: sum.splits)

lemma mux_setup_cases:
  assumes "newUDPMux dial qdial clk addrs n prot transport quicServer = (r, shut)" and "n \<le> 256"
    and "chan = (\<lambda>i. fst (newUDPChan (dial i) (clk i) (word_of_nat i) addrs prot))"
  shows "case r of
      Inr m \<Rightarrow> shut = [] \<and> map uc_slot (mx_chans m) = map int [0..<n] \<and> mx_assoc m = [] \<and>
        (\<not> UsesQUICTransport transport quicServer \<longrightarrow> map Inr (mx_chans m) = map chan [0..<n])
    | Inl e \<Rightarrow> if UsesQUICTransport transport quicServer then shut = []
        else \<exists>k < n. \<exists>opened. chan k = Inl e \<and> map Inr opened = map chan [0..<k] \<and> shut = map uc_conn opened"
proof (cases "UsesQUICTransport transport quicServer")
  case True
  then show ?thesis using assms(1)
    by (auto simp: newUDPMux_def udp_chan_def Let_def split: sum.splits if_splits prod.splits intro!: nth_equalityI)
next
  case False
  obtain q where q: "open_chans dial clk addrs prot [] [0..<n] = (q, shut)"
      "r = map_sum id (\<lambda>cs. \<lparr>mx_chans = cs, mx_assoc = [], mx_quic = None\<rparr>) q"
    using assms(1) False by (auto simp: newUDPMux_def split_beta Let_def prod_eq_iff)
  show ?thesis
  proof (cases q)
    case (Inl e)
    obtain k opened where k: "k < n" "chan k = Inl e" "map Inr opened = map chan (take k [0..<n])" "shut = map uc_conn opened"
      using open_chans_spec [OF q(1)] Inl by (auto simp: assms(3))
    have "take k [0..<n] = [0..<k]" using k(1) by (simp add: take_upt)
    then show ?thesis using k q(2) Inl False by auto
  next
    case (Inr cs)
    have c: "shut = []" "map Inr cs = map chan [0..<n]" using open_chans_spec [OF q(1)] Inr by (simp_all add: assms(3))
    then have l: "length cs = n" by (metis length_map length_upt diff_zero)
    have "uc_slot (cs ! i) = int i" if "i < n" for i
    proof -
      have "chan i = Inr (cs ! i)" using arg_cong [OF c(2), of "\<lambda>l. l ! i"] that l by simp
      then have "uc_slot (cs ! i) = uint (word_of_nat i :: byte)" unfolding assms(3) by (rule newUDPChan_slot)
      then show ?thesis using that assms(2) by (simp add: uint_nat unat_small)
    qed
    then have "map uc_slot cs = map int [0..<n]" using l by (intro nth_equalityI) simp_all
    then show ?thesis using c q(2) Inr False by simp
  qed
qed

text \<open>
  Setting up the multiplexer leaks no link: over TCP, either every channel was opened, each with its own number, or the first that failed gives the
  error and the links of all those opened before it are closed. Over QUIC the channels are the streams of the one connection, in order.
\<close>

theorem mux_setup:
  assumes "newUDPMux dial qdial clk addrs n prot transport quicServer = (r, shut)" and "n \<le> 256"
    and "chan = (\<lambda>i. fst (newUDPChan (dial i) (clk i) (word_of_nat i) addrs prot))"
  shows "case r of
      Inr m \<Rightarrow> shut = [] \<and> map uc_slot (mx_chans m) = map int [0..<n] \<and> mx_assoc m = [] \<and>
        (\<not> UsesQUICTransport transport quicServer \<longrightarrow> map Inr (mx_chans m) = map chan [0..<n])
    | Inl e \<Rightarrow> if UsesQUICTransport transport quicServer then shut = []
        else \<exists>k < n. \<exists>opened. chan k = Inl e \<and> map Inr opened = map chan [0..<k] \<and> shut = map uc_conn opened"
  using assms by (rule mux_setup_cases)

theorem mux_setup_witness:
  "snd (newUDPMux (\<lambda>i c a. if i = 0 then Inr (5, 0) else Inl EOF) (\<lambda>_. Inl EOF) (\<lambda>_. 0) [''a''] 2 None ''tcp'' '''') = [5]"
proof -
  let ?d = "\<lambda>i c a. if i = 0 then Inr (5, 0) else Inl EOF :: go_error + nat \<times> int"
  obtain r shut where n: "newUDPMux ?d (\<lambda>_. Inl EOF) (\<lambda>_. 0) [''a''] 2 None ''tcp'' '''' = (r, shut)" by fastforce
  have q: "\<not> UsesQUICTransport ''tcp'' ''''" by code_simp
  let ?chan = "\<lambda>i. fst (newUDPChan (?d i) 0 (word_of_nat i) [''a''] None)"
  have c: "?chan 0 = Inr (udp_chan True 0 None 0 5 0)" "?chan (Suc 0) = Inl EOF"
    by (simp_all add: newUDPChan_def turned_def numeral_3_eq_3)
  have u: "[0..<2] = [0, Suc 0]" by (simp add: upt_rec)
  note s = mux_setup [OF n _ refl]
  show ?thesis
  proof (cases r)
    case (Inr m)
    then have "map Inr (mx_chans m) = map ?chan [0..<2]" using s q by simp
    then show ?thesis unfolding u list.map c by (cases "mx_chans m") auto
  next
    case (Inl e)
    then obtain k opened where k: "k < 2" "?chan k = Inl e" "map Inr opened = map ?chan [0..<k]" "shut = map uc_conn opened"
      using s q by auto
    have "k \<noteq> 0" using k(2) c(1) by (intro notI) simp
    then have "k = Suc 0" using k(1) by simp
    then have "map Inr opened = [?chan 0]" using k(3) by simp
    then have "opened = [udp_chan True 0 None 0 5 0]" unfolding c by (cases opened) auto
    then show ?thesis using k(4) n by (simp add: udp_chan_def Let_def)
  qed
qed

text \<open>
  With a limit on the rate a large packet stops a channel for good: when the burst of the bucket, two seconds of the rate, is below the size of
  the packet and its header, the send never returns, whenever it wakes up, and the flow's handler stays in it with its keys registered.
\<close>

theorem large_packet_stuck:
  assumes "0 < po_ShapeMaxKbps p" and "po_ShapeMaxKbps p < 2 ^ 40"
    and "250 * po_ShapeMaxKbps p < int (length payload) + 96" and "int (length payload) < 2 ^ 40"
    and "\<forall>c \<in> set (mx_chans m). \<exists>smooth now slot conn pad. c = udp_chan smooth now (Some p) slot conn pad" and "mx_chans m \<noteq> []"
  shows "handleUDP sha256 ip_str ip_parse a sp ip dp ((se, payload) # ps) m = ([], True, udp_begin ip_str a sp ip dp m)"
proof -
  let ?m = "udp_begin ip_str a sp ip dp m" and ?n = "int (length payload) + 96"
  have "mux_pick sha256 k ?m < length (mx_chans m)" for k using assms(6) by (simp add: mux_pick_def begin_chans)
  then obtain smooth now slot conn pad where c: "mx_chans m ! mux_pick sha256 (udp_key ip_str sp ip dp) ?m = udp_chan smooth now (Some p) slot conn pad"
    using assms(5) nth_mem by meson
  obtain b where b: "NewByteBucket now (po_ShapeMaxKbps p) = Some b" using NewByteBucket_exact [OF assms(1,2)] by blast
  note k = NewByteBucket_ok [OF assms(1,2) b]
  have "fl64 (of_int ?n) = of_int ?n" using assms(4) by (intro fl64_of_int) simp
  then have "bb_burst b < fl64 (of_int ?n)" using k assms(3) by (metis of_int_less_iff)
  then have "WaitTake ts ?n (Some b) = None" for ts using k by (intro WaitTake_too_big) simp_all
  then have "mux_send sha256 ip_parse se (udp_key ip_str sp ip dp) payload ?m = None"
    by (simp add: mux_send_def Let_def begin_chans c chan_Send_def udp_chan_def or_zero_def b)
  then show ?thesis by (simp add: handleUDP_def)
qed

theorem large_packet_stuck_witness:
  "handleUDP (\<lambda>_. replicate 32 0) demo_ip_str (\<lambda>s. Some (str_bytes s)) 7 9 [1, 2, 3, 4] 53 [(demo_send, replicate 30000 0)]
     \<lparr>mx_chans = [udp_chan True 0 (Some (po_zero\<lparr>po_ShapeMaxKbps := 100\<rparr>)) 0 3 0], mx_assoc = [], mx_quic = None\<rparr> =
   ([], True, udp_begin demo_ip_str 7 9 [1, 2, 3, 4] 53
     \<lparr>mx_chans = [udp_chan True 0 (Some (po_zero\<lparr>po_ShapeMaxKbps := 100\<rparr>)) 0 3 0], mx_assoc = [], mx_quic = None\<rparr>)"
  by (rule large_packet_stuck [of "po_zero\<lparr>po_ShapeMaxKbps := 100\<rparr>"]) (simp_all, blast)

text \<open>
  The padding of a shaped frame is cut to 64 bytes, so no frame is more than 91 bytes longer than its packet, whatever length the shaper
  asked for.
\<close>

lemma frame_overhead:
  assumes "chan_Send se f c = Some (w, sl, c')"
  shows "length (wbytes w) \<le> length (uf_Payload f) + 91"
proof -
  obtain n where n: "n \<le> 64" "w = writeUDPFrameInternal (se_fill se) f n" using chan_Send_writes [OF assms] by blast
  show ?thesis
  proof (cases "normalizeIP (uf_DstIP f)")
    case (Inl e)
    then show ?thesis by (simp add: n(2) writeUDPFrameInternal_def wr_simps)
  next
    case (Inr x)
    obtain ty ipb where x: "normalizeIP (uf_DstIP f) = Inr (ty, ipb)" using Inr by (cases x) simp
    have "length ipb \<le> 16" using normalizeIP_cases [OF x] by auto
    then show ?thesis using n(1) by (simp add: n(2) writeUDPFrameInternal_bytes [OF x])
  qed
qed

end
