(* ===== verification/Session.thy ===== *)
theory Session
  imports UdpMux Ice
begin

text \<open>
  A session of the client (\<^verbatim>\<open>internal/vpn/vpn.go\<close>): what \<^verbatim>\<open>Run\<close> sets up and in which order, which tasks it starts under which
  settings and what it undoes when a step fails; the probe of the client's own address; the socket the peer relay shares with
  the STUN client (\<^verbatim>\<open>internal/tunnel/peer_socket.go\<close>) and the rounds of the hole punch (\<^verbatim>\<open>presence_dht.go\<close>). Sockets, the device
  and the network stack answer as arguments; the tasks themselves are those of theories Cluster, MeshFeed, Background and PeerRelay. The
  managed authentication, the round of the emergency policy and the seeds of the hash table, of theories Background and MeshFeed, are
  fields of the environment, already given what they draw from outside. The handler carries the shared values as of its start.
\<close>

section \<open>The shared socket\<close>

text \<open>A waiting transaction is the number of the channel its answer goes to.\<close>

record PeerSocket =
  sk_stunWait :: "(bytes, nat) gomap"
  sk_vp02Handler :: bool

definition NewPeerSocket :: PeerSocket where
  "NewPeerSocket = \<lparr>sk_stunWait = [], sk_vp02Handler = False\<rparr>"

definition RegisterSTUN :: "bytes \<Rightarrow> nat \<Rightarrow> PeerSocket \<Rightarrow> PeerSocket" where
  "RegisterSTUN tx ch s = s\<lparr>sk_stunWait := mput tx ch (sk_stunWait s)\<rparr>"

definition cancel_stun :: "bytes \<Rightarrow> PeerSocket \<Rightarrow> PeerSocket" where
  "cancel_stun tx s = s\<lparr>sk_stunWait := mdel tx (sk_stunWait s)\<rparr>"

definition SetVP02Handler :: "bool \<Rightarrow> PeerSocket \<Rightarrow> PeerSocket" where
  "SetVP02Handler fn s = s\<lparr>sk_vp02Handler := fn\<rparr>"

datatype delivery = ToChannel nat string bytes | ToVP02 string bytes | Dropped

definition dispatchPacket :: "string \<Rightarrow> bytes \<Rightarrow> PeerSocket \<Rightarrow> delivery \<times> PeerSocket" where
  "dispatchPacket sender pkt s =
     (let (tx, ok) = IsBindingResponse pkt in
      if ok then
        (case mget (sk_stunWait s) tx of
           None \<Rightarrow> (Dropped, s)
         | Some ch \<Rightarrow> (ToChannel ch sender pkt, cancel_stun tx s))
      else if length pkt \<ge> 4 \<and> take 4 pkt = str_bytes ''VP02'' then
        (if sk_vp02Handler s then ToVP02 sender pkt else Dropped, s)
      else (Dropped, s))"

fun peer_readLoop :: "(string \<times> bytes) list \<Rightarrow> PeerSocket \<Rightarrow> delivery list \<times> PeerSocket" where
  "peer_readLoop [] s = ([], s)"
| "peer_readLoop ((sender, pkt) # ps) s =
     (let (d, s) = dispatchPacket sender pkt s; (ds, s) = peer_readLoop ps s in (d # ds, s))"

definition buildSTUNBindingRequest :: "bytes \<Rightarrow> bytes" where
  "buildSTUNBindingRequest tx = be_put 2 (0x0001 :: u16) @ [0, 0] @ be_put 4 (0x2112A442 :: u32) @ tx"

text \<open>
  \<open>rnd i\<close> is the \<open>i\<close>-th transaction, \<open>answer i\<close> the datagram that reaches its channel, or the error of the context when that ends first; the
  result and the requests written.
\<close>

fun gather_peer ::
  "(string \<Rightarrow> go_error + string) \<Rightarrow> (nat \<Rightarrow> go_error + bytes) \<Rightarrow> (string \<Rightarrow> bytes \<Rightarrow> go_error option) \<Rightarrow> (nat \<Rightarrow> go_error + bytes) \<Rightarrow>
   nat \<Rightarrow> string list \<Rightarrow> go_error option \<Rightarrow> (go_error + SrflxResult) \<times> (string \<times> bytes) list" where
  "gather_peer resolve rnd send answer i [] lastErr =
     (Inl (case lastErr of None \<Rightarrow> Error ''peer socket: no stun servers'' | Some e \<Rightarrow> e), [])"
| "gather_peer resolve rnd send answer i (hp # hps) lastErr =
     (case resolve hp of
        Inl e \<Rightarrow> gather_peer resolve rnd send answer i hps (Some e)
      | Inr addr \<Rightarrow>
        (case rnd i of
           Inl e \<Rightarrow> (Inl e, [])
         | Inr tx \<Rightarrow>
           let req = buildSTUNBindingRequest tx in
           (case send addr req of
              Some e \<Rightarrow> let (r, ws) = gather_peer resolve rnd send answer (i + 1) hps (Some e) in (r, (addr, req) # ws)
            | None \<Rightarrow>
              (case answer i of
                 Inl e \<Rightarrow> (Inl e, [(addr, req)])
               | Inr dg \<Rightarrow>
                 (case ParseBindingResponseForPeerSocket dg tx of
                    Inl e \<Rightarrow> let (r, ws) = gather_peer resolve rnd send answer (i + 1) hps (Some e) in (r, (addr, req) # ws)
                  | Inr (ip, port) \<Rightarrow>
                    (Inr \<lparr>sr_IP = ip, sr_Port = port, sr_Server = hp, sr_Kind = CandidateSrflx\<rparr>, [(addr, req)]))))))"

definition GatherSrflxOnPeerSocket ::
  "(string \<Rightarrow> go_error + string) \<Rightarrow> (nat \<Rightarrow> go_error + bytes) \<Rightarrow> (string \<Rightarrow> bytes \<Rightarrow> go_error option) \<Rightarrow> (nat \<Rightarrow> go_error + bytes) \<Rightarrow>
   string list \<Rightarrow> (go_error + SrflxResult) \<times> (string \<times> bytes) list" where
  "GatherSrflxOnPeerSocket resolve rnd send answer servers =
     gather_peer resolve rnd send answer 0 (if servers = [] then DefaultSTUNServers else servers) None"

section \<open>The hole punch\<close>

text \<open>
  The peers a round punches, each with the addresses it fetched, and what it publishes. \<open>own\<close> is the address found over the shared socket,
  \<open>ephemeral\<close> the one found over a socket of its own when there is no shared one.
\<close>

definition punch_peers ::
  "((string, relayEntry) gomap \<Rightarrow> (string, relayEntry) gomap) \<Rightarrow> (string \<Rightarrow> string list) \<Rightarrow> Table \<Rightarrow> (string \<times> string list) list" where
  "punch_peers order fetch tab =
     map (\<lambda>n. let pid = trim_space (rn_ID n) in (pid, fetch pid))
       (filter (\<lambda>n. equal_fold (trim_space (rn_Class n)) ''peer'' \<and> trim_space (rn_ID n) \<noteq> []) (Nearest order tab 16))"

definition setLastClientSrflx :: "string \<Rightarrow> string \<Rightarrow> string" where
  "setLastClientSrflx s cur = (if trim_space s = [] then cur else trim_space s)"

definition punch_round ::
  "((string, relayEntry) gomap \<Rightarrow> (string, relayEntry) gomap) \<Rightarrow> (string \<Rightarrow> string list) \<Rightarrow> (bytes \<Rightarrow> string) \<Rightarrow>
   (string \<Rightarrow> string list \<Rightarrow> store_req list) \<Rightarrow> bool \<Rightarrow> go_error + SrflxResult \<Rightarrow> Table \<Rightarrow> string \<Rightarrow>
   store_req list \<times> (string \<times> string list) list \<times> string" where
  "punch_round order fetch ip_str publish shared found tab lastSrflx =
     (case found of
        Inl _ \<Rightarrow> ([], [], lastSrflx)
      | Inr r \<Rightarrow>
        let hp = join_host_port (ip_str (sr_IP r)) (itoa (uint (sr_Port r))) in
        if shared then (publish hp [], punch_peers order fetch tab, setLastClientSrflx hp lastSrflx)
        else (publish lastSrflx [hp], punch_peers order fetch tab, lastSrflx))"

section \<open>Keys\<close>

definition EncodePub :: "bytes \<Rightarrow> string" where
  "EncodePub pub = b64_encode pub"

definition DecodePub :: "string \<Rightarrow> go_error + bytes" where
  "DecodePub s =
     (case b64_decode s of
        None \<Rightarrow> Inl (Error ''illegal base64 data'')
      | Some b \<Rightarrow> if length b \<noteq> 32 then Inl (Error ''dexote: pubkey must be 32 bytes'') else Inr b)"

section \<open>The client's own address\<close>

text \<open>\<open>hp\<close> is the address as text, \<open>locals\<close> the addresses of the machine when they can be listed.\<close>

definition needs_stun :: "RelayOptions \<Rightarrow> bool" where
  "needs_stun r \<longleftrightarrow>
     ro_GossipEnabled r \<or> ro_StunServers r \<noteq> [] \<or> ro_PeerPathFromDiscovery r \<or> ro_PeerRelayUseUDP r \<or> ro_DhtPublishSrflx r \<or>
     ro_SymmetricNatHolePunch r \<or> ro_GossipPeers r \<noteq> [] \<or> ro_DHTFindURLs r \<noteq> [] \<or> trim_space (ro_DhtRpcListenUDP r) \<noteq> [] \<or>
     ro_DhtRpcSeedPeers r \<noteq> []"

definition probeICEForRelay ::
  "(bytes \<Rightarrow> string) \<Rightarrow> bytes list option \<Rightarrow> (string list \<Rightarrow> go_error + SrflxResult) \<Rightarrow> duration \<Rightarrow> (string \<Rightarrow> string \<Rightarrow> store_req list \<times> string) \<Rightarrow>
   RelayOptions option \<Rightarrow> MeshConfig option \<Rightarrow> PathManager option \<Rightarrow> string \<Rightarrow> PathManager option \<times> store_req list \<times> string \<times> rat option" where
  "probeICEForRelay ip_str locals gather rtt publish relay mesh pm lastSrflx =
     (case (pm, relay) of
        (Some _, Some r) \<Rightarrow>
        if \<not> meshAllowsSTUN mesh then (pm, [], lastSrflx, None)
        else
          let (pm, ws, lastSrflx) =
            (if \<not> needs_stun r then (pm, [], lastSrflx)
             else case gather (ro_StunServers r) of
               Inl _ \<Rightarrow> (pm, [], lastSrflx)
             | Inr f \<Rightarrow>
               let pm = SetSrflxRTT rtt pm;
                   own = (case locals of None \<Rightarrow> False | Some ls \<Rightarrow> IPOnLocalMachine (Some (sr_IP f)) ls);
                   pm = SetGlobalCandidate (if own then CandidateHost else CandidateSrflx) pm;
                   hp = ip_str (sr_IP f) @ '':'' @ itoa (uint (sr_Port f));
                   lastSrflx = setLastClientSrflx hp lastSrflx
               in if trim_space (ro_PeerRelayUDPListen r) = [] then let (ws, l) = publish hp lastSrflx in (pm, ws, l) else (pm, [], lastSrflx))
          in (pm, ws, lastSrflx, Some (SrflxRTTEwmaMs pm))
      | _ \<Rightarrow> (pm, [], lastSrflx, None))"

section \<open>Starting a session\<close>

datatype task =
    ClusterMapPoll | ClusterSessionsPoll | ClusterClientsPoll | RouteAssist | EmergencyPoll | ProbeICE | BootstrapVerify | GossipMesh
  | StoreForward | DhtSidecar | PeerRelayUDP | NatHolePunch | Watchdog

record Options =
  op_Token :: string
  op_DexoteServerPub :: string
  op_ServerAddrs :: "string list"
  op_Protection :: "ProtectionOptions option"
  op_Transport :: string
  op_QuicServer :: string
  op_PathManager :: "PathManager option"
  op_Relay :: "RelayOptions option"
  op_Mesh :: "MeshConfig option"
  op_Managed :: "ManagedClient option"
  op_RouteController :: "RouteController option"
  op_WatchdogInterval :: duration
  op_OnWatchdogFail :: bool

text \<open>
  What is shared by the process: the live settings, the server's key, the emergency block, the preferred server. And what the session
  meets: the random and system values of theory Background, the dials of theory UdpMux, the errors of the socket, the device and the stack.
\<close>

record proc =
  pc_live :: live
  pc_dexote :: "bytes option"
  pc_blocked :: bool
  pc_pref :: string

record session_env =
  sn_addr :: addr_env
  sn_auth :: "ProtectionOptions option \<Rightarrow> ManagedClient option \<Rightarrow> ProtectionOptions option"
  sn_policy :: "RelayOptions option \<Rightarrow> bool \<Rightarrow> bool"
  sn_seeds :: "RelayOptions option \<Rightarrow> string list"
  sn_dial :: "nat \<Rightarrow> chan_dial"
  sn_qdial :: "nat \<Rightarrow> go_error + nat \<times> (nat \<times> int) list"
  sn_clk :: "nat \<Rightarrow> instant"
  sn_listen :: "string \<Rightarrow> go_error option"
  sn_device :: "go_error option"
  sn_stack :: "go_error option"

definition shouldRunGossipMesh :: "RelayOptions option \<Rightarrow> bool" where
  "shouldRunGossipMesh relay =
     (case relay of None \<Rightarrow> False | Some r \<Rightarrow> ro_GossipEnabled r \<and> (ro_GossipPeers r \<noteq> [] \<or> ro_DHTFindURLs r \<noteq> []))"

text \<open>The tasks before the multiplexer is dialled.\<close>

definition early_tasks :: "string \<Rightarrow> ProtectionOptions option \<Rightarrow> task list" where
  "early_tasks entry prot =
     (if entry \<noteq> [] then [ClusterMapPoll, ClusterSessionsPoll, ClusterClientsPoll] else []) @
     (case prot of None \<Rightarrow> [] | Some p \<Rightarrow> if po_ClusterRouteAssist p then [RouteAssist] else [])"

text \<open>The tasks after it: \<open>seeds\<close> are the nodes of the hash table, \<open>blocked\<close> the emergency block, \<open>listen\<close> the error of the relay's socket.\<close>

definition late_tasks ::
  "string list \<Rightarrow> bool \<Rightarrow> (string \<Rightarrow> go_error option) \<Rightarrow> Options \<Rightarrow> task list" where
  "late_tasks seeds blocked listen opt =
     (if emergencyPolicyConfigured (op_Relay opt) then [EmergencyPoll] else []) @
     (case op_Relay opt of
        None \<Rightarrow> []
      | Some r \<Rightarrow>
        let fed = ro_PeerPathFromDiscovery r \<or> ro_GossipEnabled r in
        (if op_PathManager opt \<noteq> None \<and> \<not> blocked \<and> meshAllowsSTUN (op_Mesh opt) \<and> (needs_stun r \<or> ro_TurnURLs r \<noteq> [])
         then [ProbeICE] else []) @
        (if trim_space (ro_BootstrapPubKey r) \<noteq> [] \<and> (trim_space (ro_DiscoveryURL r) \<noteq> [] \<or> trim_space (ro_DiscoverySigned r) \<noteq> [])
         then [BootstrapVerify] else []) @
        (if shouldRunGossipMesh (Some r) then [GossipMesh] else []) @
        (if trim_space (ro_PeerID r) \<noteq> [] \<and> (seeds \<noteq> [] \<or> fed \<or> ro_GossipPeers r \<noteq> []) then [StoreForward] else []) @
        (if trim_space (ro_DhtRpcListenUDP r) \<noteq> [] \<or> seeds \<noteq> [] \<or> fed \<or> ro_GossipPeers r \<noteq> [] then [DhtSidecar] else []) @
        (if meshAllowsVolunteerRelay (op_Mesh opt) \<and> trim_space (ro_PeerRelayUDPListen r) \<noteq> [] \<and>
            listen (trim_space (ro_PeerRelayUDPListen r)) = None
         then [PeerRelayUDP] else []) @
        (if meshAllowsVolunteerRelay (op_Mesh opt) \<and> ro_SymmetricNatHolePunch r \<and> trim_space (ro_PeerID r) \<noteq> [] \<and> (seeds \<noteq> [] \<or> fed)
         then [NatHolePunch] else []))"

text \<open>Whether the path manager is given the look-up of a peer's addresses.\<close>

definition sets_resolver :: "string list \<Rightarrow> Options \<Rightarrow> bool" where
  "sets_resolver seeds opt \<longleftrightarrow>
     op_PathManager opt \<noteq> None \<and>
     (case op_Relay opt of
        None \<Rightarrow> False
      | Some r \<Rightarrow> ro_PeerRelayUseUDP r \<and> (seeds \<noteq> [] \<or> ro_PeerPathFromDiscovery r \<or> ro_GossipEnabled r))"

datatype session = Running handler udpMux | Failed go_error "nat list"

definition cleared :: "proc \<Rightarrow> proc" where
  "cleared pc = pc\<lparr>pc_live := ClearLiveRouteMode (ClearActiveVolterServer (pc_live pc))\<rparr>"

text \<open>\<^verbatim>\<open>Run\<close> up to the wait for its context: the tasks started, the session or the error with the links closed, and the process after it.\<close>

definition Run :: "session_env \<Rightarrow> Options \<Rightarrow> proc \<Rightarrow> task list \<times> session \<times> proc" where
  "Run sn opt pc =
     (if op_ServerAddrs opt = [] then ([], Failed (Error ''server addrs empty'') [], pc)
      else
        let pc = cleared pc;
            prot = sn_auth sn (protectionWithMeshPolicy (op_Protection opt) (op_Mesh opt)) (op_Managed opt);
            pub = trim_space (op_DexoteServerPub opt);
            key = (if pub = [] then Inr None else map_sum id Some (DecodePub pub))
        in (case key of
          Inl e \<Rightarrow> ([], Failed e [], cleared pc)
        | Inr k \<Rightarrow>
          let live = (case prot of None \<Rightarrow> ClearLiveRouteMode (pc_live pc) | Some p \<Rightarrow> SetLiveRouteMode (po_RouteMode p) (pc_live pc));
              pc = pc\<lparr>pc_dexote := k, pc_live := live\<rparr>;
              entry = clusterHTTPPollTarget (sn_addr sn) live (pc_pref pc) (op_ServerAddrs opt) prot;
              early = early_tasks entry prot;
              (mux, shut) = newUDPMux (sn_dial sn) (sn_qdial sn) (sn_clk sn) (op_ServerAddrs opt) 4 prot (op_Transport opt) (op_QuicServer opt)
          in (case mux of
            Inl e \<Rightarrow> (early, Failed e shut, cleared pc)
          | Inr m \<Rightarrow>
            let pc = pc\<lparr>pc_blocked := (if emergencyPolicyConfigured (op_Relay opt) then sn_policy sn (op_Relay opt) (pc_blocked pc)
                                       else pc_blocked pc)\<rparr>;
                tasks = early @ late_tasks (sn_seeds sn (op_Relay opt)) (pc_blocked pc) (sn_listen sn) opt
            in (case sn_device sn of
              Some e \<Rightarrow> (tasks, Failed e (snd (mux_Close m)), cleared pc)
            | None \<Rightarrow>
              (case sn_stack sn of
                Some e \<Rightarrow> (tasks, Failed e (snd (mux_Close m)), cleared pc)
              | None \<Rightarrow>
                (tasks @ (if op_WatchdogInterval opt > 0 \<and> op_OnWatchdogFail opt then [Watchdog] else []),
                 Running \<lparr>hd_prot = prot, hd_rc = op_RouteController opt, hd_mesh = op_Mesh opt, hd_pref = pc_pref pc,
                          hd_emergency = pc_blocked pc\<rparr> m, pc))))))"

text \<open>The end of a session: the preference is cleared, and the deferred calls run.\<close>

definition stop_session :: "udpMux \<Rightarrow> proc \<Rightarrow> nat list \<times> proc" where
  "stop_session m pc = (snd (mux_Close m), cleared (pc\<lparr>pc_pref := []\<rparr>))"


section \<open>The socket\<close>

definition answered :: "delivery list \<Rightarrow> nat list" where
  "answered ds = concat (map (\<lambda>d. case d of ToChannel ch _ _ \<Rightarrow> [ch] | _ \<Rightarrow> []) ds)"

lemma answered_simps [simp]:
  "answered [] = []" "answered (ToChannel ch u p # ds) = ch # answered ds"
  "answered (ToVP02 u p # ds) = answered ds" "answered (Dropped # ds) = answered ds"
  by (simp_all add: answered_def)

definition stun_ok :: "PeerSocket \<Rightarrow> bool" where
  "stun_ok s \<longleftrightarrow> gomap_ok (sk_stunWait s) \<and> distinct (map snd (sk_stunWait s))"

lemma dispatch_cases:
  obtains (dropped) "dispatchPacket u pkt s = (Dropped, s)"
  | (handed) "dispatchPacket u pkt s = (ToVP02 u pkt, s)" "sk_vp02Handler s"
  | (matched) tx ch where "dispatchPacket u pkt s = (ToChannel ch u pkt, cancel_stun tx s)" "IsBindingResponse pkt = (tx, True)"
      "mget (sk_stunWait s) tx = Some ch"
proof -
  obtain tx ok where t: "IsBindingResponse pkt = (tx, ok)" by fastforce
  show ?thesis
  proof (cases ok)
    case True
    then show ?thesis using t dropped matched by (cases "mget (sk_stunWait s) tx") (simp_all add: dispatchPacket_def)
  next
    case False
    then show ?thesis using t dropped handed
      by (cases "4 \<le> length pkt \<and> take 4 pkt = str_bytes ''VP02''"; cases "sk_vp02Handler s") (simp_all add: dispatchPacket_def)
  qed
qed

lemma stun_ok_cancel: "stun_ok s \<Longrightarrow> stun_ok (cancel_stun tx s)"
  unfolding stun_ok_def cancel_stun_def by (auto intro: gomap_ok_mdel) (simp add: mdel_def distinct_map_filter)

text \<open>A delivery that fits: an answer that arrived, to the channel its transaction waits with; a message of a peer, to the handler.\<close>

definition fits :: "(string \<times> bytes) list \<Rightarrow> PeerSocket \<Rightarrow> delivery \<Rightarrow> bool" where
  "fits ps s d =
     (case d of
        ToChannel ch u pkt \<Rightarrow> (u, pkt) \<in> set ps \<and> snd (IsBindingResponse pkt) \<and> mget (sk_stunWait s) (fst (IsBindingResponse pkt)) = Some ch
      | ToVP02 u pkt \<Rightarrow> (u, pkt) \<in> set ps \<and> sk_vp02Handler s
      | Dropped \<Rightarrow> True)"

lemma fits_simps [simp]:
  "fits ps s Dropped"
  "fits ps s (ToVP02 u pkt) \<longleftrightarrow> (u, pkt) \<in> set ps \<and> sk_vp02Handler s"
  "fits ps s (ToChannel ch u pkt) \<longleftrightarrow>
     (u, pkt) \<in> set ps \<and> snd (IsBindingResponse pkt) \<and> mget (sk_stunWait s) (fst (IsBindingResponse pkt)) = Some ch"
  by (simp_all add: fits_def)

lemma fits_later: "fits ps s d \<Longrightarrow> fits (p # ps) s d"
  by (auto simp: fits_def split: delivery.splits)

lemma fits_cancel: "fits ps (cancel_stun tx s) d \<Longrightarrow> fits ps s d"
  by (auto simp: fits_def cancel_stun_def mget_mdel split: delivery.splits if_splits)

lemma readLoop_fits:
  "stun_ok s \<Longrightarrow> peer_readLoop ps s = (ds, s') \<Longrightarrow>
   set (answered ds) \<subseteq> snd ` set (sk_stunWait s) \<and> distinct (answered ds) \<and> list_all (fits ps s) ds"
proof (induction ps arbitrary: s ds)
  case (Cons p ps)
  obtain u pkt where p: "p = (u, pkt)" by (cases p)
  obtain d s1 es where d: "dispatchPacket u pkt s = (d, s1)" "peer_readLoop ps s1 = (es, s')" "ds = d # es"
    using Cons.prems(2) by (auto simp: p split_beta Let_def prod_eq_iff)
  have later: "list_all (fits ps s) es \<Longrightarrow> list_all (fits (p # ps) s) es" by (auto simp: list_all_iff fits_later)
  show ?case
  proof (cases rule: dispatch_cases [of u pkt s])
    case dropped
    then show ?thesis using d Cons.IH [OF Cons.prems(1)] later by simp
  next
    case handed
    then show ?thesis using d Cons.IH [OF Cons.prems(1)] later by (simp add: p)
  next
    case (matched tx ch)
    have s1: "s1 = cancel_stun tx s" "d = ToChannel ch u pkt" using matched d by simp_all
    note ih = Cons.IH [OF stun_ok_cancel [OF Cons.prems(1), of tx] d(2) [unfolded s1]]
    have "(tx, ch) \<in> set (sk_stunWait s)" using matched(3) by (rule mget_Some_in)
    moreover have "inj_on snd (set (sk_stunWait s))" using Cons.prems(1) by (simp add: stun_ok_def distinct_map)
    ultimately have "a = tx" if "(a, ch) \<in> set (sk_stunWait s)" for a
      using that inj_onD [of snd "set (sk_stunWait s)" "(a, ch)" "(tx, ch)"] by simp
    then have c: "ch \<in> snd ` set (sk_stunWait s)" "ch \<notin> snd ` set (mdel tx (sk_stunWait s))"
      using imageI [OF mget_Some_in [OF matched(3)], of snd] by (simp, auto simp: set_mdel)
    have m: "snd ` set (mdel tx (sk_stunWait s)) \<subseteq> snd ` set (sk_stunWait s)" by (auto simp: set_mdel)
    have "list_all (fits ps s) es" using ih fits_cancel by (auto simp: list_all_iff)
    then have "list_all (fits (p # ps) s) ds" using later matched by (simp add: d(3) s1(2) p)
    moreover have "set (answered es) \<subseteq> snd ` set (mdel tx (sk_stunWait s))" "distinct (answered es)"
      using ih by (simp_all add: cancel_stun_def)
    ultimately show ?thesis using c m by (auto simp: d(3) s1(2))
  qed
qed simp

text \<open>
  The reader of the shared socket never waits: whatever datagrams arrive, each transaction's channel, which has room for one, is handed at most
  one, and that one is an answer that arrived and carries the transaction the channel waits with.
\<close>

theorem stun_answer_once:
  assumes "stun_ok s" and "peer_readLoop ps s = (ds, s')"
  shows "distinct (answered ds) \<and> list_all (fits ps s) ds"
  using readLoop_fits [OF assms] by simp

theorem stun_answer_once_witness:
  "distinct (answered (fst (peer_readLoop [(''a'', [1, 1, 0, 0, 33, 18, 164, 66] @ replicate 12 7), (''b'', [])] (RegisterSTUN (replicate 12 7) 4 NewPeerSocket))))"
proof -
  have "stun_ok (RegisterSTUN (replicate 12 7) 4 NewPeerSocket)"
    by (simp add: stun_ok_def RegisterSTUN_def NewPeerSocket_def mput_def gomap_ok_def)
  from stun_answer_once [OF this prod.collapse [symmetric]] show ?thesis by blast
qed

text \<open>A server that stays silent ends the search, whatever the servers after it would answer.\<close>

lemma silent_server_ends_gather:
  assumes "resolve hp = Inr addr" and "rnd 0 = Inr tx" and "send addr (buildSTUNBindingRequest tx) = None" and "answer 0 = Inl e"
  shows "fst (GatherSrflxOnPeerSocket resolve rnd send answer (hp # hps)) = Inl e"
  by (simp add: GatherSrflxOnPeerSocket_def assms)

section \<open>Starting and failing\<close>

lemma DecodePub_EncodePub: "length b = 32 \<Longrightarrow> DecodePub (EncodePub b) = Inr b"
  by (simp add: DecodePub_def EncodePub_def)

lemma live_cleared:
  "liveRouteModeValue (pc_live (cleared pc)) = [] \<and> LiveClusterPreferredServerValue (pc_live (cleared pc)) = [] \<and>
   ActiveVolterServer (pc_live (cleared pc)) = []"
  by (simp add: cleared_def ClearLiveRouteMode_def ClearActiveVolterServer_def liveRouteModeValue_def LiveClusterPreferredServerValue_def
      ActiveVolterServer_def text_of_def)

lemma map_sum_Inr: "map_sum id f x = Inr y \<longleftrightarrow> (\<exists>k. x = Inr k \<and> y = f k)"
  by (cases x) auto

lemma Run_cases:
  assumes "Run sn opt pc = (tasks, Failed e shut, pc')" and "op_ServerAddrs opt \<noteq> []"
    and "prot = sn_auth sn (protectionWithMeshPolicy (op_Protection opt) (op_Mesh opt)) (op_Managed opt)"
    and "mux = newUDPMux (sn_dial sn) (sn_qdial sn) (sn_clk sn) (op_ServerAddrs opt) 4 prot (op_Transport opt) (op_QuicServer opt)"
  shows "\<exists>pc0. pc' = cleared pc0 \<and>
    (tasks = [] \<and> shut = [] \<or> mux = (Inl e, shut) \<or> (\<exists>m. fst mux = Inr m \<and> shut = map uc_conn (mx_chans m) \<and> Some e \<in> {sn_device sn, sn_stack sn}))"
proof -
  obtain r s where m: "mux = (r, s)" by (cases mux)
  show ?thesis
    using assms(1,2) m [unfolded assms(4) assms(3)] unfolding m
    by (auto simp: Run_def Let_def mux_Close_def split: sum.splits option.splits prod.splits if_splits)
qed


text \<open>
  A session that runs is ready: it has its four UDP channels, numbered in order, no flow yet, the route mode of its own options live, and
  the server's key that was configured.
\<close>

theorem session_ready:
  assumes "Run sn opt pc = (tasks, Running h m, pc')"
  shows "map uc_slot (mx_chans m) = [0, 1, 2, 3] \<and> mux_reach ip_str m [] \<and>
    pc_live pc' = (case hd_prot h of None \<Rightarrow> ClearLiveRouteMode (pc_live (cleared pc)) | Some p \<Rightarrow> SetLiveRouteMode (po_RouteMode p) (pc_live (cleared pc))) \<and>
    (if trim_space (op_DexoteServerPub opt) = [] then pc_dexote pc' = None
     else \<exists>k. DecodePub (trim_space (op_DexoteServerPub opt)) = Inr k \<and> pc_dexote pc' = Some k)"
proof -
  let ?prot = "sn_auth sn (protectionWithMeshPolicy (op_Protection opt) (op_Mesh opt)) (op_Managed opt)"
  let ?mux = "newUDPMux (sn_dial sn) (sn_qdial sn) (sn_clk sn) (op_ServerAddrs opt) 4 ?prot (op_Transport opt) (op_QuicServer opt)"
  obtain r s where m: "?mux = (r, s)" by fastforce
  have R: "r = Inr m" "hd_prot h = ?prot"
    "pc_live pc' = (case ?prot of None \<Rightarrow> ClearLiveRouteMode (pc_live (cleared pc)) | Some p \<Rightarrow> SetLiveRouteMode (po_RouteMode p) (pc_live (cleared pc)))"
    "if trim_space (op_DexoteServerPub opt) = [] then pc_dexote pc' = None
     else \<exists>k. DecodePub (trim_space (op_DexoteServerPub opt)) = Inr k \<and> pc_dexote pc' = Some k"
    using assms m by (auto simp: Run_def Let_def map_sum_Inr split: sum.splits option.splits prod.splits if_splits)
  have c: "map uc_slot (mx_chans m) = map int [0..<4]" "mx_assoc m = []" using mux_setup_cases [OF m _ refl] R(1) by simp_all
  have "map int [0..<4] = [0, 1, 2, 3]" by (simp add: upt_rec)
  then show ?thesis using c mux_reach.start [OF c(2)] R(2-4) by simp
qed

text \<open>
  The emergency block does not reach what it is named after: under it the relay for other peers is started all the same, and a flow whose mode is
  \<^verbatim>\<open>peer_relay\<close> is dialled exactly as without it.
\<close>

theorem block_bypassed:
  assumes "live_preferred (wd_live (fl_world fl)) (hd_prot h) (fst (directed_prot (fa_target fa) now h)) = Some q"
    and "to_lower (trim_space (po_RouteMode q)) = ''peer_relay''"
    and "op_Relay opt = Some r" and "meshAllowsVolunteerRelay (op_Mesh opt)" and "trim_space (ro_PeerRelayUDPListen r) \<noteq> []"
    and "listen (trim_space (ro_PeerRelayUDPListen r)) = None"
  shows "PeerRelayUDP \<in> set (late_tasks seeds True listen opt) \<and>
    (let f = \<lambda>b. handleTCP parse fe fa now (h\<lparr>hd_emergency := b\<rparr>) fl
     in fst (f True) = fst (f False) \<and> snd (snd (f True)) = snd (snd (f False)))"
proof -
  have d: "directed_prot tg now (h\<lparr>hd_emergency := b\<rparr>) =
      (fst (directed_prot tg now h), (snd (directed_prot tg now h))\<lparr>hd_emergency := b\<rparr>)" for b tg
    by (simp add: directed_prot_def Let_def split_beta split: option.splits)
  have s: "isServerAddr parse ae addrs (h\<lparr>hd_emergency := b\<rparr>) tg = isServerAddr parse ae addrs h tg" for b ae addrs tg
    by (simp add: isServerAddr_def)
  have p: "hd_prot (snd (directed_prot tg now h)) = hd_prot h" "hd_pref (snd (directed_prot tg now h)) = hd_pref h" for tg
    by (simp_all add: directed_prot_def Let_def split_beta split: option.splits)
  have "PeerRelayUDP \<in> set (late_tasks seeds True listen opt)" using assms(3-6) by (simp add: late_tasks_def Let_def)
  moreover have "fst (handleTCP parse fe fa now (h\<lparr>hd_emergency := b\<rparr>) fl) = fst (handleTCP parse fe fa now (h\<lparr>hd_emergency := c\<rparr>) fl) \<and>
      snd (snd (handleTCP parse fe fa now (h\<lparr>hd_emergency := b\<rparr>) fl)) = snd (snd (handleTCP parse fe fa now (h\<lparr>hd_emergency := c\<rparr>) fl))" for b c
    using assms(1,2) by (simp add: handleTCP_def d s p Let_def split_beta)
  ultimately show ?thesis unfolding Let_def by blast
qed

section \<open>Examples\<close>

definition demo_sn :: "go_error option \<Rightarrow> session_env" where
  "demo_sn dev = \<lparr>sn_addr = \<lparr>ae_ip = \<lambda>_. None, ae_url = \<lambda>_. None\<rparr>, sn_auth = \<lambda>p _. p, sn_policy = \<lambda>_ b. b, sn_seeds = \<lambda>_. [],
     sn_dial = \<lambda>i c a. Inr (i + 5, 0), sn_qdial = \<lambda>_. Inl EOF, sn_clk = \<lambda>_. 0, sn_listen = \<lambda>_. None, sn_device = dev, sn_stack = None\<rparr>"

definition demo_op :: Options where
  "demo_op = \<lparr>op_Token = ''t'', op_DexoteServerPub = [], op_ServerAddrs = [''a:1''], op_Protection = None, op_Transport = ''tcp'',
     op_QuicServer = [], op_PathManager = None,
     op_Relay = Some (ro_zero\<lparr>ro_PeerRelayUDPListen := '':9''\<rparr>),
     op_Mesh = Some (mesh_zero\<lparr>me_Enabled := True, me_Volunteer := mv_zero\<lparr>mv_Enabled := True\<rparr>\<rparr>), op_Managed = None,
     op_RouteController = None, op_WatchdogInterval = 0, op_OnWatchdogFail = False\<rparr>"

definition demo_pc :: proc where
  "demo_pc = \<lparr>pc_live = live_zero, pc_dexote = None, pc_blocked = False, pc_pref = []\<rparr>"

lemma demo_mux_up: "\<exists>m. fst (newUDPMux (sn_dial (demo_sn dev)) (sn_qdial (demo_sn dev)) (sn_clk (demo_sn dev)) [''a:1''] 4 prot ''tcp'' []) = Inr m"
proof -
  obtain r s where m: "newUDPMux (sn_dial (demo_sn dev)) (sn_qdial (demo_sn dev)) (sn_clk (demo_sn dev)) [''a:1''] 4 prot ''tcp'' [] = (r, s)"
    by fastforce
  have q: "\<not> UsesQUICTransport ''tcp'' []" by code_simp
  have "fst (newUDPChan (sn_dial (demo_sn dev) k) 0 i [''a:1''] prot) = Inr (udp_chan True 0 prot (uint i) (k + 5) 0)" for k i
    by (simp add: demo_sn_def newUDPChan_def turned_def numeral_3_eq_3)
  then have "\<exists>x. r = Inr x" using mux_setup_cases [OF m _ refl] q by (cases r) (auto simp: demo_sn_def)
  then show ?thesis unfolding m by simp
qed

lemma demo_run:
  "\<exists>tasks h m e shut pc'. Run (demo_sn dev) demo_op demo_pc = (tasks, case dev of None \<Rightarrow> Running h m | Some e \<Rightarrow> Failed e shut, pc')"
proof -
  obtain m where "fst (newUDPMux (sn_dial (demo_sn dev)) (sn_qdial (demo_sn dev)) (sn_clk (demo_sn dev)) [''a:1''] 4
      (protectionWithMeshPolicy None (op_Mesh demo_op)) ''tcp'' []) = Inr m" using demo_mux_up by blast
  then obtain s where m: "newUDPMux (sn_dial (demo_sn dev)) (sn_qdial (demo_sn dev)) (sn_clk (demo_sn dev)) [''a:1''] 4
      (protectionWithMeshPolicy None (op_Mesh demo_op)) ''tcp'' [] = (Inr m, s)" by (metis prod.collapse)
  have o: "op_ServerAddrs demo_op = [''a:1'']" "op_Protection demo_op = None" "op_Transport demo_op = ''tcp''" "op_QuicServer demo_op = []"
    "op_DexoteServerPub demo_op = []" "sn_auth (demo_sn dev) = (\<lambda>p _. p)" "sn_device (demo_sn dev) = dev" "sn_stack (demo_sn dev) = None"
    by (simp_all add: demo_op_def demo_sn_def)
  show ?thesis
  proof (cases dev)
    case None
    show ?thesis using m o unfolding None by (simp add: Run_def Let_def)
  next
    case (Some e)
    show ?thesis using m o unfolding Some by (simp add: Run_def Let_def)
  qed
qed


theorem session_ready_witness:
  "\<exists>tasks h m pc'. Run (demo_sn None) demo_op demo_pc = (tasks, Running h m, pc') \<and> map uc_slot (mx_chans m) = [0, 1, 2, 3]"
proof -
  obtain tasks h m pc' where r: "Run (demo_sn None) demo_op demo_pc = (tasks, Running h m, pc')" using demo_run [of None] by auto
  from session_ready [OF r] r show ?thesis by blast
qed

theorem block_bypassed_witness:
  "PeerRelayUDP \<in> set (late_tasks [] True (\<lambda>_. None) demo_op)"
proof -
  let ?h = "demo_handler\<lparr>hd_prot := Some (po_zero\<lparr>po_RouteMode := ''peer_relay''\<rparr>)\<rparr>"
  have "live_preferred (wd_live (fl_world (demo_flow None))) (hd_prot ?h) (fst (directed_prot (fa_target demo_fa) 0 ?h)) =
      Some (po_zero\<lparr>po_RouteMode := ''peer_relay''\<rparr>)" by code_simp
  moreover have "to_lower (trim_space (po_RouteMode (po_zero\<lparr>po_RouteMode := ''peer_relay''\<rparr>))) = ''peer_relay''" by code_simp
  moreover have "op_Relay demo_op = Some (ro_zero\<lparr>ro_PeerRelayUDPListen := '':9''\<rparr>)" by (simp add: demo_op_def)
  moreover have "meshAllowsVolunteerRelay (op_Mesh demo_op)" by code_simp
  moreover have "trim_space (ro_PeerRelayUDPListen (ro_zero\<lparr>ro_PeerRelayUDPListen := '':9''\<rparr>)) \<noteq> []" by code_simp
  ultimately show ?thesis by (rule block_bypassed [THEN conjunct1]) simp
qed

end
