(* ===== verification/Opening.thy ===== *)
theory Opening
  imports Session Preamble
begin

text \<open>
  How a client opens a stream to a peer relay over UDP (\<^verbatim>\<open>internal/tunnel/preamble.go\<close>, lines 27 to 186, and \<^verbatim>\<open>peer_udp.go\<close>): the
  shape of the junk drawn from the options, the preamble, the handshake and the request, cut into datagrams; and, with theories PeerFrame and PeerRelay,
  what the relay makes of them. Random draws, SHA-256, HMAC and JSON are arguments; the pause before a flush is left out of the writes.
\<close>

section \<open>The shape of the junk\<close>

text \<open>\<open>draw i\<close> is the \<open>i\<close>-th random number, 0 when the source fails.\<close>

definition randInt :: "(nat \<Rightarrow> nat) \<Rightarrow> nat \<Rightarrow> int \<Rightarrow> int \<Rightarrow> int" where
  "randInt draw i mn mx = (if mx \<le> mn then mn else mn + int (draw i mod nat (mx - mn + 1)))"

text \<open>The longest pause the flush call-back makes, \<open>None\<close> when it makes none.\<close>

definition wrapFlushJitter :: "ProtectionOptions option \<Rightarrow> int option" where
  "wrapFlushJitter prot =
     (let mx = (case prot of None \<Rightarrow> 0 | Some p \<Rightarrow> po_FlushJitterMaxMs p) in if mx \<le> 0 then None else Some mx)"

definition resolvePreambleKind :: "(bytes \<Rightarrow> bytes) \<Rightarrow> ProtectionOptions option \<Rightarrow> int \<Rightarrow> string \<Rightarrow> string \<Rightarrow> string" where
  "resolvePreambleKind sha256 prot slot token junkStyle =
     (case prot of
        None \<Rightarrow> ResolvePreambleKind sha256 junkStyle [] False False slot token 0
      | Some p \<Rightarrow>
        ResolvePreambleKind sha256 junkStyle (po_PreambleProfile p) (po_PreambleRotate p) (equal_fold (po_Obfuscation p) ''enhanced'')
          slot token (po_ProbeObfsProfileID p))"

record stream_shape =
  sp_maxPad :: int
  sp_prefixLen :: int
  sp_junkCount :: int
  sp_junkMin :: int
  sp_junkMax :: int
  sp_junkStyle :: string
  sp_flushPolicy :: string

definition cap_at :: "int \<Rightarrow> int \<Rightarrow> int" where
  "cap_at m x = (if x > m then m else x)"

text \<open>The number and the bounds of the junk the options ask for.\<close>

definition junk_of :: "ProtectionOptions \<Rightarrow> int \<times> int \<times> int" where
  "junk_of p =
     (let (n, mn, mx) =
        (if po_JunkCount p > 0 then
           let mn = (if po_JunkMin p > 0 then po_JunkMin p else 64)
           in (po_JunkCount p, mn, if po_JunkMax p > mn then po_JunkMax p else 1024)
         else (0, 64, 1024))
      in (if equal_fold (po_Obfuscation p) ''enhanced'' \<and> n > 0 then cap_at 12 (wrap64 (n + 3)) else n, mn, mx))"

definition streamObf :: "(nat \<Rightarrow> nat) \<Rightarrow> ProtectionOptions option \<Rightarrow> int \<Rightarrow> bool \<Rightarrow> stream_shape" where
  "streamObf draw prot slot udpMaxPad =
     (let pad =
        (if udpMaxPad then
           let lo = (case prot of None \<Rightarrow> 32 | Some p \<Rightarrow> if po_PadS4 p > 0 \<and> po_PadS4 p \<le> 64 then po_PadS4 p else 32)
           in randInt draw 0 lo (cap_at 64 (lo + 16))
         else 32);
          prefixLen = (case prot of None \<Rightarrow> 0
            | Some p \<Rightarrow> cap_at 64 (cap_at 64 (wrap64 (wrap64 (po_PadS1 p + po_PadS2 p) + po_PadS3 p)) + go_mod slot 8));
          (n, mn, mx) = (case prot of None \<Rightarrow> (0, 64, 1024) | Some p \<Rightarrow> junk_of p);
          (n, mn, mx) = (if n = 0 then (2, 64, 512) else (n, mn, mx));
          cMin = (if n - 1 < 1 then 1 else n - 1);
          n = randInt draw 1 cMin (cap_at 16 (wrap64 (n + 2)));
          mn' = randInt draw 2 mn (cap_at 1024 (wrap64 (mn + 128)));
          jMaxLo = (if mx < mn' then mn' else mx);
          jMaxHi = cap_at 2048 (wrap64 (mx + 384));
          jMaxHi = (if jMaxHi < jMaxLo then jMaxLo else jMaxHi)
      in \<lparr>sp_maxPad = pad, sp_prefixLen = prefixLen, sp_junkCount = n, sp_junkMin = mn', sp_junkMax = randInt draw 3 jMaxLo jMaxHi,
          sp_junkStyle = (case prot of None \<Rightarrow> [] | Some p \<Rightarrow> po_JunkStyle p),
          sp_flushPolicy = (case prot of None \<Rightarrow> [] | Some p \<Rightarrow> po_FlushPolicy p)\<rparr>)"

text \<open>The shape a stream to a relay has: longer and with more junk.\<close>

definition relay_shape :: "(nat \<Rightarrow> nat) \<Rightarrow> ProtectionOptions option \<Rightarrow> int \<Rightarrow> stream_shape" where
  "relay_shape draw prot slot =
     (let s = streamObf draw prot slot False;
          mn = (if sp_junkMin s < 128 then 128 else sp_junkMin s);
          mn = cap_at 1024 (wrap64 (mn + randInt draw 6 0 128));
          mx = (if sp_junkMax s < mn + 256 then mn + 256 else sp_junkMax s)
      in s\<lparr>sp_prefixLen := cap_at 64 (sp_prefixLen s + randInt draw 4 8 24),
           sp_junkCount := cap_at 16 (wrap64 (sp_junkCount s + randInt draw 5 2 5)),
           sp_junkMin := mn, sp_junkMax := cap_at 2048 (wrap64 (mx + randInt draw 7 64 512))\<rparr>)"

section \<open>Opening\<close>

record open_env =
  on_sha256 :: "bytes \<Rightarrow> bytes"
  on_hmac :: "bytes \<Rightarrow> bytes \<Rightarrow> bytes"
  on_marshal :: "ProtectionOptions \<Rightarrow> bytes"
  on_split :: "bytes \<Rightarrow> string"
  on_draw :: "nat \<Rightarrow> nat"
  on_junk :: entropy
  on_pad :: entropy
  on_session :: "bytes option"
  on_nonce :: "bytes option"

text \<open>The role and the options of the handshake, and the options of the client after it.\<close>

definition hello_parts :: "open_env \<Rightarrow> string \<Rightarrow> ProtectionOptions option \<Rightarrow> byte \<times> bytes \<times> ProtectionOptions option" where
  "hello_parts on token prot =
     (case prot of
        None \<Rightarrow> (roleTCP, [], None)
      | Some p \<Rightarrow>
        let prot = enrichSessionOptions (on_sha256 on) (on_session on) token (Some p);
            eff = relayOptsForHandshake (on_sha256 on) (on_hmac on) (on_nonce on) token prot
        in case eff of
             None \<Rightarrow> (roleTCP, [], prot)
           | Some q \<Rightarrow>
             (if (po_RelayHop q > 0 \<or> po_RelayMaxHop q > 0) \<and> trim_space (po_ClusterPreferredServer p) = [] \<and> trim_space (po_PeerID q) \<noteq> []
              then roleRelayTCP else roleTCP, on_marshal on q, prot))"

definition tcpRelayPreamble :: "open_env \<Rightarrow> string \<Rightarrow> ProtectionOptions option \<Rightarrow> int \<Rightarrow> wout \<times> ProtectionOptions option" where
  "tcpRelayPreamble on token prot slot =
     (let s = relay_shape (on_draw on) prot slot;
          kind = resolvePreambleKind (on_sha256 on) prot slot token (sp_junkStyle s);
          (role, opts, prot) = hello_parts on token prot
      in (wseq [WritePreamble (on_junk on) kind (sp_junkCount s) (sp_junkMin s) (sp_junkMax s) (sp_flushPolicy s) True,
            (if \<not> equal_fold (sp_flushPolicy s) ''perChunk'' then wflush else wok),
            WriteHandshakeWithPrefixAndOptsSlot (on_split on) (on_pad on) role 0 token (sp_prefixLen s) opts], prot))"

text \<open>What \<^verbatim>\<open>DialPeerRelayUDP\<close> sends: the datagrams, or the error of a writer.\<close>

definition peer_opening :: "open_env \<Rightarrow> bytes \<Rightarrow> u16 \<Rightarrow> string \<Rightarrow> ProtectionOptions option \<Rightarrow> int \<Rightarrow> go_error + bytes list" where
  "peer_opening on ip port token prot slot =
     (let w = wseq [fst (tcpRelayPreamble on token prot slot), WriteTcpConnect ip port, wflush] in
      case wfailed w of Some e \<Rightarrow> Inl e | None \<Rightarrow> writeVP02Message (wbytes w))"

section \<open>Lemmas: the shape\<close>

lemma randInt_range: "randInt draw i mn mx \<in> {mn..max mn mx}"
proof (cases "mx \<le> mn")
  case False
  then have "draw i mod nat (mx - mn + 1) < nat (mx - mn + 1)" by (intro mod_less_divisor) auto
  then have "int (draw i mod nat (mx - mn + 1)) < mx - mn + 1" using False by linarith
  then show ?thesis using False by (auto simp: randInt_def)
qed (simp add: randInt_def)

lemma randInt_between: "mn \<le> mx \<Longrightarrow> mn \<le> randInt draw i mn mx \<and> randInt draw i mn mx \<le> mx"
  using randInt_range [of draw i mn mx] by auto

text \<open>Option fields far from the ends of the range of \<^verbatim>\<open>int\<close>.\<close>

definition sizes_small :: "ProtectionOptions option \<Rightarrow> bool" where
  "sizes_small prot \<longleftrightarrow> (\<forall>p. prot = Some p \<longrightarrow>
     (\<forall>x \<in> set [po_JunkCount p, po_JunkMin p, po_JunkMax p]. x < 2 ^ 62))"

lemma junk_of_range:
  assumes "sizes_small (Some p)"
  shows "0 \<le> fst (junk_of p) \<and> fst (junk_of p) < 2 ^ 62 \<and> 0 < fst (snd (junk_of p)) \<and> fst (snd (junk_of p)) < 2 ^ 62 \<and>
    0 < snd (snd (junk_of p)) \<and> snd (snd (junk_of p)) < 2 ^ 62"
proof -
  have w: "0 \<le> n \<Longrightarrow> n < 2 ^ 62 \<Longrightarrow> wrap64 (n + 3) = n + 3" for n by (intro wrap64_id) auto
  show ?thesis using assms w [of "po_JunkCount p"] by (auto simp: junk_of_def sizes_small_def cap_at_def Let_def)
qed

text \<open>What \<open>streamObf\<close> draws from a number, a least and a greatest length of junk.\<close>

definition obf_junk :: "(nat \<Rightarrow> nat) \<Rightarrow> int \<times> int \<times> int \<Rightarrow> int \<times> int \<times> int" where
  "obf_junk draw = (\<lambda>(n, mn, mx).
     let mn' = randInt draw 2 mn (cap_at 1024 (wrap64 (mn + 128)));
         lo = (if mx < mn' then mn' else mx); hi = cap_at 2048 (wrap64 (mx + 384))
     in (randInt draw 1 (if n - 1 < 1 then 1 else n - 1) (cap_at 16 (wrap64 (n + 2))), mn', randInt draw 3 lo (if hi < lo then lo else hi)))"

lemma streamObf_junk:
  defines "j prot \<equiv> (let (n, mn, mx) = (case prot of None \<Rightarrow> (0, 64, 1024) | Some p \<Rightarrow> junk_of p) in if n = 0 then (2, 64, 512) else (n, mn, mx))"
  shows "sp_junkCount (streamObf draw prot slot b) = fst (obf_junk draw (j prot))"
    "sp_junkMin (streamObf draw prot slot b) = fst (snd (obf_junk draw (j prot)))"
    "sp_junkMax (streamObf draw prot slot b) = snd (snd (obf_junk draw (j prot)))"
  by (simp_all add: streamObf_def obf_junk_def j_def Let_def split_beta)

lemma obf_junk_range:
  assumes "1 \<le> n" "n < 2 ^ 62" "0 < mn" "mn < 2 ^ 62" "0 < mx" "mx < 2 ^ 62"
  shows "1 \<le> fst (obf_junk draw (n, mn, mx)) \<and> fst (obf_junk draw (n, mn, mx)) < 2 ^ 62 \<and>
    0 < fst (snd (obf_junk draw (n, mn, mx))) \<and> fst (snd (obf_junk draw (n, mn, mx))) < 2 ^ 62 \<and>
    0 < snd (snd (obf_junk draw (n, mn, mx))) \<and> snd (snd (obf_junk draw (n, mn, mx))) < 2 ^ 62"
proof -
  have w: "wrap64 (mn + 128) = mn + 128" "wrap64 (mx + 384) = mx + 384" "wrap64 (n + 2) = n + 2"
    using assms by (intro wrap64_id; simp)+
  define mn' where "mn' = randInt draw 2 mn (cap_at 1024 (mn + 128))"
  have m: "mn \<le> mn'" "mn' \<le> max mn 1024"
    using randInt_range [of draw 2 mn "cap_at 1024 (mn + 128)"] by (auto simp: mn'_def cap_at_def split: if_splits)
  define lo where "lo = (if mx < mn' then mn' else mx)"
  define hi where "hi = (if cap_at 2048 (mx + 384) < lo then lo else cap_at 2048 (mx + 384))"
  have h: "0 < lo" "lo \<le> hi" "hi < 2 ^ 62" using assms m by (auto simp: lo_def hi_def cap_at_def max_def split: if_splits)
  have "0 < randInt draw 3 lo hi" "randInt draw 3 lo hi < 2 ^ 62"
    using randInt_between [OF h(2), of draw 3] h by linarith+
  moreover have "1 \<le> randInt draw 1 (if n - 1 < 1 then 1 else n - 1) (cap_at 16 (n + 2))"
    "randInt draw 1 (if n - 1 < 1 then 1 else n - 1) (cap_at 16 (n + 2)) < 2 ^ 62"
    using randInt_range [of draw 1 "if n - 1 < 1 then 1 else n - 1" "cap_at 16 (n + 2)"] assms(1,2)
    by (auto simp: cap_at_def max_def split: if_splits)
  moreover have "obf_junk draw (n, mn, mx) =
      (randInt draw 1 (if n - 1 < 1 then 1 else n - 1) (cap_at 16 (n + 2)), mn', randInt draw 3 lo hi)"
    by (simp only: obf_junk_def prod.case w Let_def mn'_def [symmetric] lo_def [symmetric] hi_def [symmetric])
  moreover have "mn' < 2 ^ 62" using m assms by (auto simp: max_def split: if_splits)
  ultimately show ?thesis using m assms(3) by (simp only: fst_conv snd_conv) simp
qed

lemma streamObf_range:
  fixes draw slot b
  assumes "sizes_small prot"
  defines "s \<equiv> streamObf draw prot slot b"
  shows "1 \<le> sp_junkCount s \<and> sp_junkCount s < 2 ^ 62 \<and> 0 < sp_junkMin s \<and> sp_junkMin s < 2 ^ 62 \<and> 0 < sp_junkMax s \<and> sp_junkMax s < 2 ^ 62"
proof -
  define j where "j = (let (n, mn, mx) = (case prot of None \<Rightarrow> (0, 64, 1024) | Some p \<Rightarrow> junk_of p)
      in if n = 0 then (2, 64, 512) else (n, mn, mx))"
  obtain n mn mx where j3: "j = (n, mn, mx)" by (cases j) auto
  have "1 \<le> n" "n < 2 ^ 62" "0 < mn" "mn < 2 ^ 62" "0 < mx" "mx < 2 ^ 62"
    using junk_of_range [of "the prot"] assms(1) j3
    by (cases prot; auto simp: j_def split_beta Let_def split: if_splits)+
  from obf_junk_range [OF this] show ?thesis unfolding s_def streamObf_junk j_def [symmetric] j3 .
qed

text \<open>
  The shape of the junk before a handshake to a relay stays within its bounds whatever the random draws are: 3 to 16 pieces of at
  least 128 bytes, the least length at most 1024 and below the greatest, which is at most 2048, behind a prefix of at most 64 bytes.
\<close>

theorem relay_shape_bounds:
  assumes "sizes_small prot"
  shows "sp_prefixLen (relay_shape draw prot slot) \<le> 64 \<and>
    3 \<le> sp_junkCount (relay_shape draw prot slot) \<and> sp_junkCount (relay_shape draw prot slot) \<le> 16 \<and>
    128 \<le> sp_junkMin (relay_shape draw prot slot) \<and> sp_junkMin (relay_shape draw prot slot) \<le> 1024 \<and>
    sp_junkMin (relay_shape draw prot slot) < sp_junkMax (relay_shape draw prot slot) \<and> sp_junkMax (relay_shape draw prot slot) \<le> 2048"
proof -
  define s where "s = streamObf draw prot slot False"
  define c where "c = randInt draw 5 2 5"
  define e where "e = randInt draw 6 0 128"
  define g where "g = randInt draw 7 64 512"
  have s: "1 \<le> sp_junkCount s" "sp_junkCount s < 2 ^ 62" "0 < sp_junkMin s" "sp_junkMin s < 2 ^ 62" "0 < sp_junkMax s" "sp_junkMax s < 2 ^ 62"
    using streamObf_range [OF assms, of draw slot False] by (auto simp: s_def)
  have r: "2 \<le> c" "c \<le> 5" "0 \<le> e" "e \<le> 128" "64 \<le> g" "g \<le> 512"
    unfolding c_def e_def g_def using randInt_between [of 2 5 draw 5] randInt_between [of 0 128 draw 6] randInt_between [of 64 512 draw 7]
    by auto
  define mn where "mn = (if sp_junkMin s < 128 then 128 else sp_junkMin s)"
  define mn' where "mn' = cap_at 1024 (mn + e)"
  define mx where "mx = (if sp_junkMax s < mn' + 256 then mn' + 256 else sp_junkMax s)"
  have m: "128 \<le> mn'" "mn' \<le> 1024" "mn' + 256 \<le> mx" "mx < 2 ^ 62"
    using s r by (auto simp: mn_def mn'_def mx_def cap_at_def)
  have w: "wrap64 (sp_junkCount s + c) = sp_junkCount s + c" "wrap64 (mn + e) = mn + e" "wrap64 (mx + g) = mx + g"
    using s r m by (intro wrap64_id; auto simp: mn_def)+
  have f: "sp_junkCount (relay_shape draw prot slot) = cap_at 16 (sp_junkCount s + c)" "sp_junkMin (relay_shape draw prot slot) = mn'"
    "sp_junkMax (relay_shape draw prot slot) = cap_at 2048 (mx + g)" "sp_prefixLen (relay_shape draw prot slot) \<le> 64"
    unfolding relay_shape_def Let_def c_def [symmetric] e_def [symmetric] g_def [symmetric] s_def [symmetric] mn_def [symmetric]
      w(2) mn'_def [symmetric] mx_def [symmetric] w(1,3) by (simp_all add: cap_at_def)
  show ?thesis unfolding f using s r m f(4) by (auto simp: cap_at_def)
qed

section \<open>Lemmas: delivery\<close>

text \<open>
  The relay after the datagrams of one address; until the last one has arrived the entry of the address holds the assembler.
\<close>

definition arrivals :: "string \<Rightarrow> bytes list \<Rightarrow> PeerUDPRelay \<Rightarrow> PeerUDPRelay" where
  "arrivals key = fold (\<lambda>pkt r. snd (dispatch key pkt r))"

definition collecting :: "string \<Rightarrow> Assembler \<Rightarrow> PeerUDPRelay \<Rightarrow> bool" where
  "collecting key asm r \<longleftrightarrow> mget (pr_peers r) key = (if asm = asm_reset then None else Some \<lparr>us_asm = asm, us_sess = None\<rparr>)"

lemma asm_state_in_progress:
  assumes "S \<subset> {..<chunks p}" "S \<noteq> {}"
  shows "InProgress (asm_state p S)" and "asm_state p S \<noteq> asm_reset"
proof -
  have f: "finite S" using assms(1) finite_subset by blast
  have "card S < chunks p" using psubset_card_mono [OF _ assms(1)] by simp
  moreover have "0 < card S" using f assms(2) by (simp add: card_gt_0_iff)
  ultimately show "InProgress (asm_state p S)" "asm_state p S \<noteq> asm_reset"
    using assms(2) by (auto simp: asm_state_def InProgress_def asm_reset_def)
qed

lemma dispatch_collects:
  assumes "collecting key asm r" and "Feed asm pkt = (None, asm')" and "InProgress asm'" and "asm' \<noteq> asm_reset"
  shows "collecting key asm' (snd (dispatch key pkt r)) \<and> pr_sessions (snd (dispatch key pkt r)) = pr_sessions r \<and>
    pr_taken (snd (dispatch key pkt r)) = pr_taken r \<and> pr_slots (snd (dispatch key pkt r)) = pr_slots r \<and>
    pr_token (snd (dispatch key pkt r)) = pr_token r \<and> pr_relayReplay (snd (dispatch key pkt r)) = pr_relayReplay r \<and>
    pr_budgetKbps (snd (dispatch key pkt r)) = pr_budgetKbps r"
  using assms by (cases "asm = asm_reset") (auto simp: dispatch_def collecting_def Let_def gomap)

lemma dispatch_starts:
  assumes "collecting key asm r" and "Feed asm pkt = (Some msg, asm')" and "pr_taken r < pr_slots r"
  shows "fst (dispatch key pkt r) = Started (length (pr_sessions r)) \<and>
    pr_sessions (snd (dispatch key pkt r)) = pr_sessions r @
      [\<lparr>se_key = key, se_in = [], se_in_closed = False, se_done = False, se_readBuf = msg, se_readOff = 0\<rparr>] \<and>
    pr_token (snd (dispatch key pkt r)) = pr_token r \<and> pr_relayReplay (snd (dispatch key pkt r)) = pr_relayReplay r \<and>
    pr_budgetKbps (snd (dispatch key pkt r)) = pr_budgetKbps r"
  using assms by (cases "asm = asm_reset") (auto simp: dispatch_def collecting_def Let_def gomap)

text \<open>What delivery leaves as it is.\<close>

definition kept :: "PeerUDPRelay \<Rightarrow> PeerUDPRelay \<Rightarrow> bool" where
  "kept r r' \<longleftrightarrow> pr_token r' = pr_token r \<and> pr_relayReplay r' = pr_relayReplay r \<and> pr_budgetKbps r' = pr_budgetKbps r"

lemma arrivals_collect:
  assumes p: "p \<noteq> []" "chunks p \<le> maxVP02ChunkCount"
  shows "collecting key (asm_state p S) r \<Longrightarrow> S \<subseteq> {..<chunks p} \<Longrightarrow> set is \<subseteq> {..<chunks p} \<Longrightarrow> S \<union> set is \<noteq> {..<chunks p} \<Longrightarrow>
    let r' = arrivals key (map (vp02_packet p) is) r in
    collecting key (asm_state p (S \<union> set is)) r' \<and> kept r r' \<and> pr_sessions r' = pr_sessions r \<and>
    pr_taken r' = pr_taken r \<and> pr_slots r' = pr_slots r"
proof (induction "is" arbitrary: S r)
  case (Cons i "is")
  have S: "S \<subset> {..<chunks p}" "insert i S \<subset> {..<chunks p}" "insert i S \<noteq> {..<chunks p}" using Cons.prems by auto
  have F: "Feed (asm_state p S) (vp02_packet p i) = (None, asm_state p (insert i S))"
    using Feed_packet [OF p _ S(1), of i] S(3) Cons.prems(3) by simp
  note d = dispatch_collects [OF Cons.prems(1) F asm_state_in_progress [OF S(2)]]
  have c: "collecting key (asm_state p (insert i S)) (snd (dispatch key (vp02_packet p i) r))" using d by simp
  from Cons.IH [OF c] Cons.prems(2-4) d show ?case by (simp add: arrivals_def kept_def Let_def)
qed (simp add: arrivals_def kept_def Let_def)

text \<open>The datagrams of a message start a session whose buffer holds the message.\<close>

lemma arrivals_start:
  assumes "writeVP02Message p = Inr ds" and "set is \<subseteq> {..<length ds}" "j < length ds" "j \<notin> set is"
    and "insert j (set is) = {..<length ds}" and "mget (pr_peers r) key = None" and "pr_taken r < pr_slots r"
  defines "r' \<equiv> arrivals key (map (nth ds) is @ [ds ! j]) r"
  shows "kept r r' \<and> pr_sessions r' = pr_sessions r @
      [\<lparr>se_key = key, se_in = [], se_in_closed = False, se_done = False, se_readBuf = p, se_readOff = 0\<rparr>]"
proof -
  have w: "p \<noteq> []" "chunks p \<le> maxVP02ChunkCount" "ds = map (vp02_packet p) [0..<chunks p]"
    using assms(1) unfolding writeVP02Message_packets by auto
  have l: "length ds = chunks p" by (simp add: w(3))
  have m: "map (nth ds) is = map (vp02_packet p) is"
    using assms(2) l by (intro map_cong refl) (auto simp: w(3) subset_iff)
  have j: "ds ! j = vp02_packet p j" using assms(3) l by (simp add: w(3))
  have r0: "collecting key (asm_state p {}) r" using assms(6) by (simp add: collecting_def asm_state_def)
  have S: "{} \<union> set is \<noteq> {..<chunks p}" "set is \<subset> {..<chunks p}" using assms(2-5) l by auto
  define r1 where "r1 = arrivals key (map (vp02_packet p) is) r"
  have c: "collecting key (asm_state p (set is)) r1 \<and> kept r r1 \<and> pr_sessions r1 = pr_sessions r \<and> pr_taken r1 = pr_taken r \<and>
      pr_slots r1 = pr_slots r"
    using arrivals_collect [OF w(1,2) r0 _ _ S(1)] S(2) by (simp add: r1_def Let_def)
  have F: "Feed (asm_state p (set is)) (vp02_packet p j) = (Some p, asm_reset)"
    using Feed_packet [OF w(1,2) _ S(2), of j] assms(3,5) l by simp
  have "pr_taken r1 < pr_slots r1" using c assms(7) by simp
  from dispatch_starts [OF _ F this] c have "kept r1 (snd (dispatch key (vp02_packet p j) r1)) \<and>
      pr_sessions (snd (dispatch key (vp02_packet p j) r1)) = pr_sessions r1 @
      [\<lparr>se_key = key, se_in = [], se_in_closed = False, se_done = False, se_readBuf = p, se_readOff = 0\<rparr>]"
    by (simp add: kept_def)
  moreover have "r' = snd (dispatch key (vp02_packet p j) r1)" by (simp add: r'_def r1_def arrivals_def m j)
  ultimately show ?thesis using c by (simp add: kept_def)
qed

section \<open>Lemmas: admission\<close>

text \<open>What precedes the magic on the wire, and the options a relay is sent.\<close>

definition opening_noise :: "open_env \<Rightarrow> string \<Rightarrow> ProtectionOptions \<Rightarrow> int \<Rightarrow> bytes" where
  "opening_noise on token p slot =
     (let s = relay_shape (on_draw on) (Some p) slot
      in wbytes (WritePreamble (on_junk on) (resolvePreambleKind (on_sha256 on) (Some p) slot token (sp_junkStyle s))
           (sp_junkCount s) (sp_junkMin s) (sp_junkMax s) (sp_flushPolicy s) True) @ handshake_pad (on_pad on) (sp_prefixLen s))"

definition sent_options :: "open_env \<Rightarrow> string \<Rightarrow> ProtectionOptions \<Rightarrow> ProtectionOptions" where
  "sent_options on token p = the (relayOptsForHandshake (on_sha256 on) (on_hmac on) (on_nonce on) token
     (enrichSessionOptions (on_sha256 on) (on_session on) token (Some p)))"

text \<open>Options that ask a relay for a hop within its limit and leave the credentials to the client.\<close>

definition asks_relay :: "ProtectionOptions \<Rightarrow> bool" where
  "asks_relay p \<longleftrightarrow> trim_space (po_ClusterPreferredServer p) = [] \<and> trim_space (po_PeerID p) \<noteq> [] \<and> po_RelaySig p = [] \<and>
     0 < po_RelayHop p \<and> po_RelayHop p \<le> hop_limit (po_RelayMaxHop p)"

lemma wfailed_wseq: "wfailed (wseq (a # as)) = None \<longleftrightarrow> wfailed a = None \<and> wfailed (wseq as) = None"
  by (auto simp: wr_simps)

lemma hop_limit_nonpos: "hop_limit (nonpos_or m 2) = hop_limit m"
  by (simp add: hop_limit_def nonpos_or_def peerRelayHopHardLimit_def)

lemma sent_options_signed:
  fixes token
  assumes "asks_relay p" and "on_nonce on = Some rb" and "rb \<noteq> []" and "\<And>k m. on_hmac on k m \<noteq> []"
  defines "q \<equiv> sent_options on token p"
  shows "relayOptsForHandshake (on_sha256 on) (on_hmac on) (on_nonce on) token
      (enrichSessionOptions (on_sha256 on) (on_session on) token (Some p)) = Some q"
    and "allowPeerRelayOptions (on_hmac on) (Some q) token" and "0 < po_RelayHop q" and "po_PeerID q = po_PeerID p"
proof -
  obtain p' where e: "enrichSessionOptions (on_sha256 on) (on_session on) token (Some p) = Some p'"
    and f: "po_ClusterPreferredServer p' = po_ClusterPreferredServer p" "po_PeerID p' = po_PeerID p" "po_RelaySig p' = po_RelaySig p"
      "po_RelayHop p' = po_RelayHop p" "po_RelayMaxHop p' = po_RelayMaxHop p"
    by (simp add: enrichSessionOptions_def Let_def)
  show q: "relayOptsForHandshake (on_sha256 on) (on_hmac on) (on_nonce on) token
      (enrichSessionOptions (on_sha256 on) (on_session on) token (Some p)) = Some q"
    by (simp add: q_def sent_options_def e relayOptsForHandshake_def)
  have c: "trim_space (po_ClusterPreferredServer p') = []" "0 < po_RelayHop p'" "po_RelaySig p' = []"
    using assms(1) by (simp_all add: asks_relay_def f)
  have s: "signed (on_hmac on) token q"
    by (rule signed_handshake [OF q [unfolded e assms(2)] assms(3,4) c])
  have qq: "q = relay_credentials (on_sha256 on) (on_hmac on) (on_nonce on) token (default_hops p')"
    by (rule credentials_ok [OF q [unfolded e] c(1)]) (simp add: c(2))
  have h: "po_RelayHop q = po_RelayHop p" "hop_limit (po_RelayMaxHop q) = hop_limit (po_RelayMaxHop p)"
    using c(2) unfolding qq relay_credentials_fields by (simp_all add: f hop_limit_nonpos) (simp add: nonpos_or_def)
  show "0 < po_RelayHop q" using c(2) by (simp add: h f)
  then show "allowPeerRelayOptions (on_hmac on) (Some q) token"
    using signed_allow [OF s] assms(1) by (simp add: h asks_relay_def)
  have "po_PeerID p \<noteq> []" using assms(1) by (auto simp: asks_relay_def)
  then show "po_PeerID q = po_PeerID p" unfolding qq by (simp add: relay_credentials_def Let_def f)
qed

lemma peer_opening_bytes:
  assumes "peer_opening on ip port token (Some p) slot = Inr ds" and "asks_relay p" and "on_nonce on = Some rb" and "rb \<noteq> []"
    and "\<And>k m. on_hmac on k m \<noteq> []"
  obtains hs junk k ty ipb where
    "hs = WriteHandshakeWithPrefixAndOptsSlot (on_split on) (on_pad on) roleRelayTCP 0 token k (on_marshal on (sent_options on token p))"
    "wfailed hs = None" "junk @ handshake_pad (on_pad on) k = opening_noise on token p slot"
    "normalizeIP ip = Inr (ty, ipb)"
    "writeVP02Message (junk @ wbytes hs @ wbytes (WriteTcpConnect ip port)) = Inr ds"
proof -
  define s where "s = relay_shape (on_draw on) (Some p) slot"
  define q where "q = sent_options on token p"
  note so = sent_options_signed [OF assms(2-5), of token, folded q_def]
  define pre where "pre = WritePreamble (on_junk on) (resolvePreambleKind (on_sha256 on) (Some p) slot token (sp_junkStyle s))
      (sp_junkCount s) (sp_junkMin s) (sp_junkMax s) (sp_flushPolicy s) True"
  define hs where "hs = WriteHandshakeWithPrefixAndOptsSlot (on_split on) (on_pad on) roleRelayTCP 0 token (sp_prefixLen s) (on_marshal on q)"
  define fl where "fl = (if \<not> equal_fold (sp_flushPolicy s) ''perChunk'' then wflush else wok)"
  have fl: "wfailed fl = None" "wbytes fl = []" by (simp_all add: fl_def wr_simps)
  have "hello_parts on token (Some p) =
      (roleRelayTCP, on_marshal on q, enrichSessionOptions (on_sha256 on) (on_session on) token (Some p))"
    using so(1,3) assms(2) by (simp add: hello_parts_def Let_def asks_relay_def so(4))
  then have t: "fst (tcpRelayPreamble on token (Some p) slot) = wseq [pre, fl, hs]"
    by (simp only: tcpRelayPreamble_def Let_def prod.case fst_conv s_def pre_def fl_def hs_def)
  define w where "w = wseq [wseq [pre, fl, hs], WriteTcpConnect ip port, wflush]"
  have o: "wfailed w = None" "writeVP02Message (wbytes w) = Inr ds"
    using assms(1) unfolding peer_opening_def t w_def [symmetric] Let_def by (simp_all split: option.splits)
  have n: "wfailed pre = None" "wfailed hs = None" "wfailed (WriteTcpConnect ip port) = None"
    using o(1) unfolding w_def wfailed_wseq by simp_all
  have b: "wbytes w = wbytes pre @ wbytes hs @ wbytes (WriteTcpConnect ip port)"
    using n fl by (simp add: w_def wr_simps)
  obtain ty ipb where ip: "normalizeIP ip = Inr (ty, ipb)"
    using n(3) by (cases "normalizeIP ip") (auto simp: WriteTcpConnect_def wr_simps)
  show ?thesis
    by (rule that [of hs "sp_prefixLen s" "wbytes pre" ty ipb])
      (use n o(2) ip in \<open>simp_all add: hs_def q_def b opening_noise_def Let_def s_def pre_def\<close>)
qed

text \<open>
  C2. A client that opens a connection through a relay of its network is admitted. Whatever junk precedes the handshake, as long as
  it does not hold the magic, and in whatever order and however often its datagrams arrive, the relay starts a session when the last
  one is there, resynchronises on the handshake, accepts the credentials and the hop, and has the options the client sent, the address and the
  port the client asked for, and nothing left over. The relay needs a free slot, no session of this address and a nonce it has not
  seen; the client's options leave the credentials to it and ask for a hop within the relay's limit.
\<close>

theorem peer_opening_admitted:
  assumes "peer_opening on ip port token (Some p) slot = Inr ds" and "asks_relay p"
    and "on_nonce on = Some rb" and "rb \<noteq> []" and "\<And>k m. on_hmac on k m \<noteq> []"
    and "\<not> sublist magic (opening_noise on token p slot)"
    and "unmarshal (on_marshal on (sent_options on token p)) = Some (sent_options on token p)"
    and "on_marshal on (sent_options on token p) \<noteq> []" and "length (on_marshal on (sent_options on token p)) \<le> maxOptsLen"
    and "set is \<subseteq> {..<length ds}" and "j < length ds" and "j \<notin> set is" and "insert j (set is) = {..<length ds}"
    and "pr_token r = token" and "mget (pr_peers r) raddr = None" and "pr_taken r < pr_slots r" and "gomap_ok (pr_relayReplay r)"
    and "\<not> seen_at t (replayKey raddr (po_PeerID p) (po_RelayNonce (sent_options on token p))) (pr_relayReplay r)"
  shows "\<exists>s a r'. pr_sessions (arrivals raddr (map (nth ds) is @ [ds ! j]) r) = pr_sessions r @ [s] \<and>
     handleSession (on_hmac on) unmarshal t t raddr (se_readBuf s) (arrivals raddr (map (nth ds) is @ [ds ! j]) r) = (Some a, r') \<and>
     ad_opts a = sent_options on token p \<and> normalizeIP ip = Inr (tc_AddrType (ad_target a), tc_IP (ad_target a)) \<and>
     tc_Port (ad_target a) = port \<and> ad_rest a = []"
proof -
  define q where "q = sent_options on token p"
  obtain hs junk k ty ipb where o: "hs = WriteHandshakeWithPrefixAndOptsSlot (on_split on) (on_pad on) roleRelayTCP 0 token k (on_marshal on q)"
    "wfailed hs = None" "junk @ handshake_pad (on_pad on) k = opening_noise on token p slot" "normalizeIP ip = Inr (ty, ipb)"
    "writeVP02Message (junk @ wbytes hs @ wbytes (WriteTcpConnect ip port)) = Inr ds"
    using peer_opening_bytes [OF assms(1-5)] unfolding q_def [symmetric] by metis
  define m where "m = junk @ wbytes hs @ wbytes (WriteTcpConnect ip port)"
  define r1 where "r1 = arrivals raddr (map (nth ds) is @ [ds ! j]) r"
  define s where "s = \<lparr>se_key = raddr, se_in = [], se_in_closed = False, se_done = False, se_readBuf = m, se_readOff = 0\<rparr>"
  have d: "kept r r1" "pr_sessions r1 = pr_sessions r @ [s]"
    using arrivals_start [OF o(5) assms(10-13,15,16)] by (simp_all add: r1_def s_def m_def)
  have k: "pr_token r1 = token" "pr_relayReplay r1 = pr_relayReplay r" using d(1) assms(14) by (simp_all add: kept_def)
  note so = sent_options_signed [OF assms(2-5), of token, folded q_def]
  have h: "ReadHandshakeAfterSkipWithOpts m =
      Inr ((\<lparr>hs_Role = roleRelayTCP, hs_ChannelID = 0, hs_Token = token\<rparr>, on_marshal on q), wbytes (WriteTcpConnect ip port))"
  proof -
    have "roleRelayTCP \<noteq> roleUDP" by (simp add: roleRelayTCP_def roleUDP_def)
    then show ?thesis
      using handshake_read_back [OF o(2) [unfolded o(1)], of junk "wbytes (WriteTcpConnect ip port)"] assms(6,9)
      unfolding m_def by (simp add: o(1,3) q_def)
  qed
  have tc: "ReadTcpConnect (wbytes (WriteTcpConnect ip port)) = Inr (\<lparr>tc_AddrType = ty, tc_IP = ipb, tc_Port = port\<rparr>, [])"
    using read_tcp_connect_written [OF o(4), of port "[]"] by simp
  have "fst (markRelayNonceFresh t t (replayKey raddr (po_PeerID q) (po_RelayNonce q)) (pr_relayReplay r1))"
    using relay_replay.accepts_new [OF assms(17), of t "replayKey raddr (po_PeerID p) (po_RelayNonce q)"] assms(18)
    by (simp add: k so(4) [unfolded q_def] q_def)
  then obtain rep where fr: "markRelayNonceFresh t t (replayKey raddr (po_PeerID q) (po_RelayNonce q)) (pr_relayReplay r1) = (True, rep)"
    by (metis prod.collapse)
  have ack: "wfailed (if needHopAck (Some q) then WriteHopAck (hop_ack_of q) else wok) = None"
    by (simp add: WriteHopAck_def write_sized_def wr_simps)
  obtain a r' where a: "handleSession (on_hmac on) unmarshal t t raddr m r1 = (Some a, r')" "ad_opts a = q"
    "ad_target a = \<lparr>tc_AddrType = ty, tc_IP = ipb, tc_Port = port\<rparr>" "ad_rest a = []"
    using so(2) fr ack assms(7,8)
    by (simp add: handleSession_def h k q_def [symmetric] tc Let_def)
  have "se_readBuf s = m" by (simp add: s_def)
  with a o(4) d(2) show ?thesis unfolding r1_def [symmetric] q_def [symmetric] by (intro exI [of _ s] exI [of _ a] exI [of _ r']) simp
qed

section \<open>Instances\<close>

definition demo_open :: open_env where
  "demo_open = \<lparr>on_sha256 = (\<lambda>_. replicate 32 5), on_hmac = (\<lambda>_ _. [1]), on_marshal = (\<lambda>_. [123, 125]), on_split = (\<lambda>_. []),
     on_draw = (\<lambda>_. 127), on_junk = (\<lambda>_. 0, \<lambda>_ _. 7), on_pad = (\<lambda>_. 0, \<lambda>_ _. 7), on_session = None, on_nonce = Some [9]\<rparr>"

definition demo_prot :: ProtectionOptions where
  "demo_prot = po_zero\<lparr>po_PeerID := ''p1'', po_RelayHop := 1, po_RelayMaxHop := 2\<rparr>"

definition demo_relay :: PeerUDPRelay where
  "demo_relay = \<lparr>pr_token = ''tok'', pr_budgetKbps = 0, pr_slots = 4, pr_taken = 0, pr_peers = [], pr_sessions = [], pr_relayReplay = []\<rparr>"

lemma demo_shape:
  "relay_shape (on_draw demo_open) (Some demo_prot) 0 =
     \<lparr>sp_maxPad = 32, sp_prefixLen = 16, sp_junkCount = 9, sp_junkMin = 318, sp_junkMax = 830, sp_junkStyle = [], sp_flushPolicy = []\<rparr>"
  by code_simp

lemma demo_kind: "resolvePreambleKind (on_sha256 demo_open) (Some demo_prot) 0 ''tok'' [] = []"
  by code_simp

lemma demo_fields [simp]:
  "on_hmac demo_open k m = [1]" "on_marshal demo_open q = [123, 125]" "on_split demo_open b = []" "on_nonce demo_open = Some [9]"
  by (simp_all add: demo_open_def)

lemma const_rounds: "wbytes (rounds n (\<lambda>i. wseq [wwrite (replicate k x), chunk_flush b])) = replicate (n * k) x"
proof (subst rounds_bytes)
  have "concat (map (\<lambda>i. replicate k x) [0..<n]) = replicate (n * k) x" for n
    by (induction n) (simp_all add: add.commute flip: replicate_add)
  then show "concat (map (\<lambda>i. wbytes (wseq [wwrite (replicate k x), chunk_flush b])) [0..<n]) = replicate (n * k) x"
    by (simp add: wr_simps)
qed (simp add: wr_simps)

lemma demo_pre:
  "WritePreamble (on_junk demo_open) [] 9 318 830 [] True = rounds 9 (\<lambda>i. wseq [wwrite (replicate 318 7), chunk_flush False])"
proof -
  have "\<not> equal_fold [] ''perChunk''" "to_lower (trim_space []) = []" by code_simp+
  then show ?thesis
    by (simp add: WritePreamble_def preamble_kinds demo_open_def WriteJunk_def draw_len_def rand_int_def rand_read_def map_replicate_const)
qed

lemma demo_noise: "opening_noise demo_open ''tok'' demo_prot 0 = replicate 2862 7"
proof -
  have "handshake_pad (on_pad demo_open) 16 = []" by code_simp
  then show ?thesis
    by (simp only: opening_noise_def Let_def demo_shape stream_shape.simps demo_kind demo_pre const_rounds append_Nil2) simp
qed

lemma demo_asks: "asks_relay demo_prot"
  by code_simp

lemma demo_opening: "\<exists>ds. peer_opening demo_open [1, 2, 3, 4] 443 ''tok'' (Some demo_prot) 0 = Inr ds \<and> length ds = 3"
proof -
  define pre where "pre = rounds 9 (\<lambda>i. wseq [wwrite (replicate 318 7 :: bytes), chunk_flush False])"
  have p: "wbytes pre = replicate 2862 7" unfolding pre_def const_rounds by simp
  have pf: "wfailed pre = None" unfolding pre_def rounds_def by (rule wseq_ok) (auto simp: wr_simps)
  define hs where "hs = WriteHandshakeWithPrefixAndOptsSlot (on_split demo_open) (on_pad demo_open) roleRelayTCP 0 ''tok'' 16 [123, 125]"
  have h: "wfailed hs = None" "length (wbytes hs) = 16" unfolding hs_def by code_simp+
  define tc where "tc = WriteTcpConnect [1, 2, 3, 4] 443"
  have t: "wfailed tc = None" "length (wbytes tc) = 7" unfolding tc_def by code_simp+
  have hp: "fst (hello_parts demo_open ''tok'' (Some demo_prot)) = roleRelayTCP"
    "fst (snd (hello_parts demo_open ''tok'' (Some demo_prot))) = [123, 125]" by code_simp+
  have ef: "\<not> equal_fold [] ''perChunk''" by code_simp
  have tp: "fst (tcpRelayPreamble demo_open ''tok'' (Some demo_prot) 0) = wseq [pre, wflush, hs]"
    using hp by (simp add: tcpRelayPreamble_def demo_shape demo_kind demo_pre ef pre_def hs_def split_beta)
  define w where "w = wseq [wseq [pre, wflush, hs], tc, wflush]"
  have w: "wfailed w = None" "length (wbytes w) = 2885"
    using p pf h t by (simp_all add: w_def wr_simps)
  then have "chunks (wbytes w) = 3" "wbytes w \<noteq> []" by (auto simp: chunks_def vp02_consts)
  then have "writeVP02Message (wbytes w) = Inr (map (vp02_packet (wbytes w)) [0..<3])"
    by (simp add: writeVP02Message_packets vp02_consts)
  then show ?thesis
    unfolding peer_opening_def tp tc_def [symmetric] w_def [symmetric] Let_def w(1) option.case by simp
qed

theorem peer_opening_admitted_witness:
  "\<exists>ds s a r'. peer_opening demo_open [1, 2, 3, 4] 443 ''tok'' (Some demo_prot) 0 = Inr ds \<and> length ds = 3 \<and>
     pr_sessions (arrivals ''c:1'' [ds ! 2, ds ! 0, ds ! 0, ds ! 1] demo_relay) = [s] \<and>
     handleSession (\<lambda>_ _. [1]) (\<lambda>_. Some (sent_options demo_open ''tok'' demo_prot)) 0 0 ''c:1'' (se_readBuf s)
       (arrivals ''c:1'' [ds ! 2, ds ! 0, ds ! 0, ds ! 1] demo_relay) = (Some a, r') \<and> tc_Port (ad_target a) = 443"
proof -
  obtain ds where ds: "peer_opening demo_open [1, 2, 3, 4] 443 ''tok'' (Some demo_prot) 0 = Inr ds" "length ds = 3"
    using demo_opening by blast
  let ?u = "\<lambda>_ :: bytes. Some (sent_options demo_open ''tok'' demo_prot)"
  have l: "{..<length ds} = {0, 1, 2}" unfolding ds(2) by auto
  have h: "on_hmac demo_open = (\<lambda>_ _. [1])" by (simp add: demo_open_def)
  have "\<exists>s a r'. pr_sessions (arrivals ''c:1'' (map (nth ds) [2, 0, 0] @ [ds ! 1]) demo_relay) = pr_sessions demo_relay @ [s] \<and>
     handleSession (on_hmac demo_open) ?u 0 0 ''c:1'' (se_readBuf s) (arrivals ''c:1'' (map (nth ds) [2, 0, 0] @ [ds ! 1]) demo_relay) = (Some a, r') \<and>
     ad_opts a = sent_options demo_open ''tok'' demo_prot \<and> normalizeIP [1, 2, 3, 4] = Inr (tc_AddrType (ad_target a), tc_IP (ad_target a)) \<and>
     tc_Port (ad_target a) = 443 \<and> ad_rest a = []"
  proof (rule peer_opening_admitted [OF ds(1) demo_asks, where rb = "[9]"])
    have "\<not> sublist magic (replicate 2862 (7 :: byte))"
    proof
      assume "sublist magic (replicate 2862 (7 :: byte))"
      then have "set magic \<subseteq> set (replicate 2862 (7 :: byte))" by (rule set_mono_sublist)
      then show False by (simp add: magic_def)
    qed
    then show "\<not> sublist magic (opening_noise demo_open ''tok'' demo_prot 0)" by (simp only: demo_noise not_False_eq_True)
    show "insert 1 (set [2, 0, 0]) = {..<length ds}" "set [2, 0, 0] \<subseteq> {..<length ds}" unfolding l by auto
  qed (simp_all add: ds(2) demo_relay_def maxOptsLen_def seen_at_def mget_def)
  then show ?thesis using ds unfolding h by (auto simp: demo_relay_def)
qed

theorem relay_shape_bounds_witness:
  "sp_junkMax (relay_shape (\<lambda>_. 9) (Some (demo_prot\<lparr>po_JunkCount := 5000, po_JunkMin := 4000\<rparr>)) 3) \<le> 2048"
  using relay_shape_bounds [of "Some (demo_prot\<lparr>po_JunkCount := 5000, po_JunkMin := 4000\<rparr>)" "\<lambda>_. 9" 3]
  by (simp add: sizes_small_def demo_prot_def po_zero_def)

end
