(* ===== verification/LocalProxy.thy ===== *)
theory LocalProxy
  imports Dialing
begin

text \<open>
  The local proxies: the SOCKS5 server in front of the tunnel (\<^verbatim>\<open>internal/proxy/proxy.go\<close>), the embedded engine against inspection
  (\<^verbatim>\<open>internal/dpiengine\<close>), which speaks the same SOCKS5 and writes the first bytes of a connection in pieces, and the start of an
  external one (\<^verbatim>\<open>proxy/byedpi_local.go\<close>). Sockets are the bytes the client sends and a list of what is done to the remote end;
  name resolution, dialling, random draws and processes answer as arguments.
\<close>

section \<open>SOCKS5\<close>

text \<open>Both servers read into a buffer of 257 bytes.\<close>

definition read_buf :: "nat \<Rightarrow> bytes rd" where
  "read_buf n = (if n > 257 then rfail (Panic ''slice bounds out of range'') else read_full n)"

definition socks_reply :: "byte \<Rightarrow> bytes" where
  "socks_reply rep = [5, rep, 0, 1, 0, 0, 0, 0, 0, 0]"

definition socks_hello :: "unit rd" where
  "socks_hello =
     rbind (read_buf 2) (\<lambda>b.
       if b ! 0 \<noteq> 5 then rfail (Error ''not socks5'')
       else let n = unat (b ! 1) in
         if n > 0 then rbind (read_buf n) (\<lambda>_. rret ()) else rret ())"

datatype socks_command = UnknownCommand | UnknownAddress | Connect string u16

definition read_socks_command :: "(bytes \<Rightarrow> string) \<Rightarrow> socks_command rd" where
  "read_socks_command ip_str =
     rbind (read_buf 4) (\<lambda>b.
       if b ! 0 \<noteq> 5 then rfail (Error ''not socks5'')
       else if b ! 1 \<noteq> 1 then rret UnknownCommand
       else if b ! 3 = 1 then rbind (read_buf 6) (\<lambda>a. rret (Connect (ip_str (take 4 a)) (be_get (take 2 (drop 4 a)))))
       else if b ! 3 = 3 then
         rbind (read_buf 1) (\<lambda>l. let n = unat (l ! 0) in
           rbind (read_buf (n + 2)) (\<lambda>a. rret (Connect (bytes_str (take n a)) (be_get (take 2 (drop n a))))))
       else if b ! 3 = 4 then rbind (read_buf 18) (\<lambda>a. rret (Connect (ip_str (take 16 a)) (be_get (take 2 (drop 16 a)))))
       else rret UnknownAddress)"

text \<open>
  A session: the replies to the client, and with what it is relayed and the bytes it had sent already. \<open>connect\<close> gives the code of
  the refusal or the connection.
\<close>

definition socks_session ::
  "(bytes \<Rightarrow> string) \<Rightarrow> (string \<Rightarrow> u16 \<Rightarrow> 'w \<Rightarrow> (byte + 'r) \<times> 'w) \<Rightarrow> bytes \<Rightarrow> 'w \<Rightarrow> bytes list \<times> ('r \<times> bytes) option \<times> 'w" where
  "socks_session ip_str connect s w =
     (case socks_hello s of
        Inl e \<Rightarrow> ([], None, w)
      | Inr (_, s) \<Rightarrow>
        case read_socks_command ip_str s of
          Inl e \<Rightarrow> ([[5, 0]], None, w)
        | Inr (UnknownCommand, s) \<Rightarrow> ([[5, 0], socks_reply 7], None, w)
        | Inr (UnknownAddress, s) \<Rightarrow> ([[5, 0], socks_reply 8], None, w)
        | Inr (Connect host port, s) \<Rightarrow>
            (case connect host port w of
               (Inl rep, w) \<Rightarrow> ([[5, 0], socks_reply rep], None, w)
             | (Inr r, w) \<Rightarrow> ([[5, 0], socks_reply 0], Some (r, s), w)))"

record names =
  nm_str :: "bytes \<Rightarrow> string"
  nm_parse :: "string \<Rightarrow> bytes option"
  nm_lookup :: "string \<Rightarrow> go_error + bytes list"

text \<open>The engine dials the address itself.\<close>

definition first_v4 :: "bytes list \<Rightarrow> bytes option" where
  "first_v4 ips = (case List.find (\<lambda>a. to4 a \<noteq> None) ips of Some a \<Rightarrow> Some a | None \<Rightarrow> if ips = [] then None else Some (hd ips))"

definition engine_connect :: "names \<Rightarrow> (string \<Rightarrow> go_error + 'r) \<Rightarrow> string \<Rightarrow> u16 \<Rightarrow> byte + 'r" where
  "engine_connect nm dial host port =
     (let ip = (case nm_parse nm host of
            Some ip \<Rightarrow> Some ip
          | None \<Rightarrow> (case nm_lookup nm host of Inl e \<Rightarrow> None | Inr ips \<Rightarrow> first_v4 ips))
      in case ip of
           None \<Rightarrow> Inl 4
         | Some ip \<Rightarrow> (case dial (join_host_port (nm_str nm ip) (itoa (uint port))) of Inl e \<Rightarrow> Inl 1 | Inr r \<Rightarrow> Inr r))"

definition handleSocksConn :: "names \<Rightarrow> (string \<Rightarrow> go_error + 'r) \<Rightarrow> bytes \<Rightarrow> bytes list \<times> ('r \<times> bytes) option" where
  "handleSocksConn nm dial s =
     (let (rs, r, w) = socks_session (nm_str nm) (\<lambda>h p w. (engine_connect nm dial h p, w)) s () in (rs, r))"

text \<open>The proxy goes through the tunnel.\<close>

definition resolveHost :: "names \<Rightarrow> string \<Rightarrow> go_error + bytes" where
  "resolveHost nm host =
     (case nm_lookup nm host of
        Inl e \<Rightarrow> Inl e
      | Inr ips \<Rightarrow>
        (case List.find (\<lambda>a. to4 a \<noteq> None) ips of
           Some a \<Rightarrow> Inr (the (to4 a))
         | None \<Rightarrow> if ips \<noteq> [] then Inr (hd ips) else Inl (Error (''no IP addresses found for '' @ host))))"

definition tunnel_connect ::
  "names \<Rightarrow> net_env \<Rightarrow> string list \<Rightarrow> string \<Rightarrow> ProtectionOptions option \<Rightarrow> string \<Rightarrow> string \<Rightarrow> string \<Rightarrow> u16 \<Rightarrow> world \<Rightarrow>
   (byte + link) \<times> world" where
  "tunnel_connect nm env addrs token prot transport qs host port w =
     (let ip = (case nm_parse nm host of Some ip \<Rightarrow> Inr ip | None \<Rightarrow> resolveHost nm host) in
      case ip of
        Inl e \<Rightarrow> (Inl 4, w)
      | Inr ip \<Rightarrow>
        (case Dial env addrs \<lparr>tg_ip = ip, tg_text = nm_str nm ip, tg_port = port\<rparr> token prot transport qs False False w of
           (Inl e, w) \<Rightarrow> (Inl 1, w)
         | (Inr l, w) \<Rightarrow> (Inr l, w)))"

definition handleSOCKS5 ::
  "names \<Rightarrow> net_env \<Rightarrow> string list \<Rightarrow> string \<Rightarrow> ProtectionOptions option \<Rightarrow> string \<Rightarrow> string \<Rightarrow> bytes \<Rightarrow> world \<Rightarrow>
   bytes list \<times> (link \<times> bytes) option \<times> world" where
  "handleSOCKS5 nm env addrs token prot transport qs = socks_session (nm_str nm) (tunnel_connect nm env addrs token prot transport qs)"

section \<open>The engine: the first bytes in pieces\<close>

record Options =
  dx_SplitAfter :: int
  dx_SplitAfter2 :: int
  dx_TTLMillis :: int
  dx_TTL2Millis :: int
  dx_Disorder :: bool
  dx_JitterMaxMs :: int
  dx_LeadInMs :: int
  dx_FakeSNI :: bool
  dx_FakeSNIHost :: string
  dx_SplitPosition :: string
  dx_AutoTTL :: bool
  dx_TCPSegment :: int
  dx_OOBData :: bool
  dx_MultiSplit :: int

datatype relay_act = SegmentSize int | Pause int | SendFake bytes | Send bytes | SendUrgent byte bytes | CopyRest

text \<open>\<open>d\<close> is the random draw; a pause without end points is none.\<close>

definition sleepJittered :: "nat \<Rightarrow> int \<Rightarrow> int \<Rightarrow> relay_act list" where
  "sleepJittered d baseMs jitterMax =
     (let baseMs = (if baseMs < 0 then 0 else baseMs); jitterMax = (if jitterMax < 0 then 0 else jitterMax) in
      if baseMs = 0 \<and> jitterMax = 0 then []
      else [Pause (baseMs + (if jitterMax > 0 then int (d mod nat (jitterMax + 1)) else 0))])"

fun find_sub :: "bytes \<Rightarrow> bytes \<Rightarrow> nat option" where
  "find_sub p [] = (if p = [] then Some 0 else None)"
| "find_sub p (b # s) = (if take (length p) (b # s) = p then Some 0 else map_option Suc (find_sub p s))"

definition found_at :: "bytes \<Rightarrow> bytes \<Rightarrow> nat \<Rightarrow> (nat \<Rightarrow> bool) \<Rightarrow> nat option" where
  "found_at data p k ok = (case find_sub p data of None \<Rightarrow> None | Some i \<Rightarrow> if ok i then Some (i + k) else None)"

definition findSplitPosition :: "nat \<Rightarrow> bytes \<Rightarrow> string \<Rightarrow> nat" where
  "findSplitPosition d data position =
     (let n = length data; pos = to_lower (trim_space position); mid = n div 2;
          or_mid = (\<lambda>r. case r of None \<Rightarrow> mid | Some i \<Rightarrow> i)
      in if n < 10 then mid
         else if pos = ''sni'' then or_mid (found_at data [0, 0] 2 (\<lambda>i. i > 5 \<and> i < n - 10))
         else if pos = ''method'' then or_mid (found_at data (str_bytes '' '') 0 (\<lambda>i. i > 0 \<and> i < 20))
         else if pos = ''host'' then
           (case found_at data (str_bytes ''Host:'') 5 (\<lambda>i. i > 0 \<and> i < n - 10) of
              Some i \<Rightarrow> i
            | None \<Rightarrow> or_mid (found_at data (str_bytes ''host:'') 5 (\<lambda>i. i > 0 \<and> i < n - 10)))
         else if pos = ''random'' then
           (let mn = n div 4; mx = n * 3 div 4 in if mx > mn then mn + d mod (mx - mn) else mid)
         else mid)"

definition writeFakeSNI :: "string \<Rightarrow> bytes" where
  "writeFakeSNI host =
     [0x16, 0x03, 0x01, 0x00, 0x05, 0x01, 0x00, 0x00, 0x01, 0x00] @ str_bytes (if host = [] then ''www.google.com'' else host)"

definition setTCPSegmentSize :: "int \<Rightarrow> relay_act list" where
  "setTCPSegmentSize sz = (if sz \<le> 0 \<or> sz > 65536 then [] else [SegmentSize sz])"

text \<open>The loop of the multiple split: \<open>k\<close> more pieces of \<open>chunkSize\<close>, then what remains.\<close>

fun multi_split :: "nat \<Rightarrow> nat \<Rightarrow> bytes \<Rightarrow> bytes list" where
  "multi_split 0 chunkSize remaining = (if remaining = [] then [] else [remaining])"
| "multi_split (Suc k) chunkSize remaining =
     (if remaining = [] then []
      else let c = min chunkSize (length remaining) in take c remaining # multi_split k c (drop c remaining))"

definition segments_of :: "nat \<Rightarrow> Options \<Rightarrow> bytes \<Rightarrow> bytes list" where
  "segments_of d opts data =
     (let n = length data;
          s1 = (if dx_SplitPosition opts \<noteq> [] then int (findSplitPosition d data (dx_SplitPosition opts)) else dx_SplitAfter opts);
          s1 = nat (if min s1 (int n) < 1 then 1 else min s1 (int n));
          remaining = drop s1 data;
          two = dx_SplitAfter2 opts > 0 \<and> dx_SplitAfter2 opts < int n \<and> dx_SplitAfter2 opts > int s1
            \<and> nat (dx_SplitAfter2 opts - int s1) < length remaining;
          s2 = nat (dx_SplitAfter2 opts - int s1);
          second = (if two then [take s2 remaining] else []);
          remaining = (if two then drop s2 remaining else remaining);
          m = dx_MultiSplit opts;
          rest = (if m > 0 \<and> int (length remaining) > m
            then multi_split (nat m) (max 1 (length remaining div nat (m + 1))) remaining
            else if remaining = [] then [] else [remaining])
      in [take s1 data] @ second @ rest)"

text \<open>A segment is written at once; the first one with its first byte as urgent data when the option is set and \<open>sendOOB\<close> succeeds (\<open>oob\<close>).\<close>

definition writeSeg :: "bool \<Rightarrow> Options \<Rightarrow> bool \<Rightarrow> bytes \<Rightarrow> relay_act list" where
  "writeSeg oob opts useOOB b =
     (if b = [] then []
      else if useOOB \<and> dx_OOBData opts \<and> length b > 1 \<and> oob then [SendUrgent (hd b) (tl b)]
      else [Send b])"

definition gaps :: "Options \<Rightarrow> int \<times> int" where
  "gaps opts =
     (let gap1 = dx_TTLMillis opts; gap2 = (if dx_TTL2Millis opts \<le> 0 then gap1 else dx_TTL2Millis opts)
      in if dx_AutoTTL opts \<and> gap1 > 0 then (go_div gap1 2, go_div gap2 2) else (gap1, gap2))"

text \<open>The writes of the segments in the order of the list of indices, with the pauses between them.\<close>

definition send_in_order :: "(nat \<Rightarrow> nat) \<Rightarrow> bool \<Rightarrow> Options \<Rightarrow> bytes list \<Rightarrow> relay_act list" where
  "send_in_order draw oob opts segs = concat (map (\<lambda>i.
     writeSeg oob opts (i = 0) (segs ! i) @
     (if Suc i < length segs then sleepJittered (draw i) (if i = 0 then fst (gaps opts) else snd (gaps opts)) (dx_JitterMaxMs opts) else []))
     [0..<length segs])"

definition send_in_disorder :: "(nat \<Rightarrow> nat) \<Rightarrow> bool \<Rightarrow> Options \<Rightarrow> bytes list \<Rightarrow> relay_act list" where
  "send_in_disorder draw oob opts segs = concat (map (\<lambda>i.
     writeSeg oob opts (i = 0) (segs ! i) @
     (if i > 0 then sleepJittered (draw i) (if i = 1 then snd (gaps opts) else fst (gaps opts)) (dx_JitterMaxMs opts) else []))
     (rev [0..<length segs]))"

text \<open>What is done to the remote end; \<open>first\<close> is what the first read of the client returns, \<open>None\<close> when it fails.\<close>

definition relayPipe :: "(nat \<Rightarrow> nat) \<Rightarrow> bool \<Rightarrow> Options \<Rightarrow> bytes option \<Rightarrow> relay_act list" where
  "relayPipe draw oob opts first =
     (if dx_TCPSegment opts > 0 then setTCPSegmentSize (dx_TCPSegment opts) else []) @
     (if dx_FakeSNI opts
      then SendFake (writeFakeSNI (dx_FakeSNIHost opts)) # sleepJittered (draw 100) 5 (dx_JitterMaxMs opts) else []) @
     (if dx_SplitAfter opts \<le> 0 then sleepJittered (draw 101) (dx_LeadInMs opts) (dx_JitterMaxMs opts) @ [CopyRest]
      else case first of
        None \<Rightarrow> []
      | Some data \<Rightarrow>
        if data = [] then []
        else let segs = segments_of (draw 102) opts data in
          sleepJittered (draw 101) (dx_LeadInMs opts) (dx_JitterMaxMs opts) @
          (if dx_Disorder opts \<and> length segs \<ge> 2 then send_in_disorder draw oob opts segs else send_in_order draw oob opts segs) @
          [CopyRest])"

text \<open>
  What the remote end reads from the stream: urgent bytes are not in it. \<open>left\<close> is what the client sends and \<open>relayPipe\<close> has not
  read; \<open>ok\<close> says which writes succeed, and the relay ends with the first that fails.
\<close>

fun remote_reads :: "(nat \<Rightarrow> bool) \<Rightarrow> nat \<Rightarrow> bytes \<Rightarrow> relay_act list \<Rightarrow> bytes" where
  "remote_reads ok n left [] = []"
| "remote_reads ok n left (SegmentSize k # as) = remote_reads ok n left as"
| "remote_reads ok n left (Pause k # as) = remote_reads ok n left as"
| "remote_reads ok n left (SendFake b # as) = (if ok n then b else []) @ remote_reads ok (Suc n) left as"
| "remote_reads ok n left (Send b # as) = (if ok n then b @ remote_reads ok (Suc n) left as else [])"
| "remote_reads ok n left (SendUrgent u b # as) = (if ok n then b @ remote_reads ok (Suc n) left as else [])"
| "remote_reads ok n left (CopyRest # as) = left"

section \<open>The external engine\<close>

record system =
  sy_getenv :: "string \<Rightarrow> string"
  sy_abs :: "string \<Rightarrow> bool"
  sy_isdir :: "string \<Rightarrow> go_error + bool"
  sy_clean :: "string \<Rightarrow> string"
  sy_join :: "string \<Rightarrow> string \<Rightarrow> string"
  sy_lookpath :: "string \<Rightarrow> go_error + string"

definition resolveByedpiBin :: "system \<Rightarrow> go_error + string" where
  "resolveByedpiBin sy =
     (let e = trim_space (sy_getenv sy ''VOLTER_BYEDPI_BIN'') in
      if e \<noteq> [] then
        (if sy_abs sy e \<or> CHR ''/'' \<in> set e then
           (case sy_isdir sy e of
              Inl x \<Rightarrow> Inl x
            | Inr dir \<Rightarrow> if dir then Inl (Error ''VOLTER_BYEDPI_BIN is directory'') else Inr (sy_clean sy e))
         else sy_lookpath sy e)
      else case sy_lookpath sy ''ciadpi'' of
             Inr p \<Rightarrow> Inr p
           | Inl _ \<Rightarrow> (case sy_lookpath sy ''byedpi'' of Inr p \<Rightarrow> Inr p | Inl _ \<Rightarrow> Inl (Error ''no ciadpi/byedpi in PATH'')))"

definition FindByedpiInDir :: "system \<Rightarrow> string \<Rightarrow> string" where
  "FindByedpiInDir sy dir =
     (let dir = trim_space dir in
      if dir = [] then []
      else case List.find (\<lambda>name. sy_isdir sy (sy_join sy dir name) = Inr False) [''ciadpi'', ''byedpi''] of
             None \<Rightarrow> []
           | Some name \<Rightarrow> sy_join sy dir name)"

definition listen_option :: "string \<Rightarrow> bool" where
  "listen_option t \<longleftrightarrow> t \<in> set [''-i'', ''--ip'', ''-p'', ''--port'']"

fun without_listen :: "string list \<Rightarrow> string list" where
  "without_listen [] = []"
| "without_listen (t # ts) = (if listen_option t then without_listen (drop 1 ts) else t # without_listen ts)"

definition appendPresetWithoutListen :: "string list \<Rightarrow> string \<Rightarrow> string list" where
  "appendPresetWithoutListen argv presetLine = argv @ without_listen (words_of (trim_space presetLine))"

text \<open>The attempts: the time before each and whether it connects.\<close>

fun waitDialTCP :: "instant \<Rightarrow> (instant \<times> bool) list \<Rightarrow> bool" where
  "waitDialTCP deadline [] = False"
| "waitDialTCP deadline ((now, ok) # as) = (now < deadline \<and> (ok \<or> waitDialTCP deadline as))"

text \<open>The command line and the address; \<open>start\<close> starts the process, \<open>up\<close> waits for its port.\<close>

definition StartByedpiLocalSocks ::
  "system \<Rightarrow> go_error + (string \<times> int) \<Rightarrow> (string list \<Rightarrow> go_error option) \<Rightarrow> (string \<Rightarrow> bool) \<Rightarrow> string \<Rightarrow> string \<Rightarrow>
   go_error + (string list \<times> string)" where
  "StartByedpiLocalSocks sy listen start up presetLine binOverride =
     (let b = trim_space binOverride;
          bin = (if b \<noteq> [] then
                   (case sy_isdir sy b of
                      Inl e \<Rightarrow> Inl e
                    | Inr dir \<Rightarrow> if dir then Inl (Error ''byedpi bin path is directory'') else Inr (sy_clean sy b))
                 else resolveByedpiBin sy)
      in case bin of
           Inl e \<Rightarrow> Inl e
         | Inr bin \<Rightarrow>
           case listen of
             Inl e \<Rightarrow> Inl e
           | Inr (host, port) \<Rightarrow>
             let args = appendPresetWithoutListen [bin, ''-i'', host, ''-p'', itoa port] presetLine in
             case start args of
               Some e \<Rightarrow> Inl e
             | None \<Rightarrow>
               let addr = join_host_port host (itoa port) in
               if up addr then Inr (args, addr) else Inl (Error ''no SOCKS within 8s''))"

section \<open>Lemmas: SOCKS5\<close>

text \<open>A request as a client writes it.\<close>

datatype socks_addr = IPv4 bytes | Domain string | IPv6 bytes

definition addr_ok :: "socks_addr \<Rightarrow> bool" where
  "addr_ok a = (case a of IPv4 b \<Rightarrow> length b = 4 | Domain s \<Rightarrow> length s \<le> 255 | IPv6 b \<Rightarrow> length b = 16)"

definition addr_wire :: "socks_addr \<Rightarrow> bytes" where
  "addr_wire a = (case a of IPv4 b \<Rightarrow> 1 # b | Domain s \<Rightarrow> 3 # word_of_nat (length s) # str_bytes s | IPv6 b \<Rightarrow> 4 # b)"

definition addr_host :: "(bytes \<Rightarrow> string) \<Rightarrow> socks_addr \<Rightarrow> string" where
  "addr_host ip_str a = (case a of IPv4 b \<Rightarrow> ip_str b | Domain s \<Rightarrow> s | IPv6 b \<Rightarrow> ip_str b)"

definition socks_request :: "bytes \<Rightarrow> socks_addr \<Rightarrow> u16 \<Rightarrow> bytes" where
  "socks_request methods a port = 5 # word_of_nat (length methods) # methods @ [5, 1, 0] @ addr_wire a @ be_put 2 port"

lemma read_buf_append: "length b = n \<Longrightarrow> n \<le> 257 \<Longrightarrow> read_buf n (b @ r) = Inr (b, r)"
  by (simp add: read_buf_def read_full_append)

lemma u8_small: "n \<le> 255 \<Longrightarrow> unat (word_of_nat n :: byte) = n"
  by (simp add: unat_of_nat)

lemma socks_hello_read:
  assumes "length ms \<le> 255"
  shows "socks_hello (5 # word_of_nat (length ms) # ms @ r) = Inr ((), r)"
proof -
  have "read_buf 2 ([5, word_of_nat (length ms)] @ ms @ r) = Inr ([5, word_of_nat (length ms)], ms @ r)"
    by (rule read_buf_append) simp_all
  moreover have "read_buf (length ms) (ms @ r) = Inr (ms, r)" using assms by (intro read_buf_append) simp_all
  ultimately show ?thesis using assms by (auto simp: socks_hello_def rbind_app rret_app u8_small)
qed

lemma be_get_port: "be_get (take 2 (be_put 2 p)) = (p :: u16)"
  using be_get_be_put16 [of p] by (simp del: be_put.simps)

lemma socks_command_read:
  assumes "addr_ok a"
  shows "read_socks_command ip_str ([5, 1, 0] @ addr_wire a @ be_put 2 port @ r) = Inr (Connect (addr_host ip_str a) port, r)"
proof -
  have h: "read_buf 4 (5 # 1 # 0 # t # s) = Inr ([5, 1, 0, t], s)" for t and s :: bytes
    using read_buf_append [of "[5, 1, 0, t]" 4 s] by simp
  show ?thesis
  proof (cases a)
    case (IPv4 b)
    have "read_buf 6 ((b @ be_put 2 port) @ r) = Inr (b @ be_put 2 port, r)"
      using assms IPv4 by (intro read_buf_append) (simp_all add: addr_ok_def del: be_put.simps)
    then show ?thesis using assms IPv4
      by (simp add: read_socks_command_def addr_wire_def addr_host_def rbind_app rret_app h addr_ok_def be_get_port del: be_put.simps)
  next
    case (Domain s)
    have "read_buf (length s + 2) ((str_bytes s @ be_put 2 port) @ r) = Inr (str_bytes s @ be_put 2 port, r)"
      using assms Domain by (intro read_buf_append) (simp_all add: addr_ok_def del: be_put.simps)
    moreover have "read_buf 1 (word_of_nat (length s) # q) = Inr ([word_of_nat (length s)], q)" for q
      using read_buf_append [of "[word_of_nat (length s)]" 1 q] by simp
    ultimately show ?thesis using assms Domain
      by (simp add: read_socks_command_def addr_wire_def addr_host_def rbind_app rret_app h addr_ok_def be_get_port u8_small Let_def del: be_put.simps)
  next
    case (IPv6 b)
    have "read_buf 18 ((b @ be_put 2 port) @ r) = Inr (b @ be_put 2 port, r)"
      using assms IPv6 by (intro read_buf_append) (simp_all add: addr_ok_def del: be_put.simps)
    then show ?thesis using assms IPv6
      by (simp add: read_socks_command_def addr_wire_def addr_host_def rbind_app rret_app h addr_ok_def be_get_port del: be_put.simps)
  qed
qed

lemma socks_session_request:
  assumes "length ms \<le> 255" and "addr_ok a"
  shows "socks_session ip_str connect (socks_request ms a port @ rest) w =
    (case connect (addr_host ip_str a) port w of
       (Inl rep, w) \<Rightarrow> ([[5, 0], socks_reply rep], None, w)
     | (Inr r, w) \<Rightarrow> ([[5, 0], socks_reply 0], Some (r, rest), w))"
proof -
  have "socks_hello (socks_request ms a port @ rest) = Inr ((), [5, 1, 0] @ addr_wire a @ be_put 2 port @ rest)"
    using socks_hello_read [OF assms(1), of "[5, 1, 0] @ addr_wire a @ be_put 2 port @ rest"] by (simp add: socks_request_def del: be_put.simps)
  then show ?thesis
    by (simp only: socks_session_def sum.case prod.case socks_command_read [OF assms(2)] socks_command.case)
qed


text \<open>Whatever a client of the local proxy sends, the reads stay within the buffer of 257 bytes and nothing is sliced out of range.\<close>

lemma read_buf_length: "read_buf n s = Inr (b, r) \<Longrightarrow> length b = n"
  by (auto simp: read_buf_def read_full_def rfail_def split: if_splits)

lemma no_panic_read_buf: "n \<le> 257 \<Longrightarrow> no_panic (read_buf n s)"
  by (auto simp: read_buf_def read_full_def)

lemma u8_le: "unat (b :: byte) \<le> 255"
  using byte_lt [of b] by simp

theorem socks_no_panic: "no_panic (socks_hello s) \<and> no_panic (read_socks_command ip_str s)"
proof
  have le: "unat (b :: byte) \<le> 257" "unat (b :: byte) + 2 \<le> 257" for b using u8_le [of b] by simp_all
  show "no_panic (socks_hello s)"
    unfolding socks_hello_def Let_def
    by (intro no_panic_rbind no_panic_read_buf) (auto intro!: no_panic_rbind no_panic_read_buf le u8_le)
  show "no_panic (read_socks_command ip_str s)"
    unfolding read_socks_command_def Let_def
    by (intro no_panic_rbind no_panic_read_buf) (auto intro!: no_panic_rbind no_panic_read_buf le u8_le)
qed

section \<open>Lemmas: the pieces\<close>

lemma multi_split_concat: "concat (multi_split k c s) = s"
  by (induction k c s rule: multi_split.induct) (auto simp: Let_def)

lemma multi_split_nonempty: "0 < c \<Longrightarrow> list_all (\<lambda>b. b \<noteq> []) (multi_split k c s)"
  by (induction k c s rule: multi_split.induct) (auto simp: Let_def)

lemma multi_split_length: "length (multi_split k c s) \<le> Suc k"
  by (induction k c s rule: multi_split.induct) (auto simp: Let_def)

lemma segments_split:
  assumes "data \<noteq> []"
  shows "concat (segments_of d opts data) = data \<and> list_all (\<lambda>b. b \<noteq> []) (segments_of d opts data) \<and>
    int (length (segments_of d opts data)) \<le> 3 + max 0 (dx_MultiSplit opts)"
proof -
  define s where "s = (if dx_SplitPosition opts \<noteq> [] then int (findSplitPosition d data (dx_SplitPosition opts)) else dx_SplitAfter opts)"
  define s1 where "s1 = nat (if min s (int (length data)) < 1 then 1 else min s (int (length data)))"
  have s1: "1 \<le> s1" "s1 \<le> length data" using assms by (auto simp: s1_def Suc_le_eq split: if_splits)
  define s2 where "s2 = nat (dx_SplitAfter2 opts - int s1)"
  define two where "two \<longleftrightarrow> dx_SplitAfter2 opts > 0 \<and> dx_SplitAfter2 opts < int (length data) \<and> dx_SplitAfter2 opts > int s1
      \<and> s2 < length (drop s1 data)"
  define second where "second = (if two then [take s2 (drop s1 data)] else [])"
  define r where "r = (if two then drop s2 (drop s1 data) else drop s1 data)"
  define m where "m = dx_MultiSplit opts"
  define rest where "rest = (if m > 0 \<and> int (length r) > m then multi_split (nat m) (max 1 (length r div nat (m + 1))) r
      else if r = [] then [] else [r])"
  have e: "segments_of d opts data = [take s1 data] @ second @ rest"
    by (simp only: segments_of_def Let_def s_def [symmetric] s1_def [symmetric] s2_def [symmetric] two_def [symmetric]
        second_def [symmetric] r_def [symmetric] m_def [symmetric] rest_def [symmetric])
  have c: "concat second @ r = drop s1 data" by (simp add: second_def r_def del: drop_drop)
  have cr: "concat rest = r" by (simp add: rest_def multi_split_concat)
  have "take s1 data \<noteq> []" using s1 assms by simp
  moreover have "list_all (\<lambda>b. b \<noteq> []) second" by (auto simp: second_def two_def s2_def)
  moreover have "list_all (\<lambda>b. b \<noteq> []) rest" by (simp add: rest_def multi_split_nonempty)
  moreover have "concat (segments_of d opts data) = data" by (simp add: e cr c)
  moreover have "length second \<le> 1" by (simp add: second_def)
  moreover have "int (length rest) \<le> 1 + max 0 m"
    using multi_split_length [of "nat m" "max 1 (length r div nat (m + 1))" r] by (auto simp: rest_def)
  ultimately show ?thesis by (simp add: e m_def)
qed

text \<open>
  The pieces into which the engine cuts the first bytes of a connection are these bytes: none is empty, none is lost, doubled or
  moved, and there are at most three more than the option for the multiple split asks for.
\<close>

theorem segments_tile:
  assumes "data \<noteq> []"
  shows "concat (segments_of d opts data) = data \<and> list_all (\<lambda>b. b \<noteq> []) (segments_of d opts data) \<and>
    int (length (segments_of d opts data)) \<le> 3 + max 0 (dx_MultiSplit opts)"
  by (rule segments_split [OF assms])

section \<open>Lemmas: what the remote end reads\<close>

text \<open>What the writes put into the stream when all succeed.\<close>

definition stream_of :: "relay_act list \<Rightarrow> bytes" where
  "stream_of as = concat (map (\<lambda>a. case a of Send b \<Rightarrow> b | SendFake b \<Rightarrow> b | SendUrgent u b \<Rightarrow> b | _ \<Rightarrow> []) as)"

lemma stream_of_simps [simp]: "stream_of [] = []" "stream_of (as @ bs) = stream_of as @ stream_of bs" "stream_of (Pause k # as) = stream_of as"
  "stream_of (SendFake b # as) = b @ stream_of as"
  by (simp_all add: stream_of_def)

lemma remote_reads_app: "CopyRest \<notin> set as \<Longrightarrow> remote_reads (\<lambda>_. True) n left (as @ [CopyRest]) = stream_of as @ left"
  by (induction "\<lambda>_ :: nat. True" n left as rule: remote_reads.induct) (simp_all add: stream_of_def)

lemma sleepJittered_quiet [simp]: "stream_of (sleepJittered d b j) = []" "CopyRest \<notin> set (sleepJittered d b j)"
  by (simp_all add: sleepJittered_def Let_def)

lemma setTCP_quiet [simp]: "stream_of (setTCPSegmentSize k) = []" "CopyRest \<notin> set (setTCPSegmentSize k)"
  by (simp_all add: setTCPSegmentSize_def stream_of_def)

text \<open>What of the \<open>i\<close>-th segment is in the stream.\<close>

definition in_stream :: "bool \<Rightarrow> Options \<Rightarrow> nat \<Rightarrow> bytes \<Rightarrow> bytes" where
  "in_stream oob opts i b = (if i = 0 \<and> dx_OOBData opts \<and> oob \<and> length b > 1 then tl b else b)"

lemma writeSeg_stream [simp]:
  "stream_of (writeSeg oob opts (i = 0) b) = in_stream oob opts i b" "CopyRest \<notin> set (writeSeg oob opts x b)"
  by (auto simp: writeSeg_def in_stream_def stream_of_def)

lemma stream_of_concat: "stream_of (concat (map f xs)) = concat (map (\<lambda>x. stream_of (f x)) xs)"
  by (induction xs) auto

definition sent_segments :: "bool \<Rightarrow> Options \<Rightarrow> bytes list \<Rightarrow> bytes list" where
  "sent_segments oob opts segs = map (\<lambda>i. in_stream oob opts i (segs ! i)) [0..<length segs]"

lemma stream_of_if: "stream_of (if c then sleepJittered d b j else []) = []"
  by simp

lemma send_in_order_stream: "stream_of (send_in_order draw oob opts segs) = concat (sent_segments oob opts segs)"
  "CopyRest \<notin> set (send_in_order draw oob opts segs)"
  by (auto simp: send_in_order_def stream_of_concat sent_segments_def stream_of_if)

lemma send_in_disorder_stream: "stream_of (send_in_disorder draw oob opts segs) = concat (rev (sent_segments oob opts segs))"
  "CopyRest \<notin> set (send_in_disorder draw oob opts segs)"
  by (auto simp: send_in_disorder_def stream_of_concat sent_segments_def stream_of_if rev_map)

lemma engine_delivers_all:
  assumes "0 < dx_SplitAfter opts" and "data \<noteq> []"
  shows "remote_reads (\<lambda>_. True) 0 left (relayPipe draw oob opts (Some data)) =
    (if dx_FakeSNI opts then writeFakeSNI (dx_FakeSNIHost opts) else []) @
    concat ((if dx_Disorder opts then rev else id) (sent_segments oob opts (segments_of (draw 102) opts data))) @ left"
proof -
  define segs where "segs = segments_of (draw 102) opts data"
  define pre where "pre = (if dx_TCPSegment opts > 0 then setTCPSegmentSize (dx_TCPSegment opts) else []) @
      (if dx_FakeSNI opts then SendFake (writeFakeSNI (dx_FakeSNIHost opts)) # sleepJittered (draw 100) 5 (dx_JitterMaxMs opts) else [])"
  define body where "body = sleepJittered (draw 101) (dx_LeadInMs opts) (dx_JitterMaxMs opts) @
      (if dx_Disorder opts \<and> length segs \<ge> 2 then send_in_disorder draw oob opts segs else send_in_order draw oob opts segs)"
  have r: "relayPipe draw oob opts (Some data) = (pre @ body) @ [CopyRest]"
    using assms by (simp add: relayPipe_def pre_def body_def segs_def Let_def)
  have p: "stream_of pre = (if dx_FakeSNI opts then writeFakeSNI (dx_FakeSNIHost opts) else [])" "CopyRest \<notin> set pre"
    by (auto simp: pre_def)
  have short: "\<not> 2 \<le> length segs \<Longrightarrow> rev (sent_segments oob opts segs) = sent_segments oob opts segs"
    by (cases segs; cases "drop 1 segs") (auto simp: sent_segments_def)
  have b: "stream_of body = concat ((if dx_Disorder opts then rev else id) (sent_segments oob opts segs))" "CopyRest \<notin> set body"
    using short by (auto simp: body_def send_in_order_stream send_in_disorder_stream)
  have "remote_reads (\<lambda>_. True) 0 left ((pre @ body) @ [CopyRest]) = stream_of (pre @ body) @ left"
    by (rule remote_reads_app) (simp add: p b)
  then show ?thesis unfolding r segs_def [symmetric] by (simp only: stream_of_simps p b append_assoc)
qed


lemma segments_concat: "data \<noteq> [] \<Longrightarrow> concat (segments_of d opts data) = data"
  using segments_split [of data d opts] by simp

lemma engine_transparent:
  assumes "0 < dx_SplitAfter opts" and "data \<noteq> []" and "\<not> dx_FakeSNI opts" "\<not> dx_Disorder opts" "\<not> dx_OOBData opts"
  shows "remote_reads (\<lambda>_. True) 0 left (relayPipe draw oob opts (Some data)) = data @ left"
proof -
  have "sent_segments oob opts segs = segs" for segs
    using assms(5) by (simp add: sent_segments_def in_stream_def map_nth)
  then show ?thesis using engine_delivers_all [OF assms(1,2)] segments_concat [OF assms(2)] assms(3,4) by simp
qed

section \<open>The arguments of the external engine\<close>

lemma without_listen_none: "list_all (\<lambda>t. \<not> listen_option t) (without_listen ts)"
  by (induction ts rule: without_listen.induct) auto

text \<open>An option joined with its value is not recognised, so a preset can still move the port of the external engine.\<close>

lemma joined_listen_option_kept:
  "appendPresetWithoutListen [] ''-p80 -i 1.1.1.1 -s1'' = [''-p80'', ''-s1'']"
  by code_simp

section \<open>Instances\<close>

definition demo_names :: names where
  "demo_names = \<lparr>nm_str = (\<lambda>_. ''1.1.1.1''), nm_parse = (\<lambda>_. Some [1, 1, 1, 1]), nm_lookup = (\<lambda>_. Inl EOF)\<rparr>"


definition demo_split :: Options where
  "demo_split = \<lparr>dx_SplitAfter = 2, dx_SplitAfter2 = 4, dx_TTLMillis = 0, dx_TTL2Millis = 0, dx_Disorder = True, dx_JitterMaxMs = 0,
     dx_LeadInMs = 0, dx_FakeSNI = False, dx_FakeSNIHost = [], dx_SplitPosition = [], dx_AutoTTL = False, dx_TCPSegment = 0,
     dx_OOBData = True, dx_MultiSplit = 0\<rparr>"

lemma demo_segments: "segments_of 0 demo_split [1, 2, 3, 4, 5] = [[1, 2], [3, 4], [5]]"
  by code_simp

lemma segments_tile_witness: "concat (segments_of 0 demo_split [1, 2, 3, 4, 5]) = [1, 2, 3, 4, 5]"
  using segments_tile [of "[1, 2, 3, 4, 5]" 0 demo_split] by simp


end
