(* ===== verification/Forms.thy ===== *)
theory Forms
  imports ConfigUri Background
begin

text \<open>
  The forms of the terminal interface, \<^verbatim>\<open>internal/tui/model.go\<close> (lines 543 to 618, 777 to 1304 and the handlers that open and save
  a form) and \<^verbatim>\<open>mesh_relay.go\<close>. A form is the list of the texts of its fields; what a profile, a set of options or the settings
  become in a form, and what is made of a form when it is saved. The files are a map from names to profiles, whose JSON is read back
  as it was written. Widgets, the keys and the layout are left out.
\<close>

section \<open>Fields\<close>

definition bool_text :: "bool \<Rightarrow> string" where
  "bool_text b = (if b then ''true'' else ''false'')"

definition is_true :: "string \<Rightarrow> bool" where
  "is_true s \<longleftrightarrow> to_lower (trim_space s) = ''true''"

definition clamp :: "int \<Rightarrow> int \<Rightarrow> int \<Rightarrow> int" where
  "clamp v lo hi = (if v < lo then lo else if v > hi then hi else v)"

text \<open>
  \<^verbatim>\<open>v, _ := strconv.Atoi(...)\<close>: 0 for what is no number, the nearest number of 64 bits for one out of range.
\<close>

definition atoiField :: "string \<Rightarrow> int" where
  "atoiField s =
     (let s = trim_space s in
      case atoi s of
        Some v \<Rightarrow> v
      | None \<Rightarrow>
        (let (neg, ds) = (case s of [] \<Rightarrow> (False, []) | c # r \<Rightarrow> if c = CHR ''-'' then (True, r) else if c = CHR ''+'' then (False, r) else (False, s))
         in if ds = [] \<or> digits_val 0 ds = None then 0 else if neg then - (2 ^ 63) else 2 ^ 63 - 1))"

definition orEmpty :: "string \<Rightarrow> string \<Rightarrow> string" where
  "orEmpty s d = (if s = [] then d else s)"

section \<open>Protection\<close>

definition protectionFormFieldCount :: nat where "protectionFormFieldCount = 35"

definition newProtectionInputs :: "ProtectionOptions \<Rightarrow> string list" where
  "newProtectionInputs opts =
     (let e = MergeDpiLocalEmbeddedDefaults (po_DpiLocalEmbedded opts) in
      [orEmpty (po_Obfuscation opts) ''default'',
       itoa (po_JunkCount opts), itoa (po_JunkMin opts), itoa (po_JunkMax opts),
       itoa (po_PadS1 opts), itoa (po_PadS2 opts), itoa (po_PadS3 opts), itoa (po_PadS4 opts),
       bool_text (po_PreCheck opts),
       orEmpty (po_MagicSplit opts) ''0'', orEmpty (po_JunkStyle opts) ''random'', orEmpty (po_FlushPolicy opts) ''once'',
       po_PreambleProfile opts, bool_text (po_PreambleRotate opts),
       bool_text (po_StandaloneDpiOnly opts),
       (if equal_fold (trim_space (po_DpiLocalEngine opts)) ''external'' then ''external'' else ''embedded''),
       itoa (de_SplitAfter e), itoa (de_TTLMillis e), bool_text (de_Disorder e), itoa (de_SplitAfter2 e), itoa (de_TTL2Millis e),
       itoa (de_JitterMaxMs e), itoa (de_LeadInMs e),
       trim_space (po_DpiLocalPreset opts),
       bool_text (de_FakeSNI e), de_FakeSNIHost e, de_SplitPosition e, bool_text (de_AutoTTL e), itoa (de_TCPSegment e),
       bool_text (de_OOBData e), itoa (de_MultiSplit e),
       bool_text (po_ShaperEnabled opts), trim_space (po_ShaperProfile opts), itoa (po_ShaperMaxOverheadPct opts),
       itoa (po_ShaperMaxDelayMs opts)])"

text \<open>The normal forms of the fields that take one of several words.\<close>

definition obfuscation_of :: "string \<Rightarrow> string" where
  "obfuscation_of s = (let o' = trim_space s in if o' \<noteq> ''enhanced'' \<and> o' \<noteq> ''default'' then ''default'' else o')"

definition preamble_of :: "string \<Rightarrow> string" where
  "preamble_of s =
     (let p = trim_space (to_lower s) in
      if p \<in> set [''rotate'', ''tls_record'', ''tls_ch_shape'', ''smb1_shape'', ''mc_frame''] then p else [])"

definition junk_style_of :: "string \<Rightarrow> string" where
  "junk_style_of s = (let j = to_lower (trim_space s) in if j \<noteq> ''tls'' then ''random'' else j)"

definition flush_of :: "string \<Rightarrow> string" where
  "flush_of s = (if to_lower (trim_space s) = ''perchunk'' then ''perChunk'' else ''once'')"

definition shaper_of :: "string \<Rightarrow> string" where
  "shaper_of s = (let p = to_lower (trim_space s) in if p \<in> set [''web'', ''video'', ''game'', ''bulk''] then p else [])"

definition embedded_of :: "string list \<Rightarrow> DpiLocalEmbedded" where
  "embedded_of f = \<lparr>de_SplitAfter = clamp (atoiField (f ! 16)) 1 65536, de_SplitAfter2 = clamp (atoiField (f ! 19)) 0 65536,
     de_TTLMillis = clamp (atoiField (f ! 17)) 1 60000, de_TTL2Millis = clamp (atoiField (f ! 20)) 0 60000,
     de_Disorder = is_true (f ! 18), de_JitterMaxMs = clamp (atoiField (f ! 21)) 0 5000,
     de_LeadInMs = clamp (atoiField (f ! 22)) 0 60000, de_FakeSNI = is_true (f ! 24), de_FakeSNIHost = trim_space (f ! 25),
     de_SplitPosition = trim_space (f ! 26), de_AutoTTL = is_true (f ! 27), de_TCPSegment = clamp (atoiField (f ! 28)) 0 65536,
     de_OOBData = is_true (f ! 29), de_MultiSplit = clamp (atoiField (f ! 30)) 0 10\<rparr>"

text \<open>Every caller has checked that the form has its 35 fields.\<close>

definition protectionOptsFromInputs :: "string list \<Rightarrow> ProtectionOptions" where
  "protectionOptsFromInputs f = po_zero
     \<lparr>po_Obfuscation := obfuscation_of (f ! 0),
      po_JunkCount := clamp (atoiField (f ! 1)) 0 12, po_JunkMin := clamp (atoiField (f ! 2)) 64 1024,
      po_JunkMax := clamp (atoiField (f ! 3)) 64 1024,
      po_PadS1 := clamp (atoiField (f ! 4)) 0 64, po_PadS2 := clamp (atoiField (f ! 5)) 0 64,
      po_PadS3 := clamp (atoiField (f ! 6)) 0 64, po_PadS4 := clamp (atoiField (f ! 7)) 0 64,
      po_PreCheck := is_true (f ! 8),
      po_MagicSplit := (if trim_space (f ! 9) = ''0'' then [] else trim_space (f ! 9)),
      po_JunkStyle := junk_style_of (f ! 10), po_FlushPolicy := flush_of (f ! 11),
      po_PreambleProfile := preamble_of (f ! 12), po_PreambleRotate := is_true (f ! 13),
      po_StandaloneDpiOnly := is_true (f ! 14),
      po_DpiLocalEngine := (if to_lower (trim_space (f ! 15)) = ''external'' then ''external'' else ''embedded''),
      po_DpiLocalEmbedded := Some (embedded_of f),
      po_DpiLocalPreset := trim_space (f ! 23),
      po_ShaperEnabled := is_true (f ! 31), po_ShaperProfile := shaper_of (f ! 32),
      po_ShaperMaxOverheadPct := clamp (atoiField (f ! 33)) 0 1000, po_ShaperMaxDelayMs := clamp (atoiField (f ! 34)) 0 5000\<rparr>"

definition applyProtectionPresetToInputs :: "string list \<Rightarrow> ProtectionOptions \<Rightarrow> string list" where
  "applyProtectionPresetToInputs f p =
     (if length f < protectionFormFieldCount then f
      else f[0 := orEmpty (po_Obfuscation p) ''default'', 1 := itoa (po_JunkCount p), 2 := itoa (po_JunkMin p), 3 := itoa (po_JunkMax p),
        4 := itoa (po_PadS1 p), 5 := itoa (po_PadS2 p), 6 := itoa (po_PadS3 p), 7 := itoa (po_PadS4 p),
        8 := bool_text (po_PreCheck p), 9 := orEmpty (po_MagicSplit p) ''0'', 10 := orEmpty (po_JunkStyle p) ''random'',
        11 := orEmpty (po_FlushPolicy p) ''once'', 12 := po_PreambleProfile p, 13 := bool_text (po_PreambleRotate p),
        31 := bool_text (po_ShaperEnabled p), 32 := po_ShaperProfile p, 33 := itoa (po_ShaperMaxOverheadPct p),
        34 := itoa (po_ShaperMaxDelayMs p)])"

definition protectionPresetBalanced :: ProtectionOptions where
  "protectionPresetBalanced = po_zero
     \<lparr>po_Obfuscation := ''default'', po_JunkCount := 4, po_JunkMin := 64, po_JunkMax := 512, po_PadS1 := 4, po_PadS2 := 4,
      po_PadS3 := 4, po_PadS4 := 24, po_JunkStyle := ''random'', po_FlushPolicy := ''once'', po_ShaperEnabled := True,
      po_ShaperProfile := ''web''\<rparr>"

definition protectionPresetStrict :: ProtectionOptions where
  "protectionPresetStrict = po_zero
     \<lparr>po_Obfuscation := ''enhanced'', po_JunkCount := 8, po_JunkMin := 128, po_JunkMax := 896, po_PadS1 := 12, po_PadS2 := 12,
      po_PadS3 := 12, po_PadS4 := 48, po_JunkStyle := ''tls'', po_FlushPolicy := ''once'', po_PreambleProfile := ''rotate'',
      po_PreambleRotate := True, po_ShaperEnabled := True, po_ShaperProfile := ''web'', po_ShaperMaxOverheadPct := 80,
      po_ShaperMaxDelayMs := 40\<rparr>"

text \<open>\<open>errors\<close>: the kinds of error of the recorded sessions, \<open>None\<close> when they cannot be loaded.\<close>

definition protectionPresetAutoByMetrics :: "string list option \<Rightarrow> ProtectionOptions" where
  "protectionPresetAutoByMetrics errors =
     (case errors of
        None \<Rightarrow> protectionPresetBalanced
      | Some es \<Rightarrow>
        if length es < 2 then protectionPresetBalanced
        else if length (filter (\<lambda>e. to_lower (trim_space e) \<in> set [''timeout'', ''reset'', ''unknown'']) (drop (length es - 10) es)) \<ge> 3
        then protectionPresetStrict else protectionPresetBalanced)"

section \<open>Settings\<close>

definition newSettingsInputs :: "ClientSettings \<Rightarrow> string list" where
  "newSettingsInputs s =
     [orEmpty (cs_Mode s) ''tun'', cs_ProxyListen s, bool_text (cs_SystemProxy s), bool_text (cs_SplitTunnelEnabled s),
      (if cs_SplitTunnelMode s \<noteq> ''bypass'' then ''only'' else cs_SplitTunnelMode s), cs_SplitTunnelURL s,
      join_with '','' (cs_SplitTunnelCountries s)]"

definition settingsFromInputs :: "string list \<Rightarrow> ClientSettings" where
  "settingsFromInputs f =
     (let mode = to_lower (trim_space (f ! 0)); listen = trim_space (f ! 1);
          s = \<lparr>cs_Mode = (if mode \<noteq> ''proxy'' then ''tun'' else mode), cs_SystemProxy = is_true (f ! 2),
               cs_ProxyListen = (if listen = [] then ''127.0.0.1:1080'' else listen), cs_LastProfile = [],
               cs_SplitTunnelEnabled = False, cs_SplitTunnelMode = [], cs_SplitTunnelURL = [], cs_SplitTunnelCountries = []\<rparr>
      in if length f \<ge> 7 then
           s\<lparr>cs_SplitTunnelEnabled := is_true (f ! 3),
             cs_SplitTunnelMode := (let m = to_lower (trim_space (f ! 4)) in if m \<noteq> ''bypass'' then ''only'' else m),
             cs_SplitTunnelURL := trim_space (f ! 5),
             cs_SplitTunnelCountries := filter (\<lambda>c. c \<noteq> []) (map (\<lambda>c. to_upper (trim_space c)) (split_on (CHR '','') (f ! 6)))\<rparr>
         else s)"

section \<open>Mesh and relay\<close>

definition meshRelayInputCount :: nat where "meshRelayInputCount = 43"

definition splitCommaList :: "string \<Rightarrow> string list" where
  "splitCommaList s =
     (let s = trim_space s in if s = [] then [] else filter (\<lambda>p. p \<noteq> []) (map trim_space (split_on (CHR '','') s)))"

definition parseBoolLoose :: "string \<Rightarrow> bool" where
  "parseBoolLoose s \<longleftrightarrow> to_lower (trim_space s) \<in> set [''1'', ''true'', ''yes'', ''y'', ''on'']"

definition newMeshRelayInputs :: "RelayOptions option \<Rightarrow> string list" where
  "newMeshRelayInputs ro =
     (let z = (case ro of None \<Rightarrow> ro_zero | Some r \<Rightarrow> r); join = join_with '', '' in
      [ro_PeerID z, ro_DiscoveryURL z, ro_BootstrapPubKey z, ro_DiscoverySigned z,
       join (ro_StunServers z), join (ro_TurnURLs z), join (ro_DhtRpcSeedPeers z), join (ro_DHTFindURLs z),
       ro_DhtRpcSecret z, ro_DhtRpcListenUDP z, ro_PeerRelayUDPListen z, ro_PeerRelayUDPAdvertise z, ro_PeerQuicServerName z,
       ro_EmergencyPolicyURL z, ro_EmergencyPolicyPubKey z, join (ro_GossipPeers z),
       ro_StakeRegistryURL z, ro_StakeRegistryPubKey z, ro_StakeReputationFile z, ro_StakeBonusHTTPURL z, ro_StakeMerkleFile z,
       ro_StakeMerkleRootURL z,
       itoa (ro_DhtRpcIntervalSec z), itoa (ro_DhtRpcFindK z), itoa (ro_DhtIterativeRounds z), itoa (ro_DhtIterativeAlpha z),
       itoa (ro_PathCooldownMs z), itoa (ro_GossipIntervalSec z), itoa (ro_GossipMaxAgeSec z), itoa (ro_StakeMin z),
       bool_text (ro_GossipEnabled z), bool_text (ro_PeerPathFromDiscovery z), bool_text (ro_PeerRelayUseQUIC z),
       bool_text (ro_PeerRelayUseUDP z), bool_text (case ro_PeerRelayUseTCP z of None \<Rightarrow> True | Some b \<Rightarrow> b),
       bool_text (ro_DhtPublishSrflx z), bool_text (ro_SymmetricNatHolePunch z), bool_text (ro_PathAggressive z),
       join (ro_AllowedClasses z),
       itoa (ro_MaxConcurrent z), itoa (ro_BudgetKbps z), itoa (ro_PeerRelayBudgetKbps z), itoa (ro_MaxPeerHops z)])"

definition meshRelayFromInputs :: "string list \<Rightarrow> go_error + RelayOptions" where
  "meshRelayFromInputs f =
     (if length f \<noteq> meshRelayInputCount then Inl (Error ''internal: mesh form'')
      else let get = (\<lambda>i. trim_space (f ! i)); csv = (\<lambda>i. splitCommaList (trim_space (f ! i)));
               num = (\<lambda>i. atoiField (trim_space (f ! i))); flag = (\<lambda>i. parseBoolLoose (trim_space (f ! i)))
        in Inr (ro_zero
          \<lparr>ro_PeerID := get 0, ro_DiscoveryURL := get 1, ro_BootstrapPubKey := get 2, ro_DiscoverySigned := get 3,
           ro_StunServers := csv 4, ro_TurnURLs := csv 5, ro_DhtRpcSeedPeers := csv 6, ro_DHTFindURLs := csv 7,
           ro_DhtRpcSecret := get 8, ro_DhtRpcListenUDP := get 9, ro_PeerRelayUDPListen := get 10,
           ro_PeerRelayUDPAdvertise := get 11, ro_PeerQuicServerName := get 12, ro_EmergencyPolicyURL := get 13,
           ro_EmergencyPolicyPubKey := get 14, ro_GossipPeers := csv 15, ro_StakeRegistryURL := get 16,
           ro_StakeRegistryPubKey := get 17, ro_StakeReputationFile := get 18, ro_StakeBonusHTTPURL := get 19,
           ro_StakeMerkleFile := get 20, ro_StakeMerkleRootURL := get 21,
           ro_DhtRpcIntervalSec := num 22, ro_DhtRpcFindK := num 23, ro_DhtIterativeRounds := num 24, ro_DhtIterativeAlpha := num 25,
           ro_PathCooldownMs := num 26, ro_GossipIntervalSec := num 27, ro_GossipMaxAgeSec := num 28, ro_StakeMin := num 29,
           ro_GossipEnabled := flag 30, ro_PeerPathFromDiscovery := flag 31, ro_PeerRelayUseQUIC := flag 32,
           ro_PeerRelayUseUDP := flag 33, ro_PeerRelayUseTCP := Some (flag 34), ro_DhtPublishSrflx := flag 35,
           ro_SymmetricNatHolePunch := flag 36, ro_PathAggressive := flag 37, ro_AllowedClasses := csv 38,
           ro_MaxConcurrent := num 39, ro_BudgetKbps := num 40, ro_PeerRelayBudgetKbps := num 41, ro_MaxPeerHops := num 42\<rparr>))"

text \<open>\<open>rnd\<close> is the random identifier the defaults draw.\<close>

definition defaultMeshRelayInputs :: "string \<Rightarrow> Config option \<Rightarrow> string list" where
  "defaultMeshRelayInputs rnd cfg =
     (let base = (case Option.bind cfg cf_Relay of None \<Rightarrow> ro_zero | Some r \<Rightarrow> r);
          mesh = (case Option.bind cfg cf_Mesh of None \<Rightarrow> mesh_zero\<lparr>me_Enabled := True\<rparr> | Some m \<Rightarrow> m);
          mesh = mesh\<lparr>me_Enabled := True, me_P2P := (me_P2P mesh)\<lparr>mp_Enabled := True\<rparr>,
            me_Volunteer := (me_Volunteer mesh)\<lparr>mv_Enabled := True\<rparr>, me_STUN := (me_STUN mesh)\<lparr>mt_Enabled := True\<rparr>,
            me_ServerRelay := (me_ServerRelay mesh)\<lparr>ms_Enabled := True\<rparr>\<rparr>;
          mesh = ApplyMeshDefaults rnd mesh;
          base = ApplyRelayDefaults rnd base
      in case MeshToRelayOptions (Some mesh) of
           Some out \<Rightarrow> newMeshRelayInputs (Some (ApplyRelayDefaults rnd out))
         | None \<Rightarrow> newMeshRelayInputs (Some (ApplyRelayDefaults rnd base)))"

definition relayMergeKeepAdvanced :: "RelayOptions option \<Rightarrow> RelayOptions \<Rightarrow> RelayOptions" where
  "relayMergeKeepAdvanced old nu =
     (case old of
        None \<Rightarrow> nu
      | Some o' \<Rightarrow> nu
        \<lparr>ro_PrivateKey := (if trim_space (ro_PrivateKey nu) = [] then ro_PrivateKey o' else ro_PrivateKey nu),
         ro_AllowedClasses := list_or (ro_AllowedClasses nu) (ro_AllowedClasses o'),
         ro_MaxConcurrent := (if ro_MaxConcurrent nu = 0 then ro_MaxConcurrent o' else ro_MaxConcurrent nu),
         ro_BudgetKbps := (if ro_BudgetKbps nu = 0 then ro_BudgetKbps o' else ro_BudgetKbps nu),
         ro_PeerRelayBudgetKbps := (if ro_PeerRelayBudgetKbps nu = 0 then ro_PeerRelayBudgetKbps o' else ro_PeerRelayBudgetKbps nu),
         ro_GeoAllowCountries := list_or (ro_GeoAllowCountries nu) (ro_GeoAllowCountries o'),
         ro_GeoDenyCountries := list_or (ro_GeoDenyCountries nu) (ro_GeoDenyCountries o')\<rparr>)"

section \<open>A connection\<close>

definition newInputsWithValues :: "string \<Rightarrow> string \<Rightarrow> Config \<Rightarrow> string list" where
  "newInputsWithValues name conn c =
     [name, conn, cf_Routes c, cf_Exclude c, cf_TunCIDR6 c,
      (if trim_space (cf_Transport c) = [] then ''auto'' else trim_space (cf_Transport c)),
      cf_QuicServer c, cf_QuicServerName c, trim_space (QuicSkipVerifyFormField c), cf_QuicCertPinSHA256 c, cf_QuicCaCert c]"

definition newAddInputs :: "string list" where
  "newAddInputs = newInputsWithValues [] [] cf_zero"

text \<open>The form in which a profile is edited (the key \<^verbatim>\<open>e\<close>).\<close>

definition edit_form :: "uri_json \<Rightarrow> string \<Rightarrow> Config \<Rightarrow> string list" where
  "edit_form j name c = newInputsWithValues name (BuildConnectionURI j (cf_Server c) (cf_Token c) (Some (cf_DexoteServerPub c))) c"

definition configFromConnFormInputs :: "uri_json \<Rightarrow> string list \<Rightarrow> go_error + Config" where
  "configFromConnFormInputs j f =
     (if length f < 11 then Inl (Error ''broken form'')
      else let connRaw = trim_space (f ! 1) in
        ebind (ParseConnection j connRaw) (\<lambda>r.
        case r of
          None \<Rightarrow> Inl (Error ''connection: volter://... or host:port:key'')
        | Some (server, token) \<Rightarrow>
          ebind (ParseConnectionConfig j connRaw) (\<lambda>cc.
          ebind (ParseVoultKeyURI j connRaw) (\<lambda>vk.
          let dexotePub = (case cc of None \<Rightarrow> [] | Some c \<Rightarrow> cf_DexoteServerPub c);
              managed = Option.bind vk (\<lambda>v. cf_Managed (ConfigFromVoultKey v));
              tr = to_lower (trim_space (f ! 5));
              skip = to_lower (trim_space (f ! 8))
          in if tr \<noteq> ''auto'' \<and> tr \<noteq> [] \<and> tr \<noteq> ''tcp'' \<and> tr \<noteq> ''quic'' then Inl (Error ''transport: tcp, quic, auto or empty'')
             else if skip \<noteq> [] \<and> skip \<noteq> ''true'' \<and> skip \<noteq> ''false'' then Inl (Error ''quic skipVerify: empty, true or false'')
             else Inr (cf_zero
               \<lparr>cf_Server := server, cf_Token := token, cf_DexoteServerPub := dexotePub,
                cf_Routes := trim_space (f ! 2), cf_Exclude := trim_space (f ! 3), cf_TunCIDR6 := trim_space (f ! 4),
                cf_Transport := (if tr = ''auto'' then [] else tr), cf_QuicServer := trim_space (f ! 6),
                cf_QuicServerName := trim_space (f ! 7),
                cf_QuicCertPinSHA256 := trim_space (filter (\<lambda>c. c \<noteq> CHR '':'') (f ! 9)),
                cf_QuicCaCert := trim_space (f ! 10), cf_Managed := managed,
                cf_QuicSkipVerify := (if skip = [] then None else Some (skip = ''true''))\<rparr>)))))"

text \<open>A connection typed into another field moves to its own.\<close>

fun first_connection :: "uri_json \<Rightarrow> nat \<Rightarrow> string list \<Rightarrow> nat option" where
  "first_connection j i [] = None"
| "first_connection j i (v # vs) =
     (if trim_space v \<noteq> [] \<and> (\<exists>p. ParseConnection j (trim_space v) = Inr (Some p)) then Some i else first_connection j (Suc i) vs)"

definition fillConnectionFromAnyField :: "uri_json \<Rightarrow> string list \<Rightarrow> string list" where
  "fillConnectionFromAnyField j f =
     (if length f < 2 then f
      else case first_connection j 0 f of
             None \<Rightarrow> f
           | Some i \<Rightarrow> if i = 1 then f else f[1 := trim_space (f ! i), i := []])"

section \<open>Opening and saving\<close>

type_synonym profiles = "(string, Config) gomap"

text \<open>What \<^verbatim>\<open>Save\<close> writes and \<^verbatim>\<open>LoadByName\<close> reads: the managed client and the relay section put in order.\<close>

definition settled :: "(ProtectionOptions \<Rightarrow> ProtectionOptions) \<Rightarrow> Config \<Rightarrow> Config" where
  "settled sanitize c =
     snd (MigrateLegacyRelayToMeshInPlace (c\<lparr>cf_Managed := SanitizeManagedInPlace (cf_Managed c),
       cf_Protection := map_option sanitize (cf_Protection c)\<rparr>))"

text \<open>The saving of the mesh form, up to the profile that is saved.\<close>

definition save_mesh_form :: "Config \<Rightarrow> string list \<Rightarrow> go_error + Config" where
  "save_mesh_form cfg f =
     ebind (meshRelayFromInputs f) (\<lambda>nu.
       let nu = relayMergeKeepAdvanced (EffectiveRelayOptions (Some cfg)) nu
       in Inr (if mesh_on cfg then cfg\<lparr>cf_Mesh := Some (RelayOptionsToMesh (Some nu) (cf_Mesh cfg)), cf_Relay := None\<rparr>
               else cfg\<lparr>cf_Relay := Some nu\<rparr>))"

definition save_protection_form :: "Config \<Rightarrow> string list \<Rightarrow> Config" where
  "save_protection_form cfg f = cfg\<lparr>cf_Protection := Some (protectionOptsFromInputs f)\<rparr>"

definition mergeCfgPreserveRelayProtection :: "profiles \<Rightarrow> string \<Rightarrow> Config \<Rightarrow> Config" where
  "mergeCfgPreserveRelayProtection ps oldName cfg =
     (case mget ps oldName of
        None \<Rightarrow> cfg
      | Some old \<Rightarrow> cfg\<lparr>cf_Relay := cf_Relay old, cf_Mesh := cf_Mesh old, cf_Protection := cf_Protection old\<rparr>)"

text \<open>The saving of an edited connection; \<open>save\<close> is the outcome of writing the file.\<close>

definition save_edit_form :: "uri_json \<Rightarrow> go_error option \<Rightarrow> string \<Rightarrow> string list \<Rightarrow> profiles \<Rightarrow> go_error option \<times> profiles" where
  "save_edit_form j save oldName f ps =
     (let newName = SanitizeName (trim_space (f ! 0)) in
      case configFromConnFormInputs j f of
        Inl e \<Rightarrow> (Some e, ps)
      | Inr cfg \<Rightarrow>
        let cfg = mergeCfgPreserveRelayProtection ps oldName cfg;
            ps = (if newName \<noteq> oldName then mdel oldName ps else ps)
        in case save of Some e \<Rightarrow> (Some e, ps) | None \<Rightarrow> (None, mput newName cfg ps))"

section \<open>The cluster keys\<close>

text \<open>The value of the live route mode that is set, with the profiles.\<close>

definition setClusterRouteMode :: "string \<Rightarrow> string \<Rightarrow> profiles \<Rightarrow> string option \<times> profiles" where
  "setClusterRouteMode name mode ps =
     (if name = [] then (None, ps)
      else case mget ps name of
        None \<Rightarrow> (None, ps)
      | Some cfg \<Rightarrow>
        let opts = (case cf_Protection cfg of None \<Rightarrow> po_zero | Some p \<Rightarrow> p);
            opts = ApplyClusterProtectionDefaults (opts\<lparr>po_RouteMode := trim_space mode\<rparr>)
        in (Some (po_RouteMode opts), mput name (cfg\<lparr>cf_Protection := Some opts\<rparr>) ps))"

definition applyClusterDefaultsToActive :: "string \<Rightarrow> profiles \<Rightarrow> go_error option \<times> profiles" where
  "applyClusterDefaultsToActive name ps =
     (if name = [] then (Some (Error ''no local profile''), ps)
      else case mget ps name of
        None \<Rightarrow> (Some (Error ''not found''), ps)
      | Some cfg \<Rightarrow>
        let opts = (case cf_Protection cfg of None \<Rightarrow> po_zero | Some p \<Rightarrow> p)
        in (None, mput name (cfg\<lparr>cf_Protection := Some (ApplyClusterProtectionDefaults opts)\<rparr>) ps))"

text \<open>The server in a line of the list of the cluster's nodes: what stands between the first and the last bracket.\<close>

definition server_of_line :: "string \<Rightarrow> go_error + string" where
  "server_of_line raw =
     (case (index_byte raw (CHR ''(''), last_index raw (CHR '')'')) of
        (Some i, Some k) \<Rightarrow> if k < i + 1 then Inl (Panic ''slice bounds out of range'') else Inr (trim_space (take (k - (i + 1)) (drop (i + 1) raw)))
      | _ \<Rightarrow> Inr raw)"

definition cycleClusterPreferredServer ::
  "(string \<Rightarrow> string) \<Rightarrow> string \<Rightarrow> string list \<Rightarrow> nat \<times> profiles \<Rightarrow> go_error + nat \<times> profiles" where
  "cycleClusterPreferredServer canon name nodes = (\<lambda>(idx, ps).
     if name = [] \<or> nodes = [] then Inr (idx, ps)
     else let idx = (idx + 1) mod length nodes in
       ebind (server_of_line (trim_space (nodes ! idx))) (\<lambda>server.
         if server = [] then Inr (idx, ps)
         else case mget ps name of
           None \<Rightarrow> Inr (idx, ps)
         | Some cfg \<Rightarrow>
           let opts = (case cf_Protection cfg of None \<Rightarrow> po_zero | Some p \<Rightarrow> p);
               opts = opts\<lparr>po_ClusterPreferredServer := canon server, po_RouteMode := ''server_relay''\<rparr>
           in Inr (idx, mput name (cfg\<lparr>cf_Protection := Some (ApplyClusterProtectionDefaults opts)\<rparr>) ps)))"

definition firstAddrFromServerField :: "string \<Rightarrow> string" where
  "firstAddrFromServerField server =
     (let server = trim_space server in
      if server = [] then [] else case index_byte server (CHR '','') of Some i \<Rightarrow> trim_space (take i server) | None \<Rightarrow> server)"

section \<open>Lemmas: fields\<close>

lemma digit_plain: "digit_val c \<noteq> None \<Longrightarrow> plain_char c"
  by (auto simp: digit_val_def plain_char_def Let_def split: if_splits)

lemma itoa_plain: "list_all plain_char (itoa i)"
  using digit_plain nat_digits_digits by (auto simp: itoa_def list_all_iff plain_char_def)

lemma atoiField_itoa: "- (2 ^ 63) \<le> i \<Longrightarrow> i < 2 ^ 63 \<Longrightarrow> atoiField (itoa i) = i"
  by (simp add: atoiField_def trim_space_plain itoa_plain atoi_itoa)

lemma trim_itoa [simp]: "trim_space (itoa i) = itoa i"
  by (rule trim_space_plain) (rule itoa_plain)

lemma clamp_field: "lo \<le> v \<Longrightarrow> v \<le> hi \<Longrightarrow> - (2 ^ 63) \<le> lo \<Longrightarrow> hi < 2 ^ 63 \<Longrightarrow> clamp (atoiField (itoa v)) lo hi = v"
  using atoiField_itoa [of v] by (simp add: clamp_def)

lemma clamp_range: "lo \<le> hi \<Longrightarrow> lo \<le> clamp v lo hi \<and> clamp v lo hi \<le> hi"
  by (simp add: clamp_def)

lemma bool_field [simp]: "is_true (bool_text b) = b" "trim_space (bool_text b) = bool_text b" "parseBoolLoose (bool_text b) = b"
proof -
  have w: "to_lower (trim_space ''true'') = ''true''" "to_lower (trim_space ''false'') = ''false''" "trim_space ''true'' = ''true''"
    "trim_space ''false'' = ''false''" by code_simp+
  then show "is_true (bool_text b) = b" "trim_space (bool_text b) = bool_text b" "parseBoolLoose (bool_text b) = b"
    by (cases b; simp add: bool_text_def is_true_def parseBoolLoose_def)+
qed

lemma split_on_append: "c \<notin> set a \<Longrightarrow> split_on c (a @ c # b) = a # split_on c b"
  by (induction a) auto

lemma split_on_single: "c \<notin> set a \<Longrightarrow> split_on c a = [a]"
  by (induction a) auto

lemma trim_space_pad: "trim_space (CHR '' '' # s) = trim_space s"
proof -
  have "trim_left (CHR '' '' # s) = trim_left s"
    by (cases s rule: trim_left.cases) (auto simp: sp1_def Let_def)
  then show ?thesis by (simp add: trim_space_def)
qed

text \<open>Items that survive a list: trimmed, not empty, without a comma.\<close>

definition item_ok :: "string \<Rightarrow> bool" where
  "item_ok x \<longleftrightarrow> x \<noteq> [] \<and> trim_space x = x \<and> CHR '','' \<notin> set x"

lemma split_pad: "map trim_space (split_on (CHR '','') (CHR '' '' # r)) = map trim_space (split_on (CHR '','') r)"
  by (cases "split_on (CHR '','') r") (auto simp: trim_space_pad)

lemma split_joined:
  assumes "list_all (\<lambda>x. CHR '','' \<notin> set x) xs" and "xs \<noteq> []"
  shows "map trim_space (split_on (CHR '','') (join_with '', '' xs)) = map trim_space xs"
  using assms
proof (induction "'', ''" xs rule: join_with.induct)
  case (3 p q ps)
  have "map trim_space (split_on (CHR '','') (p @ CHR '','' # CHR '' '' # r)) = trim_space p # map trim_space (split_on (CHR '','') r)" for r
    using 3(2) split_pad [of r] by (simp add: split_on_append)
  then show ?case using 3 by simp
qed (simp_all add: split_on_single)

text \<open>White space is not looked for across an ASCII character.\<close>

definition ascii :: "char \<Rightarrow> bool" where
  "ascii c \<longleftrightarrow> (of_char c :: nat) < 128"

lemma ascii_no_space [simp]:
  "ascii a \<Longrightarrow> \<not> sp2 a b" "ascii b \<Longrightarrow> \<not> sp2 a b" "ascii a \<Longrightarrow> \<not> sp3 a b c" "ascii b \<Longrightarrow> \<not> sp3 a b c" "ascii c \<Longrightarrow> \<not> sp3 a b c"
  by (auto simp: ascii_def sp2_def sp3_def Let_def)

lemma trim_rev_stays:
  assumes "trim_rev a = a" and "a \<noteq> []" and "ascii c"
  shows "trim_rev (a @ c # r) = a @ c # r"
proof (cases a rule: trim_rev.cases)
  case (2 x)
  then show ?thesis using assms(1,3) by (cases r) (auto split: if_splits)
next
  case (3 x y)
  have le: "length (trim_rev x) \<le> length x" for x by (rule suffix_length_le [OF trim_rev_suffix])
  have "\<not> sp1 x" using assms(1) le [of "[y]"] unfolding 3 by (auto split: if_splits)
  moreover have "\<not> sp2 y x" using assms(1) unfolding 3 by (auto split: if_splits)
  ultimately show ?thesis using 3 assms(3) by simp
next
  case (4 x y z t)
  have le: "length (trim_rev x) \<le> length x" for x by (rule suffix_length_le [OF trim_rev_suffix])
  have "\<not> sp1 x \<and> \<not> sp2 y x \<and> \<not> sp3 z y x"
  proof (rule ccontr)
    assume h: "\<not> (\<not> sp1 x \<and> \<not> sp2 y x \<and> \<not> sp3 z y x)"
    have "length (trim_rev a) < length a"
      using h le [of "y # z # t"] le [of "z # t"] le [of t] unfolding 4 by auto
    with assms(1) show False by simp
  qed
  then show ?thesis using 4 by simp
qed (use assms(2) in simp)

lemma trim_left_stays:
  assumes "trim_left a = a" and "a \<noteq> []" and "ascii c"
  shows "trim_left (a @ c # r) = a @ c # r"
proof (cases a rule: trim_left.cases)
  case (2 x)
  then show ?thesis using assms(1,3) by (cases r) (auto split: if_splits)
next
  case (3 x y)
  have le: "length (trim_left x) \<le> length x" for x by (rule suffix_length_le [OF trim_left_suffix])
  have "\<not> sp1 x" using assms(1) le [of "[y]"] unfolding 3 by (auto split: if_splits)
  moreover have "\<not> sp2 x y" using assms(1) unfolding 3 by (auto split: if_splits)
  ultimately show ?thesis using 3 assms(3) by simp
next
  case (4 x y z t)
  have le: "length (trim_left x) \<le> length x" for x by (rule suffix_length_le [OF trim_left_suffix])
  have "\<not> sp1 x \<and> \<not> sp2 x y \<and> \<not> sp3 x y z"
  proof (rule ccontr)
    assume h: "\<not> (\<not> sp1 x \<and> \<not> sp2 x y \<and> \<not> sp3 x y z)"
    have "length (trim_left a) < length a"
      using h le [of "y # z # t"] le [of "z # t"] le [of t] unfolding 4 by auto
    with assms(1) show False by simp
  qed
  then show ?thesis using 4 by simp
qed (use assms(2) in simp)

lemma trim_sides:
  assumes "trim_space a = a"
  shows "trim_left a = a" and "trim_rev (rev a) = rev a"
proof -
  have "suffix (trim_left a) a" by (rule trim_left_suffix)
  moreover have "length a \<le> length (trim_left a)"
    using suffix_length_le [OF trim_rev_suffix, of "rev (trim_left a)"] arg_cong [OF assms, of length] by (simp add: trim_space_def)
  ultimately show l: "trim_left a = a" by (metis suffix_length_suffix suffix_order.antisym suffix_order.refl)
  show "trim_rev (rev a) = rev a" using assms unfolding trim_space_def l by (metis rev_rev_ident)
qed

lemma join_ends:
  "xs \<noteq> [] \<Longrightarrow> (\<exists>r. join_with '', '' xs = hd xs @ r \<and> (r = [] \<or> hd r = CHR '','')) \<and>
    (\<exists>r. join_with '', '' xs = r @ last xs \<and> (r = [] \<or> last r = CHR '' ''))"
proof (induction "'', ''" xs rule: join_with.induct)
  case (3 p q ps)
  then obtain r where "join_with '', '' (q # ps) = r @ last (q # ps)" "r = [] \<or> last r = CHR '' ''" by auto
  then show ?case by (intro conjI exI [of _ "'', '' @ join_with '', '' (q # ps)"] exI [of _ "p @ '', '' @ r"]) auto
qed auto

lemma trim_joined:
  assumes "list_all item_ok xs" and "xs \<noteq> []"
  shows "trim_space (join_with '', '' xs) = join_with '', '' xs"
proof -
  define s where "s = join_with '', '' xs"
  obtain r where r: "s = hd xs @ r" "r = [] \<or> hd r = CHR '',''" using join_ends [OF assms(2)] s_def by blast
  obtain q where q: "s = q @ last xs" "q = [] \<or> last q = CHR '' ''" using join_ends [OF assms(2)] s_def by blast
  have i: "hd xs \<noteq> []" "trim_space (hd xs) = hd xs" "last xs \<noteq> []" "trim_space (last xs) = last xs"
    using assms by (auto simp: list_all_iff item_ok_def)
  have a: "ascii (CHR '','')" "ascii (CHR '' '')" by (simp_all add: ascii_def)
  have l: "trim_left s = s"
    using r i(1) trim_sides(1) [OF i(2)] trim_left_stays [OF trim_sides(1) [OF i(2)] i(1) a(1)] by (cases r) auto
  have "rev s = rev (last xs) @ rev q" by (simp add: q)
  moreover have "rev q = [] \<or> (\<exists>t. rev q = CHR '' '' # t)" using q(2) by (cases q rule: rev_cases) auto
  ultimately have "trim_rev (rev s) = rev s"
    using i(3) trim_sides(2) [OF i(4)] trim_rev_stays [OF trim_sides(2) [OF i(4)] _ a(2)] by auto
  then show ?thesis unfolding s_def [symmetric] by (simp add: trim_space_def l)
qed

lemma csv_field: "list_all item_ok xs \<Longrightarrow> splitCommaList (join_with '', '' xs) = xs"
proof (cases "xs = []")
  case False
  assume ok: "list_all item_ok xs"
  then have p: "\<forall>x \<in> set xs. x \<noteq> [] \<and> trim_space x = x \<and> CHR '','' \<notin> set x" unfolding list_all_iff item_ok_def .
  then have c: "list_all (\<lambda>x. CHR '','' \<notin> set x) xs" by (simp only: list_all_iff) blast
  have t: "map trim_space xs = xs" using p by (intro map_idI) blast
  have n: "filter (\<lambda>p. p \<noteq> []) xs = xs" using p by (simp only: filter_id_conv) blast
  have "hd xs \<noteq> []" using p False hd_in_set by blast
  moreover obtain r where "join_with '', '' xs = hd xs @ r" using join_ends [OF False] by blast
  ultimately have "join_with '', '' xs \<noteq> []" by simp
  then show ?thesis
    unfolding splitCommaList_def trim_joined [OF ok False] Let_def split_joined [OF c False] by (simp add: t n)
qed (simp add: splitCommaList_def)

lemma csv_trim: "list_all item_ok xs \<Longrightarrow> trim_space (join_with '', '' xs) = join_with '', '' xs"
  by (cases "xs = []") (simp_all add: trim_joined)
section \<open>Lemmas: the protection form\<close>

text \<open>Options that the form can hold: words it knows, numbers within its bounds, trimmed texts.\<close>

definition form_ready :: "ProtectionOptions \<Rightarrow> bool" where
  "form_ready p \<longleftrightarrow>
     po_Obfuscation p \<in> set [''default'', ''enhanced''] \<and>
     0 \<le> po_JunkCount p \<and> po_JunkCount p \<le> 12 \<and> 64 \<le> po_JunkMin p \<and> po_JunkMin p \<le> 1024 \<and> 64 \<le> po_JunkMax p \<and> po_JunkMax p \<le> 1024 \<and>
     0 \<le> po_PadS1 p \<and> po_PadS1 p \<le> 64 \<and> 0 \<le> po_PadS2 p \<and> po_PadS2 p \<le> 64 \<and> 0 \<le> po_PadS3 p \<and> po_PadS3 p \<le> 64 \<and>
     0 \<le> po_PadS4 p \<and> po_PadS4 p \<le> 64 \<and>
     trim_space (po_MagicSplit p) = po_MagicSplit p \<and> po_MagicSplit p \<noteq> ''0'' \<and>
     po_JunkStyle p \<in> set [''random'', ''tls''] \<and> po_FlushPolicy p \<in> set [''once'', ''perChunk''] \<and>
     po_PreambleProfile p \<in> set [[], ''rotate'', ''tls_record'', ''tls_ch_shape'', ''smb1_shape'', ''mc_frame''] \<and>
     po_DpiLocalEngine p \<in> set [''embedded'', ''external''] \<and>
     (case po_DpiLocalEmbedded p of None \<Rightarrow> False | Some e \<Rightarrow>
        MergeDpiLocalEmbeddedDefaults (Some e) = e \<and> trim_space (de_FakeSNIHost e) = de_FakeSNIHost e \<and>
        trim_space (de_SplitPosition e) = de_SplitPosition e) \<and>
     trim_space (po_DpiLocalPreset p) = po_DpiLocalPreset p \<and>
     po_ShaperProfile p \<in> set [[], ''web'', ''video'', ''game'', ''bulk''] \<and>
     0 \<le> po_ShaperMaxOverheadPct p \<and> po_ShaperMaxOverheadPct p \<le> 1000 \<and>
     0 \<le> po_ShaperMaxDelayMs p \<and> po_ShaperMaxDelayMs p \<le> 5000"

text \<open>What the form has of some options.\<close>

definition form_part :: "ProtectionOptions \<Rightarrow> ProtectionOptions" where
  "form_part p = po_zero
     \<lparr>po_Obfuscation := po_Obfuscation p, po_JunkCount := po_JunkCount p, po_JunkMin := po_JunkMin p, po_JunkMax := po_JunkMax p,
      po_PadS1 := po_PadS1 p, po_PadS2 := po_PadS2 p, po_PadS3 := po_PadS3 p, po_PadS4 := po_PadS4 p, po_PreCheck := po_PreCheck p,
      po_MagicSplit := po_MagicSplit p, po_JunkStyle := po_JunkStyle p, po_FlushPolicy := po_FlushPolicy p,
      po_PreambleProfile := po_PreambleProfile p, po_PreambleRotate := po_PreambleRotate p,
      po_StandaloneDpiOnly := po_StandaloneDpiOnly p, po_DpiLocalEngine := po_DpiLocalEngine p,
      po_DpiLocalEmbedded := po_DpiLocalEmbedded p, po_DpiLocalPreset := po_DpiLocalPreset p,
      po_ShaperEnabled := po_ShaperEnabled p, po_ShaperProfile := po_ShaperProfile p,
      po_ShaperMaxOverheadPct := po_ShaperMaxOverheadPct p, po_ShaperMaxDelayMs := po_ShaperMaxDelayMs p\<rparr>"

lemma words:
  "x \<in> set [''default'', ''enhanced''] \<Longrightarrow> obfuscation_of (orEmpty x d) = x"
  "x \<in> set [''random'', ''tls''] \<Longrightarrow> junk_style_of (orEmpty x d) = x"
  "x \<in> set [''once'', ''perChunk''] \<Longrightarrow> flush_of (orEmpty x d) = x"
  "x \<in> set [[], ''rotate'', ''tls_record'', ''tls_ch_shape'', ''smb1_shape'', ''mc_frame''] \<Longrightarrow> preamble_of x = x"
  "x \<in> set [[], ''web'', ''video'', ''game'', ''bulk''] \<Longrightarrow> shaper_of (trim_space x) = x"
proof -
  have "list_all (\<lambda>x. obfuscation_of (orEmpty x d) = x) [''default'', ''enhanced'']"
    "list_all (\<lambda>x. junk_style_of (orEmpty x d) = x) [''random'', ''tls'']" "list_all (\<lambda>x. flush_of (orEmpty x d) = x) [''once'', ''perChunk'']"
    "list_all (\<lambda>x. preamble_of x = x) [[], ''rotate'', ''tls_record'', ''tls_ch_shape'', ''smb1_shape'', ''mc_frame'']"
    "list_all (\<lambda>x. shaper_of (trim_space x) = x) [[], ''web'', ''video'', ''game'', ''bulk'']"
    by code_simp+
  then show "x \<in> set [''default'', ''enhanced''] \<Longrightarrow> obfuscation_of (orEmpty x d) = x"
    "x \<in> set [''random'', ''tls''] \<Longrightarrow> junk_style_of (orEmpty x d) = x"
    "x \<in> set [''once'', ''perChunk''] \<Longrightarrow> flush_of (orEmpty x d) = x"
    "x \<in> set [[], ''rotate'', ''tls_record'', ''tls_ch_shape'', ''smb1_shape'', ''mc_frame''] \<Longrightarrow> preamble_of x = x"
    "x \<in> set [[], ''web'', ''video'', ''game'', ''bulk''] \<Longrightarrow> shaper_of (trim_space x) = x"
    unfolding list_all_iff by blast+
qed

lemma engine_word:
  "x \<in> set [''embedded'', ''external''] \<Longrightarrow>
     (if to_lower (trim_space (if equal_fold (trim_space x) ''external'' then ''external'' else ''embedded'')) = ''external''
      then ''external'' else ''embedded'') = x"
proof -
  have "list_all (\<lambda>x. (if to_lower (trim_space (if equal_fold (trim_space x) ''external'' then ''external'' else ''embedded'')) = ''external''
      then ''external'' else ''embedded'') = x) [''embedded'', ''external'']" by code_simp
  then show "x \<in> set [''embedded'', ''external''] \<Longrightarrow>
     (if to_lower (trim_space (if equal_fold (trim_space x) ''external'' then ''external'' else ''embedded'')) = ''external''
      then ''external'' else ''embedded'') = x"
    unfolding list_all_iff by blast
qed

lemma magic_word: "trim_space x = x \<Longrightarrow> x \<noteq> ''0'' \<Longrightarrow>
    (if trim_space (orEmpty x ''0'') = ''0'' then [] else trim_space (orEmpty x ''0'')) = x"
  by (cases x) (auto simp: orEmpty_def, code_simp)

text \<open>The fields of the form by number.\<close>

lemma protection_fields:
  defines "f p \<equiv> newProtectionInputs p" and "e p \<equiv> MergeDpiLocalEmbeddedDefaults (po_DpiLocalEmbedded p)"
  shows "f p ! 0 = orEmpty (po_Obfuscation p) ''default''" "f p ! 1 = itoa (po_JunkCount p)" "f p ! 2 = itoa (po_JunkMin p)"
    "f p ! 3 = itoa (po_JunkMax p)" "f p ! 4 = itoa (po_PadS1 p)" "f p ! 5 = itoa (po_PadS2 p)" "f p ! 6 = itoa (po_PadS3 p)"
    "f p ! 7 = itoa (po_PadS4 p)" "f p ! 8 = bool_text (po_PreCheck p)" "f p ! 9 = orEmpty (po_MagicSplit p) ''0''"
    "f p ! 10 = orEmpty (po_JunkStyle p) ''random''" "f p ! 11 = orEmpty (po_FlushPolicy p) ''once''" "f p ! 12 = po_PreambleProfile p"
    "f p ! 13 = bool_text (po_PreambleRotate p)" "f p ! 14 = bool_text (po_StandaloneDpiOnly p)"
    "f p ! 15 = (if equal_fold (trim_space (po_DpiLocalEngine p)) ''external'' then ''external'' else ''embedded'')"
    "f p ! 16 = itoa (de_SplitAfter (e p))" "f p ! 17 = itoa (de_TTLMillis (e p))" "f p ! 18 = bool_text (de_Disorder (e p))"
    "f p ! 19 = itoa (de_SplitAfter2 (e p))" "f p ! 20 = itoa (de_TTL2Millis (e p))" "f p ! 21 = itoa (de_JitterMaxMs (e p))"
    "f p ! 22 = itoa (de_LeadInMs (e p))" "f p ! 23 = trim_space (po_DpiLocalPreset p)" "f p ! 24 = bool_text (de_FakeSNI (e p))"
    "f p ! 25 = de_FakeSNIHost (e p)" "f p ! 26 = de_SplitPosition (e p)" "f p ! 27 = bool_text (de_AutoTTL (e p))"
    "f p ! 28 = itoa (de_TCPSegment (e p))" "f p ! 29 = bool_text (de_OOBData (e p))" "f p ! 30 = itoa (de_MultiSplit (e p))"
    "f p ! 31 = bool_text (po_ShaperEnabled p)" "f p ! 32 = trim_space (po_ShaperProfile p)" "f p ! 33 = itoa (po_ShaperMaxOverheadPct p)"
    "f p ! 34 = itoa (po_ShaperMaxDelayMs p)" "length (f p) = protectionFormFieldCount"
  unfolding f_def e_def newProtectionInputs_def protectionFormFieldCount_def Let_def by simp_all

text \<open>
  C30. The protection form gives back what it shows: options that the form can hold, opened and saved unchanged, are the same in all the
  fields the form has. Every other option is gone, since the form makes new options: the route mode, the preferred server
  and the paths of the cluster, the volunteering and the jitter are those of empty options.
\<close>

theorem protection_form_roundtrip:
  assumes "form_ready p"
  shows "protectionOptsFromInputs (newProtectionInputs p) = form_part p"
proof -
  obtain e where e: "po_DpiLocalEmbedded p = Some e" "MergeDpiLocalEmbeddedDefaults (Some e) = e"
    "trim_space (de_FakeSNIHost e) = de_FakeSNIHost e" "trim_space (de_SplitPosition e) = de_SplitPosition e"
    using assms by (auto simp: form_ready_def split: option.splits)
  have b: "1 \<le> de_SplitAfter e" "de_SplitAfter e \<le> 65536" "0 \<le> de_SplitAfter2 e" "de_SplitAfter2 e \<le> 65536"
    "1 \<le> de_TTLMillis e" "de_TTLMillis e \<le> 60000" "0 \<le> de_TTL2Millis e" "de_TTL2Millis e \<le> 60000"
    "0 \<le> de_JitterMaxMs e" "de_JitterMaxMs e \<le> 5000" "0 \<le> de_LeadInMs e" "de_LeadInMs e \<le> 60000"
    "0 \<le> de_TCPSegment e" "de_TCPSegment e \<le> 65536" "0 \<le> de_MultiSplit e" "de_MultiSplit e \<le> 10"
    using dpi_defaults_bounds [of "Some e"] unfolding e(2) Let_def by auto
  have emb: "embedded_of (newProtectionInputs p) = e"
    unfolding embedded_of_def protection_fields e(1,2) by (simp add: clamp_field b e(3,4))
  have w: "obfuscation_of (orEmpty (po_Obfuscation p) ''default'') = po_Obfuscation p"
    "junk_style_of (orEmpty (po_JunkStyle p) ''random'') = po_JunkStyle p"
    "flush_of (orEmpty (po_FlushPolicy p) ''once'') = po_FlushPolicy p" "preamble_of (po_PreambleProfile p) = po_PreambleProfile p"
    "shaper_of (trim_space (po_ShaperProfile p)) = po_ShaperProfile p"
    using assms unfolding form_ready_def by (intro words; blast)+
  have m: "(if trim_space (orEmpty (po_MagicSplit p) ''0'') = ''0'' then [] else trim_space (orEmpty (po_MagicSplit p) ''0'')) = po_MagicSplit p"
    by (rule magic_word) (use assms in \<open>auto simp: form_ready_def\<close>)
  have g: "(if to_lower (trim_space (if equal_fold (trim_space (po_DpiLocalEngine p)) ''external'' then ''external'' else ''embedded'')) = ''external''
      then ''external'' else ''embedded'') = po_DpiLocalEngine p"
    by (rule engine_word) (use assms in \<open>unfold form_ready_def, blast\<close>)
  have c: "clamp (atoiField (itoa (po_JunkCount p))) 0 12 = po_JunkCount p" "clamp (atoiField (itoa (po_JunkMin p))) 64 1024 = po_JunkMin p"
    "clamp (atoiField (itoa (po_JunkMax p))) 64 1024 = po_JunkMax p" "clamp (atoiField (itoa (po_PadS1 p))) 0 64 = po_PadS1 p"
    "clamp (atoiField (itoa (po_PadS2 p))) 0 64 = po_PadS2 p" "clamp (atoiField (itoa (po_PadS3 p))) 0 64 = po_PadS3 p"
    "clamp (atoiField (itoa (po_PadS4 p))) 0 64 = po_PadS4 p"
    "clamp (atoiField (itoa (po_ShaperMaxOverheadPct p))) 0 1000 = po_ShaperMaxOverheadPct p"
    "clamp (atoiField (itoa (po_ShaperMaxDelayMs p))) 0 5000 = po_ShaperMaxDelayMs p"
    by (rule clamp_field; use assms in \<open>simp add: form_ready_def\<close>)+
  have t: "trim_space (po_DpiLocalPreset p) = po_DpiLocalPreset p" using assms by (simp add: form_ready_def)
  show ?thesis
    unfolding protectionOptsFromInputs_def emb protection_fields w m g c t bool_field form_part_def e(1) ..
qed
section \<open>Lemmas: the mesh form\<close>

definition in_int64 :: "int \<Rightarrow> bool" where
  "in_int64 v \<longleftrightarrow> - (2 ^ 63) \<le> v \<and> v < 2 ^ 63"

text \<open>Relay options a form can hold.\<close>

definition relay_texts :: "RelayOptions \<Rightarrow> string list" where
  "relay_texts r =
     [ro_PeerID r, ro_DiscoveryURL r, ro_BootstrapPubKey r, ro_DiscoverySigned r, ro_DhtRpcSecret r, ro_DhtRpcListenUDP r,
      ro_PeerRelayUDPListen r, ro_PeerRelayUDPAdvertise r, ro_PeerQuicServerName r, ro_EmergencyPolicyURL r, ro_EmergencyPolicyPubKey r,
      ro_StakeRegistryURL r, ro_StakeRegistryPubKey r, ro_StakeReputationFile r, ro_StakeBonusHTTPURL r, ro_StakeMerkleFile r,
      ro_StakeMerkleRootURL r]"

definition relay_lists :: "RelayOptions \<Rightarrow> string list list" where
  "relay_lists r = [ro_StunServers r, ro_TurnURLs r, ro_DhtRpcSeedPeers r, ro_DHTFindURLs r, ro_GossipPeers r, ro_AllowedClasses r]"

definition relay_numbers :: "RelayOptions \<Rightarrow> int list" where
  "relay_numbers r =
     [ro_DhtRpcIntervalSec r, ro_DhtRpcFindK r, ro_DhtIterativeRounds r, ro_DhtIterativeAlpha r, ro_PathCooldownMs r,
      ro_GossipIntervalSec r, ro_GossipMaxAgeSec r, ro_StakeMin r, ro_MaxConcurrent r, ro_BudgetKbps r, ro_PeerRelayBudgetKbps r,
      ro_MaxPeerHops r]"

definition relay_ready :: "RelayOptions \<Rightarrow> bool" where
  "relay_ready r \<longleftrightarrow> list_all (\<lambda>s. trim_space s = s) (relay_texts r) \<and> list_all (list_all item_ok) (relay_lists r) \<and>
     list_all in_int64 (relay_numbers r)"

lemma mesh_fields:
  defines "f r \<equiv> newMeshRelayInputs (Some r)"
  shows "f r ! 0 = ro_PeerID r" "f r ! 1 = ro_DiscoveryURL r" "f r ! 2 = ro_BootstrapPubKey r" "f r ! 3 = ro_DiscoverySigned r"
    "f r ! 4 = join_with '', '' (ro_StunServers r)" "f r ! 5 = join_with '', '' (ro_TurnURLs r)"
    "f r ! 6 = join_with '', '' (ro_DhtRpcSeedPeers r)" "f r ! 7 = join_with '', '' (ro_DHTFindURLs r)" "f r ! 8 = ro_DhtRpcSecret r"
    "f r ! 9 = ro_DhtRpcListenUDP r" "f r ! 10 = ro_PeerRelayUDPListen r" "f r ! 11 = ro_PeerRelayUDPAdvertise r"
    "f r ! 12 = ro_PeerQuicServerName r" "f r ! 13 = ro_EmergencyPolicyURL r" "f r ! 14 = ro_EmergencyPolicyPubKey r"
    "f r ! 15 = join_with '', '' (ro_GossipPeers r)" "f r ! 16 = ro_StakeRegistryURL r" "f r ! 17 = ro_StakeRegistryPubKey r"
    "f r ! 18 = ro_StakeReputationFile r" "f r ! 19 = ro_StakeBonusHTTPURL r" "f r ! 20 = ro_StakeMerkleFile r"
    "f r ! 21 = ro_StakeMerkleRootURL r" "f r ! 22 = itoa (ro_DhtRpcIntervalSec r)" "f r ! 23 = itoa (ro_DhtRpcFindK r)"
    "f r ! 24 = itoa (ro_DhtIterativeRounds r)" "f r ! 25 = itoa (ro_DhtIterativeAlpha r)" "f r ! 26 = itoa (ro_PathCooldownMs r)"
    "f r ! 27 = itoa (ro_GossipIntervalSec r)" "f r ! 28 = itoa (ro_GossipMaxAgeSec r)" "f r ! 29 = itoa (ro_StakeMin r)"
    "f r ! 30 = bool_text (ro_GossipEnabled r)" "f r ! 31 = bool_text (ro_PeerPathFromDiscovery r)"
    "f r ! 32 = bool_text (ro_PeerRelayUseQUIC r)" "f r ! 33 = bool_text (ro_PeerRelayUseUDP r)"
    "f r ! 34 = bool_text (case ro_PeerRelayUseTCP r of None \<Rightarrow> True | Some b \<Rightarrow> b)" "f r ! 35 = bool_text (ro_DhtPublishSrflx r)"
    "f r ! 36 = bool_text (ro_SymmetricNatHolePunch r)" "f r ! 37 = bool_text (ro_PathAggressive r)"
    "f r ! 38 = join_with '', '' (ro_AllowedClasses r)" "f r ! 39 = itoa (ro_MaxConcurrent r)" "f r ! 40 = itoa (ro_BudgetKbps r)"
    "f r ! 41 = itoa (ro_PeerRelayBudgetKbps r)" "f r ! 42 = itoa (ro_MaxPeerHops r)" "length (f r) = meshRelayInputCount"
  unfolding f_def newMeshRelayInputs_def meshRelayInputCount_def Let_def option.case by simp_all

text \<open>What the form does not hold.\<close>

definition relay_part :: "RelayOptions \<Rightarrow> RelayOptions" where
  "relay_part r = r\<lparr>ro_PrivateKey := [], ro_HealthMaxAgeSec := 0, ro_GeoAllowCountries := [], ro_GeoDenyCountries := [],
     ro_PeerRelayUseTCP := Some (case ro_PeerRelayUseTCP r of None \<Rightarrow> True | Some b \<Rightarrow> b)\<rparr>"

lemma mesh_form_read:
  assumes "relay_ready r"
  shows "meshRelayFromInputs (newMeshRelayInputs (Some r)) = Inr (relay_part r)"
proof -
  have t: "list_all (\<lambda>s. trim_space s = s) (relay_texts r)" and l: "list_all (list_all item_ok) (relay_lists r)"
    and n: "list_all (\<lambda>v. atoiField (itoa v) = v) (relay_numbers r)"
    using assms by (auto simp: relay_ready_def in_int64_def list_all_iff intro: atoiField_itoa)
  have c: "list_all (\<lambda>xs. splitCommaList (join_with '', '' xs) = xs \<and> trim_space (join_with '', '' xs) = join_with '', '' xs) (relay_lists r)"
    using l csv_field csv_trim unfolding list_all_iff by blast
  note t' = t [unfolded relay_texts_def, simplified] and n' = n [unfolded relay_numbers_def, simplified]
    and c' = c [unfolded relay_lists_def, simplified]
  have len: "(length (newMeshRelayInputs (Some r)) \<noteq> meshRelayInputCount) = False" by (simp add: mesh_fields)
  show ?thesis
    unfolding meshRelayFromInputs_def len if_False Let_def mesh_fields bool_field trim_itoa
    by (simp only: t' n' c' simp_thms) (simp add: relay_part_def ro_zero_def)
qed
section \<open>Saving\<close>

text \<open>
  The mesh form gives back what it shows: relay options that the form can hold, put into the form, read from it unchanged and merged with what they
  were, are the same except for the age after which a relay is taken for dead, which the form does not know.
\<close>

theorem mesh_form_roundtrip:
  assumes "relay_ready r" and "ro_PeerRelayUseTCP r \<noteq> None"
  shows "meshRelayFromInputs (newMeshRelayInputs (Some r)) = Inr (relay_part r) \<and>
    relayMergeKeepAdvanced (Some r) (relay_part r) = r\<lparr>ro_HealthMaxAgeSec := 0\<rparr>"
  using assms by (auto simp: mesh_form_read relayMergeKeepAdvanced_def relay_part_def list_or_def)

text \<open>
  Opening the mesh form and saving it unchanged turns on what the profile had turned off: the form is filled from a copy of the mesh section
  with every part enabled, so the saved profile lets this machine relay for others and look for peers, and the relay section that
  goes with the mesh is dropped.
\<close>

theorem mesh_form_volunteers:
  assumes "mesh_on cfg"
  shows "\<exists>cfg'. save_mesh_form cfg (defaultMeshRelayInputs rnd (Some cfg)) = Inr cfg' \<and>
    VolunteerEnabled (cf_Mesh cfg') \<and> P2PEnabled (cf_Mesh cfg') \<and> cf_Relay cfg' = None"
proof -
  obtain m where m: "cf_Mesh cfg = Some m" using assms by (auto simp: mesh_on_def split: option.splits)
  define m1 where "m1 = ApplyMeshDefaults rnd (m\<lparr>me_Enabled := True, me_P2P := (me_P2P m)\<lparr>mp_Enabled := True\<rparr>,
      me_Volunteer := (me_Volunteer m)\<lparr>mv_Enabled := True\<rparr>, me_STUN := (me_STUN m)\<lparr>mt_Enabled := True\<rparr>,
      me_ServerRelay := (me_ServerRelay m)\<lparr>ms_Enabled := True\<rparr>\<rparr>)"
  have e: "me_Enabled m1" "mv_Enabled (me_Volunteer m1)" "mp_Enabled (me_P2P m1)" "trim_space (mv_UDPListen (me_Volunteer m1)) \<noteq> []"
    by (simp_all add: m1_def ApplyMeshDefaults_def Let_def volunteer_defaults_def p2p_defaults_def blank_or_text)
      (rule blank_or_text, code_simp)
  obtain out0 where o0: "MeshToRelayOptions (Some m1) = Some out0" "ro_PeerPathFromDiscovery out0"
    "trim_space (ro_PeerRelayUDPListen out0) \<noteq> []"
    using e by (auto simp: MeshToRelayOptions_def Let_def)
  define out where "out = ApplyRelayDefaults rnd out0"
  have o: "ro_PeerPathFromDiscovery out" "trim_space (ro_PeerRelayUDPListen out) \<noteq> []"
    using o0(2,3) by (simp_all add: out_def ApplyRelayDefaults_def Let_def)
  have f: "defaultMeshRelayInputs rnd (Some cfg) = newMeshRelayInputs (Some out)"
    unfolding defaultMeshRelayInputs_def Let_def Option.bind.simps m option.case m1_def [symmetric] o0(1) out_def ..
  obtain nu where nu: "meshRelayFromInputs (newMeshRelayInputs (Some out)) = Inr nu" "ro_PeerPathFromDiscovery nu"
    "ro_PeerRelayUDPListen nu \<noteq> []"
    using o by (simp add: meshRelayFromInputs_def mesh_fields Let_def)
  define nu' where "nu' = relayMergeKeepAdvanced (EffectiveRelayOptions (Some cfg)) nu"
  have n: "ro_PeerPathFromDiscovery nu'" "ro_PeerRelayUDPListen nu' \<noteq> []"
    using nu(2,3) by (auto simp: nu'_def relayMergeKeepAdvanced_def split: option.splits)
  have "save_mesh_form cfg (newMeshRelayInputs (Some out)) =
      Inr (cfg\<lparr>cf_Mesh := Some (RelayOptionsToMesh (Some nu') (cf_Mesh cfg)), cf_Relay := None\<rparr>)"
    using assms by (simp add: save_mesh_form_def nu(1) ebind_simps nu'_def)
  then show ?thesis unfolding f using n by (simp add: VolunteerEnabled_def P2PEnabled_def RelayOptionsToMesh_def Let_def)
qed

text \<open>Profiles whose connection the form can hold.\<close>

definition conn_ready :: "Config \<Rightarrow> bool" where
  "conn_ready c \<longleftrightarrow> isValidServerAddress (cf_Server c) \<and> cf_Token c \<noteq> [] \<and>
     list_all (\<lambda>s. trim_space s = s)
       [cf_Server c, cf_Token c, cf_DexoteServerPub c, cf_Routes c, cf_Exclude c, cf_TunCIDR6 c, cf_QuicServer c, cf_QuicServerName c,
        cf_QuicCertPinSHA256 c, cf_QuicCaCert c] \<and>
     cf_Transport c \<in> set [[], ''tcp'', ''quic''] \<and> CHR '':'' \<notin> set (cf_QuicCertPinSHA256 c)"

lemma split_join_sep: "list_all (\<lambda>x. c \<notin> set x) xs \<Longrightarrow> xs \<noteq> [] \<Longrightarrow> split_on c (join_with [c] xs) = xs"
  by (induction "[c]" xs rule: join_with.induct) (simp_all add: split_on_single split_on_append)

text \<open>
  The settings form gives back settings in their normal form, except for the profile used last, which saving the form forgets.
\<close>

definition settings_ready :: "ClientSettings \<Rightarrow> bool" where
  "settings_ready s \<longleftrightarrow> cs_Mode s \<in> set [''tun'', ''proxy''] \<and> cs_ProxyListen s \<noteq> [] \<and> trim_space (cs_ProxyListen s) = cs_ProxyListen s \<and>
     cs_SplitTunnelMode s \<in> set [''only'', ''bypass''] \<and> trim_space (cs_SplitTunnelURL s) = cs_SplitTunnelURL s \<and>
     list_all (\<lambda>c. item_ok c \<and> to_upper c = c) (cs_SplitTunnelCountries s)"

lemma settings_form_read:
  assumes "settings_ready s"
  shows "settingsFromInputs (newSettingsInputs s) = s\<lparr>cs_LastProfile := []\<rparr>"
proof -
  have m: "(if to_lower (trim_space (orEmpty (cs_Mode s) ''tun'')) \<noteq> ''proxy'' then ''tun'' else to_lower (trim_space (orEmpty (cs_Mode s) ''tun''))) = cs_Mode s"
  proof -
    have "list_all (\<lambda>x. (if to_lower (trim_space (orEmpty x ''tun'')) \<noteq> ''proxy'' then ''tun'' else to_lower (trim_space (orEmpty x ''tun''))) = x)
        [''tun'', ''proxy'']" by code_simp
    moreover have "cs_Mode s \<in> set [''tun'', ''proxy'']" using assms by (simp only: settings_ready_def)
    ultimately show ?thesis unfolding list_all_iff by blast
  qed
  have sm: "(if to_lower (trim_space (if cs_SplitTunnelMode s \<noteq> ''bypass'' then ''only'' else cs_SplitTunnelMode s)) \<noteq> ''bypass'' then ''only''
      else to_lower (trim_space (if cs_SplitTunnelMode s \<noteq> ''bypass'' then ''only'' else cs_SplitTunnelMode s))) = cs_SplitTunnelMode s"
  proof -
    have "list_all (\<lambda>x. (if to_lower (trim_space (if x \<noteq> ''bypass'' then ''only'' else x)) \<noteq> ''bypass'' then ''only''
        else to_lower (trim_space (if x \<noteq> ''bypass'' then ''only'' else x))) = x) [''only'', ''bypass'']" by code_simp
    moreover have "cs_SplitTunnelMode s \<in> set [''only'', ''bypass'']" using assms by (simp only: settings_ready_def)
    ultimately show ?thesis unfolding list_all_iff by blast
  qed
  have c: "filter (\<lambda>c. c \<noteq> []) (map (\<lambda>c. to_upper (trim_space c)) (split_on (CHR '','') (join_with '','' (cs_SplitTunnelCountries s)))) =
      cs_SplitTunnelCountries s"
  proof (cases "cs_SplitTunnelCountries s = []")
    case False
    have p: "\<forall>x \<in> set (cs_SplitTunnelCountries s). x \<noteq> [] \<and> trim_space x = x \<and> CHR '','' \<notin> set x \<and> to_upper x = x"
      using assms by (auto simp: settings_ready_def list_all_iff item_ok_def)
    then have "split_on (CHR '','') (join_with '','' (cs_SplitTunnelCountries s)) = cs_SplitTunnelCountries s"
      using False by (intro split_join_sep) (auto simp: list_all_iff)
    moreover have "map (\<lambda>c. to_upper (trim_space c)) (cs_SplitTunnelCountries s) = cs_SplitTunnelCountries s" using p by (intro map_idI) simp
    moreover have "filter (\<lambda>c. c \<noteq> []) (cs_SplitTunnelCountries s) = cs_SplitTunnelCountries s" using p by (simp only: filter_id_conv) blast
    ultimately show ?thesis by simp
  qed simp
  have t: "trim_space (cs_ProxyListen s) = cs_ProxyListen s" "trim_space (cs_SplitTunnelURL s) = cs_SplitTunnelURL s"
    "(if cs_ProxyListen s = [] then ''127.0.0.1:1080'' else cs_ProxyListen s) = cs_ProxyListen s"
    using assms by (auto simp: settings_ready_def)
  define f where "f = newSettingsInputs s"
  have f: "length f \<ge> 7" "f ! 0 = orEmpty (cs_Mode s) ''tun''" "f ! 1 = cs_ProxyListen s" "f ! 2 = bool_text (cs_SystemProxy s)"
    "f ! 3 = bool_text (cs_SplitTunnelEnabled s)" "f ! 4 = (if cs_SplitTunnelMode s \<noteq> ''bypass'' then ''only'' else cs_SplitTunnelMode s)"
    "f ! 5 = cs_SplitTunnelURL s" "f ! 6 = join_with '','' (cs_SplitTunnelCountries s)"
    unfolding f_def newSettingsInputs_def by simp_all
  show ?thesis
    unfolding f_def [symmetric] settingsFromInputs_def Let_def if_P [OF f(1)] f(2-) m sm c t bool_field by simp
qed

text \<open>A node of the cluster whose identifier holds a closing bracket before an opening one crashes the interface when it is chosen.\<close>

lemma cluster_line_panics: "server_of_line ''n)(1'' = Inl (Panic ''slice bounds out of range'')"
  by code_simp

section \<open>Instances\<close>

definition demo_form_opts :: ProtectionOptions where
  "demo_form_opts = protectionPresetStrict\<lparr>po_DpiLocalEngine := ''embedded'', po_RouteMode := ''direct'',
     po_DpiLocalEmbedded := Some (MergeDpiLocalEmbeddedDefaults None)\<rparr>"

lemma protection_form_roundtrip_witness:
  "protectionOptsFromInputs (newProtectionInputs demo_form_opts) = form_part demo_form_opts \<and>
   po_RouteMode demo_form_opts = ''direct'' \<and> po_RouteMode (form_part demo_form_opts) = []"
proof -
  have "form_ready demo_form_opts" by code_simp
  from protection_form_roundtrip [OF this] show ?thesis by (simp add: demo_form_opts_def form_part_def po_zero_def)
qed

definition demo_relay_opts :: RelayOptions where
  "demo_relay_opts = ro_zero\<lparr>ro_StunServers := [''a:1'', ''b:2''], ro_PeerID := ''p1'', ro_PeerRelayUseTCP := Some False, ro_HealthMaxAgeSec := 300,
     ro_PrivateKey := ''k''\<rparr>"

lemma mesh_form_roundtrip_witness:
  "meshRelayFromInputs (newMeshRelayInputs (Some demo_relay_opts)) = Inr (relay_part demo_relay_opts) \<and>
   relayMergeKeepAdvanced (Some demo_relay_opts) (relay_part demo_relay_opts) = demo_relay_opts\<lparr>ro_HealthMaxAgeSec := 0\<rparr>"
proof (rule mesh_form_roundtrip)
  show "relay_ready demo_relay_opts" by code_simp
qed (simp add: demo_relay_opts_def)

definition demo_quiet :: Config where
  "demo_quiet = cf_zero\<lparr>cf_Mesh := Some (mesh_zero\<lparr>me_Enabled := True\<rparr>)\<rparr>"

lemma mesh_form_volunteers_witness:
  "\<not> VolunteerEnabled (cf_Mesh demo_quiet) \<and>
   (\<exists>cfg'. save_mesh_form demo_quiet (defaultMeshRelayInputs ''p-1'' (Some demo_quiet)) = Inr cfg' \<and>
     VolunteerEnabled (cf_Mesh cfg') \<and> P2PEnabled (cf_Mesh cfg') \<and> cf_Relay cfg' = None)"
proof
  show "\<not> VolunteerEnabled (cf_Mesh demo_quiet)" by code_simp
  have "mesh_on demo_quiet" by code_simp
  then show "\<exists>cfg'. save_mesh_form demo_quiet (defaultMeshRelayInputs ''p-1'' (Some demo_quiet)) = Inr cfg' \<and>
     VolunteerEnabled (cf_Mesh cfg') \<and> P2PEnabled (cf_Mesh cfg') \<and> cf_Relay cfg' = None"
    by (rule mesh_form_volunteers)
qed

definition demo_conn :: Config where
  "demo_conn = cf_zero\<lparr>cf_Server := ''h:1'', cf_Token := ''t'', cf_Transport := ''quic'', cf_Managed := Some mc_zero,
     cf_Protection := Some po_zero\<rparr>"

end
