(* ===== verification/Status.thy ===== *)
theory Status
  imports Forms Obfuscate Preamble "HOL-Library.Product_Lexorder"
begin

text \<open>
  What a client finds out about servers and shows: the probe of a server (\<^verbatim>\<open>internal/probe/probe.go\<close>), which greets it with a token
  that it must refuse and reads the capability hello it sends, and the parts of the mesh status made of the cluster's documents and the
  routing table (\<^verbatim>\<open>internal/meshstatus/snapshot.go\<close>). A connection is the bytes that arrive before the deadline and what ends them; JSON, SHA-256
  and random numbers are arguments. The text made of a status, the look-up of a name through DNS and the time a ping takes are left out.
\<close>

section \<open>The probe\<close>

text \<open>What ends the bytes of a connection, and the errors of a read.\<close>

datatype conn_err = ConnEOF | ConnShort | ConnTimeout | ConnReset | ConnFailed string

text \<open>\<^verbatim>\<open>io.ReadFull\<close> on a connection that ends with \<open>e\<close>.\<close>

definition conn_full :: "conn_err \<Rightarrow> nat \<Rightarrow> bytes \<Rightarrow> conn_err + bytes \<times> bytes" where
  "conn_full e n s =
     (if n \<le> length s then Inr (take n s, drop n s) else Inl (if e = ConnEOF \<and> s \<noteq> [] then ConnShort else e))"

definition HelloCapsHeaderLen :: nat where "HelloCapsHeaderLen = 11"

text \<open>A read that brings nothing ends the reading without an error; one that does not bring the whole pin is an error.\<close>

definition appendQuicPinExt :: "conn_err \<Rightarrow> bytes \<Rightarrow> bytes \<Rightarrow> conn_err + bytes" where
  "appendQuicPinExt e raw s =
     (case s of
        [] \<Rightarrow> Inr raw
      | tag # s \<Rightarrow>
        if tag \<noteq> 1 then Inr raw
        else case conn_full e 32 s of Inl err \<Rightarrow> Inl err | Inr (pin, _) \<Rightarrow> Inr (raw @ [1] @ pin))"

definition readProbeHelloPayload :: "conn_err \<Rightarrow> bytes \<Rightarrow> conn_err + bytes" where
  "readProbeHelloPayload e s =
     (case conn_full e 1 s of
        Inl err \<Rightarrow> Inl err
      | Inr (b, s) \<Rightarrow>
        case conn_full e (HelloCapsHeaderLen - 1) s of
          Inl err \<Rightarrow> if err = ConnEOF \<or> err = ConnShort then Inr b else Inl err
        | Inr (h, s) \<Rightarrow>
          let buf = b @ h; nl = unat (buf ! (HelloCapsHeaderLen - 1)) in
          if nl > HelloCapsMaxNonceLen then Inr buf
          else if nl = 0 then appendQuicPinExt e buf s
          else case conn_full e nl s of
            Inl err \<Rightarrow> Inl err
          | Inr (nonce, s) \<Rightarrow> appendQuicPinExt e (buf @ nonce) s)"

definition parseProbeCaps :: "bytes \<Rightarrow> bool \<times> bool \<times> ServerHelloCaps option" where
  "parseProbeCaps raw =
     (if length raw = 0 then (False, False, None)
      else if length raw = 1 then (True, raw ! 0 = 1, None)
      else case ReadServerHelloCaps raw of
             Inl _ \<Rightarrow> (True, raw ! 0 = 1, None)
           | Inr c \<Rightarrow> (True, hc_LegacyIPv6 c, Some c))"

definition probe_randInt :: "(nat \<Rightarrow> nat) \<Rightarrow> nat \<Rightarrow> int \<Rightarrow> int \<Rightarrow> int" where
  "probe_randInt draw i mn mx = (if mx \<le> mn then mn else mn + int (draw i mod nat (mx - mn + 1)))"

text \<open>What the probe sends, masked with the token of the server: junk and a handshake with a token that is none.\<close>

definition probe_greeting :: "(bytes \<Rightarrow> bytes) \<Rightarrow> (bytes \<Rightarrow> string) \<Rightarrow> (nat \<Rightarrow> nat) \<Rightarrow> entropy \<Rightarrow> entropy \<Rightarrow> string \<Rightarrow> bytes" where
  "probe_greeting sha256 ms draw junk pad wireToken =
     (let w = wbytes (wseq [WriteJunkOrTLSLike junk (probe_randInt draw 0 2 6) (probe_randInt draw 1 64 256)
            (probe_randInt draw 2 512 1024) [] [] True,
          WriteHandshake ms pad roleUDP 0 ''probe-bad-token''])
      in fst (xc_Write (WrapConn sha256 wireToken) w (length w)))"

text \<open>
  The probe, with the outcome of dialling and of writing the greeting, the bytes that come back and what ends them. The answer is
  read from the connection itself, not through the mask.
\<close>

definition ProbeVolterWithCaps ::
  "string \<Rightarrow> conn_err + conn_err option \<times> bytes \<times> conn_err \<Rightarrow> conn_err + bool \<times> bool \<times> ServerHelloCaps option" where
  "ProbeVolterWithCaps wireToken conn =
     (if trim_space wireToken = [] then Inl (ConnFailed ''probe: server token required for XOR stream'')
      else case conn of
        Inl err \<Rightarrow> Inl err
      | Inr (Some err, _) \<Rightarrow> Inl err
      | Inr (None, s, e) \<Rightarrow>
        (case readProbeHelloPayload e s of
           Inr raw \<Rightarrow> Inr (parseProbeCaps raw)
         | Inl err \<Rightarrow>
           if err = ConnEOF then Inr (True, False, None)
           else if err = ConnTimeout then Inr (False, False, None)
           else if err = ConnReset then Inr (True, False, None)
           else Inl err))"

definition ServerModeFromCaps :: "ServerHelloCaps option \<Rightarrow> string" where
  "ServerModeFromCaps caps =
     (case caps of
        None \<Rightarrow> ''unknown''
      | Some c \<Rightarrow>
        let hasTCP = (hc_TransportMask c AND TransportTCP \<noteq> 0); hasQUIC = (hc_TransportMask c AND TransportQUIC \<noteq> 0)
        in if hasTCP \<and> hasQUIC then ''quic/tcp'' else if hasQUIC then ''quic only'' else ''tcp only'')"

definition RecommendDualTunTransport :: "ServerHelloCaps option \<Rightarrow> bool \<Rightarrow> bool" where
  "RecommendDualTunTransport caps quicMuxWillBeUsed \<longleftrightarrow> quicMuxWillBeUsed \<and> ServerModeFromCaps caps = ''quic/tcp''"

definition InternetOK :: "(string \<Rightarrow> bool) \<Rightarrow> bool" where
  "InternetOK dials \<longleftrightarrow> list_ex dials [''8.8.8.8:443'', ''1.1.1.1:443'']"

section \<open>The mesh status\<close>

record NodeRow =
  nr_ID :: string
  nr_Class :: string
  nr_Endpoints :: string
  nr_Quic :: string
  nr_DhtRPC :: string
  nr_Srflx :: string
  nr_Turn :: string
  nr_Stake :: int

definition nodeRowFrom :: "RelayNode \<Rightarrow> NodeRow" where
  "nodeRowFrom n = \<lparr>nr_ID = rn_ID n, nr_Class = rn_Class n, nr_Endpoints = join_with '', '' (rn_Endpoints n), nr_Quic = rn_Quic n,
     nr_DhtRPC = rn_DhtRPC n, nr_Srflx = rn_Srflx n, nr_Turn = rn_Turn n, nr_Stake = rn_Stake n\<rparr>"

text \<open>Rows with an address first, then by stake, then by identifier; the sort is stable.\<close>

definition row_key :: "NodeRow \<Rightarrow> bool \<times> int \<times> string" where
  "row_key r = (trim_space (nr_Endpoints r) = [], - nr_Stake r, nr_ID r)"

definition gather_rows :: "RelayNode list \<Rightarrow> NodeRow list" where
  "gather_rows nearest = sort_key row_key (map nodeRowFrom nearest)"

text \<open>The documents of a cluster, as JSON gives them.\<close>

record map_node =
  mn_ID :: string
  mn_Endpoint :: string
  mn_Alive :: bool

record cluster_client =
  cl_ID :: string
  cl_PeerID :: string
  cl_Remote :: string
  cl_Owner :: string

definition node_key :: "map_node \<Rightarrow> bool \<times> string" where
  "node_key n = (\<not> mn_Alive n, trim_space (mn_ID n))"

definition node_line :: "map_node \<Rightarrow> string" where
  "node_line n =
     (let ep = trim_space (mn_Endpoint n)
      in trim_space (mn_ID n) @ (if ep \<noteq> [] then '' ('' @ ep @ '')'' else []) @ (if \<not> mn_Alive n then '' [down]'' else []))"

text \<open>Node, lines and time; \<open>None\<close> stands for the last result false.\<close>

definition parseClusterMap :: "(string \<Rightarrow> (string \<times> int \<times> map_node list) option) \<Rightarrow> string \<Rightarrow> (string \<times> string list \<times> int) option" where
  "parseClusterMap unmarshal raw =
     (let raw = trim_space raw in
      if raw = [] then None
      else case unmarshal raw of
             None \<Rightarrow> None
           | Some (node, at', ns) \<Rightarrow>
             Some (trim_space node, map node_line (filter (\<lambda>n. trim_space (mn_ID n) \<noteq> []) (sort_key node_key ns)), at'))"

definition parseClusterSessions :: "(string \<Rightarrow> (string \<times> int \<times> string list) option) \<Rightarrow> string \<Rightarrow> (string \<times> nat \<times> int) option" where
  "parseClusterSessions unmarshal raw =
     (let raw = trim_space raw in
      if raw = [] then None
      else map_option (\<lambda>(node, at', ss). (trim_space node, length ss, at')) (unmarshal raw))"

definition client_line :: "cluster_client \<Rightarrow> string" where
  "client_line c =
     (let i = trim_space (cl_ID c); peer = trim_space (cl_PeerID c); remote = trim_space (cl_Remote c); owner = trim_space (cl_Owner c)
      in i @ (if peer \<noteq> [] \<and> peer \<noteq> i then '' peerId='' @ peer else []) @ (if remote \<noteq> [] then '' remote='' @ remote else []) @
         (if owner \<noteq> [] then '' owner='' @ owner else []))"

definition parseClusterClients ::
  "(string \<Rightarrow> (string \<times> int \<times> cluster_client list) option) \<Rightarrow> string \<Rightarrow> (string \<times> string list \<times> int) option" where
  "parseClusterClients unmarshal raw =
     (let raw = trim_space raw in
      if raw = [] then None
      else map_option (\<lambda>(node, at', cs). (trim_space node, map client_line (filter (\<lambda>c. trim_space (cl_ID c) \<noteq> []) cs), at'))
             (unmarshal raw))"

definition maxAgeMs :: "int \<Rightarrow> int \<Rightarrow> int" where
  "maxAgeMs nowMs atMs = (if atMs \<le> 0 then 0 else let age = wrap64 (nowMs - atMs) in if age < 0 then 0 else age)"

text \<open>The clients shown: those of the cluster's document, or else the relays of the table; with them their source, node, time and age.\<close>

definition gather_clients ::
  "int \<Rightarrow> (string \<times> string list \<times> int) option \<Rightarrow> NodeRow list \<Rightarrow> string \<times> string \<times> string list \<times> int \<times> int" where
  "gather_clients nowMs cc rows =
     (case cc of
        Some (node, c # cs, at') \<Rightarrow> (''cluster'', node, c # cs, at', maxAgeMs nowMs at')
      | _ \<Rightarrow> (''dht_fallback'', [], filter (\<lambda>i. trim_space i \<noteq> []) (map nr_ID rows), 0, 0))"

definition protection_note :: "ProtectionOptions \<Rightarrow> string" where
  "protection_note po = join_with '','' (map snd (filter fst
     [(po_StandaloneDpiOnly po, ''standaloneDpi''), (po_AntiDpiWithVpn po, ''antiDpiWithVpn''), (po_DpiVolunteer po, ''dpiVolunteer''),
      (po_DpiVolterTransportObfuscate po, ''dpiVolterObfuscate'')]))"

section \<open>Lemmas: the probe\<close>

lemma conn_full_append: "length a = n \<Longrightarrow> conn_full e n (a @ s) = Inr (a, s)"
  by (simp add: conn_full_def)

definition hello_head :: "ServerHelloCaps \<Rightarrow> bytes" where
  "hello_head c = [hc_Version c, if hc_LegacyIPv6 c then 1 else 0, hc_TransportMask c] @
     be_put 2 (hc_FeatureBits c) @ be_put 2 (hc_QuicPort c) @ be_put 2 (hc_TCPPortHint c) @
     [hc_ObfsProfileID c, word_of_nat (length (hc_Nonce c))]"

lemma hello_head: "length (hello_head c) = 11" "hello_head c ! 0 = hc_Version c"
  "hello_head c ! 10 = word_of_nat (length (hc_Nonce c))"
  by (simp_all add: hello_head_def nth_append nth_Cons' del: be_put.simps)

lemma hello_wire: "caps_ok c \<Longrightarrow> wbytes (WriteServerHelloCaps c) = hello_head c @ hc_Nonce c @ caps_exts c"
  using WriteServerHelloCaps_bytes [of c] by (simp add: wr_simps hello_head_def)

text \<open>The probe takes the header and the nonce of a hello as they are; what follows goes to the reader of the pin.\<close>

lemma probe_reads_head:
  assumes "caps_ok c"
  shows "readProbeHelloPayload e (hello_head c @ hc_Nonce c @ s) = appendQuicPinExt e (hello_head c @ hc_Nonce c) s"
proof -
  let ?t = "tl (hello_head c)"
  have h: "hello_head c = [hc_Version c] @ ?t" "length ?t = 10" by (simp_all add: hello_head_def del: be_put.simps)
  have n: "length (hc_Nonce c) \<le> 32" using assms by (simp add: caps_ok_def)
  have u: "unat (hello_head c ! 10) = length (hc_Nonce c)" using n by (simp add: hello_head(3) unat_small)
  have r1: "conn_full e 1 (hello_head c @ hc_Nonce c @ s) = Inr ([hc_Version c], ?t @ hc_Nonce c @ s)"
    by (subst h(1)) (simp add: conn_full_def)
  have r2: "conn_full e (11 - 1) (?t @ hc_Nonce c @ s) = Inr (?t, hc_Nonce c @ s)" using h(2) by (intro conn_full_append) simp
  have r3: "conn_full e (length (hc_Nonce c)) (hc_Nonce c @ s) = Inr (hc_Nonce c, s)" by (rule conn_full_append) simp
  have "(11 - 1 :: nat) = 10" by simp
  note u' = u [folded this]
  show ?thesis
    unfolding readProbeHelloPayload_def HelloCapsHeaderLen_def Let_def
    by (simp only: r1 r2 r3 sum.case prod.case h(1) [symmetric] u')
      (use n in \<open>auto simp: HelloCapsMaxNonceLen_def\<close>)
qed

text \<open>The reader of the hello, on a header, a nonce and any extensions.\<close>

definition bare :: "ServerHelloCaps \<Rightarrow> ServerHelloCaps" where
  "bare c = c\<lparr>hc_QuicLeafPinSHA256 := [], hc_RelayClass := 0, hc_PathTTL := 0, hc_RelayFlags := 0\<rparr>"

lemma bare_ok: "caps_ok c \<Longrightarrow> caps_ok (bare c)" "caps_exts (bare c) = []" "hello_head (bare c) = hello_head c" "hc_Nonce (bare c) = hc_Nonce c"
  by (simp_all add: caps_ok_def bare_def caps_exts_def hello_head_def)

lemma read_bare: "caps_ok c \<Longrightarrow> ReadServerHelloCaps (hello_head c @ hc_Nonce c) = Inr (bare c)"
  using read_caps_written [OF bare_ok(1)] hello_wire [OF bare_ok(1)] by (simp add: bare_ok)

lemma read_cut_pin:
  assumes "caps_ok c" and "length pin = 31"
  shows "\<exists>err. ReadServerHelloCaps (hello_head c @ hc_Nonce c @ [1, 32] @ pin) = Inl err"
proof -
  have n: "length (hc_Nonce c) \<le> 32" using assms by (simp add: caps_ok_def)
  have u: "unat (hello_head c ! 10) = length (hc_Nonce c)" using n by (simp add: hello_head(3) unat_small)
  have r: "read_full 11 (hello_head c @ t) = Inr (hello_head c, t)" for t
    by (rule read_full_append) (rule hello_head)
  have l: "caps_ext_loop ([1, 32] @ pin) c0 = Inl (Error ''caps bad extension len'')" for c0
    using assms(2) by (simp add: caps_ext_loop.simps)
  have q: "(if length (hc_Nonce c) > 0 then read_full (length (hc_Nonce c)) (hc_Nonce c @ t) else Inr ([], hc_Nonce c @ t)) =
      Inr (hc_Nonce c, t)" for t by (auto simp: read_full_append)
  show ?thesis
    unfolding ReadServerHelloCaps_def
    using n by (simp only: r ebind_simps prod.case Let_def u q l) (auto simp: HelloCapsMaxNonceLen_def)
qed

lemma exts_start:
  "hc_QuicLeafPinSHA256 c \<noteq> [] \<Longrightarrow> caps_ok c \<Longrightarrow> \<exists>r. caps_exts c = [1, 32] @ hc_QuicLeafPinSHA256 c @ r"
  "hc_QuicLeafPinSHA256 c = [] \<Longrightarrow> caps_exts c = [] \<or> hd (caps_exts c) \<noteq> 1"
  by (auto simp: caps_exts_def appendTLV_def caps_ok_def caps_tags Let_def)

text \<open>A server with the token unmasks the greeting, resynchronises behind the junk and reads a handshake with a token that is not its own.\<close>

lemma probe_greeted:
  assumes "sha256 (str_bytes token) \<noteq> []"
    and "\<not> sublist magic (wbytes (WriteJunkOrTLSLike junk (probe_randInt draw 0 2 6) (probe_randInt draw 1 64 256)
        (probe_randInt draw 2 512 1024) [] [] True))"
    and "wfailed (WriteJunkOrTLSLike junk (probe_randInt draw 0 2 6) (probe_randInt draw 1 64 256)
        (probe_randInt draw 2 512 1024) [] [] True) = None"
  shows "ReadHandshakeAfterSkipWithOpts (fst (xc_Read (WrapConn sha256 token) (probe_greeting sha256 ms draw junk pad token))) =
    Inr ((\<lparr>hs_Role = roleUDP, hs_ChannelID = 0, hs_Token = ''probe-bad-token''\<rparr>, []), [])"
proof -
  let ?k = "keyFromToken sha256 token"
  let ?j = "WriteJunkOrTLSLike junk (probe_randInt draw 0 2 6) (probe_randInt draw 1 64 256) (probe_randInt draw 2 512 1024) [] [] True"
  let ?h = "WriteHandshakeWithPrefixAndOptsSlot ms pad roleUDP 0 ''probe-bad-token'' 0 []"
  have m: "fst (xorBytes ?k 0 (fst (xorBytes ?k 0 b))) = b" for b by (simp add: xorBytes_mask)
  have g: "fst (xc_Read (WrapConn sha256 token) (probe_greeting sha256 ms draw junk pad token)) = wbytes ?j @ wbytes ?h"
    using assms(3) by (simp add: probe_greeting_def xc_Write_def xc_Read_def WrapConn_def Let_def split_beta m xorBytes_mask WriteHandshake_def wr_simps)
  have f: "wfailed ?h = None"
    by (simp add: WriteHandshakeWithPrefixAndOptsSlot_def handshake_pad_def parseMagicSplit_def wr_simps Let_def del: be_put.simps)
  have p: "handshake_pad pad 0 = []" by (simp add: handshake_pad_def)
  show ?thesis unfolding g
    using handshake_read_back [OF f, of "wbytes ?j" "[]"] assms(2) by (simp add: p)
qed

section \<open>Lemmas: the status\<close>

text \<open>Picking a server in the list of the cluster's nodes gives the address of its line, when identifier and address have no brackets.\<close>

lemma set_trim_space: "set (trim_space s) \<subseteq> set s"
  using set_mono_suffix [OF trim_rev_suffix, of "rev (trim_left s)"] set_mono_suffix [OF trim_left_suffix, of s] by (auto simp: trim_space_def)

lemma server_of_node_line:
  assumes "CHR ''('' \<notin> set (mn_ID n)" and "trim_space (mn_Endpoint n) \<noteq> []" and "CHR '')'' \<notin> set (mn_Endpoint n)"
  shows "server_of_line (node_line n) = Inr (trim_space (mn_Endpoint n))"
proof -
  let ?ep = "trim_space (mn_Endpoint n)" and ?pre = "trim_space (mn_ID n) @ '' ''" and ?down = "if mn_Alive n then [] else '' [down]''"
  have w: "node_line n = ?pre @ CHR ''('' # ?ep @ CHR '')'' # ?down" using assms(2) by (simp add: node_line_def Let_def)
  have i: "index_byte (node_line n) (CHR ''('') = Some (length ?pre)"
    unfolding w by (rule index_byte_append) (use assms(1) set_trim_space [of "mn_ID n"] in auto)
  have w': "node_line n = (?pre @ CHR ''('' # ?ep) @ CHR '')'' # ?down" by (simp add: w)
  have k: "last_index (node_line n) (CHR '')'') = Some (length (?pre @ CHR ''('' # ?ep))"
    unfolding w' by (rule last_index_append) simp
  have "take (length (?pre @ CHR ''('' # ?ep) - (length ?pre + 1)) (drop (length ?pre + 1) (node_line n)) = ?ep" by (simp add: w)
  then show ?thesis unfolding server_of_line_def by (simp add: i k)
qed

text \<open>A node without an address gives its identifier, with the mark of a node that is down.\<close>

lemma addressless_line: "server_of_line (node_line \<lparr>mn_ID = ''n2'', mn_Endpoint = [], mn_Alive = False\<rparr>) = Inr ''n2 [down]''"
  by code_simp

section \<open>Properties\<close>

text \<open>
  C26. What the probe learns from a server that answers with its hello. Without a pin it learns the hello up to the nonce, without
  the extensions on relaying. With a pin it learns nothing: it takes the length byte of the extension for the first byte of the pin, so the hello it puts together
  ends within the pin and is not read; the server counts as one of unknown modes, and the version byte is taken for the answer about IPv6.
\<close>

theorem probe_sees:
  assumes "caps_ok c" and "trim_space token \<noteq> []"
  shows "ProbeVolterWithCaps token (Inr (None, wbytes (WriteServerHelloCaps c), e)) =
    Inr (if hc_QuicLeafPinSHA256 c = []
         then (True, hc_LegacyIPv6 c, Some (c\<lparr>hc_RelayClass := 0, hc_PathTTL := 0, hc_RelayFlags := 0\<rparr>))
         else (True, hc_Version c = 1, None))"
proof (cases "hc_QuicLeafPinSHA256 c = []")
  case True
  have "appendQuicPinExt e raw (caps_exts c) = Inr raw" for raw
    using exts_start(2) [OF True] by (cases "caps_exts c") (auto simp: appendQuicPinExt_def)
  then have "readProbeHelloPayload e (wbytes (WriteServerHelloCaps c)) = Inr (hello_head c @ hc_Nonce c)"
    by (simp only: hello_wire [OF assms(1)] probe_reads_head [OF assms(1)])
  moreover have "parseProbeCaps (hello_head c @ hc_Nonce c) = (True, hc_LegacyIPv6 (bare c), Some (bare c))"
    unfolding parseProbeCaps_def read_bare [OF assms(1)] using hello_head(1) [of c] by simp
  moreover have "bare c = c\<lparr>hc_RelayClass := 0, hc_PathTTL := 0, hc_RelayFlags := 0\<rparr>" using True by (cases c) (simp add: bare_def)
  ultimately show ?thesis using assms(2) True by (simp add: ProbeVolterWithCaps_def)
next
  case False
  let ?pin = "take 31 (hc_QuicLeafPinSHA256 c)" and ?w = "hello_head c @ hc_Nonce c"
  have l: "length (hc_QuicLeafPinSHA256 c) = 32" using assms(1) False by (simp add: caps_ok_def)
  obtain r where r: "caps_exts c = [1, 32] @ hc_QuicLeafPinSHA256 c @ r" using exts_start(1) [OF False assms(1)] by blast
  have "conn_full e 32 (32 # hc_QuicLeafPinSHA256 c @ r) = Inr (32 # ?pin, drop 31 (hc_QuicLeafPinSHA256 c) @ r)"
    using l by (simp add: conn_full_def take_Cons' drop_Cons')
  then have "appendQuicPinExt e raw (caps_exts c) = Inr (raw @ [1, 32] @ ?pin)" for raw by (simp add: appendQuicPinExt_def r)
  then have p: "readProbeHelloPayload e (wbytes (WriteServerHelloCaps c)) = Inr (?w @ [1, 32] @ ?pin)"
    by (simp only: hello_wire [OF assms(1)] probe_reads_head [OF assms(1)])
  obtain err where "ReadServerHelloCaps (?w @ [1, 32] @ ?pin) = Inl err" using read_cut_pin [OF assms(1), of ?pin] l by auto
  moreover have "(?w @ x) ! 0 = hc_Version c" for x using hello_head(1,2) [of c] by (simp add: nth_append)
  ultimately have "parseProbeCaps (?w @ [1, 32] @ ?pin) = (True, hc_Version c = 1, None)"
    unfolding parseProbeCaps_def using hello_head(1) [of c] by (simp del: append_assoc add: append_assoc [symmetric])
  then show ?thesis using assms(2) False p by (simp add: ProbeVolterWithCaps_def)
qed

section \<open>Instances\<close>

definition demo_pinned :: ServerHelloCaps where
  "demo_pinned = \<lparr>hc_Version = 2, hc_LegacyIPv6 = True, hc_TransportMask = 3, hc_FeatureBits = 1, hc_QuicPort = 7443,
     hc_TCPPortHint = 0, hc_ObfsProfileID = 0, hc_Nonce = [9], hc_QuicLeafPinSHA256 = replicate 32 7, hc_RelayClass = 1,
     hc_PathTTL = 0, hc_RelayFlags = 0\<rparr>"

text \<open>A server with both transports and IPv6 counts as one of unknown modes without IPv6.\<close>

lemma probe_sees_witness:
  "ProbeVolterWithCaps ''t'' (Inr (None, wbytes (WriteServerHelloCaps demo_pinned), ConnTimeout)) = Inr (True, False, None) \<and>
   ServerModeFromCaps None = ''unknown'' \<and> ServerModeFromCaps (Some demo_pinned) = ''quic/tcp''"
proof -
  have "caps_ok demo_pinned" by (simp add: caps_ok_def demo_pinned_def)
  moreover have "trim_space ''t'' \<noteq> []" by code_simp
  ultimately have "ProbeVolterWithCaps ''t'' (Inr (None, wbytes (WriteServerHelloCaps demo_pinned), ConnTimeout)) = Inr (True, False, None)"
    using probe_sees [of demo_pinned "''t''" ConnTimeout] by (simp add: demo_pinned_def)
  moreover have "ServerModeFromCaps None = ''unknown''" "ServerModeFromCaps (Some demo_pinned) = ''quic/tcp''" by code_simp+
  ultimately show ?thesis by simp
qed

end
