(* ===== verification/Terminal.thy ===== *)
theory Terminal
  imports Status
begin

text \<open>
  How the terminal interface keeps its connection (\<^verbatim>\<open>internal/tui/model.go\<close>: \<^verbatim>\<open>Update\<close> as far as it touches the status, the stop
  function and the active profile, and \<^verbatim>\<open>tryConnect\<close>), what goes on when its window is closed (\<^verbatim>\<open>runHeadless\<close> of \<^verbatim>\<open>cmd/volter-client/tui.go\<close>),
  the state kept for the next start (\<^verbatim>\<open>internal/ipc/state.go\<close>) and the messages to and from the controlling process (\<^verbatim>\<open>internal/ipc/ipc.go\<close>).
  A handler of the interface gives the new model and the effects it asks for; a step relation runs them: a dial goes on beside the
  interface and its result waits until it is read. Sessions are numbered in the order in which they start.
\<close>

section \<open>The model of the interface\<close>

datatype ui_status = statusDisconnected | statusConnecting | statusConnected

record ui =
  ui_status :: ui_status
  ui_stop :: "nat option"
  ui_active :: string
  ui_err :: string
  ui_count :: int

text \<open>What the handlers look at: the local and the cloud profiles, the files, what the probes told of the cloud's servers.\<close>

record ui_env =
  ue_local :: "(string \<times> Config) list"
  ue_cloud :: "(string \<times> Config) list"
  ue_saved :: "string \<Rightarrow> Config option"
  ue_mode :: "string \<Rightarrow> string"
  ue_ipv6 :: "string \<Rightarrow> bool"
  ue_connectFn :: bool

datatype ui_effect = StopSession nat | DialProfile Config string int | NoProfile string | SendStatus string | QuitProgram

datatype ui_msg = EnterConfig int | EnterCloud int | WatchdogReconnect | ConnectedMsg nat | DisconnectedMsg | ErrMsg string
  | IpcCommand string | AutoConnect string | ConfirmUpdate | QuitKey

definition NewModel :: "bool \<Rightarrow> string \<Rightarrow> ui" where
  "NewModel isUp profile =
     \<lparr>ui_status = (if isUp then statusConnected else statusDisconnected), ui_stop = None,
      ui_active = (if isUp then trim_space profile else []), ui_err = [], ui_count = 0\<rparr>"

definition call_stop :: "ui \<Rightarrow> ui \<times> ui_effect list" where
  "call_stop m = (case ui_stop m of None \<Rightarrow> (m, []) | Some i \<Rightarrow> (m\<lparr>ui_stop := None\<rparr>, [StopSession i]))"

text \<open>A profile of the cloud: its saved form when it is the same server, with the defaults for the server's mode.\<close>

definition cloud_profile :: "ui_env \<Rightarrow> string \<Rightarrow> Config \<Rightarrow> Config" where
  "cloud_profile ue name cfg =
     ApplyCloudConnectDefaults (ue_mode ue name) (ue_ipv6 ue name)
       (case ue_saved ue name of
          Some saved \<Rightarrow> if cf_Server saved = cf_Server cfg \<and> cf_Token saved = cf_Token cfg then saved else cfg
        | None \<Rightarrow> cfg)"

definition configSnapshotForActive :: "ui_env \<Rightarrow> string \<Rightarrow> Config option" where
  "configSnapshotForActive ue name =
     (if name = [] then None
      else case ue_saved ue name of
        Some saved \<Rightarrow> Some saved
      | None \<Rightarrow>
        (case map_of (ue_local ue) name of
           Some cfg \<Rightarrow> Some cfg
         | None \<Rightarrow> map_option (cloud_profile ue name) (map_of (ue_cloud ue) name)))"

definition start_dial :: "Config \<Rightarrow> string \<Rightarrow> ui \<Rightarrow> ui \<times> ui_effect list" where
  "start_dial cfg name m =
     (m\<lparr>ui_status := statusConnecting, ui_err := [], ui_active := name, ui_count := ui_count m + 1\<rparr>, [DialProfile cfg name (ui_count m)])"

text \<open>The key Enter on a row of a list of profiles.\<close>

definition press_enter :: "(string \<Rightarrow> Config \<Rightarrow> Config) \<Rightarrow> bool \<Rightarrow> (string \<times> Config) list \<Rightarrow> int \<Rightarrow> ui \<Rightarrow> ui \<times> ui_effect list" where
  "press_enter prep connectFn rows idx m =
     (let idx = (if idx < 0 then 0 else idx) in
      if \<not> connectFn \<or> rows = [] \<or> idx \<ge> int (length rows) \<or> ui_status m = statusConnecting then (m, [])
      else if ui_status m = statusConnected then
        let profile = ui_active m; (m, es) = call_stop m
        in (m\<lparr>ui_status := statusDisconnected, ui_active := [], ui_err := []\<rparr>, es @ [SendStatus (''status:disconnected:'' @ profile)])
      else let (name, cfg) = rows ! nat idx in start_dial (prep name cfg) name m)"

definition tryConnect :: "ui_env \<Rightarrow> string \<Rightarrow> ui \<Rightarrow> ui \<times> ui_effect list" where
  "tryConnect ue name m =
     (let found = (case map_of (ue_local ue) name of
            Some cfg \<Rightarrow> Some cfg
          | None \<Rightarrow> map_option (cloud_profile ue name) (map_of (ue_cloud ue) name))
      in case found of
           None \<Rightarrow> (m, [NoProfile name])
         | Some cfg \<Rightarrow>
           let (m, es) = (if ui_status m = statusConnected then call_stop m else (m, []));
               (m, es') = start_dial cfg name m
           in (m, es @ es'))"

definition ipc_command :: "ui_env \<Rightarrow> string \<Rightarrow> ui \<Rightarrow> ui \<times> ui_effect list" where
  "ipc_command ue cmd m =
     (if cmd = ''disconnect'' then
        let (m, es) = call_stop m in (m\<lparr>ui_status := statusDisconnected, ui_active := [], ui_err := []\<rparr>, es)
      else if has_prefix cmd ''connect:'' then tryConnect ue (drop 8 cmd) m
      else if cmd = ''quit'' then let (m, es) = call_stop m in (m, es @ [QuitProgram])
      else (m, []))"

text \<open>
  \<open>ConfirmUpdate\<close> is the answer yes to an update, \<open>QuitKey\<close> the key that leaves when no form is open.
\<close>

fun ui_Update :: "ui_env \<Rightarrow> ui_msg \<Rightarrow> ui \<Rightarrow> ui \<times> ui_effect list" where
  "ui_Update ue (EnterConfig idx) m = press_enter (\<lambda>name cfg. cfg) (ue_connectFn ue) (ue_local ue) idx m"
| "ui_Update ue (EnterCloud idx) m = press_enter (cloud_profile ue) (ue_connectFn ue) (ue_cloud ue) idx m"
| "ui_Update ue WatchdogReconnect m =
     (if \<not> ue_connectFn ue \<or> ui_status m \<noteq> statusConnected \<or> ui_active m = [] then (m, [])
      else case configSnapshotForActive ue (ui_active m) of
        None \<Rightarrow> (m, [])
      | Some cfg \<Rightarrow> let (m, es) = call_stop m; (m, es') = start_dial cfg (ui_active m) m in (m, es @ es'))"
| "ui_Update ue (ConnectedMsg i) m = (m\<lparr>ui_status := statusConnected, ui_stop := Some i\<rparr>, [])"
| "ui_Update ue DisconnectedMsg m = (m\<lparr>ui_status := statusDisconnected, ui_stop := None, ui_active := []\<rparr>, [])"
| "ui_Update ue (ErrMsg e) m = (m\<lparr>ui_status := statusDisconnected, ui_stop := None, ui_err := e, ui_active := []\<rparr>, [])"
| "ui_Update ue (IpcCommand cmd) m = ipc_command ue cmd m"
| "ui_Update ue (AutoConnect name) m = tryConnect ue name m"
| "ui_Update ue ConfirmUpdate m =
     (let (m, es) = call_stop m in (m\<lparr>ui_status := statusDisconnected, ui_active := []\<rparr>, es))"
| "ui_Update ue QuitKey m = (let (m, es) = call_stop m in (m, es @ [QuitProgram]))"

section \<open>The interface at work\<close>

text \<open>Beside the model: the dials under way, the results not yet read, the sessions that run, the next number.\<close>

record desk =
  dk_ui :: ui
  dk_dials :: "(Config \<times> string \<times> int) list"
  dk_mail :: "ui_msg list"
  dk_running :: "nat set"
  dk_next :: nat
  dk_over :: bool

fun run_effect :: "ui_effect \<Rightarrow> desk \<Rightarrow> desk" where
  "run_effect (StopSession i) d = d\<lparr>dk_running := dk_running d - {i}\<rparr>"
| "run_effect (DialProfile cfg name n) d = d\<lparr>dk_dials := dk_dials d @ [(cfg, name, n)]\<rparr>"
| "run_effect (NoProfile name) d = d\<lparr>dk_mail := dk_mail d @ [ErrMsg (''Profile not found: '' @ name)]\<rparr>"
| "run_effect (SendStatus s) d = d"
| "run_effect QuitProgram d = d\<lparr>dk_over := True\<rparr>"

definition desk_handle :: "ui_env \<Rightarrow> ui_msg \<Rightarrow> desk \<Rightarrow> desk" where
  "desk_handle ue msg d = (let (m, es) = ui_Update ue msg (dk_ui d) in fold run_effect es (d\<lparr>dk_ui := m\<rparr>))"

text \<open>
  A step: something happens outside that the interface is told of, a dial ends (\<^verbatim>\<open>waitConnect\<close>), or a result is read. \<open>happens\<close> says
  what may happen outside, in which state of the model.
\<close>

inductive desk_step :: "(ui_env \<Rightarrow> ui_msg \<Rightarrow> ui \<Rightarrow> bool) \<Rightarrow> desk \<Rightarrow> desk \<Rightarrow> bool" for happens where
  outside: "\<not> dk_over d \<Longrightarrow> happens ue msg (dk_ui d) \<Longrightarrow> desk_step happens d (desk_handle ue msg d)"
| dialled: "c \<in> set (dk_dials d) \<Longrightarrow> desk_step happens d
    (d\<lparr>dk_dials := remove1 c (dk_dials d), dk_running := insert (dk_next d) (dk_running d), dk_next := dk_next d + 1,
       dk_mail := dk_mail d @ [ConnectedMsg (dk_next d)]\<rparr>)"
| failed: "c \<in> set (dk_dials d) \<Longrightarrow> desk_step happens d
    (d\<lparr>dk_dials := remove1 c (dk_dials d), dk_mail := dk_mail d @ [ErrMsg e]\<rparr>)"
| told: "\<not> dk_over d \<Longrightarrow> msg \<in> set (dk_mail d) \<Longrightarrow>
    desk_step happens d (desk_handle ue msg (d\<lparr>dk_mail := remove1 msg (dk_mail d)\<rparr>))"

definition desk_start :: "bool \<Rightarrow> string \<Rightarrow> desk" where
  "desk_start isUp profile =
     \<lparr>dk_ui = NewModel isUp profile, dk_dials = [], dk_mail = [], dk_running = {}, dk_next = 0, dk_over = False\<rparr>"

section \<open>Without a window\<close>

record State =
  st_Connected :: bool
  st_Profile :: string
  st_PID :: int

definition SetConnected :: "int \<Rightarrow> bool \<Rightarrow> string \<Rightarrow> State" where
  "SetConnected pid isUp profile = \<lparr>st_Connected = isUp, st_Profile = profile, st_PID = (if isUp then pid else 0)\<rparr>"

text \<open>The state found at the start; \<open>alive\<close> is the look into \<^verbatim>\<open>/proc\<close>, and a file that is not there leaves the empty state.\<close>

definition InitState :: "(int \<Rightarrow> bool) \<Rightarrow> State option \<Rightarrow> State" where
  "InitState alive file =
     (case file of
        None \<Rightarrow> SetConnected 0 False []
      | Some s \<Rightarrow> if st_Connected s \<and> st_PID s > 0 \<and> \<not> alive (st_PID s) then SetConnected 0 False [] else s)"

record headless =
  hl_stop :: "nat option"
  hl_profile :: string
  hl_alive :: bool
  hl_file :: State
  hl_running :: "nat set"
  hl_over :: bool

datatype headless_in = Signalled | CommandsClosed | Command string

definition hl_call_stop :: "headless \<Rightarrow> headless" where
  "hl_call_stop h =
     (case hl_stop h of
        None \<Rightarrow> h
      | Some i \<Rightarrow> h\<lparr>hl_stop := None, hl_profile := [], hl_alive := False, hl_running := hl_running h - {i}\<rparr>)"

text \<open>\<open>vpn\<close>: the outcome of \<^verbatim>\<open>connectVPN\<close>, the number of the session it started.\<close>

definition runHeadless ::
  "int \<Rightarrow> (string \<Rightarrow> Config option) \<Rightarrow> (Config \<Rightarrow> string \<Rightarrow> go_error + nat) \<Rightarrow> headless_in \<Rightarrow> headless \<Rightarrow> headless" where
  "runHeadless pid load vpn inp h =
     (if hl_over h then h
      else case inp of
        Signalled \<Rightarrow> (hl_call_stop h)\<lparr>hl_over := True\<rparr>
      | CommandsClosed \<Rightarrow> h\<lparr>hl_over := True\<rparr>
      | Command cmd \<Rightarrow>
        if cmd = ''disconnect'' then
          (hl_call_stop h)\<lparr>hl_stop := None, hl_profile := [], hl_alive := False, hl_file := SetConnected pid False []\<rparr>
        else if has_prefix cmd ''connect:'' then
          (let name = drop 8 cmd in
           case load name of
             None \<Rightarrow> h
           | Some cfg \<Rightarrow>
             let h = hl_call_stop h in
             case vpn cfg name of
               Inl e \<Rightarrow> h\<lparr>hl_file := SetConnected pid False name\<rparr>
             | Inr i \<Rightarrow> h\<lparr>hl_stop := Some i, hl_profile := name, hl_alive := True, hl_running := insert i (hl_running h),
                 hl_file := SetConnected pid True name\<rparr>)
        else if cmd = ''quit'' then (hl_call_stop h)\<lparr>hl_over := True\<rparr>
        else h)"

section \<open>Messages to and from the controlling process\<close>

datatype MessageType = MsgTypeStatus | MsgTypeCommand | MsgTypeConnect | MsgTypeDisconnect | MsgTypePing | MsgTypePong | MsgTypeQuit

record ipc_message =
  im_Type :: MessageType
  im_Profile :: string
  im_Connected :: bool
  im_Error :: string
  im_Timestamp :: int

text \<open>The two writes of \<^verbatim>\<open>Send\<close> and of \<^verbatim>\<open>Broadcast\<close>.\<close>

definition ipc_Send :: "(ipc_message \<Rightarrow> bytes) \<Rightarrow> int \<Rightarrow> ipc_message \<Rightarrow> bytes list" where
  "ipc_Send marshal now msg =
     (let data = marshal (msg\<lparr>im_Timestamp := now\<rparr>) in [be_put 4 (word_of_nat (length data) :: u32), data])"

text \<open>
  One read of a connection whose bytes come in \<open>chunks\<close>: what is there, up to the size of the buffer; a read into an empty buffer
  returns at once. The buffer keeps its zeros behind what was read.
\<close>

fun conn_read :: "nat \<Rightarrow> bytes list \<Rightarrow> (bytes \<times> bytes list) option" where
  "conn_read n [] = (if n = 0 then Some ([], []) else None)"
| "conn_read n (c # cs) =
     (if n = 0 then Some ([], c # cs)
      else if c = [] then conn_read n cs
      else Some (take n c @ replicate (n - length c) 0, if n < length c then drop n c # cs else cs))"

lemma conn_read_shorter:
  "conn_read n cs = Some (b, cs') \<Longrightarrow> length (concat cs') \<le> length (concat cs) \<and> (0 < n \<longrightarrow> length (concat cs') < length (concat cs))"
  by (induction n cs rule: conn_read.induct) (auto split: if_splits)

text \<open>The messages handed to the handler until the connection ends; one that cannot be decoded is passed over.\<close>

function handleConnection :: "(bytes \<Rightarrow> ipc_message option) \<Rightarrow> bytes list \<Rightarrow> ipc_message list" where
  "handleConnection unmarshal cs =
     (case conn_read 4 cs of
        None \<Rightarrow> []
      | Some (lenBuf, cs) \<Rightarrow>
        case conn_read (unat (be_get lenBuf :: u32)) cs of
          None \<Rightarrow> []
        | Some (data, cs) \<Rightarrow>
          (case unmarshal data of
             None \<Rightarrow> handleConnection unmarshal cs
           | Some msg \<Rightarrow> msg # handleConnection unmarshal cs))"
  by pat_completeness auto
termination
  by (relation "measure (\<lambda>(unmarshal, cs). length (concat cs))") (auto dest!: conn_read_shorter)

declare handleConnection.simps [simp del]

definition ipc_Receive :: "(bytes \<Rightarrow> ipc_message option) \<Rightarrow> bytes list \<Rightarrow> (ipc_message option \<times> bytes list) option" where
  "ipc_Receive unmarshal cs =
     (case conn_read 4 cs of
        None \<Rightarrow> None
      | Some (lenBuf, cs) \<Rightarrow>
        map_option (\<lambda>(data, cs). (unmarshal data, cs)) (conn_read (unat (be_get lenBuf :: u32)) cs))"

text \<open>What a message becomes in the interface: a command put into the channel when there is room.\<close>

definition tuiIPCListener :: "ipc_message \<Rightarrow> string list \<Rightarrow> string list" where
  "tuiIPCListener msg chan =
     (let put = (\<lambda>cmd. if length chan < 10 then chan @ [cmd] else chan) in
      case im_Type msg of
        MsgTypeDisconnect \<Rightarrow> put ''disconnect''
      | MsgTypeConnect \<Rightarrow> put (''connect:'' @ im_Profile msg)
      | MsgTypeQuit \<Rightarrow> put ''quit''
      | _ \<Rightarrow> chan)"

text \<open>A broadcast drops the clients one of whose two writes fails.\<close>

definition Broadcast :: "('c \<Rightarrow> bytes \<Rightarrow> bool) \<Rightarrow> (ipc_message \<Rightarrow> bytes) \<Rightarrow> int \<Rightarrow> ipc_message \<Rightarrow> 'c list \<Rightarrow> 'c list" where
  "Broadcast write marshal now msg clients = filter (\<lambda>c. list_all (write c) (ipc_Send marshal now msg)) clients"

section \<open>Lemmas: the interface\<close>

inductive_cases desk_stepE [elim]: "desk_step happens d d'"

text \<open>Events that keep to the order of the interface: no command while a connection is being made, and only for profiles it knows.\<close>

definition knows :: "ui_env \<Rightarrow> string \<Rightarrow> bool" where
  "knows ue name \<longleftrightarrow> map_of (ue_local ue) name \<noteq> None \<or> map_of (ue_cloud ue) name \<noteq> None"

fun calm :: "ui_env \<Rightarrow> ui_msg \<Rightarrow> ui \<Rightarrow> bool" where
  "calm ue (EnterConfig _) m = True"
| "calm ue (EnterCloud _) m = True"
| "calm ue WatchdogReconnect m = True"
| "calm ue (IpcCommand cmd) m =
     (ui_status m \<noteq> statusConnecting \<and> (if has_prefix cmd ''connect:'' then knows ue (drop 8 cmd) else True))"
| "calm ue (AutoConnect name) m = (ui_status m \<noteq> statusConnecting \<and> knows ue name)"
| "calm ue ConfirmUpdate m = (ui_status m \<noteq> statusConnecting)"
| "calm ue QuitKey m = (ui_status m \<noteq> statusConnecting)"
| "calm ue _ m = False"

text \<open>What then holds: one connection at most, in one of the places where it can be.\<close>

definition tidy :: "desk \<Rightarrow> bool" where
  "tidy d = (case ui_status (dk_ui d) of
     statusDisconnected \<Rightarrow> ui_stop (dk_ui d) = None \<and> dk_dials d = [] \<and> dk_mail d = [] \<and> dk_running d = {}
   | statusConnected \<Rightarrow> dk_dials d = [] \<and> dk_mail d = [] \<and> dk_running d = set_option (ui_stop (dk_ui d))
   | statusConnecting \<Rightarrow> ui_stop (dk_ui d) = None \<and>
       (length (dk_dials d) = 1 \<and> dk_mail d = [] \<and> dk_running d = {} \<or>
        dk_dials d = [] \<and> (\<exists>e. dk_mail d = [ErrMsg e]) \<and> dk_running d = {} \<or>
        dk_dials d = [] \<and> (\<exists>i. dk_mail d = [ConnectedMsg i] \<and> dk_running d = {i})))"

text \<open>A state of the model without a connection under way, with its sessions.\<close>

definition idle :: "desk \<Rightarrow> bool" where
  "idle d \<longleftrightarrow> dk_dials d = [] \<and> dk_mail d = [] \<and> dk_running d = set_option (ui_stop (dk_ui d))"

lemma tidy_idle: "tidy d \<Longrightarrow> ui_status (dk_ui d) \<noteq> statusConnecting \<Longrightarrow> idle d"
  by (auto simp: tidy_def idle_def split: ui_status.splits)

lemma idle_tryConnect:
  assumes "idle d" "knows ue name" "ui_status (dk_ui d) = statusConnected \<or> ui_stop (dk_ui d) = None"
  shows "tidy (case tryConnect ue name (dk_ui d) of (m, es) \<Rightarrow> fold run_effect es (d\<lparr>dk_ui := m\<rparr>))"
  using assms by (auto simp: tryConnect_def start_dial_def call_stop_def knows_def idle_def tidy_def Let_def split: option.splits)

lemma idle_enter:
  assumes "idle d" "ui_status (dk_ui d) = statusConnected \<or> ui_stop (dk_ui d) = None" "ui_status (dk_ui d) \<noteq> statusConnecting" "tidy d"
  shows "tidy (case press_enter prep f rows idx (dk_ui d) of (m, es) \<Rightarrow> fold run_effect es (d\<lparr>dk_ui := m\<rparr>))"
  using assms
  by (auto simp: press_enter_def start_dial_def call_stop_def idle_def tidy_def Let_def split: option.splits prod.splits ui_status.splits)

lemma tidy_stop: "tidy d \<Longrightarrow> ui_status (dk_ui d) = statusConnected \<or> ui_stop (dk_ui d) = None"
  by (auto simp: tidy_def split: ui_status.splits)

lemma tidy_outside:
  assumes "tidy d" "calm ue msg (dk_ui d)"
  shows "tidy (desk_handle ue msg d)"
proof (cases "ui_status (dk_ui d) = statusConnecting")
  case True
  then have "msg = WatchdogReconnect \<or> (\<exists>i. msg = EnterConfig i) \<or> (\<exists>i. msg = EnterCloud i)" using assms(2) by (cases msg) auto
  then have "ui_Update ue msg (dk_ui d) = (dk_ui d, [])" using True by (auto simp: press_enter_def Let_def)
  then show ?thesis using assms(1) by (simp add: desk_handle_def)
next
  case False
  note I = tidy_idle [OF assms(1) False] and S = tidy_stop [OF assms(1)]
  show ?thesis
  proof (cases msg)
    case (EnterConfig i) then show ?thesis using idle_enter [OF I S False assms(1)] by (simp add: desk_handle_def)
  next
    case (EnterCloud i) then show ?thesis using idle_enter [OF I S False assms(1)] by (simp add: desk_handle_def)
  next
    case WatchdogReconnect
    then show ?thesis using I S False assms(1)
      by (auto simp: desk_handle_def start_dial_def call_stop_def idle_def tidy_def Let_def split: option.splits ui_status.splits)
  next
    case (AutoConnect n) then show ?thesis using idle_tryConnect [OF I _ S] assms(2) by (simp add: desk_handle_def)
  next
    case (IpcCommand c)
    then show ?thesis using idle_tryConnect [OF I _ S] assms(2) I S False
      by (auto simp: desk_handle_def ipc_command_def call_stop_def idle_def tidy_def Let_def split: option.splits ui_status.splits)
  next
    case QuitKey then show ?thesis using I S False
      by (auto simp: desk_handle_def call_stop_def idle_def tidy_def Let_def split: option.splits ui_status.splits)
  next
    case ConfirmUpdate then show ?thesis using I S
      by (auto simp: desk_handle_def call_stop_def idle_def tidy_def Let_def split: option.splits ui_status.splits)
  qed (use assms(2) in simp_all)
qed

lemma tidy_step: "desk_step calm d d' \<Longrightarrow> tidy d \<Longrightarrow> tidy d'"
proof (erule desk_stepE)
  fix ue msg assume "d' = desk_handle ue msg d" "calm ue msg (dk_ui d)" "tidy d"
  then show "tidy d'" using tidy_outside by simp
next
  fix ue msg assume h: "d' = desk_handle ue msg (d\<lparr>dk_mail := remove1 msg (dk_mail d)\<rparr>)" "msg \<in> set (dk_mail d)" "tidy d"
  then show "tidy d'" by (auto simp: tidy_def desk_handle_def split: ui_status.splits)
qed (auto simp: tidy_def length_Suc_conv split: ui_status.splits)

text \<open>A session the interface has no way to stop stays so: none of its handlers stops any session but the one it has the function of.\<close>

definition orphan :: "nat \<Rightarrow> desk \<Rightarrow> bool" where
  "orphan i d \<longleftrightarrow> i \<in> dk_running d \<and> ui_stop (dk_ui d) \<noteq> Some i \<and> ConnectedMsg i \<notin> set (dk_mail d) \<and> i < dk_next d"

fun genuine :: "ui_env \<Rightarrow> ui_msg \<Rightarrow> ui \<Rightarrow> bool" where
  "genuine ue (ConnectedMsg _) m = False"
| "genuine ue _ m = True"

lemma orphan_handle:
  assumes "orphan i d" "msg \<noteq> ConnectedMsg i"
  shows "orphan i (desk_handle ue msg d)"
  using assms
  by (cases msg)
    (auto simp: orphan_def desk_handle_def ipc_command_def press_enter_def tryConnect_def start_dial_def call_stop_def Let_def
      split: option.splits prod.splits if_splits)

lemma orphan_step: "desk_step genuine d d' \<Longrightarrow> orphan i d \<Longrightarrow> orphan i d'"
proof (erule desk_stepE)
  fix ue msg assume "d' = desk_handle ue msg d" "genuine ue msg (dk_ui d)" "orphan i d"
  moreover have "msg \<noteq> ConnectedMsg i" using calculation by auto
  ultimately show "orphan i d'" using orphan_handle by simp
next
  fix ue msg assume h: "d' = desk_handle ue msg (d\<lparr>dk_mail := remove1 msg (dk_mail d)\<rparr>)" "msg \<in> set (dk_mail d)" "orphan i d"
  then have "orphan i (d\<lparr>dk_mail := remove1 msg (dk_mail d)\<rparr>)" using set_remove1_subset [of msg "dk_mail d"] by (auto simp: orphan_def)
  moreover have "msg \<noteq> ConnectedMsg i" using h by (auto simp: orphan_def)
  ultimately show "orphan i d'" using h(1) orphan_handle by simp
qed (auto simp: orphan_def)

lemma orphan_stays: "(desk_step genuine)\<^sup>*\<^sup>* d d' \<Longrightarrow> orphan i d \<Longrightarrow> orphan i d'"
  by (induction rule: rtranclp_induct) (auto intro: orphan_step)

text \<open>A second connection overwrites the function that stops the first.\<close>

lemma second_session_orphans_first:
  assumes "ui_stop (dk_ui d) = Some i" "i \<in> dk_running d" "i < dk_next d" "i \<noteq> j" "ConnectedMsg i \<notin> set (dk_mail d)"
  shows "orphan i (desk_handle ue (ConnectedMsg j) d)"
  using assms by (simp add: orphan_def desk_handle_def)

section \<open>Lemmas: headless and messages\<close>

definition hl_ok :: "int \<Rightarrow> headless \<Rightarrow> bool" where
  "hl_ok pid h \<longleftrightarrow> hl_running h = set_option (hl_stop h) \<and>
     (hl_over h \<or> st_Connected (hl_file h) = (hl_stop h \<noteq> None)) \<and> (st_Connected (hl_file h) \<longrightarrow> st_PID (hl_file h) = pid)"

lemma hl_ok_step: "hl_ok pid h \<Longrightarrow> hl_ok pid (runHeadless pid load vpn inp h)"
  by (auto simp: hl_ok_def runHeadless_def hl_call_stop_def SetConnected_def Let_def
      split: headless_in.splits option.splits sum.splits)

lemma conn_read_first:
  assumes "concat pieces = t # ts" "list_all (\<lambda>p. p \<noteq> []) pieces" "list_all (\<lambda>b. b \<noteq> []) (t # ts)"
  shows "\<exists>ps. conn_read (length t) (map concat pieces) = Some (t, map concat ps) \<and> concat ps = ts \<and> list_all (\<lambda>p. p \<noteq> []) ps"
proof -
  obtain us ps where p: "pieces = (t # us) # ps" using assms(1,2) by (cases pieces; cases "hd pieces") auto
  have ts: "ts = us @ concat ps" using assms(1) p by simp
  have u: "concat us = [] \<longleftrightarrow> us = []" using assms(3) ts by (cases us) auto
  show ?thesis
    by (rule exI [of _ "if us = [] then ps else us # ps"]) (use assms u ts p in auto)
qed

lemma be_put4: "be_put 4 w \<noteq> []"
  using length_be_put [of 4 w] by force

lemma sent_parts:
  "list_all (\<lambda>(now, msg). marshal (msg\<lparr>im_Timestamp := now\<rparr>) \<noteq> []) ms \<Longrightarrow>
    list_all (\<lambda>b. b \<noteq> []) (concat (map (\<lambda>(now, msg). ipc_Send marshal now msg) ms))"
  by (induction ms) (auto simp: ipc_Send_def Let_def be_put4 simp del: be_put.simps)

lemma handle_end: "handleConnection unmarshal [] = []"
  by (subst handleConnection.simps) simp

text \<open>A read that ends within a message loses it and all that follow: half of the length came first.\<close>

lemma ipc_short_read:
  assumes "unmarshal [] = None"
  shows "handleConnection unmarshal [[0, 0], [0, 2, 7, 7]] = []" and "unmarshal [7, 7] = Some m \<Longrightarrow> handleConnection unmarshal [[0, 0, 0, 2], [7, 7]] = [m]"
proof -
  have "(be_get [0, 2, 7, 7] :: u32) \<noteq> 0" by code_simp
  then have n: "conn_read (unat (be_get [0, 2, 7, 7] :: u32)) [] = None" by (simp add: unsigned_eq_0_iff)
  have r: "unat (be_get [0, 0, 0, 0] :: u32) = 0" "unat (be_get [0, 0, 0, 2] :: u32) = 2" by code_simp+
  have c: "conn_read 4 [[0, 0], [0, 2, 7, 7]] = Some ([0, 0, 0, 0], [[0, 2, 7, 7]])" "conn_read 0 [[0, 2, 7, 7]] = Some ([], [[0, 2, 7, 7]])"
    "conn_read 4 [[0, 2, 7, 7]] = Some ([0, 2, 7, 7], [])"
    "conn_read 4 [[0, 0, 0, 2], [7, 7]] = Some ([0, 0, 0, 2], [[7, 7]])" "conn_read 2 [[7, 7]] = Some ([7, 7], [])"
    by (simp_all add: numeral_eq_Suc)
  have "handleConnection unmarshal [[0, 2, 7, 7]] = []" by (subst handleConnection.simps) (simp only: c n r option.case prod.case)
  then show "handleConnection unmarshal [[0, 0], [0, 2, 7, 7]] = []"
    by (subst handleConnection.simps) (simp only: c r assms option.case prod.case)
  show "unmarshal [7, 7] = Some m \<Longrightarrow> handleConnection unmarshal [[0, 0, 0, 2], [7, 7]] = [m]"
    by (subst handleConnection.simps) (simp only: c r option.case prod.case handle_end)
qed

section \<open>Properties\<close>

text \<open>
  C24. As long as no command comes while a connection is being made and none names an unknown profile, the interface keeps one session at
  most, whatever keys are pressed, whichever dials fail and whenever the watchdog calls: none runs when it shows that it is disconnected, and the one
  that runs when it shows that it is connected is the one its stop function ends.
\<close>

theorem one_session:
  assumes "(desk_step calm)\<^sup>*\<^sup>* (desk_start isUp profile) d"
  shows "finite (dk_running d) \<and> card (dk_running d) \<le> 1 \<and>
    (case ui_status (dk_ui d) of
       statusDisconnected \<Rightarrow> dk_running d = {}
     | statusConnected \<Rightarrow> dk_running d = set_option (ui_stop (dk_ui d))
     | statusConnecting \<Rightarrow> length (dk_dials d) + length (dk_mail d) = 1)"
proof -
  have "tidy (desk_start isUp profile)" by (simp add: tidy_def desk_start_def NewModel_def)
  with assms have "tidy d" by (induction rule: rtranclp_induct) (auto intro: tidy_step)
  moreover have "finite (set_option x) \<and> card (set_option x) \<le> 1" for x :: "nat option" by (cases x) auto
  ultimately show ?thesis by (auto simp: tidy_def split: ui_status.splits)
qed

text \<open>
  C25. A command to connect to a profile that does not exist loses the session that runs: the message that there is no such profile
  makes the interface forget the session without stopping it, and nothing it does afterwards, whatever happens, stops that session.
\<close>

theorem session_lost:
  assumes "ui_stop (dk_ui d) = Some i" "i \<in> dk_running d" "i < dk_next d" "dk_mail d = []" "\<not> knows ue name"
    and "m = ErrMsg (''Profile not found: '' @ name)"
    and "d1 = desk_handle ue (IpcCommand (''connect:'' @ name)) d" and "d2 = desk_handle ue m (d1\<lparr>dk_mail := remove1 m (dk_mail d1)\<rparr>)"
    and "(desk_step genuine)\<^sup>*\<^sup>* d2 d'"
  shows "dk_mail d1 = [m] \<and> i \<in> dk_running d' \<and> ui_stop (dk_ui d') \<noteq> Some i"
proof -
  have d1: "d1 = d\<lparr>dk_mail := [m]\<rparr>"
    using assms(4,5) by (simp add: assms(6,7) desk_handle_def ipc_command_def tryConnect_def knows_def)
  then have "orphan i d2" using assms(1-3) by (simp add: assms(6,8) orphan_def desk_handle_def)
  from orphan_stays [OF assms(9) this] show ?thesis using d1 by (simp add: orphan_def)
qed

text \<open>
  While the window is closed, the session that runs is the one that is remembered, and the file says that one runs exactly when it does;
  and when the process is gone, whatever it left in the file, the next start does not take it for connected.
\<close>

theorem headless_sound:
  assumes "hl_ok pid h" and "0 < pid"
    and "h' = fold (\<lambda>(load, vpn, inp). runHeadless pid load vpn inp) steps h"
  shows "hl_running h' = set_option (hl_stop h') \<and> (hl_over h' \<or> st_Connected (hl_file h') = (hl_stop h' \<noteq> None)) \<and>
    (alive pid \<or> \<not> st_Connected (InitState alive (Some (hl_file h'))))"
proof -
  have "hl_ok pid (fold (\<lambda>(load, vpn, inp). runHeadless pid load vpn inp) steps h)"
    using assms(1) by (induction steps arbitrary: h) (auto simp: hl_ok_step)
  then show ?thesis using assms(2) unfolding assms(3) hl_ok_def by (auto simp: InitState_def SetConnected_def)
qed

text \<open>
  The messages arrive, in order, when no read ends within one of the two parts in which a message is written: however many parts come together.
\<close>

theorem ipc_delivers:
  assumes "concat pieces = concat (map (\<lambda>(now, msg). ipc_Send marshal now msg) ms)" and "list_all (\<lambda>p. p \<noteq> []) pieces"
    and "list_all (\<lambda>(now, msg). let s = msg\<lparr>im_Timestamp := now\<rparr>; b = marshal s in b \<noteq> [] \<and> length b < 2 ^ 32 \<and> unmarshal b = Some s) ms"
  shows "handleConnection unmarshal (map concat pieces) = map (\<lambda>(now, msg). msg\<lparr>im_Timestamp := now\<rparr>) ms"
  using assms
proof (induction ms arbitrary: pieces)
  case Nil
  then have "pieces = []" by (cases pieces) auto
  then show ?case by (simp add: handle_end)
next
  case (Cons x ms)
  obtain now msg where x: "x = (now, msg)" by (cases x)
  let ?s = "msg\<lparr>im_Timestamp := now\<rparr>" and ?tok = "concat (map (\<lambda>(now, msg). ipc_Send marshal now msg) ms)"
  let ?b = "marshal ?s" and ?h = "be_put 4 (word_of_nat (length (marshal ?s)) :: u32)"
  have b: "?b \<noteq> []" "length ?b < 2 ^ 32" "unmarshal ?b = Some ?s" using Cons.prems(3) by (simp_all add: x Let_def)
  have tok: "concat pieces = ?h # ?b # ?tok" using Cons.prems(1) by (simp add: x ipc_Send_def Let_def)
  have ne: "list_all (\<lambda>b. b \<noteq> []) ?tok"
    by (rule sent_parts) (use Cons.prems(3) in \<open>auto simp: list_all_iff Let_def\<close>)
  have ne': "list_all (\<lambda>b. b \<noteq> []) (?h # ?b # ?tok)" using ne b(1) be_put4 by (simp del: be_put.simps)
  obtain ps where p: "conn_read (length ?h) (map concat pieces) = Some (?h, map concat ps)" "concat ps = ?b # ?tok" "list_all (\<lambda>p. p \<noteq> []) ps"
    using conn_read_first [OF tok Cons.prems(2) ne'] by blast
  have ne2: "list_all (\<lambda>b. b \<noteq> []) (?b # ?tok)" using ne b(1) by simp
  obtain qs where q: "conn_read (length ?b) (map concat ps) = Some (?b, map concat qs)" "concat qs = ?tok" "list_all (\<lambda>p. p \<noteq> []) qs"
    using conn_read_first [OF p(2,3) ne2] by blast
  have u: "unat (be_get ?h :: u32) = length ?b" using b(2) by (simp add: unat_small del: be_put.simps)
  have "handleConnection unmarshal (map concat qs) = map (\<lambda>(now, msg). msg\<lparr>im_Timestamp := now\<rparr>) ms"
    using Cons.IH [OF q(2,3)] Cons.prems(3) by simp
  moreover have "conn_read 4 (map concat pieces) = Some (?h, map concat ps)" using p(1) by (simp del: be_put.simps)
  ultimately show ?case
    by (subst handleConnection.simps) (simp only: u q(1) b(3) x option.case prod.case list.map)
qed

section \<open>Instances\<close>

definition demo_ue :: ui_env where
  "demo_ue = \<lparr>ue_local = [(''home'', cf_zero)], ue_cloud = [], ue_saved = \<lambda>_. None, ue_mode = \<lambda>_. [], ue_ipv6 = \<lambda>_. False,
     ue_connectFn = True\<rparr>"

text \<open>The interface connected to its only profile, in session 0.\<close>

definition demo_desk :: desk where
  "demo_desk = \<lparr>dk_ui = \<lparr>ui_status = statusConnected, ui_stop = Some 0, ui_active = ''home'', ui_err = [], ui_count = 1\<rparr>,
     dk_dials = [], dk_mail = [], dk_running = {0}, dk_next = 1, dk_over = False\<rparr>"

lemma demo_reached: "(desk_step calm)\<^sup>*\<^sup>* (desk_start False []) demo_desk"
proof -
  let ?d0 = "desk_start False []"
  let ?d1 = "desk_handle demo_ue (EnterConfig 0) ?d0"
  let ?d2 = "\<lparr>dk_ui = \<lparr>ui_status = statusConnecting, ui_stop = None, ui_active = ''home'', ui_err = [], ui_count = 1\<rparr>,
      dk_dials = [], dk_mail = [ConnectedMsg 0], dk_running = {0}, dk_next = 1, dk_over = False\<rparr>"
  have e: "desk_start False [] = \<lparr>dk_ui = \<lparr>ui_status = statusDisconnected, ui_stop = None, ui_active = [], ui_err = [], ui_count = 0\<rparr>,
      dk_dials = [], dk_mail = [], dk_running = {}, dk_next = 0, dk_over = False\<rparr>"
    by (simp add: desk_start_def NewModel_def)
  have d1: "?d1 = \<lparr>dk_ui = \<lparr>ui_status = statusConnecting, ui_stop = None, ui_active = ''home'', ui_err = [], ui_count = 1\<rparr>,
      dk_dials = [(cf_zero, ''home'', 0)], dk_mail = [], dk_running = {}, dk_next = 0, dk_over = False\<rparr>"
    by (simp add: e desk_handle_def press_enter_def start_dial_def demo_ue_def Let_def)
  have "desk_step calm ?d0 ?d1" by (rule desk_step.outside) (simp_all add: e)
  moreover have "desk_step calm ?d1 ?d2"
    using desk_step.dialled [of "(cf_zero, ''home'', 0)" ?d1 calm] by (simp add: d1)
  moreover have "desk_step calm ?d2 demo_desk"
    using desk_step.told [of ?d2 "ConnectedMsg 0" calm demo_ue] by (simp add: desk_handle_def demo_desk_def)
  ultimately show ?thesis by (meson rtranclp.rtrancl_refl rtranclp.rtrancl_into_rtrancl)
qed

lemma one_session_witness: "finite (dk_running demo_desk) \<and> card (dk_running demo_desk) \<le> 1 \<and> dk_running demo_desk = set_option (Some 0)"
  using one_session [OF demo_reached] by (simp add: demo_desk_def)

lemma session_lost_witness:
  "let m = ErrMsg (''Profile not found: '' @ ''hime''); d1 = desk_handle demo_ue (IpcCommand (''connect:'' @ ''hime'')) demo_desk;
     d2 = desk_handle demo_ue m (d1\<lparr>dk_mail := remove1 m (dk_mail d1)\<rparr>)
   in dk_mail d1 = [m] \<and> 0 \<in> dk_running d2 \<and> ui_stop (dk_ui d2) \<noteq> Some 0"
  unfolding Let_def
  by (rule session_lost [of demo_desk 0 demo_ue "''hime''", OF _ _ _ _ _ refl refl refl rtranclp.rtrancl_refl])
    (simp_all add: demo_desk_def knows_def demo_ue_def)

text \<open>Two commands to connect, one after the other: both sessions run, and the first cannot be stopped any more.\<close>

lemma two_sessions:
  "let d = desk_handle demo_ue (IpcCommand ''connect:home'') (desk_handle demo_ue (IpcCommand ''connect:home'') (desk_start False []))
   in length (dk_dials d) = 2 \<and> dk_running d = {}"
  by (simp add: desk_handle_def ipc_command_def tryConnect_def start_dial_def demo_ue_def desk_start_def NewModel_def Let_def)

end
