(* ===== verification/Spec2Isabelle.thy ===== *)
theory Spec2Isabelle
  imports Preamble PeerFrame Obfuscate Mesh ConfigUri PeerRelay ServerSide Shaper Flow Session Opening LocalProxy Terminal
begin

text \<open>
  Volter is a tunnel: a client that carries connections over TCP, QUIC or UDP to a server or
  through other clients (peers), with its traffic disguised, and a mesh of relays found by signed lists, gossip and
  a distributed hash table. This development models the Go code of the client under \<^verbatim>\<open>src/internal\<close>.

  \<^bold>\<open>The shared vocabulary.\<close> \<open>Prelude\<close>: bytes, big-endian integers, the 64-bit wrap-around of Go's \<^verbatim>\<open>int\<close>
  (\<open>wrap64\<close>), readers (\<open>rd\<close>: bytes to an error or a value and the rest), writers (\<open>wout\<close>: the writes made
  and the error that stopped them), instants, Go maps (\<open>gomap\<close>: association lists, whose order stands for the order of a
  \<^verbatim>\<open>range\<close> loop). \<open>GoStd\<close> and \<open>GoUrl\<close>: the functions of \<^verbatim>\<open>strings\<close>, \<^verbatim>\<open>strconv\<close>, \<^verbatim>\<open>encoding/base64\<close>,
  \<^verbatim>\<open>encoding/hex\<close> and \<^verbatim>\<open>net\<close> the code calls. \<open>GoFloat\<close>: \<^verbatim>\<open>float64\<close> as rationals rounded to 53 bits.
  \<open>Interfaces\<close>: the locales \<open>stream_codec\<close> (a message format that can be read back from a stream) and
  \<open>replay_guard\<close> (a memory that turns down what it has seen), interpreted where the code provides them.

  \<^bold>\<open>The wire.\<close> \<open>Protocol\<close> and \<open>Messages\<close> (\<^verbatim>\<open>protocol/protocol.go\<close>): handshake, capability hello, TCP connect, hop
  acknowledgements, UDP frames. \<open>Preamble\<close> (\<^verbatim>\<open>protocol/preamble_write.go\<close>): the junk that precedes a handshake.
  \<open>PeerFrame\<close> (\<^verbatim>\<open>peertransport\<close>): frames between peers and the assembler of chunked messages. \<open>Obfuscate\<close>
  (\<^verbatim>\<open>obfuscate\<close>): the XOR and the sealed connection. \<open>Dexote\<close> (\<^verbatim>\<open>dexote\<close>): the key exchange. Their lemmas show that
  what one side writes the other reads, from a stream of such messages and behind any preamble; that no input
  makes a reader index out of range; and that both ends of the key exchange agree and refuse replays.

  \<^bold>\<open>The mesh.\<close> \<open>Discovery\<close> (\<^verbatim>\<open>discovery\<close>): signed lists, gossip, the country filter. \<open>Dht\<close> and \<open>DhtRpc\<close> (\<^verbatim>\<open>dht\<close>):
  routing table, value store, datagrams and the iterative look-up. \<open>Stake\<close> (\<^verbatim>\<open>stake\<close>): registry, reputation,
  bonus and Merkle overrides of a relay's stake. \<open>Ice\<close> (\<^verbatim>\<open>ice\<close>): STUN and TURN. The lemmas are the invariants of the
  table and the store, that every loop ends, that look-ups return the nearest contacts, that merging keeps the newest
  usable record, and that an override without a proof is not taken.

  \<^bold>\<open>The configuration.\<close> \<open>Protection\<close> and \<open>Mesh\<close> (\<^verbatim>\<open>config/config.go\<close>, \<^verbatim>\<open>mesh.go\<close>, \<^verbatim>\<open>mesh_defaults.go\<close>): presets,
  merging, defaults and the migration of profiles. \<open>ConfigUri\<close> (\<^verbatim>\<open>config.go\<close>, \<^verbatim>\<open>cloud.go\<close>, \<^verbatim>\<open>peer_ticket.go\<close>,
  \<^verbatim>\<open>quic_pin.go\<close>): links, key files, the cloud list and the ticket store. Nullable settings are options, the large
  structs records with one field per field of the code, updated field by field.

  \<^bold>\<open>The tunnel.\<close> \<open>PathManager\<close> (\<^verbatim>\<open>tunnel/path_manager.go\<close>): what is remembered of each destination and the decision for
  the next connection. \<open>RouteHops\<close> (\<^verbatim>\<open>route_hops.go\<close>, \<^verbatim>\<open>relay_prot.go\<close>, the option functions of \<^verbatim>\<open>preamble.go\<close>): a decision
  becomes a plan of hops and the options a relay reads. \<open>PeerRelay\<close> (\<^verbatim>\<open>peer_udp_listener.go\<close>,
  \<^verbatim>\<open>peer_relay_forward.go\<close>): the relay itself, its sessions as a step relation, whom it admits, and the chain of relays
  a connection passes.

  \<^bold>\<open>Connections.\<close> \<open>Selectors\<close> (\<^verbatim>\<open>dual_selector.go\<close>, \<^verbatim>\<open>peer_selector.go\<close>, \<^verbatim>\<open>shaper.go\<close>, \<^verbatim>\<open>telemetry\<close>): the small machines that
  choose a transport and a peer, meter bytes and keep the last events; they are shown to refine what they stand for. \<open>Dialing\<close>
  (\<^verbatim>\<open>tunnel.go\<close>, \<^verbatim>\<open>dexote_dial.go\<close>, \<^verbatim>\<open>peer_udp.go\<close>, \<^verbatim>\<open>quic_resolve.go\<close>): a connection to a server or a peer over each
  transport, with the attempts made as a log. \<open>Flow\<close> (\<^verbatim>\<open>preamble.go\<close>, \<^verbatim>\<open>clusteraddr\<close>): one TCP flow from the decision to the
  open link; its theorems follow the log of attempts and of reports. \<open>Control\<close> (\<^verbatim>\<open>vpn\<close>, \<^verbatim>\<open>routeorch\<close>): directives, the preferred
  server, the orchestrator and the handler that starts a flow.

  \<^bold>\<open>A session.\<close> \<open>Cluster\<close> (\<^verbatim>\<open>vpn/cluster_*.go\<close>, \<^verbatim>\<open>watchdog.go\<close>): what a client polls from its cluster, the addresses it
  finds there, and the watchdog. \<open>MeshFeed\<close> (\<^verbatim>\<open>relay_bootstrap.go\<close>, \<^verbatim>\<open>gossip_mesh.go\<close>, \<^verbatim>\<open>dht_rpc.go\<close>): the tasks that fill the routing
  table, as folds over their rounds and as a step relation on the shared table. \<open>Background\<close> (\<^verbatim>\<open>control_store_forward.go\<close>,
  \<^verbatim>\<open>presence_dht.go\<close>, \<^verbatim>\<open>emergency_policy.go\<close>, \<^verbatim>\<open>managed_auth.go\<close>, \<^verbatim>\<open>volunteer\<close>, \<^verbatim>\<open>metrics\<close>): the other tasks. \<open>UdpMux\<close> (\<^verbatim>\<open>vpn.go\<close>): the
  channels that carry UDP and the flows registered with them. \<open>Session\<close> (\<^verbatim>\<open>vpn.go\<close>, \<^verbatim>\<open>peer_socket.go\<close>): the socket shared by STUN and the relay,
  the start and the end of a session. Their lemmas show that these loops end and keep the shared state sound, that what is
  published is found again, that answers reach the flow they belong to, and what a failed start leaves behind.

  \<^bold>\<open>Openings and the local proxy.\<close> \<open>Opening\<close> (\<^verbatim>\<open>tunnel/preamble.go\<close>, \<^verbatim>\<open>peer_udp.go\<close>): the junk and the handshake that open a
  stream, and what a relay makes of them: its main theorem joins the handshake, the framing, the relay options and the relay.
  \<open>LocalProxy\<close> (\<^verbatim>\<open>dpiengine\<close>, \<^verbatim>\<open>proxy\<close>): the SOCKS dialogue, the tunnel it leads to, and the engine that cuts the first bytes of a
  connection, whose writes are a list of actions. \<open>Forms\<close> (\<^verbatim>\<open>tui\<close>): the forms of the terminal interface as lists of texts, what
  they show and what is saved. \<open>Status\<close> (\<^verbatim>\<open>probe\<close>, \<^verbatim>\<open>meshstatus\<close>): what the probe of a server learns, what a status shows. \<open>Terminal\<close>
  (\<^verbatim>\<open>tui/model.go\<close>, \<^verbatim>\<open>cmd/volter-client/tui.go\<close>, \<^verbatim>\<open>ipc\<close>): the connection kept by the interface, as a machine whose dials end at any time, the
  loop without a window and the messages of the control socket.

  \<^bold>\<open>The server and the shaper.\<close> \<open>ServerSide\<close> (\<^verbatim>\<open>internal/server\<close>): configuration, validation of a client's options, rotation of the
  wire profile. \<open>Shaper\<close> (\<^verbatim>\<open>internal/shaper\<close>): target lengths and delays from a Markov chain, with the bounds every decision keeps.

  \<^bold>\<open>Bounds and fuel.\<close> Recursion ends by structure or by a measure; the loops over the routing table that the code leaves
  when the table is within its bound carry fuel equal to the number of entries, which is proved to be enough. Counters that
  grow by one per event (failures, attempts) are unbounded integers.

  \<^bold>\<open>Not modelled.\<close> Sockets, TLS, QUIC, the cryptographic primitives and JSON are arguments of the definitions, with what
  the code relies on as hypotheses where a theorem needs it. Of the terminal interface (\<^verbatim>\<open>tui\<close>) the widgets, the keys and the
  layout are left out; of the commands (\<^verbatim>\<open>cmd\<close>) all but the loop without a window; of a session the copying goroutines, the set-up
  of the DHT sidecar and the QUIC client; of the probe and the status the timing of pings, DNS and the text shown. The Android binding, routes
  and adapters of the operating system (\<^verbatim>\<open>netcfg\<close>, \<^verbatim>\<open>tun\<close>, \<^verbatim>\<open>sysproxy\<close>), updates and logging are glue around libraries and
  the system. The app and the server in other languages are not part of this model.
\<close>

end
